(* ===== verification/Skylet_Prelude.thy ===== *)
theory Skylet_Prelude
  imports Main "HOL-Library.Word" "HOL-Library.Char_ord" "HOL-Library.List_Lexorder"
    "HOL-Library.AList" "HOL-Library.Sublist"
begin

text \<open>
  What every component shares: the machine integers of the Rust sources as words, Rust's
  \<open>Result\<close> as a sum, \<open>std::cmp::Ordering\<close> with the contract of a lawful \<open>Ord\<close>
  implementation, and the string functions of the standard library that the sources call
  (\<open>split\<close>, \<open>split_once\<close>, \<open>trim\<close>, \<open>strip_prefix\<close>, \<open>parse::<u64>\<close>, ...).

  A Rust \<open>String\<close> is the list of its UTF-8 bytes, an Isabelle \<open>string\<close>; its comparison is
  the lexicographic order on bytes, as \<open>str::cmp\<close> is. A \<open>HashMap\<close> that the code only looks up
  is a partial map; one that the code iterates is an association list whose order stands for the
  unspecified iteration order. Theorems about code that iterates a map hold for every order,
  since they assume no more than distinct keys.
\<close>

section \<open>Types\<close>

type_synonym u16 = "16 word"
type_synonym u32 = "32 word"
type_synonym u64 = "64 word"
type_synonym usize = "64 word"
type_synonym ('k, 'v) hashmap = "('k \<times> 'v) list"

text \<open>\<open>saturating_sub\<close> of an unsigned type.\<close>

definition saturating_sub :: "'a::len word \<Rightarrow> 'a word \<Rightarrow> 'a word" where
  "saturating_sub a b = (if a < b then 0 else a - b)"

lemma saturating_sub_unat: "unat (saturating_sub a b) = unat a - unat b"
  by (auto simp: saturating_sub_def unat_sub word_less_nat_alt not_less word_le_nat_alt)

abbreviation Err :: "'e \<Rightarrow> 'e + 'a" where
  "Err \<equiv> Inl"

abbreviation Ok :: "'a \<Rightarrow> 'e + 'a" where
  "Ok \<equiv> Inr"

abbreviation hm_get :: "('k, 'v) hashmap \<Rightarrow> 'k \<Rightarrow> 'v option" where
  "hm_get \<equiv> map_of"

abbreviation hm_insert :: "'k \<Rightarrow> 'v \<Rightarrow> ('k, 'v) hashmap \<Rightarrow> ('k, 'v) hashmap" where
  "hm_insert \<equiv> AList.update"

abbreviation hm_keys :: "('k, 'v) hashmap \<Rightarrow> 'k list" where
  "hm_keys m \<equiv> map fst m"

named_theorems str_simps \<open>facts on the string functions of the standard library\<close>

lemma set_update_subset: "set (hm_insert k v m) \<subseteq> insert (k, v) (set m)"
  by (induction m) auto

lemma hm_insert_fresh: "hm_get m k = None \<Longrightarrow> hm_insert k v m = m @ [(k, v)]"
  by (induction m) (auto split: if_splits)

text \<open>\<open>HashMap::retain\<close> after the values were changed.\<close>

lemma map_of_retain:
  "distinct (hm_keys m) \<Longrightarrow> map_of (filter (\<lambda>(k, v). P v) (map (\<lambda>(k, v). (k, f v)) m)) k
     = (case map_of m k of None \<Rightarrow> None | Some v \<Rightarrow> if P (f v) then Some (f v) else None)"
proof (induction m)
  case (Cons a m)
  have "map_of m (fst a) = None" using Cons.prems by (simp add: map_of_eq_None_iff)
  then show ?case using Cons by (auto split: option.splits prod.splits)
qed simp

section \<open>Results\<close>

fun collect_results :: "('a \<Rightarrow> 'e + 'b) \<Rightarrow> 'a list \<Rightarrow> 'e + 'b list" where
  "collect_results f [] = Ok []"
| "collect_results f (x # xs) =
     (case f x of Err e \<Rightarrow> Err e
      | Ok y \<Rightarrow> (case collect_results f xs of Err e \<Rightarrow> Err e | Ok ys \<Rightarrow> Ok (y # ys)))"

lemma collect_results_Ok_iff:
  "collect_results f xs = Ok ys \<longleftrightarrow> list_all2 (\<lambda>x y. f x = Ok y) xs ys"
proof (induction xs arbitrary: ys)
  case Nil
  then show ?case by auto
next
  case (Cons x xs)
  show ?case
    by (cases ys; cases "f x"; cases "collect_results f xs") (auto simp: Cons.IH [symmetric])
qed

lemma collect_results_map_Ok:
  "(\<And>y. y \<in> set ys \<Longrightarrow> f (g y) = Ok y) \<Longrightarrow> collect_results f (map g ys) = Ok ys"
  by (simp add: collect_results_Ok_iff list_all2_conv_all_nth)

lemma collect_results_length:
  "collect_results f xs = Ok ys \<Longrightarrow> length ys = length xs"
  by (auto simp: collect_results_Ok_iff list_all2_lengthD)

lemma collect_results_total:
  "(\<And>x. x \<in> set xs \<Longrightarrow> \<exists>y. f x = Ok y) \<Longrightarrow> \<exists>ys. collect_results f xs = Ok ys"
proof (induction xs)
  case (Cons x xs)
  then obtain y ys where "f x = Ok y" "collect_results f xs = Ok ys" by (metis list.set_intros)
  then show ?case by simp
qed simp

lemma collect_results_Ok_set:
  "collect_results f xs = Ok ys \<Longrightarrow> y \<in> set ys \<Longrightarrow> \<exists>x\<in>set xs. f x = Ok y"
  by (auto simp: collect_results_Ok_iff list_all2_conv_all_nth in_set_conv_nth) (metis nth_mem)

lemma collect_results_Ok_each:
  "collect_results f xs = Ok ys \<Longrightarrow> x \<in> set xs \<Longrightarrow> \<exists>y. f x = Ok y"
  by (induction xs arbitrary: ys) (auto split: sum.splits)

text \<open>The \<open>?\<close> operator: an error returns from the function at once.\<close>

definition result_bind :: "'e + 'a \<Rightarrow> ('a \<Rightarrow> 'e + 'b) \<Rightarrow> 'e + 'b" where
  "result_bind r f = (case r of Err e \<Rightarrow> Err e | Ok x \<Rightarrow> f x)"

lemma result_bind_simps [simp]:
  "result_bind (Err e) f = Err e"
  "result_bind (Ok x) f = f x"
  by (simp_all add: result_bind_def)

lemma result_bind_Ok_iff [simp]:
  "result_bind r f = Ok y \<longleftrightarrow> (\<exists>x. r = Ok x \<and> f x = Ok y)"
  by (cases r) auto

definition map_err :: "('e \<Rightarrow> 'f) \<Rightarrow> 'e + 'a \<Rightarrow> 'f + 'a" where
  "map_err h r = (case r of Err e \<Rightarrow> Err (h e) | Ok x \<Rightarrow> Ok x)"

lemma map_err_simps [simp]:
  "map_err h (Err e) = Err (h e)"
  "map_err h (Ok x) = Ok x"
  by (simp_all add: map_err_def)

lemma map_err_Ok_iff [simp]: "map_err h r = Ok y \<longleftrightarrow> r = Ok y"
  by (cases r) auto

definition ok_or :: "'e \<Rightarrow> 'a option \<Rightarrow> 'e + 'a" where
  "ok_or e x = (case x of None \<Rightarrow> Err e | Some y \<Rightarrow> Ok y)"

lemma ok_or_simps [simp]:
  "ok_or e None = Err e"
  "ok_or e (Some y) = Ok y"
  by (simp_all add: ok_or_def)

lemma ok_or_Ok_iff [simp]: "ok_or e x = Ok y \<longleftrightarrow> x = Some y"
  by (cases x) auto

section \<open>Ordering and the contract of \<open>Ord\<close>\<close>

datatype ordering = OLess | OEqual | OGreater

fun ord_reverse :: "ordering \<Rightarrow> ordering" where
  "ord_reverse OLess = OGreater"
| "ord_reverse OEqual = OEqual"
| "ord_reverse OGreater = OLess"

text \<open>\<open>match a.cmp(b) { Equal => next, ord => return ord }\<close>\<close>

fun ord_then :: "ordering \<Rightarrow> ordering \<Rightarrow> ordering" where
  "ord_then OEqual k = k"
| "ord_then OLess k = OLess"
| "ord_then OGreater k = OGreater"

definition cmp_of :: "'a::linorder \<Rightarrow> 'a \<Rightarrow> ordering" where
  "cmp_of x y = (if x < y then OLess else if x = y then OEqual else OGreater)"

lemma cmp_of_simps [simp]:
  "cmp_of x y = OLess \<longleftrightarrow> x < y"
  "cmp_of x y = OEqual \<longleftrightarrow> x = y"
  "cmp_of x y = OGreater \<longleftrightarrow> y < x"
  "cmp_of x x = OEqual"
  by (auto simp: cmp_of_def)

lemma ord_reverse_reverse [simp]: "ord_reverse (ord_reverse o1) = o1"
  by (cases o1) auto

lemma ord_reverse_then [simp]:
  "ord_reverse (ord_then o1 o2) = ord_then (ord_reverse o1) (ord_reverse o2)"
  by (cases o1) auto

lemma ord_then_eq_iff [simp]:
  "ord_then o1 o2 = OEqual \<longleftrightarrow> o1 = OEqual \<and> o2 = OEqual"
  "ord_then o1 o2 = OLess \<longleftrightarrow> o1 = OLess \<or> (o1 = OEqual \<and> o2 = OLess)"
  "ord_then o1 o2 = OGreater \<longleftrightarrow> o1 = OGreater \<or> (o1 = OEqual \<and> o2 = OGreater)"
  by (cases o1; simp)+

lemma ord_reverse_eq_iff [simp]:
  "ord_reverse o1 = OLess \<longleftrightarrow> o1 = OGreater"
  "ord_reverse o1 = OGreater \<longleftrightarrow> o1 = OLess"
  "ord_reverse o1 = OEqual \<longleftrightarrow> o1 = OEqual"
  by (cases o1; simp)+

text \<open>\<open>Iterator::max\<close> and \<open>Iterator::min\<close> on a non-empty iterator: the last of the greatest and the
  first of the least elements.\<close>

definition max_by :: "('a \<Rightarrow> 'a \<Rightarrow> ordering) \<Rightarrow> 'a \<Rightarrow> 'a list \<Rightarrow> 'a" where
  "max_by cmp x xs = foldl (\<lambda>a b. if cmp a b = OGreater then a else b) x xs"

definition min_by :: "('a \<Rightarrow> 'a \<Rightarrow> ordering) \<Rightarrow> 'a \<Rightarrow> 'a list \<Rightarrow> 'a" where
  "min_by cmp x xs = foldl (\<lambda>a b. if cmp a b = OGreater then b else a) x xs"

text \<open>
  What Rust's documentation asks of an \<open>Ord\<close> implementation: reversing the arguments reverses
  the result, \<open>Less\<close> is transitive and \<open>Equal\<close> is a congruence. Reflexivity follows.
\<close>

locale rust_ord =
  fixes cmp :: "'a \<Rightarrow> 'a \<Rightarrow> ordering"
  assumes cmp_reverse: "cmp y x = ord_reverse (cmp x y)"
    and cmp_less_trans: "cmp x y = OLess \<Longrightarrow> cmp y z = OLess \<Longrightarrow> cmp x z = OLess"
    and cmp_equal_subst: "cmp x y = OEqual \<Longrightarrow> cmp x z = cmp y z"
begin

lemma cmp_refl: "cmp x x = OEqual"
  using cmp_reverse [of x x] by (cases "cmp x x") auto

lemma cmp_greater_iff: "cmp x y = OGreater \<longleftrightarrow> cmp y x = OLess"
  using cmp_reverse [of x y] by simp

lemma cmp_equal_sym: "cmp x y = OEqual \<longleftrightarrow> cmp y x = OEqual"
  using cmp_reverse [of x y] by simp

lemma cmp_equal_subst2: "cmp x y = OEqual \<Longrightarrow> cmp z x = cmp z y"
  using cmp_equal_subst [of x y z] cmp_reverse by metis

lemma cmp_le_trans:
  assumes "cmp x y \<noteq> OGreater" and "cmp y z \<noteq> OGreater"
  shows "cmp x z \<noteq> OGreater"
proof (cases "cmp x y")
  case OLess
  show ?thesis
  proof (cases "cmp y z")
    case OLess
    with \<open>cmp x y = OLess\<close> show ?thesis using cmp_less_trans [of x y z] by simp
  next
    case OEqual
    with \<open>cmp x y = OLess\<close> show ?thesis using cmp_equal_subst2 [of y z x] by simp
  qed (use assms in simp)
next
  case OEqual
  with assms show ?thesis using cmp_equal_subst [of x y z] by simp
qed (use assms in simp)

lemma cmp_total: "cmp x y \<noteq> OGreater \<or> cmp y x \<noteq> OGreater"
  using cmp_greater_iff [of x y] by auto

lemma max_by_max:
  "max_by cmp x xs \<in> set (x # xs) \<and> (\<forall>y\<in>set (x # xs). cmp y (max_by cmp x xs) \<noteq> OGreater)"
proof (induction xs arbitrary: x)
  case (Cons b xs)
  let ?c = "if cmp x b = OGreater then x else b"
  have step: "max_by cmp x (b # xs) = max_by cmp ?c xs" by (simp add: max_by_def)
  have pick: "cmp x ?c \<noteq> OGreater" "cmp b ?c \<noteq> OGreater"
    using cmp_refl cmp_total [of x b] by auto
  have trans: "cmp z (max_by cmp ?c xs) \<noteq> OGreater" if "cmp z ?c \<noteq> OGreater" for z
    using cmp_le_trans [OF that, of "max_by cmp ?c xs"] Cons.IH [of ?c] by simp
  have "max_by cmp ?c xs \<in> set (x # b # xs)" using Cons.IH [of ?c] by (auto split: if_splits)
  with trans [OF pick(1)] trans [OF pick(2)] Cons.IH [of ?c] show ?case
    unfolding step by simp
qed (simp add: max_by_def cmp_refl)

lemma min_by_min:
  "min_by cmp x xs \<in> set (x # xs) \<and> (\<forall>y\<in>set (x # xs). cmp (min_by cmp x xs) y \<noteq> OGreater)"
proof (induction xs arbitrary: x)
  case (Cons b xs)
  let ?c = "if cmp x b = OGreater then b else x"
  have step: "min_by cmp x (b # xs) = min_by cmp ?c xs" by (simp add: min_by_def)
  have pick: "cmp ?c x \<noteq> OGreater" "cmp ?c b \<noteq> OGreater"
    using cmp_refl cmp_total [of x b] by auto
  have trans: "cmp (min_by cmp ?c xs) z \<noteq> OGreater" if "cmp ?c z \<noteq> OGreater" for z
    using cmp_le_trans [OF _ that, of "min_by cmp ?c xs"] Cons.IH [of ?c] by simp
  have "min_by cmp ?c xs \<in> set (x # b # xs)" using Cons.IH [of ?c] by (auto split: if_splits)
  with trans [OF pick(1)] trans [OF pick(2)] Cons.IH [of ?c] show ?case
    unfolding step by simp
qed (simp add: min_by_def cmp_refl)

end

interpretation linorder_ord: rust_ord "cmp_of :: 'a::linorder \<Rightarrow> 'a \<Rightarrow> ordering"
  by unfold_locales (auto simp: cmp_of_def split: if_splits)

lemma rust_ord_inv_image: "rust_ord c \<Longrightarrow> rust_ord (\<lambda>x y. c (f x) (f y))"
  by (rule rust_ord.intro)
    (blast intro: rust_ord.cmp_reverse rust_ord.cmp_less_trans rust_ord.cmp_equal_subst)+

lemma rust_ord_then:
  assumes "rust_ord c1" and "rust_ord c2"
  shows "rust_ord (\<lambda>x y. ord_then (c1 x y) (c2 x y))"
proof
  fix x y z
  show "ord_then (c1 y x) (c2 y x) = ord_reverse (ord_then (c1 x y) (c2 x y))"
    using rust_ord.cmp_reverse [OF assms(1), of y x] rust_ord.cmp_reverse [OF assms(2), of y x]
    by simp
  show "ord_then (c1 x z) (c2 x z) = OLess"
    if "ord_then (c1 x y) (c2 x y) = OLess" and "ord_then (c1 y z) (c2 y z) = OLess"
    using that rust_ord.cmp_less_trans [OF assms(1), of x y z]
      rust_ord.cmp_less_trans [OF assms(2), of x y z]
      rust_ord.cmp_equal_subst [OF assms(1), of x y z]
      rust_ord.cmp_equal_subst2 [OF assms(1), of y z x]
    by auto
  show "ord_then (c1 x z) (c2 x z) = ord_then (c1 y z) (c2 y z)"
    if "ord_then (c1 x y) (c2 x y) = OEqual"
    using that rust_ord.cmp_equal_subst [OF assms(1), of x y z]
      rust_ord.cmp_equal_subst [OF assms(2), of x y z]
    by simp
qed

section \<open>Sorting\<close>

text \<open>\<open>slice::sort_by\<close>, a stable sort.\<close>

fun insert_by :: "('a \<Rightarrow> 'a \<Rightarrow> ordering) \<Rightarrow> 'a \<Rightarrow> 'a list \<Rightarrow> 'a list" where
  "insert_by cmp x [] = [x]"
| "insert_by cmp x (y # ys) = (if cmp x y \<noteq> OGreater then x # y # ys else y # insert_by cmp x ys)"

definition sort_by :: "('a \<Rightarrow> 'a \<Rightarrow> ordering) \<Rightarrow> 'a list \<Rightarrow> 'a list" where
  "sort_by cmp xs = foldr (insert_by cmp) xs []"

lemma set_insert_by [simp]: "set (insert_by cmp x xs) = insert x (set xs)"
  by (induction xs) auto

lemma set_sort_by [simp]: "set (sort_by cmp xs) = set xs"
  by (induction xs) (auto simp: sort_by_def)

text \<open>The first element of a sorted list is a least one.\<close>

lemma hd_insert_by: "hd (insert_by cmp x ys) = (if ys = [] \<or> cmp x (hd ys) \<noteq> OGreater then x else hd ys)"
  by (cases ys) auto

lemma sort_by_hd:
  assumes ord: "rust_ord cmp"
  shows "y \<in> set xs \<Longrightarrow> cmp (hd (sort_by cmp xs)) y \<noteq> OGreater"
proof (induction xs arbitrary: y)
  case (Cons x xs)
  have sort: "sort_by cmp (x # xs) = insert_by cmp x (sort_by cmp xs)" by (simp add: sort_by_def)
  show ?case
  proof (cases "xs = []")
    case True
    then show ?thesis using Cons.prems rust_ord.cmp_refl [OF ord] by (simp add: sort_by_def)
  next
    case False
    let ?h = "hd (sort_by cmp xs)"
    have ne: "sort_by cmp xs \<noteq> []" using False set_sort_by [of cmp xs] by (metis set_empty)
    have le: "cmp ?h z \<noteq> OGreater" if "z \<in> set xs" for z using Cons.IH that .
    have hd: "hd (sort_by cmp (x # xs)) = (if cmp x ?h \<noteq> OGreater then x else ?h)" by (simp add: sort hd_insert_by ne)
    show ?thesis
    proof (cases "cmp x ?h = OGreater")
      case True
      then have "cmp ?h x \<noteq> OGreater" using rust_ord.cmp_total [OF ord, of x ?h] by simp
      then show ?thesis using True hd Cons.prems le by auto
    next
      case False
      then have "cmp x z \<noteq> OGreater" if "z \<in> set xs" for z using rust_ord.cmp_le_trans [OF ord _ le [OF that]] by blast
      then show ?thesis using False hd Cons.prems rust_ord.cmp_refl [OF ord] by auto
    qed
  qed
qed simp

lemma length_insert_by [simp]: "length (insert_by cmp x xs) = Suc (length xs)"
  by (induction xs) auto

lemma length_sort_by [simp]: "length (sort_by cmp xs) = length xs"
  by (induction xs) (auto simp: sort_by_def)

lemma distinct_insert_by: "x \<notin> set xs \<Longrightarrow> distinct xs \<Longrightarrow> distinct (insert_by cmp x xs)"
  by (induction xs) auto

lemma distinct_sort_by: "distinct xs \<Longrightarrow> distinct (sort_by cmp xs)"
proof (induction xs)
  case (Cons x xs)
  then show ?case using distinct_insert_by [of x "sort_by cmp xs" cmp] by (simp add: sort_by_def [of cmp "x # xs"] sort_by_def [symmetric])
qed (simp add: sort_by_def)

context rust_ord
begin

lemma sorted_insert_by:
  "sorted_wrt (\<lambda>a b. cmp a b \<noteq> OGreater) xs \<Longrightarrow> sorted_wrt (\<lambda>a b. cmp a b \<noteq> OGreater) (insert_by cmp x xs)"
proof (induction xs)
  case (Cons y ys)
  then show ?case using cmp_le_trans [of x y] cmp_total [of x y] by auto
qed simp

lemma sorted_sort_by: "sorted_wrt (\<lambda>a b. cmp a b \<noteq> OGreater) (sort_by cmp xs)"
  by (induction xs) (simp_all add: sort_by_def sorted_insert_by)

end

section \<open>The lexicographic order\<close>

fun lex_cmp :: "('a \<Rightarrow> 'a \<Rightarrow> ordering) \<Rightarrow> 'a list \<Rightarrow> 'a list \<Rightarrow> ordering" where
  "lex_cmp c [] [] = OEqual"
| "lex_cmp c [] (y # ys) = OLess"
| "lex_cmp c (x # xs) [] = OGreater"
| "lex_cmp c (x # xs) (y # ys) = ord_then (c x y) (lex_cmp c xs ys)"

context rust_ord
begin

lemma lex_cmp_reverse: "lex_cmp cmp ys xs = ord_reverse (lex_cmp cmp xs ys)"
proof (induction xs arbitrary: ys)
  case Nil
  then show ?case by (cases ys) auto
next
  case (Cons x xs)
  show ?case
  proof (cases ys)
    case (Cons y ys')
    then show ?thesis using Cons.IH [of ys'] cmp_reverse [of y x] by simp
  qed simp
qed

lemma lex_cmp_equal_subst: "lex_cmp cmp xs ys = OEqual \<Longrightarrow> lex_cmp cmp xs zs = lex_cmp cmp ys zs"
proof (induction xs arbitrary: ys zs)
  case Nil
  then show ?case by (cases ys) auto
next
  case (Cons x xs)
  then obtain y ys' where ys: "ys = y # ys'" by (cases ys) auto
  show ?case
  proof (cases zs)
    case Nil
    with ys show ?thesis by simp
  next
    case (Cons z zs')
    with ys Cons.prems Cons.IH [of ys' zs'] show ?thesis
      using cmp_equal_subst [of x y z] by simp
  qed
qed

lemma lex_cmp_less_trans:
  "lex_cmp cmp xs ys = OLess \<Longrightarrow> lex_cmp cmp ys zs = OLess \<Longrightarrow> lex_cmp cmp xs zs = OLess"
proof (induction xs arbitrary: ys zs)
  case Nil
  then show ?case by (cases ys; cases zs) auto
next
  case (Cons x xs)
  from Cons.prems obtain y ys' where ys: "ys = y # ys'" by (cases ys) auto
  from Cons.prems ys obtain z zs' where zs: "zs = z # zs'" by (cases zs) auto
  show ?case
    using Cons.prems Cons.IH [of ys' zs'] ys zs cmp_less_trans [of x y z]
      cmp_equal_subst [of x y z] cmp_equal_subst2 [of y z x]
    by auto
qed

lemma rust_ord_lex: "rust_ord (lex_cmp cmp)"
  by unfold_locales
    (fact lex_cmp_reverse, fact lex_cmp_less_trans, fact lex_cmp_equal_subst)

lemma lex_cmp_equal_iff:
  assumes "\<And>x y. cmp x y = OEqual \<longleftrightarrow> x = y"
  shows "lex_cmp cmp xs ys = OEqual \<longleftrightarrow> xs = ys"
proof (induction xs arbitrary: ys)
  case Nil
  then show ?case by (cases ys) auto
next
  case (Cons x xs)
  then show ?case by (cases ys) (auto simp: assms)
qed

end

section \<open>Orders that respect dependencies\<close>

text \<open>Every element of the list comes after all its successors.\<close>

definition deps_first :: "('a \<Rightarrow> 'a set) \<Rightarrow> 'a list \<Rightarrow> bool" where
  "deps_first succ xs \<longleftrightarrow> (\<forall>i<length xs. succ (xs ! i) \<subseteq> set (take i xs))"

lemma deps_first_Nil [simp]: "deps_first succ []"
  by (simp add: deps_first_def)

lemma deps_first_snoc [simp]:
  "deps_first succ (xs @ [x]) \<longleftrightarrow> deps_first succ xs \<and> succ x \<subseteq> set xs"
  by (auto simp: deps_first_def less_Suc_eq nth_append)

lemma deps_first_mono:
  "deps_first succ xs \<Longrightarrow> (\<And>a. succ' a \<subseteq> succ a) \<Longrightarrow> deps_first succ' xs"
  by (meson deps_first_def subset_trans)

end
