(* ===== verification/Rust_Str.thy ===== *)
theory Rust_Str
  imports Skylet_Prelude
begin

text \<open>
  The string functions of Rust's standard library that the sources call, on the UTF-8 bytes of
  a string, with the facts the parsers and printers of the components need: splitting and
  joining are inverse, a printed \<open>u64\<close> parses back, trimming leaves a string alone that neither
  starts nor ends with white space.
\<close>

section \<open>Prefixes, suffixes, splitting and joining\<close>

fun strip_prefix :: "string \<Rightarrow> string \<Rightarrow> string option" where
  "strip_prefix [] s = Some s"
| "strip_prefix (p # ps) [] = None"
| "strip_prefix (p # ps) (c # cs) = (if p = c then strip_prefix ps cs else None)"

definition starts_with :: "string \<Rightarrow> string \<Rightarrow> bool" where
  "starts_with s p \<longleftrightarrow> strip_prefix p s \<noteq> None"

definition strip_suffix :: "string \<Rightarrow> string \<Rightarrow> string option" where
  "strip_suffix p s = map_option rev (strip_prefix (rev p) (rev s))"

definition ends_with :: "string \<Rightarrow> string \<Rightarrow> bool" where
  "ends_with s p \<longleftrightarrow> strip_suffix p s \<noteq> None"

lemma strip_prefix_Some_iff [str_simps]: "strip_prefix p s = Some r \<longleftrightarrow> s = p @ r"
  by (induction p s rule: strip_prefix.induct) auto

lemma strip_prefix_append [simp]: "strip_prefix p (p @ r) = Some r"
  by (simp add: strip_prefix_Some_iff)

lemma starts_with_iff [str_simps]: "starts_with s p \<longleftrightarrow> (\<exists>r. s = p @ r)"
  by (auto simp: starts_with_def strip_prefix_Some_iff)

lemma strip_suffix_Some_iff [str_simps]: "strip_suffix p s = Some r \<longleftrightarrow> s = r @ p"
  by (auto simp: strip_suffix_def strip_prefix_Some_iff)
    (metis append_is_Nil_conv rev_append rev_rev_ident)+

lemma ends_with_iff [str_simps]: "ends_with s p \<longleftrightarrow> (\<exists>r. s = r @ p)"
  by (auto simp: ends_with_def strip_suffix_Some_iff)

text \<open>\<open>Path::join\<close>: an absolute path replaces the base; otherwise one separator is put between.\<close>

definition path_join :: "string \<Rightarrow> string \<Rightarrow> string" where
  "path_join base p =
     (if starts_with p ''/'' then p
      else if base = [] \<or> ends_with base ''/'' then base @ p
      else base @ ''/'' @ p)"

text \<open>\<open>str::contains\<close>\<close>

fun str_contains :: "string \<Rightarrow> string \<Rightarrow> bool" where
  "str_contains [] q \<longleftrightarrow> q = []"
| "str_contains (c # s) q \<longleftrightarrow> starts_with (c # s) q \<or> str_contains s q"

text \<open>\<open>str::split(c)\<close>: the pieces between the separators, at least one.\<close>

fun split_on :: "char \<Rightarrow> string \<Rightarrow> string list" where
  "split_on c [] = [[]]"
| "split_on c (x # xs) =
     (if x = c then [] # split_on c xs
      else (case split_on c xs of [] \<Rightarrow> [[x]] | p # ps \<Rightarrow> (x # p) # ps))"

text \<open>\<open>str::split_once(c)\<close>: at the first occurrence.\<close>

fun split_once :: "char \<Rightarrow> string \<Rightarrow> (string \<times> string) option" where
  "split_once c [] = None"
| "split_once c (x # xs) =
     (if x = c then Some ([], xs)
      else (case split_once c xs of None \<Rightarrow> None | Some (a, b) \<Rightarrow> Some (x # a, b)))"

text \<open>\<open>[String]::join(sep)\<close>\<close>

fun join :: "string \<Rightarrow> string list \<Rightarrow> string" where
  "join sep [] = []"
| "join sep [p] = p"
| "join sep (p # q # ps) = p @ sep @ join sep (q # ps)"

text \<open>A text between apostrophes, as the error messages quote their inputs.\<close>

definition quoted :: "string \<Rightarrow> string" where
  "quoted s = CHR 0x27 # s @ [CHR 0x27]"

lemma split_on_not_Nil [simp]: "split_on c s \<noteq> []"
  by (induction s) (auto split: list.splits)

lemma length_split_on: "length (split_on c s) = Suc (count_list s c)"
  by (induction s) (auto split: list.splits)

lemma split_on_no_sep: "c \<notin> set s \<Longrightarrow> split_on c s = [s]"
  by (induction s) auto

lemma split_on_append:
  "c \<notin> set p \<Longrightarrow> split_on c (p @ c # s) = p # split_on c s"
  by (induction p) auto

lemma split_on_join:
  "ps \<noteq> [] \<Longrightarrow> (\<And>p. p \<in> set ps \<Longrightarrow> c \<notin> set p) \<Longrightarrow> split_on c (join [c] ps) = ps"
  by (induction "[c]" ps rule: join.induct) (auto simp: split_on_append split_on_no_sep)

lemma join_split_on: "join [c] (split_on c s) = s"
proof (induction s)
  case Nil
  then show ?case by simp
next
  case (Cons x xs)
  obtain p ps where "split_on c xs = p # ps"
    by (cases "split_on c xs") auto
  with Cons.IH show ?case by (cases ps) auto
qed

lemma split_on_pieces: "p \<in> set (split_on c s) \<Longrightarrow> c \<notin> set p"
  by (induction s arbitrary: p) (auto split: list.splits if_splits)

lemma split_once_None_iff [str_simps]: "split_once c s = None \<longleftrightarrow> c \<notin> set s"
  by (induction s) (auto split: option.splits)

lemma split_once_None [simp]: "c \<notin> set s \<Longrightarrow> split_once c s = None"
  by (simp add: split_once_None_iff)

lemma split_once_append [simp]: "c \<notin> set a \<Longrightarrow> split_once c (a @ c # b) = Some (a, b)"
  by (induction a) auto

lemma split_once_SomeD: "split_once c s = Some (a, b) \<Longrightarrow> s = a @ c # b \<and> c \<notin> set a"
proof (induction s arbitrary: a)
  case (Cons x xs)
  show ?case
  proof (cases "x = c")
    case True
    with Cons.prems show ?thesis by simp
  next
    case False
    with Cons.prems obtain a' where "split_once c xs = Some (a', b)" and "a = x # a'"
      by (cases "split_once c xs") auto
    with Cons.IH [of a'] False show ?thesis by simp
  qed
qed simp

lemma split_once_Some_iff [str_simps]:
  "split_once c s = Some (a, b) \<longleftrightarrow> s = a @ c # b \<and> c \<notin> set a"
  by (auto dest: split_once_SomeD)

lemma set_join: "set (join sep ps) \<subseteq> \<Union> (set ` set ps) \<union> set sep"
  by (induction sep ps rule: join.induct) auto

lemma join_eq_Nil: "join sep ps = [] \<Longrightarrow> p \<in> set ps \<Longrightarrow> p = []"
  by (induction sep ps rule: join.induct) auto

lemma join_hd: "ps \<noteq> [] \<Longrightarrow> hd ps \<noteq> [] \<Longrightarrow> hd (join sep ps) = hd (hd ps)"
  by (induction sep ps rule: join.induct) auto

lemma join_last: "ps \<noteq> [] \<Longrightarrow> last ps \<noteq> [] \<Longrightarrow> join sep ps \<noteq> [] \<and> last (join sep ps) = last (last ps)"
  by (induction sep ps rule: join.induct) auto

lemma join_suffix: "ps \<noteq> [] \<Longrightarrow> \<exists>r. join sep ps = r @ last ps"
proof (induction sep ps rule: join.induct)
  case (3 sep p q ps)
  then obtain r where "join sep (q # ps) = r @ last (q # ps)" by auto
  then have "join sep (p # q # ps) = (p @ sep @ r) @ last (p # q # ps)" by simp
  then show ?case by blast
qed auto

lemma set_split_on: "c \<in> set s \<Longrightarrow> c = d \<or> (\<exists>p\<in>set (split_on d s). c \<in> set p)"
  using set_join [of "[d]" "split_on d s"] join_split_on [of d s] by auto

section \<open>White space\<close>

text \<open>
  The UTF-8 encodings of the code points with the Unicode property \<open>White_Space\<close>, which
  \<open>str::trim\<close> removes: U+0009 to U+000D, U+0020, U+0085, U+00A0, U+1680, U+2000 to U+200A,
  U+2028, U+2029, U+202F, U+205F, U+3000.
\<close>

definition bytes :: "nat list \<Rightarrow> string" where
  "bytes ns = map char_of ns"

definition white_space :: "string list" where
  "white_space =
     map bytes ([[9], [10], [11], [12], [13], [32], [194, 133], [194, 160], [225, 154, 128]]
       @ map (\<lambda>n. [226, 128, n]) ([128..<139] @ [168, 169, 175])
       @ [[226, 129, 159], [227, 128, 128]])"

text \<open>The first of the given byte sequences that the string starts with, removed.\<close>

fun strip_first :: "string list \<Rightarrow> string \<Rightarrow> string option" where
  "strip_first [] s = None"
| "strip_first (w # ws) s =
     (case strip_prefix w s of Some r \<Rightarrow> Some r | None \<Rightarrow> strip_first ws s)"

lemma strip_first_SomeD: "strip_first ws s = Some r \<Longrightarrow> \<exists>w\<in>set ws. s = w @ r"
  by (induction ws) (auto split: option.splits simp: str_simps)

function strip_all :: "string list \<Rightarrow> string \<Rightarrow> string" where
  "strip_all ws s =
     (case strip_first ws s of None \<Rightarrow> s
      | Some r \<Rightarrow> if length r < length s then strip_all ws r else s)"
  by pat_completeness auto
termination
  by (relation "measure (\<lambda>(ws, s). length s)") auto

declare strip_all.simps [simp del]

lemma strip_all_code [code]:
  "strip_all ws [] = []"
  "strip_all ws (c # cs) =
     (case strip_first ws (c # cs) of None \<Rightarrow> c # cs
      | Some r \<Rightarrow> if length r \<le> length cs then strip_all ws r else c # cs)"
  by (simp_all add: strip_all.simps [of ws "[]"] strip_all.simps [of ws "c # cs"] less_Suc_eq_le
      split: option.split)

definition trim_start :: "string \<Rightarrow> string" where
  "trim_start s = strip_all white_space s"

definition trim_end :: "string \<Rightarrow> string" where
  "trim_end s = rev (strip_all (map rev white_space) (rev s))"

definition trim :: "string \<Rightarrow> string" where
  "trim s = trim_end (trim_start s)"

text \<open>A byte that no white space sequence starts or ends with.\<close>

definition solid :: "char \<Rightarrow> bool" where
  "solid c \<longleftrightarrow> of_char c \<in> ({33..<127} :: nat set)"

lemma strip_first_solid:
  assumes "\<And>w. w \<in> set ws \<Longrightarrow> w \<noteq> [] \<and> \<not> solid (hd w)" and "solid c"
  shows "strip_first ws (c # s) = None"
  using assms(1)
proof (induction ws)
  case (Cons w ws)
  from Cons.prems [of w] assms(2) have "strip_prefix w (c # s) = None"
    by (cases w) auto
  with Cons show ?case by simp
qed simp

lemma strip_all_solid:
  assumes "\<And>w. w \<in> set ws \<Longrightarrow> w \<noteq> [] \<and> \<not> solid (hd w)" and "s \<noteq> []" and "solid (hd s)"
  shows "strip_all ws s = s"
proof (cases s)
  case (Cons c cs)
  with assms have "strip_first ws s = None"
    using strip_first_solid [OF assms(1)] by simp
  then show ?thesis by (simp add: strip_all.simps)
qed (use assms in simp)

lemma white_space_not_solid:
  "w \<in> set white_space \<Longrightarrow> w \<noteq> [] \<and> \<not> solid (hd w)"
  "w \<in> set white_space \<Longrightarrow> rev w \<noteq> [] \<and> \<not> solid (hd (rev w))"
  by (auto simp: white_space_def bytes_def solid_def)

lemma trim_start_solid [str_simps]: "s \<noteq> [] \<Longrightarrow> solid (hd s) \<Longrightarrow> trim_start s = s"
  unfolding trim_start_def by (rule strip_all_solid) (use white_space_not_solid(1) in auto)

lemma trim_end_solid [str_simps]: "s \<noteq> [] \<Longrightarrow> solid (last s) \<Longrightarrow> trim_end s = s"
proof -
  assume "s \<noteq> []" and "solid (last s)"
  then have "strip_all (map rev white_space) (rev s) = rev s"
    by (intro strip_all_solid) (use white_space_not_solid(2) in \<open>auto simp: hd_rev\<close>)
  then show ?thesis by (simp add: trim_end_def)
qed

lemma trim_solid [str_simps]:
  "s \<noteq> [] \<Longrightarrow> solid (hd s) \<Longrightarrow> solid (last s) \<Longrightarrow> trim s = s"
  by (simp add: trim_def str_simps)

lemma strip_all_suffix: "\<exists>p. s = p @ strip_all ws s"
proof (induction ws s rule: strip_all.induct)
  case (1 ws s)
  show ?case
  proof (cases "strip_first ws s")
    case None
    then show ?thesis by (simp add: strip_all.simps)
  next
    case (Some r)
    then obtain w where w: "s = w @ r" using strip_first_SomeD by blast
    show ?thesis
    proof (cases "length r < length s")
      case True
      with 1 [OF Some] obtain p where "r = p @ strip_all ws r" by blast
      then have "s = (w @ p) @ strip_all ws r" using w by simp
      moreover have "strip_all ws s = strip_all ws r"
        using Some True by (simp add: strip_all.simps [of ws s])
      ultimately show ?thesis by metis
    next
      case False
      with Some show ?thesis by (simp add: strip_all.simps)
    qed
  qed
qed

lemma trim_start_suffix: "\<exists>p. s = p @ trim_start s"
  unfolding trim_start_def by (rule strip_all_suffix)

lemma trim_end_prefix: "\<exists>q. s = trim_end s @ q"
proof -
  obtain p where "rev s = p @ strip_all (map rev white_space) (rev s)"
    using strip_all_suffix by blast
  then have "rev (rev s) = trim_end s @ rev p"
    unfolding trim_end_def by (metis rev_append)
  then show ?thesis by auto
qed

lemma trim_infix: "\<exists>p q. s = p @ trim s @ q"
proof -
  obtain p where p: "s = p @ trim_start s" using trim_start_suffix by blast
  obtain q where q: "trim_start s = trim s @ q"
    using trim_end_prefix unfolding trim_def by blast
  have "s = p @ trim s @ q" using p unfolding q .
  then show ?thesis by blast
qed

text \<open>White space next to a solid byte is trimmed up to that byte.\<close>

lemma strip_first_append_solid:
  assumes "\<And>w. w \<in> set ws \<Longrightarrow> list_all (\<lambda>x. \<not> solid x) w" and "solid c"
  shows "strip_first ws (s @ c # t) = map_option (\<lambda>r. r @ c # t) (strip_first ws s)"
  using assms(1)
proof (induction ws)
  case (Cons w ws)
  have "strip_prefix w (s @ c # t) = map_option (\<lambda>r. r @ c # t) (strip_prefix w s)"
    using Cons.prems [of w, simplified] assms(2)
    by (induction w s rule: strip_prefix.induct) auto
  with Cons show ?case by (auto split: option.splits)
qed simp

lemma strip_all_append_solid:
  assumes "\<And>w. w \<in> set ws \<Longrightarrow> list_all (\<lambda>x. \<not> solid x) w" and "solid c"
  shows "strip_all ws (s @ c # t) = strip_all ws s @ c # t"
  using assms(1)
proof (induction ws s rule: strip_all.induct)
  case (1 ws s)
  note eq = strip_first_append_solid [OF "1.prems" assms(2), where s = s and t = t]
  show ?case
  proof (cases "strip_first ws s")
    case None
    with eq show ?thesis
      by (simp add: strip_all.simps [of ws s] strip_all.simps [of ws "s @ c # t"])
  next
    case (Some r)
    with eq "1.IH" [OF Some _ "1.prems"] show ?thesis
      by (simp add: strip_all.simps [of ws s] strip_all.simps [of ws "s @ c # t"])
  qed
qed

lemma strip_all_idem:
  assumes "[] \<notin> set ws"
  shows "strip_all ws (strip_all ws s) = strip_all ws s"
  using assms
proof (induction ws s rule: strip_all.induct)
  case (1 ws s)
  show ?case
  proof (cases "strip_first ws s")
    case None
    then show ?thesis by (simp add: strip_all.simps [of ws s])
  next
    case (Some r)
    with "1.prems" have "length r < length s"
      by (auto dest!: strip_first_SomeD)
    with "1.IH" [OF Some] "1.prems" Some show ?thesis
      by (simp add: strip_all.simps [of ws s])
  qed
qed

lemma white_space_all_not_solid:
  "w \<in> set white_space \<Longrightarrow> list_all (\<lambda>x. \<not> solid x) w"
  by (auto simp: white_space_def bytes_def solid_def)

lemma trim_end_append_solid: "solid c \<Longrightarrow> trim_end (a @ c # b) = a @ c # trim_end b"
proof -
  assume "solid c"
  then have "strip_all (map rev white_space) (rev b @ c # rev a)
      = strip_all (map rev white_space) (rev b) @ c # rev a"
    by (intro strip_all_append_solid) (use white_space_all_not_solid in auto)
  then show ?thesis by (simp add: trim_end_def)
qed

lemma trim_start_append_solid: "solid c \<Longrightarrow> trim_start (a @ c # b) = trim_start a @ c # b"
  unfolding trim_start_def
  by (rule strip_all_append_solid) (use white_space_all_not_solid in auto)

lemma trim_end_idem [simp]: "trim_end (trim_end s) = trim_end s"
proof -
  have "[] \<notin> set (map rev white_space)"
    using white_space_not_solid(1) by auto
  then show ?thesis by (simp add: trim_end_def strip_all_idem)
qed

lemma trim_end_trim [simp]: "trim_end (trim s) = trim s"
  by (simp add: trim_def)

lemma trim_space: "trim (CHR '' '' # s) = trim s"
proof -
  have "strip_first white_space (CHR '' '' # s) = Some s"
    by (simp add: white_space_def bytes_def char_of_eq_iff)
  then show ?thesis
    by (simp add: trim_def trim_start_def strip_all.simps [of white_space "CHR '' '' # s"])
qed

lemma trim_Nil [simp]: "trim [] = []"
  using trim_infix [of "[]"] by simp

section \<open>Characters and numbers\<close>

definition is_ascii_digit :: "char \<Rightarrow> bool" where
  "is_ascii_digit c \<longleftrightarrow> (48::nat) \<le> of_char c \<and> of_char c < (58::nat)"

definition is_ascii_alphanumeric :: "char \<Rightarrow> bool" where
  "is_ascii_alphanumeric c \<longleftrightarrow> is_ascii_digit c
     \<or> ((65::nat) \<le> of_char c \<and> of_char c < (91::nat))
     \<or> ((97::nat) \<le> of_char c \<and> of_char c < (123::nat))"

definition to_ascii_lower :: "char \<Rightarrow> char" where
  "to_ascii_lower c =
     (if (65::nat) \<le> of_char c \<and> of_char c < (91::nat) then char_of (of_char c + 32 :: nat) else c)"

definition to_lowercase :: "string \<Rightarrow> string" where
  "to_lowercase s = map to_ascii_lower s"

text \<open>\<open>str::to_uppercase\<close> on ASCII text.\<close>

definition to_ascii_upper :: "char \<Rightarrow> char" where
  "to_ascii_upper c =
     (if (97::nat) \<le> of_char c \<and> of_char c < (123::nat) then char_of (of_char c - 32 :: nat) else c)"

definition to_uppercase :: "string \<Rightarrow> string" where
  "to_uppercase s = map to_ascii_upper s"

text \<open>\<open>str::eq_ignore_ascii_case\<close>\<close>

definition eq_ignore_ascii_case :: "string \<Rightarrow> string \<Rightarrow> bool" where
  "eq_ignore_ascii_case a b \<longleftrightarrow> to_lowercase a = to_lowercase b"

lemma to_ascii_lower_idem [simp]: "to_ascii_lower (to_ascii_lower c) = to_ascii_lower c"
  by (auto simp: to_ascii_lower_def)

lemma to_lowercase_idem [simp]: "to_lowercase (to_lowercase s) = to_lowercase s"
  by (simp add: to_lowercase_def)

lemma is_ascii_alphanumeric_solid: "is_ascii_alphanumeric c \<Longrightarrow> solid c"
  by (auto simp: is_ascii_alphanumeric_def is_ascii_digit_def solid_def)

lemma is_ascii_digit_alphanumeric: "is_ascii_digit c \<Longrightarrow> is_ascii_alphanumeric c"
  by (simp add: is_ascii_alphanumeric_def)

text \<open>The digits of an integer as \<open>Display\<close> prints them, and \<open>parse::<u64>\<close>, which takes an
  optional plus sign and any number of leading zeros and refuses everything that does not fit.\<close>

definition digit_char :: "nat \<Rightarrow> char" where
  "digit_char d = char_of (48 + d)"

fun show_nat :: "nat \<Rightarrow> string" where
  "show_nat n = (if n < 10 then [digit_char n] else show_nat (n div 10) @ [digit_char (n mod 10)])"

declare show_nat.simps [simp del]

definition digits_nat :: "string \<Rightarrow> nat" where
  "digits_nat s = foldl (\<lambda>a c. 10 * a + (of_char c - 48)) 0 s"

definition parse_nat :: "string \<Rightarrow> nat option" where
  "parse_nat s =
     (let t = (case s of c # d # ds \<Rightarrow> if c = CHR ''+'' then d # ds else s | _ \<Rightarrow> s)
      in if t \<noteq> [] \<and> list_all is_ascii_digit t then Some (digits_nat t) else None)"

definition parse_u64 :: "string \<Rightarrow> u64 option" where
  "parse_u64 s = (case parse_nat s of None \<Rightarrow> None
     | Some n \<Rightarrow> if int n < 2 ^ 64 then Some (of_nat n) else None)"

definition parse_u32 :: "string \<Rightarrow> u32 option" where
  "parse_u32 s = (case parse_nat s of None \<Rightarrow> None
     | Some n \<Rightarrow> if int n < 2 ^ 32 then Some (of_nat n) else None)"

text \<open>\<open>parse::<i64>\<close>: an optional sign and digits, within the range.\<close>

definition parse_i64 :: "string \<Rightarrow> int option" where
  "parse_i64 s =
     (case s of
        [] \<Rightarrow> None
      | c # ds \<Rightarrow>
          (let digits = (if c = CHR ''-'' \<or> c = CHR ''+'' then ds else s);
               n = int (digits_nat digits);
               v = (if c = CHR ''-'' then - n else n)
           in if digits \<noteq> [] \<and> list_all is_ascii_digit digits \<and> - (2 ^ 63) \<le> v \<and> v < 2 ^ 63
              then Some v else None))"

definition show_u64 :: "u64 \<Rightarrow> string" where
  "show_u64 w = show_nat (unat w)"

lemma digit_char_digit [simp]: "d < 10 \<Longrightarrow> is_ascii_digit (digit_char d)"
  by (simp add: is_ascii_digit_def digit_char_def)

lemma of_char_digit_char [simp]: "d < 10 \<Longrightarrow> of_char (digit_char d) = (48 + d :: nat)"
  by (simp add: digit_char_def)

lemma show_nat_not_Nil [simp]: "show_nat n \<noteq> []"
  by (subst show_nat.simps) simp

lemma show_nat_digits: "list_all is_ascii_digit (show_nat n)"
proof (induction n rule: show_nat.induct)
  case (1 n)
  then show ?case by (subst show_nat.simps) (auto simp: list_all_append)
qed

lemma digits_nat_show_nat: "digits_nat (show_nat n) = n"
proof (induction n rule: show_nat.induct)
  case (1 n)
  then show ?case
    by (cases "n < 10") (auto simp: digits_nat_def show_nat.simps [of n])
qed

lemma show_nat_leading_zero:
  "show_nat n = CHR ''0'' # s \<Longrightarrow> s = []"
proof (induction n arbitrary: s rule: show_nat.induct)
  case (1 n)
  show ?case
  proof (cases "n < 10")
    case True
    with "1.prems" show ?thesis by (simp add: show_nat.simps [of n])
  next
    case False
    with "1.prems" obtain t where t: "show_nat (n div 10) = CHR ''0'' # t"
      by (cases "show_nat (n div 10)") (auto simp: show_nat.simps [of n])
    with "1.IH" False have "t = []" by blast
    with t have "digits_nat (show_nat (n div 10)) = 0" by (simp add: digits_nat_def)
    with False show ?thesis by (simp add: digits_nat_show_nat)
  qed
qed

lemma not_digit_plus [simp]: "\<not> is_ascii_digit CHR ''+''"
  by (simp add: is_ascii_digit_def)

lemma parse_nat_digits:
  "s \<noteq> [] \<Longrightarrow> list_all is_ascii_digit s \<Longrightarrow> parse_nat s = Some (digits_nat s)"
  by (auto simp: parse_nat_def Let_def split: list.splits)

lemma parse_u64_show_u64 [simp]: "parse_u64 (show_u64 w) = Some w"
proof -
  have "uint w < 2 ^ 64" using unsigned_less [of w, where 'a = int] by simp
  moreover have "parse_nat (show_nat (unat w)) = Some (unat w)"
    by (simp add: parse_nat_digits show_nat_digits digits_nat_show_nat)
  ultimately show ?thesis by (simp add: parse_u64_def show_u64_def)
qed

lemma parse_u32_show [simp]: "parse_u32 (show_nat (unat (w :: u32))) = Some w"
proof -
  have "uint w < 2 ^ 32" using unsigned_less [of w, where 'a = int] by simp
  moreover have "parse_nat (show_nat (unat w)) = Some (unat w)"
    by (simp add: parse_nat_digits show_nat_digits digits_nat_show_nat)
  ultimately show ?thesis by (simp add: parse_u32_def)
qed

lemma show_nat_no_char: "\<not> is_ascii_digit c \<Longrightarrow> c \<notin> set (show_nat n)"
  using show_nat_digits [of n] by (auto simp: list_all_iff)

lemma show_u64_props:
  "show_u64 w \<noteq> []" "list_all is_ascii_digit (show_u64 w)"
  by (auto simp: show_u64_def show_nat_digits)

lemma show_u64_no_char: "\<not> is_ascii_digit c \<Longrightarrow> c \<notin> set (show_u64 w)"
  using show_u64_props(2) [of w] by (auto simp: list_all_iff)

section \<open>Hexadecimal numbers\<close>

text \<open>\<open>{:0kx}\<close> of a number below \<open>16 ^ k\<close>\<close>

definition hex_char :: "nat \<Rightarrow> char" where
  "hex_char d = (if d < 10 then char_of (48 + d) else char_of (87 + d))"

fun pad_hex :: "nat \<Rightarrow> nat \<Rightarrow> string" where
  "pad_hex 0 n = []"
| "pad_hex (Suc k) n = pad_hex k (n div 16) @ [hex_char (n mod 16)]"

lemma length_pad_hex [simp]: "length (pad_hex k n) = k"
  by (induction k arbitrary: n) simp_all

lemma hex_char_inj: "a < 16 \<Longrightarrow> b < 16 \<Longrightarrow> hex_char a = hex_char b \<Longrightarrow> a = b"
  by (auto simp: hex_char_def split: if_splits)

lemma pad_hex_inj: "a < 16 ^ k \<Longrightarrow> b < 16 ^ k \<Longrightarrow> pad_hex k a = pad_hex k b \<Longrightarrow> a = b"
proof (induction k arbitrary: a b)
  case (Suc k)
  then have "a div 16 < 16 ^ k" "b div 16 < 16 ^ k" by (auto simp: less_mult_imp_div_less mult.commute)
  moreover from Suc.prems(3) have "pad_hex k (a div 16) = pad_hex k (b div 16)" "a mod 16 = b mod 16"
    by (auto intro: hex_char_inj)
  ultimately have "a div 16 = b div 16" "a mod 16 = b mod 16" using Suc.IH by auto
  then show ?case by (metis div_mult_mod_eq)
qed simp

end
