(* ===== verification/Dep_Version.thy ===== *)
theory Dep_Version
  imports Rust_Str
begin

text \<open>
  Semantic versions, \<open>abi/src/dependencies/version.rs\<close>: the types, the parsers and printers,
  the precedence order and the version arithmetic. The main results: parsing and printing are
  inverse on well-formed versions and the parser produces only such versions, and the \<open>Ord\<close>
  implementations satisfy the contract of \<open>Ord\<close>.
\<close>

section \<open>Types\<close>

datatype PrereleaseIdentifier = Numeric u64 | Alpha string

record Prerelease =
  identifiers :: "PrereleaseIdentifier list"

record Version =
  major :: u64
  minor :: u64
  patch :: u64
  pre :: "Prerelease option"
  build :: "string option"

text \<open>The error's string fields: the offending input, then the reason.\<close>

datatype VersionError =
    InvalidFormat string string
  | InvalidPrerelease string string
  | InvalidBuildMetadata string string

section \<open>Operations\<close>

definition PrereleaseIdentifier_parse :: "string \<Rightarrow> VersionError + PrereleaseIdentifier" where
  "PrereleaseIdentifier_parse s =
     (if s = [] then Err (InvalidPrerelease s ''identifier cannot be empty'')
      else if list_all is_ascii_digit s then
        (if length s > 1 \<and> starts_with s ''0''
         then Err (InvalidPrerelease s ''numeric identifier cannot have leading zeros'')
         else (case parse_u64 s of
             Some n \<Rightarrow> Ok (Numeric n)
           | None \<Rightarrow> Err (InvalidPrerelease s ''numeric identifier overflow'')))
      else if \<not> list_all (\<lambda>c. is_ascii_alphanumeric c \<or> c = CHR ''-'') s
        then Err (InvalidPrerelease s ''identifier must be alphanumeric or hyphen'')
      else Ok (Alpha s))"

definition is_numeric :: "PrereleaseIdentifier \<Rightarrow> bool" where
  "is_numeric i = (case i of Numeric _ \<Rightarrow> True | Alpha _ \<Rightarrow> False)"

fun PrereleaseIdentifier_display :: "PrereleaseIdentifier \<Rightarrow> string" where
  "PrereleaseIdentifier_display (Numeric n) = show_u64 n"
| "PrereleaseIdentifier_display (Alpha s) = s"

definition Prerelease_parse :: "string \<Rightarrow> VersionError + Prerelease" where
  "Prerelease_parse s =
     (if s = [] then Err (InvalidPrerelease s ''pre-release cannot be empty'')
      else result_bind (collect_results PrereleaseIdentifier_parse (split_on CHR ''.'' s))
        (\<lambda>ids. Ok \<lparr>identifiers = ids\<rparr>))"

definition Prerelease_is_empty :: "Prerelease \<Rightarrow> bool" where
  "Prerelease_is_empty p \<longleftrightarrow> identifiers p = []"

definition Prerelease_display :: "Prerelease \<Rightarrow> string" where
  "Prerelease_display p = join ''.'' (map PrereleaseIdentifier_display (identifiers p))"

fun PrereleaseIdentifier_cmp :: "PrereleaseIdentifier \<Rightarrow> PrereleaseIdentifier \<Rightarrow> ordering" where
  "PrereleaseIdentifier_cmp (Numeric a) (Numeric b) = cmp_of a b"
| "PrereleaseIdentifier_cmp (Numeric _) (Alpha _) = OLess"
| "PrereleaseIdentifier_cmp (Alpha _) (Numeric _) = OGreater"
| "PrereleaseIdentifier_cmp (Alpha a) (Alpha b) = cmp_of a b"

text \<open>The loop over the zipped identifiers: the first difference decides.\<close>

fun first_difference :: "(PrereleaseIdentifier \<times> PrereleaseIdentifier) list \<Rightarrow> ordering option" where
  "first_difference [] = None"
| "first_difference ((a, b) # rest) =
     (case PrereleaseIdentifier_cmp a b of OEqual \<Rightarrow> first_difference rest | ord \<Rightarrow> Some ord)"

definition Prerelease_cmp :: "Prerelease \<Rightarrow> Prerelease \<Rightarrow> ordering" where
  "Prerelease_cmp a b =
     (case first_difference (zip (identifiers a) (identifiers b)) of
        Some ord \<Rightarrow> ord
      | None \<Rightarrow> cmp_of (length (identifiers a)) (length (identifiers b)))"

definition Version_new :: "u64 \<Rightarrow> u64 \<Rightarrow> u64 \<Rightarrow> Version" where
  "Version_new ma mi pa = \<lparr>major = ma, minor = mi, patch = pa, pre = None, build = None\<rparr>"

definition with_pre :: "Prerelease \<Rightarrow> Version \<Rightarrow> Version" where
  "with_pre p v = v\<lparr>pre := Some p\<rparr>"

definition with_build :: "string \<Rightarrow> Version \<Rightarrow> Version" where
  "with_build b v = v\<lparr>build := Some b\<rparr>"

text \<open>The three blocks of \<open>Version::parse\<close>: the build metadata after the first plus sign, the
  pre-release after the first hyphen of the rest, and the three numbers.\<close>

definition split_build_metadata :: "string \<Rightarrow> VersionError + string \<times> string option" where
  "split_build_metadata version_str =
     (case split_once CHR ''+'' version_str of
        Some (v, b) \<Rightarrow>
          if b = [] then
            Err (InvalidBuildMetadata version_str (''build metadata cannot be empty after '' @ quoted ''+''))
          else Ok (v, Some b)
      | None \<Rightarrow> Ok (version_str, None))"

definition split_prerelease :: "string \<Rightarrow> string \<Rightarrow> VersionError + string \<times> Prerelease option" where
  "split_prerelease version_str version_part =
     (case split_once CHR ''-'' version_part of
        Some (v, p) \<Rightarrow>
          if p = [] then
            Err (InvalidPrerelease version_str (''pre-release cannot be empty after '' @ quoted ''-''))
          else result_bind (Prerelease_parse p) (\<lambda>pr. Ok (v, Some pr))
      | None \<Rightarrow> Ok (version_part, None))"

definition parse_core_version :: "string \<Rightarrow> string \<Rightarrow> VersionError + u64 \<times> u64 \<times> u64" where
  "parse_core_version version_str core_version =
     (case split_on CHR ''.'' core_version of
        [p0, p1, p2] \<Rightarrow>
          result_bind (ok_or (InvalidFormat version_str (''invalid major version: '' @ p0)) (parse_u64 p0)) (\<lambda>ma.
          result_bind (ok_or (InvalidFormat version_str (''invalid minor version: '' @ p1)) (parse_u64 p1)) (\<lambda>mi.
          result_bind (ok_or (InvalidFormat version_str (''invalid patch version: '' @ p2)) (parse_u64 p2)) (\<lambda>pa.
            Ok (ma, mi, pa))))
      | parts \<Rightarrow>
          Err (InvalidFormat version_str
            (''expected major.minor.patch, got '' @ show_nat (length parts) @ '' parts'')))"

definition Version_parse :: "string \<Rightarrow> VersionError + Version" where
  "Version_parse input =
     (let version_str = trim input in
      if version_str = [] then
        Err (InvalidFormat version_str ''version string cannot be empty'')
      else
        result_bind (split_build_metadata version_str) (\<lambda>(version_part, bld).
        result_bind (split_prerelease version_str version_part) (\<lambda>(core_version, pr).
        result_bind (parse_core_version version_str core_version) (\<lambda>(ma, mi, pa).
          Ok \<lparr>major = ma, minor = mi, patch = pa, pre = pr, build = bld\<rparr>))))"

definition is_prerelease :: "Version \<Rightarrow> bool" where
  "is_prerelease v \<longleftrightarrow> pre v \<noteq> None"

definition is_stable :: "Version \<Rightarrow> bool" where
  "is_stable v \<longleftrightarrow> pre v = None"

definition base_version :: "Version \<Rightarrow> Version" where
  "base_version v = Version_new (major v) (minor v) (patch v)"

text \<open>The additions wrap, as in a release build.\<close>

definition bump_major :: "Version \<Rightarrow> Version" where
  "bump_major v = Version_new (major v + 1) 0 0"

definition bump_minor :: "Version \<Rightarrow> Version" where
  "bump_minor v = Version_new (major v) (minor v + 1) 0"

definition bump_patch :: "Version \<Rightarrow> Version" where
  "bump_patch v = Version_new (major v) (minor v) (patch v + 1)"

definition is_compatible_with :: "Version \<Rightarrow> Version \<Rightarrow> bool" where
  "is_compatible_with v w \<longleftrightarrow> major v = major w \<and> major v > 0"

definition pre_cmp :: "Prerelease option \<Rightarrow> Prerelease option \<Rightarrow> ordering" where
  "pre_cmp p q = (case (p, q) of
       (None, None) \<Rightarrow> OEqual
     | (None, Some _) \<Rightarrow> OGreater
     | (Some _, None) \<Rightarrow> OLess
     | (Some a, Some b) \<Rightarrow> Prerelease_cmp a b)"

definition Version_cmp :: "Version \<Rightarrow> Version \<Rightarrow> ordering" where
  "Version_cmp v w =
     ord_then (cmp_of (major v) (major w))
       (ord_then (cmp_of (minor v) (minor w))
         (ord_then (cmp_of (patch v) (patch w))
           (pre_cmp (pre v) (pre w))))"

text \<open>The comparison operators that \<open>PartialOrd\<close> derives from \<open>cmp\<close>.\<close>

abbreviation version_lt :: "Version \<Rightarrow> Version \<Rightarrow> bool" where
  "version_lt v w \<equiv> Version_cmp v w = OLess"

abbreviation version_le :: "Version \<Rightarrow> Version \<Rightarrow> bool" where
  "version_le v w \<equiv> Version_cmp v w \<noteq> OGreater"

definition Version_display :: "Version \<Rightarrow> string" where
  "Version_display v =
     show_u64 (major v) @ ''.'' @ show_u64 (minor v) @ ''.'' @ show_u64 (patch v)
     @ (case pre v of None \<Rightarrow> [] | Some p \<Rightarrow> ''-'' @ Prerelease_display p)
     @ (case build v of None \<Rightarrow> [] | Some b \<Rightarrow> ''+'' @ b)"

definition Version_default :: Version where
  "Version_default = Version_new 0 1 0"

fun VersionError_display :: "VersionError \<Rightarrow> string" where
  "VersionError_display (InvalidFormat v r) = ''Invalid version format '' @ quoted v @ '': '' @ r"
| "VersionError_display (InvalidPrerelease i r) = ''Invalid pre-release '' @ quoted i @ '': '' @ r"
| "VersionError_display (InvalidBuildMetadata i r) = ''Invalid build metadata '' @ quoted i @ '': '' @ r"

section \<open>Parsing and printing\<close>

text \<open>What the parser lets through: the pre-release identifiers of semver, and build metadata
  that is not empty and does not end in white space.\<close>

fun wf_identifier :: "PrereleaseIdentifier \<Rightarrow> bool" where
  "wf_identifier (Numeric n) = True"
| "wf_identifier (Alpha s) =
     (s \<noteq> [] \<and> list_all (\<lambda>c. is_ascii_alphanumeric c \<or> c = CHR ''-'') s
      \<and> \<not> list_all is_ascii_digit s)"

definition wf_version :: "Version \<Rightarrow> bool" where
  "wf_version v \<longleftrightarrow>
     (case pre v of None \<Rightarrow> True
      | Some p \<Rightarrow> identifiers p \<noteq> [] \<and> list_all wf_identifier (identifiers p))
     \<and> (case build v of None \<Rightarrow> True | Some b \<Rightarrow> b \<noteq> [] \<and> trim_end b = b)"

lemma not_digit_chars [simp]:
  "\<not> is_ascii_digit CHR ''-''" "\<not> is_ascii_digit CHR ''.''"
  "\<not> is_ascii_alphanumeric CHR ''.''" "\<not> is_ascii_alphanumeric CHR ''+''"
  "solid CHR ''-''" "solid CHR ''+''" "solid CHR ''.''"
  by (simp_all add: is_ascii_digit_def is_ascii_alphanumeric_def solid_def)

definition id_char :: "char \<Rightarrow> bool" where
  "id_char c \<longleftrightarrow> is_ascii_alphanumeric c \<or> c = CHR ''-''"

lemma id_char_props:
  "\<not> id_char CHR ''.''" "\<not> id_char CHR ''+''" "id_char c \<Longrightarrow> solid c"
  "is_ascii_digit c \<Longrightarrow> id_char c"
  by (auto simp: id_char_def is_ascii_alphanumeric_solid is_ascii_digit_alphanumeric)

lemma identifier_display_props:
  assumes "wf_identifier i"
  shows "PrereleaseIdentifier_display i \<noteq> []"
    and "c \<in> set (PrereleaseIdentifier_display i) \<Longrightarrow> id_char c"
  using assms show_u64_props
  by (cases i; fastforce simp: list_all_iff id_char_def is_ascii_digit_alphanumeric)+

lemma identifier_parse_display:
  assumes "wf_identifier i"
  shows "PrereleaseIdentifier_parse (PrereleaseIdentifier_display i) = Ok i"
proof (cases i)
  case (Numeric n)
  have "\<not> (length (show_u64 n) > 1 \<and> starts_with (show_u64 n) ''0'')"
    using show_nat_leading_zero [of "unat n"] by (auto simp: starts_with_iff show_u64_def)
  with Numeric show ?thesis
    using show_u64_props [of n] by (simp add: PrereleaseIdentifier_parse_def)
next
  case (Alpha s)
  with assms show ?thesis by (simp add: PrereleaseIdentifier_parse_def)
qed

lemma identifier_parse_wf:
  "PrereleaseIdentifier_parse s = Ok i \<Longrightarrow> wf_identifier i"
  by (auto simp: PrereleaseIdentifier_parse_def split: if_splits option.splits)

lemma prerelease_parse_wf:
  "Prerelease_parse s = Ok p \<Longrightarrow>
     identifiers p \<noteq> [] \<and> list_all wf_identifier (identifiers p)"
  by (auto simp: Prerelease_parse_def list_all_iff
      dest: collect_results_length collect_results_Ok_set identifier_parse_wf split: if_splits)

lemma prerelease_display_props:
  assumes "identifiers p \<noteq> []" and "list_all wf_identifier (identifiers p)"
  shows "Prerelease_display p \<noteq> []"
    and "c \<in> set (Prerelease_display p) \<Longrightarrow> id_char c \<or> c = CHR ''.''"
    and "solid (last (Prerelease_display p))"
proof -
  let ?ds = "map PrereleaseIdentifier_display (identifiers p)"
  have ne: "?ds \<noteq> []" "last ?ds \<noteq> []"
    using assms identifier_display_props(1) by (auto simp: last_map list_all_iff)
  then show "Prerelease_display p \<noteq> []"
    unfolding Prerelease_display_def using join_last by blast
  show "id_char c \<or> c = CHR ''.''" if "c \<in> set (Prerelease_display p)"
    using that set_join [of "''.''" ?ds] assms(2) identifier_display_props(2)
    unfolding Prerelease_display_def by (fastforce simp: list_all_iff)
  have "last (Prerelease_display p) = last (last ?ds)"
    unfolding Prerelease_display_def using join_last [OF ne] by simp
  moreover have "id_char (last (last ?ds))"
    using ne assms identifier_display_props(2) [of "last (identifiers p)"]
    by (simp add: last_map list_all_iff)
  ultimately show "solid (last (Prerelease_display p))"
    by (simp add: id_char_props)
qed

lemma prerelease_parse_display:
  assumes "identifiers p \<noteq> []" and "list_all wf_identifier (identifiers p)"
  shows "Prerelease_parse (Prerelease_display p) = Ok p"
proof -
  let ?ds = "map PrereleaseIdentifier_display (identifiers p)"
  have "split_on CHR ''.'' (Prerelease_display p) = ?ds"
    unfolding Prerelease_display_def
    using assms identifier_display_props(2) id_char_props(1)
    by (intro split_on_join) (auto simp: list_all_iff)
  moreover have "collect_results PrereleaseIdentifier_parse ?ds = Ok (identifiers p)"
    using assms(2) by (intro collect_results_map_Ok identifier_parse_display) (simp add: list_all_iff)
  ultimately show ?thesis
    using prerelease_display_props(1) [OF assms] by (simp add: Prerelease_parse_def)
qed

text \<open>The part of a printed version before the build metadata.\<close>

definition core_string :: "Version \<Rightarrow> string" where
  "core_string v = show_u64 (major v) @ ''.'' @ show_u64 (minor v) @ ''.'' @ show_u64 (patch v)"

definition pre_string :: "Version \<Rightarrow> string" where
  "pre_string v = (case pre v of None \<Rightarrow> [] | Some p \<Rightarrow> CHR ''-'' # Prerelease_display p)"

definition build_string :: "Version \<Rightarrow> string" where
  "build_string v = (case build v of None \<Rightarrow> [] | Some b \<Rightarrow> CHR ''+'' # b)"

lemma display_parts: "Version_display v = core_string v @ pre_string v @ build_string v"
  by (simp add: Version_display_def core_string_def pre_string_def build_string_def
      split: option.splits)

lemma core_string_chars:
  "c \<in> set (core_string v) \<Longrightarrow> is_ascii_digit c \<or> c = CHR ''.''"
  using show_u64_props by (auto simp: core_string_def list_all_iff)

lemma core_string_split:
  "split_on CHR ''.'' (core_string v) = [show_u64 (major v), show_u64 (minor v), show_u64 (patch v)]"
  by (simp add: core_string_def split_on_append split_on_no_sep show_u64_no_char)

lemma core_string_hd: "core_string v \<noteq> [] \<and> solid (hd (core_string v)) \<and> solid (last (core_string v))"
  using show_u64_props [of "major v"] show_u64_props [of "patch v"]
  by (auto simp: core_string_def list_all_iff id_char_props(3,4))

lemma pre_string_chars:
  "wf_version v \<Longrightarrow> c \<in> set (pre_string v) \<Longrightarrow> id_char c \<or> c = CHR ''.''"
  by (auto simp: pre_string_def wf_version_def id_char_def
      dest: prerelease_display_props(2) split: option.splits)

lemma display_trim:
  assumes "wf_version v"
  shows "trim (Version_display v) = Version_display v"
proof -
  let ?s = "Version_display v"
  have hd: "?s \<noteq> []" "solid (hd ?s)"
    using core_string_hd [of v] by (auto simp: display_parts)
  have "trim_end ?s = ?s"
  proof (cases "build v")
    case (Some b)
    then have "?s = (core_string v @ pre_string v) @ CHR ''+'' # b"
      by (simp add: display_parts build_string_def)
    moreover have "trim_end b = b" using assms Some by (simp add: wf_version_def)
    ultimately show ?thesis
      using trim_end_append_solid [of "CHR ''+''" "core_string v @ pre_string v" b] by simp
  next
    case None
    have "solid (last ?s)"
    proof (cases "pre v")
      case None
      with \<open>build v = None\<close> show ?thesis
        using core_string_hd [of v] by (simp add: display_parts build_string_def pre_string_def)
    next
      case (Some p)
      with assms \<open>build v = None\<close> show ?thesis
        using prerelease_display_props(1,3) [of p]
        by (simp add: display_parts build_string_def pre_string_def wf_version_def)
    qed
    with hd show ?thesis by (simp add: trim_end_solid)
  qed
  with hd show ?thesis by (simp add: trim_def trim_start_solid)
qed

lemma version_roundtrip:
  assumes "wf_version v"
  shows "Version_parse (Version_display v) = Ok v"
proof -
  let ?s = "Version_display v" and ?cp = "core_string v @ pre_string v"
  have ne: "?s \<noteq> []" using core_string_hd [of v] by (simp add: display_parts)
  have b: "split_build_metadata ?s = Ok (?cp, build v)"
  proof -
    have "CHR ''+'' \<notin> set ?cp"
      using core_string_chars [of "CHR ''+''" v] pre_string_chars [OF assms, of "CHR ''+''"]
        id_char_props(2) by auto
    then show ?thesis
      using assms split_once_append [of "CHR ''+''" ?cp]
      by (cases "build v")
        (auto simp: split_build_metadata_def display_parts build_string_def wf_version_def)
  qed
  have p: "split_prerelease ?s ?cp = Ok (core_string v, pre v)"
  proof -
    have "CHR ''-'' \<notin> set (core_string v)"
      using core_string_chars [of "CHR ''-''" v] by auto
    then show ?thesis
      using assms prerelease_display_props(1) prerelease_parse_display
      by (cases "pre v")
        (auto simp: split_prerelease_def pre_string_def wf_version_def)
  qed
  have "parse_core_version ?s (core_string v) = Ok (major v, minor v, patch v)"
    by (simp add: parse_core_version_def core_string_split)
  with b p ne show ?thesis by (simp add: Version_parse_def display_trim [OF assms])
qed

text \<open>(C7) Round trip: parsing the printed form of a well-formed version gives the version back.\<close>

theorem Version_parse_display:
  assumes "wf_version v"
  shows "Version_parse (Version_display v) = Ok v"
  using assms by (rule version_roundtrip)

lemma version_parsed_wf:
  assumes "Version_parse s = Ok v"
  shows "wf_version v"
proof -
  from assms obtain vp core where
    b: "split_build_metadata (trim s) = Ok (vp, build v)" and
    p: "split_prerelease (trim s) vp = Ok (core, pre v)"
    by (auto simp: Version_parse_def Let_def split: if_splits)
  have "trim_end b = b" if "split_once CHR ''+'' (trim s) = Some (a, b)" for a b
  proof -
    from that have "trim s = a @ CHR ''+'' # b" by (simp add: split_once_Some_iff)
    then have "trim_end (a @ CHR ''+'' # b) = a @ CHR ''+'' # b"
      using trim_end_trim [of s] by simp
    then show ?thesis by (simp add: trim_end_append_solid)
  qed
  with b have "case build v of None \<Rightarrow> True | Some b \<Rightarrow> b \<noteq> [] \<and> trim_end b = b"
    by (auto simp: split_build_metadata_def split: option.splits if_splits)
  moreover from p have "case pre v of None \<Rightarrow> True
      | Some p \<Rightarrow> identifiers p \<noteq> [] \<and> list_all wf_identifier (identifiers p)"
    by (auto simp: split_prerelease_def dest: prerelease_parse_wf split: option.splits if_splits)
  ultimately show ?thesis by (simp add: wf_version_def)
qed

text \<open>The parser accepts only well-formed versions: whatever the input, a parsed version has
  legal pre-release identifiers and build metadata that survives printing.\<close>

theorem Version_parse_wf:
  assumes "Version_parse s = Ok v"
  shows "wf_version v"
  using assms by (rule version_parsed_wf)

theorem Version_parse_display_witness:
  "wf_version (Version_new 1 2 3\<lparr>pre := Some \<lparr>identifiers = [Alpha ''alpha'', Numeric 1]\<rparr>\<rparr>)
   \<and> Version_parse (Version_display
       (Version_new 1 2 3\<lparr>pre := Some \<lparr>identifiers = [Alpha ''alpha'', Numeric 1]\<rparr>\<rparr>))
     = Ok (Version_new 1 2 3\<lparr>pre := Some \<lparr>identifiers = [Alpha ''alpha'', Numeric 1]\<rparr>\<rparr>)"
proof -
  have "wf_version (Version_new 1 2 3\<lparr>pre := Some \<lparr>identifiers = [Alpha ''alpha'', Numeric 1]\<rparr>\<rparr>)"
    by (simp add: wf_version_def Version_new_def is_ascii_alphanumeric_def is_ascii_digit_def)
  then show ?thesis using Version_parse_display by blast
qed

lemma Version_parse_example:
  "Version_parse ''1.20.3-rc.1+b7'' =
     Ok \<lparr>major = 1, minor = 20, patch = 3,
         pre = Some \<lparr>identifiers = [Alpha ''rc'', Numeric 1]\<rparr>, build = Some ''b7''\<rparr>"
  by (simp add: Version_parse_def trim_solid solid_def split_build_metadata_def split_prerelease_def
      parse_core_version_def Prerelease_parse_def PrereleaseIdentifier_parse_def is_ascii_digit_def
      is_ascii_alphanumeric_def parse_u64_def parse_nat_def digits_nat_def starts_with_def)

section \<open>Precedence\<close>

lemma prerelease_cmp_lex:
  "Prerelease_cmp a b = lex_cmp PrereleaseIdentifier_cmp (identifiers a) (identifiers b)"
proof -
  have "(case first_difference (zip xs ys) of Some ord \<Rightarrow> ord | None \<Rightarrow> cmp_of (length xs) (length ys))
      = lex_cmp PrereleaseIdentifier_cmp xs ys" for xs ys
    by (induction PrereleaseIdentifier_cmp xs ys rule: lex_cmp.induct)
      (auto simp: cmp_of_def split: ordering.splits option.splits)
  then show ?thesis by (simp add: Prerelease_cmp_def)
qed

interpretation identifier_ord: rust_ord PrereleaseIdentifier_cmp
proof
  fix x y z
  show "PrereleaseIdentifier_cmp y x = ord_reverse (PrereleaseIdentifier_cmp x y)"
    by (cases x; cases y) (auto intro: linorder_ord.cmp_reverse)
  show "PrereleaseIdentifier_cmp x y = OLess \<Longrightarrow> PrereleaseIdentifier_cmp y z = OLess \<Longrightarrow>
      PrereleaseIdentifier_cmp x z = OLess"
    by (cases x; cases y; cases z) auto
  show "PrereleaseIdentifier_cmp x y = OEqual \<Longrightarrow>
      PrereleaseIdentifier_cmp x z = PrereleaseIdentifier_cmp y z"
    by (cases x; cases y; cases z) auto
qed

lemma identifier_cmp_equal_iff: "PrereleaseIdentifier_cmp i j = OEqual \<longleftrightarrow> i = j"
  by (cases i; cases j) auto

interpretation prerelease_ord: rust_ord Prerelease_cmp
  unfolding prerelease_cmp_lex
  by (rule rust_ord_inv_image [OF identifier_ord.rust_ord_lex])

lemma prerelease_cmp_equal_iff: "Prerelease_cmp p q = OEqual \<longleftrightarrow> p = q"
  using identifier_ord.lex_cmp_equal_iff [OF identifier_cmp_equal_iff]
  by (cases p; cases q) (simp add: prerelease_cmp_lex)

interpretation pre_ord: rust_ord pre_cmp
proof
  fix x y z
  show "pre_cmp y x = ord_reverse (pre_cmp x y)"
    by (cases x; cases y) (auto simp: pre_cmp_def intro: prerelease_ord.cmp_reverse)
  show "pre_cmp x y = OLess \<Longrightarrow> pre_cmp y z = OLess \<Longrightarrow> pre_cmp x z = OLess"
    by (auto simp: pre_cmp_def dest: prerelease_ord.cmp_less_trans split: option.splits)
  show "pre_cmp x y = OEqual \<Longrightarrow> pre_cmp x z = pre_cmp y z"
    by (auto simp: pre_cmp_def prerelease_cmp_equal_iff split: option.splits)
qed

lemma pre_cmp_equal_iff: "pre_cmp p q = OEqual \<longleftrightarrow> p = q"
  by (auto simp: pre_cmp_def prerelease_cmp_equal_iff split: option.splits)

interpretation version_ord: rust_ord Version_cmp
  unfolding Version_cmp_def
  by (intro rust_ord_then linorder_ord.rust_ord_axioms pre_ord.rust_ord_axioms
      rust_ord_inv_image [where c = cmp_of] rust_ord_inv_image [where c = pre_cmp])

lemma version_cmp_equal_iff:
  "Version_cmp v w = OEqual \<longleftrightarrow>
     major v = major w \<and> minor v = minor w \<and> patch v = patch w \<and> pre v = pre w"
  by (simp add: Version_cmp_def pre_cmp_equal_iff)

text \<open>(C6) The precedence of versions is a lawful total order: swapping the arguments reverses the
  result, \<open>Less\<close> is transitive, and two versions compare equal exactly when they differ at most in
  their build metadata, so such versions compare alike with every other version.\<close>

theorem Version_cmp_lawful:
  "Version_cmp w v = ord_reverse (Version_cmp v w)
   \<and> (Version_cmp v w = OLess \<longrightarrow> Version_cmp w u = OLess \<longrightarrow> Version_cmp v u = OLess)
   \<and> (Version_cmp v w = OEqual \<longleftrightarrow> v\<lparr>build := None\<rparr> = w\<lparr>build := None\<rparr>)
   \<and> (v\<lparr>build := None\<rparr> = w\<lparr>build := None\<rparr> \<longrightarrow> Version_cmp v u = Version_cmp w u)"
proof -
  have eq: "Version_cmp v w = OEqual \<longleftrightarrow> v\<lparr>build := None\<rparr> = w\<lparr>build := None\<rparr>"
    unfolding version_cmp_equal_iff by (cases v; cases w) simp
  then show ?thesis
    using version_ord.cmp_reverse [of w v] version_ord.cmp_less_trans [of v w u]
      version_ord.cmp_equal_subst [of v w u] by blast
qed

text \<open>The chain of examples of the semver specification, section 11.\<close>

theorem Version_cmp_lawful_witness:
  "Version_cmp (Version_new 1 0 0\<lparr>pre := Some \<lparr>identifiers = [Alpha ''alpha'']\<rparr>\<rparr>)
     (Version_new 1 0 0) = OLess"
proof -
  let ?a = "Version_new 1 0 0\<lparr>pre := Some \<lparr>identifiers = [Alpha ''alpha'']\<rparr>\<rparr>"
  let ?b = "Version_new 1 0 0\<lparr>pre := Some \<lparr>identifiers = [Alpha ''alpha'', Numeric 1]\<rparr>\<rparr>"
  have "Version_cmp ?a ?b = OLess"
    by (simp add: Version_cmp_def Version_new_def pre_cmp_def Prerelease_cmp_def)
  moreover have "Version_cmp ?b (Version_new 1 0 0) = OLess"
    by (simp add: Version_cmp_def Version_new_def pre_cmp_def)
  ultimately show ?thesis
    using Version_cmp_lawful [of ?b ?a "Version_new 1 0 0"] by blast
qed

section \<open>Version arithmetic\<close>

lemma word_less_succ: "(x::u64) \<noteq> - 1 \<Longrightarrow> x < x + 1"
  using inc_less_eq_iff [of x] by auto

text \<open>Bumping a component yields a later version with the components below it reset, as long as
  that component is not the largest \<open>u64\<close>; at the largest one the release build wraps around to
  an earlier version.\<close>

theorem bump_increases:
  "(major v \<noteq> - 1 \<longrightarrow> Version_cmp v (bump_major v) = OLess)
   \<and> (minor v \<noteq> - 1 \<longrightarrow> Version_cmp v (bump_minor v) = OLess)
   \<and> (patch v \<noteq> - 1 \<longrightarrow> Version_cmp v (bump_patch v) = OLess)
   \<and> (major v = - 1 \<longrightarrow> Version_cmp (bump_major v) v = OLess)"
  by (auto simp: Version_cmp_def bump_major_def bump_minor_def bump_patch_def Version_new_def
      word_less_succ word_gt_0)

end
