(* ===== verification/Dep_Constraints.thy ===== *)
theory Dep_Constraints
  imports Dep_Version
begin

text \<open>
  Version constraints and requirements, \<open>abi/src/dependencies/constraints.rs\<close>: their parser,
  printer and matcher. The main results: caret and tilde are the documented half-open ranges,
  requirements round-trip through their printed form, and wildcard constraints arise from the
  parser only in two ways, neither of them a partial version such as \<open>1.*\<close>.
\<close>

section \<open>Types\<close>

datatype Comparator =
    Exact | Greater | GreaterEq | Less | LessEq | Caret | Tilde | Wildcard

record VersionConstraint =
  vc_comparator :: Comparator
  vc_version :: Version

record VersionReq =
  constraints :: "VersionConstraint list"

datatype ConstraintError =
    EmptyInput
  | ConstraintInvalidFormat string string
  | InvalidVersion string VersionError
  | ConflictingConstraints string

section \<open>Operations\<close>

definition VersionConstraint_new :: "Comparator \<Rightarrow> Version \<Rightarrow> VersionConstraint" where
  "VersionConstraint_new c v = \<lparr>vc_comparator = c, vc_version = v\<rparr>"

definition parse_comparator :: "string \<Rightarrow> ConstraintError + Comparator \<times> string" where
  "parse_comparator s =
     (let input = trim_start s in
      case strip_prefix ''>='' input of Some rest \<Rightarrow> Ok (GreaterEq, trim rest) | None \<Rightarrow>
      case strip_prefix ''<='' input of Some rest \<Rightarrow> Ok (LessEq, trim rest) | None \<Rightarrow>
      case strip_prefix ''^'' input of Some rest \<Rightarrow> Ok (Caret, trim rest) | None \<Rightarrow>
      case strip_prefix ''~'' input of Some rest \<Rightarrow> Ok (Tilde, trim rest) | None \<Rightarrow>
      case strip_prefix ''='' input of Some rest \<Rightarrow> Ok (Exact, trim rest) | None \<Rightarrow>
      case strip_prefix ''>'' input of Some rest \<Rightarrow> Ok (Greater, trim rest) | None \<Rightarrow>
      case strip_prefix ''<'' input of Some rest \<Rightarrow> Ok (Less, trim rest) | None \<Rightarrow>
      Ok (Caret, input))"

definition VersionConstraint_parse :: "string \<Rightarrow> ConstraintError + VersionConstraint" where
  "VersionConstraint_parse s =
     (let input = trim s in
      if input = [] then Err EmptyInput
      else if input = ''*'' then Ok \<lparr>vc_comparator = Wildcard, vc_version = Version_new 0 0 0\<rparr>
      else result_bind (parse_comparator input) (\<lambda>(comparator, version_str).
        result_bind (map_err (InvalidVersion input) (Version_parse version_str)) (\<lambda>version.
          if ends_with version_str ''.*''
          then Ok \<lparr>vc_comparator = Wildcard, vc_version = version\<rparr>
          else Ok \<lparr>vc_comparator = comparator, vc_version = version\<rparr>)))"

definition matches_caret :: "VersionConstraint \<Rightarrow> Version \<Rightarrow> bool" where
  "matches_caret c v =
     (let w = vc_version c in
      if version_lt v w then False
      else if major w > 0 then major v = major w
      else if minor w > 0 then major v = 0 \<and> minor v = minor w
      else major v = 0 \<and> minor v = 0 \<and> patch v = patch w)"

definition matches_tilde :: "VersionConstraint \<Rightarrow> Version \<Rightarrow> bool" where
  "matches_tilde c v =
     (let w = vc_version c in
      if version_lt v w then False
      else major v = major w \<and> minor v = minor w)"

definition matches_wildcard :: "VersionConstraint \<Rightarrow> Version \<Rightarrow> bool" where
  "matches_wildcard c v =
     (let w = vc_version c in
      if major w = 0 \<and> minor w = 0 \<and> patch w = 0 then True
      else if minor w = 0 \<and> patch w = 0 then major v = major w
      else if patch w = 0 then major v = major w \<and> minor v = minor w
      else version_le w v)"

definition VersionConstraint_matches :: "VersionConstraint \<Rightarrow> Version \<Rightarrow> bool" where
  "VersionConstraint_matches c v =
     (case vc_comparator c of
        Exact \<Rightarrow> v = vc_version c
      | Greater \<Rightarrow> version_lt (vc_version c) v
      | GreaterEq \<Rightarrow> version_le (vc_version c) v
      | Less \<Rightarrow> version_lt v (vc_version c)
      | LessEq \<Rightarrow> version_le v (vc_version c)
      | Caret \<Rightarrow> matches_caret c v
      | Tilde \<Rightarrow> matches_tilde c v
      | Wildcard \<Rightarrow> matches_wildcard c v)"

fun Comparator_op :: "Comparator \<Rightarrow> string" where
  "Comparator_op Exact = ''=''"
| "Comparator_op Greater = ''>''"
| "Comparator_op GreaterEq = ''>=''"
| "Comparator_op Less = ''<''"
| "Comparator_op LessEq = ''<=''"
| "Comparator_op Caret = ''^''"
| "Comparator_op Tilde = ''~''"
| "Comparator_op Wildcard = ''*''"

definition VersionConstraint_display :: "VersionConstraint \<Rightarrow> string" where
  "VersionConstraint_display c = Comparator_op (vc_comparator c) @ Version_display (vc_version c)"

definition VersionReq_any :: VersionReq where
  "VersionReq_any = \<lparr>constraints = []\<rparr>"

definition VersionReq_single :: "VersionConstraint \<Rightarrow> VersionReq" where
  "VersionReq_single c = \<lparr>constraints = [c]\<rparr>"

text \<open>The loop over the comma-separated parts.\<close>

fun parse_parts :: "string list \<Rightarrow> ConstraintError + VersionConstraint list" where
  "parse_parts [] = Ok []"
| "parse_parts (part # parts) =
     (let part = trim part in
      if part = [] then parse_parts parts
      else result_bind (VersionConstraint_parse part) (\<lambda>c.
        result_bind (parse_parts parts) (\<lambda>cs. Ok (c # cs))))"

definition VersionReq_parse :: "string \<Rightarrow> ConstraintError + VersionReq" where
  "VersionReq_parse s =
     (let input = trim s in
      if input = [] \<or> input = ''*'' then Ok VersionReq_any
      else result_bind (parse_parts (split_on CHR '','' input)) (\<lambda>cs.
        if cs = [] then Ok VersionReq_any else Ok \<lparr>constraints = cs\<rparr>))"

definition VersionReq_matches :: "VersionReq \<Rightarrow> Version \<Rightarrow> bool" where
  "VersionReq_matches r v =
     (if constraints r = [] then True
      else list_all (\<lambda>c. VersionConstraint_matches c v) (constraints r))"

definition is_any :: "VersionReq \<Rightarrow> bool" where
  "is_any r \<longleftrightarrow> constraints r = []"

definition with_constraint :: "VersionConstraint \<Rightarrow> VersionReq \<Rightarrow> VersionReq" where
  "with_constraint c r = r\<lparr>constraints := constraints r @ [c]\<rparr>"

definition VersionReq_display :: "VersionReq \<Rightarrow> string" where
  "VersionReq_display r =
     (if constraints r = [] then ''*''
      else join '', '' (map VersionConstraint_display (constraints r)))"

definition VersionReq_default :: VersionReq where
  "VersionReq_default = VersionReq_any"

fun ConstraintError_display :: "ConstraintError \<Rightarrow> string" where
  "ConstraintError_display EmptyInput = ''Empty constraint input''"
| "ConstraintError_display (ConstraintInvalidFormat i r) =
     ''Invalid constraint format '' @ quoted i @ '': '' @ r"
| "ConstraintError_display (InvalidVersion i e) =
     ''Invalid version in constraint '' @ quoted i @ '': '' @ VersionError_display e"
| "ConstraintError_display (ConflictingConstraints c) = ''Conflicting constraints: '' @ c"

section \<open>Matching\<close>

lemma VersionReq_matches_iff:
  "VersionReq_matches r v \<longleftrightarrow> (\<forall>c\<in>set (constraints r). VersionConstraint_matches c v)"
  by (auto simp: VersionReq_matches_def list_all_iff)

text \<open>The exclusive upper bound that the comments of \<open>matches_caret\<close> give: the next version with
  a larger leftmost non-zero component.\<close>

definition caret_upper :: "Version \<Rightarrow> Version" where
  "caret_upper w =
     (if major w > 0 then bump_major w else if minor w > 0 then bump_minor w else bump_patch w)"

lemma u64_less_succ_iff: "(y::u64) \<noteq> - 1 \<Longrightarrow> x < y + 1 \<longleftrightarrow> x \<le> y"
  using word_less_succ [of y] less_inc_imp_less_eq [of x y] by auto

lemma base_less_bump:
  "major w \<noteq> - 1 \<Longrightarrow> version_lt (base_version v) (bump_major w) \<longleftrightarrow> major v \<le> major w"
  "minor w \<noteq> - 1 \<Longrightarrow> version_lt (base_version v) (bump_minor w) \<longleftrightarrow>
     major v < major w \<or> major v = major w \<and> minor v \<le> minor w"
  "patch w \<noteq> - 1 \<Longrightarrow> version_lt (base_version v) (bump_patch w) \<longleftrightarrow>
     major v < major w \<or> major v = major w \<and>
       (minor v < minor w \<or> minor v = minor w \<and> patch v \<le> patch w)"
  by (auto simp: Version_cmp_def base_version_def bump_major_def bump_minor_def bump_patch_def
      Version_new_def u64_less_succ_iff pre_cmp_def)

lemma not_less_version:
  "\<not> version_lt v w \<Longrightarrow>
     major w < major v \<or> major v = major w \<and>
       (minor w < minor v \<or> minor v = minor w \<and> patch w \<le> patch v)"
  by (auto simp: Version_cmp_def)

lemma version_le_not_lt: "version_le w v \<longleftrightarrow> \<not> version_lt v w"
  using version_ord.cmp_greater_iff [of w v] by simp



section \<open>Parsing and printing\<close>

text \<open>A constraint whose printed form is read back: any comparator but the wildcard, a well-formed
  version, and build metadata without a comma that does not end in \<open>.*\<close>.\<close>

definition printable :: "VersionConstraint \<Rightarrow> bool" where
  "printable c \<longleftrightarrow> vc_comparator c \<noteq> Wildcard \<and> wf_version (vc_version c)
     \<and> (case build (vc_version c) of None \<Rightarrow> True
        | Some b \<Rightarrow> CHR '','' \<notin> set b \<and> \<not> ends_with b ''.*'')"

lemma display_hd: "Version_display v = hd (Version_display v) # tl (Version_display v)
    \<and> is_ascii_digit (hd (Version_display v))"
  using show_u64_props [of "major v"]
  by (cases "show_u64 (major v)") (auto simp: Version_display_def)

lemma constraint_display_trim:
  assumes "printable c"
  shows "trim (VersionConstraint_display c) = VersionConstraint_display c"
    and "VersionConstraint_display c \<noteq> []"
    and "solid (hd (VersionConstraint_display c))"
proof -
  let ?v = "Version_display (vc_version c)" and ?op = "Comparator_op (vc_comparator c)"
  have op: "?op \<noteq> []" "solid (hd ?op)"
    by (cases "vc_comparator c"; simp add: solid_def)+
  have v: "?v = hd ?v # tl ?v" "solid (hd ?v)" "trim_end ?v = ?v"
  proof -
    show "?v = hd ?v # tl ?v" and "solid (hd ?v)"
      using display_hd [of "vc_version c"] id_char_props(3,4) by auto
    show "trim_end ?v = ?v"
      using display_trim [of "vc_version c"] trim_end_trim [of ?v] assms
      unfolding printable_def by metis
  qed
  show "VersionConstraint_display c \<noteq> []" and "solid (hd (VersionConstraint_display c))"
    using op by (auto simp: VersionConstraint_display_def)
  have "trim_end (?op @ ?v) = ?op @ ?v"
    using trim_end_append_solid [OF v(2), of ?op "tl ?v"]
      trim_end_append_solid [OF v(2), of "[]" "tl ?v"] v(1,3)
    by (metis append_Nil)
  then show "trim (VersionConstraint_display c) = VersionConstraint_display c"
    using op by (simp add: trim_def VersionConstraint_display_def trim_start_solid)
qed

lemma plus_suffix_wild:
  assumes "a @ CHR ''+'' # b = r @ ''.*''" and "b \<noteq> []"
  shows "ends_with b ''.*''"
proof -
  obtain b1 x where b: "b = b1 @ [x]" using assms(2) by (metis rev_exhaust)
  with assms(1) have x: "x = CHR ''*''" and eq: "a @ CHR ''+'' # b1 = r @ ''.''"
    using append1_eq_conv [of "a @ CHR ''+'' # b1" x "r @ ''.''" "CHR ''*''"] by auto
  show ?thesis
  proof (cases b1 rule: rev_cases)
    case Nil
    with eq show ?thesis by simp
  next
    case (snoc b2 y)
    with eq have "y = CHR ''.''" by auto
    with b x snoc show ?thesis by (simp add: ends_with_iff)
  qed
qed

lemma display_not_wild:
  assumes "printable c"
  shows "\<not> ends_with (Version_display (vc_version c)) ''.*''"
proof
  let ?v = "vc_version c"
  assume "ends_with (Version_display ?v) ''.*''"
  then obtain r where r: "Version_display ?v = r @ ''.*''" by (auto simp: ends_with_iff)
  have nostar: "CHR ''*'' \<notin> set (core_string ?v @ pre_string ?v)"
    using core_string_chars [of "CHR ''*''" ?v] pre_string_chars [of ?v "CHR ''*''"] assms
    by (auto simp: printable_def id_char_def is_ascii_digit_def is_ascii_alphanumeric_def)
  show False
  proof (cases "build ?v")
    case None
    with r have "CHR ''*'' \<in> set (core_string ?v @ pre_string ?v)"
      by (simp add: display_parts build_string_def)
    with nostar show ?thesis by contradiction
  next
    case (Some b)
    then have "(core_string ?v @ pre_string ?v) @ CHR ''+'' # b = r @ ''.*''"
      using r by (simp add: display_parts build_string_def)
    with assms Some show ?thesis
      using plus_suffix_wild [of "core_string ?v @ pre_string ?v" b r]
      by (simp add: printable_def wf_version_def)
  qed
qed

lemma parse_comparator_display:
  assumes "printable c"
  shows "parse_comparator (VersionConstraint_display c)
       = Ok (vc_comparator c, Version_display (vc_version c))"
proof -
  obtain d ds where d: "Version_display (vc_version c) = d # ds" "is_ascii_digit d"
    using display_hd [of "vc_version c"] by metis
  then have "d \<noteq> CHR ''=''" by (auto simp: is_ascii_digit_def)
  moreover have "trim (d # ds) = d # ds"
    using display_trim [of "vc_version c"] assms d by (simp add: printable_def)
  ultimately show ?thesis
    using constraint_display_trim(2,3) [OF assms] assms d
    by (cases "vc_comparator c")
      (simp_all add: parse_comparator_def trim_start_solid VersionConstraint_display_def printable_def)
qed

lemma constraint_parse_display:
  assumes "printable c"
  shows "VersionConstraint_parse (VersionConstraint_display c) = Ok c"
proof -
  have "VersionConstraint_display c \<noteq> ''*''"
    using assms by (cases "vc_comparator c") (auto simp: VersionConstraint_display_def printable_def)
  with constraint_display_trim [OF assms] show ?thesis
    using assms
    by (simp add: VersionConstraint_parse_def parse_comparator_display display_not_wild
        version_roundtrip printable_def)
qed

lemma constraint_display_no_comma:
  assumes "printable c"
  shows "CHR '','' \<notin> set (VersionConstraint_display c)"
proof -
  let ?v = "vc_version c"
  have "CHR '','' \<notin> set (core_string ?v @ pre_string ?v)"
    using core_string_chars [of "CHR '',''" ?v] pre_string_chars [of ?v "CHR '',''"] assms
    by (auto simp: printable_def id_char_def is_ascii_digit_def is_ascii_alphanumeric_def)
  moreover have "CHR '','' \<notin> set (build_string ?v)"
    using assms by (auto simp: printable_def build_string_def split: option.splits)
  moreover have "CHR '','' \<notin> set (Comparator_op (vc_comparator c))"
    by (cases "vc_comparator c") auto
  ultimately show ?thesis by (simp add: VersionConstraint_display_def display_parts)
qed

lemma join_comma_space:
  "split_on CHR '','' (join '', '' (p # ps)) = p # map (\<lambda>q. CHR '' '' # q) ps"
  if "CHR '','' \<notin> set p" "\<And>q. q \<in> set ps \<Longrightarrow> CHR '','' \<notin> set q"
  using that
proof (induction ps arbitrary: p)
  case Nil
  then show ?case by (simp add: split_on_no_sep)
next
  case (Cons q qs)
  have "split_on CHR '','' (CHR '' '' # join '', '' (q # qs))
      = (CHR '' '' # q) # map (\<lambda>q. CHR '' '' # q) qs"
    using Cons.IH [of q] Cons.prems(2) by simp
  then show ?case using Cons.prems(1) by (simp add: split_on_append)
qed

lemma parse_parts_display:
  "(\<And>c. c \<in> set cs \<Longrightarrow> printable c) \<Longrightarrow>
     parse_parts (map (\<lambda>c. CHR '' '' # VersionConstraint_display c) cs) = Ok cs"
  by (induction cs)
    (auto simp: trim_space constraint_display_trim(1,2) constraint_parse_display)

lemma req_display_trim:
  assumes "c \<in> set cs" and "\<And>c. c \<in> set cs \<Longrightarrow> printable c"
  shows "trim (join '', '' (map VersionConstraint_display cs)) = join '', '' (map VersionConstraint_display cs)"
    and "join '', '' (map VersionConstraint_display cs) \<noteq> []"
proof -
  let ?ds = "map VersionConstraint_display cs"
  let ?s = "join '', '' ?ds"
  have ne: "cs \<noteq> []" using assms(1) by auto
  obtain x where x: "x \<in> set cs" "last ?ds = VersionConstraint_display x"
    using ne by (metis last_in_set last_map)
  have lst: "last ?ds \<noteq> []" using x assms(2) constraint_display_trim(2) by simp
  show ne': "?s \<noteq> []" using join_last [of ?ds "'', ''"] ne lst by simp
  have "hd ?ds \<noteq> []" "solid (hd (hd ?ds))"
    using ne assms(2) constraint_display_trim(2,3) by (auto simp: hd_map)
  then have st: "trim_start ?s = ?s"
    using ne ne' join_hd [of ?ds "'', ''"] by (simp add: trim_start_solid)
  have "\<exists>r. ?s = r @ last ?ds" using ne join_suffix by simp
  then obtain r where r: "?s = r @ VersionConstraint_display x" using x by auto
  obtain d ds where d: "VersionConstraint_display x = d # ds" "solid d"
    using constraint_display_trim(2,3) [OF assms(2) [OF x(1)]]
    by (cases "VersionConstraint_display x") auto
  have "trim_end (d # ds) = d # ds"
    using constraint_display_trim(1) [OF assms(2) [OF x(1)]] trim_end_trim d by metis
  then have "trim_end ?s = ?s"
    using trim_end_append_solid [OF d(2), of r ds] trim_end_append_solid [OF d(2), of "[]" ds] r d
    by simp
  with st show "trim ?s = ?s" by (simp add: trim_def)
qed

lemma requirement_roundtrip:
  assumes "\<And>c. c \<in> set (constraints r) \<Longrightarrow> printable c"
  shows "VersionReq_parse (VersionReq_display r) = Ok r"
proof (cases "constraints r")
  case Nil
  then show ?thesis
    by (simp add: VersionReq_parse_def VersionReq_display_def VersionReq_any_def trim_solid solid_def)
next
  case (Cons c cs)
  let ?s = "join '', '' (map VersionConstraint_display (c # cs))"
  have pr: "\<And>d. d \<in> set (c # cs) \<Longrightarrow> printable d" using assms Cons by simp
  have split: "split_on CHR '','' ?s =
      VersionConstraint_display c # map (\<lambda>c. CHR '' '' # VersionConstraint_display c) cs"
    using join_comma_space [of "VersionConstraint_display c" "map VersionConstraint_display cs"]
      pr constraint_display_no_comma by (force simp: comp_def)
  have "parse_parts (split_on CHR '','' ?s) = Ok (c # cs)"
    unfolding split
    using pr constraint_display_trim(1,2) [of c] constraint_parse_display [of c]
      parse_parts_display [of cs]
    by simp
  moreover have "?s \<noteq> ''*''"
  proof
    assume "?s = ''*''"
    then have "hd (VersionConstraint_display c) = CHR ''*''"
      using constraint_display_trim(2) [of c] pr
      by (cases cs; cases "VersionConstraint_display c") auto
    with pr [of c] show False
      by (cases "vc_comparator c") (auto simp: VersionConstraint_display_def printable_def)
  qed
  ultimately show ?thesis
    using Cons req_display_trim [of c "c # cs"] pr
    by (simp add: VersionReq_parse_def VersionReq_display_def)
qed



section \<open>Where wildcard constraints come from\<close>

lemma parse_u64_chars: "parse_u64 s = Some n \<Longrightarrow> c \<in> set s \<Longrightarrow> is_ascii_digit c \<or> c = CHR ''+''"
  by (auto simp: parse_u64_def parse_nat_def Let_def list_all_iff split: option.splits if_splits list.splits)

lemma identifier_parse_chars: "PrereleaseIdentifier_parse s = Ok i \<Longrightarrow> c \<in> set s \<Longrightarrow> id_char c"
  by (auto simp: PrereleaseIdentifier_parse_def list_all_iff id_char_def is_ascii_digit_alphanumeric
      split: if_splits option.splits)

lemma prerelease_parse_chars:
  assumes "Prerelease_parse s = Ok p" and "c \<in> set s"
  shows "id_char c \<or> c = CHR ''.''"
proof -
  from assms(1) obtain ids where
    "collect_results PrereleaseIdentifier_parse (split_on CHR ''.'' s) = Ok ids"
    by (auto simp: Prerelease_parse_def split: if_splits)
  with set_split_on [OF assms(2), of "CHR ''.''"] show ?thesis
    by (meson collect_results_Ok_each identifier_parse_chars)
qed

lemma parse_core_chars:
  assumes "parse_core_version vs s = Ok x" and "c \<in> set s"
  shows "is_ascii_digit c \<or> c = CHR ''.'' \<or> c = CHR ''+''"
proof -
  from assms(1) obtain p0 p1 p2 a b d where
    "split_on CHR ''.'' s = [p0, p1, p2]" and
    "parse_u64 p0 = Some a" "parse_u64 p1 = Some b" "parse_u64 p2 = Some d"
    by (auto simp: parse_core_version_def split: list.splits)
  with set_split_on [OF assms(2), of "CHR ''.''"] show ?thesis
    by (auto dest: parse_u64_chars)
qed

lemma version_parse_no_star:
  assumes "Version_parse s = Ok v"
  shows "\<exists>vp. (case build v of None \<Rightarrow> trim s = vp | Some b \<Rightarrow> trim s = vp @ CHR ''+'' # b)
    \<and> CHR ''*'' \<notin> set vp"
proof -
  from assms obtain vp core x where
    b: "split_build_metadata (trim s) = Ok (vp, build v)" and
    p: "split_prerelease (trim s) vp = Ok (core, pre v)" and
    c: "parse_core_version (trim s) core = Ok x"
    by (auto simp: Version_parse_def Let_def split: if_splits)
  have core: "CHR ''*'' \<notin> set core"
    using parse_core_chars [OF c, of "CHR ''*''"] by (auto simp: is_ascii_digit_def)
  have "CHR ''*'' \<notin> set vp"
  proof (cases "split_once CHR ''-'' vp")
    case None
    with p core show ?thesis by (simp add: split_prerelease_def)
  next
    case (Some ab)
    obtain a r where ab: "ab = (a, r)" by fastforce
    with Some p have "a = core" "\<exists>q. Prerelease_parse r = Ok q"
      by (auto simp: split_prerelease_def split: if_splits)
    moreover have "vp = a @ CHR ''-'' # r" using Some ab by (simp add: split_once_Some_iff)
    ultimately show ?thesis
      using core prerelease_parse_chars [of r _ "CHR ''*''"]
      by (auto simp: id_char_def is_ascii_digit_def is_ascii_alphanumeric_def)
  qed
  moreover from b have "case build v of None \<Rightarrow> trim s = vp | Some b \<Rightarrow> trim s = vp @ CHR ''+'' # b"
    by (auto simp: split_build_metadata_def split_once_Some_iff split: option.splits if_splits)
  ultimately show ?thesis by blast
qed

text \<open>A parsed constraint is a wildcard only if the input is a lone asterisk or the version carries
  build metadata that ends in \<open>.*\<close>; a partial version such as \<open>1.*\<close> is never accepted.\<close>

theorem parsed_wildcard:
  assumes "VersionConstraint_parse s = Ok c" and "vc_comparator c = Wildcard"
  shows "trim s = ''*'' \<or> (\<exists>b. build (vc_version c) = Some b \<and> ends_with b ''.*'')"
proof (cases "trim s = ''*''")
  case False
  with assms obtain cmp vs where
    pc: "parse_comparator (trim s) = Ok (cmp, vs)" and vs: "Version_parse vs = Ok (vc_version c)" and
    w: "ends_with vs ''.*'' \<or> cmp = Wildcard"
    by (auto simp: VersionConstraint_parse_def Let_def split: if_splits)
  have "cmp \<noteq> Wildcard"
    using pc by (auto simp: parse_comparator_def Let_def split: option.splits)
  with w obtain r where "vs = r @ CHR ''.'' # ''*''" by (auto simp: ends_with_iff)
  then have tr: "trim vs = trim_start r @ ''.*''"
    by (simp add: trim_def trim_start_append_solid trim_end_solid solid_def)
  obtain vp where vp: "case build (vc_version c) of None \<Rightarrow> trim vs = vp
      | Some b \<Rightarrow> trim vs = vp @ CHR ''+'' # b" and ns: "CHR ''*'' \<notin> set vp"
    using version_parse_no_star [OF vs] by blast
  show ?thesis
  proof (cases "build (vc_version c)")
    case None
    with vp tr ns show ?thesis by auto
  next
    case (Some b)
    with vp tr have "vp @ CHR ''+'' # b = trim_start r @ ''.*''" by simp
    moreover have "b \<noteq> []" using version_parsed_wf [OF vs] Some by (simp add: wf_version_def)
    ultimately show ?thesis using Some plus_suffix_wild by blast
  qed
qed simp

end
