(* ===== verification/Dep_Graph.thy ===== *)
theory Dep_Graph
  imports Dep_Constraints
begin

text \<open>
  The dependency graph, \<open>abi/src/dependencies/graph.rs\<close>: construction with its reverse index,
  cycle detection by depth-first search, Kahn's topological sort, and the transitive closures.
  The iterated hash maps \<open>nodes\<close> and \<open>dependents\<close> (and the hash sets in the latter) are lists; no
  theorem depends on their order.
\<close>

section \<open>Types\<close>

type_synonym PluginId = string

record Dependency =
  dep_name :: PluginId
  dep_version_req :: VersionReq
  dep_optional :: bool
  dep_features :: "string list"

record PluginNode =
  node_id :: PluginId
  node_version :: Version
  node_dependencies :: "Dependency list"
  node_features :: "string set"
  node_optional :: bool

record DependencyEdge =
  edge_from :: PluginId
  edge_to :: PluginId
  edge_dependency :: Dependency

record DependencyGraph =
  nodes :: "(PluginId, PluginNode) hashmap"
  edges :: "DependencyEdge list"
  dependents :: "(PluginId, PluginId list) hashmap"

datatype GraphError =
    CyclicDependency "string list"
  | MissingDependency string string
  | GraphVersionConflict string string string string
  | PluginNotFound string

section \<open>Construction and lookup\<close>

definition Dependency_new :: "string \<Rightarrow> VersionReq \<Rightarrow> Dependency" where
  "Dependency_new n r =
     \<lparr>dep_name = n, dep_version_req = r, dep_optional = False, dep_features = []\<rparr>"

definition Dependency_optional :: "string \<Rightarrow> VersionReq \<Rightarrow> Dependency" where
  "Dependency_optional n r =
     \<lparr>dep_name = n, dep_version_req = r, dep_optional = True, dep_features = []\<rparr>"

definition Dependency_with_features :: "string list \<Rightarrow> Dependency \<Rightarrow> Dependency" where
  "Dependency_with_features fs d = d\<lparr>dep_features := fs\<rparr>"

definition Dependency_display :: "Dependency \<Rightarrow> string" where
  "Dependency_display d = dep_name d @ '' '' @ VersionReq_display (dep_version_req d)
     @ (if dep_optional d then '' (optional)'' else [])"

definition PluginNode_new :: "string \<Rightarrow> Version \<Rightarrow> PluginNode" where
  "PluginNode_new i v =
     \<lparr>node_id = i, node_version = v, node_dependencies = [], node_features = {}, node_optional = False\<rparr>"

definition with_dependency :: "Dependency \<Rightarrow> PluginNode \<Rightarrow> PluginNode" where
  "with_dependency d n = n\<lparr>node_dependencies := node_dependencies n @ [d]\<rparr>"

definition with_dependencies :: "Dependency list \<Rightarrow> PluginNode \<Rightarrow> PluginNode" where
  "with_dependencies ds n = n\<lparr>node_dependencies := node_dependencies n @ ds\<rparr>"

definition PluginNode_with_features :: "string list \<Rightarrow> PluginNode \<Rightarrow> PluginNode" where
  "PluginNode_with_features fs n = n\<lparr>node_features := set fs\<rparr>"

definition DependencyGraph_new :: DependencyGraph where
  "DependencyGraph_new = \<lparr>nodes = [], edges = [], dependents = []\<rparr>"

text \<open>The set of dependents of a name, empty when the index has no entry.\<close>

definition dependents_list :: "DependencyGraph \<Rightarrow> PluginId \<Rightarrow> PluginId list" where
  "dependents_list g b = (case hm_get (dependents g) b of None \<Rightarrow> [] | Some as \<Rightarrow> as)"

text \<open>The body of the loop of \<open>add_plugin\<close>: an edge, and the entry of the reverse index.\<close>

definition add_edge :: "PluginId \<Rightarrow> DependencyGraph \<Rightarrow> Dependency \<Rightarrow> DependencyGraph" where
  "add_edge pid g dep =
     g\<lparr>edges := edges g @ [\<lparr>edge_from = pid, edge_to = dep_name dep, edge_dependency = dep\<rparr>],
       dependents :=
         hm_insert (dep_name dep) (List.insert pid (dependents_list g (dep_name dep))) (dependents g)\<rparr>"

definition add_plugin :: "PluginNode \<Rightarrow> DependencyGraph \<Rightarrow> DependencyGraph" where
  "add_plugin node g =
     (let g' = foldl (add_edge (node_id node)) g (node_dependencies node)
      in g'\<lparr>nodes := hm_insert (node_id node) node (nodes g')\<rparr>)"

definition get_plugin :: "DependencyGraph \<Rightarrow> PluginId \<Rightarrow> PluginNode option" where
  "get_plugin g pid = hm_get (nodes g) pid"

definition graph_plugins :: "DependencyGraph \<Rightarrow> PluginNode list" where
  "graph_plugins g = map snd (nodes g)"

definition dependencies_of :: "DependencyGraph \<Rightarrow> PluginId \<Rightarrow> Dependency list" where
  "dependencies_of g pid =
     (case hm_get (nodes g) pid of Some n \<Rightarrow> node_dependencies n | None \<Rightarrow> [])"

definition dependents_of :: "DependencyGraph \<Rightarrow> PluginId \<Rightarrow> PluginId list option" where
  "dependents_of g pid = hm_get (dependents g) pid"

definition graph_contains :: "DependencyGraph \<Rightarrow> PluginId \<Rightarrow> bool" where
  "graph_contains g pid \<longleftrightarrow> hm_get (nodes g) pid \<noteq> None"

definition graph_len :: "DependencyGraph \<Rightarrow> nat" where
  "graph_len g = length (nodes g)"

definition graph_is_empty :: "DependencyGraph \<Rightarrow> bool" where
  "graph_is_empty g \<longleftrightarrow> nodes g = []"

text \<open>The names that a plugin depends on, in order; none for a name that is not registered.\<close>

definition dep_names :: "DependencyGraph \<Rightarrow> PluginId \<Rightarrow> PluginId list" where
  "dep_names g pid = map dep_name (dependencies_of g pid)"

section \<open>Cycle detection\<close>

record dfs_state =
  visited :: "PluginId set"
  rec_stack :: "PluginId set"
  path :: "PluginId list"
  cycles :: "PluginId list list"

definition dfs_enter :: "PluginId \<Rightarrow> dfs_state \<Rightarrow> dfs_state" where
  "dfs_enter n st = st\<lparr>visited := insert n (visited st), rec_stack := insert n (rec_stack st),
     path := path st @ [n]\<rparr>"

definition dfs_leave :: "PluginId \<Rightarrow> dfs_state \<Rightarrow> dfs_state" where
  "dfs_leave n st = st\<lparr>path := butlast (path st), rec_stack := rec_stack st - {n}\<rparr>"

text \<open>\<open>path.iter().position(..)\<close> and the slice from there on.\<close>

definition dfs_record_cycle :: "PluginId \<Rightarrow> dfs_state \<Rightarrow> dfs_state" where
  "dfs_record_cycle d st =
     (if d \<in> set (path st)
      then st\<lparr>cycles := cycles st @ [dropWhile (\<lambda>p. p \<noteq> d) (path st)]\<rparr>
      else st)"

text \<open>The registered names.\<close>

definition graph_names :: "DependencyGraph \<Rightarrow> PluginId set" where
  "graph_names g = set (hm_keys (nodes g))"

lemma finite_graph_names [simp]: "finite (graph_names g)"
  by (simp add: graph_names_def)

lemma dep_names_unregistered: "n \<notin> graph_names g \<Longrightarrow> dep_names g n = []"
  by (auto simp: graph_names_def dep_names_def dependencies_of_def split: option.splits
      dest: map_of_SomeD) (metis fst_conv image_eqI map_of_SomeD)

text \<open>The loop over the dependencies of the current node, with the recursive call inlined: a name
  that was not visited is entered, searched and left; one on the stack closes a cycle.\<close>

function dfs_deps :: "DependencyGraph \<Rightarrow> PluginId list \<Rightarrow> dfs_state \<Rightarrow> dfs_state" where
  "dfs_deps g [] st = st"
| "dfs_deps g (d # ds) st =
     dfs_deps g ds
       (if d \<notin> visited st then dfs_leave d (dfs_deps g (dep_names g d) (dfs_enter d st))
        else if d \<in> rec_stack st then dfs_record_cycle d st
        else st)"
  by pat_completeness auto

lemma dfs_visited_simps [simp]:
  "visited (dfs_enter n st) = insert n (visited st)"
  "visited (dfs_leave n st) = visited st"
  "visited (dfs_record_cycle n st) = visited st"
  by (simp_all add: dfs_enter_def dfs_leave_def dfs_record_cycle_def)

lemma dfs_deps_visited_mono_dom:
  "dfs_deps_dom (g, ds, st) \<Longrightarrow> visited st \<subseteq> visited (dfs_deps g ds st)"
proof (induction g ds st rule: dfs_deps.pinduct)
  case (2 g d ds st)
  let ?st = "if d \<notin> visited st then dfs_leave d (dfs_deps g (dep_names g d) (dfs_enter d st))
        else if d \<in> rec_stack st then dfs_record_cycle d st else st"
  have "visited st \<subseteq> visited ?st" using "2.IH"(1) by auto
  also have "\<dots> \<subseteq> visited (dfs_deps g ds ?st)" by (rule "2.IH"(2))
  finally show ?case by (simp only: dfs_deps.psimps(2) [OF "2.hyps"])
qed (simp add: dfs_deps.psimps)

termination dfs_deps
proof (relation "inv_image (finite_psubset <*lex*> less_than)
    (\<lambda>(g, ds, st). (graph_names g - visited st, length ds))", goal_cases)
  case 1
  then show ?case by auto
next
  case (2 g d ds st)
  then show ?case
    by (cases "d \<in> graph_names g") (auto simp: finite_psubset_def dep_names_unregistered)
next
  case (3 g d ds st)
  then show ?case
    using dfs_deps_visited_mono_dom [of g "dep_names g d" "dfs_enter d st"]
    by (auto simp: finite_psubset_def)
qed

definition detect_cycles_dfs :: "DependencyGraph \<Rightarrow> PluginId \<Rightarrow> dfs_state \<Rightarrow> dfs_state" where
  "detect_cycles_dfs g n st = dfs_leave n (dfs_deps g (dep_names g n) (dfs_enter n st))"

definition dfs_init :: dfs_state where
  "dfs_init = \<lparr>visited = {}, rec_stack = {}, path = [], cycles = []\<rparr>"

definition detect_cycles :: "DependencyGraph \<Rightarrow> PluginId list list" where
  "detect_cycles g =
     cycles (foldl (\<lambda>st n. if n \<notin> visited st then detect_cycles_dfs g n st else st)
       dfs_init (hm_keys (nodes g)))"

definition has_cycles :: "DependencyGraph \<Rightarrow> bool" where
  "has_cycles g \<longleftrightarrow> detect_cycles g \<noteq> []"

section \<open>Topological sort\<close>

definition in_degrees :: "DependencyGraph \<Rightarrow> (PluginId, nat) hashmap" where
  "in_degrees g =
     foldl (\<lambda>m e. hm_insert (edge_from e)
              (case hm_get m (edge_from e) of None \<Rightarrow> 1 | Some n \<Rightarrow> n + 1) m)
       (map (\<lambda>k. (k, 0)) (hm_keys (nodes g))) (edges g)"

text \<open>The loop over the dependents of the node just emitted. Subtracting from a degree of zero
  panics; \<open>None\<close> stands for the panic.\<close>

fun release :: "PluginId list \<Rightarrow> (PluginId, nat) hashmap \<Rightarrow> PluginId list
    \<Rightarrow> ((PluginId, nat) hashmap \<times> PluginId list) option" where
  "release [] degs queue = Some (degs, queue)"
| "release (d # ds) degs queue =
     (case hm_get degs d of
        None \<Rightarrow> release ds degs queue
      | Some deg \<Rightarrow>
          if deg = 0 then None
          else release ds (hm_insert d (deg - 1) degs)
            (if deg - 1 = 0 then queue @ [d] else queue))"

lemma sum_degs_update:
  "hm_get degs d = Some n \<Longrightarrow>
     sum_list (map snd (hm_insert d m degs)) + n = sum_list (map snd degs) + (m :: nat)"
  by (induction degs) (auto split: if_splits)

lemma release_measure:
  "release ds degs queue = Some (degs', queue') \<Longrightarrow>
     sum_list (map snd degs') + length queue' \<le> sum_list (map snd degs) + length queue"
proof (induction ds degs queue rule: release.induct)
  case (2 d ds degs queue)
  show ?case
  proof (cases "hm_get degs d")
    case None
    with 2 show ?thesis by simp
  next
    case (Some n)
    with "2.prems" have n: "n \<noteq> 0" by (auto split: if_splits)
    let ?q = "if n - 1 = 0 then queue @ [d] else queue"
    have "sum_list (map snd degs') + length queue'
        \<le> sum_list (map snd (hm_insert d (n - 1) degs)) + length ?q"
      using "2.IH"(2) [OF Some n] "2.prems" Some n by simp
    also have "\<dots> \<le> sum_list (map snd degs) + length queue"
      using sum_degs_update [OF Some, of "n - 1"] n by (auto split: if_splits)
    finally show ?thesis .
  qed
qed simp

text \<open>The \<open>while let Some(node_id) = queue.pop_front()\<close> loop.\<close>

function kahn_loop :: "DependencyGraph \<Rightarrow> PluginId list \<Rightarrow> (PluginId, nat) hashmap
    \<Rightarrow> PluginId list \<Rightarrow> PluginId list option" where
  "kahn_loop g [] degs result = Some result"
| "kahn_loop g (n # queue) degs result =
     (case release (dependents_list g n) degs queue of
        None \<Rightarrow> None
      | Some (degs', queue') \<Rightarrow> kahn_loop g queue' degs' (result @ [n]))"
  by pat_completeness auto
termination
  by (relation "measure (\<lambda>(g, queue, degs, result). sum_list (map snd degs) + length queue)")
    (auto dest: release_measure)

text \<open>\<open>None\<close>: the subtraction in the loop panicked.\<close>

definition topological_sort :: "DependencyGraph \<Rightarrow> (GraphError + PluginId list) option" where
  "topological_sort g =
     (let cs = detect_cycles g in
      if cs \<noteq> [] then Some (Err (CyclicDependency (map (join '' -> '') cs)))
      else
        (let degs = in_degrees g;
             queue = map fst (filter (\<lambda>(_, deg). deg = 0) degs)
         in case kahn_loop g queue degs [] of
              None \<Rightarrow> None
            | Some result \<Rightarrow>
                if length result \<noteq> length (nodes g)
                then Some (Err (CyclicDependency [''Unknown cycle detected'']))
                else Some (Ok result)))"

definition activation_order :: "DependencyGraph \<Rightarrow> (GraphError + PluginId list) option" where
  "activation_order g = topological_sort g"

definition deactivation_order :: "DependencyGraph \<Rightarrow> (GraphError + PluginId list) option" where
  "deactivation_order g =
     map_option (\<lambda>r. result_bind r (\<lambda>order. Ok (rev order))) (topological_sort g)"

section \<open>Transitive closures\<close>

text \<open>The loop that both \<open>transitive_dependencies\<close> and \<open>transitive_dependents\<close> run over a queue, on
  the adjacency of the one or the other direction.\<close>

definition adj_next :: "(PluginId, PluginId list) hashmap \<Rightarrow> PluginId \<Rightarrow> PluginId list" where
  "adj_next adj n = (case hm_get adj n of None \<Rightarrow> [] | Some ns \<Rightarrow> ns)"

function closure_loop :: "(PluginId, PluginId list) hashmap \<Rightarrow> PluginId set \<Rightarrow> PluginId list
    \<Rightarrow> PluginId set" where
  "closure_loop adj seen [] = seen"
| "closure_loop adj seen (n # to_visit) =
     (if n \<in> seen then closure_loop adj seen to_visit
      else closure_loop adj (insert n seen)
        (to_visit @ filter (\<lambda>m. m \<notin> insert n seen) (adj_next adj n)))"
  by pat_completeness auto
termination
proof (relation "inv_image (finite_psubset <*lex*> less_than)
    (\<lambda>(adj, seen, to_visit). (set (hm_keys adj) - seen, length to_visit))", goal_cases)
  case (3 adj seen n to_visit)
  show ?case
  proof (cases "n \<in> set (hm_keys adj)")
    case True
    with 3 show ?thesis by (auto simp: finite_psubset_def)
  next
    case False
    then have "adj_next adj n = []"
      by (metis adj_next_def list.set_map map_of_eq_None_iff option.simps(4))
    with False show ?thesis by auto
  qed
qed auto

definition dependencies_adj :: "DependencyGraph \<Rightarrow> (PluginId, PluginId list) hashmap" where
  "dependencies_adj g = map (\<lambda>(k, n). (k, map dep_name (node_dependencies n))) (nodes g)"

definition transitive_dependencies :: "DependencyGraph \<Rightarrow> PluginId \<Rightarrow> PluginId set" where
  "transitive_dependencies g pid = closure_loop (dependencies_adj g) {} (dep_names g pid)"

definition transitive_dependents :: "DependencyGraph \<Rightarrow> PluginId \<Rightarrow> PluginId set" where
  "transitive_dependents g pid = closure_loop (dependents g) {} (dependents_list g pid)"

fun GraphError_display :: "GraphError \<Rightarrow> string" where
  "GraphError_display (CyclicDependency cs) = ''Cyclic dependencies detected: '' @ join ''; '' cs"
| "GraphError_display (MissingDependency p d) =
     ''Plugin '' @ quoted p @ '' requires missing dependency '' @ quoted d"
| "GraphError_display (GraphVersionConflict p d r a) =
     ''Plugin '' @ quoted p @ '' requires '' @ d @ '' '' @ r @ '', but '' @ a @ '' is available''"
| "GraphError_display (PluginNotFound p) = ''Plugin '' @ quoted p @ '' not found''"

end
