(* ===== verification/Dep_Graph_Props.thy ===== *)
theory Dep_Graph_Props
  imports Dep_Graph
begin

text \<open>
  Correctness of the dependency graph of \<open>Dep_Graph\<close>: the invariant of the reverse index, soundness
  and completeness of cycle detection and of Kahn's topological sort, and the transitive closures.
\<close>

section \<open>The relation of a graph and lists in dependency order\<close>

definition dep_rel :: "DependencyGraph \<Rightarrow> (PluginId \<times> PluginId) set" where
  "dep_rel g = {(a, b). b \<in> set (dep_names g a)}"

lemma deps_first_trancl:
  assumes "deps_first succ xs" and "(xs ! i, b) \<in> {(a, b). b \<in> succ a}\<^sup>+" and "i < length xs"
  shows "\<exists>j<i. b = xs ! j"
  using assms(2)
proof (induction rule: trancl_induct)
  case (base y)
  with assms have "y \<in> set (take i xs)" by (auto simp: deps_first_def)
  with assms(3) show ?case by (auto simp: in_set_conv_nth)
next
  case (step y z)
  then obtain j where j: "j < i" "y = xs ! j" by blast
  from assms j(1) have "succ (xs ! j) \<subseteq> set (take j xs)" by (simp add: deps_first_def)
  with step.hyps(2) j(2) have "z \<in> set (take j xs)" by auto
  with j assms(3) obtain k where "k < j" "z = xs ! k" by (auto simp: in_set_conv_nth)
  with j(1) show ?case by (intro exI [of _ k]) auto
qed

lemma deps_first_no_cycle:
  assumes "deps_first succ xs" and "i < length xs"
  shows "(xs ! i, xs ! i) \<notin> {(a, b). b \<in> succ a}\<^sup>+"
  using assms(2)
proof (induction i rule: less_induct)
  case (less i)
  show ?case
  proof
    assume cyc: "(xs ! i, xs ! i) \<in> {(a, b). b \<in> succ a}\<^sup>+"
    from deps_first_trancl [OF assms(1) this less.prems] obtain j where
      "j < i" "xs ! i = xs ! j" by blast
    with cyc less show False by (metis less_trans)
  qed
qed

section \<open>Correctness of cycle detection\<close>

definition is_cycle :: "DependencyGraph \<Rightarrow> PluginId list \<Rightarrow> bool" where
  "is_cycle g c \<longleftrightarrow> c \<noteq> [] \<and> successively (\<lambda>a b. b \<in> set (dep_names g a)) c
     \<and> hd c \<in> set (dep_names g (last c))"

definition dfs_inv :: "DependencyGraph \<Rightarrow> dfs_state \<Rightarrow> bool" where
  "dfs_inv g st \<longleftrightarrow> rec_stack st = set (path st) \<and> set (path st) \<subseteq> visited st \<and> distinct (path st)
     \<and> successively (\<lambda>a b. b \<in> set (dep_names g a)) (path st)
     \<and> (\<forall>c\<in>set (cycles st). is_cycle g c)"

lemma successively_dropWhile: "successively P xs \<Longrightarrow> successively P (dropWhile Q xs)"
  by (metis successively_append_iff takeWhile_dropWhile_id)

lemma dfs_inv_enter:
  assumes "dfs_inv g st" and "n \<notin> visited st"
    and "path st \<noteq> [] \<Longrightarrow> n \<in> set (dep_names g (last (path st)))"
  shows "dfs_inv g (dfs_enter n st)"
  using assms by (auto simp: dfs_inv_def dfs_enter_def successively_append_iff)

lemma dfs_inv_leave:
  assumes "dfs_inv g st" and "path st = p @ [n]"
  shows "dfs_inv g (dfs_leave n st)"
  using assms by (auto simp: dfs_inv_def dfs_leave_def successively_append_iff)

lemma dfs_inv_record_cycle:
  assumes "dfs_inv g st" and "d \<in> rec_stack st" and "d \<in> set (dep_names g (last (path st)))"
  shows "dfs_inv g (dfs_record_cycle d st)"
proof -
  let ?c = "dropWhile (\<lambda>p. p \<noteq> d) (path st)"
  have d: "d \<in> set (path st)" using assms by (simp add: dfs_inv_def)
  then have ne: "?c \<noteq> []" by (auto simp: dropWhile_eq_Nil_conv)
  moreover have "last ?c = last (path st)"
    using ne by (metis last_appendR takeWhile_dropWhile_id)
  moreover have "hd ?c = d" using ne hd_dropWhile [of "\<lambda>p. p \<noteq> d" "path st"] by blast
  ultimately have "is_cycle g ?c"
    using assms(1,3) by (auto simp: is_cycle_def dfs_inv_def intro: successively_dropWhile)
  with assms d show ?thesis by (auto simp: dfs_inv_def dfs_record_cycle_def)
qed

lemma dfs_field_simps [simp]:
  "path (dfs_enter n st) = path st @ [n]"
  "path (dfs_leave n st) = butlast (path st)"
  "path (dfs_record_cycle n st) = path st"
  "cycles (dfs_enter n st) = cycles st"
  "cycles (dfs_leave n st) = cycles st"
  by (simp_all add: dfs_enter_def dfs_leave_def dfs_record_cycle_def)

text \<open>One run of the loop keeps the invariant and the path.\<close>

lemma dfs_deps_inv:
  assumes "dfs_inv g st"
    and "path st \<noteq> [] \<Longrightarrow> set ds \<subseteq> set (dep_names g (last (path st)))"
    and "path st = [] \<Longrightarrow> rec_stack st = {}"
  shows "dfs_inv g (dfs_deps g ds st) \<and> path (dfs_deps g ds st) = path st"
  using assms
proof (induction g ds st rule: dfs_deps.induct)
  case (2 g d ds st)
  let ?in = "dfs_deps g (dep_names g d) (dfs_enter d st)"
  let ?st = "if d \<notin> visited st then dfs_leave d ?in
        else if d \<in> rec_stack st then dfs_record_cycle d st else st"
  have "dfs_inv g ?st \<and> path ?st = path st"
  proof (cases "d \<in> visited st")
    case False
    have "dfs_inv g (dfs_enter d st)"
      using dfs_inv_enter [OF "2.prems"(1) False] "2.prems"(2) by auto
    with "2.IH"(1) [OF False] have "dfs_inv g ?in" "path ?in = path st @ [d]" by auto
    with False show ?thesis using dfs_inv_leave by auto
  next
    case True
    with "2.prems" show ?thesis
      using dfs_inv_record_cycle [of g st d] by (cases "path st = []") auto
  qed
  moreover from this have "path ?st = [] \<Longrightarrow> rec_stack ?st = {}"
    by (auto simp: dfs_inv_def)
  ultimately show ?case
    using "2.IH"(2) "2.prems"(2) by auto
qed simp

lemma dfs_deps_visits: "set ds \<subseteq> visited (dfs_deps g ds st) \<and> visited st \<subseteq> visited (dfs_deps g ds st)"
proof (induction g ds st rule: dfs_deps.induct)
  case (2 g d ds st)
  then show ?case by (auto split: if_splits)
qed simp

lemma dfs_deps_cycles: "\<exists>cs. cycles (dfs_deps g ds st) = cycles st @ cs"
proof (induction g ds st rule: dfs_deps.induct)
  case (2 g d ds st)
  then show ?case
    by (cases "d \<in> visited st"; cases "d \<in> rec_stack st") (auto simp: dfs_record_cycle_def)
qed simp

text \<open>As long as no cycle is recorded, the nodes that were left form a list in dependency order.\<close>

definition dfs_done :: "DependencyGraph \<Rightarrow> dfs_state \<Rightarrow> PluginId list \<Rightarrow> bool" where
  "dfs_done g st ord \<longleftrightarrow> set ord = visited st - set (path st)
     \<and> deps_first (\<lambda>a. set (dep_names g a)) ord"

lemma dfs_done_leave:
  assumes "dfs_inv g st" and "path st = p @ [n]" and "dfs_done g st ord"
    and "set (dep_names g n) \<subseteq> set ord"
  shows "dfs_done g (dfs_leave n st) (ord @ [n])"
  using assms by (auto simp: dfs_done_def dfs_inv_def)

lemma dfs_deps_done:
  assumes "dfs_inv g st" and "dfs_done g st ord"
    and "path st \<noteq> [] \<Longrightarrow> set ds \<subseteq> set (dep_names g (last (path st)))"
    and "cycles (dfs_deps g ds st) = []"
  shows "\<exists>ord'. dfs_done g (dfs_deps g ds st) ord' \<and> set ds \<subseteq> set ord' \<and> set ord \<subseteq> set ord'"
  using assms
proof (induction g ds st arbitrary: ord rule: dfs_deps.induct)
  case (1 g st)
  then show ?case by auto
next
  case (2 g d ds st)
  let ?in = "dfs_deps g (dep_names g d) (dfs_enter d st)"
  let ?st = "if d \<notin> visited st then dfs_leave d ?in
        else if d \<in> rec_stack st then dfs_record_cycle d st else st"
  have nil: "cycles ?st = []"
    using "2.prems"(4) dfs_deps_cycles [of g ds ?st] by auto
  have step: "\<exists>ord'. dfs_done g ?st ord' \<and> d \<in> set ord' \<and> set ord \<subseteq> set ord'
      \<and> dfs_inv g ?st \<and> path ?st = path st"
  proof (cases "d \<in> visited st")
    case False
    have enter: "dfs_inv g (dfs_enter d st)"
      using dfs_inv_enter [OF "2.prems"(1) False] "2.prems"(3) by auto
    have "dfs_done g (dfs_enter d st) ord"
      using "2.prems"(1,2) False by (auto simp: dfs_done_def dfs_inv_def)
    moreover have "cycles ?in = []" using nil False by simp
    ultimately obtain ord1 where ord1: "dfs_done g ?in ord1" "set (dep_names g d) \<subseteq> set ord1"
        "set ord \<subseteq> set ord1"
      using "2.IH"(1) [OF False enter, of ord] by auto
    have inn: "dfs_inv g ?in" "path ?in = path st @ [d]"
      using dfs_deps_inv [OF enter, of "dep_names g d"] by auto
    show ?thesis
      using False ord1 inn dfs_inv_leave [OF inn] dfs_done_leave [OF inn ord1(1,2)]
      by (intro exI [of _ "ord1 @ [d]"]) auto
  next
    case True
    show ?thesis
    proof (cases "d \<in> rec_stack st")
      case stack: True
      with True nil "2.prems"(1) show ?thesis
        by (auto simp: dfs_record_cycle_def dfs_inv_def split: if_splits)
    next
      case False
      with True "2.prems"(1,2) show ?thesis
        by (intro exI [of _ ord]) (auto simp: dfs_done_def dfs_inv_def)
    qed
  qed
  then obtain ord1 where ord1: "dfs_done g ?st ord1" "d \<in> set ord1" "set ord \<subseteq> set ord1"
      "dfs_inv g ?st" "path ?st = path st" by blast
  have "path ?st \<noteq> [] \<Longrightarrow> set ds \<subseteq> set (dep_names g (last (path ?st)))"
    using ord1(5) "2.prems"(3) by auto
  then obtain ord2 where "dfs_done g (dfs_deps g ds ?st) ord2" "set ds \<subseteq> set ord2"
      "set ord1 \<subseteq> set ord2"
    using "2.IH"(2) [OF ord1(4,1)] "2.prems"(4) by auto
  with ord1(2,3) show ?case by (intro exI [of _ ord2]) auto
qed

text \<open>The loop over the registered plugins is the loop over a dependency list with an empty stack.\<close>

lemma detect_cycles_loop:
  assumes "dfs_inv g st" and "path st = []"
  shows "foldl (\<lambda>st n. if n \<notin> visited st then detect_cycles_dfs g n st else st) st ns
      = dfs_deps g ns st"
  using assms
proof (induction ns arbitrary: st)
  case (Cons n ns)
  have e: "(if n \<notin> visited st then detect_cycles_dfs g n st else st) =
      (if n \<notin> visited st then dfs_leave n (dfs_deps g (dep_names g n) (dfs_enter n st))
       else if n \<in> rec_stack st then dfs_record_cycle n st else st)"
    using Cons.prems by (auto simp: detect_cycles_dfs_def dfs_inv_def)
  have "dfs_inv g (dfs_deps g [n] st) \<and> path (dfs_deps g [n] st) = []"
    using dfs_deps_inv [OF Cons.prems(1), of "[n]"] Cons.prems by (auto simp: dfs_inv_def)
  with e Cons.IH show ?case by simp
qed simp

lemma dfs_inv_init: "dfs_inv g dfs_init" "dfs_done g dfs_init []" "path dfs_init = []"
  by (simp_all add: dfs_inv_def dfs_done_def dfs_init_def)

lemma detect_cycles_eq: "detect_cycles g = cycles (dfs_deps g (hm_keys (nodes g)) dfs_init)"
  by (simp add: detect_cycles_def detect_cycles_loop [OF dfs_inv_init(1,3)])

lemma detect_cycles_sound: "c \<in> set (detect_cycles g) \<Longrightarrow> is_cycle g c"
  using dfs_deps_inv [OF dfs_inv_init(1), of "hm_keys (nodes g)" g] dfs_inv_init(3)
  by (auto simp: detect_cycles_eq dfs_inv_def dfs_init_def)

lemma successively_trancl:
  "successively (\<lambda>a b. (a, b) \<in> r) xs \<Longrightarrow> xs \<noteq> [] \<Longrightarrow> (hd xs, last xs) \<in> r\<^sup>*"
  by (induction xs rule: induct_list012) (auto intro: converse_rtrancl_into_rtrancl)

lemma is_cycle_trancl: "is_cycle g c \<Longrightarrow> (hd c, hd c) \<in> (dep_rel g)\<^sup>+"
  using successively_trancl [of "dep_rel g" c]
  by (auto simp: is_cycle_def dep_rel_def intro: rtrancl_into_trancl1)

lemma detect_cycles_complete:
  assumes "detect_cycles g = []"
  shows "acyclic (dep_rel g)"
proof -
  have "cycles (dfs_deps g (hm_keys (nodes g)) dfs_init) = []"
    using assms by (simp add: detect_cycles_eq)
  then obtain ord where ord: "dfs_done g (dfs_deps g (hm_keys (nodes g)) dfs_init) ord"
      "set (hm_keys (nodes g)) \<subseteq> set ord"
    using dfs_deps_done [OF dfs_inv_init(1,2), where g = g and ds = "hm_keys (nodes g)"]
      dfs_inv_init(3) by blast
  show ?thesis
  proof (rule acyclicI, rule allI, rule notI)
    fix a assume cyc: "(a, a) \<in> (dep_rel g)\<^sup>+"
    then obtain b where "(a, b) \<in> dep_rel g" by (meson tranclD)
    then have "a \<in> graph_names g"
      using dep_names_unregistered [of a g] by (cases "a \<in> graph_names g") (auto simp: dep_rel_def)
    with ord(2) have "a \<in> set ord" unfolding graph_names_def by (rule subsetD)
    then obtain i where "i < length ord" "a = ord ! i" by (metis in_set_conv_nth)
    with ord(1) cyc show False
      using deps_first_no_cycle [of "\<lambda>a. set (dep_names g a)" ord i]
      by (simp add: dfs_done_def dep_rel_def)
  qed
qed

lemma detect_cycles_acyclic: "detect_cycles g = [] \<longleftrightarrow> acyclic (dep_rel g)"
proof -
  have "\<not> acyclic (dep_rel g)" if "detect_cycles g \<noteq> []"
  proof -
    from that obtain c where "c \<in> set (detect_cycles g)" by (cases "detect_cycles g") auto
    then have "(hd c, hd c) \<in> (dep_rel g)\<^sup>+" by (intro is_cycle_trancl detect_cycles_sound)
    then show ?thesis by (auto simp: acyclic_def)
  qed
  then show ?thesis using detect_cycles_complete by blast
qed

text \<open>(C2) Cycle detection is sound and complete: it reports nothing exactly when the dependency
  relation has no cycle, and every list it reports is a cycle: each plugin depends on the next and
  the last on the first.\<close>

theorem detect_cycles_correct:
  "(detect_cycles g = [] \<longleftrightarrow> acyclic (dep_rel g)) \<and> list_all (is_cycle g) (detect_cycles g)"
  by (simp add: detect_cycles_acyclic list_all_iff detect_cycles_sound)

section \<open>The invariant of the graph\<close>

definition edge_rel :: "DependencyGraph \<Rightarrow> (PluginId \<times> PluginId) set" where
  "edge_rel g = (\<lambda>e. (edge_from e, edge_to e)) ` set (edges g)"

text \<open>What every graph built by \<open>add_plugin\<close> satisfies, whatever the plugins and their order: the
  reverse index mirrors the edges, edges start at registered plugins, and every dependency of a
  registered plugin has its edge. (A plugin that is added again leaves its old edges behind.)\<close>

definition graph_inv :: "DependencyGraph \<Rightarrow> bool" where
  "graph_inv g \<longleftrightarrow> distinct (hm_keys (nodes g))
     \<and> (\<forall>e\<in>set (edges g). edge_from e \<in> graph_names g)
     \<and> (\<forall>b. distinct (dependents_list g b))
     \<and> (\<forall>a b. a \<in> set (dependents_list g b) \<longleftrightarrow> (a, b) \<in> edge_rel g)
     \<and> dep_rel g \<subseteq> edge_rel g"

lemma graph_inv_new: "graph_inv DependencyGraph_new"
  by (auto simp: graph_inv_def DependencyGraph_new_def dependents_list_def edge_rel_def dep_rel_def
      dep_names_def dependencies_of_def)

lemma add_edge_fields [simp]:
  "nodes (add_edge pid g d) = nodes g"
  "edges (add_edge pid g d) = edges g @ [\<lparr>edge_from = pid, edge_to = dep_name d, edge_dependency = d\<rparr>]"
  "edge_rel (add_edge pid g d) = insert (pid, dep_name d) (edge_rel g)"
  "dependents_list (add_edge pid g d) b =
     (if b = dep_name d then List.insert pid (dependents_list g b) else dependents_list g b)"
  by (auto simp: add_edge_def edge_rel_def dependents_list_def update_conv')

lemma add_edges_fields:
  "nodes (foldl (add_edge pid) g ds) = nodes g"
  "edge_rel (foldl (add_edge pid) g ds) = edge_rel g \<union> {pid} \<times> dep_name ` set ds"
  "(\<forall>b. distinct (dependents_list g b)) \<Longrightarrow> distinct (dependents_list (foldl (add_edge pid) g ds) b)"
  "a \<in> set (dependents_list (foldl (add_edge pid) g ds) b) \<longleftrightarrow>
     a \<in> set (dependents_list g b) \<or> a = pid \<and> b \<in> dep_name ` set ds"
  by (induction ds arbitrary: g) auto

lemma edge_from_in_rel: "e \<in> set (edges g) \<Longrightarrow> (edge_from e, edge_to e) \<in> edge_rel g"
  by (auto simp: edge_rel_def)

lemma graph_inv_alt:
  "graph_inv g \<longleftrightarrow> distinct (hm_keys (nodes g)) \<and> fst ` edge_rel g \<subseteq> graph_names g
     \<and> (\<forall>b. distinct (dependents_list g b))
     \<and> (\<forall>a b. a \<in> set (dependents_list g b) \<longleftrightarrow> (a, b) \<in> edge_rel g)
     \<and> dep_rel g \<subseteq> edge_rel g"
proof -
  have "(\<forall>e\<in>set (edges g). edge_from e \<in> graph_names g) \<longleftrightarrow> fst ` edge_rel g \<subseteq> graph_names g"
    by (simp add: edge_rel_def image_subset_iff)
  then show ?thesis by (simp add: graph_inv_def)
qed

lemma add_plugin_fields:
  "nodes (add_plugin n g) = hm_insert (node_id n) n (nodes g)"
  "edge_rel (add_plugin n g) = edge_rel g \<union> {node_id n} \<times> dep_name ` set (node_dependencies n)"
  "dependents_list (add_plugin n g) b = dependents_list (foldl (add_edge (node_id n)) g (node_dependencies n)) b"
  by (simp_all add: add_plugin_def Let_def add_edges_fields edge_rel_def dependents_list_def
      add_edges_fields(2) [unfolded edge_rel_def])

lemma dep_names_add_plugin:
  "dep_names (add_plugin n g) a =
     (if a = node_id n then map dep_name (node_dependencies n) else dep_names g a)"
  by (simp add: dep_names_def dependencies_of_def add_plugin_fields update_conv')

lemma graph_names_add_plugin: "graph_names (add_plugin n g) = insert (node_id n) (graph_names g)"
  by (auto simp: graph_names_def add_plugin_fields update_keys)

lemma add_plugin_inv:
  assumes "graph_inv g"
  shows "graph_inv (add_plugin n g)"
proof -
  have old: "b \<in> set (dep_names g a) \<Longrightarrow> (a, b) \<in> edge_rel g" for a b
    using assms unfolding graph_inv_def dep_rel_def by blast
  have "dep_rel (add_plugin n g) \<subseteq> edge_rel (add_plugin n g)"
    by (auto simp: dep_rel_def dep_names_add_plugin add_plugin_fields(2) old split: if_splits)
  with assms show ?thesis
    unfolding graph_inv_alt graph_names_add_plugin add_plugin_fields(2,3)
    by (auto simp: add_plugin_fields(1) add_edges_fields(3,4) distinct_update image_subset_iff)
qed

text \<open>The graphs that calls of \<open>add_plugin\<close> can build.\<close>

definition build_graph :: "PluginNode list \<Rightarrow> DependencyGraph" where
  "build_graph ns = foldl (\<lambda>g n. add_plugin n g) DependencyGraph_new ns"

lemma build_graph_inv: "graph_inv (build_graph ns)"
proof -
  have "graph_inv g \<Longrightarrow> graph_inv (foldl (\<lambda>g n. add_plugin n g) g ns)" for g
    by (induction ns arbitrary: g) (auto simp: add_plugin_inv)
  then show ?thesis by (simp add: build_graph_def graph_inv_new)
qed

lemma graph_names_build: "graph_names (build_graph ns) = node_id ` set ns"
proof -
  have "graph_names (foldl (\<lambda>g n. add_plugin n g) g ns) = graph_names g \<union> node_id ` set ns" for g
    by (induction ns arbitrary: g) (auto simp: graph_names_add_plugin)
  then show ?thesis by (simp add: build_graph_def DependencyGraph_new_def graph_names_def)
qed

section \<open>Kahn's algorithm\<close>

definition out_degree :: "DependencyGraph \<Rightarrow> PluginId \<Rightarrow> nat" where
  "out_degree g a = length (filter (\<lambda>e. edge_from e = a) (edges g))"

definition targets :: "DependencyGraph \<Rightarrow> PluginId \<Rightarrow> PluginId set" where
  "targets g a = {b. (a, b) \<in> edge_rel g}"

lemma targets_eq: "targets g a = edge_to ` set (filter (\<lambda>e. edge_from e = a) (edges g))"
  by (auto simp: targets_def edge_rel_def)

lemma finite_targets [simp]: "finite (targets g a)"
  by (simp add: targets_eq)

lemma card_targets_le: "card (targets g a) \<le> out_degree g a"
  unfolding targets_eq out_degree_def
  by (metis card_image_le card_length finite_set le_trans)

text \<open>The counting loop.\<close>

lemma in_degrees_lookup:
  assumes "graph_inv g"
  shows "hm_get (in_degrees g) a = (if a \<in> graph_names g then Some (out_degree g a) else None)"
proof -
  let ?f = "\<lambda>m e. hm_insert (edge_from e) (case hm_get m (edge_from e) of None \<Rightarrow> 1 | Some n \<Rightarrow> n + 1) m"
  have gen: "hm_get (foldl ?f m es) a =
      (let k = length (filter (\<lambda>e. edge_from e = a) es)
       in case hm_get m a of None \<Rightarrow> if k = 0 then None else Some k | Some n \<Rightarrow> Some (n + k))"
    for es :: "DependencyEdge list" and m :: "(PluginId, nat) hashmap"
    by (induction es arbitrary: m) (auto simp: update_conv' Let_def split: option.splits)
  have init: "hm_get (map (\<lambda>k. (k, 0::nat)) ks) a = (if a \<in> set ks then Some 0 else None)" for ks
    by (induction ks) auto
  have "a \<notin> graph_names g \<Longrightarrow> filter (\<lambda>e. edge_from e = a) (edges g) = []"
    using assms by (auto simp: graph_inv_def filter_empty_conv)
  then show ?thesis
    by (auto simp: in_degrees_def gen init [of "map fst (nodes g)", simplified] Let_def out_degree_def
        graph_names_def)
qed

lemma release_spec:
  assumes "distinct ds" and "\<And>d. d \<in> set ds \<Longrightarrow> hm_get degs d \<noteq> Some 0"
  shows "\<exists>degs'. release ds degs queue
        = Some (degs', queue @ filter (\<lambda>d. hm_get degs d = Some 1) ds)
      \<and> (\<forall>a. hm_get degs' a =
          (if a \<in> set ds then map_option (\<lambda>n. n - 1) (hm_get degs a) else hm_get degs a))"
  using assms
proof (induction ds arbitrary: degs queue)
  case (Cons d ds)
  show ?case
  proof (cases "hm_get degs d")
    case None
    with Cons.prems Cons.IH [of degs queue] show ?thesis by auto
  next
    case (Some n)
    with Cons.prems(2) [of d] have n: "n \<noteq> 0" by auto
    let ?degs = "hm_insert d (n - 1) degs" and ?q = "if n - 1 = 0 then queue @ [d] else queue"
    have look: "hm_get ?degs x = (if x = d then Some (n - 1) else hm_get degs x)" for x
      by (simp add: update_conv')
    have same: "filter (\<lambda>x. hm_get ?degs x = Some 1) ds = filter (\<lambda>x. hm_get degs x = Some 1) ds"
      by (rule filter_cong [OF refl]) (use Cons.prems(1) look in auto)
    have "hm_get ?degs x \<noteq> Some 0" if "x \<in> set ds" for x
      using that Cons.prems look [of x] by auto
    with Cons.IH [of ?degs ?q] Cons.prems(1) obtain degs' where rel: "release ds ?degs ?q
        = Some (degs', ?q @ filter (\<lambda>d. hm_get ?degs d = Some 1) ds)" and
      degs': "\<forall>a. hm_get degs' a =
          (if a \<in> set ds then map_option (\<lambda>n. n - 1) (hm_get ?degs a) else hm_get ?degs a)"
      by auto
    have "\<forall>a. hm_get degs' a = (if a \<in> set (d # ds)
        then map_option (\<lambda>n. n - 1) (hm_get degs a) else hm_get degs a)"
      using degs' [unfolded look] Cons.prems(1) Some by simp
    moreover have "release (d # ds) degs queue
        = Some (degs', queue @ filter (\<lambda>d. hm_get degs d = Some 1) (d # ds))"
      using rel [unfolded same] n Some by (cases "n = 1") auto
    ultimately show ?thesis by blast
  qed
qed simp

definition kahn_inv :: "DependencyGraph \<Rightarrow> PluginId list \<Rightarrow> (PluginId, nat) hashmap
    \<Rightarrow> PluginId list \<Rightarrow> bool" where
  "kahn_inv g queue degs result \<longleftrightarrow> distinct (result @ queue)
     \<and> set (result @ queue) \<subseteq> graph_names g \<and> deps_first (targets g) result
     \<and> (\<forall>a. case hm_get degs a of
           None \<Rightarrow> a \<notin> graph_names g
         | Some d \<Rightarrow> a \<in> graph_names g \<and> d + card (targets g a \<inter> set result) = out_degree g a
             \<and> (d = 0 \<longleftrightarrow> a \<in> set (result @ queue)))"

lemma kahn_inv_degs:
  assumes "kahn_inv g queue degs result" "a \<in> graph_names g"
  obtains d where "hm_get degs a = Some d" "d + card (targets g a \<inter> set result) = out_degree g a"
    "d = 0 \<longleftrightarrow> a \<in> set (result @ queue)"
  using assms unfolding kahn_inv_def by (cases "hm_get degs a") (auto dest: spec [of _ a])

lemma kahn_inv_emitted:
  assumes "kahn_inv g queue degs result" "a \<in> set (result @ queue)"
  shows "targets g a \<subseteq> set result" "card (targets g a) = out_degree g a"
proof -
  from assms have "a \<in> graph_names g" unfolding kahn_inv_def by blast
  with assms have eq: "card (targets g a \<inter> set result) = out_degree g a"
    by (auto elim: kahn_inv_degs)
  moreover have "card (targets g a \<inter> set result) \<le> card (targets g a)"
    by (simp add: card_mono)
  ultimately have "card (targets g a \<inter> set result) = card (targets g a)"
    using card_targets_le [of g a] by simp
  then have "targets g a \<inter> set result = targets g a"
    by (intro card_subset_eq) auto
  with eq show "targets g a \<subseteq> set result" "card (targets g a) = out_degree g a" by auto
qed

lemma kahn_inv_init:
  assumes "graph_inv g"
  shows "kahn_inv g (map fst (filter (\<lambda>(_, deg). deg = 0) (in_degrees g))) (in_degrees g) []"
proof -
  have dist: "distinct (map fst (in_degrees g))"
  proof -
    have "distinct (map fst m) \<Longrightarrow> distinct (map fst (foldl (\<lambda>m e. hm_insert (edge_from e)
              (case hm_get m (edge_from e) of None \<Rightarrow> 1 | Some n \<Rightarrow> n + 1) m) m es))"
      for es :: "DependencyEdge list" and m :: "(PluginId, nat) hashmap"
      by (induction es arbitrary: m) (auto simp: distinct_update)
    moreover have "distinct (map fst (map (\<lambda>k. (k, 0::nat)) (hm_keys (nodes g))))"
      using assms by (simp add: graph_inv_def comp_def)
    ultimately show ?thesis by (simp add: in_degrees_def)
  qed
  have q: "a \<in> set (map fst (filter (\<lambda>(_, deg). deg = 0) (in_degrees g)))
      \<longleftrightarrow> hm_get (in_degrees g) a = Some 0" for a
    using dist by (force simp: map_of_eq_Some_iff)
  have "distinct (map fst (filter (\<lambda>(_, deg). deg = 0) (in_degrees g)))"
    using dist by (rule distinct_map_filter)
  moreover have "set (map fst (filter (\<lambda>(_, deg). deg = 0) (in_degrees g))) \<subseteq> graph_names g"
    by (auto simp only: q in_degrees_lookup [OF assms] split: if_splits)
  ultimately show ?thesis
    unfolding kahn_inv_def in_degrees_lookup [OF assms] append_Nil q by simp
qed

lemma kahn_inv_step:
  assumes g: "graph_inv g" and inv: "kahn_inv g (n # queue) degs result"
  obtains degs' queue' where "release (dependents_list g n) degs queue = Some (degs', queue')"
    "kahn_inv g queue' degs' (result @ [n])"
proof -
  have dl: "a \<in> set (dependents_list g n) \<longleftrightarrow> n \<in> targets g a" "distinct (dependents_list g n)" for a
    using g by (auto simp: graph_inv_def targets_def)
  have n: "n \<notin> set result" "n \<notin> set queue" "targets g n \<subseteq> set result"
    using inv kahn_inv_emitted(1) [OF inv, of n] by (auto simp: kahn_inv_def)
  have pos: "a \<in> set (dependents_list g n) \<Longrightarrow> a \<notin> set (result @ n # queue)" for a
    using kahn_inv_emitted(1) [OF inv, of a] n(1) dl(1) by blast
  have "a \<in> set (dependents_list g n) \<Longrightarrow> hm_get degs a \<noteq> Some 0" for a
    using inv pos [of a] unfolding kahn_inv_def by (auto dest: spec [of _ a])
  then obtain degs' where
    rel: "release (dependents_list g n) degs queue
        = Some (degs', queue @ filter (\<lambda>d. hm_get degs d = Some 1) (dependents_list g n))" and
    degs': "\<And>a. hm_get degs' a = (if a \<in> set (dependents_list g n)
        then map_option (\<lambda>n. n - 1) (hm_get degs a) else hm_get degs a)"
    using release_spec [OF dl(2), of degs queue] by blast
  have card: "card (targets g a \<inter> set (result @ [n])) =
      card (targets g a \<inter> set result) + (if a \<in> set (dependents_list g n) then 1 else 0)" for a
    using n(1) dl(1) [of a] by auto
  have "kahn_inv g (queue @ filter (\<lambda>d. hm_get degs d = Some 1) (dependents_list g n)) degs'
      (result @ [n])"
    (is "kahn_inv g ?q _ _")
    unfolding kahn_inv_def
  proof (intro conjI allI)
    show "distinct ((result @ [n]) @ ?q)"
      using inv pos dl(2) by (auto simp: kahn_inv_def)
    have "hm_get degs d = Some 1 \<Longrightarrow> d \<in> graph_names g" for d
      using inv unfolding kahn_inv_def by (auto dest: spec [of _ d])
    then show "set ((result @ [n]) @ ?q) \<subseteq> graph_names g"
      using inv by (auto simp: kahn_inv_def)
    show "deps_first (targets g) (result @ [n])"
      using inv n(3) by (simp add: kahn_inv_def)
    fix a
    have a: "case hm_get degs a of None \<Rightarrow> a \<notin> graph_names g
         | Some d \<Rightarrow> a \<in> graph_names g \<and> d + card (targets g a \<inter> set result) = out_degree g a
             \<and> (d = 0 \<longleftrightarrow> a \<in> set (result @ n # queue))"
      using inv unfolding kahn_inv_def by blast
    show "case hm_get degs' a of None \<Rightarrow> a \<notin> graph_names g
         | Some d \<Rightarrow> a \<in> graph_names g \<and> d + card (targets g a \<inter> set (result @ [n])) = out_degree g a
             \<and> (d = 0 \<longleftrightarrow> a \<in> set ((result @ [n]) @ ?q))"
      unfolding card using a pos [of a] by (auto simp: degs' split: option.splits if_splits)
  qed
  with rel show ?thesis by (rule that)
qed

lemma kahn_loop_inv:
  assumes "graph_inv g" "kahn_inv g queue degs result"
  obtains result' degs' where "kahn_loop g queue degs result = Some result'"
    "kahn_inv g [] degs' result'"
  using assms
proof (induction g queue degs result arbitrary: thesis rule: kahn_loop.induct)
  case (2 g n queue degs result)
  obtain degs' queue' where st: "release (dependents_list g n) degs queue = Some (degs', queue')"
    and inv': "kahn_inv g queue' degs' (result @ [n])"
    using kahn_inv_step [OF "2.prems"(2,3)] .
  show ?case
    by (rule "2.IH" [OF st refl _ "2.prems"(2) inv']) (use st in \<open>auto intro: "2.prems"(1)\<close>)
qed simp

text \<open>The graphs that Kahn's algorithm can order: no cycle among the edges, every edge leads to a
  registered plugin, and no plugin has two edges to the same one.\<close>

definition sortable :: "DependencyGraph \<Rightarrow> bool" where
  "sortable g \<longleftrightarrow> acyclic (edge_rel g) \<and> snd ` edge_rel g \<subseteq> graph_names g
     \<and> (\<forall>a. card (targets g a) = out_degree g a)"

lemma edge_rel_targets: "edge_rel g = {(a, b). b \<in> targets g a}"
  by (auto simp: targets_def)

lemma out_degree_unregistered: "graph_inv g \<Longrightarrow> a \<notin> graph_names g \<Longrightarrow> out_degree g a = 0"
  by (auto simp: graph_inv_def out_degree_def filter_empty_conv)

lemma kahn_result_sortable:
  assumes g: "graph_inv g" and inv: "kahn_inv g [] degs result"
  shows "sortable g \<longleftrightarrow> set result = graph_names g"
proof
  assume all: "set result = graph_names g"
  then have em: "a \<in> graph_names g \<Longrightarrow> targets g a \<subseteq> graph_names g \<and> card (targets g a) = out_degree g a" for a
    using kahn_inv_emitted [OF inv, of a] by simp
  have out: "targets g a = {}" if "a \<notin> graph_names g" for a
    using out_degree_unregistered [OF g that] card_targets_le [of g a] by simp
  have "acyclic (edge_rel g)"
  proof (rule acyclicI, rule allI, rule notI)
    fix a assume cyc: "(a, a) \<in> (edge_rel g)\<^sup>+"
    then have "targets g a \<noteq> {}" by (auto simp: targets_def dest: tranclD)
    with out all have "a \<in> set result" by blast
    then obtain i where "i < length result" "a = result ! i" by (metis in_set_conv_nth)
    with cyc inv show False
      using deps_first_no_cycle [of "targets g" result i]
      by (simp add: kahn_inv_def edge_rel_targets)
  qed
  moreover have "snd ` edge_rel g \<subseteq> graph_names g"
  proof -
    have "b \<in> graph_names g" if "(a, b) \<in> edge_rel g" for a b
      using that em [of a] out [of a] unfolding targets_def by (cases "a \<in> graph_names g") auto
    then show ?thesis by auto
  qed
  moreover have "card (targets g a) = out_degree g a" for a
    using em [of a] out [of a] out_degree_unregistered [OF g, of a] by (cases "a \<in> graph_names g") auto
  ultimately show "sortable g" by (simp add: sortable_def)
next
  assume s: "sortable g"
  have fin: "finite (edge_rel g)" by (simp add: edge_rel_def)
  with s have wf: "wf ((edge_rel g)\<inverse>)"
    by (intro finite_acyclic_wf_converse) (auto simp: sortable_def)
  have "a \<in> graph_names g \<longrightarrow> a \<in> set result" for a
  proof (induction a rule: wf_induct_rule [OF wf])
    case (1 a)
    show ?case
    proof
      assume a: "a \<in> graph_names g"
      have "b \<in> set result" if "b \<in> targets g a" for b
      proof -
        from that have e: "(a, b) \<in> edge_rel g" by (simp add: targets_def)
        with s have "b \<in> graph_names g" by (force simp: sortable_def)
        with 1 e show ?thesis by simp
      qed
      then have "targets g a \<inter> set result = targets g a" by blast
      with s have "card (targets g a \<inter> set result) = out_degree g a" by (simp add: sortable_def)
      with kahn_inv_degs [OF inv a] show "a \<in> set result" by auto
    qed
  qed
  with inv show "set result = graph_names g" by (auto simp: kahn_inv_def)
qed

lemma sortable_no_cycles: "graph_inv g \<Longrightarrow> sortable g \<Longrightarrow> detect_cycles g = []"
  using detect_cycles_acyclic [of g] unfolding sortable_def graph_inv_def
  by (metis acyclic_subset)

text \<open>What the sort returns, on every graph: never a panic; an order exactly for the sortable
  graphs.\<close>

lemma topological_sort_cases:
  assumes g: "graph_inv g"
  obtains (Order) order where "topological_sort g = Some (Ok order)" "sortable g" "distinct order"
      "set order = graph_names g" "deps_first (targets g) order"
    | (Cycle) "topological_sort g = Some (Err (CyclicDependency (map (join '' -> '') (detect_cycles g))))"
      "\<not> acyclic (dep_rel g)" "\<not> sortable g"
    | (Stuck) "topological_sort g = Some (Err (CyclicDependency [''Unknown cycle detected'']))"
      "acyclic (dep_rel g)" "\<not> sortable g"
proof (cases "detect_cycles g = []")
  case False
  then show ?thesis
    using Cycle sortable_no_cycles [OF g] detect_cycles_acyclic [of g]
    by (auto simp: topological_sort_def)
next
  case True
  obtain result degs where run: "kahn_loop g (map fst (filter (\<lambda>(_, deg). deg = 0) (in_degrees g)))
      (in_degrees g) [] = Some result" and inv: "kahn_inv g [] degs result"
    using kahn_loop_inv [OF g kahn_inv_init [OF g]] .
  have "length (nodes g) = card (graph_names g)"
    using g distinct_card [of "hm_keys (nodes g)"] by (simp add: graph_inv_def graph_names_def)
  moreover have "length result = card (set result)"
    using inv distinct_card [of result] by (simp add: kahn_inv_def)
  ultimately have len: "length result = length (nodes g) \<longleftrightarrow> set result = graph_names g"
    using inv card_subset_eq [of "graph_names g" "set result"] by (auto simp: kahn_inv_def)
  show ?thesis
  proof (cases "set result = graph_names g")
    case all: True
    then show ?thesis
      using Order [of result] inv True run len kahn_result_sortable [OF g inv]
      by (auto simp: topological_sort_def Let_def kahn_inv_def)
  next
    case part: False
    then show ?thesis
      using Stuck True run len kahn_result_sortable [OF g inv] detect_cycles_acyclic [of g]
      by (auto simp: topological_sort_def Let_def)
  qed
qed

text \<open>(C1) The topological sort never panics on a graph built by \<open>add_plugin\<close>. When it returns an
  order, the order lists every registered plugin once, each after all the plugins it depends on;
  it returns one exactly when the edges are acyclic, lead to registered plugins and are not
  duplicated.\<close>

theorem topological_sort_correct:
  "case topological_sort (build_graph ns) of
     None \<Rightarrow> False
   | Some (Ok order) \<Rightarrow> sortable (build_graph ns) \<and> distinct order \<and> set order = node_id ` set ns
       \<and> deps_first (\<lambda>a. set (dep_names (build_graph ns) a)) order
   | Some (Err e) \<Rightarrow> \<not> sortable (build_graph ns)
       \<and> (if acyclic (dep_rel (build_graph ns))
          then e = CyclicDependency [''Unknown cycle detected'']
          else e = CyclicDependency (map (join '' -> '') (detect_cycles (build_graph ns))))"
proof -
  let ?g = "build_graph ns"
  have sub: "set (dep_names ?g a) \<subseteq> targets ?g a" for a
    using build_graph_inv [of ns] by (auto simp: graph_inv_def dep_rel_def targets_def)
  show ?thesis
    using build_graph_inv [of ns]
    by (cases rule: topological_sort_cases)
      (auto simp: graph_names_build elim!: deps_first_mono dest: subsetD [OF sub])
qed

lemma build_graph_snoc: "build_graph (ns @ [n]) = add_plugin n (build_graph ns)"
  by (simp add: build_graph_def)

lemma add_edges_edges:
  "edges (foldl (add_edge pid) g ds) =
     edges g @ map (\<lambda>d. \<lparr>edge_from = pid, edge_to = dep_name d, edge_dependency = d\<rparr>) ds"
  by (induction ds arbitrary: g) simp_all

lemma out_degree_add_plugin:
  "out_degree (add_plugin n g) a =
     out_degree g a + (if a = node_id n then length (node_dependencies n) else 0)"
  by (auto simp: out_degree_def add_plugin_def Let_def add_edges_edges comp_def)

lemma build_graph_distinct:
  assumes "distinct (map node_id ns)"
  shows "edge_rel (build_graph ns) = dep_rel (build_graph ns)"
    "n \<in> set ns \<Longrightarrow> dep_names (build_graph ns) (node_id n) = map dep_name (node_dependencies n)"
    "out_degree (build_graph ns) a = length (dep_names (build_graph ns) a)"
  using assms
proof (induction ns arbitrary: n a rule: rev_induct)
  case Nil
  {
    case 1
    then show ?case by (auto simp: build_graph_def DependencyGraph_new_def edge_rel_def dep_rel_def
      dep_names_def dependencies_of_def)
  next
    case 2
    then show ?case by simp
  next
    case 3
    then show ?case by (auto simp: build_graph_def DependencyGraph_new_def out_degree_def
      dep_names_def dependencies_of_def)
  }
next
  case (snoc m ns)
  have new: "node_id m \<notin> graph_names (build_graph ns)" if "distinct (map node_id (ns @ [m]))"
    using that by (auto simp: graph_names_build)
  {
    case 1
    then show ?case
      using snoc(1) new dep_names_unregistered [of "node_id m" "build_graph ns"]
      by (auto simp: build_graph_snoc add_plugin_fields(2) dep_rel_def dep_names_add_plugin
          split: if_splits)
  next
    case 2
    then show ?case
      using snoc(2) by (auto simp: build_graph_snoc dep_names_add_plugin) (metis image_eqI)
  next
    case 3
    then show ?case
      using snoc(3) new dep_names_unregistered [of "node_id m" "build_graph ns"]
      by (auto simp: build_graph_snoc dep_names_add_plugin out_degree_add_plugin)
  }
qed

lemma sortable_distinct:
  assumes "distinct (map node_id ns)"
    and "list_all (\<lambda>n. distinct (map dep_name (node_dependencies n))
           \<and> dep_name ` set (node_dependencies n) \<subseteq> node_id ` set ns) ns"
  shows "sortable (build_graph ns) \<longleftrightarrow> acyclic (dep_rel (build_graph ns))"
proof -
  let ?g = "build_graph ns"
  have deps: "distinct (dep_names ?g a) \<and> set (dep_names ?g a) \<subseteq> graph_names ?g" for a
  proof (cases "a \<in> graph_names ?g")
    case True
    then obtain n where n: "n \<in> set ns" "a = node_id n" by (auto simp: graph_names_build)
    with assms(2) show ?thesis
      by (auto simp: build_graph_distinct(2) [OF assms(1) n(1)] graph_names_build list_all_iff)
  qed (simp add: dep_names_unregistered)
  have "targets ?g a = set (dep_names ?g a)" for a
    by (auto simp: targets_def build_graph_distinct(1) [OF assms(1)] dep_rel_def)
  then have "card (targets ?g a) = out_degree ?g a" for a
    using deps [of a] by (simp add: distinct_card build_graph_distinct(3) [OF assms(1)])
  moreover have "snd ` edge_rel ?g \<subseteq> graph_names ?g"
    using deps by (force simp: build_graph_distinct(1) [OF assms(1)] dep_rel_def)
  ultimately show ?thesis
    by (simp add: sortable_def build_graph_distinct(1) [OF assms(1)])
qed

text \<open>For plugins with distinct ids that name each dependency once and only depend on plugins
  of the graph, an activation order exists exactly when no plugin depends on itself through others;
  the deactivation order is then its reverse.\<close>

theorem topological_sort_complete:
  assumes "distinct (map node_id ns)"
    and "list_all (\<lambda>n. distinct (map dep_name (node_dependencies n))
           \<and> dep_name ` set (node_dependencies n) \<subseteq> node_id ` set ns) ns"
  shows "if acyclic (dep_rel (build_graph ns))
    then \<exists>order. activation_order (build_graph ns) = Some (Ok order)
      \<and> deactivation_order (build_graph ns) = Some (Ok (rev order))
    else activation_order (build_graph ns) =
        Some (Err (CyclicDependency (map (join '' -> '') (detect_cycles (build_graph ns)))))"
  using build_graph_inv [of ns] sortable_distinct [OF assms]
  by (cases rule: topological_sort_cases)
    (auto simp: activation_order_def deactivation_order_def result_bind_def)

section \<open>Closures\<close>

lemma rtrancl_Image_closed:
  assumes "r `` S \<subseteq> S"
  shows "r\<^sup>* `` S = S"
proof
  show "r\<^sup>* `` S \<subseteq> S"
  proof
    fix x assume "x \<in> r\<^sup>* `` S"
    then obtain y where "(y, x) \<in> r\<^sup>*" "y \<in> S" by auto
    then show "x \<in> S" by (induction rule: rtrancl_induct) (use assms in auto)
  qed
qed auto

lemma closure_loop_reach:
  assumes "\<And>a. a \<in> seen \<Longrightarrow> set (adj_next adj a) \<subseteq> seen \<union> set queue"
  shows "closure_loop adj seen queue =
    seen \<union> {(a, b). b \<in> set (adj_next adj a)}\<^sup>* `` set queue"
  using assms
proof (induction adj seen queue rule: closure_loop.induct)
  case (2 adj seen n queue)
  let ?r = "{(a, b). b \<in> set (adj_next adj a)}"
  let ?q = "queue @ filter (\<lambda>m. m \<notin> insert n seen) (adj_next adj n)"
  have closed: "?r\<^sup>* `` (S \<union> ?r\<^sup>* `` T) = S \<union> ?r\<^sup>* `` T"
    if "\<And>a. a \<in> S \<Longrightarrow> set (adj_next adj a) \<subseteq> S \<union> T" for S T
  proof (rule rtrancl_Image_closed)
    show "?r `` (S \<union> ?r\<^sup>* `` T) \<subseteq> S \<union> ?r\<^sup>* `` T"
      using that by (auto intro: rtrancl_into_rtrancl)
  qed
  show ?case
  proof (cases "n \<in> seen")
    case True
    then have prem: "\<And>a. a \<in> seen \<Longrightarrow> set (adj_next adj a) \<subseteq> seen \<union> set queue"
      using "2.prems" by auto
    have "?r\<^sup>* `` {n} \<subseteq> seen \<union> ?r\<^sup>* `` set queue"
      using closed [OF prem] True by blast
    then have "seen \<union> ?r\<^sup>* `` set (n # queue) = seen \<union> ?r\<^sup>* `` set queue"
      by auto
    with "2.IH"(1) [OF True prem] True show ?thesis by simp
  next
    case False
    have prem: "\<And>a. a \<in> insert n seen \<Longrightarrow> set (adj_next adj a) \<subseteq> insert n seen \<union> set ?q"
      using "2.prems" by auto
    have "closure_loop adj seen (n # queue) = closure_loop adj (insert n seen) ?q"
      using False by simp
    also have "\<dots> = insert n seen \<union> ?r\<^sup>* `` set ?q"
      by (rule "2.IH"(2) [OF False prem])
    also have "\<dots> = seen \<union> ?r\<^sup>* `` set (n # queue)" (is "?L = ?R")
    proof
      show "?L \<subseteq> ?R" by (auto intro: converse_rtrancl_into_rtrancl)
      have "set (n # queue) \<subseteq> insert n seen \<union> ?r\<^sup>* `` set queue" by auto
      also have "\<dots> \<subseteq> ?L" by auto
      finally have "?r\<^sup>* `` set (n # queue) \<subseteq> ?r\<^sup>* `` ?L" by (rule Image_mono [OF subset_refl])
      also have "\<dots> = ?L" by (rule closed [OF prem])
      finally show "?R \<subseteq> ?L" by (simp only: le_sup_iff) auto
    qed
    finally show ?thesis .
  qed
qed simp

lemma closure_loop_trancl:
  "closure_loop adj {} (adj_next adj a) = {(a, b). b \<in> set (adj_next adj a)}\<^sup>+ `` {a}"
proof -
  have "{(a, b). b \<in> set (adj_next adj a)}\<^sup>+ `` {a}
      = {(a, b). b \<in> set (adj_next adj a)}\<^sup>* `` set (adj_next adj a)"
    by (auto simp: trancl_unfold_left)
  moreover have "closure_loop adj {} (adj_next adj a) =
      {} \<union> {(a, b). b \<in> set (adj_next adj a)}\<^sup>* `` set (adj_next adj a)"
    by (rule closure_loop_reach) simp
  ultimately show ?thesis by simp
qed

lemma dependencies_adj_next: "adj_next (dependencies_adj g) a = dep_names g a"
proof -
  have "hm_get (map (\<lambda>(k, n). (k, f n)) m) a = map_option f (hm_get m a)"
    for m and f :: "PluginNode \<Rightarrow> PluginId list"
    by (induction m) auto
  from this [of "\<lambda>n. map dep_name (node_dependencies n)" "nodes g"] show ?thesis
    by (simp add: adj_next_def dependencies_adj_def dep_names_def dependencies_of_def
        split: option.splits)
qed

lemma dependents_next: "adj_next (dependents g) a = dependents_list g a"
  by (simp add: adj_next_def dependents_list_def)

text \<open>The transitive closures are what their names say: everything reachable from the plugin
  along dependencies, and everything from which the plugin is reachable along the recorded edges.
  Both loops end, on cyclic graphs too.\<close>

theorem transitive_closures:
  "transitive_dependencies g pid = (dep_rel g)\<^sup>+ `` {pid}
   \<and> transitive_dependents (build_graph ns) pid = ((edge_rel (build_graph ns))\<inverse>)\<^sup>+ `` {pid}"
proof
  show "transitive_dependencies g pid = (dep_rel g)\<^sup>+ `` {pid}"
    using closure_loop_trancl [of "dependencies_adj g" pid]
    by (simp add: transitive_dependencies_def dependencies_adj_next dep_rel_def)
  have "{(b, a). a \<in> set (dependents_list (build_graph ns) b)} = (edge_rel (build_graph ns))\<inverse>"
    using build_graph_inv [of ns] by (auto simp: graph_inv_def)
  then show "transitive_dependents (build_graph ns) pid = ((edge_rel (build_graph ns))\<inverse>)\<^sup>+ `` {pid}"
    using closure_loop_trancl [of "dependents (build_graph ns)" pid]
    by (simp add: transitive_dependents_def dependents_next)
qed

end
