(* ===== verification/Dep_Resolver.thy ===== *)
theory Dep_Resolver
  imports Dep_Graph_Props
begin

text \<open>
  Version selection over a dependency graph, \<open>abi/src/dependencies/resolver.rs\<close>. The \<open>Display\<close>
  implementations that print versions with the derived \<open>Debug\<close> are left out.
\<close>

section \<open>Types\<close>

record RequirementSource =
  source_plugin :: PluginId
  source_version_req :: VersionReq

record ResolvedPlugin =
  resolved_id :: PluginId
  resolved_version :: Version
  resolved_required_by :: "RequirementSource list"

datatype ResolutionWarning =
    VersionSelected PluginId "Version list" Version
  | OptionalNotResolved PluginId PluginId
  | PreReleaseUsed PluginId Version

record Resolution =
  res_plugins :: "(PluginId, ResolvedPlugin) hashmap"
  res_graph :: DependencyGraph
  res_warnings :: "ResolutionWarning list"

record ConflictRequirement =
  req_required_by :: PluginId
  req_version_req :: VersionReq

record VersionConflict =
  conflict_plugin :: PluginId
  conflict_requirements :: "ConflictRequirement list"

datatype ResolutionError =
    RCyclicDependency "string list"
  | RMissingDependency PluginId PluginId
  | UnresolvableConflict VersionConflict
  | NoSatisfyingVersion PluginId "ConflictRequirement list" "Version list"
  | RPluginNotFound PluginId

datatype ResolutionStrategy = Newest | Oldest | CloseToTarget

record DependencyResolver =
  available :: "(PluginId, Version list) hashmap"
  strategy :: ResolutionStrategy
  incl_prerelease :: bool

section \<open>Operations\<close>

definition is_satisfied_by :: "VersionConflict \<Rightarrow> Version \<Rightarrow> bool" where
  "is_satisfied_by c v \<longleftrightarrow>
     list_all (\<lambda>r. VersionReq_matches (req_version_req r) v) (conflict_requirements c)"

definition find_satisfying_version :: "VersionConflict \<Rightarrow> Version list \<Rightarrow> Version option" where
  "find_satisfying_version c candidates = List.find (is_satisfied_by c) candidates"

definition VersionConflict_display :: "VersionConflict \<Rightarrow> string" where
  "VersionConflict_display c =
     ''Version conflict for '' @ quoted (conflict_plugin c) @ '': '' @
     join '', '' (map (\<lambda>r. req_required_by r @ '' requires '' @ VersionReq_display (req_version_req r))
       (conflict_requirements c))"

definition DependencyResolver_new :: DependencyResolver where
  "DependencyResolver_new = \<lparr>available = [], strategy = Newest, incl_prerelease = False\<rparr>"

definition add_plugin_versions ::
    "string \<Rightarrow> Version list \<Rightarrow> DependencyResolver \<Rightarrow> DependencyResolver" where
  "add_plugin_versions plugin versions r = r\<lparr>available := hm_insert plugin versions (available r)\<rparr>"

definition with_strategy :: "ResolutionStrategy \<Rightarrow> DependencyResolver \<Rightarrow> DependencyResolver" where
  "with_strategy s r = r\<lparr>strategy := s\<rparr>"

definition include_prerelease :: "bool \<Rightarrow> DependencyResolver \<Rightarrow> DependencyResolver" where
  "include_prerelease b r = r\<lparr>incl_prerelease := b\<rparr>"

text \<open>\<open>requirements.entry(edge.to).or_default().push(..)\<close> for every edge.\<close>

definition collect_requirements ::
    "DependencyGraph \<Rightarrow> (PluginId, ConflictRequirement list) hashmap" where
  "collect_requirements g =
     foldl (\<lambda>m e. hm_insert (edge_to e)
              ((case hm_get m (edge_to e) of None \<Rightarrow> [] | Some rs \<Rightarrow> rs) @
                [\<lparr>req_required_by = edge_from e,
                  req_version_req = dep_version_req (edge_dependency e)\<rparr>]) m)
       [] (edges g)"

definition select_version :: "DependencyResolver \<Rightarrow> Version list \<Rightarrow> ConflictRequirement list
    \<Rightarrow> ResolutionError + Version" where
  "select_version r candidates requirements =
     (if candidates = [] then Err (NoSatisfyingVersion ''unknown'' requirements [])
      else
        (let satisfying = filter (\<lambda>v. list_all (\<lambda>q. VersionReq_matches (req_version_req q) v)
               requirements) candidates
         in case satisfying of
              [] \<Rightarrow> Err (NoSatisfyingVersion ''unknown'' requirements candidates)
            | v # vs \<Rightarrow>
                Ok (case strategy r of
                      Newest \<Rightarrow> max_by Version_cmp v vs
                    | Oldest \<Rightarrow> min_by Version_cmp v vs
                    | CloseToTarget \<Rightarrow> max_by Version_cmp v vs)))"

definition resolve_plugin :: "DependencyResolver \<Rightarrow> PluginId
    \<Rightarrow> (PluginId, ConflictRequirement list) hashmap \<Rightarrow> Resolution
    \<Rightarrow> ResolutionError + Resolution" where
  "resolve_plugin r plugin_id requirements resolution =
     result_bind (ok_or (RPluginNotFound plugin_id) (get_plugin (res_graph resolution) plugin_id))
       (\<lambda>node.
         let avail = (case hm_get (available r) plugin_id of
                        Some vs \<Rightarrow> vs | None \<Rightarrow> [node_version node]);
             candidates = (if incl_prerelease r then avail else filter is_stable avail);
             plugin_reqs = (case hm_get requirements plugin_id of Some rs \<Rightarrow> rs | None \<Rightarrow> [])
         in result_bind (select_version r candidates plugin_reqs)
           (\<lambda>selected.
             let required_by = map (\<lambda>q. \<lparr>source_plugin = req_required_by q,
                   source_version_req = req_version_req q\<rparr>) plugin_reqs;
                 warned = (if is_prerelease selected
                   then res_warnings resolution @ [PreReleaseUsed plugin_id selected]
                   else res_warnings resolution)
             in Ok (resolution\<lparr>res_warnings := warned,
                  res_plugins := hm_insert plugin_id
                    \<lparr>resolved_id = plugin_id, resolved_version = selected,
                     resolved_required_by = required_by\<rparr> (res_plugins resolution)\<rparr>)))"

text \<open>The loop \<open>for plugin_id in &order\<close>.\<close>

fun resolve_all :: "DependencyResolver \<Rightarrow> PluginId list
    \<Rightarrow> (PluginId, ConflictRequirement list) hashmap \<Rightarrow> Resolution
    \<Rightarrow> ResolutionError + Resolution" where
  "resolve_all r [] requirements resolution = Ok resolution"
| "resolve_all r (pid # order) requirements resolution =
     result_bind (resolve_plugin r pid requirements resolution)
       (resolve_all r order requirements)"

fun sort_error :: "GraphError \<Rightarrow> ResolutionError" where
  "sort_error (CyclicDependency cs) = RCyclicDependency cs"
| "sort_error _ = RPluginNotFound ''unknown''"

text \<open>\<open>None\<close>: the topological sort panicked.\<close>

definition resolve :: "DependencyResolver \<Rightarrow> DependencyGraph
    \<Rightarrow> (ResolutionError + Resolution) option" where
  "resolve r g =
     (let cs = detect_cycles g in
      if cs \<noteq> [] then Some (Err (RCyclicDependency (map (join '' -> '') cs)))
      else
        map_option
          (\<lambda>sorted. result_bind (map_err sort_error sorted)
            (\<lambda>order. resolve_all r order (collect_requirements g)
              \<lparr>res_plugins = [], res_graph = g, res_warnings = []\<rparr>))
          (topological_sort g))"

definition detect_conflicts :: "DependencyResolver \<Rightarrow> DependencyGraph \<Rightarrow> VersionConflict list" where
  "detect_conflicts r g =
     map (\<lambda>(p, reqs). \<lparr>conflict_plugin = p, conflict_requirements = reqs\<rparr>)
       (filter (\<lambda>(p, reqs).
            \<not> list_ex (\<lambda>v. list_all (\<lambda>q. VersionReq_matches (req_version_req q) v) reqs)
                (case hm_get (available r) p of None \<Rightarrow> [] | Some vs \<Rightarrow> vs)
            \<and> reqs \<noteq> [])
          (collect_requirements g))"

definition can_resolve :: "DependencyResolver \<Rightarrow> DependencyGraph \<Rightarrow> bool" where
  "can_resolve r g \<longleftrightarrow> \<not> has_cycles g \<and> detect_conflicts r g = []"

section \<open>The requirements on a plugin\<close>

definition edge_req :: "DependencyEdge \<Rightarrow> ConflictRequirement" where
  "edge_req e = \<lparr>req_required_by = edge_from e, req_version_req = dep_version_req (edge_dependency e)\<rparr>"

definition reqs_on :: "DependencyGraph \<Rightarrow> PluginId \<Rightarrow> ConflictRequirement list" where
  "reqs_on g p = map edge_req (filter (\<lambda>e. edge_to e = p) (edges g))"

definition meets :: "DependencyGraph \<Rightarrow> PluginId \<Rightarrow> Version \<Rightarrow> bool" where
  "meets g p v \<longleftrightarrow> list_all (\<lambda>q. VersionReq_matches (req_version_req q) v) (reqs_on g p)"

lemma collect_requirements_get:
  "hm_get (collect_requirements g) p = (if reqs_on g p = [] then None else Some (reqs_on g p))"
proof -
  let ?f = "\<lambda>m e. hm_insert (edge_to e) ((case hm_get m (edge_to e) of None \<Rightarrow> [] | Some rs \<Rightarrow> rs) @
      [\<lparr>req_required_by = edge_from e, req_version_req = dep_version_req (edge_dependency e)\<rparr>]) m"
  have "hm_get (foldl ?f m es) p =
      (let k = map edge_req (filter (\<lambda>e. edge_to e = p) es)
       in case hm_get m p of None \<Rightarrow> if k = [] then None else Some k | Some n \<Rightarrow> Some (n @ k))"
    for es :: "DependencyEdge list" and m :: "(PluginId, ConflictRequirement list) hashmap"
    by (induction es arbitrary: m) (auto simp: update_conv' Let_def edge_req_def split: option.splits)
  from this [of "[]" "edges g"] show ?thesis
    by (simp add: collect_requirements_def reqs_on_def Let_def)
qed

lemma collect_requirements_distinct: "distinct (map fst (collect_requirements g))"
proof -
  have "distinct (map fst m) \<Longrightarrow> distinct (map fst (foldl (\<lambda>m e. hm_insert (edge_to e) (h m e) m) m es))"
    for es :: "DependencyEdge list" and m :: "(PluginId, ConflictRequirement list) hashmap" and h
    by (induction es arbitrary: m) (auto simp: distinct_update)
  then show ?thesis by (simp add: collect_requirements_def)
qed

section \<open>Selection\<close>

text \<open>The versions among which the resolver chooses: the registered ones, else the plugin's own.\<close>

definition candidates_of :: "DependencyResolver \<Rightarrow> DependencyGraph \<Rightarrow> PluginId \<Rightarrow> Version list" where
  "candidates_of r g p =
     (let vs = (case hm_get (available r) p of
          Some vs \<Rightarrow> vs
        | None \<Rightarrow> (case get_plugin g p of None \<Rightarrow> [] | Some n \<Rightarrow> [node_version n]))
      in if incl_prerelease r then vs else filter is_stable vs)"

text \<open>The best candidate that meets every requirement on the plugin.\<close>

definition best_version :: "DependencyResolver \<Rightarrow> DependencyGraph \<Rightarrow> PluginId \<Rightarrow> Version \<Rightarrow> bool" where
  "best_version r g p v \<longleftrightarrow> v \<in> set (candidates_of r g p) \<and> meets g p v
     \<and> (\<forall>w\<in>set (candidates_of r g p). meets g p w \<longrightarrow>
          (if strategy r = Oldest then version_le v w else version_le w v))"

lemma select_version_cases:
  obtains (Selected) v where "select_version r (candidates_of r g p) (reqs_on g p) = Ok v"
      "best_version r g p v"
    | (NoVersion) e where "select_version r (candidates_of r g p) (reqs_on g p) = Err e"
      "\<forall>v\<in>set (candidates_of r g p). \<not> meets g p v"
proof -
  let ?cs = "candidates_of r g p"
  have sat: "filter (\<lambda>v. list_all (\<lambda>q. VersionReq_matches (req_version_req q) v) (reqs_on g p)) ?cs
      = filter (meets g p) ?cs"
    by (simp add: meets_def [abs_def])
  show ?thesis
  proof (cases "filter (meets g p) ?cs")
    case Nil
    then have "\<forall>v\<in>set ?cs. \<not> meets g p v" by (simp add: filter_empty_conv)
    moreover from Nil have "select_version r ?cs (reqs_on g p)
        = Err (NoSatisfyingVersion ''unknown'' (reqs_on g p) ?cs)"
      by (auto simp: select_version_def Let_def sat)
    ultimately show ?thesis using NoVersion by blast
  next
    case (Cons v vs)
    then have "set (filter (meets g p) ?cs) = set (v # vs)" by simp
    then have in_set: "w \<in> set (v # vs) \<longleftrightarrow> w \<in> set ?cs \<and> meets g p w" for w
      by (auto simp: set_eq_iff)
    have "?cs \<noteq> []" using Cons by auto
    then show ?thesis
      using Cons in_set Selected version_ord.max_by_max [of v vs] version_ord.min_by_min [of v vs]
      by (cases "strategy r") (simp_all add: select_version_def Let_def best_version_def sat)
  qed
qed

lemma resolve_plugin_cases:
  assumes g: "res_graph res = g" and p: "p \<in> graph_names g"
  obtains (Selected) res' rp where "resolve_plugin r p (collect_requirements g) res = Ok res'"
      "res_graph res' = g" "res_plugins res' = hm_insert p rp (res_plugins res)"
      "best_version r g p (resolved_version rp)"
    | (NoVersion) e where "resolve_plugin r p (collect_requirements g) res = Err e"
      "\<forall>v\<in>set (candidates_of r g p). \<not> meets g p v"
proof -
  from p obtain n where n: "get_plugin g p = Some n"
    by (auto simp: graph_names_def get_plugin_def dest: weak_map_of_SomeI)
  have reqs: "(case hm_get (collect_requirements g) p of Some rs \<Rightarrow> rs | None \<Rightarrow> []) = reqs_on g p"
    by (simp add: collect_requirements_get)
  have cands: "(if incl_prerelease r
       then case hm_get (available r) p of Some vs \<Rightarrow> vs | None \<Rightarrow> [node_version n]
       else filter is_stable (case hm_get (available r) p of Some vs \<Rightarrow> vs | None \<Rightarrow> [node_version n]))
     = candidates_of r g p"
    by (simp add: candidates_of_def n split: option.splits)
  note unf = resolve_plugin_def Let_def g n ok_or_simps result_bind_simps reqs cands
  show ?thesis
  proof (cases rule: select_version_cases [where r = r and g = g and p = p])
    case (Selected v)
    show ?thesis by (rule that(1)) (use Selected g in \<open>auto simp: unf\<close>)
  next
    case (NoVersion e)
    show ?thesis by (rule that(2)) (use NoVersion in \<open>auto simp: unf\<close>)
  qed
qed

lemma resolve_all_cases:
  assumes "res_graph res = g" "set order \<subseteq> graph_names g"
  obtains (Resolved) res' where "resolve_all r order (collect_requirements g) res = Ok res'"
      "\<And>p. p \<notin> set order \<Longrightarrow> hm_get (res_plugins res') p = hm_get (res_plugins res) p"
      "\<And>p. p \<in> set order \<Longrightarrow> \<exists>rp. hm_get (res_plugins res') p = Some rp
         \<and> best_version r g p (resolved_version rp)"
    | (NoVersion) e p where "resolve_all r order (collect_requirements g) res = Err e"
      "p \<in> set order" "\<forall>v\<in>set (candidates_of r g p). \<not> meets g p v"
  using assms
proof (induction order arbitrary: res thesis)
  case (Cons q order)
  then have q: "q \<in> graph_names g" and order: "set order \<subseteq> graph_names g" by auto
  from Cons.prems(3) q show ?case
  proof (cases rule: resolve_plugin_cases [where r = r])
    case sel: (Selected res1 rp)
    show ?thesis
    proof (rule Cons.IH [OF _ _ sel(2) order], goal_cases)
      case (1 res')
      show ?case
      proof (rule Cons.prems(1))
        show "resolve_all r (q # order) (collect_requirements g) res = Ok res'"
          using sel(1) 1(1) by simp
        show "p \<notin> set (q # order) \<Longrightarrow> hm_get (res_plugins res') p = hm_get (res_plugins res) p" for p
          using 1(2) [of p] sel(3) by (simp add: update_conv')
        show "p \<in> set (q # order) \<Longrightarrow> \<exists>rp. hm_get (res_plugins res') p = Some rp
            \<and> best_version r g p (resolved_version rp)" for p
          using 1(2,3) [of p] sel(3,4) by (cases "p \<in> set order") (auto simp: update_conv')
      qed
    next
      case (2 e p)
      then show ?case using sel(1) by (intro Cons.prems(2) [of e p]) auto
    qed
  next
    case (NoVersion e)
    then show ?thesis by (intro Cons.prems(2) [of e q]) auto
  qed
qed simp

lemma best_version_meets:
  "best_version r g p v \<Longrightarrow> \<exists>v\<in>set (candidates_of r g p). meets g p v"
  by (auto simp: best_version_def)

text \<open>What resolution returns on a graph built by \<open>add_plugin\<close>.\<close>

lemma resolve_cases:
  assumes g: "graph_inv g"
  obtains (Resolved) res where "resolve r g = Some (Ok res)" "sortable g"
      "\<And>p. p \<notin> graph_names g \<Longrightarrow> hm_get (res_plugins res) p = None"
      "\<And>p. p \<in> graph_names g \<Longrightarrow> \<exists>rp. hm_get (res_plugins res) p = Some rp
         \<and> best_version r g p (resolved_version rp)"
    | (NoVersion) e p where "resolve r g = Some (Err e)" "sortable g"
      "p \<in> graph_names g" "\<forall>v\<in>set (candidates_of r g p). \<not> meets g p v"
    | (NoOrder) cs where "resolve r g = Some (Err (RCyclicDependency cs))" "\<not> sortable g"
  using g
proof (cases rule: topological_sort_cases)
  case (Order order)
  let ?init = "\<lparr>res_plugins = [], res_graph = g, res_warnings = []\<rparr>"
  have eq: "resolve r g = Some (resolve_all r order (collect_requirements g) ?init)"
    using Order sortable_no_cycles [OF g] by (simp add: resolve_def)
  show ?thesis
  proof (rule resolve_all_cases [where res = ?init and g = g and order = order and r = r], goal_cases)
    case (3 res)
    then show ?case using Order(2,4) eq by (intro that(1) [of res]) auto
  next
    case (4 e p)
    then show ?case using Order(2,4) eq by (intro that(2) [of e p]) auto
  qed (use Order(4) in simp_all)
next
  case Cycle
  then show ?thesis
    by (intro that(3) [of "map (join '' -> '') (detect_cycles g)"])
      (auto simp: resolve_def detect_cycles_acyclic)
next
  case Stuck
  then show ?thesis
    by (intro that(3) [of "[''Unknown cycle detected'']"])
      (auto simp: resolve_def detect_cycles_acyclic)
qed

text \<open>(C3) Resolution never panics. It succeeds exactly when the graph can be ordered and every
  plugin has a candidate version (a registered one, or the plugin's own when none is registered;
  stable unless pre-releases are included) that meets all the requirements on it. It then selects
  for every plugin of the graph such a candidate, the greatest one (the least, for \<open>Oldest\<close>).\<close>

theorem resolve_correct:
  "case resolve r (build_graph ns) of
     None \<Rightarrow> False
   | Some (Ok res) \<Rightarrow> sortable (build_graph ns)
       \<and> (\<forall>p. if p \<in> node_id ` set ns
            then \<exists>rp. hm_get (res_plugins res) p = Some rp
                 \<and> best_version r (build_graph ns) p (resolved_version rp)
            else hm_get (res_plugins res) p = None)
   | Some (Err e) \<Rightarrow>
       if sortable (build_graph ns)
       then list_ex (\<lambda>n. list_all (\<lambda>v. \<not> meets (build_graph ns) (node_id n) v)
              (candidates_of r (build_graph ns) (node_id n))) ns
       else \<exists>cs. e = RCyclicDependency cs"
  using build_graph_inv [of ns]
proof (cases rule: resolve_cases [where r = r])
  case (Resolved res)
  then show ?thesis by (simp add: graph_names_build)
next
  case (NoVersion e p)
  then show ?thesis by (auto simp: graph_names_build list_all_iff list_ex_iff)
qed simp

section \<open>The quick check\<close>

lemma detect_conflicts_empty:
  "detect_conflicts r g = [] \<longleftrightarrow>
     (\<forall>p. reqs_on g p \<noteq> [] \<longrightarrow>
        (\<exists>v\<in>set (case hm_get (available r) p of None \<Rightarrow> [] | Some vs \<Rightarrow> vs). meets g p v))"
proof -
  have mem: "(p, reqs) \<in> set (collect_requirements g) \<longleftrightarrow> reqs \<noteq> [] \<and> reqs = reqs_on g p" for p reqs
    using map_of_eq_Some_iff [OF collect_requirements_distinct, of g p reqs]
      collect_requirements_get [of g p] by (auto split: if_splits)
  have "detect_conflicts r g = [] \<longleftrightarrow> (\<forall>p reqs. (p, reqs) \<in> set (collect_requirements g) \<longrightarrow> reqs \<noteq> [] \<longrightarrow>
      (\<exists>v\<in>set (case hm_get (available r) p of None \<Rightarrow> [] | Some vs \<Rightarrow> vs).
         list_all (\<lambda>q. VersionReq_matches (req_version_req q) v) reqs))"
    by (simp add: detect_conflicts_def filter_empty_conv list_ex_iff split_beta Ball_def) blast
  then show ?thesis unfolding mem meets_def by blast
qed

text \<open>\<open>can_resolve\<close> predicts \<open>resolve\<close> on an orderable graph, for a resolver that includes
  pre-releases and has at least one version registered for each plugin.\<close>

theorem can_resolve_predicts:
  assumes "sortable (build_graph ns)" and "incl_prerelease r"
    and "list_all (\<lambda>n. \<exists>v vs. hm_get (available r) (node_id n) = Some (v # vs)) ns"
  shows "can_resolve r (build_graph ns) \<longleftrightarrow> (\<exists>res. resolve r (build_graph ns) = Some (Ok res))"
proof -
  let ?g = "build_graph ns"
  have inv: "graph_inv ?g" by (rule build_graph_inv)
  have avail: "p \<in> graph_names ?g \<Longrightarrow> \<exists>v vs. hm_get (available r) p = Some (v # vs)" for p
    using assms(3) by (auto simp: graph_names_build list_all_iff)
  then have cands: "p \<in> graph_names ?g \<Longrightarrow>
      candidates_of r ?g p = (case hm_get (available r) p of None \<Rightarrow> [] | Some vs \<Rightarrow> vs)
      \<and> candidates_of r ?g p \<noteq> []" for p
    using assms(2) by (force simp: candidates_of_def)
  have named: "p \<in> graph_names ?g" if "reqs_on ?g p \<noteq> []" for p
  proof -
    from that obtain e where e: "e \<in> set (edges ?g)" "edge_to e = p"
      by (auto simp: reqs_on_def filter_empty_conv)
    then have "p \<in> snd ` edge_rel ?g" by (force simp: edge_rel_def)
    with assms(1) show ?thesis by (auto simp: sortable_def)
  qed
  have pick: "\<exists>v\<in>set (candidates_of r ?g p). meets ?g p v"
    if "reqs_on ?g p = []" "p \<in> graph_names ?g" for p
  proof -
    from cands [OF that(2)] have "last (candidates_of r ?g p) \<in> set (candidates_of r ?g p)"
      by (blast intro: last_in_set)
    with that(1) show ?thesis by (auto simp: meets_def)
  qed
  have "can_resolve r ?g \<longleftrightarrow> (\<forall>p\<in>graph_names ?g. \<exists>v\<in>set (candidates_of r ?g p). meets ?g p v)"
    unfolding can_resolve_def has_cycles_def detect_conflicts_empty
    using sortable_no_cycles [OF inv assms(1)] pick named cands by fastforce
  also have "\<dots> \<longleftrightarrow> (\<exists>res. resolve r ?g = Some (Ok res))"
    using inv by (cases rule: resolve_cases [where r = r])
      (use assms(1) in \<open>auto dest: best_version_meets\<close>)
  finally show ?thesis .
qed

definition fallback_example :: DependencyGraph where
  "fallback_example = build_graph
     [PluginNode_new ''b'' (Version_new 1 0 0),
      with_dependency (Dependency_new ''b''
          (VersionReq_single (VersionConstraint_new Caret (Version_new 1 0 0))))
        (PluginNode_new ''a'' (Version_new 1 0 0))]"

text \<open>In general the two differ: for the graph of one plugin that depends on another, both at
  1.0.0, and a new resolver, \<open>resolve\<close> selects the plugins' own versions while \<open>can_resolve\<close>
  reports that the requirement cannot be met.\<close>

theorem can_resolve_misses_fallback:
  "\<not> can_resolve DependencyResolver_new fallback_example
   \<and> map_option (map_sum id (\<lambda>res. map (\<lambda>(p, rp). (p, resolved_version rp)) (res_plugins res)))
       (resolve DependencyResolver_new fallback_example)
     = Some (Ok [(''b'', Version_new 1 0 0), (''a'', Version_new 1 0 0)])"
proof
  show "\<not> can_resolve DependencyResolver_new fallback_example" by code_simp
  show "map_option (map_sum id (\<lambda>res. map (\<lambda>(p, rp). (p, resolved_version rp)) (res_plugins res)))
       (resolve DependencyResolver_new fallback_example)
     = Some (Ok [(''b'', Version_new 1 0 0), (''a'', Version_new 1 0 0)])" by code_simp
qed

end
