(* ===== verification/Load_Order.thy ===== *)
theory Load_Order
  imports Dep_Resolver
begin

text \<open>
  The order in which the plugin manager loads plugins, \<open>src/plugin_manager/dependency_resolver.rs\<close>:
  manifests are registered, their dependency strings parsed, and the graph of \<open>Dep_Graph\<close> is built
  and sorted. Errors are the messages of the source.
\<close>

section \<open>Registration\<close>

record PluginManifest =
  pm_name :: string
  pm_version :: Version
  pm_dependencies :: "string list"
  pm_abi_version :: string

record PluginDependencyResolver =
  manifests :: "(string, PluginManifest) hashmap"

definition PluginDependencyResolver_new :: PluginDependencyResolver where
  "PluginDependencyResolver_new = \<lparr>manifests = []\<rparr>"

definition register_plugin :: "string \<Rightarrow> string \<Rightarrow> string list \<Rightarrow> string option
    \<Rightarrow> PluginDependencyResolver \<Rightarrow> PluginDependencyResolver" where
  "register_plugin name abi_version deps version r =
     (let v = (case version of
                 None \<Rightarrow> Version_new 1 0 0
               | Some s \<Rightarrow> (case Version_parse s of Err _ \<Rightarrow> Version_new 1 0 0 | Ok v \<Rightarrow> v))
      in r\<lparr>manifests := hm_insert name
            \<lparr>pm_name = name, pm_version = v, pm_dependencies = deps, pm_abi_version = abi_version\<rparr>
            (manifests r)\<rparr>)"

definition register_from_string :: "string \<Rightarrow> PluginDependencyResolver
    \<Rightarrow> string + PluginDependencyResolver" where
  "register_from_string manifest_str r =
     (case split_on CHR '':'' manifest_str of
        name # abi_version # rest \<Rightarrow>
          (let deps = (case rest of [] \<Rightarrow> [] | d # _ \<Rightarrow> map trim (split_on CHR '','' d))
           in Ok (register_plugin name abi_version deps None r))
      | _ \<Rightarrow> Err (''Invalid manifest format: expected '' @ quoted ''name:abi_version[:deps]''))"

definition resolver_len :: "PluginDependencyResolver \<Rightarrow> nat" where
  "resolver_len r = length (manifests r)"

definition resolver_is_empty :: "PluginDependencyResolver \<Rightarrow> bool" where
  "resolver_is_empty r \<longleftrightarrow> manifests r = []"

definition resolver_plugins :: "PluginDependencyResolver \<Rightarrow> PluginManifest list" where
  "resolver_plugins r = map snd (manifests r)"

section \<open>Resolution\<close>

definition parse_dependency :: "string \<Rightarrow> string + Dependency" where
  "parse_dependency dep_str =
     (case split_once CHR ''@'' dep_str of
        None \<Rightarrow> Ok (Dependency_new (trim dep_str) VersionReq_any)
      | Some (n, req) \<Rightarrow>
          result_bind
            (map_err (\<lambda>e. ''Invalid version requirement '' @ quoted req @ '': '' @
                ConstraintError_display e)
              (VersionReq_parse (trim req)))
            (\<lambda>version_req. Ok (Dependency_new (trim n) version_req)))"

text \<open>The loop adds the dependencies one at a time and stops at the first that does not parse.\<close>

fun add_dependencies :: "string list \<Rightarrow> PluginNode \<Rightarrow> string + PluginNode" where
  "add_dependencies [] node = Ok node"
| "add_dependencies (d # ds) node =
     result_bind (parse_dependency d) (\<lambda>dep. add_dependencies ds (with_dependency dep node))"

definition build_plugin_node :: "PluginManifest \<Rightarrow> string + PluginNode" where
  "build_plugin_node m = add_dependencies (pm_dependencies m) (PluginNode_new (pm_name m) (pm_version m))"

fun add_manifests :: "PluginManifest list \<Rightarrow> DependencyGraph \<Rightarrow> string + DependencyGraph" where
  "add_manifests [] g = Ok g"
| "add_manifests (m # ms) g =
     result_bind (build_plugin_node m) (\<lambda>node. add_manifests ms (add_plugin node g))"

text \<open>\<open>None\<close>: the topological sort panicked.\<close>

definition resolve_loading_order :: "PluginDependencyResolver
    \<Rightarrow> (string + (string \<times> string) list) option" where
  "resolve_loading_order r =
     (case add_manifests (resolver_plugins r) DependencyGraph_new of
        Err e \<Rightarrow> Some (Err e)
      | Ok g \<Rightarrow>
          if has_cycles g
          then Some (Err (''Cyclic dependencies detected: '' @
                 join ''; '' (map (join '' -> '') (detect_cycles g))))
          else
            map_option
              (\<lambda>sorted. result_bind
                 (map_err (\<lambda>e. ''Failed to resolve dependencies: '' @ GraphError_display e) sorted)
                 (\<lambda>order. Ok (List.map_filter
                    (\<lambda>name. map_option (\<lambda>m. (pm_name m, pm_abi_version m)) (hm_get (manifests r) name))
                    order)))
              (topological_sort g))"

definition resolve_plugin_order :: "(string \<times> string) list \<Rightarrow> (string \<Rightarrow> string list option)
    \<Rightarrow> (string + (string \<times> string) list) option" where
  "resolve_plugin_order plugins get_dependencies =
     resolve_loading_order
       (foldl (\<lambda>r (name, abi_version). register_plugin name abi_version
            (case get_dependencies name of None \<Rightarrow> [] | Some ds \<Rightarrow> ds) None r)
          PluginDependencyResolver_new plugins)"

section \<open>The graph that resolution builds\<close>

text \<open>The name and the parsed form of a dependency string.\<close>

definition dep_target :: "string \<Rightarrow> string" where
  "dep_target s = (case split_once CHR ''@'' s of None \<Rightarrow> trim s | Some (n, _) \<Rightarrow> trim n)"

lemma parse_dependency_name: "parse_dependency s = Ok d \<Longrightarrow> dep_name d = dep_target s"
  by (auto simp: parse_dependency_def dep_target_def Dependency_new_def split: option.splits)

lemma add_dependencies_Ok:
  "add_dependencies ds node = Ok n \<longleftrightarrow>
     (\<exists>deps. collect_results parse_dependency ds = Ok deps \<and> n = with_dependencies deps node)"
proof (induction ds arbitrary: node)
  case (Cons d ds)
  then show ?case
    by (cases "parse_dependency d"; cases "collect_results parse_dependency ds")
      (auto simp: with_dependency_def with_dependencies_def)
qed (auto simp: with_dependencies_def)

lemma build_plugin_node_Ok:
  assumes "build_plugin_node m = Ok n"
  shows "node_id n = pm_name m" "map dep_name (node_dependencies n) = map dep_target (pm_dependencies m)"
proof -
  obtain deps where deps: "collect_results parse_dependency (pm_dependencies m) = Ok deps"
    "n = with_dependencies deps (PluginNode_new (pm_name m) (pm_version m))"
    using assms by (auto simp: build_plugin_node_def add_dependencies_Ok)
  have "collect_results parse_dependency ss = Ok ds \<Longrightarrow> map dep_name ds = map dep_target ss" for ss ds
    by (induction ss arbitrary: ds) (auto simp: parse_dependency_name split: sum.splits)
  with deps show "node_id n = pm_name m"
    "map dep_name (node_dependencies n) = map dep_target (pm_dependencies m)"
    by (auto simp: with_dependencies_def PluginNode_new_def)
qed

lemma add_manifests_eq:
  "add_manifests ms g =
     result_bind (collect_results build_plugin_node ms) (\<lambda>ns. Ok (foldl (\<lambda>g n. add_plugin n g) g ns))"
  by (induction ms arbitrary: g) (auto simp: result_bind_def split: sum.splits)

lemma build_nodes_names:
  "collect_results build_plugin_node ms = Ok ns \<Longrightarrow> map node_id ns = map pm_name ms"
  by (induction ms arbitrary: ns) (auto simp: build_plugin_node_Ok(1) split: sum.splits)

text \<open>Every manifest is filed under its own name.\<close>

definition resolver_inv :: "PluginDependencyResolver \<Rightarrow> bool" where
  "resolver_inv r \<longleftrightarrow> distinct (hm_keys (manifests r)) \<and> list_all (\<lambda>(k, m). pm_name m = k) (manifests r)"

lemma resolver_inv_new: "resolver_inv PluginDependencyResolver_new"
  by (simp add: resolver_inv_def PluginDependencyResolver_new_def)

lemma register_plugin_inv: "resolver_inv r \<Longrightarrow> resolver_inv (register_plugin n a ds v r)"
  using set_update_subset [of n _ "manifests r"]
  by (fastforce simp: resolver_inv_def register_plugin_def Let_def distinct_update list_all_iff)

lemma register_from_string_inv:
  "resolver_inv r \<Longrightarrow> register_from_string s r = Ok r' \<Longrightarrow> resolver_inv r'"
  by (auto simp: register_from_string_def Let_def register_plugin_inv split: list.splits)

lemma resolver_inv_names: "resolver_inv r \<Longrightarrow> map pm_name (resolver_plugins r) = hm_keys (manifests r)"
  by (auto simp: resolver_inv_def resolver_plugins_def list_all_iff)

lemma resolver_inv_get: "resolver_inv r \<Longrightarrow> hm_get (manifests r) k = Some m \<Longrightarrow> pm_name m = k"
  by (auto simp: resolver_inv_def list_all_iff dest: map_of_SomeD)

section \<open>The loading order\<close>

definition targets_of :: "PluginDependencyResolver \<Rightarrow> string \<Rightarrow> string list" where
  "targets_of r n = (case hm_get (manifests r) n of
     None \<Rightarrow> [] | Some m \<Rightarrow> map dep_target (pm_dependencies m))"

definition abi_of :: "PluginDependencyResolver \<Rightarrow> string \<Rightarrow> string" where
  "abi_of r n = (case hm_get (manifests r) n of None \<Rightarrow> [] | Some m \<Rightarrow> pm_abi_version m)"

lemma collect_results_Ok_image:
  "collect_results f xs = Ok ys \<Longrightarrow> x \<in> set xs \<Longrightarrow> \<exists>y\<in>set ys. f x = Ok y"
  by (induction xs arbitrary: ys) (auto split: sum.splits)

lemma resolver_nodes:
  assumes inv: "resolver_inv r" and ns: "collect_results build_plugin_node (resolver_plugins r) = Ok ns"
  shows "distinct (map node_id ns)" "node_id ` set ns = set (hm_keys (manifests r))"
    "dep_names (build_graph ns) n = targets_of r n"
proof -
  have ids: "map node_id ns = hm_keys (manifests r)"
    using build_nodes_names [OF ns] resolver_inv_names [OF inv] by simp
  with inv show dist: "distinct (map node_id ns)" by (simp add: resolver_inv_def)
  show keys: "node_id ` set ns = set (hm_keys (manifests r))"
    using arg_cong [OF ids, of set] by simp
  show "dep_names (build_graph ns) n = targets_of r n"
  proof (cases "hm_get (manifests r) n")
    case None
    then have "n \<notin> graph_names (build_graph ns)"
      by (simp add: graph_names_build keys map_of_eq_None_iff)
    with None show ?thesis by (simp add: dep_names_unregistered targets_of_def)
  next
    case (Some m)
    then have "m \<in> set (resolver_plugins r)"
      by (force simp: resolver_plugins_def dest: map_of_SomeD)
    with ns obtain node where node: "node \<in> set ns" "build_plugin_node m = Ok node"
      using collect_results_Ok_image [OF ns] by blast
    with build_plugin_node_Ok [OF node(2)] resolver_inv_get [OF inv Some] Some show ?thesis
      using build_graph_distinct(2) [OF dist node(1)] by (simp add: targets_of_def)
  qed
qed

lemma resolve_loading_order_eq:
  assumes inv: "resolver_inv r" and ns: "collect_results build_plugin_node (resolver_plugins r) = Ok ns"
  shows "resolve_loading_order r =
    (if has_cycles (build_graph ns)
     then Some (Err (''Cyclic dependencies detected: '' @
            join ''; '' (map (join '' -> '') (detect_cycles (build_graph ns)))))
     else map_option (\<lambda>sorted. result_bind
            (map_err (\<lambda>e. ''Failed to resolve dependencies: '' @ GraphError_display e) sorted)
            (\<lambda>order. Ok (map (\<lambda>n. (n, abi_of r n)) order))) (topological_sort (build_graph ns)))"
proof -
  have "List.map_filter (\<lambda>n. map_option (\<lambda>m. (pm_name m, pm_abi_version m)) (hm_get (manifests r) n)) order
      = map (\<lambda>n. (n, abi_of r n)) order" if "set order \<subseteq> set (hm_keys (manifests r))" for order
    using that
  proof (induction order)
    case (Cons n order)
    then obtain m where "hm_get (manifests r) n = Some m"
      by (metis list.set_intros(1) list.set_map map_of_eq_None_iff not_None_eq subsetD)
    with Cons resolver_inv_get [OF inv this] show ?case
      by (simp add: List.map_filter_simps abi_of_def)
  qed (simp add: List.map_filter_simps)
  moreover have "set order \<subseteq> set (hm_keys (manifests r))"
    if "topological_sort (build_graph ns) = Some (Ok order)" for order
    using build_graph_inv [of ns] that
    by (cases rule: topological_sort_cases)
      (auto simp: graph_names_build resolver_nodes(2) [OF inv ns])
  ultimately show ?thesis
    by (auto simp: resolve_loading_order_def add_manifests_eq ns build_graph_def result_bind_def map_err_def
        split: sum.splits intro!: option.map_cong)
qed

lemma loading_order_sound:
  assumes inv: "resolver_inv r" and ok: "resolve_loading_order r = Some (Ok order)"
  shows "distinct (map fst order)" "set order = {(n, abi_of r n) | n. n \<in> set (hm_keys (manifests r))}"
    "deps_first (\<lambda>n. set (targets_of r n)) (map fst order)"
proof -
  obtain ns where ns: "collect_results build_plugin_node (resolver_plugins r) = Ok ns"
    using ok by (cases "collect_results build_plugin_node (resolver_plugins r)")
      (auto simp: resolve_loading_order_def add_manifests_eq)
  obtain xs where xs: "order = map (\<lambda>n. (n, abi_of r n)) xs" and
    top: "topological_sort (build_graph ns) = Some (Ok xs)"
    using ok unfolding resolve_loading_order_eq [OF inv ns] by (auto split: if_splits)
  have sub: "set (dep_names (build_graph ns) a) \<subseteq> targets (build_graph ns) a" for a
    using build_graph_inv [of ns] by (auto simp: graph_inv_def dep_rel_def targets_def)
  have fst: "map fst order = xs" by (simp add: xs comp_def)
  from build_graph_inv [of ns] have "distinct xs \<and> set xs = set (hm_keys (manifests r))
      \<and> deps_first (\<lambda>n. set (targets_of r n)) xs"
    by (cases rule: topological_sort_cases)
      (use top sub in \<open>auto simp: graph_names_build resolver_nodes(2,3) [OF inv ns]
         elim!: deps_first_mono\<close>)
  then show "distinct (map fst order)" "deps_first (\<lambda>n. set (targets_of r n)) (map fst order)"
    "set order = {(n, abi_of r n) | n. n \<in> set (hm_keys (manifests r))}"
    unfolding fst by (simp_all add: xs image_def) blast
qed

lemma loading_order_no_panic: "resolver_inv r \<Longrightarrow> resolve_loading_order r \<noteq> None"
proof (cases "collect_results build_plugin_node (resolver_plugins r)")
  case (Inl e)
  then show ?thesis by (simp add: resolve_loading_order_def add_manifests_eq)
next
  case (Inr ns)
  assume "resolver_inv r"
  from resolve_loading_order_eq [OF this Inr] build_graph_inv [of ns] show ?thesis
    by (auto elim: topological_sort_cases)
qed

lemma loading_order_complete:
  assumes inv: "resolver_inv r"
    and parse: "\<And>m d. m \<in> set (resolver_plugins r) \<Longrightarrow> d \<in> set (pm_dependencies m) \<Longrightarrow> \<exists>x. parse_dependency d = Ok x"
    and deps: "\<And>n. n \<in> set (hm_keys (manifests r)) \<Longrightarrow>
      distinct (targets_of r n) \<and> set (targets_of r n) \<subseteq> set (hm_keys (manifests r))"
    and acyc: "acyclic {(n, t). t \<in> set (targets_of r n)}"
  shows "\<exists>order. resolve_loading_order r = Some (Ok order)"
proof -
  have "\<exists>n. build_plugin_node m = Ok n" if "m \<in> set (resolver_plugins r)" for m
    using parse [OF that] unfolding build_plugin_node_def add_dependencies_Ok
    by (auto intro: collect_results_total)
  then obtain ns where ns: "collect_results build_plugin_node (resolver_plugins r) = Ok ns"
    using collect_results_total by blast
  note nodes = resolver_nodes [OF inv ns]
  have dn: "map dep_name (node_dependencies n) = targets_of r (node_id n)" if "n \<in> set ns" for n
    using build_graph_distinct(2) [OF nodes(1) that] nodes(3) by simp
  have "list_all (\<lambda>n. distinct (map dep_name (node_dependencies n))
           \<and> dep_name ` set (node_dependencies n) \<subseteq> node_id ` set ns) ns"
    unfolding list_all_iff
  proof
    fix n assume n: "n \<in> set ns"
    then have "node_id n \<in> set (hm_keys (manifests r))" using nodes(2) by blast
    with deps dn [OF n] nodes(2) show "distinct (map dep_name (node_dependencies n))
        \<and> dep_name ` set (node_dependencies n) \<subseteq> node_id ` set ns"
      by (metis list.set_map)
  qed
  moreover have "acyclic (dep_rel (build_graph ns))"
    using acyc nodes(3) by (simp add: dep_rel_def)
  ultimately have "sortable (build_graph ns)" using sortable_distinct [OF nodes(1)] by simp
  with build_graph_inv [of ns] show ?thesis
    unfolding resolve_loading_order_eq [OF inv ns] has_cycles_def
    by (cases rule: topological_sort_cases) (auto simp: detect_cycles_acyclic \<open>acyclic (dep_rel (build_graph ns))\<close>)
qed

text \<open>The resolver that \<open>resolve_plugin_order\<close> builds.\<close>

definition order_resolver :: "(string \<times> string) list \<Rightarrow> (string \<Rightarrow> string list option)
    \<Rightarrow> PluginDependencyResolver" where
  "order_resolver plugins deps =
     foldl (\<lambda>r (name, abi_version). register_plugin name abi_version
            (case deps name of None \<Rightarrow> [] | Some ds \<Rightarrow> ds) None r) PluginDependencyResolver_new plugins"

lemma order_resolver_snoc:
  "order_resolver (ps @ [(n, a)]) deps =
     register_plugin n a (case deps n of None \<Rightarrow> [] | Some ds \<Rightarrow> ds) None (order_resolver ps deps)"
  by (simp add: order_resolver_def)

lemma order_resolver_inv: "resolver_inv (order_resolver plugins deps)"
proof (induction plugins rule: rev_induct)
  case (snoc p ps)
  then show ?case by (cases p) (simp add: order_resolver_snoc register_plugin_inv)
qed (simp add: order_resolver_def resolver_inv_new)

lemma order_resolver_get:
  "hm_get (manifests (order_resolver plugins deps)) n =
     map_option (\<lambda>a. \<lparr>pm_name = n, pm_version = Version_new 1 0 0,
         pm_dependencies = (case deps n of None \<Rightarrow> [] | Some ds \<Rightarrow> ds), pm_abi_version = a\<rparr>)
       (map_of (rev plugins) n)"
proof (induction plugins rule: rev_induct)
  case (snoc p ps)
  then show ?case
    by (cases p) (simp add: order_resolver_snoc register_plugin_def Let_def update_conv')
qed (simp add: order_resolver_def PluginDependencyResolver_new_def)

definition plugin_targets :: "(string \<Rightarrow> string list option) \<Rightarrow> string \<Rightarrow> string list" where
  "plugin_targets deps n = (case deps n of None \<Rightarrow> [] | Some ds \<Rightarrow> map dep_target ds)"

lemma order_resolver_facts:
  "set (hm_keys (manifests (order_resolver plugins deps))) = fst ` set plugins"
  "targets_of (order_resolver plugins deps) n =
     (if n \<in> fst ` set plugins then plugin_targets deps n else [])"
  "map_of (rev plugins) n = Some a \<Longrightarrow> abi_of (order_resolver plugins deps) n = a"
proof -
  have keys: "n \<in> fst ` set m \<longleftrightarrow> hm_get m n \<noteq> None"
    for n :: string and m :: "(string, 'v) hashmap"
    by (simp add: map_of_eq_None_iff)
  have dom: "n \<in> fst ` set plugins \<longleftrightarrow> map_of (rev plugins) n \<noteq> None" for n
    using keys [of n "rev plugins"] by simp
  show "set (hm_keys (manifests (order_resolver plugins deps))) = fst ` set plugins"
    unfolding set_eq_iff set_map keys order_resolver_get by (simp add: map_of_eq_None_iff)
  show "targets_of (order_resolver plugins deps) n =
     (if n \<in> fst ` set plugins then plugin_targets deps n else [])"
    unfolding dom
    by (auto simp: targets_of_def plugin_targets_def order_resolver_get split: option.splits)
  show "map_of (rev plugins) n = Some a \<Longrightarrow> abi_of (order_resolver plugins deps) n = a"
    by (simp add: abi_of_def order_resolver_get)
qed

text \<open>(C10) The loading order computed for a list of plugins is right: computing it never panics,
  and a returned order lists every plugin name once, with the ABI version last registered for it, and
  after all the plugins that its dependency strings name.\<close>

theorem resolve_plugin_order_correct:
  "case resolve_plugin_order plugins deps of
     None \<Rightarrow> False
   | Some (Err e) \<Rightarrow> True
   | Some (Ok order) \<Rightarrow> distinct (map fst order)
       \<and> set order = {(n, a). map_of (rev plugins) n = Some a}
       \<and> deps_first (\<lambda>n. if n \<in> fst ` set plugins then set (plugin_targets deps n) else {})
           (map fst order)"
proof -
  let ?r = "order_resolver plugins deps"
  have eq: "resolve_plugin_order plugins deps = resolve_loading_order ?r"
    by (simp add: resolve_plugin_order_def order_resolver_def)
  have dom: "n \<in> fst ` set plugins \<longleftrightarrow> (\<exists>a. map_of (rev plugins) n = Some a)" for n
    using map_of_eq_None_iff [of "rev plugins" n] by auto
  have tg: "(\<lambda>n. set (targets_of ?r n)) =
      (\<lambda>n. if n \<in> fst ` set plugins then set (plugin_targets deps n) else {})"
    by (rule ext) (simp add: order_resolver_facts(2))
  have pairs: "{(n, abi_of ?r n) | n. n \<in> set (hm_keys (manifests ?r))} = {(n, a). map_of (rev plugins) n = Some a}"
    unfolding order_resolver_facts(1) dom by (auto simp: order_resolver_facts(3))
  show ?thesis
    using loading_order_no_panic [OF order_resolver_inv, of plugins deps]
      loading_order_sound [OF order_resolver_inv, of plugins deps]
    unfolding eq tg pairs by (auto split: option.splits sum.splits)
qed

text \<open>A loading order is found whenever there is one: if every dependency string parses, every
  plugin names distinct dependencies among the given plugins, and no plugin depends on itself through
  others, resolution succeeds.\<close>

theorem resolve_plugin_order_complete:
  assumes "\<And>n d. n \<in> fst ` set plugins \<Longrightarrow> d \<in> set (case deps n of None \<Rightarrow> [] | Some ds \<Rightarrow> ds) \<Longrightarrow>
      \<exists>x. parse_dependency d = Ok x"
    and "\<And>n. n \<in> fst ` set plugins \<Longrightarrow>
      distinct (plugin_targets deps n) \<and> set (plugin_targets deps n) \<subseteq> fst ` set plugins"
    and "acyclic {(n, t). n \<in> fst ` set plugins \<and> t \<in> set (plugin_targets deps n)}"
  shows "\<exists>order. resolve_plugin_order plugins deps = Some (Ok order)"
proof -
  let ?r = "order_resolver plugins deps"
  have "{(n, t). t \<in> set (targets_of ?r n)} =
      {(n, t). n \<in> fst ` set plugins \<and> t \<in> set (plugin_targets deps n)}"
    by (simp add: order_resolver_facts(2) if_split_mem2 conj_commute split: if_splits)
  moreover have "\<exists>n\<in>fst ` set plugins. pm_dependencies m = (case deps n of None \<Rightarrow> [] | Some ds \<Rightarrow> ds)"
    if "m \<in> set (resolver_plugins ?r)" for m
  proof -
    from that obtain k where k: "(k, m) \<in> set (manifests ?r)" by (auto simp: resolver_plugins_def)
    then have "hm_get (manifests ?r) k = Some m"
      using order_resolver_inv [of plugins deps] by (simp add: resolver_inv_def)
    moreover have "k \<in> fst ` set plugins"
      using k order_resolver_facts(1) [of plugins deps] by force
    ultimately show ?thesis by (intro bexI [of _ k]) (auto simp: order_resolver_get)
  qed
  then have "\<exists>x. parse_dependency d = Ok x"
    if "m \<in> set (resolver_plugins ?r)" "d \<in> set (pm_dependencies m)" for m d
    using assms(1) that by metis
  ultimately have "\<exists>order. resolve_loading_order ?r = Some (Ok order)"
    by (intro loading_order_complete [OF order_resolver_inv])
      (use assms(2,3) order_resolver_facts(1,2) [of plugins deps] in simp_all)
  then show ?thesis by (simp add: resolve_plugin_order_def order_resolver_def)
qed


end
