(* ===== verification/Dep_Tree.thy ===== *)
theory Dep_Tree
  imports Dep_Graph_Props
begin

text \<open>
  The packager's analysis of dependencies, \<open>plugin-packager/src/dep_tree.rs\<close>: a graph of plugins with
  labelled edges, the detection of cycles, the tree that is shown to the user, transitive dependencies and
  shortest paths. The depth-first search is the one of \<open>Dep_Graph\<close> but for what it records, and the
  theorems carry over.

  The floating-point metrics and the export as JSON are left out.
\<close>

section \<open>Types\<close>

datatype DependencyNode = DependencyNode (dn_name: string) (dn_version: string) (dn_depth: u32)
  (dn_children: "DependencyNode list")

definition DependencyNode_new :: "string \<Rightarrow> string \<Rightarrow> u32 \<Rightarrow> DependencyNode" where
  "DependencyNode_new name version depth = DependencyNode name version depth []"

definition add_child :: "DependencyNode \<Rightarrow> DependencyNode \<Rightarrow> DependencyNode" where
  "add_child child n = DependencyNode (dn_name n) (dn_version n) (dn_depth n) (dn_children n @ [child])"

definition child_count :: "DependencyNode \<Rightarrow> nat" where
  "child_count n = length (dn_children n)"

primrec total_descendants :: "DependencyNode \<Rightarrow> nat" where
  "total_descendants (DependencyNode name version depth children) =
     length children + sum_list (map total_descendants children)"

primrec max_depth :: "DependencyNode \<Rightarrow> u32" where
  "max_depth (DependencyNode name version depth children) =
     (case map max_depth children of [] \<Rightarrow> depth | d # ds \<Rightarrow> foldl max d ds)"

record TreeEdge =
  te_from :: string
  te_to :: string
  te_version_spec :: string
  te_optional :: bool

definition TreeEdge_new :: "string \<Rightarrow> string \<Rightarrow> string \<Rightarrow> TreeEdge" where
  "TreeEdge_new from to version_spec =
     \<lparr>te_from = from, te_to = to, te_version_spec = version_spec, te_optional = False\<rparr>"

definition edge_optional :: "TreeEdge \<Rightarrow> TreeEdge" where
  "edge_optional e = e\<lparr>te_optional := True\<rparr>"

record CircularDependency =
  cd_cycle :: "string list"
  cd_path_length :: nat

definition CircularDependency_new :: "string list \<Rightarrow> CircularDependency" where
  "CircularDependency_new cycle = \<lparr>cd_cycle = cycle, cd_path_length = length cycle\<rparr>"

text \<open>The separator is an arrow between blanks.\<close>

definition cycle_as_string :: "CircularDependency \<Rightarrow> string" where
  "cycle_as_string c = join (bytes [32, 226, 134, 146, 32]) (cd_cycle c)"

record TreeGraph =
  tg_root :: string
  tg_root_version :: string
  tg_edges :: "TreeEdge list"
  tg_nodes :: "(string, string) hashmap"

definition TreeGraph_new :: "string \<Rightarrow> string \<Rightarrow> TreeGraph" where
  "TreeGraph_new root_name root_version = \<lparr>tg_root = root_name, tg_root_version = root_version,
     tg_edges = [], tg_nodes = [(root_name, root_version)]\<rparr>"

definition add_dependency :: "TreeEdge \<Rightarrow> TreeGraph \<Rightarrow> TreeGraph" where
  "add_dependency e g =
     g\<lparr>tg_nodes := (if hm_get (tg_nodes g) (te_to e) = None
                    then hm_insert (te_to e) (te_version_spec e) (tg_nodes g) else tg_nodes g),
       tg_edges := tg_edges g @ [e]\<rparr>"

definition direct_dependencies :: "TreeGraph \<Rightarrow> string \<Rightarrow> string list" where
  "direct_dependencies g n = map te_to (filter (\<lambda>e. te_from e = n) (tg_edges g))"

definition sources :: "TreeGraph \<Rightarrow> string set" where
  "sources g = te_from ` set (tg_edges g)"

lemma finite_sources [simp]: "finite (sources g)"
  by (simp add: sources_def)

lemma no_source: "n \<notin> sources g \<Longrightarrow> direct_dependencies g n = []"
  by (auto simp: sources_def direct_dependencies_def filter_empty_conv)

section \<open>Cycles\<close>

text \<open>The state is that of \<open>Dep_Graph\<close>; \<open>cycles\<close> holds the paths that become \<open>CircularDependency\<close> values. A path
  that starts and ends with the same node is not recorded.\<close>

definition record_circular :: "string \<Rightarrow> dfs_state \<Rightarrow> dfs_state" where
  "record_circular neighbor st =
     (if neighbor \<in> set (path st)
      then (let cycle = dropWhile (\<lambda>p. p \<noteq> neighbor) (path st)
            in if cycle \<noteq> [] \<and> hd cycle \<noteq> last cycle then st\<lparr>cycles := cycles st @ [cycle @ [neighbor]]\<rparr> else st)
      else st)"

function dfs_neighbors :: "TreeGraph \<Rightarrow> string list \<Rightarrow> dfs_state \<Rightarrow> dfs_state" where
  "dfs_neighbors g [] st = st"
| "dfs_neighbors g (n # ns) st =
     dfs_neighbors g ns
       (if n \<notin> visited st then dfs_leave n (dfs_neighbors g (direct_dependencies g n) (dfs_enter n st))
        else if n \<in> rec_stack st then record_circular n st
        else st)"
  by pat_completeness auto

lemma visited_record_circular [simp]: "visited (record_circular n st) = visited st"
  by (simp add: record_circular_def Let_def)

lemma dfs_neighbors_visited_dom: "dfs_neighbors_dom (g, ns, st) \<Longrightarrow> visited st \<subseteq> visited (dfs_neighbors g ns st)"
proof (induction g ns st rule: dfs_neighbors.pinduct)
  case (2 g n ns st)
  let ?st = "if n \<notin> visited st then dfs_leave n (dfs_neighbors g (direct_dependencies g n) (dfs_enter n st))
        else if n \<in> rec_stack st then record_circular n st else st"
  have "visited st \<subseteq> visited ?st" using "2.IH"(1) by auto
  also have "\<dots> \<subseteq> visited (dfs_neighbors g ns ?st)" by (rule "2.IH"(2))
  finally show ?case by (simp only: dfs_neighbors.psimps(2) [OF "2.hyps"])
qed (simp add: dfs_neighbors.psimps)

termination dfs_neighbors
proof (relation "inv_image (finite_psubset <*lex*> less_than) (\<lambda>(g, ns, st). (sources g - visited st, length ns))",
    goal_cases)
  case (2 g n ns st)
  then show ?case by (cases "n \<in> sources g") (auto simp: finite_psubset_def no_source)
next
  case (3 g n ns st)
  then show ?case
    using dfs_neighbors_visited_dom [of g "direct_dependencies g n" "dfs_enter n st"] by (auto simp: finite_psubset_def)
qed auto

definition dfs_cycle_detection :: "TreeGraph \<Rightarrow> string \<Rightarrow> dfs_state \<Rightarrow> dfs_state" where
  "dfs_cycle_detection g n st = dfs_leave n (dfs_neighbors g (direct_dependencies g n) (dfs_enter n st))"

definition detect_circular_dependencies :: "TreeGraph \<Rightarrow> CircularDependency list" where
  "detect_circular_dependencies g =
     map CircularDependency_new (cycles (foldl
       (\<lambda>st n. if n \<notin> visited st then dfs_cycle_detection g n st else st) dfs_init (hm_keys (tg_nodes g))))"

section \<open>The tree\<close>

definition version_of :: "TreeGraph \<Rightarrow> string \<Rightarrow> string" where
  "version_of g n = (case hm_get (tg_nodes g) n of None \<Rightarrow> ''unknown'' | Some v \<Rightarrow> v)"

text \<open>The children for a list of neighbours, from left to right, with the set of visited nodes: a node that was
  visited before becomes a leaf.\<close>

function build_children :: "TreeGraph \<Rightarrow> string list \<Rightarrow> u32 \<Rightarrow> string set \<Rightarrow> DependencyNode list \<times> string set" where
  "build_children g [] depth seen = ([], seen)"
| "build_children g (n # ns) depth seen =
     (let (children, seen') = (if n \<in> seen then ([], seen)
             else build_children g (direct_dependencies g n) (depth + 1) (insert n seen));
          (rest, seen'') = build_children g ns depth seen'
      in (DependencyNode n (version_of g n) depth children # rest, seen''))"
  by pat_completeness auto

lemma build_children_seen_dom: "build_children_dom (g, ns, depth, seen) \<Longrightarrow> seen \<subseteq> snd (build_children g ns depth seen)"
proof (induction g ns depth seen rule: build_children.pinduct)
  case (2 g n ns depth seen)
  obtain cs seen' where cs: "(if n \<in> seen then ([], seen)
      else build_children g (direct_dependencies g n) (depth + 1) (insert n seen)) = (cs, seen')" by fastforce
  have "seen \<subseteq> seen'" using "2.IH"(1) cs by (auto split: if_splits)
  also have "\<dots> \<subseteq> snd (build_children g ns depth seen')" using "2.IH"(2) [OF cs [symmetric] refl] .
  finally show ?case using cs
    by (cases "build_children g ns depth seen'") (simp add: build_children.psimps(2) [OF "2.hyps"])
qed (simp add: build_children.psimps)

termination build_children
proof (relation "inv_image (finite_psubset <*lex*> less_than) (\<lambda>(g, ns, depth, seen). (sources g - seen, length ns))",
    goal_cases)
  case (2 g n ns depth seen)
  then show ?case by (cases "n \<in> sources g") (auto simp: finite_psubset_def no_source)
next
  case (3 g n ns depth seen p children seen')
  then have "seen' = (if n \<in> seen then seen else snd (build_children g (direct_dependencies g n) (depth + 1) (insert n seen)))"
    by (metis snd_conv)
  then have "seen \<subseteq> seen'"
    using build_children_seen_dom [of g "direct_dependencies g n" "depth + 1" "insert n seen"] 3(3) by auto
  then show ?case by (auto simp: finite_psubset_def)
qed auto

definition build_tree :: "TreeGraph \<Rightarrow> DependencyNode" where
  "build_tree g = DependencyNode (tg_root g) (version_of g (tg_root g)) 0
     (fst (build_children g (direct_dependencies g (tg_root g)) 1 {tg_root g}))"

primrec find_node_depth :: "string \<Rightarrow> DependencyNode \<Rightarrow> u32 option" where
  "find_node_depth target (DependencyNode name version depth children) =
     (if name = target then Some depth
      else (case filter (\<lambda>d. d \<noteq> None) (map (find_node_depth target) children) of [] \<Rightarrow> None | d # _ \<Rightarrow> d))"

definition node_depth :: "TreeGraph \<Rightarrow> string \<Rightarrow> u32 option" where
  "node_depth g n = find_node_depth n (build_tree g)"

text \<open>The exact metrics.\<close>

record DependencyMetrics =
  dm_total_nodes :: nat
  dm_total_edges :: nat
  dm_max_depth :: u32
  dm_circular_dependencies :: nat
  dm_optional_dependencies :: nat

definition calculate_metrics :: "TreeGraph \<Rightarrow> DependencyMetrics" where
  "calculate_metrics g = \<lparr>dm_total_nodes = length (tg_nodes g), dm_total_edges = length (tg_edges g),
     dm_max_depth = max_depth (build_tree g),
     dm_circular_dependencies = length (detect_circular_dependencies g),
     dm_optional_dependencies = length (filter te_optional (tg_edges g))\<rparr>"

definition newline :: string where
  "newline = [CHR 0x0A]"

definition dquoted :: "string \<Rightarrow> string" where
  "dquoted s = [CHR 0x22] @ s @ [CHR 0x22]"

definition to_dot :: "TreeGraph \<Rightarrow> string" where
  "to_dot g = ''digraph dependencies {'' @ newline @ ''  rankdir=LR;'' @ newline @ ''  node [shape=box];'' @ newline @ newline
     @ concat (map (\<lambda>(name, version). ''  '' @ dquoted name @ '' [label='' @ dquoted (name @ [CHR 0x5C] @ ''n('' @ version @ '')'')
         @ ''];'' @ newline) (tg_nodes g))
     @ newline
     @ concat (map (\<lambda>e. ''  '' @ dquoted (te_from e) @ '' -> '' @ dquoted (te_to e) @ '' [style=''
         @ dquoted (if te_optional e then ''dashed'' else ''solid'') @ '', label='' @ dquoted (te_version_spec e)
         @ ''];'' @ newline) (tg_edges g))
     @ ''}'' @ newline"

section \<open>Searching in breadth\<close>

text \<open>\<open>transitive_dependencies\<close>: the loop over the queue. Targets with an empty name are skipped.\<close>

function transitive_loop :: "TreeGraph \<Rightarrow> string list \<Rightarrow> string set \<Rightarrow> string set \<Rightarrow> string set" where
  "transitive_loop g [] seen result = result"
| "transitive_loop g (current # queue) seen result =
     (if current \<in> seen then transitive_loop g queue seen result
      else (let new = filter (\<lambda>n. n \<noteq> []) (direct_dependencies g current)
            in transitive_loop g (queue @ new) (insert current seen) (result \<union> set new)))"
  by pat_completeness auto
termination
proof (relation "inv_image (finite_psubset <*lex*> less_than) (\<lambda>(g, queue, seen, result). (sources g - seen, length queue))",
    goal_cases)
  case (3 g current queue seen result)
  then show ?case by (cases "current \<in> sources g") (auto simp: finite_psubset_def no_source)
qed auto

definition tree_transitive_dependencies :: "TreeGraph \<Rightarrow> string \<Rightarrow> string set" where
  "tree_transitive_dependencies g n = transitive_loop g [n] {} {}"

text \<open>\<open>shortest_path\<close>: the visit of the neighbours of a node.\<close>

fun visit_neighbors :: "string \<Rightarrow> string list \<Rightarrow> string list \<Rightarrow> string set \<Rightarrow> (string \<rightharpoonup> string)
    \<Rightarrow> string list \<times> string set \<times> (string \<rightharpoonup> string)" where
  "visit_neighbors current [] queue seen parent = (queue, seen, parent)"
| "visit_neighbors current (n # ns) queue seen parent =
     (if n \<in> seen then visit_neighbors current ns queue seen parent
      else visit_neighbors current ns (queue @ [n]) (insert n seen) (parent(n \<mapsto> current)))"

text \<open>The neighbours that are new, in the order in which they are found.\<close>

fun fresh :: "string set \<Rightarrow> string list \<Rightarrow> string list" where
  "fresh seen [] = []"
| "fresh seen (n # ns) = (if n \<in> seen then fresh seen ns else n # fresh (insert n seen) ns)"

lemma visit_neighbors_eq:
  "visit_neighbors current ns queue seen parent =
     (queue @ fresh seen ns, seen \<union> set ns, \<lambda>x. if x \<in> set ns - seen then Some current else parent x)"
proof (induction current ns queue seen parent rule: visit_neighbors.induct)
  case (2 current n ns queue seen parent)
  let ?new = "\<lambda>ns seen parent x. if x \<in> set ns - seen then Some current else parent x"
  show ?case
  proof (cases "n \<in> seen")
    case True
    then have "?new ns seen parent = ?new (n # ns) seen parent" by (auto simp: fun_eq_iff)
    then show ?thesis using 2(1) [OF True] True by (simp add: insert_absorb)
  next
    case False
    then have "?new ns (insert n seen) (parent(n \<mapsto> current)) = ?new (n # ns) seen parent" by (auto simp: fun_eq_iff)
    then show ?thesis using 2(2) [OF False] False by (simp add: fun_upd_def)
  qed
qed simp

lemma set_fresh: "set (fresh seen ns) = set ns - seen"
  by (induction seen ns rule: fresh.induct) auto

lemma distinct_fresh: "distinct (fresh seen ns)"
  by (induction seen ns rule: fresh.induct) (auto simp: set_fresh)

text \<open>The way back along the parents; \<open>None\<close> stands for a loop that does not end.\<close>

partial_function (option) walk_back :: "(string \<rightharpoonup> string) \<Rightarrow> string \<Rightarrow> string list \<Rightarrow> string list option" where
  "walk_back parent current acc =
     (case parent current of None \<Rightarrow> Some acc | Some p \<Rightarrow> walk_back parent p (acc @ [p]))"

text \<open>The loop over the queue: \<open>Some None\<close> is the answer that there is no path.\<close>

function path_loop :: "TreeGraph \<Rightarrow> string \<Rightarrow> string list \<Rightarrow> string set \<Rightarrow> (string \<rightharpoonup> string) \<Rightarrow> string list option option" where
  "path_loop g to [] seen parent = Some None"
| "path_loop g to (current # queue) seen parent =
     (if current = to then map_option (\<lambda>p. Some (rev p)) (walk_back parent to [to])
      else (case visit_neighbors current (direct_dependencies g current) queue seen parent of
              (queue', seen', parent') \<Rightarrow> path_loop g to queue' seen' parent'))"
  by pat_completeness auto
termination
proof (relation "inv_image (finite_psubset <*lex*> less_than)
    (\<lambda>(g, to, queue, seen, parent). (te_to ` set (tg_edges g) - seen, length queue))", goal_cases)
  case (2 g to current queue seen parent queue' q seen' parent')
  let ?ns = "direct_dependencies g current"
  have eq: "queue' = queue @ fresh seen ?ns" "seen' = seen \<union> set ?ns" using 2 by (auto simp: visit_neighbors_eq)
  have sub: "set ?ns \<subseteq> te_to ` set (tg_edges g)" by (auto simp: direct_dependencies_def)
  show ?case
  proof (cases "set ?ns \<subseteq> seen")
    case True
    then have "fresh seen ?ns = []" using set_fresh [of seen ?ns] by (metis Diff_eq_empty_iff set_empty)
    then show ?thesis using True eq by (auto simp: Un_absorb2)
  next
    case False
    then show ?thesis using sub by (auto simp: eq finite_psubset_def)
  qed
qed auto

definition shortest_path :: "TreeGraph \<Rightarrow> string \<Rightarrow> string \<Rightarrow> string list option option" where
  "shortest_path g from to =
     (if from = to then Some (Some [from]) else path_loop g to [from] {from} (\<lambda>_. None))"

section \<open>Reachability\<close>

definition tree_rel :: "TreeGraph \<Rightarrow> (string \<times> string) set" where
  "tree_rel g = {(a, b). b \<in> set (direct_dependencies g a)}"

definition named_rel :: "TreeGraph \<Rightarrow> (string \<times> string) set" where
  "named_rel g = {(a, b). (a, b) \<in> tree_rel g \<and> b \<noteq> []}"

lemma transitive_loop_eq:
  assumes "result = named_rel g `` seen" and "named_rel g `` seen \<subseteq> seen \<union> set queue"
  shows "transitive_loop g queue seen result = named_rel g `` (seen \<union> (named_rel g)\<^sup>* `` set queue)"
  using assms
proof (induction g queue seen result rule: transitive_loop.induct)
  case (2 g n queue seen result)
  let ?R = "named_rel g"
  define new where "new = filter (\<lambda>m. m \<noteq> []) (direct_dependencies g n)"
  have new: "set new = ?R `` {n}" by (auto simp: new_def named_rel_def tree_rel_def)
  have closed: "?R\<^sup>* `` (S \<union> ?R\<^sup>* `` T) = S \<union> ?R\<^sup>* `` T" if "?R `` S \<subseteq> S \<union> T" for S T
    using that by (intro rtrancl_Image_closed) (auto intro: rtrancl_into_rtrancl)
  show ?case
  proof (cases "n \<in> seen")
    case True
    then have "?R `` seen \<subseteq> seen \<union> set queue" using "2.prems"(2) by auto
    moreover have "?R\<^sup>* `` {n} \<subseteq> seen \<union> ?R\<^sup>* `` set queue"
      using closed [OF calculation] True by blast
    then have "seen \<union> ?R\<^sup>* `` set (n # queue) = seen \<union> ?R\<^sup>* `` set queue" by auto
    ultimately show ?thesis using "2.IH"(1) [OF True "2.prems"(1)] True by simp
  next
    case False
    have eq: "insert n seen \<union> ?R\<^sup>* `` set (queue @ new) = seen \<union> ?R\<^sup>* `` set (n # queue)"
    proof -
      have "?R\<^sup>* `` {n} = insert n (?R\<^sup>* `` (?R `` {n}))"
        by (auto simp: Image_def rtrancl.rtrancl_refl intro: converse_rtrancl_into_rtrancl elim: converse_rtranclE)
      then show ?thesis using new by (auto simp: Image_Un)
    qed
    have "transitive_loop g (n # queue) seen result = transitive_loop g (queue @ new) (insert n seen) (result \<union> set new)"
      using False by (simp add: new_def Let_def)
    also have "\<dots> = ?R `` (insert n seen \<union> ?R\<^sup>* `` set (queue @ new))"
      using "2.prems" new by (intro "2.IH"(2) [OF False new_def]) auto
    finally show ?thesis by (simp only: eq)
  qed
qed auto

lemma transitive_dependencies_eq: "tree_transitive_dependencies g n = (named_rel g)\<^sup>+ `` {n}"
  unfolding tree_transitive_dependencies_def
  by (subst transitive_loop_eq) (auto simp: trancl_unfold_right)

section \<open>Shortest paths\<close>

definition is_path :: "TreeGraph \<Rightarrow> string \<Rightarrow> string \<Rightarrow> string list \<Rightarrow> bool" where
  "is_path g a b p \<longleftrightarrow> p \<noteq> [] \<and> hd p = a \<and> last p = b \<and> successively (\<lambda>x y. (x, y) \<in> tree_rel g) p"

definition bfs_inv :: "TreeGraph \<Rightarrow> string \<Rightarrow> string \<Rightarrow> string list \<Rightarrow> string set \<Rightarrow> (string \<rightharpoonup> string) \<Rightarrow> (string \<Rightarrow> nat) \<Rightarrow> bool" where
  "bfs_inv g from to queue seen parent d \<longleftrightarrow>
     from \<in> seen \<and> d from = 0 \<and> parent from = None
   \<and> (\<forall>v\<in>seen - {from}. \<exists>u\<in>seen. parent v = Some u \<and> (u, v) \<in> tree_rel g \<and> d v = Suc (d u))
   \<and> set queue \<subseteq> seen \<and> distinct queue
   \<and> (\<forall>u\<in>seen - set queue. \<forall>v. (u, v) \<in> tree_rel g \<longrightarrow> v \<in> seen \<and> d v \<le> Suc (d u))
   \<and> sorted (map d queue) \<and> (\<forall>q\<in>set queue. d q \<le> Suc (d (hd queue)))
   \<and> (\<forall>u\<in>seen - set queue. \<forall>q\<in>set queue. d u \<le> d q)
   \<and> to \<notin> seen - set queue"

lemma bfs_invD:
  assumes "bfs_inv g from to queue seen parent d"
  shows "from \<in> seen" "d from = 0" "parent from = None"
    and "v \<in> seen \<Longrightarrow> v \<noteq> from \<Longrightarrow> \<exists>u\<in>seen. parent v = Some u \<and> (u, v) \<in> tree_rel g \<and> d v = Suc (d u)"
    and "set queue \<subseteq> seen" "distinct queue"
    and "u \<in> seen \<Longrightarrow> u \<notin> set queue \<Longrightarrow> (u, v) \<in> tree_rel g \<Longrightarrow> v \<in> seen \<and> d v \<le> Suc (d u)"
    and "sorted (map d queue)" "q \<in> set queue \<Longrightarrow> d q \<le> Suc (d (hd queue))"
    and "u \<in> seen \<Longrightarrow> u \<notin> set queue \<Longrightarrow> q \<in> set queue \<Longrightarrow> d u \<le> d q"
    and "to \<in> seen \<Longrightarrow> to \<in> set queue"
  using assms unfolding bfs_inv_def by simp_all

lemma bfs_inv_init: "from \<noteq> to \<Longrightarrow> bfs_inv g from to [from] {from} (\<lambda>_. None) (\<lambda>_. 0)"
  by (simp add: bfs_inv_def)

lemma bfs_inv_step:
  assumes inv: "bfs_inv g from to (c # queue) seen parent d" and "c \<noteq> to"
  defines "ns \<equiv> direct_dependencies g c"
  shows "bfs_inv g from to (queue @ fresh seen ns) (seen \<union> set ns)
    (\<lambda>x. if x \<in> set ns - seen then Some c else parent x) (\<lambda>x. if x \<in> set ns - seen then Suc (d c) else d x)"
proof -
  define d' where "d' x = (if x \<in> set ns - seen then Suc (d c) else d x)" for x
  define parent' where "parent' x = (if x \<in> set ns - seen then Some c else parent x)" for x
  note old = bfs_invD(1-3) [OF inv] and par = bfs_invD(4) [OF inv] and done_ = bfs_invD(7) [OF inv]
    and before = bfs_invD(10) [OF inv]
  have c: "c \<in> seen" and q: "set queue \<subseteq> seen" "c \<notin> set queue" "distinct queue" using bfs_invD(5,6) [OF inv] by auto
  have near: "d x \<le> Suc (d c)" if "x \<in> set queue" for x using bfs_invD(9) [OF inv, of x] that by simp
  have srt: "sorted (map d queue)" and ge_c: "\<And>x. x \<in> set queue \<Longrightarrow> d c \<le> d x" using bfs_invD(8) [OF inv] by auto
  have d'_old: "d' x = d x" if "x \<in> seen" for x using that by (simp add: d'_def)
  have d'_new: "d' x = Suc (d c)" if "x \<in> set ns - seen" for x using that by (simp add: d'_def)
  have le_c: "d v \<le> Suc (d c)" if "v \<in> seen" for v
    using that near [of v] before [of v c] by (cases "v \<in> set (c # queue)") auto
  have rel: "(c, v) \<in> tree_rel g \<longleftrightarrow> v \<in> set ns" for v by (simp add: tree_rel_def ns_def)
  have queue': "set (queue @ fresh seen ns) = set queue \<union> (set ns - seen)" by (simp add: set_fresh)
  have "bfs_inv g from to (queue @ fresh seen ns) (seen \<union> set ns) parent' d'"
    unfolding bfs_inv_def queue'
  proof (intro conjI ballI allI impI)
    show "from \<in> seen \<union> set ns" "d' from = 0" "parent' from = None" using old by (auto simp: d'_def parent'_def)
    show "set queue \<union> (set ns - seen) \<subseteq> seen \<union> set ns" using q by auto
    show "distinct (queue @ fresh seen ns)" using q by (auto simp: distinct_fresh set_fresh)
    show "to \<notin> seen \<union> set ns - (set queue \<union> (set ns - seen))" using bfs_invD(11) [OF inv] \<open>c \<noteq> to\<close> by auto
  next
    fix v assume v: "v \<in> seen \<union> set ns - {from}"
    show "\<exists>u\<in>seen \<union> set ns. parent' v = Some u \<and> (u, v) \<in> tree_rel g \<and> d' v = Suc (d' u)"
    proof (cases "v \<in> seen")
      case True
      with v par [of v] obtain u where "u \<in> seen" "parent v = Some u" "(u, v) \<in> tree_rel g" "d v = Suc (d u)" by auto
      then show ?thesis using True by (intro bexI [of _ u]) (auto simp: d'_old parent'_def)
    next
      case False
      then show ?thesis using v c by (intro bexI [of _ c]) (auto simp: d'_old d'_new parent'_def rel)
    qed
  next
    fix u v assume u: "u \<in> seen \<union> set ns - (set queue \<union> (set ns - seen))" and uv: "(u, v) \<in> tree_rel g"
    then have u: "u \<in> seen" "u \<notin> set queue" by auto
    have "v \<in> seen \<union> set ns \<and> d' v \<le> Suc (d' u)"
    proof (cases "u = c")
      case True
      then show ?thesis using uv le_c [of v] c by (cases "v \<in> seen") (auto simp: rel d'_old d'_new)
    next
      case False
      then show ?thesis using done_ [of u v] u uv by (simp add: d'_old)
    qed
    then show "v \<in> seen \<union> set ns" "d' v \<le> Suc (d' u)" by simp_all
  next
    have "map d' queue = map d queue" "map d' (fresh seen ns) = map (\<lambda>_. Suc (d c)) (fresh seen ns)"
      using q by (auto simp: d'_old subset_iff d'_new set_fresh)
    then have "map d' (queue @ fresh seen ns) = map d queue @ replicate (length (fresh seen ns)) (Suc (d c))"
      by (simp only: map_append map_replicate_const)
    then show "sorted (map d' (queue @ fresh seen ns))"
      using srt near by (simp only: sorted_append) (auto simp: sorted_append)
  next
    fix x assume x: "x \<in> set queue \<union> (set ns - seen)"
    let ?h = "hd (queue @ fresh seen ns)"
    have "?h \<in> set queue \<union> (set ns - seen)" using x queue' by (metis empty_iff hd_in_set list.set(1))
    then have "d c \<le> d' ?h" using ge_c q by (auto simp: d'_old d'_new subset_iff)
    moreover have "d' x \<le> Suc (d c)" using near q x by (auto simp: d'_old d'_new subset_iff)
    ultimately show "d' x \<le> Suc (d' ?h)" by linarith
  next
    fix u x assume u: "u \<in> seen \<union> set ns - (set queue \<union> (set ns - seen))" and x: "x \<in> set queue \<union> (set ns - seen)"
    then have "u \<in> seen" "u \<notin> set queue" by auto
    then have "d u \<le> d c" using before [of u c] by (cases "u = c") auto
    moreover have "d c \<le> d' x" using ge_c q x by (auto simp: d'_old d'_new subset_iff)
    ultimately show "d' u \<le> d' x" using \<open>u \<in> seen\<close> by (simp add: d'_old)
  qed
  then show ?thesis unfolding d'_def parent'_def .
qed

lemma is_path_snoc: "is_path g a b p \<Longrightarrow> (b, c) \<in> tree_rel g \<Longrightarrow> is_path g a c (p @ [c])"
  by (auto simp: is_path_def successively_append_iff)

lemma walk_back_path:
  assumes inv: "bfs_inv g from to queue seen parent d"
  shows "v \<in> seen \<Longrightarrow> \<exists>p. walk_back parent v acc = Some (acc @ p) \<and> length p = d v \<and> is_path g from v (rev (v # p))"
proof (induction "d v" arbitrary: v acc)
  case 0
  then have "v = from" using bfs_invD(4) [OF inv, of v] by force
  then show ?case using bfs_invD(2,3) [OF inv] by (subst walk_back.simps) (auto simp: is_path_def)
next
  case (Suc k)
  then have "v \<noteq> from" using bfs_invD(2) [OF inv] by auto
  with Suc.prems bfs_invD(4) [OF inv] obtain u where u: "u \<in> seen" "parent v = Some u" "(u, v) \<in> tree_rel g" "d v = Suc (d u)"
    by blast
  with Suc.hyps(1) [of u "acc @ [u]"] Suc.hyps(2) obtain p where
    p: "walk_back parent u (acc @ [u]) = Some ((acc @ [u]) @ p)" "length p = d u" "is_path g from u (rev (u # p))" by auto
  have "walk_back parent v acc = Some (acc @ u # p)" using u(2) p(1) by (subst walk_back.simps) simp
  moreover have "is_path g from v (rev (v # u # p))"
    using is_path_snoc [OF p(3) u(3)] by simp
  ultimately show ?case using p(2) u(4) by (intro exI [of _ "u # p"]) simp
qed

lemma bfs_minimal:
  assumes inv: "bfs_inv g from to (to # queue) seen parent d" and "is_path g from to q"
  shows "Suc (d to) \<le> length q"
proof (rule ccontr)
  assume "\<not> Suc (d to) \<le> length q"
  then have short: "length q \<le> d to" by simp
  have ge: "d to \<le> d x" if "x \<in> set (to # queue)" for x using bfs_invD(8) [OF inv] that by auto
  have q: "q \<noteq> []" "hd q = from" "last q = to" and step: "\<And>i. Suc i < length q \<Longrightarrow> (q ! i, q ! Suc i) \<in> tree_rel g"
    using assms(2) by (auto simp: is_path_def successively_conv_nth)
  have "i < length q \<Longrightarrow> q ! i \<in> seen \<and> d (q ! i) \<le> i" for i
  proof (induction i)
    case 0
    then show ?case using q bfs_invD(1,2) [OF inv] by (simp add: hd_conv_nth [symmetric])
  next
    case (Suc i)
    then have i: "q ! i \<in> seen" "d (q ! i) \<le> i" by auto
    then have "d (q ! i) < d to" using Suc.prems short by linarith
    then have "q ! i \<notin> set (to # queue)" using ge [of "q ! i"] by auto
    then show ?case using bfs_invD(7) [OF inv i(1) _ step [OF Suc.prems]] i(2) by auto
  qed
  from this [of "length q - 1"] have "d (last q) \<le> length q - 1" using q(1) by (simp add: last_conv_nth)
  then show False using q short by (cases q) auto
qed

lemma path_reaches: "is_path g a b p \<Longrightarrow> (a, b) \<in> (tree_rel g)\<^sup>*"
  using successively_trancl [of "tree_rel g" p] by (auto simp: is_path_def)

lemma path_loop_correct:
  "bfs_inv g from to queue seen parent d \<Longrightarrow> case path_loop g to queue seen parent of
     None \<Rightarrow> False
   | Some None \<Rightarrow> (from, to) \<notin> (tree_rel g)\<^sup>*
   | Some (Some p) \<Rightarrow> is_path g from to p \<and> (\<forall>q. is_path g from to q \<longrightarrow> length p \<le> length q)"
proof (induction g to queue seen parent arbitrary: d rule: path_loop.induct)
  case (1 g to seen parent)
  have "v \<in> seen" if "(from, v) \<in> (tree_rel g)\<^sup>*" for v
    using that bfs_invD(7) [OF 1, simplified] by (induction rule: rtrancl_induct) (auto simp: bfs_invD(1) [OF 1])
  then show ?case using bfs_invD(11) [OF 1] by auto
next
  case (2 g to c queue seen parent)
  show ?case
  proof (cases "c = to")
    case True
    have inv: "bfs_inv g from to (to # queue) seen parent d" using "2.prems" True by simp
    then have "to \<in> seen" using bfs_invD(5) [OF inv] by simp
    from walk_back_path [OF inv this, of "[to]"] obtain p where
      "walk_back parent to [to] = Some ([to] @ p)" "length p = d to" "is_path g from to (rev (to # p))" by blast
    then show ?thesis using True bfs_minimal [OF inv] by simp
  next
    case False
    from "2.IH" [OF False visit_neighbors_eq [symmetric] refl, OF bfs_inv_step [OF "2.prems" False]]
    show ?thesis using False by (simp add: visit_neighbors_eq)
  qed
qed

text \<open>(C16) The search for a shortest path ends; it finds a path exactly if there is one, and none is shorter.\<close>

theorem shortest_path_correct:
  "case shortest_path g a b of
     None \<Rightarrow> False
   | Some None \<Rightarrow> (a, b) \<notin> (tree_rel g)\<^sup>*
   | Some (Some p) \<Rightarrow> is_path g a b p \<and> (\<forall>q. is_path g a b q \<longrightarrow> length p \<le> length q)"
proof (cases "a = b")
  case True
  then show ?thesis by (auto simp: shortest_path_def is_path_def Suc_le_eq)
next
  case False
  then show ?thesis using path_loop_correct [OF bfs_inv_init [OF False]] by (simp add: shortest_path_def)
qed

theorem shortest_path_correct_witness:
  "shortest_path \<lparr>tg_root = ''a'', tg_root_version = [], tg_edges = [TreeEdge_new ''a'' ''b'' [], TreeEdge_new ''b'' ''c'' [],
       TreeEdge_new ''a'' ''c'' []], tg_nodes = []\<rparr> ''a'' ''c'' = Some (Some [''a'', ''c''])
   \<and> is_path \<lparr>tg_root = ''a'', tg_root_version = [], tg_edges = [TreeEdge_new ''a'' ''b'' [], TreeEdge_new ''b'' ''c'' [],
       TreeEdge_new ''a'' ''c'' []], tg_nodes = []\<rparr> ''a'' ''c'' [''a'', ''c'']"
  (is "?p = _ \<and> ?q")
proof -
  have "?p = Some (Some [''a'', ''c''])"
    by (simp add: shortest_path_def direct_dependencies_def TreeEdge_new_def walk_back.simps)
  then show ?thesis
    using shortest_path_correct [where g = "\<lparr>tg_root = ''a'', tg_root_version = [], tg_edges = [TreeEdge_new ''a'' ''b'' [],
       TreeEdge_new ''b'' ''c'' [], TreeEdge_new ''a'' ''c'' []], tg_nodes = []\<rparr>" and a = "''a''" and b = "''c''"] by simp
qed

section \<open>Cycles\<close>

text \<open>The graph without the edges from a node to itself, as a graph of \<open>Dep_Graph\<close>.\<close>

definition loop_free :: "Version \<Rightarrow> VersionReq \<Rightarrow> TreeGraph \<Rightarrow> DependencyGraph" where
  "loop_free v r g = \<lparr>nodes = map (\<lambda>(k, _). (k, with_dependencies
       (map (\<lambda>n. Dependency_new n r) (filter (\<lambda>n. n \<noteq> k) (direct_dependencies g k))) (PluginNode_new k v))) (tg_nodes g),
     edges = [], dependents = []\<rparr>"

lemma map_of_keyed: "map_of (map (\<lambda>(k, x). (k, f k)) xs) k = (if k \<in> fst ` set xs then Some (f k) else None)"
  by (induction xs) auto

lemma dep_names_loop_free:
  "dep_names (loop_free v r g) k = (if k \<in> set (hm_keys (tg_nodes g)) then filter (\<lambda>n. n \<noteq> k) (direct_dependencies g k) else [])"
  by (simp add: dep_names_def dependencies_of_def loop_free_def map_of_keyed with_dependencies_def PluginNode_new_def
      Dependency_new_def comp_def)

lemma keys_loop_free: "hm_keys (nodes (loop_free v r g)) = hm_keys (tg_nodes g)"
  by (auto simp: loop_free_def)

text \<open>Every target is a node.\<close>

definition tree_closed :: "TreeGraph \<Rightarrow> bool" where
  "tree_closed g \<longleftrightarrow> te_to ` set (tg_edges g) \<subseteq> set (hm_keys (tg_nodes g))"

lemma direct_closed: "tree_closed g \<Longrightarrow> set (direct_dependencies g n) \<subseteq> set (hm_keys (tg_nodes g))"
  by (auto simp: tree_closed_def direct_dependencies_def)

definition build_graph_tree :: "string \<Rightarrow> string \<Rightarrow> TreeEdge list \<Rightarrow> TreeGraph" where
  "build_graph_tree root version es = foldl (\<lambda>g e. add_dependency e g) (TreeGraph_new root version) es"

lemma add_dependency_keys: "set (hm_keys (tg_nodes (add_dependency e g))) = insert (te_to e) (set (hm_keys (tg_nodes g)))"
proof (cases "hm_get (tg_nodes g) (te_to e)")
  case None
  then show ?thesis by (simp add: add_dependency_def update_conv' dom_map_of_conv_image_fst [symmetric])
next
  case (Some v)
  then have "te_to e \<in> fst ` set (tg_nodes g)" by (metis dom_map_of_conv_image_fst domI)
  then show ?thesis using Some by (auto simp: add_dependency_def)
qed

lemma build_closed: "tree_closed (build_graph_tree root version es)"
proof (induction es rule: rev_induct)
  case (snoc e es)
  have "tg_edges (add_dependency e g) = tg_edges g @ [e]" for g by (simp add: add_dependency_def)
  then show ?case using snoc by (auto simp: build_graph_tree_def tree_closed_def add_dependency_keys simp del: set_map)
qed (simp add: build_graph_tree_def tree_closed_def TreeGraph_new_def)

definition lift :: "dfs_state \<Rightarrow> dfs_state" where
  "lift st = st\<lparr>cycles := map (\<lambda>c. c @ [hd c]) (cycles st)\<rparr>"

lemma lift_fields [simp]:
  "visited (lift st) = visited st" "rec_stack (lift st) = rec_stack st" "path (lift st) = path st"
  "cycles (lift st) = map (\<lambda>c. c @ [hd c]) (cycles st)"
  "dfs_enter n (lift st) = lift (dfs_enter n st)" "dfs_leave n (lift st) = lift (dfs_leave n st)"
  by (simp_all add: lift_def dfs_enter_def dfs_leave_def)

lemma record_circular_lift:
  assumes "n \<in> set (path st)"
  shows "record_circular n (lift st) = (if n = last (path st) then lift st else lift (dfs_record_cycle n st))"
proof -
  let ?c = "dropWhile (\<lambda>p. p \<noteq> n) (path st)"
  have ne: "?c \<noteq> []" using assms by (auto simp: dropWhile_eq_Nil_conv)
  have "hd ?c = n" using hd_dropWhile [of "\<lambda>p. p \<noteq> n" "path st"] ne by blast
  moreover have "last ?c = last (path st)" using ne by (metis last_appendR takeWhile_dropWhile_id)
  ultimately show ?thesis
    using assms ne by (auto simp: record_circular_def dfs_record_cycle_def Let_def lift_def)
qed

lemma dfs_sim:
  assumes closed: "tree_closed g" and G: "G = loop_free v r g"
  shows "s = lift st \<Longrightarrow> dfs_inv G st \<Longrightarrow> set ns \<subseteq> set (hm_keys (tg_nodes g)) \<Longrightarrow>
    (path st \<noteq> [] \<Longrightarrow> set ns \<subseteq> set (direct_dependencies g (last (path st))) \<and> last (path st) \<in> set (hm_keys (tg_nodes g))) \<Longrightarrow>
    dfs_neighbors g ns s = lift (dfs_deps G (filter (\<lambda>n. path st = [] \<or> n \<noteq> last (path st)) ns) st)"
  using closed G
proof (induction g ns s arbitrary: st rule: dfs_neighbors.induct)
  case (2 g n ns s)
  let ?P = "\<lambda>n. path st = [] \<or> n \<noteq> last (path st)"
  let ?s = "if n \<notin> visited s then dfs_leave n (dfs_neighbors g (direct_dependencies g n) (dfs_enter n s))
        else if n \<in> rec_stack s then record_circular n s else s"
  let ?st = "dfs_deps G (filter ?P [n]) st"
  note s = "2.prems"(1) and inv = "2.prems"(2) and keys = "2.prems"(3)
  have names: "dep_names G k = filter (\<lambda>n. n \<noteq> k) (direct_dependencies g k)" if "k \<in> set (hm_keys (tg_nodes g))" for k
    using that "2.prems"(6) by (simp add: dep_names_loop_free)
  have rec: "rec_stack st = set (path st)" "set (path st) \<subseteq> visited st" using inv by (auto simp: dfs_inv_def)
  have below: "path st \<noteq> [] \<Longrightarrow> set (filter ?P [n]) \<subseteq> set (dep_names G (last (path st)))"
    using "2.prems"(4) names by auto
  have st: "dfs_inv G ?st \<and> path ?st = path st"
    by (rule dfs_deps_inv [OF inv below]) (simp_all add: rec)
  have "?s = lift ?st"
  proof (cases "n \<in> visited st")
    case False
    then have P: "?P n" using rec by auto
    have enter: "dfs_inv G (dfs_enter n st)" using dfs_inv_enter [OF inv False] below P by auto
    have n: "n \<in> set (hm_keys (tg_nodes g))" using keys by simp
    have "dfs_neighbors g (direct_dependencies g n) (dfs_enter n s) =
        lift (dfs_deps G (filter (\<lambda>m. path (dfs_enter n st) = [] \<or> m \<noteq> last (path (dfs_enter n st))) (direct_dependencies g n))
          (dfs_enter n st))"
      using False s n direct_closed [OF "2.prems"(5)] "2.prems"(5,6) by (intro "2.IH"(1) enter) auto
    then show ?thesis using False s P names [OF n] by simp
  next
    case True
    then show ?thesis using s rec record_circular_lift [of n st] by (cases "n \<in> set (path st)") auto
  qed
  then have "dfs_neighbors g ns ?s = lift (dfs_deps G (filter (\<lambda>n. path ?st = [] \<or> n \<noteq> last (path ?st)) ns) ?st)"
  proof (rule "2.IH"(2) [OF _ conjunct1 [OF st] _ _ "2.prems"(5,6)])
    show "set ns \<subseteq> set (hm_keys (tg_nodes g))" using keys by simp
    show "set ns \<subseteq> set (direct_dependencies g (last (path ?st))) \<and> last (path ?st) \<in> set (hm_keys (tg_nodes g))"
      if "path ?st \<noteq> []" using that "2.prems"(4) unfolding conjunct2 [OF st] by simp
  qed
  then show ?case using st by (simp split: if_splits)
qed simp

lemma detect_circular_loop:
  assumes closed: "tree_closed g" and G: "G = loop_free v r g"
  shows "dfs_inv G st \<Longrightarrow> path st = [] \<Longrightarrow> set ns \<subseteq> set (hm_keys (tg_nodes g)) \<Longrightarrow>
    foldl (\<lambda>st n. if n \<notin> visited st then dfs_cycle_detection g n st else st) (lift st) ns = lift (dfs_deps G ns st)"
proof (induction ns arbitrary: st)
  case (Cons n ns)
  have rec: "rec_stack st = {}" using Cons.prems by (simp add: dfs_inv_def)
  have st: "dfs_inv G (dfs_deps G [n] st) \<and> path (dfs_deps G [n] st) = []"
    using dfs_deps_inv [OF Cons.prems(1), of "[n]"] Cons.prems(2) rec by simp
  have "dfs_neighbors g [n] (lift st) = lift (dfs_deps G [n] st)"
    using dfs_sim [OF closed G refl Cons.prems(1), of "[n]"] Cons.prems by simp
  then have "(if n \<notin> visited (lift st) then dfs_cycle_detection g n (lift st) else lift st) = lift (dfs_deps G [n] st)"
    using rec by (auto simp: dfs_cycle_detection_def split: if_splits)
  then show ?case using Cons.IH [of "dfs_deps G [n] st"] st Cons.prems(3) by simp
qed simp

lemma detect_circular_eq:
  assumes "tree_closed g"
  shows "detect_circular_dependencies g = map (\<lambda>c. CircularDependency_new (c @ [hd c])) (detect_cycles (loop_free v r g))"
proof -
  have "lift dfs_init = dfs_init" by (simp add: lift_def dfs_init_def)
  then have "foldl (\<lambda>st n. if n \<notin> visited st then dfs_cycle_detection g n st else st) dfs_init (hm_keys (tg_nodes g))
      = lift (dfs_deps (loop_free v r g) (hm_keys (tg_nodes g)) dfs_init)"
    using detect_circular_loop [OF assms refl dfs_inv_init(1,3), of "hm_keys (tg_nodes g)"] by simp
  then show ?thesis
    by (simp add: detect_circular_dependencies_def detect_cycles_eq keys_loop_free comp_def del: set_map)
qed

lemma loop_free_rel:
  assumes "tree_closed g"
  shows "acyclic (dep_rel (loop_free v r g)) \<longleftrightarrow> acyclic (tree_rel g - Id)"
proof -
  let ?D = "dep_rel (loop_free v r g)"
  have sub: "?D \<subseteq> tree_rel g - Id" by (auto simp: dep_rel_def tree_rel_def dep_names_loop_free split: if_splits)
  have step: "(a, b) \<in> ?D" if "(a, b) \<in> tree_rel g - Id" "a \<in> set (hm_keys (tg_nodes g))" for a b
    using that by (auto simp: dep_rel_def tree_rel_def dep_names_loop_free)
  have target: "b \<in> set (hm_keys (tg_nodes g))" if "(a, b) \<in> tree_rel g" for a b
    using direct_closed [OF assms, of a] that by (auto simp: tree_rel_def)
  have "(a, b) \<in> ?D\<^sup>+" if "(a, b) \<in> (tree_rel g - Id)\<^sup>+" "a \<in> set (hm_keys (tg_nodes g))" for a b
    using that
  proof (induction rule: trancl_induct)
    case (base y)
    then show ?case using step by blast
  next
    case (step y z)
    then have "y \<in> set (hm_keys (tg_nodes g))" using target by (metis DiffD1 tranclE)
    then show ?case using step \<open>\<And>a b. (a, b) \<in> tree_rel g - Id \<Longrightarrow> a \<in> set (hm_keys (tg_nodes g)) \<Longrightarrow> (a, b) \<in> ?D\<close>
      by (meson trancl_into_trancl)
  qed
  moreover have "a \<in> set (hm_keys (tg_nodes g))" if "(a, a) \<in> (tree_rel g - Id)\<^sup>+" for a
    using that target by (metis DiffD1 tranclE)
  ultimately show ?thesis using acyclic_subset [OF _ sub] unfolding acyclic_def by blast
qed

text \<open>A cycle as it is reported: at least two nodes, each depends on the next, and the first closes it.\<close>

definition is_circle :: "TreeGraph \<Rightarrow> CircularDependency \<Rightarrow> bool" where
  "is_circle g c \<longleftrightarrow> cd_path_length c = length (cd_cycle c) \<and> 3 \<le> length (cd_cycle c)
     \<and> is_path g (hd (cd_cycle c)) (hd (cd_cycle c)) (cd_cycle c)"

lemma cycle_is_circle:
  assumes "is_cycle (loop_free v r g) c"
  shows "is_circle g (CircularDependency_new (c @ [hd c]))"
proof -
  let ?G = "loop_free v r g"
  have edge: "(a, b) \<in> tree_rel g \<and> a \<noteq> b" if "b \<in> set (dep_names ?G a)" for a b
    using that by (auto simp: dep_names_loop_free tree_rel_def split: if_splits)
  have c: "c \<noteq> []" "successively (\<lambda>a b. b \<in> set (dep_names ?G a)) c" "hd c \<in> set (dep_names ?G (last c))"
    using assms by (simp_all add: is_cycle_def)
  have "successively (\<lambda>a b. (a, b) \<in> tree_rel g) c"
    by (rule successively_mono [OF c(2)]) (rule conjunct1 [OF edge])
  then have "successively (\<lambda>a b. (a, b) \<in> tree_rel g) (c @ [hd c])"
    using c(1) edge [OF c(3)] by (simp add: successively_append_iff)
  moreover have "length c \<noteq> 1"
  proof
    assume "length c = 1"
    then obtain x where "c = [x]" by (auto simp: length_Suc_conv)
    then show False using edge [OF c(3)] by simp
  qed
  then have "2 \<le> length c" using c(1) by (cases c) (auto simp: Suc_le_eq)
  ultimately show ?thesis using c(1) by (simp add: is_circle_def CircularDependency_new_def is_path_def)
qed

text \<open>The packager's search for circular dependencies, on every graph that was built with \<open>add_dependency\<close>: nothing
  is reported exactly if no plugin depends on itself through another plugin, and every report is such a circle.\<close>

theorem detect_circular_correct:
  "(detect_circular_dependencies (build_graph_tree root version es) = []
      \<longleftrightarrow> acyclic (tree_rel (build_graph_tree root version es) - Id))
   \<and> list_all (is_circle (build_graph_tree root version es))
       (detect_circular_dependencies (build_graph_tree root version es))"
  using detect_circular_eq [OF build_closed [of root version es], of undefined undefined]
  by (simp add: detect_cycles_acyclic loop_free_rel [OF build_closed] list_all_iff)
    (blast intro: cycle_is_circle detect_cycles_sound)

section \<open>What the tree shows\<close>

definition edges_from :: "TreeGraph \<Rightarrow> string set \<Rightarrow> nat" where
  "edges_from g A = length (filter (\<lambda>e. te_from e \<in> A) (tg_edges g))"

lemma edges_from_disjoint: "A \<inter> B = {} \<Longrightarrow> edges_from g (A \<union> B) = edges_from g A + edges_from g B"
proof -
  assume "A \<inter> B = {}"
  then have "length (filter (\<lambda>e. te_from e \<in> A \<union> B) es) =
      length (filter (\<lambda>e. te_from e \<in> A) es) + length (filter (\<lambda>e. te_from e \<in> B) es)" for es :: "TreeEdge list"
    by (induction es) auto
  then show ?thesis by (simp add: edges_from_def)
qed

lemma edges_from_one: "edges_from g {n} = length (direct_dependencies g n)"
  by (simp add: edges_from_def direct_dependencies_def)

definition forest_size :: "DependencyNode list \<Rightarrow> nat" where
  "forest_size cs = length cs + sum_list (map total_descendants cs)"

text \<open>The children of a list of neighbours: one node for each of them, and one for each edge out of a node that is visited on
  the way; the set of visited nodes stays closed.\<close>

lemma build_children_spec:
  "case build_children g ns depth seen of (cs, seen') \<Rightarrow>
     seen \<subseteq> seen' \<and> set ns \<subseteq> seen' \<and> seen' \<subseteq> seen \<union> (tree_rel g)\<^sup>* `` set ns
     \<and> tree_rel g `` (seen' - seen) \<subseteq> seen'
     \<and> forest_size cs = length ns + edges_from g (seen' - seen)"
proof (induction g ns depth seen rule: build_children.induct)
  case (1 g depth seen)
  show ?case by (simp add: forest_size_def edges_from_def)
next
  case (2 g n ns depth seen)
  let ?sub = "if n \<in> seen then ([], seen) else build_children g (direct_dependencies g n) (depth + 1) (insert n seen)"
  obtain cs seen1 where sub: "?sub = (cs, seen1)" by fastforce
  obtain rest seen2 where rest: "build_children g ns depth seen1 = (rest, seen2)" by fastforce
  have second: "seen1 \<subseteq> seen2" "set ns \<subseteq> seen2" "seen2 \<subseteq> seen1 \<union> (tree_rel g)\<^sup>* `` set ns"
      "tree_rel g `` (seen2 - seen1) \<subseteq> seen2" "forest_size rest = length ns + edges_from g (seen2 - seen1)"
    using "2.IH"(2) [OF sub [symmetric] refl] by (simp_all add: rest)
  have first: "seen \<subseteq> seen1 \<and> n \<in> seen1 \<and> seen1 \<subseteq> seen \<union> (tree_rel g)\<^sup>* `` {n} \<and> tree_rel g `` (seen1 - seen) \<subseteq> seen1
      \<and> forest_size cs = edges_from g (seen1 - seen)"
  proof (cases "n \<in> seen")
    case True
    then show ?thesis using sub by (auto simp: forest_size_def edges_from_def)
  next
    case False
    have inner: "insert n seen \<subseteq> seen1" "set (direct_dependencies g n) \<subseteq> seen1"
        "seen1 \<subseteq> insert n seen \<union> (tree_rel g)\<^sup>* `` set (direct_dependencies g n)"
        "tree_rel g `` (seen1 - insert n seen) \<subseteq> seen1"
        "forest_size cs = length (direct_dependencies g n) + edges_from g (seen1 - insert n seen)"
      using "2.IH"(1) [OF False] sub False by simp_all
    have "seen1 - seen = {n} \<union> (seen1 - insert n seen)" using inner(1) False by auto
    then have "edges_from g (seen1 - seen) = length (direct_dependencies g n) + edges_from g (seen1 - insert n seen)"
      using edges_from_disjoint [of "{n}" "seen1 - insert n seen" g] by (simp add: edges_from_one)
    then have "forest_size cs = edges_from g (seen1 - seen)" using inner(5) by simp
    moreover have "(tree_rel g)\<^sup>* `` set (direct_dependencies g n) \<subseteq> (tree_rel g)\<^sup>* `` {n}"
      by (auto simp: tree_rel_def intro: converse_rtrancl_into_rtrancl)
    then have "insert n seen \<union> (tree_rel g)\<^sup>* `` set (direct_dependencies g n) \<subseteq> seen \<union> (tree_rel g)\<^sup>* `` {n}"
      by (simp add: le_supI2)
    then have "seen1 \<subseteq> seen \<union> (tree_rel g)\<^sup>* `` {n}" by (rule subset_trans [OF inner(3)])
    moreover have "tree_rel g `` {n} \<subseteq> seen1" using inner(2) by (auto simp: tree_rel_def)
    then have "tree_rel g `` (seen1 - seen) \<subseteq> seen1" using inner(4) by auto
    ultimately show ?thesis using inner(1) by simp
  qed
  have "seen2 - seen = (seen1 - seen) \<union> (seen2 - seen1)" using first second(1) by blast
  then have size: "edges_from g (seen2 - seen) = edges_from g (seen1 - seen) + edges_from g (seen2 - seen1)"
    using edges_from_disjoint [of "seen1 - seen" "seen2 - seen1" g] by auto
  have "build_children g (n # ns) depth seen = (DependencyNode n (version_of g n) depth cs # rest, seen2)"
    by (simp only: build_children.simps sub rest Let_def case_prod_conv)
  moreover have "forest_size (DependencyNode n (version_of g n) depth cs # rest) = Suc (length ns) + edges_from g (seen2 - seen)"
    using first second(5) size by (simp add: forest_size_def)
  moreover have "seen2 \<subseteq> seen \<union> (tree_rel g)\<^sup>* `` set (n # ns)" 
    using first second(3) Image_Un [of "(tree_rel g)\<^sup>*" "{n}" "set ns"] by auto
  moreover have "tree_rel g `` (seen2 - seen) \<subseteq> seen2"
  proof -
    have "tree_rel g `` (seen2 - seen) \<subseteq> tree_rel g `` (seen1 - seen) \<union> tree_rel g `` (seen2 - seen1)" by blast
    then show ?thesis using first second(1,4) by blast
  qed
  moreover have "seen \<subseteq> seen2" "set (n # ns) \<subseteq> seen2" using first second(1,2) by auto
  ultimately show ?case by simp
qed

text \<open>The tree that is shown has exactly one node for each edge out of a plugin that can be reached from the root, also
  when the graph has cycles or plugins that are reached in several ways: a plugin is expanded where it is met first.\<close>

theorem build_tree_size:
  "total_descendants (build_tree g) = edges_from g ((tree_rel g)\<^sup>* `` {tg_root g})"
proof -
  let ?r = "tg_root g"
  obtain cs seen where cs: "build_children g (direct_dependencies g ?r) 1 {?r} = (cs, seen)" by fastforce
  have spec: "{?r} \<subseteq> seen" "set (direct_dependencies g ?r) \<subseteq> seen"
      "seen \<subseteq> {?r} \<union> (tree_rel g)\<^sup>* `` set (direct_dependencies g ?r)" "tree_rel g `` (seen - {?r}) \<subseteq> seen"
      "forest_size cs = length (direct_dependencies g ?r) + edges_from g (seen - {?r})"
    using build_children_spec [where g = g and ns = "direct_dependencies g ?r" and depth = 1 and seen = "{?r}"] by (simp_all add: cs)
  have "tree_rel g `` seen \<subseteq> seen" using spec(2,4) by (auto simp: tree_rel_def)
  then have "(tree_rel g)\<^sup>* `` seen \<subseteq> seen" using Image_closed_trancl by blast
  moreover have "(tree_rel g)\<^sup>* `` set (direct_dependencies g ?r) \<subseteq> (tree_rel g)\<^sup>* `` {?r}"
    by (auto simp: tree_rel_def intro: converse_rtrancl_into_rtrancl)
  ultimately have "seen = (tree_rel g)\<^sup>* `` {?r}" using spec(1,3) by blast
  moreover have "edges_from g seen = length (direct_dependencies g ?r) + edges_from g (seen - {?r})"
    using edges_from_disjoint [of "{?r}" "seen - {?r}" g] spec(1) by (simp add: edges_from_one insert_absorb)
  ultimately show ?thesis using spec(5) by (simp add: build_tree_def cs forest_size_def)
qed

text \<open>The depth of a node is that of its first occurrence in the tree, which need not be the least.\<close>

lemma node_depth_not_shortest:
  "node_depth (build_graph_tree ''a'' ''1'' [TreeEdge_new ''a'' ''b'' ''1'', TreeEdge_new ''b'' ''c'' ''1'', TreeEdge_new ''a'' ''c'' ''1''])
      ''c'' = Some 2"
  by code_simp

end
