(* ===== verification/Version_Reload.thy ===== *)
theory Version_Reload
  imports Dep_Version
begin

text \<open>
  Version-based hot reload, \<open>src/plugin_manager/version_reload.rs\<close>: the registry of loaded versions,
  the check of one plugin against its file, and the decision to reload. The file system and the
  plugin loader are arguments: what \<open>exists\<close>, \<open>metadata\<close> and \<open>AbiV2PluginLoader::load(..).get_info()\<close>
  return for a path. Times are natural numbers, 0 the Unix epoch.
\<close>

section \<open>Types\<close>

record PluginVersionInfo =
  vi_plugin_id :: string
  vi_version :: string
  vi_path :: string
  vi_modified_time :: nat
  vi_inode :: u64

datatype ReloadReason = VersionIncreased | DevBuild | VersionChanged | FileModified

record VersionCheckResult =
  vc_plugin_id :: string
  vc_current_version :: string
  vc_new_version :: string
  vc_needs_reload :: bool
  vc_reason :: ReloadReason

record FileMetadata =
  fm_modified :: "nat option"
  fm_ino :: u64

record Environment =
  env_exists :: "string \<Rightarrow> bool"
  env_metadata :: "string \<Rightarrow> string + FileMetadata"
  env_load :: "string \<Rightarrow> string + string"
  env_get_info :: "string \<Rightarrow> string + string"

record SemVer =
  sv_major :: u64
  sv_minor :: u64
  sv_patch :: u64

type_synonym VersionBasedHotReload = "(string, PluginVersionInfo) hashmap"

fun ReloadReason_display :: "ReloadReason \<Rightarrow> string" where
  "ReloadReason_display VersionIncreased = ''version increased''"
| "ReloadReason_display DevBuild = ''development build''"
| "ReloadReason_display VersionChanged = ''version changed''"
| "ReloadReason_display FileModified = ''file modified''"

section \<open>The decision\<close>

text \<open>The derived comparison of \<open>SemVer\<close>: by the fields in order.\<close>

definition SemVer_cmp :: "SemVer \<Rightarrow> SemVer \<Rightarrow> ordering" where
  "SemVer_cmp a b =
     ord_then (cmp_of (sv_major a) (sv_major b))
       (ord_then (cmp_of (sv_minor a) (sv_minor b)) (cmp_of (sv_patch a) (sv_patch b)))"

definition parse_semver :: "string \<Rightarrow> SemVer option" where
  "parse_semver version =
     (let v = trim version;
          version_part = (case split_once CHR ''-'' v of Some (a, _) \<Rightarrow> a | None \<Rightarrow> v);
          parts = split_on CHR ''.'' version_part
      in if length parts < 2 then None
         else
           (case (parse_u64 (parts ! 0), parse_u64 (parts ! 1)) of
              (Some ma, Some mi) \<Rightarrow>
                (let pa = (if 2 < length parts
                           then (case parse_u64 (parts ! 2) of Some p \<Rightarrow> p | None \<Rightarrow> 0) else 0)
                 in Some \<lparr>sv_major = ma, sv_minor = mi, sv_patch = pa\<rparr>)
            | _ \<Rightarrow> None))"

definition should_reload :: "string \<Rightarrow> string \<Rightarrow> bool \<times> ReloadReason" where
  "should_reload current new =
     (if ends_with new ''-dev'' then (True, DevBuild)
      else
        (case (parse_semver current, parse_semver new) of
           (Some current_v, Some new_v) \<Rightarrow>
             if SemVer_cmp new_v current_v = OGreater then (True, VersionIncreased)
             else if SemVer_cmp new_v current_v = OLess then (True, VersionChanged)
             else (False, VersionChanged)
         | _ \<Rightarrow> if current \<noteq> new then (True, VersionChanged) else (False, VersionChanged)))"

section \<open>The registry\<close>

definition VersionBasedHotReload_new :: VersionBasedHotReload where
  "VersionBasedHotReload_new = []"

definition register_version :: "Environment \<Rightarrow> string \<Rightarrow> string \<Rightarrow> string
    \<Rightarrow> VersionBasedHotReload \<Rightarrow> VersionBasedHotReload" where
  "register_version env plugin_id version path versions =
     (let metadata = (case env_metadata env path of Err _ \<Rightarrow> None | Ok m \<Rightarrow> Some m);
          modified_time = (case metadata of
              None \<Rightarrow> 0 | Some m \<Rightarrow> (case fm_modified m of None \<Rightarrow> 0 | Some t \<Rightarrow> t));
          inode = (case metadata of None \<Rightarrow> 0 | Some m \<Rightarrow> fm_ino m)
      in hm_insert plugin_id
           \<lparr>vi_plugin_id = plugin_id, vi_version = version, vi_path = path,
            vi_modified_time = modified_time, vi_inode = inode\<rparr> versions)"

definition unregister_version :: "string \<Rightarrow> VersionBasedHotReload \<Rightarrow> VersionBasedHotReload" where
  "unregister_version plugin_id versions = AList.delete plugin_id versions"

definition check_single_plugin :: "Environment \<Rightarrow> PluginVersionInfo
    \<Rightarrow> string + VersionCheckResult option" where
  "check_single_plugin env info =
     (if \<not> env_exists env (vi_path info) then Ok None
      else
        result_bind
          (map_err (\<lambda>e. ''Failed to get file metadata for plugin '' @ quoted (vi_plugin_id info) @
              '': '' @ e) (env_metadata env (vi_path info)))
          (\<lambda>fs_metadata.
            if (case fm_modified fs_metadata of
                  Some modified \<Rightarrow> modified \<le> vi_modified_time info | None \<Rightarrow> False)
            then Ok None
            else if fm_ino fs_metadata \<noteq> vi_inode info
            then Ok (Some \<lparr>vc_plugin_id = vi_plugin_id info, vc_current_version = vi_version info,
                   vc_new_version = vi_version info @ '' (restart required)'',
                   vc_needs_reload = False, vc_reason = FileModified\<rparr>)
            else
              result_bind
                (map_err (\<lambda>e. ''Failed to load plugin for version check: '' @ e)
                  (env_load env (vi_path info)))
                (\<lambda>loader. result_bind
                  (map_err (\<lambda>e. ''Failed to get plugin info for version check: '' @ e)
                    (env_get_info env loader))
                  (\<lambda>new_version.
                    if new_version = vi_version info then Ok None
                    else
                      (let (needs_reload, reason) = should_reload (vi_version info) new_version
                       in Ok (Some \<lparr>vc_plugin_id = vi_plugin_id info,
                            vc_current_version = vi_version info, vc_new_version = new_version,
                            vc_needs_reload = needs_reload, vc_reason = reason\<rparr>))))))"

definition check_versions :: "Environment \<Rightarrow> VersionBasedHotReload \<Rightarrow> VersionCheckResult list" where
  "check_versions env versions =
     filter vc_needs_reload
       (List.map_filter (\<lambda>(_, info).
          (case check_single_plugin env info of Ok (Some result) \<Rightarrow> Some result | _ \<Rightarrow> None)) versions)"

definition get_version_info :: "string \<Rightarrow> VersionBasedHotReload \<Rightarrow> PluginVersionInfo option" where
  "get_version_info plugin_id versions = hm_get versions plugin_id"

definition update_version :: "string \<Rightarrow> string \<Rightarrow> VersionBasedHotReload \<Rightarrow> VersionBasedHotReload" where
  "update_version plugin_id new_version versions =
     (case hm_get versions plugin_id of
        None \<Rightarrow> versions
      | Some info \<Rightarrow> hm_insert plugin_id (info\<lparr>vi_version := new_version\<rparr>) versions)"

definition update_modified_time :: "Environment \<Rightarrow> string \<Rightarrow> VersionBasedHotReload
    \<Rightarrow> VersionBasedHotReload" where
  "update_modified_time env plugin_id versions =
     (case hm_get versions plugin_id of
        None \<Rightarrow> versions
      | Some info \<Rightarrow>
          (case env_metadata env (vi_path info) of
             Err _ \<Rightarrow> versions
           | Ok m \<Rightarrow>
               (case fm_modified m of
                  None \<Rightarrow> versions
                | Some t \<Rightarrow> hm_insert plugin_id (info\<lparr>vi_modified_time := t\<rparr>) versions)))"

definition list_registered :: "VersionBasedHotReload \<Rightarrow> (string \<times> string \<times> string) list" where
  "list_registered versions =
     map (\<lambda>(_, info). (vi_plugin_id info, vi_version info, vi_path info)) versions"

section \<open>Agreement with semantic versions\<close>

interpretation semver_ord: rust_ord SemVer_cmp
  unfolding SemVer_cmp_def
  by (intro rust_ord_then linorder_ord.rust_ord_axioms rust_ord_inv_image [where c = cmp_of])

lemma parse_semver_display:
  assumes "wf_version v" and "build v = None"
  shows "parse_semver (Version_display v) =
    Some \<lparr>sv_major = major v, sv_minor = minor v, sv_patch = patch v\<rparr>"
proof -
  have disp: "Version_display v = core_string v @ pre_string v"
    using assms(2) by (simp add: display_parts build_string_def)
  have "CHR ''-'' \<notin> set (core_string v)"
    using core_string_chars [of "CHR ''-''" v] by auto
  then have "(case split_once CHR ''-'' (Version_display v) of Some (a, _) \<Rightarrow> a
      | None \<Rightarrow> Version_display v) = core_string v"
    by (cases "pre v") (simp_all add: disp pre_string_def)
  then show ?thesis
    by (simp add: parse_semver_def display_trim [OF assms(1)] core_string_split Let_def)
qed

lemma SemVer_cmp_base:
  "SemVer_cmp \<lparr>sv_major = major v, sv_minor = minor v, sv_patch = patch v\<rparr>
      \<lparr>sv_major = major w, sv_minor = minor w, sv_patch = patch w\<rparr>
     = Version_cmp (base_version v) (base_version w)"
proof -
  have "ord_then a OEqual = a" for a by (cases a) auto
  then show ?thesis by (simp add: SemVer_cmp_def Version_cmp_def base_version_def Version_new_def pre_cmp_def)
qed

text \<open>On printed versions without build metadata the reload decision follows the version
  core: a development build always reloads; otherwise a larger core is an upgrade, a smaller one a
  change, both reload, and equal cores do not reload.\<close>

theorem should_reload_by_core:
  assumes "wf_version v" "build v = None" "wf_version w" "build w = None"
  shows "should_reload (Version_display v) (Version_display w) =
    (if ends_with (Version_display w) ''-dev'' then (True, DevBuild)
     else case Version_cmp (base_version v) (base_version w) of
         OLess \<Rightarrow> (True, VersionIncreased)
       | OGreater \<Rightarrow> (True, VersionChanged)
       | OEqual \<Rightarrow> (False, VersionChanged))"
  using version_ord.cmp_reverse [of "base_version w" "base_version v"]
  by (cases "Version_cmp (base_version v) (base_version w)")
    (simp_all add: should_reload_def parse_semver_display assms SemVer_cmp_base)

lemma should_reload_numbers:
  "parse_semver ''1.0.0-rc.1'' = Some \<lparr>sv_major = 1, sv_minor = 0, sv_patch = 0\<rparr>"
  "parse_semver ''1.0.0'' = Some \<lparr>sv_major = 1, sv_minor = 0, sv_patch = 0\<rparr>"
  "parse_semver ''1.2.3+a'' = Some \<lparr>sv_major = 1, sv_minor = 2, sv_patch = 0\<rparr>"
  "parse_semver ''1.2.4+a'' = Some \<lparr>sv_major = 1, sv_minor = 2, sv_patch = 0\<rparr>"
  by (simp_all add: parse_semver_def trim_solid solid_def parse_u64_def parse_nat_def
      digits_nat_def is_ascii_digit_def)

text \<open>The decision misses upgrades: a release that follows its release candidate is a later
  version, and so is 1.2.4+a after 1.2.3+a (build metadata makes the patch number unreadable, and it
  counts as zero), but neither is reloaded.\<close>

theorem should_reload_misses_upgrades:
  "should_reload ''1.0.0-rc.1'' ''1.0.0'' = (False, VersionChanged)
   \<and> should_reload ''1.2.3+a'' ''1.2.4+a'' = (False, VersionChanged)
   \<and> Version_cmp (with_pre \<lparr>identifiers = [Alpha ''rc'', Numeric 1]\<rparr> (Version_new 1 0 0))
       (Version_new 1 0 0) = OLess
   \<and> Version_cmp (with_build ''a'' (Version_new 1 2 3)) (with_build ''a'' (Version_new 1 2 4)) = OLess"
  by (simp add: should_reload_def should_reload_numbers ends_with_def strip_suffix_def semver_ord.cmp_refl
      Version_cmp_def with_pre_def with_build_def Version_new_def pre_cmp_def)

section \<open>The check of a plugin\<close>

text \<open>A plugin is reported for reload only when that is safe and there is something new: its
  file exists, was modified after the recorded time (or has no readable time), is still the same inode
  and not a replaced file, and the loaded version differs from the registered one.\<close>

theorem check_versions_sound:
  "list_all (\<lambda>result. list_ex (\<lambda>(_, info).
       vi_plugin_id info = vc_plugin_id result \<and> env_exists env (vi_path info)
       \<and> (\<exists>m loader. env_metadata env (vi_path info) = Ok m \<and> fm_ino m = vi_inode info
            \<and> (case fm_modified m of None \<Rightarrow> True | Some t \<Rightarrow> vi_modified_time info < t)
            \<and> env_load env (vi_path info) = Ok loader
            \<and> env_get_info env loader = Ok (vc_new_version result))
       \<and> vc_new_version result \<noteq> vi_version info
       \<and> should_reload (vi_version info) (vc_new_version result) = (True, vc_reason result)) versions)
     (check_versions env versions)"
proof -
  have single: "vc_plugin_id result = vi_plugin_id info \<and> env_exists env (vi_path info)
       \<and> (\<exists>m loader. env_metadata env (vi_path info) = Ok m \<and> fm_ino m = vi_inode info
            \<and> (case fm_modified m of None \<Rightarrow> True | Some t \<Rightarrow> vi_modified_time info < t)
            \<and> env_load env (vi_path info) = Ok loader
            \<and> env_get_info env loader = Ok (vc_new_version result))
       \<and> vc_new_version result \<noteq> vi_version info
       \<and> should_reload (vi_version info) (vc_new_version result) = (True, vc_reason result)"
    if "check_single_plugin env info = Ok (Some result)" "vc_needs_reload result" for info result
    using that by (auto simp: check_single_plugin_def not_le split: if_splits option.splits prod.splits)
  show ?thesis
    unfolding list_all_iff list_ex_iff
  proof
    fix result assume "result \<in> set (check_versions env versions)"
    then obtain k info where "(k, info) \<in> set versions"
      "check_single_plugin env info = Ok (Some result)" "vc_needs_reload result"
      by (auto simp: check_versions_def List.map_filter_def split: sum.splits option.splits)
    with single [of info result] show "\<exists>x\<in>set versions. case x of (_, info) \<Rightarrow>
       vi_plugin_id info = vc_plugin_id result \<and> env_exists env (vi_path info)
       \<and> (\<exists>m loader. env_metadata env (vi_path info) = Ok m \<and> fm_ino m = vi_inode info
            \<and> (case fm_modified m of None \<Rightarrow> True | Some t \<Rightarrow> vi_modified_time info < t)
            \<and> env_load env (vi_path info) = Ok loader
            \<and> env_get_info env loader = Ok (vc_new_version result))
       \<and> vc_new_version result \<noteq> vi_version info
       \<and> should_reload (vi_version info) (vc_new_version result) = (True, vc_reason result)"
      by (intro bexI [of _ "(k, info)"]) auto
  qed
qed

end
