(* ===== verification/Circuit_Breaker.thy ===== *)
theory Circuit_Breaker
  imports Rust_Str
begin

text \<open>
  Circuit breakers and failover, \<open>src/plugin_manager/failover.rs\<close>. The clock is an argument: each
  operation that reads \<open>SystemTime::now()\<close> takes the seconds it read. Machine arithmetic is that of the
  release build, so the difference of two times wraps around when the clock went back. Each
  operation is one atomic step of the model.
\<close>

section \<open>The breaker\<close>

datatype CircuitState = Closed | Open | HalfOpen

record CircuitBreaker =
  failures :: usize
  failure_threshold :: usize
  timeout_seconds :: u64
  last_failure :: u64
  cb_state :: CircuitState

fun CircuitState_display :: "CircuitState \<Rightarrow> string" where
  "CircuitState_display Closed = ''Closed''"
| "CircuitState_display Open = ''Open''"
| "CircuitState_display HalfOpen = ''HalfOpen''"

definition CircuitBreaker_new :: "usize \<Rightarrow> u64 \<Rightarrow> CircuitBreaker" where
  "CircuitBreaker_new threshold timeout =
     \<lparr>failures = 0, failure_threshold = threshold, timeout_seconds = timeout, last_failure = 0,
      cb_state = Closed\<rparr>"

definition get_state :: "CircuitBreaker \<Rightarrow> CircuitState" where
  "get_state cb = cb_state cb"

definition record_success :: "CircuitBreaker \<Rightarrow> CircuitBreaker" where
  "record_success cb =
     (let cb' = cb\<lparr>failures := 0\<rparr> in
      case cb_state cb' of
        HalfOpen \<Rightarrow> cb'\<lparr>cb_state := Closed\<rparr>
      | Closed \<Rightarrow> cb'
      | Open \<Rightarrow> cb')"

definition record_failure :: "u64 \<Rightarrow> CircuitBreaker \<Rightarrow> CircuitBreaker" where
  "record_failure now cb =
     (let cb' = cb\<lparr>last_failure := now\<rparr> in
      case cb_state cb' of
        Closed \<Rightarrow>
          (let old = failures cb'; cb'' = cb'\<lparr>failures := old + 1\<rparr>
           in if failure_threshold cb'' \<le> old + 1 then cb''\<lparr>cb_state := Open\<rparr> else cb'')
      | HalfOpen \<Rightarrow> cb'\<lparr>cb_state := Open\<rparr>
      | Open \<Rightarrow>
          if timeout_seconds cb' \<le> now - last_failure cb' then cb'\<lparr>cb_state := HalfOpen\<rparr> else cb')"

definition should_allow_request :: "u64 \<Rightarrow> CircuitBreaker \<Rightarrow> bool \<times> CircuitBreaker" where
  "should_allow_request now cb =
     (case cb_state cb of
        Closed \<Rightarrow> (True, cb)
      | Open \<Rightarrow>
          if timeout_seconds cb \<le> now - last_failure cb then (True, cb\<lparr>cb_state := HalfOpen\<rparr>)
          else (False, cb)
      | HalfOpen \<Rightarrow> (True, cb))"

definition failure_count :: "CircuitBreaker \<Rightarrow> usize" where
  "failure_count cb = failures cb"

section \<open>Failover\<close>

record ServiceResponse =
  success :: bool
  data :: string
  status_code :: u32
  error_message :: "string option"

definition ServiceResponse_ok :: "string \<Rightarrow> ServiceResponse" where
  "ServiceResponse_ok d = \<lparr>success = True, data = d, status_code = 200, error_message = None\<rparr>"

definition ServiceResponse_error :: "u32 \<Rightarrow> string \<Rightarrow> ServiceResponse" where
  "ServiceResponse_error st msg =
     \<lparr>success = False, data = [], status_code = st, error_message = Some msg\<rparr>"

record FallbackService =
  fb_name :: string
  fb_description :: string
  reduced_functionality :: "string list"

definition FallbackService_new :: "string \<Rightarrow> string \<Rightarrow> FallbackService" where
  "FallbackService_new n d = \<lparr>fb_name = n, fb_description = d, reduced_functionality = []\<rparr>"

definition with_reduced_functions :: "string list \<Rightarrow> FallbackService \<Rightarrow> FallbackService" where
  "with_reduced_functions fs f = f\<lparr>reduced_functionality := fs\<rparr>"

record FailoverStrategy =
  circuit_breakers :: "(string, CircuitBreaker) hashmap"
  fallback_services :: "(string, FallbackService) hashmap"
  request_queue :: "string list"

definition FailoverStrategy_new :: FailoverStrategy where
  "FailoverStrategy_new = \<lparr>circuit_breakers = [], fallback_services = [], request_queue = []\<rparr>"

definition register_service :: "string \<Rightarrow> usize \<Rightarrow> u64 \<Rightarrow> FailoverStrategy \<Rightarrow> FailoverStrategy" where
  "register_service name threshold timeout fs =
     fs\<lparr>circuit_breakers := hm_insert name (CircuitBreaker_new threshold timeout) (circuit_breakers fs)\<rparr>"

definition register_fallback :: "FallbackService \<Rightarrow> FailoverStrategy \<Rightarrow> FailoverStrategy" where
  "register_fallback f fs = fs\<lparr>fallback_services := hm_insert (fb_name f) f (fallback_services fs)\<rparr>"

definition get_fallback :: "FailoverStrategy \<Rightarrow> string \<Rightarrow> FallbackService option" where
  "get_fallback fs name = hm_get (fallback_services fs) name"

text \<open>The breaker of a service is mutated in place, behind a shared reference.\<close>

definition set_breaker :: "string \<Rightarrow> CircuitBreaker \<Rightarrow> FailoverStrategy \<Rightarrow> FailoverStrategy" where
  "set_breaker name cb fs = fs\<lparr>circuit_breakers := hm_insert name cb (circuit_breakers fs)\<rparr>"

text \<open>\<open>now1\<close> is the time that \<open>should_allow_request\<close> reads, \<open>now2\<close> the one \<open>record_failure\<close> reads. As in
  the source, the primary call is the constant success response.\<close>

definition call_with_failover :: "u64 \<Rightarrow> u64 \<Rightarrow> string \<Rightarrow> FailoverStrategy
    \<Rightarrow> ServiceResponse \<times> FailoverStrategy" where
  "call_with_failover now1 now2 name fs =
     (case hm_get (circuit_breakers fs) name of
        None \<Rightarrow> (ServiceResponse_error 404 (''Service '' @ name @ '' not registered''), fs)
      | Some cb \<Rightarrow>
          (case should_allow_request now1 cb of
             (False, cb1) \<Rightarrow>
               ((case get_fallback fs name of
                   Some _ \<Rightarrow> ServiceResponse_ok ''Fallback mode''
                 | None \<Rightarrow> ServiceResponse_error 503 ''Service unavailable - circuit open''),
                set_breaker name (record_failure now2 cb1) fs)
           | (True, cb1) \<Rightarrow>
               (let result = ServiceResponse_ok ''Success'' in
                if success result then (result, set_breaker name (record_success cb1) fs)
                else
                  ((case get_fallback fs name of
                      Some _ \<Rightarrow> ServiceResponse_ok ''Fallback mode'' | None \<Rightarrow> result),
                   set_breaker name (record_failure now2 cb1) fs))))"

definition get_service_state :: "FailoverStrategy \<Rightarrow> string \<Rightarrow> CircuitState option" where
  "get_service_state fs name = map_option get_state (hm_get (circuit_breakers fs) name)"

definition queue_request :: "string \<Rightarrow> FailoverStrategy \<Rightarrow> FailoverStrategy" where
  "queue_request r fs = fs\<lparr>request_queue := request_queue fs @ [r]\<rparr>"

definition queued_request_count :: "FailoverStrategy \<Rightarrow> nat" where
  "queued_request_count fs = length (request_queue fs)"

definition drain_queued_requests :: "FailoverStrategy \<Rightarrow> string list \<times> FailoverStrategy" where
  "drain_queued_requests fs = (request_queue fs, fs\<lparr>request_queue := []\<rparr>)"

section \<open>The state machine\<close>

lemmas breaker_defs = record_success_def record_failure_def should_allow_request_def Let_def

text \<open>The operations of a breaker as steps, each with the time it reads.\<close>

datatype breaker_event = Success | Failure u64 | Request u64

inductive breaker_step :: "CircuitBreaker \<Rightarrow> breaker_event \<Rightarrow> CircuitBreaker \<Rightarrow> bool" where
  step_success: "breaker_step cb Success (record_success cb)"
| step_failure: "breaker_step cb (Failure now) (record_failure now cb)"
| step_request: "breaker_step cb (Request now) (snd (should_allow_request now cb))"

inductive_cases breaker_stepE: "breaker_step cb e cb'"

inductive breaker_reachable :: "usize \<Rightarrow> u64 \<Rightarrow> CircuitBreaker \<Rightarrow> bool" where
  reachable_new: "breaker_reachable th t (CircuitBreaker_new th t)"
| reachable_step: "breaker_reachable th t cb \<Longrightarrow> breaker_step cb e cb' \<Longrightarrow> breaker_reachable th t cb'"

text \<open>The transitions that the comment of \<open>CircuitBreaker\<close> lists.\<close>

fun documented_transition :: "CircuitState \<Rightarrow> breaker_event \<Rightarrow> CircuitState \<Rightarrow> bool" where
  "documented_transition Closed (Failure _) Open = True"
| "documented_transition Open (Request _) HalfOpen = True"
| "documented_transition HalfOpen Success Closed = True"
| "documented_transition HalfOpen (Failure _) Open = True"
| "documented_transition s _ s' = (s = s')"

lemma breaker_config:
  "breaker_step cb e cb' \<Longrightarrow>
     failure_threshold cb' = failure_threshold cb \<and> timeout_seconds cb' = timeout_seconds cb"
  by (erule breaker_stepE) (auto simp: breaker_defs split: CircuitState.splits if_splits)

lemma breaker_step_documented:
  assumes "breaker_step cb e cb'" and "0 < timeout_seconds cb"
  shows "documented_transition (cb_state cb) e (cb_state cb')"
  using assms
  by (cases rule: breaker_step.cases; cases "cb_state cb")
    (auto simp: breaker_defs word_gt_0 split: if_splits)

text \<open>A closed breaker has seen fewer consecutive failures than the threshold (or none, when the
  threshold is zero).\<close>

definition breaker_inv :: "usize \<Rightarrow> u64 \<Rightarrow> CircuitBreaker \<Rightarrow> bool" where
  "breaker_inv th t cb \<longleftrightarrow> failure_threshold cb = th \<and> timeout_seconds cb = t
     \<and> (cb_state cb = Closed \<longrightarrow> failures cb = 0 \<or> failures cb < th)"

lemma breaker_step_inv:
  assumes "breaker_step cb e cb'" and "breaker_inv th t cb"
  shows "breaker_inv th t cb'"
  using assms
  by (cases rule: breaker_step.cases; cases "cb_state cb")
    (auto simp: breaker_defs breaker_inv_def not_le split: if_splits)

lemma breaker_reachable_inv: "breaker_reachable th t cb \<Longrightarrow> breaker_inv th t cb"
proof (induction rule: breaker_reachable.induct)
  case (reachable_new th t)
  show ?case by (simp add: breaker_inv_def CircuitBreaker_new_def)
next
  case (reachable_step th t cb e cb')
  show ?case by (rule breaker_step_inv [OF reachable_step.hyps(2) reachable_step.IH])
qed

text \<open>A breaker only makes the documented transitions: it opens from Closed on a failure,
  becomes HalfOpen from Open when a request is tried, and leaves HalfOpen by a success (to Closed) or
  a failure (to Open). While Closed, its failure count is below the threshold.\<close>

theorem breaker_transitions:
  assumes "breaker_reachable th t cb" and "breaker_step cb e cb'" and "0 < t"
  shows "documented_transition (cb_state cb) e (cb_state cb')
    \<and> (cb_state cb' = Closed \<longrightarrow> failures cb' = 0 \<or> failures cb' < th)"
  using assms breaker_reachable_inv [OF assms(1)] breaker_reachable_inv [OF reachable_step [OF assms(1,2)]]
    breaker_step_documented [OF assms(2)]
  by (simp add: breaker_inv_def)

section \<open>Opening and recovering\<close>

lemma record_failures_closed:
  assumes "cb_state cb = Closed" and "0 < timeout_seconds cb"
    and "unat (failures cb) < unat (failure_threshold cb)"
  shows "cb_state (foldl (\<lambda>cb now. record_failure now cb) cb ts) =
    (if length ts + unat (failures cb) < unat (failure_threshold cb) then Closed else Open)"
  using assms
proof (induction ts arbitrary: cb)
  case (Cons now ts)
  have suc: "unat (failures cb + 1) = unat (failures cb) + 1"
  proof -
    have "failures cb < failure_threshold cb" using Cons.prems(3) by (simp add: word_less_nat_alt)
    then have "1 + failures cb \<noteq> 0"
      by (metis add.commute add_neg_numeral_special(7) eq_neg_iff_add_eq_0 leD word_order.extremum)
    then show ?thesis using unatSuc [of "failures cb"] by (simp add: add.commute)
  qed
  have stay: "cb_state (foldl (\<lambda>cb now. record_failure now cb) b us) = Open"
    if "cb_state b = Open" "0 < timeout_seconds b" for b us
    using that by (induction us arbitrary: b) (auto simp: breaker_defs)
  show ?case
  proof (cases "failure_threshold cb \<le> failures cb + 1")
    case True
    then show ?thesis
      using Cons.prems suc stay [of "record_failure now cb" ts]
      by (auto simp: breaker_defs word_le_nat_alt)
  next
    case False
    then show ?thesis
      using Cons.prems suc Cons.IH [of "record_failure now cb"]
      by (auto simp: breaker_defs word_le_nat_alt)
  qed
qed simp

text \<open>The breaker opens exactly at the threshold: after \<open>k\<close> consecutive failures, at whatever
  times, a new breaker with a positive threshold and timeout is Open if and only if \<open>k\<close> has reached
  the threshold, and Closed otherwise.\<close>

theorem breaker_opens_at_threshold:
  assumes "0 < threshold" and "0 < timeout"
  shows "get_state (foldl (\<lambda>cb now. record_failure now cb) (CircuitBreaker_new threshold timeout) ts) =
    (if length ts < unat threshold then Closed else Open)"
  using record_failures_closed [of "CircuitBreaker_new threshold timeout" ts] assms
  by (simp add: CircuitBreaker_new_def get_state_def word_less_nat_alt)

text \<open>An Open breaker rejects requests until the timeout has passed since the last recorded
  failure, then lets a request through, and one success closes it with a clean count while one
  failure opens it again.\<close>

theorem breaker_recovers:
  assumes "cb_state cb = Open" and "last_failure cb \<le> now"
  shows "if now - last_failure cb < timeout_seconds cb
    then should_allow_request now cb = (False, cb)
    else fst (should_allow_request now cb)
      \<and> get_state (record_success (snd (should_allow_request now cb))) = Closed
      \<and> failure_count (record_success (snd (should_allow_request now cb))) = 0
      \<and> get_state (record_failure now' (snd (should_allow_request now cb))) = Open"
  using assms by (auto simp: breaker_defs get_state_def failure_count_def)

section \<open>Calls through the failover strategy\<close>

text \<open>Calls to one service at the given times, each time used for the check and for the record.\<close>

fun calls :: "u64 list \<Rightarrow> string \<Rightarrow> FailoverStrategy \<Rightarrow> ServiceResponse list \<times> FailoverStrategy" where
  "calls [] name fs = ([], fs)"
| "calls (now # ts) name fs =
     (let (r, fs') = call_with_failover now now name fs; (rs, fs'') = calls ts name fs'
      in (r # rs, fs''))"

text \<open>Each time is less than \<open>t\<close> seconds after the one before.\<close>

fun busy :: "u64 \<Rightarrow> u64 \<Rightarrow> u64 list \<Rightarrow> bool" where
  "busy t prev [] = True"
| "busy t prev (now # ts) \<longleftrightarrow> now - prev < t \<and> busy t now ts"

lemma rejected_call:
  assumes "hm_get (circuit_breakers fs) name = Some cb" "cb_state cb = Open"
    and "now - last_failure cb < timeout_seconds cb"
  shows "call_with_failover now now name fs =
    ((case get_fallback fs name of Some _ \<Rightarrow> ServiceResponse_ok ''Fallback mode''
      | None \<Rightarrow> ServiceResponse_error 503 ''Service unavailable - circuit open''),
     set_breaker name (cb\<lparr>last_failure := now\<rparr>) fs)"
proof -
  have "0 < timeout_seconds cb" using assms(3) by (metis word_gt_0 word_not_simps(1))
  then show ?thesis
    using assms by (auto simp: call_with_failover_def breaker_defs not_le)
qed

text \<open>(C40) Rejected calls keep a circuit open: \<open>call_with_failover\<close> records a failure for a call it
  rejects, which restarts the timeout. As long as calls arrive less than the timeout apart, no
  call reaches the primary service and the circuit stays Open, for however long and even though the
  service may have recovered.\<close>

theorem rejected_calls_keep_open:
  assumes "hm_get (circuit_breakers fs) name = Some cb" and "cb_state cb = Open"
    and "busy (timeout_seconds cb) (last_failure cb) ts"
  shows "get_service_state (snd (calls ts name fs)) name = Some Open
    \<and> ServiceResponse_ok ''Success'' \<notin> set (fst (calls ts name fs))"
  using assms
proof (induction ts arbitrary: fs cb)
  case (Cons now ts)
  let ?cb = "cb\<lparr>last_failure := now\<rparr>"
  let ?fs = "set_breaker name ?cb fs"
  have "get_service_state (snd (calls ts name ?fs)) name = Some Open
    \<and> ServiceResponse_ok ''Success'' \<notin> set (fst (calls ts name ?fs))"
    by (rule Cons.IH [of _ ?cb]) (use Cons.prems in \<open>simp_all add: set_breaker_def update_conv'\<close>)
  then show ?case
    using rejected_call [of fs name cb now] Cons.prems
    by (auto simp: split_beta Let_def ServiceResponse_ok_def ServiceResponse_error_def
        split: option.splits)
qed (simp add: get_service_state_def get_state_def)

theorem rejected_calls_keep_open_witness:
  "let cb = \<lparr>failures = 3, failure_threshold = 3, timeout_seconds = 10, last_failure = 100,
             cb_state = Open\<rparr>;
       fs = set_breaker ''db'' cb FailoverStrategy_new
   in get_service_state (snd (calls [105, 110, 115, 120] ''db'' fs)) ''db'' = Some Open"
proof -
  let ?cb = "\<lparr>failures = 3, failure_threshold = 3, timeout_seconds = 10, last_failure = 100,
             cb_state = Open\<rparr>"
  have "busy (timeout_seconds ?cb) (last_failure ?cb) [105, 110, 115, 120]" by simp
  from rejected_calls_keep_open [OF _ _ this, of "set_breaker ''db'' ?cb FailoverStrategy_new" "''db''"]
  show ?thesis by (simp add: set_breaker_def FailoverStrategy_new_def del: calls.simps)
qed

end
