(* ===== verification/Epoch_Guard.thy ===== *)
theory Epoch_Guard
  imports Skylet_Prelude
begin

text \<open>
  Epoch-guarded plugin access, \<open>src/plugin_manager/epoch_guard.rs\<close>: readers pin an epoch, load the
  pointer and hold it; writers pin, swap the pointer and hand the old object to
  \<open>crossbeam_epoch\<close> for deferred destruction. Each atomic action is a step, so that readers and writers
  interleave between them. When the collector may destroy a retired object is a parameter,
  \<open>may_collect\<close>, of which the code relies on one documented law: an object is not destroyed while a
  guard that was pinned when it was retired is still pinned.

  Loaders are natural numbers (their addresses), guards are natural numbers.
\<close>

section \<open>State and atomic actions\<close>

record epoch_state =
  inner :: "nat option"
  pinned :: "nat set"
  held :: "nat \<rightharpoonup> nat"
  swapped :: "nat \<rightharpoonup> nat option"
  garbage :: "nat \<rightharpoonup> nat set"
  destroyed :: "nat set"
  allocated :: "nat set"

definition EpochGuardedPlugin_new :: "nat \<Rightarrow> epoch_state" where
  "EpochGuardedPlugin_new loader =
     \<lparr>inner = Some loader, pinned = {}, held = Map.empty, swapped = Map.empty, garbage = Map.empty,
      destroyed = {}, allocated = {loader}\<rparr>"

definition pin :: "nat \<Rightarrow> epoch_state \<Rightarrow> epoch_state" where
  "pin g s = s\<lparr>pinned := insert g (pinned s)\<rparr>"

definition unpin :: "nat \<Rightarrow> epoch_state \<Rightarrow> epoch_state" where
  "unpin g s = s\<lparr>pinned := pinned s - {g}\<rparr>"

text \<open>The load in \<open>access\<close>: a null pointer drops the guard and returns \<open>None\<close>.\<close>

definition access_load :: "nat \<Rightarrow> epoch_state \<Rightarrow> epoch_state" where
  "access_load g s =
     (case inner s of
        None \<Rightarrow> unpin g s
      | Some p \<Rightarrow> s\<lparr>held := (held s)(g \<mapsto> p)\<rparr>)"

text \<open>Dropping a \<open>PluginGuard\<close>.\<close>

definition guard_drop :: "nat \<Rightarrow> epoch_state \<Rightarrow> epoch_state" where
  "guard_drop g s = unpin g (s\<lparr>held := (held s)(g := None)\<rparr>)"

text \<open>The swap in \<open>replace\<close> (with a new loader), \<open>unload\<close> and \<open>drop\<close> (with null).\<close>

definition swap_inner :: "nat \<Rightarrow> nat option \<Rightarrow> epoch_state \<Rightarrow> epoch_state" where
  "swap_inner w new s =
     s\<lparr>inner := new, swapped := (swapped s)(w \<mapsto> inner s),
       allocated := allocated s \<union> set_option new\<rparr>"

text \<open>\<open>defer_destroy\<close> of the old object, if any, and the end of the writer's guard.\<close>

definition defer_destroy :: "nat \<Rightarrow> epoch_state \<Rightarrow> epoch_state" where
  "defer_destroy w s =
     unpin w ((case swapped s w of
        Some (Some old) \<Rightarrow> s\<lparr>garbage := (garbage s)(old \<mapsto> pinned s)\<rparr>
      | _ \<Rightarrow> s)\<lparr>swapped := (swapped s)(w := None)\<rparr>)"

definition collect :: "nat \<Rightarrow> epoch_state \<Rightarrow> epoch_state" where
  "collect p s =
     s\<lparr>garbage := (garbage s)(p := None), destroyed := insert p (destroyed s)\<rparr>"

section \<open>The operations, run without interference\<close>

definition access :: "nat \<Rightarrow> epoch_state \<Rightarrow> nat option \<times> epoch_state" where
  "access g s = (let s' = access_load g (pin g s) in (held s' g, s'))"

definition plugin_of_guard :: "nat \<Rightarrow> epoch_state \<Rightarrow> nat option" where
  "plugin_of_guard g s = held s g"

definition replace :: "nat \<Rightarrow> nat \<Rightarrow> epoch_state \<Rightarrow> epoch_state" where
  "replace w new_loader s = defer_destroy w (swap_inner w (Some new_loader) (pin w s))"

definition unload :: "nat \<Rightarrow> epoch_state \<Rightarrow> bool \<times> epoch_state" where
  "unload w s = (inner s \<noteq> None, defer_destroy w (swap_inner w None (pin w s)))"

definition is_loaded :: "epoch_state \<Rightarrow> bool" where
  "is_loaded s \<longleftrightarrow> inner s \<noteq> None"

definition drop_plugin :: "nat \<Rightarrow> epoch_state \<Rightarrow> epoch_state" where
  "drop_plugin w s = defer_destroy w (swap_inner w None (pin w s))"

lemmas epoch_defs = pin_def unpin_def access_load_def guard_drop_def swap_inner_def defer_destroy_def
  collect_def

section \<open>Interleavings\<close>

text \<open>A guard that is pinned and neither holds a loader nor has a swap to finish.\<close>

definition fresh_guard :: "epoch_state \<Rightarrow> nat \<Rightarrow> bool" where
  "fresh_guard s g \<longleftrightarrow> g \<in> pinned s \<and> held s g = None \<and> swapped s g = None"

inductive epoch_step :: "(nat set \<Rightarrow> nat set \<Rightarrow> bool) \<Rightarrow> epoch_state \<Rightarrow> epoch_state \<Rightarrow> bool"
  for may_collect where
  step_pin: "g \<notin> pinned s \<Longrightarrow> epoch_step may_collect s (pin g s)"
| step_load: "fresh_guard s g \<Longrightarrow> epoch_step may_collect s (access_load g s)"
| step_peek: "fresh_guard s g \<Longrightarrow> epoch_step may_collect s (unpin g s)"
| step_drop: "held s g \<noteq> None \<Longrightarrow> epoch_step may_collect s (guard_drop g s)"
| step_replace: "fresh_guard s w \<Longrightarrow> new \<notin> allocated s \<Longrightarrow>
    epoch_step may_collect s (swap_inner w (Some new) s)"
| step_unload: "fresh_guard s w \<Longrightarrow> epoch_step may_collect s (swap_inner w None s)"
| step_defer: "swapped s w \<noteq> None \<Longrightarrow> epoch_step may_collect s (defer_destroy w s)"
| step_collect: "garbage s p = Some S \<Longrightarrow> may_collect (pinned s) S \<Longrightarrow>
    epoch_step may_collect s (collect p s)"

inductive epoch_reachable :: "(nat set \<Rightarrow> nat set \<Rightarrow> bool) \<Rightarrow> epoch_state \<Rightarrow> bool"
  for may_collect where
  reach_new: "epoch_reachable may_collect (EpochGuardedPlugin_new loader)"
| reach_step: "epoch_reachable may_collect s \<Longrightarrow> epoch_step may_collect s s' \<Longrightarrow>
    epoch_reachable may_collect s'"

section \<open>The invariant\<close>

text \<open>Where a loader that is not destroyed can be: in the pointer, in the hands of a writer, or
  retired; in one of these places only.\<close>

definition in_swap :: "epoch_state \<Rightarrow> nat \<Rightarrow> bool" where
  "in_swap s p \<longleftrightarrow> (\<exists>w. swapped s w = Some (Some p))"

definition retired :: "epoch_state \<Rightarrow> nat \<Rightarrow> bool" where
  "retired s p \<longleftrightarrow> garbage s p \<noteq> None"

definition places_inv :: "epoch_state \<Rightarrow> bool" where
  "places_inv s \<longleftrightarrow>
     (\<forall>p. inner s = Some p \<longrightarrow> \<not> in_swap s p \<and> \<not> retired s p \<and> p \<notin> destroyed s \<and> p \<in> allocated s)
   \<and> (\<forall>p. in_swap s p \<longrightarrow> \<not> retired s p \<and> p \<notin> destroyed s \<and> p \<in> allocated s)
   \<and> (\<forall>p. retired s p \<longrightarrow> p \<notin> destroyed s \<and> p \<in> allocated s)
   \<and> (\<forall>p. p \<in> destroyed s \<longrightarrow> p \<in> allocated s)
   \<and> (\<forall>v w p. swapped s v = Some (Some p) \<longrightarrow> swapped s w = Some (Some p) \<longrightarrow> v = w)"

text \<open>A held loader is in one of these places, and when it is retired its holder was pinned then.\<close>

definition held_inv :: "epoch_state \<Rightarrow> bool" where
  "held_inv s \<longleftrightarrow>
     (\<forall>g p. held s g = Some p \<longrightarrow> g \<in> pinned s \<and> swapped s g = None
        \<and> (inner s = Some p \<or> in_swap s p \<or> (\<exists>S. garbage s p = Some S \<and> g \<in> S)))
   \<and> (\<forall>w. swapped s w \<noteq> None \<longrightarrow> w \<in> pinned s)"

lemma in_swap_swap:
  "swapped s w = None \<Longrightarrow> in_swap (swap_inner w new s) p \<longleftrightarrow> inner s = Some p \<or> in_swap s p"
  unfolding in_swap_def by (simp add: swap_inner_def) (metis option.distinct(1))

lemma held_inv_swap:
  assumes "fresh_guard s w" and "held_inv s"
  shows "held_inv (swap_inner w new s)"
proof -
  have sw: "in_swap (swap_inner w new s) p \<longleftrightarrow> inner s = Some p \<or> in_swap s p" for p
    using assms(1) by (simp add: in_swap_swap fresh_guard_def)
  show ?thesis
    using assms unfolding held_inv_def sw by (auto simp: swap_inner_def fresh_guard_def)
qed

text \<open>The contract of the collector.\<close>

locale epoch_collector =
  fixes may_collect :: "nat set \<Rightarrow> nat set \<Rightarrow> bool"
  assumes collect_waits: "may_collect live S \<Longrightarrow> live \<inter> S = {}"
begin

lemma places_step:
  assumes "epoch_step may_collect s s'" and "places_inv s"
  shows "places_inv s'"
  using assms
proof (cases rule: epoch_step.cases)
  case (step_defer w)
  then obtain x where x: "swapped s w = Some x" by auto
  with assms(2) step_defer(1) show ?thesis
    by (cases x) (auto simp: places_inv_def epoch_defs in_swap_def retired_def)
qed (auto simp: places_inv_def epoch_defs in_swap_def retired_def fresh_guard_def
    split: option.splits)

lemma held_step:
  assumes "epoch_step may_collect s s'" and "held_inv s" and "places_inv s"
  shows "held_inv s'"
  using assms(1)
proof (cases rule: epoch_step.cases)
  case (step_collect p S)
  have "pinned s \<inter> S = {}" using step_collect(3) by (rule collect_waits)
  with assms(2,3) step_collect(1,2) show ?thesis
    by (fastforce simp: held_inv_def places_inv_def epoch_defs in_swap_def retired_def)
next
  case (step_defer w)
  then obtain x where x: "swapped s w = Some x" by auto
  have hw: "held s w = None"
    using assms(2) x by (cases "held s w") (auto simp: held_inv_def)
  show ?thesis
  proof (cases x)
    case None
    then have "in_swap (defer_destroy w s) p \<longleftrightarrow> in_swap s p" for p
      using x unfolding in_swap_def by (simp add: epoch_defs) (metis option.inject option.distinct(1))
    with None x hw assms(2) step_defer(1) show ?thesis
      by (auto simp: held_inv_def epoch_defs)
  next
    case (Some old)
    let ?s = "defer_destroy w s"
    have fields: "inner ?s = inner s" "held ?s = held s" "pinned ?s = pinned s - {w}"
      "garbage ?s = (garbage s)(old \<mapsto> pinned s)" "swapped ?s = (swapped s)(w := None)"
      using Some x by (simp_all add: epoch_defs)
    have move: "in_swap ?s p \<or> p = old" if "in_swap s p" for p
      using x Some that unfolding in_swap_def fields by (metis fun_upd_apply option.inject)
    have "g \<in> pinned ?s \<and> swapped ?s g = None
        \<and> (inner ?s = Some p \<or> in_swap ?s p \<or> (\<exists>S. garbage ?s p = Some S \<and> g \<in> S))"
      if "held s g = Some p" for g p
    proof -
      have "g \<in> pinned s \<and> swapped s g = None
          \<and> (inner s = Some p \<or> in_swap s p \<or> (\<exists>S. garbage s p = Some S \<and> g \<in> S))"
        using assms(2) that unfolding held_inv_def by blast
      with move [of p] hw that show ?thesis unfolding fields by (cases "p = old") auto
    qed
    moreover have "swapped ?s v \<noteq> None \<longrightarrow> v \<in> pinned ?s" for v
      using assms(2) unfolding held_inv_def fields by auto
    ultimately show ?thesis unfolding step_defer(1) held_inv_def fields by blast
  qed
next
  case (step_replace w new)
  with assms(2) show ?thesis by (simp add: held_inv_swap)
next
  case (step_unload w)
  with assms(2) show ?thesis by (simp add: held_inv_swap)
next
  case (step_drop g)
  with assms(2) show ?thesis
    by (auto simp: held_inv_def epoch_defs in_swap_def)
qed (use assms(2) in \<open>auto simp: held_inv_def epoch_defs in_swap_def fresh_guard_def
    split: option.splits\<close>)

lemma epoch_invs:
  assumes "epoch_reachable may_collect s"
  shows "held_inv s \<and> places_inv s"
  using assms
proof (induction rule: epoch_reachable.induct)
  case (reach_new loader)
  show ?case
    by (simp add: held_inv_def places_inv_def EpochGuardedPlugin_new_def in_swap_def retired_def)
next
  case (reach_step s s')
  then show ?case using held_step [of s s'] places_step [of s s'] by blast
qed

lemma held_not_destroyed:
  assumes "epoch_reachable may_collect s" and "held s g = Some p"
  shows "p \<notin> destroyed s"
proof -
  have "inner s = Some p \<or> in_swap s p \<or> retired s p"
    using epoch_invs [OF assms(1)] assms(2) by (force simp: held_inv_def retired_def)
  then show ?thesis using epoch_invs [OF assms(1)] unfolding places_inv_def by blast
qed

lemma current_not_destroyed:
  assumes "epoch_reachable may_collect s" and "inner s = Some p"
  shows "p \<notin> destroyed s \<and> \<not> retired s p"
  using epoch_invs [OF assms(1)] assms(2) by (auto simp: places_inv_def)

end

text \<open>The most permissive collector that keeps the contract.\<close>

definition eager_collect :: "nat set \<Rightarrow> nat set \<Rightarrow> bool" where
  "eager_collect live S \<longleftrightarrow> live \<inter> S = {}"

interpretation eager: epoch_collector eager_collect
  by unfold_locales (simp add: eager_collect_def)

text \<open>(C4) No use after free: under every interleaving of accesses, guard drops, replacements,
  unloads and collections, a loader that a guard holds is not destroyed, and neither is the current
  one, provided that the collector waits for the guards that were pinned when a loader was retired.\<close>

theorem guard_keeps_plugin_alive:
  assumes "\<And>live S. may_collect live S \<Longrightarrow> live \<inter> S = {}"
    and "epoch_reachable may_collect s"
  shows "(\<forall>g. case plugin_of_guard g s of None \<Rightarrow> True | Some p \<Rightarrow> p \<notin> destroyed s)
    \<and> (case inner s of None \<Rightarrow> True | Some p \<Rightarrow> p \<notin> destroyed s)"
proof -
  have "epoch_collector may_collect" using assms(1) by (rule epoch_collector.intro)
  from epoch_collector.held_not_destroyed [OF this assms(2)]
    epoch_collector.current_not_destroyed [OF this assms(2)]
  show ?thesis by (auto simp: plugin_of_guard_def split: option.splits)
qed

text \<open>The operations are sequences of steps: guard 1 accesses loader 7, then guard 2 replaces it.\<close>

lemma replace_under_access:
  "epoch_reachable eager_collect (replace 2 8 (snd (access 1 (EpochGuardedPlugin_new 7))))"
proof -
  have a: "epoch_reachable eager_collect (access_load 1 (pin 1 (EpochGuardedPlugin_new 7)))"
    by (rule reach_step [OF reach_step [OF reach_new step_pin] step_load])
      (simp_all add: fresh_guard_def EpochGuardedPlugin_new_def pin_def)
  show ?thesis
    unfolding replace_def access_def Let_def snd_conv
    by (rule reach_step [OF reach_step [OF reach_step [OF a step_pin] step_replace] step_defer])
      (simp_all add: fresh_guard_def EpochGuardedPlugin_new_def epoch_defs)
qed

theorem guard_keeps_plugin_alive_witness:
  "let s = replace 2 8 (snd (access 1 (EpochGuardedPlugin_new 7)))
   in plugin_of_guard 1 s = Some 7 \<and> inner s = Some 8 \<and> retired s 7 \<and> 7 \<notin> destroyed s"
proof -
  let ?s = "replace 2 8 (snd (access 1 (EpochGuardedPlugin_new 7)))"
  have "plugin_of_guard 1 ?s = Some 7 \<and> inner ?s = Some 8 \<and> retired ?s 7"
    by (simp add: replace_def access_def plugin_of_guard_def retired_def epoch_defs
        EpochGuardedPlugin_new_def)
  moreover from this have "7 \<notin> destroyed ?s"
    using guard_keeps_plugin_alive [OF eager.collect_waits replace_under_access]
    by (metis (no_types, lifting) option.simps(5))
  ultimately show ?thesis by (simp only: Let_def simp_thms)
qed

end
