(* ===== verification/Permissions.thy ===== *)
theory Permissions
  imports Rust_Str
begin

text \<open>
  User-level permissions: \<open>permissions/src/types.rs\<close> (permissions, roles, sessions, user contexts)
  and \<open>permissions/src/authz.rs\<close> (role checker with its cache, resource grants, audit log). Random
  identifiers and the clock are arguments. Dates are integers and instants natural numbers, both in
  nanoseconds; the timestamps in claims are integers of seconds. The JSON values in claims are a type
  parameter. User and tenant identifiers, which wrap a string, are strings.
\<close>

section \<open>Types\<close>

record Permission =
  namespace :: string
  resource :: string
  action :: string

definition Permission_new :: "string \<Rightarrow> string \<Rightarrow> string \<Rightarrow> Permission" where
  "Permission_new n r a = \<lparr>namespace = n, resource = r, action = a\<rparr>"

definition as_str :: "Permission \<Rightarrow> string" where
  "as_str p = namespace p @ '':'' @ resource p @ '':'' @ action p"

definition Permission_try_parse :: "string \<Rightarrow> Permission option" where
  "Permission_try_parse s =
     (case split_on CHR '':'' s of
        [n, r, a] \<Rightarrow> Some \<lparr>namespace = n, resource = r, action = a\<rparr>
      | _ \<Rightarrow> None)"

definition matches_part :: "string \<Rightarrow> string \<Rightarrow> bool" where
  "matches_part val pattern \<longleftrightarrow> pattern = ''*'' \<or> val = pattern"

definition Permission_matches :: "Permission \<Rightarrow> Permission \<Rightarrow> bool" where
  "Permission_matches p pattern \<longleftrightarrow>
     matches_part (namespace p) (namespace pattern)
     \<and> matches_part (resource p) (resource pattern)
     \<and> matches_part (action p) (action pattern)"

record Role =
  role_name :: string
  role_description :: "string option"
  role_permissions :: "Permission list"

definition Role_new :: "string \<Rightarrow> Role" where
  "Role_new n = \<lparr>role_name = n, role_description = None, role_permissions = []\<rparr>"

definition with_permission :: "Permission \<Rightarrow> Role \<Rightarrow> Role" where
  "with_permission p r = r\<lparr>role_permissions := role_permissions r @ [p]\<rparr>"

definition with_description :: "string \<Rightarrow> Role \<Rightarrow> Role" where
  "with_description d r = r\<lparr>role_description := Some d\<rparr>"

definition Role_has_permission :: "Role \<Rightarrow> Permission \<Rightarrow> bool" where
  "Role_has_permission r p \<longleftrightarrow> list_ex (\<lambda>q. Permission_matches p q) (role_permissions r)"

definition admin_role :: Role where
  "admin_role = with_permission (Permission_new ''*'' ''*'' ''*'')
     (with_description ''Full administrative access'' (Role_new ''admin''))"

definition user_role :: Role where
  "user_role = with_permission (Permission_new ''self'' ''*'' ''write'')
     (with_permission (Permission_new ''self'' ''*'' ''read'')
       (with_description ''Standard user access'' (Role_new ''user'')))"

definition guest_role :: Role where
  "guest_role = with_permission (Permission_new ''public'' ''*'' ''read'')
     (with_description ''Guest access'' (Role_new ''guest''))"

record UserIdentity =
  ui_user_id :: string
  age_public_key :: string
  ed25519_public_key :: "string option"
  display_name :: "string option"
  email :: "string option"
  created_at :: int
  updated_at :: int
  ui_metadata :: "(string, string) hashmap"

definition UserIdentity_new :: "string \<Rightarrow> int \<Rightarrow> string \<Rightarrow> UserIdentity" where
  "UserIdentity_new uuid now key =
     \<lparr>ui_user_id = uuid, age_public_key = key, ed25519_public_key = None, display_name = None,
      email = None, created_at = now, updated_at = now, ui_metadata = []\<rparr>"

definition with_ed25519_key :: "string \<Rightarrow> UserIdentity \<Rightarrow> UserIdentity" where
  "with_ed25519_key k u = u\<lparr>ed25519_public_key := Some k\<rparr>"

definition with_display_name :: "string \<Rightarrow> UserIdentity \<Rightarrow> UserIdentity" where
  "with_display_name n u = u\<lparr>display_name := Some n\<rparr>"

definition with_email :: "string \<Rightarrow> UserIdentity \<Rightarrow> UserIdentity" where
  "with_email e u = u\<lparr>email := Some e\<rparr>"

record SessionToken =
  token :: string
  st_user_id :: string
  issued_at :: int
  expires_at :: int
  st_tenant_id :: "string option"

definition SessionToken_new :: "string \<Rightarrow> int \<Rightarrow> string \<Rightarrow> int \<Rightarrow> SessionToken" where
  "SessionToken_new uuid now user_id ttl_seconds =
     \<lparr>token = uuid, st_user_id = user_id, issued_at = now,
      expires_at = now + ttl_seconds * 1000000000, st_tenant_id = None\<rparr>"

definition is_expired :: "int \<Rightarrow> SessionToken \<Rightarrow> bool" where
  "is_expired now t \<longleftrightarrow> now > expires_at t"

definition with_tenant :: "string \<Rightarrow> SessionToken \<Rightarrow> SessionToken" where
  "with_tenant t s = s\<lparr>st_tenant_id := Some t\<rparr>"

record 'json Claims =
  claim_sub :: string
  claim_iss :: "string option"
  claim_aud :: "string option"
  claim_exp :: int
  claim_iat :: int
  claim_nbf :: "int option"
  claim_custom :: "(string, 'json) hashmap"

definition Claims_new :: "int \<Rightarrow> string \<Rightarrow> int \<Rightarrow> 'json Claims" where
  "Claims_new now user_id ttl_seconds =
     \<lparr>claim_sub = user_id, claim_iss = None, claim_aud = None, claim_exp = now + ttl_seconds,
      claim_iat = now, claim_nbf = None, claim_custom = []\<rparr>"

definition with_claim :: "string \<Rightarrow> 'json \<Rightarrow> 'json Claims \<Rightarrow> 'json Claims" where
  "with_claim k v c = c\<lparr>claim_custom := hm_insert k v (claim_custom c)\<rparr>"

record TenantSettings =
  max_users :: "nat option"
  session_ttl_seconds :: int
  allowed_auth_providers :: "string list"

definition TenantSettings_default :: TenantSettings where
  "TenantSettings_default =
     \<lparr>max_users = None, session_ttl_seconds = 3600, allowed_auth_providers = [''local'']\<rparr>"

record Tenant =
  tenant_id :: string
  tenant_name :: string
  tenant_created_at :: int
  tenant_settings :: TenantSettings

record 'json Session =
  session_token :: SessionToken
  session_user :: UserIdentity
  session_claims :: "'json Claims"
  session_roles :: "Role list"
  session_permissions :: "Permission list"

record UserContext =
  uc_user_id :: string
  uc_session_id :: string
  uc_tenant_id :: "string option"
  uc_roles :: "string list"
  uc_permissions :: "string list"
  uc_metadata :: "(string, string) hashmap"

definition from_session :: "'json Session \<Rightarrow> UserContext" where
  "from_session s =
     \<lparr>uc_user_id = ui_user_id (session_user s), uc_session_id = token (session_token s),
      uc_tenant_id = st_tenant_id (session_token s), uc_roles = map role_name (session_roles s),
      uc_permissions = map as_str (session_permissions s), uc_metadata = ui_metadata (session_user s)\<rparr>"

datatype 'json AuthResult =
    AuthSuccess "'json Session"
  | InvalidCredentials
  | AccountLocked
  | AccountExpired
  | ProviderUnavailable
  | TokenExpired
  | TokenInvalid
  | RateLimited

definition UserContext_has_permission :: "UserContext \<Rightarrow> Permission \<Rightarrow> bool" where
  "UserContext_has_permission ctx p \<longleftrightarrow>
     list_ex (\<lambda>s. case Permission_try_parse s of
          Some parsed \<Rightarrow> Permission_matches p parsed | None \<Rightarrow> False) (uc_permissions ctx)"

section \<open>Permission strings\<close>

text \<open>No component contains the separator.\<close>

definition clean :: "Permission \<Rightarrow> bool" where
  "clean p \<longleftrightarrow> CHR '':'' \<notin> set (namespace p) \<and> CHR '':'' \<notin> set (resource p) \<and> CHR '':'' \<notin> set (action p)"

lemma permission_roundtrip: "clean p \<Longrightarrow> Permission_try_parse (as_str p) = Some p"
  by (cases p) (simp add: Permission_try_parse_def as_str_def clean_def split_on_append split_on_no_sep)

lemma as_str_inj: "clean p \<Longrightarrow> clean q \<Longrightarrow> as_str p = as_str q \<longleftrightarrow> p = q"
  by (metis option.inject permission_roundtrip)

lemma try_parse_clean: "Permission_try_parse s = Some p \<Longrightarrow> clean p \<and> as_str p = s"
proof -
  assume "Permission_try_parse s = Some p"
  then have parts: "split_on CHR '':'' s = [namespace p, resource p, action p]"
    by (auto simp: Permission_try_parse_def split: list.splits)
  have "CHR '':'' \<notin> set x" if "x \<in> {namespace p, resource p, action p}" for x
    using that parts by (intro split_on_pieces [of x "CHR '':''" s]) auto
  then have "clean p" by (simp add: clean_def)
  moreover have "as_str p = s"
    using join_split_on [of "CHR '':''" s] unfolding parts by (simp add: as_str_def)
  ultimately show ?thesis by simp
qed

text \<open>Permission strings: printing and parsing are inverse on permissions whose components have
  no colon, the parser accepts exactly the strings such permissions print to, and a user context made
  from a session with such permissions grants exactly what the session's permissions grant.\<close>

theorem permission_strings:
  "(Permission_try_parse s = Some p \<longleftrightarrow> clean p \<and> s = as_str p)
   \<and> (list_all clean (session_permissions sess) \<longrightarrow>
        UserContext_has_permission (from_session sess) q
          = list_ex (Permission_matches q) (session_permissions sess))"
  using permission_roundtrip [of p] try_parse_clean [of s p]
  by (auto simp: UserContext_has_permission_def from_session_def list_ex_iff list_all_iff
      permission_roundtrip)

end
