(* ===== verification/Authz.thy ===== *)
theory Authz
  imports Permissions
begin

text \<open>
  Authorization, \<open>permissions/src/authz.rs\<close>: the role checker and its cache with a time to live, the
  middleware, resource grants and the bounded audit log. Each operation takes the instants it reads,
  in nanoseconds; \<open>elapsed\<close> saturates at zero, like subtraction on natural numbers.
\<close>

section \<open>Permission cache\<close>

record CacheEntry =
  granted :: bool
  cached_at :: nat

record PermissionCache =
  entries :: "(string, (string, CacheEntry) hashmap) hashmap"
  ttl :: nat

definition PermissionCache_new :: "nat \<Rightarrow> PermissionCache" where
  "PermissionCache_new t = \<lparr>entries = [], ttl = t\<rparr>"

definition cache_get :: "nat \<Rightarrow> PermissionCache \<Rightarrow> string \<Rightarrow> Permission \<Rightarrow> bool option" where
  "cache_get now c user_id permission =
     (case hm_get (entries c) user_id of
        None \<Rightarrow> None
      | Some user_cache \<Rightarrow>
          (case hm_get user_cache (as_str permission) of
             None \<Rightarrow> None
           | Some entry \<Rightarrow> if now - cached_at entry > ttl c then None else Some (granted entry)))"

definition cache_set :: "nat \<Rightarrow> string \<Rightarrow> Permission \<Rightarrow> bool \<Rightarrow> PermissionCache \<Rightarrow> PermissionCache" where
  "cache_set now user_id permission g c =
     (let user_cache = (case hm_get (entries c) user_id of None \<Rightarrow> [] | Some uc \<Rightarrow> uc)
      in c\<lparr>entries := hm_insert user_id
            (hm_insert (as_str permission) \<lparr>granted = g, cached_at = now\<rparr> user_cache) (entries c)\<rparr>)"

definition invalidate_user :: "string \<Rightarrow> PermissionCache \<Rightarrow> PermissionCache" where
  "invalidate_user user_id c = c\<lparr>entries := AList.delete user_id (entries c)\<rparr>"

definition cache_clear :: "PermissionCache \<Rightarrow> PermissionCache" where
  "cache_clear c = c\<lparr>entries := []\<rparr>"

section \<open>Permission checker\<close>

record PermissionChecker =
  roles :: "(string, Role) hashmap"
  user_roles :: "(string, string list) hashmap"
  cache :: PermissionCache

definition PermissionChecker_new :: PermissionChecker where
  "PermissionChecker_new =
     \<lparr>roles = hm_insert ''guest'' guest_role (hm_insert ''user'' user_role
        (hm_insert ''admin'' admin_role [])),
      user_roles = [], cache = PermissionCache_new (300 * 1000000000)\<rparr>"

definition register_role :: "Role \<Rightarrow> PermissionChecker \<Rightarrow> PermissionChecker" where
  "register_role role pc = pc\<lparr>roles := hm_insert (role_name role) role (roles pc)\<rparr>"

definition assign_roles :: "string \<Rightarrow> string list \<Rightarrow> PermissionChecker \<Rightarrow> PermissionChecker" where
  "assign_roles user_id role_names pc =
     pc\<lparr>user_roles := hm_insert user_id role_names (user_roles pc),
        cache := invalidate_user user_id (cache pc)\<rparr>"

definition get_user_roles :: "PermissionChecker \<Rightarrow> string \<Rightarrow> Role list" where
  "get_user_roles pc user_id =
     List.map_filter (\<lambda>name. hm_get (roles pc) name)
       (case hm_get (user_roles pc) user_id of None \<Rightarrow> [] | Some names \<Rightarrow> names)"

definition compute_permission :: "PermissionChecker \<Rightarrow> string \<Rightarrow> Permission \<Rightarrow> bool" where
  "compute_permission pc user_id permission \<longleftrightarrow>
     list_ex (\<lambda>role. Role_has_permission role permission) (get_user_roles pc user_id)"

definition has_permission :: "nat \<Rightarrow> string \<Rightarrow> Permission \<Rightarrow> PermissionChecker
    \<Rightarrow> bool \<times> PermissionChecker" where
  "has_permission now user_id permission pc =
     (case cache_get now (cache pc) user_id permission of
        Some cached \<Rightarrow> (cached, pc)
      | None \<Rightarrow>
          (let has_access = compute_permission pc user_id permission
           in (has_access, pc\<lparr>cache := cache_set now user_id permission has_access (cache pc)\<rparr>)))"

fun has_any_permission :: "nat \<Rightarrow> string \<Rightarrow> Permission list \<Rightarrow> PermissionChecker
    \<Rightarrow> bool \<times> PermissionChecker" where
  "has_any_permission now u [] pc = (False, pc)"
| "has_any_permission now u (p # ps) pc =
     (case has_permission now u p pc of
        (True, pc') \<Rightarrow> (True, pc')
      | (False, pc') \<Rightarrow> has_any_permission now u ps pc')"

fun has_all_permissions :: "nat \<Rightarrow> string \<Rightarrow> Permission list \<Rightarrow> PermissionChecker
    \<Rightarrow> bool \<times> PermissionChecker" where
  "has_all_permissions now u [] pc = (True, pc)"
| "has_all_permissions now u (p # ps) pc =
     (case has_permission now u p pc of
        (True, pc') \<Rightarrow> has_all_permissions now u ps pc'
      | (False, pc') \<Rightarrow> (False, pc'))"

definition invalidate_cache :: "string \<Rightarrow> PermissionChecker \<Rightarrow> PermissionChecker" where
  "invalidate_cache user_id pc = pc\<lparr>cache := invalidate_user user_id (cache pc)\<rparr>"

definition invalidate_all :: "PermissionChecker \<Rightarrow> PermissionChecker" where
  "invalidate_all pc = pc\<lparr>cache := cache_clear (cache pc)\<rparr>"

section \<open>Middleware\<close>

datatype AuthzError =
    PermissionDenied string string
  | InvalidContext
  | SessionExpired
  | TenantMismatch

fun AuthzError_display :: "AuthzError \<Rightarrow> string" where
  "AuthzError_display (PermissionDenied u p) = ''Permission denied for user '' @ u @ '': '' @ p"
| "AuthzError_display InvalidContext = ''Invalid user context''"
| "AuthzError_display SessionExpired = ''Session expired''"
| "AuthzError_display TenantMismatch = ''Tenant mismatch''"

definition authorize :: "nat \<Rightarrow> UserContext \<Rightarrow> Permission \<Rightarrow> PermissionChecker
    \<Rightarrow> (AuthzError + unit) \<times> PermissionChecker" where
  "authorize now ctx required pc =
     (case has_permission now (uc_user_id ctx) required pc of
        (True, pc') \<Rightarrow> (Ok (), pc')
      | (False, pc') \<Rightarrow> (Err (PermissionDenied (uc_user_id ctx) (as_str required)), pc'))"

definition authorize_any :: "nat \<Rightarrow> UserContext \<Rightarrow> Permission list \<Rightarrow> PermissionChecker
    \<Rightarrow> (AuthzError + unit) \<times> PermissionChecker" where
  "authorize_any now ctx ps pc =
     (case has_any_permission now (uc_user_id ctx) ps pc of
        (True, pc') \<Rightarrow> (Ok (), pc')
      | (False, pc') \<Rightarrow>
          (Err (PermissionDenied (uc_user_id ctx) (join '', '' (map as_str ps))), pc'))"

section \<open>Resource grants\<close>

record ResourcePermission =
  resource_type :: string
  resource_id :: string
  rp_action :: string

definition ResourcePermission_new :: "string \<Rightarrow> string \<Rightarrow> string \<Rightarrow> ResourcePermission" where
  "ResourcePermission_new t i a = \<lparr>resource_type = t, resource_id = i, rp_action = a\<rparr>"

definition as_permission :: "ResourcePermission \<Rightarrow> Permission" where
  "as_permission r = Permission_new (resource_type r) (resource_id r) (rp_action r)"

definition resource_key :: "ResourcePermission \<Rightarrow> string" where
  "resource_key r = resource_type r @ '':'' @ resource_id r"

type_synonym ResourceAccessControl = "(string, (string, string list) hashmap) hashmap"

definition ResourceAccessControl_new :: ResourceAccessControl where
  "ResourceAccessControl_new = []"

definition grant :: "string \<Rightarrow> ResourcePermission \<Rightarrow> ResourceAccessControl \<Rightarrow> ResourceAccessControl" where
  "grant user_id r perms =
     (let user_perms = (case hm_get perms user_id of None \<Rightarrow> [] | Some up \<Rightarrow> up);
          actions = (case hm_get user_perms (resource_key r) of None \<Rightarrow> [] | Some as \<Rightarrow> as);
          actions' = (if rp_action r \<notin> set actions then actions @ [rp_action r] else actions)
      in hm_insert user_id (hm_insert (resource_key r) actions' user_perms) perms)"

definition revoke :: "string \<Rightarrow> ResourcePermission \<Rightarrow> ResourceAccessControl \<Rightarrow> ResourceAccessControl" where
  "revoke user_id r perms =
     (case hm_get perms user_id of
        None \<Rightarrow> perms
      | Some user_perms \<Rightarrow>
          (case hm_get user_perms (resource_key r) of
             None \<Rightarrow> perms
           | Some actions \<Rightarrow>
               hm_insert user_id
                 (hm_insert (resource_key r) (filter (\<lambda>a. a \<noteq> rp_action r) actions) user_perms)
                 perms))"

definition check :: "string \<Rightarrow> ResourcePermission \<Rightarrow> ResourceAccessControl \<Rightarrow> bool" where
  "check user_id r perms =
     (case hm_get perms user_id of
        None \<Rightarrow> False
      | Some user_perms \<Rightarrow>
          (case hm_get user_perms (resource_key r) of
             None \<Rightarrow> False
           | Some actions \<Rightarrow> rp_action r \<in> set actions \<or> ''*'' \<in> set actions))"

section \<open>Audit log\<close>

datatype AuthzEventType = PermissionCheck | RoleAssignment | RoleRemoval | ResourceGrant | ResourceRevoke

record AuthzAuditEvent =
  ev_timestamp :: int
  ev_event_type :: AuthzEventType
  ev_user_id :: string
  ev_permission :: "string option"
  ev_resource :: "string option"
  ev_granted :: bool
  ev_reason :: "string option"

record AuthzAuditLog =
  log_events :: "AuthzAuditEvent list"
  max_events :: nat

definition AuthzAuditLog_new :: "nat \<Rightarrow> AuthzAuditLog" where
  "AuthzAuditLog_new m = \<lparr>log_events = [], max_events = m\<rparr>"

definition AuthzAuditLog_default :: AuthzAuditLog where
  "AuthzAuditLog_default = AuthzAuditLog_new 10000"

text \<open>\<open>Vec::remove(0)\<close> panics on an empty vector; \<open>None\<close> stands for the panic.\<close>

definition log_event :: "AuthzAuditEvent \<Rightarrow> AuthzAuditLog \<Rightarrow> AuthzAuditLog option" where
  "log_event e l =
     (if max_events l \<le> length (log_events l)
      then (case log_events l of
              [] \<Rightarrow> None
            | _ # rest \<Rightarrow> Some (l\<lparr>log_events := rest @ [e]\<rparr>))
      else Some (l\<lparr>log_events := log_events l @ [e]\<rparr>))"

definition get_events :: "AuthzAuditLog \<Rightarrow> AuthzAuditEvent list" where
  "get_events l = log_events l"

definition get_events_for_user :: "string \<Rightarrow> AuthzAuditLog \<Rightarrow> AuthzAuditEvent list" where
  "get_events_for_user user_id l = filter (\<lambda>e. ev_user_id e = user_id) (log_events l)"

section \<open>The contract of the cache\<close>

text \<open>What the checker needs of a cache of decisions, by the key under which it files a permission.\<close>

locale decision_cache =
  fixes get :: "nat \<Rightarrow> 'c \<Rightarrow> 'u \<Rightarrow> 'p \<Rightarrow> bool option"
    and put :: "nat \<Rightarrow> 'u \<Rightarrow> 'p \<Rightarrow> bool \<Rightarrow> 'c \<Rightarrow> 'c"
    and drop_user :: "'u \<Rightarrow> 'c \<Rightarrow> 'c"
    and key :: "'p \<Rightarrow> 'k"
  assumes get_put_same: "key p = key q \<Longrightarrow> get now (put t u p b c) u q = Some b' \<Longrightarrow> b' = b"
    and get_put_other: "u \<noteq> v \<or> key p \<noteq> key q \<Longrightarrow> get now (put t u p b c) v q = get now c v q"
    and get_drop: "get now (drop_user u c) v q = (if u = v then None else get now c v q)"
begin

text \<open>Whatever the cache answers, now or later, for the permissions in \<open>P\<close> is the decision \<open>f\<close>.\<close>

definition coherent :: "('p \<Rightarrow> bool) \<Rightarrow> ('u \<Rightarrow> 'p \<Rightarrow> bool) \<Rightarrow> 'c \<Rightarrow> bool" where
  "coherent P f c \<longleftrightarrow> (\<forall>now u p b. P p \<longrightarrow> get now c u p = Some b \<longrightarrow> b = f u p)"

lemma coherentD: "coherent P f c \<Longrightarrow> P p \<Longrightarrow> get now c u p = Some b \<Longrightarrow> b = f u p"
  by (auto simp: coherent_def)

lemma coherent_put:
  assumes "coherent P f c" and "P p" and "inj_on key {p. P p}"
  shows "coherent P f (put t u p (f u p) c)"
  unfolding coherent_def
proof (intro allI impI)
  fix now v q b assume q: "P q" and get: "get now (put t u p (f u p) c) v q = Some b"
  show "b = f v q"
  proof (cases "u = v \<and> key p = key q")
    case True
    moreover from True have "p = q" using assms(2,3) q by (auto dest: inj_onD)
    ultimately show ?thesis using get_put_same [of p q now t u "f u p" c b] get by simp
  next
    case False
    with get have "get now c v q = Some b" using get_put_other [of u v p q now t "f u p" c] by auto
    with assms(1) q show ?thesis by (rule coherentD)
  qed
qed

lemma coherent_drop:
  assumes "coherent P f c" and "\<And>v p. v \<noteq> u \<Longrightarrow> f' v p = f v p"
  shows "coherent P f' (drop_user u c)"
  using assms unfolding coherent_def get_drop by auto

lemma coherent_cong: "coherent P f c \<Longrightarrow> (\<And>u p. f' u p = f u p) \<Longrightarrow> coherent P f' c"
  by (simp add: coherent_def)

end

interpretation pc: decision_cache cache_get cache_set invalidate_user as_str
proof
  fix p q :: Permission and u v :: string and now t :: nat and b b' :: bool and c :: PermissionCache
  show "as_str p = as_str q \<Longrightarrow> cache_get now (cache_set t u p b c) u q = Some b' \<Longrightarrow> b' = b"
    by (simp add: cache_get_def cache_set_def Let_def update_conv' split: if_splits)
  show "u \<noteq> v \<or> as_str p \<noteq> as_str q \<Longrightarrow>
      cache_get now (cache_set t u p b c) v q = cache_get now c v q"
    by (auto simp: cache_get_def cache_set_def Let_def update_conv' split: option.splits)
  show "cache_get now (invalidate_user u c) v q = (if u = v then None else cache_get now c v q)"
    by (simp add: cache_get_def invalidate_user_def delete_conv' split: option.splits)
qed

section \<open>Cached decisions\<close>

datatype checker_op =
    AssignRoles string "string list"
  | RegisterRole Role
  | CheckPermission nat string Permission
  | InvalidateUser string
  | InvalidateAll

fun apply_op :: "checker_op \<Rightarrow> PermissionChecker \<Rightarrow> PermissionChecker" where
  "apply_op (AssignRoles u names) pc = assign_roles u names pc"
| "apply_op (RegisterRole role) pc = register_role role pc"
| "apply_op (CheckPermission now u p) pc = snd (has_permission now u p pc)"
| "apply_op (InvalidateUser u) pc = invalidate_cache u pc"
| "apply_op InvalidateAll pc = invalidate_all pc"

text \<open>Roles are registered before they are assigned, and only permissions without colons are checked.\<close>

fun disciplined_op :: "checker_op \<Rightarrow> PermissionChecker \<Rightarrow> bool" where
  "disciplined_op (RegisterRole role) pc =
     list_all (\<lambda>(_, names). role_name role \<notin> set names) (user_roles pc)"
| "disciplined_op (CheckPermission now u p) pc = clean p"
| "disciplined_op _ pc = True"

inductive disciplined :: "PermissionChecker \<Rightarrow> bool" where
  disciplined_new: "disciplined PermissionChecker_new"
| disciplined_step: "disciplined pc \<Longrightarrow> disciplined_op cop pc \<Longrightarrow> disciplined (apply_op cop pc)"

abbreviation checker_coherent :: "PermissionChecker \<Rightarrow> bool" where
  "checker_coherent pc \<equiv> pc.coherent clean (compute_permission pc) (cache pc)"

lemma as_str_inj_on: "inj_on as_str {p. clean p}"
  by (auto simp: inj_on_def as_str_inj)

lemma compute_cong:
  "get_user_roles pc u = get_user_roles pc' u \<Longrightarrow> compute_permission pc u p = compute_permission pc' u p"
  by (simp add: compute_permission_def)

lemma get_user_roles_assign:
  "v \<noteq> u \<Longrightarrow> get_user_roles (assign_roles u names pc) v = get_user_roles pc v"
  by (simp add: get_user_roles_def assign_roles_def update_conv')

lemma get_user_roles_register:
  assumes "list_all (\<lambda>(_, names). role_name role \<notin> set names) (user_roles pc)"
  shows "get_user_roles (register_role role pc) u = get_user_roles pc u"
proof (cases "hm_get (user_roles pc) u")
  case (Some names)
  with assms have "role_name role \<notin> set names"
    by (auto simp: list_all_iff dest: map_of_SomeD)
  then have "List.map_filter (\<lambda>n. hm_get (hm_insert (role_name role) role (roles pc)) n) names
      = List.map_filter (\<lambda>n. hm_get (roles pc) n) names"
    by (induction names) (auto simp: List.map_filter_simps update_conv' split: option.splits)
  with Some show ?thesis by (simp add: get_user_roles_def register_role_def)
qed (simp add: get_user_roles_def register_role_def List.map_filter_simps)

lemma apply_op_coherent:
  assumes "checker_coherent pc" and "disciplined_op cop pc"
  shows "checker_coherent (apply_op cop pc)"
proof (cases cop)
  case (AssignRoles u names)
  have "pc.coherent clean (compute_permission (assign_roles u names pc)) (invalidate_user u (cache pc))"
    using assms(1) by (rule pc.coherent_drop) (rule compute_cong, erule get_user_roles_assign)
  with AssignRoles show ?thesis by (simp add: assign_roles_def)
next
  case (RegisterRole role)
  with assms(2) have "compute_permission (register_role role pc) v q = compute_permission pc v q" for v q
    by (intro compute_cong get_user_roles_register) simp
  with assms(1) have "pc.coherent clean (compute_permission (register_role role pc)) (cache pc)"
    by (rule pc.coherent_cong)
  with RegisterRole show ?thesis by (simp add: register_role_def)
next
  case (CheckPermission now u p)
  have same: "compute_permission (pc\<lparr>cache := c\<rparr>) = compute_permission pc" for c
    by (rule ext)+ (simp add: compute_permission_def get_user_roles_def)
  from CheckPermission assms show ?thesis
    using pc.coherent_put [OF assms(1) _ as_str_inj_on, of p now u]
    by (auto simp: has_permission_def Let_def same split: option.splits)
next
  case (InvalidateUser u)
  have "pc.coherent clean (compute_permission (invalidate_cache u pc)) (invalidate_user u (cache pc))"
    using assms(1) by (rule pc.coherent_drop)
      (simp add: compute_permission_def get_user_roles_def invalidate_cache_def)
  with InvalidateUser show ?thesis by (simp add: invalidate_cache_def)
next
  case InvalidateAll
  then show ?thesis
    unfolding pc.coherent_def by (simp add: invalidate_all_def cache_clear_def cache_get_def)
qed

lemma disciplined_coherent: "disciplined pc \<Longrightarrow> checker_coherent pc"
proof (induction rule: disciplined.induct)
  case disciplined_new
  show ?case
    unfolding pc.coherent_def
    by (simp add: PermissionChecker_new_def PermissionCache_new_def cache_get_def)
next
  case (disciplined_step pc cop)
  then show ?case by (simp add: apply_op_coherent)
qed

lemma cached_decision:
  assumes "checker_coherent pc" and "clean p"
  shows "fst (has_permission now u p pc) = compute_permission pc u p"
  using pc.coherentD [OF assms, of now u]
  by (auto simp: has_permission_def Let_def split: option.splits)

lemmas checker_eval = Let_def has_permission_def cache_get_def cache_set_def compute_permission_def
  get_user_roles_def assign_roles_def register_role_def PermissionChecker_new_def
  PermissionCache_new_def invalidate_user_def Role_has_permission_def Permission_matches_def
  matches_part_def Permission_new_def with_permission_def with_description_def Role_new_def as_str_def
  guest_role_def List.map_filter_simps

text \<open>(C5) The cache never changes a decision: after any sequence of checks, role assignments,
  invalidations, and registrations of roles that are not assigned yet, \<open>has_permission\<close> answers what
  the user's current roles say, at any time; and \<open>authorize\<close> succeeds exactly then.\<close>

theorem has_permission_correct:
  assumes "disciplined pc" and "clean p"
  shows "fst (has_permission now u p pc) =
      list_ex (\<lambda>role. list_ex (Permission_matches p) (role_permissions role)) (get_user_roles pc u)
    \<and> fst (authorize now ctx p pc) =
      (if compute_permission pc (uc_user_id ctx) p then Ok ()
       else Err (PermissionDenied (uc_user_id ctx) (as_str p)))"
  using cached_decision [OF disciplined_coherent [OF assms(1)] assms(2), of now u]
    cached_decision [OF disciplined_coherent [OF assms(1)] assms(2), of now "uc_user_id ctx"]
  by (auto simp: compute_permission_def Role_has_permission_def authorize_def split: prod.splits)

theorem has_permission_correct_witness:
  "fst (has_permission 5 ''u'' (Permission_new ''public'' ''doc'' ''read'')
     (assign_roles ''u'' [''guest''] PermissionChecker_new))"
proof -
  have "disciplined (assign_roles ''u'' [''guest''] PermissionChecker_new)"
    using disciplined_step [OF disciplined_new, of "AssignRoles ''u'' [''guest'']"] by simp
  moreover have "clean (Permission_new ''public'' ''doc'' ''read'')"
    by (simp add: clean_def Permission_new_def)
  ultimately have "fst (has_permission 5 ''u'' (Permission_new ''public'' ''doc'' ''read'')
     (assign_roles ''u'' [''guest''] PermissionChecker_new)) =
      list_ex (\<lambda>role. list_ex (Permission_matches (Permission_new ''public'' ''doc'' ''read''))
        (role_permissions role))
        (get_user_roles (assign_roles ''u'' [''guest''] PermissionChecker_new) ''u'')"
    by (rule has_permission_correct [THEN conjunct1])
  also have "\<dots>" by (simp add: checker_eval)
  finally show ?thesis .
qed

text \<open>Outside that discipline the cache can grant what the roles deny. A permission is cached
  under its printed form, so two permissions with colons can share an entry: once the first is
  granted, the second is answered from its entry. And re-registering an assigned role does not
  invalidate: a permission the role no longer has is still granted until the entry expires.\<close>

theorem cache_confusion:
  "(let role = with_permission (Permission_new ''a:b'' ''c'' ''d'') (Role_new ''r'');
        pc = assign_roles ''u'' [''r''] (register_role role PermissionChecker_new);
        pc' = snd (has_permission 0 ''u'' (Permission_new ''a:b'' ''c'' ''d'') pc);
        other = Permission_new ''a'' ''b:c'' ''d''
    in \<not> compute_permission pc' ''u'' other \<and> fst (has_permission 1 ''u'' other pc'))
   \<and> (let p = Permission_new ''a'' ''b'' ''c'';
          pc = assign_roles ''u'' [''r'']
            (register_role (with_permission p (Role_new ''r'')) PermissionChecker_new);
          pc' = register_role (Role_new ''r'') (snd (has_permission 0 ''u'' p pc))
      in \<not> compute_permission pc' ''u'' p \<and> fst (has_permission 1 ''u'' p pc')
         \<and> \<not> fst (has_permission 300000000001 ''u'' p pc'))"
  by (simp add: checker_eval)

section \<open>Resource grants\<close>

text \<open>The abstract state: which user may do which action on which resource.\<close>

definition granted_actions :: "ResourceAccessControl \<Rightarrow> (string \<times> string \<times> string) set" where
  "granted_actions perms =
     {(u, k, a). \<exists>up as. hm_get perms u = Some up \<and> hm_get up k = Some as \<and> a \<in> set as}"

lemma granted_actions_iff:
  "(u, k, a) \<in> granted_actions perms \<longleftrightarrow>
     (case hm_get perms u of None \<Rightarrow> False
      | Some up \<Rightarrow> (case hm_get up k of None \<Rightarrow> False | Some as \<Rightarrow> a \<in> set as))"
  by (auto simp: granted_actions_def split: option.splits)

text \<open>Resource grants refine a set of (user, resource, action) triples: granting adds a triple,
  revoking removes exactly that triple, a new store is empty, and a check succeeds exactly when the
  user has the action or the wildcard on the resource. (Revoking one action therefore leaves a wildcard
  in force.)\<close>

theorem resource_grants_refine:
  "granted_actions ResourceAccessControl_new = {}
   \<and> granted_actions (grant u r perms) =
       insert (u, resource_key r, rp_action r) (granted_actions perms)
   \<and> granted_actions (revoke u r perms) =
       granted_actions perms - {(u, resource_key r, rp_action r)}
   \<and> (check u r perms \<longleftrightarrow> (u, resource_key r, rp_action r) \<in> granted_actions perms
        \<or> (u, resource_key r, ''*'') \<in> granted_actions perms)"
proof (intro conjI)
  show "granted_actions ResourceAccessControl_new = {}"
    by (simp add: granted_actions_def ResourceAccessControl_new_def)
  show "granted_actions (grant u r perms) =
       insert (u, resource_key r, rp_action r) (granted_actions perms)"
    by (auto simp: set_eq_iff granted_actions_iff grant_def Let_def update_conv' split: option.splits if_splits)
  show "granted_actions (revoke u r perms) =
       granted_actions perms - {(u, resource_key r, rp_action r)}"
    by (auto simp: set_eq_iff granted_actions_iff revoke_def update_conv' split: option.splits if_splits)
  show "check u r perms \<longleftrightarrow> (u, resource_key r, rp_action r) \<in> granted_actions perms
       \<or> (u, resource_key r, ''*'') \<in> granted_actions perms"
    by (simp add: granted_actions_iff check_def split: option.splits)
qed

section \<open>The audit log\<close>

fun log_all :: "AuthzAuditEvent list \<Rightarrow> AuthzAuditLog \<Rightarrow> AuthzAuditLog option" where
  "log_all [] l = Some l"
| "log_all (e # es) l = (case log_event e l of None \<Rightarrow> None | Some l' \<Rightarrow> log_all es l')"

lemma log_event_keeps:
  assumes "0 < max_events l" and "length (log_events l) \<le> max_events l"
  shows "\<exists>l'. log_event e l = Some l' \<and> max_events l' = max_events l
    \<and> log_events l' = drop (length (log_events l) + 1 - max_events l) (log_events l @ [e])"
  using assms by (cases "log_events l") (auto simp: log_event_def)

lemma log_all_keeps:
  assumes "0 < max_events l" and "length (log_events l) \<le> max_events l"
  shows "\<exists>l'. log_all es l = Some l' \<and>
    log_events l' = drop (length (log_events l) + length es - max_events l) (log_events l @ es)"
  using assms
proof (induction es arbitrary: l)
  case (Cons e es)
  obtain l1 where l1: "log_event e l = Some l1" "max_events l1 = max_events l"
    "log_events l1 = drop (length (log_events l) + 1 - max_events l) (log_events l @ [e])"
    using log_event_keeps [OF Cons.prems, of e] by blast
  have "length (log_events l1) \<le> max_events l1" using l1(2,3) by simp
  with Cons.IH [of l1] Cons.prems(1) l1 obtain l' where l': "log_all es l1 = Some l'"
    "log_events l' = drop (length (log_events l1) + length es - max_events l) (log_events l1 @ es)"
    by auto
  let ?n = "length (log_events l)" and ?m = "max_events l"
  have "drop (?n + 1 - ?m) (log_events l @ [e]) @ es = drop (?n + 1 - ?m) (log_events l @ e # es)"
    using Cons.prems(1) by simp
  then have "log_events l' =
      drop (length (log_events l1) + length es - ?m + (?n + 1 - ?m)) (log_events l @ e # es)"
    unfolding l'(2) by (simp only: l1(3) drop_drop)
  also have "length (log_events l1) + length es - ?m + (?n + 1 - ?m) = ?n + length (e # es) - ?m"
    using Cons.prems unfolding l1(3) by auto
  finally have "log_events l' = drop (?n + length (e # es) - ?m) (log_events l @ e # es)" .
  with l'(1) l1(1) show ?case by simp
qed simp

text \<open>The audit log keeps the most recent events: with a positive limit logging never
  panics, and after logging a list of events the log holds its last \<open>m\<close> ones in order. With the limit
  zero, logging the first event panics.\<close>

theorem audit_log_recent:
  "if m = 0 then log_event e (AuthzAuditLog_new m) = None
   else map_option get_events (log_all es (AuthzAuditLog_new m)) = Some (drop (length es - m) es)"
  using log_all_keeps [of "AuthzAuditLog_new m" es]
  by (auto simp: AuthzAuditLog_new_def log_event_def get_events_def)

end
