(* ===== verification/User_Auth.thy ===== *)
theory User_Auth
  imports Permissions
begin

text \<open>
  Authentication of users, \<open>permissions/src/auth.rs\<close>: rate limiter, local provider (users, passwords, sessions,
  the four kinds of credentials) and the registry of providers.

  Argon2, AGE keys, base64, hexadecimal text and Ed25519 are third-party code and form the record \<open>Crypto\<close>; the random
  identifiers, the clocks and the salt that a call reads form the record \<open>Env\<close>. A hash map is an association list whose
  order is the order of iteration. A call that panics is \<open>None\<close>. The locks are left out: an operation is one step, except
  where a section below says so.
\<close>

section \<open>Parameters\<close>

text \<open>\<open>cr_argon2\<close> hashes a password with a salt, \<open>cr_parse_hash\<close> and \<open>cr_argon2_verify\<close> are \<open>PasswordHash::new\<close> and
  \<open>verify_password\<close>, \<open>cr_age_recipient\<close> says whether a text parses as an AGE recipient, \<open>cr_ed25519_key\<close> whether bytes are a
  verifying key, and \<open>cr_ed25519_verify\<close> takes key, message and signature.\<close>

record 'hash Crypto =
  cr_argon2 :: "string \<Rightarrow> string \<Rightarrow> string + string"
  cr_parse_hash :: "string \<Rightarrow> 'hash option"
  cr_argon2_verify :: "string \<Rightarrow> 'hash \<Rightarrow> bool"
  cr_age_recipient :: "string \<Rightarrow> bool"
  cr_base64 :: "string \<Rightarrow> string option"
  cr_hex :: "string \<Rightarrow> string option"
  cr_ed25519_key :: "string \<Rightarrow> bool"
  cr_ed25519_verify :: "string \<Rightarrow> string \<Rightarrow> string \<Rightarrow> bool"

text \<open>The random identifiers and the readings of the wall clock by their number within the call, the reading of the
  monotonic clock, and the salt.\<close>

record Env =
  fresh_id :: "nat \<Rightarrow> string"
  clock :: "nat \<Rightarrow> int"
  instant :: nat
  salt :: string

datatype Credentials =
    AgeKey string string string
  | Password string string
  | OAuth2 string string string
  | ApiKey string "string option"
  | Jwt string

section \<open>Rate limiter\<close>

record AuthRateLimiter =
  rl_attempts :: "(string, nat list) hashmap"
  rl_max_attempts :: nat
  rl_window_seconds :: nat

definition AuthRateLimiter_new :: "nat \<Rightarrow> nat \<Rightarrow> AuthRateLimiter" where
  "AuthRateLimiter_new max_attempts window_seconds =
     \<lparr>rl_attempts = [], rl_max_attempts = max_attempts, rl_window_seconds = window_seconds\<rparr>"

definition AuthRateLimiter_default :: AuthRateLimiter where
  "AuthRateLimiter_default = AuthRateLimiter_new 5 300"

definition entry_or_empty :: "(string, nat list) hashmap \<Rightarrow> string \<Rightarrow> nat list" where
  "entry_or_empty m k = (case hm_get m k of None \<Rightarrow> [] | Some ts \<Rightarrow> ts)"

definition check_rate_limit :: "nat \<Rightarrow> string \<Rightarrow> AuthRateLimiter \<Rightarrow> bool \<times> AuthRateLimiter" where
  "check_rate_limit now identifier rl =
     (let window = rl_window_seconds rl * 1000000000;
          entry = filter (\<lambda>time. now - time < window) (entry_or_empty (rl_attempts rl) identifier)
      in if rl_max_attempts rl \<le> length entry
         then (False, rl\<lparr>rl_attempts := hm_insert identifier entry (rl_attempts rl)\<rparr>)
         else (True, rl\<lparr>rl_attempts := hm_insert identifier (entry @ [now]) (rl_attempts rl)\<rparr>))"

definition rate_limit_reset :: "string \<Rightarrow> AuthRateLimiter \<Rightarrow> AuthRateLimiter" where
  "rate_limit_reset identifier rl = rl\<lparr>rl_attempts := AList.delete identifier (rl_attempts rl)\<rparr>"

section \<open>Local provider\<close>

record 'json LocalAuthProvider =
  users :: "(string, UserIdentity) hashmap"
  sessions :: "(string, 'json Session) hashmap"
  passwords :: "(string, string) hashmap"
  default_ttl :: int
  rate_limiter :: AuthRateLimiter

definition LocalAuthProvider_new :: "int \<Rightarrow> 'json LocalAuthProvider" where
  "LocalAuthProvider_new default_ttl_seconds = \<lparr>users = [], sessions = [], passwords = [],
     default_ttl = default_ttl_seconds, rate_limiter = AuthRateLimiter_default\<rparr>"

definition with_rate_limit :: "int \<Rightarrow> nat \<Rightarrow> nat \<Rightarrow> 'json LocalAuthProvider" where
  "with_rate_limit default_ttl_seconds max_attempts window_seconds = \<lparr>users = [], sessions = [], passwords = [],
     default_ttl = default_ttl_seconds, rate_limiter = AuthRateLimiter_new max_attempts window_seconds\<rparr>"

definition register_user :: "UserIdentity \<Rightarrow> 'json LocalAuthProvider \<Rightarrow> 'json LocalAuthProvider" where
  "register_user user p = p\<lparr>users := hm_insert (ui_user_id user) user (users p)\<rparr>"

definition age_key_of :: "string \<Rightarrow> string" where
  "age_key_of username = ''age-'' @ username"

text \<open>The two parts of \<open>register_user_with_password\<close>: the test under the read lock, and what follows.\<close>

definition username_taken :: "string \<Rightarrow> 'json LocalAuthProvider \<Rightarrow> bool" where
  "username_taken username p \<longleftrightarrow> hm_get (passwords p) username \<noteq> None"

definition register_commit :: "'h Crypto \<Rightarrow> Env \<Rightarrow> string \<Rightarrow> string \<Rightarrow> string option \<Rightarrow> 'json LocalAuthProvider
    \<Rightarrow> (string + string) \<times> 'json LocalAuthProvider" where
  "register_commit cr env username password dname p =
     (let user = with_display_name (case dname of None \<Rightarrow> username | Some n \<Rightarrow> n)
            (UserIdentity_new (fresh_id env 0) (clock env 0) (age_key_of username))
      in case cr_argon2 cr (salt env) password of
           Err e \<Rightarrow> (Err e, p)
         | Ok hash \<Rightarrow> (Ok (ui_user_id user),
             p\<lparr>users := hm_insert (ui_user_id user) user (users p), passwords := hm_insert username hash (passwords p)\<rparr>))"

definition register_user_with_password :: "'h Crypto \<Rightarrow> Env \<Rightarrow> string \<Rightarrow> string \<Rightarrow> string option
    \<Rightarrow> 'json LocalAuthProvider \<Rightarrow> (string + string) \<times> 'json LocalAuthProvider" where
  "register_user_with_password cr env username password dname p =
     (if username_taken username p
      then (Err (''User with username '' @ [CHR 0x27] @ username @ [CHR 0x27] @ '' already exists''), p)
      else register_commit cr env username password dname p)"

definition create_session :: "Env \<Rightarrow> string \<Rightarrow> Role list \<Rightarrow> 'json LocalAuthProvider
    \<Rightarrow> 'json Session \<times> 'json LocalAuthProvider" where
  "create_session env user_id roles p =
     (let user = (case hm_get (users p) user_id of
            Some u \<Rightarrow> u | None \<Rightarrow> UserIdentity_new (fresh_id env 0) (clock env 0) ''unknown'');
          tok = SessionToken_new (fresh_id env 1) (clock env 1) user_id (default_ttl p);
          claims = Claims_new (clock env 2 div 1000000000) user_id (default_ttl p);
          session = \<lparr>session_token = tok, session_user = user, session_claims = claims, session_roles = roles,
            session_permissions = concat (map role_permissions roles)\<rparr>
      in (session, p\<lparr>sessions := hm_insert (token tok) session (sessions p)\<rparr>))"

definition verify_password :: "'h Crypto \<Rightarrow> string \<Rightarrow> string \<Rightarrow> bool" where
  "verify_password cr password hash =
     (case cr_parse_hash cr hash of Some h \<Rightarrow> cr_argon2_verify cr password h | None \<Rightarrow> False)"

definition validate_token :: "int \<Rightarrow> string \<Rightarrow> 'json LocalAuthProvider \<Rightarrow> 'json Session option" where
  "validate_token now t p =
     (case hm_get (sessions p) t of None \<Rightarrow> None
      | Some session \<Rightarrow> if is_expired now (session_token session) then None else Some session)"

definition revoke_token :: "string \<Rightarrow> 'json LocalAuthProvider \<Rightarrow> 'json LocalAuthProvider" where
  "revoke_token t p = p\<lparr>sessions := AList.delete t (sessions p)\<rparr>"

definition refresh_token :: "Env \<Rightarrow> string \<Rightarrow> int \<Rightarrow> 'json LocalAuthProvider
    \<Rightarrow> SessionToken option \<times> 'json LocalAuthProvider" where
  "refresh_token env t ttl_seconds p =
     (case hm_get (sessions p) t of
        None \<Rightarrow> (None, p)
      | Some session \<Rightarrow>
          (let p' = p\<lparr>sessions := AList.delete t (sessions p)\<rparr>
           in if is_expired (clock env 0) (session_token session) then (None, p')
              else (let new_token = SessionToken_new (fresh_id env 0) (clock env 1)
                          (st_user_id (session_token session)) ttl_seconds;
                        session' = session\<lparr>session_token := new_token,
                          session_claims := (session_claims session)
                            \<lparr>claim_exp := clock env 2 div 1000000000 + ttl_seconds\<rparr>\<rparr>
                    in (Some new_token, p'\<lparr>sessions := hm_insert (token new_token) session' (sessions p')\<rparr>))))"

section \<open>Credentials\<close>

text \<open>A position in a string at which it may be cut: no continuation byte of UTF-8 follows.\<close>

definition is_char_boundary :: "string \<Rightarrow> nat \<Rightarrow> bool" where
  "is_char_boundary s i \<longleftrightarrow> i = 0 \<or> i = length s
     \<or> (i < length s \<and> \<not> (128 \<le> (of_char (s ! i) :: nat) \<and> (of_char (s ! i) :: nat) < 192))"

fun rate_limit_id :: "Credentials \<Rightarrow> string option" where
  "rate_limit_id (Password username password) = Some (''password:'' @ username)"
| "rate_limit_id (AgeKey key signature challenge) = Some (''age:'' @ key)"
| "rate_limit_id (ApiKey key secret) = Some (''apikey:'' @ key)"
| "rate_limit_id (Jwt t) =
     (if is_char_boundary t (min (length t) 32) then Some (''jwt:'' @ take (min (length t) 32) t) else None)"
| "rate_limit_id _ = Some ''unknown''"

text \<open>\<open>users.values().find(..)\<close>\<close>

definition find_user :: "(UserIdentity \<Rightarrow> bool) \<Rightarrow> 'json LocalAuthProvider \<Rightarrow> UserIdentity option" where
  "find_user P p = List.find P (map snd (users p))"

definition login :: "Env \<Rightarrow> UserIdentity \<Rightarrow> 'json LocalAuthProvider \<Rightarrow> 'json AuthResult \<times> 'json LocalAuthProvider" where
  "login env user p = (case create_session env (ui_user_id user) [user_role] p of (s, p') \<Rightarrow> (AuthSuccess s, p'))"

definition password_auth :: "'h Crypto \<Rightarrow> Env \<Rightarrow> string \<Rightarrow> string \<Rightarrow> 'json LocalAuthProvider
    \<Rightarrow> 'json AuthResult \<times> 'json LocalAuthProvider" where
  "password_auth cr env username password p =
     (case hm_get (passwords p) username of
        None \<Rightarrow> (InvalidCredentials, p)
      | Some hash \<Rightarrow>
          if verify_password cr password hash
          then (case find_user (\<lambda>u. age_public_key u = age_key_of username) p of
                  Some user \<Rightarrow> login env user p
                | None \<Rightarrow> (InvalidCredentials, p))
          else (InvalidCredentials, p))"

text \<open>The tests on the signature, with the key that is stored for the user.\<close>

definition signature_ok :: "'h Crypto \<Rightarrow> string option \<Rightarrow> string \<Rightarrow> string \<Rightarrow> bool" where
  "signature_ok cr ed_key signature challenge =
     (case ed_key of
        Some key_hex \<Rightarrow>
          (case cr_base64 cr signature of None \<Rightarrow> False
           | Some sig_bytes \<Rightarrow>
               if length sig_bytes \<noteq> 64 then False
               else (case cr_hex cr key_hex of None \<Rightarrow> False
                     | Some key_bytes \<Rightarrow>
                         if length key_bytes \<noteq> 32 then False
                         else if \<not> cr_ed25519_key cr (take 32 key_bytes) then False
                         else cr_ed25519_verify cr (take 32 key_bytes) challenge (take 64 sig_bytes)))
      | None \<Rightarrow>
          (case cr_base64 cr signature of None \<Rightarrow> False | Some sig_bytes \<Rightarrow> length sig_bytes = 64))"

definition age_key_auth :: "'h Crypto \<Rightarrow> Env \<Rightarrow> string \<Rightarrow> string \<Rightarrow> string \<Rightarrow> 'json LocalAuthProvider
    \<Rightarrow> 'json AuthResult \<times> 'json LocalAuthProvider" where
  "age_key_auth cr env key signature challenge p =
     (if signature = [] \<or> challenge = [] \<or> key = [] then (InvalidCredentials, p)
      else if \<not> starts_with key ''age1'' then (InvalidCredentials, p)
      else if \<not> cr_age_recipient cr key then (InvalidCredentials, p)
      else (case find_user (\<lambda>u. age_public_key u = key) p of
              None \<Rightarrow> (InvalidCredentials, p)
            | Some user \<Rightarrow>
                if signature_ok cr (ed25519_public_key user) signature challenge then login env user p
                else (InvalidCredentials, p)))"

definition api_key_auth :: "Env \<Rightarrow> string \<Rightarrow> string option \<Rightarrow> 'json LocalAuthProvider
    \<Rightarrow> 'json AuthResult \<times> 'json LocalAuthProvider" where
  "api_key_auth env key secret p =
     (if key = [] then (InvalidCredentials, p)
      else (case find_user (\<lambda>u. hm_get (ui_metadata u) ''api_key'' = Some key) p of
              None \<Rightarrow> (InvalidCredentials, p)
            | Some user \<Rightarrow>
                (case (hm_get (ui_metadata user) ''api_secret'', secret) of
                   (Some expected, Some provided) \<Rightarrow>
                     if provided \<noteq> expected then (InvalidCredentials, p) else login env user p
                 | _ \<Rightarrow> login env user p)))"

definition jwt_auth :: "Env \<Rightarrow> string \<Rightarrow> 'json LocalAuthProvider \<Rightarrow> 'json AuthResult \<times> 'json LocalAuthProvider" where
  "jwt_auth env t p =
     ((case validate_token (clock env 0) t p of Some s \<Rightarrow> AuthSuccess s | None \<Rightarrow> TokenInvalid), p)"

fun check_credentials :: "'h Crypto \<Rightarrow> Env \<Rightarrow> Credentials \<Rightarrow> 'json LocalAuthProvider
    \<Rightarrow> 'json AuthResult \<times> 'json LocalAuthProvider" where
  "check_credentials cr env (Password username password) p = password_auth cr env username password p"
| "check_credentials cr env (AgeKey key signature challenge) p = age_key_auth cr env key signature challenge p"
| "check_credentials cr env (ApiKey key secret) p = api_key_auth env key secret p"
| "check_credentials cr env (Jwt t) p = jwt_auth env t p"
| "check_credentials cr env _ p = (ProviderUnavailable, p)"

fun is_success :: "'json AuthResult \<Rightarrow> bool" where
  "is_success (AuthSuccess s) \<longleftrightarrow> True"
| "is_success _ \<longleftrightarrow> False"

definition authenticate :: "'h Crypto \<Rightarrow> Env \<Rightarrow> Credentials \<Rightarrow> 'json LocalAuthProvider
    \<Rightarrow> ('json AuthResult \<times> 'json LocalAuthProvider) option" where
  "authenticate cr env c p =
     (case rate_limit_id c of
        None \<Rightarrow> None
      | Some rid \<Rightarrow>
          (case check_rate_limit (instant env) rid (rate_limiter p) of
             (ok, rl) \<Rightarrow>
               if \<not> ok then Some (RateLimited, p\<lparr>rate_limiter := rl\<rparr>)
               else (case check_credentials cr env c (p\<lparr>rate_limiter := rl\<rparr>) of
                       (result, p') \<Rightarrow>
                         Some (result, if is_success result
                           then p'\<lparr>rate_limiter := rate_limit_reset rid (rate_limiter p')\<rparr> else p'))))"

section \<open>Registry of providers\<close>

text \<open>The providers are shared objects: the registry maps names to addresses in a heap of provider states, and a provider
  answers by its function.\<close>

definition registry_register :: "string \<Rightarrow> nat \<Rightarrow> (string, nat) hashmap \<Rightarrow> (string, nat) hashmap" where
  "registry_register name provider reg = hm_insert name provider reg"

definition registry_get :: "string \<Rightarrow> (string, nat) hashmap \<Rightarrow> nat option" where
  "registry_get name reg = hm_get reg name"

definition registry_authenticate :: "('p \<Rightarrow> Credentials \<Rightarrow> ('json AuthResult \<times> 'p) option) \<Rightarrow> string \<Rightarrow> Credentials
    \<Rightarrow> (string, nat) hashmap \<Rightarrow> (nat \<Rightarrow> 'p) \<Rightarrow> ('json AuthResult \<times> (nat \<Rightarrow> 'p)) option" where
  "registry_authenticate auth name c reg heap =
     (case hm_get reg name of
        None \<Rightarrow> Some (ProviderUnavailable, heap)
      | Some a \<Rightarrow> (case auth (heap a) c of
                     None \<Rightarrow> None
                   | Some (r, p) \<Rightarrow> Some (r, heap(a := p))))"

section \<open>Sliding windows\<close>

text \<open>What the two limiters of the authentication share: a check drops the attempts that left the window, and grants and
  records the new one if fewer than the limit are left; tidying up only forgets attempts that left the window.\<close>

definition in_window :: "nat \<Rightarrow> nat \<Rightarrow> nat list \<Rightarrow> nat list" where
  "in_window w now ts = filter (\<lambda>t. now - t < w) ts"

text \<open>The attempts in the window that ends at a time.\<close>

definition in_window_until :: "nat \<Rightarrow> nat \<Rightarrow> nat list \<Rightarrow> nat list" where
  "in_window_until w now ts = filter (\<lambda>t. t \<le> now \<and> now - t < w) ts"

lemma in_window_twice: "now \<le> now' \<Longrightarrow> in_window w now' (in_window w now ts) = in_window w now' ts"
  by (auto simp: in_window_def intro!: filter_cong)

lemma in_window_append [simp]: "in_window w now (ts @ us) = in_window w now ts @ in_window w now us"
  by (simp add: in_window_def)

lemma in_window_until_append [simp]:
  "in_window_until w now (ts @ us) = in_window_until w now ts @ in_window_until w now us"
  by (simp add: in_window_until_def)

lemma in_window_until_le: "(\<And>t. t \<in> set ts \<Longrightarrow> t \<le> now) \<Longrightarrow> now \<le> now' \<Longrightarrow> now' - now < w
    \<Longrightarrow> length (in_window_until w now' ts) \<le> length (in_window w now ts)"
  unfolding in_window_def in_window_until_def
proof (induction ts)
  case (Cons t ts)
  have "now' - t < w \<Longrightarrow> now - t < w" using Cons.prems(2) by linarith
  then show ?case using Cons by auto
qed simp

lemma in_window_until_none:
  assumes "\<And>t. t \<in> set ts \<Longrightarrow> t \<le> now" and "now \<le> now'" and "w \<le> now' - now"
  shows "in_window_until w now' ts = []"
proof -
  have "\<not> now' - t < w" if "t \<in> set ts" for t using assms(1) [OF that] assms(2,3) by linarith
  then show ?thesis by (auto simp: in_window_until_def filter_empty_conv)
qed

locale window_limiter =
  fixes valid :: "'l \<Rightarrow> bool"
    and check :: "nat \<Rightarrow> string \<Rightarrow> 'l \<Rightarrow> bool \<times> 'l"
    and tidy :: "nat \<Rightarrow> 'l \<Rightarrow> 'l"
    and history :: "'l \<Rightarrow> string \<Rightarrow> nat list"
    and limit :: "'l \<Rightarrow> nat"
    and width :: "'l \<Rightarrow> nat"
  assumes check_law: "check now k l = (ok, l') \<Longrightarrow>
      ok = (length (in_window (width l) now (history l k)) < limit l)
      \<and> history l' k = in_window (width l) now (history l k) @ (if ok then [now] else [])
      \<and> limit l' = limit l \<and> width l' = width l"
    and check_other: "check now k l = (ok, l') \<Longrightarrow> k' \<noteq> k \<Longrightarrow> history l' k' = history l k'"
    and check_valid: "check now k l = (ok, l') \<Longrightarrow> valid l \<Longrightarrow> valid l'"
    and tidy_law: "valid l \<Longrightarrow> valid (tidy now l) \<and> limit (tidy now l) = limit l \<and> width (tidy now l) = width l
      \<and> in_window (width l) now (history (tidy now l) k) = in_window (width l) now (history l k)"
begin

text \<open>The times \<open>ts\<close> at which a key was granted, up to a time: those in the window are in the limiter, and no window has
  more than the limit.\<close>

definition granted_inv :: "string \<Rightarrow> nat list \<Rightarrow> nat \<Rightarrow> 'l \<Rightarrow> bool" where
  "granted_inv k ts now l \<longleftrightarrow> valid l \<and> list_all (\<lambda>t. t \<le> now) ts
     \<and> (\<forall>now'\<ge>now. in_window (width l) now' ts = in_window (width l) now' (history l k))
     \<and> (\<forall>t. length (in_window_until (width l) t ts) \<le> limit l)"

lemma granted_inv_init: "valid l \<Longrightarrow> history l k = [] \<Longrightarrow> granted_inv k [] 0 l"
  by (simp add: granted_inv_def in_window_def in_window_until_def)

lemma granted_inv_later: "granted_inv k ts now l \<Longrightarrow> now \<le> now' \<Longrightarrow> granted_inv k ts now' l"
  by (auto simp: granted_inv_def list_all_iff)

lemma granted_inv_history:
  "granted_inv k ts now l \<Longrightarrow> valid l' \<Longrightarrow> limit l' = limit l \<Longrightarrow> width l' = width l \<Longrightarrow>
    (\<And>now'. now \<le> now' \<Longrightarrow> in_window (width l) now' (history l' k) = in_window (width l) now' (history l k)) \<Longrightarrow>
    granted_inv k ts now l'"
  by (simp add: granted_inv_def)

lemma granted_inv_other:
  assumes "granted_inv k ts now l" and "check now' k' l = (ok, l')" and "k' \<noteq> k"
  shows "granted_inv k ts now l'"
  using check_law [OF assms(2)] check_other [OF assms(2)] check_valid [OF assms(2)] assms(1,3)
  by (intro granted_inv_history [OF assms(1)]) (auto simp: granted_inv_def)

lemma granted_inv_tidy:
  assumes "granted_inv k ts now l" and "now \<le> now'"
  shows "granted_inv k ts now' (tidy now' l)"
proof (rule granted_inv_history [OF granted_inv_later [OF assms]])
  have valid: "valid l" using assms(1) by (simp add: granted_inv_def)
  show "valid (tidy now' l)" "limit (tidy now' l) = limit l" "width (tidy now' l) = width l" using tidy_law [OF valid] by auto
  fix t assume t: "now' \<le> t"
  have "in_window (width l) t (in_window (width l) now' (history (tidy now' l) k))
      = in_window (width l) t (in_window (width l) now' (history l k))" using tidy_law [OF valid] by simp
  then show "in_window (width l) t (history (tidy now' l) k) = in_window (width l) t (history l k)"
    by (simp add: in_window_twice [OF t])
qed

lemma granted_inv_check:
  assumes inv: "granted_inv k ts now l" and le: "now \<le> now'" and check: "check now' k l = (ok, l')"
  shows "granted_inv k (ts @ (if ok then [now'] else [])) now' l'"
proof -
  note law = check_law [OF check]
  have ts: "t \<le> now'" if "t \<in> set ts" for t using inv le that by (auto simp: granted_inv_def list_all_iff)
  have same: "in_window (width l) t ts = in_window (width l) t (history l k)" if "now' \<le> t" for t
    using inv le that by (simp add: granted_inv_def)
  have old: "length (in_window_until (width l) t ts) \<le> limit l" for t using inv by (simp add: granted_inv_def)
  have "length (in_window_until (width l) t (ts @ [now'])) \<le> limit l" if ok for t
  proof (cases "now' \<le> t \<and> t - now' < width l")
    case True
    have "length (in_window_until (width l) t ts) \<le> length (in_window (width l) now' ts)"
      using in_window_until_le [OF ts] True by blast
    then show ?thesis using law that same [of now'] True by (simp add: in_window_until_def)
  next
    case False
    then show ?thesis using old [of t] by (auto simp: in_window_until_def)
  qed
  then show ?thesis
    using law ts same old check_valid [OF check] inv by (cases ok) (auto simp: granted_inv_def list_all_iff in_window_twice)
qed

lemma granted_bound: "granted_inv k ts now l \<Longrightarrow> length (in_window_until (width l) t ts) \<le> limit l"
  by (simp add: granted_inv_def)

end

lemma map_of_delete: "map_of (AList.delete k m) k' = (if k' = k then None else map_of m k')"
  by (simp add: delete_conv')

definition limiter_window :: "AuthRateLimiter \<Rightarrow> nat" where
  "limiter_window rl = rl_window_seconds rl * 1000000000"

definition limiter_history :: "AuthRateLimiter \<Rightarrow> string \<Rightarrow> nat list" where
  "limiter_history rl k = entry_or_empty (rl_attempts rl) k"

interpretation auth_limiter: window_limiter "\<lambda>_. True" check_rate_limit "\<lambda>_ rl. rl" limiter_history rl_max_attempts limiter_window
  by unfold_locales
    (auto simp: check_rate_limit_def limiter_window_def limiter_history_def entry_or_empty_def in_window_def Let_def
      update_conv' split: if_splits)

lemma limiter_reset:
  "rl_max_attempts (rate_limit_reset k rl) = rl_max_attempts rl" "limiter_window (rate_limit_reset k rl) = limiter_window rl"
  "limiter_history (rate_limit_reset k rl) k' = (if k' = k then [] else limiter_history rl k')"
  by (simp_all add: rate_limit_reset_def limiter_window_def limiter_history_def entry_or_empty_def map_of_delete)

section \<open>Guesses are bounded\<close>

fun authenticate_all :: "'h Crypto \<Rightarrow> (Env \<times> Credentials) list \<Rightarrow> 'json LocalAuthProvider
    \<Rightarrow> ('json AuthResult list \<times> 'json LocalAuthProvider) option" where
  "authenticate_all cr [] p = Some ([], p)"
| "authenticate_all cr ((env, c) # calls) p =
     (case authenticate cr env c p of None \<Rightarrow> None
      | Some (r, p1) \<Rightarrow> (case authenticate_all cr calls p1 of None \<Rightarrow> None
                        | Some (rs, p2) \<Rightarrow> Some (r # rs, p2)))"

text \<open>The times of the calls for a key that were let through to the credentials.\<close>

definition guess_times :: "string \<Rightarrow> (Env \<times> Credentials) list \<Rightarrow> 'json AuthResult list \<Rightarrow> nat list" where
  "guess_times k calls rs = map (\<lambda>(call, r). instant (fst call))
     (filter (\<lambda>(call, r). rate_limit_id (snd call) = Some k \<and> r \<noteq> RateLimited) (zip calls rs))"

lemma guess_times_Cons:
  "guess_times k ((env, c) # calls) (r # rs) =
     (if rate_limit_id c = Some k \<and> r \<noteq> RateLimited then [instant env] else []) @ guess_times k calls rs"
  by (simp add: guess_times_def)

lemma login_fields:
  assumes "login env user p = (r, p')"
  shows "is_success r" "rate_limiter p' = rate_limiter p" "users p' = users p" "passwords p' = passwords p"
    "default_ttl p' = default_ttl p"
  using assms by (auto simp: login_def create_session_def Let_def)

text \<open>Each kind of credentials leads to a login of a user that was found, or to an error and no change.\<close>

lemma password_auth_cases:
  assumes "password_auth cr env u pw p = (r, p')"
  shows "r = InvalidCredentials \<and> p' = p \<or>
    (\<exists>h user. hm_get (passwords p) u = Some h \<and> verify_password cr pw h
      \<and> find_user (\<lambda>v. age_public_key v = age_key_of u) p = Some user \<and> login env user p = (r, p'))"
  using assms by (simp add: password_auth_def split: option.split_asm if_split_asm)

lemma age_key_auth_cases:
  assumes "age_key_auth cr env key sig ch p = (r, p')"
  shows "r = InvalidCredentials \<and> p' = p \<or>
    (\<exists>user. find_user (\<lambda>v. age_public_key v = key) p = Some user \<and> login env user p = (r, p'))"
  using assms by (simp add: age_key_auth_def split: option.split_asm if_split_asm)

lemma api_key_auth_cases:
  assumes "api_key_auth env key secret p = (r, p')"
  shows "r = InvalidCredentials \<and> p' = p \<or>
    (\<exists>user. find_user (\<lambda>v. hm_get (ui_metadata v) ''api_key'' = Some key) p = Some user \<and> login env user p = (r, p'))"
  using assms by (simp add: api_key_auth_def split: option.split_asm if_split_asm)

lemma check_credentials_cases:
  assumes "check_credentials cr env c p = (r, p')"
  obtains (refused) "p' = p" "r \<noteq> RateLimited" "\<And>s. r \<noteq> AuthSuccess s"
  | (token) t s where "c = Jwt t" "p' = p" "r = AuthSuccess s" "validate_token (clock env 0) t p = Some s"
  | (login) P user where "find_user P p = Some user" "login env user p = (r, p')"
proof (cases c)
  case (Password u pw)
  then have "password_auth cr env u pw p = (r, p')" using assms by simp
  from password_auth_cases [OF this] show ?thesis using refused login by fastforce
next
  case (AgeKey key sig ch)
  then have "age_key_auth cr env key sig ch p = (r, p')" using assms by simp
  from age_key_auth_cases [OF this] show ?thesis using refused login by fastforce
next
  case (ApiKey key secret)
  then have "api_key_auth env key secret p = (r, p')" using assms by simp
  from api_key_auth_cases [OF this] show ?thesis using refused login by fastforce
next
  case (Jwt t)
  then show ?thesis using assms refused token by (cases "validate_token (clock env 0) t p") (auto simp: jwt_auth_def)
next
  case (OAuth2 a b d)
  then show ?thesis using assms refused by auto
qed

lemma check_credentials_limiter:
  assumes "check_credentials cr env c p = (r, p')"
  shows "rate_limiter p' = rate_limiter p \<and> r \<noteq> RateLimited"
  using assms by (cases rule: check_credentials_cases) (auto dest: login_fields)

lemma authenticate_limiter:
  assumes "authenticate cr env c p = Some (r, p')"
  obtains rid ok rl where "rate_limit_id c = Some rid" "check_rate_limit (instant env) rid (rate_limiter p) = (ok, rl)"
    "ok \<longleftrightarrow> r \<noteq> RateLimited"
    "rate_limiter p' = (if is_success r then rate_limit_reset rid rl else rl)"
proof -
  obtain rid where rid: "rate_limit_id c = Some rid" using assms by (auto simp: authenticate_def split: option.splits)
  obtain ok rl where check: "check_rate_limit (instant env) rid (rate_limiter p) = (ok, rl)" by fastforce
  obtain r1 p1 where cc: "check_credentials cr env c (p\<lparr>rate_limiter := rl\<rparr>) = (r1, p1)" by fastforce
  show ?thesis using assms rid check cc check_credentials_limiter [OF cc]
    by (intro that [of rid ok rl]) (auto simp: authenticate_def split: if_splits)
qed

lemma guesses_inv:
  assumes "authenticate_all cr calls p = Some (rs, p')" and "auth_limiter.granted_inv k ts now (rate_limiter p)"
    and "sorted (now # map (\<lambda>call. instant (fst call)) calls)"
    and "\<And>call r. (call, r) \<in> set (zip calls rs) \<Longrightarrow> rate_limit_id (snd call) = Some k \<Longrightarrow> \<not> is_success r"
  shows "\<exists>now'. auth_limiter.granted_inv k (ts @ guess_times k calls rs) now' (rate_limiter p')
    \<and> rl_max_attempts (rate_limiter p') = rl_max_attempts (rate_limiter p)
    \<and> limiter_window (rate_limiter p') = limiter_window (rate_limiter p)"
  using assms
proof (induction calls arbitrary: p rs ts now)
  case Nil
  then show ?case by (auto simp: guess_times_def)
next
  case (Cons call calls)
  obtain env c where call: "call = (env, c)" by fastforce
  obtain r p1 rs' where step: "authenticate cr env c p = Some (r, p1)" "authenticate_all cr calls p1 = Some (rs', p')"
      "rs = r # rs'"
    using Cons.prems(1) call by (auto split: option.splits prod.splits)
  have le: "now \<le> instant env" using Cons.prems(3) call by simp
  obtain rid ok rl where lim: "rate_limit_id c = Some rid" "check_rate_limit (instant env) rid (rate_limiter p) = (ok, rl)"
      "ok \<longleftrightarrow> r \<noteq> RateLimited" "rate_limiter p1 = (if is_success r then rate_limit_reset rid rl else rl)"
    using authenticate_limiter [OF step(1)] by blast
  have law: "rl_max_attempts rl = rl_max_attempts (rate_limiter p)" "limiter_window rl = limiter_window (rate_limiter p)"
    using auth_limiter.check_law [OF lim(2)] by simp_all
  let ?now = "if rid = k \<and> ok then [instant env] else []"
  have "auth_limiter.granted_inv k (ts @ ?now) (instant env) (rate_limiter p1)"
  proof (cases "rid = k")
    case True
    then have "\<not> is_success r" using Cons.prems(4) [of call r] step(3) call lim(1) by simp
    then show ?thesis
      using auth_limiter.granted_inv_check [OF Cons.prems(2) le] lim True by simp
  next
    case False
    have "auth_limiter.granted_inv k ts (instant env) rl"
      using auth_limiter.granted_inv_other [OF auth_limiter.granted_inv_later [OF Cons.prems(2) le] lim(2) False] .
    then have "auth_limiter.granted_inv k ts (instant env) (rate_limiter p1)"
      by (rule auth_limiter.granted_inv_history) (use lim(4) False in \<open>auto simp: limiter_reset\<close>)
    then show ?thesis using False by simp
  qed
  from Cons.IH [OF step(2) this] obtain now' where
    "auth_limiter.granted_inv k ((ts @ ?now) @ guess_times k calls rs') now' (rate_limiter p')"
    "rl_max_attempts (rate_limiter p') = rl_max_attempts (rate_limiter p1)"
    "limiter_window (rate_limiter p') = limiter_window (rate_limiter p1)"
    using Cons.prems(3,4) call step(3) by auto
  moreover have "(ts @ ?now) @ guess_times k calls rs' = ts @ guess_times k (call # calls) rs"
    using lim(1,3) by (simp add: call step(3) guess_times_Cons)
  moreover have "rl_max_attempts (rate_limiter p1) = rl_max_attempts (rate_limiter p)"
    "limiter_window (rate_limiter p1) = limiter_window (rate_limiter p)"
    using lim(4) law by (simp_all add: limiter_reset)
  ultimately show ?case by metis
qed

text \<open>(C19) Guessing is bounded: as long as the attempts for a rate-limit key fail, at most \<open>max_attempts\<close> of them reach the
  credentials within any window, however many calls there are and whatever other users do meanwhile.\<close>

theorem guesses_bounded:
  assumes "authenticate_all cr calls p = Some (rs, p')"
    and "hm_get (rl_attempts (rate_limiter p)) k = None"
    and "sorted (map (\<lambda>call. instant (fst call)) calls)"
    and "list_all (\<lambda>(call, r). rate_limit_id (snd call) = Some k \<longrightarrow> \<not> is_success r) (zip calls rs)"
  shows "length (in_window_until (limiter_window (rate_limiter p)) t (guess_times k calls rs))
    \<le> rl_max_attempts (rate_limiter p)"
proof -
  have "limiter_history (rate_limiter p) k = []" using assms(2) by (simp add: limiter_history_def entry_or_empty_def)
  note init = auth_limiter.granted_inv_init [OF TrueI this]
  have "\<exists>now'. auth_limiter.granted_inv k ([] @ guess_times k calls rs) now' (rate_limiter p')
    \<and> rl_max_attempts (rate_limiter p') = rl_max_attempts (rate_limiter p)
    \<and> limiter_window (rate_limiter p') = limiter_window (rate_limiter p)"
    using assms(3,4) by (intro guesses_inv [OF assms(1) init]) (auto simp: list_all_iff)
  then show ?thesis using auth_limiter.granted_bound by fastforce
qed

text \<open>Cryptography for the examples: the hash of a password is the password with a mark.\<close>

definition toy_crypto :: "string Crypto" where
  "toy_crypto = \<lparr>cr_argon2 = (\<lambda>_ pw. Ok (CHR ''#'' # pw)), cr_parse_hash = (\<lambda>h. Some h),
     cr_argon2_verify = (\<lambda>pw h. h = CHR ''#'' # pw), cr_age_recipient = (\<lambda>_. True), cr_base64 = Some, cr_hex = Some,
     cr_ed25519_key = (\<lambda>_. True), cr_ed25519_verify = (\<lambda>k m s. s = k @ k)\<rparr>"

definition toy_env :: "nat \<Rightarrow> Env" where
  "toy_env t = \<lparr>fresh_id = (\<lambda>n. show_nat (10 * t + n)), clock = (\<lambda>n. int t), instant = t, salt = []\<rparr>"

theorem guesses_bounded_witness:
  "length (in_window_until 300000000000 9 (guess_times ''password:u''
      [(toy_env 1, Password ''u'' ''a''), (toy_env 2, Password ''u'' ''b'')]
      [InvalidCredentials, InvalidCredentials :: unit AuthResult])) \<le> 5"
proof -
  let ?calls = "[(toy_env 1, Password ''u'' ''a''), (toy_env 2, Password ''u'' ''b'')]"
  let ?p = "LocalAuthProvider_new 3600 :: unit LocalAuthProvider"
  have "\<exists>p'. authenticate_all toy_crypto ?calls ?p = Some ([InvalidCredentials, InvalidCredentials], p')"
    by (simp add: authenticate_def check_rate_limit_def Let_def password_auth_def LocalAuthProvider_new_def toy_env_def
        AuthRateLimiter_default_def AuthRateLimiter_new_def entry_or_empty_def)
  then obtain p' where run: "authenticate_all toy_crypto ?calls ?p = Some ([InvalidCredentials, InvalidCredentials], p')" ..
  show ?thesis
    using guesses_bounded [OF run, of "''password:u''" 9]
    by (simp add: LocalAuthProvider_new_def toy_env_def AuthRateLimiter_default_def AuthRateLimiter_new_def limiter_window_def)
qed

section \<open>Accounts and sessions\<close>

lemma find_user_None: "find_user P p = None \<longleftrightarrow> (\<forall>u\<in>snd ` set (users p). \<not> P u)"
  by (auto simp: find_user_def find_None_iff)

lemma find_user_Some: "find_user P p = Some u \<Longrightarrow> P u \<and> u \<in> snd ` set (users p)"
  by (auto simp: find_user_def find_Some_iff)

text \<open>The runs of a provider, with the accounts that were opened: for each user name the password and the identifier.
  Identifiers are fresh, and an identity that is registered without a password has no key of the form that stands for a
  user name.\<close>

inductive provider_run :: "'h Crypto \<Rightarrow> 'json LocalAuthProvider \<Rightarrow> (string \<rightharpoonup> string \<times> string) \<Rightarrow> bool"
  for cr :: "'h Crypto" where
  created: "provider_run cr (with_rate_limit ttl m w) Map.empty"
| registered: "provider_run cr p acc \<Longrightarrow> hm_get (users p) (fresh_id env 0) = None \<Longrightarrow>
    register_user_with_password cr env u pw dname p = (Ok uid, p') \<Longrightarrow> provider_run cr p' (acc(u \<mapsto> (pw, uid)))"
| refused: "provider_run cr p acc \<Longrightarrow> register_user_with_password cr env u pw dname p = (Err e, p') \<Longrightarrow>
    provider_run cr p' acc"
| identity: "provider_run cr p acc \<Longrightarrow> hm_get (users p) (ui_user_id user) = None \<Longrightarrow>
    \<not> starts_with (age_public_key user) ''age-'' \<Longrightarrow> provider_run cr (register_user user p) acc"
| authenticated: "provider_run cr p acc \<Longrightarrow> authenticate cr env c p = Some (r, p') \<Longrightarrow> provider_run cr p' acc"
| refreshed: "provider_run cr p acc \<Longrightarrow> refresh_token env t ttl p = (tok, p') \<Longrightarrow> provider_run cr p' acc"
| revoked: "provider_run cr p acc \<Longrightarrow> provider_run cr (revoke_token t p) acc"

definition users_inv :: "'json LocalAuthProvider \<Rightarrow> bool" where
  "users_inv p \<longleftrightarrow> distinct (hm_keys (users p)) \<and> (\<forall>k u. hm_get (users p) k = Some u \<longrightarrow> ui_user_id u = k)"

text \<open>A session as a login makes it: under its own token, of a registered user, with the standard role.\<close>

definition login_session :: "(string, UserIdentity) hashmap \<Rightarrow> string \<Rightarrow> 'json Session \<Rightarrow> bool" where
  "login_session us t s \<longleftrightarrow> token (session_token s) = t
     \<and> hm_get us (st_user_id (session_token s)) = Some (session_user s)
     \<and> ui_user_id (session_user s) = st_user_id (session_token s)
     \<and> claim_sub (session_claims s) = st_user_id (session_token s)
     \<and> session_roles s = [user_role] \<and> session_permissions s = role_permissions user_role"

definition sessions_inv :: "'json LocalAuthProvider \<Rightarrow> bool" where
  "sessions_inv p \<longleftrightarrow> (\<forall>t s. hm_get (sessions p) t = Some s \<longrightarrow> login_session (users p) t s)"

text \<open>The stored hash of an account is one of its password, and its identity is the only one with its key.\<close>

definition account_inv :: "'h Crypto \<Rightarrow> 'json LocalAuthProvider \<Rightarrow> (string \<rightharpoonup> string \<times> string) \<Rightarrow> string \<Rightarrow> bool" where
  "account_inv cr p acc u \<longleftrightarrow>
     (case acc u of
        None \<Rightarrow> hm_get (passwords p) u = None
      | Some (pw, uid) \<Rightarrow>
          (\<exists>h s. hm_get (passwords p) u = Some h \<and> cr_argon2 cr s pw = Ok h)
          \<and> (\<exists>user. hm_get (users p) uid = Some user \<and> age_public_key user = age_key_of u))
     \<and> (\<forall>k user. hm_get (users p) k = Some user \<longrightarrow> age_public_key user = age_key_of u \<longrightarrow> map_option snd (acc u) = Some k)"

lemma account_invD:
  assumes "account_inv cr p acc u"
  shows "acc u = None \<Longrightarrow> hm_get (passwords p) u = None"
    and "acc u = Some (pw, i) \<Longrightarrow> \<exists>h s. hm_get (passwords p) u = Some h \<and> cr_argon2 cr s pw = Ok h"
    and "acc u = Some (pw, i) \<Longrightarrow> \<exists>user. hm_get (users p) i = Some user \<and> age_public_key user = age_key_of u"
    and "hm_get (users p) k = Some w \<Longrightarrow> age_public_key w = age_key_of u \<Longrightarrow> map_option snd (acc u) = Some k"
  using assms unfolding account_inv_def by auto

lemma account_invI:
  assumes "acc u = None \<Longrightarrow> hm_get (passwords p) u = None"
    and "\<And>pw i. acc u = Some (pw, i) \<Longrightarrow> \<exists>h s. hm_get (passwords p) u = Some h \<and> cr_argon2 cr s pw = Ok h"
    and "\<And>pw i. acc u = Some (pw, i) \<Longrightarrow> \<exists>user. hm_get (users p) i = Some user \<and> age_public_key user = age_key_of u"
    and "\<And>k w. hm_get (users p) k = Some w \<Longrightarrow> age_public_key w = age_key_of u \<Longrightarrow> map_option snd (acc u) = Some k"
  shows "account_inv cr p acc u"
proof (cases "acc u")
  case None
  then show ?thesis using assms(1,4) unfolding account_inv_def None by auto
next
  case (Some a)
  obtain pw i where a: "acc u = Some (pw, i)" using Some by (cases a) simp
  show ?thesis using assms(2,3) [OF a] assms(4) unfolding account_inv_def a by simp
qed

lemma find_user_get:
  assumes "users_inv p" and "find_user P p = Some u"
  shows "P u \<and> hm_get (users p) (ui_user_id u) = Some u"
proof -
  obtain k where "(k, u) \<in> set (users p)" "P u" using find_user_Some [OF assms(2)] by auto
  moreover from this have "hm_get (users p) k = Some u" using assms(1) by (simp add: users_inv_def)
  ultimately show ?thesis using assms(1) by (auto simp: users_inv_def)
qed

lemma login_session_created:
  assumes "users_inv p" and "hm_get (users p) (ui_user_id user) = Some user" and "login env user p = (r, p')"
  shows "\<exists>s. r = AuthSuccess s \<and> session_user s = user \<and> sessions p' = hm_insert (token (session_token s)) s (sessions p)
    \<and> login_session (users p) (token (session_token s)) s"
  using assms
  by (auto simp: login_def create_session_def Let_def login_session_def SessionToken_new_def Claims_new_def)

lemma sessions_inv_insert:
  assumes "sessions_inv p" and "users p' = users p" and "sessions p' = hm_insert t s (sessions p)"
    and "login_session (users p) t s"
  shows "sessions_inv p'"
  using assms by (auto simp: sessions_inv_def update_conv' split: if_splits)

lemma authenticate_fields:
  assumes "authenticate cr env c p = Some (r, p')" and "users_inv p"
  shows "users p' = users p \<and> passwords p' = passwords p \<and> (sessions_inv p \<longrightarrow> sessions_inv p')"
proof -
  obtain rid where rid: "rate_limit_id c = Some rid" using assms(1) by (auto simp: authenticate_def split: option.splits)
  obtain ok rl where check: "check_rate_limit (instant env) rid (rate_limiter p) = (ok, rl)" by fastforce
  let ?p = "p\<lparr>rate_limiter := rl\<rparr>"
  obtain r1 p1 where cc: "check_credentials cr env c ?p = (r1, p1)" by fastforce
  have p': "p' = ?p \<or> users p' = users p1 \<and> passwords p' = passwords p1 \<and> sessions p' = sessions p1"
    using assms(1) rid check cc by (auto simp: authenticate_def split: if_splits)
  have inv: "users_inv ?p" "sessions_inv ?p = sessions_inv p" using assms(2) by (simp_all add: users_inv_def sessions_inv_def)
  have "users p1 = users p \<and> passwords p1 = passwords p \<and> (sessions_inv p \<longrightarrow> sessions_inv p1)"
    using cc
  proof (cases rule: check_credentials_cases)
    case (login P user)
    have user: "hm_get (users ?p) (ui_user_id user) = Some user" using find_user_get [OF inv(1) login(1)] by simp
    show ?thesis
      using login_session_created [OF inv(1) user login(2)] login_fields [OF login(2)] inv(2)
      by (auto intro!: sessions_inv_insert [of ?p])
  qed (use inv in auto)
  then show ?thesis using p' inv(2) by (auto simp: sessions_inv_def)
qed

lemma register_Ok:
  assumes "register_user_with_password cr env u pw dname p = (Ok uid, p')"
  shows "\<exists>h user. hm_get (passwords p) u = None \<and> cr_argon2 cr (salt env) pw = Ok h \<and> uid = fresh_id env 0
    \<and> ui_user_id user = uid \<and> age_public_key user = age_key_of u
    \<and> users p' = hm_insert uid user (users p) \<and> passwords p' = hm_insert u h (passwords p) \<and> sessions p' = sessions p"
proof -
  let ?user = "with_display_name (case dname of None \<Rightarrow> u | Some n \<Rightarrow> n) (UserIdentity_new (fresh_id env 0) (clock env 0) (age_key_of u))"
  have free: "hm_get (passwords p) u = None" and commit: "register_commit cr env u pw dname p = (Ok uid, p')"
    using assms by (auto simp: register_user_with_password_def username_taken_def split: if_splits)
  from commit obtain h where h: "cr_argon2 cr (salt env) pw = Ok h"
    by (cases "cr_argon2 cr (salt env) pw") (auto simp: register_commit_def Let_def)
  have user: "ui_user_id ?user = fresh_id env 0" "age_public_key ?user = age_key_of u"
    by (simp_all add: with_display_name_def UserIdentity_new_def)
  have "uid = fresh_id env 0 \<and> users p' = hm_insert uid ?user (users p) \<and> passwords p' = hm_insert u h (passwords p)
      \<and> sessions p' = sessions p"
    using commit h user by (auto simp: register_commit_def Let_def simp del: update.simps)
  then show ?thesis using free h user by metis
qed

lemma register_Err: "register_user_with_password cr env u pw dname p = (Err e, p') \<Longrightarrow> p' = p"
  by (auto simp: register_user_with_password_def register_commit_def Let_def split: sum.splits if_splits)

lemma age_key_of_inj: "age_key_of u = age_key_of v \<longleftrightarrow> u = v"
  by (simp add: age_key_of_def)

lemma refresh_fields:
  assumes "refresh_token env t ttl p = (tok, p')"
  shows "users p' = users p \<and> passwords p' = passwords p \<and> (sessions_inv p \<longrightarrow> sessions_inv p')"
  using assms
  by (auto simp: refresh_token_def Let_def sessions_inv_def map_of_delete update_conv' login_session_def SessionToken_new_def
      split: option.splits if_splits)

lemma new_user_inv:
  assumes "users_inv p" and "sessions_inv p" and "hm_get (users p) (ui_user_id user) = None"
    and "users p' = hm_insert (ui_user_id user) user (users p)" and "sessions p' = sessions p"
  shows "users_inv p' \<and> sessions_inv p'"
proof -
  have "hm_get (users p') k = Some v" if "hm_get (users p) k = Some v" for k v
    using that assms(3,4) by (auto simp: update_conv')
  then have "login_session (users p') t s" if "login_session (users p) t s" for t and s :: "'a Session"
    using that by (auto simp: login_session_def)
  then show ?thesis using assms by (auto simp: users_inv_def sessions_inv_def update_conv' distinct_update split: if_splits)
qed

lemma provider_run_inv: "provider_run cr p acc \<Longrightarrow> users_inv p \<and> sessions_inv p"
proof (induction rule: provider_run.induct)
  case (created ttl m w)
  show ?case by (simp add: users_inv_def sessions_inv_def with_rate_limit_def)
next
  case (registered p acc env u pw dname uid p')
  then obtain user where "ui_user_id user = uid" "uid = fresh_id env 0" "users p' = hm_insert uid user (users p)"
      "sessions p' = sessions p" using register_Ok [OF registered.hyps(3)] by blast
  then show ?case using registered new_user_inv [of p user p'] by simp
next
  case (refused p acc env u pw dname e p')
  then show ?case using register_Err [OF refused.hyps(2)] by simp
next
  case (identity p acc user)
  then show ?case using new_user_inv [of p user "register_user user p"] by (simp add: register_user_def)
next
  case (authenticated p acc env c r p')
  then show ?case using authenticate_fields [OF authenticated.hyps(2)] by (auto simp: users_inv_def)
next
  case (refreshed p acc env t ttl tok p')
  then show ?case using refresh_fields [OF refreshed.hyps(2)] by (auto simp: users_inv_def)
next
  case (revoked p acc t)
  then show ?case by (auto simp: users_inv_def sessions_inv_def revoke_token_def map_of_delete)
qed

lemma account_inv_same:
  assumes "account_inv cr p acc u" and eq: "users p' = users p" "passwords p' = passwords p"
  shows "account_inv cr p' acc u"
  using assms(1) unfolding account_inv_def eq .

lemma account_inv_other:
  assumes inv: "account_inv cr p acc u" and same: "hm_get (passwords p') u = hm_get (passwords p) u" "acc' u = acc u"
    and new: "hm_get (users p) uid = None" "users p' = hm_insert uid user (users p)" "age_public_key user \<noteq> age_key_of u"
  shows "account_inv cr p' acc' u"
proof -
  have old: "hm_get (users p') k = Some w" if "hm_get (users p) k = Some w" for k w
    using that new(1,2) by (auto simp: update_conv')
  have only: "hm_get (users p) k = Some w" if "hm_get (users p') k = Some w" "age_public_key w = age_key_of u" for k w
    using that new(2,3) by (auto simp: update_conv' split: if_splits)
  show ?thesis
  proof (rule account_invI, goal_cases)
    case 1
    then show ?case using account_invD(1) [OF inv] by (simp add: same)
  next
    case (2 pw i)
    then show ?case using account_invD(2) [OF inv] by (simp add: same)
  next
    case (3 pw i)
    then show ?case using account_invD(3) [OF inv] old by (simp add: same) blast
  next
    case (4 k w)
    then show ?case using account_invD(4) [OF inv only] by (simp add: same)
  qed
qed

lemma provider_run_account: "provider_run cr p acc \<Longrightarrow> account_inv cr p acc u"
proof (induction rule: provider_run.induct)
  case (created ttl m w)
  show ?case by (simp add: account_inv_def with_rate_limit_def)
next
  case (registered p acc env v pw dname uid p')
  obtain h user where new: "cr_argon2 cr (salt env) pw = Ok h" "uid = fresh_id env 0" "hm_get (passwords p) v = None"
      "age_public_key user = age_key_of v" "users p' = hm_insert uid user (users p)" "passwords p' = hm_insert v h (passwords p)"
    using register_Ok [OF registered.hyps(3)] by blast
  have free: "hm_get (users p) uid = None" using registered.hyps(2) new(2) by simp
  show ?case
  proof (cases "u = v")
    case True
    have "acc u = None" using account_invD(2) [OF registered.IH] True new(3) by (cases "acc u") auto
    then have none: "age_public_key w \<noteq> age_key_of u" if "hm_get (users p) k = Some w" for k w
      using account_invD(4) [OF registered.IH that] \<open>acc u = None\<close> by auto
    have only: "k = uid" if "hm_get (users p') k = Some w" "age_public_key w = age_key_of u" for k w
      using that none [of k w] new(5) by (auto simp: update_conv' split: if_splits)
    have now: "hm_get (users p') uid = Some user" "hm_get (passwords p') u = Some h"
      using new(5,6) True by (simp_all add: update_conv')
    show ?thesis
    proof (rule account_invI, goal_cases)
      case 1
      then show ?case by (simp add: True)
    next
      case (2 pw' i)
      then have "pw' = pw" by (simp add: True)
      then show ?case using now(2) new(1) by blast
    next
      case (3 pw' i)
      then have "i = uid" by (simp add: True)
      then show ?case using now(1) new(4) True by blast
    next
      case (4 k w)
      then show ?case using only [OF 4] by (simp add: True)
    qed
  next
    case False
    then show ?thesis
      using new age_key_of_inj [of u v] by (intro account_inv_other [OF registered.IH _ _ free]) (auto simp: update_conv')
  qed
next
  case (refused p acc env v pw dname e p')
  then show ?case using register_Err [OF refused.hyps(2)] by simp
next
  case (identity p acc user)
  have "age_public_key user \<noteq> age_key_of u" using identity.hyps(3) by (auto simp: age_key_of_def str_simps)
  then show ?case
    by (intro account_inv_other [OF identity.IH _ _ identity.hyps(2)]) (simp_all add: register_user_def)
next
  case (authenticated p acc env c r p')
  then show ?case using authenticate_fields [OF authenticated.hyps(2)] provider_run_inv account_inv_same by blast
next
  case (refreshed p acc env t ttl tok p')
  then show ?case using refresh_fields [OF refreshed.hyps(2)] account_inv_same by blast
next
  case (revoked p acc t)
  then show ?case by (intro account_inv_same [OF revoked.IH]) (simp_all add: revoke_token_def)
qed

section \<open>What the provider answers\<close>

text \<open>The limiter lets the call through.\<close>

definition admitted :: "Env \<Rightarrow> string \<Rightarrow> 'json LocalAuthProvider \<Rightarrow> bool" where
  "admitted env rid p \<longleftrightarrow> length (in_window (limiter_window (rate_limiter p)) (instant env)
     (limiter_history (rate_limiter p) rid)) < rl_max_attempts (rate_limiter p)"

lemma find_user_limiter [simp]: "find_user P (p\<lparr>rate_limiter := rl\<rparr>) = find_user P p"
  by (simp add: find_user_def)

lemma authenticate_eq:
  assumes "rate_limit_id c = Some rid"
  obtains rl where "authenticate cr env c p =
      (if admitted env rid p
       then (case check_credentials cr env c (p\<lparr>rate_limiter := rl\<rparr>) of
               (result, p') \<Rightarrow> Some (result, if is_success result
                  then p'\<lparr>rate_limiter := rate_limit_reset rid (rate_limiter p')\<rparr> else p'))
       else Some (RateLimited, p\<lparr>rate_limiter := rl\<rparr>))"
proof -
  obtain ok rl where check: "check_rate_limit (instant env) rid (rate_limiter p) = (ok, rl)" by fastforce
  have "ok = admitted env rid p" using auth_limiter.check_law [OF check] by (simp add: admitted_def)
  then show ?thesis using assms check by (intro that [of rl]) (simp add: authenticate_def)
qed

text \<open>The law of the hashing library: a hash verifies exactly the password that it was made from.\<close>

definition argon2_law :: "'h Crypto \<Rightarrow> bool" where
  "argon2_law cr \<longleftrightarrow> (\<forall>s pw h pw'. cr_argon2 cr s pw = Ok h \<longrightarrow> (verify_password cr pw' h \<longleftrightarrow> pw' = pw))"

lemma login_eq: "login env user p = (AuthSuccess (fst (create_session env (ui_user_id user) [user_role] p)),
    snd (create_session env (ui_user_id user) [user_role] p))"
  by (simp add: login_def split: prod.split)

lemma created_user: "hm_get (users p) uid = Some user \<Longrightarrow> session_user (fst (create_session env uid roles p)) = user"
  by (simp add: create_session_def Let_def)

lemma account_password:
  assumes run: "provider_run cr p acc" and law: "argon2_law cr"
  shows "case fst (password_auth cr env u pw (p\<lparr>rate_limiter := rl\<rparr>)) of
      AuthSuccess s \<Rightarrow> acc u = Some (pw, ui_user_id (session_user s))
    | r \<Rightarrow> r = InvalidCredentials \<and> (\<forall>uid. acc u \<noteq> Some (pw, uid))"
proof -
  note acc = account_invD [OF provider_run_account [OF run, of u]]
  have users: "users_inv p" using provider_run_inv [OF run] by simp
  show ?thesis
  proof (cases "acc u")
    case None
    then show ?thesis using acc(1) by (simp add: password_auth_def)
  next
    case (Some a)
    obtain pw1 uid where a: "acc u = Some (pw1, uid)" using Some by (cases a) simp
    obtain h s where h: "hm_get (passwords p) u = Some h" "cr_argon2 cr s pw1 = Ok h" using acc(2) [OF a] by blast
    have verify: "verify_password cr pw h \<longleftrightarrow> pw = pw1" using law h(2) unfolding argon2_law_def by blast
    obtain user where user: "hm_get (users p) uid = Some user" "age_public_key user = age_key_of u" using acc(3) [OF a] by blast
    have "find_user (\<lambda>v. age_public_key v = age_key_of u) p \<noteq> None"
      unfolding find_user_None using user(2) map_of_SomeD [OF user(1)] by force
    then obtain v where v: "find_user (\<lambda>v. age_public_key v = age_key_of u) p = Some v" by blast
    have v': "age_public_key v = age_key_of u" "hm_get (users p) (ui_user_id v) = Some v"
      using find_user_get [OF users v] by simp_all
    have "ui_user_id v = uid" using acc(4) [OF v'(2,1)] a by simp
    then show ?thesis using h(1) verify v v'(2) a by (auto simp: password_auth_def login_eq created_user)
  qed
qed


lemma toy_argon2: "argon2_law toy_crypto"
  by (auto simp: argon2_law_def toy_crypto_def verify_password_def)

definition toy_provider :: "unit LocalAuthProvider" where
  "toy_provider = snd (register_user_with_password toy_crypto (toy_env 1) ''u'' ''secret'' None (with_rate_limit 3600 5 300))"

lemma toy_run: "provider_run toy_crypto toy_provider [''u'' \<mapsto> (''secret'', ''10'')]"
proof -
  have "register_user_with_password toy_crypto (toy_env 1) ''u'' ''secret'' None (with_rate_limit 3600 5 300)
      = (Ok ''10'', toy_provider)"
    by code_simp
  moreover have "hm_get (users (with_rate_limit 3600 5 300 :: unit LocalAuthProvider)) (fresh_id (toy_env 1) 0) = None"
    by (simp add: with_rate_limit_def)
  ultimately show ?thesis
    using provider_run.registered [OF provider_run.created, of 3600 5 300 "toy_env 1" toy_crypto "''u''" "''secret''" None]
    by blast
qed



section \<open>Sessions\<close>

lemma user_role_permissions:
  "role_permissions user_role = [Permission_new ''self'' ''*'' ''read'', Permission_new ''self'' ''*'' ''write'']"
  by (simp add: user_role_def with_permission_def with_description_def Role_new_def)

lemma login_session_grants:
  assumes "login_session us t s"
  shows "UserContext_has_permission (from_session s) q \<longleftrightarrow> namespace q = ''self'' \<and> (action q = ''read'' \<or> action q = ''write'')"
proof -
  have perms: "session_permissions s = role_permissions user_role" using assms by (simp add: login_session_def)
  have "list_all clean (session_permissions s)"
    by (simp add: perms user_role_permissions Permission_new_def clean_def)
  then have "UserContext_has_permission (from_session s) q = list_ex (Permission_matches q) (session_permissions s)"
    using permission_strings [of undefined undefined s q] by simp
  then show ?thesis
    by (auto simp: perms user_role_permissions Permission_matches_def matches_part_def Permission_new_def)
qed

text \<open>After any run of registrations, logins, refreshes and revocations, a token that validates belongs to a session of a
  registered user that has not expired, and the user context made from it grants the reading and writing of the user's own
  resources and nothing else.\<close>

theorem login_grants_user_role:
  assumes "provider_run cr p acc" and "validate_token now t p = Some s"
  shows "token (session_token s) = t \<and> now \<le> expires_at (session_token s)
    \<and> hm_get (users p) (st_user_id (session_token s)) = Some (session_user s)
    \<and> (UserContext_has_permission (from_session s) q \<longleftrightarrow> namespace q = ''self'' \<and> (action q = ''read'' \<or> action q = ''write''))"
proof -
  have s: "hm_get (sessions p) t = Some s" "now \<le> expires_at (session_token s)"
    using assms(2) by (auto simp: validate_token_def is_expired_def split: option.splits if_splits)
  have "login_session (users p) t s" using provider_run_inv [OF assms(1)] s(1) by (simp add: sessions_inv_def)
  then show ?thesis using s(2) login_session_grants [of "users p" t s q] by (simp add: login_session_def)
qed

lemma toy_login: "hm_get (passwords toy_provider) ''u'' = Some ''#secret''"
  by (simp add: toy_provider_def register_user_with_password_def username_taken_def register_commit_def
      with_rate_limit_def toy_crypto_def Let_def)

text \<open>The example provider after a login.\<close>

definition toy_logged_in :: "unit LocalAuthProvider" where
  "toy_logged_in = snd (the (authenticate toy_crypto (toy_env 2) (Password ''u'' ''secret'') toy_provider))"

text \<open>The store of sessions as a map from tokens to sessions: what each operation does to it.\<close>

definition live_sessions :: "'json LocalAuthProvider \<Rightarrow> int \<Rightarrow> string \<rightharpoonup> 'json Session" where
  "live_sessions p now = (\<lambda>t. validate_token now t p)"

definition until_expiry :: "int \<Rightarrow> 'json Session \<Rightarrow> 'json Session option" where
  "until_expiry now s = (if now \<le> expires_at (session_token s) then Some s else None)"

text \<open>The life of a session: creation makes its token valid until it expires and changes no other token; revocation makes
  a token invalid for good; a refresh of a valid token replaces it by a new token with the new time to live and the same user,
  roles and permissions, and the old token is refused from then on; a refresh of any other token is refused and drops it.\<close>

theorem session_lifetime:
  "live_sessions (snd (create_session env uid roles p)) now
     = (live_sessions p now)(fresh_id env 1 := until_expiry now (fst (create_session env uid roles p)))
   \<and> live_sessions (revoke_token t p) now = (live_sessions p now)(t := None)
   \<and> (case (refresh_token env t ttl p, live_sessions p (clock env 0) t) of
        ((None, p'), s) \<Rightarrow> s = None \<and> live_sessions p' now = (live_sessions p now)(t := None)
      | ((Some tok, p'), Some s) \<Rightarrow>
          token tok = fresh_id env 0 \<and> expires_at tok = clock env 1 + ttl * 1000000000 \<and>
          (\<exists>s'. live_sessions p' now = (live_sessions p now)(t := None, fresh_id env 0 := until_expiry now s')
             \<and> session_token s' = tok \<and> session_user s' = session_user s \<and> session_roles s' = session_roles s
             \<and> session_permissions s' = session_permissions s)
      | _ \<Rightarrow> False)"
proof (intro conjI)
  show "live_sessions (snd (create_session env uid roles p)) now
      = (live_sessions p now)(fresh_id env 1 := until_expiry now (fst (create_session env uid roles p)))"
    by (auto simp: fun_eq_iff live_sessions_def until_expiry_def validate_token_def create_session_def Let_def update_conv'
        SessionToken_new_def is_expired_def)
  show "live_sessions (revoke_token t p) now = (live_sessions p now)(t := None)"
    by (auto simp: fun_eq_iff live_sessions_def validate_token_def revoke_token_def map_of_delete)
  show "case (refresh_token env t ttl p, live_sessions p (clock env 0) t) of
        ((None, p'), s) \<Rightarrow> s = None \<and> live_sessions p' now = (live_sessions p now)(t := None)
      | ((Some tok, p'), Some s) \<Rightarrow>
          token tok = fresh_id env 0 \<and> expires_at tok = clock env 1 + ttl * 1000000000 \<and>
          (\<exists>s'. live_sessions p' now = (live_sessions p now)(t := None, fresh_id env 0 := until_expiry now s')
             \<and> session_token s' = tok \<and> session_user s' = session_user s \<and> session_roles s' = session_roles s
             \<and> session_permissions s' = session_permissions s)
      | _ \<Rightarrow> False"
  proof (cases "hm_get (sessions p) t")
    case None
    then show ?thesis by (auto simp: refresh_token_def live_sessions_def validate_token_def fun_eq_iff)
  next
    case (Some s)
    show ?thesis
    proof (cases "is_expired (clock env 0) (session_token s)")
      case True
      then show ?thesis
        using Some by (auto simp: refresh_token_def live_sessions_def validate_token_def fun_eq_iff map_of_delete Let_def)
    next
      case False
      let ?tok = "SessionToken_new (fresh_id env 0) (clock env 1) (st_user_id (session_token s)) ttl"
      let ?s = "s\<lparr>session_token := ?tok, session_claims := (session_claims s)\<lparr>claim_exp := clock env 2 div 1000000000 + ttl\<rparr>\<rparr>"
      have "refresh_token env t ttl p = (Some ?tok, p\<lparr>sessions := hm_insert (fresh_id env 0) ?s (AList.delete t (sessions p))\<rparr>)"
        using Some False by (simp add: refresh_token_def Let_def SessionToken_new_def)
      moreover have "live_sessions (p\<lparr>sessions := hm_insert (fresh_id env 0) ?s (AList.delete t (sessions p))\<rparr>) now
          = (live_sessions p now)(t := None, fresh_id env 0 := until_expiry now ?s)"
        by (auto simp: fun_eq_iff live_sessions_def until_expiry_def validate_token_def update_conv' map_of_delete
            SessionToken_new_def is_expired_def)
      moreover have "live_sessions p (clock env 0) t = Some s" using Some False by (simp add: live_sessions_def validate_token_def)
      ultimately show ?thesis by (auto simp: SessionToken_new_def intro!: exI [of _ ?s])
    qed
  qed
qed

section \<open>Weaknesses\<close>

text \<open>(C20) Two ways around the credentials: the secret of an API key is only compared if the caller sends one, and for a user
  without an Ed25519 key any 64 bytes pass as a signature.\<close>

theorem authentication_bypasses:
  assumes "find_user (\<lambda>u. hm_get (ui_metadata u) ''api_key'' = Some api_key) p = Some user" and "api_key \<noteq> []"
    and "find_user (\<lambda>u. age_public_key u = age_key) p = Some victim" and "ed25519_public_key victim = None"
    and "starts_with age_key ''age1''" and "cr_age_recipient cr age_key" and "challenge \<noteq> []"
    and "cr_base64 cr forged = Some bs" and "length bs = 64" and "forged \<noteq> []"
  shows "is_success (fst (check_credentials cr env (ApiKey api_key None) p))
    \<and> is_success (fst (check_credentials cr env (AgeKey age_key forged challenge) p))"
  using assms by (auto simp: api_key_auth_def age_key_auth_def signature_ok_def login_eq str_simps split: option.split)

theorem authentication_bypasses_witness:
  "is_success (fst (check_credentials toy_crypto (toy_env 1) (ApiKey ''k'' None)
      (register_user ((UserIdentity_new ''1'' 0 ''age1x'')\<lparr>ui_metadata := [(''api_key'', ''k''), (''api_secret'', ''s'')]\<rparr>)
        (LocalAuthProvider_new 60 :: unit LocalAuthProvider))))
   \<and> is_success (fst (check_credentials toy_crypto (toy_env 1) (AgeKey ''age1x'' (replicate 64 CHR ''0'') ''c'')
      (register_user ((UserIdentity_new ''1'' 0 ''age1x'')\<lparr>ui_metadata := [(''api_key'', ''k''), (''api_secret'', ''s'')]\<rparr>)
        (LocalAuthProvider_new 60 :: unit LocalAuthProvider))))"
proof (rule authentication_bypasses [where user = "(UserIdentity_new ''1'' 0 ''age1x'')
      \<lparr>ui_metadata := [(''api_key'', ''k''), (''api_secret'', ''s'')]\<rparr>" and victim = "(UserIdentity_new ''1'' 0 ''age1x'')
      \<lparr>ui_metadata := [(''api_key'', ''k''), (''api_secret'', ''s'')]\<rparr>" and bs = "replicate 64 CHR ''0''"])
qed (simp_all add: find_user_def register_user_def LocalAuthProvider_new_def UserIdentity_new_def toy_crypto_def starts_with_def)

text \<open>Authentication panics for the tokens that are cut within a character.\<close>

lemma authenticate_panics:
  "authenticate cr env c p = None \<longleftrightarrow> (\<exists>t. c = Jwt t \<and> 32 < length t \<and> (of_char (t ! 32) :: nat) \<in> {128..<192})"
proof (cases c)
  case (Jwt t)
  then show ?thesis
    by (auto simp: authenticate_def is_char_boundary_def min_def split: option.splits prod.splits if_splits)
qed (auto simp: authenticate_def split: prod.splits)

text \<open>Two registrations of the same name that both pass the test before either of them is stored succeed both; the second
  password replaces the first.\<close>

lemma registration_race:
  assumes "\<not> username_taken u p" and "register_commit cr env1 u a d1 p = (Ok i, p1)"
    and "register_commit cr env2 u b d2 p1 = (Ok j, p2)"
  shows "\<exists>h. cr_argon2 cr (salt env2) b = Ok h \<and> hm_get (passwords p2) u = Some h"
  using assms by (auto simp: register_commit_def Let_def update_conv' split: sum.splits)

end
