(* ===== verification/Auth_Http.thy ===== *)
theory Auth_Http
  imports User_Auth
begin

text \<open>
  The HTTP handlers of the authentication, \<open>permissions/src/http.rs\<close>: limiter per client address, login, validation,
  logout and registration. A response is its value before it is written as JSON, an error a status code with its body. The
  web framework supplies the address of the client as text and the value of the header \<open>Authorization\<close>, \<open>None\<close> if it is
  absent or not text; \<open>rfc3339\<close> prints a date.
\<close>

section \<open>Limiter\<close>

record RateLimiter =
  hl_attempts :: "(string, nat list) hashmap"
  hl_max_attempts :: nat
  hl_window :: nat

definition RateLimiter_new :: "nat \<Rightarrow> nat \<Rightarrow> RateLimiter" where
  "RateLimiter_new max_attempts window_secs =
     \<lparr>hl_attempts = [], hl_max_attempts = max_attempts, hl_window = window_secs * 1000000000\<rparr>"

definition RateLimiter_check :: "nat \<Rightarrow> string \<Rightarrow> RateLimiter \<Rightarrow> bool \<times> RateLimiter" where
  "RateLimiter_check now key l =
     (let entry = filter (\<lambda>t. now - t < hl_window l) (entry_or_empty (hl_attempts l) key)
      in if hl_max_attempts l \<le> length entry
         then (False, l\<lparr>hl_attempts := hm_insert key entry (hl_attempts l)\<rparr>)
         else (True, l\<lparr>hl_attempts := hm_insert key (entry @ [now]) (hl_attempts l)\<rparr>))"

definition RateLimiter_cleanup :: "nat \<Rightarrow> RateLimiter \<Rightarrow> RateLimiter" where
  "RateLimiter_cleanup now l = l\<lparr>hl_attempts := filter (\<lambda>(k, ts). ts \<noteq> [])
     (map (\<lambda>(k, ts). (k, filter (\<lambda>t. now - t < hl_window l) ts)) (hl_attempts l))\<rparr>"

section \<open>Requests and responses\<close>

datatype AuthMethod = Method_Password | Method_AgeKey | Method_ApiKey | Method_Jwt

record LoginRequest =
  lq_method :: AuthMethod
  lq_username :: "string option"
  lq_password :: "string option"
  lq_age_public_key :: "string option"
  lq_signature :: "string option"
  lq_challenge :: "string option"
  lq_api_key :: "string option"
  lq_api_secret :: "string option"
  lq_jwt_token :: "string option"

record UserInfo =
  inf_user_id :: string
  inf_display_name :: "string option"
  inf_email :: "string option"
  inf_roles :: "string list"
  inf_permissions :: "string list"

definition UserInfo_from :: "'json Session \<Rightarrow> UserInfo" where
  "UserInfo_from s = \<lparr>inf_user_id = ui_user_id (session_user s), inf_display_name = display_name (session_user s),
     inf_email = email (session_user s), inf_roles = map role_name (session_roles s),
     inf_permissions = map as_str (session_permissions s)\<rparr>"

record LoginResponse =
  lr_success :: bool
  lr_token :: "string option"
  lr_expires_at :: "string option"
  lr_user :: "UserInfo option"
  lr_error :: "string option"

record ValidateResponse =
  vr_valid :: bool
  vr_user :: "UserInfo option"
  vr_expires_at :: "string option"
  vr_error :: "string option"

record LogoutResponse =
  lo_success :: bool
  lo_message :: string

record ErrorResponse =
  er_error :: string
  er_code :: u16

record RegisterRequest =
  rq_username :: "string option"
  rq_password :: "string option"
  rq_display_name :: "string option"
  rq_email :: "string option"

record RegisterResponse =
  rr_success :: bool
  rr_user_id :: string
  rr_message :: string

type_synonym http_error = "u16 \<times> ErrorResponse"

definition error_response :: "u16 \<Rightarrow> string \<Rightarrow> http_error" where
  "error_response status message = (status, \<lparr>er_error = message, er_code = status\<rparr>)"

section \<open>State\<close>

record 'json AuthState =
  as_provider :: "'json LocalAuthProvider"
  as_rate_limiter :: RateLimiter

definition AuthState_with_rate_limit :: "'json LocalAuthProvider \<Rightarrow> nat \<Rightarrow> nat \<Rightarrow> 'json AuthState" where
  "AuthState_with_rate_limit provider max_attempts window_secs =
     \<lparr>as_provider = provider, as_rate_limiter = RateLimiter_new max_attempts window_secs\<rparr>"

definition AuthState_with_provider :: "'json LocalAuthProvider \<Rightarrow> 'json AuthState" where
  "AuthState_with_provider provider = \<lparr>as_provider = provider, as_rate_limiter = RateLimiter_new 5 60\<rparr>"

definition AuthState_with_ttl :: "int \<Rightarrow> 'json AuthState" where
  "AuthState_with_ttl ttl_seconds =
     \<lparr>as_provider = LocalAuthProvider_new ttl_seconds, as_rate_limiter = RateLimiter_new 5 60\<rparr>"

definition AuthState_new :: "'json AuthState" where
  "AuthState_new = \<lparr>as_provider = LocalAuthProvider_new 86400, as_rate_limiter = RateLimiter_new 5 60\<rparr>"

section \<open>Handlers\<close>

definition request_credentials :: "LoginRequest \<Rightarrow> http_error + Credentials" where
  "request_credentials req =
     (case lq_method req of
        Method_Password \<Rightarrow>
          result_bind (ok_or (error_response 400 ''Username required for password auth'') (lq_username req)) (\<lambda>username.
          result_bind (ok_or (error_response 400 ''Password required for password auth'') (lq_password req)) (\<lambda>password.
          Ok (Password username password)))
      | Method_AgeKey \<Rightarrow>
          result_bind (ok_or (error_response 400 ''AGE public key required'') (lq_age_public_key req)) (\<lambda>key.
          result_bind (ok_or (error_response 400 ''Signature required for AGE auth'') (lq_signature req)) (\<lambda>signature.
          result_bind (ok_or (error_response 400 ''Challenge required for AGE auth'') (lq_challenge req)) (\<lambda>challenge.
          Ok (AgeKey key signature challenge))))
      | Method_ApiKey \<Rightarrow>
          result_bind (ok_or (error_response 400 ''API key required'') (lq_api_key req)) (\<lambda>key.
          Ok (ApiKey key (lq_api_secret req)))
      | Method_Jwt \<Rightarrow>
          result_bind (ok_or (error_response 400 ''JWT token required'') (lq_jwt_token req)) (\<lambda>t. Ok (Jwt t)))"

definition login_failed :: "string \<Rightarrow> LoginResponse" where
  "login_failed message =
     \<lparr>lr_success = False, lr_token = None, lr_expires_at = None, lr_user = None, lr_error = Some message\<rparr>"

fun login_response :: "(int \<Rightarrow> string) \<Rightarrow> 'json AuthResult \<Rightarrow> http_error + LoginResponse" where
  "login_response rfc3339 (AuthSuccess s) = Ok \<lparr>lr_success = True, lr_token = Some (token (session_token s)),
     lr_expires_at = Some (rfc3339 (expires_at (session_token s))), lr_user = Some (UserInfo_from s), lr_error = None\<rparr>"
| "login_response rfc3339 InvalidCredentials = Ok (login_failed ''Invalid credentials'')"
| "login_response rfc3339 AccountLocked = Ok (login_failed ''Account is locked'')"
| "login_response rfc3339 AccountExpired = Ok (login_failed ''Account has expired'')"
| "login_response rfc3339 ProviderUnavailable = Err (error_response 503 ''Authentication provider unavailable'')"
| "login_response rfc3339 TokenExpired = Ok (login_failed ''Token invalid or expired'')"
| "login_response rfc3339 TokenInvalid = Ok (login_failed ''Token invalid or expired'')"
| "login_response rfc3339 RateLimited =
     Err (error_response 429 ''Too many authentication attempts. Please try again later.'')"

text \<open>A handler returns its answer and the state; \<open>None\<close> is a panic. \<open>now\<close> is the instant that the limiter reads.\<close>

definition login_handler :: "(int \<Rightarrow> string) \<Rightarrow> 'h Crypto \<Rightarrow> Env \<Rightarrow> nat \<Rightarrow> string \<Rightarrow> LoginRequest \<Rightarrow> 'json AuthState
    \<Rightarrow> ((http_error + LoginResponse) \<times> 'json AuthState) option" where
  "login_handler rfc3339 cr env now client_ip req st =
     (case RateLimiter_check now client_ip (as_rate_limiter st) of
        (ok, limiter) \<Rightarrow>
          (let st' = st\<lparr>as_rate_limiter := limiter\<rparr>
           in if \<not> ok
              then Some (Err (error_response 429 ''Too many authentication attempts. Please try again later.''), st')
              else (case request_credentials req of
                      Err e \<Rightarrow> Some (Err e, st')
                    | Ok c \<Rightarrow>
                        (case authenticate cr env c (as_provider st') of
                           None \<Rightarrow> None
                         | Some (result, provider) \<Rightarrow>
                             Some (login_response rfc3339 result, st'\<lparr>as_provider := provider\<rparr>)))))"

definition extract_token :: "string option \<Rightarrow> http_error + string" where
  "extract_token authorization =
     result_bind (ok_or (error_response 401 ''Missing Authorization header'') authorization) (\<lambda>auth_header.
       if \<not> starts_with auth_header ''Bearer ''
       then Err (error_response 401 (''Invalid Authorization header format. Expected '' @ [CHR 0x27]
              @ ''Bearer <token>'' @ [CHR 0x27]))
       else Ok (drop 7 auth_header))"

definition validate_handler :: "(int \<Rightarrow> string) \<Rightarrow> int \<Rightarrow> string option \<Rightarrow> 'json AuthState
    \<Rightarrow> http_error + ValidateResponse" where
  "validate_handler rfc3339 now authorization st =
     result_bind (extract_token authorization) (\<lambda>t.
       case validate_token now t (as_provider st) of
         Some session \<Rightarrow> Ok \<lparr>vr_valid = True, vr_user = Some (UserInfo_from session),
           vr_expires_at = Some (rfc3339 (expires_at (session_token session))), vr_error = None\<rparr>
       | None \<Rightarrow> Ok \<lparr>vr_valid = False, vr_user = None, vr_expires_at = None,
           vr_error = Some ''Invalid or expired token''\<rparr>)"

text \<open>Revoking cannot fail, so the branch of the error is not reached.\<close>

definition logout_handler :: "string option \<Rightarrow> 'json AuthState \<Rightarrow> (http_error + LogoutResponse) \<times> 'json AuthState" where
  "logout_handler authorization st =
     (case extract_token authorization of
        Err e \<Rightarrow> (Err e, st)
      | Ok t \<Rightarrow> (Ok \<lparr>lo_success = True, lo_message = ''Successfully logged out''\<rparr>,
                 st\<lparr>as_provider := revoke_token t (as_provider st)\<rparr>))"

definition register_handler :: "'h Crypto \<Rightarrow> Env \<Rightarrow> nat \<Rightarrow> string \<Rightarrow> RegisterRequest \<Rightarrow> 'json AuthState
    \<Rightarrow> (http_error + RegisterResponse) \<times> 'json AuthState" where
  "register_handler cr env now client_ip req st =
     (case RateLimiter_check now client_ip (as_rate_limiter st) of
        (ok, limiter) \<Rightarrow>
          (let st' = st\<lparr>as_rate_limiter := limiter\<rparr>
           in if \<not> ok
              then (Err (error_response 429 ''Too many registration attempts. Please try again later.''), st')
              else (case rq_username req of
                      None \<Rightarrow> (Err (error_response 400 ''Username required''), st')
                    | Some username \<Rightarrow>
                        (case rq_password req of
                           None \<Rightarrow> (Err (error_response 400 ''Password required''), st')
                         | Some password \<Rightarrow>
                             if length password < 8
                             then (Err (error_response 400 ''Password must be at least 8 characters''), st')
                             else (case register_user_with_password cr env username password (rq_display_name req)
                                          (as_provider st') of
                                     (Ok user_id, provider) \<Rightarrow>
                                       (Ok \<lparr>rr_success = True, rr_user_id = user_id,
                                            rr_message = ''User registered successfully''\<rparr>, st'\<lparr>as_provider := provider\<rparr>)
                                   | (Err e, provider) \<Rightarrow>
                                       (Err (error_response 500 (''Registration failed: '' @ e)),
                                        st'\<lparr>as_provider := provider\<rparr>))))))"

section \<open>Limits\<close>

definition hl_history :: "RateLimiter \<Rightarrow> string \<Rightarrow> nat list" where
  "hl_history l k = entry_or_empty (hl_attempts l) k"

definition hl_valid :: "RateLimiter \<Rightarrow> bool" where
  "hl_valid l \<longleftrightarrow> distinct (hm_keys (hl_attempts l))"

lemma cleanup_history:
  assumes "hl_valid l"
  shows "hl_history (RateLimiter_cleanup now l) k = in_window (hl_window l) now (hl_history l k)"
  using assms map_of_retain [of "hl_attempts l" "\<lambda>ts. ts \<noteq> []" "filter (\<lambda>t. now - t < hl_window l)" k]
  by (auto simp: RateLimiter_cleanup_def hl_history_def entry_or_empty_def in_window_def hl_valid_def split: option.splits)

lemma cleanup_valid: "hl_valid l \<Longrightarrow> hl_valid (RateLimiter_cleanup now l)"
  by (auto simp: hl_valid_def RateLimiter_cleanup_def comp_def case_prod_unfold distinct_map_filter)

interpretation http_limiter:
  window_limiter hl_valid RateLimiter_check RateLimiter_cleanup hl_history hl_max_attempts hl_window
proof (unfold_locales, goal_cases)
  case (1 now k l ok l')
  then show ?case
    by (auto simp: RateLimiter_check_def hl_history_def entry_or_empty_def in_window_def Let_def update_conv' split: if_splits)
next
  case (2 now k l ok l' k')
  then show ?case
    by (auto simp: RateLimiter_check_def hl_history_def entry_or_empty_def Let_def update_conv' split: if_splits)
next
  case (3 now k l ok l')
  then show ?case
    by (auto simp: RateLimiter_check_def hl_valid_def Let_def distinct_update split: if_splits)
next
  case (4 l now k)
  then show ?case
    by (simp add: cleanup_history cleanup_valid in_window_twice) (simp add: RateLimiter_cleanup_def)
qed

text \<open>The requests that are limited, with the periodic clean-up.\<close>

datatype http_request =
    Login_request Env nat string LoginRequest
  | Register_request Env nat string RegisterRequest
  | Cleanup_tick nat

fun http_status :: "http_error + 'a \<Rightarrow> u16" where
  "http_status (Err (status, body)) = status"
| "http_status (Ok body) = 200"

fun serve :: "'h Crypto \<Rightarrow> http_request \<Rightarrow> 'json AuthState \<Rightarrow> (u16 \<times> 'json AuthState) option" where
  "serve cr (Login_request env now ip req) st =
     map_option (\<lambda>(r, st'). (http_status r, st')) (login_handler (\<lambda>_. []) cr env now ip req st)"
| "serve cr (Register_request env now ip req) st =
     (case register_handler cr env now ip req st of (r, st') \<Rightarrow> Some (http_status r, st'))"
| "serve cr (Cleanup_tick now) st = Some (200, st\<lparr>as_rate_limiter := RateLimiter_cleanup now (as_rate_limiter st)\<rparr>)"

fun request_time :: "http_request \<Rightarrow> nat" where
  "request_time (Login_request env now ip req) = now"
| "request_time (Register_request env now ip req) = now"
| "request_time (Cleanup_tick now) = now"

fun request_ip :: "http_request \<Rightarrow> string option" where
  "request_ip (Login_request env now ip req) = Some ip"
| "request_ip (Register_request env now ip req) = Some ip"
| "request_ip (Cleanup_tick now) = None"

fun serve_all :: "'h Crypto \<Rightarrow> http_request list \<Rightarrow> 'json AuthState \<Rightarrow> (u16 list \<times> 'json AuthState) option" where
  "serve_all cr [] st = Some ([], st)"
| "serve_all cr (q # qs) st =
     (case serve cr q st of None \<Rightarrow> None
      | Some (code, st1) \<Rightarrow> map_option (\<lambda>(codes, st2). (code # codes, st2)) (serve_all cr qs st1))"

text \<open>The times of the requests from an address that were not told to come back later.\<close>

definition served_times :: "string \<Rightarrow> http_request list \<Rightarrow> u16 list \<Rightarrow> nat list" where
  "served_times ip qs codes = map (\<lambda>(q, c). request_time q)
     (filter (\<lambda>(q, c). request_ip q = Some ip \<and> c \<noteq> 429) (zip qs codes))"

lemma served_times_Cons:
  "served_times ip (q # qs) (c # codes) =
     (if request_ip q = Some ip \<and> c \<noteq> 429 then [request_time q] else []) @ served_times ip qs codes"
  by (simp add: served_times_def)

lemma serve_limiter:
  assumes "serve cr q st = Some (code, st')" and "request_ip q = Some ip"
  obtains ok l where "RateLimiter_check (request_time q) ip (as_rate_limiter st) = (ok, l)"
    "as_rate_limiter st' = l" "\<not> ok \<Longrightarrow> code = 429"
proof (cases q)
  case (Login_request env now i req)
  obtain ok l where check: "RateLimiter_check now ip (as_rate_limiter st) = (ok, l)" by fastforce
  show ?thesis
    using assms Login_request check
    by (intro that [of ok l])
      (auto simp: login_handler_def Let_def error_response_def split: if_splits sum.splits option.splits prod.splits)
next
  case (Register_request env now i req)
  obtain ok l where check: "RateLimiter_check now ip (as_rate_limiter st) = (ok, l)" by fastforce
  show ?thesis
    using assms Register_request check
    by (intro that [of ok l])
      (auto simp: register_handler_def Let_def error_response_def split: if_splits sum.splits option.splits prod.splits)
qed (use assms in simp)

lemma serve_inv:
  assumes "serve cr q st = Some (code, st')" and "http_limiter.granted_inv ip ts now (as_rate_limiter st)"
    and "now \<le> request_time q"
  shows "\<exists>us. http_limiter.granted_inv ip (ts @ us) (request_time q) (as_rate_limiter st')
      \<and> subseq (if request_ip q = Some ip \<and> code \<noteq> 429 then [request_time q] else []) us
      \<and> hl_max_attempts (as_rate_limiter st') = hl_max_attempts (as_rate_limiter st)
      \<and> hl_window (as_rate_limiter st') = hl_window (as_rate_limiter st)"
proof (cases "request_ip q")
  case None
  then obtain t where q: "q = Cleanup_tick t" by (cases q) auto
  have st': "as_rate_limiter st' = RateLimiter_cleanup t (as_rate_limiter st)" using assms(1) by (auto simp: q)
  have "http_limiter.granted_inv ip ts t (RateLimiter_cleanup t (as_rate_limiter st))"
    using http_limiter.granted_inv_tidy [OF assms(2)] assms(3) by (simp add: q)
  then show ?thesis by (intro exI [of _ "[]"]) (simp add: q st', simp add: RateLimiter_cleanup_def)
next
  case (Some i)
  obtain ok l where check: "RateLimiter_check (request_time q) i (as_rate_limiter st) = (ok, l)"
      "as_rate_limiter st' = l" "\<not> ok \<Longrightarrow> code = 429"
    using serve_limiter [OF assms(1) Some] by metis
  note law = http_limiter.check_law [OF check(1)]
  show ?thesis
  proof (cases "i = ip")
    case True
    have "http_limiter.granted_inv ip (ts @ (if ok then [request_time q] else [])) (request_time q) l"
      using http_limiter.granted_inv_check [OF assms(2,3)] check(1) True by simp
    then show ?thesis using law check(2,3) Some True by (intro exI [of _ "if ok then [request_time q] else []"]) auto
  next
    case False
    have "http_limiter.granted_inv ip ts (request_time q) l"
      using http_limiter.granted_inv_other [OF http_limiter.granted_inv_later [OF assms(2,3)] check(1) False] .
    then show ?thesis using law check(2) Some False by (intro exI [of _ "[]"]) auto
  qed
qed

lemma serve_all_inv:
  assumes "serve_all cr qs st = Some (codes, st')" and "http_limiter.granted_inv ip ts now (as_rate_limiter st)"
    and "sorted (now # map request_time qs)"
  shows "\<exists>us now'. http_limiter.granted_inv ip (ts @ us) now' (as_rate_limiter st') \<and> subseq (served_times ip qs codes) us
      \<and> hl_max_attempts (as_rate_limiter st') = hl_max_attempts (as_rate_limiter st)
      \<and> hl_window (as_rate_limiter st') = hl_window (as_rate_limiter st)"
  using assms
proof (induction qs arbitrary: st codes ts now)
  case Nil
  then show ?case by (auto simp: served_times_def intro!: exI [of _ "[]"])
next
  case (Cons q qs)
  obtain code st1 codes' where step: "serve cr q st = Some (code, st1)" "serve_all cr qs st1 = Some (codes', st')"
      "codes = code # codes'" using Cons.prems(1) by (auto split: option.splits)
  have le: "now \<le> request_time q" "sorted (request_time q # map request_time qs)" using Cons.prems(3) by simp_all
  obtain us where us: "http_limiter.granted_inv ip (ts @ us) (request_time q) (as_rate_limiter st1)"
      "subseq (if request_ip q = Some ip \<and> code \<noteq> 429 then [request_time q] else []) us"
      "hl_max_attempts (as_rate_limiter st1) = hl_max_attempts (as_rate_limiter st)"
      "hl_window (as_rate_limiter st1) = hl_window (as_rate_limiter st)"
    using serve_inv [OF step(1) Cons.prems(2) le(1)] by blast
  obtain vs now' where vs: "http_limiter.granted_inv ip ((ts @ us) @ vs) now' (as_rate_limiter st')"
      "subseq (served_times ip qs codes') vs"
      "hl_max_attempts (as_rate_limiter st') = hl_max_attempts (as_rate_limiter st1)"
      "hl_window (as_rate_limiter st') = hl_window (as_rate_limiter st1)"
    using Cons.IH [OF step(2) us(1) le(2)] by blast
  have "subseq (served_times ip (q # qs) codes) (us @ vs)"
    unfolding step(3) served_times_Cons using us(2) vs(2) by (rule list_emb_append_mono)
  then show ?case using vs us by (intro exI [of _ "us @ vs"] exI [of _ now']) simp
qed

text \<open>Logins and registrations share one limit for each client address: whatever is requested, and whenever the limiter is
  cleaned up, at most \<open>max_attempts\<close> requests from an address get past it within any window; all others are answered with
  status 429.\<close>

theorem requests_limited_per_address:
  assumes "serve_all cr qs (AuthState_with_rate_limit provider max_attempts window_secs) = Some (codes, st')"
    and "sorted (map request_time qs)"
  shows "length (in_window_until (window_secs * 1000000000) t (served_times ip qs codes)) \<le> max_attempts"
proof -
  let ?st = "AuthState_with_rate_limit provider max_attempts window_secs"
  have init: "http_limiter.granted_inv ip [] 0 (as_rate_limiter ?st)"
    by (rule http_limiter.granted_inv_init)
      (simp_all add: AuthState_with_rate_limit_def RateLimiter_new_def hl_valid_def hl_history_def entry_or_empty_def)
  obtain us now' where us: "http_limiter.granted_inv ip ([] @ us) now' (as_rate_limiter st')" "subseq (served_times ip qs codes) us"
      "hl_max_attempts (as_rate_limiter st') = max_attempts" "hl_window (as_rate_limiter st') = window_secs * 1000000000"
    using serve_all_inv [OF assms(1) init] assms(2) by (auto simp: AuthState_with_rate_limit_def RateLimiter_new_def)
  have "length (in_window_until (window_secs * 1000000000) t us) \<le> max_attempts"
    using http_limiter.granted_bound [OF us(1)] us(3,4) by simp
  moreover have "subseq (in_window_until w t (served_times ip qs codes)) (in_window_until w t us)" for w
    unfolding in_window_until_def using us(2) by (rule subseq_filter)
  ultimately show ?thesis using list_emb_length le_trans by blast
qed

definition toy_request :: LoginRequest where
  "toy_request = \<lparr>lq_method = Method_Password, lq_username = Some ''u'', lq_password = Some ''secret'', lq_age_public_key = None,
     lq_signature = None, lq_challenge = None, lq_api_key = None, lq_api_secret = None, lq_jwt_token = None\<rparr>"

section \<open>Login, validation, logout\<close>

definition bearer :: "string \<Rightarrow> string option" where
  "bearer t = Some (''Bearer '' @ t)"

lemma extract_bearer [simp]: "extract_token (bearer t) = Ok t"
  by (simp add: extract_token_def bearer_def str_simps)

text \<open>A successful authentication leaves its session in the store under its token.\<close>

lemma authenticate_stores:
  assumes run: "provider_run cr p acc" and auth: "authenticate cr env c p = Some (AuthSuccess s, p')"
  shows "hm_get (sessions p') (token (session_token s)) = Some s"
proof -
  obtain rid where rid: "rate_limit_id c = Some rid" using auth by (auto simp: authenticate_def split: option.splits)
  obtain ok rl where check: "check_rate_limit (instant env) rid (rate_limiter p) = (ok, rl)" by fastforce
  let ?p = "p\<lparr>rate_limiter := rl\<rparr>"
  obtain p1 where cc: "check_credentials cr env c ?p = (AuthSuccess s, p1)" and p': "sessions p' = sessions p1"
    using auth rid check by (auto simp: authenticate_def split: if_splits prod.splits)
  have inv: "sessions_inv p" using provider_run_inv [OF run] by simp
  from cc have "hm_get (sessions p1) (token (session_token s)) = Some s"
  proof (cases rule: check_credentials_cases)
    case refused
    then show ?thesis by blast
  next
    case (token t s')
    then have "hm_get (sessions p) t = Some s" by (auto simp: validate_token_def split: option.splits if_splits)
    moreover from this have "token (session_token s) = t" using inv by (auto simp: sessions_inv_def login_session_def)
    ultimately show ?thesis using token by simp
  next
    case (login P user)
    then show ?thesis by (auto simp: login_eq create_session_def Let_def SessionToken_new_def update_conv')
  qed
  then show ?thesis using p' by simp
qed

text \<open>A login that answers success hands out a token with which validation says that it is valid, for the same user and
  with the same date of expiry, until that date; once the token was used to log out, validation says that it is not.\<close>

theorem login_validate_logout:
  assumes "provider_run cr (as_provider st) acc"
    and "login_handler rfc3339 cr env now ip req st = Some (Ok resp, st')" and "lr_success resp"
  shows "\<exists>t e. lr_token resp = Some t \<and> lr_user resp \<noteq> None \<and> lr_expires_at resp = Some (rfc3339 e)
    \<and> validate_handler rfc3339 time (bearer t) st' =
        (if time \<le> e
         then Ok \<lparr>vr_valid = True, vr_user = lr_user resp, vr_expires_at = lr_expires_at resp, vr_error = None\<rparr>
         else Ok \<lparr>vr_valid = False, vr_user = None, vr_expires_at = None, vr_error = Some ''Invalid or expired token''\<rparr>)
    \<and> fst (logout_handler (bearer t) st') = Ok \<lparr>lo_success = True, lo_message = ''Successfully logged out''\<rparr>
    \<and> validate_handler rfc3339 time (bearer t) (snd (logout_handler (bearer t) st')) =
        Ok \<lparr>vr_valid = False, vr_user = None, vr_expires_at = None, vr_error = Some ''Invalid or expired token''\<rparr>"
proof -
  obtain c r p' where auth: "authenticate cr env c (as_provider st) = Some (r, p')" "login_response rfc3339 r = Ok resp"
      "as_provider st' = p'"
    using assms(2) by (auto simp: login_handler_def Let_def split: if_splits sum.splits option.splits prod.splits)
  obtain s where r: "r = AuthSuccess s" using auth(2) assms(3) by (cases r) (auto simp: login_failed_def)
  have stored: "hm_get (sessions (as_provider st')) (token (session_token s)) = Some s"
    using authenticate_stores [OF assms(1)] auth r by simp
  have resp: "lr_token resp = Some (token (session_token s))" "lr_user resp = Some (UserInfo_from s)"
      "lr_expires_at resp = Some (rfc3339 (expires_at (session_token s)))" using auth(2) r by auto
  show ?thesis
    using stored resp
    by (intro exI [of _ "token (session_token s)"] exI [of _ "expires_at (session_token s)"])
      (auto simp: validate_handler_def logout_handler_def validate_token_def is_expired_def revoke_token_def map_of_delete)
qed


end
