(* ===== verification/Security_Caps.thy ===== *)
theory Security_Caps
  imports Rust_Str
begin

text \<open>
  Capability declarations, \<open>abi/src/security_rfc/capabilities.rs\<close>, and the contract that the network
  and the filesystem enforcer share. Raw pointers are 64-bit words; what a pointer to a declaration
  points to is a parameter (\<open>None\<close>: the address is not mapped and reading it faults).
\<close>

section \<open>Declarations\<close>

datatype FilesystemAccessMode = Read | ReadWrite | WriteOnly | Append

record FilesystemAccess =
  fa_uri :: u64
  fa_mode :: FilesystemAccessMode
  fa_required :: bool

record NetworkAccess =
  na_host_pattern :: u64
  na_protocol :: u64
  na_required :: bool

record CommandExecution =
  ce_allows_arbitrary :: bool
  ce_allowed_commands :: u64
  ce_num_allowed_commands :: usize
  ce_required :: bool

datatype CapabilityType = Filesystem | Network | Command | Database | Secrets | Custom

record CapabilityInfo =
  ci_type :: CapabilityType
  ci_data :: u64
  ci_description :: u64

datatype CapabilityStatus = Pending | Approved | Denied | AutoApproved | Revoked

record declaration_memory =
  mem_filesystem :: "u64 \<Rightarrow> FilesystemAccess option"
  mem_network :: "u64 \<Rightarrow> NetworkAccess option"
  mem_command :: "u64 \<Rightarrow> CommandExecution option"

definition usize_max :: usize where
  "usize_max = - 1"

definition bad_address :: "u64 \<Rightarrow> bool" where
  "bad_address addr \<longleftrightarrow> addr < 0x1000 \<or> addr = usize_max"

definition validate_data_pointer :: "CapabilityInfo \<Rightarrow> bool" where
  "validate_data_pointer c \<longleftrightarrow> ci_data c \<noteq> 0 \<and> \<not> bad_address (ci_data c)"

definition is_required :: "declaration_memory \<Rightarrow> CapabilityInfo \<Rightarrow> bool option" where
  "is_required mem c =
     (if \<not> validate_data_pointer c then Some False
      else
        (case ci_type c of
           Filesystem \<Rightarrow> map_option (\<lambda>fs.
             if fa_uri fs \<noteq> 0 \<and> bad_address (fa_uri fs) then False else fa_required fs)
             (mem_filesystem mem (ci_data c))
         | Network \<Rightarrow> map_option (\<lambda>net.
             if na_host_pattern net \<noteq> 0 \<and> bad_address (na_host_pattern net) then False
             else if na_protocol net \<noteq> 0 \<and> bad_address (na_protocol net) then False
             else na_required net)
             (mem_network mem (ci_data c))
         | Command \<Rightarrow> map_option (\<lambda>cmd.
             if ce_allowed_commands cmd \<noteq> 0
               \<and> (bad_address (ce_allowed_commands cmd) \<or> 10000 < ce_num_allowed_commands cmd)
             then False else ce_required cmd)
             (mem_command mem (ci_data c))
         | _ \<Rightarrow> Some False))"

fun CapabilityType_display :: "CapabilityType \<Rightarrow> string" where
  "CapabilityType_display Filesystem = ''filesystem''"
| "CapabilityType_display Network = ''network''"
| "CapabilityType_display Command = ''command''"
| "CapabilityType_display Database = ''database''"
| "CapabilityType_display Secrets = ''secrets''"
| "CapabilityType_display Custom = ''custom''"

fun FilesystemAccessMode_display :: "FilesystemAccessMode \<Rightarrow> string" where
  "FilesystemAccessMode_display Read = ''read''"
| "FilesystemAccessMode_display ReadWrite = ''read-write''"
| "FilesystemAccessMode_display WriteOnly = ''write''"
| "FilesystemAccessMode_display Append = ''append''"

text \<open>A declaration that is reported as required was read through a plausible pointer, at a mapped
  address, for one of the three kinds that carry data.\<close>

lemma is_required_plausible:
  "is_required mem c = Some True \<Longrightarrow>
     0x1000 \<le> ci_data c \<and> ci_data c \<noteq> usize_max \<and> ci_type c \<in> {Filesystem, Network, Command}"
  by (auto simp: is_required_def validate_data_pointer_def bad_address_def not_less
      split: if_splits CapabilityType.splits)

section \<open>The contract of an access enforcer\<close>

text \<open>
  An enforcer keeps a list of rules per plugin. A request is allowed when nothing blocks it and a
  global rule or one of the plugin's own rules grants it. The operations only change the rules of the
  plugin they name.
\<close>

locale access_enforcer =
  fixes allowed :: "'s \<Rightarrow> string \<Rightarrow> 'r \<Rightarrow> bool"
    and blocked :: "'s \<Rightarrow> 'r \<Rightarrow> bool"
    and global :: "'s \<Rightarrow> 'r \<Rightarrow> bool"
    and grants :: "'s \<Rightarrow> 'p \<Rightarrow> 'r \<Rightarrow> bool"
    and rules :: "'s \<Rightarrow> string \<Rightarrow> 'p list"
    and register :: "string \<Rightarrow> 'p list \<Rightarrow> 's \<Rightarrow> 's"
    and add :: "string \<Rightarrow> 'p \<Rightarrow> 's \<Rightarrow> 's"
    and remove :: "string \<Rightarrow> 's \<Rightarrow> 's"
  assumes allowed_iff: "allowed s u r \<longleftrightarrow>
      \<not> blocked s r \<and> (global s r \<or> (\<exists>p\<in>set (rules s u). grants s p r))"
    and rules_register: "rules (register u ps s) v = (if u = v then ps else rules s v)"
    and rules_add: "rules (add u p s) v = (if u = v then rules s v @ [p] else rules s v)"
    and rules_remove: "rules (remove u s) v = (if u = v then [] else rules s v)"
    and frame_register: "blocked (register u ps s) = blocked s" "global (register u ps s) = global s"
      "grants (register u ps s) = grants s"
    and frame_add: "blocked (add u p s) = blocked s" "global (add u p s) = global s"
      "grants (add u p s) = grants s"
    and frame_remove: "blocked (remove u s) = blocked s" "global (remove u s) = global s"
      "grants (remove u s) = grants s"
begin

lemmas frame = frame_register frame_add frame_remove

text \<open>Operations on one plugin do not change what another may do.\<close>

lemma isolation:
  assumes "u \<noteq> v"
  shows "allowed (register u ps s) v r = allowed s v r" "allowed (add u p s) v r = allowed s v r"
    "allowed (remove u s) v r = allowed s v r"
  using assms by (simp_all add: allowed_iff rules_register rules_add rules_remove frame)

text \<open>Adding a rule grants exactly what the rule grants; replacing or removing rules takes back
  everything but the global grants.\<close>

lemma allowed_add:
  "allowed (add u p s) u r \<longleftrightarrow> allowed s u r \<or> \<not> blocked s r \<and> grants s p r"
  by (auto simp: allowed_iff rules_add frame)

lemma allowed_register:
  "allowed (register u ps s) u r \<longleftrightarrow> \<not> blocked s r \<and> (global s r \<or> (\<exists>p\<in>set ps. grants s p r))"
  by (simp add: allowed_iff rules_register frame)

lemma allowed_remove: "allowed (remove u s) u r \<longleftrightarrow> \<not> blocked s r \<and> global s r"
  by (simp add: allowed_iff rules_remove frame)

end

end
