(* ===== verification/Net_Enforcer.thy ===== *)
theory Net_Enforcer
  imports Security_Caps
begin

text \<open>
  Network access control, \<open>abi/src/security_rfc/network.rs\<close>. Hosts and patterns are ASCII, on which
  \<open>to_lowercase\<close> maps letters and slicing at byte 2 is slicing at character 2.
\<close>

section \<open>Model\<close>

record HostPattern =
  hp_host :: string
  hp_ports :: "u16 list"
  hp_protocols :: "string list"
  hp_status :: CapabilityStatus

record NetworkEnforcer =
  net_permissions :: "(string, HostPattern list) hashmap"
  global_allowed :: "HostPattern list"
  blocked_hosts :: "string list"

datatype NetworkAccessError =
    NetPermissionDenied string string u16 string
  | BlockedHost string
  | InvalidPattern string

definition host_matches_pattern :: "string \<Rightarrow> string \<Rightarrow> bool" where
  "host_matches_pattern host pattern =
     (if pattern = ''*'' then True
      else
        (let h = to_lowercase host; p = to_lowercase pattern in
         if h = p then True
         else
           (case strip_prefix ''*'' p of
              Some sfx \<Rightarrow> (let base_domain = drop 2 p in ends_with h sfx \<or> h = base_domain)
            | None \<Rightarrow> False)))"

definition any_host :: "string \<Rightarrow> HostPattern" where
  "any_host h = \<lparr>hp_host = h, hp_ports = [], hp_protocols = [], hp_status = AutoApproved\<rparr>"

definition NetworkEnforcer_new :: NetworkEnforcer where
  "NetworkEnforcer_new =
     \<lparr>net_permissions = [],
      global_allowed = [any_host ''localhost'', any_host ''127.0.0.1''],
      blocked_hosts = [''169.254.169.254'', ''metadata.google.internal'', ''metadata.azure.internal'']\<rparr>"

definition net_register_permissions :: "string \<Rightarrow> HostPattern list \<Rightarrow> NetworkEnforcer \<Rightarrow> NetworkEnforcer"
where
  "net_register_permissions plugin_id patterns e =
     e\<lparr>net_permissions := hm_insert plugin_id patterns (net_permissions e)\<rparr>"

definition net_add_permission :: "string \<Rightarrow> HostPattern \<Rightarrow> NetworkEnforcer \<Rightarrow> NetworkEnforcer" where
  "net_add_permission plugin_id pattern e =
     e\<lparr>net_permissions := hm_insert plugin_id
        ((case hm_get (net_permissions e) plugin_id of None \<Rightarrow> [] | Some ps \<Rightarrow> ps) @ [pattern])
        (net_permissions e)\<rparr>"

definition net_remove_plugin :: "string \<Rightarrow> NetworkEnforcer \<Rightarrow> NetworkEnforcer" where
  "net_remove_plugin plugin_id e = e\<lparr>net_permissions := AList.delete plugin_id (net_permissions e)\<rparr>"

text \<open>The loops of \<open>check_access\<close>: the first blocked host, the first global pattern and the first
  pattern of the plugin that apply decide.\<close>

definition global_pattern_allows :: "string \<Rightarrow> u16 \<Rightarrow> string \<Rightarrow> HostPattern \<Rightarrow> bool" where
  "global_pattern_allows host port protocol p \<longleftrightarrow>
     host_matches_pattern host (hp_host p)
     \<and> (hp_ports p = [] \<or> port \<in> set (hp_ports p))
     \<and> (hp_protocols p = [] \<or> list_ex (\<lambda>q. q = protocol) (hp_protocols p))"

fun plugin_patterns_allow :: "string \<Rightarrow> u16 \<Rightarrow> string \<Rightarrow> HostPattern list \<Rightarrow> bool" where
  "plugin_patterns_allow host port protocol [] = False"
| "plugin_patterns_allow host port protocol (p # ps) =
     (if hp_status p \<noteq> Approved \<and> hp_status p \<noteq> AutoApproved
      then plugin_patterns_allow host port protocol ps
      else if \<not> host_matches_pattern host (hp_host p)
      then plugin_patterns_allow host port protocol ps
      else if hp_ports p \<noteq> [] \<and> port \<notin> set (hp_ports p)
      then plugin_patterns_allow host port protocol ps
      else if hp_protocols p \<noteq> [] \<and> \<not> list_ex (\<lambda>q. eq_ignore_ascii_case q protocol) (hp_protocols p)
      then plugin_patterns_allow host port protocol ps
      else True)"

definition net_check_access :: "NetworkEnforcer \<Rightarrow> string \<Rightarrow> string \<Rightarrow> u16 \<Rightarrow> string
    \<Rightarrow> NetworkAccessError + unit" where
  "net_check_access e plugin_id host port protocol =
     (if list_ex (host_matches_pattern host) (blocked_hosts e) then Err (BlockedHost host)
      else if list_ex (global_pattern_allows host port protocol) (global_allowed e) then Ok ()
      else if (case hm_get (net_permissions e) plugin_id of
                 Some plugin_perms \<Rightarrow> plugin_patterns_allow host port protocol plugin_perms
               | None \<Rightarrow> False)
      then Ok ()
      else Err (NetPermissionDenied plugin_id host port protocol))"

definition net_get_permissions :: "string \<Rightarrow> NetworkEnforcer \<Rightarrow> HostPattern list option" where
  "net_get_permissions plugin_id e = hm_get (net_permissions e) plugin_id"

definition add_blocked_host :: "string \<Rightarrow> NetworkEnforcer \<Rightarrow> NetworkEnforcer" where
  "add_blocked_host h e = e\<lparr>blocked_hosts := blocked_hosts e @ [h]\<rparr>"

definition add_global_allowed :: "HostPattern \<Rightarrow> NetworkEnforcer \<Rightarrow> NetworkEnforcer" where
  "add_global_allowed p e = e\<lparr>global_allowed := global_allowed e @ [p]\<rparr>"

definition list_blocked_hosts :: "NetworkEnforcer \<Rightarrow> string list" where
  "list_blocked_hosts e = blocked_hosts e"

fun NetworkAccessError_display :: "NetworkAccessError \<Rightarrow> string" where
  "NetworkAccessError_display (NetPermissionDenied plugin_id host port protocol) =
     ''Permission denied for plugin '' @ plugin_id @ '' to connect to '' @ protocol @ ''://'' @ host @
     '':'' @ show_nat (unat port)"
| "NetworkAccessError_display (BlockedHost host) = ''Host is blocked: '' @ host"
| "NetworkAccessError_display (InvalidPattern pattern) = ''Invalid host pattern: '' @ pattern"

section \<open>The policy\<close>

text \<open>A connection, and what a rule says about it.\<close>

type_synonym connection = "string \<times> u16 \<times> string"

definition net_allowed :: "NetworkEnforcer \<Rightarrow> string \<Rightarrow> connection \<Rightarrow> bool" where
  "net_allowed e plugin_id = (\<lambda>(host, port, protocol).
     net_check_access e plugin_id host port protocol = Ok ())"

definition net_blocked :: "NetworkEnforcer \<Rightarrow> connection \<Rightarrow> bool" where
  "net_blocked e = (\<lambda>(host, port, protocol). \<exists>b\<in>set (blocked_hosts e). host_matches_pattern host b)"

definition net_global :: "NetworkEnforcer \<Rightarrow> connection \<Rightarrow> bool" where
  "net_global e = (\<lambda>(host, port, protocol).
     \<exists>p\<in>set (global_allowed e). global_pattern_allows host port protocol p)"

definition net_grants :: "HostPattern \<Rightarrow> connection \<Rightarrow> bool" where
  "net_grants p = (\<lambda>(host, port, protocol).
     hp_status p \<in> {Approved, AutoApproved} \<and> host_matches_pattern host (hp_host p)
     \<and> (hp_ports p = [] \<or> port \<in> set (hp_ports p))
     \<and> (hp_protocols p = [] \<or> (\<exists>q\<in>set (hp_protocols p). eq_ignore_ascii_case q protocol)))"

definition net_rules :: "NetworkEnforcer \<Rightarrow> string \<Rightarrow> HostPattern list" where
  "net_rules e plugin_id = (case hm_get (net_permissions e) plugin_id of None \<Rightarrow> [] | Some ps \<Rightarrow> ps)"

lemma plugin_patterns_allow_iff:
  "plugin_patterns_allow host port protocol ps \<longleftrightarrow> (\<exists>p\<in>set ps. net_grants p (host, port, protocol))"
  by (induction ps) (auto simp: net_grants_def list_ex_iff)

lemmas net_defs = net_allowed_def net_blocked_def net_global_def net_rules_def
  net_register_permissions_def net_add_permission_def net_remove_plugin_def

interpretation net: access_enforcer net_allowed net_blocked net_global "\<lambda>_. net_grants" net_rules
  net_register_permissions net_add_permission net_remove_plugin
proof
  fix s u r
  show "net_allowed s u r \<longleftrightarrow>
      \<not> net_blocked s r \<and> (net_global s r \<or> (\<exists>p\<in>set (net_rules s u). net_grants p r))"
    by (cases r) (auto simp: net_defs net_check_access_def plugin_patterns_allow_iff list_ex_iff
        split: option.splits)
qed (auto simp: net_defs update_conv' delete_conv' fun_eq_iff split: option.splits)

text \<open>The enforcers that the operations can build.\<close>

inductive net_reachable :: "NetworkEnforcer \<Rightarrow> bool" where
  net_new: "net_reachable NetworkEnforcer_new"
| net_register: "net_reachable e \<Longrightarrow> net_reachable (net_register_permissions u ps e)"
| net_add: "net_reachable e \<Longrightarrow> net_reachable (net_add_permission u p e)"
| net_remove: "net_reachable e \<Longrightarrow> net_reachable (net_remove_plugin u e)"
| net_block: "net_reachable e \<Longrightarrow> net_reachable (add_blocked_host h e)"
| net_allow: "net_reachable e \<Longrightarrow> net_reachable (add_global_allowed p e)"

lemma net_reachable_blocked:
  "net_reachable e \<Longrightarrow> set (blocked_hosts NetworkEnforcer_new) \<subseteq> set (blocked_hosts e)"
  by (induction rule: net_reachable.induct)
    (auto simp: net_defs add_blocked_host_def add_global_allowed_def)

lemma host_matches_self: "to_lowercase host = to_lowercase b \<Longrightarrow> host_matches_pattern host b"
  by (simp add: host_matches_pattern_def)

text \<open>Cloud metadata endpoints are out of reach: whatever permissions are registered and
  whatever hosts are allowed globally, a connection to one of them, in any letter case, on any port
  and protocol, is refused as blocked.\<close>

theorem metadata_endpoints_blocked:
  assumes "net_reachable e"
    and "to_lowercase host \<in>
      {''169.254.169.254'', ''metadata.google.internal'', ''metadata.azure.internal''}"
  shows "net_check_access e plugin_id host port protocol = Err (BlockedHost host)"
proof -
  have "to_lowercase b = b" if "b \<in> set (blocked_hosts NetworkEnforcer_new)" for b
    using that by (auto simp: NetworkEnforcer_new_def to_lowercase_def to_ascii_lower_def)
  moreover obtain b where b: "b \<in> set (blocked_hosts NetworkEnforcer_new)" "to_lowercase host = b"
    using assms(2) by (auto simp: NetworkEnforcer_new_def)
  ultimately have "host_matches_pattern host b" by (simp add: host_matches_self)
  moreover have "b \<in> set (blocked_hosts e)" using net_reachable_blocked [OF assms(1)] b(1) by blast
  ultimately show ?thesis by (auto simp: net_check_access_def list_ex_iff)
qed

text \<open>Network rules are per plugin and revocable: registering, adding or removing rules of one
  plugin changes nothing for another; adding a rule allows exactly the connections that the approved
  rule covers on top of what was allowed; after removal only the global rules remain; nothing
  blocked is ever allowed.\<close>

theorem network_isolation:
  "(if u = v
    then net_allowed (net_add_permission u p e) v c =
           (net_allowed e v c \<or> (\<not> net_blocked e c \<and> net_grants p c))
         \<and> net_allowed (net_remove_plugin u e) v c = (\<not> net_blocked e c \<and> net_global e c)
         \<and> net_allowed (net_register_permissions u ps e) v c =
           (\<not> net_blocked e c \<and> (net_global e c \<or> list_ex (\<lambda>p. net_grants p c) ps))
    else net_allowed (net_add_permission u p e) v c = net_allowed e v c
         \<and> net_allowed (net_remove_plugin u e) v c = net_allowed e v c
         \<and> net_allowed (net_register_permissions u ps e) v c = net_allowed e v c)"
  using net.isolation [of u v] net.allowed_add [of u p e c] net.allowed_remove [of u e c]
    net.allowed_register [of u ps e c]
  by (cases "u = v") (simp_all add: list_ex_iff)

section \<open>Host patterns\<close>

text \<open>What patterns match: \<open>*\<close> every host; \<open>*.d\<close> the domain \<open>d\<close> and the hosts that end in
  \<open>.d\<close>; a pattern without a star only itself, up to letter case. A pattern that starts with a star but
  not with \<open>*.\<close> also matches the pattern without its first two characters: \<open>*google.com\<close> matches
  \<open>oogle.com\<close>.\<close>

theorem host_patterns:
  "host_matches_pattern host ''*''
   \<and> (host_matches_pattern host (''*.'' @ d) \<longleftrightarrow>
        to_lowercase host = to_lowercase d \<or> ends_with (to_lowercase host) (''.'' @ to_lowercase d)
        \<or> to_lowercase host = ''*.'' @ to_lowercase d)
   \<and> (CHR ''*'' \<in> set pat \<or> (host_matches_pattern host pat \<longleftrightarrow> to_lowercase host = to_lowercase pat))
   \<and> host_matches_pattern ''oogle.com'' ''*google.com''"
proof -
  have low: "to_lowercase (''*.'' @ d) = ''*.'' @ to_lowercase d"
    by (simp add: to_lowercase_def to_ascii_lower_def)
  have star: "CHR ''*'' \<in> set pat" if "strip_prefix ''*'' (to_lowercase pat) = Some r" for r
  proof -
    from that have "CHR ''*'' \<in> set (to_lowercase pat)" by (simp add: strip_prefix_Some_iff)
    then obtain c where "c \<in> set pat" "to_ascii_lower c = CHR ''*''" by (auto simp: to_lowercase_def)
    then show ?thesis
      by (auto simp: to_ascii_lower_def char_of_eq_iff take_bit_eq_mod split: if_splits)
  qed
  have plain: "host_matches_pattern host pat \<longleftrightarrow> to_lowercase host = to_lowercase pat"
    if "CHR ''*'' \<notin> set pat"
  proof -
    from that star have "strip_prefix ''*'' (to_lowercase pat) = None" by fastforce
    moreover from that have "pat \<noteq> ''*''" by auto
    ultimately show ?thesis by (simp add: host_matches_pattern_def Let_def)
  qed
  have "host_matches_pattern host (''*.'' @ d) \<longleftrightarrow>
        to_lowercase host = to_lowercase d \<or> ends_with (to_lowercase host) (''.'' @ to_lowercase d)
        \<or> to_lowercase host = ''*.'' @ to_lowercase d"
    unfolding host_matches_pattern_def Let_def low by auto
  moreover have "host_matches_pattern ''oogle.com'' ''*google.com''"
    by (simp add: host_matches_pattern_def to_lowercase_def to_ascii_lower_def)
  ultimately show ?thesis using plain by (auto simp: host_matches_pattern_def)
qed

end
