(* ===== verification/Fs_Enforcer.thy ===== *)
theory Fs_Enforcer
  imports Security_Caps
begin

text \<open>
  Filesystem access control, \<open>abi/src/security_rfc/filesystem.rs\<close>. Paths are Unix paths; \<open>PathBuf::join\<close>
  of the standard library is modelled for them.
\<close>

section \<open>Model\<close>

record PathPermission =
  pp_path :: string
  pp_mode :: FilesystemAccessMode
  pp_status :: CapabilityStatus
  pp_source :: string

record FilesystemEnforcer =
  fs_permissions :: "(string, PathPermission list) hashmap"
  global_read_paths :: "string list"
  vfs_mounts :: "(string, string) hashmap"

datatype FilesystemAccessError =
    FsPermissionDenied string string FilesystemAccessMode
  | PathNotFound string
  | InvalidPath string

text \<open>\<open>str::find\<close> of a substring, as the text before and after its first occurrence.\<close>

fun split_at :: "string \<Rightarrow> string \<Rightarrow> (string \<times> string) option" where
  "split_at sep [] = (if sep = [] then Some ([], []) else None)"
| "split_at sep (c # s) =
     (case strip_prefix sep (c # s) of
        Some rest \<Rightarrow> Some ([], rest)
      | None \<Rightarrow> map_option (\<lambda>(a, b). (c # a, b)) (split_at sep s))"

definition FilesystemEnforcer_new :: FilesystemEnforcer where
  "FilesystemEnforcer_new =
     \<lparr>fs_permissions = [],
      global_read_paths = [''/etc/ssl/certs'', ''/usr/share/zoneinfo''],
      vfs_mounts = [(''plugin-data'', ''./data/plugins''), (''shared-data'', ''./data/shared''),
        (''config'', ''./config''), (''cache'', ''./cache''), (''logs'', ''./logs''), (''temp'', ''./tmp'')]\<rparr>"

definition fs_register_permissions :: "string \<Rightarrow> PathPermission list \<Rightarrow> FilesystemEnforcer
    \<Rightarrow> FilesystemEnforcer" where
  "fs_register_permissions plugin_id ps e =
     e\<lparr>fs_permissions := hm_insert plugin_id ps (fs_permissions e)\<rparr>"

definition fs_add_permission :: "string \<Rightarrow> PathPermission \<Rightarrow> FilesystemEnforcer \<Rightarrow> FilesystemEnforcer" where
  "fs_add_permission plugin_id p e =
     e\<lparr>fs_permissions := hm_insert plugin_id
        ((case hm_get (fs_permissions e) plugin_id of None \<Rightarrow> [] | Some ps \<Rightarrow> ps) @ [p])
        (fs_permissions e)\<rparr>"

definition fs_remove_plugin :: "string \<Rightarrow> FilesystemEnforcer \<Rightarrow> FilesystemEnforcer" where
  "fs_remove_plugin plugin_id e = e\<lparr>fs_permissions := AList.delete plugin_id (fs_permissions e)\<rparr>"

definition resolve_vfs_path :: "FilesystemEnforcer \<Rightarrow> string \<Rightarrow> string" where
  "resolve_vfs_path e uri =
     (case split_at ''://'' uri of
        Some (scheme, path) \<Rightarrow>
          (case hm_get (vfs_mounts e) scheme of
             Some mount_point \<Rightarrow> path_join mount_point path
           | None \<Rightarrow> uri)
      | None \<Rightarrow> uri)"

definition path_matches :: "string \<Rightarrow> string \<Rightarrow> bool" where
  "path_matches path pattern =
     (if pattern = ''*'' then True
      else
        (case strip_suffix ''/*'' pattern of
           Some pre \<Rightarrow> starts_with path pre
         | None \<Rightarrow>
             if ends_with pattern ''/'' then starts_with path pattern
             else if path = pattern then True
             else if starts_with path pattern \<and> starts_with (drop (length pattern) path) ''/'' then True
             else False))"

fun mode_compatible :: "FilesystemAccessMode \<Rightarrow> FilesystemAccessMode \<Rightarrow> bool" where
  "mode_compatible ReadWrite _ = True"
| "mode_compatible Read Read = True"
| "mode_compatible WriteOnly WriteOnly = True"
| "mode_compatible WriteOnly Append = True"
| "mode_compatible Append Append = True"
| "mode_compatible _ _ = False"

fun plugin_paths_allow :: "FilesystemEnforcer \<Rightarrow> string \<Rightarrow> FilesystemAccessMode
    \<Rightarrow> PathPermission list \<Rightarrow> bool" where
  "plugin_paths_allow e resolved_path requested [] = False"
| "plugin_paths_allow e resolved_path requested (p # ps) =
     (if pp_status p \<noteq> Approved \<and> pp_status p \<noteq> AutoApproved
      then plugin_paths_allow e resolved_path requested ps
      else if path_matches resolved_path (resolve_vfs_path e (pp_path p))
              \<and> mode_compatible (pp_mode p) requested
      then True
      else plugin_paths_allow e resolved_path requested ps)"

definition fs_check_access :: "FilesystemEnforcer \<Rightarrow> string \<Rightarrow> string \<Rightarrow> FilesystemAccessMode
    \<Rightarrow> FilesystemAccessError + unit" where
  "fs_check_access e plugin_id path requested =
     (let resolved_path = resolve_vfs_path e path in
      if requested = Read \<and> list_ex (starts_with resolved_path) (global_read_paths e) then Ok ()
      else if (case hm_get (fs_permissions e) plugin_id of
                 Some plugin_perms \<Rightarrow> plugin_paths_allow e resolved_path requested plugin_perms
               | None \<Rightarrow> False)
      then Ok ()
      else Err (FsPermissionDenied plugin_id path requested))"

definition fs_get_permissions :: "string \<Rightarrow> FilesystemEnforcer \<Rightarrow> PathPermission list option" where
  "fs_get_permissions plugin_id e = hm_get (fs_permissions e) plugin_id"

definition add_vfs_mount :: "string \<Rightarrow> string \<Rightarrow> FilesystemEnforcer \<Rightarrow> FilesystemEnforcer" where
  "add_vfs_mount scheme path e = e\<lparr>vfs_mounts := hm_insert scheme path (vfs_mounts e)\<rparr>"

definition list_vfs_mounts :: "FilesystemEnforcer \<Rightarrow> (string, string) hashmap" where
  "list_vfs_mounts e = vfs_mounts e"

section \<open>The policy\<close>

type_synonym file_request = "string \<times> FilesystemAccessMode"

definition fs_allowed :: "FilesystemEnforcer \<Rightarrow> string \<Rightarrow> file_request \<Rightarrow> bool" where
  "fs_allowed e plugin_id = (\<lambda>(path, mode). fs_check_access e plugin_id path mode = Ok ())"

definition fs_global :: "FilesystemEnforcer \<Rightarrow> file_request \<Rightarrow> bool" where
  "fs_global e = (\<lambda>(path, mode).
     mode = Read \<and> (\<exists>g\<in>set (global_read_paths e). starts_with (resolve_vfs_path e path) g))"

definition fs_grants :: "FilesystemEnforcer \<Rightarrow> PathPermission \<Rightarrow> file_request \<Rightarrow> bool" where
  "fs_grants e p = (\<lambda>(path, mode).
     pp_status p \<in> {Approved, AutoApproved}
     \<and> path_matches (resolve_vfs_path e path) (resolve_vfs_path e (pp_path p))
     \<and> mode_compatible (pp_mode p) mode)"

definition fs_rules :: "FilesystemEnforcer \<Rightarrow> string \<Rightarrow> PathPermission list" where
  "fs_rules e plugin_id = (case hm_get (fs_permissions e) plugin_id of None \<Rightarrow> [] | Some ps \<Rightarrow> ps)"

lemma plugin_paths_allow_iff:
  "plugin_paths_allow e (resolve_vfs_path e path) mode ps \<longleftrightarrow> (\<exists>p\<in>set ps. fs_grants e p (path, mode))"
  by (induction ps) (auto simp: fs_grants_def)

lemmas fs_defs = fs_allowed_def fs_global_def fs_rules_def fs_grants_def resolve_vfs_path_def
  fs_register_permissions_def fs_add_permission_def fs_remove_plugin_def

interpretation fs: access_enforcer fs_allowed "\<lambda>_ _. False" fs_global fs_grants fs_rules
  fs_register_permissions fs_add_permission fs_remove_plugin
proof
  fix s u r
  show "fs_allowed s u r \<longleftrightarrow> \<not> False \<and> (fs_global s r \<or> (\<exists>p\<in>set (fs_rules s u). fs_grants s p r))"
    by (cases r) (auto simp: fs_allowed_def fs_global_def fs_rules_def fs_check_access_def Let_def
        plugin_paths_allow_iff list_ex_iff split: option.splits)
qed (auto simp: fs_defs update_conv' delete_conv' fun_eq_iff split: option.splits)

text \<open>File access is denied by default and rules are per plugin and revocable: without rules
  only global reads are allowed; operations on one plugin change nothing for another; adding a rule
  allows exactly the requests that it covers on top of what was allowed; removal takes every rule
  back.\<close>

theorem filesystem_isolation:
  "(if u = v
    then fs_allowed (fs_add_permission u p e) v r = (fs_allowed e v r \<or> fs_grants e p r)
         \<and> fs_allowed (fs_remove_plugin u e) v r = fs_global e r
         \<and> fs_allowed (fs_register_permissions u ps e) v r =
             (fs_global e r \<or> list_ex (\<lambda>p. fs_grants e p r) ps)
    else fs_allowed (fs_add_permission u p e) v r = fs_allowed e v r
         \<and> fs_allowed (fs_remove_plugin u e) v r = fs_allowed e v r
         \<and> fs_allowed (fs_register_permissions u ps e) v r = fs_allowed e v r)
   \<and> (fs_allowed FilesystemEnforcer_new u r \<longleftrightarrow> fs_global FilesystemEnforcer_new r)"
proof -
  have new: "fs_allowed FilesystemEnforcer_new u r \<longleftrightarrow> fs_global FilesystemEnforcer_new r"
    using fs.allowed_iff [of FilesystemEnforcer_new u r]
    by (simp add: fs_rules_def FilesystemEnforcer_new_def)
  then show ?thesis
    using fs.isolation [of u v] fs.allowed_add [of u p e r] fs.allowed_remove [of u e r]
      fs.allowed_register [of u ps e r]
    by (cases "u = v") (simp_all add: list_ex_iff)
qed

section \<open>Modes and paths\<close>

text \<open>Access modes form a preorder that never lets a read-only or append-only grant overwrite:
  every mode grants itself, grants compose, read-write grants everything, and only read-write
  grants both reading and writing.\<close>

theorem mode_compatible_order:
  "mode_compatible m m
   \<and> (mode_compatible a b \<longrightarrow> mode_compatible b c \<longrightarrow> mode_compatible a c)
   \<and> (mode_compatible a Read \<and> mode_compatible a Append \<longleftrightarrow> a = ReadWrite)
   \<and> (mode_compatible a WriteOnly \<longleftrightarrow> a \<in> {ReadWrite, WriteOnly})"
  by (cases m; cases a; cases b; cases c) simp_all

text \<open>A directory rule covers the directory itself and what is below it, textually: for a plain
  pattern, a path matches exactly when it is the pattern or the pattern followed by a slash and
  more. Matching does not normalise paths, so a rule for a directory also covers paths that leave it
  through \<open>..\<close>; and a rule that ends in \<open>/*\<close> also covers siblings whose name starts with the name of
  the directory.\<close>

theorem path_matches_textual:
  "(ends_with pat ''/'' \<or> ends_with pat ''*'' \<or>
      (path_matches path pat \<longleftrightarrow> path = pat \<or> starts_with path (pat @ ''/'')))
   \<and> fs_check_access (fs_add_permission ''p''
        \<lparr>pp_path = ''plugin-data://p'', pp_mode = Read, pp_status = Approved, pp_source = ''p''\<rparr>
        FilesystemEnforcer_new) ''p'' ''plugin-data://p/../../../secret'' Read = Ok ()
   \<and> fs_check_access FilesystemEnforcer_new ''p'' ''/etc/ssl/certs/../../shadow'' Read = Ok ()
   \<and> path_matches ''data/foobar'' ''data/foo/*''"
proof -
  have "path_matches path pat \<longleftrightarrow> path = pat \<or> starts_with path (pat @ ''/'')"
    if "\<not> ends_with pat ''/''" "\<not> ends_with pat ''*''"
  proof -
    have "strip_suffix ''/*'' pat = None"
    proof (rule ccontr)
      assume "strip_suffix ''/*'' pat \<noteq> None"
      then obtain r where "pat = (r @ ''/'') @ ''*''" by (auto simp: strip_suffix_Some_iff)
      with that(2) show False unfolding ends_with_iff by blast
    qed
    moreover have "pat \<noteq> ''*''"
      using that(2) unfolding ends_with_iff by (metis append_Nil)
    moreover have "starts_with path pat \<and> starts_with (drop (length pat) path) ''/''
        \<longleftrightarrow> starts_with path (pat @ ''/'')"
      by (auto simp: starts_with_iff)
    ultimately show ?thesis using that(1) by (simp add: path_matches_def)
  qed
  moreover have "fs_check_access (fs_add_permission ''p''
        \<lparr>pp_path = ''plugin-data://p'', pp_mode = Read, pp_status = Approved, pp_source = ''p''\<rparr>
        FilesystemEnforcer_new) ''p'' ''plugin-data://p/../../../secret'' Read = Ok ()"
    by code_simp
  moreover have "fs_check_access FilesystemEnforcer_new ''p'' ''/etc/ssl/certs/../../shadow'' Read = Ok ()"
    by code_simp
  moreover have "path_matches ''data/foobar'' ''data/foo/*''" by code_simp
  ultimately show ?thesis by blast
qed

end
