(* ===== verification/Policy_Engine.thy ===== *)
theory Policy_Engine
  imports Net_Enforcer Fs_Enforcer
begin

unbundle bit_operations_syntax

text \<open>
  The capability approval workflow, \<open>abi/src/security_rfc/policy.rs\<close>. Instants and durations are natural
  numbers of nanoseconds; an operation takes the instants it reads. The static request counter of
  \<open>uuid_v4_short\<close> is part of the state. Applying an approved capability only logs, as in the source.
\<close>

section \<open>Types\<close>

datatype ApprovalStatus = ApPending | ApApproved | ApDenied | ApAutoApproved | ApExpired

datatype RiskLevel = Minimal | Low | Medium | High | Critical

record CapabilityApproval =
  ca_id :: string
  ca_plugin_id :: string
  ca_capability_type :: CapabilityType
  ca_description :: string
  ca_status :: ApprovalStatus
  ca_created_at :: nat
  ca_expires_at :: "nat option"
  ca_approver :: "string option"
  ca_denial_reason :: "string option"
  ca_risk_level :: RiskLevel

record SecurityPolicy =
  auto_approve_minimal :: bool
  auto_approve_low :: bool
  require_mfa_for_high :: bool
  require_mfa_for_critical :: bool
  default_expiration :: "nat option"
  max_pending_per_plugin :: nat

definition SecurityPolicy_default :: SecurityPolicy where
  "SecurityPolicy_default =
     \<lparr>auto_approve_minimal = True, auto_approve_low = True, require_mfa_for_high = True,
      require_mfa_for_critical = True,
      default_expiration = Some (30 * 24 * 60 * 60 * 1000000000), max_pending_per_plugin = 10\<rparr>"

record SecurityPolicyEngine =
  pending_approvals :: "(string, CapabilityApproval) hashmap"
  approved_capabilities :: "(string, CapabilityApproval list) hashmap"
  policy :: SecurityPolicy
  fs_enforcer :: FilesystemEnforcer
  net_enforcer :: NetworkEnforcer
  uuid_counter :: u64

datatype PolicyError =
    ApprovalNotFound string
  | TooManyPendingRequests string nat
  | CapabilityDenied string
  | MfaRequired

fun PolicyError_display :: "PolicyError \<Rightarrow> string" where
  "PolicyError_display (ApprovalNotFound i) = ''Approval not found: '' @ i"
| "PolicyError_display (TooManyPendingRequests p m) =
     ''Too many pending requests for plugin '' @ p @ '' (max: '' @ show_nat m @ '')''"
| "PolicyError_display (CapabilityDenied r) = ''Capability denied: '' @ r"
| "PolicyError_display MfaRequired = ''MFA required for this operation''"

section \<open>Operations\<close>

definition SecurityPolicyEngine_with_policy :: "SecurityPolicy \<Rightarrow> SecurityPolicyEngine" where
  "SecurityPolicyEngine_with_policy p =
     \<lparr>pending_approvals = [], approved_capabilities = [], policy = p,
      fs_enforcer = FilesystemEnforcer_new, net_enforcer = NetworkEnforcer_new, uuid_counter = 0\<rparr>"

definition SecurityPolicyEngine_new :: SecurityPolicyEngine where
  "SecurityPolicyEngine_new = SecurityPolicyEngine_with_policy SecurityPolicy_default"

fun assess_risk :: "CapabilityType \<Rightarrow> RiskLevel" where
  "assess_risk Filesystem = Medium"
| "assess_risk Network = Medium"
| "assess_risk Command = High"
| "assess_risk Database = Medium"
| "assess_risk Secrets = High"
| "assess_risk Custom = High"

text \<open>\<open>format!("{:08x}", w)\<close> for a word below \<open>2 ^ 32\<close>: eight hexadecimal digits.\<close>

definition hex_digit :: "u64 \<Rightarrow> char" where
  "hex_digit d = (if d < 10 then char_of (48 + unat d) else char_of (87 + unat d))"

definition hex8 :: "u64 \<Rightarrow> string" where
  "hex8 w = map (\<lambda>i. hex_digit (take_bit 4 (drop_bit (4 * i) w))) [7, 6, 5, 4, 3, 2, 1, 0]"

definition uuid_v4_short :: "u64 \<Rightarrow> u64 \<Rightarrow> string" where
  "uuid_v4_short timestamp count =
     hex8 (timestamp AND 0xFFFFFFFF) @ hex8 (count AND 0xFFFFFFFF)"

definition approval_id :: "string \<Rightarrow> u64 \<Rightarrow> u64 \<Rightarrow> string" where
  "approval_id plugin_id timestamp count =
     ''appr-'' @ plugin_id @ ''-'' @ uuid_v4_short timestamp count"

definition push_approved :: "CapabilityApproval \<Rightarrow> SecurityPolicyEngine \<Rightarrow> SecurityPolicyEngine" where
  "push_approved a e =
     e\<lparr>approved_capabilities := hm_insert (ca_plugin_id a)
        ((case hm_get (approved_capabilities e) (ca_plugin_id a) of None \<Rightarrow> [] | Some l \<Rightarrow> l) @ [a])
        (approved_capabilities e)\<rparr>"

definition apply_approval :: "string \<Rightarrow> SecurityPolicyEngine
    \<Rightarrow> (PolicyError + unit) \<times> SecurityPolicyEngine" where
  "apply_approval aid e =
     (case hm_get (pending_approvals e) aid of
        None \<Rightarrow> (Err (ApprovalNotFound aid), e)
      | Some a \<Rightarrow>
          (Ok (), push_approved a (e\<lparr>pending_approvals := AList.delete aid (pending_approvals e)\<rparr>)))"

text \<open>\<open>now1\<close> and \<open>now2\<close> are the instants read for the creation and the expiration, \<open>timestamp\<close> the
  nanoseconds that the identifier uses.\<close>

definition request_approval :: "nat \<Rightarrow> nat \<Rightarrow> u64 \<Rightarrow> string \<Rightarrow> CapabilityInfo \<Rightarrow> string
    \<Rightarrow> SecurityPolicyEngine \<Rightarrow> (PolicyError + string) \<times> SecurityPolicyEngine" where
  "request_approval now1 now2 timestamp plugin_id capability description e =
     (if max_pending_per_plugin (policy e)
           \<le> length (filter (\<lambda>(_, a). ca_plugin_id a = plugin_id) (pending_approvals e))
      then (Err (TooManyPendingRequests plugin_id (max_pending_per_plugin (policy e))), e)
      else
        (let risk_level = assess_risk (ci_type capability);
             status = (if risk_level = Minimal \<and> auto_approve_minimal (policy e)
                          \<or> risk_level = Low \<and> auto_approve_low (policy e)
                       then ApAutoApproved else ApPending);
             aid = approval_id plugin_id timestamp (uuid_counter e);
             approval = \<lparr>ca_id = aid, ca_plugin_id = plugin_id, ca_capability_type = ci_type capability,
               ca_description = description, ca_status = status, ca_created_at = now1,
               ca_expires_at = map_option (\<lambda>d. now2 + d) (default_expiration (policy e)),
               ca_approver = (if status = ApAutoApproved then Some ''auto'' else None),
               ca_denial_reason = None, ca_risk_level = risk_level\<rparr>;
             e1 = e\<lparr>uuid_counter := uuid_counter e + 1,
                    pending_approvals := hm_insert aid approval (pending_approvals e)\<rparr>
         in if status = ApAutoApproved
            then (case apply_approval aid e1 of
                    (Err err, e2) \<Rightarrow> (Err err, e2)
                  | (Ok _, e2) \<Rightarrow> (Ok aid, e2))
            else (Ok aid, e1)))"

definition approve :: "string \<Rightarrow> string \<Rightarrow> SecurityPolicyEngine
    \<Rightarrow> (PolicyError + unit) \<times> SecurityPolicyEngine" where
  "approve aid approver e =
     (case hm_get (pending_approvals e) aid of
        None \<Rightarrow> (Err (ApprovalNotFound aid), e)
      | Some a \<Rightarrow>
          (Ok (), push_approved (a\<lparr>ca_status := ApApproved, ca_approver := Some approver\<rparr>)
             (e\<lparr>pending_approvals := AList.delete aid (pending_approvals e)\<rparr>)))"

definition deny :: "string \<Rightarrow> string \<Rightarrow> SecurityPolicyEngine
    \<Rightarrow> (PolicyError + unit) \<times> SecurityPolicyEngine" where
  "deny aid reason e =
     (case hm_get (pending_approvals e) aid of
        None \<Rightarrow> (Err (ApprovalNotFound aid), e)
      | Some a \<Rightarrow>
          (Ok (), e\<lparr>pending_approvals := hm_insert aid
             (a\<lparr>ca_status := ApDenied, ca_denial_reason := Some reason\<rparr>) (pending_approvals e)\<rparr>))"

definition get_pending_approvals :: "SecurityPolicyEngine \<Rightarrow> CapabilityApproval list" where
  "get_pending_approvals e = map snd (pending_approvals e)"

definition get_pending_for_plugin :: "string \<Rightarrow> SecurityPolicyEngine \<Rightarrow> CapabilityApproval list" where
  "get_pending_for_plugin plugin_id e =
     filter (\<lambda>a. ca_plugin_id a = plugin_id) (map snd (pending_approvals e))"

definition get_approved_for_plugin :: "string \<Rightarrow> SecurityPolicyEngine \<Rightarrow> CapabilityApproval list" where
  "get_approved_for_plugin plugin_id e =
     (case hm_get (approved_capabilities e) plugin_id of None \<Rightarrow> [] | Some l \<Rightarrow> l)"

definition is_capability_approved :: "string \<Rightarrow> CapabilityType \<Rightarrow> SecurityPolicyEngine \<Rightarrow> bool" where
  "is_capability_approved plugin_id t e =
     (case hm_get (approved_capabilities e) plugin_id of
        None \<Rightarrow> False
      | Some caps \<Rightarrow> list_ex (\<lambda>c. ca_capability_type c = t \<and> ca_status c = ApApproved) caps)"

text \<open>\<open>iter_mut().find(..)\<close> and the assignment through the reference: the first record with the
  identifier expires.\<close>

fun expire_first :: "string \<Rightarrow> CapabilityApproval list \<Rightarrow> CapabilityApproval list option" where
  "expire_first aid [] = None"
| "expire_first aid (c # cs) =
     (if ca_id c = aid then Some (c\<lparr>ca_status := ApExpired\<rparr> # cs)
      else map_option ((#) c) (expire_first aid cs))"

definition policy_revoke :: "string \<Rightarrow> string \<Rightarrow> SecurityPolicyEngine
    \<Rightarrow> (PolicyError + unit) \<times> SecurityPolicyEngine" where
  "policy_revoke plugin_id aid e =
     (case hm_get (approved_capabilities e) plugin_id of
        None \<Rightarrow> (Err (ApprovalNotFound aid), e)
      | Some caps \<Rightarrow>
          (case expire_first aid caps of
             None \<Rightarrow> (Err (ApprovalNotFound aid), e)
           | Some caps' \<Rightarrow>
               (Ok (), e\<lparr>approved_capabilities := hm_insert plugin_id caps' (approved_capabilities e)\<rparr>)))"

definition expire_cap :: "nat \<Rightarrow> CapabilityApproval \<Rightarrow> CapabilityApproval" where
  "expire_cap now c =
     (case ca_expires_at c of
        Some ex \<Rightarrow> if ex \<le> now then c\<lparr>ca_status := ApExpired\<rparr> else c
      | None \<Rightarrow> c)"

definition cleanup_expired :: "nat \<Rightarrow> SecurityPolicyEngine \<Rightarrow> SecurityPolicyEngine" where
  "cleanup_expired now e =
     e\<lparr>pending_approvals := filter (\<lambda>(_, a). case ca_expires_at a of Some ex \<Rightarrow> now < ex | None \<Rightarrow> True)
          (pending_approvals e),
       approved_capabilities := map (\<lambda>(p, caps). (p, map (expire_cap now) caps)) (approved_capabilities e)\<rparr>"

section \<open>Runs\<close>

datatype policy_op =
    RequestApproval nat nat u64 string CapabilityInfo string
  | Approve string string
  | Deny string string
  | Revoke string string
  | CleanupExpired nat

fun apply_policy_op :: "policy_op \<Rightarrow> SecurityPolicyEngine \<Rightarrow> SecurityPolicyEngine" where
  "apply_policy_op (RequestApproval n1 n2 ts p c d) e = snd (request_approval n1 n2 ts p c d e)"
| "apply_policy_op (Approve i who) e = snd (approve i who e)"
| "apply_policy_op (Deny i r) e = snd (deny i r e)"
| "apply_policy_op (Revoke p i) e = snd (policy_revoke p i e)"
| "apply_policy_op (CleanupExpired now) e = cleanup_expired now e"

definition run_policy :: "SecurityPolicy \<Rightarrow> policy_op list \<Rightarrow> SecurityPolicyEngine" where
  "run_policy p ops = foldl (\<lambda>e oper. apply_policy_op oper e) (SecurityPolicyEngine_with_policy p) ops"

lemma run_policy_snoc: "run_policy p (ops @ [oper]) = apply_policy_op oper (run_policy p ops)"
  by (simp add: run_policy_def)

section \<open>The invariant\<close>

text \<open>Requests are never auto-approved: no capability type is assessed below medium risk.\<close>

lemma assess_risk_not_low: "assess_risk t \<noteq> Minimal" "assess_risk t \<noteq> Low"
  by (cases t; simp)+

definition pending_of :: "string \<Rightarrow> SecurityPolicyEngine \<Rightarrow> nat" where
  "pending_of p e = length (filter (\<lambda>(_, a). ca_plugin_id a = p) (pending_approvals e))"

definition pending_ok :: "string \<times> CapabilityApproval \<Rightarrow> bool" where
  "pending_ok = (\<lambda>(k, a). ca_id a = k \<and> ca_status a \<in> {ApPending, ApDenied} \<and> ca_risk_level a \<in> {Medium, High})"

definition approved_ok :: "string \<times> CapabilityApproval list \<Rightarrow> bool" where
  "approved_ok = (\<lambda>(p, caps). \<forall>a\<in>set caps. ca_plugin_id a = p
     \<and> ca_status a \<in> {ApApproved, ApExpired} \<and> ca_approver a \<noteq> None)"

definition policy_inv :: "SecurityPolicyEngine \<Rightarrow> bool" where
  "policy_inv e \<longleftrightarrow>
     (\<forall>x\<in>set (pending_approvals e). pending_ok x)
   \<and> (\<forall>x\<in>set (approved_capabilities e). approved_ok x)
   \<and> (\<forall>p. pending_of p e \<le> max_pending_per_plugin (policy e))"

lemma in_set_update: "x \<in> set (hm_insert k v m) \<Longrightarrow> x = (k, v) \<or> x \<in> set m"
  by (induction m) (auto split: if_splits)

lemma in_set_delete: "x \<in> set (AList.delete k m) \<Longrightarrow> x \<in> set m"
  by (auto simp: AList.delete_eq)

lemma filter_update_length:
  "length (filter P (hm_insert k v m)) \<le> length (filter P m) + (if P (k, v) then 1 else 0)"
  by (induction m) auto

lemma filter_update_same:
  assumes "hm_get m k = Some v" and "P (k, v') = P (k, v)"
  shows "length (filter P (hm_insert k v' m)) = length (filter P m)"
  using assms by (induction m) (auto split: if_splits)

lemma push_approved_fields [simp]:
  "pending_approvals (push_approved a e) = pending_approvals e" "policy (push_approved a e) = policy e"
  by (simp_all add: push_approved_def)

lemma approved_lookup:
  "\<forall>x\<in>set m. approved_ok x \<Longrightarrow> hm_get m p = Some caps \<Longrightarrow> approved_ok (p, caps)"
  by (auto dest: map_of_SomeD)

lemma push_approved_ok:
  assumes "\<forall>x\<in>set (approved_capabilities e). approved_ok x"
    and "ca_status a \<in> {ApApproved, ApExpired}" "ca_approver a \<noteq> None"
  shows "\<forall>x\<in>set (approved_capabilities (push_approved a e)). approved_ok x"
proof
  fix x assume "x \<in> set (approved_capabilities (push_approved a e))"
  then have "x = (ca_plugin_id a, (case hm_get (approved_capabilities e) (ca_plugin_id a) of
        None \<Rightarrow> [] | Some l \<Rightarrow> l) @ [a]) \<or> x \<in> set (approved_capabilities e)"
    by (auto simp: push_approved_def dest!: in_set_update)
  with assms approved_lookup [OF assms(1), of "ca_plugin_id a"] show "approved_ok x"
    by (auto simp: approved_ok_def split: option.splits)
qed

lemma request_approval_eq:
  "snd (request_approval n1 n2 ts p c d e) =
     (if max_pending_per_plugin (policy e) \<le> pending_of p e then e
      else
        (let aid = approval_id p ts (uuid_counter e)
         in e\<lparr>uuid_counter := uuid_counter e + 1,
              pending_approvals := hm_insert aid
                \<lparr>ca_id = aid, ca_plugin_id = p, ca_capability_type = ci_type c, ca_description = d,
                 ca_status = ApPending, ca_created_at = n1,
                 ca_expires_at = map_option (\<lambda>d. n2 + d) (default_expiration (policy e)),
                 ca_approver = None, ca_denial_reason = None,
                 ca_risk_level = assess_risk (ci_type c)\<rparr> (pending_approvals e)\<rparr>))"
  by (simp add: request_approval_def pending_of_def Let_def assess_risk_not_low)

lemma pending_lookup:
  "\<forall>x\<in>set m. pending_ok x \<Longrightarrow> hm_get m p = Some a \<Longrightarrow> pending_ok (p, a)"
  by (auto dest: map_of_SomeD)

lemma assess_risk_range: "assess_risk t \<in> {Medium, High}"
  by (cases t) simp_all

lemma length_filter_filter: "length (filter P (filter Q xs)) \<le> length (filter P xs)"
  by (induction xs) auto

lemma request_inv:
  assumes "policy_inv e"
  shows "policy_inv (snd (request_approval n1 n2 ts p c d e))"
proof (cases "max_pending_per_plugin (policy e) \<le> pending_of p e")
  case True
  with assms show ?thesis by (simp add: request_approval_eq)
next
  case False
  let ?e = "snd (request_approval n1 n2 ts p c d e)"
  let ?aid = "approval_id p ts (uuid_counter e)"
  let ?a = "\<lparr>ca_id = ?aid, ca_plugin_id = p, ca_capability_type = ci_type c, ca_description = d,
     ca_status = ApPending, ca_created_at = n1,
     ca_expires_at = map_option (\<lambda>d. n2 + d) (default_expiration (policy e)),
     ca_approver = None, ca_denial_reason = None, ca_risk_level = assess_risk (ci_type c)\<rparr>"
  have upd: "pending_approvals ?e = hm_insert ?aid ?a (pending_approvals e)"
      "approved_capabilities ?e = approved_capabilities e" "policy ?e = policy e"
    using False by (simp_all add: request_approval_eq Let_def)
  have a: "pending_ok (?aid, ?a)" "ca_plugin_id ?a = p"
    using assess_risk_range [of "ci_type c"] by (simp_all add: pending_ok_def)
  have "pending_of q ?e \<le> max_pending_per_plugin (policy e)" for q
  proof -
    have "pending_of q ?e \<le> pending_of q e + (if q = p then 1 else 0)"
      using filter_update_length [of "\<lambda>(_, a). ca_plugin_id a = q" ?aid ?a "pending_approvals e"] a(2)
      by (auto simp: pending_of_def upd(1))
    moreover have "pending_of q e \<le> max_pending_per_plugin (policy e)"
      using assms by (simp add: policy_inv_def)
    ultimately show ?thesis using False by (auto split: if_splits)
  qed
  moreover have "\<forall>x\<in>set (pending_approvals ?e). pending_ok x"
    using assms a(1) by (auto simp: policy_inv_def upd(1) dest!: in_set_update)
  ultimately show ?thesis using assms by (simp add: policy_inv_def upd(2,3))
qed

lemma approve_inv:
  assumes "policy_inv e"
  shows "policy_inv (snd (approve i who e))"
proof (cases "hm_get (pending_approvals e) i")
  case None
  with assms show ?thesis by (simp add: approve_def)
next
  case (Some a)
  let ?m = "AList.delete i (pending_approvals e)"
  have "length (filter P ?m) \<le> length (filter P (pending_approvals e))" for P
    unfolding AList.delete_eq by (rule length_filter_filter)
  then have "length (filter (\<lambda>(_, a). ca_plugin_id a = p) ?m) \<le> max_pending_per_plugin (policy e)" for p
    using assms unfolding policy_inv_def pending_of_def by (meson le_trans)
  moreover have "\<forall>x\<in>set ?m. pending_ok x"
    using assms by (auto simp: policy_inv_def dest: in_set_delete)
  moreover have "\<forall>x\<in>set (approved_capabilities (push_approved
      (a\<lparr>ca_status := ApApproved, ca_approver := Some who\<rparr>) (e\<lparr>pending_approvals := ?m\<rparr>))). approved_ok x"
    by (rule push_approved_ok) (use assms in \<open>auto simp: policy_inv_def\<close>)
  ultimately show ?thesis
    using Some by (simp add: approve_def policy_inv_def pending_of_def)
qed

lemma deny_inv:
  assumes "policy_inv e"
  shows "policy_inv (snd (deny i r e))"
proof (cases "hm_get (pending_approvals e) i")
  case None
  with assms show ?thesis by (simp add: deny_def)
next
  case (Some a)
  let ?a = "a\<lparr>ca_status := ApDenied, ca_denial_reason := Some r\<rparr>"
  have "pending_ok (i, a)"
    using assms Some by (auto simp: policy_inv_def intro: pending_lookup)
  then have "pending_ok (i, ?a)" by (simp add: pending_ok_def)
  then have "\<forall>x\<in>set (hm_insert i ?a (pending_approvals e)). pending_ok x"
    using assms by (auto simp: policy_inv_def dest!: in_set_update)
  moreover have "length (filter (\<lambda>(_, a). ca_plugin_id a = p) (hm_insert i ?a (pending_approvals e)))
      = length (filter (\<lambda>(_, a). ca_plugin_id a = p) (pending_approvals e))" for p
    by (rule filter_update_same [OF Some]) simp
  ultimately show ?thesis
    using assms Some by (simp add: deny_def policy_inv_def pending_of_def)
qed

lemma expire_first_set:
  "expire_first i cs = Some cs' \<Longrightarrow> c' \<in> set cs' \<Longrightarrow>
     c' \<in> set cs \<or> (\<exists>c\<in>set cs. c' = c\<lparr>ca_status := ApExpired\<rparr>)"
  by (induction cs arbitrary: cs') (auto split: if_splits)

lemma revoke_inv:
  assumes "policy_inv e"
  shows "policy_inv (snd (policy_revoke p i e))"
proof (cases "hm_get (approved_capabilities e) p")
  case None
  with assms show ?thesis by (simp add: policy_revoke_def)
next
  case caps: (Some caps)
  show ?thesis
  proof (cases "expire_first i caps")
    case None
    with caps assms show ?thesis by (simp add: policy_revoke_def)
  next
    case (Some caps')
    have ok: "approved_ok (p, caps)"
      using assms caps by (auto simp: policy_inv_def intro: approved_lookup)
    have "approved_ok (p, caps')"
      unfolding approved_ok_def split_conv
    proof
      fix c' assume "c' \<in> set caps'"
      from expire_first_set [OF Some this] obtain c where "c \<in> set caps"
        "c' = c \<or> c' = c\<lparr>ca_status := ApExpired\<rparr>" by blast
      with ok show "ca_plugin_id c' = p \<and> ca_status c' \<in> {ApApproved, ApExpired} \<and> ca_approver c' \<noteq> None"
        by (auto simp: approved_ok_def)
    qed
    then have "\<forall>x\<in>set (hm_insert p caps' (approved_capabilities e)). approved_ok x"
      using assms by (auto simp: policy_inv_def dest!: in_set_update)
    with Some caps assms show ?thesis by (simp add: policy_revoke_def policy_inv_def pending_of_def)
  qed
qed

lemma cleanup_inv:
  assumes "policy_inv e"
  shows "policy_inv (cleanup_expired now e)"
proof -
  have "pending_of p (cleanup_expired now e) \<le> pending_of p e" for p
    using length_filter_filter [of "\<lambda>(_, a). ca_plugin_id a = p"
        "\<lambda>(_, a). case ca_expires_at a of Some ex \<Rightarrow> now < ex | None \<Rightarrow> True" "pending_approvals e"]
    by (simp add: pending_of_def cleanup_expired_def del: filter_filter)
  then have "pending_of p (cleanup_expired now e) \<le> max_pending_per_plugin (policy e)" for p
    using assms unfolding policy_inv_def by (meson le_trans)
  moreover have "approved_ok (p, map (expire_cap now) caps)" if "approved_ok (p, caps)" for p caps
    using that by (auto simp: approved_ok_def expire_cap_def split: option.splits)
  ultimately show ?thesis
    using assms by (auto simp: policy_inv_def cleanup_expired_def)
qed

lemma policy_op_inv: "policy_inv e \<Longrightarrow> policy_inv (apply_policy_op oper e)"
  by (cases oper) (simp_all add: request_inv approve_inv deny_inv revoke_inv cleanup_inv)

lemma run_policy_inv: "policy_inv (run_policy p ops)"
proof (induction ops rule: rev_induct)
  case Nil
  show ?case by (simp add: run_policy_def SecurityPolicyEngine_with_policy_def policy_inv_def pending_of_def)
next
  case (snoc oper ops)
  then show ?case by (simp add: run_policy_snoc policy_op_inv)
qed

lemma policy_op_policy: "policy (apply_policy_op oper e) = policy e"
  by (cases oper) (auto simp: request_approval_eq Let_def approve_def deny_def policy_revoke_def cleanup_expired_def
      split: option.splits)

lemma run_policy_policy: "policy (run_policy p ops) = p"
  by (induction ops rule: rev_induct)
    (simp_all add: run_policy_snoc policy_op_policy, simp add: run_policy_def SecurityPolicyEngine_with_policy_def)


section \<open>Approval\<close>

lemma not_approved_step:
  assumes "\<forall>i who. oper \<noteq> Approve i who"
    and "is_capability_approved q t (apply_policy_op oper e)"
  shows "is_capability_approved q t e"
proof (cases oper)
  case (Revoke p i)
  have "list_ex (\<lambda>c. ca_capability_type c = t \<and> ca_status c = ApApproved) cs"
    if "expire_first i cs = Some cs'" "list_ex (\<lambda>c. ca_capability_type c = t \<and> ca_status c = ApApproved) cs'"
    for cs cs'
    using that expire_first_set [OF that(1)] by (fastforce simp: list_ex_iff)
  with assms(2) Revoke show ?thesis
    by (auto simp: is_capability_approved_def policy_revoke_def update_conv' split: option.splits if_splits)
next
  case (CleanupExpired now)
  have "hm_get (map (\<lambda>(p, caps). (p, map (expire_cap now) caps)) m) q
      = map_option (map (expire_cap now)) (hm_get m q)" for m
    by (induction m) auto
  with assms(2) CleanupExpired show ?thesis
    by (auto simp: is_capability_approved_def cleanup_expired_def list_ex_iff expire_cap_def
        split: option.splits if_splits)
qed (use assms in \<open>auto simp: is_capability_approved_def request_approval_eq Let_def deny_def
    split: option.splits if_splits\<close>)

text \<open>Nothing is approved without an administrator: in a run without calls of \<open>approve\<close>, no
  capability of any plugin counts as approved.\<close>

theorem no_approval_without_approve:
  assumes "list_all (\<lambda>oper. \<forall>i who. oper \<noteq> Approve i who) ops"
  shows "\<not> is_capability_approved q t (run_policy p ops)"
  using assms
proof (induction ops rule: rev_induct)
  case Nil
  show ?case
    by (simp add: run_policy_def SecurityPolicyEngine_with_policy_def is_capability_approved_def)
next
  case (snoc oper ops)
  then show ?case using not_approved_step [of oper q t "run_policy p ops"]
    by (auto simp: run_policy_snoc)
qed

lemma approved_after_push:
  "ca_status a = ApApproved \<Longrightarrow> is_capability_approved (ca_plugin_id a) (ca_capability_type a) (push_approved a e)"
  by (simp add: is_capability_approved_def push_approved_def update_conv' split: option.splits)

text \<open>Approving an open request grants its capability, and takes it off the list; this also
  holds for a request that was denied before, whose denial \<open>approve\<close> does not look at. An
  identifier without an open request changes nothing.\<close>

theorem approve_open_request:
  "case hm_get (pending_approvals e) i of
     Some a \<Rightarrow> fst (approve i who e) = Ok ()
       \<and> is_capability_approved (ca_plugin_id a) (ca_capability_type a) (snd (approve i who e))
       \<and> hm_get (pending_approvals (snd (approve i who e))) i = None
       \<and> fst (deny i reason e) = Ok ()
       \<and> is_capability_approved (ca_plugin_id a) (ca_capability_type a)
           (snd (approve i who (snd (deny i reason e))))
   | None \<Rightarrow> approve i who e = (Err (ApprovalNotFound i), e)
       \<and> deny i reason e = (Err (ApprovalNotFound i), e)"
proof (cases "hm_get (pending_approvals e) i")
  case (Some a)
  let ?d = "a\<lparr>ca_status := ApDenied, ca_denial_reason := Some reason\<rparr>"
  have denied: "hm_get (pending_approvals (snd (deny i reason e))) i = Some ?d"
    using Some by (simp add: deny_def update_conv')
  show ?thesis
    using Some approved_after_push [of "a\<lparr>ca_status := ApApproved, ca_approver := Some who\<rparr>"]
      approved_after_push [of "?d\<lparr>ca_status := ApApproved, ca_approver := Some who\<rparr>"]
    by (simp add: approve_def denied delete_conv') (simp add: deny_def)
qed (simp add: approve_def deny_def)

text \<open>Expiry takes effect in the cleanup and only there: after \<open>cleanup_expired\<close> no approval whose
  time has passed counts, while every approval without an expiry in the past still counts as before.\<close>

theorem cleanup_expires:
  "is_capability_approved q t (cleanup_expired now e) \<longleftrightarrow>
     list_ex (\<lambda>a. ca_capability_type a = t \<and> ca_status a = ApApproved
         \<and> (case ca_expires_at a of Some ex \<Rightarrow> now < ex | None \<Rightarrow> True))
       (get_approved_for_plugin q e)"
proof -
  have look: "hm_get (map (\<lambda>(p, caps). (p, map (expire_cap now) caps)) m) q
      = map_option (map (expire_cap now)) (hm_get m q)" for m
    by (induction m) auto
  have cap: "ca_capability_type (expire_cap now a) = t \<and> ca_status (expire_cap now a) = ApApproved
      \<longleftrightarrow> ca_capability_type a = t \<and> ca_status a = ApApproved
         \<and> (case ca_expires_at a of Some ex \<Rightarrow> now < ex | None \<Rightarrow> True)" for a
    by (auto simp: expire_cap_def split: option.splits)
  show ?thesis
    by (cases "hm_get (approved_capabilities e) q")
      (simp_all add: is_capability_approved_def get_approved_for_plugin_def cleanup_expired_def look
        list_ex_iff cap)
qed

text \<open>Revoking withdraws a capability for good: the first record with the identifier no longer
  counts, the records of other plugins are untouched, and an unknown identifier is an error that
  changes nothing.\<close>

theorem policy_revoke_withdraws:
  "(case policy_revoke p i e of
      (Ok _, e') \<Rightarrow> (\<exists>xs a ys. get_approved_for_plugin p e = xs @ a # ys \<and> ca_id a = i
          \<and> list_all (\<lambda>x. ca_id x \<noteq> i) xs
          \<and> get_approved_for_plugin p e' = xs @ a\<lparr>ca_status := ApExpired\<rparr> # ys)
    | (Err err, e') \<Rightarrow> err = ApprovalNotFound i \<and> e' = e
          \<and> list_all (\<lambda>x. ca_id x \<noteq> i) (get_approved_for_plugin p e))
   \<and> (q = p \<or> get_approved_for_plugin q (snd (policy_revoke p i e)) = get_approved_for_plugin q e)"
proof -
  have none: "expire_first i cs = None \<longleftrightarrow> list_all (\<lambda>x. ca_id x \<noteq> i) cs" for cs
    by (induction cs) auto
  have some: "\<exists>xs a ys. cs = xs @ a # ys \<and> ca_id a = i \<and> list_all (\<lambda>x. ca_id x \<noteq> i) xs
      \<and> cs' = xs @ a\<lparr>ca_status := ApExpired\<rparr> # ys" if "expire_first i cs = Some cs'" for cs cs'
    using that
  proof (induction cs arbitrary: cs')
    case (Cons c cs)
    show ?case
    proof (cases "ca_id c = i")
      case True
      with Cons.prems show ?thesis by (intro exI [of _ "[]"]) auto
    next
      case False
      with Cons.prems obtain cs1 where cs1: "expire_first i cs = Some cs1" "cs' = c # cs1" by auto
      from Cons.IH [OF cs1(1)] obtain xs a ys where "cs = xs @ a # ys" "ca_id a = i"
        "list_all (\<lambda>x. ca_id x \<noteq> i) xs" "cs1 = xs @ a\<lparr>ca_status := ApExpired\<rparr> # ys" by blast
      with False cs1(2) show ?thesis by (intro exI [of _ "c # xs"] exI [of _ a] exI [of _ ys]) simp
    qed
  qed simp
  show ?thesis
  proof (cases "hm_get (approved_capabilities e) p")
    case None
    then show ?thesis by (simp add: policy_revoke_def get_approved_for_plugin_def)
  next
    case caps: (Some caps)
    show ?thesis
    proof (cases "expire_first i caps")
      case None
      then have "list_all (\<lambda>x. ca_id x \<noteq> i) caps" using none by blast
      with None caps show ?thesis by (simp add: policy_revoke_def get_approved_for_plugin_def)
    next
      case (Some caps')
      with caps some [OF Some] show ?thesis
        by (simp add: policy_revoke_def get_approved_for_plugin_def update_conv')
    qed
  qed
qed

end
