(* ===== verification/Local_Registry.thy ===== *)
theory Local_Registry
  imports Rust_Str
begin

text \<open>
  The local plugin registry and the dependency resolver of the packager,
  \<open>plugin-packager/src/registry.rs\<close>: the registry keyed by name and version, version requirements,
  and the depth-first computation of an installation order. Saving the registry to a file is left
  out. Searching lower-cases ASCII letters.
\<close>

section \<open>The registry\<close>

record PluginDependency =
  pd_name :: string
  pd_version_requirement :: string

record PluginRegistryEntry =
  re_plugin_id :: string
  re_name :: string
  re_version :: string
  re_abi_version :: string
  re_description :: "string option"
  re_author :: "string option"
  re_license :: "string option"
  re_keywords :: "string list option"
  re_dependencies :: "PluginDependency list option"

type_synonym LocalRegistry = "(string, PluginRegistryEntry) hashmap"

definition version_part :: "string list \<Rightarrow> nat \<Rightarrow> u32" where
  "version_part parts i =
     (if i < length parts then (case parse_u32 (parts ! i) of None \<Rightarrow> 0 | Some n \<Rightarrow> n) else 0)"

definition parse_version :: "string \<Rightarrow> u32 \<times> u32 \<times> u32" where
  "parse_version version =
     (let parts = split_on CHR ''.'' version
      in (version_part parts 0, version_part parts 1, version_part parts 2))"

definition triple_cmp :: "u32 \<times> u32 \<times> u32 \<Rightarrow> u32 \<times> u32 \<times> u32 \<Rightarrow> ordering" where
  "triple_cmp a b = ord_then (cmp_of (fst a) (fst b))
     (ord_then (cmp_of (fst (snd a)) (fst (snd b))) (cmp_of (snd (snd a)) (snd (snd b))))"

definition LocalRegistry_new :: LocalRegistry where
  "LocalRegistry_new = []"

definition registry_key :: "string \<Rightarrow> string \<Rightarrow> string" where
  "registry_key name version = name @ '':'' @ version"

definition registry_register :: "PluginRegistryEntry \<Rightarrow> LocalRegistry \<Rightarrow> LocalRegistry" where
  "registry_register entry reg = hm_insert (registry_key (re_name entry) (re_version entry)) entry reg"

definition list_all_entries :: "LocalRegistry \<Rightarrow> PluginRegistryEntry list" where
  "list_all_entries reg = map snd reg"

definition find_by_name :: "LocalRegistry \<Rightarrow> string \<Rightarrow> PluginRegistryEntry option" where
  "find_by_name reg name = List.find (\<lambda>p. re_name p = name) (map snd reg)"

definition find_by_version :: "LocalRegistry \<Rightarrow> string \<Rightarrow> string \<Rightarrow> PluginRegistryEntry option" where
  "find_by_version reg name version = hm_get reg (registry_key name version)"

definition registry_search :: "LocalRegistry \<Rightarrow> string \<Rightarrow> PluginRegistryEntry list" where
  "registry_search reg query =
     (let q = to_lowercase query
      in filter (\<lambda>p. str_contains (to_lowercase (re_name p)) q
            \<or> (case re_description p of None \<Rightarrow> False | Some d \<Rightarrow> str_contains (to_lowercase d) q)
            \<or> (case re_keywords p of None \<Rightarrow> False
                | Some k \<Rightarrow> list_ex (\<lambda>kw. str_contains (to_lowercase kw) q) k))
          (map snd reg))"

definition entry_cmp :: "PluginRegistryEntry \<Rightarrow> PluginRegistryEntry \<Rightarrow> ordering" where
  "entry_cmp a b = triple_cmp (parse_version (re_version a)) (parse_version (re_version b))"

text \<open>\<open>Iterator::max_by\<close> on a list that may be empty.\<close>

definition max_by_opt :: "('a \<Rightarrow> 'a \<Rightarrow> ordering) \<Rightarrow> 'a list \<Rightarrow> 'a option" where
  "max_by_opt cmp xs = (case xs of [] \<Rightarrow> None | y # ys \<Rightarrow> Some (max_by cmp y ys))"

definition get_latest :: "LocalRegistry \<Rightarrow> string \<Rightarrow> PluginRegistryEntry option" where
  "get_latest reg name = max_by_opt entry_cmp (filter (\<lambda>p. re_name p = name) (map snd reg))"

definition registry_remove :: "string \<Rightarrow> string \<Rightarrow> LocalRegistry \<Rightarrow> LocalRegistry" where
  "registry_remove name version reg = AList.delete (registry_key name version) reg"

definition registry_exists :: "LocalRegistry \<Rightarrow> string \<Rightarrow> string \<Rightarrow> bool" where
  "registry_exists reg name version \<longleftrightarrow> hm_get reg (registry_key name version) \<noteq> None"

definition registry_count :: "LocalRegistry \<Rightarrow> nat" where
  "registry_count reg = length reg"

section \<open>Version requirements\<close>

text \<open>The loop over the parts of a requirement that ends in a wildcard.\<close>

fun wildcard_match :: "string list \<Rightarrow> string list \<Rightarrow> bool" where
  "wildcard_match [] actual_parts = True"
| "wildcard_match (r # rs) actual_parts =
     (if r = ''x'' \<or> r = ''X'' then True
      else (case actual_parts of [] \<Rightarrow> False | a # as \<Rightarrow> if a \<noteq> r then False else wildcard_match rs as))"

definition requirement_op :: "string \<Rightarrow> string \<times> string" where
  "requirement_op req =
     (case strip_prefix ''>='' req of Some s \<Rightarrow> (''>='', trim s) | None \<Rightarrow>
     (case strip_prefix ''<='' req of Some s \<Rightarrow> (''<='', trim s) | None \<Rightarrow>
     (case strip_prefix ''!='' req of Some s \<Rightarrow> (''!='', trim s) | None \<Rightarrow>
     (case strip_prefix ''>'' req of Some s \<Rightarrow> (''>'', trim s) | None \<Rightarrow>
     (case strip_prefix ''<'' req of Some s \<Rightarrow> (''<'', trim s) | None \<Rightarrow>
     (case strip_prefix ''~'' req of Some s \<Rightarrow> (''~'', trim s) | None \<Rightarrow>
     (case strip_prefix ''^'' req of Some s \<Rightarrow> (''^'', trim s) | None \<Rightarrow> (''='', req))))))))"

definition op_matches :: "string \<Rightarrow> u32 \<times> u32 \<times> u32 \<Rightarrow> u32 \<times> u32 \<times> u32 \<Rightarrow> bool" where
  "op_matches op req_ver act_ver =
     (if op = ''='' then req_ver = act_ver
      else if op = ''>'' then triple_cmp act_ver req_ver = OGreater
      else if op = ''>='' then triple_cmp act_ver req_ver \<noteq> OLess
      else if op = ''<'' then triple_cmp act_ver req_ver = OLess
      else if op = ''<='' then triple_cmp act_ver req_ver \<noteq> OGreater
      else if op = ''!='' then req_ver \<noteq> act_ver
      else if op = ''~'' then
        fst act_ver = fst req_ver \<and> fst (snd act_ver) = fst (snd req_ver)
        \<and> snd (snd req_ver) \<le> snd (snd act_ver)
      else if op = ''^'' then
        fst act_ver = fst req_ver \<and> triple_cmp act_ver req_ver \<noteq> OLess
      else False)"

definition requirement_matches :: "string \<Rightarrow> string \<Rightarrow> bool" where
  "requirement_matches requirement version =
     (let req = trim requirement
      in if ends_with req ''x'' \<or> ends_with req ''X''
         then wildcard_match (split_on CHR ''.'' req) (split_on CHR ''.'' version)
         else if \<not> (case req of [] \<Rightarrow> False | c # _ \<Rightarrow> c \<in> set ''><=!~^'')
         then version = req
         else (let (op, ver) = requirement_op req
               in op_matches op (parse_version ver) (parse_version version)))"

section \<open>Installation order\<close>

record UnmetDependency =
  ud_plugin_name :: string
  ud_required_by :: string
  ud_version_requirement :: string

record resolve_state =
  rs_install_order :: "string list"
  rs_version_map :: "(string, string) hashmap"
  rs_unmet :: "UnmetDependency list"
  rs_visited :: "string set"

record DependencyResolution =
  install_order :: "string list"
  version_map :: "(string, string) hashmap"
  unmet_dependencies :: "UnmetDependency list"

definition find_matching_version :: "LocalRegistry \<Rightarrow> string \<Rightarrow> string \<Rightarrow> string option" where
  "find_matching_version reg plugin_name requirement =
     map_option re_version
       (max_by_opt entry_cmp
         (filter (\<lambda>p. re_name p = plugin_name \<and> requirement_matches requirement (re_version p))
           (list_all_entries reg)))"

definition entry_deps :: "PluginRegistryEntry \<Rightarrow> PluginDependency list" where
  "entry_deps e = (case re_dependencies e of None \<Rightarrow> [] | Some ds \<Rightarrow> ds)"

definition rs_visit :: "string \<Rightarrow> resolve_state \<Rightarrow> resolve_state" where
  "rs_visit key st = st\<lparr>rs_visited := insert key (rs_visited st)\<rparr>"

definition rs_push :: "string \<Rightarrow> string \<Rightarrow> resolve_state \<Rightarrow> resolve_state" where
  "rs_push name version st =
     (if name \<notin> set (rs_install_order st)
      then st\<lparr>rs_install_order := rs_install_order st @ [name],
              rs_version_map := hm_insert name version (rs_version_map st)\<rparr>
      else st)"

definition rs_miss :: "string \<Rightarrow> PluginDependency \<Rightarrow> resolve_state \<Rightarrow> resolve_state" where
  "rs_miss plugin_name dep st =
     st\<lparr>rs_unmet := rs_unmet st @ [\<lparr>ud_plugin_name = pd_name dep, ud_required_by = plugin_name,
          ud_version_requirement = pd_version_requirement dep\<rparr>]\<rparr>"

text \<open>The loop over the dependencies of a plugin, with the body of the recursive call inlined.\<close>

function resolve_deps :: "LocalRegistry \<Rightarrow> string \<Rightarrow> PluginDependency list \<Rightarrow> resolve_state
    \<Rightarrow> resolve_state" where
  "resolve_deps reg plugin_name [] st = st"
| "resolve_deps reg plugin_name (dep # deps) st =
     resolve_deps reg plugin_name deps
       (case find_matching_version reg (pd_name dep) (pd_version_requirement dep) of
          None \<Rightarrow> rs_miss plugin_name dep st
        | Some matching \<Rightarrow>
            if registry_key (pd_name dep) matching \<in> rs_visited st then st
            else
              (case find_by_version reg (pd_name dep) matching of
                 None \<Rightarrow> rs_visit (registry_key (pd_name dep) matching) st
               | Some entry \<Rightarrow>
                   rs_push (pd_name dep) matching
                     (resolve_deps reg (pd_name dep) (entry_deps entry)
                        (rs_visit (registry_key (pd_name dep) matching) st))))"
  by pat_completeness auto

lemma rs_visited_simps [simp]:
  "rs_visited (rs_visit k st) = insert k (rs_visited st)"
  "rs_visited (rs_push n v st) = rs_visited st"
  "rs_visited (rs_miss n d st) = rs_visited st"
  by (simp_all add: rs_visit_def rs_push_def rs_miss_def)

lemma resolve_deps_visited_dom:
  "resolve_deps_dom (reg, n, ds, st) \<Longrightarrow> rs_visited st \<subseteq> rs_visited (resolve_deps reg n ds st)"
proof (induction reg n ds st rule: resolve_deps.pinduct)
  case (2 reg n dep deps st)
  let ?st = "case find_matching_version reg (pd_name dep) (pd_version_requirement dep) of
          None \<Rightarrow> rs_miss n dep st
        | Some matching \<Rightarrow>
            if registry_key (pd_name dep) matching \<in> rs_visited st then st
            else
              (case find_by_version reg (pd_name dep) matching of
                 None \<Rightarrow> rs_visit (registry_key (pd_name dep) matching) st
               | Some entry \<Rightarrow>
                   rs_push (pd_name dep) matching
                     (resolve_deps reg (pd_name dep) (entry_deps entry)
                        (rs_visit (registry_key (pd_name dep) matching) st)))"
  have "rs_visited st \<subseteq> rs_visited ?st" using "2.IH"(1) by (auto split: option.splits)
  also have "\<dots> \<subseteq> rs_visited (resolve_deps reg n deps ?st)" by (rule "2.IH"(2))
  finally show ?case by (simp only: resolve_deps.psimps(2) [OF "2.hyps"])
qed (simp add: resolve_deps.psimps)

termination resolve_deps
proof (relation "inv_image (finite_psubset <*lex*> less_than)
    (\<lambda>(reg, n, ds, st). (set (hm_keys reg) - rs_visited st, length ds))", goal_cases)
  case 1
  then show ?case by auto
next
  case (2 reg n dep deps st matching entry)
  then have "registry_key (pd_name dep) matching \<in> set (hm_keys reg)"
    by (force simp: find_by_version_def dest: map_of_SomeD)
  with 2 show ?case by (auto simp: finite_psubset_def)
next
  case (3 reg n dep deps st)
  have mono: "rs_visited st \<subseteq> rs_visited (resolve_deps reg (pd_name dep) (entry_deps entry)
      (rs_visit (registry_key (pd_name dep) matching) st))"
    if "find_matching_version reg (pd_name dep) (pd_version_requirement dep) = Some matching"
      "registry_key (pd_name dep) matching \<notin> rs_visited st"
      "find_by_version reg (pd_name dep) matching = Some entry" for matching entry
    using resolve_deps_visited_dom [OF 3 [OF that]] by auto
  show ?case by (auto simp: finite_psubset_def split: option.split dest!: mono)
qed

definition resolve_recursive :: "LocalRegistry \<Rightarrow> string \<Rightarrow> string \<Rightarrow> resolve_state \<Rightarrow> resolve_state" where
  "resolve_recursive reg plugin_name plugin_version st =
     (let key = registry_key plugin_name plugin_version
      in if key \<in> rs_visited st then st
         else (case find_by_version reg plugin_name plugin_version of
                 None \<Rightarrow> rs_visit key st
               | Some entry \<Rightarrow> rs_push plugin_name plugin_version
                   (resolve_deps reg plugin_name (entry_deps entry) (rs_visit key st))))"

definition rs_init :: resolve_state where
  "rs_init = \<lparr>rs_install_order = [], rs_version_map = [], rs_unmet = [], rs_visited = {}\<rparr>"

definition resolve_install :: "LocalRegistry \<Rightarrow> string \<Rightarrow> string \<Rightarrow> DependencyResolution" where
  "resolve_install reg plugin_name plugin_version =
     (let st = resolve_recursive reg plugin_name plugin_version rs_init
      in \<lparr>install_order = rs_install_order st, version_map = rs_version_map st,
          unmet_dependencies = rs_unmet st\<rparr>)"

section \<open>What requirement strings match\<close>

definition show_version :: "u32 \<times> u32 \<times> u32 \<Rightarrow> string" where
  "show_version v = join ''.'' [show_nat (unat (fst v)), show_nat (unat (fst (snd v))),
     show_nat (unat (snd (snd v)))]"

lemma split_show_version:
  "split_on CHR ''.'' (show_version v) =
     [show_nat (unat (fst v)), show_nat (unat (fst (snd v))), show_nat (unat (snd (snd v)))]"
  unfolding show_version_def
  by (subst split_on_join) (auto simp: show_nat_no_char is_ascii_digit_def)

lemma parse_show_version [simp]: "parse_version (show_version v) = v"
  by (simp add: parse_version_def split_show_version version_part_def)

lemma show_version_ends:
  "show_version v \<noteq> []" "is_ascii_digit (hd (show_version v))" "is_ascii_digit (last (show_version v))"
proof -
  have "is_ascii_digit (hd (show_nat n))" "is_ascii_digit (last (show_nat n))" for n
    using show_nat_digits [of n] by (auto simp: list_all_iff)
  then show "show_version v \<noteq> []" "is_ascii_digit (hd (show_version v))"
    "is_ascii_digit (last (show_version v))"
    by (auto simp: show_version_def hd_append)
qed

lemma digit_solid: "is_ascii_digit c \<Longrightarrow> solid c"
  by (simp add: is_ascii_alphanumeric_solid is_ascii_digit_alphanumeric)

lemma trim_show_version [simp]: "trim (show_version v) = show_version v"
  using show_version_ends [of v] by (simp add: trim_solid digit_solid)

lemma op_solid: "c \<in> set ''><=!~^'' \<Longrightarrow> solid c"
  by (auto simp: solid_def)

lemma trim_op_version:
  assumes "op \<noteq> []" and "hd op \<in> set ''><=!~^''"
  shows "trim (op @ show_version v) = op @ show_version v"
  using assms op_solid [OF assms(2)] show_version_ends [of v]
  by (intro trim_solid) (simp_all add: digit_solid)

lemma requirement_matches_op:
  assumes "op \<noteq> []" and "hd op \<in> set ''><=!~^''"
  shows "requirement_matches (op @ show_version r) (show_version a) =
    (let (op', ver) = requirement_op (op @ show_version r) in op_matches op' (parse_version ver) a)"
proof -
  have "\<not> ends_with (op @ show_version r) [c]" if "\<not> is_ascii_digit c" for c
    using show_version_ends [of r] that
    by (auto simp: ends_with_iff) (metis last_appendR last_snoc)
  then have "\<not> ends_with (op @ show_version r) ''x''" "\<not> ends_with (op @ show_version r) ''X''"
    by (simp_all add: is_ascii_digit_def)
  moreover obtain c p where op: "op = c # p" "c \<in> set ''><=!~^''" using assms by (cases op) simp_all
  moreover have "trim (op @ show_version r) = op @ show_version r" using assms by (rule trim_op_version)
  ultimately show ?thesis unfolding requirement_matches_def Let_def by (simp add: split_beta)
qed

text \<open>A prefix that does not start a version.\<close>

lemma strip_prefix_show_version: "\<not> is_ascii_digit c \<Longrightarrow> strip_prefix (c # p) (show_version v) = None"
  using show_version_ends [of v] by (cases "show_version v") auto

lemma requirement_op_simps:
  "requirement_op (''>='' @ show_version r) = (''>='', show_version r)"
  "requirement_op (''<='' @ show_version r) = (''<='', show_version r)"
  "requirement_op (''!='' @ show_version r) = (''!='', show_version r)"
  "requirement_op (''>'' @ show_version r) = (''>'', show_version r)"
  "requirement_op (''<'' @ show_version r) = (''<'', show_version r)"
  "requirement_op (''~'' @ show_version r) = (''~'', show_version r)"
  "requirement_op (''^'' @ show_version r) = (''^'', show_version r)"
  "requirement_op (''='' @ show_version r) = (''='', ''='' @ show_version r)"
  by (simp_all add: requirement_op_def strip_prefix_show_version is_ascii_digit_def)

lemma parse_eq_version: "parse_version (''='' @ show_version r) = (0, snd r)"
proof -
  have "parse_u32 (CHR ''='' # s) = None" for s
    by (cases s) (auto simp: parse_u32_def parse_nat_def is_ascii_digit_def)
  moreover have "split_on CHR ''.'' (''='' @ show_version r) =
      (''='' @ show_nat (unat (fst r))) # tl (split_on CHR ''.'' (show_version r))"
    by (simp add: split_show_version)
  ultimately show ?thesis by (simp add: parse_version_def version_part_def split_show_version)
qed

text \<open>Version triples as lists, which are ordered lexicographically.\<close>

definition triple_list :: "u32 \<times> u32 \<times> u32 \<Rightarrow> u32 list" where
  "triple_list v = [fst v, fst (snd v), snd (snd v)]"

lemma triple_cmp_list: "triple_cmp a b = cmp_of (triple_list a) (triple_list b)"
  by (auto simp: triple_cmp_def triple_list_def cmp_of_def)

lemma triple_list_eq [simp]: "triple_list a = triple_list b \<longleftrightarrow> a = b"
  by (cases a; cases b) (auto simp: triple_list_def)

interpretation triple_ord: rust_ord triple_cmp
  unfolding triple_cmp_list by (rule rust_ord_inv_image) (rule linorder_ord.rust_ord_axioms)

lemma show_version_inject [simp]: "show_version a = show_version b \<longleftrightarrow> a = b"
  by (metis parse_show_version)

lemma requirement_bare: "requirement_matches (show_version r) (show_version a) \<longleftrightarrow> a = r"
proof -
  obtain c s where v: "show_version r = c # s" "is_ascii_digit c"
    using show_version_ends [of r] by (cases "show_version r") auto
  have "\<not> ends_with (show_version r) [x]" if "\<not> is_ascii_digit x" for x
    using show_version_ends [of r] that by (auto simp: ends_with_iff)
  then have "\<not> ends_with (show_version r) ''x''" "\<not> ends_with (show_version r) ''X''"
    by (simp_all add: is_ascii_digit_def)
  moreover have "c \<notin> set ''><=!~^''" using v(2) by (auto simp: is_ascii_digit_def)
  ultimately have "requirement_matches (show_version r) x \<longleftrightarrow> x = show_version r" for x
    unfolding requirement_matches_def Let_def trim_show_version by (simp add: v(1))
  then show ?thesis by simp
qed

lemma requirement_op_matches:
  "requirement_matches (''>='' @ show_version r) (show_version a) = op_matches ''>='' r a"
  "requirement_matches (''<='' @ show_version r) (show_version a) = op_matches ''<='' r a"
  "requirement_matches (''>'' @ show_version r) (show_version a) = op_matches ''>'' r a"
  "requirement_matches (''<'' @ show_version r) (show_version a) = op_matches ''<'' r a"
  "requirement_matches (''!='' @ show_version r) (show_version a) = op_matches ''!='' r a"
  "requirement_matches (''~'' @ show_version r) (show_version a) = op_matches ''~'' r a"
  "requirement_matches (''^'' @ show_version r) (show_version a) = op_matches ''^'' r a"
  "requirement_matches (''='' @ show_version r) (show_version a) = op_matches ''='' (0, snd r) a"
  by (subst requirement_matches_op; simp add: requirement_op_simps [simplified] parse_eq_version [simplified])+

lemma op_matches_simps:
  "op_matches ''>='' r a \<longleftrightarrow> triple_list r \<le> triple_list a"
  "op_matches ''<='' r a \<longleftrightarrow> triple_list a \<le> triple_list r"
  "op_matches ''>'' r a \<longleftrightarrow> triple_list r < triple_list a"
  "op_matches ''<'' r a \<longleftrightarrow> triple_list a < triple_list r"
  using less_linear [of "triple_list a" "triple_list r"]
  by (auto simp: op_matches_def triple_cmp_list cmp_of_def split: if_splits)

lemma op_matches_ranges:
  "op_matches ''~'' r a \<longleftrightarrow>
     triple_list r \<le> triple_list a \<and> take 2 (triple_list a) \<le> take 2 (triple_list r)"
  "op_matches ''^'' r a \<longleftrightarrow>
     triple_list r \<le> triple_list a \<and> take 1 (triple_list a) \<le> take 1 (triple_list r)"
  by (auto simp: op_matches_def triple_cmp_list cmp_of_def triple_list_def split: if_splits)

text \<open>On versions of three numbers the requirement operators select the documented ranges of
  the lexicographic order: \<open>~\<close> fixes the major and minor number and \<open>^\<close> the major number. A bare
  version matches itself. The operator \<open>=\<close> does not work: \<open>=\<close> followed by a version matches only the
  version with the major number 0 in place of its own, because the operator is parsed as part of
  the major number.\<close>

theorem requirement_ranges:
  "(requirement_matches (''>='' @ show_version r) (show_version a) \<longleftrightarrow> triple_list r \<le> triple_list a)
   \<and> (requirement_matches (''<='' @ show_version r) (show_version a) \<longleftrightarrow> triple_list a \<le> triple_list r)
   \<and> (requirement_matches (''>'' @ show_version r) (show_version a) \<longleftrightarrow> triple_list r < triple_list a)
   \<and> (requirement_matches (''<'' @ show_version r) (show_version a) \<longleftrightarrow> triple_list a < triple_list r)
   \<and> (requirement_matches (''!='' @ show_version r) (show_version a) \<longleftrightarrow> a \<noteq> r)
   \<and> (requirement_matches (''~'' @ show_version r) (show_version a) \<longleftrightarrow>
        triple_list r \<le> triple_list a \<and> take 2 (triple_list a) \<le> take 2 (triple_list r))
   \<and> (requirement_matches (''^'' @ show_version r) (show_version a) \<longleftrightarrow>
        triple_list r \<le> triple_list a \<and> take 1 (triple_list a) \<le> take 1 (triple_list r))
   \<and> (requirement_matches (show_version r) (show_version a) \<longleftrightarrow> a = r)
   \<and> (requirement_matches (''='' @ show_version r) (show_version a) \<longleftrightarrow> a = (0, snd r))"
  unfolding requirement_op_matches op_matches_simps op_matches_ranges requirement_bare
  by (auto simp: op_matches_def)

section \<open>The installation order is right\<close>

text \<open>Every entry is filed under its own name and version.\<close>

definition registry_inv :: "LocalRegistry \<Rightarrow> bool" where
  "registry_inv reg \<longleftrightarrow> distinct (hm_keys reg)
     \<and> (\<forall>(k, e) \<in> set reg. k = registry_key (re_name e) (re_version e) \<and> CHR '':'' \<notin> set (re_name e))"

lemma registry_inv_new: "registry_inv LocalRegistry_new"
  by (simp add: registry_inv_def LocalRegistry_new_def)

lemma registry_inv_register:
  "registry_inv reg \<Longrightarrow> CHR '':'' \<notin> set (re_name e) \<Longrightarrow> registry_inv (registry_register e reg)"
  using set_update_subset [of "registry_key (re_name e) (re_version e)" e reg]
  by (fastforce simp: registry_inv_def registry_register_def distinct_update)

lemma registry_inv_remove: "registry_inv reg \<Longrightarrow> registry_inv (registry_remove n v reg)"
  by (auto simp: registry_inv_def registry_remove_def AList.delete_eq distinct_map_filter)

lemma registry_key_inject:
  assumes "CHR '':'' \<notin> set n" and "CHR '':'' \<notin> set n'"
  shows "registry_key n v = registry_key n' v' \<longleftrightarrow> n = n' \<and> v = v'"
proof
  assume "registry_key n v = registry_key n' v'"
  then have "split_once CHR '':'' (n @ CHR '':'' # v) = split_once CHR '':'' (n' @ CHR '':'' # v')"
    by (simp add: registry_key_def)
  with assms show "n = n' \<and> v = v'" by simp
qed simp

interpretation entry_ord: rust_ord entry_cmp
  unfolding entry_cmp_def triple_cmp_list
  by (rule rust_ord_inv_image, rule linorder_ord.rust_ord_axioms)

text \<open>The selected version is registered, meets the requirement and is the latest that does.\<close>

lemma find_matching_Some:
  assumes "registry_inv reg" and "find_matching_version reg d q = Some m"
  obtains p where "find_by_version reg d m = Some p" and "re_name p = d" and "re_version p = m"
    and "requirement_matches q m"
    and "\<And>p'. p' \<in> set (list_all_entries reg) \<Longrightarrow> re_name p' = d \<Longrightarrow> requirement_matches q (re_version p')
      \<Longrightarrow> entry_cmp p' p \<noteq> OGreater"
proof -
  let ?ps = "filter (\<lambda>p. re_name p = d \<and> requirement_matches q (re_version p)) (list_all_entries reg)"
  from assms(2) obtain y ys where ps: "?ps = y # ys" and m: "m = re_version (max_by entry_cmp y ys)"
    by (auto simp: find_matching_version_def max_by_opt_def split: list.splits)
  let ?p = "max_by entry_cmp y ys"
  have mem: "?p \<in> set ?ps" "\<And>p'. p' \<in> set ?ps \<Longrightarrow> entry_cmp p' ?p \<noteq> OGreater"
    unfolding ps using entry_ord.max_by_max [of y ys] by auto
  from mem(1) obtain k where k: "(k, ?p) \<in> set reg" by (auto simp: list_all_entries_def)
  with assms(1) have "hm_get reg k = Some ?p" "k = registry_key (re_name ?p) (re_version ?p)"
    by (auto simp: registry_inv_def)
  with mem m show ?thesis by (intro that [of ?p]) (auto simp: find_by_version_def)
qed

lemma find_matching_None:
  "find_matching_version reg d q = None \<longleftrightarrow>
     (\<forall>p\<in>set (list_all_entries reg). re_name p = d \<longrightarrow> \<not> requirement_matches q (re_version p))"
  by (cases "filter (\<lambda>p. re_name p = d \<and> requirement_matches q (re_version p)) (list_all_entries reg)")
    (auto simp: find_matching_version_def max_by_opt_def filter_empty_conv filter_eq_Cons_iff)

text \<open>What the loop leaves behind for the dependencies it has seen: an unmet record, or the selected
  version visited.\<close>

definition deps_done :: "LocalRegistry \<Rightarrow> string \<Rightarrow> PluginDependency list \<Rightarrow> resolve_state \<Rightarrow> bool" where
  "deps_done reg n deps st \<longleftrightarrow> (\<forall>dep\<in>set deps.
     case find_matching_version reg (pd_name dep) (pd_version_requirement dep) of
       None \<Rightarrow> \<lparr>ud_plugin_name = pd_name dep, ud_required_by = n,
                ud_version_requirement = pd_version_requirement dep\<rparr> \<in> set (rs_unmet st)
     | Some m \<Rightarrow> registry_key (pd_name dep) m \<in> rs_visited st)"

definition rs_inv :: "LocalRegistry \<Rightarrow> resolve_state \<Rightarrow> bool" where
  "rs_inv reg st \<longleftrightarrow> hm_keys (rs_version_map st) = rs_install_order st \<and> distinct (rs_install_order st)
     \<and> (\<forall>n v. hm_get (rs_version_map st) n = Some v \<longrightarrow>
          (\<exists>e. find_by_version reg n v = Some e \<and> deps_done reg n (entry_deps e) st))"

text \<open>How a state grows: what is newly visited is in the order at the end.\<close>

definition rs_ext :: "LocalRegistry \<Rightarrow> resolve_state \<Rightarrow> resolve_state \<Rightarrow> bool" where
  "rs_ext reg st st' \<longleftrightarrow> (\<exists>ys. rs_install_order st' = rs_install_order st @ ys)
     \<and> rs_visited st \<subseteq> rs_visited st' \<and> set (rs_unmet st) \<subseteq> set (rs_unmet st')
     \<and> (\<forall>n v. CHR '':'' \<notin> set n \<longrightarrow> registry_key n v \<in> rs_visited st' \<longrightarrow>
          registry_key n v \<in> rs_visited st \<or> n \<in> set (rs_install_order st'))"

lemma rs_ext_refl [simp]: "rs_ext reg st st"
  by (simp add: rs_ext_def)

lemma rs_ext_trans: "rs_ext reg st st' \<Longrightarrow> rs_ext reg st' st'' \<Longrightarrow> rs_ext reg st st''"
  by (fastforce simp: rs_ext_def)

lemma deps_done_mono:
  assumes "deps_done reg n deps st" and "rs_visited st \<subseteq> rs_visited st'" and "set (rs_unmet st) \<subseteq> set (rs_unmet st')"
  shows "deps_done reg n deps st'"
  using assms unfolding deps_done_def by (auto split: option.splits)

lemma rs_inv_grow:
  assumes "rs_inv reg st" and "rs_visited st \<subseteq> rs_visited st'" and "set (rs_unmet st) \<subseteq> set (rs_unmet st')"
    and "rs_install_order st' = rs_install_order st" and "rs_version_map st' = rs_version_map st"
  shows "rs_inv reg st'"
  using assms deps_done_mono [OF _ assms(2,3)] unfolding rs_inv_def by metis

lemma rs_push_inv:
  assumes "rs_inv reg st" and "find_by_version reg n v = Some e" and "deps_done reg n (entry_deps e) st"
  shows "rs_inv reg (rs_push n v st)" and "n \<in> set (rs_install_order (rs_push n v st))"
    and "\<exists>ys. rs_install_order (rs_push n v st) = rs_install_order st @ ys"
    and "rs_unmet (rs_push n v st) = rs_unmet st"
proof -
  show unmet: "rs_unmet (rs_push n v st) = rs_unmet st" by (simp add: rs_push_def)
  have dd: "deps_done reg k ds (rs_push n v st) = deps_done reg k ds st" for k ds
    by (simp add: deps_done_def unmet cong: option.case_cong)
  show "rs_inv reg (rs_push n v st)"
  proof (cases "n \<in> set (rs_install_order st)")
    case True
    with assms(1) show ?thesis by (simp add: rs_push_def)
  next
    case False
    have "\<exists>e. find_by_version reg k w = Some e \<and> deps_done reg k (entry_deps e) st"
      if "hm_get (hm_insert n v (rs_version_map st)) k = Some w" for k w
      using assms that unfolding rs_inv_def by (cases "k = n") (auto simp: update_conv')
    with False assms(1) show ?thesis unfolding rs_inv_def dd by (simp add: rs_push_def update_keys)
  qed
qed (auto simp: rs_push_def)

text \<open>One round of the loop.\<close>

definition resolve_dep :: "LocalRegistry \<Rightarrow> string \<Rightarrow> PluginDependency \<Rightarrow> resolve_state \<Rightarrow> resolve_state" where
  "resolve_dep reg n dep st =
     (case find_matching_version reg (pd_name dep) (pd_version_requirement dep) of
        None \<Rightarrow> rs_miss n dep st
      | Some m \<Rightarrow> resolve_recursive reg (pd_name dep) m st)"

lemma resolve_deps_Cons:
  "resolve_deps reg n (dep # deps) st = resolve_deps reg n deps (resolve_dep reg n dep st)"
  by (simp add: resolve_dep_def resolve_recursive_def Let_def cong: option.case_cong)

lemma resolve_deps_induct [case_names Nil Cons]:
  assumes "\<And>reg n st. P reg n [] st"
    and "\<And>reg n dep deps st.
      (\<And>m entry. find_matching_version reg (pd_name dep) (pd_version_requirement dep) = Some m \<Longrightarrow>
         registry_key (pd_name dep) m \<notin> rs_visited st \<Longrightarrow>
         find_by_version reg (pd_name dep) m = Some entry \<Longrightarrow>
         P reg (pd_name dep) (entry_deps entry) (rs_visit (registry_key (pd_name dep) m) st)) \<Longrightarrow>
      P reg n deps (resolve_dep reg n dep st) \<Longrightarrow> P reg n (dep # deps) st"
  shows "P reg n deps st"
proof (induction reg n deps st rule: resolve_deps.induct)
  case (2 reg n dep deps st)
  show ?case
    using "2.IH"(1) "2.IH"(2)
    by (intro assms(2)) (simp_all add: resolve_dep_def resolve_recursive_def Let_def cong: option.case_cong)
qed (rule assms(1))

lemma rs_visit_inv: "rs_inv reg st \<Longrightarrow> rs_inv reg (rs_visit k st)"
  by (erule rs_inv_grow) (auto simp: rs_visit_def)

text \<open>The call for one plugin, given what the loop over its dependencies does.\<close>

lemma resolve_recursive_step:
  assumes reg: "registry_inv reg" and e: "find_by_version reg d m = Some e" "re_name e = d"
    and new: "registry_key d m \<notin> rs_visited st"
    and loop: "st' = resolve_deps reg d (entry_deps e) (rs_visit (registry_key d m) st)"
      "rs_inv reg st'" "rs_ext reg (rs_visit (registry_key d m) st) st'" "deps_done reg d (entry_deps e) st'"
  shows "rs_inv reg (resolve_recursive reg d m st)" and "rs_ext reg st (resolve_recursive reg d m st)"
    and "d \<in> set (rs_install_order (resolve_recursive reg d m st))"
    and "registry_key d m \<in> rs_visited (resolve_recursive reg d m st)"
proof -
  have eq: "resolve_recursive reg d m st = rs_push d m st'"
    using e new loop(1) by (simp add: resolve_recursive_def Let_def)
  have colon: "CHR '':'' \<notin> set d"
    using reg e by (force simp: registry_inv_def find_by_version_def dest: map_of_SomeD)
  note push = rs_push_inv [OF loop(2) e(1) loop(4)]
  show "rs_inv reg (resolve_recursive reg d m st)"
    and "d \<in> set (rs_install_order (resolve_recursive reg d m st))"
    unfolding eq by (fact push)+
  show "registry_key d m \<in> rs_visited (resolve_recursive reg d m st)"
    using loop(3) by (auto simp: eq rs_ext_def)
  show "rs_ext reg st (resolve_recursive reg d m st)"
    using loop(3) push(2,3,4) unfolding eq rs_ext_def
    by (auto simp: registry_key_inject colon rs_visit_def; blast)
qed

lemma resolve_deps_inv:
  assumes "registry_inv reg" and "rs_inv reg st"
  shows "rs_inv reg (resolve_deps reg n deps st) \<and> rs_ext reg st (resolve_deps reg n deps st)
    \<and> deps_done reg n deps (resolve_deps reg n deps st)"
  using assms
proof (induction reg n deps st rule: resolve_deps_induct)
  case (Nil reg n st)
  then show ?case by (simp add: deps_done_def)
next
  case (Cons reg n dep deps st)
  let ?d = "pd_name dep" and ?st = "resolve_dep reg n dep st"
  have "rs_inv reg ?st \<and> rs_ext reg st ?st \<and> deps_done reg n [dep] ?st"
  proof (cases "find_matching_version reg ?d (pd_version_requirement dep)")
    case None
    have "rs_inv reg ?st" using Cons.prems(2)
      by (rule rs_inv_grow) (auto simp: resolve_dep_def None rs_miss_def)
    with None show ?thesis by (auto simp: resolve_dep_def deps_done_def rs_miss_def rs_ext_def)
  next
    case (Some m)
    then have eq: "?st = resolve_recursive reg ?d m st" by (simp add: resolve_dep_def)
    obtain p where p: "find_by_version reg ?d m = Some p" "re_name p = ?d"
      using find_matching_Some [OF Cons.prems(1) Some] by metis
    show ?thesis
    proof (cases "registry_key ?d m \<in> rs_visited st")
      case True
      with Cons.prems Some show ?thesis by (simp add: eq resolve_recursive_def deps_done_def)
    next
      case False
      note step = resolve_recursive_step [OF Cons.prems(1) p False refl]
      show ?thesis
        using Cons.IH(1) [OF Some False p(1) Cons.prems(1) rs_visit_inv [OF Cons.prems(2)]] step Some
        by (simp add: eq deps_done_def)
    qed
  qed
  then have st: "rs_inv reg ?st" "rs_ext reg st ?st" "deps_done reg n [dep] ?st" by blast+
  let ?st' = "resolve_deps reg n deps ?st"
  have st': "rs_inv reg ?st'" "rs_ext reg ?st ?st'" "deps_done reg n deps ?st'"
    using Cons.IH(2) [OF Cons.prems(1) st(1)] by blast+
  moreover have "deps_done reg n [dep] ?st'"
    using st(3) by (rule deps_done_mono) (use st'(2) in \<open>auto simp: rs_ext_def\<close>)
  ultimately show ?case
    using rs_ext_trans [OF st(2) st'(2)] unfolding resolve_deps_Cons by (simp add: deps_done_def)
qed

section \<open>Dependencies come first\<close>

text \<open>The dependencies for which some version matches.\<close>

definition matched_names :: "LocalRegistry \<Rightarrow> PluginDependency list \<Rightarrow> string set" where
  "matched_names reg deps = {pd_name dep | dep. dep \<in> set deps
     \<and> find_matching_version reg (pd_name dep) (pd_version_requirement dep) \<noteq> None}"

definition install_targets :: "LocalRegistry \<Rightarrow> (string, string) hashmap \<Rightarrow> string \<Rightarrow> string set" where
  "install_targets reg vm n = (case hm_get vm n of None \<Rightarrow> {}
     | Some v \<Rightarrow> (case find_by_version reg n v of None \<Rightarrow> {} | Some e \<Rightarrow> matched_names reg (entry_deps e)))"

text \<open>The dependencies between names, over all registered versions.\<close>

definition name_deps :: "LocalRegistry \<Rightarrow> (string \<times> string) set" where
  "name_deps reg = {(d, n). \<exists>e\<in>set (list_all_entries reg). re_name e = n \<and> d \<in> matched_names reg (entry_deps e)}"

lemma find_by_version_entry: "find_by_version reg n v = Some e \<Longrightarrow> e \<in> set (list_all_entries reg)"
  by (force simp: find_by_version_def list_all_entries_def dest: map_of_SomeD)

lemma matched_names_Cons:
  "matched_names reg (dep # deps) =
     (if find_matching_version reg (pd_name dep) (pd_version_requirement dep) = None then {} else {pd_name dep})
     \<union> matched_names reg deps"
  by (auto simp: matched_names_def)

lemma deps_first_cong:
  "(\<And>a. a \<in> set xs \<Longrightarrow> f a = g a) \<Longrightarrow> deps_first f xs \<longleftrightarrow> deps_first g xs"
  by (simp add: deps_first_def)

definition order_ok :: "LocalRegistry \<Rightarrow> resolve_state \<Rightarrow> bool" where
  "order_ok reg st \<longleftrightarrow> deps_first (install_targets reg (rs_version_map st)) (rs_install_order st)"

lemma rs_push_order:
  assumes "rs_inv reg st" and "order_ok reg st" and "find_by_version reg n v = Some e"
    and "matched_names reg (entry_deps e) \<subseteq> set (rs_install_order st)"
  shows "order_ok reg (rs_push n v st)"
proof (cases "n \<in> set (rs_install_order st)")
  case True
  with assms(2) show ?thesis by (simp add: rs_push_def order_ok_def)
next
  case False
  let ?vm = "hm_insert n v (rs_version_map st)"
  have "install_targets reg ?vm a = install_targets reg (rs_version_map st) a" if "a \<noteq> n" for a
    using that by (simp add: install_targets_def update_conv')
  then have "deps_first (install_targets reg ?vm) (rs_install_order st)"
    using assms(2) False deps_first_cong [of "rs_install_order st" "install_targets reg ?vm"]
    unfolding order_ok_def by metis
  moreover have "install_targets reg ?vm n \<subseteq> set (rs_install_order st)"
    using assms(3,4) by (simp add: install_targets_def update_conv')
  ultimately show ?thesis using False by (simp add: order_ok_def rs_push_def)
qed

text \<open>The plugins that are being processed depend on the current one's users only.\<close>

definition stack_ok :: "LocalRegistry \<Rightarrow> string \<Rightarrow> resolve_state \<Rightarrow> bool" where
  "stack_ok reg n st \<longleftrightarrow> (\<forall>s v. CHR '':'' \<notin> set s \<longrightarrow> registry_key s v \<in> rs_visited st \<longrightarrow>
     s \<in> set (rs_install_order st) \<or> (n, s) \<in> (name_deps reg)\<^sup>*)"

lemma stack_ok_visit:
  assumes "stack_ok reg n st" and "(d, n) \<in> name_deps reg" and "CHR '':'' \<notin> set d"
  shows "stack_ok reg d (rs_visit (registry_key d m) st)"
  unfolding stack_ok_def
proof (intro allI impI)
  fix s v assume s: "CHR '':'' \<notin> set s" "registry_key s v \<in> rs_visited (rs_visit (registry_key d m) st)"
  then consider "s = d" | "registry_key s v \<in> rs_visited st"
    using assms(3) by (auto simp: registry_key_inject)
  then show "s \<in> set (rs_install_order (rs_visit (registry_key d m) st)) \<or> (d, s) \<in> (name_deps reg)\<^sup>*"
    using assms(1,2) s(1) by cases (auto simp: stack_ok_def rs_visit_def intro: converse_rtrancl_into_rtrancl)
qed

lemma stack_ok_ext: "stack_ok reg n st \<Longrightarrow> rs_ext reg st st' \<Longrightarrow> stack_ok reg n st'"
  unfolding stack_ok_def rs_ext_def by (metis UnI1 set_append)

lemma resolve_deps_order:
  assumes "registry_inv reg" and "acyclic (name_deps reg)" and "rs_inv reg st" and "order_ok reg st"
    and "stack_ok reg n st" and "\<And>d. d \<in> matched_names reg deps \<Longrightarrow> (d, n) \<in> name_deps reg"
  shows "order_ok reg (resolve_deps reg n deps st)
    \<and> matched_names reg deps \<subseteq> set (rs_install_order (resolve_deps reg n deps st))"
  using assms
proof (induction reg n deps st rule: resolve_deps_induct)
  case (Nil reg n st)
  then show ?case by (simp add: matched_names_def)
next
  case (Cons reg n dep deps st)
  let ?d = "pd_name dep" and ?st = "resolve_dep reg n dep st"
  let ?found = "find_matching_version reg ?d (pd_version_requirement dep)"
  have one: "rs_inv reg ?st \<and> rs_ext reg st ?st"
    using resolve_deps_inv [OF Cons.prems(1,3), of n "[dep]"] by (simp only: resolve_deps_Cons resolve_deps.simps(1))
  have "order_ok reg ?st \<and> (?found \<noteq> None \<longrightarrow> ?d \<in> set (rs_install_order ?st))"
  proof (cases ?found)
    case None
    then show ?thesis using Cons.prems(4) by (simp add: resolve_dep_def rs_miss_def order_ok_def)
  next
    case (Some m)
    then have eq: "?st = resolve_recursive reg ?d m st" by (simp add: resolve_dep_def)
    obtain p where p: "find_by_version reg ?d m = Some p" "re_name p = ?d"
      using find_matching_Some [OF Cons.prems(1) Some] by metis
    have colon: "CHR '':'' \<notin> set ?d"
      using Cons.prems(1) p by (force simp: registry_inv_def find_by_version_def dest: map_of_SomeD)
    have edge: "(?d, n) \<in> name_deps reg"
      using Cons.prems(6) [of ?d] Some by (simp add: matched_names_Cons)
    show ?thesis
    proof (cases "registry_key ?d m \<in> rs_visited st")
      case True
      have "(n, ?d) \<notin> (name_deps reg)\<^sup>*"
        using Cons.prems(2) edge by (meson acyclic_def rtrancl_into_trancl1)
      with True Cons.prems(5) colon have "?d \<in> set (rs_install_order st)" by (auto simp: stack_ok_def)
      with True Cons.prems(4) show ?thesis by (simp add: eq resolve_recursive_def)
    next
      case False
      let ?sv = "rs_visit (registry_key ?d m) st"
      have inv0: "rs_inv reg ?sv" by (rule rs_visit_inv [OF Cons.prems(3)])
      have ord0: "order_ok reg ?sv" using Cons.prems(4) by (simp add: order_ok_def rs_visit_def)
      have deps: "(x, ?d) \<in> name_deps reg" if "x \<in> matched_names reg (entry_deps p)" for x
        using that p find_by_version_entry [OF p(1)] by (auto simp: name_deps_def)
      let ?sw = "resolve_deps reg ?d (entry_deps p) ?sv"
      have ih: "order_ok reg ?sw" "matched_names reg (entry_deps p) \<subseteq> set (rs_install_order ?sw)"
        using Cons.IH(1) [OF Some False p(1) Cons.prems(1,2) inv0 ord0
            stack_ok_visit [OF Cons.prems(5) edge colon] deps] by blast+
      have st1: "rs_inv reg ?sw" "deps_done reg ?d (entry_deps p) ?sw"
        using resolve_deps_inv [OF Cons.prems(1) inv0] by blast+
      have "resolve_recursive reg ?d m st = rs_push ?d m ?sw"
        by (simp add: resolve_recursive_def p(1) False)
      then have "?st = rs_push ?d m ?sw" by (simp only: eq)
      with rs_push_order [OF st1(1) ih(1) p(1) ih(2)] rs_push_inv(2) [OF st1(1) p(1) st1(2)]
      show ?thesis by simp
    qed
  qed
  then have st: "order_ok reg ?st" "?found \<noteq> None \<Longrightarrow> ?d \<in> set (rs_install_order ?st)" by blast+
  have more: "(d, n) \<in> name_deps reg" if "d \<in> matched_names reg deps" for d
    using Cons.prems(6) [of d] that by (simp add: matched_names_Cons)
  have "order_ok reg (resolve_deps reg n deps ?st)"
    "matched_names reg deps \<subseteq> set (rs_install_order (resolve_deps reg n deps ?st))"
    using Cons.IH(2) [OF Cons.prems(1,2) _ st(1) stack_ok_ext [OF Cons.prems(5)] more] one by blast+
  moreover obtain ys where "rs_install_order (resolve_deps reg n deps ?st) = rs_install_order ?st @ ys"
    using resolve_deps_inv [OF Cons.prems(1), of ?st n deps] one by (auto simp: rs_ext_def)
  ultimately show ?case using st(2) unfolding resolve_deps_Cons by (auto simp: matched_names_Cons)
qed

lemma registry_inv_find:
  assumes "registry_inv reg" and "find_by_version reg n v = Some e"
  shows "CHR '':'' \<notin> set (re_name e)"
    and "CHR '':'' \<notin> set n \<Longrightarrow> re_name e = n \<and> re_version e = v"
proof -
  have "registry_key n v = registry_key (re_name e) (re_version e) \<and> CHR '':'' \<notin> set (re_name e)"
    using assms by (force simp: registry_inv_def find_by_version_def dest: map_of_SomeD)
  then show "CHR '':'' \<notin> set (re_name e)" and "CHR '':'' \<notin> set n \<Longrightarrow> re_name e = n \<and> re_version e = v"
    by (auto simp: registry_key_inject)
qed

lemma rs_init_inv: "rs_inv reg rs_init" "order_ok reg rs_init" "rs_visited rs_init = {}"
  by (simp_all add: rs_init_def rs_inv_def order_ok_def)

text \<open>The call for the plugin to be installed.\<close>

lemma resolve_root:
  assumes "registry_inv reg" and "find_by_version reg n v = Some e" and "CHR '':'' \<notin> set n"
  defines "st \<equiv> resolve_recursive reg n v rs_init"
  shows "rs_inv reg st" and "n \<in> set (rs_install_order st)"
    and "CHR '':'' \<notin> set s \<Longrightarrow> registry_key s w \<in> rs_visited st \<Longrightarrow> s \<in> set (rs_install_order st)"
    and "acyclic (name_deps reg) \<Longrightarrow> order_ok reg st"
proof -
  let ?sv = "rs_visit (registry_key n v) rs_init"
  let ?sw = "resolve_deps reg n (entry_deps e) ?sv"
  have name: "re_name e = n" using registry_inv_find(2) [OF assms(1,2,3)] by blast
  have inv: "rs_inv reg ?sv" by (rule rs_visit_inv [OF rs_init_inv(1)])
  have sw: "rs_inv reg ?sw" "rs_ext reg ?sv ?sw" "deps_done reg n (entry_deps e) ?sw"
    using resolve_deps_inv [OF assms(1) inv] by blast+
  note step = resolve_recursive_step [OF assms(1,2) name _ refl sw, folded st_def]
  show "rs_inv reg st" and "n \<in> set (rs_install_order st)" by (rule step; simp add: rs_init_inv)+
  show "s \<in> set (rs_install_order st)" if "CHR '':'' \<notin> set s" "registry_key s w \<in> rs_visited st"
    using step(2) that by (auto simp: rs_ext_def rs_init_inv)
  show "order_ok reg st" if acyc: "acyclic (name_deps reg)"
  proof -
    have deps: "(d, n) \<in> name_deps reg" if "d \<in> matched_names reg (entry_deps e)" for d
      using that name find_by_version_entry [OF assms(2)] by (auto simp: name_deps_def)
    have "order_ok reg ?sv" using rs_init_inv(2) by (simp add: order_ok_def rs_visit_def)
    moreover have "stack_ok reg n ?sv"
      using assms(3) by (auto simp: stack_ok_def rs_init_inv registry_key_inject)
    ultimately have "order_ok reg ?sw" "matched_names reg (entry_deps e) \<subseteq> set (rs_install_order ?sw)"
      using resolve_deps_order [OF assms(1) acyc inv _ _ deps] by blast+
    moreover have "st = rs_push n v ?sw" by (simp add: st_def resolve_recursive_def assms(2) rs_init_inv)
    ultimately show ?thesis using rs_push_order [OF sw(1) _ assms(2)] by simp
  qed
qed

text \<open>(C15) The installation order of the packager is right: for a registered plugin, each plugin is
  listed once, with a registered version, and the plugin itself is listed; each dependency of a
  listed version is listed too, or reported as unmet when no registered version matches; and if
  the dependencies between names have no cycle, every plugin comes after its dependencies. The
  recursion always ends.\<close>

theorem resolve_install_correct:
  assumes "registry_inv reg" and "find_by_version reg n v = Some e" and "CHR '':'' \<notin> set n"
  shows "let res = resolve_install reg n v in
      hm_keys (version_map res) = install_order res \<and> distinct (install_order res)
      \<and> n \<in> set (install_order res)
      \<and> (\<forall>p w. hm_get (version_map res) p = Some w \<longrightarrow>
           (\<exists>e. find_by_version reg p w = Some e \<and> (\<forall>dep\<in>set (entry_deps e).
              case find_matching_version reg (pd_name dep) (pd_version_requirement dep) of
                None \<Rightarrow> \<lparr>ud_plugin_name = pd_name dep, ud_required_by = p,
                    ud_version_requirement = pd_version_requirement dep\<rparr> \<in> set (unmet_dependencies res)
              | Some m \<Rightarrow> pd_name dep \<in> set (install_order res))))
      \<and> (acyclic (name_deps reg) \<longrightarrow>
           deps_first (install_targets reg (version_map res)) (install_order res))"
proof -
  let ?s = "resolve_recursive reg n v rs_init"
  note root = resolve_root [OF assms]
  have closed: "\<exists>e. find_by_version reg p w = Some e \<and> (\<forall>dep\<in>set (entry_deps e).
      case find_matching_version reg (pd_name dep) (pd_version_requirement dep) of
        None \<Rightarrow> \<lparr>ud_plugin_name = pd_name dep, ud_required_by = p,
            ud_version_requirement = pd_version_requirement dep\<rparr> \<in> set (rs_unmet ?s)
      | Some m \<Rightarrow> pd_name dep \<in> set (rs_install_order ?s))"
    if get: "hm_get (rs_version_map ?s) p = Some w" for p w
  proof -
    obtain e where e: "find_by_version reg p w = Some e" "deps_done reg p (entry_deps e) ?s"
      using root(1) get unfolding rs_inv_def by blast
    have "CHR '':'' \<notin> set d" if "find_matching_version reg d q = Some m" for d q m
      using find_matching_Some [OF assms(1) that] registry_inv_find(1) [OF assms(1)] by metis
    then show ?thesis using e root(3) unfolding deps_done_def by (fastforce split: option.splits)
  qed
  have sel: "install_order (resolve_install reg n v) = rs_install_order ?s"
    "version_map (resolve_install reg n v) = rs_version_map ?s"
    "unmet_dependencies (resolve_install reg n v) = rs_unmet ?s"
    by (simp_all add: resolve_install_def Let_def)
  show ?thesis unfolding Let_def sel
    using root(1,2) closed root(4) unfolding rs_inv_def order_ok_def by blast
qed

definition example_entry :: "string \<Rightarrow> string \<Rightarrow> (string \<times> string) list \<Rightarrow> PluginRegistryEntry" where
  "example_entry n v ds = \<lparr>re_plugin_id = n, re_name = n, re_version = v, re_abi_version = ''2.0'',
     re_description = None, re_author = None, re_license = None, re_keywords = None,
     re_dependencies = Some (map (\<lambda>(d, q). \<lparr>pd_name = d, pd_version_requirement = q\<rparr>) ds)\<rparr>"

text \<open>Facts that evaluate the resolution on concrete registries.\<close>

lemmas requirement_eval = requirement_matches_def requirement_op_def trim_solid solid_def ends_with_def
  strip_suffix_def

lemma example_matches [simp]:
  "requirement_matches ''^1.0.0'' ''1.0.0''" "requirement_matches ''^1.0.0'' ''1.2.0''"
  "\<not> requirement_matches ''^1.0.0'' ''2.0.0''" "\<not> requirement_matches ''^2.0.0'' ''1.0.0''"
  "requirement_matches ''^2.0.0'' ''2.0.0''"
  by (simp add: requirement_eval, code_simp)+

lemmas registry_eval = registry_register_def LocalRegistry_new_def registry_key_def list_all_entries_def
  find_matching_version_def max_by_opt_def max_by_def find_by_version_def

lemmas resolve_eval = resolve_install_def resolve_recursive_def rs_init_def rs_visit_def rs_push_def rs_miss_def
  entry_deps_def registry_key_def

definition chain_registry :: LocalRegistry where
  "chain_registry = foldl (\<lambda>r e. registry_register e r) LocalRegistry_new
     [example_entry ''app'' ''1.0.0'' [(''lib'', ''^1.0.0'')], example_entry ''lib'' ''1.2.0'' []]"

lemma chain_registry_eqs:
  "list_all_entries chain_registry =
     [example_entry ''app'' ''1.0.0'' [(''lib'', ''^1.0.0'')], example_entry ''lib'' ''1.2.0'' []]"
  "find_by_version chain_registry ''app'' ''1.0.0'' =
     Some (example_entry ''app'' ''1.0.0'' [(''lib'', ''^1.0.0'')])"
  "find_by_version chain_registry ''lib'' ''1.2.0'' = Some (example_entry ''lib'' ''1.2.0'' [])"
  "find_matching_version chain_registry ''lib'' ''^1.0.0'' = Some ''1.2.0''"
  by (simp_all add: chain_registry_def registry_eval example_entry_def)

lemma chain_registry_inv: "registry_inv chain_registry"
  unfolding chain_registry_def foldl.simps
  by (intro registry_inv_register registry_inv_new) (simp_all add: example_entry_def)

lemma chain_registry_acyclic: "acyclic (name_deps chain_registry)"
proof -
  have "name_deps chain_registry \<subseteq> {(''lib'', ''app'')}"
    by (auto simp: name_deps_def matched_names_def entry_deps_def example_entry_def chain_registry_eqs)
  moreover have "acyclic {(''lib'', ''app'')}"
    by (rule acyclicI_order [of _ "\<lambda>s. if s = ''app'' then 0 else 1 :: nat"]) simp
  ultimately show ?thesis by (rule acyclic_subset [rotated])
qed

theorem resolve_install_correct_witness:
  "install_order (resolve_install chain_registry ''app'' ''1.0.0'') = [''lib'', ''app'']
   \<and> deps_first (install_targets chain_registry (version_map (resolve_install chain_registry ''app'' ''1.0.0'')))
       [''lib'', ''app'']"
proof -
  have "install_order (resolve_install chain_registry ''app'' ''1.0.0'') = [''lib'', ''app'']"
    by (simp add: resolve_eval chain_registry_eqs example_entry_def)
  then show ?thesis
    using resolve_install_correct [OF chain_registry_inv chain_registry_eqs(2)] chain_registry_acyclic
    unfolding Let_def by simp
qed

definition diamond_registry :: LocalRegistry where
  "diamond_registry = foldl (\<lambda>r e. registry_register e r) LocalRegistry_new
     [example_entry ''app'' ''1.0.0'' [(''a'', ''^1.0.0''), (''b'', ''^1.0.0'')],
      example_entry ''a'' ''1.0.0'' [(''lib'', ''^1.0.0'')],
      example_entry ''b'' ''1.0.0'' [(''lib'', ''^2.0.0'')],
      example_entry ''lib'' ''1.0.0'' [], example_entry ''lib'' ''2.0.0'' []]"

lemma diamond_registry_eqs:
  "find_by_version diamond_registry ''app'' ''1.0.0'' =
     Some (example_entry ''app'' ''1.0.0'' [(''a'', ''^1.0.0''), (''b'', ''^1.0.0'')])"
  "find_by_version diamond_registry ''a'' ''1.0.0'' = Some (example_entry ''a'' ''1.0.0'' [(''lib'', ''^1.0.0'')])"
  "find_by_version diamond_registry ''b'' ''1.0.0'' = Some (example_entry ''b'' ''1.0.0'' [(''lib'', ''^2.0.0'')])"
  "find_by_version diamond_registry ''lib'' ''1.0.0'' = Some (example_entry ''lib'' ''1.0.0'' [])"
  "find_by_version diamond_registry ''lib'' ''2.0.0'' = Some (example_entry ''lib'' ''2.0.0'' [])"
  "find_matching_version diamond_registry ''lib'' ''^1.0.0'' = Some ''1.0.0''"
  "find_matching_version diamond_registry ''lib'' ''^2.0.0'' = Some ''2.0.0''"
  "find_matching_version diamond_registry ''a'' ''^1.0.0'' = Some ''1.0.0''"
  "find_matching_version diamond_registry ''b'' ''^1.0.0'' = Some ''1.0.0''"
  by (simp_all add: diamond_registry_def registry_eval example_entry_def)

text \<open>When two plugins require different versions of a third, the version selected first is
  kept and the other requirement is dropped silently: nothing is reported as unmet, although the
  listed version does not satisfy it.\<close>

theorem resolve_install_drops_requirement:
  "let res = resolve_install diamond_registry ''app'' ''1.0.0''
   in install_order res = [''lib'', ''a'', ''b'', ''app''] \<and> unmet_dependencies res = []
      \<and> hm_get (version_map res) ''lib'' = Some ''1.0.0''
      \<and> requirement_matches ''^2.0.0'' ''1.0.0'' = False"
  unfolding Let_def by (simp add: resolve_eval diamond_registry_eqs example_entry_def)

end
