(* ===== verification/Plugin_Manager.thy ===== *)
theory Plugin_Manager
  imports Rust_Str "HOL-Library.Multiset"
begin

text \<open>
  The plugin manager, \<open>src/plugin_manager/manager.rs\<close> (the table of loaded plugins, loading, unloading
  and shutdown), with the registries for calls between plugins: \<open>abi/src/rpc.rs\<close>, one per plugin, and
  \<open>src/plugin_manager/rpc_global.rs\<close>, which holds them all.

  The per-plugin registries are shared: the plugin's context and the global registry point to
  the same one. They live in a store, \<open>rpc_heap\<close>, and are referred to by their index. What loading a
  library, reading its metadata and running its \<open>plugin_init_v2\<close> return is an argument; of the effects of
  \<open>plugin_init_v2\<close> the handlers that it registers are modelled. A handler is a function of the request.
  Loaders are of an arbitrary type. \<open>retired\<close> records the loaders that were handed to the deferred
  reclamation of \<open>Epoch_Guard\<close>, by \<open>unload\<close> or by dropping an \<open>EpochGuardedPlugin\<close>.
\<close>

section \<open>Registries for remote calls\<close>

datatype PluginResultV2 = Success | ErrorV2 | InvalidRequest | ServiceUnavailable | PermissionDenied
  | NotImplemented | Timeout | ResourceExhausted | Pending

type_synonym RpcHandler = "string \<Rightarrow> PluginResultV2 \<times> string"

record RpcEntry =
  rpc_interface :: "string option"
  rpc_idl :: "string option"
  rpc_handler :: RpcHandler

type_synonym RpcRegistry = "(string, RpcEntry) hashmap"

definition RpcRegistry_new :: RpcRegistry where
  "RpcRegistry_new = []"

definition rpc_register :: "string \<Rightarrow> string option \<Rightarrow> string option \<Rightarrow> RpcHandler \<Rightarrow> RpcRegistry
    \<Rightarrow> PluginResultV2 \<times> RpcRegistry" where
  "rpc_register name interface idl handler m =
     (Success, hm_insert name \<lparr>rpc_interface = interface, rpc_idl = idl, rpc_handler = handler\<rparr> m)"

definition rpc_unregister :: "string \<Rightarrow> RpcRegistry \<Rightarrow> PluginResultV2 \<times> RpcRegistry" where
  "rpc_unregister name m =
     (if hm_get m name \<noteq> None then Success else ServiceUnavailable, AList.delete name m)"

definition rpc_call :: "RpcRegistry \<Rightarrow> string \<Rightarrow> string \<Rightarrow> PluginResultV2 + string" where
  "rpc_call m name request =
     (case hm_get m name of
        Some entry \<Rightarrow>
          (case rpc_handler entry request of (res, resp) \<Rightarrow> if res = Success then Ok resp else Err res)
      | None \<Rightarrow> Err ServiceUnavailable)"

definition get_idl :: "RpcRegistry \<Rightarrow> string \<Rightarrow> string option" where
  "get_idl m name = (case hm_get m name of None \<Rightarrow> None | Some e \<Rightarrow> rpc_idl e)"

definition rpc_list_services :: "RpcRegistry \<Rightarrow> string list" where
  "rpc_list_services m = hm_keys m"

text \<open>The loop of \<open>GlobalRpcRegistry::call\<close>: a registry that answers \<open>ServiceUnavailable\<close> is skipped.\<close>

fun global_call :: "(nat \<Rightarrow> RpcRegistry) \<Rightarrow> (string \<times> nat) list \<Rightarrow> string \<Rightarrow> string
    \<Rightarrow> PluginResultV2 + string" where
  "global_call heap [] service params = Err ServiceUnavailable"
| "global_call heap ((plugin_name, registry) # rs) service params =
     (case rpc_call (heap registry) service params of
        Ok result \<Rightarrow> Ok result
      | Err e \<Rightarrow> if e = ServiceUnavailable then global_call heap rs service params else Err e)"

section \<open>The manager\<close>

record 'l PluginManager =
  loaded_plugins_v2 :: "(string, 'l) hashmap"
  plugin_resources :: "(string, nat) hashmap"
  rpc_heap :: "nat \<Rightarrow> RpcRegistry"
  rpc_next :: nat
  global_rpc :: "(string \<times> nat) list"
  retired :: "'l list"

text \<open>What loading a library and calling its entry points return, with errors already printed.
  \<open>le_init\<close> gives the handlers that the initialisation registers.\<close>

record 'l LoadEnv =
  le_load :: "string \<Rightarrow> string + 'l"
  le_info :: "'l \<Rightarrow> string + unit"
  le_capabilities :: "'l \<Rightarrow> string + unit"
  le_init :: "'l \<Rightarrow> string + RpcRegistry"

definition PluginManager_new :: "'l PluginManager" where
  "PluginManager_new = \<lparr>loaded_plugins_v2 = [], plugin_resources = [], rpc_heap = (\<lambda>_. RpcRegistry_new),
     rpc_next = 0, global_rpc = [], retired = []\<rparr>"

text \<open>\<open>HashMap::insert\<close> on the table: a replaced plugin is dropped, which retires its loader.\<close>

definition store_plugin :: "string \<Rightarrow> 'l \<Rightarrow> 'l PluginManager \<Rightarrow> 'l PluginManager" where
  "store_plugin name loader pm =
     pm\<lparr>loaded_plugins_v2 := hm_insert name loader (loaded_plugins_v2 pm),
        retired := (case hm_get (loaded_plugins_v2 pm) name of None \<Rightarrow> [] | Some old \<Rightarrow> [old]) @ retired pm\<rparr>"

text \<open>The context with its fresh registry; the index stands for \<open>PluginResources\<close>.\<close>

definition create_plugin_context_v2 :: "'l PluginManager \<Rightarrow> nat \<times> 'l PluginManager" where
  "create_plugin_context_v2 pm =
     (rpc_next pm, pm\<lparr>rpc_heap := (rpc_heap pm)(rpc_next pm := RpcRegistry_new), rpc_next := rpc_next pm + 1\<rparr>)"

definition load_plugin :: "'l LoadEnv \<Rightarrow> string \<Rightarrow> string \<Rightarrow> 'l PluginManager
    \<Rightarrow> (string + unit) \<times> 'l PluginManager" where
  "load_plugin env name path pm =
     (case le_load env path of
        Ok loader_v2 \<Rightarrow> (Ok (), store_plugin name loader_v2 pm)
      | Err e \<Rightarrow> (Err (''Failed to load plugin '' @ name @ '': '' @ e), pm))"

definition load_plugin_instance_v2 :: "'l LoadEnv \<Rightarrow> string \<Rightarrow> string \<Rightarrow> 'l PluginManager
    \<Rightarrow> (string + unit) \<times> 'l PluginManager" where
  "load_plugin_instance_v2 env name path pm =
     (case le_load env path of
        Err e \<Rightarrow> (Err (''Failed to load v2 plugin '' @ name @ '': '' @ e), pm)
      | Ok loader \<Rightarrow>
     (case le_info env loader of
        Err e \<Rightarrow> (Err (''Failed to get plugin info for '' @ name @ '': '' @ e), pm)
      | Ok _ \<Rightarrow>
     (case le_capabilities env loader of
        Err e \<Rightarrow> (Err (''Failed to get plugin capabilities for '' @ name @ '': '' @ e), pm)
      | Ok _ \<Rightarrow>
     (case create_plugin_context_v2 pm of (resources, pm1) \<Rightarrow>
     (case le_init env loader of
        Err e \<Rightarrow> (Err (''Failed to initialize v2 plugin '' @ name @ '': '' @ e), pm1)
      | Ok handlers \<Rightarrow>
          (let pm2 = pm1\<lparr>rpc_heap := (rpc_heap pm1)(resources := handlers),
                 global_rpc := global_rpc pm1 @ [(name, resources)]\<rparr>;
               pm3 = store_plugin name loader pm2
           in (Ok (), pm3\<lparr>plugin_resources := hm_insert name resources (plugin_resources pm3)\<rparr>)))))))"

text \<open>Initialisation of a plugin that was loaded at start-up: \<open>init_fn\<close> is what looking up and calling
  \<open>plugin_init_v2\<close> returns, with the handlers it registers.\<close>

definition init_bootstrap_plugin :: "(string + (PluginResultV2 \<times> RpcRegistry)) \<Rightarrow> (PluginResultV2 \<Rightarrow> string)
    \<Rightarrow> string \<Rightarrow> 'l PluginManager \<Rightarrow> (string + unit) \<times> 'l PluginManager" where
  "init_bootstrap_plugin init_fn debug name pm =
     (case init_fn of
        Err e \<Rightarrow> (Err (''Bootstrap plugin '' @ quoted name @ '' does not have plugin_init_v2: '' @ e), pm)
      | Ok (result, handlers) \<Rightarrow>
          (case create_plugin_context_v2 pm of (resources, pm1) \<Rightarrow>
             (let pm2 = pm1\<lparr>rpc_heap := (rpc_heap pm1)(resources := handlers)\<rparr>
              in if result \<noteq> Success
                 then (Err (''Bootstrap plugin '' @ quoted name @ '' init failed with result: '' @ debug result), pm2)
                 else (Ok (), pm2\<lparr>plugin_resources :=
                        hm_insert (''bootstrap:'' @ name) resources (plugin_resources pm2)\<rparr>))))"

definition unload_plugin :: "string \<Rightarrow> 'l PluginManager \<Rightarrow> (string + unit) \<times> 'l PluginManager" where
  "unload_plugin name pm =
     (case hm_get (loaded_plugins_v2 pm) name of
        Some guarded_plugin \<Rightarrow>
          (Ok (), pm\<lparr>loaded_plugins_v2 := AList.delete name (loaded_plugins_v2 pm),
                     retired := guarded_plugin # retired pm,
                     plugin_resources := AList.delete name (plugin_resources pm)\<rparr>)
      | None \<Rightarrow> (Err (''Plugin '' @ quoted name @ '' not found''), pm))"

definition manager_list_plugins :: "'l PluginManager \<Rightarrow> string list" where
  "manager_list_plugins pm = hm_keys (loaded_plugins_v2 pm)"

definition shutdown_all :: "'l PluginManager \<Rightarrow> 'l PluginManager" where
  "shutdown_all pm = foldl (\<lambda>pm name. snd (unload_plugin name pm)) pm (manager_list_plugins pm)"

text \<open>\<open>GlobalRpcRegistry::call\<close> on the registries of the manager's plugins.\<close>

definition call_service :: "'l PluginManager \<Rightarrow> string \<Rightarrow> string \<Rightarrow> PluginResultV2 + string" where
  "call_service pm service params = global_call (rpc_heap pm) (global_rpc pm) service params"

section \<open>What loading and unloading do to the table\<close>

definition loaded_names :: "'l PluginManager \<Rightarrow> string set" where
  "loaded_names pm = set (hm_keys (loaded_plugins_v2 pm))"

lemma loaded_names_iff: "n \<in> loaded_names pm \<longleftrightarrow> hm_get (loaded_plugins_v2 pm) n \<noteq> None"
  by (simp add: loaded_names_def map_of_eq_None_iff)

lemma store_plugin_loaded: "loaded_names (store_plugin n l pm) = insert n (loaded_names pm)"
  by (simp add: loaded_names_def store_plugin_def dom_update)

text \<open>The two outcomes of loading an instance.\<close>

lemma load_instance_cases:
  obtains (Loaded) l handlers where "le_load env path = Ok l" and "le_init env l = Ok handlers"
      and "load_plugin_instance_v2 env name path pm = (Ok (),
        (store_plugin name l pm)\<lparr>plugin_resources := hm_insert name (rpc_next pm) (plugin_resources pm),
           rpc_heap := (rpc_heap pm)(rpc_next pm := handlers), rpc_next := rpc_next pm + 1,
           global_rpc := global_rpc pm @ [(name, rpc_next pm)]\<rparr>)"
  | (Failed) e h k where "load_plugin_instance_v2 env name path pm =
        (Err e, pm\<lparr>rpc_heap := (rpc_heap pm)(rpc_next pm := h), rpc_next := rpc_next pm + k\<rparr>)"
proof (cases "le_load env path")
  case (Inl e)
  then show ?thesis
    using Failed [where e = "''Failed to load v2 plugin '' @ name @ '': '' @ e" and h = "rpc_heap pm (rpc_next pm)" and k = 0]
    by (simp add: load_plugin_instance_v2_def)
next
  case l: (Inr l)
  show ?thesis
  proof (cases "le_info env l")
    case (Inl e)
    with l show ?thesis
      using Failed [where e = "''Failed to get plugin info for '' @ name @ '': '' @ e" and h = "rpc_heap pm (rpc_next pm)" and k = 0]
      by (simp add: load_plugin_instance_v2_def)
  next
    case info: (Inr u)
    show ?thesis
    proof (cases "le_capabilities env l")
      case (Inl e)
      with l info show ?thesis
        using Failed [where e = "''Failed to get plugin capabilities for '' @ name @ '': '' @ e" and h = "rpc_heap pm (rpc_next pm)" and k = 0]
        by (simp add: load_plugin_instance_v2_def)
    next
      case caps: (Inr u)
      show ?thesis
      proof (cases "le_init env l")
        case (Inl e)
        with l info caps show ?thesis
          using Failed [where e = "''Failed to initialize v2 plugin '' @ name @ '': '' @ e" and h = RpcRegistry_new and k = 1]
          by (simp add: load_plugin_instance_v2_def create_plugin_context_v2_def)
      next
        case (Inr handlers)
        with l info caps show ?thesis
          using Loaded [where l = l and handlers = handlers]
          by (simp add: load_plugin_instance_v2_def create_plugin_context_v2_def store_plugin_def Let_def)
      qed
    qed
  qed
qed

text \<open>What users of the manager rely on.\<close>

locale plugin_host =
  fixes load :: "string \<Rightarrow> string \<Rightarrow> 's \<Rightarrow> (string + unit) \<times> 's"
    and unload :: "string \<Rightarrow> 's \<Rightarrow> (string + unit) \<times> 's"
    and names :: "'s \<Rightarrow> string set"
  assumes load_names: "names (snd (load n p s)) = (case fst (load n p s) of Ok _ \<Rightarrow> insert n (names s) | Err _ \<Rightarrow> names s)"
    and unload_names: "names (snd (unload n s)) = names s - {n}"
    and unload_result: "isl (fst (unload n s)) \<longleftrightarrow> n \<notin> names s"
begin

text \<open>Unloading and loading again leaves the plugin loaded exactly when the load succeeds, and never
  touches another plugin.\<close>

lemma reload_names:
  "names (snd (load n p (snd (unload n s)))) =
     (if isl (fst (load n p (snd (unload n s)))) then names s - {n} else insert n (names s))"
  by (auto simp: load_names unload_names split: sum.split)

lemma unload_twice: "n \<in> names s \<Longrightarrow> \<not> isl (fst (unload n s)) \<and> isl (fst (unload n (snd (unload n s))))"
  by (simp add: unload_result unload_names)

end

interpretation host: plugin_host "load_plugin_instance_v2 env" unload_plugin loaded_names
proof
  fix n p and s :: "'a PluginManager"
  show "loaded_names (snd (load_plugin_instance_v2 env n p s)) =
      (case fst (load_plugin_instance_v2 env n p s) of Ok _ \<Rightarrow> insert n (loaded_names s) | Err _ \<Rightarrow> loaded_names s)"
  proof (cases rule: load_instance_cases [where env = env and name = n and path = p and pm = s])
    case (Loaded l handlers)
    then show ?thesis using store_plugin_loaded [of n l s] by (simp add: loaded_names_def)
  next
    case (Failed e h k)
    then show ?thesis by (simp add: loaded_names_def)
  qed
  show "loaded_names (snd (unload_plugin n s)) = loaded_names s - {n}"
    by (auto simp: unload_plugin_def loaded_names_def AList.delete_eq map_of_eq_None_iff split: option.splits)
  show "isl (fst (unload_plugin n s)) \<longleftrightarrow> n \<notin> loaded_names s"
    by (auto simp: unload_plugin_def loaded_names_iff split: option.splits)
qed

section \<open>Runs of the manager\<close>

text \<open>One operation of the manager, with the loaders that it loads.\<close>

inductive manager_step :: "'l PluginManager \<Rightarrow> 'l multiset \<Rightarrow> 'l PluginManager \<Rightarrow> bool" where
  step_load: "load_plugin env name path pm = (Ok u, pm') \<Longrightarrow> le_load env path = Ok l \<Longrightarrow>
    manager_step pm {#l#} pm'"
| step_instance: "load_plugin_instance_v2 env name path pm = (Ok u, pm') \<Longrightarrow> le_load env path = Ok l \<Longrightarrow>
    manager_step pm {#l#} pm'"
| step_failed: "load_plugin_instance_v2 env name path pm = (Err e, pm') \<Longrightarrow> manager_step pm {#} pm'"
| step_bootstrap: "manager_step pm {#} (snd (init_bootstrap_plugin init_fn debug name pm))"
| step_unload: "manager_step pm {#} (snd (unload_plugin name pm))"
| step_shutdown: "manager_step pm {#} (shutdown_all pm)"

text \<open>The managers that operations lead to, with all the loaders that were loaded on the way.\<close>

inductive manager_run :: "'l multiset \<Rightarrow> 'l PluginManager \<Rightarrow> bool" where
  run_new: "manager_run {#} PluginManager_new"
| run_step: "manager_run L pm \<Longrightarrow> manager_step pm N pm' \<Longrightarrow> manager_run (L + N) pm'"

definition accounted :: "'l PluginManager \<Rightarrow> 'l multiset" where
  "accounted pm = mset (map snd (loaded_plugins_v2 pm)) + mset (retired pm)"

abbreviation table_ok :: "'l PluginManager \<Rightarrow> bool" where
  "table_ok pm \<equiv> distinct (hm_keys (loaded_plugins_v2 pm))"

lemma mset_update:
  "distinct (hm_keys m) \<Longrightarrow> mset (map snd (hm_insert k v m)) + (case hm_get m k of None \<Rightarrow> {#} | Some old \<Rightarrow> {#old#})
     = add_mset v (mset (map snd m))"
  by (induction m) (auto split: option.splits)

lemma mset_delete:
  "distinct (hm_keys m) \<Longrightarrow> mset (map snd (AList.delete k m)) + (case hm_get m k of None \<Rightarrow> {#} | Some old \<Rightarrow> {#old#})
     = mset (map snd m)"
proof (induction m)
  case (Cons kv m)
  have "AList.delete k m = m" if "k \<notin> fst ` set m"
    using that by (induction m) auto
  with Cons show ?case
    by (auto simp: map_of_eq_None_iff [THEN iffD2] split: option.splits)
qed simp

lemma store_plugin_accounted:
  assumes "table_ok pm"
  shows "accounted (store_plugin n l pm) = add_mset l (accounted pm)" "table_ok (store_plugin n l pm)"
proof -
  show "accounted (store_plugin n l pm) = add_mset l (accounted pm)"
    using mset_update [OF assms, of n l]
    by (auto simp: accounted_def store_plugin_def split: option.splits)
  show "table_ok (store_plugin n l pm)" using assms by (simp add: store_plugin_def distinct_update)
qed

lemma unload_plugin_accounted:
  assumes "table_ok pm"
  shows "accounted (snd (unload_plugin n pm)) = accounted pm" "table_ok (snd (unload_plugin n pm))"
proof -
  show "accounted (snd (unload_plugin n pm)) = accounted pm"
    using mset_delete [OF assms, of n]
    by (cases "hm_get (loaded_plugins_v2 pm) n") (auto simp: accounted_def unload_plugin_def)
  show "table_ok (snd (unload_plugin n pm))"
    using assms by (auto simp: unload_plugin_def AList.delete_eq distinct_map_filter split: option.splits)
qed

lemma shutdown_accounted:
  assumes "table_ok pm"
  shows "accounted (foldl (\<lambda>pm name. snd (unload_plugin name pm)) pm ns) = accounted pm"
    "table_ok (foldl (\<lambda>pm name. snd (unload_plugin name pm)) pm ns)"
  using assms by (induction ns arbitrary: pm) (auto simp: unload_plugin_accounted)

lemma shutdown_names:
  "loaded_names (foldl (\<lambda>pm name. snd (unload_plugin name pm)) pm ns) = loaded_names pm - set ns"
  by (induction ns arbitrary: pm) (auto simp: host.unload_names)

lemma shutdown_all_empty: "loaded_plugins_v2 (shutdown_all pm) = []"
  using shutdown_names [of pm "manager_list_plugins pm"]
  by (simp add: shutdown_all_def manager_list_plugins_def loaded_names_def)

lemma accounted_other [simp]:
  "accounted (pm\<lparr>plugin_resources := x\<rparr>) = accounted pm" "accounted (pm\<lparr>rpc_heap := h\<rparr>) = accounted pm"
  "accounted (pm\<lparr>rpc_next := k\<rparr>) = accounted pm" "accounted (pm\<lparr>global_rpc := g\<rparr>) = accounted pm"
  by (simp_all add: accounted_def)

lemma manager_step_inv:
  assumes "manager_step pm N pm'" and "table_ok pm"
  shows "table_ok pm' \<and> accounted pm' = accounted pm + N"
  using assms
proof (cases rule: manager_step.cases)
  case (step_load env name path u l)
  then show ?thesis using assms(2) by (auto simp: load_plugin_def store_plugin_accounted)
next
  case (step_instance env name path u l)
  then show ?thesis using assms(2)
    by (cases rule: load_instance_cases [where env = env and name = name and path = path and pm = pm])
      (auto simp: store_plugin_accounted)
next
  case (step_failed env name path e)
  then show ?thesis using assms(2)
    by (cases rule: load_instance_cases [where env = env and name = name and path = path and pm = pm]) auto
next
  case (step_bootstrap init_fn debug name)
  then show ?thesis using assms(2)
    by (auto simp: init_bootstrap_plugin_def create_plugin_context_v2_def Let_def split: sum.split)
qed (simp_all add: unload_plugin_accounted shutdown_all_def shutdown_accounted assms(2))

lemma manager_run_inv: "manager_run L pm \<Longrightarrow> table_ok pm \<and> accounted pm = L"
  by (induction rule: manager_run.induct)
    (auto simp: PluginManager_new_def accounted_def [of "PluginManager_new", unfolded PluginManager_new_def]
      dest: manager_step_inv)

text \<open>(C14) No loader is lost or retired twice: in every run of the plugin manager, the loaders in the
  table and the retired ones are together exactly the loaders that were loaded; after a
  shutdown all of them are retired.\<close>

theorem manager_retires_once:
  assumes "manager_run L pm"
  shows "mset (map snd (loaded_plugins_v2 pm)) + mset (retired pm) = L
    \<and> loaded_plugins_v2 (shutdown_all pm) = [] \<and> mset (retired (shutdown_all pm)) = L"
proof -
  have "manager_run (L + {#}) (shutdown_all pm)" using assms step_shutdown by (rule run_step)
  then show ?thesis
    using manager_run_inv [OF assms] manager_run_inv [of L "shutdown_all pm"]
    by (simp add: accounted_def shutdown_all_empty)
qed

section \<open>Calls between plugins\<close>

lemma global_call_append:
  "global_call heap (xs @ ys) s p =
     (if global_call heap xs s p = Err ServiceUnavailable then global_call heap ys s p
      else global_call heap xs s p)"
  by (induction heap xs s p rule: global_call.induct) (auto split: sum.split)

lemma global_call_cong:
  "(\<And>n i. (n, i) \<in> set xs \<Longrightarrow> heap i = heap' i) \<Longrightarrow> global_call heap xs s p = global_call heap' xs s p"
proof (induction heap xs s p rule: global_call.induct)
  case (2 heap n i rs s p)
  have "heap i = heap' i" using 2(2) by auto
  moreover have "global_call heap rs s p = global_call heap' rs s p"
    if "rpc_call (heap i) s p = Err ServiceUnavailable"
    using that 2 by auto
  ultimately show ?case by (auto split: sum.split)
qed simp

text \<open>A call is answered by the plugin that registered first among those that offer the service.\<close>

lemma global_call_first:
  "global_call heap rs s p =
     (case List.find (\<lambda>(n, i). rpc_call (heap i) s p \<noteq> Err ServiceUnavailable) rs of
        None \<Rightarrow> Err ServiceUnavailable | Some (n, i) \<Rightarrow> rpc_call (heap i) s p)"
  by (induction heap rs s p rule: global_call.induct) (auto split: sum.split)

definition rpc_ok :: "'l PluginManager \<Rightarrow> bool" where
  "rpc_ok pm \<longleftrightarrow> list_all (\<lambda>(n, i). i < rpc_next pm) (global_rpc pm)"

lemma rpc_ok_new: "rpc_ok PluginManager_new"
  by (simp add: rpc_ok_def PluginManager_new_def)

text \<open>How an operation changes the registries: it may append one, never drop or change one.\<close>

lemma manager_step_rpc:
  assumes "manager_step pm N pm'" and "rpc_ok pm"
  shows "rpc_ok pm' \<and> (\<exists>rs. global_rpc pm' = global_rpc pm @ rs) \<and> (\<forall>i<rpc_next pm. rpc_heap pm' i = rpc_heap pm i)"
proof -
  have unload: "global_rpc (snd (unload_plugin n q)) = global_rpc q" "rpc_heap (snd (unload_plugin n q)) = rpc_heap q"
    "rpc_next (snd (unload_plugin n q)) = rpc_next q" for n and q :: "'a PluginManager"
    by (simp_all add: unload_plugin_def split: option.split)
  have shutdown: "global_rpc (foldl (\<lambda>pm n. snd (unload_plugin n pm)) q ns) = global_rpc q
      \<and> rpc_heap (foldl (\<lambda>pm n. snd (unload_plugin n pm)) q ns) = rpc_heap q
      \<and> rpc_next (foldl (\<lambda>pm n. snd (unload_plugin n pm)) q ns) = rpc_next q" for ns and q :: "'a PluginManager"
    by (induction ns arbitrary: q) (simp_all add: unload)
  show ?thesis
    using assms(1)
  proof (cases rule: manager_step.cases)
    case (step_load env name path u l)
    then show ?thesis using assms(2) by (auto simp: load_plugin_def store_plugin_def rpc_ok_def)
  next
    case (step_instance env name path u l)
    then show ?thesis using assms(2)
      by (cases rule: load_instance_cases [where env = env and name = name and path = path and pm = pm])
        (fastforce simp: rpc_ok_def list_all_iff store_plugin_def)+
  next
    case (step_failed env name path e)
    then show ?thesis using assms(2)
      by (cases rule: load_instance_cases [where env = env and name = name and path = path and pm = pm])
        (fastforce simp: rpc_ok_def list_all_iff)+
  next
    case (step_bootstrap init_fn debug name)
    then show ?thesis using assms(2)
      by (auto simp: init_bootstrap_plugin_def create_plugin_context_v2_def Let_def rpc_ok_def list_all_iff
          split: sum.split)
  qed (use assms(2) in \<open>simp_all add: unload shutdown shutdown_all_def rpc_ok_def\<close>)
qed

text \<open>Unloading or replacing a plugin does not withdraw its remote-call handlers: once a service
  answers, it keeps answering in the same way whatever plugins are loaded, replaced or
  unloaded afterwards, so that after a reload the handler of the old version, whose library is
  retired, is still the one that is called.\<close>

theorem rpc_answer_sticky:
  assumes "manager_run L pm" and "(\<lambda>p q. \<exists>N. manager_step p N q)\<^sup>*\<^sup>* pm pm'"
    and "call_service pm service params \<noteq> Err ServiceUnavailable"
  shows "call_service pm' service params = call_service pm service params"
proof -
  have ok: "rpc_ok pm" using assms(1)
    by (induction rule: manager_run.induct) (auto simp: rpc_ok_new dest: manager_step_rpc)
  have "rpc_ok pm' \<and> call_service pm' service params = call_service pm service params"
    using assms(2)
  proof (induction rule: rtranclp_induct)
    case (step q q')
    then obtain N where N: "manager_step q N q'" by blast
    from manager_step_rpc [OF N] step.IH obtain rs where q': "rpc_ok q'" "global_rpc q' = global_rpc q @ rs"
      "\<forall>i<rpc_next q. rpc_heap q' i = rpc_heap q i" by blast
    have "global_call (rpc_heap q') (global_rpc q) service params = call_service q service params"
      unfolding call_service_def using q'(3) step.IH
      by (intro global_call_cong) (auto simp: rpc_ok_def list_all_iff)
    then have "call_service q' service params = call_service q service params"
      using step.IH assms(3) by (simp add: call_service_def q'(2) global_call_append)
    with q'(1) step.IH show ?case by simp
  qed (use ok in simp)
  then show ?thesis by blast
qed

text \<open>A library whose handler answers with its own path.\<close>

definition echo_env :: "string LoadEnv" where
  "echo_env = \<lparr>le_load = Ok, le_info = (\<lambda>_. Ok ()), le_capabilities = (\<lambda>_. Ok ()),
     le_init = (\<lambda>l. Ok [(''version'', \<lparr>rpc_interface = None, rpc_idl = None, rpc_handler = (\<lambda>_. (Success, l))\<rparr>)])\<rparr>"

definition first_load :: "string PluginManager" where
  "first_load = snd (load_plugin_instance_v2 echo_env ''p'' ''v1'' PluginManager_new)"

definition reloaded :: "string PluginManager" where
  "reloaded = snd (load_plugin_instance_v2 echo_env ''p'' ''v2'' (snd (unload_plugin ''p'' first_load)))"

lemmas manager_eval = first_load_def reloaded_def echo_env_def load_plugin_instance_v2_def
  create_plugin_context_v2_def store_plugin_def unload_plugin_def PluginManager_new_def call_service_def
  rpc_call_def RpcRegistry_new_def

lemma first_load_run: "manager_run {#''v1''#} first_load"
proof -
  have "manager_step PluginManager_new {#''v1''#} first_load"
    by (rule step_instance [where env = echo_env and name = "''p''" and path = "''v1''"])
      (simp_all add: manager_eval)
  then show ?thesis using run_step [OF run_new] by fastforce
qed

theorem manager_retires_once_witness: "mset (retired (shutdown_all first_load)) = {#''v1''#}"
  using manager_retires_once [OF first_load_run] by simp

end
