(* ===== verification/Plugin_Lifecycle.thy ===== *)
theory Plugin_Lifecycle
  imports Local_Registry Plugin_Manager
begin

text \<open>
  The lifecycle of plugins, \<open>src/plugin_manager/lifecycle.rs\<close>: installation, activation, deactivation and
  removal, on top of the plugin manager and the local registry. Each operation is one step of the
  model.

  The file system, downloads, the archive functions of the packager and the loading pipeline are
  arguments, gathered in a record; so are the readings of the clock (\<open>ln_now env k\<close> is the \<open>k\<close>-th
  one of a call, \<open>ln_elapsed\<close> the duration that the call reports) and the texts that the derived \<open>Debug\<close>
  prints. Paths are Unix paths. Errors are their messages; the context added to an error replaces its
  message.
\<close>

section \<open>Data\<close>

datatype PluginStatus = Discovered | Downloading | Downloaded | Installing | Installed | Activating | Active
  | Deactivating | Deactivated | Uninstalling | StatusError string

fun PluginStatus_display :: "PluginStatus \<Rightarrow> string" where
  "PluginStatus_display Discovered = ''Discovered''"
| "PluginStatus_display Downloading = ''Downloading''"
| "PluginStatus_display Downloaded = ''Downloaded''"
| "PluginStatus_display Installing = ''Installing''"
| "PluginStatus_display Installed = ''Installed''"
| "PluginStatus_display Activating = ''Activating''"
| "PluginStatus_display Active = ''Active''"
| "PluginStatus_display Deactivating = ''Deactivating''"
| "PluginStatus_display Deactivated = ''Deactivated''"
| "PluginStatus_display Uninstalling = ''Uninstalling''"
| "PluginStatus_display (StatusError msg) = ''Error: '' @ msg"

record PluginState =
  ps_id :: string
  ps_name :: string
  ps_version :: string
  ps_status :: PluginStatus
  ps_artifact_path :: "string option"
  ps_install_path :: "string option"
  ps_dependencies :: "string list"
  ps_health_status :: "string option"
  ps_last_status_change :: int
  ps_error_message :: "string option"

record LifecycleConfig =
  lc_plugins_dir :: string
  lc_artifacts_dir :: string
  lc_data_dir :: string
  lc_auto_activate :: bool
  lc_verify_signatures :: bool
  lc_max_concurrent_installs :: usize
  lc_health_check_interval_secs :: u64
  lc_check_dependencies :: bool

definition LifecycleConfig_default :: LifecycleConfig where
  "LifecycleConfig_default = \<lparr>lc_plugins_dir = ''./plugins'', lc_artifacts_dir = ''./artifacts'',
     lc_data_dir = ''./data'', lc_auto_activate = False, lc_verify_signatures = True,
     lc_max_concurrent_installs = 3, lc_health_check_interval_secs = 60, lc_check_dependencies = True\<rparr>"

definition LifecycleConfig_new :: "string \<Rightarrow> LifecycleConfig" where
  "LifecycleConfig_new plugins_dir = LifecycleConfig_default
     \<lparr>lc_plugins_dir := plugins_dir, lc_artifacts_dir := path_join plugins_dir ''../artifacts'',
      lc_data_dir := path_join plugins_dir ''../data''\<rparr>"

definition with_auto_activate :: "LifecycleConfig \<Rightarrow> LifecycleConfig" where
  "with_auto_activate c = c\<lparr>lc_auto_activate := True\<rparr>"

definition without_signature_verification :: "LifecycleConfig \<Rightarrow> LifecycleConfig" where
  "without_signature_verification c = c\<lparr>lc_verify_signatures := False\<rparr>"

definition with_health_check_interval :: "u64 \<Rightarrow> LifecycleConfig \<Rightarrow> LifecycleConfig" where
  "with_health_check_interval secs c = c\<lparr>lc_health_check_interval_secs := secs\<rparr>"

record InstallationResult =
  ir_plugin_id :: string
  ir_success :: bool
  ir_install_path :: "string option"
  ir_error :: "string option"
  ir_duration_ms :: u64

record ActivationResult =
  ar_plugin_id :: string
  ar_success :: bool
  ar_resolved_dependencies :: "string list"
  ar_error :: "string option"
  ar_duration_ms :: u64

record DeactivationResult =
  dr_plugin_id :: string
  dr_success :: bool
  dr_error :: "string option"
  dr_duration_ms :: u64

record UninstallationResult =
  ur_plugin_id :: string
  ur_success :: bool
  ur_error :: "string option"
  ur_duration_ms :: u64

record 'l PluginLifecycleManager =
  lm_config :: LifecycleConfig
  lm_plugins :: "(string, PluginState) hashmap"
  lm_registry :: LocalRegistry
  lm_plugin_manager :: "'l PluginManager option"

text \<open>What extracting an archive returns: the directory, statistics, and the name and version from its
  manifest.
  A response to a download has its status (with whether that is a success) and its body. The
  pipeline returns whether it succeeded and the printed stage at which it failed.\<close>

record ExtractionResult =
  xr_plugin_dir :: string
  xr_files_extracted :: usize
  xr_directories_created :: usize
  xr_total_bytes :: u64
  xr_plugin_name :: string
  xr_plugin_version :: string

record HttpDownload =
  hd_is_success :: bool
  hd_status :: string
  hd_body :: "string + string"

record 'l LifecycleEnv =
  ln_create_dir_all :: "string \<Rightarrow> string + unit"
  ln_pipeline_new :: "string + unit"
  ln_verify_artifact :: "string \<Rightarrow> string + unit"
  ln_extract_artifact :: "string \<Rightarrow> string \<Rightarrow> string + ExtractionResult"
  ln_http_get :: "string \<Rightarrow> string + HttpDownload"
  ln_write :: "string \<Rightarrow> string \<Rightarrow> string + unit"
  ln_exists :: "string \<Rightarrow> bool"
  ln_read_dir :: "string \<Rightarrow> string + (string + string) list"
  ln_remove_dir_all :: "string \<Rightarrow> string + unit"
  ln_pipeline_load :: "string \<Rightarrow> string + (bool \<times> string)"
  ln_load :: "'l LoadEnv"
  ln_check_binary :: "string \<Rightarrow> string"
  ln_debug_path :: "string \<Rightarrow> string"
  ln_debug_list :: "string list \<Rightarrow> string"
  ln_show_int :: "int \<Rightarrow> string"
  ln_timestamp :: int
  ln_now :: "nat \<Rightarrow> int"
  ln_elapsed :: u64

section \<open>Operations\<close>

definition lifecycle_new :: "'l LifecycleEnv \<Rightarrow> LifecycleConfig \<Rightarrow> string + 'l PluginLifecycleManager" where
  "lifecycle_new env config =
     result_bind (map_err (\<lambda>_. ''Creating plugins directory: '' @ ln_debug_path env (lc_plugins_dir config))
         (ln_create_dir_all env (lc_plugins_dir config))) (\<lambda>_.
     result_bind (map_err (\<lambda>_. ''Creating artifacts directory: '' @ ln_debug_path env (lc_artifacts_dir config))
         (ln_create_dir_all env (lc_artifacts_dir config))) (\<lambda>_.
     result_bind (map_err (\<lambda>_. ''Creating data directory: '' @ ln_debug_path env (lc_data_dir config))
         (ln_create_dir_all env (lc_data_dir config))) (\<lambda>_.
     result_bind (ln_pipeline_new env) (\<lambda>_.
       Ok \<lparr>lm_config = config, lm_plugins = [], lm_registry = LocalRegistry_new, lm_plugin_manager = None\<rparr>))))"

definition set_plugin_manager :: "'l PluginManager \<Rightarrow> 'l PluginLifecycleManager \<Rightarrow> 'l PluginLifecycleManager" where
  "set_plugin_manager manager m = m\<lparr>lm_plugin_manager := Some manager\<rparr>"

text \<open>\<open>if let Some(state) = plugins.get_mut(id)\<close>\<close>

definition update_state :: "string \<Rightarrow> (PluginState \<Rightarrow> PluginState) \<Rightarrow> 'l PluginLifecycleManager
    \<Rightarrow> 'l PluginLifecycleManager" where
  "update_state plugin_id f m =
     (case hm_get (lm_plugins m) plugin_id of
        None \<Rightarrow> m
      | Some st \<Rightarrow> m\<lparr>lm_plugins := hm_insert plugin_id (f st) (lm_plugins m)\<rparr>)"

definition set_status :: "string \<Rightarrow> PluginStatus \<Rightarrow> int \<Rightarrow> 'l PluginLifecycleManager
    \<Rightarrow> 'l PluginLifecycleManager" where
  "set_status plugin_id status now =
     update_state plugin_id (\<lambda>st. st\<lparr>ps_status := status, ps_last_status_change := now\<rparr>)"

definition set_error :: "string \<Rightarrow> string \<Rightarrow> 'l PluginLifecycleManager \<Rightarrow> 'l PluginLifecycleManager" where
  "set_error plugin_id error =
     update_state plugin_id (\<lambda>st. st\<lparr>ps_status := StatusError error, ps_error_message := Some error\<rparr>)"

definition register_loaded_plugin :: "'l LifecycleEnv \<Rightarrow> string \<Rightarrow> string \<Rightarrow> 'l PluginLifecycleManager
    \<Rightarrow> 'l PluginLifecycleManager" where
  "register_loaded_plugin env plugin_id install_path m =
     m\<lparr>lm_plugins := hm_insert plugin_id
        \<lparr>ps_id = plugin_id, ps_name = plugin_id, ps_version = ''unknown'', ps_status = Active,
         ps_artifact_path = None, ps_install_path = Some install_path, ps_dependencies = [],
         ps_health_status = None, ps_last_status_change = ln_now env 0, ps_error_message = None\<rparr>
        (lm_plugins m)\<rparr>"

definition lm_install :: "'l LifecycleEnv \<Rightarrow> string \<Rightarrow> 'l PluginLifecycleManager
    \<Rightarrow> (string + InstallationResult) \<times> 'l PluginLifecycleManager" where
  "lm_install env artifact_path m =
     (case ln_verify_artifact env artifact_path of
        Err e \<Rightarrow>
          (Ok \<lparr>ir_plugin_id = [], ir_success = False, ir_install_path = None,
               ir_error = Some (''Artifact verification failed: '' @ e), ir_duration_ms = ln_elapsed env\<rparr>, m)
      | Ok _ \<Rightarrow>
     (case ln_extract_artifact env artifact_path (lc_plugins_dir (lm_config m)) of
        Err e \<Rightarrow> (Err ''Extracting artifact'', m)
      | Ok extract_result \<Rightarrow>
          (let plugin_id = xr_plugin_name extract_result;
               install_path = xr_plugin_dir extract_result;
               registry_entry = \<lparr>re_plugin_id = plugin_id, re_name = plugin_id,
                 re_version = xr_plugin_version extract_result, re_abi_version = ''2.0'',
                 re_description = Some (''Plugin '' @ plugin_id), re_author = None, re_license = None,
                 re_keywords = None, re_dependencies = None\<rparr>;
               state = \<lparr>ps_id = plugin_id, ps_name = plugin_id, ps_version = xr_plugin_version extract_result,
                 ps_status = Installed, ps_artifact_path = Some artifact_path,
                 ps_install_path = Some install_path, ps_dependencies = [], ps_health_status = None,
                 ps_last_status_change = ln_now env 0, ps_error_message = None\<rparr>
           in (Ok \<lparr>ir_plugin_id = plugin_id, ir_success = True, ir_install_path = Some install_path,
                   ir_error = None, ir_duration_ms = ln_elapsed env\<rparr>,
               m\<lparr>lm_registry := registry_register registry_entry (lm_registry m),
                 lm_plugins := hm_insert plugin_id state (lm_plugins m)\<rparr>))))"

definition install_from_url :: "'l LifecycleEnv \<Rightarrow> string \<Rightarrow> 'l PluginLifecycleManager
    \<Rightarrow> (string + InstallationResult) \<times> 'l PluginLifecycleManager" where
  "install_from_url env url m =
     (let filename = last (split_on CHR ''/'' url);
          artifact_path = path_join (lc_artifacts_dir (lm_config m)) filename;
          temp_id = ''download-'' @ ln_show_int env (ln_timestamp env);
          m1 = m\<lparr>lm_plugins := hm_insert temp_id
            \<lparr>ps_id = temp_id, ps_name = temp_id, ps_version = [], ps_status = Downloading,
             ps_artifact_path = Some artifact_path, ps_install_path = None, ps_dependencies = [],
             ps_health_status = None, ps_last_status_change = ln_now env 1, ps_error_message = None\<rparr>
            (lm_plugins m)\<rparr>
      in case ln_http_get env url of
           Err e \<Rightarrow> (Err (''Downloading from '' @ url), m1)
         | Ok response \<Rightarrow>
             if \<not> hd_is_success response
             then (Ok \<lparr>ir_plugin_id = [], ir_success = False, ir_install_path = None,
                       ir_error = Some (''Download failed with status: '' @ hd_status response),
                       ir_duration_ms = ln_elapsed env\<rparr>, m1)
             else
               (case hd_body response of
                  Err e \<Rightarrow> (Err ''Reading download content'', m1)
                | Ok body \<Rightarrow>
                    (case ln_write env artifact_path body of
                       Err e \<Rightarrow> (Err (''Writing artifact to '' @ ln_debug_path env artifact_path), m1)
                     | Ok _ \<Rightarrow> lm_install env artifact_path m1)))"

text \<open>\<open>Path::extension\<close>: after the last dot of the file name, unless that dot comes first.\<close>

definition path_extension :: "string \<Rightarrow> string option" where
  "path_extension p =
     (let parts = split_on CHR ''.'' (last (split_on CHR ''/'' p))
      in if length parts < 2 \<or> butlast parts = [[]] then None else Some (last parts))"

fun first_binary :: "(string + string) list \<Rightarrow> (string + string) option" where
  "first_binary [] = None"
| "first_binary (Inl e # es) = Some (Err e)"
| "first_binary (Inr p # es) =
     (case path_extension p of
        Some ext \<Rightarrow> if ext = ''so'' \<or> ext = ''dylib'' \<or> ext = ''dll'' then Some (Ok p) else first_binary es
      | None \<Rightarrow> first_binary es)"

definition find_plugin_binary :: "'l LifecycleEnv \<Rightarrow> string \<Rightarrow> string + string" where
  "find_plugin_binary env install_path =
     (case List.find (ln_exists env)
         (map (path_join install_path) [''plugin.so'', ''plugin.dylib'', ''plugin.dll'', ''libplugin.so'']) of
        Some binary_path \<Rightarrow> Ok binary_path
      | None \<Rightarrow>
          result_bind (ln_read_dir env install_path) (\<lambda>entries.
            (case first_binary entries of
               Some r \<Rightarrow> r
             | None \<Rightarrow> Err (''No plugin binary found in '' @ ln_debug_path env install_path))))"

text \<open>The loop over the dependencies: the first that is missing or not active is an error.\<close>

fun check_deps_active :: "(string, PluginState) hashmap \<Rightarrow> string list \<Rightarrow> string + string list" where
  "check_deps_active plugins [] = Ok []"
| "check_deps_active plugins (dep_id # deps) =
     (case hm_get plugins dep_id of
        Some dep_state \<Rightarrow>
          if ps_status dep_state \<noteq> Active then Err (''Dependency '' @ quoted dep_id @ '' is not active'')
          else result_bind (check_deps_active plugins deps) (\<lambda>ds. Ok (dep_id # ds))
      | None \<Rightarrow> Err (''Dependency '' @ quoted dep_id @ '' not found''))"

definition failed_activation :: "'l LifecycleEnv \<Rightarrow> string \<Rightarrow> string \<Rightarrow> ActivationResult" where
  "failed_activation env plugin_id error =
     \<lparr>ar_plugin_id = plugin_id, ar_success = False, ar_resolved_dependencies = [],
      ar_error = Some error, ar_duration_ms = ln_elapsed env\<rparr>"

text \<open>Loading the binary with the plugin manager, or with the pipeline when none is set.\<close>

definition activate_load :: "'l LifecycleEnv \<Rightarrow> string \<Rightarrow> string \<Rightarrow> string list \<Rightarrow> 'l PluginLifecycleManager
    \<Rightarrow> (string + ActivationResult) \<times> 'l PluginLifecycleManager" where
  "activate_load env plugin_id binary_path resolved_deps m =
     (let ok = Ok \<lparr>ar_plugin_id = plugin_id, ar_success = True, ar_resolved_dependencies = resolved_deps,
                  ar_error = None, ar_duration_ms = ln_elapsed env\<rparr>
      in case lm_plugin_manager m of
           Some pm \<Rightarrow>
             (case load_plugin_instance_v2 (ln_load env) plugin_id binary_path pm of
                (Err e, pm') \<Rightarrow>
                  (let error = ''Plugin manager load failed: '' @ e
                   in (Err error, set_error plugin_id error (m\<lparr>lm_plugin_manager := Some pm'\<rparr>)))
              | (Ok _, pm') \<Rightarrow>
                  (ok, set_status plugin_id Active (ln_now env 1) (m\<lparr>lm_plugin_manager := Some pm'\<rparr>)))
         | None \<Rightarrow>
             (case ln_pipeline_load env binary_path of
                Ok (success, failed_stage) \<Rightarrow>
                  if success then (ok, set_status plugin_id Active (ln_now env 1) m)
                  else (Ok (failed_activation env plugin_id ''Load failed''),
                        set_error plugin_id (''Load failed: '' @ failed_stage) m)
              | Err e \<Rightarrow>
                  (Ok (failed_activation env plugin_id e), set_error plugin_id (''Load error: '' @ e) m)))"

definition lm_activate :: "'l LifecycleEnv \<Rightarrow> string \<Rightarrow> 'l PluginLifecycleManager
    \<Rightarrow> (string + ActivationResult) \<times> 'l PluginLifecycleManager" where
  "lm_activate env plugin_id m =
     (case hm_get (lm_plugins m) plugin_id of
        None \<Rightarrow> (Err (''Plugin '' @ quoted plugin_id @ '' not found''), m)
      | Some state \<Rightarrow>
          if ps_status state = Active
          then (Ok \<lparr>ar_plugin_id = plugin_id, ar_success = True,
                    ar_resolved_dependencies = ps_dependencies state, ar_error = None, ar_duration_ms = 0\<rparr>, m)
          else
            (case ps_install_path state of
               None \<Rightarrow> (Err (''Plugin '' @ quoted plugin_id @ '' not installed''), m)
             | Some install_path \<Rightarrow>
                 (let dependencies = ps_dependencies state;
                      m1 = set_status plugin_id Activating (ln_now env 0) m
                  in case (if lc_check_dependencies (lm_config m) \<and> dependencies \<noteq> []
                           then check_deps_active (lm_plugins m1) dependencies else Ok []) of
                       Err error \<Rightarrow> (Ok (failed_activation env plugin_id error), set_error plugin_id error m1)
                     | Ok resolved_deps \<Rightarrow>
                         (case find_plugin_binary env install_path of
                            Err e \<Rightarrow> (Err e, m1)
                          | Ok binary_path \<Rightarrow> activate_load env plugin_id binary_path resolved_deps m1))))"

definition lm_deactivate :: "'l LifecycleEnv \<Rightarrow> string \<Rightarrow> 'l PluginLifecycleManager
    \<Rightarrow> (string + DeactivationResult) \<times> 'l PluginLifecycleManager" where
  "lm_deactivate env plugin_id m =
     (case hm_get (lm_plugins m) plugin_id of
        None \<Rightarrow> (Err (''Plugin '' @ quoted plugin_id @ '' not found''), m)
      | Some state \<Rightarrow>
          if ps_status state \<noteq> Active
          then (Ok \<lparr>dr_plugin_id = plugin_id, dr_success = True, dr_error = None, dr_duration_ms = 0\<rparr>, m)
          else
            (let dependents = map fst (filter (\<lambda>(_, s). plugin_id \<in> set (ps_dependencies s)
                                                   \<and> ps_status s = Active) (lm_plugins m));
                 m1 = set_status plugin_id Deactivating (ln_now env 0) m
             in if dependents \<noteq> []
                then (Ok \<lparr>dr_plugin_id = plugin_id, dr_success = False,
                          dr_error = Some (''Dependent plugins: '' @ ln_debug_list env dependents),
                          dr_duration_ms = ln_elapsed env\<rparr>,
                      set_error plugin_id (''Cannot deactivate: plugins '' @ ln_debug_list env dependents @
                        '' depend on it'') m1)
                else
                  (let m2 = (case lm_plugin_manager m1 of
                               None \<Rightarrow> m1
                             | Some pm \<Rightarrow> m1\<lparr>lm_plugin_manager := Some (snd (unload_plugin plugin_id pm))\<rparr>)
                   in (Ok \<lparr>dr_plugin_id = plugin_id, dr_success = True, dr_error = None,
                           dr_duration_ms = ln_elapsed env\<rparr>,
                       update_state plugin_id (\<lambda>st. st\<lparr>ps_status := Deactivated, ps_health_status := None,
                         ps_last_status_change := ln_now env 1\<rparr>) m2))))"

text \<open>Everything after the deactivation.\<close>

definition uninstall_files :: "'l LifecycleEnv \<Rightarrow> string \<Rightarrow> 'l PluginLifecycleManager
    \<Rightarrow> (string + UninstallationResult) \<times> 'l PluginLifecycleManager" where
  "uninstall_files env plugin_id m =
     (case hm_get (lm_plugins m) plugin_id of
        None \<Rightarrow> (Err (''Plugin '' @ quoted plugin_id @ '' not found''), m)
      | Some state \<Rightarrow>
          (let m1 = set_status plugin_id Uninstalling (ln_now env 2) m;
               removed = (case ps_install_path state of
                            None \<Rightarrow> Ok ()
                          | Some path \<Rightarrow>
                              if ln_exists env path
                              then map_err (\<lambda>_. ''Removing plugin directory: '' @ ln_debug_path env path)
                                     (ln_remove_dir_all env path)
                              else Ok ())
           in case removed of
                Err e \<Rightarrow> (Err e, m1)
              | Ok _ \<Rightarrow>
                  (Ok \<lparr>ur_plugin_id = plugin_id, ur_success = True, ur_error = None,
                       ur_duration_ms = ln_elapsed env\<rparr>,
                   m1\<lparr>lm_registry := registry_remove plugin_id (ps_version state) (lm_registry m1),
                      lm_plugins := AList.delete plugin_id (lm_plugins m1)\<rparr>)))"

definition lm_uninstall :: "'l LifecycleEnv \<Rightarrow> string \<Rightarrow> 'l PluginLifecycleManager
    \<Rightarrow> (string + UninstallationResult) \<times> 'l PluginLifecycleManager" where
  "lm_uninstall env plugin_id m =
     (case hm_get (lm_plugins m) plugin_id of
        Some state \<Rightarrow>
          if ps_status state = Active
          then (case lm_deactivate env plugin_id m of
                  (Err e, m1) \<Rightarrow> (Err e, m1)
                | (Ok _, m1) \<Rightarrow> uninstall_files env plugin_id m1)
          else uninstall_files env plugin_id m
      | None \<Rightarrow> uninstall_files env plugin_id m)"

definition health_check_all :: "'l LifecycleEnv \<Rightarrow> 'l PluginLifecycleManager \<Rightarrow> (string, string) hashmap" where
  "health_check_all env m =
     foldl (\<lambda>results (plugin_id, state).
       if ps_status state = Active
       then (case ps_install_path state of
               None \<Rightarrow> results
             | Some install_path \<Rightarrow>
                 (case find_plugin_binary env install_path of
                    Ok binary_path \<Rightarrow> hm_insert plugin_id (ln_check_binary env binary_path) results
                  | Err _ \<Rightarrow> results))
       else results) [] (lm_plugins m)"

definition get_state :: "string \<Rightarrow> 'l PluginLifecycleManager \<Rightarrow> PluginState option" where
  "get_state plugin_id m = hm_get (lm_plugins m) plugin_id"

definition lm_list_plugins :: "'l PluginLifecycleManager \<Rightarrow> PluginState list" where
  "lm_list_plugins m = map snd (lm_plugins m)"

definition get_plugins_by_status :: "PluginStatus \<Rightarrow> 'l PluginLifecycleManager \<Rightarrow> PluginState list" where
  "get_plugins_by_status status m = filter (\<lambda>s. ps_status s = status) (map snd (lm_plugins m))"

section \<open>Tracked, running and loaded plugins\<close>

definition tracked :: "'l PluginLifecycleManager \<Rightarrow> string set" where
  "tracked m = set (hm_keys (lm_plugins m))"

definition running :: "'l PluginLifecycleManager \<Rightarrow> string set" where
  "running m = {n. \<exists>st. get_state n m = Some st \<and> ps_status st = Active}"

definition loaded :: "'l PluginLifecycleManager \<Rightarrow> string set" where
  "loaded m = (case lm_plugin_manager m of None \<Rightarrow> {} | Some pm \<Rightarrow> loaded_names pm)"

text \<open>A plugin manager is set, a plugin runs exactly when it is loaded, and the tracked states are
  filed under their identifiers and have no dependencies, since no operation records any.\<close>

definition lm_inv :: "'l PluginLifecycleManager \<Rightarrow> bool" where
  "lm_inv m \<longleftrightarrow> lm_plugin_manager m \<noteq> None \<and> distinct (hm_keys (lm_plugins m))
     \<and> (\<forall>(n, st) \<in> set (lm_plugins m). ps_id st = n \<and> ps_dependencies st = [])
     \<and> running m = loaded m"

lemma tracked_iff: "n \<in> tracked m \<longleftrightarrow> (\<exists>st. get_state n m = Some st)"
  using map_of_eq_None_iff [of "lm_plugins m" n] by (auto simp: tracked_def get_state_def)

lemma running_iff: "get_state n m = Some st \<Longrightarrow> n \<in> running m \<longleftrightarrow> ps_status st = Active"
  by (simp add: running_def)

lemma lm_sel_simps [simp]:
  "running (m\<lparr>lm_plugin_manager := x\<rparr>) = running m" "running (m\<lparr>lm_registry := r\<rparr>) = running m"
  "tracked (m\<lparr>lm_plugin_manager := x\<rparr>) = tracked m" "tracked (m\<lparr>lm_registry := r\<rparr>) = tracked m"
  "loaded (m\<lparr>lm_plugins := ps\<rparr>) = loaded m" "loaded (m\<lparr>lm_registry := r\<rparr>) = loaded m"
  "loaded (m\<lparr>lm_plugin_manager := Some pm\<rparr>) = loaded_names pm"
  "get_state n (m\<lparr>lm_plugin_manager := x\<rparr>) = get_state n m" "get_state n (m\<lparr>lm_registry := r\<rparr>) = get_state n m"
  by (simp_all add: running_def loaded_def get_state_def tracked_def)

lemma insert_state:
  "tracked (m\<lparr>lm_plugins := hm_insert n st (lm_plugins m)\<rparr>) = insert n (tracked m)"
  "running (m\<lparr>lm_plugins := hm_insert n st (lm_plugins m)\<rparr>) =
     (if ps_status st = Active then insert n (running m) else running m - {n})"
  "get_state k (m\<lparr>lm_plugins := hm_insert n st (lm_plugins m)\<rparr>) = (if k = n then Some st else get_state k m)"
  by (auto simp: tracked_def running_def get_state_def dom_update update_conv')

lemma update_state_effect:
  assumes "get_state n m = Some st"
  shows "tracked (update_state n f m) = tracked m" "loaded (update_state n f m) = loaded m"
    "running (update_state n f m) = (if ps_status (f st) = Active then insert n (running m) else running m - {n})"
    "get_state k (update_state n f m) = (if k = n then Some (f st) else get_state k m)"
    "lm_config (update_state n f m) = lm_config m" "lm_plugin_manager (update_state n f m) = lm_plugin_manager m"
    "lm_registry (update_state n f m) = lm_registry m"
proof -
  have eq: "update_state n f m = m\<lparr>lm_plugins := hm_insert n (f st) (lm_plugins m)\<rparr>"
    using assms by (simp add: update_state_def get_state_def)
  have "n \<in> tracked m" using assms by (auto simp: tracked_iff)
  then show "tracked (update_state n f m) = tracked m" by (auto simp: eq insert_state(1))
qed (use assms in \<open>simp_all add: insert_state update_state_def get_state_def [symmetric]\<close>)

text \<open>The shape part of the invariant.\<close>

definition shape_ok :: "'l PluginLifecycleManager \<Rightarrow> bool" where
  "shape_ok m \<longleftrightarrow> lm_plugin_manager m \<noteq> None \<and> distinct (hm_keys (lm_plugins m))
     \<and> (\<forall>(n, st) \<in> set (lm_plugins m). ps_id st = n \<and> ps_dependencies st = [])"

lemma lm_inv_alt: "lm_inv m \<longleftrightarrow> shape_ok m \<and> running m = loaded m"
  by (auto simp: lm_inv_def shape_ok_def)

lemma shape_ok_get: "shape_ok m \<Longrightarrow> get_state n m = Some st \<Longrightarrow> ps_id st = n \<and> ps_dependencies st = []"
  by (auto simp: shape_ok_def get_state_def dest: map_of_SomeD)

lemma shape_ok_insert:
  "shape_ok m \<Longrightarrow> ps_id st = n \<Longrightarrow> ps_dependencies st = [] \<Longrightarrow>
     shape_ok (m\<lparr>lm_plugins := hm_insert n st (lm_plugins m)\<rparr>)"
  using set_update_subset [of n st "lm_plugins m"] by (fastforce simp: shape_ok_def distinct_update)

lemma shape_ok_update:
  assumes "shape_ok m" and "\<And>st. ps_id (f st) = ps_id st \<and> ps_dependencies (f st) = ps_dependencies st"
  shows "shape_ok (update_state n f m)"
  using assms shape_ok_get [OF assms(1), of n]
  by (auto simp: update_state_def get_state_def shape_ok_insert split: option.splits)

lemma shape_ok_registry [simp]: "shape_ok (m\<lparr>lm_registry := r\<rparr>) \<longleftrightarrow> shape_ok m"
  by (simp add: shape_ok_def)

lemma shape_ok_manager: "shape_ok m \<Longrightarrow> shape_ok (m\<lparr>lm_plugin_manager := Some pm\<rparr>)"
  by (simp add: shape_ok_def)

lemma set_status_effect:
  assumes "get_state n m = Some st"
  shows "tracked (set_status n s t m) = tracked m" "loaded (set_status n s t m) = loaded m"
    "running (set_status n s t m) = (if s = Active then insert n (running m) else running m - {n})"
    "get_state k (set_status n s t m) =
       (if k = n then Some (st\<lparr>ps_status := s, ps_last_status_change := t\<rparr>) else get_state k m)"
    "lm_config (set_status n s t m) = lm_config m" "lm_plugin_manager (set_status n s t m) = lm_plugin_manager m"
    "lm_registry (set_status n s t m) = lm_registry m"
  unfolding set_status_def by (simp_all add: update_state_effect [OF assms])

lemma set_error_effect:
  assumes "get_state n m = Some st"
  shows "tracked (set_error n e m) = tracked m" "loaded (set_error n e m) = loaded m"
    "running (set_error n e m) = running m - {n}"
    "get_state k (set_error n e m) =
       (if k = n then Some (st\<lparr>ps_status := StatusError e, ps_error_message := Some e\<rparr>) else get_state k m)"
    "lm_registry (set_error n e m) = lm_registry m"
  unfolding set_error_def by (simp_all add: update_state_effect [OF assms])

lemma shape_ok_status: "shape_ok m \<Longrightarrow> shape_ok (set_status n s t m)"
  unfolding set_status_def by (rule shape_ok_update) simp_all

lemma shape_ok_error: "shape_ok m \<Longrightarrow> shape_ok (set_error n e m)"
  unfolding set_error_def by (rule shape_ok_update) simp_all

section \<open>The effect of each operation\<close>

text \<open>Installing: a failure changes nothing; otherwise the plugin is tracked as installed, and
  registered with its version.\<close>

lemma lm_install_cases:
  assumes "shape_ok m"
  obtains (Failed) "snd (lm_install env art m) = m"
      and "isl (ln_verify_artifact env art) \<or> isl (ln_extract_artifact env art (lc_plugins_dir (lm_config m)))"
  | (Done) x m' where "ln_extract_artifact env art (lc_plugins_dir (lm_config m)) = Ok x"
      and "lm_install env art m = (Ok \<lparr>ir_plugin_id = xr_plugin_name x, ir_success = True,
          ir_install_path = Some (xr_plugin_dir x), ir_error = None, ir_duration_ms = ln_elapsed env\<rparr>, m')"
      and "shape_ok m'" and "loaded m' = loaded m" and "tracked m' = insert (xr_plugin_name x) (tracked m)"
      and "running m' = running m - {xr_plugin_name x}"
      and "registry_exists (lm_registry m') (xr_plugin_name x) (xr_plugin_version x)"
proof (cases "ln_verify_artifact env art")
  case (Inl e)
  then show ?thesis by (intro Failed) (simp_all add: lm_install_def)
next
  case v: (Inr u)
  show ?thesis
  proof (cases "ln_extract_artifact env art (lc_plugins_dir (lm_config m))")
    case (Inl e)
    with v show ?thesis by (intro Failed) (simp_all add: lm_install_def)
  next
    case (Inr x)
    let ?n = "xr_plugin_name x"
    obtain e st where res: "lm_install env art m = (Ok \<lparr>ir_plugin_id = ?n, ir_success = True,
          ir_install_path = Some (xr_plugin_dir x), ir_error = None, ir_duration_ms = ln_elapsed env\<rparr>,
          m\<lparr>lm_plugins := hm_insert ?n st (lm_plugins m)\<rparr>\<lparr>lm_registry := registry_register e (lm_registry m)\<rparr>)"
      and st: "ps_id st = ?n" "ps_dependencies st = []" "ps_status st = Installed"
        "re_name e = ?n" "re_version e = xr_plugin_version x"
      by (rule that [of
            "\<lparr>re_plugin_id = ?n, re_name = ?n, re_version = xr_plugin_version x, re_abi_version = ''2.0'',
              re_description = Some (''Plugin '' @ ?n), re_author = None, re_license = None,
              re_keywords = None, re_dependencies = None\<rparr>"
            "\<lparr>ps_id = ?n, ps_name = ?n, ps_version = xr_plugin_version x, ps_status = Installed,
              ps_artifact_path = Some art, ps_install_path = Some (xr_plugin_dir x), ps_dependencies = [],
              ps_health_status = None, ps_last_status_change = ln_now env 0, ps_error_message = None\<rparr>"])
        (simp_all add: lm_install_def v Inr Let_def)
    show ?thesis
      by (rule Done [OF Inr res])
        (simp_all add: insert_state shape_ok_insert assms st registry_exists_def registry_register_def update_conv')
  qed
qed

text \<open>Activating.\<close>

lemma activate_load_cases:
  assumes "get_state n m = Some st" and "lm_plugin_manager m = Some pm" and "shape_ok m"
  obtains (Loaded) res m' where "activate_load env n bin deps m = (Ok res, m')" and "ar_success res"
      and "shape_ok m'" and "tracked m' = tracked m" and "running m' = insert n (running m)"
      and "loaded m' = insert n (loaded m)" and "lm_registry m' = lm_registry m"
  | (Failed) e m' where "activate_load env n bin deps m = (Err e, m')"
      and "shape_ok m'" and "tracked m' = tracked m" and "running m' = running m - {n}"
      and "loaded m' = loaded m" and "get_state n m' = Some (st\<lparr>ps_status := StatusError e, ps_error_message := Some e\<rparr>)"
      and "lm_registry m' = lm_registry m"
proof -
  obtain r pm' where load: "load_plugin_instance_v2 (ln_load env) n bin pm = (r, pm')" by fastforce
  have names: "loaded_names pm' = (case r of Ok _ \<Rightarrow> insert n (loaded m) | Err _ \<Rightarrow> loaded m)"
    using host.load_names [of "ln_load env" n bin pm] by (cases r) (simp_all add: load assms(2) loaded_def)
  let ?m = "m\<lparr>lm_plugin_manager := Some pm'\<rparr>"
  have get: "get_state n ?m = Some st" using assms(1) by simp
  show ?thesis
  proof (cases r)
    case (Inl e)
    then show ?thesis
      using names
      by (intro Failed [of "''Plugin manager load failed: '' @ e"
            "set_error n (''Plugin manager load failed: '' @ e) ?m"])
        (simp_all add: activate_load_def load assms Let_def set_error_effect [OF get] shape_ok_error shape_ok_manager)
  next
    case (Inr u)
    then show ?thesis
      using names
      by (intro Loaded [of "\<lparr>ar_plugin_id = n, ar_success = True, ar_resolved_dependencies = deps,
              ar_error = None, ar_duration_ms = ln_elapsed env\<rparr>" "set_status n Active (ln_now env 1) ?m"])
        (simp_all add: activate_load_def load assms Let_def set_status_effect [OF get] shape_ok_status
          shape_ok_manager)
  qed
qed

lemma lm_activate_cases:
  assumes "lm_inv m"
  obtains (Same) "snd (lm_activate env n m) = m"
      and "(\<exists>e. fst (lm_activate env n m) = Err e) \<or> n \<in> running m"
  | (Loaded) res m' where "lm_activate env n m = (Ok res, m')" and "ar_success res"
      and "n \<in> tracked m" and "n \<notin> running m" and "shape_ok m'" and "tracked m' = tracked m"
      and "running m' = insert n (running m)" and "loaded m' = insert n (loaded m)"
  | (Failed) e m' where "lm_activate env n m = (Err e, m')"
      and "n \<in> tracked m" and "n \<notin> running m" and "shape_ok m'" and "tracked m' = tracked m"
      and "running m' = running m" and "loaded m' = loaded m"
proof (cases "get_state n m")
  case None
  then show ?thesis by (intro Same) (auto simp: lm_activate_def get_state_def [symmetric])
next
  case st: (Some st)
  have shape: "shape_ok m" and deps: "ps_dependencies st = []"
    using assms shape_ok_get [OF _ st] by (auto simp: lm_inv_alt)
  obtain pm where pm: "lm_plugin_manager m = Some pm" using assms by (auto simp: lm_inv_def)
  show ?thesis
  proof (cases "ps_status st = Active \<or> ps_install_path st = None")
    case True
    then show ?thesis
      using st running_iff [OF st] by (intro Same) (auto simp: lm_activate_def get_state_def [symmetric])
  next
    case False
    then obtain path where path: "ps_install_path st = Some path" and inactive: "ps_status st \<noteq> Active" by auto
    let ?m = "set_status n Activating (ln_now env 0) m"
    have nr: "n \<notin> running m" "n \<in> tracked m" using inactive running_iff [OF st] st by (auto simp: tracked_iff)
    have eq: "lm_activate env n m = (case find_plugin_binary env path of
        Err e \<Rightarrow> (Err e, ?m) | Ok bin \<Rightarrow> activate_load env n bin [] ?m)"
      using st path inactive deps by (simp add: lm_activate_def get_state_def [symmetric] Let_def)
    have m: "shape_ok ?m" "tracked ?m = tracked m" "running ?m = running m" "loaded ?m = loaded m"
      "lm_plugin_manager ?m = Some pm"
      using nr pm by (auto simp: shape_ok_status [OF shape] set_status_effect [OF st])
    have get: "get_state n ?m = Some (st\<lparr>ps_status := Activating, ps_last_status_change := ln_now env 0\<rparr>)"
      by (simp add: set_status_effect [OF st])
    show ?thesis
    proof (cases "find_plugin_binary env path")
      case (Inl e)
      then show ?thesis using m nr by (intro Failed [of e ?m]) (simp_all add: eq)
    next
      case (Inr bin)
      then have eq': "lm_activate env n m = activate_load env n bin [] ?m" by (simp add: eq)
      show ?thesis
        using get m(5,1)
      proof (cases rule: activate_load_cases [where env = env and bin = bin and deps = "[]"])
        case (Loaded res m')
        with m nr show ?thesis by (intro that(2) [of res m']) (simp_all add: eq')
      next
        case (Failed e m')
        with m nr show ?thesis by (intro that(3) [of e m']) (simp_all add: eq')
      qed
    qed
  qed
qed

text \<open>Deactivating: there are never dependents, so a running plugin is unloaded.\<close>

lemma no_dependents:
  "shape_ok m \<Longrightarrow> filter (\<lambda>(_, s). n \<in> set (ps_dependencies s) \<and> ps_status s = Active) (lm_plugins m) = []"
  by (auto simp: shape_ok_def filter_empty_conv)

lemma lm_deactivate_effect:
  assumes "lm_inv m"
  obtains res m' where "lm_deactivate env n m = (if n \<in> tracked m then Ok res else Err (''Plugin '' @ quoted n @ '' not found''), m')"
    and "dr_success res" and "shape_ok m'" and "tracked m' = tracked m" and "running m' = running m - {n}"
    and "loaded m' = loaded m - {n}" and "lm_registry m' = lm_registry m"
    and "map_option ps_install_path (get_state n m') = map_option ps_install_path (get_state n m)"
    and "map_option ps_version (get_state n m') = map_option ps_version (get_state n m)"
proof (cases "n \<in> running m")
  case False
  let ?res = "\<lparr>dr_plugin_id = n, dr_success = True, dr_error = None, dr_duration_ms = 0\<rparr>"
  have "lm_deactivate env n m = (if n \<in> tracked m then Ok ?res else Err (''Plugin '' @ quoted n @ '' not found''), m)"
    using False by (auto simp: lm_deactivate_def get_state_def [symmetric] tracked_iff running_def split: option.split)
  with False assms show ?thesis by (intro that [of ?res m]) (auto simp: lm_inv_alt)
next
  case True
  then obtain st where st: "get_state n m = Some st" "ps_status st = Active" by (auto simp: running_def)
  have shape: "shape_ok m" using assms by (simp add: lm_inv_alt)
  obtain pm where pm: "lm_plugin_manager m = Some pm" using assms by (auto simp: lm_inv_def)
  let ?m1 = "set_status n Deactivating (ln_now env 0) m"
  let ?m2 = "?m1\<lparr>lm_plugin_manager := Some (snd (unload_plugin n pm))\<rparr>"
  let ?f = "\<lambda>st. st\<lparr>ps_status := Deactivated, ps_health_status := None, ps_last_status_change := ln_now env 1\<rparr>"
  let ?res = "\<lparr>dr_plugin_id = n, dr_success = True, dr_error = None, dr_duration_ms = ln_elapsed env\<rparr>"
  note s1 = set_status_effect [OF st(1), where s = Deactivating and t = "ln_now env 0"]
  have get: "get_state n ?m2 = Some (st\<lparr>ps_status := Deactivating, ps_last_status_change := ln_now env 0\<rparr>)"
    by (simp add: s1)
  note s2 = update_state_effect [OF get, where f = ?f]
  have eq: "lm_deactivate env n m = (Ok ?res, update_state n ?f ?m2)"
    using st no_dependents [OF shape, of n] pm
    by (simp add: lm_deactivate_def get_state_def [symmetric] Let_def s1)
  have "shape_ok (update_state n ?f ?m2)"
    by (rule shape_ok_update) (simp_all add: shape_ok_manager shape_ok_status shape)
  moreover have "loaded (update_state n ?f ?m2) = loaded m - {n}"
    using host.unload_names [of n pm] pm by (simp add: s2 loaded_def [of m] del: One_nat_def)
  ultimately show ?thesis
    using st by (intro that [of ?res "update_state n ?f ?m2"]) (auto simp: eq s2 s1 tracked_iff simp del: One_nat_def)
qed

text \<open>Removing.\<close>

lemma uninstall_files_cases:
  assumes "shape_ok m" and "n \<notin> running m"
  obtains (Same) e where "uninstall_files env n m = (Err e, m)" and "n \<notin> tracked m"
  | (Failed) e m' where "uninstall_files env n m = (Err e, m')" and "n \<in> tracked m" and "shape_ok m'"
      and "tracked m' = tracked m" and "running m' = running m" and "loaded m' = loaded m"
      and "\<exists>st. get_state n m' = Some st \<and> ps_status st = Uninstalling"
  | (Done) res m' st where "uninstall_files env n m = (Ok res, m')" and "ur_success res" and "get_state n m = Some st"
      and "shape_ok m'" and "tracked m' = tracked m - {n}" and "running m' = running m" and "loaded m' = loaded m"
      and "lm_registry m' = registry_remove n (ps_version st) (lm_registry m)"
proof (cases "get_state n m")
  case None
  then show ?thesis by (intro Same) (auto simp: uninstall_files_def get_state_def [symmetric] tracked_iff)
next
  case (Some st)
  let ?m1 = "set_status n Uninstalling (ln_now env 2) m"
  let ?removed = "case ps_install_path st of None \<Rightarrow> Ok ()
      | Some path \<Rightarrow> if ln_exists env path
          then map_err (\<lambda>_. ''Removing plugin directory: '' @ ln_debug_path env path) (ln_remove_dir_all env path)
          else Ok ()"
  note s1 = set_status_effect [OF Some, where s = Uninstalling and t = "ln_now env 2"]
  have shape: "shape_ok ?m1" by (rule shape_ok_status [OF assms(1)])
  have tr: "n \<in> tracked m" using Some by (auto simp: tracked_iff)
  show ?thesis
  proof (cases ?removed)
    case (Inl e)
    then have "uninstall_files env n m = (Err e, ?m1)"
      using Some by (simp add: uninstall_files_def get_state_def [symmetric] Let_def)
    with tr assms(2) shape show ?thesis by (intro Failed [of e ?m1]) (simp_all add: s1)
  next
    case (Inr u)
    let ?m2 = "?m1\<lparr>lm_plugins := AList.delete n (lm_plugins ?m1)\<rparr>"
    let ?m' = "?m2\<lparr>lm_registry := registry_remove n (ps_version st) (lm_registry m)\<rparr>"
    have eq: "uninstall_files env n m = (Ok \<lparr>ur_plugin_id = n, ur_success = True, ur_error = None,
        ur_duration_ms = ln_elapsed env\<rparr>, ?m')"
      using Some Inr by (simp add: uninstall_files_def get_state_def [symmetric] Let_def s1)
    have get: "get_state k ?m' = (if k = n then None else get_state k ?m1)" for k
      by (simp add: get_state_def delete_conv')
    have "k \<in> tracked ?m' \<longleftrightarrow> k \<in> tracked ?m1 - {n}" for k
      unfolding Diff_iff tracked_iff get by auto
    then have "tracked ?m' = tracked m - {n}" unfolding s1(1) by blast
    moreover have "k \<in> running ?m' \<longleftrightarrow> k \<in> running ?m1 - {n}" for k
      unfolding Diff_iff running_def mem_Collect_eq get by auto
    then have "running ?m' = running m" unfolding s1(3) using assms(2) by auto
    moreover have "loaded ?m' = loaded m" using s1(2) by simp
    moreover have "shape_ok ?m'"
      using shape by (auto simp: shape_ok_def AList.delete_eq distinct_map_filter)
    ultimately show ?thesis using Some by (intro Done [OF eq]) simp_all
  qed
qed

lemma lm_uninstall_cases:
  assumes "lm_inv m"
  obtains (Failed) e m' where "lm_uninstall env n m = (Err e, m')" and "shape_ok m'"
      and "tracked m' = tracked m" and "running m' = running m - {n}" and "loaded m' = loaded m - {n}"
  | (Done) res m' st where "lm_uninstall env n m = (Ok res, m')" and "ur_success res" and "get_state n m = Some st"
      and "shape_ok m'" and "tracked m' = tracked m - {n}" and "running m' = running m - {n}"
      and "loaded m' = loaded m - {n}" and "lm_registry m' = registry_remove n (ps_version st) (lm_registry m)"
proof -
  have eq: "running m = loaded m" and shape: "shape_ok m" using assms by (auto simp: lm_inv_alt)
  show ?thesis
  proof (cases "n \<in> running m")
    case True
    then obtain s where s: "get_state n m = Some s" "ps_status s = Active" by (auto simp: running_def)
    obtain res m1 where d: "lm_deactivate env n m = (Ok res, m1)" "shape_ok m1" "tracked m1 = tracked m"
      "running m1 = running m - {n}" "loaded m1 = loaded m - {n}" "lm_registry m1 = lm_registry m"
      "map_option ps_version (get_state n m1) = map_option ps_version (get_state n m)"
      by (rule lm_deactivate_effect [OF assms, of env n]) (use s in \<open>auto simp: tracked_iff\<close>)
    have u: "lm_uninstall env n m = uninstall_files env n m1"
      using s d(1) by (simp add: lm_uninstall_def get_state_def [symmetric])
    have nr: "n \<notin> running m1" by (simp add: d)
    show ?thesis
      using d(2) nr
    proof (cases rule: uninstall_files_cases [where env = env])
      case (Same e)
      then show ?thesis using d by (intro Failed [of e m1]) (simp_all add: u)
    next
      case (Failed e m')
      then show ?thesis using d by (intro that(1) [of e m']) (simp_all add: u)
    next
      case (Done res m' st)
      with d s show ?thesis by (intro that(2) [of res m' s]) (simp_all add: u)
    qed
  next
    case False
    then have u: "lm_uninstall env n m = uninstall_files env n m"
      by (auto simp: lm_uninstall_def get_state_def [symmetric] running_def split: option.splits)
    have nl: "n \<notin> loaded m" using False eq by simp
    show ?thesis
      using shape False
    proof (cases rule: uninstall_files_cases [where env = env])
      case (Same e)
      then show ?thesis using shape False nl by (intro Failed [of e m]) (simp_all add: u)
    next
      case (Failed e m')
      then show ?thesis using False nl by (intro that(1) [of e m']) (simp_all add: u)
    next
      case (Done res m' st)
      then show ?thesis using False nl by (intro that(2) [of res m' st]) (simp_all add: u)
    qed
  qed
qed

section \<open>Runs\<close>

text \<open>The operations in any order, under one discipline: an archive is not installed over a running
  plugin of the same name, and the name made up for a download is not that of a running plugin. The
  main program may also load a plugin with the plugin manager and then register it.\<close>

inductive lifecycle_step :: "'l PluginLifecycleManager \<Rightarrow> 'l PluginLifecycleManager \<Rightarrow> bool" where
  step_install: "(\<And>x. ln_extract_artifact env art (lc_plugins_dir (lm_config m)) = Ok x \<Longrightarrow>
      xr_plugin_name x \<notin> running m) \<Longrightarrow> lifecycle_step m (snd (lm_install env art m))"
| step_install_url: "''download-'' @ ln_show_int env (ln_timestamp env) \<notin> running m \<Longrightarrow>
    (\<And>art x. ln_extract_artifact env art (lc_plugins_dir (lm_config m)) = Ok x \<Longrightarrow>
      xr_plugin_name x \<notin> running m) \<Longrightarrow> lifecycle_step m (snd (install_from_url env url m))"
| step_activate: "lifecycle_step m (snd (lm_activate env n m))"
| step_deactivate: "lifecycle_step m (snd (lm_deactivate env n m))"
| step_uninstall: "lifecycle_step m (snd (lm_uninstall env n m))"
| step_host: "lm_plugin_manager m = Some pm \<Longrightarrow>
    load_plugin_instance_v2 (ln_load env) n bin pm = (Ok u, pm') \<Longrightarrow>
    lifecycle_step m (register_loaded_plugin env n path (m\<lparr>lm_plugin_manager := Some pm'\<rparr>))"

inductive lifecycle_run :: "'l PluginLifecycleManager \<Rightarrow> bool" where
  run_start: "lifecycle_new env config = Ok m \<Longrightarrow> lifecycle_run (set_plugin_manager PluginManager_new m)"
| run_more: "lifecycle_run m \<Longrightarrow> lifecycle_step m m' \<Longrightarrow> lifecycle_run m'"

lemma install_inv:
  assumes "lm_inv m"
    and "\<And>x. ln_extract_artifact env art (lc_plugins_dir (lm_config m)) = Ok x \<Longrightarrow> xr_plugin_name x \<notin> running m"
  shows "lm_inv (snd (lm_install env art m))"
proof -
  have shape: "shape_ok m" and eq: "running m = loaded m" using assms(1) by (auto simp: lm_inv_alt)
  show ?thesis
    using shape
  proof (cases rule: lm_install_cases [where env = env and art = art])
    case (Done x m')
    then show ?thesis using assms(2) [of x] eq by (simp add: lm_inv_alt)
  qed (use assms(1) in simp)
qed

lemma download_inv:
  assumes "lm_inv m" and "ps_id st = n" and "ps_dependencies st = []" and "ps_status st \<noteq> Active" and "n \<notin> running m"
  shows "lm_inv (m\<lparr>lm_plugins := hm_insert n st (lm_plugins m)\<rparr>)"
    "running (m\<lparr>lm_plugins := hm_insert n st (lm_plugins m)\<rparr>) = running m"
  using assms by (auto simp: lm_inv_alt insert_state shape_ok_insert)

lemma install_from_url_inv:
  assumes "lm_inv m" and "''download-'' @ ln_show_int env (ln_timestamp env) \<notin> running m"
    and "\<And>art x. ln_extract_artifact env art (lc_plugins_dir (lm_config m)) = Ok x \<Longrightarrow> xr_plugin_name x \<notin> running m"
  shows "lm_inv (snd (install_from_url env url m))"
proof -
  let ?n = "''download-'' @ ln_show_int env (ln_timestamp env)"
  let ?art = "path_join (lc_artifacts_dir (lm_config m)) (last (split_on CHR ''/'' url))"
  let ?st = "\<lparr>ps_id = ?n, ps_name = ?n, ps_version = [], ps_status = Downloading,
             ps_artifact_path = Some ?art, ps_install_path = None, ps_dependencies = [],
             ps_health_status = None, ps_last_status_change = ln_now env 1, ps_error_message = None\<rparr>"
  let ?m1 = "m\<lparr>lm_plugins := hm_insert ?n ?st (lm_plugins m)\<rparr>"
  have m1: "lm_inv ?m1" "running ?m1 = running m"
    by (rule download_inv [OF assms(1) _ _ _ assms(2)]; simp)+
  have "lm_inv (snd (lm_install env ?art ?m1))"
    by (rule install_inv [OF m1(1)]) (use assms(3) m1(2) in simp)
  with m1(1) show ?thesis
    unfolding install_from_url_def Let_def by (auto split: sum.split)
qed

lemma register_loaded_effect:
  "running (register_loaded_plugin env n path m) = insert n (running m)"
  "loaded (register_loaded_plugin env n path m) = loaded m"
  "shape_ok m \<Longrightarrow> shape_ok (register_loaded_plugin env n path m)"
  by (simp_all add: register_loaded_plugin_def insert_state shape_ok_insert)

lemma lifecycle_step_inv:
  assumes "lifecycle_step m m'" and "lm_inv m"
  shows "lm_inv m'"
  using assms(1)
proof (cases rule: lifecycle_step.cases)
  case (step_install env art)
  then show ?thesis using install_inv [OF assms(2)] by simp
next
  case (step_install_url env url)
  then show ?thesis using install_from_url_inv [OF assms(2)] by simp
next
  case (step_activate env n)
  show ?thesis
    using assms(2)
  proof (cases rule: lm_activate_cases [where env = env and n = n])
    case (Loaded res m1)
    then show ?thesis using assms(2) step_activate by (simp add: lm_inv_alt)
  next
    case (Failed e m1)
    then show ?thesis using assms(2) step_activate by (simp add: lm_inv_alt)
  qed (use assms(2) step_activate in simp)
next
  case (step_deactivate env n)
  then show ?thesis
    by - (rule lm_deactivate_effect [OF assms(2), of env n], use assms(2) in \<open>auto simp: lm_inv_alt\<close>)
next
  case (step_uninstall env n)
  show ?thesis
    using assms(2) by (cases rule: lm_uninstall_cases [where env = env and n = n])
      (use assms(2) step_uninstall in \<open>simp_all add: lm_inv_alt\<close>)
next
  case (step_host pm env n bin u pm' path)
  have "loaded_names pm' = insert n (loaded m)"
    using host.load_names [of "ln_load env" n bin pm] step_host by (simp add: loaded_def)
  moreover have "shape_ok (m\<lparr>lm_plugin_manager := Some pm'\<rparr>)"
    using assms(2) by (simp add: lm_inv_alt shape_ok_manager)
  ultimately show ?thesis
    using assms(2) by (auto simp: lm_inv_alt step_host(1) register_loaded_effect)
qed

lemma lifecycle_start_inv: "lifecycle_new env config = Ok m \<Longrightarrow> lm_inv (set_plugin_manager PluginManager_new m)"
  by (auto simp: lifecycle_new_def lm_inv_def set_plugin_manager_def running_def get_state_def loaded_def
      loaded_names_def PluginManager_new_def)

lemma lifecycle_run_inv: "lifecycle_run m \<Longrightarrow> lm_inv m"
  by (induction rule: lifecycle_run.induct) (auto simp: lifecycle_start_inv intro: lifecycle_step_inv)

text \<open>(C12) In every run of the lifecycle manager, under the discipline of \<open>lifecycle_step\<close>, a plugin has the
  status \<open>Active\<close> exactly when the plugin manager has it loaded; and no tracked plugin ever has
  dependencies, so that the checks on dependencies and dependents are never reached.\<close>

theorem lifecycle_active_loaded:
  assumes "lifecycle_run m"
  shows "((case get_state n m of Some st \<Rightarrow> ps_status st = Active | None \<Rightarrow> False)
      \<longleftrightarrow> (case lm_plugin_manager m of Some pm \<Rightarrow> n \<in> loaded_names pm | None \<Rightarrow> False))
    \<and> list_all (\<lambda>(n, st). ps_id st = n \<and> ps_dependencies st = []) (lm_plugins m)"
proof (intro conjI)
  have inv: "lm_inv m" by (rule lifecycle_run_inv [OF assms])
  then show "list_all (\<lambda>(n, st). ps_id st = n \<and> ps_dependencies st = []) (lm_plugins m)"
    by (auto simp: lm_inv_def list_all_iff)
  have "n \<in> running m \<longleftrightarrow> n \<in> loaded m" using inv by (simp add: lm_inv_def)
  then show "(case get_state n m of Some st \<Rightarrow> ps_status st = Active | None \<Rightarrow> False)
      \<longleftrightarrow> (case lm_plugin_manager m of Some pm \<Rightarrow> n \<in> loaded_names pm | None \<Rightarrow> False)"
    by (auto simp: running_def loaded_def split: option.split)
qed

text \<open>What the operations do, when running plugins are the loaded ones: a successful activation adds
  the plugin to the running and loaded ones and a failed one leaves both as they were; a
  deactivation removes it from both, a removal too; a successful removal also stops tracking
  it and withdraws its registry entry. Other plugins are never affected.\<close>

theorem lifecycle_operations:
  assumes "lm_inv m"
  shows "(case lm_activate env n m of (r, m') \<Rightarrow>
      tracked m' = tracked m \<and> running m' = loaded m' \<and>
      running m' = (case r of Ok res \<Rightarrow> if ar_success res then insert n (running m) else running m
                     | Err _ \<Rightarrow> running m))
    \<and> (case lm_deactivate env n m of (r, m') \<Rightarrow>
      tracked m' = tracked m \<and> running m' = running m - {n} \<and> loaded m' = running m - {n}
      \<and> (isl r \<longleftrightarrow> n \<notin> tracked m))
    \<and> (case lm_uninstall env n m of (r, m') \<Rightarrow>
      running m' = running m - {n} \<and> loaded m' = running m - {n} \<and>
      (case r of Ok _ \<Rightarrow> tracked m' = tracked m - {n}
           \<and> (\<exists>st. get_state n m = Some st \<and> \<not> registry_exists (lm_registry m') n (ps_version st))
       | Err _ \<Rightarrow> tracked m' = tracked m))"
proof (intro conjI)
  have eq: "running m = loaded m" using assms by (simp add: lm_inv_def)
  show "case lm_activate env n m of (r, m') \<Rightarrow>
      tracked m' = tracked m \<and> running m' = loaded m' \<and>
      running m' = (case r of Ok res \<Rightarrow> if ar_success res then insert n (running m) else running m
                     | Err _ \<Rightarrow> running m)"
    using assms
  proof (cases rule: lm_activate_cases [where env = env and n = n])
    case Same
    then show ?thesis using eq by (cases "lm_activate env n m") (auto split: sum.split)
  qed (use eq in simp_all)
  show "case lm_deactivate env n m of (r, m') \<Rightarrow>
      tracked m' = tracked m \<and> running m' = running m - {n} \<and> loaded m' = running m - {n}
      \<and> (isl r \<longleftrightarrow> n \<notin> tracked m)"
    by (rule lm_deactivate_effect [OF assms, of env n]) (use eq in auto)
  show "case lm_uninstall env n m of (r, m') \<Rightarrow>
      running m' = running m - {n} \<and> loaded m' = running m - {n} \<and>
      (case r of Ok _ \<Rightarrow> tracked m' = tracked m - {n}
           \<and> (\<exists>st. get_state n m = Some st \<and> \<not> registry_exists (lm_registry m') n (ps_version st))
       | Err _ \<Rightarrow> tracked m' = tracked m)"
    using assms by (cases rule: lm_uninstall_cases [where env = env and n = n])
      (use eq in \<open>auto simp: registry_exists_def registry_remove_def delete_conv'\<close>)
qed

text \<open>Without the discipline plugins stay loaded for ever: installing an archive over a running
  plugin marks it as installed although it stays loaded; then deactivating it does nothing and reports
  success, and uninstalling it leaves it loaded, also when its files are removed.\<close>

theorem reinstall_leaves_loaded:
  assumes "lm_inv m" and "n \<in> running m"
    and "ln_verify_artifact env art = Ok ()"
    and "ln_extract_artifact env art (lc_plugins_dir (lm_config m)) = Ok x" and "xr_plugin_name x = n"
  shows "let m1 = snd (lm_install env art m) in n \<notin> running m1 \<and> n \<in> loaded m1
      \<and> snd (lm_deactivate env' n m1) = m1 \<and> \<not> isl (fst (lm_deactivate env' n m1))
      \<and> n \<in> loaded (snd (lm_uninstall env' n m1))"
proof -
  have shape: "shape_ok m" and eq: "running m = loaded m" using assms(1) by (auto simp: lm_inv_alt)
  let ?m1 = "snd (lm_install env art m)"
  obtain m1 where m1: "?m1 = m1" "shape_ok m1" "loaded m1 = loaded m" "n \<in> tracked m1" "n \<notin> running m1"
    using shape
  proof (cases rule: lm_install_cases [where env = env and art = art])
    case Failed
    with assms(3,4) show ?thesis by simp
  next
    case (Done y m')
    with assms show ?thesis by (intro that [of m']) auto
  qed
  then obtain st where st: "get_state n m1 = Some st" "ps_status st \<noteq> Active"
    by (auto simp: tracked_iff running_def)
  have "n \<in> loaded (snd (uninstall_files env' n m1))"
    using m1(2,5) by (cases rule: uninstall_files_cases [where env = env']) (use assms(2) m1(3) eq in simp_all)
  with st m1 assms(2) eq show ?thesis
    by (simp add: lm_deactivate_def lm_uninstall_def get_state_def [symmetric])
qed

section \<open>An example run\<close>

text \<open>A file system in which every archive holds version 1.0.0 of the plugin \<open>p\<close>, and every library loads.\<close>

definition demo_env :: "string LifecycleEnv" where
  "demo_env = \<lparr>ln_create_dir_all = (\<lambda>_. Ok ()), ln_pipeline_new = Ok (), ln_verify_artifact = (\<lambda>_. Ok ()),
     ln_extract_artifact = (\<lambda>_ dir. Ok \<lparr>xr_plugin_dir = dir @ ''/p'', xr_files_extracted = 1,
       xr_directories_created = 0, xr_total_bytes = 1, xr_plugin_name = ''p'', xr_plugin_version = ''1.0.0''\<rparr>),
     ln_http_get = (\<lambda>_. Err ''offline''), ln_write = (\<lambda>_ _. Ok ()), ln_exists = (\<lambda>_. True),
     ln_read_dir = (\<lambda>_. Ok []), ln_remove_dir_all = (\<lambda>_. Ok ()), ln_pipeline_load = (\<lambda>_. Err ''unused''),
     ln_load = echo_env, ln_check_binary = (\<lambda>_. ''ok''), ln_debug_path = id, ln_debug_list = concat,
     ln_show_int = (\<lambda>_. ''0''), ln_timestamp = 0, ln_now = int, ln_elapsed = 0\<rparr>"

definition demo_start :: "string PluginLifecycleManager" where
  "demo_start = \<lparr>lm_config = LifecycleConfig_default, lm_plugins = [], lm_registry = LocalRegistry_new,
     lm_plugin_manager = Some PluginManager_new\<rparr>"

definition demo_installed :: "string PluginLifecycleManager" where
  "demo_installed = snd (lm_install demo_env ''p.tar.gz'' demo_start)"

definition demo_active :: "string PluginLifecycleManager" where
  "demo_active = snd (lm_activate demo_env ''p'' demo_installed)"

lemma demo_run: "lifecycle_run demo_active"
proof -
  have "lifecycle_new demo_env LifecycleConfig_default = Ok (demo_start\<lparr>lm_plugin_manager := None\<rparr>)"
    by (simp add: lifecycle_new_def demo_env_def demo_start_def)
  from run_start [OF this] have "lifecycle_run demo_start"
    by (simp add: set_plugin_manager_def demo_start_def)
  moreover have "lifecycle_step demo_start demo_installed"
    unfolding demo_installed_def
    by (rule step_install) (simp add: demo_start_def running_def get_state_def)
  moreover have "lifecycle_step demo_installed demo_active"
    unfolding demo_active_def by (rule step_activate)
  ultimately show ?thesis by (meson run_more)
qed

lemma demo_active_running: "''p'' \<in> running demo_active"
proof -
  have "lm_plugins demo_start = []" "lm_config demo_start = LifecycleConfig_default"
    "lm_plugin_manager demo_start = Some PluginManager_new" by (simp_all add: demo_start_def)
  moreover have "find_plugin_binary demo_env d = Ok (path_join d ''plugin.so'')" for d
    by (simp add: find_plugin_binary_def demo_env_def)
  ultimately show ?thesis
    by (simp add: running_def get_state_def demo_active_def demo_installed_def lm_install_def lm_activate_def
        set_status_def update_state_def activate_load_def demo_env_def Let_def load_plugin_instance_v2_def echo_env_def
        create_plugin_context_v2_def)
qed

theorem lifecycle_active_loaded_witness:
  "case lm_plugin_manager demo_active of Some pm \<Rightarrow> ''p'' \<in> loaded_names pm | None \<Rightarrow> False"
  using lifecycle_active_loaded [OF demo_run, of "''p''"] demo_active_running
  by (auto simp: running_def)

end
