(* ===== verification/Hot_Reload.thy ===== *)
theory Hot_Reload
  imports Plugin_Lifecycle
begin

text \<open>
  The hot-reload service, \<open>src/plugin_manager/hot_reload.rs\<close>: watching of plugin files, debouncing of
  changes, and the reload of one plugin by deactivating and activating it again, with a second
  activation as rollback; and the placeholders of \<open>src/plugin_manager/dynamic_reload.rs\<close>.

  The service owns the lifecycle manager of \<open>Plugin_Lifecycle\<close>. A reload calls it up to three times, and
  the file system and the loader may answer differently each time, so that a reload takes the
  environments of its calls as a function of their number. Instants are natural numbers of
  nanoseconds. The broadcast channel is the list of the events sent, the latest last. What the file watcher
  returns is an argument; the watcher itself is the list of the paths it watches.
\<close>

section \<open>Data\<close>

record HotReloadConfig =
  hc_enabled :: bool
  hc_debounce_ms :: u64
  hc_serialization_timeout_ms :: u64
  hc_reload_timeout_ms :: u64
  hc_auto_reload :: bool
  hc_watch_patterns :: "string list"
  hc_exclude_dirs :: "string list"
  hc_max_retries :: u32
  hc_retry_delay_ms :: u64
  hc_rollback_enabled :: bool
  hc_backup_dir :: string

definition HotReloadConfig_default :: HotReloadConfig where
  "HotReloadConfig_default = \<lparr>hc_enabled = False, hc_debounce_ms = 500, hc_serialization_timeout_ms = 5000,
     hc_reload_timeout_ms = 30000, hc_auto_reload = True,
     hc_watch_patterns = [''*.so'', ''*.dylib'', ''*.dll''], hc_exclude_dirs = [''.git'', ''target'', ''build''],
     hc_max_retries = 3, hc_retry_delay_ms = 1000, hc_rollback_enabled = True,
     hc_backup_dir = ''./plugins/.backup''\<rparr>"

record PluginStateSnapshot =
  sn_plugin_id :: string
  sn_state_data :: string
  sn_timestamp :: int
  sn_plugin_version :: string
  sn_checksum :: string

record HotReloadResult =
  hrr_plugin_id :: string
  hrr_success :: bool
  hrr_old_version :: "string option"
  hrr_new_version :: "string option"
  hrr_state_preserved :: bool
  hrr_duration_ms :: u64
  hrr_error :: "string option"
  hrr_rolled_back :: bool

datatype HotReloadEvent =
    FileChanged string string
  | ReloadStarted string
  | StateSerialized string nat
  | ReloadCompleted string HotReloadResult
  | ReloadFailed string string
  | RollbackPerformed string string

record PendingChange =
  pc_plugin_id :: string
  pc_path :: string
  pc_last_seen :: nat

record 'l HotReloadService =
  hr_config :: HotReloadConfig
  hr_lifecycle :: "'l PluginLifecycleManager"
  hr_snapshots :: "(string, PluginStateSnapshot) hashmap"
  hr_pending :: "(string, PendingChange) hashmap"
  hr_events :: "HotReloadEvent list"
  hr_watched_paths :: "(string, string) hashmap"
  hr_plugin_paths :: "(string, string) hashmap"
  hr_running :: bool
  hr_watcher :: "string list option"

record 'l ReloadEnv =
  hn_call :: "nat \<Rightarrow> 'l LifecycleEnv"
  hn_rfc3339 :: string
  hn_snapshot_time :: int
  hn_elapsed :: u64

definition HotReloadService_new :: "HotReloadConfig \<Rightarrow> 'l PluginLifecycleManager \<Rightarrow> 'l HotReloadService" where
  "HotReloadService_new config lifecycle_manager =
     \<lparr>hr_config = config, hr_lifecycle = lifecycle_manager, hr_snapshots = [], hr_pending = [], hr_events = [],
      hr_watched_paths = [], hr_plugin_paths = [], hr_running = False, hr_watcher = None\<rparr>"

definition send_event :: "HotReloadEvent \<Rightarrow> 'l HotReloadService \<Rightarrow> 'l HotReloadService" where
  "send_event e s = s\<lparr>hr_events := hr_events s @ [e]\<rparr>"

section \<open>Watching\<close>

definition watch_plugin :: "(string \<Rightarrow> string + unit) \<Rightarrow> string \<Rightarrow> string \<Rightarrow> 'l HotReloadService
    \<Rightarrow> (string + unit) \<times> 'l HotReloadService" where
  "watch_plugin watch plugin_id plugin_path s =
     (let s1 = s\<lparr>hr_watched_paths := hm_insert plugin_path plugin_id (hr_watched_paths s),
                 hr_plugin_paths := hm_insert plugin_id plugin_path (hr_plugin_paths s)\<rparr>
      in case hr_watcher s1 of
           None \<Rightarrow> (Ok (), s1)
         | Some ps \<Rightarrow>
             (case watch plugin_path of
                Err e \<Rightarrow> (Err e, s1)
              | Ok _ \<Rightarrow> (Ok (), s1\<lparr>hr_watcher := Some (ps @ [plugin_path])\<rparr>)))"

definition unwatch_plugin :: "string \<Rightarrow> 'l HotReloadService \<Rightarrow> string option \<times> 'l HotReloadService" where
  "unwatch_plugin plugin_path s =
     (let plugin_id = hm_get (hr_watched_paths s) plugin_path;
          s1 = s\<lparr>hr_watched_paths := AList.delete plugin_path (hr_watched_paths s)\<rparr>;
          s2 = (case plugin_id of
                  Some pid \<Rightarrow> s1\<lparr>hr_plugin_paths := AList.delete pid (hr_plugin_paths s1)\<rparr>
                | None \<Rightarrow> s1)
      in (plugin_id, s2\<lparr>hr_watcher := map_option (removeAll plugin_path) (hr_watcher s2)\<rparr>))"

definition hr_start :: "(string \<Rightarrow> string + unit) \<Rightarrow> (string + unit) \<Rightarrow> (string \<Rightarrow> string + unit) \<Rightarrow> string
    \<Rightarrow> 'l HotReloadService \<Rightarrow> (string + unit) \<times> 'l HotReloadService" where
  "hr_start create_dir_all watcher_new watch watch_dir s =
     (if hr_running s then (Ok (), s)
      else
        (let s1 = s\<lparr>hr_running := True\<rparr>
         in case create_dir_all (hc_backup_dir (hr_config s)) of
              Err e \<Rightarrow> (Err e, s1)
            | Ok _ \<Rightarrow>
           (case watcher_new of
              Err e \<Rightarrow> (Err e, s1)
            | Ok _ \<Rightarrow>
           (case watch watch_dir of
              Err e \<Rightarrow> (Err e, s1)
            | Ok _ \<Rightarrow> (Ok (), s1\<lparr>hr_watcher := Some [watch_dir]\<rparr>)))))"

text \<open>\<open>Path::file_stem\<close>: the file name up to its last dot, unless that dot comes first.\<close>

definition path_file_stem :: "string \<Rightarrow> string" where
  "path_file_stem p =
     (let name = last (split_on CHR ''/'' p); parts = split_on CHR ''.'' name
      in if path_extension p = None then name else join ''.'' (butlast parts))"

text \<open>The closure that the file watcher calls with the paths of a modification or creation.\<close>

fun watcher_event :: "string list \<Rightarrow> 'l HotReloadService \<Rightarrow> 'l HotReloadService" where
  "watcher_event [] s = s"
| "watcher_event (path # paths) s =
     watcher_event paths
       (if (case path_extension path of
              Some ext \<Rightarrow> ext = ''so'' \<or> ext = ''dylib'' \<or> ext = ''dll'' | None \<Rightarrow> False)
        then
          (let plugin_id = (case hm_get (hr_watched_paths s) path of
                              Some pid \<Rightarrow> pid | None \<Rightarrow> path_file_stem path)
           in if plugin_id \<noteq> [] then send_event (FileChanged plugin_id path) s else s)
        else s)"

definition hr_stop :: "'l HotReloadService \<Rightarrow> 'l HotReloadService" where
  "hr_stop s = s\<lparr>hr_running := False, hr_pending := [], hr_watcher := None\<rparr>"

definition list_watched :: "'l HotReloadService \<Rightarrow> (string \<times> string) list" where
  "list_watched s = map (\<lambda>(path, pid). (pid, path)) (hr_watched_paths s)"

definition is_watching :: "string \<Rightarrow> 'l HotReloadService \<Rightarrow> bool" where
  "is_watching plugin_id s \<longleftrightarrow> list_ex (\<lambda>(_, pid). pid = plugin_id) (hr_watched_paths s)"

definition get_snapshot :: "string \<Rightarrow> 'l HotReloadService \<Rightarrow> PluginStateSnapshot option" where
  "get_snapshot plugin_id s = hm_get (hr_snapshots s) plugin_id"

definition clear_snapshot :: "string \<Rightarrow> 'l HotReloadService \<Rightarrow> 'l HotReloadService" where
  "clear_snapshot plugin_id s = s\<lparr>hr_snapshots := AList.delete plugin_id (hr_snapshots s)\<rparr>"

section \<open>Reloading\<close>

text \<open>The checksum: a \<open>u128\<close> with wrapping arithmetic, printed in hexadecimal.\<close>

fun md5_loop :: "nat \<Rightarrow> string \<Rightarrow> 128 word \<Rightarrow> 128 word" where
  "md5_loop i [] hash = hash"
| "md5_loop i (byte # bs) hash = md5_loop (i + 1) bs (hash + of_nat (of_char byte) * of_nat (i + 1))"

definition md5_hash :: "string \<Rightarrow> 128 word" where
  "md5_hash data = md5_loop 0 data 0"

fun show_hex :: "nat \<Rightarrow> string" where
  "show_hex n = (if n < 16 then [''0123456789abcdef'' ! n] else show_hex (n div 16) @ [''0123456789abcdef'' ! (n mod 16)])"

declare show_hex.simps [simp del]

definition serialize_plugin_state :: "'l ReloadEnv \<Rightarrow> string \<Rightarrow> 'l HotReloadService
    \<Rightarrow> (string + PluginStateSnapshot) \<times> 'l HotReloadService" where
  "serialize_plugin_state env plugin_id s =
     (case get_state plugin_id (hr_lifecycle s) of
        None \<Rightarrow> (Err (''Plugin '' @ quoted plugin_id @ '' not found''), s)
      | Some state \<Rightarrow>
          (let state_data = ''{\"plugin_id\":\"'' @ plugin_id @ ''\",\"timestamp\":\"'' @ hn_rfc3339 env @ ''\"}'';
               snapshot = \<lparr>sn_plugin_id = plugin_id, sn_state_data = state_data,
                 sn_timestamp = hn_snapshot_time env, sn_plugin_version = ps_version state,
                 sn_checksum = show_hex (unat (md5_hash state_data))\<rparr>
           in (Ok snapshot, s\<lparr>hr_snapshots := hm_insert plugin_id snapshot (hr_snapshots s)\<rparr>)))"

definition restore_plugin_state :: "PluginStateSnapshot \<Rightarrow> bool" where
  "restore_plugin_state snapshot \<longleftrightarrow>
     show_hex (unat (md5_hash (sn_state_data snapshot))) = sn_checksum snapshot"

definition rollback_plugin :: "'l LifecycleEnv \<Rightarrow> string \<Rightarrow> PluginStateSnapshot \<Rightarrow> 'l HotReloadService
    \<Rightarrow> bool \<times> 'l HotReloadService" where
  "rollback_plugin env plugin_id snapshot s =
     (let s1 = send_event (RollbackPerformed plugin_id ''Reload failed'') s
      in case lm_activate env plugin_id (hr_lifecycle s1) of
           (r, m) \<Rightarrow> (case r of Ok res \<Rightarrow> ar_success res | Err _ \<Rightarrow> False, s1\<lparr>hr_lifecycle := m\<rparr>))"

definition reload_result :: "'l ReloadEnv \<Rightarrow> string \<Rightarrow> string \<Rightarrow> bool \<Rightarrow> string option \<Rightarrow> bool \<Rightarrow> string option
    \<Rightarrow> bool \<Rightarrow> HotReloadResult" where
  "reload_result env plugin_id old_version success new_version preserved error rolled_back =
     \<lparr>hrr_plugin_id = plugin_id, hrr_success = success, hrr_old_version = Some old_version,
      hrr_new_version = new_version, hrr_state_preserved = preserved, hrr_duration_ms = hn_elapsed env,
      hrr_error = error, hrr_rolled_back = rolled_back\<rparr>"

text \<open>The part after a failed activation, the same for both ways in which it fails.\<close>

definition reload_failed :: "'l ReloadEnv \<Rightarrow> string \<Rightarrow> string \<Rightarrow> PluginStateSnapshot \<Rightarrow> string option
    \<Rightarrow> 'l HotReloadService \<Rightarrow> (string + HotReloadResult) \<times> 'l HotReloadService" where
  "reload_failed env plugin_id old_version snapshot error s =
     (case rollback_plugin (hn_call env 2) plugin_id snapshot s of
        (rolled_back, s1) \<Rightarrow>
          (Ok (reload_result env plugin_id old_version False None False error rolled_back),
           send_event (ReloadFailed plugin_id (case error of None \<Rightarrow> [] | Some e \<Rightarrow> e)) s1))"

definition hr_reload_plugin :: "'l ReloadEnv \<Rightarrow> string \<Rightarrow> 'l HotReloadService
    \<Rightarrow> (string + HotReloadResult) \<times> 'l HotReloadService" where
  "hr_reload_plugin env plugin_id s =
     (let s1 = send_event (ReloadStarted plugin_id) s
      in case get_state plugin_id (hr_lifecycle s1) of
           None \<Rightarrow> (Err (''Plugin '' @ quoted plugin_id @ '' not found''), s1)
         | Some current_state \<Rightarrow>
             (let old_version = ps_version current_state
              in if ps_status current_state \<noteq> Active
                 then (Ok (reload_result env plugin_id old_version False None False
                         (Some ''Plugin is not active'') False), s1)
                 else
                   (case serialize_plugin_state env plugin_id s1 of
                      (Err e, s2) \<Rightarrow> (Err e, s2)
                    | (Ok snapshot, s2) \<Rightarrow>
                        (let s3 = send_event (StateSerialized plugin_id (length (sn_state_data snapshot))) s2
                         in case lm_deactivate (hn_call env 0) plugin_id (hr_lifecycle s3) of
                              (Err e, m) \<Rightarrow> (Err ''Deactivating plugin for reload'', s3\<lparr>hr_lifecycle := m\<rparr>)
                            | (Ok deactivate_result, m) \<Rightarrow>
                                (let s4 = s3\<lparr>hr_lifecycle := m\<rparr>
                                 in if \<not> dr_success deactivate_result
                                    then (Ok (reload_result env plugin_id old_version False None False
                                            (dr_error deactivate_result) False), s4)
                                    else
                                      (case lm_activate (hn_call env 1) plugin_id (hr_lifecycle s4) of
                                         (Ok result, m') \<Rightarrow>
                                           (let s5 = s4\<lparr>hr_lifecycle := m'\<rparr>
                                            in if ar_success result
                                               then
                                                 (let res = reload_result env plugin_id old_version True
                                                        (map_option ps_version (get_state plugin_id m'))
                                                        (restore_plugin_state snapshot) None False
                                                  in (Ok res, send_event (ReloadCompleted plugin_id res) s5))
                                               else reload_failed env plugin_id old_version snapshot
                                                      (ar_error result) s5)
                                       | (Err e, m') \<Rightarrow>
                                           reload_failed env plugin_id old_version snapshot (Some e)
                                             (s4\<lparr>hr_lifecycle := m'\<rparr>)))))))"

section \<open>Debouncing\<close>

definition record_pending_change :: "nat \<Rightarrow> string \<Rightarrow> string \<Rightarrow> 'l HotReloadService \<Rightarrow> 'l HotReloadService" where
  "record_pending_change now plugin_id path s =
     s\<lparr>hr_pending :=
        (case hm_get (hr_pending s) plugin_id of
           Some existing \<Rightarrow> hm_insert plugin_id (existing\<lparr>pc_last_seen := now\<rparr>) (hr_pending s)
         | None \<Rightarrow> hm_insert plugin_id
             \<lparr>pc_plugin_id = plugin_id, pc_path = path, pc_last_seen = now\<rparr> (hr_pending s))\<rparr>"

text \<open>A change is due when its last event is at least the debounce interval ago.\<close>

definition is_due :: "u64 \<Rightarrow> nat \<Rightarrow> PendingChange \<Rightarrow> bool" where
  "is_due debounce_ms now change \<longleftrightarrow> unat debounce_ms * 1000000 \<le> now - pc_last_seen change"

definition process_debounced_changes :: "(string \<Rightarrow> 'l ReloadEnv) \<Rightarrow> nat \<Rightarrow> 'l HotReloadService
    \<Rightarrow> 'l HotReloadService" where
  "process_debounced_changes env now s =
     (let due = (\<lambda>(_, change). is_due (hc_debounce_ms (hr_config s)) now change);
          ready = map snd (filter due (hr_pending s));
          s1 = s\<lparr>hr_pending := filter (\<lambda>c. \<not> due c) (hr_pending s)\<rparr>
      in foldl (\<lambda>s change. snd (hr_reload_plugin (env (pc_plugin_id change)) (pc_plugin_id change) s)) s1 ready)"

text \<open>\<open>Path::components\<close> of a Unix path, on which \<open>parent\<close> and \<open>starts_with\<close> work.\<close>

definition path_components :: "string \<Rightarrow> string list" where
  "path_components p =
     (case split_on CHR ''/'' p of
        [] \<Rightarrow> []
      | first # rest \<Rightarrow>
          (if starts_with p ''/'' then [''/''] else if first = [] then [] else [first])
          @ filter (\<lambda>c. c \<noteq> [] \<and> c \<noteq> ''.'') rest)"

definition in_directory_of :: "string \<Rightarrow> string \<Rightarrow> bool" where
  "in_directory_of path watched_path \<longleftrightarrow>
     (let parent = butlast (path_components watched_path)
      in take (length parent) (path_components path) = parent)"

definition changed_plugin :: "string \<Rightarrow> 'l HotReloadService \<Rightarrow> string option" where
  "changed_plugin path s =
     (case hm_get (hr_watched_paths s) path of
        Some pid \<Rightarrow> Some pid
      | None \<Rightarrow> map_option snd (List.find (\<lambda>(watched_path, _). in_directory_of path watched_path) (hr_watched_paths s)))"

definition on_file_changed :: "(string \<Rightarrow> 'l ReloadEnv) \<Rightarrow> nat \<Rightarrow> nat \<Rightarrow> string \<Rightarrow> 'l HotReloadService
    \<Rightarrow> 'l HotReloadService" where
  "on_file_changed env now now' path s =
     (if \<not> hr_running s then s
      else
        (case changed_plugin path s of
           None \<Rightarrow> s
         | Some plugin_id \<Rightarrow>
             (let s1 = send_event (FileChanged plugin_id path) s
              in if \<not> hc_auto_reload (hr_config s1) then s1
                 else process_debounced_changes env now' (record_pending_change now plugin_id path s1))))"

section \<open>Placeholders\<close>

record ReloadResult =
  rr_plugin_id :: string
  rr_success :: bool
  rr_old_version :: "string option"
  rr_new_version :: "string option"
  rr_state_preserved :: bool
  rr_error :: "string option"

definition manager_reload_plugin :: "string \<Rightarrow> ReloadResult" where
  "manager_reload_plugin plugin_id =
     \<lparr>rr_plugin_id = plugin_id, rr_success = False, rr_old_version = None, rr_new_version = None,
      rr_state_preserved = False,
      rr_error = Some ''Hot reload not implemented. Use HTTP API endpoint /plugins/{id}/reload''\<rparr>"

definition reload_plugin_from_path :: "string \<Rightarrow> string \<Rightarrow> string + ReloadResult" where
  "reload_plugin_from_path plugin_id new_manifest_path =
     Err (''Hot reload from path not implemented. Use HTTP API endpoint /plugins/'' @ plugin_id @ ''/reload'')"

section \<open>What a reload leaves behind\<close>

lemma lm_activate_summary:
  assumes "lm_inv m" and "lm_activate env n m = (r, m')"
  shows "lm_inv m'" and "tracked m' = tracked m"
    and "running m' = (if (case r of Ok res \<Rightarrow> ar_success res | Err _ \<Rightarrow> False) then insert n (running m) else running m)"
proof -
  show "lm_inv m'" using lifecycle_step_inv [OF step_activate assms(1), of env n] assms(2) by simp
  show "tracked m' = tracked m"
    using assms(1) by (cases rule: lm_activate_cases [where env = env and n = n]) (use assms(2) in auto)
  show "running m' = (if (case r of Ok res \<Rightarrow> ar_success res | Err _ \<Rightarrow> False) then insert n (running m) else running m)"
    using assms(1) by (cases rule: lm_activate_cases [where env = env and n = n]) (use assms(2) in \<open>auto split: sum.splits\<close>)
qed

lemma lm_deactivate_running:
  assumes "lm_inv m" and "n \<in> running m"
  obtains res m' where "lm_deactivate env n m = (Ok res, m')" and "dr_success res" and "lm_inv m'"
    and "tracked m' = tracked m" and "running m' = running m - {n}"
proof -
  have "n \<in> tracked m" using assms(2) by (auto simp: tracked_iff running_def)
  moreover have "lm_inv (snd (lm_deactivate env n m))"
    by (rule lifecycle_step_inv [OF step_deactivate assms(1)])
  moreover obtain res m' where "lm_deactivate env n m = (if n \<in> tracked m then Ok res else Err (''Plugin '' @ quoted n @ '' not found''), m')"
    "dr_success res" "tracked m' = tracked m" "running m' = running m - {n}"
    by (rule lm_deactivate_effect [OF assms(1), of env n])
  ultimately show ?thesis by (intro that [of res m']) simp_all
qed

lemma send_event_simps [simp]:
  "hr_lifecycle (send_event e s) = hr_lifecycle s" "hr_pending (send_event e s) = hr_pending s"
  "hr_config (send_event e s) = hr_config s" "hr_watched_paths (send_event e s) = hr_watched_paths s"
  "hr_running (send_event e s) = hr_running s"
  by (simp_all add: send_event_def)

text \<open>A snapshot just taken passes its own integrity check.\<close>

lemma serialize_restores:
  "serialize_plugin_state env n s = (Ok snapshot, s') \<Longrightarrow>
     restore_plugin_state snapshot \<and> hr_lifecycle s' = hr_lifecycle s"
  by (auto simp: serialize_plugin_state_def restore_plugin_state_def Let_def split: option.splits)

lemma reload_failed_effect:
  assumes "lm_inv (hr_lifecycle s)" and "n \<notin> running (hr_lifecycle s)"
    and "reload_failed env n v snapshot error s = (r, s')"
  shows "\<exists>res. r = Ok res \<and> \<not> hrr_success res \<and> lm_inv (hr_lifecycle s')
    \<and> tracked (hr_lifecycle s') = tracked (hr_lifecycle s)
    \<and> running (hr_lifecycle s') =
        (if hrr_rolled_back res then insert n (running (hr_lifecycle s)) else running (hr_lifecycle s))"
proof -
  obtain ra m where act: "lm_activate (hn_call env 2) n (hr_lifecycle s) = (ra, m)" by fastforce
  note sum = lm_activate_summary [OF assms(1) act]
  show ?thesis
    using assms(3) sum
    by (auto simp: reload_failed_def rollback_plugin_def act reload_result_def split: sum.splits)
qed

text \<open>(C13) What a hot reload leaves behind. Only the reloaded plugin is affected. A plugin that is not
  active is left alone and the reload fails. Otherwise the plugin runs afterwards exactly when
  the result reports success or a rollback; a successful reload restores the snapshot that
  was taken. An unknown plugin is an error without effect.\<close>

theorem reload_outcome:
  assumes "lm_inv (hr_lifecycle s)"
  shows "case hr_reload_plugin env n s of (r, s') \<Rightarrow>
      lm_inv (hr_lifecycle s') \<and> tracked (hr_lifecycle s') = tracked (hr_lifecycle s)
      \<and> running (hr_lifecycle s') - {n} = running (hr_lifecycle s) - {n}
      \<and> (case r of
           Err _ \<Rightarrow> n \<notin> tracked (hr_lifecycle s) \<and> hr_lifecycle s' = hr_lifecycle s
         | Ok res \<Rightarrow>
             if n \<in> running (hr_lifecycle s)
             then (n \<in> running (hr_lifecycle s') \<longleftrightarrow> hrr_success res \<or> hrr_rolled_back res)
               \<and> (if hrr_success res then hrr_state_preserved res \<and> \<not> hrr_rolled_back res else True)
             else \<not> hrr_success res \<and> hr_lifecycle s' = hr_lifecycle s)"
proof (cases "n \<in> running (hr_lifecycle s)")
  case False
  then show ?thesis
    using assms by (auto simp: hr_reload_plugin_def Let_def running_def tracked_iff reload_result_def split: option.split)
next
  case True
  let ?m = "hr_lifecycle s"
  let ?s1 = "send_event (ReloadStarted n) s"
  obtain st where st: "get_state n ?m = Some st" "ps_status st = Active" using True by (auto simp: running_def)
  obtain sn s2 where ser: "serialize_plugin_state env n ?s1 = (Ok sn, s2)"
    using st by (simp add: serialize_plugin_state_def Let_def)
  note s2 = serialize_restores [OF ser]
  obtain d m1 where de: "lm_deactivate (hn_call env 0) n ?m = (Ok d, m1)" "dr_success d" "lm_inv m1"
    "tracked m1 = tracked ?m" "running m1 = running ?m - {n}"
    by (rule lm_deactivate_running [OF assms True, of "hn_call env 0"])
  obtain r m2 where act: "lm_activate (hn_call env 1) n m1 = (r, m2)" by fastforce
  note m2 = lm_activate_summary [OF de(3) act]
  let ?s5 = "(send_event (StateSerialized n (length (sn_state_data sn))) s2)\<lparr>hr_lifecycle := m2\<rparr>"
  have eq: "hr_reload_plugin env n s = (case r of
      Ok result \<Rightarrow>
        if ar_success result
        then (let res = reload_result env n (ps_version st) True (map_option ps_version (get_state n m2))
                 (restore_plugin_state sn) None False
              in (Ok res, send_event (ReloadCompleted n res) ?s5))
        else reload_failed env n (ps_version st) sn (ar_error result) ?s5
    | Err e \<Rightarrow> reload_failed env n (ps_version st) sn (Some e) ?s5)"
    using st ser s2 de act by (simp add: hr_reload_plugin_def Let_def split: sum.split)
  have failed: ?thesis if fail: "hr_reload_plugin env n s = reload_failed env n v sn er ?s5"
    and nr: "running m2 = running m1" for v er
  proof -
    obtain r' s' where rf: "reload_failed env n v sn er ?s5 = (r', s')" by fastforce
    have "lm_inv (hr_lifecycle ?s5)" "n \<notin> running (hr_lifecycle ?s5)" using m2(1) nr de(5) by simp_all
    from reload_failed_effect [OF this rf] show ?thesis
      using True de m2(2) nr by (auto simp: fail rf split: if_splits)
  qed
  show ?thesis
  proof (cases "case r of Ok res \<Rightarrow> ar_success res | Err _ \<Rightarrow> False")
    case False
    with m2(3) have same: "running m2 = running m1" by simp
    obtain er where "hr_reload_plugin env n s = reload_failed env n (ps_version st) sn er ?s5"
      using False eq by (cases r) auto
    from this same show ?thesis by (rule failed)
  next
    case ok: True
    then obtain res where "r = Ok res" "ar_success res" by (auto split: sum.splits)
    then have "hr_reload_plugin env n s = (let res = reload_result env n (ps_version st) True
        (map_option ps_version (get_state n m2)) (restore_plugin_state sn) None False
        in (Ok res, send_event (ReloadCompleted n res) ?s5))" by (simp add: eq)
    then show ?thesis using m2 ok de(4,5) s2 True by (auto simp: Let_def reload_result_def)
  qed
qed

theorem reload_outcome_witness:
  "case hr_reload_plugin \<lparr>hn_call = (\<lambda>_. demo_env), hn_rfc3339 = [], hn_snapshot_time = 0, hn_elapsed = 0\<rparr> ''p''
      (HotReloadService_new HotReloadConfig_default demo_active) of (r, s') \<Rightarrow>
    ''p'' \<in> running (hr_lifecycle s') \<longleftrightarrow> (case r of Ok res \<Rightarrow> hrr_success res \<or> hrr_rolled_back res | Err _ \<Rightarrow> False)"
  using reload_outcome [where s = "HotReloadService_new HotReloadConfig_default demo_active" and n = "''p''"
      and env = "\<lparr>hn_call = (\<lambda>_. demo_env), hn_rfc3339 = [], hn_snapshot_time = 0, hn_elapsed = 0\<rparr>"]
    lifecycle_run_inv [OF demo_run] demo_active_running
  unfolding HotReloadService_new_def HotReloadService.simps split_beta
  by (simp add: tracked_iff running_def [of demo_active] split: sum.splits)

section \<open>Debouncing\<close>

text \<open>Only changes that are due are processed.\<close>

lemma process_none_due:
  assumes "list_all (\<lambda>(_, c). \<not> is_due (hc_debounce_ms (hr_config s)) now c) (hr_pending s)"
  shows "process_debounced_changes env now s = s"
proof -
  have "filter (\<lambda>(_, c). is_due (hc_debounce_ms (hr_config s)) now c) (hr_pending s) = []"
    "filter (\<lambda>x. \<not> (case x of (_, c) \<Rightarrow> is_due (hc_debounce_ms (hr_config s)) now c)) (hr_pending s) = hr_pending s"
    using assms by (auto simp: list_all_iff filter_empty_conv filter_id_conv)
  then show ?thesis unfolding process_debounced_changes_def Let_def by simp
qed

text \<open>Events for the files of one plugin: the instants at which each change is recorded and at which
  the due changes are collected.\<close>

definition file_events :: "(string \<Rightarrow> 'l ReloadEnv) \<Rightarrow> (nat \<times> nat \<times> string) list \<Rightarrow> 'l HotReloadService
    \<Rightarrow> 'l HotReloadService" where
  "file_events env evs s = foldl (\<lambda>s (now, now', path). on_file_changed env now now' path s) s evs"

text \<open>The service watches one plugin, and only that one may have a pending change.\<close>

definition watches_only :: "string \<Rightarrow> 'l HotReloadService \<Rightarrow> bool" where
  "watches_only n s \<longleftrightarrow> list_all (\<lambda>(_, pid). pid = n) (hr_watched_paths s) \<and> list_all (\<lambda>(k, _). k = n) (hr_pending s)
     \<and> distinct (hm_keys (hr_pending s))"

lemma find_in_set: "List.find P xs = Some x \<Longrightarrow> x \<in> set xs"
  by (auto simp: find_Some_iff)

lemma changed_plugin_watched: "watches_only n s \<Longrightarrow> changed_plugin path s = Some p \<Longrightarrow> p = n"
  by (auto simp: changed_plugin_def watches_only_def list_all_iff split: option.splits
      dest!: map_of_SomeD find_in_set)

lemma record_pending_single:
  assumes "watches_only n s"
  shows "\<exists>c. hr_pending (record_pending_change now n path s) = [(n, c)] \<and> pc_last_seen c = now"
proof -
  have "hr_pending s = [] \<or> (\<exists>c. hr_pending s = [(n, c)])"
    using assms by (cases "hr_pending s"; cases "tl (hr_pending s)") (auto simp: watches_only_def)
  then show ?thesis by (auto simp: record_pending_change_def)
qed

lemma on_file_changed_waits:
  assumes "watches_only n s" and "now' - now < unat (hc_debounce_ms (hr_config s)) * 1000000"
  shows "hr_lifecycle (on_file_changed env now now' path s) = hr_lifecycle s
    \<and> watches_only n (on_file_changed env now now' path s)
    \<and> hr_config (on_file_changed env now now' path s) = hr_config s"
proof (cases "hr_running s \<and> changed_plugin path s \<noteq> None \<and> hc_auto_reload (hr_config s)")
  case False
  then show ?thesis using assms(1) by (auto simp: on_file_changed_def watches_only_def Let_def split: option.split)
next
  case True
  let ?s1 = "send_event (FileChanged n path) s"
  let ?s2 = "record_pending_change now n path ?s1"
  have cp: "changed_plugin path s = Some n" using True changed_plugin_watched [OF assms(1)] by auto
  have w: "watches_only n ?s1" using assms(1) by (simp add: watches_only_def)
  obtain c where c: "hr_pending ?s2 = [(n, c)]" "pc_last_seen c = now" using record_pending_single [OF w] by blast
  have same: "hr_config ?s2 = hr_config s" "hr_lifecycle ?s2 = hr_lifecycle s" "hr_watched_paths ?s2 = hr_watched_paths s"
    by (simp_all add: record_pending_change_def)
  have "process_debounced_changes env now' ?s2 = ?s2"
    using assms(2) c by (intro process_none_due) (simp add: is_due_def same)
  then have "on_file_changed env now now' path s = ?s2"
    using True cp by (simp add: on_file_changed_def Let_def)
  with same c assms(1) show ?thesis by (simp add: watches_only_def)
qed

text \<open>A change of a plugin's file is never acted upon by itself: when a service watches one plugin, and
  each event collects the due changes sooner than the debounce interval after it recorded its own change, no
  sequence of events, however long and with whatever pauses, reloads the plugin.\<close>

theorem single_plugin_never_reloads:
  assumes "watches_only n s"
    and "list_all (\<lambda>(now, now', _). now' - now < unat (hc_debounce_ms (hr_config s)) * 1000000) evs"
  shows "hr_lifecycle (file_events env evs s) = hr_lifecycle s"
  using assms
proof (induction evs arbitrary: s)
  case (Cons ev evs)
  obtain now now' path where ev: "ev = (now, now', path)" by (cases ev) auto
  let ?s = "on_file_changed env now now' path s"
  have "now' - now < unat (hc_debounce_ms (hr_config s)) * 1000000" using Cons.prems(2) ev by simp
  note step = on_file_changed_waits [OF Cons.prems(1) this, of env path]
  then have "hr_lifecycle (file_events env evs ?s) = hr_lifecycle ?s"
    using Cons.prems(2) by (intro Cons.IH) simp_all
  with step show ?case by (simp add: file_events_def ev)
qed (simp add: file_events_def)

end
