(* ===== verification/Job_Queue.thy ===== *)
theory Job_Queue
  imports Skylet_Prelude
begin

text \<open>
  The job queue, \<open>job-queue/src/job_queue.rs\<close>: jobs in a table of a database, the connection pool, and
  one round of the dispatch loop.

  The database engine, the encoding of payloads and the formatting and arithmetic of dates are other
  packages: they are the fields of \<open>JobEnv\<close>, one for each statement that the code executes, and
  \<open>store_laws\<close> states what the code relies on. Times are nanoseconds; adding a duration that the date
  library cannot represent panics, which is \<open>None\<close>. Identifiers are arguments.
\<close>

section \<open>Jobs\<close>

record Job =
  job_id :: string
  job_task_name :: string
  job_payload :: string
  job_available_at :: nat
  job_attempts :: u32
  job_max_attempts :: u32

record JobRow =
  row_id :: string
  row_task_name :: string
  row_payload :: string
  row_available_at :: string
  row_attempts :: u32
  row_max_attempts :: u32

record ConnectionPool =
  cp_connections :: "nat list"
  cp_db_path :: string
  cp_max_size :: usize

record 'db JobQueue =
  jq_pool :: ConnectionPool
  jq_db :: 'db

record 'db JobEnv =
  je_open :: "string \<Rightarrow> string + nat"
  je_pragma :: "nat \<Rightarrow> string + unit"
  je_create_table :: "'db \<Rightarrow> (string + unit) \<times> 'db"
  je_create_index :: "'db \<Rightarrow> (string + unit) \<times> 'db"
  je_insert :: "JobRow \<Rightarrow> 'db \<Rightarrow> (string + unit) \<times> 'db"
  je_replace :: "JobRow \<Rightarrow> 'db \<Rightarrow> (string + unit) \<times> 'db"
  je_select :: "string \<Rightarrow> 'db \<Rightarrow> string + JobRow option"
  je_delete :: "string \<Rightarrow> 'db \<Rightarrow> (string + unit) \<times> 'db"
  je_to_rfc3339 :: "nat \<Rightarrow> string"
  je_parse_rfc3339 :: "string \<Rightarrow> string + nat"
  je_encode :: "string \<Rightarrow> string"
  je_decode :: "string \<Rightarrow> string + string"
  je_add_seconds :: "nat \<Rightarrow> int \<Rightarrow> nat option"

definition Job_new :: "'db JobEnv \<Rightarrow> nat \<Rightarrow> string \<Rightarrow> string \<Rightarrow> string \<Rightarrow> u32 \<Rightarrow> u32 \<Rightarrow> Job option" where
  "Job_new env now uuid task_name payload delay_seconds max_attempts =
     map_option (\<lambda>t. \<lparr>job_id = uuid, job_task_name = task_name, job_payload = payload, job_available_at = t,
        job_attempts = 0, job_max_attempts = max_attempts\<rparr>)
       (je_add_seconds env now (int (unat delay_seconds)))"

section \<open>Connections\<close>

definition ConnectionPool_new :: "string \<Rightarrow> usize \<Rightarrow> ConnectionPool" where
  "ConnectionPool_new db_path max_size =
     \<lparr>cp_connections = [], cp_db_path = db_path, cp_max_size = max_size\<rparr>"

definition cp_get :: "'db JobEnv \<Rightarrow> ConnectionPool \<Rightarrow> (string + nat) \<times> ConnectionPool" where
  "cp_get env p =
     (if cp_connections p \<noteq> []
      then (Ok (last (cp_connections p)), p\<lparr>cp_connections := butlast (cp_connections p)\<rparr>)
      else
        (result_bind (je_open env (cp_db_path p))
           (\<lambda>conn. result_bind (je_pragma env conn) (\<lambda>_. Ok conn)), p))"

definition return_connection :: "nat \<Rightarrow> ConnectionPool \<Rightarrow> ConnectionPool" where
  "return_connection conn p =
     (if length (cp_connections p) < unat (cp_max_size p)
      then p\<lparr>cp_connections := cp_connections p @ [conn]\<rparr> else p)"

section \<open>The queue\<close>

definition JobQueue_new :: "string \<Rightarrow> 'db \<Rightarrow> 'db JobQueue" where
  "JobQueue_new db_path db = \<lparr>jq_pool = ConnectionPool_new db_path 10, jq_db = db\<rparr>"

text \<open>Taking a connection and executing a statement on it. The connection is dropped at the end of
  the operation.\<close>

definition with_connection :: "'db JobEnv \<Rightarrow> ('db \<Rightarrow> (string + 'a) \<times> 'db) \<Rightarrow> 'db JobQueue
    \<Rightarrow> (string + 'a) \<times> 'db JobQueue" where
  "with_connection env f q =
     (case cp_get env (jq_pool q) of
        (Err e, p) \<Rightarrow> (Err e, q\<lparr>jq_pool := p\<rparr>)
      | (Ok _, p) \<Rightarrow> (case f (jq_db q) of (r, db) \<Rightarrow> (r, q\<lparr>jq_pool := p, jq_db := db\<rparr>)))"

definition jq_init :: "'db JobEnv \<Rightarrow> 'db JobQueue \<Rightarrow> (string + unit) \<times> 'db JobQueue" where
  "jq_init env = with_connection env
     (\<lambda>db. case je_create_table env db of
        (Err e, db') \<Rightarrow> (Err e, db') | (Ok _, db') \<Rightarrow> je_create_index env db')"

definition job_row :: "'db JobEnv \<Rightarrow> Job \<Rightarrow> JobRow" where
  "job_row env job =
     \<lparr>row_id = job_id job, row_task_name = job_task_name job, row_payload = je_encode env (job_payload job),
      row_available_at = je_to_rfc3339 env (job_available_at job), row_attempts = job_attempts job,
      row_max_attempts = job_max_attempts job\<rparr>"

definition enqueue :: "'db JobEnv \<Rightarrow> Job \<Rightarrow> 'db JobQueue \<Rightarrow> (string + unit) \<times> 'db JobQueue" where
  "enqueue env job = with_connection env (je_insert env (job_row env job))"

text \<open>The part of \<open>pop_available\<close> after the query: the row is deleted, then decoded.\<close>

definition pop_row :: "'db JobEnv \<Rightarrow> JobRow \<Rightarrow> 'db \<Rightarrow> (string + Job option) \<times> 'db" where
  "pop_row env r db =
     (case je_delete env (row_id r) db of
        (Err e, db') \<Rightarrow> (Err e, db')
      | (Ok _, db') \<Rightarrow>
          (result_bind (je_parse_rfc3339 env (row_available_at r)) (\<lambda>available_at.
           result_bind (map_err (\<lambda>e. ''Failed to decode base64 payload: '' @ e) (je_decode env (row_payload r)))
             (\<lambda>payload.
           Ok (Some \<lparr>job_id = row_id r, job_task_name = row_task_name r, job_payload = payload,
             job_available_at = available_at, job_attempts = row_attempts r,
             job_max_attempts = row_max_attempts r\<rparr>))), db'))"

definition pop_available :: "'db JobEnv \<Rightarrow> nat \<Rightarrow> 'db JobQueue \<Rightarrow> (string + Job option) \<times> 'db JobQueue" where
  "pop_available env now = with_connection env
     (\<lambda>db. case je_select env (je_to_rfc3339 env now) db of
        Err e \<Rightarrow> (Err e, db)
      | Ok None \<Rightarrow> (Ok None, db)
      | Ok (Some r) \<Rightarrow> pop_row env r db)"

definition reschedule :: "'db JobEnv \<Rightarrow> nat \<Rightarrow> Job \<Rightarrow> Job option" where
  "reschedule env now job =
     (let job1 = job\<lparr>job_attempts := job_attempts job + 1\<rparr>;
          delay = (if job_max_attempts job1 \<le> job_attempts job1 then 3650 * 86400
                   else sint (2 ^ unat (job_attempts job1) :: u64))
      in map_option (\<lambda>t. job1\<lparr>job_available_at := t\<rparr>) (je_add_seconds env now delay))"

definition retry_job :: "'db JobEnv \<Rightarrow> nat \<Rightarrow> Job \<Rightarrow> 'db JobQueue
    \<Rightarrow> ((string + unit) \<times> 'db JobQueue) option" where
  "retry_job env now job q =
     map_option (\<lambda>job1. with_connection env (je_replace env (job_row env job1)) q) (reschedule env now job)"

text \<open>One round of \<open>run_dispatch_loop\<close>, without the pause at the end of an idle round. It returns the job
  that was handed to the handler.\<close>

definition dispatch_round :: "'db JobEnv \<Rightarrow> (Job \<Rightarrow> string + bool) \<Rightarrow> nat \<Rightarrow> nat \<Rightarrow> 'db JobQueue
    \<Rightarrow> (Job option \<times> 'db JobQueue) option" where
  "dispatch_round env handler now now' q =
     (case pop_available env now q of
        (Ok (Some job), q1) \<Rightarrow>
          (if handler job = Ok True then Some (Some job, q1)
           else map_option (\<lambda>(_, q2). (Some job, q2)) (retry_job env now' job q1))
      | (Ok None, q1) \<Rightarrow> Some (None, q1)
      | (Err _, q1) \<Rightarrow> Some (None, q1))"

section \<open>The queue as a map of jobs\<close>

text \<open>What the code relies on: \<open>id\<close> is a primary key, the statements do what they say and a failed
  statement changes nothing, decoding inverts encoding, and formatted dates compare as the dates do.\<close>

definition store_laws :: "'db JobEnv \<Rightarrow> ('db \<Rightarrow> string \<rightharpoonup> JobRow) \<Rightarrow> bool" where
  "store_laws env rows \<longleftrightarrow>
     (\<forall>r db u db'. je_insert env r db = (Ok u, db') \<longrightarrow>
        rows db (row_id r) = None \<and> rows db' = (rows db)(row_id r \<mapsto> r))
   \<and> (\<forall>r db u db'. je_replace env r db = (Ok u, db') \<longrightarrow> rows db' = (rows db)(row_id r \<mapsto> r))
   \<and> (\<forall>k db u db'. je_delete env k db = (Ok u, db') \<longrightarrow> rows db' = (rows db)(k := None))
   \<and> (\<forall>r db e db'. je_insert env r db = (Err e, db') \<longrightarrow> rows db' = rows db)
   \<and> (\<forall>r db e db'. je_replace env r db = (Err e, db') \<longrightarrow> rows db' = rows db)
   \<and> (\<forall>k db e db'. je_delete env k db = (Err e, db') \<longrightarrow> rows db' = rows db)
   \<and> (\<forall>now db r. je_select env now db = Ok (Some r) \<longrightarrow>
        rows db (row_id r) = Some r \<and> row_available_at r \<le> now
        \<and> (\<forall>s\<in>ran (rows db). row_available_at r \<le> row_available_at s))
   \<and> (\<forall>now db. je_select env now db = Ok None \<longrightarrow> (\<forall>s\<in>ran (rows db). now < row_available_at s))
   \<and> (\<forall>s t. je_to_rfc3339 env s \<le> je_to_rfc3339 env t \<longleftrightarrow> s \<le> t)
   \<and> (\<forall>t. je_parse_rfc3339 env (je_to_rfc3339 env t) = Ok t)
   \<and> (\<forall>p. je_decode env (je_encode env p) = Ok p)"

lemma store_laws_update:
  assumes "store_laws env rows"
  shows "je_insert env r db = (Ok u, db') \<Longrightarrow> rows db (row_id r) = None \<and> rows db' = (rows db)(row_id r \<mapsto> r)"
    and "je_insert env r db = (Err e, db') \<Longrightarrow> rows db' = rows db"
    and "je_replace env r db = (Ok u, db') \<Longrightarrow> rows db' = (rows db)(row_id r \<mapsto> r)"
    and "je_replace env r db = (Err e, db') \<Longrightarrow> rows db' = rows db"
    and "je_delete env k db = (Ok u, db') \<Longrightarrow> rows db' = (rows db)(k := None)"
    and "je_delete env k db = (Err e, db') \<Longrightarrow> rows db' = rows db"
  using assms by (simp_all add: store_laws_def)

lemma store_laws_select:
  assumes "store_laws env rows"
  shows "je_select env now db = Ok (Some r) \<Longrightarrow> rows db (row_id r) = Some r \<and> row_available_at r \<le> now
      \<and> (\<forall>s\<in>ran (rows db). row_available_at r \<le> row_available_at s)"
    and "je_select env now db = Ok None \<Longrightarrow> \<forall>s\<in>ran (rows db). now < row_available_at s"
  using assms by (simp_all add: store_laws_def)

lemma store_laws_codec:
  assumes "store_laws env rows"
  shows "je_to_rfc3339 env s \<le> je_to_rfc3339 env t \<longleftrightarrow> s \<le> t"
    and "je_to_rfc3339 env s < je_to_rfc3339 env t \<longleftrightarrow> s < t"
    and "je_parse_rfc3339 env (je_to_rfc3339 env t) = Ok t" and "je_decode env (je_encode env p) = Ok p"
  using assms unfolding store_laws_def by (auto simp: not_le [symmetric])

text \<open>A database that holds exactly the jobs of \<open>A\<close>.\<close>

definition represents :: "'db JobEnv \<Rightarrow> ('db \<Rightarrow> string \<rightharpoonup> JobRow) \<Rightarrow> 'db \<Rightarrow> (string \<rightharpoonup> Job) \<Rightarrow> bool" where
  "represents env rows db A \<longleftrightarrow>
     rows db = (\<lambda>i. map_option (job_row env) (A i)) \<and> (\<forall>i j. A i = Some j \<longrightarrow> job_id j = i)"

lemma row_id_job_row [simp]: "row_id (job_row env j) = job_id j"
  and row_available_job_row [simp]: "row_available_at (job_row env j) = je_to_rfc3339 env (job_available_at j)"
  by (simp_all add: job_row_def)

lemma represents_update:
  "represents env rows db A \<Longrightarrow> rows db' = (rows db)(job_id j \<mapsto> job_row env j) \<Longrightarrow>
   represents env rows db' (A(job_id j \<mapsto> j))"
  by (auto simp: represents_def fun_eq_iff)

lemma represents_delete:
  "represents env rows db A \<Longrightarrow> rows db' = (rows db)(k := None) \<Longrightarrow> represents env rows db' (A(k := None))"
  by (auto simp: represents_def fun_eq_iff)

lemma represents_same: "represents env rows db A \<Longrightarrow> rows db' = rows db \<Longrightarrow> represents env rows db' A"
  by (simp add: represents_def)

lemma with_connection_cases:
  obtains (Failed) e p where "with_connection env f q = (Err e, q\<lparr>jq_pool := p\<rparr>)"
  | (Done) p where "with_connection env f q = (fst (f (jq_db q)), q\<lparr>jq_pool := p, jq_db := snd (f (jq_db q))\<rparr>)"
  by (cases "cp_get env (jq_pool q)"; cases "fst (cp_get env (jq_pool q))"; cases "f (jq_db q)")
    (auto simp: with_connection_def)

lemma pop_row_decodes:
  assumes "store_laws env rows"
  shows "pop_row env (job_row env j) db =
     (case je_delete env (job_id j) db of (Err e, db') \<Rightarrow> (Err e, db') | (Ok _, db') \<Rightarrow> (Ok (Some j), db'))"
  using store_laws_codec [OF assms] by (simp add: pop_row_def job_row_def split: prod.split sum.split)

lemma enqueue_refines:
  assumes laws: "store_laws env rows" and rep: "represents env rows (jq_db q) A"
  shows "case enqueue env job q of
      (Ok _, q') \<Rightarrow> A (job_id job) = None \<and> represents env rows (jq_db q') (A(job_id job \<mapsto> job))
    | (Err _, q') \<Rightarrow> represents env rows (jq_db q') A"
proof (cases rule: with_connection_cases [of env "je_insert env (job_row env job)" q])
  case (Done p)
  obtain r db' where ins: "je_insert env (job_row env job) (jq_db q) = (r, db')" by fastforce
  have "rows (jq_db q) = (\<lambda>i. map_option (job_row env) (A i))" using rep by (simp add: represents_def)
  then show ?thesis
    using Done ins store_laws_update(1,2) [OF laws] represents_update [OF rep, of db' job] represents_same [OF rep, of db']
    by (cases r) (fastforce simp: enqueue_def)+
qed (use rep in \<open>simp add: enqueue_def\<close>)

lemma pop_available_refines:
  assumes laws: "store_laws env rows" and rep: "represents env rows (jq_db q) A"
  shows "case pop_available env now q of
      (Ok (Some job), q') \<Rightarrow> A (job_id job) = Some job \<and> job_available_at job \<le> now
        \<and> (\<forall>j\<in>ran A. job_available_at job \<le> job_available_at j)
        \<and> represents env rows (jq_db q') (A(job_id job := None))
    | (Ok None, q') \<Rightarrow> (\<forall>j\<in>ran A. now < job_available_at j) \<and> represents env rows (jq_db q') A
    | (Err _, q') \<Rightarrow> represents env rows (jq_db q') A"
proof -
  let ?f = "\<lambda>db. case je_select env (je_to_rfc3339 env now) db of Err e \<Rightarrow> (Err e, db)
      | Ok None \<Rightarrow> (Ok None, db) | Ok (Some r) \<Rightarrow> pop_row env r db"
  have rows: "rows (jq_db q) = (\<lambda>i. map_option (job_row env) (A i))" using rep by (simp add: represents_def)
  have ran: "ran (rows (jq_db q)) = job_row env ` ran A" by (auto simp: rows ran_def)
  note le = store_laws_codec(1,2) [OF laws]
  show ?thesis
  proof (cases rule: with_connection_cases [of env ?f q])
    case (Done p)
    show ?thesis
    proof (cases "je_select env (je_to_rfc3339 env now) (jq_db q)")
      case (Inr found)
      show ?thesis
      proof (cases found)
        case None
        then show ?thesis
          using Inr Done store_laws_select(2) [OF laws Inr [unfolded None]] rep
          by (simp add: pop_available_def ran le)
      next
        case (Some r)
        note sel = store_laws_select(1) [OF laws Inr [unfolded Some]]
        then obtain j where j: "A (row_id r) = Some j" "r = job_row env j" by (auto simp: rows)
        then show ?thesis
          using Inr Some Done sel represents_delete [OF rep] represents_same [OF rep] store_laws_update(5,6) [OF laws]
          by (auto simp: pop_available_def pop_row_decodes [OF laws] ran le split: prod.split sum.split)
      qed
    qed (use Done rep in \<open>simp add: pop_available_def\<close>)
  qed (use rep in \<open>simp add: pop_available_def\<close>)
qed

lemma retry_job_refines:
  assumes laws: "store_laws env rows" and rep: "represents env rows (jq_db q) A"
  shows "case retry_job env now job q of
      None \<Rightarrow> reschedule env now job = None
    | Some (Ok _, q') \<Rightarrow> (\<exists>j. reschedule env now job = Some j \<and> represents env rows (jq_db q') (A(job_id job \<mapsto> j)))
    | Some (Err _, q') \<Rightarrow> represents env rows (jq_db q') A"
proof (cases "reschedule env now job")
  case (Some j)
  then have same: "job_id j = job_id job" by (auto simp: reschedule_def Let_def)
  show ?thesis
  proof (cases rule: with_connection_cases [of env "je_replace env (job_row env j)" q])
    case (Done p)
    obtain r db' where rp: "je_replace env (job_row env j) (jq_db q) = (r, db')" by fastforce
    then show ?thesis
      using Done Some same store_laws_update(3,4) [OF laws, of "job_row env j" "jq_db q"]
        represents_update [OF rep, of db' j] represents_same [OF rep, of db']
      by (cases r) (auto simp: retry_job_def)
  qed (use rep Some in \<open>simp add: retry_job_def\<close>)
qed (simp add: retry_job_def)


section \<open>Rounds of the dispatch loop\<close>

text \<open>A round of the dispatch loop hands the most urgent due job to the handler. The job is done
  when the handler accepts it; otherwise it is stored again under its identifier with the next date,
  unless storing fails: then it is lost. All other jobs stay as they are. The loop dies only if the date
  of the next attempt cannot be represented.\<close>

theorem dispatch_round_correct:
  assumes laws: "store_laws env rows" and rep: "represents env rows (jq_db q) A"
  shows "case dispatch_round env handler now now' q of
      None \<Rightarrow> (\<exists>job\<in>ran A. handler job \<noteq> Ok True \<and> reschedule env now' job = None)
    | Some (None, q') \<Rightarrow> represents env rows (jq_db q') A
    | Some (Some job, q') \<Rightarrow> A (job_id job) = Some job \<and> job_available_at job \<le> now
        \<and> (\<forall>j\<in>ran A. job_available_at job \<le> job_available_at j)
        \<and> (represents env rows (jq_db q') (A(job_id job := None))
           \<or> handler job \<noteq> Ok True \<and> represents env rows (jq_db q') (A(job_id job := reschedule env now' job)))
        \<and> (if handler job = Ok True then represents env rows (jq_db q') (A(job_id job := None)) else True)"
proof -
  obtain r q1 where pop: "pop_available env now q = (r, q1)" by fastforce
  note popped = pop_available_refines [OF laws rep, of now, unfolded pop]
  show ?thesis
  proof (cases r)
    case (Inr found)
    show ?thesis
    proof (cases found)
      case (Some job)
      then have rep1: "represents env rows (jq_db q1) (A(job_id job := None))" and A: "A (job_id job) = Some job"
        using popped Inr by auto
      show ?thesis
      proof (cases "handler job = Ok True")
        case False
        note again = retry_job_refines [OF laws rep1, of now' job]
        show ?thesis
        proof (cases "retry_job env now' job q1")
          case None
          then show ?thesis
            using again A False by (auto simp: dispatch_round_def pop Inr Some intro: ranI)
        next
          case (Some p)
          then show ?thesis
            using again popped Inr False \<open>found = Some job\<close>
            by (cases p; cases "fst p") (auto simp: dispatch_round_def pop)
        qed
      qed (use popped Inr Some in \<open>simp add: dispatch_round_def pop\<close>)
    qed (use popped Inr in \<open>simp add: dispatch_round_def pop\<close>)
  qed (use popped in \<open>simp add: dispatch_round_def pop\<close>)
qed

text \<open>Query and deletion are separate statements: two workers that both run the query before either deletes
  both return the same job, although the deletion is described as atomic.\<close>

theorem job_delivered_twice:
  assumes laws: "store_laws env rows" and rep: "represents env rows db A"
    and query: "je_select env now db = Ok (Some r)"
    and first: "je_delete env (row_id r) db = (Ok (), db')"
    and second: "je_delete env (row_id r) db' = (Ok (), db'')"
  shows "\<exists>job. A (job_id job) = Some job \<and> pop_row env r db = (Ok (Some job), db')
    \<and> pop_row env r db' = (Ok (Some job), db'') \<and> represents env rows db'' (A(job_id job := None))"
proof -
  have "rows db (row_id r) = Some r" using store_laws_select(1) [OF laws query] by (rule conjunct1)
  then have "map_option (job_row env) (A (row_id r)) = Some r" using rep by (simp only: represents_def)
  then obtain job where job: "A (row_id r) = Some job" "r = job_row env job" by (auto simp: map_option_eq_Some)
  have del: "je_delete env (job_id job) db = (Ok (), db')" "je_delete env (job_id job) db' = (Ok (), db'')"
    using first second job by simp_all
  have "represents env rows db'' ((A(job_id job := None))(job_id job := None))"
    by (rule represents_delete [OF represents_delete [OF rep store_laws_update(5) [OF laws del(1)]]
        store_laws_update(5) [OF laws del(2)]])
  moreover have "pop_row env r db = (Ok (Some job), db')" "pop_row env r db' = (Ok (Some job), db'')"
    unfolding job(2) pop_row_decodes [OF laws] del by simp_all
  ultimately show ?thesis using job(1) unfolding job(2) by (intro exI [of _ job]) simp
qed

section \<open>The schedule of attempts\<close>

fun reschedules :: "'db JobEnv \<Rightarrow> nat list \<Rightarrow> Job \<Rightarrow> Job option" where
  "reschedules env [] job = Some job"
| "reschedules env (now # nows) job = Option.bind (reschedule env now job) (reschedules env nows)"

lemma reschedules_append:
  "reschedules env (ns @ ms) job = Option.bind (reschedules env ns job) (reschedules env ms)"
  by (induction env ns job rule: reschedules.induct) (auto split: Option.bind_splits)

lemma sint_backoff:
  assumes "k \<le> 32"
  shows "sint (2 ^ k :: u64) = 2 ^ k"
proof -
  have "(2 :: int) ^ k < 2 ^ 63" using assms by (intro power_strict_increasing) simp_all
  then have "signed_take_bit 63 ((2 :: int) ^ k) = 2 ^ k"
    by (intro signed_take_bit_int_eq_self) (simp_all add: order_trans [of _ 0])
  then show ?thesis by transfer simp
qed

lemma reschedule_eq:
  assumes "\<forall>t d. 0 \<le> d \<and> d \<le> 2 ^ 32 \<longrightarrow> je_add_seconds env t d = Some (t + nat d * 1000000000)"
    and "Suc k \<le> 32" and "job_attempts job = of_nat k"
  shows "reschedule env now job = Some (job\<lparr>job_attempts := of_nat (Suc k), job_available_at := now +
     (if unat (job_max_attempts job) \<le> Suc k then 3650 * 86400 else 2 ^ Suc k) * 1000000000\<rparr>)"
proof -
  have k: "unat (of_nat (Suc k) :: u32) = Suc k" using assms(2) by (simp add: unat_of_nat del: of_nat_Suc)
  have "(2 :: int) ^ Suc k \<le> 2 ^ 32" using assms(2) by (intro power_increasing) simp_all
  then have "je_add_seconds env now (2 ^ Suc k) = Some (now + 2 ^ Suc k * 1000000000)"
    using assms(1) by (simp add: nat_power_eq del: power_Suc)
  moreover have "je_add_seconds env now (3650 * 86400) = Some (now + 3650 * 86400 * 1000000000)"
    using assms(1) by simp
  moreover have "job_max_attempts job \<le> of_nat (Suc k) \<longleftrightarrow> unat (job_max_attempts job) \<le> Suc k"
    by (simp only: word_le_nat_alt k)
  moreover have "of_nat k + 1 = (of_nat (Suc k) :: u32)" by simp
  ultimately show ?thesis
    using sint_backoff [OF assms(2)] k assms(3)
    by (simp add: reschedule_def Let_def del: power_Suc of_nat_Suc)
qed

text \<open>Jobs that keep failing back off exponentially: after \<open>k\<close> failed attempts a new job has the
  attempt count \<open>k\<close> and becomes available \<open>2 ^ k\<close> seconds after the last failure, or, once the maximal
  number of attempts is reached, 3650 days after it.\<close>

theorem retry_schedule:
  assumes add: "\<forall>t d. 0 \<le> d \<and> d \<le> 2 ^ 32 \<longrightarrow> je_add_seconds env t d = Some (t + nat d * 1000000000)"
    and new: "job_attempts job = 0" and nows: "nows \<noteq> []" "length nows \<le> 32"
  shows "reschedules env nows job = Some (job\<lparr>job_attempts := of_nat (length nows),
     job_available_at := last nows + (if unat (job_max_attempts job) \<le> length nows then 3650 * 86400
                                      else 2 ^ length nows) * 1000000000\<rparr>)"
  using nows
proof (induction nows rule: rev_induct)
  case (snoc now nows)
  let ?k = "length nows"
  have "\<exists>t. reschedules env nows job = Some (job\<lparr>job_attempts := of_nat ?k, job_available_at := t\<rparr>)"
  proof (cases "nows = []")
    case True
    then show ?thesis using new by (intro exI [of _ "job_available_at job"]) simp
  next
    case False
    then show ?thesis using snoc by auto
  qed
  then obtain t where "reschedules env nows job = Some (job\<lparr>job_attempts := of_nat ?k, job_available_at := t\<rparr>)" ..
  then show ?case
    using snoc.prems(2) reschedule_eq [OF add, of ?k "job\<lparr>job_attempts := of_nat ?k, job_available_at := t\<rparr>" now]
    by (simp add: reschedules_append)
qed simp

section \<open>A table that satisfies the laws\<close>

definition table_rows :: "JobRow list \<Rightarrow> string \<rightharpoonup> JobRow" where
  "table_rows db k = List.find (\<lambda>r. row_id r = k) db"

definition due_rows :: "string \<Rightarrow> JobRow list \<Rightarrow> JobRow list" where
  "due_rows now db = filter (\<lambda>r. table_rows db (row_id r) = Some r \<and> row_available_at r \<le> now) db"

definition table_env :: "JobRow list JobEnv" where
  "table_env = \<lparr>je_open = (\<lambda>_. Ok 0), je_pragma = (\<lambda>_. Ok ()), je_create_table = (\<lambda>db. (Ok (), db)),
     je_create_index = (\<lambda>db. (Ok (), db)),
     je_insert = (\<lambda>r db. if table_rows db (row_id r) = None then (Ok (), r # db) else (Err ''UNIQUE'', db)),
     je_replace = (\<lambda>r db. (Ok (), r # db)),
     je_select = (\<lambda>now db. Ok (case sort_key row_available_at (due_rows now db) of [] \<Rightarrow> None | r # _ \<Rightarrow> Some r)),
     je_delete = (\<lambda>k db. (Ok (), filter (\<lambda>r. row_id r \<noteq> k) db)),
     je_to_rfc3339 = (\<lambda>t. replicate t CHR ''0''), je_parse_rfc3339 = (\<lambda>s. Ok (length s)),
     je_encode = (\<lambda>p. p), je_decode = (\<lambda>p. Ok p),
     je_add_seconds = (\<lambda>t d. Some (t + nat d * 1000000000))\<rparr>"

lemma replicate_le_iff: "replicate m c \<le> replicate n (c :: 'a :: linorder) \<longleftrightarrow> m \<le> n"
proof (induction m arbitrary: n)
  case (Suc m)
  then show ?case by (cases n) simp_all
qed simp

lemma table_rows_Cons: "table_rows (r # db) = (table_rows db)(row_id r \<mapsto> r)"
  by (auto simp: table_rows_def fun_eq_iff)

lemma table_rows_delete: "table_rows (filter (\<lambda>r. row_id r \<noteq> k) db) = (table_rows db)(k := None)"
proof (induction db)
  case (Cons r db)
  then show ?case by (auto simp: table_rows_Cons)
qed (simp add: table_rows_def fun_eq_iff)

lemma table_rows_SomeD: "table_rows db k = Some r \<Longrightarrow> r \<in> set db \<and> row_id r = k"
  by (induction db) (auto simp: table_rows_def split: if_splits)

lemma table_rows_ran: "r \<in> ran (table_rows db) \<longleftrightarrow> r \<in> set db \<and> table_rows db (row_id r) = Some r"
  by (auto simp: ran_def dest: table_rows_SomeD)

lemma due_rows_ran: "set (due_rows now db) = {r \<in> ran (table_rows db). row_available_at r \<le> now}"
  by (auto simp: due_rows_def table_rows_ran)

lemma hd_sort_key:
  assumes "sort_key f xs = y # ys"
  shows "y \<in> set xs \<and> (\<forall>x\<in>set xs. f y \<le> f x)"
proof -
  have "sorted (map f (y # ys))" "set xs = set (y # ys)" using sorted_sort_key [of f xs] set_sort [of f xs] assms by simp_all
  then show ?thesis by auto
qed

lemma table_select:
  assumes "je_select table_env now db = Ok found"
  shows "case found of
      Some r \<Rightarrow> table_rows db (row_id r) = Some r \<and> row_available_at r \<le> now
        \<and> (\<forall>s\<in>ran (table_rows db). row_available_at r \<le> row_available_at s)
    | None \<Rightarrow> \<forall>s\<in>ran (table_rows db). now < row_available_at s"
proof (cases "sort_key row_available_at (due_rows now db)")
  case Nil
  then have "set (due_rows now db) = {}" by (metis set_sort set_empty)
  then show ?thesis using assms Nil by (auto simp: table_env_def due_rows_ran)
next
  case (Cons r rs)
  from hd_sort_key [OF Cons] have r: "r \<in> ran (table_rows db)" "row_available_at r \<le> now"
      "\<forall>s\<in>ran (table_rows db). row_available_at s \<le> now \<longrightarrow> row_available_at r \<le> row_available_at s"
    by (auto simp: due_rows_ran)
  have "row_available_at r \<le> row_available_at s" if "s \<in> ran (table_rows db)" for s
    using r that by (cases "row_available_at s \<le> now") auto
  moreover have "found = Some r" using assms Cons by (simp add: table_env_def)
  ultimately show ?thesis using r by (simp add: table_rows_ran)
qed

lemma table_laws: "store_laws table_env table_rows"
  unfolding store_laws_def
  by (intro conjI allI impI; (drule table_select)?)
    (auto simp: table_env_def table_rows_Cons table_rows_delete replicate_le_iff split: if_splits)

definition demo_job :: Job where
  "demo_job = \<lparr>job_id = ''j1'', job_task_name = ''mail'', job_payload = ''hello'', job_available_at = 3,
     job_attempts = 0, job_max_attempts = 2\<rparr>"

definition demo_queue :: "JobRow list JobQueue" where
  "demo_queue = JobQueue_new ''jobs.db'' [job_row table_env demo_job]"

lemma demo_represents: "represents table_env table_rows (jq_db demo_queue) [''j1'' \<mapsto> demo_job]"
  by (auto simp: represents_def demo_queue_def JobQueue_new_def table_rows_def demo_job_def fun_eq_iff)

lemma demo_rows [simp]: "table_rows [job_row table_env demo_job] ''j1'' = Some (job_row table_env demo_job)"
  by (simp add: table_rows_def demo_job_def)

lemma demo_pop:
  "pop_available table_env 5 demo_queue = (Ok (Some demo_job), demo_queue\<lparr>jq_db := []\<rparr>)"
  by (simp add: pop_available_def with_connection_def cp_get_def demo_queue_def JobQueue_new_def ConnectionPool_new_def
      table_env_def due_rows_def pop_row_def table_rows_def demo_job_def job_row_def replicate_le_iff)


end
