(* ===== verification/Plugin_Memory.thy ===== *)
theory Plugin_Memory
  imports Skylet_Prelude
begin

text \<open>
  Memory for plugins, \<open>src/memory\<close>: the usage tracker (\<open>mod.rs\<close>), the arena that bounds the memory of a
  plugin (\<open>arena.rs\<close>) and the object pool (\<open>pool.rs\<close>).

  Addresses and sizes are 64-bit words, with 0 the null pointer; the pointer that the system allocator
  returns is an argument. Counters wrap around, as \<open>fetch_add\<close> and \<open>fetch_sub\<close> do. The relaxed atomic
  operations of a call are one step. The utilisation, a floating-point quotient, is left out.
\<close>

section \<open>The tracker\<close>

record MemoryTracker =
  mt_allocations :: usize
  mt_deallocations :: usize
  mt_peak_usage :: usize
  mt_current_usage :: usize

definition MemoryTracker_new :: MemoryTracker where
  "MemoryTracker_new = \<lparr>mt_allocations = 0, mt_deallocations = 0, mt_peak_usage = 0, mt_current_usage = 0\<rparr>"

definition track_allocation :: "usize \<Rightarrow> MemoryTracker \<Rightarrow> MemoryTracker" where
  "track_allocation sz t =
     (let new_current = mt_current_usage t + sz
      in t\<lparr>mt_allocations := mt_allocations t + 1, mt_current_usage := new_current,
           mt_peak_usage := (if mt_peak_usage t < new_current then new_current else mt_peak_usage t)\<rparr>)"

definition track_deallocation :: "usize \<Rightarrow> MemoryTracker \<Rightarrow> MemoryTracker" where
  "track_deallocation sz t =
     t\<lparr>mt_deallocations := mt_deallocations t + 1, mt_current_usage := mt_current_usage t - sz\<rparr>"

definition tracker_reset :: "MemoryTracker \<Rightarrow> MemoryTracker" where
  "tracker_reset t =
     t\<lparr>mt_allocations := 0, mt_deallocations := 0, mt_current_usage := 0, mt_peak_usage := 0\<rparr>"

record MemoryStats =
  ms_current_bytes :: usize
  ms_peak_bytes :: usize
  ms_total_allocations :: usize
  ms_total_deallocations :: usize

definition MemoryStats_from :: "MemoryTracker \<Rightarrow> MemoryStats" where
  "MemoryStats_from t = \<lparr>ms_current_bytes = mt_current_usage t, ms_peak_bytes = mt_peak_usage t,
     ms_total_allocations = mt_allocations t, ms_total_deallocations = mt_deallocations t\<rparr>"

section \<open>The arena\<close>

datatype AllocError = OutOfMemory | InvalidLayout

record PluginArena =
  pa_total_capacity :: usize
  pa_used :: usize
  pa_allocations :: usize
  pa_allocations_map :: "(usize, usize) hashmap"
  pa_tracker :: MemoryTracker

definition PluginArena_new :: "usize \<Rightarrow> PluginArena" where
  "PluginArena_new capacity_bytes =
     \<lparr>pa_total_capacity = capacity_bytes, pa_used = 0, pa_allocations = 0, pa_allocations_map = [],
      pa_tracker = MemoryTracker_new\<rparr>"

definition PluginArena_default :: PluginArena where
  "PluginArena_default = PluginArena_new (1024 * 1024)"

definition arena_alloc :: "usize \<Rightarrow> usize \<Rightarrow> PluginArena \<Rightarrow> (AllocError + usize) \<times> PluginArena" where
  "arena_alloc ptr sz a =
     (if pa_total_capacity a < pa_used a + sz then (Err OutOfMemory, a)
      else if ptr = 0 then (Err OutOfMemory, a)
      else (Ok ptr, a\<lparr>pa_used := pa_used a + sz, pa_allocations := pa_allocations a + 1,
                      pa_tracker := track_allocation sz (pa_tracker a),
                      pa_allocations_map := hm_insert ptr sz (pa_allocations_map a)\<rparr>))"

definition arena_dealloc :: "usize \<Rightarrow> usize \<Rightarrow> PluginArena \<Rightarrow> PluginArena" where
  "arena_dealloc ptr sz a =
     a\<lparr>pa_used := pa_used a - sz, pa_tracker := track_deallocation sz (pa_tracker a),
       pa_allocations_map := AList.delete ptr (pa_allocations_map a)\<rparr>"

definition available_bytes :: "PluginArena \<Rightarrow> usize" where
  "available_bytes a = (if pa_total_capacity a < pa_used a then 0 else pa_total_capacity a - pa_used a)"

definition arena_reset :: "PluginArena \<Rightarrow> PluginArena" where
  "arena_reset a = a\<lparr>pa_used := 0, pa_allocations := 0, pa_allocations_map := [],
     pa_tracker := tracker_reset (pa_tracker a)\<rparr>"

definition memory_stats :: "PluginArena \<Rightarrow> MemoryStats" where
  "memory_stats a = MemoryStats_from (pa_tracker a)"

text \<open>The \<open>GlobalAlloc\<close> implementation. A null pointer reports failure. \<open>copy_bytes\<close> is
  \<open>copy_nonoverlapping\<close> on a memory of bytes.\<close>

definition global_alloc :: "usize \<Rightarrow> usize \<Rightarrow> PluginArena \<Rightarrow> usize \<times> PluginArena" where
  "global_alloc sys_ptr sz a =
     (case arena_alloc sys_ptr sz a of (Ok ptr, a') \<Rightarrow> (ptr, a') | (Err _, a') \<Rightarrow> (0, a'))"

definition global_dealloc :: "usize \<Rightarrow> usize \<Rightarrow> PluginArena \<Rightarrow> PluginArena" where
  "global_dealloc ptr sz a = (if ptr \<noteq> 0 then arena_dealloc ptr sz a else a)"

definition copy_bytes :: "usize \<Rightarrow> usize \<Rightarrow> usize \<Rightarrow> (usize \<Rightarrow> char) \<Rightarrow> usize \<Rightarrow> char" where
  "copy_bytes src dst len mem = (\<lambda>p. if p - dst < len then mem (src + (p - dst)) else mem p)"

definition global_realloc :: "usize \<Rightarrow> usize \<Rightarrow> usize \<Rightarrow> usize \<Rightarrow> PluginArena \<times> (usize \<Rightarrow> char)
    \<Rightarrow> usize \<times> PluginArena \<times> (usize \<Rightarrow> char)" where
  "global_realloc sys_ptr ptr sz new_size s =
     (case s of (a, mem) \<Rightarrow>
       (if ptr \<noteq> 0
        then
          (case global_alloc sys_ptr new_size a of (new_ptr, a1) \<Rightarrow>
             if new_ptr \<noteq> 0
             then (new_ptr, global_dealloc ptr sz a1, copy_bytes ptr new_ptr (min sz new_size) mem)
             else (new_ptr, a1, mem))
        else (case global_alloc sys_ptr new_size a of (new_ptr, a1) \<Rightarrow> (new_ptr, a1, mem))))"

section \<open>The object pool\<close>

record 'a ObjectPool =
  op_pool :: "'a list"
  op_in_use :: usize
  op_max_size :: usize

definition ObjectPool_new :: "usize \<Rightarrow> 'a ObjectPool" where
  "ObjectPool_new max_size = \<lparr>op_pool = [], op_in_use = 0, op_max_size = max_size\<rparr>"

text \<open>\<open>fresh\<close> is what the factory makes if it is called.\<close>

definition pool_get :: "'a \<Rightarrow> 'a ObjectPool \<Rightarrow> 'a \<times> 'a ObjectPool" where
  "pool_get fresh p =
     (case op_pool p of
        [] \<Rightarrow> (fresh, p\<lparr>op_in_use := op_in_use p + 1\<rparr>)
      | x # xs \<Rightarrow> (x, p\<lparr>op_pool := xs, op_in_use := op_in_use p + 1\<rparr>))"

definition return_object :: "'a \<Rightarrow> 'a ObjectPool \<Rightarrow> 'a ObjectPool" where
  "return_object value p =
     (let p1 = (if length (op_pool p) < unat (op_max_size p) then p\<lparr>op_pool := op_pool p @ [value]\<rparr> else p)
      in p1\<lparr>op_in_use := op_in_use p1 - 1\<rparr>)"

definition available_count :: "'a ObjectPool \<Rightarrow> usize" where
  "available_count p = of_nat (length (op_pool p))"

definition total_count :: "'a ObjectPool \<Rightarrow> usize" where
  "total_count p = op_in_use p + available_count p"

definition pool_clear :: "'a ObjectPool \<Rightarrow> 'a ObjectPool" where
  "pool_clear p = p\<lparr>op_pool := []\<rparr>"

text \<open>The loop over \<open>0..count\<close>, with the objects that the factory would make, one for each round.\<close>

fun prefill :: "'a list \<Rightarrow> 'a ObjectPool \<Rightarrow> 'a ObjectPool" where
  "prefill [] p = p"
| "prefill (x # xs) p =
     prefill xs (if length (op_pool p) < unat (op_max_size p) then p\<lparr>op_pool := op_pool p @ [x]\<rparr> else p)"

text \<open>A guard holds its object until it is taken out; dropping a guard returns the object it still
  holds.\<close>

definition PooledObject_take :: "'a option \<Rightarrow> ('a \<times> 'a option) option" where
  "PooledObject_take guard = (case guard of None \<Rightarrow> None | Some v \<Rightarrow> Some (v, None))"

definition PooledObject_drop :: "'a option \<Rightarrow> 'a ObjectPool \<Rightarrow> 'a ObjectPool" where
  "PooledObject_drop guard p = (case guard of None \<Rightarrow> p | Some v \<Rightarrow> return_object v p)"

section \<open>Accounting of the arena\<close>

text \<open>The allocations that are live, as the allocation map records them.\<close>

definition live_bytes :: "PluginArena \<Rightarrow> nat" where
  "live_bytes a = sum_list (map (unat \<circ> snd) (pa_allocations_map a))"

definition arena_inv :: "PluginArena \<Rightarrow> bool" where
  "arena_inv a \<longleftrightarrow> distinct (hm_keys (pa_allocations_map a)) \<and> unat (pa_used a) = live_bytes a
     \<and> pa_used a \<le> pa_total_capacity a \<and> mt_current_usage (pa_tracker a) = pa_used a
     \<and> pa_used a \<le> mt_peak_usage (pa_tracker a) \<and> mt_peak_usage (pa_tracker a) \<le> pa_total_capacity a"

text \<open>The discipline of an allocator's users: the system allocator does not return a pointer that is
  live; blocks are freed with the size they were allocated with; \<open>reset\<close> is called only when nothing
  is live. \<open>Layout\<close> guarantees sizes below \<open>2 ^ 63\<close>.\<close>

inductive arena_step :: "PluginArena \<Rightarrow> PluginArena \<Rightarrow> bool" where
  step_alloc: "hm_get (pa_allocations_map a) ptr = None \<Longrightarrow> unat sz < 2 ^ 63 \<Longrightarrow>
    arena_step a (snd (arena_alloc ptr sz a))"
| step_dealloc: "hm_get (pa_allocations_map a) ptr = Some sz \<Longrightarrow> arena_step a (arena_dealloc ptr sz a)"
| step_realloc: "hm_get (pa_allocations_map a) ptr = Some sz \<Longrightarrow> hm_get (pa_allocations_map a) sys_ptr = None \<Longrightarrow>
    unat new_sz < 2 ^ 63 \<Longrightarrow> global_realloc sys_ptr ptr sz new_sz (a, mem) = (new_ptr, a', mem') \<Longrightarrow> arena_step a a'"
| step_reset: "pa_allocations_map a = [] \<Longrightarrow> arena_step a (arena_reset a)"

lemma sum_update_new:
  "hm_get m k = None \<Longrightarrow> sum_list (map (unat \<circ> snd) (hm_insert k v m)) = sum_list (map (unat \<circ> snd) m) + unat v"
  by (induction m) (auto split: if_splits)

lemma sum_delete:
  assumes "distinct (hm_keys m)" and "hm_get m k = Some v"
  shows "sum_list (map (unat \<circ> snd) (AList.delete k m)) + unat v = sum_list (map (unat \<circ> snd) m)"
  using assms
proof (induction m)
  case (Cons kv m)
  have "AList.delete k m = m" if "k \<notin> fst ` set m" using that by (induction m) auto
  with Cons show ?case by (auto split: if_splits)
qed simp

lemma arena_inv_new: "arena_inv (PluginArena_new c)"
  by (simp add: arena_inv_def PluginArena_new_def MemoryTracker_new_def live_bytes_def)

lemma arena_alloc_inv:
  assumes inv: "arena_inv a" and fresh: "hm_get (pa_allocations_map a) ptr = None"
    and sz: "unat sz < 2 ^ 63" and cap: "unat (pa_total_capacity a) \<le> 2 ^ 63"
  shows "arena_inv (snd (arena_alloc ptr sz a)) \<and> pa_total_capacity (snd (arena_alloc ptr sz a)) = pa_total_capacity a"
proof -
  have used: "unat (pa_used a) \<le> unat (pa_total_capacity a)" using inv by (simp add: arena_inv_def word_le_nat_alt)
  have "unat (pa_used a) + unat sz < 2 ^ 64" using used cap sz by simp
  then have add: "unat (pa_used a + sz) = unat (pa_used a) + unat sz"
    by (subst unat_add_lem [THEN iffD1]) simp_all
  show ?thesis
    using inv fresh add
    by (auto simp: arena_alloc_def arena_inv_def track_allocation_def Let_def live_bytes_def sum_update_new
        distinct_update not_less)
qed

lemma arena_dealloc_inv:
  assumes inv: "arena_inv a" and live: "hm_get (pa_allocations_map a) ptr = Some sz"
  shows "arena_inv (arena_dealloc ptr sz a)"
proof -
  have sum: "live_bytes (arena_dealloc ptr sz a) + unat sz = live_bytes a"
    using sum_delete [of "pa_allocations_map a" ptr sz] inv live
    by (simp add: live_bytes_def arena_dealloc_def arena_inv_def)
  then have le: "sz \<le> pa_used a" using inv by (simp add: arena_inv_def word_le_nat_alt)
  then have "unat (pa_used a - sz) = unat (pa_used a) - unat sz" by (rule unat_sub)
  moreover have "pa_used a - sz \<le> pa_used a" using le by (rule word_sub_le)
  ultimately show ?thesis
    using inv sum
    by (auto simp: arena_inv_def arena_dealloc_def track_deallocation_def live_bytes_def AList.delete_eq
        distinct_map_filter)
qed

lemma arena_dealloc_capacity: "pa_total_capacity (arena_dealloc ptr sz a) = pa_total_capacity a"
  by (simp add: arena_dealloc_def)

lemma arena_alloc_keeps_live:
  "hm_get (pa_allocations_map a) p = Some n \<Longrightarrow> p \<noteq> ptr \<Longrightarrow>
   hm_get (pa_allocations_map (snd (arena_alloc ptr sz a))) p = Some n"
  by (simp add: arena_alloc_def update_conv')

lemma global_alloc_state: "snd (global_alloc ptr sz a) = snd (arena_alloc ptr sz a)"
  by (auto simp: global_alloc_def split: prod.splits sum.splits)

lemma global_realloc_state:
  "fst (snd (global_realloc sys_ptr ptr sz new_sz (a, mem))) \<in>
     {snd (arena_alloc sys_ptr new_sz a), arena_dealloc ptr sz (snd (arena_alloc sys_ptr new_sz a))}"
  using global_alloc_state [of sys_ptr new_sz a]
  by (auto simp: global_realloc_def global_dealloc_def split: prod.splits)

lemma arena_reset_inv: "arena_inv (arena_reset a)"
  by (simp add: arena_inv_def arena_reset_def tracker_reset_def live_bytes_def)

text \<open>What every step keeps.\<close>

lemma arena_step_inv:
  assumes "arena_step a b" and inv: "arena_inv a" and cap: "unat (pa_total_capacity a) \<le> 2 ^ 63"
  shows "arena_inv b \<and> pa_total_capacity b = pa_total_capacity a"
  using assms(1)
proof cases
  case (step_alloc ptr sz)
  then show ?thesis using arena_alloc_inv [OF inv step_alloc(2,3) cap] by simp
next
  case (step_dealloc ptr sz)
  then show ?thesis using arena_dealloc_inv [OF inv step_dealloc(2)] by (simp add: arena_dealloc_capacity)
next
  case (step_realloc ptr sz sys_ptr new_sz mem new_ptr mem')
  let ?a = "snd (arena_alloc sys_ptr new_sz a)"
  have mid: "arena_inv ?a \<and> pa_total_capacity ?a = pa_total_capacity a"
    by (rule arena_alloc_inv [OF inv step_realloc(2,3) cap])
  have "ptr \<noteq> sys_ptr" using step_realloc(1,2) by auto
  then have "hm_get (pa_allocations_map ?a) ptr = Some sz"
    by (rule arena_alloc_keeps_live [OF step_realloc(1)])
  then have "arena_inv (arena_dealloc ptr sz ?a)" using mid arena_dealloc_inv by blast
  moreover have "b \<in> {?a, arena_dealloc ptr sz ?a}"
    using global_realloc_state [of sys_ptr ptr sz new_sz a mem] step_realloc(4) by simp
  ultimately show ?thesis using mid by (auto simp: arena_dealloc_capacity)
next
  case step_reset
  then show ?thesis using arena_reset_inv by (simp add: arena_reset_def)
qed

lemma arena_steps_inv:
  assumes "arena_step\<^sup>*\<^sup>* (PluginArena_new c) b" and cap: "unat c \<le> 2 ^ 63"
  shows "arena_inv b \<and> pa_total_capacity b = c"
  using assms(1)
proof induction
  case base
  show ?case using arena_inv_new [of c] by (simp add: PluginArena_new_def)
next
  case (step x y)
  then show ?case using arena_step_inv [of x y] cap by simp
qed

text \<open>However its users allocate, reallocate, free and reset an arena, as long as a block is freed
  with its own size and nothing is live at a reset, the counter of used bytes is the total size of the
  live blocks and never exceeds the capacity; the tracker agrees with it, its peak lies between the
  current usage and the capacity; and a request is granted exactly if it fits what is reported as
  available and the system allocator delivers.\<close>

theorem arena_accounting:
  assumes run: "arena_step\<^sup>*\<^sup>* (PluginArena_new c) a" and cap: "unat c \<le> 2 ^ 63"
    and sz: "unat sz < 2 ^ 63"
  shows "unat (pa_used a) = live_bytes a \<and> live_bytes a \<le> unat c
    \<and> unat (available_bytes a) = unat c - live_bytes a
    \<and> ms_current_bytes (memory_stats a) = pa_used a
    \<and> pa_used a \<le> ms_peak_bytes (memory_stats a) \<and> ms_peak_bytes (memory_stats a) \<le> c
    \<and> (fst (arena_alloc ptr sz a) = Ok ptr \<longleftrightarrow> unat sz \<le> unat (available_bytes a) \<and> ptr \<noteq> 0)"
proof -
  have inv: "arena_inv a" and c: "pa_total_capacity a = c" using arena_steps_inv [OF run cap] by auto
  have le: "pa_used a \<le> c" and used: "unat (pa_used a) = live_bytes a"
    using inv c by (auto simp: arena_inv_def)
  have bytes: "live_bytes a \<le> unat c" using le used by (simp add: word_le_nat_alt)
  have avail: "unat (available_bytes a) = unat c - live_bytes a"
    using le used unat_sub [OF le] c by (auto simp: available_bytes_def)
  have "unat (pa_used a) + unat sz < 2 ^ 64" using bytes used cap sz by simp
  then have "unat (pa_used a + sz) = unat (pa_used a) + unat sz"
    by (subst unat_add_lem [THEN iffD1]) simp_all
  then have "c < pa_used a + sz \<longleftrightarrow> unat c < live_bytes a + unat sz" using used by (simp add: word_less_nat_alt)
  then have "fst (arena_alloc ptr sz a) = Ok ptr \<longleftrightarrow> unat sz \<le> unat (available_bytes a) \<and> ptr \<noteq> 0"
    using avail bytes c by (auto simp: arena_alloc_def)
  then show ?thesis
    using inv c used bytes avail by (auto simp: memory_stats_def MemoryStats_from_def arena_inv_def)
qed

text \<open>Resetting an arena while a block is live breaks the accounting: when the block is freed
  afterwards, as the allocator contract demands, the counter of used bytes wraps around, the arena
  reports that nothing is available, and it refuses every request smaller than the block that leaves
  the sum beyond the capacity.\<close>

theorem arena_reset_underflow:
  fixes sz c n ptr ptr' :: usize
  assumes fits: "0 < sz" "sz \<le> c" "unat c < 2 ^ 63" and small: "n < sz" and ptr: "ptr \<noteq> 0"
  defines "a \<equiv> arena_dealloc ptr sz (arena_reset (snd (arena_alloc ptr sz (PluginArena_new c))))"
  shows "unat (pa_used a) = 2 ^ 64 - unat sz \<and> available_bytes a = 0
    \<and> arena_alloc ptr' n a = (Err OutOfMemory, a)"
proof -
  have used: "pa_used a = - sz" and cap: "pa_total_capacity a = c"
    by (auto simp: a_def arena_dealloc_def arena_reset_def arena_alloc_def PluginArena_new_def)
  have sz: "0 < unat sz" "unat sz \<le> unat c" "unat n < unat sz"
    using fits small by (simp_all add: word_less_nat_alt word_le_nat_alt)
  have neg: "unat (- sz) = 2 ^ 64 - unat sz"
    using sz(1) unat_sub_if' [of 0 sz] by simp
  have "unat (- sz + n) = 2 ^ 64 - unat sz + unat n"
    using neg sz fits(3) by (subst unat_add_lem [THEN iffD1]) simp_all
  then have "c < - sz + n" "c < - sz"
    using neg sz fits(3) by (simp_all add: word_less_nat_alt)
  then show ?thesis using used cap neg by (simp add: available_bytes_def arena_alloc_def)
qed

section \<open>Bounds of the pool\<close>

text \<open>The pool with the guards that are alive, each with the object it holds, and the number of
  objects that were taken out for good.\<close>

type_synonym 'a pool_state = "'a ObjectPool \<times> 'a list \<times> nat"

inductive pool_step :: "'a pool_state \<Rightarrow> 'a pool_state \<Rightarrow> bool" where
  step_get: "pool_get fresh p = (v, p') \<Longrightarrow> pool_step (p, guards, n) (p', v # guards, n)"
| step_set: "pool_step (p, gs @ v # hs, n) (p, gs @ w # hs, n)"
| step_drop: "pool_step (p, gs @ v # hs, n) (PooledObject_drop (Some v) p, gs @ hs, n)"
| step_take: "PooledObject_take (Some v) = Some (w, guard) \<Longrightarrow>
    pool_step (p, gs @ v # hs, n) (PooledObject_drop guard p, gs @ hs, Suc n)"
| step_clear: "pool_step (p, guards, n) (pool_clear p, guards, n)"
| step_prefill: "pool_step (p, guards, n) (prefill objs p, guards, n)"

lemma prefill_bounds:
  "op_in_use (prefill objs p) = op_in_use p \<and> op_max_size (prefill objs p) = op_max_size p
   \<and> (length (op_pool p) \<le> unat (op_max_size p) \<longrightarrow>
      length (op_pool (prefill objs p)) = min (length (op_pool p) + length objs) (unat (op_max_size p)))"
  by (induction objs p rule: prefill.induct) auto

lemma pool_step_inv:
  assumes "pool_step (p, guards, n) (q, held, m)"
    and "length (op_pool p) \<le> unat (op_max_size p)" and "op_in_use p = of_nat (length guards + n)"
  shows "length (op_pool q) \<le> unat (op_max_size q) \<and> op_in_use q = of_nat (length held + m)
    \<and> op_max_size q = op_max_size p"
  using assms
proof (cases rule: pool_step.cases)
  case (step_prefill objs)
  then show ?thesis using assms(2,3) prefill_bounds [of objs p] by simp
qed (auto simp: pool_get_def return_object_def PooledObject_drop_def PooledObject_take_def pool_clear_def
    split: list.splits)

text \<open>However guards are obtained, used, dropped and consumed, the pool keeps at most its maximal
  number of objects, and its counter is the number of guards that are alive plus the number of objects
  that were taken out of their guards: those are never counted down again.\<close>

theorem pool_accounting:
  assumes "pool_step\<^sup>*\<^sup>* (ObjectPool_new k, [], 0) (p, guards, n)"
  shows "length (op_pool p) \<le> unat k \<and> op_in_use p = of_nat (length guards + n)
    \<and> total_count p = of_nat (length guards + n + length (op_pool p))"
proof -
  have "length (op_pool (fst s)) \<le> unat (op_max_size (fst s)) \<and> op_max_size (fst s) = k
      \<and> op_in_use (fst s) = of_nat (length (fst (snd s)) + snd (snd s))"
    if "pool_step\<^sup>*\<^sup>* (ObjectPool_new k, [], 0) s" for s
    using that
  proof induction
    case base
    show ?case by (simp add: ObjectPool_new_def)
  next
    case (step s t)
    then show ?case by (cases s, cases t) (auto dest!: pool_step_inv)
  qed
  from this [OF assms] show ?thesis by (auto simp: total_count_def available_count_def)
qed

end
