(* ===== verification/Plugin_Mfa.thy ===== *)
theory Plugin_Mfa
  imports Rust_Str
begin

unbundle bit_operations_syntax

text \<open>
  Second factors for plugins, the part of \<open>abi/src/security.rs\<close> on multi-factor authentication: one-time
  passwords from the clock, backup codes, and the manager of factors and challenges.

  The message authentication code (HMAC-SHA1, whose result is an array of 20 bytes, given as a function
  of the index) and the hexadecimal MD5 digest are arguments. Clock readings are arguments, one for
  each reading. The random digits of backup codes are arguments.
\<close>

datatype SecurityError = NullPointer | InputTooLong | InvalidUtf8 | PointerValidationFailed
  | InvalidContextSignature | PluginCapacityExceeded | NoRemoteHostAvailable | AuthenticationFailed
  | PermissionDenied | SecretNotFound string | RotationFailed string

fun SecurityError_display :: "SecurityError \<Rightarrow> string" where
  "SecurityError_display NullPointer = ''Null pointer''"
| "SecurityError_display InputTooLong = ''Input too long''"
| "SecurityError_display InvalidUtf8 = ''Invalid UTF-8''"
| "SecurityError_display PointerValidationFailed = ''Pointer validation failed''"
| "SecurityError_display InvalidContextSignature = ''Invalid context signature''"
| "SecurityError_display PluginCapacityExceeded = ''Plugin capacity exceeded''"
| "SecurityError_display NoRemoteHostAvailable = ''No remote host available''"
| "SecurityError_display AuthenticationFailed = ''Authentication failed''"
| "SecurityError_display PermissionDenied = ''Permission denied''"
| "SecurityError_display (SecretNotFound s) = ''Secret not found: '' @ s"
| "SecurityError_display (RotationFailed s) = ''Rotation failed: '' @ s"

section \<open>One-time passwords\<close>

type_synonym byte = "8 word"
type_synonym hmac = "byte list \<Rightarrow> byte list \<Rightarrow> nat \<Rightarrow> byte"

record TOTPProvider =
  tp_secrets :: "(string, byte list) hashmap"
  tp_window_size :: u32
  tp_code_length :: u32

definition TOTPProvider_new :: "u32 \<Rightarrow> u32 \<Rightarrow> TOTPProvider" where
  "TOTPProvider_new window_size code_length =
     \<lparr>tp_secrets = [], tp_window_size = window_size, tp_code_length = code_length\<rparr>"

definition totp_register :: "string \<Rightarrow> byte list \<Rightarrow> TOTPProvider \<Rightarrow> TOTPProvider" where
  "totp_register plugin_id secret_seed t = t\<lparr>tp_secrets := hm_insert plugin_id secret_seed (tp_secrets t)\<rparr>"

text \<open>\<open>u64::to_be_bytes\<close> and \<open>u32::from_be_bytes\<close>.\<close>

definition u64_to_be_bytes :: "u64 \<Rightarrow> byte list" where
  "u64_to_be_bytes w = map (\<lambda>i. ucast (drop_bit (56 - 8 * i) w)) [0..<8]"

definition u32_from_be_bytes :: "byte \<Rightarrow> byte \<Rightarrow> byte \<Rightarrow> byte \<Rightarrow> u32" where
  "u32_from_be_bytes a b c d =
     push_bit 24 (ucast a) OR push_bit 16 (ucast b) OR push_bit 8 (ucast c) OR ucast d"

text \<open>\<open>format!("{:0width$}", n)\<close>\<close>

definition zero_padded :: "nat \<Rightarrow> nat \<Rightarrow> string" where
  "zero_padded width n = replicate (width - length (show_nat n)) CHR ''0'' @ show_nat n"

definition truncation_offset :: "(nat \<Rightarrow> byte) \<Rightarrow> nat" where
  "truncation_offset result = unat (result 19 AND 0x0f)"

text \<open>The code for a counter, the same in generation and verification.\<close>

definition totp_code_at :: "hmac \<Rightarrow> u32 \<Rightarrow> byte list \<Rightarrow> u64 \<Rightarrow> string" where
  "totp_code_at mac code_length secret counter =
     (let result = mac secret (u64_to_be_bytes counter);
          offset = truncation_offset result;
          truncated = u32_from_be_bytes (result offset AND 0x7f) (result (offset + 1)) (result (offset + 2)) (result (offset + 3));
          modulo = (10 :: u32) ^ unat code_length
      in zero_padded (unat code_length) (unat (truncated mod modulo)))"

definition totp_generate_code :: "hmac \<Rightarrow> u64 \<Rightarrow> string \<Rightarrow> TOTPProvider \<Rightarrow> SecurityError + string" where
  "totp_generate_code mac now plugin_id t =
     (case hm_get (tp_secrets t) plugin_id of
        None \<Rightarrow> Err AuthenticationFailed
      | Some secret \<Rightarrow> Ok (totp_code_at mac (tp_code_length t) secret (now div 30)))"

text \<open>The counters of the two loops of the verification, in their order, and the loops.\<close>

definition totp_counters :: "u32 \<Rightarrow> u64 \<Rightarrow> u64 list" where
  "totp_counters window_size time_counter =
     concat (map (\<lambda>i. [saturating_sub time_counter (of_nat i), time_counter + of_nat i]) [0..<Suc (unat window_size)])"

fun totp_try :: "(u64 \<Rightarrow> string) \<Rightarrow> string \<Rightarrow> u64 list \<Rightarrow> bool" where
  "totp_try code_at code [] = False"
| "totp_try code_at code (c # cs) = (if code = code_at c then True else totp_try code_at code cs)"

definition totp_verify_code :: "hmac \<Rightarrow> u64 \<Rightarrow> string \<Rightarrow> string \<Rightarrow> TOTPProvider \<Rightarrow> SecurityError + bool" where
  "totp_verify_code mac now plugin_id code t =
     (case hm_get (tp_secrets t) plugin_id of
        None \<Rightarrow> Err AuthenticationFailed
      | Some secret \<Rightarrow>
          Ok (totp_try (totp_code_at mac (tp_code_length t) secret) code
            (totp_counters (tp_window_size t) (now div 30))))"

definition window_size_seconds :: "TOTPProvider \<Rightarrow> u64" where
  "window_size_seconds t = ucast (tp_window_size t) * 30"

section \<open>Backup codes\<close>

record BackupCodeProvider =
  bp_codes :: "(string, string list) hashmap"
  bp_used_codes :: "string set"
  bp_default_count :: u32

definition BackupCodeProvider_new :: "u32 \<Rightarrow> BackupCodeProvider" where
  "BackupCodeProvider_new default_count =
     \<lparr>bp_codes = [], bp_used_codes = {}, bp_default_count = default_count\<rparr>"

text \<open>\<open>rng i j\<close> is the random number below 36 for character \<open>j\<close> of code \<open>i\<close>.\<close>

definition backup_char :: "nat \<Rightarrow> char" where
  "backup_char idx = (if idx < 10 then char_of (48 + idx) else char_of (97 + (idx - 10)))"

definition generate_codes :: "(string \<Rightarrow> string) \<Rightarrow> (nat \<Rightarrow> nat \<Rightarrow> nat) \<Rightarrow> string \<Rightarrow> BackupCodeProvider
    \<Rightarrow> string list \<times> BackupCodeProvider" where
  "generate_codes md5 rng plugin_id b =
     (let codes = map (\<lambda>i. map (\<lambda>j. backup_char (rng i j)) [0..<8]) [0..<unat (bp_default_count b)]
      in (codes, b\<lparr>bp_codes := hm_insert plugin_id (map md5 codes) (bp_codes b)\<rparr>))"

definition backup_verify_code :: "(string \<Rightarrow> string) \<Rightarrow> string \<Rightarrow> string \<Rightarrow> BackupCodeProvider
    \<Rightarrow> (SecurityError + bool) \<times> BackupCodeProvider" where
  "backup_verify_code md5 plugin_id code b =
     (case hm_get (bp_codes b) plugin_id of
        None \<Rightarrow> (Err AuthenticationFailed, b)
      | Some codes \<Rightarrow>
          (let code_hash = md5 code
           in if code_hash \<in> set codes
              then if code_hash \<in> bp_used_codes b then (Err AuthenticationFailed, b)
                   else (Ok True, b\<lparr>bp_used_codes := insert code_hash (bp_used_codes b)\<rparr>)
              else (Ok False, b)))"

definition remaining_codes :: "string \<Rightarrow> BackupCodeProvider \<Rightarrow> u32" where
  "remaining_codes plugin_id b =
     (case hm_get (bp_codes b) plugin_id of
        None \<Rightarrow> 0
      | Some codes \<Rightarrow> of_nat (length codes) - of_nat (card (bp_used_codes b)))"

section \<open>Factors and challenges\<close>

datatype MFAMethod = TOTP | BackupCodes | WebAuthn | PushNotification

record MFAFactor =
  mf_plugin_id :: string
  mf_method :: MFAMethod
  mf_enabled :: bool
  mf_created_at :: u64
  mf_last_used :: u64
  mf_secret_data :: "byte list"

record MFAChallenge =
  mc_plugin_id :: string
  mc_challenge_id :: string
  mc_method :: MFAMethod
  mc_created_at :: u64
  mc_expires_at :: u64
  mc_attempts :: u32
  mc_max_attempts :: u32

record MFAManager =
  mm_factors :: "(string, MFAFactor list) hashmap"
  mm_challenges :: "(string, MFAChallenge) hashmap"
  mm_totp :: TOTPProvider
  mm_backup_codes :: BackupCodeProvider

definition MFAManager_new :: MFAManager where
  "MFAManager_new = \<lparr>mm_factors = [], mm_challenges = [], mm_totp = TOTPProvider_new 1 6,
     mm_backup_codes = BackupCodeProvider_new 10\<rparr>"

definition register_factor :: "u64 \<Rightarrow> string \<Rightarrow> MFAMethod \<Rightarrow> byte list \<Rightarrow> MFAManager \<Rightarrow> MFAFactor \<times> MFAManager" where
  "register_factor now plugin_id method secret_data m =
     (let factor = \<lparr>mf_plugin_id = plugin_id, mf_method = method, mf_enabled = True, mf_created_at = now,
            mf_last_used = 0, mf_secret_data = secret_data\<rparr>;
          fs = (case hm_get (mm_factors m) plugin_id of None \<Rightarrow> [] | Some fs \<Rightarrow> fs);
          m1 = m\<lparr>mm_factors := hm_insert plugin_id (fs @ [factor]) (mm_factors m)\<rparr>
      in (factor, if method = TOTP then m1\<lparr>mm_totp := totp_register plugin_id secret_data (mm_totp m1)\<rparr> else m1))"

definition create_challenge :: "u64 \<Rightarrow> string \<Rightarrow> MFAMethod \<Rightarrow> MFAManager \<Rightarrow> MFAChallenge \<times> MFAManager" where
  "create_challenge now plugin_id method m =
     (let challenge_id = plugin_id @ ''-'' @ show_u64 now;
          challenge = \<lparr>mc_plugin_id = plugin_id, mc_challenge_id = challenge_id, mc_method = method,
            mc_created_at = now, mc_expires_at = now + 300, mc_attempts = 0, mc_max_attempts = 3\<rparr>
      in (challenge, m\<lparr>mm_challenges := hm_insert challenge_id challenge (mm_challenges m)\<rparr>))"

definition verify_challenge :: "hmac \<Rightarrow> (string \<Rightarrow> string) \<Rightarrow> u64 \<Rightarrow> u64 \<Rightarrow> string \<Rightarrow> string \<Rightarrow> MFAManager
    \<Rightarrow> (SecurityError + bool) \<times> MFAManager" where
  "verify_challenge mac md5 now now' challenge_id code m =
     (case hm_get (mm_challenges m) challenge_id of
        None \<Rightarrow> (Err AuthenticationFailed, m)
      | Some challenge \<Rightarrow>
          if mc_expires_at challenge < now \<or> mc_max_attempts challenge \<le> mc_attempts challenge
          then (Err AuthenticationFailed, m\<lparr>mm_challenges := AList.delete challenge_id (mm_challenges m)\<rparr>)
          else
            (let m1 = m\<lparr>mm_challenges := hm_insert challenge_id
                   (challenge\<lparr>mc_attempts := mc_attempts challenge + 1\<rparr>) (mm_challenges m)\<rparr>
             in case mc_method challenge of
                  TOTP \<Rightarrow> (totp_verify_code mac now' (mc_plugin_id challenge) code (mm_totp m1), m1)
                | BackupCodes \<Rightarrow>
                    (case backup_verify_code md5 (mc_plugin_id challenge) code (mm_backup_codes m1) of
                       (r, b) \<Rightarrow> (r, m1\<lparr>mm_backup_codes := b\<rparr>))
                | _ \<Rightarrow> (Err AuthenticationFailed, m1)))"

definition list_factors :: "string \<Rightarrow> MFAManager \<Rightarrow> MFAFactor list" where
  "list_factors plugin_id m = (case hm_get (mm_factors m) plugin_id of None \<Rightarrow> [] | Some fs \<Rightarrow> fs)"

definition disable_factor :: "string \<Rightarrow> MFAMethod \<Rightarrow> MFAManager \<Rightarrow> (SecurityError + unit) \<times> MFAManager" where
  "disable_factor plugin_id method m =
     (case hm_get (mm_factors m) plugin_id of
        Some fs \<Rightarrow>
          (Ok (), m\<lparr>mm_factors := hm_insert plugin_id
             (map (\<lambda>f. if mf_method f = method then f\<lparr>mf_enabled := False\<rparr> else f) fs) (mm_factors m)\<rparr>)
      | None \<Rightarrow> (Err AuthenticationFailed, m))"

section \<open>The window of one-time passwords\<close>

lemma totp_try_iff: "totp_try f code cs \<longleftrightarrow> (\<exists>c\<in>set cs. code = f c)"
  by (induction f code cs rule: totp_try.induct) auto

lemma truncation_offset_bound: "truncation_offset result + 3 < 20"
proof -
  have "result 19 AND 0x0f \<le> (0x0f :: byte)" by (rule word_and_le1)
  then have "unat (result 19 AND 0x0f) \<le> 15" by (simp add: word_le_nat_alt)
  then show ?thesis by (simp add: truncation_offset_def)
qed

lemma counter_small: "unat (now div 30 :: u64) + n < 2 ^ 64" if "n < 2 ^ 33"
proof -
  have "unat (now div 30) = unat now div 30" by (simp add: unat_div_distrib)
  also have "\<dots> < 2 ^ 64 div 30 + 1" using unsigned_less [of now, where ?'a = nat] by (simp add: div_le_mono less_Suc_eq_le)
  finally show ?thesis using that by simp
qed

lemma set_totp_counters:
  "c \<in> set (totp_counters w (now div 30)) \<longleftrightarrow>
   unat c \<le> unat (now div 30) + unat w \<and> unat (now div 30) \<le> unat c + unat w"
proof -
  let ?t = "unat (now div 30)"
  have w: "unat w < 2 ^ 33" using unsigned_less [of w, where ?'a = nat] by simp
  have up: "unat (now div 30 + of_nat i) = ?t + i" and down: "unat (saturating_sub (now div 30) (of_nat i)) = ?t - i"
    if "i < Suc (unat w)" for i
  proof -
    have i: "?t + i < 2 ^ 64" "i < 2 ^ 64" using counter_small [of i now] that w by simp_all
    then have of: "unat (of_nat i :: u64) = i" by (simp add: unat_of_nat)
    then show "unat (now div 30 + of_nat i) = ?t + i" using i by (simp add: unat_word_ariths)
    show "unat (saturating_sub (now div 30) (of_nat i)) = ?t - i" using of by (simp add: saturating_sub_unat)
  qed
  have "c \<in> set (totp_counters w (now div 30)) \<longleftrightarrow>
      (\<exists>i<Suc (unat w). c = saturating_sub (now div 30) (of_nat i) \<or> c = now div 30 + of_nat i)"
    by (auto simp: totp_counters_def simp del: upt_Suc)
  also have "\<dots> \<longleftrightarrow> (\<exists>i<Suc (unat w). unat c = ?t - i \<or> unat c = ?t + i)"
    using up down by (auto simp only: word_unat_eq_iff)
  also have "\<dots> \<longleftrightarrow> unat c \<le> ?t + unat w \<and> ?t \<le> unat c + unat w"
  proof
    assume "unat c \<le> ?t + unat w \<and> ?t \<le> unat c + unat w"
    then show "\<exists>i<Suc (unat w). unat c = ?t - i \<or> unat c = ?t + i"
      by (intro exI [of _ "(unat c - ?t) + (?t - unat c)"]) auto
  qed auto
  finally show ?thesis .
qed



section \<open>Operations of the manager\<close>

datatype mfa_op =
    RegisterFactor u64 string MFAMethod "byte list"
  | CreateChallenge u64 string MFAMethod
  | VerifyChallenge u64 u64 string string
  | DisableFactor string MFAMethod
  | GenerateCodes "nat \<Rightarrow> nat \<Rightarrow> nat" string

fun mfa_apply :: "hmac \<Rightarrow> (string \<Rightarrow> string) \<Rightarrow> mfa_op \<Rightarrow> MFAManager \<Rightarrow> MFAManager" where
  "mfa_apply mac md5 (RegisterFactor now p method secret) m = snd (register_factor now p method secret m)"
| "mfa_apply mac md5 (CreateChallenge now p method) m = snd (create_challenge now p method m)"
| "mfa_apply mac md5 (VerifyChallenge now now' cid code) m = snd (verify_challenge mac md5 now now' cid code m)"
| "mfa_apply mac md5 (DisableFactor p method) m = snd (disable_factor p method m)"
| "mfa_apply mac md5 (GenerateCodes rng p) m =
     m\<lparr>mm_backup_codes := snd (generate_codes md5 rng p (mm_backup_codes m))\<rparr>"

definition mfa_run :: "hmac \<Rightarrow> (string \<Rightarrow> string) \<Rightarrow> mfa_op list \<Rightarrow> MFAManager \<Rightarrow> MFAManager" where
  "mfa_run mac md5 ops m = foldl (\<lambda>m op. mfa_apply mac md5 op m) m ops"

lemma mfa_run_simps [simp]:
  "mfa_run mac md5 [] m = m"
  "mfa_run mac md5 (op # ops) m = mfa_run mac md5 ops (mfa_apply mac md5 op m)"
  by (simp_all add: mfa_run_def)

fun creates :: "string \<Rightarrow> mfa_op \<Rightarrow> bool" where
  "creates cid (CreateChallenge now p method) = (p @ ''-'' @ show_u64 now = cid)"
| "creates cid _ = False"

text \<open>How often a code was compared in answer to a challenge.\<close>

fun attempts_made :: "hmac \<Rightarrow> (string \<Rightarrow> string) \<Rightarrow> string \<Rightarrow> mfa_op list \<Rightarrow> MFAManager \<Rightarrow> nat" where
  "attempts_made mac md5 cid [] m = 0"
| "attempts_made mac md5 cid (op # ops) m =
     (case op of
        VerifyChallenge now now' c code \<Rightarrow>
          (if c = cid \<and> \<not> isl (fst (verify_challenge mac md5 now now' c code m)) then 1 else 0)
      | _ \<Rightarrow> 0)
     + attempts_made mac md5 cid ops (mfa_apply mac md5 op m)"

definition attempts_left :: "string \<Rightarrow> MFAManager \<Rightarrow> nat" where
  "attempts_left cid m =
     (case hm_get (mm_challenges m) cid of
        None \<Rightarrow> 0 | Some ch \<Rightarrow> unat (mc_max_attempts ch) - unat (mc_attempts ch))"

lemma mm_challenges_simps [simp]:
  "mm_challenges (snd (register_factor now p method secret m)) = mm_challenges m"
  "mm_challenges (snd (disable_factor p method m)) = mm_challenges m"
  by (auto simp: register_factor_def disable_factor_def Let_def split: option.split)

lemma verify_challenge_map:
  "mm_challenges (snd (verify_challenge mac md5 now now' cid code m)) =
     (case hm_get (mm_challenges m) cid of
        None \<Rightarrow> mm_challenges m
      | Some ch \<Rightarrow>
          if mc_expires_at ch < now \<or> mc_max_attempts ch \<le> mc_attempts ch
          then AList.delete cid (mm_challenges m)
          else hm_insert cid (ch\<lparr>mc_attempts := mc_attempts ch + 1\<rparr>) (mm_challenges m))"
  by (auto simp: verify_challenge_def Let_def split: option.split MFAMethod.split prod.split)

lemma attempts_left_count:
  assumes "\<not> mc_max_attempts ch \<le> mc_attempts ch"
  shows "Suc (unat (mc_max_attempts ch) - unat (mc_attempts ch + 1)) = unat (mc_max_attempts ch) - unat (mc_attempts ch)"
proof -
  have lt: "unat (mc_attempts ch) < unat (mc_max_attempts ch)" using assms by (simp add: word_le_nat_alt)
  then have "mc_attempts ch + 1 \<noteq> 0"
    by (metis assms word_less_nat_alt less_irrefl word_not_simps(1) word_le_less_eq linear max_word_max max_word_wrap)
  then have "unat (mc_attempts ch + 1) = Suc (unat (mc_attempts ch))" by (simp add: unatSuc add.commute)
  then show ?thesis using lt by simp
qed

lemma attempts_left_verify:
  "(if c = cid \<and> \<not> isl (fst (verify_challenge mac md5 now now' c code m)) then 1 else 0)
   + attempts_left cid (snd (verify_challenge mac md5 now now' c code m)) \<le> attempts_left cid m"
proof (cases "hm_get (mm_challenges m) c")
  case None
  then show ?thesis by (simp add: verify_challenge_def)
next
  case (Some ch)
  show ?thesis
  proof (cases "mc_expires_at ch < now \<or> mc_max_attempts ch \<le> mc_attempts ch")
    case True
    then show ?thesis
      using Some by (auto simp: verify_challenge_def attempts_left_def delete_conv')
  next
    case False
    then show ?thesis
      using Some attempts_left_count [of ch]
      by (auto simp: attempts_left_def verify_challenge_map update_conv')
  qed
qed

lemma attempts_made_le:
  "list_all (\<lambda>op. \<not> creates cid op) ops \<Longrightarrow> attempts_made mac md5 cid ops m \<le> attempts_left cid m"
proof (induction mac md5 cid ops m rule: attempts_made.induct)
  case (2 mac md5 cid op ops m)
  then have IH: "attempts_made mac md5 cid ops (mfa_apply mac md5 op m) \<le> attempts_left cid (mfa_apply mac md5 op m)"
    by simp
  show ?case
  proof (cases op)
    case (VerifyChallenge now now' c code)
    then show ?thesis
      using IH attempts_left_verify [of c cid mac md5 now now' code m] by simp
  qed (use 2 IH in \<open>auto simp: attempts_left_def create_challenge_def Let_def update_conv'\<close>)
qed simp

text \<open>At most three codes are compared in answer to a challenge, whatever other operations happen in
  between, as long as no new challenge takes over its identifier, that is, none is created for the same
  plugin in the same second.\<close>

theorem challenge_attempts_bounded:
  assumes "create_challenge now plugin_id method m = (ch, m')"
    and "list_all (\<lambda>op. \<not> creates (mc_challenge_id ch) op) ops"
  shows "attempts_made mac md5 (mc_challenge_id ch) ops m' \<le> 3"
proof -
  have "attempts_left (mc_challenge_id ch) m' = 3"
    using assms(1) by (auto simp: create_challenge_def Let_def attempts_left_def update_conv')
  then show ?thesis using attempts_made_le [OF assms(2), of mac md5 m'] by simp
qed

lemma used_codes_mono: "bp_used_codes (mm_backup_codes m) \<subseteq> bp_used_codes (mm_backup_codes (mfa_apply mac md5 op m))"
  by (cases op) (auto simp: register_factor_def create_challenge_def disable_factor_def generate_codes_def
      verify_challenge_def backup_verify_code_def Let_def split: option.split MFAMethod.split if_splits)

lemma used_codes_run: "bp_used_codes (mm_backup_codes m) \<subseteq> bp_used_codes (mm_backup_codes (mfa_run mac md5 ops m))"
proof (induction ops arbitrary: m)
  case (Cons op ops)
  then show ?case using used_codes_mono [of m mac md5 op] by fastforce
qed simp

lemma backup_accepted:
  assumes "verify_challenge mac md5 now now' cid code m = (Ok True, m')"
    and "hm_get (mm_challenges m) cid = Some ch" and "mc_method ch = BackupCodes"
  shows "md5 code \<in> bp_used_codes (mm_backup_codes m')"
  using assms by (auto simp: verify_challenge_def backup_verify_code_def Let_def split: if_splits option.splits)

text \<open>(C35) A backup code is accepted once: after it was accepted in answer to a challenge, no later operation
  accepts it, for any plugin, even if the same code is generated again.\<close>

theorem backup_code_single_use:
  assumes "verify_challenge mac md5 now now' cid code m = (Ok True, m')"
    and "hm_get (mm_challenges m) cid = Some ch" and "mc_method ch = BackupCodes"
    and "hm_get (mm_challenges (mfa_run mac md5 ops m')) cid' = Some ch'" and "mc_method ch' = BackupCodes"
  shows "fst (verify_challenge mac md5 t t' cid' code (mfa_run mac md5 ops m')) \<noteq> Ok True"
proof -
  have "md5 code \<in> bp_used_codes (mm_backup_codes (mfa_run mac md5 ops m'))"
    using backup_accepted [OF assms(1-3)] used_codes_run by blast
  then show ?thesis
    using assms(4,5) by (auto simp: verify_challenge_def backup_verify_code_def Let_def split: if_splits option.splits)
qed

definition demo_codes :: MFAManager where
  "demo_codes = snd (create_challenge 10 ''p'' BackupCodes
     (mfa_apply (\<lambda>_ _ _. 1) (\<lambda>s. s) (GenerateCodes (\<lambda>i j. i) ''p'') MFAManager_new))"

lemma show_u64_10: "show_u64 10 = ''10''"
  by (simp add: show_u64_def show_nat.simps digit_char_def char_of_def bit_0)

lemmas demo_codes_eval = demo_codes_def create_challenge_def generate_codes_def backup_char_def MFAManager_new_def
  BackupCodeProvider_new_def show_u64_10 Let_def upt_rec [of _ "10"] upt_rec [of _ "8"]

theorem backup_code_single_use_witness:
  "fst (verify_challenge (\<lambda>_ _ _. 1) (\<lambda>s. s) 11 11 ''p-10'' ''33333333'' demo_codes) = Ok True
   \<and> fst (verify_challenge (\<lambda>_ _ _. 1) (\<lambda>s. s) 12 12 ''p-10'' ''33333333''
        (snd (verify_challenge (\<lambda>_ _ _. 1) (\<lambda>s. s) 11 11 ''p-10'' ''33333333'' demo_codes))) \<noteq> Ok True"
proof -
  let ?m = "snd (verify_challenge (\<lambda>_ _ _. 1) (\<lambda>s. s) 11 11 ''p-10'' ''33333333'' demo_codes)"
  have ok: "fst (verify_challenge (\<lambda>_ _ _. 1) (\<lambda>s. s) 11 11 ''p-10'' ''33333333'' demo_codes) = Ok True"
    by (simp add: verify_challenge_def backup_verify_code_def demo_codes_eval char_of_def bit_0)
  then have first: "verify_challenge (\<lambda>_ _ _. 1) (\<lambda>s. s) 11 11 ''p-10'' ''33333333'' demo_codes = (Ok True, ?m)"
    by (metis prod.collapse)
  have "\<exists>ch. hm_get (mm_challenges demo_codes) ''p-10'' = Some ch \<and> mc_method ch = BackupCodes"
    and "\<exists>ch. hm_get (mm_challenges (mfa_run (\<lambda>_ _ _. 1) (\<lambda>s. s) [] ?m)) ''p-10'' = Some ch \<and> mc_method ch = BackupCodes"
    by (simp_all add: verify_challenge_map demo_codes_eval)
  then obtain ch ch' where ch: "hm_get (mm_challenges demo_codes) ''p-10'' = Some ch" "mc_method ch = BackupCodes"
    "hm_get (mm_challenges (mfa_run (\<lambda>_ _ _. 1) (\<lambda>s. s) [] ?m)) ''p-10'' = Some ch'" "mc_method ch' = BackupCodes"
    by blast
  show ?thesis using ok backup_code_single_use [OF first ch, of 12 12] by simp
qed

end
