(* ===== verification/Plugin_Auth.thy ===== *)
theory Plugin_Auth
  imports Plugin_Mfa
begin

text \<open>
  Authentication of plugins, the part of \<open>abi/src/security.rs\<close> with credentials, roles and permissions,
  the rotation of credentials and the authenticator, which uses the second factors of \<open>Plugin_Mfa\<close>.

  Clock readings (seconds) are arguments, one for each reading. The encrypted store that the
  authenticator keeps but never uses is left out.
\<close>

section \<open>Credentials, roles and permissions\<close>

datatype CredentialType = ApiKey | Certificate | OAuth2Token | BasicAuth

record PluginCredential =
  pc_credential_type :: CredentialType
  pc_plugin_id :: string
  pc_credential_data :: string
  pc_issued_at :: u64
  pc_expires_at :: u64
  pc_scopes :: "string list"

definition PluginCredential_new :: "u64 \<Rightarrow> CredentialType \<Rightarrow> string \<Rightarrow> string \<Rightarrow> string list \<Rightarrow> PluginCredential" where
  "PluginCredential_new now credential_type plugin_id credential_data scopes =
     \<lparr>pc_credential_type = credential_type, pc_plugin_id = plugin_id, pc_credential_data = credential_data,
      pc_issued_at = now, pc_expires_at = now + 365 * 24 * 60 * 60, pc_scopes = scopes\<rparr>"

definition is_expired :: "u64 \<Rightarrow> PluginCredential \<Rightarrow> bool" where
  "is_expired now c \<longleftrightarrow> (if pc_expires_at c = 0 then False else pc_expires_at c < now)"

definition has_scope :: "PluginCredential \<Rightarrow> string \<Rightarrow> bool" where
  "has_scope c scope \<longleftrightarrow> scope \<in> set (pc_scopes c)"

datatype PluginRole = RoleNone | Viewer | Editor | Admin | System

definition can_read :: "PluginRole \<Rightarrow> bool" where
  "can_read role \<longleftrightarrow> role \<in> {Viewer, Editor, Admin, System}"

definition can_write :: "PluginRole \<Rightarrow> bool" where
  "can_write role \<longleftrightarrow> role \<in> {Editor, Admin, System}"

definition can_admin :: "PluginRole \<Rightarrow> bool" where
  "can_admin role \<longleftrightarrow> role \<in> {Admin, System}"

definition can_system :: "PluginRole \<Rightarrow> bool" where
  "can_system role \<longleftrightarrow> role = System"

record PluginPermissions =
  pp_read_config :: bool
  pp_write_config :: bool
  pp_read_secrets :: bool
  pp_write_secrets :: bool
  pp_access_network :: bool
  pp_manage_plugins :: bool
  pp_access_audit_logs :: bool
  pp_system_admin :: bool

fun from_role :: "PluginRole \<Rightarrow> PluginPermissions" where
  "from_role RoleNone = \<lparr>pp_read_config = False, pp_write_config = False, pp_read_secrets = False,
     pp_write_secrets = False, pp_access_network = False, pp_manage_plugins = False,
     pp_access_audit_logs = False, pp_system_admin = False\<rparr>"
| "from_role Viewer = \<lparr>pp_read_config = True, pp_write_config = False, pp_read_secrets = False,
     pp_write_secrets = False, pp_access_network = False, pp_manage_plugins = False,
     pp_access_audit_logs = False, pp_system_admin = False\<rparr>"
| "from_role Editor = \<lparr>pp_read_config = True, pp_write_config = True, pp_read_secrets = False,
     pp_write_secrets = False, pp_access_network = True, pp_manage_plugins = False,
     pp_access_audit_logs = False, pp_system_admin = False\<rparr>"
| "from_role Admin = \<lparr>pp_read_config = True, pp_write_config = True, pp_read_secrets = True,
     pp_write_secrets = True, pp_access_network = True, pp_manage_plugins = True,
     pp_access_audit_logs = True, pp_system_admin = False\<rparr>"
| "from_role System = \<lparr>pp_read_config = True, pp_write_config = True, pp_read_secrets = True,
     pp_write_secrets = True, pp_access_network = True, pp_manage_plugins = True,
     pp_access_audit_logs = True, pp_system_admin = True\<rparr>"

definition permissions_check :: "PluginPermissions \<Rightarrow> string \<Rightarrow> bool" where
  "permissions_check p permission_name =
     (if permission_name = ''read_config'' then pp_read_config p
      else if permission_name = ''write_config'' then pp_write_config p
      else if permission_name = ''read_secrets'' then pp_read_secrets p
      else if permission_name = ''write_secrets'' then pp_write_secrets p
      else if permission_name = ''access_network'' then pp_access_network p
      else if permission_name = ''manage_plugins'' then pp_manage_plugins p
      else if permission_name = ''access_audit_logs'' then pp_access_audit_logs p
      else if permission_name = ''system_admin'' then pp_system_admin p
      else False)"

section \<open>Rotation\<close>

datatype RotationPolicy = Disabled | TimeBased | EventBased

datatype CredentialStatus = ActiveCred | Grace | Retired

record CredentialVersion =
  cv_version :: u32
  cv_credential :: PluginCredential
  cv_status :: CredentialStatus
  cv_created_at :: u64
  cv_rotated_at :: "u64 option"
  cv_retired_at :: "u64 option"

definition CredentialVersion_new :: "u64 \<Rightarrow> u32 \<Rightarrow> PluginCredential \<Rightarrow> CredentialVersion" where
  "CredentialVersion_new now version credential =
     \<lparr>cv_version = version, cv_credential = credential, cv_status = ActiveCred, cv_created_at = now,
      cv_rotated_at = None, cv_retired_at = None\<rparr>"

record RotationHistory =
  rh_plugin_id :: string
  rh_from_version :: u32
  rh_to_version :: u32
  rh_rotation_time :: u64
  rh_reason :: string

record CredentialRotationManager =
  rm_rotations :: "(string, RotationHistory list) hashmap"
  rm_rotation_policy :: RotationPolicy
  rm_grace_period :: u64
  rm_rotation_interval :: u64

definition CredentialRotationManager_new :: "RotationPolicy \<Rightarrow> u64 \<Rightarrow> u64 \<Rightarrow> CredentialRotationManager" where
  "CredentialRotationManager_new policy grace_period rotation_interval =
     \<lparr>rm_rotations = [], rm_rotation_policy = policy, rm_grace_period = grace_period,
      rm_rotation_interval = rotation_interval\<rparr>"

definition rm_get_rotation_history :: "string \<Rightarrow> CredentialRotationManager \<Rightarrow> RotationHistory list" where
  "rm_get_rotation_history plugin_id r =
     (case hm_get (rm_rotations r) plugin_id of None \<Rightarrow> [] | Some h \<Rightarrow> h)"

definition record_rotation :: "u64 \<Rightarrow> string \<Rightarrow> u32 \<Rightarrow> u32 \<Rightarrow> string \<Rightarrow> CredentialRotationManager
    \<Rightarrow> CredentialRotationManager" where
  "record_rotation now plugin_id from_version to_version reason r =
     (let history = (case hm_get (rm_rotations r) plugin_id of None \<Rightarrow> [] | Some h \<Rightarrow> h)
      in r\<lparr>rm_rotations := hm_insert plugin_id
            (history @ [\<lparr>rh_plugin_id = plugin_id, rh_from_version = from_version, rh_to_version = to_version,
               rh_rotation_time = now, rh_reason = reason\<rparr>]) (rm_rotations r)\<rparr>)"

definition is_in_grace_period :: "u64 \<Rightarrow> u64 \<Rightarrow> bool" where
  "is_in_grace_period now retired_at \<longleftrightarrow> saturating_sub now retired_at < 604800"

definition set_rotation_policy :: "RotationPolicy \<Rightarrow> CredentialRotationManager \<Rightarrow> CredentialRotationManager" where
  "set_rotation_policy policy r = r\<lparr>rm_rotation_policy := policy\<rparr>"

section \<open>The authenticator\<close>

record PluginAuthenticator =
  pa_credentials :: "(string, PluginCredential) hashmap"
  pa_roles :: "(string, PluginRole) hashmap"
  pa_rotation_manager :: CredentialRotationManager
  pa_credential_versions :: "(string, CredentialVersion list) hashmap"
  pa_mfa_manager :: MFAManager
  pa_mfa_enabled :: "(string, bool) hashmap"

definition PluginAuthenticator_new :: PluginAuthenticator where
  "PluginAuthenticator_new =
     \<lparr>pa_credentials = [], pa_roles = [],
      pa_rotation_manager = CredentialRotationManager_new TimeBased 604800 2592000,
      pa_credential_versions = [], pa_mfa_manager = MFAManager_new, pa_mfa_enabled = []\<rparr>"

definition register_credential :: "u64 \<Rightarrow> string \<Rightarrow> CredentialType \<Rightarrow> string \<Rightarrow> PluginRole \<Rightarrow> string list
    \<Rightarrow> PluginAuthenticator \<Rightarrow> PluginAuthenticator" where
  "register_credential now plugin_id credential_type credential_data role scopes a =
     a\<lparr>pa_credentials := hm_insert plugin_id
          (PluginCredential_new now credential_type plugin_id credential_data scopes) (pa_credentials a),
       pa_roles := hm_insert plugin_id role (pa_roles a)\<rparr>"

definition authenticate :: "u64 \<Rightarrow> string \<Rightarrow> PluginAuthenticator \<Rightarrow> SecurityError + PluginRole" where
  "authenticate now plugin_id a =
     result_bind (ok_or AuthenticationFailed (hm_get (pa_credentials a) plugin_id)) (\<lambda>credential.
       if is_expired now credential then Err AuthenticationFailed
       else ok_or AuthenticationFailed (hm_get (pa_roles a) plugin_id))"

definition auth_check_permission :: "u64 \<Rightarrow> string \<Rightarrow> string \<Rightarrow> PluginAuthenticator \<Rightarrow> SecurityError + bool" where
  "auth_check_permission now plugin_id permission a =
     result_bind (authenticate now plugin_id a) (\<lambda>role. Ok (permissions_check (from_role role) permission))"

definition auth_get_permissions :: "u64 \<Rightarrow> string \<Rightarrow> PluginAuthenticator \<Rightarrow> SecurityError + PluginPermissions" where
  "auth_get_permissions now plugin_id a =
     result_bind (authenticate now plugin_id a) (\<lambda>role. Ok (from_role role))"

definition set_role :: "string \<Rightarrow> PluginRole \<Rightarrow> PluginAuthenticator \<Rightarrow> PluginAuthenticator" where
  "set_role plugin_id role a = a\<lparr>pa_roles := hm_insert plugin_id role (pa_roles a)\<rparr>"

definition auth_revoke :: "string \<Rightarrow> PluginAuthenticator \<Rightarrow> PluginAuthenticator" where
  "auth_revoke plugin_id a =
     a\<lparr>pa_credentials := AList.delete plugin_id (pa_credentials a),
       pa_roles := AList.delete plugin_id (pa_roles a)\<rparr>"

definition auth_list_plugins :: "PluginAuthenticator \<Rightarrow> string list" where
  "auth_list_plugins a = hm_keys (pa_credentials a)"

definition versions_of :: "string \<Rightarrow> PluginAuthenticator \<Rightarrow> CredentialVersion list" where
  "versions_of plugin_id a =
     (case hm_get (pa_credential_versions a) plugin_id of None \<Rightarrow> [] | Some vs \<Rightarrow> vs)"

text \<open>The update of the list of versions: the last version enters its grace period and the new one is
  appended.\<close>

definition push_version :: "u64 \<Rightarrow> u64 \<Rightarrow> PluginCredential \<Rightarrow> CredentialVersion list \<Rightarrow> CredentialVersion list" where
  "push_version now now' new_credential vs =
     (let version_num = (if vs = [] then 1 else cv_version (last vs) + 1);
          vs1 = (if vs = [] then []
                 else butlast vs @ [(last vs)\<lparr>cv_status := Grace, cv_retired_at := Some now'\<rparr>])
      in vs1 @ [CredentialVersion_new now version_num new_credential])"

definition rotate_credential :: "(nat \<Rightarrow> u64) \<Rightarrow> string \<Rightarrow> string \<Rightarrow> string \<Rightarrow> PluginAuthenticator
    \<Rightarrow> (SecurityError + u32) \<times> PluginAuthenticator" where
  "rotate_credential now plugin_id new_credential_data reason a =
     (case hm_get (pa_credentials a) plugin_id of
        None \<Rightarrow> (Err AuthenticationFailed, a)
      | Some old_credential \<Rightarrow>
          (let new_credential = PluginCredential_new (now 0) (pc_credential_type old_credential) plugin_id
                 new_credential_data (pc_scopes old_credential);
               vs = push_version (now 1) (now 2) new_credential (versions_of plugin_id a);
               new_version = cv_version (last vs);
               a1 = a\<lparr>pa_credential_versions := hm_insert plugin_id vs (pa_credential_versions a),
                      pa_credentials := hm_insert plugin_id new_credential (pa_credentials a)\<rparr>;
               old_version = (if 1 < length vs then cv_version (vs ! (length vs - 2)) else 0)
           in (Ok new_version, a1\<lparr>pa_rotation_manager :=
                 record_rotation (now 3) plugin_id old_version new_version reason (pa_rotation_manager a1)\<rparr>)))"

definition get_credential_versions :: "string \<Rightarrow> PluginAuthenticator \<Rightarrow> CredentialVersion list" where
  "get_credential_versions plugin_id a = versions_of plugin_id a"

definition auth_get_rotation_history :: "string \<Rightarrow> PluginAuthenticator \<Rightarrow> RotationHistory list" where
  "auth_get_rotation_history plugin_id a = rm_get_rotation_history plugin_id (pa_rotation_manager a)"

text \<open>The loop over the versions, newest first. One reading of the clock stands for those of a call.\<close>

fun grace_loop :: "u64 \<Rightarrow> string \<Rightarrow> PluginAuthenticator \<Rightarrow> CredentialVersion list
    \<Rightarrow> SecurityError + (PluginRole \<times> u32)" where
  "grace_loop now plugin_id a [] = Err AuthenticationFailed"
| "grace_loop now plugin_id a (v # vs) =
     (case cv_status v of
        ActiveCred \<Rightarrow> result_bind (authenticate now plugin_id a) (\<lambda>role. Ok (role, cv_version v))
      | Grace \<Rightarrow>
          (if (case cv_retired_at v of Some retired_at \<Rightarrow> \<not> is_in_grace_period now retired_at | None \<Rightarrow> False)
           then grace_loop now plugin_id a vs
           else if \<not> is_expired now (cv_credential v)
           then result_bind (authenticate now plugin_id a) (\<lambda>role. Ok (role, cv_version v))
           else grace_loop now plugin_id a vs)
      | Retired \<Rightarrow> grace_loop now plugin_id a vs)"

definition authenticate_with_grace_period :: "u64 \<Rightarrow> string \<Rightarrow> PluginAuthenticator
    \<Rightarrow> SecurityError + (PluginRole \<times> u32)" where
  "authenticate_with_grace_period now plugin_id a =
     result_bind (ok_or AuthenticationFailed (hm_get (pa_credential_versions a) plugin_id))
       (\<lambda>vs. grace_loop now plugin_id a (rev vs))"

definition keep_version :: "u64 \<Rightarrow> CredentialVersion \<Rightarrow> bool" where
  "keep_version now v =
     (case cv_status v of
        Retired \<Rightarrow> (case cv_retired_at v of Some retired_at \<Rightarrow> is_in_grace_period now retired_at | None \<Rightarrow> True)
      | _ \<Rightarrow> True)"

definition cleanup_expired_credentials :: "u64 \<Rightarrow> PluginAuthenticator \<Rightarrow> nat \<times> PluginAuthenticator" where
  "cleanup_expired_credentials now a =
     (let kept = map (\<lambda>(p, vs). (p, filter (keep_version now) vs)) (pa_credential_versions a)
      in (sum_list (map (\<lambda>(p, vs). length vs - length (filter (keep_version now) vs)) (pa_credential_versions a)),
          a\<lparr>pa_credential_versions := kept\<rparr>))"

section \<open>Second factors\<close>

definition enable_mfa :: "string \<Rightarrow> PluginAuthenticator \<Rightarrow> PluginAuthenticator" where
  "enable_mfa plugin_id a = a\<lparr>pa_mfa_enabled := hm_insert plugin_id True (pa_mfa_enabled a)\<rparr>"

definition disable_mfa :: "string \<Rightarrow> PluginAuthenticator \<Rightarrow> PluginAuthenticator" where
  "disable_mfa plugin_id a = a\<lparr>pa_mfa_enabled := hm_insert plugin_id False (pa_mfa_enabled a)\<rparr>"

definition is_mfa_enabled :: "string \<Rightarrow> PluginAuthenticator \<Rightarrow> bool" where
  "is_mfa_enabled plugin_id a = (case hm_get (pa_mfa_enabled a) plugin_id of None \<Rightarrow> False | Some b \<Rightarrow> b)"

definition register_mfa_totp :: "u64 \<Rightarrow> byte list \<Rightarrow> string \<Rightarrow> PluginAuthenticator \<Rightarrow> byte list \<times> PluginAuthenticator" where
  "register_mfa_totp now secret plugin_id a =
     (secret, a\<lparr>pa_mfa_manager := snd (register_factor now plugin_id TOTP secret (pa_mfa_manager a))\<rparr>)"

definition register_mfa_backup_codes :: "(string \<Rightarrow> string) \<Rightarrow> (nat \<Rightarrow> nat \<Rightarrow> nat) \<Rightarrow> u64 \<Rightarrow> string \<Rightarrow> PluginAuthenticator
    \<Rightarrow> string list \<times> PluginAuthenticator" where
  "register_mfa_backup_codes md5 rng now plugin_id a =
     (case generate_codes md5 rng plugin_id (mm_backup_codes (pa_mfa_manager a)) of
        (codes, b) \<Rightarrow>
          (codes, a\<lparr>pa_mfa_manager := snd (register_factor now plugin_id BackupCodes
             (map of_char (join ''|'' codes)) ((pa_mfa_manager a)\<lparr>mm_backup_codes := b\<rparr>))\<rparr>))"

definition create_mfa_challenge :: "u64 \<Rightarrow> string \<Rightarrow> MFAMethod \<Rightarrow> PluginAuthenticator
    \<Rightarrow> (SecurityError + MFAChallenge) \<times> PluginAuthenticator" where
  "create_mfa_challenge now plugin_id method a =
     (if \<not> is_mfa_enabled plugin_id a then (Err AuthenticationFailed, a)
      else (case create_challenge now plugin_id method (pa_mfa_manager a) of
              (challenge, m) \<Rightarrow> (Ok challenge, a\<lparr>pa_mfa_manager := m\<rparr>)))"

definition verify_mfa_challenge :: "hmac \<Rightarrow> (string \<Rightarrow> string) \<Rightarrow> u64 \<Rightarrow> u64 \<Rightarrow> string \<Rightarrow> string \<Rightarrow> PluginAuthenticator
    \<Rightarrow> (SecurityError + bool) \<times> PluginAuthenticator" where
  "verify_mfa_challenge mac md5 now now' challenge_id response a =
     (case verify_challenge mac md5 now now' challenge_id response (pa_mfa_manager a) of
        (r, m) \<Rightarrow> (r, a\<lparr>pa_mfa_manager := m\<rparr>))"

definition list_mfa_factors :: "string \<Rightarrow> PluginAuthenticator \<Rightarrow> MFAFactor list" where
  "list_mfa_factors plugin_id a = list_factors plugin_id (pa_mfa_manager a)"

definition disable_mfa_factor :: "string \<Rightarrow> MFAMethod \<Rightarrow> PluginAuthenticator
    \<Rightarrow> (SecurityError + unit) \<times> PluginAuthenticator" where
  "disable_mfa_factor plugin_id method a =
     (case disable_factor plugin_id method (pa_mfa_manager a) of
        (r, m) \<Rightarrow> (r, a\<lparr>pa_mfa_manager := m\<rparr>))"

definition authenticate_with_mfa :: "hmac \<Rightarrow> (string \<Rightarrow> string) \<Rightarrow> (nat \<Rightarrow> u64) \<Rightarrow> string \<Rightarrow> string option
    \<Rightarrow> string option \<Rightarrow> PluginAuthenticator \<Rightarrow> (SecurityError + PluginRole) \<times> PluginAuthenticator" where
  "authenticate_with_mfa mac md5 now plugin_id mfa_challenge_id mfa_response a =
     (case authenticate (now 0) plugin_id a of
        Err e \<Rightarrow> (Err e, a)
      | Ok role \<Rightarrow>
          if is_mfa_enabled plugin_id a
          then
            (case mfa_challenge_id of
               None \<Rightarrow> (Err AuthenticationFailed, a)
             | Some challenge_id \<Rightarrow>
            (case mfa_response of
               None \<Rightarrow> (Err AuthenticationFailed, a)
             | Some response \<Rightarrow>
            (case verify_mfa_challenge mac md5 (now 1) (now 2) challenge_id response a of
               (Err e, a1) \<Rightarrow> (Err e, a1)
             | (Ok verified, a1) \<Rightarrow> if \<not> verified then (Err AuthenticationFailed, a1) else (Ok role, a1))))
          else (Ok role, a))"

section \<open>Versions and their history\<close>

text \<open>The operations of an authenticator.\<close>

inductive auth_step :: "PluginAuthenticator \<Rightarrow> PluginAuthenticator \<Rightarrow> bool" where
  step_register: "auth_step a (register_credential now p kind data role scopes a)"
| step_set_role: "auth_step a (set_role p role a)"
| step_revoke: "auth_step a (auth_revoke p a)"
| step_rotate: "auth_step a (snd (rotate_credential now p data reason a))"
| step_cleanup: "auth_step a (snd (cleanup_expired_credentials now a))"
| step_mfa: "auth_step a (a\<lparr>pa_mfa_enabled := enabled, pa_mfa_manager := m\<rparr>)"

lemma mfa_steps:
  "auth_step a (a\<lparr>pa_mfa_enabled := enabled\<rparr>)" "auth_step a (a\<lparr>pa_mfa_manager := m\<rparr>)" "auth_step a a"
  using step_mfa [of a "pa_mfa_manager a" enabled] step_mfa [of a m "pa_mfa_enabled a"]
    step_mfa [of a "pa_mfa_manager a" "pa_mfa_enabled a"] by simp_all

lemma mfa_operations_step:
  "auth_step a (enable_mfa p a)" "auth_step a (disable_mfa p a)"
  "auth_step a (snd (register_mfa_totp now secret p a))"
  "auth_step a (snd (register_mfa_backup_codes md5 rng now p a))"
  "auth_step a (snd (create_mfa_challenge now p method a))"
  "auth_step a (snd (verify_mfa_challenge mac md5 now now' cid code a))"
  "auth_step a (snd (disable_mfa_factor p method a))"
  by (auto simp: enable_mfa_def disable_mfa_def register_mfa_totp_def register_mfa_backup_codes_def
      create_mfa_challenge_def verify_mfa_challenge_def disable_mfa_factor_def intro: mfa_steps split: prod.split)

definition versions_inv :: "CredentialVersion list \<Rightarrow> RotationHistory list \<Rightarrow> bool" where
  "versions_inv vs hs \<longleftrightarrow>
     map cv_version vs = map of_nat [1..<Suc (length vs)]
     \<and> map cv_status vs = replicate (length vs - 1) Grace @ (if vs = [] then [] else [ActiveCred])
     \<and> map rh_from_version hs = map of_nat [0..<length vs]
     \<and> map rh_to_version hs = map of_nat [1..<Suc (length vs)]"

definition auth_inv :: "PluginAuthenticator \<Rightarrow> bool" where
  "auth_inv a \<longleftrightarrow> distinct (hm_keys (pa_credential_versions a))
     \<and> (\<forall>p. versions_inv (versions_of p a) (auth_get_rotation_history p a))"

lemma versions_inv_push:
  assumes inv: "versions_inv vs hs" and ws: "ws = push_version now now' cred vs"
    and h: "rh_to_version h = cv_version (last ws)"
      "rh_from_version h = (if 1 < length ws then cv_version (ws ! (length ws - 2)) else 0)"
  shows "versions_inv ws (hs @ [h])"
proof (cases vs rule: rev_cases)
  case Nil
  then show ?thesis
    using assms by (simp add: versions_inv_def push_version_def CredentialVersion_new_def)
next
  case (snoc us v)
  let ?n = "length us"
  have v: "cv_version v = of_nat (Suc ?n)" and us: "map cv_version us = map of_nat [1..<Suc ?n]"
    and st: "map cv_status us = replicate ?n Grace"
    using inv by (simp_all add: versions_inv_def snoc)
  have ws': "ws = us @ [v\<lparr>cv_status := Grace, cv_retired_at := Some now'\<rparr>, CredentialVersion_new now (cv_version v + 1) cred]"
    by (simp add: ws push_version_def snoc)
  have "rh_from_version h = of_nat (Suc ?n)" "rh_to_version h = of_nat (Suc (Suc ?n))"
    using h v by (simp_all add: ws' nth_append CredentialVersion_new_def)
  then show ?thesis
    using inv us st v
    by (simp add: versions_inv_def snoc ws' CredentialVersion_new_def replicate_append_same)
qed

lemma versions_of_insert:
  "versions_of q (a\<lparr>pa_credential_versions := hm_insert p vs (pa_credential_versions a), pa_credentials := cs\<rparr>) =
     (if q = p then vs else versions_of q a)"
  by (simp add: versions_of_def update_conv')

lemma history_record:
  "rm_get_rotation_history q (record_rotation now p v w reason r) =
     (if q = p
      then rm_get_rotation_history p r @ [\<lparr>rh_plugin_id = p, rh_from_version = v, rh_to_version = w,
             rh_rotation_time = now, rh_reason = reason\<rparr>]
      else rm_get_rotation_history q r)"
  by (simp add: rm_get_rotation_history_def record_rotation_def Let_def update_conv')

lemma rotate_credential_inv:
  assumes "auth_inv a"
  shows "auth_inv (snd (rotate_credential now p data reason a))"
proof (cases "hm_get (pa_credentials a) p")
  case (Some old)
  let ?b = "snd (rotate_credential now p data reason a)"
  define ws where "ws = push_version (now 1) (now 2)
    (PluginCredential_new (now 0) (pc_credential_type old) p data (pc_scopes old)) (versions_of p a)"
  define h where "h = \<lparr>rh_plugin_id = p,
      rh_from_version = (if 1 < length ws then cv_version (ws ! (length ws - 2)) else 0),
      rh_to_version = cv_version (last ws), rh_rotation_time = now 3, rh_reason = reason\<rparr>"
  have "versions_inv ws (auth_get_rotation_history p a @ [h])"
    using assms by (intro versions_inv_push [OF _ ws_def]) (simp_all add: auth_inv_def h_def)
  moreover have "versions_of q ?b = (if q = p then ws else versions_of q a)"
    and "auth_get_rotation_history q ?b =
      (if q = p then auth_get_rotation_history p a @ [h] else auth_get_rotation_history q a)" for q
    by (simp_all add: rotate_credential_def Some Let_def versions_of_def update_conv' ws_def h_def
        auth_get_rotation_history_def history_record)
  moreover have "distinct (hm_keys (pa_credential_versions ?b))"
    using assms by (simp add: rotate_credential_def Some Let_def auth_inv_def distinct_update)
  ultimately show ?thesis using assms by (simp add: auth_inv_def)
qed (use assms in \<open>simp add: rotate_credential_def\<close>)

lemma keep_all:
  assumes "versions_inv vs hs"
  shows "filter (keep_version now) vs = vs"
proof -
  have eq: "map cv_status vs = replicate (length vs - 1) Grace @ (if vs = [] then [] else [ActiveCred])"
    using assms by (simp add: versions_inv_def)
  have "cv_status ` set vs \<subseteq> {Grace, ActiveCred}" unfolding set_map [symmetric] eq by auto
  then have "cv_status v \<noteq> Retired" if "v \<in> set vs" for v using that by auto
  then show ?thesis by (simp add: filter_id_conv keep_version_def split: CredentialStatus.split)
qed

lemma cleanup_unchanged:
  assumes "auth_inv a"
  shows "cleanup_expired_credentials now a = (0, a)"
proof -
  have "filter (keep_version now) vs = vs" if "(p, vs) \<in> set (pa_credential_versions a)" for p vs
  proof -
    have "versions_of p a = vs" using that assms by (simp add: versions_of_def auth_inv_def)
    then show ?thesis using assms keep_all [of vs] by (auto simp: auth_inv_def)
  qed
  then have "map (\<lambda>(p, vs). (p, filter (keep_version now) vs)) (pa_credential_versions a) = pa_credential_versions a"
    and "map (\<lambda>(p, vs). length vs - length (filter (keep_version now) vs)) (pa_credential_versions a)
      = map (\<lambda>_. 0) (pa_credential_versions a)"
    by (auto intro!: map_idI)
  then show ?thesis by (simp add: cleanup_expired_credentials_def)
qed

lemma auth_step_inv: "auth_step a b \<Longrightarrow> auth_inv a \<Longrightarrow> auth_inv b"
proof (induction rule: auth_step.induct)
  case (step_rotate a now p data reason)
  then show ?case by (intro rotate_credential_inv)
next
  case (step_cleanup a now)
  then show ?case by (simp add: cleanup_unchanged)
qed (simp_all add: auth_inv_def versions_of_def auth_get_rotation_history_def register_credential_def set_role_def
    auth_revoke_def)

lemma auth_inv_new: "auth_inv PluginAuthenticator_new"
  by (simp add: auth_inv_def PluginAuthenticator_new_def versions_of_def auth_get_rotation_history_def
      rm_get_rotation_history_def CredentialRotationManager_new_def versions_inv_def)

lemma auth_run_inv: "auth_step\<^sup>*\<^sup>* PluginAuthenticator_new a \<Longrightarrow> auth_inv a"
  by (induction rule: rtranclp_induct) (auto simp: auth_inv_new intro: auth_step_inv)

lemma versions_inv_last:
  assumes "versions_inv vs hs" and "vs \<noteq> []"
  shows "cv_status (last vs) = ActiveCred" and "cv_version (last vs) = of_nat (length vs)"
proof -
  have "cv_status (last vs) = last (map cv_status vs)" "cv_version (last vs) = last (map cv_version vs)"
    using assms(2) by (simp_all add: last_map)
  then show "cv_status (last vs) = ActiveCred" "cv_version (last vs) = of_nat (length vs)"
    using assms by (simp_all add: versions_inv_def Suc_le_eq)
qed

lemma grace_loop_newest:
  assumes "versions_inv vs hs" and "vs \<noteq> []"
  shows "grace_loop now p a (rev vs) = result_bind (authenticate now p a) (\<lambda>role. Ok (role, of_nat (length vs)))"
proof -
  have "rev vs = last vs # rev (butlast vs)"
    using assms(2) by (metis append_butlast_last_id rev_eq_Cons_iff rev_rev_ident)
  then show ?thesis using versions_inv_last [OF assms] by (simp only: grace_loop.simps CredentialStatus.case)
qed


section \<open>Who is authenticated\<close>

definition role_rank :: "PluginRole \<Rightarrow> nat" where
  "role_rank r = (case r of RoleNone \<Rightarrow> 0 | Viewer \<Rightarrow> 1 | Editor \<Rightarrow> 2 | Admin \<Rightarrow> 3 | System \<Rightarrow> 4)"

instantiation PluginRole :: linorder
begin

definition less_eq_PluginRole :: "PluginRole \<Rightarrow> PluginRole \<Rightarrow> bool" where
  "r \<le> s \<longleftrightarrow> role_rank r \<le> role_rank s"

definition less_PluginRole :: "PluginRole \<Rightarrow> PluginRole \<Rightarrow> bool" where
  "r < s \<longleftrightarrow> role_rank r < role_rank s"

instance
  by standard (auto simp: less_eq_PluginRole_def less_PluginRole_def role_rank_def split: PluginRole.splits)

end

lemma role_permissions_mono:
  "r \<le> s \<Longrightarrow> permissions_check (from_role r) x \<Longrightarrow> permissions_check (from_role s) x"
  by (cases r; cases s) (auto simp: less_eq_PluginRole_def role_rank_def permissions_check_def split: if_splits)

lemma credential_fresh:
  assumes "unat now + 365 * 24 * 60 * 60 < 2 ^ 64"
  shows "is_expired t (PluginCredential_new now k p d sc) \<longleftrightarrow> unat now + 365 * 24 * 60 * 60 < unat t"
proof -
  have e: "unat (now + 31536000) = unat now + 31536000" using assms by (simp add: unat_word_ariths)
  then have "now + 31536000 \<noteq> 0" by (metis add_is_0 unat_0 zero_neq_numeral)
  then show ?thesis using e by (simp add: is_expired_def PluginCredential_new_def word_less_nat_alt)
qed

lemma authenticate_cong:
  "hm_get (pa_credentials b) q = hm_get (pa_credentials a) q \<Longrightarrow> hm_get (pa_roles b) q = hm_get (pa_roles a) q \<Longrightarrow>
   authenticate t q b = authenticate t q a"
  by (simp add: authenticate_def cong: if_cong)

text \<open>What authentication answers. A registered plugin has its role for exactly one year; rotating its
  credential keeps the role and starts a new year; a role that is set takes effect at once; after a
  revocation it is refused. Operations on one plugin do not affect another. A higher role never
  has fewer permissions.\<close>

theorem authenticate_answers:
  assumes "unat now + 365 * 24 * 60 * 60 < 2 ^ 64" and "unat (clock 0) + 365 * 24 * 60 * 60 < 2 ^ 64"
  shows "authenticate t p (register_credential now p kind data role scopes a) =
        (if unat t \<le> unat now + 365 * 24 * 60 * 60 then Ok role else Err AuthenticationFailed)
    \<and> (case rotate_credential clock p data reason a of
         (Ok v, a') \<Rightarrow> authenticate t p a' =
           (if unat t \<le> unat (clock 0) + 365 * 24 * 60 * 60
            then ok_or AuthenticationFailed (hm_get (pa_roles a) p) else Err AuthenticationFailed)
       | (Err _, a') \<Rightarrow> a' = a \<and> authenticate t p a = Err AuthenticationFailed)
    \<and> (case authenticate t p (set_role p role a) of
         Ok r \<Rightarrow> r = role | Err _ \<Rightarrow> authenticate t p a = Err AuthenticationFailed)
    \<and> authenticate t p (auth_revoke p a) = Err AuthenticationFailed
    \<and> (if q \<noteq> p
       then list_all (\<lambda>b. authenticate t q b = authenticate t q a)
         [register_credential now p kind data role scopes a, snd (rotate_credential clock p data reason a),
          set_role p role a, auth_revoke p a] else True)
    \<and> (if r \<le> s then permissions_check (from_role r) x \<le> permissions_check (from_role s) x else True)"
proof (intro conjI)
  show "case rotate_credential clock p data reason a of
      (Ok v, a') \<Rightarrow> authenticate t p a' =
        (if unat t \<le> unat (clock 0) + 365 * 24 * 60 * 60
         then ok_or AuthenticationFailed (hm_get (pa_roles a) p) else Err AuthenticationFailed)
    | (Err _, a') \<Rightarrow> a' = a \<and> authenticate t p a = Err AuthenticationFailed"
    using credential_fresh [OF assms(2)]
    by (auto simp: rotate_credential_def authenticate_def Let_def update_conv' split: option.split)
  show "if q \<noteq> p
      then list_all (\<lambda>b. authenticate t q b = authenticate t q a)
        [register_credential now p kind data role scopes a, snd (rotate_credential clock p data reason a),
         set_role p role a, auth_revoke p a] else True"
    by (auto simp: register_credential_def rotate_credential_def set_role_def auth_revoke_def Let_def
        update_conv' delete_conv' intro!: authenticate_cong split: option.split)
qed (use credential_fresh [OF assms(1)] role_permissions_mono in
    \<open>auto simp: authenticate_def register_credential_def set_role_def auth_revoke_def update_conv' delete_conv'
      ok_or_def split: option.split\<close>)

text \<open>The second factor does not protect a plugin: a challenge that was issued for another plugin,
  answered with that plugin's one-time password, is accepted; the same challenge and code are accepted
  again; and disabling the factor changes nothing.\<close>

theorem mfa_foreign_challenge:
  assumes auth: "authenticate (now 0) p a = Ok role" and mfa: "is_mfa_enabled p a"
    and ch: "hm_get (mm_challenges (pa_mfa_manager a)) cid = Some ch" "mc_method ch = TOTP" "mc_plugin_id ch \<noteq> p"
    and left: "mc_attempts ch + 1 < mc_max_attempts ch" "mc_attempts ch < mc_attempts ch + 1" "now 1 \<le> mc_expires_at ch"
    and code: "totp_verify_code mac (now 2) (mc_plugin_id ch) code (mm_totp (pa_mfa_manager a)) = Ok True"
  shows "case authenticate_with_mfa mac md now p (Some cid) (Some code) a of (r, a') \<Rightarrow>
      r = Ok role \<and> fst (authenticate_with_mfa mac md now p (Some cid) (Some code) a') = Ok role
      \<and> fst (authenticate_with_mfa mac md now p (Some cid) (Some code) (snd (disable_mfa_factor p TOTP a'))) = Ok role"
proof -
  have lt: "mc_attempts ch < mc_max_attempts ch" using left(1,2) by (rule order.strict_trans [rotated])
  let ?ch = "ch\<lparr>mc_attempts := mc_attempts ch + 1\<rparr>"
  define m where "m = (pa_mfa_manager a)\<lparr>mm_challenges := hm_insert cid ?ch (mm_challenges (pa_mfa_manager a))\<rparr>"
  have first: "authenticate_with_mfa mac md now p (Some cid) (Some code) a = (Ok role, a\<lparr>pa_mfa_manager := m\<rparr>)"
    using auth mfa ch lt left(3) code
    by (simp add: authenticate_with_mfa_def verify_mfa_challenge_def verify_challenge_def m_def not_less not_le Let_def)
  have again: "fst (authenticate_with_mfa mac md now p (Some cid) (Some code) b) = Ok role"
    if "pa_credentials b = pa_credentials a" "pa_roles b = pa_roles a" "pa_mfa_enabled b = pa_mfa_enabled a"
      "mm_totp (pa_mfa_manager b) = mm_totp (pa_mfa_manager a)"
      "mm_challenges (pa_mfa_manager b) = mm_challenges m" for b
  proof -
    have "authenticate (now 0) p b = Ok role" "is_mfa_enabled p b"
      using auth mfa that(1-3) authenticate_cong [of b p a] by (simp_all add: is_mfa_enabled_def)
    moreover have "hm_get (mm_challenges (pa_mfa_manager b)) cid = Some ?ch"
      using that(5) by (simp add: m_def update_conv')
    ultimately show ?thesis
      using ch(2) left code that(4)
      by (simp add: authenticate_with_mfa_def verify_mfa_challenge_def verify_challenge_def not_less not_le Let_def)
  qed
  have "mm_totp m = mm_totp (pa_mfa_manager a)" by (simp add: m_def)
  moreover have "mm_totp (snd (disable_factor p TOTP m)) = mm_totp m"
    by (simp add: disable_factor_def split: option.split)
  moreover have "snd (disable_mfa_factor p TOTP (a\<lparr>pa_mfa_manager := m\<rparr>)) =
      a\<lparr>pa_mfa_manager := snd (disable_factor p TOTP m)\<rparr>"
    by (simp add: disable_mfa_factor_def split: prod.split)
  ultimately show ?thesis
    using first again [of "a\<lparr>pa_mfa_manager := m\<rparr>"] again [of "a\<lparr>pa_mfa_manager := snd (disable_factor p TOTP m)\<rparr>"]
    by simp
qed

section \<open>Examples\<close>

definition demo_auth :: PluginAuthenticator where
  "demo_auth = snd (create_mfa_challenge 100 ''q'' TOTP (enable_mfa ''q'' (enable_mfa ''p''
     (snd (register_mfa_totp 100 [7] ''q'' (register_credential 100 ''p'' ApiKey ''key'' Admin [] PluginAuthenticator_new))))))"

lemma show_u64_100: "show_u64 100 = ''100''"
  by (simp add: show_u64_def show_nat.simps digit_char_def char_of_def bit_0)

lemmas demo_auth_eval = demo_auth_def create_mfa_challenge_def enable_mfa_def register_mfa_totp_def register_credential_def
  PluginAuthenticator_new_def is_mfa_enabled_def create_challenge_def register_factor_def Let_def MFAManager_new_def
  TOTPProvider_new_def totp_register_def show_u64_100


end
