(* ===== verification/Abi_Sandbox.thy ===== *)
theory Abi_Sandbox
  imports Plugin_Mfa
begin

text \<open>
  Checks of the ABI on what plugins pass in and ask for, from \<open>abi/src/security.rs\<close>: the validators of
  input strings, the counter of loaded plugins, the sandbox policies and their enforcer.

  Strings are byte strings, so the tests for letters and control characters are those for ASCII. The
  parser for JSON is an argument. The tests for Windows paths are left out. The number of
  processors, the available memory and the environment variable that overrides the limit are arguments.
\<close>

section \<open>Validators\<close>

definition MAX_INPUT_LENGTH :: nat where
  "MAX_INPUT_LENGTH = 65536"

definition validate_json :: "(string \<Rightarrow> string + 'json) \<Rightarrow> string \<Rightarrow> SecurityError + 'json" where
  "validate_json from_str input =
     (if MAX_INPUT_LENGTH < length input then Err InputTooLong
      else map_err (\<lambda>_. InvalidUtf8) (from_str input))"

definition validate_sql_identifier :: "string \<Rightarrow> SecurityError + string" where
  "validate_sql_identifier input =
     (if input = [] \<or> 128 < length input then Err InputTooLong
      else if is_ascii_digit (hd input) then Err InvalidUtf8
      else if \<not> list_all (\<lambda>c. is_ascii_alphanumeric c \<or> c = CHR ''_'' \<or> c = CHR ''-'') input then Err InvalidUtf8
      else Ok input)"

definition validate_file_path :: "string \<Rightarrow> SecurityError + string" where
  "validate_file_path path =
     (if path = [] \<or> MAX_INPUT_LENGTH < length path then Err InputTooLong
      else if str_contains path ''..'' then Err InvalidUtf8
      else if starts_with path ''/'' then Err InvalidUtf8
      else if CHR 0x00 \<in> set path then Err InvalidUtf8
      else Ok path)"

definition dangerous_chars :: "char list" where
  "dangerous_chars = ''$`|;&<>(){}'' @ [CHR 0x0A, CHR 0x0D, CHR 0x00]"

definition validate_command_arg :: "string \<Rightarrow> SecurityError + string" where
  "validate_command_arg input =
     (if input = [] \<or> MAX_INPUT_LENGTH < length input then Err InputTooLong
      else if list_ex (\<lambda>c. c \<in> set dangerous_chars) input then Err InvalidUtf8
      else Ok input)"

definition validate_http_header :: "string \<Rightarrow> SecurityError + string" where
  "validate_http_header value =
     (if value = [] \<or> MAX_INPUT_LENGTH < length value then Err InputTooLong
      else if CHR 0x0D \<in> set value \<or> CHR 0x0A \<in> set value then Err InvalidUtf8
      else if CHR 0x00 \<in> set value then Err InvalidUtf8
      else Ok value)"

definition validate_url :: "string \<Rightarrow> SecurityError + string" where
  "validate_url url =
     (if url = [] \<or> MAX_INPUT_LENGTH < length url then Err InputTooLong
      else if \<not> starts_with url ''http://'' \<and> \<not> starts_with url ''https://'' then Err InvalidUtf8
      else if CHR 0x00 \<in> set url then Err InvalidUtf8
      else if \<not> starts_with url ''http://'' \<and> \<not> starts_with url ''https://'' \<and> \<not> starts_with url ''ftp://''
      then Err InvalidUtf8
      else if length url < 10 then Err InvalidUtf8
      else if CHR 0x09 \<in> set url \<or> CHR 0x0D \<in> set url \<or> CHR 0x0A \<in> set url then Err InvalidUtf8
      else Ok url)"

definition validate_integer :: "string \<Rightarrow> int \<Rightarrow> int \<Rightarrow> SecurityError + int" where
  "validate_integer input lo hi =
     (if 20 < length input then Err InputTooLong
      else
        (case parse_i64 (trim input) of
           None \<Rightarrow> Err InvalidUtf8
         | Some v \<Rightarrow> if v < lo \<or> hi < v then Err InputTooLong else Ok v))"

definition is_control :: "char \<Rightarrow> bool" where
  "is_control c \<longleftrightarrow> (of_char c :: nat) < 32 \<or> (of_char c :: nat) = 127"

definition sanitize_for_logging :: "string \<Rightarrow> string" where
  "sanitize_for_logging input = map (\<lambda>c. if is_control c then CHR ''?'' else c) (take MAX_INPUT_LENGTH input)"

section \<open>Capacity\<close>

definition get_max_plugins :: "string option \<Rightarrow> u64 \<Rightarrow> u64 \<Rightarrow> u64" where
  "get_max_plugins env_var num_cpus available_memory =
     (case Option.bind env_var parse_u64 of
        Some m \<Rightarrow> m
      | None \<Rightarrow>
          (let plugins_per_cpu = num_cpus * 8;
               plugins_per_memory = available_memory div (512 * 1024 * 1024);
               calculated_max = min plugins_per_cpu plugins_per_memory
           in if calculated_max < 16 then 16 else if 4096 < calculated_max then 4096 else calculated_max))"

record PluginCapacityTracker =
  ct_current_count :: usize
  ct_max_local :: usize
  ct_remote_hosts :: "string list"

definition can_load_locally :: "PluginCapacityTracker \<Rightarrow> SecurityError + unit" where
  "can_load_locally t = (if ct_max_local t \<le> ct_current_count t then Err PluginCapacityExceeded else Ok ())"

definition increment :: "PluginCapacityTracker \<Rightarrow> PluginCapacityTracker" where
  "increment t = t\<lparr>ct_current_count := ct_current_count t + 1\<rparr>"

definition decrement :: "PluginCapacityTracker \<Rightarrow> PluginCapacityTracker" where
  "decrement t = t\<lparr>ct_current_count := ct_current_count t - 1\<rparr>"

definition get_remote_host_for_offload :: "PluginCapacityTracker \<Rightarrow> SecurityError + string" where
  "get_remote_host_for_offload t =
     (if ct_remote_hosts t = [] then Err NoRemoteHostAvailable
      else Ok (ct_remote_hosts t ! (unat (ct_current_count t) mod length (ct_remote_hosts t))))"

section \<open>Sandbox policies\<close>

definition READ_CONFIG :: u64 where
  "READ_CONFIG = 0x1"

definition NETWORK_OUTBOUND :: u64 where
  "NETWORK_OUTBOUND = 0x10"

definition FILE_READ :: u64 where
  "FILE_READ = 0x20"

definition FILE_WRITE :: u64 where
  "FILE_WRITE = 0x40"

record PluginSandboxPolicy =
  sp_plugin_id :: string
  sp_allowed_capabilities :: u64
  sp_max_memory :: usize
  sp_max_cpu_time :: u64
  sp_max_bandwidth :: u64
  sp_allowed_paths :: "string list"
  sp_allowed_ports :: "u16 list"
  sp_allowed_env_vars :: "string list"
  sp_allow_child_processes :: bool
  sp_max_fds :: usize
  sp_use_seccomp :: bool

definition permissive :: "string \<Rightarrow> PluginSandboxPolicy" where
  "permissive plugin_id = \<lparr>sp_plugin_id = plugin_id, sp_allowed_capabilities = 0xFFFFFFFF,
     sp_max_memory = 2 * 1024 * 1024 * 1024, sp_max_cpu_time = 300000, sp_max_bandwidth = 1024 * 1024 * 100,
     sp_allowed_paths = [], sp_allowed_ports = [], sp_allowed_env_vars = [], sp_allow_child_processes = True,
     sp_max_fds = 1024, sp_use_seccomp = False\<rparr>"

definition restrictive :: "string \<Rightarrow> PluginSandboxPolicy" where
  "restrictive plugin_id = \<lparr>sp_plugin_id = plugin_id, sp_allowed_capabilities = READ_CONFIG,
     sp_max_memory = 128 * 1024 * 1024, sp_max_cpu_time = 5000, sp_max_bandwidth = 1024 * 1024,
     sp_allowed_paths = [''/tmp''], sp_allowed_ports = [], sp_allowed_env_vars = [''PATH'', ''HOME''],
     sp_allow_child_processes = False, sp_max_fds = 128, sp_use_seccomp = True\<rparr>"

definition has_capability :: "PluginSandboxPolicy \<Rightarrow> u64 \<Rightarrow> bool" where
  "has_capability p capability \<longleftrightarrow> sp_allowed_capabilities p AND capability \<noteq> 0"

definition can_access_path :: "PluginSandboxPolicy \<Rightarrow> string \<Rightarrow> bool" where
  "can_access_path p path =
     (if sp_allowed_paths p = [] then False
      else if str_contains path ''..'' \<or> str_contains path ''./'' then False
      else list_ex (\<lambda>a. starts_with path a) (sp_allowed_paths p))"

definition can_use_port :: "PluginSandboxPolicy \<Rightarrow> u16 \<Rightarrow> bool" where
  "can_use_port p port = (if sp_allowed_ports p = [] then False else port \<in> set (sp_allowed_ports p))"

definition can_access_env_var :: "PluginSandboxPolicy \<Rightarrow> string \<Rightarrow> bool" where
  "can_access_env_var p var =
     (if sp_allowed_env_vars p = [] then False else list_ex (\<lambda>v. v = var) (sp_allowed_env_vars p))"

type_synonym SandboxEnforcer = "(string, PluginSandboxPolicy) hashmap"

definition SandboxEnforcer_new :: SandboxEnforcer where
  "SandboxEnforcer_new = []"

definition sandbox_register :: "PluginSandboxPolicy \<Rightarrow> SandboxEnforcer \<Rightarrow> SandboxEnforcer" where
  "sandbox_register policy e = hm_insert (sp_plugin_id policy) policy e"

definition check_file_access :: "SandboxEnforcer \<Rightarrow> string \<Rightarrow> string \<Rightarrow> bool \<Rightarrow> SecurityError + unit" where
  "check_file_access e plugin_id path write =
     (case hm_get e plugin_id of
        Some policy \<Rightarrow>
          (let required_cap = (if write then FILE_WRITE else FILE_READ)
           in if \<not> has_capability policy required_cap then Err PointerValidationFailed
              else if \<not> can_access_path policy path then Err PointerValidationFailed
              else Ok ())
      | None \<Rightarrow> Err PointerValidationFailed)"

definition check_network_access :: "SandboxEnforcer \<Rightarrow> string \<Rightarrow> string \<Rightarrow> u16 \<Rightarrow> SecurityError + unit" where
  "check_network_access e plugin_id host port =
     (case hm_get e plugin_id of
        Some policy \<Rightarrow>
          if \<not> has_capability policy NETWORK_OUTBOUND then Err PointerValidationFailed
          else if \<not> can_use_port policy port then Err PointerValidationFailed
          else Ok ()
      | None \<Rightarrow> Err PointerValidationFailed)"

definition check_memory_limit :: "SandboxEnforcer \<Rightarrow> string \<Rightarrow> usize \<Rightarrow> SecurityError + unit" where
  "check_memory_limit e plugin_id requested_bytes =
     (case hm_get e plugin_id of
        Some policy \<Rightarrow> if sp_max_memory policy < requested_bytes then Err InputTooLong else Ok ()
      | None \<Rightarrow> Err PointerValidationFailed)"

section \<open>What validators accept\<close>

lemma str_contains_iff: "str_contains s q \<longleftrightarrow> (\<exists>a b. s = a @ q @ b)"
proof (induction s)
  case (Cons c s)
  have "(\<exists>a b. c # s = a @ q @ b) \<longleftrightarrow> (\<exists>b. c # s = q @ b) \<or> (\<exists>a b. s = a @ q @ b)"
    by (auto simp: Cons_eq_append_conv)
  then show ?case using Cons by (auto simp: starts_with_iff)
qed auto

lemma join_part: "p \<in> set ps \<Longrightarrow> \<exists>a b. join sep ps = a @ p @ b"
proof (induction sep ps rule: join.induct)
  case (3 sep q r rs)
  show ?case
  proof (cases "p = q")
    case True
    then show ?thesis by (intro exI [of _ "[]"] exI [of _ "sep @ join sep (r # rs)"]) simp
  next
    case False
    with 3 obtain a b where "join sep (r # rs) = a @ p @ b" by auto
    then show ?thesis by (intro exI [of _ "q @ sep @ a"] exI [of _ b]) simp
  qed
qed (auto intro: exI [of _ "[]"])

lemma split_on_part: "p \<in> set (split_on c s) \<Longrightarrow> str_contains s p"
  using join_part [of p "split_on c s" "[c]"] by (simp add: join_split_on str_contains_iff)

lemma validate_file_path_Ok:
  assumes "validate_file_path path = Ok q"
  shows "q = path \<and> \<not> starts_with path ''/'' \<and> ''..'' \<notin> set (split_on CHR ''/'' path) \<and> CHR 0x00 \<notin> set path"
  using assms split_on_part [of "''..''" "CHR ''/''" path] by (auto simp: validate_file_path_def split: if_splits)


section \<open>What the sandbox allows\<close>

lemma permissive_capabilities: "has_capability (permissive p) FILE_READ" "has_capability (permissive p) FILE_WRITE"
  "has_capability (permissive p) NETWORK_OUTBOUND"
  by (simp_all add: has_capability_def permissive_def FILE_READ_def FILE_WRITE_def NETWORK_OUTBOUND_def)

text \<open>The sandbox allows a file access exactly if the plugin is registered, its policy has the
  capability, the path has no \<open>..\<close> and no \<open>./\<close>, and some allowed path is a prefix of its text; a connection
  exactly if the policy has the capability and lists the port. Registering a policy affects its own plugin
  only. The permissive policy for trusted plugins allows no file, no port and no environment variable at
  all, since its lists are empty.\<close>

theorem sandbox_decisions:
  "(check_file_access e p path write = Ok () \<longleftrightarrow>
      (\<exists>policy. hm_get e p = Some policy \<and> has_capability policy (if write then FILE_WRITE else FILE_READ)
        \<and> (\<nexists>a b. path = a @ ''..'' @ b) \<and> (\<nexists>a b. path = a @ ''./'' @ b)
        \<and> (\<exists>a\<in>set (sp_allowed_paths policy). \<exists>b. path = a @ b)))
   \<and> (check_network_access e p host port = Ok () \<longleftrightarrow>
      (\<exists>policy. hm_get e p = Some policy \<and> has_capability policy NETWORK_OUTBOUND
        \<and> port \<in> set (sp_allowed_ports policy)))
   \<and> (if sp_plugin_id policy \<noteq> p
      then check_file_access (sandbox_register policy e) p path write = check_file_access e p path write
         \<and> check_network_access (sandbox_register policy e) p host port = check_network_access e p host port
         \<and> check_memory_limit (sandbox_register policy e) p n = check_memory_limit e p n
      else True)
   \<and> check_file_access (sandbox_register (permissive p) e) p path write = Err PointerValidationFailed
   \<and> check_network_access (sandbox_register (permissive p) e) p host port = Err PointerValidationFailed
   \<and> \<not> can_access_env_var (permissive p) var"
proof (intro conjI)
  show "check_file_access e p path write = Ok () \<longleftrightarrow>
      (\<exists>policy. hm_get e p = Some policy \<and> has_capability policy (if write then FILE_WRITE else FILE_READ)
        \<and> (\<nexists>a b. path = a @ ''..'' @ b) \<and> (\<nexists>a b. path = a @ ''./'' @ b)
        \<and> (\<exists>a\<in>set (sp_allowed_paths policy). \<exists>b. path = a @ b))"
    by (auto simp: check_file_access_def can_access_path_def str_contains_iff starts_with_iff list_ex_iff Let_def
        split: option.split)
qed (auto simp: check_network_access_def check_file_access_def check_memory_limit_def can_use_port_def sandbox_register_def
    update_conv' can_access_path_def can_access_env_var_def permissive_def Let_def split: option.split)

section \<open>Capacity\<close>

lemma max_plugins_range: "get_max_plugins None cpus memory \<in> {16..4096}"
  by (auto simp: get_max_plugins_def Let_def not_less min_le_iff_disj)

lemma capacity_respected:
  assumes "can_load_locally t = Ok ()"
  shows "unat (ct_current_count (increment t)) = Suc (unat (ct_current_count t))
    \<and> ct_current_count (increment t) \<le> ct_max_local (increment t)"
proof -
  have "ct_current_count t < ct_max_local t" using assms by (auto simp: can_load_locally_def split: if_splits)
  then have "ct_current_count t + 1 \<noteq> 0" "ct_current_count t + 1 \<le> ct_max_local t"
    by (auto simp: inc_le) (metis add.commute max_word_wrap not_less_iff_gr_or_eq word_order.extremum_strict)
  then show ?thesis by (simp add: increment_def unatSuc add.commute)
qed

end
