(* ===== verification/Abi_Symbols.thy ===== *)
theory Abi_Symbols
  imports Rust_Str
begin

text \<open>
  Symbols and versions of the plugin ABI: \<open>abi/src/symbols.rs\<close> (function signatures and the registry of
  expected and resolved symbols) and \<open>abi/src/abi_compat.rs\<close> (ABI versions and their compatibility with the
  loader). Addresses are 64-bit words.
\<close>

section \<open>Signatures\<close>

record FunctionSignature =
  fn_name :: string
  fn_return_type :: string
  fn_params :: "string list"
  fn_is_optional :: bool

datatype SignatureError =
    NameMismatch string string
  | ReturnTypeMismatch string string
  | ParameterCountMismatch nat nat
  | ParameterTypeMismatch nat string string

definition FunctionSignature_new :: "string \<Rightarrow> string \<Rightarrow> FunctionSignature" where
  "FunctionSignature_new name return_type =
     \<lparr>fn_name = name, fn_return_type = return_type, fn_params = [], fn_is_optional = False\<rparr>"

definition with_param :: "string \<Rightarrow> FunctionSignature \<Rightarrow> FunctionSignature" where
  "with_param param_type f = f\<lparr>fn_params := fn_params f @ [param_type]\<rparr>"

definition fn_optional :: "FunctionSignature \<Rightarrow> FunctionSignature" where
  "fn_optional f = f\<lparr>fn_is_optional := True\<rparr>"

definition signature_string :: "FunctionSignature \<Rightarrow> string" where
  "signature_string f = fn_name f @ ''('' @ join '', '' (fn_params f) @ '') -> '' @ fn_return_type f"

text \<open>The loop over the parameters of both signatures, from index \<open>i\<close>.\<close>

fun params_mismatch :: "nat \<Rightarrow> string list \<Rightarrow> string list \<Rightarrow> SignatureError option" where
  "params_mismatch i (e # es) (f # fs) =
     (if e \<noteq> f then Some (ParameterTypeMismatch i e f) else params_mismatch (Suc i) es fs)"
| "params_mismatch i _ _ = None"

definition signature_validate :: "FunctionSignature \<Rightarrow> FunctionSignature \<Rightarrow> SignatureError + unit" where
  "signature_validate f g =
     (if fn_name f \<noteq> fn_name g then Err (NameMismatch (fn_name f) (fn_name g))
      else if fn_return_type f \<noteq> fn_return_type g then Err (ReturnTypeMismatch (fn_return_type f) (fn_return_type g))
      else if length (fn_params f) \<noteq> length (fn_params g)
      then Err (ParameterCountMismatch (length (fn_params f)) (length (fn_params g)))
      else (case params_mismatch 0 (fn_params f) (fn_params g) of Some e \<Rightarrow> Err e | None \<Rightarrow> Ok ()))"

fun SignatureError_display :: "SignatureError \<Rightarrow> string" where
  "SignatureError_display (NameMismatch expected found) =
     ''Function name mismatch: expected '' @ quoted expected @ '', found '' @ quoted found"
| "SignatureError_display (ReturnTypeMismatch expected found) =
     ''Return type mismatch: expected '' @ quoted expected @ '', found '' @ quoted found"
| "SignatureError_display (ParameterCountMismatch expected found) =
     ''Parameter count mismatch: expected '' @ show_nat expected @ '', found '' @ show_nat found"
| "SignatureError_display (ParameterTypeMismatch param_index expected found) =
     ''Parameter '' @ show_nat param_index @ '' type mismatch: expected '' @ quoted expected @ '', found '' @ quoted found"

section \<open>The registry of symbols\<close>

record ResolvedSymbol =
  sy_name :: string
  sy_signature :: FunctionSignature
  sy_address :: usize
  sy_is_required :: bool
  sy_is_resolved :: bool

definition ResolvedSymbol_new :: "string \<Rightarrow> FunctionSignature \<Rightarrow> usize \<Rightarrow> ResolvedSymbol" where
  "ResolvedSymbol_new name signature address =
     \<lparr>sy_name = name, sy_signature = signature, sy_address = address, sy_is_required = True, sy_is_resolved = True\<rparr>"

definition sy_optional :: "ResolvedSymbol \<Rightarrow> ResolvedSymbol" where
  "sy_optional s = s\<lparr>sy_is_required := False\<rparr>"

definition sy_unresolved :: "string \<Rightarrow> FunctionSignature \<Rightarrow> ResolvedSymbol" where
  "sy_unresolved name signature =
     \<lparr>sy_name = name, sy_signature = signature, sy_address = 0, sy_is_required = True, sy_is_resolved = False\<rparr>"

record SymbolRegistry =
  sr_symbols :: "(string, ResolvedSymbol) hashmap"
  sr_expected_signatures :: "(string, FunctionSignature) hashmap"
  sr_required_count :: usize
  sr_resolved_count :: usize

datatype SymbolRegistryError =
    SignatureValidationFailed string string
  | UnexpectedSymbol string
  | MissingRequiredSymbol string
  | NullSymbolAddress string

fun SymbolRegistryError_display :: "SymbolRegistryError \<Rightarrow> string" where
  "SymbolRegistryError_display (SignatureValidationFailed symbol error) =
     ''Symbol '' @ quoted symbol @ '' signature validation failed: '' @ error"
| "SymbolRegistryError_display (UnexpectedSymbol symbol) = ''Unexpected symbol '' @ quoted symbol @ '' found''"
| "SymbolRegistryError_display (MissingRequiredSymbol symbol) = ''Required symbol '' @ quoted symbol @ '' is missing''"
| "SymbolRegistryError_display (NullSymbolAddress symbol) = ''Symbol '' @ quoted symbol @ '' has null address''"

definition SymbolRegistry_new :: SymbolRegistry where
  "SymbolRegistry_new =
     \<lparr>sr_symbols = [], sr_expected_signatures = [], sr_required_count = 0, sr_resolved_count = 0\<rparr>"

definition register_expected :: "FunctionSignature \<Rightarrow> SymbolRegistry \<Rightarrow> SymbolRegistry" where
  "register_expected signature r =
     (let r1 = (if \<not> fn_is_optional signature then r\<lparr>sr_required_count := sr_required_count r + 1\<rparr> else r)
      in r1\<lparr>sr_expected_signatures := hm_insert (fn_name signature) signature (sr_expected_signatures r1)\<rparr>)"

definition register_expected_batch :: "FunctionSignature list \<Rightarrow> SymbolRegistry \<Rightarrow> SymbolRegistry" where
  "register_expected_batch signatures r = foldl (\<lambda>r sig. register_expected sig r) r signatures"

definition register_resolved :: "ResolvedSymbol \<Rightarrow> SymbolRegistry \<Rightarrow> (SymbolRegistryError + unit) \<times> SymbolRegistry" where
  "register_resolved symbol r =
     (let checked = (case hm_get (sr_expected_signatures r) (sy_name symbol) of
            Some expected_sig \<Rightarrow>
              map_err (\<lambda>e. SignatureValidationFailed (sy_name symbol) (SignatureError_display e))
                (signature_validate expected_sig (sy_signature symbol))
          | None \<Rightarrow> if sy_is_required symbol then Err (UnexpectedSymbol (sy_name symbol)) else Ok ())
      in case checked of
           Err e \<Rightarrow> (Err e, r)
         | Ok _ \<Rightarrow>
             (let r1 = (if sy_is_resolved symbol then r\<lparr>sr_resolved_count := sr_resolved_count r + 1\<rparr> else r)
              in (Ok (), r1\<lparr>sr_symbols := hm_insert (sy_name symbol) symbol (sr_symbols r1)\<rparr>)))"

definition is_complete :: "SymbolRegistry \<Rightarrow> bool" where
  "is_complete r \<longleftrightarrow> sr_required_count r \<le> sr_resolved_count r"

record SymbolResolutionStatus =
  ss_total_expected :: nat
  ss_required_symbols :: usize
  ss_resolved_symbols :: usize
  ss_is_complete :: bool

definition resolution_status :: "SymbolRegistry \<Rightarrow> SymbolResolutionStatus" where
  "resolution_status r =
     \<lparr>ss_total_expected = length (sr_expected_signatures r), ss_required_symbols = sr_required_count r,
      ss_resolved_symbols = sr_resolved_count r, ss_is_complete = is_complete r\<rparr>"

definition symbol_get :: "string \<Rightarrow> SymbolRegistry \<Rightarrow> ResolvedSymbol option" where
  "symbol_get name r = hm_get (sr_symbols r) name"

definition all_symbols :: "SymbolRegistry \<Rightarrow> ResolvedSymbol list" where
  "all_symbols r = map snd (sr_symbols r)"

definition unresolved_symbols :: "SymbolRegistry \<Rightarrow> string list" where
  "unresolved_symbols r =
     map fn_name (filter (\<lambda>sig. \<not> fn_is_optional sig
         \<and> (case hm_get (sr_symbols r) (fn_name sig) of Some s \<Rightarrow> \<not> sy_is_resolved s | None \<Rightarrow> True))
       (map snd (sr_expected_signatures r)))"

definition missing_symbols :: "SymbolRegistry \<Rightarrow> string list" where
  "missing_symbols r =
     map fn_name (filter (\<lambda>sig. \<not> fn_is_optional sig \<and> hm_get (sr_symbols r) (fn_name sig) = None)
       (map snd (sr_expected_signatures r)))"

section \<open>ABI versions\<close>

record SemanticVersion =
  sv_major :: u32
  sv_minor :: u32
  sv_patch :: u32

datatype CompatibilityConstraint = ExactVersion | SameMajor | SameMinor | AnyVersion

datatype AbiVersionError =
    InvalidFormat string string
  | VersionTooOld SemanticVersion SemanticVersion SemanticVersion
  | VersionTooNew SemanticVersion SemanticVersion SemanticVersion
  | ConstraintViolation SemanticVersion SemanticVersion CompatibilityConstraint
  | MajorVersionMismatch SemanticVersion SemanticVersion

definition SemanticVersion_new :: "u32 \<Rightarrow> u32 \<Rightarrow> u32 \<Rightarrow> SemanticVersion" where
  "SemanticVersion_new major minor patch = \<lparr>sv_major = major, sv_minor = minor, sv_patch = patch\<rparr>"

definition SemanticVersion_parse :: "string \<Rightarrow> AbiVersionError + SemanticVersion" where
  "SemanticVersion_parse version_str =
     (let parts = split_on CHR ''.'' version_str;
          invalid = InvalidFormat version_str ''major.minor.patch''
      in if length parts \<noteq> 3 then Err invalid
         else
           result_bind (ok_or invalid (parse_u32 (parts ! 0))) (\<lambda>major.
           result_bind (ok_or invalid (parse_u32 (parts ! 1))) (\<lambda>minor.
           result_bind (ok_or invalid (parse_u32 (parts ! 2))) (\<lambda>patch.
           Ok \<lparr>sv_major = major, sv_minor = minor, sv_patch = patch\<rparr>))))"

definition version_compatible :: "SemanticVersion \<Rightarrow> SemanticVersion \<Rightarrow> bool" where
  "version_compatible v required =
     (if sv_major v \<noteq> sv_major required then False
      else if sv_minor v < sv_minor required then False
      else True)"

definition to_string_version :: "SemanticVersion \<Rightarrow> string" where
  "to_string_version v =
     show_nat (unat (sv_major v)) @ ''.'' @ show_nat (unat (sv_minor v)) @ ''.'' @ show_nat (unat (sv_patch v))"

definition is_major_change :: "SemanticVersion \<Rightarrow> SemanticVersion \<Rightarrow> bool" where
  "is_major_change v w \<longleftrightarrow> sv_major v \<noteq> sv_major w"

definition is_minor_change :: "SemanticVersion \<Rightarrow> SemanticVersion \<Rightarrow> bool" where
  "is_minor_change v w \<longleftrightarrow> sv_major v = sv_major w \<and> sv_minor v \<noteq> sv_minor w"

definition is_patch_change :: "SemanticVersion \<Rightarrow> SemanticVersion \<Rightarrow> bool" where
  "is_patch_change v w \<longleftrightarrow> sv_major v = sv_major w \<and> sv_minor v = sv_minor w \<and> sv_patch v \<noteq> sv_patch w"

text \<open>The derived \<open>Ord\<close>: fields in their order.\<close>

definition sv_cmp :: "SemanticVersion \<Rightarrow> SemanticVersion \<Rightarrow> ordering" where
  "sv_cmp v w = ord_then (cmp_of (sv_major v) (sv_major w))
     (ord_then (cmp_of (sv_minor v) (sv_minor w)) (cmp_of (sv_patch v) (sv_patch w)))"

fun is_satisfied :: "CompatibilityConstraint \<Rightarrow> SemanticVersion \<Rightarrow> SemanticVersion \<Rightarrow> bool" where
  "is_satisfied ExactVersion required provided = (required = provided)"
| "is_satisfied SameMajor required provided = (sv_major required = sv_major provided)"
| "is_satisfied SameMinor required provided =
     (sv_major required = sv_major provided \<and> sv_minor required = sv_minor provided)"
| "is_satisfied AnyVersion required provided = True"

fun CompatibilityConstraint_display :: "CompatibilityConstraint \<Rightarrow> string" where
  "CompatibilityConstraint_display ExactVersion = ''exact version''"
| "CompatibilityConstraint_display SameMajor = ''same major version''"
| "CompatibilityConstraint_display SameMinor = ''same major.minor version''"
| "CompatibilityConstraint_display AnyVersion = ''any version''"

record AbiCompatibility =
  ac_plugin_version :: SemanticVersion
  ac_min_loader_version :: SemanticVersion
  ac_max_loader_version :: "SemanticVersion option"
  ac_constraint :: CompatibilityConstraint
  ac_breaking_changes :: "string list"
  ac_deprecated_features :: "string list"

definition AbiCompatibility_new :: "SemanticVersion \<Rightarrow> SemanticVersion \<Rightarrow> AbiCompatibility" where
  "AbiCompatibility_new plugin_version min_loader_version =
     \<lparr>ac_plugin_version = plugin_version, ac_min_loader_version = min_loader_version, ac_max_loader_version = None,
      ac_constraint = SameMajor, ac_breaking_changes = [], ac_deprecated_features = []\<rparr>"

definition with_max_version :: "SemanticVersion \<Rightarrow> AbiCompatibility \<Rightarrow> AbiCompatibility" where
  "with_max_version max_version a = a\<lparr>ac_max_loader_version := Some max_version\<rparr>"

definition with_constraint :: "CompatibilityConstraint \<Rightarrow> AbiCompatibility \<Rightarrow> AbiCompatibility" where
  "with_constraint constraint a = a\<lparr>ac_constraint := constraint\<rparr>"

definition add_breaking_change :: "string \<Rightarrow> AbiCompatibility \<Rightarrow> AbiCompatibility" where
  "add_breaking_change description a = a\<lparr>ac_breaking_changes := ac_breaking_changes a @ [description]\<rparr>"

definition add_deprecated_feature :: "string \<Rightarrow> AbiCompatibility \<Rightarrow> AbiCompatibility" where
  "add_deprecated_feature feature a = a\<lparr>ac_deprecated_features := ac_deprecated_features a @ [feature]\<rparr>"

definition abi_compatible_with :: "AbiCompatibility \<Rightarrow> SemanticVersion \<Rightarrow> AbiVersionError + unit" where
  "abi_compatible_with a loader_version =
     (if sv_cmp loader_version (ac_min_loader_version a) = OLess
      then Err (VersionTooOld (ac_plugin_version a) (ac_min_loader_version a) loader_version)
      else if (case ac_max_loader_version a of
                 Some max_version \<Rightarrow> sv_cmp loader_version max_version = OGreater | None \<Rightarrow> False)
      then Err (VersionTooNew (ac_plugin_version a) (the (ac_max_loader_version a)) loader_version)
      else if \<not> is_satisfied (ac_constraint a) (ac_plugin_version a) loader_version
      then Err (ConstraintViolation (ac_plugin_version a) loader_version (ac_constraint a))
      else Ok ())"

definition AbiCompatibility_display :: "AbiCompatibility \<Rightarrow> string" where
  "AbiCompatibility_display a =
     ''ABI '' @ to_string_version (ac_plugin_version a) @ '' (requires loader >= ''
     @ to_string_version (ac_min_loader_version a) @ '')''
     @ (case ac_max_loader_version a of Some m \<Rightarrow> '' and < '' @ to_string_version m | None \<Rightarrow> [])"

fun AbiVersionError_display :: "AbiVersionError \<Rightarrow> string" where
  "AbiVersionError_display (InvalidFormat version expected) =
     ''Invalid version format '' @ quoted version @ '': expected '' @ expected"
| "AbiVersionError_display (VersionTooOld plugin_version required_min provided) =
     ''Plugin ABI '' @ to_string_version plugin_version @ '' requires loader >= '' @ to_string_version required_min
     @ '', but '' @ to_string_version provided @ '' provided''"
| "AbiVersionError_display (VersionTooNew plugin_version required_max provided) =
     ''Plugin ABI '' @ to_string_version plugin_version @ '' requires loader < '' @ to_string_version required_max
     @ '', but '' @ to_string_version provided @ '' provided''"
| "AbiVersionError_display (ConstraintViolation plugin_version loader_version constraint) =
     ''Plugin ABI '' @ to_string_version plugin_version @ '' requires '' @ CompatibilityConstraint_display constraint
     @ '', but loader '' @ to_string_version loader_version @ '' provided''"
| "AbiVersionError_display (MajorVersionMismatch plugin_version loader_version) =
     ''Major version mismatch: plugin '' @ to_string_version plugin_version @ '', loader ''
     @ to_string_version loader_version"

section \<open>Registered symbols have the expected types\<close>

lemma params_mismatch_None: "length xs = length ys \<Longrightarrow> params_mismatch i xs ys = None \<longleftrightarrow> xs = ys"
  by (induction i xs ys rule: params_mismatch.induct) auto

lemma params_mismatch_same [simp]: "params_mismatch i xs xs = None"
  by (simp add: params_mismatch_None)

lemma signature_validate_Ok_iff:
  "signature_validate f g = Ok () \<longleftrightarrow>
     fn_name f = fn_name g \<and> fn_return_type f = fn_return_type g \<and> fn_params f = fn_params g"
  by (auto simp: signature_validate_def params_mismatch_None split: option.splits)

definition symbol_typed :: "SymbolRegistry \<Rightarrow> ResolvedSymbol \<Rightarrow> bool" where
  "symbol_typed r s =
     (case hm_get (sr_expected_signatures r) (sy_name s) of
        Some f \<Rightarrow> fn_name f = fn_name (sy_signature s) \<and> fn_return_type f = fn_return_type (sy_signature s)
          \<and> fn_params f = fn_params (sy_signature s)
      | None \<Rightarrow> \<not> sy_is_required s)"

lemma register_resolved_cases:
  obtains (Refused) e where "register_resolved s r = (Err e, r)" "\<not> symbol_typed r s"
  | (Stored) r' where "register_resolved s r = (Ok (), r')" "symbol_typed r s"
      "sr_expected_signatures r' = sr_expected_signatures r" "sr_required_count r' = sr_required_count r"
      "sr_symbols r' = hm_insert (sy_name s) s (sr_symbols r)"
      "sr_resolved_count r' = sr_resolved_count r + (if sy_is_resolved s then 1 else 0)"
proof (cases "hm_get (sr_expected_signatures r) (sy_name s)")
  case None
  then show ?thesis
    by (cases "sy_is_required s")
      (auto simp: register_resolved_def Let_def symbol_typed_def intro: Refused Stored [of "snd (register_resolved s r)"])
next
  case (Some f)
  show ?thesis
  proof (cases "signature_validate f (sy_signature s)")
    case (Inl e)
    then have "signature_validate f (sy_signature s) \<noteq> Ok ()" by simp
    then have "\<not> symbol_typed r s" using Some by (simp add: symbol_typed_def signature_validate_Ok_iff)
    then show ?thesis using Some Inl Refused by (simp add: register_resolved_def)
  next
    case (Inr u)
    then have "signature_validate f (sy_signature s) = Ok ()" by simp
    then have "symbol_typed r s" using Some by (simp add: symbol_typed_def signature_validate_Ok_iff)
    then show ?thesis using Some Inr by (intro Stored [of "snd (register_resolved s r)"]) (auto simp: register_resolved_def Let_def)
  qed
qed

definition register_all :: "ResolvedSymbol list \<Rightarrow> SymbolRegistry \<Rightarrow> SymbolRegistry" where
  "register_all syms r = foldl (\<lambda>r s. snd (register_resolved s r)) r syms"

definition registry_typed :: "SymbolRegistry \<Rightarrow> bool" where
  "registry_typed r \<longleftrightarrow> distinct (hm_keys (sr_symbols r))
     \<and> (\<forall>n s. hm_get (sr_symbols r) n = Some s \<longrightarrow> sy_name s = n \<and> symbol_typed r s)"

lemma register_resolved_typed: "registry_typed r \<Longrightarrow> registry_typed (snd (register_resolved s r))"
proof (cases rule: register_resolved_cases [of s r])
  case (Stored r')
  assume "registry_typed r"
  moreover have "symbol_typed r' t = symbol_typed r t" for t by (simp add: symbol_typed_def Stored)
  ultimately show ?thesis using Stored by (auto simp: registry_typed_def update_conv' distinct_update split: if_splits)
qed simp

lemma register_all_typed: "registry_typed r \<Longrightarrow> registry_typed (register_all syms r)"
  by (induction syms arbitrary: r) (simp_all add: register_all_def register_resolved_typed)

lemma expected_batch_symbols: "sr_symbols (register_expected_batch sigs r) = sr_symbols r"
  by (induction sigs arbitrary: r) (simp_all add: register_expected_batch_def register_expected_def Let_def)

lemma expected_batch_keys:
  "list_all (\<lambda>(n, f). fn_name f = n) (sr_expected_signatures r) \<and> distinct (hm_keys (sr_expected_signatures r)) \<Longrightarrow>
   list_all (\<lambda>(n, f). fn_name f = n) (sr_expected_signatures (register_expected_batch sigs r))
   \<and> distinct (hm_keys (sr_expected_signatures (register_expected_batch sigs r)))"
proof (induction sigs arbitrary: r)
  case (Cons f fs)
  have "list_all (\<lambda>(n, f). fn_name f = n) (hm_insert (fn_name f) f (sr_expected_signatures r))"
    using Cons.prems set_update_subset [of "fn_name f" f "sr_expected_signatures r"] by (auto simp: list_all_iff)
  then show ?case
    using Cons by (simp add: register_expected_batch_def register_expected_def Let_def distinct_update)
qed (simp add: register_expected_batch_def)

lemma register_all_expected: "sr_expected_signatures (register_all syms r) = sr_expected_signatures r"
proof (induction syms arbitrary: r)
  case (Cons s syms)
  then show ?case by (cases rule: register_resolved_cases [of s r]) (simp_all add: register_all_def)
qed (simp add: register_all_def)

lemma set_filter_values:
  "n \<in> set (map g (filter P (map snd E))) \<longleftrightarrow> (\<exists>m f. (m, f) \<in> set E \<and> n = g f \<and> P f)"
  by (auto simp: image_iff) force

text \<open>Whatever symbols are offered to a registry, the ones that it stores under an expected name have the
  expected name, return type and parameter types, and the others are optional; it reports as unresolved
  exactly the required signatures without a resolved symbol. Its completeness test, however, only compares
  counters: a registry that stores the same optional or required symbol again counts as complete although a
  required symbol is missing.\<close>

theorem registered_symbols_typed:
  "let r = register_all syms (register_expected_batch sigs SymbolRegistry_new) in
     list_all (symbol_typed r) (all_symbols r)
     \<and> set (unresolved_symbols r) = {n. \<exists>f. hm_get (sr_expected_signatures r) n = Some f \<and> \<not> fn_is_optional f
         \<and> (case hm_get (sr_symbols r) n of Some s \<Rightarrow> \<not> sy_is_resolved s | None \<Rightarrow> True)}
     \<and> (let f = FunctionSignature_new ''init'' ''i32''; g = FunctionSignature_new ''stop'' ''i32'';
            s = ResolvedSymbol_new ''init'' f 4096;
            q = register_all [s, s] (register_expected_batch [f, g] SymbolRegistry_new)
        in is_complete q \<and> missing_symbols q = [''stop''])"
proof -
  define b where "b = register_expected_batch sigs SymbolRegistry_new"
  define r where "r = register_all syms b"
  have "registry_typed r"
    unfolding r_def by (rule register_all_typed)
      (simp add: registry_typed_def b_def expected_batch_symbols SymbolRegistry_new_def)
  then have typed: "list_all (symbol_typed r) (all_symbols r)"
    by (auto simp: registry_typed_def list_all_iff all_symbols_def)
  have keys: "list_all (\<lambda>(n, f). fn_name f = n) (sr_expected_signatures r)" "distinct (hm_keys (sr_expected_signatures r))"
    using expected_batch_keys [of SymbolRegistry_new sigs]
    by (simp_all add: r_def register_all_expected b_def SymbolRegistry_new_def)
  have "set (unresolved_symbols r) = {n. \<exists>f. hm_get (sr_expected_signatures r) n = Some f \<and> \<not> fn_is_optional f
         \<and> (case hm_get (sr_symbols r) n of Some s \<Rightarrow> \<not> sy_is_resolved s | None \<Rightarrow> True)}"
  proof -
    have E: "(n, f) \<in> set (sr_expected_signatures r) \<longleftrightarrow> hm_get (sr_expected_signatures r) n = Some f" for n f
      using keys(2) by (simp only: map_of_eq_Some_iff)
    have nm: "fn_name f = n" if "hm_get (sr_expected_signatures r) n = Some f" for n f
      using keys(1) that by (auto simp: list_all_iff E [symmetric])
    show ?thesis
    proof (rule set_eqI)
      fix n
      show "n \<in> set (unresolved_symbols r) \<longleftrightarrow> n \<in> {n. \<exists>f. hm_get (sr_expected_signatures r) n = Some f
          \<and> \<not> fn_is_optional f \<and> (case hm_get (sr_symbols r) n of Some s \<Rightarrow> \<not> sy_is_resolved s | None \<Rightarrow> True)}"
        unfolding unresolved_symbols_def set_filter_values E mem_Collect_eq using nm by metis
    qed
  qed
  moreover have "let f = FunctionSignature_new ''init'' ''i32''; g = FunctionSignature_new ''stop'' ''i32'';
      s = ResolvedSymbol_new ''init'' f 4096;
      q = register_all [s, s] (register_expected_batch [f, g] SymbolRegistry_new)
      in is_complete q \<and> missing_symbols q = [''stop'']"
    by code_simp
  ultimately show ?thesis using typed by (simp add: Let_def r_def b_def)
qed

text \<open>Printing and parsing an ABI version are inverse.\<close>

lemma SemanticVersion_parse_display: "SemanticVersion_parse (to_string_version v) = Ok v"
proof -
  have "to_string_version v = join [CHR ''.''] [show_nat (unat (sv_major v)), show_nat (unat (sv_minor v)), show_nat (unat (sv_patch v))]"
    by (simp add: to_string_version_def)
  then have "split_on CHR ''.'' (to_string_version v) =
      [show_nat (unat (sv_major v)), show_nat (unat (sv_minor v)), show_nat (unat (sv_patch v))]"
    by (simp only:) (subst split_on_join, auto simp: show_nat_no_char is_ascii_digit_def)
  then show ?thesis by (simp add: SemanticVersion_parse_def)
qed

end
