(* ===== verification/Load_Pipeline.thy ===== *)
theory Load_Pipeline
  imports Abi_Symbols
begin

text \<open>
  The loading pipeline of the ABI, \<open>abi/src/lifecycle.rs\<close>: its configuration, the stages of a load, the
  metrics and limits of a result, and the choice of recovery actions. The pipeline uses the symbol
  registry and the versions of \<open>Abi_Symbols\<close>.

  The loader of the platform is an argument: what it returns for a path. Elapsed times are arguments. The
  floating-point metrics and the printing of results are left out, as is the security configuration, which
  nothing reads.
\<close>

section \<open>States, errors, configuration\<close>

datatype PluginLifecycleState = Unloaded | BinaryLoaded | SymbolsResolving | AbiChecking | ReadyForInit
  | Initialized | LifecycleErrorState | UnloadingState | UnloadedAgain

fun PluginLifecycleState_display :: "PluginLifecycleState \<Rightarrow> string" where
  "PluginLifecycleState_display Unloaded = ''Unloaded''"
| "PluginLifecycleState_display BinaryLoaded = ''BinaryLoaded''"
| "PluginLifecycleState_display SymbolsResolving = ''SymbolsResolving''"
| "PluginLifecycleState_display AbiChecking = ''AbiChecking''"
| "PluginLifecycleState_display ReadyForInit = ''ReadyForInit''"
| "PluginLifecycleState_display Initialized = ''Initialized''"
| "PluginLifecycleState_display LifecycleErrorState = ''Error''"
| "PluginLifecycleState_display UnloadingState = ''Unloading''"
| "PluginLifecycleState_display UnloadedAgain = ''Unloaded''"

datatype LifecycleStage = BinaryLoad | SymbolResolution | AbiCompatibilityStage | Initialization | StateTransfer
  | UnloadingStage

fun LifecycleStage_display :: "LifecycleStage \<Rightarrow> string" where
  "LifecycleStage_display BinaryLoad = ''BinaryLoad''"
| "LifecycleStage_display SymbolResolution = ''SymbolResolution''"
| "LifecycleStage_display AbiCompatibilityStage = ''AbiCompatibility''"
| "LifecycleStage_display Initialization = ''Initialization''"
| "LifecycleStage_display StateTransfer = ''StateTransfer''"
| "LifecycleStage_display UnloadingStage = ''Unloading''"

datatype LifecycleErrorType = BinaryNotFound | BinaryValidationFailed | SymbolResolutionFailed
  | AbiCompatibilityFailed | InitializationFailed | AlreadyLoaded | NotLoaded | StateSerializationFailed
  | StateDeserializationFailed | StateVersionMismatch | StateChecksumFailed | InternalError

record LifecycleError =
  ler_stage :: LifecycleStage
  ler_error_type :: LifecycleErrorType
  ler_message :: string
  ler_recoverable :: bool

definition LifecycleError_new :: "LifecycleStage \<Rightarrow> LifecycleErrorType \<Rightarrow> string \<Rightarrow> LifecycleError" where
  "LifecycleError_new stage error_type message =
     \<lparr>ler_stage = stage, ler_error_type = error_type, ler_message = message, ler_recoverable = True\<rparr>"

definition unrecoverable :: "LifecycleError \<Rightarrow> LifecycleError" where
  "unrecoverable e = e\<lparr>ler_recoverable := False\<rparr>"

datatype RecoveryAction = Retry | Skip | Rollback | Abort

record RecoveryStrategy =
  rst_max_retries :: usize
  rst_skip_optional_stages :: bool
  rst_auto_rollback_on_critical :: bool
  rst_default_recovery_action :: RecoveryAction

definition RecoveryStrategy_new :: RecoveryStrategy where
  "RecoveryStrategy_new = \<lparr>rst_max_retries = 3, rst_skip_optional_stages = True,
     rst_auto_rollback_on_critical = True, rst_default_recovery_action = Retry\<rparr>"

definition with_max_retries :: "usize \<Rightarrow> RecoveryStrategy \<Rightarrow> RecoveryStrategy" where
  "with_max_retries retries s = s\<lparr>rst_max_retries := retries\<rparr>"

definition with_skip_optional_stages :: "bool \<Rightarrow> RecoveryStrategy \<Rightarrow> RecoveryStrategy" where
  "with_skip_optional_stages skip s = s\<lparr>rst_skip_optional_stages := skip\<rparr>"

definition with_auto_rollback :: "bool \<Rightarrow> RecoveryStrategy \<Rightarrow> RecoveryStrategy" where
  "with_auto_rollback rollback s = s\<lparr>rst_auto_rollback_on_critical := rollback\<rparr>"

record PluginLoadConfig =
  plc_loader_version :: SemanticVersion
  plc_strict_abi_checking :: bool
  plc_allow_missing_optional_symbols :: bool
  plc_init_timeout_ms :: u64
  plc_auto_unload_on_error :: bool
  plc_max_memory_kb :: u64
  plc_max_load_time_ms :: u64
  plc_enforce_memory_limits :: bool
  plc_recovery_strategy :: RecoveryStrategy

definition PluginLoadConfig_new :: "SemanticVersion \<Rightarrow> PluginLoadConfig" where
  "PluginLoadConfig_new loader_version =
     \<lparr>plc_loader_version = loader_version, plc_strict_abi_checking = True,
      plc_allow_missing_optional_symbols = True, plc_init_timeout_ms = 30000, plc_auto_unload_on_error = True,
      plc_max_memory_kb = 0, plc_max_load_time_ms = 0, plc_enforce_memory_limits = False,
      plc_recovery_strategy = RecoveryStrategy_new\<rparr>"

definition PluginLoadConfig_default :: PluginLoadConfig where
  "PluginLoadConfig_default = PluginLoadConfig_new (SemanticVersion_new 2 0 0)"

definition allow_abi_mismatch :: "PluginLoadConfig \<Rightarrow> PluginLoadConfig" where
  "allow_abi_mismatch c = c\<lparr>plc_strict_abi_checking := False\<rparr>"

definition with_init_timeout :: "u64 \<Rightarrow> PluginLoadConfig \<Rightarrow> PluginLoadConfig" where
  "with_init_timeout ms c = c\<lparr>plc_init_timeout_ms := ms\<rparr>"

definition with_max_memory_kb :: "u64 \<Rightarrow> PluginLoadConfig \<Rightarrow> PluginLoadConfig" where
  "with_max_memory_kb kb c = c\<lparr>plc_max_memory_kb := kb\<rparr>"

definition with_max_load_time_ms :: "u64 \<Rightarrow> PluginLoadConfig \<Rightarrow> PluginLoadConfig" where
  "with_max_load_time_ms ms c = c\<lparr>plc_max_load_time_ms := ms\<rparr>"

definition enforce_memory_limits :: "PluginLoadConfig \<Rightarrow> PluginLoadConfig" where
  "enforce_memory_limits c = c\<lparr>plc_enforce_memory_limits := True\<rparr>"

definition with_recovery_strategy :: "RecoveryStrategy \<Rightarrow> PluginLoadConfig \<Rightarrow> PluginLoadConfig" where
  "with_recovery_strategy strategy c = c\<lparr>plc_recovery_strategy := strategy\<rparr>"

section \<open>Results and metrics\<close>

record PipelineStageResult =
  psr_stage :: LifecycleStage
  psr_success :: bool
  psr_elapsed_ms :: u64
  psr_error :: "string option"

record PluginLoadResult =
  plr_plugin_name :: string
  plr_success :: bool
  plr_stages :: "PipelineStageResult list"
  plr_total_ms :: u64
  plr_symbol_count :: usize
  plr_validation_details :: string

definition failed_stage :: "PluginLoadResult \<Rightarrow> PipelineStageResult option" where
  "failed_stage r = List.find (\<lambda>s. \<not> psr_success s) (plr_stages r)"

definition successful_stages_time :: "PluginLoadResult \<Rightarrow> u64" where
  "successful_stages_time r = sum_list (map psr_elapsed_ms (filter psr_success (plr_stages r)))"

record PerformanceMetrics =
  pmx_total_time_ms :: u64
  pmx_binary_load_time_ms :: u64
  pmx_symbol_resolution_time_ms :: u64
  pmx_abi_check_time_ms :: u64
  pmx_estimated_memory_kb :: u64
  pmx_peak_memory_kb :: u64
  pmx_symbol_count :: usize

definition stage_time :: "LifecycleStage \<Rightarrow> PluginLoadResult \<Rightarrow> u64" where
  "stage_time stage r =
     (case List.find (\<lambda>s. psr_stage s = stage) (plr_stages r) of Some s \<Rightarrow> psr_elapsed_ms s | None \<Rightarrow> 0)"

definition metrics_from_result :: "PluginLoadResult \<Rightarrow> PerformanceMetrics" where
  "metrics_from_result r =
     \<lparr>pmx_total_time_ms = plr_total_ms r, pmx_binary_load_time_ms = stage_time BinaryLoad r,
      pmx_symbol_resolution_time_ms = stage_time SymbolResolution r,
      pmx_abi_check_time_ms = stage_time AbiCompatibilityStage r,
      pmx_estimated_memory_kb = max ((plr_symbol_count r * 8) div 1024) 1,
      pmx_peak_memory_kb = max ((plr_symbol_count r * 16) div 1024) 64,
      pmx_symbol_count = plr_symbol_count r\<rparr>"

definition is_acceptable :: "u64 \<Rightarrow> PerformanceMetrics \<Rightarrow> bool" where
  "is_acceptable max_total_ms m \<longleftrightarrow> pmx_total_time_ms m \<le> max_total_ms"

definition slowest_stage_ms :: "PerformanceMetrics \<Rightarrow> u64" where
  "slowest_stage_ms m =
     max (max (pmx_binary_load_time_ms m) (pmx_symbol_resolution_time_ms m)) (pmx_abi_check_time_ms m)"

definition is_memory_acceptable :: "u64 \<Rightarrow> PerformanceMetrics \<Rightarrow> bool" where
  "is_memory_acceptable max_kb m \<longleftrightarrow> pmx_peak_memory_kb m \<le> max_kb"

section \<open>Recovery\<close>

definition saturating_mul :: "u64 \<Rightarrow> u64 \<Rightarrow> u64" where
  "saturating_mul a b = (if unat a * unat b < 2 ^ 64 then a * b else - 1)"

definition saturating_add :: "u64 \<Rightarrow> u64 \<Rightarrow> u64" where
  "saturating_add a b = (if unat a + unat b < 2 ^ 64 then a + b else - 1)"

definition calculate_backoff_delay :: "usize \<Rightarrow> u64 \<Rightarrow> u64" where
  "calculate_backoff_delay retry_count base_delay_ms =
     (let exponential = saturating_mul base_delay_ms (2 ^ min (unat retry_count) 10);
          jitter = max (exponential div 4) 1;
          seed = retry_count * 1103515245 + 12345
      in saturating_add exponential (seed mod jitter))"

definition is_stage_optional :: "LifecycleStage \<Rightarrow> bool" where
  "is_stage_optional stage \<longleftrightarrow> stage \<in> {SymbolResolution, AbiCompatibilityStage}"

definition is_critical_stage :: "LifecycleStage \<Rightarrow> bool" where
  "is_critical_stage stage \<longleftrightarrow> stage \<in> {BinaryLoad, Initialization}"

definition determine_recovery_action :: "LifecycleError \<Rightarrow> RecoveryStrategy \<Rightarrow> usize \<Rightarrow> RecoveryAction" where
  "determine_recovery_action error strategy retry_count =
     (if \<not> ler_recoverable error then Abort
      else if rst_max_retries strategy \<le> retry_count
      then (if rst_skip_optional_stages strategy \<and> is_stage_optional (ler_stage error) then Skip else Abort)
      else if rst_auto_rollback_on_critical strategy \<and> is_critical_stage (ler_stage error) \<and> 0 < retry_count
      then Rollback
      else rst_default_recovery_action strategy)"

definition perform_rollback :: "LifecycleStage \<Rightarrow> LifecycleError + unit" where
  "perform_rollback stage =
     (if stage = UnloadingStage
      then Err (LifecycleError_new stage InternalError ''Cannot rollback from unloading stage'')
      else Ok ())"

section \<open>The pipeline\<close>

definition validate_against_limits :: "PluginLoadConfig \<Rightarrow> PluginLoadResult \<Rightarrow> LifecycleError + unit" where
  "validate_against_limits c r =
     (let peak = pmx_peak_memory_kb (metrics_from_result r)
      in if plc_enforce_memory_limits c \<and> 0 < plc_max_memory_kb c \<and> plc_max_memory_kb c < peak
         then Err (LifecycleError_new BinaryLoad InternalError
                (''Memory limit exceeded: '' @ show_u64 peak @ '' KB > '' @ show_u64 (plc_max_memory_kb c) @ '' KB''))
         else if 0 < plc_max_load_time_ms c \<and> plc_max_load_time_ms c < plr_total_ms r
         then Err (LifecycleError_new BinaryLoad InternalError
                (''Load time exceeded: '' @ show_u64 (plr_total_ms r) @ '' ms > '' @ show_u64 (plc_max_load_time_ms c) @ '' ms''))
         else Ok ())"

text \<open>What the loader of the platform reports, as far as the pipeline reads it.\<close>

datatype loader_error = LoaderBinaryNotFound string | LoaderBinaryValidationFailed string | LoaderOther string

record LoadedPlugin =
  lp_name :: string
  lp_version :: string
  lp_abi_version :: string

fun loader_error_string :: "loader_error \<Rightarrow> string" where
  "loader_error_string (LoaderBinaryNotFound s) = s"
| "loader_error_string (LoaderBinaryValidationFailed s) = s"
| "loader_error_string (LoaderOther s) = s"

fun loader_error_type :: "loader_error \<Rightarrow> LifecycleErrorType" where
  "loader_error_type (LoaderBinaryNotFound _) = BinaryNotFound"
| "loader_error_type (LoaderBinaryValidationFailed _) = BinaryValidationFailed"
| "loader_error_type (LoaderOther _) = InternalError"

definition expected_symbols :: "FunctionSignature list" where
  "expected_symbols =
     [FunctionSignature_new ''plugin_get_info'' ''*const PluginInfoV2'',
      FunctionSignature_new ''plugin_init'' ''PluginResultV2'',
      FunctionSignature_new ''plugin_shutdown'' ''PluginResultV2'',
      FunctionSignature_new ''plugin_handle_request'' ''PluginResultV2'',
      fn_optional (FunctionSignature_new ''plugin_handle_event'' ''PluginResultV2''),
      fn_optional (FunctionSignature_new ''plugin_health_check'' ''HealthStatus''),
      fn_optional (FunctionSignature_new ''plugin_get_metrics'' ''*const PluginMetrics'')]"

definition stage_ok :: "LifecycleStage \<Rightarrow> u64 \<Rightarrow> PipelineStageResult" where
  "stage_ok stage ms = \<lparr>psr_stage = stage, psr_success = True, psr_elapsed_ms = ms, psr_error = None\<rparr>"

definition pipeline_load :: "(string \<Rightarrow> loader_error + LoadedPlugin) \<Rightarrow> (nat \<Rightarrow> u64) \<Rightarrow> PluginLoadConfig \<Rightarrow> string
    \<Rightarrow> LifecycleError + PluginLoadResult" where
  "pipeline_load loader elapsed c path =
     (case loader path of
        Err e \<Rightarrow> Err (unrecoverable (LifecycleError_new BinaryLoad (loader_error_type e) (loader_error_string e)))
      | Ok loaded_plugin \<Rightarrow>
          (let symbol_registry = register_expected_batch expected_symbols SymbolRegistry_new;
               symbol_count = of_nat (length (all_symbols symbol_registry));
               abi_compat = AbiCompatibility_new
                 (case SemanticVersion_parse (lp_abi_version loaded_plugin) of
                    Ok v \<Rightarrow> v | Err _ \<Rightarrow> SemanticVersion_new 2 0 0) (SemanticVersion_new 2 0 0)
           in case (if plc_strict_abi_checking c then abi_compatible_with abi_compat (plc_loader_version c) else Ok ()) of
                Err e \<Rightarrow> Err (LifecycleError_new AbiCompatibilityStage AbiCompatibilityFailed (AbiVersionError_display e))
              | Ok _ \<Rightarrow>
                  Ok \<lparr>plr_plugin_name = lp_name loaded_plugin, plr_success = True,
                      plr_stages = [stage_ok BinaryLoad (elapsed 0), stage_ok SymbolResolution (elapsed 1),
                        stage_ok AbiCompatibilityStage (elapsed 2)],
                      plr_total_ms = elapsed 3, plr_symbol_count = symbol_count,
                      plr_validation_details = ''Plugin: '' @ lp_name loaded_plugin @ '' v'' @ lp_version loaded_plugin
                        @ '', Symbols: '' @ show_u64 symbol_count @ '', ABI: '' @ lp_abi_version loaded_plugin\<rparr>))"

section \<open>What a load does\<close>

interpretation sv_ord: rust_ord sv_cmp
  unfolding sv_cmp_def
  by (intro rust_ord_then linorder_ord.rust_ord_axioms rust_ord_inv_image [where c = cmp_of])

lemma register_expected_symbols [simp]: "sr_symbols (register_expected sig r) = sr_symbols r"
  by (simp add: register_expected_def Let_def)

lemma register_expected_batch_symbols [simp]: "sr_symbols (register_expected_batch sigs r) = sr_symbols r"
  by (induction sigs arbitrary: r) (simp_all add: register_expected_batch_def)

lemma no_symbols: "all_symbols (register_expected_batch sigs SymbolRegistry_new) = []"
  by (simp add: all_symbols_def SymbolRegistry_new_def)

text \<open>The loader's version admits the ABI of a plugin: a text that is not a version counts as 2.0.0.\<close>

definition abi_admitted :: "SemanticVersion \<Rightarrow> LoadedPlugin \<Rightarrow> bool" where
  "abi_admitted v p = (sv_cmp v (SemanticVersion_new 2 0 0) \<noteq> OLess
     \<and> sv_major v = (case SemanticVersion_parse (lp_abi_version p) of Ok w \<Rightarrow> sv_major w | Err _ \<Rightarrow> 2))"

text \<open>A load succeeds exactly if the binary loads and, with strict checking, the loader's version is at
  least 2.0.0 and has the major version of the plugin's ABI, where a text that is not a version counts as
  2.0.0. Then it reports the three stages in order and as successful, and no failed stage. A failure to load
  is not recoverable, an incompatible ABI is. The symbols of the plugin are never looked at: their number is
  always 0, and the memory that is checked against the limit is always 64 KB.\<close>

theorem pipeline_outcome:
  "case pipeline_load loader elapsed c path of
     Ok r \<Rightarrow> (\<exists>p. loader path = Ok p \<and> plr_plugin_name r = lp_name p
         \<and> (if plc_strict_abi_checking c then abi_admitted (plc_loader_version c) p else True))
       \<and> plr_success r \<and> map psr_stage (plr_stages r) = [BinaryLoad, SymbolResolution, AbiCompatibilityStage]
       \<and> failed_stage r = None \<and> plr_symbol_count r = 0
       \<and> pmx_peak_memory_kb (metrics_from_result r) = 64
   | Err e \<Rightarrow>
       (case loader path of
          Err _ \<Rightarrow> ler_stage e = BinaryLoad \<and> \<not> ler_recoverable e
        | Ok p \<Rightarrow> ler_stage e = AbiCompatibilityStage \<and> ler_recoverable e \<and> plc_strict_abi_checking c
            \<and> \<not> abi_admitted (plc_loader_version c) p)"
proof (cases "loader path")
  case (Inl e)
  then show ?thesis by (simp add: pipeline_load_def LifecycleError_new_def unrecoverable_def)
next
  case (Inr p)
  have "sv_major (case SemanticVersion_parse (lp_abi_version p) of Ok v \<Rightarrow> v | Err _ \<Rightarrow> SemanticVersion_new 2 0 0)
      = (case SemanticVersion_parse (lp_abi_version p) of Ok v \<Rightarrow> sv_major v | Err _ \<Rightarrow> 2)"
    by (simp add: SemanticVersion_new_def split: sum.split)
  then show ?thesis
    using Inr
    by (auto simp: pipeline_load_def abi_admitted_def Let_def no_symbols AbiCompatibility_new_def abi_compatible_with_def LifecycleError_new_def
        stage_ok_def failed_stage_def metrics_from_result_def split: sum.split)
qed

section \<open>Bounds of the backoff\<close>

lemma unat_max_u64: "unat (- 1 :: u64) = 2 ^ 64 - 1"
  by (simp add: unsigned_minus_1_eq_mask mask_eq_exp_minus_1)

lemma unat_saturating_add: "unat (saturating_add a b) = min (unat a + unat b) (2 ^ 64 - 1)"
  by (auto simp: saturating_add_def unat_word_ariths unat_max_u64)

lemma unat_saturating_mul: "unat (saturating_mul a b) = min (unat a * unat b) (2 ^ 64 - 1)"
  by (auto simp: saturating_mul_def unat_word_ariths unat_max_u64)

text \<open>The delay before a retry is the base delay times two to the number of retries, with at most ten
  doublings, plus a jitter of less than a quarter of it; nothing overflows, the delay saturates instead.\<close>

theorem backoff_bounds:
  "let e = min (unat base_delay * 2 ^ min (unat retries) 10) (2 ^ 64 - 1); d = unat (calculate_backoff_delay retries base_delay)
   in e \<le> d \<and> d \<le> e + (e div 4 - 1) \<and> d < 2 ^ 64"
proof -
  define e where "e = saturating_mul base_delay (2 ^ min (unat retries) 10)"
  have "unat ((2 :: u64) ^ min (unat retries) 10) = 2 ^ min (unat retries) 10"
  proof -
    have "(2 :: nat) ^ min (unat retries) 10 \<le> 2 ^ 10" by (intro power_increasing) simp_all
    then show ?thesis using unat_of_nat [of "2 ^ min (unat retries) 10", where ?'a = 64] by simp
  qed
  then have e: "unat e = min (unat base_delay * 2 ^ min (unat retries) 10) (2 ^ 64 - 1)"
    by (simp add: e_def unat_saturating_mul)
  define j where "j = (retries * 1103515245 + 12345) mod max (e div 4) 1"
  have d: "unat (calculate_backoff_delay retries base_delay) = min (unat e + unat j) (2 ^ 64 - 1)"
    unfolding calculate_backoff_delay_def Let_def e_def [symmetric] j_def [symmetric] by (rule unat_saturating_add)
  have "unat (max (e div 4) 1) = max (unat e div 4) 1"
    by (simp add: max_def word_le_nat_alt unat_div_distrib)
  then have "unat j = unat (retries * 1103515245 + 12345) mod max (unat e div 4) 1"
    unfolding j_def by (simp only: unat_mod_distrib)
  moreover have "x mod max k 1 \<le> k - 1" for x k :: nat
    using mod_less_divisor [of "max k 1" x] by linarith
  ultimately have "unat j \<le> unat e div 4 - 1" by (simp only:)
  moreover have "unat e < 2 ^ 64" using unsigned_less [of e, where 'a = nat] by simp
  ultimately have "unat e \<le> min (unat e + unat j) (2 ^ 64 - 1)
      \<and> min (unat e + unat j) (2 ^ 64 - 1) \<le> unat e + (unat e div 4 - 1) \<and> min (unat e + unat j) (2 ^ 64 - 1) < (2 ^ 64 :: nat)"
    by linarith
  then show ?thesis unfolding Let_def d e [symmetric] .
qed

section \<open>Recovery always comes to an end\<close>

text \<open>After the maximal number of retries the action is to skip or to abort; an unrecoverable error always
  aborts; and with \<open>Retry\<close> as the default a critical stage is never skipped.\<close>

lemma recovery_ends:
  "rst_max_retries s \<le> n \<Longrightarrow> determine_recovery_action e s n \<in> {Skip, Abort}"
  "\<not> ler_recoverable e \<Longrightarrow> determine_recovery_action e s n = Abort"
  "rst_default_recovery_action s = Retry \<Longrightarrow> is_critical_stage (ler_stage e) \<Longrightarrow>
     determine_recovery_action e s n \<in> {Retry, Rollback, Abort}"
  by (auto simp: determine_recovery_action_def is_critical_stage_def is_stage_optional_def)

end
