(* ===== verification/Audit_Log.thy ===== *)
theory Audit_Log
  imports Load_Pipeline
begin

text \<open>
  Audit events, queries and the in-memory log of \<open>abi/src/audit.rs\<close>: events with their signatures,
  filters and their combinations, full-text search, statistics, aggregation over time, and the registry
  of backends. The backend in a file is the theory \<open>Audit_File\<close>.

  HMAC-SHA256 and the encoding of bytes as hexadecimal text are arguments. A Rust \<open>usize\<close> that counts
  elements of a vector is a natural number; limits, offsets and time stamps are words. The backend in a
  Postgres database and the percentages in floating point are left out.
\<close>

section \<open>Events\<close>

text \<open>\<open>{:016x}\<close>: the hexadecimal digits, with leading zeros to the given width.\<close>

type_synonym AuditEventId = u64

definition AuditEventId_display :: "AuditEventId \<Rightarrow> string" where
  "AuditEventId_display event_id = pad_hex 16 (unat event_id)"

datatype AuditSeverity = Info | Warning | Error | Critical

fun severity_u8 :: "AuditSeverity \<Rightarrow> nat" where
  "severity_u8 Info = 0"
| "severity_u8 Warning = 1"
| "severity_u8 Error = 2"
| "severity_u8 Critical = 3"

text \<open>The derived \<open>Ord\<close>.\<close>

instantiation AuditSeverity :: linorder
begin

definition less_eq_AuditSeverity :: "AuditSeverity \<Rightarrow> AuditSeverity \<Rightarrow> bool" where
  "less_eq_AuditSeverity s t \<longleftrightarrow> severity_u8 s \<le> severity_u8 t"

definition less_AuditSeverity :: "AuditSeverity \<Rightarrow> AuditSeverity \<Rightarrow> bool" where
  "less_AuditSeverity s t \<longleftrightarrow> severity_u8 s < severity_u8 t"

instance
proof
  fix s t :: AuditSeverity
  show "s \<le> t \<Longrightarrow> t \<le> s \<Longrightarrow> s = t"
    by (cases s; cases t) (simp_all add: less_eq_AuditSeverity_def)
qed (auto simp: less_eq_AuditSeverity_def less_AuditSeverity_def)

end

fun AuditSeverity_display :: "AuditSeverity \<Rightarrow> string" where
  "AuditSeverity_display Info = ''INFO''"
| "AuditSeverity_display Warning = ''WARN''"
| "AuditSeverity_display Error = ''ERROR''"
| "AuditSeverity_display Critical = ''CRITICAL''"

datatype AuditEventType = LoadStarted | LoadSucceeded | LoadFailed | RecoveryAttempted | RecoverySucceeded
  | RecoveryFailed | RollbackStarted | RollbackCompleted | RetryAttempted | StageSkipped
  | MemoryLimitExceeded | PerformanceSlaViolated | ValidationPassed | ValidationFailed

text \<open>The discriminants, as \<open>event_type as u8\<close> reads them.\<close>

fun event_type_u8 :: "AuditEventType \<Rightarrow> nat" where
  "event_type_u8 LoadStarted = 0"
| "event_type_u8 LoadSucceeded = 1"
| "event_type_u8 LoadFailed = 2"
| "event_type_u8 RecoveryAttempted = 3"
| "event_type_u8 RecoverySucceeded = 4"
| "event_type_u8 RecoveryFailed = 5"
| "event_type_u8 RollbackStarted = 6"
| "event_type_u8 RollbackCompleted = 7"
| "event_type_u8 RetryAttempted = 8"
| "event_type_u8 StageSkipped = 9"
| "event_type_u8 MemoryLimitExceeded = 10"
| "event_type_u8 PerformanceSlaViolated = 11"
| "event_type_u8 ValidationPassed = 12"
| "event_type_u8 ValidationFailed = 13"

text \<open>\<open>Display\<close>; the derived \<open>Debug\<close> prints the same names.\<close>

fun AuditEventType_display :: "AuditEventType \<Rightarrow> string" where
  "AuditEventType_display LoadStarted = ''LoadStarted''"
| "AuditEventType_display LoadSucceeded = ''LoadSucceeded''"
| "AuditEventType_display LoadFailed = ''LoadFailed''"
| "AuditEventType_display RecoveryAttempted = ''RecoveryAttempted''"
| "AuditEventType_display RecoverySucceeded = ''RecoverySucceeded''"
| "AuditEventType_display RecoveryFailed = ''RecoveryFailed''"
| "AuditEventType_display RollbackStarted = ''RollbackStarted''"
| "AuditEventType_display RollbackCompleted = ''RollbackCompleted''"
| "AuditEventType_display RetryAttempted = ''RetryAttempted''"
| "AuditEventType_display StageSkipped = ''StageSkipped''"
| "AuditEventType_display MemoryLimitExceeded = ''MemoryLimitExceeded''"
| "AuditEventType_display PerformanceSlaViolated = ''PerformanceSlaViolated''"
| "AuditEventType_display ValidationPassed = ''ValidationPassed''"
| "AuditEventType_display ValidationFailed = ''ValidationFailed''"

record AuditEvent =
  ae_event_id :: AuditEventId
  ae_event_type :: AuditEventType
  ae_severity :: AuditSeverity
  ae_plugin_name :: string
  ae_stage :: "LifecycleStage option"
  ae_error_type :: "LifecycleErrorType option"
  ae_recovery_action :: "RecoveryAction option"
  ae_message :: string
  ae_metadata :: string
  ae_timestamp :: u64
  ae_retry_count :: "usize option"
  ae_duration_ms :: "u64 option"

text \<open>The clock is read twice: \<open>now\<close> in seconds, \<open>now_nanos\<close> for the identifier.\<close>

definition AuditEvent_new :: "u64 \<Rightarrow> u64 \<Rightarrow> AuditEventType \<Rightarrow> AuditSeverity \<Rightarrow> string \<Rightarrow> string \<Rightarrow> AuditEvent" where
  "AuditEvent_new now now_nanos event_type severity plugin_name message =
     \<lparr>ae_event_id = now_nanos, ae_event_type = event_type, ae_severity = severity,
      ae_plugin_name = plugin_name, ae_stage = None, ae_error_type = None, ae_recovery_action = None,
      ae_message = message, ae_metadata = [], ae_timestamp = now, ae_retry_count = None, ae_duration_ms = None\<rparr>"

definition ae_with_stage :: "LifecycleStage \<Rightarrow> AuditEvent \<Rightarrow> AuditEvent" where
  "ae_with_stage stage e = e\<lparr>ae_stage := Some stage\<rparr>"

definition ae_with_error_type :: "LifecycleErrorType \<Rightarrow> AuditEvent \<Rightarrow> AuditEvent" where
  "ae_with_error_type error_type e = e\<lparr>ae_error_type := Some error_type\<rparr>"

definition ae_with_recovery_action :: "RecoveryAction \<Rightarrow> AuditEvent \<Rightarrow> AuditEvent" where
  "ae_with_recovery_action action e = e\<lparr>ae_recovery_action := Some action\<rparr>"

definition ae_with_metadata :: "string \<Rightarrow> AuditEvent \<Rightarrow> AuditEvent" where
  "ae_with_metadata metadata e = e\<lparr>ae_metadata := metadata\<rparr>"

definition ae_with_retry_count :: "usize \<Rightarrow> AuditEvent \<Rightarrow> AuditEvent" where
  "ae_with_retry_count count e = e\<lparr>ae_retry_count := Some count\<rparr>"

definition ae_with_duration_ms :: "u64 \<Rightarrow> AuditEvent \<Rightarrow> AuditEvent" where
  "ae_with_duration_ms duration_ms e = e\<lparr>ae_duration_ms := Some duration_ms\<rparr>"

definition AuditEvent_display :: "AuditEvent \<Rightarrow> string" where
  "AuditEvent_display e =
     ''['' @ AuditEventId_display (ae_event_id e) @ ''] '' @ AuditSeverity_display (ae_severity e) @ '' ''
     @ AuditEventType_display (ae_event_type e) @ '' '' @ ae_plugin_name e
     @ (case ae_stage e of None \<Rightarrow> [] | Some s \<Rightarrow> '' ['' @ LifecycleStage_display s @ '']'')
     @ (case ae_retry_count e of None \<Rightarrow> [] | Some r \<Rightarrow> '' (retry '' @ show_u64 r @ '')'')
     @ '': '' @ ae_message e"

datatype AuditLogError = IoError string | SerializationError string | BackendError string
  | QueryError string | RegistryError string

fun AuditLogError_display :: "AuditLogError \<Rightarrow> string" where
  "AuditLogError_display (IoError msg) = ''IO error: '' @ msg"
| "AuditLogError_display (SerializationError msg) = ''Serialization error: '' @ msg"
| "AuditLogError_display (BackendError msg) = ''Backend error: '' @ msg"
| "AuditLogError_display (QueryError msg) = ''Query error: '' @ msg"
| "AuditLogError_display (RegistryError msg) = ''Registry error: '' @ msg"

section \<open>Signatures\<close>

record mac_env =
  me_hmac :: "string \<Rightarrow> string \<Rightarrow> string"
  me_hex :: "string \<Rightarrow> string"

text \<open>The text that is signed.\<close>

definition event_data :: "AuditEvent \<Rightarrow> string" where
  "event_data e = AuditEventId_display (ae_event_id e) @ ''|'' @ show_nat (event_type_u8 (ae_event_type e)) @ ''|''
     @ ae_plugin_name e @ ''|'' @ ae_message e @ ''|'' @ show_u64 (ae_timestamp e) @ ''|''
     @ show_nat (severity_u8 (ae_severity e))"

text \<open>HMAC accepts secrets of every length, so the branch for an invalid length is never taken.\<close>

definition event_sign :: "mac_env \<Rightarrow> string \<Rightarrow> AuditEvent \<Rightarrow> AuditLogError + string" where
  "event_sign env secret e =
     (if secret = [] then Err (BackendError ''Secret key cannot be empty'')
      else Ok (me_hex env (me_hmac env secret (event_data e))))"

text \<open>\<open>result |= x ^ y\<close> over the zipped bytes.\<close>

definition byte_of :: "char \<Rightarrow> 8 word" where
  "byte_of c = word_of_nat (of_char c)"

definition constant_time_compare :: "string \<Rightarrow> string \<Rightarrow> bool" where
  "constant_time_compare a b =
     (if length a \<noteq> length b then False
      else foldl (\<lambda>r (x, y). or r (xor (byte_of x) (byte_of y))) 0 (zip a b) = 0)"

definition event_verify :: "mac_env \<Rightarrow> string \<Rightarrow> string \<Rightarrow> AuditEvent \<Rightarrow> AuditLogError + bool" where
  "event_verify env secret sig e =
     result_bind (event_sign env secret e) (\<lambda>computed. Ok (constant_time_compare computed sig))"

fun verify_all :: "mac_env \<Rightarrow> string \<Rightarrow> (AuditEvent \<times> string) list \<Rightarrow> AuditLogError + bool" where
  "verify_all env secret [] = Ok True"
| "verify_all env secret ((e, sig) # rest) =
     result_bind (event_verify env secret sig e) (\<lambda>ok. if ok then verify_all env secret rest else Ok False)"

definition verify_chain :: "mac_env \<Rightarrow> AuditEvent list \<Rightarrow> string \<Rightarrow> string list \<Rightarrow> AuditLogError + bool" where
  "verify_chain env events secret signatures =
     (if length events \<noteq> length signatures then Err (BackendError ''Event and signature count mismatch'')
      else verify_all env secret (zip events signatures))"

section \<open>Filters\<close>

record AuditLogFilter =
  lf_plugin_name :: "string option"
  lf_event_type :: "AuditEventType option"
  lf_min_severity :: "AuditSeverity option"
  lf_stage :: "LifecycleStage option"
  lf_recovery_action :: "RecoveryAction option"
  lf_start_time :: "u64 option"
  lf_end_time :: "u64 option"
  lf_limit :: "usize option"
  lf_offset :: "usize option"

definition AuditLogFilter_new :: AuditLogFilter where
  "AuditLogFilter_new = \<lparr>lf_plugin_name = None, lf_event_type = None, lf_min_severity = None, lf_stage = None,
     lf_recovery_action = None, lf_start_time = None, lf_end_time = None, lf_limit = None, lf_offset = None\<rparr>"

definition lf_with_plugin_name :: "string \<Rightarrow> AuditLogFilter \<Rightarrow> AuditLogFilter" where
  "lf_with_plugin_name name f = f\<lparr>lf_plugin_name := Some name\<rparr>"

definition lf_with_event_type :: "AuditEventType \<Rightarrow> AuditLogFilter \<Rightarrow> AuditLogFilter" where
  "lf_with_event_type event_type f = f\<lparr>lf_event_type := Some event_type\<rparr>"

definition lf_with_min_severity :: "AuditSeverity \<Rightarrow> AuditLogFilter \<Rightarrow> AuditLogFilter" where
  "lf_with_min_severity severity f = f\<lparr>lf_min_severity := Some severity\<rparr>"

definition lf_with_stage :: "LifecycleStage \<Rightarrow> AuditLogFilter \<Rightarrow> AuditLogFilter" where
  "lf_with_stage stage f = f\<lparr>lf_stage := Some stage\<rparr>"

definition lf_with_recovery_action :: "RecoveryAction \<Rightarrow> AuditLogFilter \<Rightarrow> AuditLogFilter" where
  "lf_with_recovery_action action f = f\<lparr>lf_recovery_action := Some action\<rparr>"

definition lf_with_time_range :: "u64 \<Rightarrow> u64 \<Rightarrow> AuditLogFilter \<Rightarrow> AuditLogFilter" where
  "lf_with_time_range start fin f = f\<lparr>lf_start_time := Some start, lf_end_time := Some fin\<rparr>"

definition lf_with_limit :: "usize \<Rightarrow> AuditLogFilter \<Rightarrow> AuditLogFilter" where
  "lf_with_limit limit f = f\<lparr>lf_limit := Some limit\<rparr>"

definition filter_matches :: "AuditLogFilter \<Rightarrow> AuditEvent \<Rightarrow> bool" where
  "filter_matches f e \<longleftrightarrow>
     (case lf_plugin_name f of None \<Rightarrow> True | Some name \<Rightarrow> str_contains (ae_plugin_name e) name)
   \<and> (case lf_event_type f of None \<Rightarrow> True | Some t \<Rightarrow> ae_event_type e = t)
   \<and> (case lf_min_severity f of None \<Rightarrow> True | Some s \<Rightarrow> \<not> ae_severity e < s)
   \<and> (case lf_stage f of None \<Rightarrow> True | Some s \<Rightarrow> ae_stage e = Some s)
   \<and> (case lf_recovery_action f of None \<Rightarrow> True | Some a \<Rightarrow> ae_recovery_action e = Some a)
   \<and> (case lf_start_time f of None \<Rightarrow> True | Some start \<Rightarrow> \<not> ae_timestamp e < start)
   \<and> (case lf_end_time f of None \<Rightarrow> True | Some fin \<Rightarrow> \<not> fin < ae_timestamp e)"

text \<open>\<open>skip(offset)\<close> and \<open>truncate(limit)\<close>, where they are given.\<close>

definition paginate :: "AuditLogFilter \<Rightarrow> AuditEvent list \<Rightarrow> AuditEvent list" where
  "paginate f results =
     (let results = (case lf_offset f of None \<Rightarrow> results | Some n \<Rightarrow> drop (unat n) results)
      in case lf_limit f of None \<Rightarrow> results | Some n \<Rightarrow> take (unat n) results)"

record FullTextSearchQuery =
  fq_search_term :: string
  fq_case_sensitive :: bool
  fq_search_message :: bool
  fq_search_metadata :: bool

definition FullTextSearchQuery_new :: "string \<Rightarrow> FullTextSearchQuery" where
  "FullTextSearchQuery_new search_term = \<lparr>fq_search_term = search_term, fq_case_sensitive = False,
     fq_search_message = True, fq_search_metadata = True\<rparr>"

definition case_sensitive :: "bool \<Rightarrow> FullTextSearchQuery \<Rightarrow> FullTextSearchQuery" where
  "case_sensitive sensitive q = q\<lparr>fq_case_sensitive := sensitive\<rparr>"

definition search_message :: "bool \<Rightarrow> FullTextSearchQuery \<Rightarrow> FullTextSearchQuery" where
  "search_message enabled q = q\<lparr>fq_search_message := enabled\<rparr>"

definition search_metadata :: "bool \<Rightarrow> FullTextSearchQuery \<Rightarrow> FullTextSearchQuery" where
  "search_metadata enabled q = q\<lparr>fq_search_metadata := enabled\<rparr>"

definition query_matches :: "FullTextSearchQuery \<Rightarrow> AuditEvent \<Rightarrow> bool" where
  "query_matches q e =
     (let fold_case = (if fq_case_sensitive q then (\<lambda>s. s) else to_lowercase);
          term = fold_case (fq_search_term q);
          matches = (fq_search_message q \<and> str_contains (fold_case (ae_message e)) term)
      in if \<not> matches \<and> fq_search_metadata q then str_contains (fold_case (ae_metadata e)) term else matches)"

section \<open>Combined filters\<close>

datatype FilterLogic = And "AuditLogFilter list" | Or "AuditLogFilter list"
  | Complex "(FilterLogic \<times> bool) list"

text \<open>\<open>Complex\<close>, on the outcome of each condition with its \<open>is_and\<close>.\<close>

fun mixed_fold :: "bool \<Rightarrow> (bool \<times> bool) list \<Rightarrow> bool" where
  "mixed_fold result [] = result"
| "mixed_fold result ((current_match, is_and) # rest) =
     mixed_fold (if is_and then result \<and> current_match else result \<or> current_match) rest"

definition complex_matches :: "(bool \<times> bool) list \<Rightarrow> bool" where
  "complex_matches conditions =
     (if list_all snd conditions then list_all fst conditions
      else if list_all (\<lambda>c. \<not> snd c) conditions then list_ex fst conditions
      else (case conditions of [] \<Rightarrow> False | (current_match, _) # rest \<Rightarrow> mixed_fold current_match rest))"

primrec logic_matches :: "AuditEvent \<Rightarrow> FilterLogic \<Rightarrow> bool" where
  "logic_matches e (And filters) = list_all (\<lambda>f. filter_matches f e) filters"
| "logic_matches e (Or filters) = list_ex (\<lambda>f. filter_matches f e) filters"
| "logic_matches e (Complex conditions) =
     complex_matches (map (map_prod (logic_matches e) (\<lambda>is_and. is_and)) conditions)"

section \<open>Statistics and aggregation\<close>

record EventStatistics =
  es_total_events :: nat
  es_info_count :: nat
  es_warning_count :: nat
  es_error_count :: nat
  es_critical_count :: nat
  es_min_timestamp :: "u64 option"
  es_max_timestamp :: "u64 option"
  es_unique_plugins :: "string list"
  es_most_common_event_type :: "AuditEventType option"
  es_events_by_type :: "(string, nat) hashmap"

text \<open>One round of the loop. The set of plugin names is a list without repetitions; its length is what the
  result reports.\<close>

definition count_event :: "EventStatistics \<Rightarrow> AuditEvent \<Rightarrow> EventStatistics" where
  "count_event s e =
     (let s = (case ae_severity e of
            Info \<Rightarrow> s\<lparr>es_info_count := es_info_count s + 1\<rparr>
          | Warning \<Rightarrow> s\<lparr>es_warning_count := es_warning_count s + 1\<rparr>
          | Error \<Rightarrow> s\<lparr>es_error_count := es_error_count s + 1\<rparr>
          | Critical \<Rightarrow> s\<lparr>es_critical_count := es_critical_count s + 1\<rparr>);
          t = AuditEventType_display (ae_event_type e)
      in s\<lparr>es_min_timestamp :=
             (case es_min_timestamp s of None \<Rightarrow> Some (ae_timestamp e)
              | Some m \<Rightarrow> if ae_timestamp e < m then Some (ae_timestamp e) else Some m),
           es_max_timestamp :=
             (case es_max_timestamp s of None \<Rightarrow> Some (ae_timestamp e)
              | Some m \<Rightarrow> if m < ae_timestamp e then Some (ae_timestamp e) else Some m),
           es_unique_plugins := List.insert (ae_plugin_name e) (es_unique_plugins s),
           es_events_by_type := hm_insert t
             ((case hm_get (es_events_by_type s) t of None \<Rightarrow> 0 | Some n \<Rightarrow> n) + 1) (es_events_by_type s)\<rparr>)"

definition from_events :: "AuditEvent list \<Rightarrow> EventStatistics" where
  "from_events events =
     (let s = foldl count_event \<lparr>es_total_events = 0, es_info_count = 0, es_warning_count = 0,
            es_error_count = 0, es_critical_count = 0, es_min_timestamp = None, es_max_timestamp = None,
            es_unique_plugins = [], es_most_common_event_type = None, es_events_by_type = []\<rparr> events
      in s\<lparr>es_total_events := length events,
           es_most_common_event_type := (case events of [] \<Rightarrow> None | e # _ \<Rightarrow> Some (ae_event_type e))\<rparr>)"

record AggregationBucket =
  ab_bucket_time :: u64
  ab_event_count :: nat
  ab_info_count :: nat
  ab_warning_count :: nat
  ab_error_count :: nat
  ab_critical_count :: nat

definition AggregationBucket_new :: "u64 \<Rightarrow> AggregationBucket" where
  "AggregationBucket_new bucket_time = \<lparr>ab_bucket_time = bucket_time, ab_event_count = 0, ab_info_count = 0,
     ab_warning_count = 0, ab_error_count = 0, ab_critical_count = 0\<rparr>"

definition add_event :: "AuditSeverity \<Rightarrow> AggregationBucket \<Rightarrow> AggregationBucket" where
  "add_event severity b =
     (let b = b\<lparr>ab_event_count := ab_event_count b + 1\<rparr>
      in case severity of
           Info \<Rightarrow> b\<lparr>ab_info_count := ab_info_count b + 1\<rparr>
         | Warning \<Rightarrow> b\<lparr>ab_warning_count := ab_warning_count b + 1\<rparr>
         | Error \<Rightarrow> b\<lparr>ab_error_count := ab_error_count b + 1\<rparr>
         | Critical \<Rightarrow> b\<lparr>ab_critical_count := ab_critical_count b + 1\<rparr>)"

record TimeSeriesAggregation =
  ts_filter :: AuditLogFilter
  ts_bucket_size_seconds :: u64

definition TimeSeriesAggregation_new :: "AuditLogFilter \<Rightarrow> u64 \<Rightarrow> TimeSeriesAggregation" where
  "TimeSeriesAggregation_new f bucket_size_seconds =
     \<lparr>ts_filter = f, ts_bucket_size_seconds = bucket_size_seconds\<rparr>"

definition hourly :: "AuditLogFilter \<Rightarrow> TimeSeriesAggregation" where
  "hourly f = TimeSeriesAggregation_new f 3600"

definition daily :: "AuditLogFilter \<Rightarrow> TimeSeriesAggregation" where
  "daily f = TimeSeriesAggregation_new f 86400"

definition weekly :: "AuditLogFilter \<Rightarrow> TimeSeriesAggregation" where
  "weekly f = TimeSeriesAggregation_new f 604800"

definition monthly :: "AuditLogFilter \<Rightarrow> TimeSeriesAggregation" where
  "monthly f = TimeSeriesAggregation_new f 2592000"

text \<open>The division by a bucket size of zero panics.\<close>

definition get_bucket_time :: "u64 \<Rightarrow> TimeSeriesAggregation \<Rightarrow> u64 option" where
  "get_bucket_time timestamp a =
     (if ts_bucket_size_seconds a = 0 then None
      else Some (timestamp div ts_bucket_size_seconds a * ts_bucket_size_seconds a))"

text \<open>A \<open>BTreeMap\<close> as its entries in the order of the keys: \<open>entry(k).or_insert(d)\<close>, then an update.\<close>

fun btree_entry :: "'k::linorder \<Rightarrow> 'v \<Rightarrow> ('v \<Rightarrow> 'v) \<Rightarrow> ('k \<times> 'v) list \<Rightarrow> ('k \<times> 'v) list" where
  "btree_entry k d upd [] = [(k, upd d)]"
| "btree_entry k d upd ((j, v) # m) =
     (if k < j then (k, upd d) # (j, v) # m
      else if k = j then (j, upd v) # m
      else (j, v) # btree_entry k d upd m)"

fun fill_buckets :: "TimeSeriesAggregation \<Rightarrow> AuditEvent list \<Rightarrow> (u64 \<times> AggregationBucket) list
    \<Rightarrow> (u64 \<times> AggregationBucket) list option" where
  "fill_buckets a [] buckets = Some buckets"
| "fill_buckets a (e # events) buckets =
     (case get_bucket_time (ae_timestamp e) a of
        None \<Rightarrow> None
      | Some t \<Rightarrow> fill_buckets a events
          (btree_entry t (AggregationBucket_new t) (add_event (ae_severity e)) buckets))"

definition aggregate_events :: "AuditEvent list \<Rightarrow> TimeSeriesAggregation \<Rightarrow> AggregationBucket list option" where
  "aggregate_events events a = map_option (map snd) (fill_buckets a events [])"

section \<open>What a backend offers by default\<close>

text \<open>The default methods of the trait, over its method \<open>read\<close>.\<close>

definition backend_search :: "(AuditLogFilter \<Rightarrow> AuditLogError + AuditEvent list) \<Rightarrow> FullTextSearchQuery
    \<Rightarrow> AuditLogFilter \<Rightarrow> AuditLogError + AuditEvent list" where
  "backend_search read query f = result_bind (read f) (\<lambda>events. Ok (filter (query_matches query) events))"

definition backend_aggregate :: "(AuditLogFilter \<Rightarrow> AuditLogError + AuditEvent list) \<Rightarrow> TimeSeriesAggregation
    \<Rightarrow> (AuditLogError + AggregationBucket list) option" where
  "backend_aggregate read a =
     (case read (ts_filter a) of Err e \<Rightarrow> Some (Err e) | Ok events \<Rightarrow> map_option Ok (aggregate_events events a))"

definition query_complex :: "(AuditLogFilter \<Rightarrow> AuditLogError + AuditEvent list) \<Rightarrow> FilterLogic
    \<Rightarrow> usize option \<Rightarrow> usize option \<Rightarrow> AuditLogError + AuditEvent list" where
  "query_complex read logic limit offset =
     (let f = lf_with_limit (case limit of None \<Rightarrow> 1000 | Some n \<Rightarrow> n) AuditLogFilter_new
      in result_bind (read f) (\<lambda>events.
        let results = filter (\<lambda>e. logic_matches e logic) events;
            results = (case offset of None \<Rightarrow> results | Some n \<Rightarrow> drop (unat n) results)
        in Ok (case limit of None \<Rightarrow> results | Some n \<Rightarrow> take (unat n) results)))"

definition backend_statistics :: "(AuditLogFilter \<Rightarrow> AuditLogError + AuditEvent list) \<Rightarrow> AuditLogFilter
    \<Rightarrow> AuditLogError + EventStatistics" where
  "backend_statistics read f = result_bind (read f) (\<lambda>events. Ok (from_events events))"

section \<open>The log in memory\<close>

record InMemoryAuditLog =
  ml_events :: "AuditEvent list"
  ml_max_events :: nat

definition InMemoryAuditLog_new :: "nat \<Rightarrow> InMemoryAuditLog" where
  "InMemoryAuditLog_new max_events = \<lparr>ml_events = [], ml_max_events = max_events\<rparr>"

definition ml_len :: "InMemoryAuditLog \<Rightarrow> nat" where
  "ml_len l = length (ml_events l)"

definition ml_is_empty :: "InMemoryAuditLog \<Rightarrow> bool" where
  "ml_is_empty l \<longleftrightarrow> ml_len l = 0"

definition ml_clear :: "InMemoryAuditLog \<Rightarrow> InMemoryAuditLog" where
  "ml_clear l = l\<lparr>ml_events := []\<rparr>"

definition ml_write :: "AuditEvent \<Rightarrow> InMemoryAuditLog \<Rightarrow> InMemoryAuditLog" where
  "ml_write event l =
     (let events = ml_events l @ [event]
      in l\<lparr>ml_events := (if length events > ml_max_events l
             then drop (length events - ml_max_events l) events else events)\<rparr>)"

definition ml_read :: "AuditLogFilter \<Rightarrow> InMemoryAuditLog \<Rightarrow> AuditEvent list" where
  "ml_read f l = paginate f (filter (filter_matches f) (ml_events l))"

definition ml_count :: "AuditLogFilter \<Rightarrow> InMemoryAuditLog \<Rightarrow> nat" where
  "ml_count f l = length (filter (filter_matches f) (ml_events l))"

definition ml_purge_before :: "u64 \<Rightarrow> InMemoryAuditLog \<Rightarrow> nat \<times> InMemoryAuditLog" where
  "ml_purge_before timestamp l =
     (let kept = filter (\<lambda>e. timestamp \<le> ae_timestamp e) (ml_events l)
      in (length (ml_events l) - length kept, l\<lparr>ml_events := kept\<rparr>))"

section \<open>The registry of backends\<close>

type_synonym 'b DefaultAuditRegistry = "(string, 'b) hashmap"

definition DefaultAuditRegistry_new :: "'b DefaultAuditRegistry" where
  "DefaultAuditRegistry_new = []"

definition registry_get :: "string \<Rightarrow> 'b DefaultAuditRegistry \<Rightarrow> 'b option" where
  "registry_get name backends = hm_get backends name"

definition registry_register :: "string \<Rightarrow> 'b \<Rightarrow> 'b DefaultAuditRegistry
    \<Rightarrow> (AuditLogError + unit) \<times> 'b DefaultAuditRegistry" where
  "registry_register name backend backends =
     (if hm_get backends name \<noteq> None
      then (Err (RegistryError (''Backend '' @ [CHR 0x27] @ name @ [CHR 0x27] @ '' is already registered'')), backends)
      else (Ok (), hm_insert name backend backends))"

definition registry_unregister :: "string \<Rightarrow> 'b DefaultAuditRegistry \<Rightarrow> bool \<times> 'b DefaultAuditRegistry" where
  "registry_unregister name backends = (hm_get backends name \<noteq> None, AList.delete name backends)"

definition list_backends :: "'b DefaultAuditRegistry \<Rightarrow> string list" where
  "list_backends backends = sort (hm_keys backends)"

definition registry_count :: "'b DefaultAuditRegistry \<Rightarrow> nat" where
  "registry_count backends = length backends"

definition registry_has :: "string \<Rightarrow> 'b DefaultAuditRegistry \<Rightarrow> bool" where
  "registry_has name backends \<longleftrightarrow> hm_get backends name \<noteq> None"

text \<open>The backends of \<open>with_defaults\<close> and \<open>with_file_backend\<close> are given.\<close>

definition with_defaults :: "(InMemoryAuditLog \<Rightarrow> 'b) \<Rightarrow> AuditLogError + 'b DefaultAuditRegistry" where
  "with_defaults box =
     (case registry_register ''memory'' (box (InMemoryAuditLog_new 100)) DefaultAuditRegistry_new of
        (Err e, _) \<Rightarrow> Err e | (Ok _, r) \<Rightarrow> Ok r)"

section \<open>What a signature covers\<close>

lemma AuditEventId_display_inj: "AuditEventId_display i = AuditEventId_display j \<longleftrightarrow> i = j"
proof
  assume "AuditEventId_display i = AuditEventId_display j"
  moreover have "unat i < 16 ^ 16" "unat j < 16 ^ 16"
    using unsigned_less [of i, where 'a = nat] unsigned_less [of j, where 'a = nat] by simp_all
  ultimately have "unat i = unat j" unfolding AuditEventId_display_def by (metis pad_hex_inj)
  then show "i = j" by (simp only: word_unat_eq_iff)
qed simp

lemma event_type_u8_inj: "event_type_u8 s = event_type_u8 t \<longleftrightarrow> s = t"
  by (cases s; cases t) simp_all

lemma severity_u8_inj: "severity_u8 s = severity_u8 t \<longleftrightarrow> s = t"
  by (cases s; cases t) simp_all

lemma show_nat_inj: "show_nat a = show_nat b \<longleftrightarrow> a = b"
  by (metis digits_nat_show_nat)

lemma show_u64_inj: "show_u64 a = show_u64 b \<longleftrightarrow> a = b"
  by (metis option.inject parse_u64_show_u64)

lemma append_sep_first: "(c :: char) \<notin> set a \<Longrightarrow> c \<notin> set b \<Longrightarrow> a @ c # x = b @ c # y \<longleftrightarrow> a = b \<and> x = y"
proof (induction a arbitrary: b)
  case Nil
  then show ?case by (cases b) auto
next
  case (Cons d a)
  then show ?case by (cases b) auto
qed

lemma append_sep_last:
  assumes "(c :: char) \<notin> set x" "c \<notin> set y"
  shows "a @ c # x = b @ c # y \<longleftrightarrow> a = b \<and> x = y"
proof -
  have "a @ c # x = b @ c # y \<longleftrightarrow> rev (a @ c # x) = rev (b @ c # y)" by (simp only: rev_is_rev_conv)
  also have "\<dots> \<longleftrightarrow> rev x @ c # rev a = rev y @ c # rev b" by simp
  also have "\<dots> \<longleftrightarrow> rev x = rev y \<and> rev a = rev b" by (rule append_sep_first) (simp_all add: assms)
  finally show ?thesis by auto
qed

text \<open>The fields that the signed text determines.\<close>

definition same_signed :: "AuditEvent \<Rightarrow> AuditEvent \<Rightarrow> bool" where
  "same_signed e e' \<longleftrightarrow> ae_event_id e = ae_event_id e' \<and> ae_event_type e = ae_event_type e'
     \<and> ae_severity e = ae_severity e' \<and> ae_timestamp e = ae_timestamp e'
     \<and> ae_plugin_name e @ ''|'' @ ae_message e = ae_plugin_name e' @ ''|'' @ ae_message e'"

lemma event_data_eq_iff: "event_data e = event_data e' \<longleftrightarrow> same_signed e e'"
proof -
  let ?c = "CHR ''|''"
  define mid where "mid e = ae_plugin_name e @ ?c # ae_message e" for e :: AuditEvent
  have sep: "?c \<notin> set (show_nat n)" "?c \<notin> set (show_u64 w)" for n w
    by (rule show_nat_no_char show_u64_no_char, simp add: is_ascii_digit_def)+
  have data: "event_data e = AuditEventId_display (ae_event_id e) @ ?c #
      show_nat (event_type_u8 (ae_event_type e)) @ ?c #
      ((mid e @ ?c # show_u64 (ae_timestamp e)) @ ?c # show_nat (severity_u8 (ae_severity e)))" for e :: AuditEvent
    by (simp add: event_data_def mid_def)
  have len: "length (AuditEventId_display i) = length (AuditEventId_display j)" for i j
    by (simp add: AuditEventId_display_def)
  have "event_data e = event_data e' \<longleftrightarrow>
      AuditEventId_display (ae_event_id e) = AuditEventId_display (ae_event_id e')
      \<and> show_nat (event_type_u8 (ae_event_type e)) = show_nat (event_type_u8 (ae_event_type e'))
      \<and> (mid e = mid e' \<and> show_u64 (ae_timestamp e) = show_u64 (ae_timestamp e'))
      \<and> show_nat (severity_u8 (ae_severity e)) = show_nat (severity_u8 (ae_severity e'))"
    unfolding data append_eq_append_conv [OF disjI1, OF len] list.inject
    by (simp only: append_sep_first [OF sep(1) sep(1)] append_sep_last [OF sep(1) sep(1)]
        append_sep_last [OF sep(2) sep(2)] simp_thms)
  then show ?thesis
    by (auto simp: same_signed_def mid_def AuditEventId_display_inj show_nat_inj show_u64_inj
        event_type_u8_inj severity_u8_inj)
qed

lemma byte_of_inj: "byte_of x = byte_of y \<longleftrightarrow> x = y"
proof
  assume "byte_of x = byte_of y"
  then have "unat (word_of_nat (of_char x) :: 8 word) = unat (word_of_nat (of_char y) :: 8 word)"
    by (simp add: byte_of_def)
  moreover have "(of_char x :: nat) < 256" "(of_char y :: nat) < 256" by (rule nat_of_char_less_256)+
  ultimately have "(of_char x :: nat) = of_char y" by (simp add: unat_of_nat)
  then show "x = y" by simp
qed simp

lemma fold_or_zero: "foldl (\<lambda>r (x, y). or r (xor (byte_of x) (byte_of y))) r ps = 0 \<longleftrightarrow>
    r = 0 \<and> list_all (\<lambda>(x, y). x = y) ps"
proof (induction ps arbitrary: r)
  case (Cons p ps)
  have bits: "or r (xor a b) = 0 \<longleftrightarrow> r = 0 \<and> a = b" for a b :: "8 word"
  proof -
    have "xor a b = 0 \<longleftrightarrow> a = b" by (auto simp: bit_eq_iff bit_xor_iff)
    then show ?thesis by (simp add: or_eq_0_iff)
  qed
  then show ?case using Cons by (cases p) (auto simp: bits byte_of_inj)
qed simp

lemma list_all_zip_eq: "length a = length b \<Longrightarrow> list_all (\<lambda>(x, y). x = y) (zip a b) \<longleftrightarrow> a = b"
  by (induction a b rule: list_induct2) auto

lemma constant_time_compare_eq: "constant_time_compare a b \<longleftrightarrow> a = b"
  by (auto simp: constant_time_compare_def fold_or_zero list_all_zip_eq)

text \<open>A signature of an event is accepted for exactly the events that agree in what is signed, as long as
  there is no collision.\<close>

lemma verify_signed:
  assumes "event_sign env secret e = Ok sig"
    and "me_hex env (me_hmac env secret (event_data e')) = me_hex env (me_hmac env secret (event_data e))
      \<Longrightarrow> event_data e' = event_data e"
  shows "event_verify env secret sig e' = Ok (same_signed e' e)"
  using assms
  by (auto simp: event_sign_def event_verify_def constant_time_compare_eq event_data_eq_iff [symmetric] split: if_splits)

lemma verify_all_Ok:
  "secret \<noteq> [] \<Longrightarrow> verify_all env secret ps =
     Ok (list_all (\<lambda>(e, sig). event_sign env secret e = Ok sig) ps)"
  by (induction ps) (auto simp: event_verify_def event_sign_def constant_time_compare_eq)

lemma verify_chain_eq:
  assumes "secret \<noteq> []"
  shows "verify_chain env events secret sigs =
    (if length events = length sigs then Ok (list_all2 (\<lambda>e sig. event_sign env secret e = Ok sig) events sigs)
     else Err (BackendError ''Event and signature count mismatch''))"
  using verify_all_Ok [OF assms, of env "zip events sigs"]
  by (auto simp: verify_chain_def list_all2_iff list_all_iff)

text \<open>Verification of a signature accepts exactly the events with the same identifier, type, severity,
  time and the same text of plugin name and message joined by \<open>|\<close>, as long as HMAC has no collision. So a
  change of these is detected, but the metadata, the stage, the error type, the recovery action, the number
  of retries and the duration can be changed, and the border between name and message moved, without
  being detected. A chain is accepted if each event has its signature; exchanging two events together
  with their signatures, or dropping one, is not detected.\<close>

theorem event_signature_covers:
  assumes "event_sign env secret e = Ok sig"
    and "me_hex env (me_hmac env secret (event_data e')) = me_hex env (me_hmac env secret (event_data e))
      \<Longrightarrow> event_data e' = event_data e"
  shows "event_verify env secret sig e' = Ok (same_signed e' e)
    \<and> event_verify env secret sig (e\<lparr>ae_metadata := m, ae_stage := st, ae_error_type := et,
         ae_recovery_action := ra, ae_retry_count := rc, ae_duration_ms := d\<rparr>) = Ok True
    \<and> (case verify_chain env (xs @ [a, b] @ ys) secret (ss @ [s, t] @ ts) of
         Ok True \<Rightarrow> length xs = length ss \<longrightarrow> verify_chain env (xs @ [b, a] @ ys) secret (ss @ [t, s] @ ts) = Ok True
           \<and> verify_chain env (xs @ b # ys) secret (ss @ t # ts) = Ok True
       | _ \<Rightarrow> True)"
proof (intro conjI)
  show "event_verify env secret sig e' = Ok (same_signed e' e)" by (rule verify_signed [OF assms])
  show "event_verify env secret sig (e\<lparr>ae_metadata := m, ae_stage := st, ae_error_type := et,
      ae_recovery_action := ra, ae_retry_count := rc, ae_duration_ms := d\<rparr>) = Ok True"
    using assms(1) by (auto simp: event_verify_def event_sign_def event_data_def constant_time_compare_eq)
  have "secret \<noteq> []" using assms(1) by (auto simp: event_sign_def)
  note chain = verify_chain_eq [OF this]
  show "case verify_chain env (xs @ [a, b] @ ys) secret (ss @ [s, t] @ ts) of
         Ok True \<Rightarrow> length xs = length ss \<longrightarrow> verify_chain env (xs @ [b, a] @ ys) secret (ss @ [t, s] @ ts) = Ok True
           \<and> verify_chain env (xs @ b # ys) secret (ss @ t # ts) = Ok True
       | _ \<Rightarrow> True"
    by (auto simp: chain list_all2_append split: bool.split)
qed

section \<open>Combined filters\<close>

lemma mixed_all: "list_all snd cs \<Longrightarrow> mixed_fold r cs \<longleftrightarrow> r \<and> list_all fst cs"
  by (induction r cs rule: mixed_fold.induct) auto

lemma mixed_ex: "list_all (\<lambda>c. \<not> snd c) cs \<Longrightarrow> mixed_fold r cs \<longleftrightarrow> r \<or> list_ex fst cs"
  by (induction r cs rule: mixed_fold.induct) auto

text \<open>The two special cases agree with the general one: \<open>Complex\<close> is one fold from left to right, in which
  the \<open>is_and\<close> of a condition says how it is joined to those before it, without precedence; that of
  the first is not used. Without conditions everything matches.\<close>

lemma complex_is_fold:
  "logic_matches e (Complex []) \<and>
   logic_matches e (Complex ((l, is_and) # cs)) = mixed_fold (logic_matches e l) (map (map_prod (logic_matches e) id) cs)"
  by (auto simp: complex_matches_def mixed_all mixed_ex id_def split: if_splits)

section \<open>The log in memory\<close>

lemma ml_writes: "fold ml_write es (InMemoryAuditLog_new m) =
    \<lparr>ml_events = drop (length es - m) es, ml_max_events = m\<rparr>"
proof (induction es rule: rev_induct)
  case (snoc e es)
  have "ml_write e \<lparr>ml_events = drop (length es - m) es, ml_max_events = m\<rparr>
      = \<lparr>ml_events = drop (length (es @ [e]) - m) (es @ [e]), ml_max_events = m\<rparr>"
    by (cases "length es < m") (auto simp: ml_write_def Let_def Suc_diff_le)
  then show ?case by (simp only: fold_append fold.simps comp_apply id_apply snoc)
qed (simp add: InMemoryAuditLog_new_def)

lemma filter_matches_page [simp]: "filter_matches (f\<lparr>lf_limit := n, lf_offset := k\<rparr>) = filter_matches f"
  by (rule ext) (simp add: filter_matches_def)

lemma concat_pages: "concat (map (\<lambda>i. take n (drop (i * n) xs)) [0..<k]) = take (k * n) xs"
  by (induction k) (simp_all add: add.commute [of n] take_add)

text \<open>The log in memory keeps the most recent events up to its maximum; reading a filter page by page yields
  the matching events in the order in which they were written, none twice and none left out; the count is
  their number without regard to the page; and purging removes exactly the events before the given time.\<close>

theorem memory_log_correct:
  assumes "k * unat n < 2 ^ 64"
  shows "let l = fold ml_write es (InMemoryAuditLog_new m); kept = drop (length es - m) es in
      ml_events l = kept \<and> ml_len l = min m (length es)
      \<and> concat (map (\<lambda>i. ml_read (f\<lparr>lf_limit := Some n, lf_offset := Some (of_nat i * n)\<rparr>) l) [0..<k])
          = take (k * unat n) (filter (filter_matches f) kept)
      \<and> ml_count f l = length (filter (filter_matches f) kept)
      \<and> (case ml_purge_before t l of (removed, l') \<Rightarrow>
           ml_events l' = filter (\<lambda>e. t \<le> ae_timestamp e) kept
           \<and> removed = length (filter (\<lambda>e. ae_timestamp e < t) kept))"
proof -
  have off: "unat (of_nat i * n) = i * unat n" if "i < k" for i
  proof -
    have "i * unat n \<le> k * unat n" using that by simp
    then have "i * unat n < 2 ^ 64" using assms by linarith
    moreover have "(of_nat i * n :: u64) = of_nat (i * unat n)" by simp
    ultimately show ?thesis by (simp only: unat_of_nat) simp
  qed
  have pages: "concat (map (\<lambda>i. ml_read (f\<lparr>lf_limit := Some n, lf_offset := Some (of_nat i * n)\<rparr>) l) [0..<k])
      = take (k * unat n) (filter (filter_matches f) (ml_events l))" for l
  proof -
    have "map (\<lambda>i. ml_read (f\<lparr>lf_limit := Some n, lf_offset := Some (of_nat i * n)\<rparr>) l) [0..<k]
        = map (\<lambda>i. take (unat n) (drop (i * unat n) (filter (filter_matches f) (ml_events l)))) [0..<k]"
      by (rule map_cong) (simp_all add: ml_read_def paginate_def off)
    then show ?thesis by (simp only: concat_pages)
  qed
  let ?kept = "drop (length es - m) es"
  have "length (filter (\<lambda>e. t \<le> ae_timestamp e) ?kept) + length (filter (\<lambda>e. ae_timestamp e < t) ?kept) = length ?kept"
    using sum_length_filter_compl [of "\<lambda>e. t \<le> ae_timestamp e" ?kept] by (simp only: not_le)
  then have "length ?kept - length (filter (\<lambda>e. t \<le> ae_timestamp e) ?kept)
      = length (filter (\<lambda>e. ae_timestamp e < t) ?kept)" by linarith
  moreover have "length ?kept = min m (length es)" by simp
  ultimately show ?thesis
    by (simp only: Let_def pages ml_writes ml_len_def ml_count_def ml_purge_before_def prod.case
        InMemoryAuditLog.simps simp_thms)
qed

section \<open>Statistics and aggregation\<close>

lemma btree_entry_map_of: "sorted (hm_keys m) \<Longrightarrow> map_of (btree_entry k d upd m) =
    (map_of m)(k \<mapsto> upd (case map_of m k of None \<Rightarrow> d | Some v \<Rightarrow> v))"
proof (induction m)
  case (Cons p m)
  obtain j v where p: "p = (j, v)" by (cases p)
  have "map_of m k = None" if "k < j"
    using that Cons.prems p by (auto simp: map_of_eq_None_iff)
  then show ?case using Cons p by (auto simp: fun_eq_iff)
qed simp

lemma btree_entry_keys: "set (hm_keys (btree_entry k d upd m)) = insert k (set (hm_keys m))"
  by (induction k d upd m rule: btree_entry.induct) (simp_all add: insert_commute)

lemma btree_entry_sorted: "sorted_wrt (<) (hm_keys m) \<Longrightarrow> sorted_wrt (<) (hm_keys (btree_entry k d upd m))"
proof (induction m)
  case (Cons p m)
  then show ?case using btree_entry_keys [of k d upd m] by (cases p) (auto simp: less_trans)
qed simp

text \<open>The bucket of a list of events.\<close>

definition bucket_of :: "u64 \<Rightarrow> AuditEvent list \<Rightarrow> AggregationBucket" where
  "bucket_of t es = \<lparr>ab_bucket_time = t, ab_event_count = length es,
     ab_info_count = length (filter (\<lambda>e. ae_severity e = Info) es),
     ab_warning_count = length (filter (\<lambda>e. ae_severity e = Warning) es),
     ab_error_count = length (filter (\<lambda>e. ae_severity e = Error) es),
     ab_critical_count = length (filter (\<lambda>e. ae_severity e = Critical) es)\<rparr>"

lemma bucket_of_snoc: "add_event (ae_severity e) (bucket_of t es) = bucket_of t (es @ [e])"
  by (cases "ae_severity e") (simp_all add: add_event_def bucket_of_def Let_def)

definition start_of :: "TimeSeriesAggregation \<Rightarrow> AuditEvent \<Rightarrow> u64" where
  "start_of a e = ae_timestamp e div ts_bucket_size_seconds a * ts_bucket_size_seconds a"

definition buckets_for :: "TimeSeriesAggregation \<Rightarrow> AuditEvent list \<Rightarrow> (u64 \<times> AggregationBucket) list \<Rightarrow> bool" where
  "buckets_for a es m \<longleftrightarrow> sorted_wrt (<) (hm_keys m)
     \<and> map_of m = (\<lambda>t. if t \<in> start_of a ` set es then Some (bucket_of t (filter (\<lambda>e. start_of a e = t) es)) else None)"

lemma fill_buckets_ok:
  "ts_bucket_size_seconds a \<noteq> 0 \<Longrightarrow> buckets_for a seen m \<Longrightarrow>
     \<exists>m'. fill_buckets a es m = Some m' \<and> buckets_for a (seen @ es) m'"
proof (induction es arbitrary: seen m)
  case (Cons e es)
  let ?t = "start_of a e"
  let ?m = "btree_entry ?t (AggregationBucket_new ?t) (add_event (ae_severity e)) m"
  have start: "get_bucket_time (ae_timestamp e) a = Some ?t"
    using Cons.prems(1) by (simp add: get_bucket_time_def start_of_def)
  have sorted: "sorted (hm_keys m)" using Cons.prems(2) by (simp add: buckets_for_def strict_sorted_imp_sorted)
  have new: "AggregationBucket_new ?t = bucket_of ?t []" by (simp add: AggregationBucket_new_def bucket_of_def)
  have none: "filter (\<lambda>x. start_of a x = ?t) seen = []" if "?t \<notin> start_of a ` set seen"
    using that by (simp add: filter_empty_conv) (metis image_eqI)
  have "buckets_for a (seen @ [e]) ?m"
    using Cons.prems(2) none
    by (auto simp: buckets_for_def btree_entry_sorted btree_entry_map_of [OF sorted] fun_eq_iff bucket_of_snoc new
        simp del: fun_upd_apply split: option.splits) (auto simp: bucket_of_snoc)
  from Cons.IH [OF Cons.prems(1) this] show ?case using start by simp
qed simp

lemma start_of_bounds:
  assumes "ts_bucket_size_seconds a \<noteq> 0"
  shows "unat (start_of a e) \<le> unat (ae_timestamp e)
    \<and> unat (ae_timestamp e) < unat (start_of a e) + unat (ts_bucket_size_seconds a)"
proof -
  let ?n = "unat (ts_bucket_size_seconds a)" and ?t = "unat (ae_timestamp e)"
  have pos: "0 < ?n" using assms by (simp add: unat_gt_0)
  have le: "?t div ?n * ?n \<le> ?t" by simp
  have "?t < 2 ^ 64" using unsigned_less [of "ae_timestamp e", where 'a = nat] by simp
  with le have "?t div ?n * ?n < 2 ^ 64" by (rule order.strict_trans1)
  moreover have "unat (start_of a e) = (?t div ?n * ?n) mod 2 ^ 64"
    unfolding start_of_def by (simp only: unat_word_ariths(2) unat_div_distrib) simp
  ultimately have "unat (start_of a e) = ?t div ?n * ?n" by simp
  then show ?thesis using le dividend_less_div_times [OF pos, of ?t] by simp
qed

text \<open>Aggregation yields one bucket for each period in which an event lies, in the order of time, with the
  numbers of its events by severity; each event lies in its period. It panics exactly if the period is zero
  and there is an event.\<close>

theorem aggregate_correct:
  "aggregate_events es a =
     (if ts_bucket_size_seconds a = 0 then (if es = [] then Some [] else None)
      else Some (map (\<lambda>t. bucket_of t (filter (\<lambda>e. start_of a e = t) es)) (sorted_list_of_set (start_of a ` set es))))
   \<and> (if ts_bucket_size_seconds a = 0 then True
      else list_all (\<lambda>e. unat (start_of a e) \<le> unat (ae_timestamp e)
        \<and> unat (ae_timestamp e) < unat (start_of a e) + unat (ts_bucket_size_seconds a)) es)"
proof (cases "ts_bucket_size_seconds a = 0")
  case True
  then show ?thesis by (cases es) (simp_all add: aggregate_events_def get_bucket_time_def)
next
  case False
  let ?T = "start_of a ` set es" and ?b = "\<lambda>t. bucket_of t (filter (\<lambda>e. start_of a e = t) es)"
  have "buckets_for a [] []" by (simp add: buckets_for_def fun_eq_iff)
  from fill_buckets_ok [OF False this, of es] obtain m where
    m: "fill_buckets a es [] = Some m" and b: "buckets_for a es m" by auto
  have map_of_m: "map_of m t = (if t \<in> ?T then Some (?b t) else None)" for t
    using b by (simp add: buckets_for_def)
  have sorted: "sorted_wrt (<) (hm_keys m)" using b by (simp add: buckets_for_def)
  have "set (hm_keys m) = dom (map_of m)" by (simp add: dom_map_of_conv_image_fst)
  also have "\<dots> = ?T" by (auto simp: map_of_m split: if_splits)
  finally have keys: "hm_keys m = sorted_list_of_set ?T"
    using sorted by (intro sorted_distinct_set_unique) (simp_all add: strict_sorted_iff)
  have "map snd m = map (\<lambda>t. the (map_of m t)) (hm_keys m)"
    using sorted by (auto simp: strict_sorted_iff)
  also have "\<dots> = map ?b (hm_keys m)"
    by (rule map_cong) (auto simp: keys map_of_m)
  finally show ?thesis
    using False start_of_bounds [OF False] by (simp add: aggregate_events_def m keys list_all_iff)
qed

definition tally :: "('a \<Rightarrow> 'b) \<Rightarrow> 'a list \<Rightarrow> 'b \<Rightarrow> nat" where
  "tally f xs y = length (filter (\<lambda>x. f x = y) xs)"

lemma tally_simps [simp]: "tally f [] y = 0" "tally f [x] y = (if f x = y then 1 else 0)" "tally f (xs @ [x]) y = tally f xs y + (if f x = y then 1 else 0)"
  by (simp_all add: tally_def)

lemma AuditEventType_display_inj: "AuditEventType_display s = AuditEventType_display t \<longleftrightarrow> s = t"
  by (cases s; cases t) simp_all

definition stats_inv :: "AuditEvent list \<Rightarrow> EventStatistics \<Rightarrow> bool" where
  "stats_inv es s \<longleftrightarrow>
     es_info_count s = tally ae_severity es Info \<and> es_warning_count s = tally ae_severity es Warning
     \<and> es_error_count s = tally ae_severity es Error \<and> es_critical_count s = tally ae_severity es Critical
     \<and> es_min_timestamp s = (if es = [] then None else Some (Min (ae_timestamp ` set es)))
     \<and> es_max_timestamp s = (if es = [] then None else Some (Max (ae_timestamp ` set es)))
     \<and> distinct (es_unique_plugins s) \<and> set (es_unique_plugins s) = ae_plugin_name ` set es
     \<and> (\<forall>t. hm_get (es_events_by_type s) (AuditEventType_display t) =
          (if tally ae_event_type es t = 0 then None else Some (tally ae_event_type es t)))"

lemma count_event_counts:
  "es_info_count (count_event s e) = es_info_count s + (if ae_severity e = Info then 1 else 0)"
  "es_warning_count (count_event s e) = es_warning_count s + (if ae_severity e = Warning then 1 else 0)"
  "es_error_count (count_event s e) = es_error_count s + (if ae_severity e = Error then 1 else 0)"
  "es_critical_count (count_event s e) = es_critical_count s + (if ae_severity e = Critical then 1 else 0)"
  by (cases "ae_severity e"; simp add: count_event_def Let_def)+

lemma count_event_rest:
  "es_min_timestamp (count_event s e) =
     Some (case es_min_timestamp s of None \<Rightarrow> ae_timestamp e | Some m \<Rightarrow> min (ae_timestamp e) m)"
  "es_max_timestamp (count_event s e) =
     Some (case es_max_timestamp s of None \<Rightarrow> ae_timestamp e | Some m \<Rightarrow> max (ae_timestamp e) m)"
  "es_unique_plugins (count_event s e) = List.insert (ae_plugin_name e) (es_unique_plugins s)"
  "es_events_by_type (count_event s e) =
     hm_insert (AuditEventType_display (ae_event_type e))
       ((case hm_get (es_events_by_type s) (AuditEventType_display (ae_event_type e)) of None \<Rightarrow> 0 | Some n \<Rightarrow> n) + 1)
       (es_events_by_type s)"
proof -
  show "es_min_timestamp (count_event s e) =
      Some (case es_min_timestamp s of None \<Rightarrow> ae_timestamp e | Some m \<Rightarrow> min (ae_timestamp e) m)"
    by (cases "ae_severity e"; cases "es_min_timestamp s") (auto simp: count_event_def Let_def min_def)
  show "es_max_timestamp (count_event s e) =
      Some (case es_max_timestamp s of None \<Rightarrow> ae_timestamp e | Some m \<Rightarrow> max (ae_timestamp e) m)"
    by (cases "ae_severity e"; cases "es_max_timestamp s") (auto simp: count_event_def Let_def max_def)
qed (cases "ae_severity e"; simp add: count_event_def Let_def)+

lemma count_event_by_type:
  "hm_get (es_events_by_type (count_event s e)) (AuditEventType_display t) =
     (if t = ae_event_type e
      then Some ((case hm_get (es_events_by_type s) (AuditEventType_display t) of None \<Rightarrow> 0 | Some n \<Rightarrow> n) + 1)
      else hm_get (es_events_by_type s) (AuditEventType_display t))"
  unfolding count_event_rest update_conv' by (simp add: AuditEventType_display_inj)

lemma count_event_inv: "stats_inv es s \<Longrightarrow> stats_inv (es @ [e]) (count_event s e)"
  unfolding stats_inv_def count_event_counts count_event_rest(1-3) count_event_by_type
  by (intro conjI allI; cases "es = []"; simp add: Min_insert Max_insert)

text \<open>The statistics count the events by severity and by type, the different plugins, and the first and the
  last time. What is reported as the most common type is the type of the first event.\<close>

theorem statistics_correct:
  "let s = from_events es in
     es_total_events s = length es
     \<and> es_info_count s + es_warning_count s + es_error_count s + es_critical_count s = length es
     \<and> es_critical_count s = tally ae_severity es Critical \<and> es_error_count s = tally ae_severity es Error
     \<and> es_warning_count s = tally ae_severity es Warning
     \<and> es_min_timestamp s = (if es = [] then None else Some (Min (ae_timestamp ` set es)))
     \<and> es_max_timestamp s = (if es = [] then None else Some (Max (ae_timestamp ` set es)))
     \<and> length (es_unique_plugins s) = card (ae_plugin_name ` set es)
     \<and> (hm_get (es_events_by_type s) (AuditEventType_display t) =
          (if tally ae_event_type es t = 0 then None else Some (tally ae_event_type es t)))
     \<and> es_most_common_event_type s = map_option ae_event_type (find (\<lambda>_. True) es)"
proof -
  let ?s0 = "\<lparr>es_total_events = 0, es_info_count = 0, es_warning_count = 0,
      es_error_count = 0, es_critical_count = 0, es_min_timestamp = None, es_max_timestamp = None,
      es_unique_plugins = [], es_most_common_event_type = None, es_events_by_type = []\<rparr>"
  define s where "s = foldl count_event ?s0 es"
  have inv: "stats_inv es s"
    unfolding s_def
  proof (induction es rule: rev_induct)
    case (snoc e es)
    then show ?case by (simp add: count_event_inv)
  qed (simp add: stats_inv_def)
  have "tally ae_severity xs Info + tally ae_severity xs Warning + tally ae_severity xs Error
      + tally ae_severity xs Critical = length xs" for xs :: "AuditEvent list"
  proof (induction xs rule: rev_induct)
    case (snoc x xs)
    then show ?case by (cases "ae_severity x") simp_all
  qed simp
  moreover have "(case es of [] \<Rightarrow> None | e # _ \<Rightarrow> Some (ae_event_type e)) = map_option ae_event_type (find (\<lambda>_. True) es)"
    by (cases es) simp_all
  ultimately show ?thesis
    using inv distinct_card [of "es_unique_plugins s"]
    by (simp add: from_events_def s_def [symmetric] Let_def stats_inv_def)
qed

definition demo_event :: "string \<Rightarrow> AuditEvent" where
  "demo_event message = AuditEvent_new 1700000000 7 LoadFailed Error ''auth'' message"

end
