(* ===== verification/Audit_File.thy ===== *)
theory Audit_File
  imports Audit_Log
begin

text \<open>
  The audit log in a file, \<open>FileAuditLog\<close> of \<open>abi/src/audit.rs\<close>: one event as JSON per line, encryption of
  the lines at rest with rotation of the key, queries with limits on what is loaded, and the replication
  of the log in batches with a checkpoint.

  The disk holds the lines of the log and of the files beside it whose names are derived from its path, which
  are taken to be different from it. Which file operations fail is an argument, as are JSON, AES-256-GCM,
  hexadecimal text and the random nonces; what the code relies on of these is \<open>file_laws\<close>.
\<close>

section \<open>Disk and environment\<close>

datatype io_op = CreateDir | CreateFile | OpenLog | ReadLine nat | CreateTemp | WriteTemp nat | RenameTemp
  | RemoveOld | RenameOld | OpenAppend | AppendLine | RecreateLog | WriteLine nat | WriteCheckpoint

record disk =
  dk_log :: "string list option"
  dk_temp :: "string list option"
  dk_old :: "string list option"
  dk_checkpoint_s3 :: "string option"
  dk_checkpoint_postgres :: "string option"

record file_env =
  fe_io :: "io_op \<Rightarrow> string option"
  fe_to_json :: "AuditEvent \<Rightarrow> string + string"
  fe_from_json :: "string \<Rightarrow> string + AuditEvent"
  fe_encrypt :: "string \<Rightarrow> string \<Rightarrow> string \<Rightarrow> string + string"
  fe_decrypt :: "string \<Rightarrow> string \<Rightarrow> string \<Rightarrow> string option"
  fe_hex_encode :: "string \<Rightarrow> string"
  fe_hex_decode :: "string \<Rightarrow> string + string"
  fe_utf8_error :: "string \<Rightarrow> string"
  fe_nonce :: "nat \<Rightarrow> string"

text \<open>\<open>String::from_utf8\<close>: shortest forms only, no surrogates, at most U+10FFFF.\<close>

definition continuation :: "nat \<Rightarrow> bool" where
  "continuation b \<longleftrightarrow> 128 \<le> b \<and> b < 192"

fun valid_utf8 :: "nat list \<Rightarrow> bool" where
  "valid_utf8 [] = True"
| "valid_utf8 (b # bs) =
     (if b < 128 then valid_utf8 bs
      else if 194 \<le> b \<and> b < 224 then (case bs of c # cs \<Rightarrow> continuation c \<and> valid_utf8 cs | _ \<Rightarrow> False)
      else if 224 \<le> b \<and> b < 240 then
        (case bs of c # d # cs \<Rightarrow>
             continuation c \<and> (b = 224 \<longrightarrow> 160 \<le> c) \<and> (b = 237 \<longrightarrow> c < 160) \<and> continuation d \<and> valid_utf8 cs
         | _ \<Rightarrow> False)
      else if 240 \<le> b \<and> b < 245 then
        (case bs of c # d # e # cs \<Rightarrow>
             continuation c \<and> (b = 240 \<longrightarrow> 144 \<le> c) \<and> (b = 244 \<longrightarrow> c < 144)
             \<and> continuation d \<and> continuation e \<and> valid_utf8 cs
         | _ \<Rightarrow> False)
      else False)"

definition io_try :: "file_env \<Rightarrow> io_op \<Rightarrow> string \<Rightarrow> AuditLogError + unit" where
  "io_try env op what = (case fe_io env op of None \<Rightarrow> Ok () | Some e \<Rightarrow> Err (IoError (what @ e)))"

definition open_log :: "file_env \<Rightarrow> disk \<Rightarrow> AuditLogError + string list" where
  "open_log env d = result_bind (io_try env OpenLog ''Failed to open log file: '') (\<lambda>_.
     ok_or (IoError ''Failed to open log file: No such file or directory (os error 2)'') (dk_log d))"

text \<open>\<open>lines()\<close> ends a line at a line feed and drops a carriage return before it.\<close>

definition strip_cr :: "string \<Rightarrow> string" where
  "strip_cr s = (if s \<noteq> [] \<and> last s = CHR 0x0D then butlast s else s)"

definition read_line :: "file_env \<Rightarrow> nat \<Rightarrow> string \<Rightarrow> AuditLogError + string" where
  "read_line env i l = result_bind (io_try env (ReadLine i) ''Failed to read line: '') (\<lambda>_. Ok (strip_cr l))"

definition parse_event :: "file_env \<Rightarrow> string \<Rightarrow> AuditLogError + AuditEvent" where
  "parse_event env line = map_err (\<lambda>e. SerializationError (''Failed to deserialize event: '' @ e)) (fe_from_json env line)"

definition serialize_event :: "file_env \<Rightarrow> AuditEvent \<Rightarrow> AuditLogError + string" where
  "serialize_event env e = map_err (\<lambda>m. SerializationError (''Failed to serialize event: '' @ m)) (fe_to_json env e)"

section \<open>Encryption\<close>

record EncryptionConfig =
  ec_current_key :: string
  ec_previous_keys :: "string list"
  ec_enabled :: bool

definition EncryptionConfig_new :: "string \<Rightarrow> EncryptionConfig" where
  "EncryptionConfig_new key = \<lparr>ec_current_key = key, ec_previous_keys = [], ec_enabled = True\<rparr>"

definition ec_rotate_key :: "string \<Rightarrow> EncryptionConfig \<Rightarrow> EncryptionConfig" where
  "ec_rotate_key new_key c =
     c\<lparr>ec_previous_keys := ec_previous_keys c @ [ec_current_key c], ec_current_key := new_key\<rparr>"

definition all_keys :: "EncryptionConfig \<Rightarrow> string list" where
  "all_keys c = ec_current_key c # ec_previous_keys c"

record FileAuditLog =
  fl_max_memory_lines :: usize
  fl_encryption :: "EncryptionConfig option"

text \<open>The file is created if it is missing; the two constructors differ in the configuration only.\<close>

definition create_log :: "file_env \<Rightarrow> disk \<Rightarrow> (AuditLogError + unit) \<times> disk" where
  "create_log env d =
     (case io_try env CreateDir ''Failed to create directory: '' of Err e \<Rightarrow> (Err e, d) | Ok _ \<Rightarrow>
       if dk_log d \<noteq> None then (Ok (), d)
       else (case io_try env CreateFile ''Failed to create log file: '' of
               Err e \<Rightarrow> (Err e, d) | Ok _ \<Rightarrow> (Ok (), d\<lparr>dk_log := Some []\<rparr>)))"

definition FileAuditLog_new :: "file_env \<Rightarrow> usize \<Rightarrow> disk \<Rightarrow> (AuditLogError + FileAuditLog) \<times> disk" where
  "FileAuditLog_new env max_memory_lines d =
     (case create_log env d of (r, d) \<Rightarrow>
       (result_bind r (\<lambda>_. Ok \<lparr>fl_max_memory_lines = max_memory_lines, fl_encryption = None\<rparr>), d))"

definition with_encryption :: "file_env \<Rightarrow> string \<Rightarrow> disk \<Rightarrow> (AuditLogError + FileAuditLog) \<times> disk" where
  "with_encryption env key d =
     (case create_log env d of (r, d) \<Rightarrow>
       (result_bind r (\<lambda>_. Ok \<lparr>fl_max_memory_lines = 1000, fl_encryption = Some (EncryptionConfig_new key)\<rparr>), d))"

definition enable_encryption :: "string \<Rightarrow> FileAuditLog \<Rightarrow> FileAuditLog" where
  "enable_encryption key l = l\<lparr>fl_encryption := Some (EncryptionConfig_new key)\<rparr>"

definition disable_encryption :: "FileAuditLog \<Rightarrow> FileAuditLog" where
  "disable_encryption l = l\<lparr>fl_encryption := None\<rparr>"

definition is_encrypted :: "FileAuditLog \<Rightarrow> bool" where
  "is_encrypted l = (case fl_encryption l of None \<Rightarrow> False | Some c \<Rightarrow> ec_enabled c)"

fun collect_lines :: "file_env \<Rightarrow> nat \<Rightarrow> string list \<Rightarrow> AuditLogError + string list" where
  "collect_lines env i [] = Ok []"
| "collect_lines env i (l # ls) =
     result_bind (read_line env i l) (\<lambda>line.
       result_bind (collect_lines env (Suc i) ls) (\<lambda>rest. Ok (if line = [] then rest else line # rest)))"

text \<open>Nonce and ciphertext as hexadecimal text, separated by a colon, are appended to the temporary file, whose
  lines are returned also when an error stops the loop.\<close>

fun write_encrypted :: "file_env \<Rightarrow> string \<Rightarrow> nat \<Rightarrow> string list \<Rightarrow> string list \<Rightarrow> string list \<times> (AuditLogError + unit)" where
  "write_encrypted env key i temp [] = (temp, Ok ())"
| "write_encrypted env key i temp (json # rest) =
     (case map_err (\<lambda>e. BackendError (''Encryption failed: '' @ e)) (fe_encrypt env key (fe_nonce env i) json) of
        Err e \<Rightarrow> (temp, Err e)
      | Ok ciphertext \<Rightarrow>
          (let encrypted_line = fe_hex_encode env (fe_nonce env i) @ '':'' @ fe_hex_encode env ciphertext
           in case io_try env (WriteTemp i) ''Failed to write encrypted data: '' of
                Err e \<Rightarrow> (temp, Err e)
              | Ok _ \<Rightarrow> write_encrypted env key (Suc i) (temp @ [encrypted_line]) rest))"

text \<open>Creation of the temporary file, the loop, and the renaming that replaces the log.\<close>

definition replace_log :: "file_env \<Rightarrow> string \<Rightarrow> string list \<Rightarrow> disk \<Rightarrow> (AuditLogError + unit) \<times> disk" where
  "replace_log env key jsons d =
     (case io_try env CreateTemp ''Failed to create temp file: '' of Err e \<Rightarrow> (Err e, d) | Ok _ \<Rightarrow>
       (case write_encrypted env key 0 [] jsons of
          (temp, Err e) \<Rightarrow> (Err e, d\<lparr>dk_temp := Some temp\<rparr>)
        | (temp, Ok _) \<Rightarrow>
            (case io_try env RenameTemp ''Failed to replace log file: '' of
               Err e \<Rightarrow> (Err e, d\<lparr>dk_temp := Some temp\<rparr>)
             | Ok _ \<Rightarrow> (Ok (), d\<lparr>dk_log := Some temp, dk_temp := None\<rparr>))))"

definition encrypt_at_rest :: "file_env \<Rightarrow> string \<Rightarrow> FileAuditLog \<Rightarrow> disk
    \<Rightarrow> (AuditLogError + nat) \<times> FileAuditLog \<times> disk" where
  "encrypt_at_rest env key l d =
     (if is_encrypted l then (Err (BackendError ''Log is already encrypted''), l, d)
      else (case result_bind (open_log env d) (collect_lines env 0) of
              Err e \<Rightarrow> (Err e, l, d)
            | Ok events \<Rightarrow>
                (case replace_log env key events d of
                   (Err e, d) \<Rightarrow> (Err e, l, d)
                 | (Ok _, d) \<Rightarrow>
                     (Ok (unat (of_nat (length events) :: u32)), l\<lparr>fl_encryption := Some (EncryptionConfig_new key)\<rparr>, d))))"

fun try_keys :: "file_env \<Rightarrow> string \<Rightarrow> string \<Rightarrow> string list \<Rightarrow> AuditLogError + AuditEvent" where
  "try_keys env nonce ciphertext [] = Err (BackendError ''Failed to decrypt event with any available key'')"
| "try_keys env nonce ciphertext (key # keys) =
     (case fe_decrypt env key nonce ciphertext of
        None \<Rightarrow> try_keys env nonce ciphertext keys
      | Some plaintext \<Rightarrow>
          if valid_utf8 (map of_char plaintext) then parse_event env plaintext
          else Err (SerializationError (''Invalid UTF-8 in decrypted data: '' @ fe_utf8_error env plaintext)))"

definition decrypt_line :: "file_env \<Rightarrow> string list \<Rightarrow> string \<Rightarrow> AuditLogError + AuditEvent" where
  "decrypt_line env keys line =
     (case split_once CHR '':'' line of
        None \<Rightarrow> Err (SerializationError ''Invalid encrypted event format'')
      | Some (nonce_hex, ciphertext_hex) \<Rightarrow>
          result_bind (map_err (\<lambda>e. SerializationError (''Failed to decode nonce: '' @ e)) (fe_hex_decode env nonce_hex)) (\<lambda>nonce.
          result_bind (map_err (\<lambda>e. SerializationError (''Failed to decode ciphertext: '' @ e)) (fe_hex_decode env ciphertext_hex))
            (\<lambda>ciphertext.
              if length nonce \<noteq> 12 then Err (SerializationError ''Invalid nonce length'')
              else try_keys env nonce ciphertext keys)))"

fun decrypt_lines :: "file_env \<Rightarrow> string list \<Rightarrow> nat \<Rightarrow> string list \<Rightarrow> AuditLogError + AuditEvent list" where
  "decrypt_lines env keys i [] = Ok []"
| "decrypt_lines env keys i (l # ls) =
     result_bind (read_line env i l) (\<lambda>line.
       if line = [] then decrypt_lines env keys (Suc i) ls
       else result_bind (decrypt_line env keys line) (\<lambda>e.
         result_bind (decrypt_lines env keys (Suc i) ls) (\<lambda>es. Ok (e # es))))"

definition decrypt_on_read :: "file_env \<Rightarrow> FileAuditLog \<Rightarrow> disk \<Rightarrow> AuditLogError + AuditEvent list" where
  "decrypt_on_read env l d =
     result_bind (ok_or (BackendError ''Log is not encrypted'') (fl_encryption l)) (\<lambda>c.
       result_bind (open_log env d) (decrypt_lines env (all_keys c) 0))"

text \<open>The loop of the key rotation serialises, encrypts and writes event after event.\<close>

fun reencrypt :: "file_env \<Rightarrow> string \<Rightarrow> nat \<Rightarrow> string list \<Rightarrow> AuditEvent list \<Rightarrow> string list \<times> (AuditLogError + unit)" where
  "reencrypt env key i temp [] = (temp, Ok ())"
| "reencrypt env key i temp (e # es) =
     (case serialize_event env e of
        Err err \<Rightarrow> (temp, Err err)
      | Ok json \<Rightarrow>
          (case map_err (\<lambda>m. BackendError (''Encryption failed: '' @ m)) (fe_encrypt env key (fe_nonce env i) json) of
             Err err \<Rightarrow> (temp, Err err)
           | Ok ciphertext \<Rightarrow>
               (let encrypted_line = fe_hex_encode env (fe_nonce env i) @ '':'' @ fe_hex_encode env ciphertext
                in case io_try env (WriteTemp i) ''Failed to write encrypted data: '' of
                     Err err \<Rightarrow> (temp, Err err)
                   | Ok _ \<Rightarrow> reencrypt env key (Suc i) (temp @ [encrypted_line]) es)))"

definition rotate_encryption_key :: "file_env \<Rightarrow> string \<Rightarrow> FileAuditLog \<Rightarrow> disk
    \<Rightarrow> (AuditLogError + nat) \<times> FileAuditLog \<times> disk" where
  "rotate_encryption_key env new_key l d =
     (case fl_encryption l of
        None \<Rightarrow> (Err (BackendError ''Log is not encrypted''), l, d)
      | Some c \<Rightarrow>
          (case decrypt_on_read env l d of
             Err e \<Rightarrow> (Err e, l, d)
           | Ok events \<Rightarrow>
               (case io_try env CreateTemp ''Failed to create temp file: '' of Err e \<Rightarrow> (Err e, l, d) | Ok _ \<Rightarrow>
                 (case reencrypt env new_key 0 [] events of
                    (temp, Err e) \<Rightarrow> (Err e, l, d\<lparr>dk_temp := Some temp\<rparr>)
                  | (temp, Ok _) \<Rightarrow>
                      (case io_try env RenameTemp ''Failed to replace log file: '' of
                         Err e \<Rightarrow> (Err e, l, d\<lparr>dk_temp := Some temp\<rparr>)
                       | Ok _ \<Rightarrow> (Ok (length events), l\<lparr>fl_encryption := Some (ec_rotate_key new_key c)\<rparr>,
                                  d\<lparr>dk_log := Some temp, dk_temp := None\<rparr>))))))"

definition line_count :: "file_env \<Rightarrow> disk \<Rightarrow> AuditLogError + nat" where
  "line_count env d = result_bind (open_log env d) (\<lambda>ls. Ok (length ls))"

definition rotate :: "file_env \<Rightarrow> disk \<Rightarrow> (AuditLogError + unit) \<times> disk" where
  "rotate env d =
     (case (if dk_old d \<noteq> None then io_try env RemoveOld ''Failed to remove old log: '' else Ok ()) of
        Err e \<Rightarrow> (Err e, d)
      | Ok _ \<Rightarrow>
          (let d = d\<lparr>dk_old := None\<rparr>
           in case (if dk_log d \<noteq> None then io_try env RenameOld ''Failed to rotate log: '' else Ok ()) of
                Err e \<Rightarrow> (Err e, d)
              | Ok _ \<Rightarrow>
                  (let d = d\<lparr>dk_old := dk_log d, dk_log := None\<rparr>
                   in case io_try env CreateFile ''Failed to create new log: '' of
                        Err e \<Rightarrow> (Err e, d) | Ok _ \<Rightarrow> (Ok (), d\<lparr>dk_log := Some []\<rparr>))))"

text \<open>Adds the file to a registry of backends.\<close>

definition with_file_backend :: "file_env \<Rightarrow> (FileAuditLog \<Rightarrow> 'b) \<Rightarrow> usize \<Rightarrow> 'b DefaultAuditRegistry \<Rightarrow> disk
    \<Rightarrow> (AuditLogError + 'b DefaultAuditRegistry) \<times> disk" where
  "with_file_backend env box max_memory_lines registry d =
     (case FileAuditLog_new env max_memory_lines d of
        (Err e, d) \<Rightarrow> (Err e, d)
      | (Ok file_log, d) \<Rightarrow>
          (case registry_register ''file'' (box file_log) registry of
             (Err e, _) \<Rightarrow> (Err e, d) | (Ok _, registry) \<Rightarrow> (Ok registry, d)))"

section \<open>Writing and reading\<close>

text \<open>\<open>writeln!\<close>: a text with line feeds becomes several lines.\<close>

definition file_write :: "file_env \<Rightarrow> AuditEvent \<Rightarrow> disk \<Rightarrow> (AuditLogError + unit) \<times> disk" where
  "file_write env event d =
     (case serialize_event env event of Err e \<Rightarrow> (Err e, d) | Ok json \<Rightarrow>
       (case io_try env OpenAppend ''Failed to open log file for writing: '' of Err e \<Rightarrow> (Err e, d) | Ok _ \<Rightarrow>
         (let ls = (case dk_log d of None \<Rightarrow> [] | Some ls \<Rightarrow> ls)
          in case io_try env AppendLine ''Failed to write to log file: '' of
               Err e \<Rightarrow> (Err e, d\<lparr>dk_log := Some ls\<rparr>)
             | Ok _ \<Rightarrow> (Ok (), d\<lparr>dk_log := Some (ls @ split_on CHR 0x0A json)\<rparr>))))"

text \<open>The loop of \<open>read\<close>. While fewer events are collected than the offset skips, neither the limits nor the
  scanned lines are looked at.\<close>

fun file_scan :: "file_env \<Rightarrow> usize \<Rightarrow> AuditLogFilter \<Rightarrow> nat \<Rightarrow> nat \<Rightarrow> AuditEvent list \<Rightarrow> string list
    \<Rightarrow> AuditLogError + AuditEvent list" where
  "file_scan env max_lines f i count results [] = Ok results"
| "file_scan env max_lines f i count results (l # ls) =
     result_bind (read_line env i l) (\<lambda>line.
       if line = [] then file_scan env max_lines f (Suc i) count results ls
       else result_bind (parse_event env line) (\<lambda>event.
         let counted = (\<lambda>results.
               if count + 1 > unat (max_lines * 2)
               then Err (QueryError ''Scanned too many events, consider using tighter filters'')
               else file_scan env max_lines f (Suc i) (count + 1) results ls)
         in if filter_matches f event then
              (if (case lf_offset f of None \<Rightarrow> False | Some offset \<Rightarrow> length results < unat offset)
               then file_scan env max_lines f (Suc i) count (results @ [event]) ls
               else (let results = results @ [event] in
                 if (case lf_limit f of None \<Rightarrow> False
                     | Some limit \<Rightarrow> length results \<ge> unat (limit + (case lf_offset f of None \<Rightarrow> 0 | Some k \<Rightarrow> k)))
                 then Ok results
                 else if length results > unat max_lines
                 then Err (QueryError (''Query would load '' @ show_nat (length results)
                        @ '' events, exceeding max_memory_lines ('' @ show_u64 max_lines @ '')''))
                 else counted results))
            else counted results))"

definition file_read :: "file_env \<Rightarrow> AuditLogFilter \<Rightarrow> FileAuditLog \<Rightarrow> disk \<Rightarrow> AuditLogError + AuditEvent list" where
  "file_read env f l d =
     result_bind (open_log env d) (\<lambda>ls.
       result_bind (file_scan env (fl_max_memory_lines l) f 0 0 [] ls) (\<lambda>results. Ok (paginate f results)))"

fun file_count_scan :: "file_env \<Rightarrow> usize \<Rightarrow> AuditLogFilter \<Rightarrow> nat \<Rightarrow> nat \<Rightarrow> nat \<Rightarrow> string list \<Rightarrow> AuditLogError + nat" where
  "file_count_scan env max_lines f i scanned count [] = Ok count"
| "file_count_scan env max_lines f i scanned count (l # ls) =
     result_bind (read_line env i l) (\<lambda>line.
       if line = [] then file_count_scan env max_lines f (Suc i) scanned count ls
       else result_bind (parse_event env line) (\<lambda>event.
         let count = (if filter_matches f event then count + 1 else count) in
         if scanned + 1 > unat (max_lines * 10)
         then Err (QueryError ''Scanned too many events, use tighter filters'')
         else file_count_scan env max_lines f (Suc i) (scanned + 1) count ls))"

definition file_count :: "file_env \<Rightarrow> AuditLogFilter \<Rightarrow> FileAuditLog \<Rightarrow> disk \<Rightarrow> AuditLogError + nat" where
  "file_count env f l d =
     result_bind (open_log env d) (file_count_scan env (fl_max_memory_lines l) f 0 0 0)"

fun purge_scan :: "file_env \<Rightarrow> u64 \<Rightarrow> nat \<Rightarrow> string list \<Rightarrow> AuditLogError + string list \<times> nat" where
  "purge_scan env timestamp i [] = Ok ([], 0)"
| "purge_scan env timestamp i (l # ls) =
     result_bind (read_line env i l) (\<lambda>line.
       if line = [] then purge_scan env timestamp (Suc i) ls
       else result_bind (parse_event env line) (\<lambda>event.
         result_bind (purge_scan env timestamp (Suc i) ls) (\<lambda>(remaining, purged).
           Ok (if timestamp \<le> ae_timestamp event then (line # remaining, purged) else (remaining, purged + 1)))))"

fun write_lines :: "file_env \<Rightarrow> nat \<Rightarrow> string list \<Rightarrow> string list \<Rightarrow> (AuditLogError + unit) \<times> string list" where
  "write_lines env i written [] = (Ok (), written)"
| "write_lines env i written (l # ls) =
     (case io_try env (WriteLine i) ''Failed to write to log file: '' of
        Err e \<Rightarrow> (Err e, written)
      | Ok _ \<Rightarrow> write_lines env (Suc i) (written @ [l]) ls)"

definition file_purge_before :: "file_env \<Rightarrow> u64 \<Rightarrow> disk \<Rightarrow> (AuditLogError + nat) \<times> disk" where
  "file_purge_before env timestamp d =
     (case result_bind (open_log env d) (purge_scan env timestamp 0) of
        Err e \<Rightarrow> (Err e, d)
      | Ok (remaining, purged) \<Rightarrow>
          (case io_try env RecreateLog ''Failed to recreate log file: '' of
             Err e \<Rightarrow> (Err e, d)
           | Ok _ \<Rightarrow>
               (case write_lines env 0 [] remaining of
                  (r, written) \<Rightarrow> (result_bind r (\<lambda>_. Ok purged), d\<lparr>dk_log := Some written\<rparr>))))"

section \<open>Replication\<close>

text \<open>The scan for the next batch, from the line at the checkpoint on: the lines that can be read and parsed,
  without repeated identifiers, at most 1000.\<close>

fun read_batch :: "file_env \<Rightarrow> usize \<Rightarrow> nat \<Rightarrow> AuditEventId set \<Rightarrow> (string \<times> AuditEvent) list \<Rightarrow> string list
    \<Rightarrow> (string \<times> AuditEvent) list" where
  "read_batch env offset i seen events [] = events"
| "read_batch env offset i seen events (l # ls) =
     (if i < unat offset then read_batch env offset (Suc i) seen events ls
      else (case result_bind (read_line env i l) (\<lambda>line. result_bind (parse_event env line) (\<lambda>e. Ok (line, e))) of
              Err _ \<Rightarrow> read_batch env offset (Suc i) seen events ls
            | Ok (line, e) \<Rightarrow>
                if ae_event_id e \<in> seen then read_batch env offset (Suc i) seen events ls
                else (let events = events @ [(line, e)] in
                      if length events \<ge> 1000 then events
                      else read_batch env offset (Suc i) (insert (ae_event_id e) seen) events ls)))"

definition next_batch :: "file_env \<Rightarrow> usize \<Rightarrow> disk \<Rightarrow> (string \<times> AuditEvent) list" where
  "next_batch env offset d = (case open_log env d of Err _ \<Rightarrow> [] | Ok ls \<Rightarrow> read_batch env offset 0 {} [] ls)"

definition upload_batch_to_s3 :: "string list \<Rightarrow> AuditLogError + unit" where
  "upload_batch_to_s3 events = (if events = [] then Err (BackendError ''Empty batch'') else Ok ())"

definition replicate_batch_to_postgres :: "AuditEvent list \<Rightarrow> AuditLogError + unit" where
  "replicate_batch_to_postgres events = (if events = [] then Err (BackendError ''Empty batch'') else Ok ())"

text \<open>The inner loop: at most \<open>remaining\<close> further attempts, with the delay doubled each time. The outcome of an
  attempt depends on its number. The result says whether the batch was sent, and the delay.\<close>

fun send_with_retries :: "(nat \<Rightarrow> AuditLogError + unit) \<Rightarrow> nat \<Rightarrow> nat \<Rightarrow> u64 \<Rightarrow> bool \<times> u64" where
  "send_with_retries send 0 k backoff = (case send k of Ok _ \<Rightarrow> (True, 1000) | Err _ \<Rightarrow> (False, backoff))"
| "send_with_retries send (Suc remaining) k backoff =
     (case send k of Ok _ \<Rightarrow> (True, 1000) | Err _ \<Rightarrow> send_with_retries send remaining (Suc k) (backoff * 2))"

record replication =
  rp_offset :: usize
  rp_backoff :: u64

definition read_checkpoint :: "string option \<Rightarrow> usize" where
  "read_checkpoint checkpoint =
     (case checkpoint of None \<Rightarrow> 0 | Some data \<Rightarrow> (case parse_u64 (trim data) of None \<Rightarrow> 0 | Some offset \<Rightarrow> offset))"

definition replication_start :: "string option \<Rightarrow> replication" where
  "replication_start checkpoint = \<lparr>rp_offset = read_checkpoint checkpoint, rp_backoff = 1000\<rparr>"

text \<open>A round of the outer loop: the batch that was sent, if any. A checkpoint that cannot be written is
  ignored.\<close>

definition s3_round :: "file_env \<Rightarrow> (nat \<Rightarrow> string list \<Rightarrow> AuditLogError + unit) \<Rightarrow> replication \<Rightarrow> disk
    \<Rightarrow> string list \<times> replication \<times> disk" where
  "s3_round env upload r d =
     (let events = map fst (next_batch env (rp_offset r) d) in
      if events = [] then ([], r, d)
      else (case send_with_retries (\<lambda>k. upload k events) 5 0 (rp_backoff r) of
              (False, backoff) \<Rightarrow> ([], r\<lparr>rp_backoff := backoff\<rparr>, d)
            | (True, backoff) \<Rightarrow>
                (let offset = rp_offset r + of_nat (length events)
                 in (events, r\<lparr>rp_offset := offset, rp_backoff := backoff\<rparr>,
                     if fe_io env WriteCheckpoint = None then d\<lparr>dk_checkpoint_s3 := Some (show_u64 offset)\<rparr> else d))))"

definition postgres_round :: "file_env \<Rightarrow> (nat \<Rightarrow> AuditEvent list \<Rightarrow> AuditLogError + unit) \<Rightarrow> replication \<Rightarrow> disk
    \<Rightarrow> AuditEvent list \<times> replication \<times> disk" where
  "postgres_round env send r d =
     (let events = map snd (next_batch env (rp_offset r) d) in
      if events = [] then ([], r, d)
      else (case send_with_retries (\<lambda>k. send k events) 5 0 (rp_backoff r) of
              (False, backoff) \<Rightarrow> ([], r\<lparr>rp_backoff := backoff\<rparr>, d)
            | (True, backoff) \<Rightarrow>
                (let offset = rp_offset r + of_nat (length events)
                 in (events, r\<lparr>rp_offset := offset, rp_backoff := backoff\<rparr>,
                     if fe_io env WriteCheckpoint = None then d\<lparr>dk_checkpoint_postgres := Some (show_u64 offset)\<rparr> else d))))"

record ReplicationHandle =
  rh_replication_type :: string
  rh_started_at :: u64
  rh_last_replicated_offset :: u64
  rh_events_replicated :: u64
  rh_is_active :: bool

definition ReplicationHandle_new :: "u64 \<Rightarrow> string \<Rightarrow> ReplicationHandle" where
  "ReplicationHandle_new now replication_type = \<lparr>rh_replication_type = replication_type, rh_started_at = now,
     rh_last_replicated_offset = 0, rh_events_replicated = 0, rh_is_active = True\<rparr>"

record ReplicationStatus =
  rs_replication_type :: string
  rs_is_active :: bool
  rs_last_replicated_offset :: u64
  rs_events_replicated :: u64
  rs_replication_lag_ms :: u64
  rs_failed_attempts :: u64
  rs_last_error :: "string option"

definition ReplicationStatus_new :: "string \<Rightarrow> ReplicationStatus" where
  "ReplicationStatus_new replication_type = \<lparr>rs_replication_type = replication_type, rs_is_active = False,
     rs_last_replicated_offset = 0, rs_events_replicated = 0, rs_replication_lag_ms = 0, rs_failed_attempts = 0,
     rs_last_error = None\<rparr>"

definition checkpoint_status :: "string \<Rightarrow> string option \<Rightarrow> ReplicationStatus" where
  "checkpoint_status replication_type checkpoint =
     (let s = ReplicationStatus_new replication_type in
      case checkpoint of None \<Rightarrow> s
      | Some data \<Rightarrow> (case parse_u64 (trim data) of None \<Rightarrow> s
          | Some offset \<Rightarrow> s\<lparr>rs_last_replicated_offset := offset, rs_is_active := True\<rparr>))"

definition check_replication_status :: "disk \<Rightarrow> ReplicationStatus" where
  "check_replication_status d =
     (let s3_status = checkpoint_status ''s3'' (dk_checkpoint_s3 d);
          postgres_status = checkpoint_status ''postgres'' (dk_checkpoint_postgres d)
      in if rs_is_active s3_status then s3_status
         else if rs_is_active postgres_status then postgres_status
         else ReplicationStatus_new ''none'')"

section \<open>What the code relies on\<close>

definition hex_chars :: "char set" where
  "hex_chars = set ''0123456789abcdefABCDEF''"

text \<open>JSON text of an event is one line of UTF-8 that starts with a brace and can be read back; no text that
  starts with a hexadecimal digit is an event. Hexadecimal text is what is decoded, and decoding inverts
  encoding. Decryption inverts encryption with the same key and nonce. A nonce has 12 bytes.\<close>

definition file_laws :: "file_env \<Rightarrow> bool" where
  "file_laws env \<longleftrightarrow>
     (\<forall>e j. fe_to_json env e = Ok j \<longrightarrow> fe_from_json env j = Ok e \<and> (\<exists>r. j = CHR ''{'' # r @ ''}'')
        \<and> CHR 0x0A \<notin> set j \<and> valid_utf8 (map of_char j))
   \<and> (\<forall>s e. fe_from_json env s = Ok e \<longrightarrow> s \<noteq> [] \<and> hd s \<notin> hex_chars)
   \<and> (\<forall>b. fe_hex_decode env (fe_hex_encode env b) = Ok b \<and> set (fe_hex_encode env b) \<subseteq> hex_chars)
   \<and> (\<forall>s b. fe_hex_decode env s = Ok b \<longrightarrow> set s \<subseteq> hex_chars)
   \<and> (\<forall>k n p c. fe_encrypt env k n p = Ok c \<longrightarrow> fe_decrypt env k n c = Some p)
   \<and> (\<forall>i. length (fe_nonce env i) = 12)
   \<and> fe_hex_encode env [] = []"

definition reads_ok :: "file_env \<Rightarrow> bool" where
  "reads_ok env \<longleftrightarrow> fe_io env OpenLog = None \<and> (\<forall>i. fe_io env (ReadLine i) = None)"

lemma file_lawsD:
  assumes "file_laws env"
  shows "fe_to_json env e = Ok j \<Longrightarrow> fe_from_json env j = Ok e"
    and "fe_to_json env e = Ok j \<Longrightarrow> \<exists>r. j = CHR ''{'' # r @ ''}''"
    and "fe_to_json env e = Ok j \<Longrightarrow> CHR 0x0A \<notin> set j"
    and "fe_to_json env e = Ok j \<Longrightarrow> valid_utf8 (map of_char j)"
    and "fe_from_json env s = Ok e \<Longrightarrow> s \<noteq> [] \<and> hd s \<notin> hex_chars"
    and "fe_hex_decode env (fe_hex_encode env b) = Ok b" and "set (fe_hex_encode env b) \<subseteq> hex_chars"
    and "fe_hex_decode env s = Ok b \<Longrightarrow> set s \<subseteq> hex_chars"
    and "fe_encrypt env k n p = Ok c \<Longrightarrow> fe_decrypt env k n c = Some p"
    and "length (fe_nonce env i) = 12"
    and "b \<noteq> [] \<Longrightarrow> fe_hex_encode env b \<noteq> []"
proof -
  note laws = assms [unfolded file_laws_def]
  show "fe_to_json env e = Ok j \<Longrightarrow> fe_from_json env j = Ok e"
    "fe_to_json env e = Ok j \<Longrightarrow> \<exists>r. j = CHR ''{'' # r @ ''}''"
    "fe_to_json env e = Ok j \<Longrightarrow> CHR 0x0A \<notin> set j"
    "fe_to_json env e = Ok j \<Longrightarrow> valid_utf8 (map of_char j)"
    using laws [THEN conjunct1] by simp_all
  show "fe_from_json env s = Ok e \<Longrightarrow> s \<noteq> [] \<and> hd s \<notin> hex_chars"
    using laws [THEN conjunct2, THEN conjunct1] by simp
  show hex: "fe_hex_decode env (fe_hex_encode env b) = Ok b" "set (fe_hex_encode env b) \<subseteq> hex_chars" for b
    using laws [THEN conjunct2, THEN conjunct2, THEN conjunct1] by simp_all
  show "fe_hex_decode env s = Ok b \<Longrightarrow> set s \<subseteq> hex_chars" "fe_encrypt env k n p = Ok c \<Longrightarrow> fe_decrypt env k n c = Some p"
    "length (fe_nonce env i) = 12"
    using laws [THEN conjunct2, THEN conjunct2, THEN conjunct2] by simp_all
  have "fe_hex_encode env [] = []" using laws by simp
  then show "b \<noteq> [] \<Longrightarrow> fe_hex_encode env b \<noteq> []" using hex(1) by (metis sum.inject(2))
qed

lemma hex_chars_no_sep: "CHR '':'' \<notin> hex_chars" "CHR 0x0D \<notin> hex_chars" "CHR ''{'' \<notin> hex_chars"
  by (simp_all add: hex_chars_def)

lemma read_line_ok [simp]: "reads_ok env \<Longrightarrow> read_line env i l = Ok (strip_cr l)"
  by (simp add: read_line_def reads_ok_def io_try_def)

lemma open_log_ok [simp]: "reads_ok env \<Longrightarrow> dk_log d = Some ls \<Longrightarrow> open_log env d = Ok ls"
  by (simp add: open_log_def reads_ok_def io_try_def)

section \<open>Encryption\<close>

text \<open>A line of an encrypted log.\<close>

definition sealed :: "file_env \<Rightarrow> string \<Rightarrow> string \<Rightarrow> string \<Rightarrow> bool" where
  "sealed env key j l \<longleftrightarrow> (\<exists>i c. fe_encrypt env key (fe_nonce env i) j = Ok c
     \<and> l = fe_hex_encode env (fe_nonce env i) @ '':'' @ fe_hex_encode env c)"

lemma write_encrypted_sealed:
  "write_encrypted env key i temp jsons = (temp', Ok ()) \<Longrightarrow>
     \<exists>ls. temp' = temp @ ls \<and> list_all2 (sealed env key) jsons ls"
proof (induction jsons arbitrary: i temp)
  case (Cons j jsons)
  then obtain c where c: "fe_encrypt env key (fe_nonce env i) j = Ok c"
    and rest: "write_encrypted env key (Suc i)
      (temp @ [fe_hex_encode env (fe_nonce env i) @ '':'' @ fe_hex_encode env c]) jsons = (temp', Ok ())"
    by (auto simp: Let_def map_err_def split: sum.splits)
  from Cons.IH [OF rest] c show ?case by (force simp: sealed_def)
qed simp

lemma reencrypt_sealed:
  "reencrypt env key i temp es = (temp', Ok ()) \<Longrightarrow>
     \<exists>jsons. list_all2 (\<lambda>e j. fe_to_json env e = Ok j) es jsons \<and> write_encrypted env key i temp jsons = (temp', Ok ())"
proof (induction es arbitrary: i temp)
  case (Cons e es)
  then obtain j c where j: "fe_to_json env e = Ok j" and c: "fe_encrypt env key (fe_nonce env i) j = Ok c"
    and w: "io_try env (WriteTemp i) ''Failed to write encrypted data: '' = Ok ()"
    and rest: "reencrypt env key (Suc i)
      (temp @ [fe_hex_encode env (fe_nonce env i) @ '':'' @ fe_hex_encode env c]) es = (temp', Ok ())"
    by (auto simp: Let_def map_err_def serialize_event_def split: sum.splits)
  from Cons.IH [OF rest] obtain jsons where "list_all2 (\<lambda>e j. fe_to_json env e = Ok j) es jsons"
    "write_encrypted env key (Suc i) (temp @ [fe_hex_encode env (fe_nonce env i) @ '':'' @ fe_hex_encode env c]) jsons
      = (temp', Ok ())" by blast
  then show ?case using j c w by (intro exI [of _ "j # jsons"]) (simp add: Let_def)
qed simp

lemma sealed_line:
  assumes laws: "file_laws env" and "sealed env key j l"
  shows "strip_cr l = l" and "l \<noteq> []" and "hd l \<in> hex_chars"
    and "fe_to_json env e = Ok j \<Longrightarrow> decrypt_line env (key # keys) l = Ok e"
proof -
  obtain i c where c: "fe_encrypt env key (fe_nonce env i) j = Ok c"
    and l: "l = fe_hex_encode env (fe_nonce env i) @ '':'' @ fe_hex_encode env c"
    using assms(2) by (auto simp: sealed_def)
  let ?n = "fe_hex_encode env (fe_nonce env i)"
  have hex: "set ?n \<subseteq> hex_chars" "set (fe_hex_encode env c) \<subseteq> hex_chars" by (rule file_lawsD(7) [OF laws])+
  have ne: "?n \<noteq> []" using file_lawsD(10) [OF laws, of i] by (intro file_lawsD(11) [OF laws]) auto
  then have "hd ?n \<in> set ?n" by simp
  then show "hd l \<in> hex_chars" "l \<noteq> []" using hex(1) ne by (auto simp: l)
  have "set l \<subseteq> insert CHR '':'' hex_chars" using hex by (auto simp: l)
  then have "CHR 0x0D \<notin> set l" using hex_chars_no_sep(2) by auto
  then show "strip_cr l = l" by (auto simp: strip_cr_def dest: last_in_set)
  assume j: "fe_to_json env e = Ok j"
  have "CHR '':'' \<notin> set ?n" using hex(1) hex_chars_no_sep(1) by auto
  then have "split_once CHR '':'' l = Some (?n, fe_hex_encode env c)" by (simp add: l)
  then show "decrypt_line env (key # keys) l = Ok e"
    using file_lawsD(1,4) [OF laws j] file_lawsD(9) [OF laws c]
    by (simp add: decrypt_line_def file_lawsD(6,10) [OF laws] parse_event_def)
qed

lemma decrypt_lines_sealed:
  assumes laws: "file_laws env" and reads: "reads_ok env"
  shows "list_all2 (\<lambda>e j. fe_to_json env e = Ok j) es jsons \<Longrightarrow> list_all2 (sealed env key) jsons ls \<Longrightarrow>
    decrypt_lines env (key # keys) i ls = Ok es"
proof (induction es arbitrary: jsons ls i)
  case (Cons e es)
  then show ?case
    by (auto simp: list_all2_Cons1 list_all2_Cons2 reads sealed_line [OF laws])
qed simp

lemma plain_line:
  assumes "file_laws env" and "fe_to_json env e = Ok j"
  shows "strip_cr j = j" "j \<noteq> []" "split_on CHR 0x0A j = [j]"
  using file_lawsD(2,3) [OF assms] by (auto simp: strip_cr_def split_on_no_sep)

lemma collect_lines_plain:
  "file_laws env \<Longrightarrow> reads_ok env \<Longrightarrow> list_all2 (\<lambda>e j. fe_to_json env e = Ok j) es ls \<Longrightarrow> collect_lines env i ls = Ok ls"
proof (induction es arbitrary: ls i)
  case (Cons e es)
  then show ?case by (auto simp: list_all2_Cons1 plain_line)
qed simp

text \<open>A log encrypted with the current key holds the events.\<close>

definition sealed_log :: "file_env \<Rightarrow> AuditEvent list \<Rightarrow> FileAuditLog \<Rightarrow> disk \<Rightarrow> bool" where
  "sealed_log env es l d \<longleftrightarrow> (\<exists>c jsons ls. fl_encryption l = Some c \<and> dk_log d = Some ls
     \<and> list_all2 (\<lambda>e j. fe_to_json env e = Ok j) es jsons \<and> list_all2 (sealed env (ec_current_key c)) jsons ls)"

lemma decrypt_sealed_log:
  "file_laws env \<Longrightarrow> reads_ok env \<Longrightarrow> sealed_log env es l d \<Longrightarrow> decrypt_on_read env l d = Ok es"
  by (auto simp: sealed_log_def decrypt_on_read_def all_keys_def decrypt_lines_sealed)

lemma replace_log_cases:
  assumes "replace_log env key jsons d = (r, d')"
  shows "case r of Ok _ \<Rightarrow> (\<exists>ls. dk_log d' = Some ls \<and> list_all2 (sealed env key) jsons ls)
    | Err _ \<Rightarrow> dk_log d' = dk_log d"
  using assms write_encrypted_sealed [of env key 0 "[]" jsons]
  by (auto simp: replace_log_def split: sum.splits prod.splits)

lemma rotate_key_cases:
  assumes "rotate_encryption_key env key l d = (r, l', d')"
  shows "case r of
      Ok n \<Rightarrow> (\<exists>es. decrypt_on_read env l d = Ok es \<and> n = length es \<and> sealed_log env es l' d')
    | Err _ \<Rightarrow> l' = l \<and> dk_log d' = dk_log d"
proof (cases r)
  case (Inl e)
  then show ?thesis using assms
    by (auto simp: rotate_encryption_key_def split: option.splits sum.splits prod.splits)
next
  case (Inr n)
  with assms obtain c es temp where c: "fl_encryption l = Some c" and es: "decrypt_on_read env l d = Ok es"
    and temp: "reencrypt env key 0 [] es = (temp, Ok ())" and n: "n = length es"
    and l': "l' = l\<lparr>fl_encryption := Some (ec_rotate_key key c)\<rparr>" "dk_log d' = Some temp"
    by (auto simp: rotate_encryption_key_def split: option.splits sum.splits prod.splits)
  from reencrypt_sealed [OF temp] obtain jsons where "list_all2 (\<lambda>e j. fe_to_json env e = Ok j) es jsons"
    "write_encrypted env key 0 [] jsons = (temp, Ok ())" by blast
  then have "sealed_log env es l' d'"
    using write_encrypted_sealed [of env key 0 "[]" jsons temp] l'
    by (auto simp: sealed_log_def ec_rotate_key_def)
  then show ?thesis using Inr es n by simp
qed

lemma encrypt_seals:
  assumes laws: "file_laws env" and reads: "reads_ok env"
    and plain: "dk_log d = Some ls" "list_all2 (\<lambda>e j. fe_to_json env e = Ok j) es ls"
    and enc: "encrypt_at_rest env key l d = (Ok n, l', d')"
  shows "sealed_log env es l' d' \<and> n = unat (of_nat (length es) :: u32)"
proof -
  have lines: "collect_lines env 0 ls = Ok ls" by (rule collect_lines_plain [OF laws reads plain(2)])
  obtain d1 where d1: "replace_log env key ls d = (Ok (), d1)" and n: "n = unat (of_nat (length ls) :: u32)"
    and l': "l' = l\<lparr>fl_encryption := Some (EncryptionConfig_new key)\<rparr>" "d' = d1"
    using enc plain(1) reads lines by (auto simp: encrypt_at_rest_def split: if_splits sum.splits prod.splits)
  have "length ls = length es" using plain(2) by (rule list_all2_lengthD [symmetric])
  then show ?thesis
    using replace_log_cases [OF d1] plain(2) l' n by (auto simp: sealed_log_def EncryptionConfig_new_def)
qed

text \<open>(C38) Encrypting a log of plain events and reading it back yields the events, in their order, also after any
  rotation of the key. The number that is returned is that of the events (below \<open>2 ^ 32\<close>).\<close>

theorem encrypted_log_roundtrip:
  assumes laws: "file_laws env" and reads: "reads_ok env"
    and plain: "dk_log d = Some ls" "list_all2 (\<lambda>e j. fe_to_json env e = Ok j) es ls" "length es < 2 ^ 32"
    and enc: "encrypt_at_rest env key l d = (Ok n, l', d')"
    and rot: "rotate_encryption_key env key' l' d' = (Ok m, l'', d'')"
  shows "n = length es \<and> decrypt_on_read env l' d' = Ok es \<and> m = length es \<and> decrypt_on_read env l'' d'' = Ok es"
proof -
  have sealed: "sealed_log env es l' d'" and n: "n = unat (of_nat (length es) :: u32)"
    using encrypt_seals [OF laws reads plain(1,2) enc] by simp_all
  from decrypt_sealed_log [OF laws reads sealed] have es: "decrypt_on_read env l' d' = Ok es" .
  moreover from rotate_key_cases [OF rot] es have "m = length es \<and> sealed_log env es l'' d''" by simp
  moreover have "n = length es" using n plain(3) by (simp add: unat_of_nat)
  ultimately show ?thesis using decrypt_sealed_log [OF laws reads] by blast
qed

text \<open>Encryption and rotation of the key replace the log as a whole: when they fail, log and configuration are
  as before. Purging does not: it first empties the file, so that when a write fails then, what had not been
  written is gone.\<close>

theorem log_replacement_atomic:
  "(case encrypt_at_rest env key l d of (Err _, l', d') \<Rightarrow> l' = l \<and> dk_log d' = dk_log d | _ \<Rightarrow> True)
   \<and> (case rotate_encryption_key env key l d of (Err _, l', d') \<Rightarrow> l' = l \<and> dk_log d' = dk_log d | _ \<Rightarrow> True)
   \<and> (case result_bind (open_log env d) (purge_scan env t 0) of
        Ok (line # kept, n) \<Rightarrow>
          (if fe_io env RecreateLog = None \<and> fe_io env (WriteLine 0) \<noteq> None
           then (case file_purge_before env t d of (Err _, d') \<Rightarrow> dk_log d' = Some [] | _ \<Rightarrow> False) else True)
      | _ \<Rightarrow> True)"
proof (intro conjI)
  show "case encrypt_at_rest env key l d of (Err _, l', d') \<Rightarrow> l' = l \<and> dk_log d' = dk_log d | _ \<Rightarrow> True"
    by (auto simp: encrypt_at_rest_def dest: replace_log_cases split: sum.splits prod.splits)
  show "case rotate_encryption_key env key l d of (Err _, l', d') \<Rightarrow> l' = l \<and> dk_log d' = dk_log d | _ \<Rightarrow> True"
    using rotate_key_cases [of env key l d] by (auto split: sum.splits prod.splits)
qed (auto simp: file_purge_before_def io_try_def split: sum.splits prod.splits list.splits)

lemma decrypt_lines_bad:
  assumes "reads_ok env" and "strip_cr l = l" "l \<noteq> []" "decrypt_line env keys l = Err e"
  shows "\<exists>e. decrypt_lines env keys i (ls @ [l]) = Err e"
proof (induction ls arbitrary: i)
  case Nil
  then show ?case using assms by simp
next
  case (Cons x ls)
  from Cons [of "Suc i"] obtain e' where "decrypt_lines env keys (Suc i) (ls @ [l]) = Err e'" ..
  then show ?case using assms(1) by (cases "decrypt_line env keys (strip_cr x)") auto
qed

text \<open>Writing to an encrypted log makes it unreadable: the event is appended as plain text, after which
  neither decryption nor a query succeeds.\<close>

theorem write_breaks_encrypted_log:
  assumes laws: "file_laws env" and reads: "reads_ok env" and log: "sealed_log env es l d" "es \<noteq> []"
    and w: "file_write env e d = (Ok (), d')"
  shows "decrypt_on_read env l d = Ok es \<and> (\<exists>err. decrypt_on_read env l d' = Err err)
    \<and> (\<exists>err. file_read env f l d' = Err err)"
proof -
  obtain c jsons ls where c: "fl_encryption l = Some c" "dk_log d = Some ls"
    and jsons: "list_all2 (\<lambda>e j. fe_to_json env e = Ok j) es jsons"
    and sealed: "list_all2 (sealed env (ec_current_key c)) jsons ls"
    using log(1) by (auto simp: sealed_log_def)
  obtain j where j: "fe_to_json env e = Ok j" using w
    by (auto simp: file_write_def serialize_event_def map_err_def split: sum.splits)
  note plain = plain_line [OF laws j]
  have d': "dk_log d' = Some (ls @ [j])"
    using w j c(2) plain(3) by (auto simp: file_write_def serialize_event_def Let_def split: sum.splits)
  obtain r where r: "j = CHR ''{'' # r" using file_lawsD(2) [OF laws j] by auto
  have no_hex: "\<exists>m. fe_hex_decode env (CHR ''{'' # s) = Err m" for s
    using file_lawsD(8) [OF laws, of "CHR ''{'' # s"] hex_chars_no_sep(3)
    by (cases "fe_hex_decode env (CHR ''{'' # s)") auto
  have bad: "\<exists>m. decrypt_line env keys j = Err m" for keys
  proof (cases "split_once CHR '':'' r")
    case (Some p)
    then show ?thesis using no_hex [of "fst p"] by (cases p) (auto simp: decrypt_line_def r)
  qed (simp add: decrypt_line_def r)
  have "\<exists>err. decrypt_on_read env l d' = Err err"
    using bad decrypt_lines_bad [OF reads plain(1,2)] c(1) d' reads by (fastforce simp: decrypt_on_read_def)
  moreover obtain x ls' j0 where x: "ls = x # ls'" "sealed env (ec_current_key c) j0 x"
    using sealed jsons log(2) by (cases es; cases ls) (auto simp: list_all2_Cons1)
  have "\<exists>m. fe_from_json env x = Err m"
    using file_lawsD(5) [OF laws, of x] sealed_line(3) [OF laws x(2)] by (cases "fe_from_json env x") auto
  then have "\<exists>err. file_read env f l d' = Err err"
    using d' x(1) sealed_line(1,2) [OF laws x(2)] reads by (auto simp: file_read_def parse_event_def)
  ultimately show ?thesis using decrypt_sealed_log [OF laws reads log(1)] by blast
qed

section \<open>Queries\<close>

abbreviation plain_lines :: "file_env \<Rightarrow> AuditEvent list \<Rightarrow> string list \<Rightarrow> bool" where
  "plain_lines env \<equiv> list_all2 (\<lambda>e j. fe_to_json env e = Ok j)"

lemma parse_plain: "file_laws env \<Longrightarrow> fe_to_json env e = Ok j \<Longrightarrow> parse_event env j = Ok e"
  by (simp add: parse_event_def file_lawsD(1))

definition page_fits :: "AuditLogFilter \<Rightarrow> bool" where
  "page_fits f = (case (lf_limit f, lf_offset f) of
     (Some limit, Some offset) \<Rightarrow> unat limit + unat offset < 2 ^ 64 | _ \<Rightarrow> True)"

lemma page_end: "page_fits f \<Longrightarrow> lf_limit f = Some n \<Longrightarrow>
    unat (n + (case lf_offset f of None \<Rightarrow> 0 | Some k \<Rightarrow> k)) = unat n + (case lf_offset f of None \<Rightarrow> 0 | Some k \<Rightarrow> unat k)"
  by (cases "lf_offset f") (simp_all add: page_fits_def, simp add: unat_word_ariths)

lemma paginate_full:
  assumes "page_fits f" "lf_limit f = Some n"
    and "unat (n + (case lf_offset f of None \<Rightarrow> 0 | Some k \<Rightarrow> k)) \<le> length rs"
  shows "paginate f (rs @ rest) = paginate f rs"
  using assms(2,3) page_end [OF assms(1,2)] by (auto simp: paginate_def split: option.splits)

lemma file_scan_sound:
  assumes laws: "file_laws env" and reads: "reads_ok env" and fits: "page_fits f"
  shows "plain_lines env es ls \<Longrightarrow> file_scan env mx f i cnt rs ls = Ok res \<Longrightarrow>
    paginate f res = paginate f (rs @ filter (filter_matches f) es)"
proof (induction es arbitrary: ls i cnt rs)
  case (Cons e es)
  then obtain j ls' where ls: "ls = j # ls'" "fe_to_json env e = Ok j" and rest: "plain_lines env es ls'"
    by (auto simp: list_all2_Cons1)
  note line = plain_line [OF laws ls(2)] parse_plain [OF laws ls(2)]
  note IH = Cons.IH [OF rest]
  show ?case
  proof (cases "filter_matches f e")
    case False
    then show ?thesis using Cons.prems(2) reads line IH by (auto simp: ls(1) Let_def split: if_splits)
  next
    case True
    show ?thesis
    proof (cases "\<exists>n. lf_limit f = Some n \<and> unat (n + (case lf_offset f of None \<Rightarrow> 0 | Some k \<Rightarrow> k)) \<le> length (rs @ [e])
        \<and> res = rs @ [e]")
      case full: True
      then show ?thesis using paginate_full [OF fits, of _ "rs @ [e]" "filter (filter_matches f) es"] True by auto
    next
      case False
      then obtain cnt' where "file_scan env mx f (Suc i) cnt' (rs @ [e]) ls' = Ok res"
        using Cons.prems(2) reads line True
        by (auto simp: ls(1) Let_def split: if_splits option.splits)
      from IH [OF this] show ?thesis using True by simp
    qed
  qed
qed simp

lemma file_scan_complete:
  assumes laws: "file_laws env" and reads: "reads_ok env"
  shows "plain_lines env es ls \<Longrightarrow> cnt + length es \<le> unat (mx * 2) \<Longrightarrow>
    length rs + length (filter (filter_matches f) es) \<le> unat mx \<Longrightarrow> \<exists>res. file_scan env mx f i cnt rs ls = Ok res"
proof (induction es arbitrary: ls i cnt rs)
  case (Cons e es)
  then obtain j ls' where ls: "ls = j # ls'" "fe_to_json env e = Ok j" and rest: "plain_lines env es ls'"
    by (auto simp: list_all2_Cons1)
  note line = plain_line [OF laws ls(2)] parse_plain [OF laws ls(2)]
  have "\<exists>res. file_scan env mx f (Suc i) cnt' rs' ls' = Ok res"
    if "cnt' \<le> Suc cnt" "length rs' + length (filter (filter_matches f) es) \<le> unat mx" for cnt' rs'
    using Cons.IH [OF rest, of cnt' rs'] Cons.prems(2) that by simp
  then show ?case using Cons.prems(2,3) reads line by (auto simp: ls(1) Let_def split: option.splits)
qed simp

lemma file_count_scan_eq:
  assumes laws: "file_laws env" and reads: "reads_ok env"
  shows "plain_lines env es ls \<Longrightarrow> case file_count_scan env mx f i scanned n ls of
      Ok k \<Rightarrow> k = n + length (filter (filter_matches f) es) | Err _ \<Rightarrow> unat (mx * 10) < scanned + length es"
proof (induction es arbitrary: ls i scanned n)
  case (Cons e es)
  then obtain j ls' where ls: "ls = j # ls'" "fe_to_json env e = Ok j" and rest: "plain_lines env es ls'"
    by (auto simp: list_all2_Cons1)
  note line = plain_line [OF laws ls(2)] parse_plain [OF laws ls(2)]
  show ?case
    using Cons.IH [OF rest, of "scanned + 1" "if filter_matches f e then n + 1 else n" "Suc i"] reads line
    by (cases "filter_matches f e") (auto simp: ls(1) Let_def split: sum.splits)
qed simp

lemma purge_scan_plain:
  assumes laws: "file_laws env" and reads: "reads_ok env"
  shows "plain_lines env es ls \<Longrightarrow> \<exists>kept. purge_scan env t i ls = Ok (kept, length (filter (\<lambda>e. ae_timestamp e < t) es))
      \<and> plain_lines env (filter (\<lambda>e. t \<le> ae_timestamp e) es) kept"
proof (induction es arbitrary: ls i)
  case (Cons e es)
  then obtain j ls' where ls: "ls = j # ls'" "fe_to_json env e = Ok j" and rest: "plain_lines env es ls'"
    by (auto simp: list_all2_Cons1)
  note line = plain_line [OF laws ls(2)] parse_plain [OF laws ls(2)]
  from Cons.IH [OF rest, of "Suc i"] obtain kept where
    "purge_scan env t (Suc i) ls' = Ok (kept, length (filter (\<lambda>e. ae_timestamp e < t) es))"
    "plain_lines env (filter (\<lambda>e. t \<le> ae_timestamp e) es) kept" by blast
  then show ?case using reads line ls(2)
    by (cases "t \<le> ae_timestamp e") (auto simp: ls(1) not_le)
qed simp

lemma write_lines_Ok: "write_lines env i w ls = (Ok (), w') \<Longrightarrow> w' = w @ ls"
proof (induction ls arbitrary: i w)
  case (Cons l ls)
  then show ?case using Cons.IH [of "Suc i" "w @ [l]"] by (auto split: sum.splits)
qed simp

definition plain_log :: "file_env \<Rightarrow> AuditEvent list \<Rightarrow> disk \<Rightarrow> bool" where
  "plain_log env es d \<longleftrightarrow> (\<exists>ls. dk_log d = Some ls \<and> plain_lines env es ls)"

definition in_memory :: "AuditEvent list \<Rightarrow> InMemoryAuditLog" where
  "in_memory es = \<lparr>ml_events = es, ml_max_events = length es\<rparr>"


section \<open>Replication\<close>

text \<open>The batch without positions, for lines that can be read.\<close>

fun batch_of :: "file_env \<Rightarrow> AuditEventId set \<Rightarrow> nat \<Rightarrow> string list \<Rightarrow> (string \<times> AuditEvent) list" where
  "batch_of env seen n [] = []"
| "batch_of env seen n (l # ls) =
     (case parse_event env (strip_cr l) of
        Err _ \<Rightarrow> batch_of env seen n ls
      | Ok e \<Rightarrow> if ae_event_id e \<in> seen then batch_of env seen n ls
                else (strip_cr l, e) # (if Suc n \<ge> 1000 then [] else batch_of env (insert (ae_event_id e) seen) (Suc n) ls))"

lemma read_batch_eq:
  "reads_ok env \<Longrightarrow> read_batch env off i seen events ls = events @ batch_of env seen (length events) (drop (unat off - i) ls)"
proof (induction ls arbitrary: i seen events)
  case (Cons l ls)
  show ?case
  proof (cases "i < unat off")
    case True
    then have "unat off - i = Suc (unat off - Suc i)" by simp
    then show ?thesis using Cons True by simp
  next
    case False
    then have "unat off - i = 0" "unat off - Suc i = 0" by simp_all
    then show ?thesis using Cons False
      by (cases "parse_event env (strip_cr l)") (simp_all add: Let_def)
  qed
qed simp

lemma batch_of_parsed: "(l, e) \<in> set (batch_of env seen n ls) \<Longrightarrow> parse_event env l = Ok e"
  by (induction env seen n ls rule: batch_of.induct) (auto split: sum.splits if_splits)

lemma length_batch_of: "length (batch_of env seen n ls) \<le> length ls"
  by (induction env seen n ls rule: batch_of.induct) (auto split: sum.split intro: le_SucI)

lemma batch_of_covers:
  "k < length (batch_of env seen n ls) \<Longrightarrow> parse_event env (strip_cr (ls ! k)) = Ok e \<Longrightarrow>
     ae_event_id e \<in> seen \<union> (\<lambda>p. ae_event_id (snd p)) ` set (batch_of env seen n ls)"
proof (induction env seen n ls arbitrary: k rule: batch_of.induct)
  case (2 env seen n l ls)
  show ?case
  proof (cases k)
    case 0
    then show ?thesis using 2(5) by simp
  next
    case (Suc k')
    show ?thesis
    proof (cases "parse_event env (strip_cr l)")
      case (Inl err)
      then show ?thesis using 2(1) [OF Inl, of k'] 2(4,5) Suc by simp
    next
      case (Inr e')
      then show ?thesis using 2(2) [OF Inr, of k'] 2(3) [OF Inr, of k'] 2(4,5) Suc
        by (auto split: if_splits)
    qed
  qed
qed simp

text \<open>An event with this identifier was sent; all events of the first lines were.\<close>

definition id_sent :: "file_env \<Rightarrow> string set \<Rightarrow> AuditEventId \<Rightarrow> bool" where
  "id_sent env sent x \<longleftrightarrow> (\<exists>l\<in>sent. \<exists>e. parse_event env l = Ok e \<and> ae_event_id e = x)"

lemma id_sent_mono: "id_sent env sent x \<Longrightarrow> sent \<subseteq> sent' \<Longrightarrow> id_sent env sent' x"
  by (auto simp: id_sent_def)

definition covered :: "file_env \<Rightarrow> nat \<Rightarrow> string list \<Rightarrow> string set \<Rightarrow> bool" where
  "covered env n ls sent \<longleftrightarrow> (\<forall>i e. i < n \<longrightarrow> i < length ls \<longrightarrow> parse_event env (strip_cr (ls ! i)) = Ok e \<longrightarrow>
     id_sent env sent (ae_event_id e))"

lemma covered_batch:
  assumes "covered env n ls sent" and "m \<le> length (batch_of env {} 0 (drop n ls))"
  shows "covered env (n + m) ls (sent \<union> fst ` set (batch_of env {} 0 (drop n ls)))"
  unfolding covered_def
proof (intro allI impI)
  fix i e
  assume i: "i < n + m" "i < length ls" and e: "parse_event env (strip_cr (ls ! i)) = Ok e"
  show "id_sent env (sent \<union> fst ` set (batch_of env {} 0 (drop n ls))) (ae_event_id e)"
  proof (cases "i < n")
    case True
    then show ?thesis using assms(1) i e id_sent_mono [of env sent] by (auto simp: covered_def)
  next
    case False
    then have "i - n < length (batch_of env {} 0 (drop n ls))" "drop n ls ! (i - n) = ls ! i" using i assms(2) by auto
    with batch_of_covers [of "i - n" env "{}" 0 "drop n ls" e] e obtain l e'
      where "(l, e') \<in> set (batch_of env {} 0 (drop n ls))" "ae_event_id e' = ae_event_id e" by force
    then show ?thesis using batch_of_parsed [of l e'] by (force simp: id_sent_def)
  qed
qed

text \<open>Runs of the replication to S3: the log grows, rounds take place with any outcome of the uploads, and the
  process may be started again from the checkpoint on the disk.\<close>

inductive replicates :: "file_env \<Rightarrow> replication \<Rightarrow> disk \<Rightarrow> string set \<Rightarrow> bool" for env where
  begin_run: "dk_log d = Some [] \<Longrightarrow> dk_checkpoint_s3 d = None \<Longrightarrow> replicates env (replication_start None) d {}"
| grow: "replicates env r d sent \<Longrightarrow> dk_log d = Some ls \<Longrightarrow> length (ls @ new) < 2 ^ 64 \<Longrightarrow>
    replicates env r (d\<lparr>dk_log := Some (ls @ new)\<rparr>) sent"
| round: "replicates env r d sent \<Longrightarrow> s3_round env upload r d = (batch, r', d') \<Longrightarrow>
    replicates env r' d' (sent \<union> set batch)"
| restart: "replicates env r d sent \<Longrightarrow> replicates env (replication_start (dk_checkpoint_s3 d)) d sent"

definition replication_inv :: "file_env \<Rightarrow> replication \<Rightarrow> disk \<Rightarrow> string set \<Rightarrow> bool" where
  "replication_inv env r d sent \<longleftrightarrow> (\<exists>ls. dk_log d = Some ls \<and> length ls < 2 ^ 64 \<and> unat (rp_offset r) \<le> length ls
     \<and> covered env (unat (rp_offset r)) ls sent \<and> unat (read_checkpoint (dk_checkpoint_s3 d)) \<le> unat (rp_offset r))"

lemma read_checkpoint_show: "read_checkpoint (Some (show_u64 n)) = n"
proof -
  have "trim (show_u64 n) = show_u64 n"
    using show_u64_props [of n] by (intro trim_solid) (auto simp: list_all_iff is_ascii_alphanumeric_solid is_ascii_digit_alphanumeric)
  then show ?thesis by (simp add: read_checkpoint_def)
qed

lemma covered_mono: "covered env n ls sent \<Longrightarrow> m \<le> n \<Longrightarrow> covered env m ls sent"
  unfolding covered_def by (meson order.strict_trans2)

lemma s3_round_inv:
  assumes reads: "reads_ok env" and inv: "replication_inv env r d sent" and rnd: "s3_round env upload r d = (batch, r', d')"
  shows "replication_inv env r' d' (sent \<union> set batch)"
proof -
  obtain ls where ls: "dk_log d = Some ls" "length ls < 2 ^ 64" "unat (rp_offset r) \<le> length ls"
    and cov: "covered env (unat (rp_offset r)) ls sent"
    and chk: "unat (read_checkpoint (dk_checkpoint_s3 d)) \<le> unat (rp_offset r)"
    using inv by (auto simp: replication_inv_def)
  define b where "b = batch_of env {} 0 (drop (unat (rp_offset r)) ls)"
  have b: "next_batch env (rp_offset r) d = b"
    using ls(1) reads by (simp add: next_batch_def read_batch_eq b_def)
  show ?thesis
  proof (cases "batch = []")
    case True
    then have "rp_offset r' = rp_offset r" "d' = d"
      using rnd b by (auto simp: s3_round_def Let_def split: if_splits prod.splits bool.splits)
    then show ?thesis using True inv by (simp add: replication_inv_def)
  next
    case False
    then have batch: "batch = map fst b" and off: "rp_offset r' = rp_offset r + of_nat (length b)"
      and log: "dk_log d' = dk_log d"
      and chk': "dk_checkpoint_s3 d' = (if fe_io env WriteCheckpoint = None then Some (show_u64 (rp_offset r')) else dk_checkpoint_s3 d)"
      using rnd b by (auto simp: s3_round_def Let_def split: if_splits prod.splits bool.splits)
    have len: "unat (rp_offset r) + length b \<le> length ls"
      using length_batch_of [of env "{}" 0 "drop (unat (rp_offset r)) ls"] ls(3) by (simp add: b_def)
    then have "unat (rp_offset r) + length b < 2 ^ 64" using ls(2) by linarith
    then have unat: "unat (rp_offset r') = unat (rp_offset r) + length b"
      unfolding off by (simp add: unat_word_ariths unat_of_nat)
    have "covered env (unat (rp_offset r')) ls (sent \<union> set batch)"
      using covered_batch [OF cov, of "length b"] by (simp add: unat batch b_def)
    then show ?thesis
      using ls log chk' chk unat len by (auto simp: replication_inv_def read_checkpoint_show)
  qed
qed

lemma replicates_inv: "replicates env r d sent \<Longrightarrow> reads_ok env \<Longrightarrow> replication_inv env r d sent"
proof (induction rule: replicates.induct)
  case (begin_run d)
  then show ?case by (simp add: replication_inv_def replication_start_def read_checkpoint_def covered_def)
next
  case (grow r d sent ls new)
  then have inv: "replication_inv env r d sent" by simp
  then have "covered env (unat (rp_offset r)) (ls @ new) sent" "unat (rp_offset r) \<le> length ls"
    using grow.hyps(2) by (auto simp: replication_inv_def covered_def nth_append)
  then show ?case using inv grow.hyps(2,3) by (auto simp: replication_inv_def)
next
  case (round r d sent upload batch r' d')
  then show ?case using s3_round_inv by simp
next
  case (restart r d sent)
  then have inv: "replication_inv env r d sent" by simp
  then show ?case by (auto simp: replication_inv_def replication_start_def intro: covered_mono)
qed

text \<open>(C39) Replication delivers at least once: at every moment, an event was sent for each line before the
  current offset that holds an event, whatever uploads fail, checkpoints are not written, and restarts
  happen, as long as the log only grows. When a batch fails six times it is tried again in the next round.
  But lines that do not parse, or repeat an identifier, are not counted in the offset, which then lags
  behind: with such a line the same event is sent again. And if the log is made shorter, nothing is
  sent until it has grown beyond the old offset.\<close>

theorem replication_at_least_once:
  assumes "replicates env r d sent" and "reads_ok env"
  shows "(case dk_log d of None \<Rightarrow> False | Some ls \<Rightarrow> unat (rp_offset r) \<le> length ls
      \<and> (\<forall>i e. i < unat (rp_offset r) \<longrightarrow> parse_event env (strip_cr (ls ! i)) = Ok e \<longrightarrow> id_sent env sent (ae_event_id e)))
    \<and> (case s3_round env (\<lambda>_ _. Err err) r d of (batch, r', d') \<Rightarrow> batch = [] \<and> rp_offset r' = rp_offset r \<and> d' = d)
    \<and> (\<forall>bad ok e. parse_event env (strip_cr bad) = Err err \<longrightarrow> parse_event env ok = Ok e \<longrightarrow> strip_cr ok = ok \<longrightarrow>
        (let d1 = d\<lparr>dk_log := Some [bad, ok], dk_checkpoint_s3 := None\<rparr>;
             (b1, r1, d2) = s3_round env (\<lambda>_. upload_batch_to_s3) (replication_start None) d1;
             (b2, _, _) = s3_round env (\<lambda>_. upload_batch_to_s3) r1 d2
         in b1 = [ok] \<and> b2 = [ok]))
    \<and> (\<forall>ls. length ls \<le> unat (rp_offset r) \<longrightarrow> fst (s3_round env upload r (d\<lparr>dk_log := Some ls\<rparr>)) = [])"
proof (intro conjI allI impI)
  show "case dk_log d of None \<Rightarrow> False | Some ls \<Rightarrow> unat (rp_offset r) \<le> length ls
      \<and> (\<forall>i e. i < unat (rp_offset r) \<longrightarrow> parse_event env (strip_cr (ls ! i)) = Ok e \<longrightarrow> id_sent env sent (ae_event_id e))"
    using replicates_inv [OF assms] by (auto simp: replication_inv_def covered_def)
  show "case s3_round env (\<lambda>_ _. Err err) r d of (batch, r', d') \<Rightarrow> batch = [] \<and> rp_offset r' = rp_offset r \<and> d' = d"
    by (simp add: s3_round_def Let_def eval_nat_numeral)
next
  fix bad ok e
  assume *: "parse_event env (strip_cr bad) = Err err" "parse_event env ok = Ok e" "strip_cr ok = ok"
  show "let d1 = d\<lparr>dk_log := Some [bad, ok], dk_checkpoint_s3 := None\<rparr>;
             (b1, r1, d2) = s3_round env (\<lambda>_. upload_batch_to_s3) (replication_start None) d1;
             (b2, _, _) = s3_round env (\<lambda>_. upload_batch_to_s3) r1 d2
         in b1 = [ok] \<and> b2 = [ok]"
    using * assms(2) by (simp add: s3_round_def next_batch_def read_batch_eq replication_start_def read_checkpoint_def
        upload_batch_to_s3_def Let_def eval_nat_numeral)
next
  fix ls :: "string list"
  assume "length ls \<le> unat (rp_offset r)"
  then show "fst (s3_round env upload r (d\<lparr>dk_log := Some ls\<rparr>)) = []"
    using assms(2) by (simp add: s3_round_def next_batch_def read_batch_eq)
qed

section \<open>An environment that satisfies the laws\<close>

definition hex_pair :: "char \<Rightarrow> string" where
  "hex_pair c = [hex_char (of_char c div 16), hex_char (of_char c mod 16)]"

definition demo_hex :: "string \<Rightarrow> string" where
  "demo_hex b = concat (map hex_pair b)"

definition hex_value :: "char \<Rightarrow> nat option" where
  "hex_value c = map_of (map (\<lambda>d. (hex_char d, d)) [0..<16]) c"

fun demo_unhex :: "string \<Rightarrow> string + string" where
  "demo_unhex [] = Ok []"
| "demo_unhex [x] = Err ''Odd number of digits''"
| "demo_unhex (x # y # s) =
     (case (hex_value x, hex_value y) of
        (Some a, Some b) \<Rightarrow> result_bind (demo_unhex s) (\<lambda>r. Ok (char_of (16 * a + b) # r))
      | _ \<Rightarrow> Err ''Invalid character'')"

lemma hex_value_digit: "d < 16 \<Longrightarrow> hex_value (hex_char d) = Some d"
  unfolding hex_value_def
  by (rule map_of_is_SomeI) (auto simp: distinct_map comp_def inj_on_def intro: hex_char_inj)

lemma hex_digit_chars: "d < 16 \<Longrightarrow> hex_char d \<in> hex_chars"
proof -
  have "list_all (\<lambda>d. hex_char d \<in> hex_chars) [0..<16]" by code_simp
  then show "d < 16 \<Longrightarrow> hex_char d \<in> hex_chars" by (simp add: list_all_iff)
qed

lemma hex_value_chars: "hex_value c = Some d \<Longrightarrow> c \<in> hex_chars"
  by (auto simp: hex_value_def hex_digit_chars dest!: map_of_SomeD)

lemma demo_unhex_hex: "demo_unhex (demo_hex b) = Ok b"
proof (induction b)
  case (Cons c b)
  have "of_char c div 16 < (16 :: nat)" using nat_of_char_less_256 [of c] by linarith
  moreover have "16 * (of_char c div 16) + of_char c mod 16 = (of_char c :: nat)" by simp
  ultimately show ?case using Cons by (simp add: demo_hex_def hex_pair_def hex_value_digit)
qed (simp add: demo_hex_def)

lemma demo_unhex_chars: "demo_unhex s = Ok b \<Longrightarrow> set s \<subseteq> hex_chars"
proof (induction s arbitrary: b rule: demo_unhex.induct)
  case (3 x y s)
  then show ?case by (fastforce split: option.splits dest: hex_value_chars)
qed simp_all

lemma demo_hex_chars: "set (demo_hex b) \<subseteq> hex_chars"
  using demo_unhex_chars [OF demo_unhex_hex] .

text \<open>One event, printed as an empty object; encryption puts the key before the text.\<close>

definition demo_env :: file_env where
  "demo_env = \<lparr>fe_io = (\<lambda>_. None),
     fe_to_json = (\<lambda>e. if e = demo_event ''ok'' then Ok ''{}'' else Err ''unsupported''),
     fe_from_json = (\<lambda>s. if s = ''{}'' then Ok (demo_event ''ok'') else Err ''expected value''),
     fe_encrypt = (\<lambda>k n p. Ok (k @ p)), fe_decrypt = (\<lambda>k n c. strip_prefix k c),
     fe_hex_encode = demo_hex, fe_hex_decode = demo_unhex, fe_utf8_error = (\<lambda>_. ''invalid utf-8''),
     fe_nonce = (\<lambda>_. ''abcdefghijkl'')\<rparr>"

lemma demo_env_laws: "file_laws demo_env" "reads_ok demo_env"
proof -
  have "CHR ''{'' \<notin> hex_chars" by (rule hex_chars_no_sep)
  then show "file_laws demo_env"
    by (auto simp: file_laws_def demo_env_def demo_unhex_hex demo_unhex_chars demo_hex_def [of "[]"]
        dest: subsetD [OF demo_hex_chars] demo_unhex_chars)
  show "reads_ok demo_env" by (simp add: reads_ok_def demo_env_def)
qed

definition demo_disk :: "string list \<Rightarrow> disk" where
  "demo_disk ls = \<lparr>dk_log = Some ls, dk_temp = None, dk_old = None, dk_checkpoint_s3 = None, dk_checkpoint_postgres = None\<rparr>"

definition demo_file :: FileAuditLog where
  "demo_file = \<lparr>fl_max_memory_lines = 10, fl_encryption = None\<rparr>"

lemma demo_plain: "list_all2 (\<lambda>e j. fe_to_json demo_env e = Ok j) [demo_event ''ok''] [''{}'']"
  by (simp add: demo_env_def)

text \<open>The log that is encrypted and whose key is rotated in the examples.\<close>

definition demo_encrypted :: "FileAuditLog \<times> disk" where
  "demo_encrypted = snd (encrypt_at_rest demo_env ''k'' demo_file (demo_disk [''{}'']))"

lemma demo_encrypt: "encrypt_at_rest demo_env ''k'' demo_file (demo_disk [''{}'']) = (Ok 1, demo_encrypted)"
proof -
  have "fst (encrypt_at_rest demo_env ''k'' demo_file (demo_disk [''{}''])) = Ok 1" by code_simp
  then show ?thesis by (simp add: demo_encrypted_def prod_eq_iff)
qed

lemma demo_sealed: "demo_encrypted = (l, d) \<Longrightarrow> sealed_log demo_env [demo_event ''ok''] l d"
  using encrypt_seals [OF demo_env_laws _ demo_plain, of "demo_disk [''{}'']" "''k''" demo_file 1 l d] demo_encrypt
  by (simp add: demo_disk_def)

theorem encrypted_log_roundtrip_witness:
  "decrypt_on_read demo_env (fst demo_encrypted) (snd demo_encrypted) = Ok [demo_event ''ok'']"
proof -
  obtain l d where e: "demo_encrypted = (l, d)" by fastforce
  have sealed: "sealed_log demo_env [demo_event ''ok''] l d" by (rule demo_sealed [OF e])
  then obtain c where c: "fl_encryption l = Some c" by (auto simp: sealed_log_def)
  have fields: "fe_io demo_env op = None" "fe_to_json demo_env (demo_event ''ok'') = Ok ''{}''"
    "fe_encrypt demo_env k n p = Ok (k @ p)" for op k n p by (simp_all add: demo_env_def)
  have "fst (rotate_encryption_key demo_env ''z'' l d) = Ok 1"
    unfolding rotate_encryption_key_def
    by (simp add: c decrypt_sealed_log [OF demo_env_laws sealed] io_try_def fields serialize_event_def Let_def)
  then have "rotate_encryption_key demo_env ''z'' l d = (Ok 1, snd (rotate_encryption_key demo_env ''z'' l d))"
    by (simp add: prod_eq_iff)
  then obtain l' d' where "rotate_encryption_key demo_env ''z'' l d = (Ok 1, l', d')"
    by (cases "snd (rotate_encryption_key demo_env ''z'' l d)") simp
  from encrypted_log_roundtrip [OF demo_env_laws _ demo_plain _ demo_encrypt [unfolded e] this]
  show ?thesis by (simp add: e demo_disk_def)
qed


theorem replication_at_least_once_witness:
  "case s3_round demo_env (\<lambda>_. upload_batch_to_s3) (replication_start None) (demo_disk [''{}'']) of
     (batch, r, d) \<Rightarrow> id_sent demo_env ({} \<union> set batch) (ae_event_id (demo_event ''ok''))"
proof -
  obtain batch r d where round: "s3_round demo_env (\<lambda>_. upload_batch_to_s3) (replication_start None) (demo_disk [''{}''])
      = (batch, r, d)" by (metis prod_cases3)
  have "replicates demo_env (replication_start None) (demo_disk []) {}"
    by (rule begin_run) (simp_all add: demo_disk_def)
  from grow [OF this, of "[]" "[''{}'']"] have "replicates demo_env (replication_start None) (demo_disk [''{}'']) {}"
    by (simp add: demo_disk_def)
  from replicates.round [OF this round] have run: "replicates demo_env r d ({} \<union> set batch)" .
  have "rp_offset (fst (snd (s3_round demo_env (\<lambda>_. upload_batch_to_s3) (replication_start None) (demo_disk [''{}''])))) = 1"
    by code_simp
  moreover have "dk_log (snd (snd (s3_round demo_env (\<lambda>_. upload_batch_to_s3) (replication_start None) (demo_disk [''{}'']))))
      = Some [''{}'']" by code_simp
  moreover have "parse_event demo_env (strip_cr ''{}'') = Ok (demo_event ''ok'')"
    by (simp add: parse_event_def strip_cr_def demo_env_def)
  ultimately show ?thesis
    using replication_at_least_once [OF run demo_env_laws(2), of "QueryError []" "\<lambda>_. upload_batch_to_s3"] by (simp add: round)
qed

end
