(* ===== verification/Cluster.thy ===== *)
theory Cluster
  imports Rust_Str
begin

text \<open>
  The clustered service registry, \<open>abi/src/clustering.rs\<close>: nodes with their health, services with version vectors, and the
  merging of the services of another node. The clock is an argument, in seconds. The subtraction in \<open>is_timed_out\<close> wraps,
  as in a release build; a debug build panics instead. Each operation holds its lock from beginning to end and is one step.
\<close>

section \<open>Nodes and services\<close>

datatype HealthStatus = Healthy | Unhealthy | Unknown

fun HealthStatus_display :: "HealthStatus \<Rightarrow> string" where
  "HealthStatus_display Healthy = ''Healthy''"
| "HealthStatus_display Unhealthy = ''Unhealthy''"
| "HealthStatus_display Unknown = ''Unknown''"

record ServiceNode =
  sn_node_id :: string
  sn_address :: string
  sn_port :: u16
  sn_health_status :: HealthStatus
  sn_last_heartbeat :: u64
  sn_replication_lag_ms :: u64

definition ServiceNode_new :: "u64 \<Rightarrow> string \<Rightarrow> string \<Rightarrow> u16 \<Rightarrow> ServiceNode" where
  "ServiceNode_new now node_id address port = \<lparr>sn_node_id = node_id, sn_address = address, sn_port = port,
     sn_health_status = Unknown, sn_last_heartbeat = now, sn_replication_lag_ms = 0\<rparr>"

definition update_heartbeat :: "u64 \<Rightarrow> ServiceNode \<Rightarrow> ServiceNode" where
  "update_heartbeat now n = n\<lparr>sn_last_heartbeat := now, sn_health_status := Healthy\<rparr>"

definition is_timed_out :: "u64 \<Rightarrow> u64 \<Rightarrow> ServiceNode \<Rightarrow> bool" where
  "is_timed_out now timeout_secs n \<longleftrightarrow> now - sn_last_heartbeat n > timeout_secs"

record ClusterService =
  cs_service_id :: string
  cs_name :: string
  cs_version :: string
  cs_node_id :: string
  cs_address :: string
  cs_port :: u16
  cs_metadata :: "(string, string) hashmap"
  cs_registered_at :: u64
  cs_version_vector :: "(string, u64) hashmap"

definition ClusterService_new :: "u64 \<Rightarrow> string \<Rightarrow> string \<Rightarrow> string \<Rightarrow> string \<Rightarrow> string \<Rightarrow> u16 \<Rightarrow> ClusterService" where
  "ClusterService_new now service_id name version node_id address port =
     \<lparr>cs_service_id = service_id, cs_name = name, cs_version = version, cs_node_id = node_id, cs_address = address,
      cs_port = port, cs_metadata = [], cs_registered_at = now, cs_version_vector = []\<rparr>"

definition cs_with_metadata :: "string \<Rightarrow> string \<Rightarrow> ClusterService \<Rightarrow> ClusterService" where
  "cs_with_metadata k v s = s\<lparr>cs_metadata := hm_insert k v (cs_metadata s)\<rparr>"

datatype ConsensusType = Raft | EventualConsistency

record ServiceConflict =
  sc_service_id :: string
  sc_vector_a :: "(string, u64) hashmap"
  sc_vector_b :: "(string, u64) hashmap"

record ClusterStatus =
  ct_total_nodes :: nat
  ct_healthy_nodes :: nat
  ct_total_services :: nat
  ct_consensus_type :: ConsensusType

record ServiceCluster =
  local_node_id :: string
  cl_nodes :: "(string, ServiceNode) hashmap"
  cl_services :: "(string, ClusterService) hashmap"
  quorum_size :: nat
  consensus_type :: ConsensusType
  health_check_timeout_secs :: u64

definition ServiceCluster_new :: "string \<Rightarrow> ConsensusType \<Rightarrow> nat \<Rightarrow> ServiceCluster" where
  "ServiceCluster_new node_id consensus quorum = \<lparr>local_node_id = node_id, cl_nodes = [], cl_services = [],
     quorum_size = quorum, consensus_type = consensus, health_check_timeout_secs = 30\<rparr>"

section \<open>Operations on the registry\<close>

definition add_node :: "ServiceNode \<Rightarrow> ServiceCluster \<Rightarrow> ServiceCluster" where
  "add_node n c = c\<lparr>cl_nodes := hm_insert (sn_node_id n) n (cl_nodes c)\<rparr>"

definition register_service :: "ClusterService \<Rightarrow> ServiceCluster \<Rightarrow> ServiceCluster" where
  "register_service s c = c\<lparr>cl_services := hm_insert (cs_service_id s) s (cl_services c)\<rparr>"

definition deregister_service :: "string \<Rightarrow> ServiceCluster \<Rightarrow> ServiceCluster" where
  "deregister_service service_id c = c\<lparr>cl_services := AList.delete service_id (cl_services c)\<rparr>"

definition discover_services :: "string \<Rightarrow> ServiceCluster \<Rightarrow> ClusterService list" where
  "discover_services name c = filter (\<lambda>s. cs_name s = name) (map snd (cl_services c))"

definition get_service :: "string \<Rightarrow> ServiceCluster \<Rightarrow> ClusterService option" where
  "get_service service_id c = hm_get (cl_services c) service_id"

definition list_services :: "ServiceCluster \<Rightarrow> ClusterService list" where
  "list_services c = map snd (cl_services c)"

definition health_check :: "u64 \<Rightarrow> ServiceCluster \<Rightarrow> ServiceCluster" where
  "health_check now c = c\<lparr>cl_nodes := map (\<lambda>(k, n).
     (k, if is_timed_out now (health_check_timeout_secs c) n then n\<lparr>sn_health_status := Unhealthy\<rparr> else n)) (cl_nodes c)\<rparr>"

definition get_healthy_nodes :: "ServiceCluster \<Rightarrow> ServiceNode list" where
  "get_healthy_nodes c = filter (\<lambda>n. sn_health_status n = Healthy) (map snd (cl_nodes c))"

definition get_cluster_status :: "ServiceCluster \<Rightarrow> ClusterStatus" where
  "get_cluster_status c = \<lparr>ct_total_nodes = length (cl_nodes c),
     ct_healthy_nodes = length (filter (\<lambda>n. sn_health_status n = Healthy) (map snd (cl_nodes c))),
     ct_total_services = length (cl_services c), ct_consensus_type = consensus_type c\<rparr>"

text \<open>\<open>sync_nodes\<close> visits the nodes and does nothing yet, and \<open>detect_conflicts\<close> reports nothing.\<close>

definition sync_nodes :: "ServiceCluster \<Rightarrow> ServiceCluster" where
  "sync_nodes c = c"

definition detect_conflicts_stub :: "ServiceCluster \<Rightarrow> ServiceConflict list" where
  "detect_conflicts_stub c = []"

section \<open>Version vectors\<close>

definition vv_get :: "(string, u64) hashmap \<Rightarrow> string \<Rightarrow> u64" where
  "vv_get v k = (case hm_get v k of None \<Rightarrow> 0 | Some n \<Rightarrow> n)"

text \<open>The loop over the keys, which stops at the first smaller entry.\<close>

fun dominates_loop :: "(string, u64) hashmap \<Rightarrow> (string, u64) hashmap \<Rightarrow> string list \<Rightarrow> bool \<Rightarrow> bool" where
  "dominates_loop a b [] a_strictly_greater = a_strictly_greater"
| "dominates_loop a b (key # keys) a_strictly_greater =
     (if vv_get a key < vv_get b key then False
      else dominates_loop a b keys (a_strictly_greater \<or> vv_get a key > vv_get b key))"

definition version_vector_dominates :: "(string, u64) hashmap \<Rightarrow> (string, u64) hashmap \<Rightarrow> bool" where
  "version_vector_dominates a b = dominates_loop a b (remdups (hm_keys a @ hm_keys b)) False"

text \<open>Equality of hash maps\<close>

definition hm_eq :: "('k, 'v) hashmap \<Rightarrow> ('k, 'v) hashmap \<Rightarrow> bool" where
  "hm_eq a b \<longleftrightarrow> list_all (\<lambda>k. hm_get a k = hm_get b k) (hm_keys a @ hm_keys b)"

definition detect_version_conflict_static :: "(string, u64) hashmap \<Rightarrow> (string, u64) hashmap
    \<Rightarrow> ((string, u64) hashmap \<times> (string, u64) hashmap) option" where
  "detect_version_conflict_static local_vector remote_vector =
     (let local_dominates = version_vector_dominates local_vector remote_vector;
          remote_dominates = version_vector_dominates remote_vector local_vector
      in if \<not> local_dominates \<and> \<not> remote_dominates \<and> \<not> hm_eq local_vector remote_vector
         then Some (local_vector, remote_vector) else None)"

definition detect_version_conflict :: "ClusterService \<Rightarrow> ServiceCluster \<Rightarrow> ServiceConflict option" where
  "detect_version_conflict remote c =
     (case hm_get (cl_services c) (cs_service_id remote) of
        Some l \<Rightarrow> map_option (\<lambda>(a, b). \<lparr>sc_service_id = cs_service_id remote, sc_vector_a = a, sc_vector_b = b\<rparr>)
          (detect_version_conflict_static (cs_version_vector l) (cs_version_vector remote))
      | None \<Rightarrow> None)"

definition resolve_conflict_last_write_wins :: "ClusterService \<Rightarrow> ClusterService \<Rightarrow> ClusterService" where
  "resolve_conflict_last_write_wins l r = (if cs_registered_at r \<ge> cs_registered_at l then r else l)"

definition sync_one :: "ServiceCluster \<Rightarrow> ClusterService \<Rightarrow> ServiceCluster" where
  "sync_one c remote =
     (case hm_get (cl_services c) (cs_service_id remote) of
        Some l \<Rightarrow>
          if detect_version_conflict_static (cs_version_vector l) (cs_version_vector remote) \<noteq> None
          then (let resolved = resolve_conflict_last_write_wins l remote
                in c\<lparr>cl_services := hm_insert (cs_service_id resolved) resolved (cl_services c)\<rparr>)
          else c
      | None \<Rightarrow> c\<lparr>cl_services := hm_insert (cs_service_id remote) remote (cl_services c)\<rparr>)"

definition sync_from_remote_services :: "ClusterService list \<Rightarrow> ServiceCluster \<Rightarrow> ServiceCluster" where
  "sync_from_remote_services remote_services c = foldl sync_one c remote_services"

section \<open>The order of version vectors\<close>

definition vv_le :: "(string, u64) hashmap \<Rightarrow> (string, u64) hashmap \<Rightarrow> bool" where
  "vv_le a b \<longleftrightarrow> (\<forall>k. vv_get a k \<le> vv_get b k)"

lemma dominates_loop_iff:
  "dominates_loop a b ks s \<longleftrightarrow>
     (\<forall>k\<in>set ks. vv_get b k \<le> vv_get a k) \<and> (s \<or> (\<exists>k\<in>set ks. vv_get b k < vv_get a k))"
  by (induction ks arbitrary: s) (auto simp: not_less)

lemma vv_get_other: "k \<notin> set (hm_keys v) \<Longrightarrow> vv_get v k = 0"
  by (simp add: vv_get_def map_of_eq_None_iff [THEN iffD2])

lemma dominates_iff: "version_vector_dominates a b \<longleftrightarrow> vv_le b a \<and> \<not> vv_le a b"
proof -
  have "vv_get b k \<le> vv_get a k" "\<not> vv_get b k < vv_get a k" if "k \<notin> set (hm_keys a @ hm_keys b)" for k
    using that vv_get_other [of k a] vv_get_other [of k b] by simp_all
  then show ?thesis
    unfolding version_vector_dominates_def dominates_loop_iff vv_le_def set_remdups not_all not_le by blast
qed

text \<open>Dominance is the strict part of a preorder, as the library knows it.\<close>

interpretation version_vectors: preordering vv_le "\<lambda>a b. version_vector_dominates b a"
proof
  show "vv_le a a" for a by (simp add: vv_le_def)
  show "vv_le a c" if "vv_le a b" "vv_le b c" for a b c
    using that order_trans unfolding vv_le_def by blast
  show "version_vector_dominates b a \<longleftrightarrow> vv_le a b \<and> \<not> vv_le b a" for a b by (rule dominates_iff)
qed

lemma hm_eq_iff: "hm_eq a b \<longleftrightarrow> hm_get a = hm_get b"
proof
  assume eq: "hm_eq a b"
  show "hm_get a = hm_get b"
  proof
    fix k
    show "hm_get a k = hm_get b k"
    proof (cases "k \<in> set (hm_keys a @ hm_keys b)")
      case True
      then show ?thesis using eq by (simp add: hm_eq_def list_all_iff)
    next
      case False
      then show ?thesis by (simp add: map_of_eq_None_iff [THEN iffD2])
    qed
  qed
qed (simp add: hm_eq_def list_all_iff)

section \<open>Merging\<close>

definition concurrent :: "ClusterService \<Rightarrow> ClusterService \<Rightarrow> bool" where
  "concurrent l r \<longleftrightarrow> detect_version_conflict_static (cs_version_vector l) (cs_version_vector r) \<noteq> None"

lemma concurrent_iff:
  "concurrent l r \<longleftrightarrow> \<not> version_vector_dominates (cs_version_vector l) (cs_version_vector r)
     \<and> \<not> version_vector_dominates (cs_version_vector r) (cs_version_vector l)
     \<and> hm_get (cs_version_vector l) \<noteq> hm_get (cs_version_vector r)"
  by (simp add: concurrent_def detect_version_conflict_static_def hm_eq_iff)

lemma concurrent_sym: "concurrent l r \<longleftrightarrow> concurrent r l"
  by (auto simp: concurrent_iff)

text \<open>What becomes of one entry.\<close>

fun merge_entry :: "ClusterService option \<Rightarrow> ClusterService option \<Rightarrow> ClusterService option" where
  "merge_entry None r = r"
| "merge_entry l None = l"
| "merge_entry (Some l) (Some r) = Some (if concurrent l r then resolve_conflict_last_write_wins l r else l)"

lemma merge_entry_None [simp]: "merge_entry l None = l"
  by (cases l) auto

text \<open>Services are stored under their identifiers, each once.\<close>

definition cluster_inv :: "ServiceCluster \<Rightarrow> bool" where
  "cluster_inv c \<longleftrightarrow> distinct (hm_keys (cl_services c)) \<and> (\<forall>(k, s)\<in>set (cl_services c). cs_service_id s = k)"

lemma cluster_inv_get: "cluster_inv c \<Longrightarrow> hm_get (cl_services c) k = Some s \<Longrightarrow> cs_service_id s = k"
  by (auto simp: cluster_inv_def dest: map_of_SomeD)

lemma cluster_inv_insert:
  "cluster_inv c \<Longrightarrow> cl_services c' = hm_insert (cs_service_id s) s (cl_services c) \<Longrightarrow> cluster_inv c'"
  using set_update_subset [of "cs_service_id s" s "cl_services c"] by (auto simp: cluster_inv_def distinct_update)

lemma cluster_inv_same: "cluster_inv c \<Longrightarrow> cl_services c' = cl_services c \<Longrightarrow> cluster_inv c'"
  by (simp add: cluster_inv_def)

lemma cluster_inv_delete: "cluster_inv c \<Longrightarrow> cl_services c' = AList.delete i (cl_services c) \<Longrightarrow> cluster_inv c'"
  by (auto simp: cluster_inv_def distinct_map_filter AList.delete_eq)

lemma sync_one_get:
  assumes "cluster_inv c"
  shows "get_service i (sync_one c r) = merge_entry (get_service i c) (if i = cs_service_id r then Some r else None)"
    and "cluster_inv (sync_one c r)"
proof -
  show "get_service i (sync_one c r) = merge_entry (get_service i c) (if i = cs_service_id r then Some r else None)"
  proof (cases "hm_get (cl_services c) (cs_service_id r)")
    case None
    then show ?thesis by (auto simp: sync_one_def get_service_def update_conv')
  next
    case (Some l)
    then have l: "cs_service_id l = cs_service_id r" using cluster_inv_get [OF assms] by simp
    then show ?thesis using Some
      by (auto simp: sync_one_def get_service_def update_conv' concurrent_def resolve_conflict_last_write_wins_def Let_def)
  qed
  show "cluster_inv (sync_one c r)"
  proof (cases "hm_get (cl_services c) (cs_service_id r)")
    case None
    then show ?thesis by (intro cluster_inv_insert [OF assms, of _ r]) (simp add: sync_one_def)
  next
    case (Some l)
    let ?new = "resolve_conflict_last_write_wins l r"
    show ?thesis
    proof (cases "detect_version_conflict_static (cs_version_vector l) (cs_version_vector r)")
      case None
      then show ?thesis using Some assms by (simp add: sync_one_def)
    next
      case (Some w)
      then show ?thesis using \<open>hm_get (cl_services c) (cs_service_id r) = Some l\<close>
        by (intro cluster_inv_insert [OF assms, of _ ?new]) (simp add: sync_one_def Let_def)
    qed
  qed
qed

definition by_id :: "ClusterService list \<Rightarrow> string \<rightharpoonup> ClusterService" where
  "by_id ss = map_of (map (\<lambda>s. (cs_service_id s, s)) ss)"

lemma sync_get:
  assumes "cluster_inv c" and "distinct (map cs_service_id rs)"
  shows "get_service i (sync_from_remote_services rs c) = merge_entry (get_service i c) (by_id rs i)
    \<and> cluster_inv (sync_from_remote_services rs c)"
  using assms
proof (induction rs arbitrary: c)
  case (Cons r rs)
  have "sync_from_remote_services (r # rs) c = sync_from_remote_services rs (sync_one c r)"
    by (simp add: sync_from_remote_services_def)
  moreover have "cs_service_id r = i \<Longrightarrow> by_id rs i = None"
    using Cons.prems(2) by (auto simp: by_id_def map_of_eq_None_iff comp_def)
  ultimately show ?case
    using Cons.IH [OF sync_one_get(2) [OF Cons.prems(1)]] sync_one_get(1) [OF Cons.prems(1), of i r] Cons.prems(2)
    by (auto simp: by_id_def)
qed (simp add: sync_from_remote_services_def by_id_def)

lemma by_id_list: "cluster_inv c \<Longrightarrow> by_id (list_services c) i = get_service i c"
proof -
  assume inv: "cluster_inv c"
  have "map (\<lambda>s. (cs_service_id s, s)) (map snd (cl_services c)) = cl_services c"
    unfolding map_map using inv by (intro map_idI) (auto simp: cluster_inv_def)
  then show ?thesis by (simp add: by_id_def list_services_def get_service_def)
qed

text \<open>Clusters as they are made.\<close>

inductive cluster_run :: "ServiceCluster \<Rightarrow> bool" where
  "cluster_run (ServiceCluster_new node consensus quorum)"
| "cluster_run c \<Longrightarrow> cluster_run (add_node n c)"
| "cluster_run c \<Longrightarrow> cluster_run (register_service s c)"
| "cluster_run c \<Longrightarrow> cluster_run (deregister_service i c)"
| "cluster_run c \<Longrightarrow> cluster_run (health_check now c)"
| "cluster_run c \<Longrightarrow> cluster_run (sync_nodes c)"
| "cluster_run c \<Longrightarrow> cluster_run (sync_from_remote_services rs c)"

lemma foldl_sync_inv: "cluster_inv c \<Longrightarrow> cluster_inv (foldl sync_one c rs)"
  by (induction rs arbitrary: c) (auto intro: sync_one_get(2))

lemma cluster_run_inv: "cluster_run c \<Longrightarrow> cluster_inv c"
proof (induction rule: cluster_run.induct)
  case (1 node consensus quorum)
  show ?case by (simp add: cluster_inv_def ServiceCluster_new_def)
next
  case (2 c n)
  then show ?case by (intro cluster_inv_same [OF 2(2)]) (simp add: add_node_def)
next
  case (3 c s)
  then show ?case by (intro cluster_inv_insert [OF 3(2), of _ s]) (simp add: register_service_def)
next
  case (4 c i)
  then show ?case by (intro cluster_inv_delete [OF 4(2), of _ i]) (simp add: deregister_service_def)
next
  case (5 c now)
  then show ?case by (intro cluster_inv_same [OF 5(2)]) (simp add: health_check_def)
qed (simp_all add: sync_nodes_def sync_from_remote_services_def foldl_sync_inv)

text \<open>Two nodes that send each other what they have.\<close>

definition exchange :: "ServiceCluster \<Rightarrow> ServiceCluster \<Rightarrow> ServiceCluster \<times> ServiceCluster" where
  "exchange a b = (sync_from_remote_services (list_services b) a, sync_from_remote_services (list_services a) b)"

text \<open>(C21) When two nodes exchange their services, they agree on a service afterwards exactly if they agreed before, or only
  one of them had it, or their entries are concurrent and were registered at different times. In particular an entry that
  is newer by its version vector never replaces the older one, and concurrent entries of the same time are swapped.\<close>

theorem exchange_agreement:
  assumes "cluster_run a" and "cluster_run b" and "exchange a b = (a', b')"
  shows "get_service i a' = get_service i b' \<longleftrightarrow>
    (case (get_service i a, get_service i b) of
       (Some l, Some r) \<Rightarrow> l = r \<or> (concurrent l r \<and> cs_registered_at l \<noteq> cs_registered_at r)
     | _ \<Rightarrow> True)"
proof -
  note inv = cluster_run_inv [OF assms(1)] cluster_run_inv [OF assms(2)]
  have ids: "distinct (map cs_service_id (list_services c))" if c: "cluster_inv c" for c
  proof -
    have "map cs_service_id (list_services c) = hm_keys (cl_services c)"
      using c by (auto simp: list_services_def cluster_inv_def)
    then show ?thesis using c by (simp add: cluster_inv_def)
  qed
  have "get_service i a' = merge_entry (get_service i a) (get_service i b)"
    "get_service i b' = merge_entry (get_service i b) (get_service i a)"
    using assms(3) sync_get [OF inv(1) ids [OF inv(2)]] sync_get [OF inv(2) ids [OF inv(1)]] by_id_list inv
    by (auto simp: exchange_def)
  then show ?thesis
    using concurrent_sym
    by (auto simp: resolve_conflict_last_write_wins_def split: option.split)
qed

text \<open>Registration leaves the version vector as it is, so services that were created here are never concurrent.\<close>

lemma new_services_not_concurrent:
  "\<not> concurrent (ClusterService_new t i n v a b p) (ClusterService_new t' i' n' v' a' b' p')"
  by (simp add: concurrent_iff ClusterService_new_def)


theorem exchange_agreement_witness:
  "let s = (\<lambda>n t. (ClusterService_new t ''svc'' ''svc'' ''1.0.0'' n ''addr'' 80)\<lparr>cs_version_vector := [(n, 1)]\<rparr>);
       a = register_service (s ''a'' 7) (ServiceCluster_new ''a'' EventualConsistency 1);
       b = register_service (s ''b'' 7) (ServiceCluster_new ''b'' EventualConsistency 1)
   in get_service ''svc'' (fst (exchange a b)) \<noteq> get_service ''svc'' (snd (exchange a b))"
proof -
  define s where "s = (\<lambda>n t. (ClusterService_new t ''svc'' ''svc'' ''1.0.0'' n ''addr'' 80)\<lparr>cs_version_vector := [(n, 1)]\<rparr>)"
  define a where "a = register_service (s ''a'' 7) (ServiceCluster_new ''a'' EventualConsistency 1)"
  define b where "b = register_service (s ''b'' 7) (ServiceCluster_new ''b'' EventualConsistency 1)"
  have run: "cluster_run a" "cluster_run b" unfolding a_def b_def by (intro cluster_run.intros)+
  have get: "get_service ''svc'' a = Some (s ''a'' 7)" "get_service ''svc'' b = Some (s ''b'' 7)"
    by (simp_all add: a_def b_def s_def get_service_def register_service_def ServiceCluster_new_def ClusterService_new_def)
  have same_time: "cs_registered_at (s ''a'' 7) = cs_registered_at (s ''b'' 7)" and diff: "s ''a'' 7 \<noteq> s ''b'' 7"
    by (simp_all add: s_def ClusterService_new_def)
  have "get_service ''svc'' (fst (exchange a b)) \<noteq> get_service ''svc'' (snd (exchange a b))"
    using exchange_agreement [OF run prod.collapse [symmetric], of "''svc''"] get same_time diff by simp
  then show ?thesis by (simp add: a_def b_def s_def Let_def)
qed

end
