(* ===== verification/Service_Discovery.thy ===== *)
theory Service_Discovery
  imports Dep_Constraints
begin

text \<open>
  The discovery of services between plugins, \<open>abi/src/service_discovery.rs\<close>: a registry of descriptors with an index by
  interface and one by capability, filters with version bounds, and the choice of the best match. The three maps are behind
  three locks; an operation is one step here.
\<close>

section \<open>Types\<close>

record ServiceDescriptor =
  sd_name :: string
  sd_version :: string
  sd_interface_spec :: string
  sd_provider_plugin :: string
  sd_idl :: "string option"
  sd_capabilities :: "string list"
  sd_metadata :: "(string, string) hashmap"

record ServiceFilter =
  sf_interface :: "string option"
  sf_min_version :: "string option"
  sf_max_version :: "string option"
  sf_capability :: "string option"
  sf_provider :: "string option"

datatype VersionCompatibility = Compatible | Incompatible string

datatype ServiceDiscoveryError =
    NotFound string
  | VersionMismatch string string
  | BadVersion string
  | AlreadyRegistered string
  | CapabilityNotFound string string
  | IdlNotAvailable string

fun ServiceDiscoveryError_display :: "ServiceDiscoveryError \<Rightarrow> string" where
  "ServiceDiscoveryError_display (NotFound name) = ''Service not found: '' @ name"
| "ServiceDiscoveryError_display (VersionMismatch required available) =
     ''Version mismatch: required '' @ required @ '', available '' @ available"
| "ServiceDiscoveryError_display (BadVersion v) = ''Invalid version string: '' @ v"
| "ServiceDiscoveryError_display (AlreadyRegistered name) = ''Service already registered: '' @ name"
| "ServiceDiscoveryError_display (CapabilityNotFound service capability) =
     ''Capability '' @ quoted capability @ '' not found in service '' @ quoted service"
| "ServiceDiscoveryError_display (IdlNotAvailable service) = ''IDL not available for service: '' @ service"

record ServiceDiscovery =
  services :: "(string, ServiceDescriptor) hashmap"
  interface_index :: "(string, string list) hashmap"
  capability_index :: "(string, string list) hashmap"

definition ServiceDiscovery_new :: ServiceDiscovery where
  "ServiceDiscovery_new = \<lparr>services = [], interface_index = [], capability_index = []\<rparr>"

section \<open>Registration\<close>

text \<open>\<open>entry(key).or_default().push(name)\<close> and \<open>retain\<close> on the names of a key.\<close>

definition index_names :: "(string, string list) hashmap \<Rightarrow> string \<Rightarrow> string list" where
  "index_names idx key = (case hm_get idx key of None \<Rightarrow> [] | Some names \<Rightarrow> names)"

definition index_push :: "string \<Rightarrow> string \<Rightarrow> (string, string list) hashmap \<Rightarrow> (string, string list) hashmap" where
  "index_push name key idx = hm_insert key (index_names idx key @ [name]) idx"

definition index_remove :: "string \<Rightarrow> string \<Rightarrow> (string, string list) hashmap \<Rightarrow> (string, string list) hashmap" where
  "index_remove name key idx =
     (case hm_get idx key of None \<Rightarrow> idx | Some names \<Rightarrow> hm_insert key (filter (\<lambda>n. n \<noteq> name) names) idx)"

definition sd_register :: "ServiceDescriptor \<Rightarrow> ServiceDiscovery \<Rightarrow> (ServiceDiscoveryError + unit) \<times> ServiceDiscovery" where
  "sd_register descriptor d =
     (case Version_parse (sd_version descriptor) of
        Err _ \<Rightarrow> (Err (BadVersion (sd_version descriptor)), d)
      | Ok _ \<Rightarrow>
          if hm_get (services d) (sd_name descriptor) \<noteq> None
          then (Err (AlreadyRegistered (sd_name descriptor)), d)
          else (Ok (), d\<lparr>services := hm_insert (sd_name descriptor) descriptor (services d),
            interface_index := index_push (sd_name descriptor) (sd_interface_spec descriptor) (interface_index d),
            capability_index := fold (index_push (sd_name descriptor)) (sd_capabilities descriptor) (capability_index d)\<rparr>))"

definition sd_unregister :: "string \<Rightarrow> ServiceDiscovery \<Rightarrow> bool \<times> ServiceDiscovery" where
  "sd_unregister name d =
     (case hm_get (services d) name of
        None \<Rightarrow> (False, d)
      | Some descriptor \<Rightarrow> (True, d\<lparr>services := AList.delete name (services d),
          interface_index := index_remove name (sd_interface_spec descriptor) (interface_index d),
          capability_index := fold (index_remove name) (sd_capabilities descriptor) (capability_index d)\<rparr>))"

definition sd_get :: "string \<Rightarrow> ServiceDiscovery \<Rightarrow> ServiceDescriptor option" where
  "sd_get name d = hm_get (services d) name"

definition sd_clear :: "ServiceDiscovery \<Rightarrow> ServiceDiscovery" where
  "sd_clear d = d\<lparr>services := [], interface_index := [], capability_index := []\<rparr>"

section \<open>Queries\<close>

definition matches_filter :: "ServiceDescriptor \<Rightarrow> ServiceFilter \<Rightarrow> ServiceDiscoveryError + bool" where
  "matches_filter descriptor f =
     (if (case sf_interface f of Some i \<Rightarrow> sd_interface_spec descriptor \<noteq> i | None \<Rightarrow> False) then Ok False
      else if (case sf_provider f of Some p \<Rightarrow> sd_provider_plugin descriptor \<noteq> p | None \<Rightarrow> False) then Ok False
      else if (case sf_capability f of Some c \<Rightarrow> c \<notin> set (sd_capabilities descriptor) | None \<Rightarrow> False) then Ok False
      else result_bind (map_err (\<lambda>_. BadVersion (sd_version descriptor)) (Version_parse (sd_version descriptor))) (\<lambda>version.
        result_bind (case sf_min_version f of
            Some min_v \<Rightarrow> result_bind (map_err (\<lambda>_. BadVersion min_v) (VersionReq_parse (''>='' @ min_v)))
              (\<lambda>req. Ok (VersionReq_matches req version))
          | None \<Rightarrow> Ok True) (\<lambda>min_ok.
        if \<not> min_ok then Ok False
        else (case sf_max_version f of
            Some max_v \<Rightarrow> result_bind (map_err (\<lambda>_. BadVersion max_v) (VersionReq_parse (''<'' @ max_v)))
              (\<lambda>req. Ok (VersionReq_matches req version))
          | None \<Rightarrow> Ok True))))"

fun discover_loop :: "ServiceDiscovery \<Rightarrow> ServiceFilter \<Rightarrow> string list \<Rightarrow> ServiceDescriptor list
    \<Rightarrow> ServiceDiscoveryError + ServiceDescriptor list" where
  "discover_loop d f [] results = Ok results"
| "discover_loop d f (name # names) results =
     (case hm_get (services d) name of
        None \<Rightarrow> discover_loop d f names results
      | Some descriptor \<Rightarrow>
          result_bind (matches_filter descriptor f) (\<lambda>m.
            discover_loop d f names (if m then results @ [descriptor] else results)))"

definition candidates :: "ServiceFilter \<Rightarrow> ServiceDiscovery \<Rightarrow> string list" where
  "candidates f d =
     (case sf_interface f of
        Some i \<Rightarrow> index_names (interface_index d) i
      | None \<Rightarrow> (case sf_capability f of
                  Some c \<Rightarrow> index_names (capability_index d) c
                | None \<Rightarrow> hm_keys (services d)))"

definition discover :: "ServiceFilter \<Rightarrow> ServiceDiscovery \<Rightarrow> ServiceDiscoveryError + ServiceDescriptor list" where
  "discover f d = discover_loop d f (candidates f d) []"

definition check_version_compatibility :: "string \<Rightarrow> string \<Rightarrow> VersionCompatibility" where
  "check_version_compatibility required available =
     (case (Version_parse required, Version_parse available) of
        (Ok _, Ok avail) \<Rightarrow>
          (case VersionReq_parse (''^'' @ required) of
             Ok version_req \<Rightarrow>
               if VersionReq_matches version_req avail then Compatible
               else Incompatible (''Available '' @ available @ '' does not satisfy ^'' @ required)
           | Err e \<Rightarrow> Incompatible (''Invalid version requirement: '' @ ConstraintError_display e))
      | (Err _, _) \<Rightarrow> Incompatible (''Invalid required version: '' @ required)
      | (_, Err _) \<Rightarrow> Incompatible (''Invalid available version: '' @ available))"

definition get_idl :: "string \<Rightarrow> ServiceDiscovery \<Rightarrow> ServiceDiscoveryError + string" where
  "get_idl name d =
     ok_or (if hm_get (services d) name \<noteq> None then IdlNotAvailable name else NotFound name)
       (Option.bind (hm_get (services d) name) sd_idl)"

definition has_capability :: "string \<Rightarrow> string \<Rightarrow> ServiceDiscovery \<Rightarrow> ServiceDiscoveryError + bool" where
  "has_capability name capability d =
     ok_or (NotFound name) (map_option (\<lambda>s. list_ex (\<lambda>c. c = capability) (sd_capabilities s)) (hm_get (services d) name))"

definition list_all_services :: "ServiceDiscovery \<Rightarrow> ServiceDescriptor list" where
  "list_all_services d = map snd (services d)"

definition list_by_provider :: "string \<Rightarrow> ServiceDiscovery \<Rightarrow> ServiceDescriptor list" where
  "list_by_provider plugin_id d = filter (\<lambda>s. sd_provider_plugin s = plugin_id) (map snd (services d))"

definition parsed_version :: "ServiceDescriptor \<Rightarrow> Version" where
  "parsed_version s = (case Version_parse (sd_version s) of Ok v \<Rightarrow> v | Err _ \<Rightarrow> Version_new 0 0 0)"

definition best_match_filter :: "string \<Rightarrow> string \<Rightarrow> ServiceFilter" where
  "best_match_filter interface version_req =
     \<lparr>sf_interface = Some interface,
      sf_min_version = Some (strip_all [''>=''] (dropWhile (\<lambda>c. c = CHR ''^'') version_req)),
      sf_max_version = None, sf_capability = None, sf_provider = None\<rparr>"

definition find_best_match :: "string \<Rightarrow> string \<Rightarrow> ServiceDiscovery \<Rightarrow> ServiceDiscoveryError + ServiceDescriptor option" where
  "find_best_match interface version_req d =
     result_bind (discover (best_match_filter interface version_req) d) (\<lambda>found.
       Ok (case sort_by (\<lambda>a b. Version_cmp (parsed_version b) (parsed_version a)) found of [] \<Rightarrow> None | s # _ \<Rightarrow> Some s))"

section \<open>The indexes\<close>

text \<open>An index lists, for a key, the names of the services with that attribute.\<close>

definition indexes :: "(ServiceDescriptor \<Rightarrow> string set) \<Rightarrow> (string, string list) hashmap
    \<Rightarrow> (string, ServiceDescriptor) hashmap \<Rightarrow> bool" where
  "indexes attr idx m \<longleftrightarrow> (\<forall>k. set (index_names idx k) = {n. \<exists>s. hm_get m n = Some s \<and> k \<in> attr s})"

lemma indexes_insert:
  assumes "indexes attr idx m" and "hm_get m n = None"
    and "\<And>k. set (index_names idx' k) = set (index_names idx k) \<union> (if k \<in> attr s then {n} else {})"
  shows "indexes attr idx' (hm_insert n s m)"
  using assms by (auto simp: indexes_def update_conv' split: if_splits)

lemma indexes_delete:
  assumes "indexes attr idx m" and "hm_get m n = Some s"
    and "\<And>k. set (index_names idx' k) = set (index_names idx k) - (if k \<in> attr s then {n} else {})"
  shows "indexes attr idx' (AList.delete n m)"
  using assms by (auto simp: indexes_def delete_conv' split: if_splits)

lemma index_names_push: "index_names (index_push n k idx) k' = index_names idx k' @ (if k' = k then [n] else [])"
  by (simp add: index_names_def index_push_def update_conv')

lemma index_names_remove:
  "index_names (index_remove n k idx) k' = (if k' = k then filter (\<lambda>m. m \<noteq> n) (index_names idx k') else index_names idx k')"
  by (auto simp: index_names_def index_remove_def update_conv' split: option.split)

lemma index_names_push_all:
  "set (index_names (fold (index_push n) ks idx) k) = set (index_names idx k) \<union> (if k \<in> set ks then {n} else {})"
  by (induction ks arbitrary: idx) (auto simp: index_names_push)

lemma index_names_remove_all:
  "set (index_names (fold (index_remove n) ks idx) k) = set (index_names idx k) - (if k \<in> set ks then {n} else {})"
  by (induction ks arbitrary: idx) (auto simp: index_names_remove)

definition has_interface :: "ServiceDescriptor \<Rightarrow> string set" where
  "has_interface s = {sd_interface_spec s}"

definition has_capabilities :: "ServiceDescriptor \<Rightarrow> string set" where
  "has_capabilities s = set (sd_capabilities s)"

definition entry_ok :: "string \<times> ServiceDescriptor \<Rightarrow> bool" where
  "entry_ok e \<longleftrightarrow> sd_name (snd e) = fst e \<and> (\<exists>v. Version_parse (sd_version (snd e)) = Ok v)"

definition sd_inv :: "ServiceDiscovery \<Rightarrow> bool" where
  "sd_inv d \<longleftrightarrow> distinct (hm_keys (services d)) \<and> list_all entry_ok (services d)
     \<and> indexes has_interface (interface_index d) (services d)
     \<and> indexes has_capabilities (capability_index d) (services d)
     \<and> (\<forall>i. distinct (index_names (interface_index d) i))"

lemma sd_register_inv:
  assumes inv: "sd_inv d" and reg: "sd_register s d = (r, d')"
  shows "sd_inv d'"
proof (cases "r")
  case (Inl e)
  then show ?thesis using reg inv by (auto simp: sd_register_def split: sum.splits if_splits)
next
  case (Inr u)
  then obtain v where v: "Version_parse (sd_version s) = Ok v" and free: "hm_get (services d) (sd_name s) = None"
    using reg by (auto simp: sd_register_def split: sum.splits if_splits)
  have d': "d' = d\<lparr>services := hm_insert (sd_name s) s (services d),
        interface_index := index_push (sd_name s) (sd_interface_spec s) (interface_index d),
        capability_index := fold (index_push (sd_name s)) (sd_capabilities s) (capability_index d)\<rparr>"
    using reg v free by (simp add: sd_register_def)
  have "indexes has_interface (interface_index d') (services d')"
    using inv free by (auto simp: d' sd_inv_def has_interface_def index_names_push intro!: indexes_insert split: if_splits)
  moreover have "indexes has_capabilities (capability_index d') (services d')"
    using inv free by (auto simp: d' sd_inv_def has_capabilities_def index_names_push_all intro!: indexes_insert)
  moreover have "list_all entry_ok (services d')"
    using inv v set_update_subset [of "sd_name s" s "services d"] by (auto simp: d' sd_inv_def list_all_iff entry_ok_def)
  moreover have "distinct (index_names (interface_index d') i)" for i
  proof -
    have "indexes has_interface (interface_index d) (services d)" using inv by (simp add: sd_inv_def)
    then have "sd_name s \<notin> set (index_names (interface_index d) i)" using free by (simp add: indexes_def)
    then show ?thesis using inv by (cases "i = sd_interface_spec s") (simp_all add: d' sd_inv_def index_names_push)
  qed
  ultimately show ?thesis using inv by (simp add: sd_inv_def d' distinct_update)
qed

lemma sd_unregister_inv:
  assumes inv: "sd_inv d" and un: "sd_unregister n d = (r, d')"
  shows "sd_inv d'"
proof (cases "hm_get (services d) n")
  case None
  then show ?thesis using un inv by (simp add: sd_unregister_def)
next
  case (Some s)
  have d': "d' = d\<lparr>services := AList.delete n (services d),
        interface_index := index_remove n (sd_interface_spec s) (interface_index d),
        capability_index := fold (index_remove n) (sd_capabilities s) (capability_index d)\<rparr>"
    using un Some by (simp add: sd_unregister_def)
  have "indexes has_interface (interface_index d') (services d')"
    using inv Some by (auto simp: d' sd_inv_def has_interface_def index_names_remove intro!: indexes_delete split: if_splits)
  moreover have "indexes has_capabilities (capability_index d') (services d')"
    using inv Some by (auto simp: d' sd_inv_def has_capabilities_def index_names_remove_all intro!: indexes_delete)
  moreover have "list_all entry_ok (services d')" "distinct (hm_keys (services d'))"
    using inv by (auto simp: d' sd_inv_def list_all_iff AList.delete_eq distinct_map_filter)
  ultimately show ?thesis using inv by (simp add: sd_inv_def d' index_names_remove)
qed

inductive discovery_run :: "ServiceDiscovery \<Rightarrow> bool" where
  "discovery_run ServiceDiscovery_new"
| "discovery_run d \<Longrightarrow> sd_register s d = (r, d') \<Longrightarrow> discovery_run d'"
| "discovery_run d \<Longrightarrow> sd_unregister n d = (b, d') \<Longrightarrow> discovery_run d'"
| "discovery_run d \<Longrightarrow> discovery_run (sd_clear d)"

lemma discovery_run_inv: "discovery_run d \<Longrightarrow> sd_inv d"
proof (induction rule: discovery_run.induct)
  case 1
  show ?case by (simp add: sd_inv_def ServiceDiscovery_new_def indexes_def index_names_def)
next
  case (4 d)
  show ?case by (simp add: sd_inv_def sd_clear_def indexes_def index_names_def)
qed (auto intro: sd_register_inv sd_unregister_inv)


text \<open>An example with two services.\<close>

definition toy_service :: "string \<Rightarrow> u64 \<Rightarrow> ServiceDescriptor" where
  "toy_service n v = \<lparr>sd_name = n, sd_version = Version_display (Version_new v 0 0), sd_interface_spec = ''i'',
     sd_provider_plugin = ''p'', sd_idl = None, sd_capabilities = [''c'', ''c''], sd_metadata = []\<rparr>"

definition toy_discovery :: ServiceDiscovery where
  "toy_discovery = snd (sd_register (toy_service ''b'' 2) (snd (sd_register (toy_service ''a'' 1) ServiceDiscovery_new)))"

lemma toy_discovery_run: "discovery_run toy_discovery"
  unfolding toy_discovery_def by (intro discovery_run.intros(1) discovery_run.intros(2) [OF _ prod.collapse [symmetric]])

section \<open>Discovery\<close>

text \<open>A version whose printed form is read back as a bound.\<close>

definition printable_version :: "Version \<Rightarrow> bool" where
  "printable_version v \<longleftrightarrow> printable (VersionConstraint_new GreaterEq v)"

definition within :: "Version option \<Rightarrow> Version option \<Rightarrow> Version \<Rightarrow> bool" where
  "within lo hi v \<longleftrightarrow> pred_option (\<lambda>l. version_le l v) lo \<and> pred_option (\<lambda>h. version_lt v h) hi"

text \<open>What a filter with printed versions as bounds asks for.\<close>

definition wanted :: "ServiceFilter \<Rightarrow> Version option \<Rightarrow> Version option \<Rightarrow> ServiceDescriptor \<Rightarrow> bool" where
  "wanted f lo hi s \<longleftrightarrow> pred_option (\<lambda>i. sd_interface_spec s = i) (sf_interface f)
     \<and> pred_option (\<lambda>p. sd_provider_plugin s = p) (sf_provider f)
     \<and> pred_option (\<lambda>c. c \<in> set (sd_capabilities s)) (sf_capability f)
     \<and> within lo hi (parsed_version s)"

lemma parse_bound:
  assumes "printable_version v" and "op = GreaterEq \<or> op = Less \<or> op = Caret"
  shows "VersionReq_parse (Comparator_op op @ Version_display v) = Ok \<lparr>constraints = [VersionConstraint_new op v]\<rparr>"
proof -
  have "VersionReq_display \<lparr>constraints = [VersionConstraint_new op v]\<rparr> = Comparator_op op @ Version_display v"
    by (simp add: VersionReq_display_def VersionConstraint_display_def VersionConstraint_new_def)
  moreover have "printable c" if "c \<in> set (constraints \<lparr>constraints = [VersionConstraint_new op v]\<rparr>)" for c
    using that assms by (auto simp: printable_version_def printable_def VersionConstraint_new_def)
  ultimately show ?thesis using requirement_roundtrip by metis
qed

lemma matches_single: "VersionReq_matches \<lparr>constraints = [c]\<rparr> v = VersionConstraint_matches c v"
  by (simp add: VersionReq_matches_def)

lemma matches_filter_wanted:
  assumes bounds: "sf_min_version f = map_option Version_display lo" "sf_max_version f = map_option Version_display hi"
    and ok: "pred_option printable_version lo" "pred_option printable_version hi"
    and v: "Version_parse (sd_version s) = Ok v"
  shows "matches_filter s f = Ok (wanted f lo hi s)"
proof -
  have pv: "parsed_version s = v" using v by (simp add: parsed_version_def)
  have min: "(case sf_min_version f of
        Some min_v \<Rightarrow> result_bind (map_err (\<lambda>_. BadVersion min_v) (VersionReq_parse (''>='' @ min_v)))
          (\<lambda>req. Ok (VersionReq_matches req v))
      | None \<Rightarrow> Ok True) = Ok (pred_option (\<lambda>l. version_le l v) lo)"
    using bounds(1) ok(1) parse_bound [of _ GreaterEq]
    by (cases lo) (simp_all add: matches_single VersionConstraint_matches_def VersionConstraint_new_def)
  have max: "(case sf_max_version f of
        Some max_v \<Rightarrow> result_bind (map_err (\<lambda>_. BadVersion max_v) (VersionReq_parse (''<'' @ max_v)))
          (\<lambda>req. Ok (VersionReq_matches req v))
      | None \<Rightarrow> Ok True) = Ok (pred_option (\<lambda>h. version_lt v h) hi)"
    using bounds(2) ok(2) parse_bound [of _ Less]
    by (cases hi) (simp_all add: matches_single VersionConstraint_matches_def VersionConstraint_new_def)
  show ?thesis
    unfolding matches_filter_def v map_err_simps result_bind_simps min max wanted_def within_def pv
    by (cases "sf_interface f"; cases "sf_provider f"; cases "sf_capability f") auto
qed

lemma discover_loop_eq:
  assumes "\<And>n s. hm_get (services d) n = Some s \<Longrightarrow> matches_filter s f = Ok (W s)"
  shows "discover_loop d f names res = Ok (res @ filter W (List.map_filter (hm_get (services d)) names))"
  by (induction names arbitrary: res) (auto simp: assms map_filter_simps split: option.split)

lemma set_map_filter_get: "set (List.map_filter m ns) = {s. \<exists>n\<in>set ns. m n = Some s}"
  by (induction ns) (auto simp: map_filter_simps split: option.split)

lemma distinct_map_filter_get:
  assumes "\<And>n s. m n = Some s \<Longrightarrow> name s = n"
  shows "distinct ns \<Longrightarrow> distinct (List.map_filter m ns)"
  by (induction ns) (auto simp: map_filter_simps set_map_filter_get split: option.split dest!: assms)

lemma candidates_complete:
  assumes inv: "sd_inv d" and s: "hm_get (services d) n = Some s" and "wanted f lo hi s"
  shows "n \<in> set (candidates f d)"
proof -
  have "n \<in> fst ` set (services d)" using s by (metis domI dom_map_of_conv_image_fst)
  then show ?thesis
    using assms
    by (auto simp: candidates_def sd_inv_def indexes_def wanted_def has_interface_def has_capabilities_def split: option.split)
qed

lemma discover_spec:
  assumes run: "discovery_run d"
    and bounds: "sf_min_version f = map_option Version_display lo" "sf_max_version f = map_option Version_display hi"
    and ok: "pred_option printable_version lo" "pred_option printable_version hi"
  shows "\<exists>rs. discover f d = Ok rs \<and> set rs = {s. sd_get (sd_name s) d = Some s \<and> wanted f lo hi s}
    \<and> (distinct rs \<or> sf_interface f = None \<and> sf_capability f \<noteq> None)"
proof -
  have inv: "sd_inv d" using run by (rule discovery_run_inv)
  have entry: "sd_name s = n \<and> (\<exists>v. Version_parse (sd_version s) = Ok v)" if "hm_get (services d) n = Some s" for n s
    using inv map_of_SomeD [OF that] by (auto simp: sd_inv_def list_all_iff entry_ok_def)
  have match: "matches_filter s f = Ok (wanted f lo hi s)" if "hm_get (services d) n = Some s" for n s
    using entry [OF that] matches_filter_wanted [OF bounds ok] by blast
  let ?rs = "filter (wanted f lo hi) (List.map_filter (hm_get (services d)) (candidates f d))"
  have "discover f d = Ok ?rs" unfolding discover_def using discover_loop_eq [OF match] by simp
  moreover have "set ?rs = {s. sd_get (sd_name s) d = Some s \<and> wanted f lo hi s}"
  proof -
    have "set ?rs = {s. (\<exists>n\<in>set (candidates f d). hm_get (services d) n = Some s) \<and> wanted f lo hi s}"
      by (auto simp: set_map_filter_get)
    also have "\<dots> = {s. sd_get (sd_name s) d = Some s \<and> wanted f lo hi s}"
      unfolding sd_get_def using entry candidates_complete [OF inv] by blast
    finally show ?thesis .
  qed
  moreover have "distinct ?rs \<or> sf_interface f = None \<and> sf_capability f \<noteq> None"
  proof -
    have "distinct (candidates f d)" if "\<not> (sf_interface f = None \<and> sf_capability f \<noteq> None)"
      using inv that by (auto simp: candidates_def sd_inv_def split: option.split)
    moreover have "distinct (List.map_filter (hm_get (services d)) ns)" if "distinct ns" for ns
      by (rule distinct_map_filter_get [OF conjunct1 [OF entry] that])
    ultimately show ?thesis by (metis distinct_filter)
  qed
  ultimately show ?thesis by blast
qed

text \<open>Discovery is complete and sound: after any run of registrations and removals, a filter whose bounds are printed
  versions never fails and finds exactly the registered services with the interface, provider and capability whose version
  lies between the bounds, each once unless the search goes by capability alone. The indexes lose nothing.\<close>

theorem discover_correct:
  assumes "discovery_run d"
    and "sf_min_version f = map_option Version_display lo" and "sf_max_version f = map_option Version_display hi"
    and "pred_option printable_version lo" and "pred_option printable_version hi"
  shows "\<exists>rs. discover f d = Ok rs \<and> set rs = {s. sd_get (sd_name s) d = Some s \<and> wanted f lo hi s}
    \<and> (distinct rs \<or> sf_interface f = None \<and> sf_capability f \<noteq> None)"
  using assms by (rule discover_spec)

lemma reverse_version_ord: "rust_ord (\<lambda>a b. Version_cmp (parsed_version b) (parsed_version a))"
proof (unfold_locales, goal_cases)
  case (1 y x)
  show ?case by (rule version_ord.cmp_reverse)
next
  case (2 x y z)
  then show ?case using version_ord.cmp_less_trans by blast
next
  case (3 x y z)
  then have "Version_cmp (parsed_version x) (parsed_version y) = OEqual" using version_ord.cmp_equal_sym by blast
  then show ?case by (rule version_ord.cmp_equal_subst2)
qed

lemma trimmed_requirement:
  assumes "prefix_op = [] \<or> prefix_op = ''^'' \<or> prefix_op = ''>=''"
  shows "strip_all [''>=''] (dropWhile (\<lambda>c. c = CHR ''^'') (prefix_op @ Version_display v)) = Version_display v"
proof -
  obtain c cs where c: "Version_display v = c # cs" "is_ascii_digit c" using display_hd [of v] by metis
  then have "c \<noteq> CHR ''^''" "c \<noteq> CHR ''>''" by (auto simp: is_ascii_digit_def)
  then have "strip_all [''>=''] (c # cs) = c # cs" "strip_all [''>=''] (''>='' @ c # cs) = c # cs"
    by (simp_all add: strip_all.simps [of "[''>='']" "c # cs"] strip_all.simps [of "[''>='']" "CHR ''>'' # CHR ''='' # c # cs"])
  then show ?thesis using assms c \<open>c \<noteq> CHR ''^''\<close> by auto
qed

text \<open>The best match: for a version, with or without a caret or \<open>>=\<close> before it, the search returns a service of the
  interface with the greatest version among all that are not older, and nothing only if there is none. A caret is read
  as a lower bound, so the match may have a greater major version.\<close>

theorem find_best_match_correct:
  assumes "discovery_run d" and "printable_version v" and "prefix_op \<in> {[], ''^'', ''>=''}"
  shows "\<exists>m. find_best_match interface (prefix_op @ Version_display v) d = Ok m
    \<and> (case m of
         None \<Rightarrow> {s. sd_get (sd_name s) d = Some s \<and> sd_interface_spec s = interface \<and> version_le v (parsed_version s)} = {}
       | Some s \<Rightarrow> sd_get (sd_name s) d = Some s \<and> sd_interface_spec s = interface \<and> version_le v (parsed_version s)
           \<and> {t. sd_get (sd_name t) d = Some t \<and> sd_interface_spec t = interface \<and> version_lt (parsed_version s) (parsed_version t)} = {})"
proof -
  let ?f = "best_match_filter interface (prefix_op @ Version_display v)"
  let ?S = "{s. sd_get (sd_name s) d = Some s \<and> sd_interface_spec s = interface \<and> version_le v (parsed_version s)}"
  let ?cmp = "\<lambda>a b. Version_cmp (parsed_version b) (parsed_version a)"
  have f: "?f = \<lparr>sf_interface = Some interface, sf_min_version = Some (Version_display v), sf_max_version = None,
      sf_capability = None, sf_provider = None\<rparr>"
    using trimmed_requirement [of prefix_op v] assms(3) by (auto simp: best_match_filter_def)
  have "sf_min_version ?f = map_option Version_display (Some v)" "sf_max_version ?f = map_option Version_display None"
    by (simp_all add: f)
  from discover_spec [OF assms(1) this] assms(2) obtain rs where
    rs: "discover ?f d = Ok rs" "set rs = {s. sd_get (sd_name s) d = Some s \<and> wanted ?f (Some v) None s}" by auto
  then have set: "set rs = ?S" by (simp add: f wanted_def within_def)
  show ?thesis
  proof (cases "sort_by ?cmp rs")
    case Nil
    then have "rs = []" using set_sort_by [of ?cmp rs] by simp
    then show ?thesis using rs(1) set Nil by (intro exI [of _ None]) (simp add: find_best_match_def)
  next
    case (Cons s ss)
    have s: "s \<in> ?S" using Cons set set_sort_by [of ?cmp rs] by (metis list.set_intros(1))
    have best: "\<not> version_lt (parsed_version s) (parsed_version t)" if "t \<in> ?S" for t
      using sort_by_hd [OF reverse_version_ord, of t rs] that Cons set version_ord.cmp_greater_iff by auto
    have "version_le v (parsed_version t)" if "version_lt (parsed_version s) (parsed_version t)" for t
      using s that version_ord.cmp_le_trans [of v "parsed_version s" "parsed_version t"] by auto
    then have "{t. sd_get (sd_name t) d = Some t \<and> sd_interface_spec t = interface
        \<and> version_lt (parsed_version s) (parsed_version t)} = {}" using best by blast
    then show ?thesis using rs(1) s Cons by (intro exI [of _ "Some s"]) (simp add: find_best_match_def)
  qed
qed

text \<open>The check of two printed versions is the caret constraint.\<close>

lemma check_version_compatibility_caret:
  assumes "printable_version a" and "wf_version b"
  shows "check_version_compatibility (Version_display a) (Version_display b) = Compatible
    \<longleftrightarrow> matches_caret (VersionConstraint_new Caret a) b"
proof -
  have "wf_version a" using assms(1) by (simp add: printable_version_def printable_def VersionConstraint_new_def)
  then show ?thesis using assms(2) parse_bound [OF assms(1), of Caret]
    by (simp add: check_version_compatibility_def version_roundtrip matches_single VersionConstraint_matches_def
        VersionConstraint_new_def)
qed


lemma wf_new: "wf_version (Version_new a b c)"
  by (simp add: wf_version_def Version_new_def)

lemma printable_new: "printable_version (Version_new a b c)"
  by (simp add: printable_version_def printable_def VersionConstraint_new_def wf_new) (simp add: Version_new_def)

lemma toy_get:
  "sd_get ''a'' toy_discovery = Some (toy_service ''a'' 1)" "sd_get ''b'' toy_discovery = Some (toy_service ''b'' 2)"
  "parsed_version (toy_service n v) = Version_new v 0 0"
  by (simp_all add: toy_discovery_def sd_register_def toy_service_def ServiceDiscovery_new_def sd_get_def update_conv'
      parsed_version_def version_roundtrip wf_new)

text \<open>A capability that a descriptor lists twice is indexed twice, and the service is found twice.\<close>

lemma discover_duplicates:
  "discover \<lparr>sf_interface = None, sf_min_version = None, sf_max_version = None, sf_capability = Some ''c'', sf_provider = None\<rparr>
     (snd (sd_register (toy_service ''a'' 1) ServiceDiscovery_new)) = Ok [toy_service ''a'' 1, toy_service ''a'' 1]"
proof -
  let ?d = "snd (sd_register (toy_service ''a'' 1) ServiceDiscovery_new)"
  let ?f = "\<lparr>sf_interface = None, sf_min_version = None, sf_max_version = None, sf_capability = Some ''c'', sf_provider = None\<rparr>"
  have d: "?d = \<lparr>services = [(''a'', toy_service ''a'' 1)], interface_index = index_push ''a'' ''i'' [],
      capability_index = index_push ''a'' ''c'' (index_push ''a'' ''c'' [])\<rparr>"
    by (simp add: sd_register_def toy_service_def ServiceDiscovery_new_def version_roundtrip wf_new)
  have "candidates ?f ?d = [''a'', ''a'']"
    unfolding d by (simp add: candidates_def index_names_push) (simp add: index_names_def)
  moreover have "matches_filter (toy_service ''a'' 1) ?f = Ok True"
    by (simp add: matches_filter_def toy_service_def version_roundtrip wf_new)
  ultimately show ?thesis unfolding discover_def by (simp add: d)
qed

end
