(* ===== verification/Event_Bus.thy ===== *)
theory Event_Bus
  imports Plugin_Manager
begin

text \<open>
  The event bus: \<open>TypedEventBus\<close> of \<open>abi/src/lib.rs\<close>, and the backend that gives plugins access to
  it, \<open>PluginEventBusBackend\<close> of \<open>src/plugin_manager/manager.rs\<close> with its foreign functions.

  A handler is of an arbitrary type, and publishing returns the calls that it makes, in their order. A C string is a
  string or, for a null pointer, \<open>None\<close>. JSON values are of an arbitrary type, and what the code uses of
  \<open>serde_json\<close> is an argument, as is the time of delivery.
\<close>


section \<open>The typed bus\<close>

record 'j Event =
  ev_topic :: string
  ev_payload :: 'j
  ev_metadata :: "(string, 'j) hashmap option"

definition Event_new :: "string \<Rightarrow> 'j \<Rightarrow> 'j Event" where
  "Event_new topic payload = \<lparr>ev_topic = topic, ev_payload = payload, ev_metadata = None\<rparr>"

record Subscription =
  sub_id :: u64
  sub_topic :: string

record 'h Subscriber =
  sr_id :: u64
  sr_handler :: 'h

record ('j, 'h) TypedEventBus =
  bus_inner :: "(string, 'h Subscriber list) hashmap"
  bus_middlewares :: "('j Event \<Rightarrow> 'j Event option) list"
  bus_id_counter :: u64

definition TypedEventBus_new :: "('j, 'h) TypedEventBus" where
  "TypedEventBus_new = \<lparr>bus_inner = [], bus_middlewares = [], bus_id_counter = 1\<rparr>"

text \<open>The subscribers of a topic; a topic without an entry has none.\<close>

definition topic_list :: "(string, 'h Subscriber list) hashmap \<Rightarrow> string \<Rightarrow> 'h Subscriber list" where
  "topic_list m topic = (case hm_get m topic of None \<Rightarrow> [] | Some list \<Rightarrow> list)"

definition bus_subscribe :: "string \<Rightarrow> 'h \<Rightarrow> ('j, 'h) TypedEventBus \<Rightarrow> Subscription \<times> ('j, 'h) TypedEventBus" where
  "bus_subscribe topic handler bus =
     (let id1 = bus_id_counter bus;
          sub = \<lparr>sr_id = id1, sr_handler = handler\<rparr>
      in (\<lparr>sub_id = id1, sub_topic = topic\<rparr>,
          bus\<lparr>bus_inner := hm_insert topic (topic_list (bus_inner bus) topic @ [sub]) (bus_inner bus),
              bus_id_counter := id1 + 1\<rparr>))"

definition bus_unsubscribe :: "Subscription \<Rightarrow> ('j, 'h) TypedEventBus \<Rightarrow> bool \<times> ('j, 'h) TypedEventBus" where
  "bus_unsubscribe sub bus =
     (case hm_get (bus_inner bus) (sub_topic sub) of
        Some list \<Rightarrow>
          (let kept = filter (\<lambda>s. sr_id s \<noteq> sub_id sub) list
           in (length kept \<noteq> length list, bus\<lparr>bus_inner := hm_insert (sub_topic sub) kept (bus_inner bus)\<rparr>))
      | None \<Rightarrow> (False, bus))"

fun run_middlewares :: "('j Event \<Rightarrow> 'j Event option) list \<Rightarrow> 'j Event \<Rightarrow> 'j Event option" where
  "run_middlewares [] event = Some event"
| "run_middlewares (mw # mws) event = (case mw event of Some e \<Rightarrow> run_middlewares mws e | None \<Rightarrow> None)"

text \<open>The calls that \<open>publish\<close> makes, in their order: the handler and the event that it is given.\<close>

definition bus_publish :: "'j Event \<Rightarrow> ('j, 'h) TypedEventBus \<Rightarrow> ('h \<times> 'j Event) list" where
  "bus_publish event bus =
     (case run_middlewares (bus_middlewares bus) event of
        None \<Rightarrow> []
      | Some e \<Rightarrow>
          map (\<lambda>s. (sr_handler s, e))
            (topic_list (bus_inner bus) (ev_topic e) @ topic_list (bus_inner bus) ''*''))"

definition add_middleware :: "('j Event \<Rightarrow> 'j Event option) \<Rightarrow> ('j, 'h) TypedEventBus \<Rightarrow> ('j, 'h) TypedEventBus" where
  "add_middleware mw bus = bus\<lparr>bus_middlewares := bus_middlewares bus @ [mw]\<rparr>"

text \<open>\<open>as_object\<close> and \<open>as_str\<close> read a JSON value, \<open>null\<close> is the JSON null.\<close>

definition adapt_v1_json_to_v2 :: "('j \<Rightarrow> (string, 'j) hashmap option) \<Rightarrow> ('j \<Rightarrow> string option) \<Rightarrow> 'j \<Rightarrow> 'j
    \<Rightarrow> 'j Event option" where
  "adapt_v1_json_to_v2 as_object as_str null value =
     (case as_object value of
        None \<Rightarrow> None
      | Some m \<Rightarrow>
     (case hm_get m ''name'' of
        None \<Rightarrow> None
      | Some v \<Rightarrow>
     (case as_str v of
        None \<Rightarrow> None
      | Some name \<Rightarrow>
          Some \<lparr>ev_topic = name, ev_payload = (case hm_get m ''data'' of None \<Rightarrow> null | Some d \<Rightarrow> d),
                ev_metadata = None\<rparr>)))"

section \<open>The bus of the plugins\<close>

text \<open>An event as plugins pass it; \<open>None\<close> is a null pointer.\<close>

record EventV2 =
  v2_type :: "string option"
  v2_payload_json :: "string option"
  v2_timestamp_ms :: u64
  v2_source_plugin :: "string option"

text \<open>What is used of \<open>serde_json\<close>.\<close>

record 'j JsonApi =
  json_from_str :: "string \<Rightarrow> 'j option"
  json_to_string :: "'j \<Rightarrow> string option"
  json_empty_object :: 'j

record 'cb EventSubscriptionEntry =
  es_event_type :: string
  es_callback :: 'cb
  es_subscription :: Subscription

record ('j, 'cb) PluginEventBusBackend =
  eb_bus :: "('j, 'cb) TypedEventBus"
  eb_subscriptions :: "'cb EventSubscriptionEntry list"

definition PluginEventBusBackend_new :: "('j, 'cb) PluginEventBusBackend" where
  "PluginEventBusBackend_new = \<lparr>eb_bus = TypedEventBus_new, eb_subscriptions = []\<rparr>"

text \<open>\<open>CString::new\<close> refuses text with a null byte.\<close>

definition CString_new :: "string \<Rightarrow> string option" where
  "CString_new s = (if CHR 0x00 \<in> set s then None else Some s)"

definition event_payload :: "'j JsonApi \<Rightarrow> string option \<Rightarrow> 'j" where
  "event_payload J payload_json =
     (case payload_json of
        None \<Rightarrow> json_empty_object J
      | Some s \<Rightarrow> (case json_from_str J s of None \<Rightarrow> json_empty_object J | Some j \<Rightarrow> j))"

text \<open>The closure that \<open>subscribe\<close> wraps around a callback: what the callback is called with, if it is.\<close>

definition bridge :: "'j JsonApi \<Rightarrow> u64 \<Rightarrow> 'j Event \<Rightarrow> EventV2 option" where
  "bridge J now event =
     (case CString_new (ev_topic event) of
        None \<Rightarrow> None
      | Some topic_cstring \<Rightarrow>
     (case CString_new (case json_to_string J (ev_payload event) of None \<Rightarrow> ''{}'' | Some s \<Rightarrow> s) of
        None \<Rightarrow> None
      | Some payload_cstring \<Rightarrow>
          Some \<lparr>v2_type = Some topic_cstring, v2_payload_json = Some payload_cstring,
                v2_timestamp_ms = now, v2_source_plugin = None\<rparr>))"

definition backend_publish :: "'j JsonApi \<Rightarrow> u64 \<Rightarrow> EventV2 \<Rightarrow> ('j, 'cb) PluginEventBusBackend
    \<Rightarrow> ('cb \<times> EventV2) list" where
  "backend_publish J now event eb =
     (case v2_type event of
        None \<Rightarrow> []
      | Some topic \<Rightarrow>
          List.map_filter (\<lambda>(cb, e). map_option (Pair cb) (bridge J now e))
            (bus_publish (Event_new topic (event_payload J (v2_payload_json event))) (eb_bus eb)))"

definition backend_subscribe :: "string \<Rightarrow> 'cb \<Rightarrow> ('j, 'cb) PluginEventBusBackend \<Rightarrow> ('j, 'cb) PluginEventBusBackend" where
  "backend_subscribe event_type callback eb =
     (case bus_subscribe event_type callback (eb_bus eb) of (subscription, bus) \<Rightarrow>
        eb\<lparr>eb_bus := bus,
           eb_subscriptions := eb_subscriptions eb @ [\<lparr>es_event_type = event_type, es_callback = callback,
             es_subscription = subscription\<rparr>]\<rparr>)"

definition backend_unsubscribe :: "string \<Rightarrow> ('j, 'cb) PluginEventBusBackend \<Rightarrow> bool \<times> ('j, 'cb) PluginEventBusBackend" where
  "backend_unsubscribe event_type eb =
     (let gone = filter (\<lambda>s. es_event_type s = event_type) (eb_subscriptions eb)
      in (gone \<noteq> [],
          eb\<lparr>eb_bus := foldl (\<lambda>bus s. snd (bus_unsubscribe (es_subscription s) bus)) (eb_bus eb) gone,
             eb_subscriptions := filter (\<lambda>s. es_event_type s \<noteq> event_type) (eb_subscriptions eb)\<rparr>))"

section \<open>The functions that plugins call\<close>

text \<open>\<open>services\<close> is \<open>None\<close> when the context or its services are null. The functions return the
  result, and the calls to callbacks or the bus afterwards.\<close>

definition eventbus_v2_publish :: "'j JsonApi \<Rightarrow> u64 \<Rightarrow> ('j, 'cb) PluginEventBusBackend option \<Rightarrow> EventV2 option
    \<Rightarrow> PluginResultV2 \<times> ('cb \<times> EventV2) list" where
  "eventbus_v2_publish J now services event =
     (case services of
        None \<Rightarrow> (ServiceUnavailable, [])
      | Some eb \<Rightarrow> (case event of None \<Rightarrow> (InvalidRequest, []) | Some e \<Rightarrow> (Success, backend_publish J now e eb)))"

definition eventbus_v2_subscribe :: "string option \<Rightarrow> 'cb \<Rightarrow> ('j, 'cb) PluginEventBusBackend option
    \<Rightarrow> PluginResultV2 \<times> ('j, 'cb) PluginEventBusBackend option" where
  "eventbus_v2_subscribe event_type callback services =
     (case services of
        None \<Rightarrow> (ServiceUnavailable, services)
      | Some eb \<Rightarrow> (case event_type of
          None \<Rightarrow> (InvalidRequest, services)
        | Some t \<Rightarrow> (Success, Some (backend_subscribe t callback eb))))"

definition eventbus_v2_unsubscribe :: "string option \<Rightarrow> ('j, 'cb) PluginEventBusBackend option
    \<Rightarrow> PluginResultV2 \<times> ('j, 'cb) PluginEventBusBackend option" where
  "eventbus_v2_unsubscribe event_type services =
     (case services of
        None \<Rightarrow> (ServiceUnavailable, services)
      | Some eb \<Rightarrow> (case event_type of
          None \<Rightarrow> (InvalidRequest, services)
        | Some t \<Rightarrow> (case backend_unsubscribe t eb of (found, eb') \<Rightarrow>
            (if found then Success else ServiceUnavailable, Some eb'))))"

section \<open>Deliveries of the typed bus\<close>

text \<open>The specification: subscriptions in the order in which they were made.\<close>

datatype 'h bus_op = Subscribe string 'h | Unsubscribe Subscription

fun bus_step :: "('j, 'h) TypedEventBus \<Rightarrow> 'h bus_op \<Rightarrow> ('j, 'h) TypedEventBus" where
  "bus_step bus (Subscribe topic h) = snd (bus_subscribe topic h bus)"
| "bus_step bus (Unsubscribe sub) = snd (bus_unsubscribe sub bus)"

fun live_step :: "u64 \<times> (Subscription \<times> 'h) list \<Rightarrow> 'h bus_op \<Rightarrow> u64 \<times> (Subscription \<times> 'h) list" where
  "live_step (n, live) (Subscribe topic h) = (n + 1, live @ [(\<lparr>sub_id = n, sub_topic = topic\<rparr>, h)])"
| "live_step (n, live) (Unsubscribe sub) = (n, filter (\<lambda>(s, _). s \<noteq> sub) live)"

definition live :: "'h bus_op list \<Rightarrow> (Subscription \<times> 'h) list" where
  "live ops = snd (foldl live_step (1, []) ops)"

definition on_topic :: "string \<Rightarrow> (Subscription \<times> 'h) list \<Rightarrow> 'h list" where
  "on_topic topic l = map snd (filter (\<lambda>(s, _). sub_topic s = topic) l)"

definition entries_on :: "string \<Rightarrow> (Subscription \<times> 'h) list \<Rightarrow> 'h Subscriber list" where
  "entries_on topic l = map (\<lambda>(s, h). \<lparr>sr_id = sub_id s, sr_handler = h\<rparr>) (filter (\<lambda>(s, _). sub_topic s = topic) l)"

lemma entries_on_simps [simp]:
  "entries_on t [] = []"
  "entries_on t (l @ l') = entries_on t l @ entries_on t l'"
  "entries_on t ((s, h) # l) = (if sub_topic s = t then \<lparr>sr_id = sub_id s, sr_handler = h\<rparr> # entries_on t l else entries_on t l)"
  by (simp_all add: entries_on_def)

lemma handlers_entries_on: "map sr_handler (entries_on t l) = on_topic t l"
  by (induction l) (auto simp: on_topic_def)

lemma topic_list_insert [simp]: "topic_list (hm_insert t l m) t' = (if t' = t then l else topic_list m t')"
  by (simp add: topic_list_def update_conv')

definition bus_shows :: "('j, 'h) TypedEventBus \<Rightarrow> (Subscription \<times> 'h) list \<Rightarrow> bool" where
  "bus_shows bus l \<longleftrightarrow> (\<forall>t. topic_list (bus_inner bus) t = entries_on t l)"

lemma bus_shows_subscribe:
  "bus_shows bus l \<Longrightarrow> bus_subscribe t h bus = (s, bus') \<Longrightarrow>
     s = \<lparr>sub_id = bus_id_counter bus, sub_topic = t\<rparr> \<and> bus_id_counter bus' = bus_id_counter bus + 1 \<and>
     bus_middlewares bus' = bus_middlewares bus \<and> bus_shows bus' (l @ [(s, h)])"
  by (auto simp: bus_shows_def bus_subscribe_def Let_def)

lemma entries_on_remove:
  "filter (\<lambda>x. sr_id x \<noteq> sub_id sub) (entries_on (sub_topic sub) l) = entries_on (sub_topic sub) (filter (\<lambda>(s, _). s \<noteq> sub) l)"
  "t \<noteq> sub_topic sub \<Longrightarrow> entries_on t (filter (\<lambda>(s, _). s \<noteq> sub) l) = entries_on t l"
  by (induction l) (auto simp: Subscription.equality)

lemma length_filter_same: "length (filter P xs) = length xs \<longleftrightarrow> (\<forall>x\<in>set xs. P x)"
proof (induction xs)
  case (Cons x xs)
  have "length (filter P xs) \<noteq> Suc (length xs)" using length_filter_le [of P xs] by linarith
  with Cons show ?case by auto
qed simp

lemma bus_shows_unsubscribe:
  assumes "bus_shows bus l" and "bus_unsubscribe sub bus = (b, bus')"
  shows "bus_id_counter bus' = bus_id_counter bus" and "bus_middlewares bus' = bus_middlewares bus"
    and "bus_shows bus' (filter (\<lambda>(s, _). s \<noteq> sub) l)" and "b \<longleftrightarrow> sub \<in> fst ` set l"
proof -
  have tl: "topic_list (bus_inner bus) t = entries_on t l" for t
    using assms(1) by (simp add: bus_shows_def)
  show "bus_id_counter bus' = bus_id_counter bus" "bus_middlewares bus' = bus_middlewares bus"
    using assms(2) by (auto simp: bus_unsubscribe_def Let_def split: option.splits)
  have new: "topic_list (bus_inner bus') t = (if t = sub_topic sub
      then filter (\<lambda>x. sr_id x \<noteq> sub_id sub) (topic_list (bus_inner bus) t) else topic_list (bus_inner bus) t)" for t
    using assms(2)
    by (auto simp: bus_unsubscribe_def Let_def topic_list_def update_conv' split: option.splits)
  show "bus_shows bus' (filter (\<lambda>(s, _). s \<noteq> sub) l)"
    by (simp add: bus_shows_def new tl entries_on_remove)
  have "b \<longleftrightarrow> (\<exists>x\<in>set (topic_list (bus_inner bus) (sub_topic sub)). sr_id x = sub_id sub)"
    using assms(2)
    by (auto simp: bus_unsubscribe_def Let_def topic_list_def length_filter_same split: option.splits)
  also have "\<dots> \<longleftrightarrow> sub \<in> fst ` set l"
    unfolding tl entries_on_def by (force simp: Subscription.equality)
  finally show "b \<longleftrightarrow> sub \<in> fst ` set l" .
qed

definition bus_run :: "('j Event \<Rightarrow> 'j Event option) list \<Rightarrow> 'h bus_op list \<Rightarrow> ('j, 'h) TypedEventBus" where
  "bus_run mws ops = foldl bus_step (TypedEventBus_new\<lparr>bus_middlewares := mws\<rparr>) ops"

text \<open>After any sequence of subscriptions and withdrawals, an event that the middlewares let through goes to the live
  subscriptions of its topic and then to those of the wildcard, in the order in which they were made. No bound on the
  number of subscriptions is needed: a withdrawal also compares the topic.\<close>

theorem bus_delivery:
  "bus_publish e (bus_run mws ops) =
    (case run_middlewares mws e of
       None \<Rightarrow> []
     | Some e' \<Rightarrow> map (\<lambda>h. (h, e')) (on_topic (ev_topic e') (live ops) @ on_topic ''*'' (live ops)))"
proof -
  have "bus_id_counter (bus_run mws ops) = fst (foldl live_step (1, []) ops) \<and> bus_middlewares (bus_run mws ops) = mws
      \<and> bus_shows (bus_run mws ops) (live ops)"
  proof (induction ops rule: rev_induct)
    case Nil
    show ?case by (simp add: bus_run_def live_def TypedEventBus_new_def bus_shows_def topic_list_def)
  next
    case (snoc op ops)
    obtain n l where nl: "foldl live_step (1, []) ops = (n, l)" by (cases "foldl live_step (1, []) ops")
    with snoc have inv: "bus_id_counter (bus_run mws ops) = n" "bus_middlewares (bus_run mws ops) = mws" "bus_shows (bus_run mws ops) l"
      by (simp_all add: live_def)
    show ?case
    proof (cases op)
      case (Subscribe t h)
      obtain s bus' where "bus_subscribe t h (bus_run mws ops) = (s, bus')" by (cases "bus_subscribe t h (bus_run mws ops)")
      with bus_shows_subscribe [OF inv(3) this] inv nl Subscribe show ?thesis by (auto simp: bus_run_def live_def)
    next
      case (Unsubscribe sub)
      obtain b bus' where "bus_unsubscribe sub (bus_run mws ops) = (b, bus')" by (cases "bus_unsubscribe sub (bus_run mws ops)")
      with bus_shows_unsubscribe [OF inv(3) this] inv nl Unsubscribe show ?thesis by (simp add: bus_run_def live_def)
    qed
  qed
  then show ?thesis
    by (auto simp: bus_publish_def bus_shows_def handlers_entries_on [symmetric] split: option.split)
qed

section \<open>Deliveries to the plugins\<close>

datatype 'cb plugin_op = PluginSubscribe "string option" 'cb | PluginUnsubscribe "string option"

fun plugin_step :: "('j, 'cb) PluginEventBusBackend option \<Rightarrow> 'cb plugin_op \<Rightarrow> ('j, 'cb) PluginEventBusBackend option" where
  "plugin_step eb (PluginSubscribe t cb) = snd (eventbus_v2_subscribe t cb eb)"
| "plugin_step eb (PluginUnsubscribe t) = snd (eventbus_v2_unsubscribe t eb)"

text \<open>The specification: the callbacks with the type that they asked for.\<close>

fun wanted_step :: "(string \<times> 'cb) list \<Rightarrow> 'cb plugin_op \<Rightarrow> (string \<times> 'cb) list" where
  "wanted_step w (PluginSubscribe (Some t) cb) = w @ [(t, cb)]"
| "wanted_step w (PluginUnsubscribe (Some t)) = filter (\<lambda>(t', _). t' \<noteq> t) w"
| "wanted_step w _ = w"

definition callbacks_for :: "string \<Rightarrow> 'cb plugin_op list \<Rightarrow> 'cb list" where
  "callbacks_for t ops = map snd (filter (\<lambda>(t', _). t' = t) (foldl wanted_step [] ops))"

definition backend_shows :: "('j, 'cb) PluginEventBusBackend \<Rightarrow> (string \<times> 'cb) list \<Rightarrow> bool" where
  "backend_shows eb w \<longleftrightarrow>
     bus_middlewares (eb_bus eb) = [] \<and>
     bus_shows (eb_bus eb) (map (\<lambda>s. (es_subscription s, es_callback s)) (eb_subscriptions eb)) \<and>
     map (\<lambda>s. (es_event_type s, es_callback s)) (eb_subscriptions eb) = w \<and>
     (\<forall>s\<in>set (eb_subscriptions eb). sub_topic (es_subscription s) = es_event_type s)"

lemma backend_shows_subscribe: "backend_shows eb w \<Longrightarrow> backend_shows (backend_subscribe t cb eb) (w @ [(t, cb)])"
proof -
  assume eb: "backend_shows eb w"
  obtain s bus where s: "bus_subscribe t cb (eb_bus eb) = (s, bus)" by (cases "bus_subscribe t cb (eb_bus eb)")
  from bus_shows_subscribe [OF _ s] eb show ?thesis
    by (auto simp: backend_shows_def backend_subscribe_def s)
qed

lemma foldl_unsubscribe:
  assumes "bus_shows bus l"
  shows "bus_shows (foldl (\<lambda>bus s. snd (bus_unsubscribe (es_subscription s) bus)) bus gone)
      (filter (\<lambda>(s, _). s \<notin> es_subscription ` set gone) l) \<and>
    bus_middlewares (foldl (\<lambda>bus s. snd (bus_unsubscribe (es_subscription s) bus)) bus gone) = bus_middlewares bus"
  using assms
proof (induction gone arbitrary: bus l)
  case (Cons g gone)
  obtain b bus' where u: "bus_unsubscribe (es_subscription g) bus = (b, bus')"
    by (cases "bus_unsubscribe (es_subscription g) bus")
  note * = bus_shows_unsubscribe [OF Cons.prems u]
  have "filter (\<lambda>(s, _). s \<notin> es_subscription ` set gone) (filter (\<lambda>(s, _). s \<noteq> es_subscription g) l)
      = filter (\<lambda>(s, _). s \<notin> es_subscription ` set (g # gone)) l"
    by (auto simp: case_prod_unfold intro: filter_cong)
  with Cons.IH [OF *(3)] *(2) u show ?case by simp
qed (simp add: case_prod_unfold)

lemma backend_shows_unsubscribe:
  assumes "backend_shows eb w"
  shows "backend_shows (snd (backend_unsubscribe t eb)) (filter (\<lambda>(t', _). t' \<noteq> t) w)"
    and "fst (backend_unsubscribe t eb) \<longleftrightarrow> t \<in> fst ` set w"
proof -
  let ?subs = "eb_subscriptions eb"
  have bus: "bus_shows (eb_bus eb) (map (\<lambda>s. (es_subscription s, es_callback s)) ?subs)"
    using assms by (simp add: backend_shows_def)
  have topics: "sub_topic (es_subscription s) = es_event_type s" if "s \<in> set ?subs" for s
    using assms that by (simp add: backend_shows_def)
  have gone: "es_subscription s \<notin> es_subscription ` {s \<in> set ?subs. es_event_type s = t} \<longleftrightarrow> es_event_type s \<noteq> t"
    if "s \<in> set ?subs" for s
    proof
    assume "es_subscription s \<notin> es_subscription ` {s \<in> set ?subs. es_event_type s = t}"
    with that show "es_event_type s \<noteq> t" by blast
  next
    assume *: "es_event_type s \<noteq> t"
    show "es_subscription s \<notin> es_subscription ` {s \<in> set ?subs. es_event_type s = t}"
    proof
      assume "es_subscription s \<in> es_subscription ` {s \<in> set ?subs. es_event_type s = t}"
      then obtain r where "r \<in> set ?subs" "es_event_type r = t" "es_subscription s = es_subscription r" by blast
      with topics that * show False by metis
    qed
  qed
  have "filter (\<lambda>(s, _). s \<notin> es_subscription ` set (filter (\<lambda>s. es_event_type s = t) ?subs))
        (map (\<lambda>s. (es_subscription s, es_callback s)) ?subs)
      = map (\<lambda>s. (es_subscription s, es_callback s)) (filter (\<lambda>s. es_event_type s \<noteq> t) ?subs)"
    using gone by (auto simp: filter_map comp_def intro!: arg_cong [where f = "map _"] filter_cong)
  moreover have "filter (\<lambda>(t', _). t' \<noteq> t) w
      = map (\<lambda>s. (es_event_type s, es_callback s)) (filter (\<lambda>s. es_event_type s \<noteq> t) ?subs)"
    using assms by (auto simp: backend_shows_def filter_map comp_def)
  ultimately show "backend_shows (snd (backend_unsubscribe t eb)) (filter (\<lambda>(t', _). t' \<noteq> t) w)"
    using assms foldl_unsubscribe [OF bus, where gone = "filter (\<lambda>s. es_event_type s = t) ?subs"]
    by (auto simp: backend_shows_def backend_unsubscribe_def Let_def)
  show "fst (backend_unsubscribe t eb) \<longleftrightarrow> t \<in> fst ` set w"
    using assms by (force simp: backend_shows_def backend_unsubscribe_def Let_def filter_empty_conv)
qed

lemma plugin_runs_show:
  "\<exists>eb :: ('j, 'cb) PluginEventBusBackend. foldl plugin_step (Some PluginEventBusBackend_new) ops = Some eb \<and> backend_shows eb (foldl wanted_step [] ops)"
proof (induction ops rule: rev_induct)
  case Nil
  show ?case by (simp add: backend_shows_def bus_shows_def PluginEventBusBackend_new_def TypedEventBus_new_def topic_list_def)
next
  case (snoc op ops)
  then obtain eb :: "('j, 'cb) PluginEventBusBackend" where eb: "foldl plugin_step (Some PluginEventBusBackend_new) ops = Some eb"
    "backend_shows eb (foldl wanted_step [] ops)" by blast
  show ?case
  proof (cases op)
    case (PluginSubscribe t cb)
    then show ?thesis using eb backend_shows_subscribe
      by (cases t) (auto simp: eventbus_v2_subscribe_def)
  next
    case (PluginUnsubscribe t)
    show ?thesis
    proof (cases t)
      case (Some a)
      have "backend_shows (snd (backend_unsubscribe a eb)) (filter (\<lambda>(t', _). t' \<noteq> a) (foldl wanted_step [] ops))"
        using eb(2) by (rule backend_shows_unsubscribe)
      then show ?thesis
        using PluginUnsubscribe Some eb(1)
        by (cases "backend_unsubscribe a eb") (simp add: eventbus_v2_unsubscribe_def)
    qed (use PluginUnsubscribe eb in \<open>simp add: eventbus_v2_unsubscribe_def\<close>)
  qed
qed

lemma backend_shows_topic: "backend_shows eb w \<Longrightarrow>
    map sr_handler (topic_list (bus_inner (eb_bus eb)) t) = map snd (filter (\<lambda>(t', _). t' = t) w)"
  unfolding backend_shows_def bus_shows_def
  by (auto simp: handlers_entries_on on_topic_def filter_map comp_def intro!: arg_cong [where f = "map _"] filter_cong)

lemma map_filter_Pair: "List.map_filter (\<lambda>(cb, e). map_option (Pair cb) (f e)) (map (\<lambda>h. (h, e)) hs)
    = (case f e of None \<Rightarrow> [] | Some e' \<Rightarrow> map (\<lambda>h. (h, e')) hs)"
  by (induction hs) (auto simp: map_filter_simps split: option.split)


text \<open>Leaving a type takes every plugin's callbacks off it, and a subscriber of the wildcard hears an event of
  that name twice.\<close>

lemma unsubscribe_takes_all: "callbacks_for t (ops @ [PluginUnsubscribe (Some t)]) = []"
  by (auto simp: callbacks_for_def filter_empty_conv)

lemma wildcard_event_twice:
  assumes "bridge J now (Event_new ''*'' (event_payload J payload)) = Some ev'"
  shows "snd (eventbus_v2_publish J now (Some (backend_subscribe ''*'' cb PluginEventBusBackend_new))
    (Some \<lparr>v2_type = Some ''*'', v2_payload_json = payload, v2_timestamp_ms = time, v2_source_plugin = source\<rparr>))
    = [(cb, ev'), (cb, ev')]"
  using assms
  by (simp add: eventbus_v2_publish_def backend_publish_def backend_subscribe_def bus_subscribe_def bus_publish_def
      PluginEventBusBackend_new_def TypedEventBus_new_def Event_new_def topic_list_def Let_def map_filter_simps)

end
