(* ===== verification/Plugin_Services.thy ===== *)
theory Plugin_Services
  imports Event_Bus Abi_Sandbox
begin

text \<open>
  The services that \<open>src/plugin_manager/manager.rs\<close> offers to plugins: the backends for configuration, services
  and routes (with \<open>abi/src/http/mod.rs\<close>), and the foreign functions for these, for the event bus of
  \<open>Event_Bus\<close> and for remote calls.

  All plugins share the backends except the registry of remote calls. A C string is a string or, for a null pointer,
  \<open>None\<close>; text is valid UTF-8. The context is \<open>None\<close> if it or its services are null. The address of a
  service is a number, 0 for null. How JSON is printed is an argument.
  Left out are the values of floating point, the loggers and the tracer, which only log, releasing memory, and the
  configuration schemas.
\<close>


section \<open>Configuration\<close>

type_synonym PluginConfigBackend = "(string, string) hashmap"

definition config_get :: "string \<Rightarrow> PluginConfigBackend \<Rightarrow> string option" where
  "config_get key c = hm_get c key"

definition config_set :: "string \<Rightarrow> string \<Rightarrow> PluginConfigBackend \<Rightarrow> PluginConfigBackend" where
  "config_set key value c = hm_insert key value c"

definition config_get_bool :: "string \<Rightarrow> PluginConfigBackend \<Rightarrow> bool" where
  "config_get_bool key c = (case config_get key c of None \<Rightarrow> False | Some v \<Rightarrow> v = ''true'' \<or> v = ''1'')"

definition config_get_int :: "string \<Rightarrow> PluginConfigBackend \<Rightarrow> int" where
  "config_get_int key c =
     (case config_get key c of None \<Rightarrow> 0
      | Some v \<Rightarrow> (case parse_i64 v of None \<Rightarrow> 0 | Some i \<Rightarrow> i))"

section \<open>Services of plugins\<close>

text \<open>A service is an address; 0 is the null pointer.\<close>

type_synonym PluginServiceRegistryBackend = "(string, u64 \<times> string) hashmap"

definition reg_register :: "string \<Rightarrow> u64 \<Rightarrow> string \<Rightarrow> PluginServiceRegistryBackend \<Rightarrow> PluginServiceRegistryBackend" where
  "reg_register name service service_type r = hm_insert name (service, service_type) r"

definition reg_get :: "string \<Rightarrow> PluginServiceRegistryBackend \<Rightarrow> (u64 \<times> string) option" where
  "reg_get name r = hm_get r name"

definition reg_unregister :: "string \<Rightarrow> PluginServiceRegistryBackend \<Rightarrow> bool \<times> PluginServiceRegistryBackend" where
  "reg_unregister name r = (hm_get r name \<noteq> None, AList.delete name r)"

definition reg_list_services :: "PluginServiceRegistryBackend \<Rightarrow> string list" where
  "reg_list_services r = hm_keys r"

section \<open>Routes\<close>

datatype HttpMethod = Get | Post | Put | Delete | Patch | Head | Options

fun HttpMethod_display :: "HttpMethod \<Rightarrow> string" where
  "HttpMethod_display Get = ''GET''"
| "HttpMethod_display Post = ''POST''"
| "HttpMethod_display Put = ''PUT''"
| "HttpMethod_display Delete = ''DELETE''"
| "HttpMethod_display Patch = ''PATCH''"
| "HttpMethod_display Head = ''HEAD''"
| "HttpMethod_display Options = ''OPTIONS''"

definition HttpMethod_parse :: "string \<Rightarrow> HttpMethod option" where
  "HttpMethod_parse s =
     (let u = to_uppercase s
      in if u = ''GET'' then Some Get
         else if u = ''POST'' then Some Post
         else if u = ''PUT'' then Some Put
         else if u = ''DELETE'' then Some Delete
         else if u = ''PATCH'' then Some Patch
         else if u = ''HEAD'' then Some Head
         else if u = ''OPTIONS'' then Some Options
         else None)"

fun method_to_string :: "HttpMethod \<Rightarrow> string" where
  "method_to_string Get = ''GET''"
| "method_to_string Post = ''POST''"
| "method_to_string Put = ''PUT''"
| "method_to_string Delete = ''DELETE''"
| "method_to_string Patch = ''PATCH''"
| "method_to_string Head = ''HEAD''"
| "method_to_string Options = ''OPTIONS''"

text \<open>The names between braces: the parameters found, whether the scan is inside one, and its text so far.\<close>

fun params_step :: "string list \<times> bool \<times> string \<Rightarrow> char \<Rightarrow> string list \<times> bool \<times> string" where
  "params_step (params, in_param, current_param) ch =
     (if ch = CHR ''{'' then (params, True, [])
      else if ch = CHR ''}''
      then (if in_param \<and> current_param \<noteq> [] then params @ [current_param] else params, False, current_param)
      else if in_param then (params, in_param, current_param @ [ch])
      else (params, in_param, current_param))"

definition extract_path_params :: "string \<Rightarrow> string list" where
  "extract_path_params path = fst (foldl params_step ([], False, []) path)"

record PluginRouteEntry =
  re_method :: HttpMethod
  re_path :: string
  re_plugin_name :: string
  re_description :: "string option"
  re_user_data :: u64

record RouteMetadata =
  rm_method :: string
  rm_path :: string
  rm_description :: "string option"
  rm_plugin :: string
  rm_path_params :: "string list"
  rm_tags :: "string list"

record PluginHttpRouterBackend =
  hr_routes :: "(string, PluginRouteEntry) hashmap"
  hr_route_metadata :: "RouteMetadata list"

definition PluginHttpRouterBackend_new :: PluginHttpRouterBackend where
  "PluginHttpRouterBackend_new = \<lparr>hr_routes = [], hr_route_metadata = []\<rparr>"

definition route_key :: "HttpMethod \<Rightarrow> string \<Rightarrow> string" where
  "route_key m path = method_to_string m @ '':'' @ path"

definition register_route :: "HttpMethod \<Rightarrow> string \<Rightarrow> string \<Rightarrow> string option \<Rightarrow> u64 \<Rightarrow> PluginHttpRouterBackend
    \<Rightarrow> bool \<times> PluginHttpRouterBackend" where
  "register_route m path plugin_name description user_data b =
     (let key = route_key m path;
          entry = \<lparr>re_method = m, re_path = path, re_plugin_name = plugin_name,
                   re_description = description, re_user_data = user_data\<rparr>;
          metadata = \<lparr>rm_method = method_to_string m, rm_path = path, rm_description = description,
                      rm_plugin = plugin_name, rm_path_params = extract_path_params path, rm_tags = [plugin_name]\<rparr>
      in if hm_get (hr_routes b) key \<noteq> None then (False, b)
         else (True, \<lparr>hr_routes = hm_insert key entry (hr_routes b),
                      hr_route_metadata = hr_route_metadata b @ [metadata]\<rparr>))"

definition unregister_route :: "HttpMethod \<Rightarrow> string \<Rightarrow> PluginHttpRouterBackend \<Rightarrow> bool \<times> PluginHttpRouterBackend" where
  "unregister_route m path b =
     (let key = route_key m path
      in if hm_get (hr_routes b) key \<noteq> None
         then (True, \<lparr>hr_routes = AList.delete key (hr_routes b),
                hr_route_metadata = filter (\<lambda>x. \<not> (rm_method x = method_to_string m \<and> rm_path x = path))
                                      (hr_route_metadata b)\<rparr>)
         else (False, b))"

definition get_routes_json :: "(RouteMetadata list \<Rightarrow> string option) \<Rightarrow> PluginHttpRouterBackend \<Rightarrow> string" where
  "get_routes_json to_json b = (case to_json (hr_route_metadata b) of None \<Rightarrow> ''[]'' | Some s \<Rightarrow> s)"

definition route_count :: "PluginHttpRouterBackend \<Rightarrow> nat" where
  "route_count b = length (hr_routes b)"

text \<open>The operation that documents a route, and the paths of the OpenAPI document.\<close>

record RouteOperation =
  op_summary :: string
  op_operation_id :: string
  op_tags :: "string list"
  op_parameters :: "string list"

definition route_operation :: "RouteMetadata \<Rightarrow> RouteOperation" where
  "route_operation r =
     \<lparr>op_summary = (case rm_description r of None \<Rightarrow> [] | Some d \<Rightarrow> d),
      op_operation_id = rm_plugin r @ ''_''
        @ filter (\<lambda>c. c \<noteq> CHR ''{'' \<and> c \<noteq> CHR ''}'') (map (\<lambda>c. if c = CHR ''/'' then CHR ''_'' else c) (rm_path r)),
      op_tags = rm_tags r,
      op_parameters = rm_path_params r\<rparr>"

definition add_operation :: "(string, (string, RouteOperation) hashmap) hashmap \<Rightarrow> RouteMetadata
    \<Rightarrow> (string, (string, RouteOperation) hashmap) hashmap" where
  "add_operation paths r =
     (let path_item = (case hm_get paths (rm_path r) of None \<Rightarrow> [] | Some i \<Rightarrow> i)
      in hm_insert (rm_path r) (hm_insert (to_lowercase (rm_method r)) (route_operation r) path_item) paths)"

definition openapi_paths :: "PluginHttpRouterBackend \<Rightarrow> (string, (string, RouteOperation) hashmap) hashmap" where
  "openapi_paths b = foldl add_operation [] (hr_route_metadata b)"

definition get_openapi_spec_json :: "((string, (string, RouteOperation) hashmap) hashmap \<Rightarrow> string option)
    \<Rightarrow> PluginHttpRouterBackend \<Rightarrow> string" where
  "get_openapi_spec_json to_json b = (case to_json (openapi_paths b) of None \<Rightarrow> ''{}'' | Some s \<Rightarrow> s)"

section \<open>The functions that plugins call\<close>

record ('j, 'cb) PluginServices =
  svc_config :: PluginConfigBackend
  svc_registry :: PluginServiceRegistryBackend
  svc_event_bus :: "('j, 'cb) PluginEventBusBackend"
  svc_rpc :: RpcRegistry
  svc_http :: PluginHttpRouterBackend

definition PluginServices_new :: "('j, 'cb) PluginServices" where
  "PluginServices_new = \<lparr>svc_config = [], svc_registry = [], svc_event_bus = PluginEventBusBackend_new,
     svc_rpc = RpcRegistry_new, svc_http = PluginHttpRouterBackend_new\<rparr>"

definition config_v2_get :: "string option \<Rightarrow> ('j, 'cb) PluginServices option \<Rightarrow> string option" where
  "config_v2_get key services =
     (case (services, key) of
        (Some s, Some k) \<Rightarrow> (case config_get k (svc_config s) of None \<Rightarrow> None | Some value \<Rightarrow> CString_new value)
      | _ \<Rightarrow> None)"

definition config_v2_get_bool :: "string option \<Rightarrow> ('j, 'cb) PluginServices option \<Rightarrow> int" where
  "config_v2_get_bool key services =
     (case (services, key) of
        (Some s, Some k) \<Rightarrow> (if config_get_bool k (svc_config s) then 1 else 0)
      | _ \<Rightarrow> 0)"

definition config_v2_get_int :: "string option \<Rightarrow> ('j, 'cb) PluginServices option \<Rightarrow> int" where
  "config_v2_get_int key services =
     (case (services, key) of (Some s, Some k) \<Rightarrow> config_get_int k (svc_config s) | _ \<Rightarrow> 0)"

definition config_v2_set :: "string option \<Rightarrow> string option \<Rightarrow> ('j, 'cb) PluginServices option
    \<Rightarrow> PluginResultV2 \<times> ('j, 'cb) PluginServices option" where
  "config_v2_set key value services =
     (case services of
        None \<Rightarrow> (ServiceUnavailable, services)
      | Some s \<Rightarrow> (case (key, value) of
          (Some k, Some v) \<Rightarrow> (Success, Some (s\<lparr>svc_config := config_set k v (svc_config s)\<rparr>))
        | _ \<Rightarrow> (InvalidRequest, services)))"

definition registry_v2_register :: "string option \<Rightarrow> u64 \<Rightarrow> string option \<Rightarrow> ('j, 'cb) PluginServices option
    \<Rightarrow> PluginResultV2 \<times> ('j, 'cb) PluginServices option" where
  "registry_v2_register name service service_type services =
     (case services of
        None \<Rightarrow> (ServiceUnavailable, services)
      | Some s \<Rightarrow> (case name of
          None \<Rightarrow> (InvalidRequest, services)
        | Some n \<Rightarrow>
            if service = 0 then (InvalidRequest, services)
            else (Success, Some (s\<lparr>svc_registry := reg_register n service
                (case service_type of None \<Rightarrow> [] | Some t \<Rightarrow> t) (svc_registry s)\<rparr>))))"

definition registry_v2_get :: "string option \<Rightarrow> string option \<Rightarrow> ('j, 'cb) PluginServices option \<Rightarrow> u64" where
  "registry_v2_get name service_type services =
     (case (services, name) of
        (Some s, Some n) \<Rightarrow>
          (case reg_get n (svc_registry s) of
             None \<Rightarrow> 0
           | Some (ptr, t) \<Rightarrow>
               (case service_type of
                  None \<Rightarrow> ptr
                | Some requested_type \<Rightarrow> if t \<noteq> [] \<and> t \<noteq> requested_type then 0 else ptr))
      | _ \<Rightarrow> 0)"

definition registry_v2_unregister :: "string option \<Rightarrow> ('j, 'cb) PluginServices option
    \<Rightarrow> PluginResultV2 \<times> ('j, 'cb) PluginServices option" where
  "registry_v2_unregister name services =
     (case services of
        None \<Rightarrow> (ServiceUnavailable, services)
      | Some s \<Rightarrow> (case name of
          None \<Rightarrow> (InvalidRequest, services)
        | Some n \<Rightarrow> (case reg_unregister n (svc_registry s) of (removed, r) \<Rightarrow>
            (if removed then Success else ServiceUnavailable, Some (s\<lparr>svc_registry := r\<rparr>)))))"

text \<open>A list of names as C strings; \<open>None\<close> is the null pointer that stands for an empty one.\<close>

definition c_string_list :: "string list \<Rightarrow> string list option" where
  "c_string_list names = (let c_strings = List.map_filter CString_new names
     in if c_strings = [] then None else Some c_strings)"

definition registry_v2_list_services :: "('j, 'cb) PluginServices option \<Rightarrow> string list option" where
  "registry_v2_list_services services =
     (case services of None \<Rightarrow> None | Some s \<Rightarrow> c_string_list (reg_list_services (svc_registry s)))"

record RpcRequestV2 =
  rq_method :: "string option"
  rq_params :: "string option"
  rq_timeout_ms :: u64

record RpcResponseV2 =
  rs_result :: "string option"
  rs_error :: "string option"
  rs_status :: PluginResultV2

fun PluginResultV2_debug :: "PluginResultV2 \<Rightarrow> string" where
  "PluginResultV2_debug Success = ''Success''"
| "PluginResultV2_debug ErrorV2 = ''Error''"
| "PluginResultV2_debug InvalidRequest = ''InvalidRequest''"
| "PluginResultV2_debug ServiceUnavailable = ''ServiceUnavailable''"
| "PluginResultV2_debug PluginResultV2.PermissionDenied = ''PermissionDenied''"
| "PluginResultV2_debug NotImplemented = ''NotImplemented''"
| "PluginResultV2_debug Timeout = ''Timeout''"
| "PluginResultV2_debug ResourceExhausted = ''ResourceExhausted''"
| "PluginResultV2_debug Pending = ''Pending''"

text \<open>\<open>global\<close> is the global registry's \<open>call\<close>; \<open>response\<close> is what the pointer points to, if it is not null.\<close>

definition rpc_v2_call :: "(string \<Rightarrow> string \<Rightarrow> PluginResultV2 + string) \<Rightarrow> string option \<Rightarrow> RpcRequestV2 option
    \<Rightarrow> RpcResponseV2 option \<Rightarrow> PluginResultV2 \<times> RpcResponseV2 option" where
  "rpc_v2_call global service request response =
     (case (service, request, response) of
        (Some s, Some rq, Some rs) \<Rightarrow>
          (case global s (case rq_params rq of None \<Rightarrow> [] | Some p \<Rightarrow> p) of
             Ok result_bytes \<Rightarrow>
               (Success, Some (case CString_new result_bytes of
                   Some r \<Rightarrow> \<lparr>rs_result = Some r, rs_error = None, rs_status = Success\<rparr>
                 | None \<Rightarrow> \<lparr>rs_result = None, rs_error = None, rs_status = InvalidRequest\<rparr>))
           | Err e \<Rightarrow>
               (e, Some \<lparr>rs_result = None, rs_error = CString_new (''RPC error: '' @ PluginResultV2_debug e),
                         rs_status = e\<rparr>))
      | _ \<Rightarrow> (InvalidRequest, response))"

text \<open>The wrapper around a plugin's handler. A handler is a function from the request to what the response holds
  when it returns.\<close>

definition handler_wrapper :: "(RpcRequestV2 \<Rightarrow> RpcResponseV2) \<Rightarrow> RpcHandler" where
  "handler_wrapper handler request =
     (case CString_new request of
        None \<Rightarrow> (InvalidRequest, [])
      | Some request_cstring \<Rightarrow>
          (let response = handler \<lparr>rq_method = None, rq_params = Some request_cstring, rq_timeout_ms = 30000\<rparr>
           in (rs_status response, (case rs_result response of None \<Rightarrow> [] | Some r \<Rightarrow> r))))"

definition rpc_v2_register_handler :: "string option \<Rightarrow> (RpcRequestV2 \<Rightarrow> RpcResponseV2)
    \<Rightarrow> ('j, 'cb) PluginServices option \<Rightarrow> PluginResultV2 \<times> ('j, 'cb) PluginServices option" where
  "rpc_v2_register_handler m handler services =
     (case services of
        None \<Rightarrow> (ServiceUnavailable, services)
      | Some s \<Rightarrow> (case m of
          None \<Rightarrow> (InvalidRequest, services)
        | Some method_str \<Rightarrow>
            (Success, Some (s\<lparr>svc_rpc := snd (rpc_register method_str None None (handler_wrapper handler) (svc_rpc s))\<rparr>))))"

definition rpc_v2_list_services :: "('j, 'cb) PluginServices option \<Rightarrow> string list option" where
  "rpc_v2_list_services services =
     (case services of None \<Rightarrow> None | Some s \<Rightarrow> c_string_list (rpc_list_services (svc_rpc s)))"

definition rpc_v2_get_service_spec :: "string option \<Rightarrow> ('j, 'cb) PluginServices option \<Rightarrow> string option" where
  "rpc_v2_get_service_spec service services =
     (case (services, service) of
        (Some s, Some n) \<Rightarrow> (case get_idl (svc_rpc s) n of None \<Rightarrow> None | Some idl \<Rightarrow> CString_new idl)
      | _ \<Rightarrow> None)"

definition secrets_v2_get :: "string \<Rightarrow> string \<Rightarrow> string option" where
  "secrets_v2_get plugin secret_ref = None"

definition secrets_v2_put :: "string \<Rightarrow> string \<Rightarrow> string \<Rightarrow> PluginResultV2" where
  "secrets_v2_put plugin secret_ref value = NotImplemented"

record RouteConfigV2 =
  rc_method :: HttpMethod
  rc_path :: "string option"
  rc_description :: "string option"
  rc_plugin_name :: "string option"
  rc_user_data :: u64

definition http_router_v2_register_route :: "RouteConfigV2 option \<Rightarrow> ('j, 'cb) PluginServices option
    \<Rightarrow> PluginResultV2 \<times> ('j, 'cb) PluginServices option" where
  "http_router_v2_register_route config services =
     (case (services, config) of
        (Some s, Some c) \<Rightarrow>
          (case rc_path c of
             None \<Rightarrow> (InvalidRequest, services)
           | Some path \<Rightarrow>
               (case register_route (rc_method c) path (case rc_plugin_name c of None \<Rightarrow> ''unknown'' | Some n \<Rightarrow> n)
                       (rc_description c) (rc_user_data c) (svc_http s) of (done, b) \<Rightarrow>
                  (if done then Success else ErrorV2, Some (s\<lparr>svc_http := b\<rparr>))))
      | _ \<Rightarrow> (InvalidRequest, services))"

definition http_router_v2_unregister_route :: "HttpMethod \<Rightarrow> string option \<Rightarrow> ('j, 'cb) PluginServices option
    \<Rightarrow> PluginResultV2 \<times> ('j, 'cb) PluginServices option" where
  "http_router_v2_unregister_route m path services =
     (case (services, path) of
        (Some s, Some p) \<Rightarrow>
          (case unregister_route m p (svc_http s) of (done, b) \<Rightarrow>
             (if done then Success else ServiceUnavailable, Some (s\<lparr>svc_http := b\<rparr>)))
      | _ \<Rightarrow> (InvalidRequest, services))"

definition http_router_v2_register_middleware :: PluginResultV2 where
  "http_router_v2_register_middleware = NotImplemented"

definition http_router_v2_get_routes :: "(RouteMetadata list \<Rightarrow> string option) \<Rightarrow> ('j, 'cb) PluginServices option
    \<Rightarrow> string option" where
  "http_router_v2_get_routes to_json services =
     (case services of None \<Rightarrow> None | Some s \<Rightarrow> CString_new (get_routes_json to_json (svc_http s)))"

definition http_router_v2_get_openapi_spec :: "((string, (string, RouteOperation) hashmap) hashmap \<Rightarrow> string option)
    \<Rightarrow> ('j, 'cb) PluginServices option \<Rightarrow> string option" where
  "http_router_v2_get_openapi_spec to_json services =
     (case services of None \<Rightarrow> None | Some s \<Rightarrow> CString_new (get_openapi_spec_json to_json (svc_http s)))"

section \<open>Routes and their documentation\<close>

lemma method_key_eq: "route_key m p = route_key m' p' \<longleftrightarrow> m = m' \<and> p = p'"
  by (cases m; cases m') (auto simp: route_key_def)

lemma method_to_string_inj [simp]: "method_to_string m = method_to_string m' \<longleftrightarrow> m = m'"
  by (cases m; cases m') auto

lemma lowercase_method_inj [simp]: "to_lowercase (method_to_string m) = to_lowercase (method_to_string m') \<longleftrightarrow> m = m'"
  by (cases m; cases m') (simp_all add: to_lowercase_def to_ascii_lower_def)

lemma HttpMethod_parse_display: "HttpMethod_parse (HttpMethod_display m) = Some m \<and> HttpMethod_parse (to_lowercase (HttpMethod_display m)) = Some m"
  by (cases m; simp only:; code_simp)

text \<open>The specification: for each method and path the plugin, the description and the data of its route.\<close>

type_synonym route_map = "HttpMethod \<times> string \<rightharpoonup> string \<times> string option \<times> u64"

definition routes_of :: "PluginHttpRouterBackend \<Rightarrow> route_map" where
  "routes_of b = (\<lambda>(m, p). map_option (\<lambda>e. (re_plugin_name e, re_description e, re_user_data e))
     (hm_get (hr_routes b) (route_key m p)))"

definition entry_metadata :: "PluginRouteEntry \<Rightarrow> RouteMetadata" where
  "entry_metadata e =
     \<lparr>rm_method = method_to_string (re_method e), rm_path = re_path e, rm_description = re_description e,
      rm_plugin = re_plugin_name e, rm_path_params = extract_path_params (re_path e), rm_tags = [re_plugin_name e]\<rparr>"

definition routes_inv :: "PluginHttpRouterBackend \<Rightarrow> bool" where
  "routes_inv b \<longleftrightarrow> distinct (hm_keys (hr_routes b)) \<and>
     (\<forall>(k, e)\<in>set (hr_routes b). k = route_key (re_method e) (re_path e)) \<and>
     hr_route_metadata b = map (entry_metadata \<circ> snd) (hr_routes b)"

lemma register_route_inv:
  assumes "routes_inv b" and "register_route m p n d u b = (r, b')"
  shows "routes_inv b'" and "r \<longleftrightarrow> routes_of b (m, p) = None"
    and "routes_of b' = (if r then (routes_of b)((m, p) \<mapsto> (n, d, u)) else routes_of b)"
proof -
  show r: "r \<longleftrightarrow> routes_of b (m, p) = None"
    using assms(2) by (auto simp: register_route_def routes_of_def Let_def split: if_splits)
  show "routes_inv b'"
    using assms by (auto simp: register_route_def routes_inv_def Let_def hm_insert_fresh entry_metadata_def
        map_of_eq_None_iff split: if_splits)
  show "routes_of b' = (if r then (routes_of b)((m, p) \<mapsto> (n, d, u)) else routes_of b)"
    using assms(2) by (auto simp: register_route_def routes_of_def Let_def update_conv' method_key_eq fun_eq_iff
        split: if_splits)
qed

lemma delete_subset: "set (AList.delete k m) \<subseteq> set m"
  by (auto simp: AList.delete_eq)

lemma unregister_route_inv:
  assumes "routes_inv b" and "unregister_route m p b = (r, b')"
  shows "routes_inv b'" and "r \<longleftrightarrow> routes_of b (m, p) \<noteq> None"
    and "routes_of b' = (routes_of b)((m, p) := None)"
proof -
  have inv: "distinct (hm_keys (hr_routes b))" "\<And>k e. (k, e) \<in> set (hr_routes b) \<Longrightarrow> k = route_key (re_method e) (re_path e)"
    "hr_route_metadata b = map (entry_metadata \<circ> snd) (hr_routes b)"
    using assms(1) by (auto simp: routes_inv_def)
  show r: "r \<longleftrightarrow> routes_of b (m, p) \<noteq> None"
    using assms(2) by (auto simp: unregister_route_def routes_of_def Let_def split: if_splits)
  have keep: "filter (\<lambda>x. \<not> (rm_method x = method_to_string m \<and> rm_path x = p)) (map (entry_metadata \<circ> snd) (hr_routes b))
      = map (entry_metadata \<circ> snd) (AList.delete (route_key m p) (hr_routes b))"
    unfolding AList.delete_eq filter_map
    by (rule arg_cong [where f = "map _"], rule filter_cong)
      (auto simp: entry_metadata_def method_key_eq dest!: inv(2))
  show "routes_inv b'"
  proof (cases r)
    case True
    then have b': "b' = \<lparr>hr_routes = AList.delete (route_key m p) (hr_routes b),
        hr_route_metadata = map (entry_metadata \<circ> snd) (AList.delete (route_key m p) (hr_routes b))\<rparr>"
      using assms(2) keep by (auto simp: unregister_route_def Let_def inv(3) split: if_splits)
    then show ?thesis
      using inv(1,2) distinct_delete [OF inv(1), of "route_key m p"]
      by (auto simp: routes_inv_def dest: set_mp [OF delete_subset])
  qed (use assms in \<open>auto simp: unregister_route_def Let_def split: if_splits\<close>)
  have "hm_get (hr_routes b') (route_key m' p') = (if (m', p') = (m, p) then None else hm_get (hr_routes b) (route_key m' p'))" for m' p'
    using assms(2) by (auto simp: unregister_route_def Let_def delete_conv' method_key_eq split: if_splits)
  then show "routes_of b' = (routes_of b)((m, p) := None)"
    by (auto simp: routes_of_def fun_eq_iff)
qed

text \<open>The documentation has an operation for each route and no others.\<close>

definition documented :: "(string, (string, RouteOperation) hashmap) hashmap \<Rightarrow> string \<Rightarrow> string \<Rightarrow> RouteOperation option" where
  "documented paths p m = (case hm_get paths p of None \<Rightarrow> None | Some item \<Rightarrow> hm_get item m)"

lemma documented_add: "documented (add_operation paths r) p m =
    (if p = rm_path r \<and> m = to_lowercase (rm_method r) then Some (route_operation r) else documented paths p m)"
  by (auto simp: documented_def add_operation_def Let_def update_conv' split: option.split)

lemma documented_foldl:
  "documented (foldl add_operation paths rs) p m =
     (case find (\<lambda>r. rm_path r = p \<and> to_lowercase (rm_method r) = m) (rev rs) of
        None \<Rightarrow> documented paths p m | Some r \<Rightarrow> Some (route_operation r))"
  by (induction rs rule: rev_induct) (auto simp: documented_add)

definition operation_of :: "string \<Rightarrow> string \<times> string option \<times> u64 \<Rightarrow> RouteOperation" where
  "operation_of p = (\<lambda>(n, d, _). \<lparr>op_summary = (case d of None \<Rightarrow> [] | Some t \<Rightarrow> t),
     op_operation_id = n @ ''_'' @ filter (\<lambda>c. c \<noteq> CHR ''{'' \<and> c \<noteq> CHR ''}'') (map (\<lambda>c. if c = CHR ''/'' then CHR ''_'' else c) p),
     op_tags = [n], op_parameters = extract_path_params p\<rparr>)"

lemma find_SomeD: "find P xs = Some x \<Longrightarrow> x \<in> set xs \<and> P x"
  by (induction xs) (auto split: if_splits)

lemma routes_documented:
  assumes "routes_inv b"
  shows "documented (openapi_paths b) p (to_lowercase (method_to_string m)) = map_option (operation_of p) (routes_of b (m, p))"
proof -
  have inv: "distinct (hm_keys (hr_routes b))" "\<And>k e. (k, e) \<in> set (hr_routes b) \<Longrightarrow> k = route_key (re_method e) (re_path e)"
    "hr_route_metadata b = map (entry_metadata \<circ> snd) (hr_routes b)"
    using assms by (auto simp: routes_inv_def)
  let ?P = "\<lambda>r. rm_path r = p \<and> to_lowercase (rm_method r) = to_lowercase (method_to_string m)"
  show ?thesis
  proof (cases "hm_get (hr_routes b) (route_key m p)")
    case None
    have "find ?P (rev (hr_route_metadata b)) = None"
      using None inv(2) by (force simp: find_None_iff inv(3) entry_metadata_def map_of_eq_None_iff)
    moreover have "documented [] p (to_lowercase (method_to_string m)) = None" by (simp add: documented_def)
    ultimately show ?thesis using None
      by (simp add: openapi_paths_def documented_foldl routes_of_def)
  next
    case (Some e)
    then have e: "(route_key m p, e) \<in> set (hr_routes b)" by (rule map_of_SomeD)
    have "route_key m p = route_key (re_method e) (re_path e)" using e by (rule inv(2))
    then have me: "re_method e = m" "re_path e = p" unfolding method_key_eq by simp_all
    from e have "e \<in> snd ` set (hr_routes b)" by (rule image_eqI [rotated]) simp
    then have "entry_metadata e \<in> set (hr_route_metadata b)" by (auto simp: inv(3))
    moreover have "?P (entry_metadata e)" using me by (simp add: entry_metadata_def)
    ultimately have "find ?P (rev (hr_route_metadata b)) \<noteq> None" by (auto simp: find_None_iff)
    then obtain r where r: "find ?P (rev (hr_route_metadata b)) = Some r" by blast
    then have "r \<in> set (hr_route_metadata b)" "?P r" using find_SomeD [OF r] by simp_all
    then obtain k e' where e': "(k, e') \<in> set (hr_routes b)" "r = entry_metadata e'" "re_path e' = p" "re_method e' = m"
      by (auto simp: inv(3) entry_metadata_def)
    have "k = route_key m p" using inv(2) [OF e'(1)] e'(3,4) by simp
    then have "e' = e" using e e'(1) inv(1) by (blast dest: eq_key_imp_eq_value)
    then show ?thesis using Some r e'(2) me
      by (simp add: openapi_paths_def documented_foldl routes_of_def operation_of_def route_operation_def entry_metadata_def)
  qed
qed

text \<open>Runs of the functions that plugins call.\<close>

datatype route_op = RegisterRoute RouteConfigV2 | UnregisterRoute HttpMethod string

fun route_step :: "('j, 'cb) PluginServices \<Rightarrow> route_op \<Rightarrow> ('j, 'cb) PluginServices" where
  "route_step s (RegisterRoute c) = the (snd (http_router_v2_register_route (Some c) (Some s)))"
| "route_step s (UnregisterRoute m p) = the (snd (http_router_v2_unregister_route m (Some p) (Some s)))"

fun route_spec :: "route_map \<Rightarrow> route_op \<Rightarrow> route_map" where
  "route_spec f (RegisterRoute c) =
     (case rc_path c of None \<Rightarrow> f
      | Some p \<Rightarrow> if f (rc_method c, p) \<noteq> None then f
          else f((rc_method c, p) \<mapsto> (case rc_plugin_name c of None \<Rightarrow> ''unknown'' | Some n \<Rightarrow> n, rc_description c, rc_user_data c)))"
| "route_spec f (UnregisterRoute m p) = f((m, p) := None)"

lemma route_step_ok:
  assumes "routes_inv (svc_http s)"
  shows "routes_inv (svc_http (route_step s op)) \<and> routes_of (svc_http (route_step s op)) = route_spec (routes_of (svc_http s)) op"
proof (cases op)
  case (RegisterRoute c)
  show ?thesis
  proof (cases "rc_path c")
    case (Some p)
    let ?n = "case rc_plugin_name c of None \<Rightarrow> ''unknown'' | Some n \<Rightarrow> n"
    obtain r b where b: "register_route (rc_method c) p ?n (rc_description c) (rc_user_data c) (svc_http s) = (r, b)"
      by (cases "register_route (rc_method c) p ?n (rc_description c) (rc_user_data c) (svc_http s)")
    from register_route_inv [OF assms b] RegisterRoute Some show ?thesis
      by (cases "routes_of (svc_http s) (rc_method c, p)") (simp_all add: http_router_v2_register_route_def b)
  qed (use RegisterRoute assms in \<open>simp add: http_router_v2_register_route_def\<close>)
next
  case (UnregisterRoute m p)
  obtain r b where b: "unregister_route m p (svc_http s) = (r, b)" by (cases "unregister_route m p (svc_http s)")
  from unregister_route_inv [OF assms b] UnregisterRoute show ?thesis
    by (simp add: http_router_v2_unregister_route_def b)
qed

lemma route_run:
  "routes_inv (svc_http (foldl route_step (PluginServices_new :: ('j, 'cb) PluginServices) ops))
   \<and> routes_of (svc_http (foldl route_step (PluginServices_new :: ('j, 'cb) PluginServices) ops)) = foldl route_spec (\<lambda>_. None) ops"
proof (induction ops rule: rev_induct)
  case Nil
  show ?case by (simp add: routes_inv_def routes_of_def PluginServices_new_def PluginHttpRouterBackend_new_def fun_eq_iff)
next
  case (snoc op ops)
  then show ?case using route_step_ok [of "foldl route_step (PluginServices_new :: ('j, 'cb) PluginServices) ops" op] by simp
qed

lemma routes_facts:
  assumes inv: "routes_inv (svc_http s)" and f: "routes_of (svc_http s) = f"
  shows "fst (http_router_v2_register_route (Some c) (Some s)) =
      (case rc_path c of None \<Rightarrow> InvalidRequest | Some p \<Rightarrow> if f (rc_method c, p) = None then Success else ErrorV2)"
    and "fst (http_router_v2_unregister_route m (Some p) (Some s)) = (if f (m, p) = None then ServiceUnavailable else Success)"
    and "documented (openapi_paths (svc_http s)) p (to_lowercase (method_to_string m)) = map_option (operation_of p) (f (m, p))"
    and "length (hr_route_metadata (svc_http s)) = card (dom f) \<and> route_count (svc_http s) = card (dom f)"
proof -
  show "fst (http_router_v2_register_route (Some c) (Some s)) =
      (case rc_path c of None \<Rightarrow> InvalidRequest | Some p \<Rightarrow> if f (rc_method c, p) = None then Success else ErrorV2)"
  proof (cases "rc_path c")
    case (Some p)
    let ?n = "case rc_plugin_name c of None \<Rightarrow> ''unknown'' | Some n \<Rightarrow> n"
    obtain r b where b: "register_route (rc_method c) p ?n (rc_description c) (rc_user_data c) (svc_http s) = (r, b)"
      by (cases "register_route (rc_method c) p ?n (rc_description c) (rc_user_data c) (svc_http s)")
    with register_route_inv(2) [OF inv b] Some show ?thesis
      by (simp add: http_router_v2_register_route_def f)
  qed (simp add: http_router_v2_register_route_def)
  show "fst (http_router_v2_unregister_route m (Some p) (Some s)) = (if f (m, p) = None then ServiceUnavailable else Success)"
    by (cases "unregister_route m p (svc_http s)")
      (use unregister_route_inv(2) [OF inv] in \<open>auto simp: http_router_v2_unregister_route_def f\<close>)
  show "documented (openapi_paths (svc_http s)) p (to_lowercase (method_to_string m)) = map_option (operation_of p) (f (m, p))"
    using routes_documented [OF inv] unfolding f .
  let ?rs = "hr_routes (svc_http s)" and ?mp = "\<lambda>(k, e). (re_method e, re_path e)"
  have keys: "(k, e) \<in> set ?rs \<Longrightarrow> k = route_key (re_method e) (re_path e)" for k e
    using inv by (auto simp: routes_inv_def)
  have dist: "distinct (map fst ?rs)" using inv by (simp add: routes_inv_def)
  have "dom f = ?mp ` set ?rs"
  proof (intro set_eqI iffI)
    fix x assume "x \<in> dom f"
    then obtain m p e where x: "x = (m, p)" and "hm_get ?rs (route_key m p) = Some e"
      by (cases x) (auto simp: f [symmetric] routes_of_def)
    then have e: "(route_key m p, e) \<in> set ?rs" by (blast dest: map_of_SomeD)
    then have "re_method e = m \<and> re_path e = p" using keys [OF e] method_key_eq by metis
    with e show "x \<in> ?mp ` set ?rs" unfolding x by force
  next
    fix x assume "x \<in> ?mp ` set ?rs"
    then obtain k e where "(k, e) \<in> set ?rs" and x: "x = (re_method e, re_path e)" by auto
    then have "hm_get ?rs (route_key (re_method e) (re_path e)) = Some e"
      using dist keys map_of_is_SomeI by metis
    then show "x \<in> dom f" by (auto simp: x f [symmetric] routes_of_def)
  qed
  moreover have "inj_on ?mp (set ?rs)"
  proof (rule inj_onI, clarify)
    fix k e k' e'
    assume e: "(k, e) \<in> set ?rs" "(k', e') \<in> set ?rs" and "re_method e = re_method e'" "re_path e = re_path e'"
    then have "k = k'" using keys [OF e(1)] keys [OF e(2)] by simp
    with e dist show "k = k' \<and> e = e'" by (blast dest: eq_key_imp_eq_value)
  qed
  moreover have "distinct ?rs" using dist by (simp add: distinct_map)
  ultimately have "card (dom f) = length ?rs" by (simp add: card_image distinct_card)
  then show "length (hr_route_metadata (svc_http s)) = card (dom f) \<and> route_count (svc_http s) = card (dom f)"
    using inv by (simp add: routes_inv_def route_count_def)
qed

text \<open>The backend of routes refines a map from method and path to plugin, description and data: after any registrations
  and removals, a registration is refused exactly if the route is in the map, a removal succeeds exactly if it is, the
  OpenAPI document has exactly the operations of the routes in the map, and both counts are its size.\<close>

theorem routes_refine_map:
  "let s = foldl route_step PluginServices_new ops; f = foldl route_spec (\<lambda>_. None) ops
   in fst (http_router_v2_register_route (Some c) (Some s)) =
        (case rc_path c of None \<Rightarrow> InvalidRequest | Some p \<Rightarrow> if f (rc_method c, p) = None then Success else ErrorV2)
    \<and> fst (http_router_v2_unregister_route m (Some p) (Some s)) = (if f (m, p) = None then ServiceUnavailable else Success)
    \<and> documented (openapi_paths (svc_http s)) p (to_lowercase (method_to_string m)) = map_option (operation_of p) (f (m, p))
    \<and> length (hr_route_metadata (svc_http s)) = card (dom f) \<and> route_count (svc_http s) = card (dom f)"
  unfolding Let_def using route_run [of ops] routes_facts by blast

text \<open>Scanning a path for its parameters finds the parameters of the pattern.\<close>

datatype path_part = Lit string | Param string

fun part_text :: "path_part \<Rightarrow> string" where
  "part_text (Lit s) = s"
| "part_text (Param s) = ''{'' @ s @ ''}''"

fun part_ok :: "path_part \<Rightarrow> bool" where
  "part_ok (Lit s) \<longleftrightarrow> CHR ''{'' \<notin> set s \<and> CHR ''}'' \<notin> set s"
| "part_ok (Param s) \<longleftrightarrow> s \<noteq> [] \<and> CHR ''{'' \<notin> set s \<and> CHR ''}'' \<notin> set s"

fun part_params :: "path_part list \<Rightarrow> string list" where
  "part_params [] = []"
| "part_params (Lit s # ps) = part_params ps"
| "part_params (Param s # ps) = s # part_params ps"

lemma params_outside: "CHR ''{'' \<notin> set s \<Longrightarrow> CHR ''}'' \<notin> set s \<Longrightarrow> foldl params_step (ps, False, c) s = (ps, False, c)"
  by (induction s) auto

lemma params_inside: "CHR ''{'' \<notin> set s \<Longrightarrow> CHR ''}'' \<notin> set s \<Longrightarrow> foldl params_step (ps, True, c) s = (ps, True, c @ s)"
  by (induction s arbitrary: c) auto

lemma params_parts: "list_all part_ok parts \<Longrightarrow>
    fst (foldl params_step (ps, False, c) (concat (map part_text parts))) = ps @ part_params parts"
proof (induction parts arbitrary: ps c)
  case (Cons p parts)
  then show ?case by (cases p) (simp_all add: params_outside params_inside)
qed simp

lemma extract_path_params_parts:
  "list_all part_ok parts \<Longrightarrow> extract_path_params (concat (map part_text parts)) = part_params parts"
  by (simp add: extract_path_params_def params_parts)

section \<open>Services and remote calls\<close>

text \<open>What a lookup of a service returns after any registration: the newest service under the name, whoever
  registered it, unless both sides name different types.\<close>

datatype service_op = RegisterService string u64 "string option" | UnregisterService string

fun service_step :: "('j, 'cb) PluginServices \<Rightarrow> service_op \<Rightarrow> ('j, 'cb) PluginServices" where
  "service_step s (RegisterService n p t) = the (snd (registry_v2_register (Some n) p t (Some s)))"
| "service_step s (UnregisterService n) = the (snd (registry_v2_unregister (Some n) (Some s)))"

fun last_service :: "string \<Rightarrow> service_op list \<Rightarrow> (u64 \<times> string) option" where
  "last_service n [] = None"
| "last_service n (RegisterService n' p t # ops) =
     (if n' = n \<and> p \<noteq> 0 then Some (p, case t of None \<Rightarrow> [] | Some t \<Rightarrow> t) else last_service n ops)"
| "last_service n (UnregisterService n' # ops) = (if n' = n then None else last_service n ops)"

lemma service_lookup:
  "hm_get (svc_registry (foldl service_step PluginServices_new ops)) n = last_service n (rev ops)"
proof (induction ops rule: rev_induct)
  case Nil
  show ?case by (simp add: PluginServices_new_def)
next
  case (snoc op ops)
  then show ?case
    by (cases op) (auto simp: registry_v2_register_def registry_v2_unregister_def reg_register_def reg_unregister_def
        update_conv' delete_conv')
qed

lemma service_nonnull: "last_service n ops = Some (p, t) \<Longrightarrow> p \<noteq> 0"
  by (induction n ops rule: last_service.induct) (auto split: if_splits)

text \<open>A lookup returns the service that was registered last under the name, unless it was removed or the types differ;
  services registered without a type are returned for every requested type.\<close>

theorem service_registry_correct:
  "let s = foldl service_step PluginServices_new ops
   in registry_v2_get (Some n) requested (Some s) =
        (case last_service n (rev ops) of
           None \<Rightarrow> 0
         | Some (p, t) \<Rightarrow> if t = [] \<or> requested = None \<or> requested = Some t then p else 0)
      \<and> (fst (registry_v2_unregister (Some n) (Some s)) = Success \<longleftrightarrow> last_service n (rev ops) \<noteq> None)"
  by (auto simp: Let_def registry_v2_get_def registry_v2_unregister_def reg_get_def reg_unregister_def service_lookup
      split: option.split)

text \<open>A call of a registered handler.\<close>

lemma global_call_skip:
  "global_call heap gs service params = Err ServiceUnavailable \<Longrightarrow>
   global_call heap (gs @ rs) service params = global_call heap rs service params"
  by (induction gs) (auto split: sum.splits if_splits)

text \<open>A call of a service reaches the handler that a plugin registered under that name, if no plugin registered
  earlier provides it, and its result comes back unchanged. If the handler answers that it is unavailable, the later plugins
  are asked; with another error, the text of the handler's error is replaced by the name of the code.\<close>

theorem rpc_call_reaches_handler:
  assumes "rpc_v2_register_handler (Some m) handler (Some s) = (Success, Some s')"
    and "heap reg = svc_rpc s'" and "global_call heap gs m params = Err ServiceUnavailable"
    and "CHR 0x00 \<notin> set params"
  defines "rsp \<equiv> handler \<lparr>rq_method = None, rq_params = Some params, rq_timeout_ms = 30000\<rparr>"
  assumes "list_all (\<lambda>c. c \<noteq> CHR 0x00) (case rs_result rsp of None \<Rightarrow> [] | Some r \<Rightarrow> r)"
  shows "rpc_v2_call (global_call heap (gs @ (name, reg) # rs)) (Some m) (Some \<lparr>rq_method = x, rq_params = Some params, rq_timeout_ms = t\<rparr>) (Some old) =
    (if rs_status rsp = Success
     then (Success, Some \<lparr>rs_result = Some (case rs_result rsp of None \<Rightarrow> [] | Some r \<Rightarrow> r), rs_error = None, rs_status = Success\<rparr>)
     else if rs_status rsp = ServiceUnavailable
     then rpc_v2_call (global_call heap rs) (Some m) (Some \<lparr>rq_method = x, rq_params = Some params, rq_timeout_ms = t\<rparr>) (Some old)
     else (rs_status rsp, Some \<lparr>rs_result = None, rs_error = Some (''RPC error: '' @ PluginResultV2_debug (rs_status rsp)),
             rs_status = rs_status rsp\<rparr>))"
proof -
  have reg: "rpc_call (heap reg) m params = (if rs_status rsp = Success then Ok (case rs_result rsp of None \<Rightarrow> [] | Some r \<Rightarrow> r)
      else Err (rs_status rsp))"
    using assms(1,2,4)
    by (auto simp: rpc_v2_register_handler_def rpc_register_def rpc_call_def handler_wrapper_def CString_new_def rsp_def Let_def update_conv')
  have res: "CString_new (case rs_result rsp of None \<Rightarrow> [] | Some r \<Rightarrow> r) = Some (case rs_result rsp of None \<Rightarrow> [] | Some r \<Rightarrow> r)"
    using assms(6) by (auto simp: CString_new_def list_all_iff)
  have err: "CString_new (''RPC error: '' @ PluginResultV2_debug e) = Some (''RPC error: '' @ PluginResultV2_debug e)" for e
    by (cases e) (simp_all add: CString_new_def)
  show ?thesis
    by (simp add: rpc_v2_call_def global_call_skip [OF assms(3)] reg res err [simplified])
qed

end
