(* ===== verification/Secrets.thy ===== *)
theory Secrets
  imports Plugin_Mfa
begin

text \<open>
  Secrets of plugins, the part of \<open>abi/src/security.rs\<close> on \<open>EncryptedSecretStore\<close> and
  \<open>DefaultSecretsProvider\<close>, with \<open>PluginSecretsBackend\<close> of \<open>src/plugin_manager/manager.rs\<close>.

  The cipher (AES-256-GCM), the hash (BLAKE3, in hexadecimal) and the digest of the key are arguments; what the store relies on
  is that decryption inverts encryption, \<open>aead_law\<close>. Nonces, identifiers and the readings of the clock, in nanoseconds,
  are arguments. Clearing memory is left out.
\<close>


section \<open>The encrypted store\<close>

record Aead =
  ae_encrypt :: "byte list \<Rightarrow> byte list \<Rightarrow> byte list \<Rightarrow> byte list option"
  ae_decrypt :: "byte list \<Rightarrow> byte list \<Rightarrow> byte list \<Rightarrow> byte list option"
  ae_hash :: "byte list \<Rightarrow> string"

text \<open>The law of the cipher that the store relies on.\<close>

definition aead_law :: "Aead \<Rightarrow> bool" where
  "aead_law A \<longleftrightarrow> (\<forall>k n v c. ae_encrypt A k n v = Some c \<longrightarrow> ae_decrypt A k n c = Some v)"

record EncryptedSecretStore =
  ess_master_key :: "byte list"
  ess_secrets :: "(string, byte list \<times> byte list) hashmap"

definition EncryptedSecretStore_with_key :: "byte list \<Rightarrow> EncryptedSecretStore" where
  "EncryptedSecretStore_with_key master_key = \<lparr>ess_master_key = master_key, ess_secrets = []\<rparr>"

definition store_secret :: "Aead \<Rightarrow> byte list \<Rightarrow> string \<Rightarrow> byte list \<Rightarrow> EncryptedSecretStore
    \<Rightarrow> (SecurityError + unit) \<times> EncryptedSecretStore" where
  "store_secret A nonce name value st =
     (case ae_encrypt A (ess_master_key st) nonce value of
        None \<Rightarrow> (Err InvalidContextSignature, st)
      | Some ciphertext \<Rightarrow> (Ok (), st\<lparr>ess_secrets := hm_insert name (ciphertext, nonce) (ess_secrets st)\<rparr>))"

definition store_get :: "Aead \<Rightarrow> string \<Rightarrow> EncryptedSecretStore \<Rightarrow> SecurityError + byte list" where
  "store_get A name st =
     (case hm_get (ess_secrets st) name of
        None \<Rightarrow> Err NullPointer
      | Some (ciphertext, nonce) \<Rightarrow>
          (case ae_decrypt A (ess_master_key st) nonce ciphertext of
             Some v \<Rightarrow> Ok v
           | None \<Rightarrow> Err InvalidContextSignature))"

definition store_remove :: "string \<Rightarrow> EncryptedSecretStore \<Rightarrow> (SecurityError + unit) \<times> EncryptedSecretStore" where
  "store_remove name st =
     (if hm_get (ess_secrets st) name \<noteq> None
      then (Ok (), st\<lparr>ess_secrets := AList.delete name (ess_secrets st)\<rparr>)
      else (Err NullPointer, st))"

definition list_secret_names :: "EncryptedSecretStore \<Rightarrow> string list" where
  "list_secret_names st = hm_keys (ess_secrets st)"

text \<open>\<open>sha256_hex\<close> is the digest in hexadecimal.\<close>

definition get_key_id :: "(byte list \<Rightarrow> string) \<Rightarrow> EncryptedSecretStore \<Rightarrow> string" where
  "get_key_id sha256_hex st = take 16 (sha256_hex (take 8 (ess_master_key st)))"

definition rotate_master_key :: "Aead \<Rightarrow> byte list \<Rightarrow> EncryptedSecretStore
    \<Rightarrow> (SecurityError + unit) \<times> EncryptedSecretStore" where
  "rotate_master_key A new_key st =
     (if list_all (\<lambda>(name, ciphertext, nonce). ae_decrypt A (ess_master_key st) nonce ciphertext \<noteq> None) (ess_secrets st)
      then (Ok (), st\<lparr>ess_secrets := []\<rparr>)
      else (Err InvalidContextSignature, st))"

section \<open>Metadata\<close>

record SecretMetadata =
  sm_id :: string
  sm_name :: string
  sm_owner_plugin :: string
  sm_version :: u64
  sm_created_at :: int
  sm_updated_at :: int
  sm_expires_at :: "int option"
  sm_rotation_interval_secs :: "u64 option"
  sm_last_rotated_at :: "int option"
  sm_is_valid :: bool
  sm_labels :: "(string, string) hashmap"

definition SecretMetadata_new :: "string \<Rightarrow> int \<Rightarrow> string \<Rightarrow> string \<Rightarrow> SecretMetadata" where
  "SecretMetadata_new uuid now name owner_plugin =
     \<lparr>sm_id = ''secret-'' @ uuid, sm_name = name, sm_owner_plugin = owner_plugin, sm_version = 1,
      sm_created_at = now, sm_updated_at = now, sm_expires_at = None, sm_rotation_interval_secs = None,
      sm_last_rotated_at = None, sm_is_valid = True, sm_labels = []\<rparr>"

definition secret_is_expired :: "int \<Rightarrow> SecretMetadata \<Rightarrow> bool" where
  "secret_is_expired now m = (case sm_expires_at m of Some expires \<Rightarrow> expires < now | None \<Rightarrow> False)"

text \<open>\<open>TimeDelta::num_seconds\<close> of a difference in nanoseconds rounds towards zero.\<close>

definition num_seconds :: "int \<Rightarrow> int" where
  "num_seconds d = (if 0 \<le> d then d div 10 ^ 9 else - ((- d) div 10 ^ 9))"

definition needs_rotation :: "int \<Rightarrow> SecretMetadata \<Rightarrow> bool" where
  "needs_rotation now m =
     (case sm_rotation_interval_secs m of
        Some interval \<Rightarrow>
          (case sm_last_rotated_at m of
             Some last_rotated \<Rightarrow> interval \<le> (word_of_int (num_seconds (now - last_rotated)) :: u64)
           | None \<Rightarrow> True)
      | None \<Rightarrow> False)"

definition secret_with_label :: "string \<Rightarrow> string \<Rightarrow> SecretMetadata \<Rightarrow> SecretMetadata" where
  "secret_with_label key value m = m\<lparr>sm_labels := hm_insert key value (sm_labels m)\<rparr>"

definition secret_with_expiration :: "int \<Rightarrow> SecretMetadata \<Rightarrow> SecretMetadata" where
  "secret_with_expiration expires_at m = m\<lparr>sm_expires_at := Some expires_at\<rparr>"

definition secret_with_rotation_interval :: "u64 \<Rightarrow> SecretMetadata \<Rightarrow> SecretMetadata" where
  "secret_with_rotation_interval interval_secs m = m\<lparr>sm_rotation_interval_secs := Some interval_secs\<rparr>"

record SecretVersionEntry =
  sv_version :: u64
  sv_created_at :: int
  sv_created_by :: string
  sv_is_active :: bool
  sv_value_hash :: string

record ListSecretsOptions =
  lo_owner_plugin :: "string option"
  lo_label_filter :: "(string \<times> string) option"
  lo_include_expired :: bool
  lo_include_values :: bool

record RotationResult =
  rr_success :: bool
  rr_old_version :: u64
  rr_new_version :: u64
  rr_rotated_at :: int
  rr_error :: "string option"

section \<open>The provider\<close>

datatype SecretOperation = Get | Put | Delete | Rotate | Rollback | List

record SecretAuditEntry =
  sa_timestamp :: int
  sa_plugin_id :: string
  sa_secret_name :: string
  sa_operation :: SecretOperation
  sa_success :: bool
  sa_error :: "string option"

record DefaultSecretsProvider =
  sp_store :: EncryptedSecretStore
  sp_metadata :: "(string, SecretMetadata) hashmap"
  sp_versions :: "(string, SecretVersionEntry list) hashmap"
  sp_audit_log :: "SecretAuditEntry list"

definition with_store :: "EncryptedSecretStore \<Rightarrow> DefaultSecretsProvider" where
  "with_store st = \<lparr>sp_store = st, sp_metadata = [], sp_versions = [], sp_audit_log = []\<rparr>"

definition clear_audit_log :: "DefaultSecretsProvider \<Rightarrow> DefaultSecretsProvider" where
  "clear_audit_log p = p\<lparr>sp_audit_log := []\<rparr>"

definition secret_key :: "string \<Rightarrow> string \<Rightarrow> string" where
  "secret_key plugin_id secret_name = plugin_id @ '':'' @ secret_name"

definition log_audit :: "int \<Rightarrow> string \<Rightarrow> string \<Rightarrow> SecretOperation \<Rightarrow> bool \<Rightarrow> string option
    \<Rightarrow> DefaultSecretsProvider \<Rightarrow> DefaultSecretsProvider" where
  "log_audit now plugin_id secret_name operation success error p =
     p\<lparr>sp_audit_log := sp_audit_log p @ [\<lparr>sa_timestamp = now, sa_plugin_id = plugin_id, sa_secret_name = secret_name,
         sa_operation = operation, sa_success = success, sa_error = error\<rparr>]\<rparr>"

text \<open>The readings of the clock within an operation are \<open>t 0\<close>, \<open>t 1\<close> and so on.\<close>

definition get_secret :: "Aead \<Rightarrow> (nat \<Rightarrow> int) \<Rightarrow> string \<Rightarrow> string \<Rightarrow> DefaultSecretsProvider
    \<Rightarrow> (SecurityError + byte list) \<times> DefaultSecretsProvider" where
  "get_secret A t plugin_id secret_name p =
     (case store_get A (secret_key plugin_id secret_name) (sp_store p) of
        Ok value \<Rightarrow> (Ok value, log_audit (t 0) plugin_id secret_name Get True None p)
      | Err e \<Rightarrow> (Err e, log_audit (t 0) plugin_id secret_name Get False (Some (SecurityError_display e)) p))"

definition get_secret_metadata :: "string \<Rightarrow> string \<Rightarrow> DefaultSecretsProvider \<Rightarrow> SecurityError + SecretMetadata" where
  "get_secret_metadata plugin_id secret_name p =
     (case hm_get (sp_metadata p) (secret_key plugin_id secret_name) of
        Some m \<Rightarrow> Ok m
      | None \<Rightarrow> Err (SecretNotFound (''Secret '' @ quoted secret_name @ '' not found'')))"

definition get_secret_with_metadata :: "Aead \<Rightarrow> (nat \<Rightarrow> int) \<Rightarrow> string \<Rightarrow> string \<Rightarrow> DefaultSecretsProvider
    \<Rightarrow> (SecurityError + byte list \<times> SecretMetadata) \<times> DefaultSecretsProvider" where
  "get_secret_with_metadata A t plugin_id secret_name p =
     (case get_secret A t plugin_id secret_name p of
        (Err e, p1) \<Rightarrow> (Err e, p1)
      | (Ok value, p1) \<Rightarrow>
          (case get_secret_metadata plugin_id secret_name p1 of
             Err e \<Rightarrow> (Err e, p1)
           | Ok m \<Rightarrow> (Ok (value, m), p1)))"

definition put_secret :: "Aead \<Rightarrow> (nat \<Rightarrow> int) \<Rightarrow> byte list \<Rightarrow> string \<Rightarrow> string \<Rightarrow> string \<Rightarrow> byte list \<Rightarrow> SecretMetadata option
    \<Rightarrow> DefaultSecretsProvider \<Rightarrow> (SecurityError + unit) \<times> DefaultSecretsProvider" where
  "put_secret A t nonce uuid plugin_id secret_name value metadata p =
     (let key = secret_key plugin_id secret_name
      in case store_secret A nonce key value (sp_store p) of
           (Err e, st) \<Rightarrow> (Err e, p\<lparr>sp_store := st\<rparr>)
         | (Ok _, st) \<Rightarrow>
             (let meta = (case metadata of Some m \<Rightarrow> m | None \<Rightarrow> SecretMetadata_new uuid (t 0) secret_name plugin_id);
                  version = \<lparr>sv_version = 1, sv_created_at = t 1, sv_created_by = plugin_id, sv_is_active = True,
                             sv_value_hash = ae_hash A value\<rparr>
              in (Ok (), log_audit (t 2) plugin_id secret_name Put True None
                   (p\<lparr>sp_store := st, sp_metadata := hm_insert key meta (sp_metadata p),
                      sp_versions := hm_insert key [version] (sp_versions p)\<rparr>))))"

text \<open>\<open>get_mut\<close> on a map: changes the value under a key, if there is one.\<close>

definition hm_modify :: "'k \<Rightarrow> ('v \<Rightarrow> 'v) \<Rightarrow> ('k, 'v) hashmap \<Rightarrow> ('k, 'v) hashmap" where
  "hm_modify k f m = (case hm_get m k of None \<Rightarrow> m | Some v \<Rightarrow> hm_insert k (f v) m)"

definition delete_secret :: "(nat \<Rightarrow> int) \<Rightarrow> string \<Rightarrow> string \<Rightarrow> DefaultSecretsProvider
    \<Rightarrow> (SecurityError + unit) \<times> DefaultSecretsProvider" where
  "delete_secret t plugin_id secret_name p =
     (let key = secret_key plugin_id secret_name;
          p1 = p\<lparr>sp_metadata := hm_modify key (\<lambda>m. m\<lparr>sm_is_valid := False\<rparr>) (sp_metadata p)\<rparr>
      in case store_remove key (sp_store p1) of
           (Ok _, st) \<Rightarrow> (Ok (), log_audit (t 0) plugin_id secret_name Delete True None (p1\<lparr>sp_store := st\<rparr>))
         | (Err e, st) \<Rightarrow>
             (Err e, log_audit (t 0) plugin_id secret_name Delete False (Some (SecurityError_display e)) (p1\<lparr>sp_store := st\<rparr>)))"

definition secret_exists :: "string \<Rightarrow> string \<Rightarrow> DefaultSecretsProvider \<Rightarrow> bool" where
  "secret_exists plugin_id secret_name p \<longleftrightarrow> secret_key plugin_id secret_name \<in> set (list_secret_names (sp_store p))"

definition list_filter :: "int \<Rightarrow> string \<Rightarrow> ListSecretsOptions \<Rightarrow> SecretMetadata \<Rightarrow> bool" where
  "list_filter now plugin_id opts m \<longleftrightarrow>
     (case lo_owner_plugin opts of Some owner \<Rightarrow> sm_owner_plugin m = owner | None \<Rightarrow> sm_owner_plugin m = plugin_id) \<and>
     (case lo_label_filter opts of Some (key, value) \<Rightarrow> hm_get (sm_labels m) key = Some value | None \<Rightarrow> True) \<and>
     (lo_include_expired opts \<or> \<not> secret_is_expired now m)"

text \<open>The clock is read once for each secret that is tested, at \<open>now\<close> here.\<close>

definition list_secrets :: "int \<Rightarrow> (nat \<Rightarrow> int) \<Rightarrow> string \<Rightarrow> ListSecretsOptions \<Rightarrow> DefaultSecretsProvider
    \<Rightarrow> SecretMetadata list \<times> DefaultSecretsProvider" where
  "list_secrets now t plugin_id opts p =
     (sort_key sm_name (filter (list_filter now plugin_id opts) (map snd (sp_metadata p))),
      log_audit (t 0) plugin_id ''*'' List True None p)"

definition rotate_secret :: "Aead \<Rightarrow> (nat \<Rightarrow> int) \<Rightarrow> byte list \<Rightarrow> string \<Rightarrow> string \<Rightarrow> byte list
    \<Rightarrow> DefaultSecretsProvider \<Rightarrow> (SecurityError + RotationResult) \<times> DefaultSecretsProvider" where
  "rotate_secret A t nonce plugin_id secret_name new_value p =
     (let key = secret_key plugin_id secret_name;
          old_version = (case hm_get (sp_versions p) key of None \<Rightarrow> 0 | Some vs \<Rightarrow> if vs = [] then 0 else sv_version (last vs));
          new_version = old_version + 1
      in case store_secret A nonce key new_value (sp_store p) of
           (Err e, st) \<Rightarrow> (Err e, p\<lparr>sp_store := st\<rparr>)
         | (Ok _, st) \<Rightarrow>
             (let version = \<lparr>sv_version = new_version, sv_created_at = t 2, sv_created_by = plugin_id, sv_is_active = True,
                             sv_value_hash = ae_hash A new_value\<rparr>
              in (Ok \<lparr>rr_success = True, rr_old_version = old_version, rr_new_version = new_version,
                      rr_rotated_at = t 4, rr_error = None\<rparr>,
                  log_audit (t 3) plugin_id secret_name Rotate True None
                    (p\<lparr>sp_store := st,
                       sp_metadata := hm_modify key (\<lambda>m. m\<lparr>sm_version := new_version, sm_updated_at := t 0,
                         sm_last_rotated_at := Some (t 1)\<rparr>) (sp_metadata p),
                       sp_versions := hm_modify key (\<lambda>vs. map (\<lambda>v. v\<lparr>sv_is_active := False\<rparr>) vs @ [version])
                         (sp_versions p)\<rparr>))))"

definition rollback_secret :: "string \<Rightarrow> string \<Rightarrow> u64 \<Rightarrow> SecurityError + RotationResult" where
  "rollback_secret plugin_id secret_name version =
     Err (RotationFailed (''Rollback to version '' @ show_u64 version @ '' not implemented - requires versioned store''))"

definition get_secret_versions :: "string \<Rightarrow> string \<Rightarrow> DefaultSecretsProvider \<Rightarrow> SecurityError + SecretVersionEntry list" where
  "get_secret_versions plugin_id secret_name p =
     (case hm_get (sp_versions p) (secret_key plugin_id secret_name) of
        Some vs \<Rightarrow> Ok vs
      | None \<Rightarrow> Err (SecretNotFound (''Secret '' @ quoted secret_name @ '' not found'')))"

definition set_rotation :: "u64 option \<Rightarrow> string \<Rightarrow> string \<Rightarrow> DefaultSecretsProvider
    \<Rightarrow> (SecurityError + unit) \<times> DefaultSecretsProvider" where
  "set_rotation interval plugin_id secret_name p =
     (let key = secret_key plugin_id secret_name
      in if hm_get (sp_metadata p) key \<noteq> None
         then (Ok (), p\<lparr>sp_metadata := hm_modify key (\<lambda>m. m\<lparr>sm_rotation_interval_secs := interval\<rparr>) (sp_metadata p)\<rparr>)
         else (Err (SecretNotFound (''Secret '' @ quoted secret_name @ '' not found'')), p))"

definition schedule_rotation :: "string \<Rightarrow> string \<Rightarrow> u64 \<Rightarrow> DefaultSecretsProvider
    \<Rightarrow> (SecurityError + unit) \<times> DefaultSecretsProvider" where
  "schedule_rotation plugin_id secret_name interval_secs p = set_rotation (Some interval_secs) plugin_id secret_name p"

definition cancel_rotation :: "string \<Rightarrow> string \<Rightarrow> DefaultSecretsProvider \<Rightarrow> (SecurityError + unit) \<times> DefaultSecretsProvider" where
  "cancel_rotation plugin_id secret_name p = set_rotation None plugin_id secret_name p"

fun get_secrets_batch :: "Aead \<Rightarrow> (nat \<Rightarrow> int) \<Rightarrow> string \<Rightarrow> string list \<Rightarrow> (string, byte list) hashmap
    \<Rightarrow> DefaultSecretsProvider \<Rightarrow> (string, byte list) hashmap \<times> DefaultSecretsProvider" where
  "get_secrets_batch A t plugin_id [] results p = (results, p)"
| "get_secrets_batch A t plugin_id (name # names) results p =
     (case get_secret A t plugin_id name p of
        (Ok value, p1) \<Rightarrow> get_secrets_batch A (\<lambda>i. t (i + 1)) plugin_id names (hm_insert name value results) p1
      | (Err e, p1) \<Rightarrow> get_secrets_batch A (\<lambda>i. t (i + 2)) plugin_id names results
          (log_audit (t 1) plugin_id name Get False (Some (SecurityError_display e)) p1))"

fun put_secrets_batch :: "Aead \<Rightarrow> (nat \<Rightarrow> int) \<Rightarrow> (nat \<Rightarrow> byte list) \<Rightarrow> (nat \<Rightarrow> string) \<Rightarrow> string \<Rightarrow> (string \<times> byte list) list
    \<Rightarrow> DefaultSecretsProvider \<Rightarrow> (SecurityError + unit) \<times> DefaultSecretsProvider" where
  "put_secrets_batch A t nonce uuid plugin_id [] p = (Ok (), p)"
| "put_secrets_batch A t nonce uuid plugin_id ((name, value) # secrets) p =
     (case put_secret A t (nonce 0) (uuid 0) plugin_id name value None p of
        (Err e, p1) \<Rightarrow> (Err e, p1)
      | (Ok _, p1) \<Rightarrow>
          put_secrets_batch A (\<lambda>i. t (i + 3)) (\<lambda>i. nonce (i + 1)) (\<lambda>i. uuid (i + 1)) plugin_id secrets p1)"

section \<open>The backend of the plugin manager\<close>

text \<open>\<open>from_utf8\<close> decodes text.\<close>

definition secrets_get :: "Aead \<Rightarrow> (byte list \<Rightarrow> string option) \<Rightarrow> (nat \<Rightarrow> int) \<Rightarrow> string \<Rightarrow> string \<Rightarrow> DefaultSecretsProvider
    \<Rightarrow> string option \<times> DefaultSecretsProvider" where
  "secrets_get A from_utf8 t plugin_id secret_name p =
     (case get_secret A t plugin_id secret_name p of
        (Ok bs, p1) \<Rightarrow> (from_utf8 bs, p1)
      | (Err _, p1) \<Rightarrow> (None, p1))"

definition secrets_put :: "Aead \<Rightarrow> (nat \<Rightarrow> int) \<Rightarrow> byte list \<Rightarrow> string \<Rightarrow> string \<Rightarrow> string \<Rightarrow> byte list \<Rightarrow> DefaultSecretsProvider
    \<Rightarrow> bool \<times> DefaultSecretsProvider" where
  "secrets_put A t nonce uuid plugin_id secret_name value p =
     (case put_secret A t nonce uuid plugin_id secret_name value None p of
        (Ok _, p1) \<Rightarrow> (True, p1)
      | (Err _, p1) \<Rightarrow> (False, p1))"

section \<open>Runs\<close>

text \<open>The operations on single secrets, with the nonces, identifiers and times that they get.\<close>

datatype secret_op =
    PutOp string string "byte list" "SecretMetadata option" "byte list" string "nat \<Rightarrow> int"
  | RotateOp string string "byte list" "byte list" "nat \<Rightarrow> int"
  | DeleteOp string string "nat \<Rightarrow> int"
  | GetOp string string "nat \<Rightarrow> int"
  | ScheduleOp string string "u64 option"

fun secret_step :: "Aead \<Rightarrow> DefaultSecretsProvider \<Rightarrow> secret_op \<Rightarrow> DefaultSecretsProvider" where
  "secret_step A p (PutOp plugin name value m nonce uuid t) = snd (put_secret A t nonce uuid plugin name value m p)"
| "secret_step A p (RotateOp plugin name value nonce t) = snd (rotate_secret A t nonce plugin name value p)"
| "secret_step A p (DeleteOp plugin name t) = snd (delete_secret t plugin name p)"
| "secret_step A p (GetOp plugin name t) = snd (get_secret A t plugin name p)"
| "secret_step A p (ScheduleOp plugin name (Some i)) = snd (schedule_rotation plugin name i p)"
| "secret_step A p (ScheduleOp plugin name None) = snd (cancel_rotation plugin name p)"

fun op_target :: "secret_op \<Rightarrow> string \<times> string" where
  "op_target (PutOp plugin name value m nonce uuid t) = (plugin, name)"
| "op_target (RotateOp plugin name value nonce t) = (plugin, name)"
| "op_target (DeleteOp plugin name t) = (plugin, name)"
| "op_target (GetOp plugin name t) = (plugin, name)"
| "op_target (ScheduleOp plugin name i) = (plugin, name)"

text \<open>The specification: a value for each key. A value that cannot be encrypted is not stored.\<close>

fun value_step :: "Aead \<Rightarrow> byte list \<Rightarrow> (string \<rightharpoonup> byte list) \<Rightarrow> secret_op \<Rightarrow> (string \<rightharpoonup> byte list)" where
  "value_step A k f (PutOp plugin name value m nonce uuid t) =
     (if ae_encrypt A k nonce value = None then f else f(secret_key plugin name \<mapsto> value))"
| "value_step A k f (RotateOp plugin name value nonce t) =
     (if ae_encrypt A k nonce value = None then f else f(secret_key plugin name \<mapsto> value))"
| "value_step A k f (DeleteOp plugin name t) = f(secret_key plugin name := None)"
| "value_step A k f _ = f"

definition provider_run :: "Aead \<Rightarrow> byte list \<Rightarrow> secret_op list \<Rightarrow> DefaultSecretsProvider" where
  "provider_run A k ops = foldl (secret_step A) (with_store (EncryptedSecretStore_with_key k)) ops"

definition values_after :: "Aead \<Rightarrow> byte list \<Rightarrow> secret_op list \<Rightarrow> (string \<rightharpoonup> byte list)" where
  "values_after A k ops = foldl (value_step A k) (\<lambda>_. None) ops"

definition store_shows :: "Aead \<Rightarrow> byte list \<Rightarrow> (string \<rightharpoonup> byte list) \<Rightarrow> EncryptedSecretStore \<Rightarrow> bool" where
  "store_shows A k f st \<longleftrightarrow> ess_master_key st = k \<and> distinct (hm_keys (ess_secrets st)) \<and>
     (\<forall>key. rel_option (\<lambda>(c, n) v. ae_decrypt A k n c = Some v) (hm_get (ess_secrets st) key) (f key))"

lemma store_shows_get:
  assumes "store_shows A k f st"
  shows "store_get A key st = (case f key of None \<Rightarrow> Err NullPointer | Some v \<Rightarrow> Ok v)"
    and "hm_get (ess_secrets st) key = None \<longleftrightarrow> f key = None"
proof -
  have "rel_option (\<lambda>(c, n) v. ae_decrypt A k n c = Some v) (hm_get (ess_secrets st) key) (f key)" and "ess_master_key st = k"
    using assms by (simp_all add: store_shows_def)
  then show "store_get A key st = (case f key of None \<Rightarrow> Err NullPointer | Some v \<Rightarrow> Ok v)"
    and "hm_get (ess_secrets st) key = None \<longleftrightarrow> f key = None"
    by (cases rule: option.rel_cases, auto simp: store_get_def)+
qed

lemma store_shows_put:
  assumes "aead_law A" and "store_shows A k f st" and "store_secret A nonce key v st = (r, st')"
  shows "r = (if ae_encrypt A k nonce v = None then Err InvalidContextSignature else Ok ())"
    and "store_shows A k (if ae_encrypt A k nonce v = None then f else f(key \<mapsto> v)) st'"
proof -
  have k: "ess_master_key st = k" using assms(2) by (simp add: store_shows_def)
  show "r = (if ae_encrypt A k nonce v = None then Err InvalidContextSignature else Ok ())"
    using assms(3) by (auto simp: store_secret_def k split: option.splits)
  show "store_shows A k (if ae_encrypt A k nonce v = None then f else f(key \<mapsto> v)) st'"
  proof (cases "ae_encrypt A k nonce v")
    case None
    then show ?thesis using assms by (simp add: store_secret_def k)
  next
    case (Some c)
    have "ae_decrypt A k nonce c = Some v" using assms(1) Some by (simp add: aead_law_def)
    moreover have "st' = st\<lparr>ess_secrets := hm_insert key (c, nonce) (ess_secrets st)\<rparr>"
      using assms(3) Some by (simp add: store_secret_def k)
    ultimately show ?thesis
      using assms(2) Some by (simp add: store_shows_def update_conv' distinct_update)
  qed
qed

lemma store_shows_remove:
  assumes "store_shows A k f st" and "store_remove key st = (r, st')"
  shows "r = (if f key = None then Err NullPointer else Ok ())" and "store_shows A k (f(key := None)) st'"
proof -
  note get = store_shows_get(2) [OF assms(1), of key]
  show "r = (if f key = None then Err NullPointer else Ok ())"
    using assms(2) get by (auto simp: store_remove_def split: if_splits)
  show "store_shows A k (f(key := None)) st'"
  proof (cases "f key")
    case None
    then have "f(key := None) = f" by auto
    then show ?thesis using assms get None by (simp add: store_remove_def)
  next
    case (Some v)
    then have "st' = st\<lparr>ess_secrets := AList.delete key (ess_secrets st)\<rparr>"
      using assms(2) get by (auto simp: store_remove_def split: if_splits)
    then show ?thesis using assms(1) by (simp add: store_shows_def delete_conv' distinct_delete)
  qed
qed

lemma hm_modify_get: "hm_get (hm_modify k f m) k' = (if k' = k then map_option f (hm_get m k) else hm_get m k')"
  by (auto simp: hm_modify_def update_conv' split: option.split)

lemma log_audit_simps [simp]:
  "sp_store (log_audit t a b c d e p) = sp_store p"
  "sp_metadata (log_audit t a b c d e p) = sp_metadata p"
  "sp_versions (log_audit t a b c d e p) = sp_versions p"
  by (simp_all add: log_audit_def)

text \<open>The history of a key: numbered from 1, only the newest version is active, and its hash is that of the stored value.\<close>

definition history_ok :: "Aead \<Rightarrow> SecretVersionEntry list \<Rightarrow> byte list option \<Rightarrow> bool" where
  "history_ok A vs v \<longleftrightarrow> vs \<noteq> [] \<and> (\<forall>i<length vs. sv_version (vs ! i) = of_nat (i + 1)) \<and>
     (\<forall>i<length vs. sv_is_active (vs ! i) \<longleftrightarrow> i = length vs - 1) \<and>
     (case v of None \<Rightarrow> True | Some b \<Rightarrow> sv_value_hash (last vs) = ae_hash A b)"

lemma history_single: "history_ok A [\<lparr>sv_version = 1, sv_created_at = t, sv_created_by = c, sv_is_active = True, sv_value_hash = ae_hash A v\<rparr>] (Some v)"
  by (simp add: history_ok_def)

lemma history_rotate:
  assumes "history_ok A vs w"
  shows "history_ok A (map (\<lambda>v. v\<lparr>sv_is_active := False\<rparr>) vs @ [\<lparr>sv_version = sv_version (last vs) + 1, sv_created_at = t,
    sv_created_by = c, sv_is_active = True, sv_value_hash = ae_hash A v\<rparr>]) (Some v)"
proof -
  have "sv_version (last vs) = of_nat (length vs)"
    using assms by (auto simp: history_ok_def last_conv_nth simp del: of_nat_Suc)
  then show ?thesis using assms by (auto simp: history_ok_def nth_append less_Suc_eq add.commute)
qed

definition histories_ok :: "Aead \<Rightarrow> (string \<rightharpoonup> byte list) \<Rightarrow> (string, SecretVersionEntry list) hashmap \<Rightarrow> bool" where
  "histories_ok A f m \<longleftrightarrow> (\<forall>key vs. hm_get m key = Some vs \<longrightarrow> history_ok A vs (f key))"

definition provider_shows :: "Aead \<Rightarrow> byte list \<Rightarrow> (string \<rightharpoonup> byte list) \<Rightarrow> DefaultSecretsProvider \<Rightarrow> bool" where
  "provider_shows A k f p \<longleftrightarrow> store_shows A k f (sp_store p) \<and>
     histories_ok A f (sp_versions p)"

lemma secret_step_shows:
  assumes A: "aead_law A" and p: "provider_shows A k f p"
  shows "provider_shows A k (value_step A k f op) (secret_step A p op)"
proof -
  have st: "store_shows A k f (sp_store p)" and vs: "histories_ok A f (sp_versions p)"
    using p by (auto simp: provider_shows_def)
  show ?thesis
  proof (cases op)
    case (PutOp plugin name v m nonce uuid t)
    obtain r st' where put: "store_secret A nonce (secret_key plugin name) v (sp_store p) = (r, st')"
      by (cases "store_secret A nonce (secret_key plugin name) v (sp_store p)")
    note sh = store_shows_put [OF A st put]
    show ?thesis
    proof (cases "ae_encrypt A k nonce v")
      case None
      with sh vs PutOp show ?thesis by (simp add: provider_shows_def put_secret_def put Let_def)
    next
      case (Some c)
      with sh(1) have r: "r = Ok ()" by simp
      from Some sh vs PutOp show ?thesis
        by (simp add: provider_shows_def put_secret_def put r Let_def histories_ok_def update_conv' history_single)
    qed
  next
    case (RotateOp plugin name v nonce t)
    obtain r st' where put: "store_secret A nonce (secret_key plugin name) v (sp_store p) = (r, st')"
      by (cases "store_secret A nonce (secret_key plugin name) v (sp_store p)")
    note sh = store_shows_put [OF A st put]
    show ?thesis
    proof (cases "ae_encrypt A k nonce v")
      case None
      with sh vs RotateOp show ?thesis by (simp add: provider_shows_def rotate_secret_def put Let_def)
    next
      case (Some c)
      with sh(1) have r: "r = Ok ()" by simp
      show ?thesis
      proof (cases "hm_get (sp_versions p) (secret_key plugin name)")
        case None
        with Some sh vs RotateOp show ?thesis
          by (auto simp: provider_shows_def rotate_secret_def put r Let_def histories_ok_def hm_modify_get)
      next
        case (Some ws)
        with vs have "history_ok A ws (f (secret_key plugin name))" by (simp add: histories_ok_def)
        moreover from this have "ws \<noteq> []" by (simp add: history_ok_def)
        ultimately show ?thesis using Some sh vs RotateOp \<open>ae_encrypt A k nonce v = Some c\<close> history_rotate
          by (fastforce simp: provider_shows_def rotate_secret_def put r Let_def histories_ok_def hm_modify_get)
      qed
    qed
  next
    case (DeleteOp plugin name t)
    obtain r st' where rem: "store_remove (secret_key plugin name) (sp_store p) = (r, st')"
      by (cases "store_remove (secret_key plugin name) (sp_store p)")
    note sh = store_shows_remove [OF st rem]
    have "histories_ok A (f(secret_key plugin name := None)) (sp_versions p)"
      using vs by (auto simp: histories_ok_def history_ok_def)
    then show ?thesis using sh DeleteOp
      by (cases r) (simp_all add: provider_shows_def delete_secret_def rem Let_def)
  next
    case (GetOp plugin name t)
    then show ?thesis using p
      by (cases "store_get A (secret_key plugin name) (sp_store p)") (simp_all add: provider_shows_def get_secret_def)
  next
    case (ScheduleOp plugin name i)
    then show ?thesis using p
      by (cases i) (simp_all add: provider_shows_def schedule_rotation_def cancel_rotation_def set_rotation_def Let_def)
  qed
qed

lemma provider_run_shows: "aead_law A \<Longrightarrow> provider_shows A k (values_after A k ops) (provider_run A k ops)"
proof (induction ops rule: rev_induct)
  case Nil
  show ?case
    by (simp add: provider_shows_def store_shows_def histories_ok_def provider_run_def values_after_def with_store_def
        EncryptedSecretStore_with_key_def store_get_def)
next
  case (snoc op ops)
  then show ?case using secret_step_shows by (simp add: provider_run_def values_after_def)
qed

text \<open>(C29) If decryption inverts encryption, the provider refines a map from keys to values: after any puts, rotations,
  deletions and other operations, reading, testing and deleting a secret answer as the map says, where the key is the plugin's
  identifier and the secret's name with a colon between them.\<close>

theorem secrets_refine_map:
  assumes "aead_law A"
  shows "let p = provider_run A k ops; f = values_after A k ops
    in fst (get_secret A t plugin name p) = (case f (secret_key plugin name) of None \<Rightarrow> Err NullPointer | Some v \<Rightarrow> Ok v)
    \<and> (secret_exists plugin name p \<longleftrightarrow> f (secret_key plugin name) \<noteq> None)
    \<and> fst (delete_secret t plugin name p) = (if f (secret_key plugin name) = None then Err NullPointer else Ok ())"
proof -
  define p f where "p = provider_run A k ops" and "f = values_after A k ops"
  have st: "store_shows A k f (sp_store p)"
    using provider_run_shows [OF assms(1)] unfolding p_def f_def by (simp add: provider_shows_def)
  obtain r st' where rem: "store_remove (secret_key plugin name) (sp_store p) = (r, st')"
    by (cases "store_remove (secret_key plugin name) (sp_store p)")
  have "secret_exists plugin name p \<longleftrightarrow> f (secret_key plugin name) \<noteq> None"
    using store_shows_get(2) [OF st, of "secret_key plugin name"]
    unfolding secret_exists_def list_secret_names_def set_map map_of_eq_None_iff by argo
  moreover have "fst (get_secret A t plugin name p) = (case f (secret_key plugin name) of None \<Rightarrow> Err NullPointer | Some v \<Rightarrow> Ok v)"
    using store_shows_get(1) [OF st] by (simp add: get_secret_def split: option.split)
  moreover have "fst (delete_secret t plugin name p) = (if f (secret_key plugin name) = None then Err NullPointer else Ok ())"
    using store_shows_remove(1) [OF st rem] by (cases r) (auto simp: delete_secret_def rem Let_def split: if_splits)
  ultimately show ?thesis unfolding Let_def p_def f_def by blast
qed

text \<open>After any operations the history of a secret is numbered from 1 without gaps, exactly the newest version is
  active, and its hash is the hash of the value that can be read.\<close>

theorem secret_history:
  assumes "aead_law A"
  shows "case get_secret_versions plugin name (provider_run A k ops) of Err _ \<Rightarrow> True
    | Ok vs \<Rightarrow> vs \<noteq> [] \<and> (\<forall>i<length vs. sv_version (vs ! i) = of_nat (i + 1) \<and> (sv_is_active (vs ! i) \<longleftrightarrow> i = length vs - 1))
        \<and> (case fst (get_secret A t plugin name (provider_run A k ops)) of Err _ \<Rightarrow> True
           | Ok v \<Rightarrow> sv_value_hash (last vs) = ae_hash A v)"
proof -
  note sh = provider_run_shows [OF assms, of k ops]
  then have st: "store_shows A k (values_after A k ops) (sp_store (provider_run A k ops))" by (simp add: provider_shows_def)
  have get: "fst (get_secret A t plugin name (provider_run A k ops)) =
      (case values_after A k ops (secret_key plugin name) of None \<Rightarrow> Err NullPointer | Some v \<Rightarrow> Ok v)"
    using store_shows_get(1) [OF st] by (simp add: get_secret_def split: option.split)
  show ?thesis
  proof (cases "hm_get (sp_versions (provider_run A k ops)) (secret_key plugin name)")
    case (Some vs)
    then have "history_ok A vs (values_after A k ops (secret_key plugin name))"
      using sh by (simp add: provider_shows_def histories_ok_def)
    then show ?thesis using Some get by (simp add: get_secret_versions_def history_ok_def split: option.splits)
  qed (simp add: get_secret_versions_def)
qed

lemma secret_key_inj:
  "CHR '':'' \<notin> set a \<Longrightarrow> CHR '':'' \<notin> set b \<Longrightarrow> secret_key a n = secret_key b m \<longleftrightarrow> a = b \<and> n = m"
proof (induction a arbitrary: b)
  case Nil
  then show ?case by (cases b) (auto simp: secret_key_def)
next
  case (Cons x a)
  then show ?case by (cases b) (auto simp: secret_key_def)
qed

lemma store_other:
  "store_secret A nonce key v st = (r, st') \<Longrightarrow> key' \<noteq> key \<Longrightarrow> store_get A key' st' = store_get A key' st"
  "store_remove key st = (r', st'') \<Longrightarrow> key' \<noteq> key \<Longrightarrow> store_get A key' st'' = store_get A key' st"
  by (auto simp: store_secret_def store_remove_def store_get_def update_conv' delete_conv' split: option.splits if_splits)

lemma secret_step_store:
  assumes "key' \<noteq> secret_key (fst (op_target op)) (snd (op_target op))"
  shows "store_get A key' (sp_store (secret_step A p op)) = store_get A key' (sp_store p)"
    and "hm_get (sp_metadata (secret_step A p op)) key' = hm_get (sp_metadata p) key'"
    and "hm_get (sp_versions (secret_step A p op)) key' = hm_get (sp_versions p) key'"
proof (atomize (full), goal_cases)
  case 1
  show ?case
  proof (cases op)
    case (PutOp plugin name v m nonce uuid t)
    obtain r st' where put: "store_secret A nonce (secret_key plugin name) v (sp_store p) = (r, st')"
      by (cases "store_secret A nonce (secret_key plugin name) v (sp_store p)")
    then show ?thesis using PutOp assms store_other(1) [OF put, of key']
      by (cases r) (simp_all add: put_secret_def Let_def update_conv')
  next
    case (RotateOp plugin name v nonce t)
    obtain r st' where put: "store_secret A nonce (secret_key plugin name) v (sp_store p) = (r, st')"
      by (cases "store_secret A nonce (secret_key plugin name) v (sp_store p)")
    then show ?thesis using RotateOp assms store_other(1) [OF put, of key']
      by (cases r) (simp_all add: rotate_secret_def Let_def hm_modify_get)
  next
    case (DeleteOp plugin name t)
    obtain r st' where rem: "store_remove (secret_key plugin name) (sp_store p) = (r, st')"
      by (cases "store_remove (secret_key plugin name) (sp_store p)")
    then show ?thesis using DeleteOp assms store_other(2) [OF rem, of key' A]
      by (cases r) (simp_all add: delete_secret_def Let_def hm_modify_get)
  next
    case (GetOp plugin name t)
    then show ?thesis by (cases "store_get A (secret_key plugin name) (sp_store p)") (simp_all add: get_secret_def)
  next
    case (ScheduleOp plugin name i)
    then show ?thesis using assms
      by (cases i) (simp_all add: schedule_rotation_def cancel_rotation_def set_rotation_def Let_def hm_modify_get)
  qed
qed

text \<open>As long as no identifier of a plugin has a colon, an operation of a plugin on a secret changes neither the
  value nor the metadata nor the history of any other secret, of this or another plugin.\<close>

theorem secrets_isolated:
  assumes "op_target op = (q, m)" and "(plugin, name) \<noteq> (q, m)"
    and "CHR '':'' \<notin> set plugin" and "CHR '':'' \<notin> set q"
  shows "fst (get_secret A t plugin name (secret_step A p op)) = fst (get_secret A t plugin name p)
    \<and> get_secret_metadata plugin name (secret_step A p op) = get_secret_metadata plugin name p
    \<and> get_secret_versions plugin name (secret_step A p op) = get_secret_versions plugin name p"
proof -
  have "secret_key plugin name \<noteq> secret_key q m" using assms(2-4) secret_key_inj by auto
  then have ne: "secret_key plugin name \<noteq> secret_key (fst (op_target op)) (snd (op_target op))" using assms(1) by simp
  then show ?thesis using secret_step_store [OF ne]
    by (simp add: get_secret_def get_secret_metadata_def get_secret_versions_def split: sum.split)
qed

text \<open>With a colon in an identifier one plugin reads, replaces and deletes the secrets of another.\<close>

lemma cross_plugin_read:
  assumes "aead_law A" and "ae_encrypt A (ess_master_key (sp_store p)) nonce v \<noteq> None"
  shows "fst (get_secret A t' ''a:b'' ''c'' (snd (put_secret A t nonce uuid ''a'' ''b:c'' v m p))) = Ok v"
proof -
  obtain c where c: "ae_encrypt A (ess_master_key (sp_store p)) nonce v = Some c" using assms(2) by blast
  then have "ae_decrypt A (ess_master_key (sp_store p)) nonce c = Some v" using assms(1) by (simp add: aead_law_def)
  then show ?thesis
    by (simp add: put_secret_def store_secret_def c Let_def get_secret_def store_get_def secret_key_def update_conv')
qed

text \<open>Putting a secret again starts its history anew, and deleting one leaves its metadata in the listing.\<close>

lemma put_restarts_history:
  assumes "fst (put_secret A t nonce uuid plugin name v m p) = Ok ()"
  shows "get_secret_versions plugin name (snd (put_secret A t nonce uuid plugin name v m p)) =
    Ok [\<lparr>sv_version = 1, sv_created_at = t 1, sv_created_by = plugin, sv_is_active = True, sv_value_hash = ae_hash A v\<rparr>]"
  using assms by (auto simp: put_secret_def get_secret_versions_def Let_def update_conv' split: sum.splits prod.splits)

lemma deleted_still_listed:
  assumes "hm_get (sp_metadata p) (secret_key plugin name) = Some m" and "list_filter now q opts m"
  shows "m\<lparr>sm_is_valid := False\<rparr> \<in> set (fst (list_secrets now t q opts (snd (delete_secret t plugin name p))))"
proof -
  obtain r st where rem: "store_remove (secret_key plugin name) (sp_store p) = (r, st)"
    by (cases "store_remove (secret_key plugin name) (sp_store p)")
  have "hm_get (hm_modify (secret_key plugin name) (\<lambda>m. m\<lparr>sm_is_valid := False\<rparr>) (sp_metadata p)) (secret_key plugin name)
      = Some (m\<lparr>sm_is_valid := False\<rparr>)" using assms(1) by (simp add: hm_modify_get)
  then have "m\<lparr>sm_is_valid := False\<rparr> \<in> snd ` set (hm_modify (secret_key plugin name) (\<lambda>m. m\<lparr>sm_is_valid := False\<rparr>) (sp_metadata p))"
    by (rule image_eqI [OF _ map_of_SomeD, rotated]) simp
  moreover have "list_filter now q opts (m\<lparr>sm_is_valid := False\<rparr>)" using assms(2) by (auto simp: list_filter_def secret_is_expired_def split: option.splits)
  ultimately show ?thesis by (cases r) (simp_all add: list_secrets_def delete_secret_def rem Let_def)
qed

text \<open>A failure within a batch is logged twice.\<close>

lemma batch_failure_logged_twice:
  assumes "store_get A (secret_key plugin name) (sp_store p) = Err e"
  shows "map sa_success (sp_audit_log (snd (get_secrets_batch A t plugin [name] [] p))) = map sa_success (sp_audit_log p) @ [False, False]"
  using assms by (simp add: get_secret_def log_audit_def)

text \<open>Rotating the master key always reports success, keeps the old key and deletes every secret.\<close>

theorem rotate_master_key_loses:
  assumes "aead_law A"
  shows "case rotate_master_key A new_key (sp_store (provider_run A k ops)) of (r, st) \<Rightarrow>
    r = Ok () \<and> ess_master_key st = k \<and> list_secret_names st = [] \<and> store_get A key st = Err NullPointer"
proof -
  have st: "store_shows A k (values_after A k ops) (sp_store (provider_run A k ops))"
    using provider_run_shows [OF assms] by (simp add: provider_shows_def)
  then have k: "ess_master_key (sp_store (provider_run A k ops)) = k" by (simp add: store_shows_def)
  have "ae_decrypt A k n c \<noteq> None" if "(key, c, n) \<in> set (ess_secrets (sp_store (provider_run A k ops)))" for key c n
  proof -
    have "hm_get (ess_secrets (sp_store (provider_run A k ops))) key = Some (c, n)"
      using that st by (simp add: store_shows_def)
    moreover have "rel_option (\<lambda>(c, n) v. ae_decrypt A k n c = Some v)
        (hm_get (ess_secrets (sp_store (provider_run A k ops))) key) (values_after A k ops key)"
      using st by (simp add: store_shows_def)
    ultimately show ?thesis by (auto elim: option.rel_cases)
  qed
  then have "list_all (\<lambda>(name, c, n). ae_decrypt A k n c \<noteq> None) (ess_secrets (sp_store (provider_run A k ops)))"
    unfolding list_all_iff by blast
  then show ?thesis by (simp add: rotate_master_key_def k list_secret_names_def store_get_def)
qed

text \<open>A cipher that does nothing satisfies the law.\<close>

definition plain_aead :: Aead where
  "plain_aead = \<lparr>ae_encrypt = (\<lambda>k n v. Some v), ae_decrypt = (\<lambda>k n c. Some c), ae_hash = (\<lambda>v. map (char_of \<circ> unat) v)\<rparr>"

lemma plain_aead_law: "aead_law plain_aead"
  by (simp add: aead_law_def plain_aead_def)

definition demo_ops :: "secret_op list" where
  "demo_ops = [PutOp ''p'' ''n'' [1] None [] ''u'' (\<lambda>_. 0), RotateOp ''p'' ''n'' [2] [] (\<lambda>_. 0)]"

theorem secrets_refine_map_witness:
  "fst (get_secret plain_aead (\<lambda>_. 0) ''p'' ''n'' (provider_run plain_aead [] demo_ops)) = Ok [2]"
proof -
  have "values_after plain_aead [] demo_ops (secret_key ''p'' ''n'') = Some [2]"
    by (simp add: values_after_def demo_ops_def plain_aead_def)
  then show ?thesis
    using secrets_refine_map [OF plain_aead_law, where k = "[]" and ops = demo_ops and t = "\<lambda>_. 0" and plugin = "''p''" and name = "''n''"] by (simp add: Let_def)
qed

end
