(* ===== verification/Security_Events.thy ===== *)
theory Security_Events
  imports Plugin_Mfa
begin

text \<open>
  The parts of \<open>abi/src/security.rs\<close> that describe keys and record events: the algorithms and uses of keys, versions of
  secrets with an expiry, the events of a rotation with their topics, and the log of security events.
  The clock and random numbers are arguments, JSON values are of an arbitrary type.
\<close>

section \<open>Keys, rotation events and the security log\<close>

datatype KeyAlgorithm = HS256 | RS256 | ES256 | Ed25519 | X25519

fun KeyAlgorithm_display :: "KeyAlgorithm \<Rightarrow> string" where
  "KeyAlgorithm_display HS256 = ''HS256''"
| "KeyAlgorithm_display RS256 = ''RS256''"
| "KeyAlgorithm_display ES256 = ''ES256''"
| "KeyAlgorithm_display Ed25519 = ''Ed25519''"
| "KeyAlgorithm_display X25519 = ''X25519''"

fun key_size_bits :: "KeyAlgorithm \<Rightarrow> u16" where
  "key_size_bits HS256 = 256"
| "key_size_bits RS256 = 2048"
| "key_size_bits ES256 = 256"
| "key_size_bits Ed25519 = 256"
| "key_size_bits X25519 = 256"

definition KeyAlgorithm_parse :: "string \<Rightarrow> SecurityError + KeyAlgorithm" where
  "KeyAlgorithm_parse s =
     (let u = to_uppercase s
      in if u = ''HS256'' then Ok HS256
         else if u = ''RS256'' then Ok RS256
         else if u = ''ES256'' then Ok ES256
         else if u = ''ED25519'' then Ok Ed25519
         else if u = ''X25519'' then Ok X25519
         else Err InputTooLong)"

datatype KeyUsage = Encryption | Signing | KeyExchange | Derivation

fun KeyUsage_display :: "KeyUsage \<Rightarrow> string" where
  "KeyUsage_display Encryption = ''encryption''"
| "KeyUsage_display Signing = ''signing''"
| "KeyUsage_display KeyExchange = ''key_exchange''"
| "KeyUsage_display Derivation = ''derivation''"

definition KeyUsage_parse :: "string \<Rightarrow> SecurityError + KeyUsage" where
  "KeyUsage_parse s =
     (let l = to_lowercase s
      in if l = ''encryption'' then Ok Encryption
         else if l = ''signing'' then Ok Signing
         else if l = ''key_exchange'' then Ok KeyExchange
         else if l = ''derivation'' then Ok Derivation
         else Err InputTooLong)"

lemma key_names_roundtrip:
  "KeyAlgorithm_parse (KeyAlgorithm_display a) = Ok a" "KeyUsage_parse (KeyUsage_display u) = Ok u"
  by (cases a; simp only:; code_simp) (cases u; simp only:; code_simp)

record SecretVersion =
  ver_version_id :: u32
  ver_created_at :: u64
  ver_expires_at :: u64
  ver_algorithm :: KeyAlgorithm
  ver_key_size_bits :: u16
  ver_key_usage :: KeyUsage

definition SecretVersion_new_with_expiry :: "u64 \<Rightarrow> u32 \<Rightarrow> KeyAlgorithm \<Rightarrow> KeyUsage \<Rightarrow> u64 \<Rightarrow> SecretVersion" where
  "SecretVersion_new_with_expiry now version_id algorithm key_usage expires_at =
     \<lparr>ver_version_id = version_id, ver_created_at = now, ver_expires_at = expires_at, ver_algorithm = algorithm,
      ver_key_size_bits = key_size_bits algorithm, ver_key_usage = key_usage\<rparr>"

definition SecretVersion_new :: "u64 \<Rightarrow> u32 \<Rightarrow> KeyAlgorithm \<Rightarrow> KeyUsage \<Rightarrow> SecretVersion" where
  "SecretVersion_new now version_id algorithm key_usage =
     \<lparr>ver_version_id = version_id, ver_created_at = now, ver_expires_at = 0, ver_algorithm = algorithm,
      ver_key_size_bits = key_size_bits algorithm, ver_key_usage = key_usage\<rparr>"

definition version_is_expired :: "u64 \<Rightarrow> SecretVersion \<Rightarrow> bool" where
  "version_is_expired now v \<longleftrightarrow> ver_expires_at v \<noteq> 0 \<and> ver_expires_at v \<le> now"

datatype RotationEventType = RotationScheduled | RotationStarted | RotationCompleted | RotationFailedEvent
  | RotationCancelled | RotationWarning | GracePeriodStarted | GracePeriodEnded | EmergencyRotation

fun RotationEventType_display :: "RotationEventType \<Rightarrow> string" where
  "RotationEventType_display RotationScheduled = ''rotation.scheduled''"
| "RotationEventType_display RotationStarted = ''rotation.started''"
| "RotationEventType_display RotationCompleted = ''rotation.completed''"
| "RotationEventType_display RotationFailedEvent = ''rotation.failed''"
| "RotationEventType_display RotationCancelled = ''rotation.cancelled''"
| "RotationEventType_display RotationWarning = ''rotation.warning''"
| "RotationEventType_display GracePeriodStarted = ''rotation.grace_started''"
| "RotationEventType_display GracePeriodEnded = ''rotation.grace_ended''"
| "RotationEventType_display EmergencyRotation = ''rotation.emergency''"

fun from_event_type :: "RotationEventType \<Rightarrow> string" where
  "from_event_type RotationScheduled = ''rotation.scheduled''"
| "from_event_type RotationStarted = ''rotation.started''"
| "from_event_type RotationCompleted = ''rotation.completed''"
| "from_event_type RotationFailedEvent = ''rotation.failed''"
| "from_event_type RotationCancelled = ''rotation.cancelled''"
| "from_event_type RotationWarning = ''rotation.warning''"
| "from_event_type GracePeriodStarted = ''rotation.grace_started''"
| "from_event_type GracePeriodEnded = ''rotation.grace_ended''"
| "from_event_type EmergencyRotation = ''rotation.emergency''"

lemma topic_is_display: "from_event_type e = RotationEventType_display e"
  by (cases e) simp_all

lemma topics_distinct: "from_event_type e = from_event_type e' \<longleftrightarrow> e = e'"
  by (cases e; cases e') simp_all

datatype RotationEventSeverity = Info | Warning | Error | Critical

fun RotationEventSeverity_display :: "RotationEventSeverity \<Rightarrow> string" where
  "RotationEventSeverity_display Info = ''INFO''"
| "RotationEventSeverity_display Warning = ''WARNING''"
| "RotationEventSeverity_display Error = ''ERROR''"
| "RotationEventSeverity_display Critical = ''CRITICAL''"

record 'j RotationEvent =
  ro_event_type :: RotationEventType
  ro_severity :: RotationEventSeverity
  ro_subject_id :: string
  ro_subject_type :: string
  ro_timestamp :: u64
  ro_from_version :: "u32 option"
  ro_to_version :: "u32 option"
  ro_message :: string
  ro_metadata :: "'j option"
  ro_error_details :: "string option"

definition RotationEvent_new :: "u64 \<Rightarrow> RotationEventType \<Rightarrow> string \<Rightarrow> string \<Rightarrow> string \<Rightarrow> 'j RotationEvent" where
  "RotationEvent_new now event_type subject_id subject_type message =
     \<lparr>ro_event_type = event_type, ro_severity = Info, ro_subject_id = subject_id, ro_subject_type = subject_type,
      ro_timestamp = now, ro_from_version = None, ro_to_version = None, ro_message = message, ro_metadata = None,
      ro_error_details = None\<rparr>"

definition rotation_with_severity :: "RotationEventSeverity \<Rightarrow> 'j RotationEvent \<Rightarrow> 'j RotationEvent" where
  "rotation_with_severity severity e = e\<lparr>ro_severity := severity\<rparr>"

definition with_version_transition :: "u32 \<Rightarrow> u32 \<Rightarrow> 'j RotationEvent \<Rightarrow> 'j RotationEvent" where
  "with_version_transition from_v to_v e = e\<lparr>ro_from_version := Some from_v, ro_to_version := Some to_v\<rparr>"

definition rotation_with_metadata :: "'j \<Rightarrow> 'j RotationEvent \<Rightarrow> 'j RotationEvent" where
  "rotation_with_metadata metadata e = e\<lparr>ro_metadata := Some metadata\<rparr>"

definition rotation_with_error :: "string \<Rightarrow> 'j RotationEvent \<Rightarrow> 'j RotationEvent" where
  "rotation_with_error error e = e\<lparr>ro_error_details := Some error\<rparr>"

record AuditEvent =
  ae_event_id :: string
  ae_timestamp :: u64
  ae_plugin_id :: string
  ae_event_type :: string
  ae_action :: string
  ae_resource :: string
  ae_result :: bool
  ae_details :: string

definition AuditEvent_new :: "u64 \<Rightarrow> u32 \<Rightarrow> string \<Rightarrow> string \<Rightarrow> string \<Rightarrow> string \<Rightarrow> bool \<Rightarrow> string \<Rightarrow> AuditEvent" where
  "AuditEvent_new now random plugin_id event_type action resource result details =
     \<lparr>ae_event_id = ''audit_'' @ plugin_id @ ''_'' @ show_u64 now @ ''_'' @ show_nat (unat random), ae_timestamp = now,
      ae_plugin_id = plugin_id, ae_event_type = event_type, ae_action = action, ae_resource = resource,
      ae_result = result, ae_details = details\<rparr>"

type_synonym AuditLogger = "AuditEvent list"

definition log_event :: "AuditEvent \<Rightarrow> AuditLogger \<Rightarrow> AuditLogger" where
  "log_event event events = events @ [event]"

definition log_auth_attempt :: "u64 \<Rightarrow> u32 \<Rightarrow> string \<Rightarrow> bool \<Rightarrow> string \<Rightarrow> AuditLogger \<Rightarrow> AuditLogger" where
  "log_auth_attempt now random plugin_id success details events =
     log_event (AuditEvent_new now random plugin_id ''authentication'' ''login'' ''plugin'' success details) events"

definition log_permission_check :: "u64 \<Rightarrow> u32 \<Rightarrow> string \<Rightarrow> string \<Rightarrow> bool \<Rightarrow> AuditLogger \<Rightarrow> AuditLogger" where
  "log_permission_check now random plugin_id permission granted events =
     log_event (AuditEvent_new now random plugin_id ''authorization'' ''permission_check'' permission granted
       (''Permission: '' @ permission)) events"

definition get_events :: "string \<Rightarrow> AuditLogger \<Rightarrow> AuditEvent list" where
  "get_events plugin_id events = filter (\<lambda>e. ae_plugin_id e = plugin_id) events"

definition event_count :: "AuditLogger \<Rightarrow> nat" where
  "event_count events = length events"

lemma logged_for_plugin_only:
  "get_events q (log_permission_check now r plugin_id perm granted events) = get_events q events @
    (if q = plugin_id then [AuditEvent_new now r plugin_id ''authorization'' ''permission_check'' perm granted (''Permission: '' @ perm)] else [])"
  by (simp add: get_events_def log_permission_check_def log_event_def AuditEvent_new_def)

end
