(* ===== verification/Event_System.thy ===== *)
theory Event_System
  imports Rust_Str
begin

text \<open>
  The event system in \<open>src/plugin_manager/events\<close>: events and filters (\<open>types.rs\<close>, \<open>filtering.rs\<close>), the storage
  with dead letters (\<open>storage.rs\<close>), the router with patterns (\<open>router.rs\<close>) and the system itself (\<open>mod.rs\<close>).

  JSON values are of an arbitrary type. How they are printed, whether a regular expression matches, and
  what callbacks return are arguments. Times are in nanoseconds, and each reading of the clock is an argument. Publishing
  returns the calls that are made, in their order. Which types the cache holds is up to its library.
  The limiter of events, which counts in floating point, and the wrappers for requests and broadcasts
  (\<open>plugin_comm.rs\<close>) are left out.
\<close>


section \<open>Events\<close>

datatype EventPriority = Low | Normal | High | Critical

text \<open>The derived order of the priorities.\<close>

fun priority_level :: "EventPriority \<Rightarrow> nat" where
  "priority_level Low = 0"
| "priority_level Normal = 1"
| "priority_level High = 2"
| "priority_level Critical = 3"

record EventMetadata =
  em_correlation_id :: "string option"
  em_causation_id :: "string option"
  em_reply_to :: "string option"
  em_timeout_ms :: "u64 option"
  em_retry_count :: u32
  em_max_retries :: "u32 option"
  em_tags :: "string list"

definition EventMetadata_default :: EventMetadata where
  "EventMetadata_default = \<lparr>em_correlation_id = None, em_causation_id = None, em_reply_to = None, em_timeout_ms = None,
     em_retry_count = 0, em_max_retries = None, em_tags = []\<rparr>"

definition with_correlation_id :: "string \<Rightarrow> EventMetadata \<Rightarrow> EventMetadata" where
  "with_correlation_id i m = m\<lparr>em_correlation_id := Some i\<rparr>"

definition with_reply_to :: "string \<Rightarrow> EventMetadata \<Rightarrow> EventMetadata" where
  "with_reply_to r m = m\<lparr>em_reply_to := Some r\<rparr>"

definition metadata_with_timeout :: "u64 \<Rightarrow> EventMetadata \<Rightarrow> EventMetadata" where
  "metadata_with_timeout ms m = m\<lparr>em_timeout_ms := Some ms\<rparr>"

definition with_tags :: "string list \<Rightarrow> EventMetadata \<Rightarrow> EventMetadata" where
  "with_tags ts m = m\<lparr>em_tags := em_tags m @ ts\<rparr>"

record 'j Event =
  ev_id :: string
  ev_event_type :: string
  ev_source_plugin :: string
  ev_payload :: 'j
  ev_timestamp :: int
  ev_priority :: EventPriority
  ev_metadata :: EventMetadata
  ev_headers :: "(string, string) hashmap"

definition Event_new :: "string \<Rightarrow> int \<Rightarrow> string \<Rightarrow> string \<Rightarrow> 'j \<Rightarrow> 'j Event" where
  "Event_new uuid now event_type source payload =
     \<lparr>ev_id = uuid, ev_event_type = event_type, ev_source_plugin = source, ev_payload = payload, ev_timestamp = now,
      ev_priority = Normal, ev_metadata = EventMetadata_default, ev_headers = []\<rparr>"

definition event_with_priority :: "EventPriority \<Rightarrow> 'j Event \<Rightarrow> 'j Event" where
  "event_with_priority p e = e\<lparr>ev_priority := p\<rparr>"

definition event_with_header :: "string \<Rightarrow> string \<Rightarrow> 'j Event \<Rightarrow> 'j Event" where
  "event_with_header k v e = e\<lparr>ev_headers := hm_insert k v (ev_headers e)\<rparr>"

definition event_with_headers :: "(string, string) hashmap \<Rightarrow> 'j Event \<Rightarrow> 'j Event" where
  "event_with_headers hs e = e\<lparr>ev_headers := foldl (\<lambda>m (k, v). hm_insert k v m) (ev_headers e) hs\<rparr>"

definition event_with_metadata :: "EventMetadata \<Rightarrow> 'j Event \<Rightarrow> 'j Event" where
  "event_with_metadata m e = e\<lparr>ev_metadata := m\<rparr>"

datatype EventError = Disabled | TooLarge nat | TooManySubscribers | ReplayDisabled | Routing string | Storage string
  | FilterError string | Callback string

fun EventError_display :: "EventError \<Rightarrow> string" where
  "EventError_display Disabled = ''Event system is disabled''"
| "EventError_display (TooLarge n) = ''Event too large: '' @ show_nat n @ '' bytes''"
| "EventError_display TooManySubscribers = ''Too many subscribers for event type''"
| "EventError_display ReplayDisabled = ''Event replay is disabled''"
| "EventError_display (Routing s) = ''Routing error: '' @ s"
| "EventError_display (Storage s) = ''Storage error: '' @ s"
| "EventError_display (FilterError s) = ''Filter error: '' @ s"
| "EventError_display (Callback s) = ''Callback error: '' @ s"

datatype EventResult = Published nat | Filtered

section \<open>Filters\<close>

text \<open>What is used of libraries: whether a regular expression compiles and matches a text, and the text of a JSON
  value or an error.\<close>

record 'j EventEnv =
  en_regex :: "string \<Rightarrow> string \<Rightarrow> bool"
  en_to_json :: "'j \<Rightarrow> string + string"

datatype 'j FilterCondition =
    EventTypeEquals string
  | EventTypeMatches string
  | SourceEquals string
  | PayloadContains string
  | PayloadEquals string
  | PriorityAtLeast EventPriority
  | HeaderEquals string string
  | Custom "'j Event \<Rightarrow> bool"

datatype 'j FilterAction = Allow | Block | Transform "'j Event \<Rightarrow> 'j Event"

record 'j EventFilter =
  ef_id :: string
  ef_name :: string
  ef_conditions :: "'j FilterCondition list"
  ef_action :: "'j FilterAction"

definition EventFilter_new :: "string \<Rightarrow> string \<Rightarrow> 'j EventFilter" where
  "EventFilter_new i n = \<lparr>ef_id = i, ef_name = n, ef_conditions = [], ef_action = Allow\<rparr>"

definition with_condition :: "'j FilterCondition \<Rightarrow> 'j EventFilter \<Rightarrow> 'j EventFilter" where
  "with_condition c f = f\<lparr>ef_conditions := ef_conditions f @ [c]\<rparr>"

definition with_action :: "'j FilterAction \<Rightarrow> 'j EventFilter \<Rightarrow> 'j EventFilter" where
  "with_action a f = f\<lparr>ef_action := a\<rparr>"

definition payload_text :: "'j EventEnv \<Rightarrow> 'j Event \<Rightarrow> string" where
  "payload_text E e = (case en_to_json E (ev_payload e) of Ok s \<Rightarrow> s | Err _ \<Rightarrow> [])"

fun check_condition :: "'j EventEnv \<Rightarrow> 'j FilterCondition \<Rightarrow> 'j Event \<Rightarrow> bool" where
  "check_condition E (EventTypeEquals expected) e \<longleftrightarrow> ev_event_type e = expected"
| "check_condition E (EventTypeMatches pattern) e \<longleftrightarrow> en_regex E pattern (ev_event_type e)"
| "check_condition E (SourceEquals source) e \<longleftrightarrow> ev_source_plugin e = source"
| "check_condition E (PayloadContains needle) e \<longleftrightarrow> str_contains (payload_text E e) needle"
| "check_condition E (PayloadEquals expected) e \<longleftrightarrow> payload_text E e = expected"
| "check_condition E (PriorityAtLeast p) e \<longleftrightarrow> priority_level p \<le> priority_level (ev_priority e)"
| "check_condition E (HeaderEquals k v) e \<longleftrightarrow> hm_get (ev_headers e) k = Some v"
| "check_condition E (Custom f) e \<longleftrightarrow> f e"

definition filter_matches :: "'j EventEnv \<Rightarrow> 'j EventFilter \<Rightarrow> 'j Event \<Rightarrow> bool" where
  "filter_matches E f e \<longleftrightarrow> list_all (\<lambda>c. check_condition E c e) (ef_conditions f)"

datatype FilterResult = FAllowed | FFiltered | FBlocked | FTransformed

definition filter_apply :: "'j EventEnv \<Rightarrow> 'j EventFilter \<Rightarrow> 'j Event \<Rightarrow> FilterResult \<times> 'j Event" where
  "filter_apply E f e =
     (if \<not> filter_matches E f e then (FFiltered, e)
      else (case ef_action f of
          Allow \<Rightarrow> (FAllowed, e)
        | Block \<Rightarrow> (FBlocked, e)
        | Transform g \<Rightarrow> (FTransformed, g e)))"

section \<open>Storage\<close>

record 'j DeadLetterEvent =
  dl_event :: "'j Event"
  dl_subscriber :: string
  dl_error :: string
  dl_timestamp :: int

record 'j EventStorage =
  st_events :: "(string, 'j Event) hashmap"
  st_retention_period :: int
  st_dead_letters :: "'j DeadLetterEvent list"

definition EventStorage_new :: "int \<Rightarrow> 'j EventStorage" where
  "EventStorage_new retention_period = \<lparr>st_events = [], st_retention_period = retention_period, st_dead_letters = []\<rparr>"

definition cleanup_old_events :: "int \<Rightarrow> int \<Rightarrow> (string, 'j Event) hashmap \<Rightarrow> (string, 'j Event) hashmap" where
  "cleanup_old_events now retention events =
     foldl (\<lambda>m k. AList.delete k m) events
       (map fst (filter (\<lambda>(_, e). ev_timestamp e < now - retention) events))"

definition store_event :: "int \<Rightarrow> 'j Event \<Rightarrow> 'j EventStorage \<Rightarrow> 'j EventStorage" where
  "store_event now e st =
     st\<lparr>st_events := cleanup_old_events now (st_retention_period st) (hm_insert (ev_id e) e (st_events st))\<rparr>"

definition get_event :: "string \<Rightarrow> 'j EventStorage \<Rightarrow> 'j Event option" where
  "get_event event_id st = hm_get (st_events st) event_id"

definition get_events_for_type :: "string \<Rightarrow> 'j EventStorage \<Rightarrow> 'j Event list" where
  "get_events_for_type t st = filter (\<lambda>e. ev_event_type e = t) (map snd (st_events st))"

definition query_events :: "string option \<Rightarrow> int \<Rightarrow> int \<Rightarrow> 'j EventStorage \<Rightarrow> 'j Event list" where
  "query_events event_type start_time end_time st =
     sort_key (\<lambda>e. - ev_timestamp e)
       (filter (\<lambda>e. (case event_type of None \<Rightarrow> True | Some et \<Rightarrow> ev_event_type e = et)
                \<and> start_time \<le> ev_timestamp e \<and> ev_timestamp e \<le> end_time) (map snd (st_events st)))"

definition store_dead_letter :: "int \<Rightarrow> 'j Event \<Rightarrow> string \<Rightarrow> string \<Rightarrow> 'j EventStorage \<Rightarrow> 'j EventStorage" where
  "store_dead_letter now e subscriber error st =
     st\<lparr>st_dead_letters := take 1000 (st_dead_letters st @ [\<lparr>dl_event = e, dl_subscriber = subscriber, dl_error = error,
         dl_timestamp = now\<rparr>])\<rparr>"

definition clear_dead_letters :: "'j EventStorage \<Rightarrow> 'j EventStorage" where
  "clear_dead_letters st = st\<lparr>st_dead_letters := []\<rparr>"

definition get_event_count :: "'j EventStorage \<Rightarrow> nat" where
  "get_event_count st = length (st_events st)"

definition get_event_count_for_type :: "string \<Rightarrow> 'j EventStorage \<Rightarrow> nat" where
  "get_event_count_for_type t st = length (filter (\<lambda>e. ev_event_type e = t) (map snd (st_events st)))"

definition storage_clear :: "'j EventStorage \<Rightarrow> 'j EventStorage" where
  "storage_clear st = st\<lparr>st_events := [], st_dead_letters := []\<rparr>"

text \<open>What the cache holds for the type of an event after the event arrived; which types it holds is up to the
  library of the cache.\<close>

definition cache_push :: "'j Event list option \<Rightarrow> 'j Event \<Rightarrow> 'j Event list" where
  "cache_push cached e = (case cached of None \<Rightarrow> [e] | Some es \<Rightarrow> take 100 (es @ [e]))"

definition get_cached_events :: "'j Event list option \<Rightarrow> nat \<Rightarrow> 'j Event list" where
  "get_cached_events cached limit = (case cached of None \<Rightarrow> [] | Some es \<Rightarrow> take limit (rev es))"

section \<open>Routing\<close>

datatype EventPattern = Exact string | Wildcard string | Regex string

fun zip_all :: "(string \<Rightarrow> string \<Rightarrow> bool) \<Rightarrow> string list \<Rightarrow> string list \<Rightarrow> bool" where
  "zip_all p (x # xs) (y # ys) \<longleftrightarrow> p x y \<and> zip_all p xs ys"
| "zip_all p _ _ \<longleftrightarrow> True"

definition match_wildcard :: "string \<Rightarrow> string \<Rightarrow> bool" where
  "match_wildcard pattern event_type \<longleftrightarrow>
     (let pattern_parts = split_on CHR ''.'' pattern; event_parts = split_on CHR ''.'' event_type
      in length pattern_parts = length event_parts \<and> zip_all (\<lambda>p e. p = ''*'' \<or> p = e) pattern_parts event_parts)"

fun pattern_matches :: "'j EventEnv \<Rightarrow> EventPattern \<Rightarrow> string \<Rightarrow> bool" where
  "pattern_matches E (Exact s) t \<longleftrightarrow> t = s"
| "pattern_matches E (Wildcard p) t \<longleftrightarrow> match_wildcard p t"
| "pattern_matches E (Regex r) t \<longleftrightarrow> en_regex E r t"

definition parse_pattern :: "string \<Rightarrow> EventPattern" where
  "parse_pattern pattern =
     (if starts_with pattern ''regex:'' then Regex (drop 6 pattern)
      else if CHR ''*'' \<in> set pattern then Wildcard pattern
      else Exact pattern)"

record ('j, 'cb) EventSubscriber =
  sb_id :: string
  sb_plugin_name :: string
  sb_event_types :: "string list"
  sb_filter :: "'j EventFilter option"
  sb_callback :: 'cb

definition EventSubscriber_new :: "string \<Rightarrow> string \<Rightarrow> string list \<Rightarrow> 'cb \<Rightarrow> ('j, 'cb) EventSubscriber" where
  "EventSubscriber_new uuid plugin_name event_types callback =
     \<lparr>sb_id = uuid, sb_plugin_name = plugin_name, sb_event_types = event_types, sb_filter = None, sb_callback = callback\<rparr>"

definition subscriber_with_filter :: "'j EventFilter \<Rightarrow> ('j, 'cb) EventSubscriber \<Rightarrow> ('j, 'cb) EventSubscriber" where
  "subscriber_with_filter f s = s\<lparr>sb_filter := Some f\<rparr>"

record RoutingConfig =
  rg_enable_pattern_matching :: bool
  rg_enable_wildcard_routing :: bool
  rg_max_routing_depth :: nat
  rg_enable_dead_letter_queue :: bool
  rg_dead_letter_max_size :: nat

definition RoutingConfig_default :: RoutingConfig where
  "RoutingConfig_default = \<lparr>rg_enable_pattern_matching = False, rg_enable_wildcard_routing = False,
     rg_max_routing_depth = 0, rg_enable_dead_letter_queue = False, rg_dead_letter_max_size = 0\<rparr>"

text \<open>The storage that the router shares with the event system is passed to its operations.\<close>

record ('j, 'cb) EventRouter =
  ro_patterns :: "(string, ('j, 'cb) EventSubscriber list) hashmap"
  ro_wildcards :: "('j, 'cb) EventSubscriber list"
  ro_config :: RoutingConfig

definition EventRouter_new :: "('j, 'cb) EventRouter" where
  "EventRouter_new = \<lparr>ro_patterns = [], ro_wildcards = [], ro_config = RoutingConfig_default\<rparr>"

definition router_with_config :: "RoutingConfig \<Rightarrow> ('j, 'cb) EventRouter \<Rightarrow> ('j, 'cb) EventRouter" where
  "router_with_config c r = r\<lparr>ro_config := c\<rparr>"

definition should_deliver :: "'j EventEnv \<Rightarrow> ('j, 'cb) EventSubscriber \<Rightarrow> 'j Event \<Rightarrow> bool" where
  "should_deliver E s e = (case sb_filter s of Some f \<Rightarrow> filter_matches E f e | None \<Rightarrow> True)"

definition subs_of :: "(string, 'a list) hashmap \<Rightarrow> string \<Rightarrow> 'a list" where
  "subs_of m t = (case hm_get m t of None \<Rightarrow> [] | Some subs \<Rightarrow> subs)"

definition route_by_pattern :: "'j EventEnv \<Rightarrow> 'j Event \<Rightarrow> ('j, 'cb) EventRouter \<Rightarrow> ('j, 'cb) EventSubscriber list" where
  "route_by_pattern E e r = filter (\<lambda>s. should_deliver E s e) (subs_of (ro_patterns r) (ev_event_type e))"

definition pattern_matches_wildcard :: "string \<Rightarrow> string \<Rightarrow> bool" where
  "pattern_matches_wildcard pattern event_type = (case parse_pattern pattern of Wildcard wc \<Rightarrow> match_wildcard wc event_type | _ \<Rightarrow> False)"

text \<open>A subscriber is collected once for each of its patterns that matches.\<close>

definition route_by_wildcard :: "'j EventEnv \<Rightarrow> 'j Event \<Rightarrow> ('j, 'cb) EventRouter \<Rightarrow> ('j, 'cb) EventSubscriber list" where
  "route_by_wildcard E e r =
     concat (map (\<lambda>sub. concat (map (\<lambda>pattern_str.
         if pattern_matches_wildcard pattern_str (ev_event_type e) \<and> should_deliver E sub e then [sub] else [])
       (sb_event_types sub))) (ro_wildcards r))"

text \<open>\<open>on_event\<close> is what a callback returns; the calls are listed in their order.\<close>

fun deliver_to_subscribers :: "('cb \<Rightarrow> 'j Event \<Rightarrow> EventError + unit) \<Rightarrow> RoutingConfig \<Rightarrow> (nat \<Rightarrow> int) \<Rightarrow> 'j Event
    \<Rightarrow> ('j, 'cb) EventSubscriber list \<Rightarrow> 'j EventStorage \<Rightarrow> ('cb \<times> 'j Event) list \<times> 'j EventStorage" where
  "deliver_to_subscribers on_event c t e [] st = ([], st)"
| "deliver_to_subscribers on_event c t e (s # subs) st =
     (let st1 = (case on_event (sb_callback s) e of
          Ok _ \<Rightarrow> st
        | Err err \<Rightarrow>
            if rg_enable_dead_letter_queue c
            then store_dead_letter (t 0) e (sb_plugin_name s) (EventError_display err) st else st)
      in case deliver_to_subscribers on_event c (\<lambda>i. t (i + 1)) e subs st1 of (calls, st2) \<Rightarrow>
           ((sb_callback s, e) # calls, st2))"

definition route_event :: "'j EventEnv \<Rightarrow> ('cb \<Rightarrow> 'j Event \<Rightarrow> EventError + unit) \<Rightarrow> (nat \<Rightarrow> int) \<Rightarrow> 'j Event
    \<Rightarrow> ('j, 'cb) EventRouter \<Rightarrow> 'j EventStorage \<Rightarrow> nat \<times> ('cb \<times> 'j Event) list \<times> 'j EventStorage" where
  "route_event E on_event t e r st =
     (let matched = (if rg_enable_pattern_matching (ro_config r) then route_by_pattern E e r else [])
                  @ (if rg_enable_wildcard_routing (ro_config r) then route_by_wildcard E e r else [])
      in (length matched, deliver_to_subscribers on_event (ro_config r) t e matched st))"

definition add_pattern :: "('j, 'cb) EventSubscriber \<Rightarrow> ('j, 'cb) EventRouter \<Rightarrow> string \<Rightarrow> ('j, 'cb) EventRouter" where
  "add_pattern s r event_type =
     (case parse_pattern event_type of
        Wildcard _ \<Rightarrow> r\<lparr>ro_wildcards := ro_wildcards r @ [s]\<rparr>
      | _ \<Rightarrow> r\<lparr>ro_patterns := hm_insert event_type (subs_of (ro_patterns r) event_type @ [s]) (ro_patterns r)\<rparr>)"

definition add_subscriber :: "('j, 'cb) EventSubscriber \<Rightarrow> ('j, 'cb) EventRouter \<Rightarrow> ('j, 'cb) EventRouter" where
  "add_subscriber s r = foldl (add_pattern s) r (sb_event_types s)"

text \<open>Removing a subscriber from the lists of a map, and the lists that get empty.\<close>

definition drop_subscriber :: "string \<Rightarrow> (string, ('j, 'cb) EventSubscriber list) hashmap
    \<Rightarrow> (string, ('j, 'cb) EventSubscriber list) hashmap" where
  "drop_subscriber i m =
     filter (\<lambda>(_, subs). subs \<noteq> []) (map (\<lambda>(k, subs). (k, filter (\<lambda>s. sb_id s \<noteq> i) subs)) m)"

definition remove_subscriber :: "string \<Rightarrow> ('j, 'cb) EventRouter \<Rightarrow> ('j, 'cb) EventRouter" where
  "remove_subscriber i r =
     r\<lparr>ro_patterns := drop_subscriber i (ro_patterns r), ro_wildcards := filter (\<lambda>s. sb_id s \<noteq> i) (ro_wildcards r)\<rparr>"

definition subscriber_count :: "string \<Rightarrow> ('j, 'cb) EventRouter \<Rightarrow> nat" where
  "subscriber_count event_type r =
     length (subs_of (ro_patterns r) event_type)
     + length (filter (\<lambda>s. list_ex (\<lambda>t. pattern_matches_wildcard t event_type) (sb_event_types s)) (ro_wildcards r))"

section \<open>The event system\<close>

record EventSystemConfig =
  ec_enabled :: bool
  ec_max_event_size :: nat
  ec_retention_period :: int
  ec_enable_persistence :: bool
  ec_enable_replay :: bool
  ec_max_subscribers_per_event :: nat
  ec_default_event_priority :: EventPriority

text \<open>Times are in nanoseconds.\<close>

definition EventSystemConfig_default :: EventSystemConfig where
  "EventSystemConfig_default = \<lparr>ec_enabled = True, ec_max_event_size = 1024 * 1024,
     ec_retention_period = 3600 * 10 ^ 9, ec_enable_persistence = True, ec_enable_replay = True,
     ec_max_subscribers_per_event = 100, ec_default_event_priority = Normal\<rparr>"

datatype EventStatistics = EventStatistics (total_published: u64) (total_subscribers: nat)
  (high_priority_published: u64) (per_event: "(string \<times> EventStatistics) list")

definition EventStatistics_default :: EventStatistics where
  "EventStatistics_default = EventStatistics 0 0 0 []"

record ('j, 'cb) EventSystem =
  sy_config :: EventSystemConfig
  sy_router :: "('j, 'cb) EventRouter"
  sy_storage :: "'j EventStorage"
  sy_filters :: "'j EventFilter list"
  sy_subscribers :: "(string, ('j, 'cb) EventSubscriber list) hashmap"
  sy_statistics :: EventStatistics

definition EventSystem_new :: "EventSystemConfig \<Rightarrow> ('j, 'cb) EventSystem" where
  "EventSystem_new c = \<lparr>sy_config = c, sy_router = EventRouter_new, sy_storage = EventStorage_new (ec_retention_period c),
     sy_filters = [], sy_subscribers = [], sy_statistics = EventStatistics_default\<rparr>"

fun published_inc :: "EventStatistics \<Rightarrow> EventStatistics" where
  "published_inc (EventStatistics p s h m) = EventStatistics (p + 1) s h m"

fun update_statistics :: "'j Event \<Rightarrow> EventStatistics \<Rightarrow> EventStatistics" where
  "update_statistics e (EventStatistics p s h m) =
     EventStatistics (p + 1) s (if ev_priority e = High then h + 1 else h)
       (hm_insert (ev_event_type e)
         (published_inc (case hm_get m (ev_event_type e) of None \<Rightarrow> EventStatistics_default | Some x \<Rightarrow> x)) m)"

definition get_statistics_for_event :: "string \<Rightarrow> ('j, 'cb) EventSystem \<Rightarrow> EventStatistics" where
  "get_statistics_for_event t y =
     (case hm_get (per_event (sy_statistics y)) t of None \<Rightarrow> EventStatistics_default | Some x \<Rightarrow> x)"

definition apply_filters :: "'j EventEnv \<Rightarrow> 'j Event \<Rightarrow> 'j EventFilter list \<Rightarrow> bool" where
  "apply_filters E e fs = list_all (\<lambda>f. filter_matches E f e) fs"

definition publish :: "'j EventEnv \<Rightarrow> ('cb \<Rightarrow> 'j Event \<Rightarrow> EventError + unit) \<Rightarrow> (nat \<Rightarrow> int) \<Rightarrow> 'j Event
    \<Rightarrow> ('j, 'cb) EventSystem \<Rightarrow> (EventError + EventResult) \<times> ('cb \<times> 'j Event) list \<times> ('j, 'cb) EventSystem" where
  "publish E on_event t e y =
     (if \<not> ec_enabled (sy_config y) then (Err Disabled, [], y)
      else
        (case en_to_json E (ev_payload e) of
           Err s \<Rightarrow> (Err (Callback s), [], y)
         | Ok s \<Rightarrow>
             if ec_max_event_size (sy_config y) < length s then (Err (TooLarge (length s)), [], y)
             else
               (let y1 = y\<lparr>sy_statistics := update_statistics e (sy_statistics y)\<rparr>
                in if \<not> apply_filters E e (sy_filters y1) then (Ok Filtered, [], y1)
                   else
                     (let y2 = (if ec_enable_persistence (sy_config y1)
                                then y1\<lparr>sy_storage := store_event (t 0) e (sy_storage y1)\<rparr> else y1)
                      in case route_event E on_event (\<lambda>i. t (i + 1)) e (sy_router y2) (sy_storage y2) of
                           (n, calls, st) \<Rightarrow> (Ok (Published n), calls, y2\<lparr>sy_storage := st\<rparr>)))))"

text \<open>The first loop of \<open>subscribe\<close>, which makes an entry for each type it looks at.\<close>

fun check_limits :: "nat \<Rightarrow> string list \<Rightarrow> (string, 'a list) hashmap \<Rightarrow> bool \<times> (string, 'a list) hashmap" where
  "check_limits lim [] m = (True, m)"
| "check_limits lim (t # ts) m =
     (let m1 = (case hm_get m t of None \<Rightarrow> hm_insert t [] m | Some _ \<Rightarrow> m)
      in if lim \<le> length (subs_of m1 t) then (False, m1) else check_limits lim ts m1)"

definition subscribe :: "('j, 'cb) EventSubscriber \<Rightarrow> ('j, 'cb) EventSystem \<Rightarrow> (EventError + unit) \<times> ('j, 'cb) EventSystem" where
  "subscribe s y =
     (case check_limits (ec_max_subscribers_per_event (sy_config y)) (sb_event_types s) (sy_subscribers y) of
        (False, m) \<Rightarrow> (Err TooManySubscribers, y\<lparr>sy_subscribers := m\<rparr>)
      | (True, m) \<Rightarrow>
          (Ok (), y\<lparr>sy_subscribers := foldl (\<lambda>m t. hm_insert t (subs_of m t @ [s]) m) m (sb_event_types s)\<rparr>))"

definition unsubscribe :: "string \<Rightarrow> ('j, 'cb) EventSystem \<Rightarrow> ('j, 'cb) EventSystem" where
  "unsubscribe i y = y\<lparr>sy_subscribers := drop_subscriber i (sy_subscribers y)\<rparr>"

definition add_filter :: "'j EventFilter \<Rightarrow> ('j, 'cb) EventSystem \<Rightarrow> ('j, 'cb) EventSystem" where
  "add_filter f y = y\<lparr>sy_filters := sy_filters y @ [f]\<rparr>"

definition remove_filter :: "string \<Rightarrow> ('j, 'cb) EventSystem \<Rightarrow> bool \<times> ('j, 'cb) EventSystem" where
  "remove_filter i y =
     (let fs = filter (\<lambda>f. ef_id f \<noteq> i) (sy_filters y)
      in (length fs < length (sy_filters y), y\<lparr>sy_filters := fs\<rparr>))"

text \<open>The events that \<open>replay_events\<close> hands to its callback, in their order.\<close>

definition replay_events :: "string option \<Rightarrow> int \<Rightarrow> int \<Rightarrow> ('j, 'cb) EventSystem \<Rightarrow> EventError + 'j Event list" where
  "replay_events event_type start_time end_time y =
     (if \<not> ec_enable_replay (sy_config y) then Err ReplayDisabled
      else Ok (query_events event_type start_time end_time (sy_storage y)))"

section \<open>Who is called\<close>

datatype ('j, 'cb) system_op =
    PublishOp "'j Event" "nat \<Rightarrow> int"
  | SubscribeOp "('j, 'cb) EventSubscriber"
  | UnsubscribeOp string
  | AddFilterOp "'j EventFilter"
  | RemoveFilterOp string
  | RouterAddOp "('j, 'cb) EventSubscriber"
  | RouterRemoveOp string

fun system_step :: "'j EventEnv \<Rightarrow> ('cb \<Rightarrow> 'j Event \<Rightarrow> EventError + unit) \<Rightarrow> ('j, 'cb) EventSystem
    \<Rightarrow> ('j, 'cb) system_op \<Rightarrow> ('j, 'cb) EventSystem" where
  "system_step E on_event y (PublishOp e t) = snd (snd (publish E on_event t e y))"
| "system_step E on_event y (SubscribeOp s) = snd (subscribe s y)"
| "system_step E on_event y (UnsubscribeOp i) = unsubscribe i y"
| "system_step E on_event y (AddFilterOp f) = add_filter f y"
| "system_step E on_event y (RemoveFilterOp i) = snd (remove_filter i y)"
| "system_step E on_event y (RouterAddOp s) = y\<lparr>sy_router := add_subscriber s (sy_router y)\<rparr>"
| "system_step E on_event y (RouterRemoveOp i) = y\<lparr>sy_router := remove_subscriber i (sy_router y)\<rparr>"

lemma add_pattern_config [simp]: "ro_config (add_pattern s r t) = ro_config r"
  by (simp add: add_pattern_def split: EventPattern.split)

lemma add_subscriber_config [simp]: "ro_config (add_subscriber s r) = ro_config r"
proof -
  have "ro_config (foldl (add_pattern s) r ts) = ro_config r" for ts by (induction ts arbitrary: r) simp_all
  then show ?thesis by (simp add: add_subscriber_def)
qed

lemma publish_keeps:
  "sy_router (snd (snd (publish E on_event t e y))) = sy_router y"
  "sy_subscribers (snd (snd (publish E on_event t e y))) = sy_subscribers y"
  "sy_config (snd (snd (publish E on_event t e y))) = sy_config y"
  by (auto simp: publish_def Let_def split: sum.split prod.split)

lemma system_step_config: "ro_config (sy_router (system_step E on_event y op)) = ro_config (sy_router y)"
  by (cases op) (auto simp: publish_keeps subscribe_def unsubscribe_def add_filter_def remove_filter_def remove_subscriber_def
      Let_def split: prod.split bool.split)

lemma system_run_config: "ro_config (sy_router (foldl (system_step E on_event) y ops)) = ro_config (sy_router y)"
  by (induction ops arbitrary: y) (simp_all add: system_step_config)

text \<open>The event system calls nobody: whatever is subscribed, filtered, published, or added to its router, publishing
  an event makes no call and reports at most that zero subscribers were reached. Subscriptions are kept in a map that the
  router does not look at, and both kinds of routing are off in the only configuration that its router can have.\<close>

theorem event_system_silent:
  "case publish E on_event t e (foldl (system_step E on_event) (EventSystem_new c) ops) of
     (r, calls, _) \<Rightarrow> calls = [] \<and> (case r of Ok (Published n) \<Rightarrow> n = 0 | _ \<Rightarrow> True)"
proof -
  let ?y = "foldl (system_step E on_event) (EventSystem_new c) ops"
  have c: "ro_config (sy_router ?y) = RoutingConfig_default"
    by (simp add: system_run_config EventSystem_new_def EventRouter_new_def)
  show ?thesis
    by (auto simp: publish_def route_event_def c RoutingConfig_default_def Let_def split: sum.split prod.split)
qed

text \<open>The router by itself, with both kinds of routing switched on or off.\<close>

definition is_wildcard :: "string \<Rightarrow> bool" where
  "is_wildcard t \<longleftrightarrow> (case parse_pattern t of Wildcard _ \<Rightarrow> True | _ \<Rightarrow> False)"

definition exact_matches :: "string \<Rightarrow> ('j, 'cb) EventSubscriber \<Rightarrow> nat" where
  "exact_matches t s = length (filter (\<lambda>p. \<not> is_wildcard p \<and> p = t) (sb_event_types s))"

definition wildcard_matches :: "string \<Rightarrow> ('j, 'cb) EventSubscriber \<Rightarrow> nat" where
  "wildcard_matches t s = length (filter is_wildcard (sb_event_types s))
     * length (filter (\<lambda>p. pattern_matches_wildcard p t) (sb_event_types s))"

definition expected_subscribers :: "'j EventEnv \<Rightarrow> RoutingConfig \<Rightarrow> 'j Event \<Rightarrow> ('j, 'cb) EventSubscriber list
    \<Rightarrow> ('j, 'cb) EventSubscriber list" where
  "expected_subscribers E c e subs =
     (let wanted = filter (\<lambda>s. should_deliver E s e) subs
      in (if rg_enable_pattern_matching c
          then concat (map (\<lambda>s. replicate (exact_matches (ev_event_type e) s) s) wanted) else [])
       @ (if rg_enable_wildcard_routing c
          then concat (map (\<lambda>s. replicate (wildcard_matches (ev_event_type e) s) s) wanted) else []))"

lemma subs_of_insert [simp]: "subs_of (hm_insert k v m) t = (if t = k then v else subs_of m t)"
  by (simp add: subs_of_def update_conv')

lemma subs_of_add_patterns:
  "subs_of (ro_patterns (foldl (add_pattern s) r ts)) t
    = subs_of (ro_patterns r) t @ replicate (length (filter (\<lambda>p. \<not> is_wildcard p \<and> p = t) ts)) s"
  "ro_wildcards (foldl (add_pattern s) r ts) = ro_wildcards r @ replicate (length (filter is_wildcard ts)) s"
proof (induction ts arbitrary: r)
  case (Cons p ts)
  { case 1 show ?case using Cons(1)
      by (cases "parse_pattern p") (auto simp: add_pattern_def is_wildcard_def replicate_append_same) }
  { case 2 show ?case using Cons(2)
      by (cases "parse_pattern p") (auto simp: add_pattern_def is_wildcard_def replicate_append_same) }
qed simp_all

lemma subs_of_add_subscribers:
  "subs_of (ro_patterns (foldl (\<lambda>r s. add_subscriber s r) r subs)) t
    = subs_of (ro_patterns r) t @ concat (map (\<lambda>s. replicate (exact_matches t s) s) subs)"
  "ro_wildcards (foldl (\<lambda>r s. add_subscriber s r) r subs)
    = ro_wildcards r @ concat (map (\<lambda>s. replicate (length (filter is_wildcard (sb_event_types s))) s) subs)"
  "ro_config (foldl (\<lambda>r s. add_subscriber s r) r subs) = ro_config r"
proof (induction subs arbitrary: r)
  case (Cons s subs)
  { case 1 show ?case using Cons(1) by (simp add: add_subscriber_def subs_of_add_patterns exact_matches_def) }
  { case 2 show ?case using Cons(2) by (simp add: add_subscriber_def subs_of_add_patterns) }
  { case 3 show ?case using Cons(3) by simp }
qed simp_all

lemma subs_of_Nil [simp]: "subs_of [] t = []"
  by (simp add: subs_of_def)

lemma concat_replicate_if: "concat (map (\<lambda>p. if P p then [s] else []) ps) = replicate (length (filter P ps)) s"
  by (induction ps) auto

lemma concat_map_replicate: "concat (map f (replicate n s)) = concat (replicate n (f s))"
  by (induction n) auto

lemma concat_replicate_replicate: "concat (replicate n (replicate m s)) = replicate (n * m) s"
  by (induction n) (auto simp: replicate_add)

lemma filter_concat_replicate:
  "filter P (concat (map (\<lambda>s. replicate (f s) s) subs)) = concat (map (\<lambda>s. replicate (f s) s) (filter P subs))"
  by (induction subs) auto

lemma deliver_calls: "fst (deliver_to_subscribers on_event c t e subs st) = map (\<lambda>s. (sb_callback s, e)) subs"
proof (induction subs arbitrary: t st)
  case (Cons s subs)
  then show ?case by (simp add: Let_def case_prod_unfold)
qed simp

lemma wildcards_collected:
  "concat (map (\<lambda>sub. concat (map (\<lambda>p. if pattern_matches_wildcard p t \<and> should_deliver E sub e then [sub] else [])
       (sb_event_types sub))) (concat (map (\<lambda>s. replicate (length (filter is_wildcard (sb_event_types s))) s) subs)))
    = concat (map (\<lambda>s. replicate (wildcard_matches t s) s) (filter (\<lambda>s. should_deliver E s e) subs))"
proof (induction subs)
  case (Cons s subs)
  have "concat (map (\<lambda>p. if pattern_matches_wildcard p t \<and> should_deliver E s e then [s] else []) (sb_event_types s))
      = (if should_deliver E s e then replicate (length (filter (\<lambda>p. pattern_matches_wildcard p t) (sb_event_types s))) s else [])"
    by (induction "sb_event_types s" rule: list.induct) (auto simp: concat_replicate_if)
  then show ?case using Cons
    by (simp add: concat_map_replicate concat_replicate_replicate wildcard_matches_def)
qed simp


text \<open>Consequences: two matching wildcards of one subscriber make four calls, and a regular expression is only ever
  compared as a text with the type of the event.\<close>

lemma two_wildcards_four_calls:
  assumes "sb_event_types s = [''a.*'', ''*.b'']" and "sb_filter s = None" and "ev_event_type e = ''a.b''"
  shows "expected_subscribers E (RoutingConfig_default\<lparr>rg_enable_wildcard_routing := True\<rparr>) e [s] = [s, s, s, s]"
proof -
  have "wildcard_matches ''a.b'' s = 4"
    unfolding wildcard_matches_def assms(1) by code_simp
  then show ?thesis using assms(2,3)
    by (simp add: expected_subscribers_def should_deliver_def RoutingConfig_default_def eval_nat_numeral)
qed

lemma regex_never_matches:
  assumes "list_all (\<lambda>p. starts_with p ''regex:'') (sb_event_types s)" and "\<not> starts_with (ev_event_type e) ''regex:''"
  shows "expected_subscribers E c e [s] = []"
proof -
  have "filter is_wildcard (sb_event_types s) = []" "filter (\<lambda>p. \<not> is_wildcard p \<and> p = ev_event_type e) (sb_event_types s) = []"
    using assms by (auto simp: list_all_iff is_wildcard_def parse_pattern_def filter_empty_conv)
  then show ?thesis by (simp add: expected_subscribers_def exact_matches_def wildcard_matches_def Let_def)
qed

text \<open>A filter of the system lets through what it describes, even if its action is to block.\<close>

lemma block_filter_passes:
  "apply_filters E e [with_action Block (with_condition (EventTypeEquals t) (EventFilter_new i n))] \<longleftrightarrow> ev_event_type e = t"
  by (simp add: apply_filters_def filter_matches_def with_action_def with_condition_def EventFilter_new_def)

text \<open>When the dead letters are full, new ones are dropped, and so are new events in the cache.\<close>

lemma dead_letters_keep_oldest:
  assumes "length (st_dead_letters st) = 1000"
  shows "st_dead_letters (store_dead_letter now e subscriber error st) = st_dead_letters st"
  using assms by (simp add: store_dead_letter_def)

lemma cache_keeps_oldest: "length es = 100 \<Longrightarrow> cache_push (Some es) e = es"
  by (simp add: cache_push_def)

section \<open>Limits of subscribers\<close>

definition limits_ok :: "('j, 'cb) EventSystem \<Rightarrow> bool" where
  "limits_ok y \<longleftrightarrow> (\<forall>t. length (subs_of (sy_subscribers y) t) \<le> ec_max_subscribers_per_event (sy_config y))"

lemma check_limits_spec:
  "check_limits lim ts m = (b, m') \<Longrightarrow> subs_of m' t = subs_of m t \<and> (b \<longrightarrow> (\<forall>t\<in>set ts. length (subs_of m t) < lim))"
proof (induction ts arbitrary: m)
  case (Cons u ts)
  have keep: "subs_of (case hm_get m u of None \<Rightarrow> hm_insert u [] m | Some _ \<Rightarrow> m) v = subs_of m v" for v
    by (cases "hm_get m u") (auto simp: subs_of_def update_conv')
  show ?case
    using Cons.prems Cons.IH [of "case hm_get m u of None \<Rightarrow> hm_insert u [] m | Some _ \<Rightarrow> m"]
    by (auto simp: Let_def keep split: if_splits)
qed simp

lemma subs_of_push_all:
  "subs_of (foldl (\<lambda>m t. hm_insert t (subs_of m t @ [s]) m) m ts) u = subs_of m u @ replicate (count_list ts u) s"
  by (induction ts arbitrary: m) (auto simp: replicate_append_same)

lemma subs_of_drop:
  assumes "distinct (map fst m)"
  shows "subs_of (drop_subscriber i m) u = filter (\<lambda>s. sb_id s \<noteq> i) (subs_of m u)"
  unfolding drop_subscriber_def subs_of_def map_of_retain [OF assms] by (simp split: option.split)

lemma drop_subscriber_distinct: "distinct (hm_keys m) \<Longrightarrow> distinct (hm_keys (drop_subscriber i m))"
  unfolding drop_subscriber_def by (rule distinct_map_filter) (simp add: case_prod_unfold comp_def)

lemma check_limits_distinct: "distinct (hm_keys m) \<Longrightarrow> distinct (hm_keys (snd (check_limits lim ts m)))"
  by (induction ts arbitrary: m) (auto simp: Let_def distinct_update split: option.split)

lemma push_all_distinct: "distinct (hm_keys m) \<Longrightarrow> distinct (hm_keys (foldl (\<lambda>m t. hm_insert t (subs_of m t @ [s]) m) m ts))"
  by (induction ts arbitrary: m) (auto simp: distinct_update)

fun types_distinct :: "('j, 'cb) system_op \<Rightarrow> bool" where
  "types_distinct (SubscribeOp s) \<longleftrightarrow> distinct (sb_event_types s)"
| "types_distinct _ \<longleftrightarrow> True"

lemma count_list_distinct: "distinct xs \<Longrightarrow> count_list xs x \<le> 1"
  by (induction xs) (auto simp: count_list_0_iff)

lemma subscribe_limits:
  assumes "limits_ok y" and "distinct (sb_event_types s)"
  shows "limits_ok (snd (subscribe s y))"
proof -
  obtain b m where c: "check_limits (ec_max_subscribers_per_event (sy_config y)) (sb_event_types s) (sy_subscribers y) = (b, m)"
    by (cases "check_limits (ec_max_subscribers_per_event (sy_config y)) (sb_event_types s) (sy_subscribers y)")
  note spec = check_limits_spec [OF c]
  show ?thesis
  proof (cases b)
    case True
    have "length (subs_of m t) + count_list (sb_event_types s) t \<le> ec_max_subscribers_per_event (sy_config y)" for t
    proof (cases "t \<in> set (sb_event_types s)")
      case True
      then have "length (subs_of m t) < ec_max_subscribers_per_event (sy_config y)"
        using \<open>b\<close> spec by simp
      moreover have "count_list (sb_event_types s) t \<le> 1" using assms(2) by (rule count_list_distinct)
      ultimately show ?thesis by linarith
    next
      case False
      then show ?thesis using assms(1) spec by (simp add: limits_ok_def count_list_0_iff)
    qed
    then show ?thesis by (simp add: limits_ok_def subscribe_def c \<open>b\<close> subs_of_push_all)
  next
    case False
    then show ?thesis using assms(1) spec by (simp add: limits_ok_def subscribe_def c)
  qed
qed

lemma system_step_limits:
  assumes "limits_ok y" and "distinct (hm_keys (sy_subscribers y))" and "types_distinct op"
  shows "limits_ok (system_step E on_event y op) \<and> distinct (hm_keys (sy_subscribers (system_step E on_event y op)))"
proof (cases op)
  case (PublishOp e t)
  then show ?thesis using assms by (simp add: limits_ok_def publish_keeps)
next
  case (SubscribeOp s)
  obtain b m where c: "check_limits (ec_max_subscribers_per_event (sy_config y)) (sb_event_types s) (sy_subscribers y) = (b, m)"
    by (cases "check_limits (ec_max_subscribers_per_event (sy_config y)) (sb_event_types s) (sy_subscribers y)")
  then have "distinct (hm_keys m)" using check_limits_distinct [OF assms(2)] by (metis snd_conv)
  then have "distinct (hm_keys (sy_subscribers (snd (subscribe s y))))"
    by (cases b) (simp_all add: subscribe_def c push_all_distinct)
  then show ?thesis using subscribe_limits assms SubscribeOp by simp
next
  case (UnsubscribeOp i)
  have "length (subs_of (drop_subscriber i (sy_subscribers y)) t) \<le> ec_max_subscribers_per_event (sy_config y)" for t
  proof -
    have "length (subs_of (drop_subscriber i (sy_subscribers y)) t) \<le> length (subs_of (sy_subscribers y) t)"
      by (simp add: subs_of_drop [OF assms(2)])
    also have "\<dots> \<le> ec_max_subscribers_per_event (sy_config y)" using assms(1) by (simp add: limits_ok_def)
    finally show ?thesis .
  qed
  then show ?thesis using UnsubscribeOp drop_subscriber_distinct [OF assms(2)]
    by (simp add: limits_ok_def unsubscribe_def)
next
  case (RemoveFilterOp i)
  then show ?thesis using assms by (simp add: limits_ok_def remove_filter_def Let_def)
qed (use assms in \<open>simp_all add: limits_ok_def add_filter_def\<close>)

text \<open>The subscriptions of one type never exceed the limit, if no subscriber lists a type twice.\<close>

theorem subscribers_bounded:
  assumes "list_all types_distinct ops"
  shows "length (subs_of (sy_subscribers (foldl (system_step E on_event) (EventSystem_new c) ops)) t)
    \<le> ec_max_subscribers_per_event c"
proof -
  have config: "sy_config (system_step E on_event y op) = sy_config y" for y and op :: "('a, 'b) system_op"
    by (cases op) (auto simp: publish_keeps subscribe_def unsubscribe_def add_filter_def remove_filter_def Let_def
        split: prod.split bool.split)
  have "limits_ok (foldl (system_step E on_event) y ops) \<and> sy_config (foldl (system_step E on_event) y ops) = sy_config y"
    if "limits_ok y" "distinct (hm_keys (sy_subscribers y))" for y
    using that assms
  proof (induction ops arbitrary: y)
    case (Cons op ops)
    then have "limits_ok (system_step E on_event y op) \<and> distinct (hm_keys (sy_subscribers (system_step E on_event y op)))"
      by (intro system_step_limits) simp_all
    then show ?case using Cons.IH [of "system_step E on_event y op"] Cons.prems(3) config by simp
  qed simp
  note run = this
  have "limits_ok (EventSystem_new c)" "distinct (hm_keys (sy_subscribers (EventSystem_new c)))"
    by (simp_all add: limits_ok_def EventSystem_new_def)
  note run [OF this]
  moreover have "sy_config (EventSystem_new c) = c" by (simp add: EventSystem_new_def)
  ultimately show ?thesis unfolding limits_ok_def by metis
qed

section \<open>What is stored and replayed\<close>

text \<open>The specification: the stored event of each identifier.\<close>

fun stored_step :: "int \<Rightarrow> (string \<rightharpoonup> 'j Event) \<Rightarrow> int \<times> 'j Event \<Rightarrow> (string \<rightharpoonup> 'j Event)" where
  "stored_step retention f (now, e) =
     (\<lambda>i. case (f(ev_id e \<mapsto> e)) i of None \<Rightarrow> None | Some x \<Rightarrow> if now - retention \<le> ev_timestamp x then Some x else None)"

definition storage_after :: "int \<Rightarrow> (int \<times> 'j Event) list \<Rightarrow> 'j EventStorage" where
  "storage_after retention writes = foldl (\<lambda>st (now, e). store_event now e st) (EventStorage_new retention) writes"

definition stored_after :: "int \<Rightarrow> (int \<times> 'j Event) list \<Rightarrow> (string \<rightharpoonup> 'j Event)" where
  "stored_after retention writes = foldl (stored_step retention) (\<lambda>_. None) writes"

lemma hm_get_delete_all: "hm_get (foldl (\<lambda>m k. AList.delete k m) m ks) k = (if k \<in> set ks then None else hm_get m k)"
  by (induction ks arbitrary: m) (auto simp: delete_conv')

lemma delete_all_distinct: "distinct (hm_keys m) \<Longrightarrow> distinct (hm_keys (foldl (\<lambda>m k. AList.delete k m) m ks))"
  by (induction ks arbitrary: m) (auto simp: distinct_delete)

lemma cleanup_get:
  assumes "distinct (hm_keys m)"
  shows "hm_get (cleanup_old_events now r m) k
    = (case hm_get m k of None \<Rightarrow> None | Some x \<Rightarrow> if now - r \<le> ev_timestamp x then Some x else None)"
proof -
  have "k \<in> set (map fst (filter (\<lambda>(_, e). ev_timestamp e < now - r) m)) \<longleftrightarrow> (\<exists>x. hm_get m k = Some x \<and> ev_timestamp x < now - r)"
    using assms by (force simp: map_of_eq_Some_iff)
  then show ?thesis by (auto simp: cleanup_old_events_def hm_get_delete_all split: option.split)
qed

definition storage_shows :: "int \<Rightarrow> (string \<rightharpoonup> 'j Event) \<Rightarrow> 'j EventStorage \<Rightarrow> bool" where
  "storage_shows r f st \<longleftrightarrow> st_retention_period st = r \<and> distinct (hm_keys (st_events st)) \<and> hm_get (st_events st) = f
     \<and> (\<forall>i x. f i = Some x \<longrightarrow> ev_id x = i)"

lemma storage_shows_store:
  assumes "storage_shows r f st"
  shows "storage_shows r (stored_step r f (now, e)) (store_event now e st)"
proof -
  have d: "distinct (hm_keys (hm_insert (ev_id e) e (st_events st)))" and f: "hm_get (st_events st) = f"
    and r: "st_retention_period st = r" and ids: "\<And>i x. f i = Some x \<Longrightarrow> ev_id x = i"
    using assms by (auto simp: storage_shows_def distinct_update)
  have "hm_get (st_events (store_event now e st)) = stored_step r f (now, e)"
    by (simp add: store_event_def cleanup_get [OF d] r f update_conv' fun_eq_iff)
  moreover have "distinct (hm_keys (st_events (store_event now e st)))"
    using d by (simp add: store_event_def cleanup_old_events_def delete_all_distinct)
  ultimately show ?thesis using ids r
    by (auto simp: storage_shows_def store_event_def split: option.splits if_splits)
qed

lemma storage_after_shows: "storage_shows r (stored_after r writes) (storage_after r writes)"
proof (induction writes rule: rev_induct)
  case Nil
  show ?case by (simp add: storage_shows_def stored_after_def storage_after_def EventStorage_new_def fun_eq_iff)
next
  case (snoc w writes)
  then show ?case using storage_shows_store
    by (cases w) (simp add: stored_after_def storage_after_def)
qed

text \<open>(C31) A query returns, newest first and each once, exactly the stored events of the type and time asked for, where an
  event is stored if it is the last one with its identifier and was within the retention period whenever an event was stored since.\<close>

theorem query_events_correct:
  "let es = query_events event_type from_time to_time (storage_after r writes)
   in sorted_wrt (\<lambda>a b. ev_timestamp b \<le> ev_timestamp a) es \<and> distinct (map ev_id es)
    \<and> set es = {x. stored_after r writes (ev_id x) = Some x \<and> from_time \<le> ev_timestamp x \<and> ev_timestamp x \<le> to_time
                  \<and> event_type \<in> {None, Some (ev_event_type x)}}"
proof -
  let ?st = "storage_after r writes" and ?f = "stored_after r writes"
  have d: "distinct (hm_keys (st_events ?st))" and f: "hm_get (st_events ?st) = ?f" and ids: "\<And>i x. ?f i = Some x \<Longrightarrow> ev_id x = i"
    using storage_after_shows [of r writes] by (auto simp: storage_shows_def)
  have id: "ev_id (snd p) = fst p" if "p \<in> set (st_events ?st)" for p
  proof -
    have "hm_get (st_events ?st) (fst p) = Some (snd p)" by (rule map_of_is_SomeI [OF d]) (simp add: that)
    then show ?thesis using ids f by simp
  qed
  then have keys: "map ev_id (map snd (st_events ?st)) = hm_keys (st_events ?st)" by (simp only: map_map comp_def map_eq_conv) simp
  have vals: "x \<in> snd ` set (st_events ?st) \<longleftrightarrow> ?f (ev_id x) = Some x" for x
  proof
    assume "x \<in> snd ` set (st_events ?st)"
    then obtain p where p: "p \<in> set (st_events ?st)" "x = snd p" by blast
    then have "hm_get (st_events ?st) (fst p) = Some (snd p)" by (intro map_of_is_SomeI [OF d]) (simp add: p)
    then show "?f (ev_id x) = Some x" using p id f by simp
  next
    assume "?f (ev_id x) = Some x"
    then have "(ev_id x, x) \<in> set (st_events ?st)" using f by (metis map_of_SomeD)
    then show "x \<in> snd ` set (st_events ?st)" by (rule image_eqI [rotated]) simp
  qed
  let ?P = "\<lambda>e. (case event_type of None \<Rightarrow> True | Some et \<Rightarrow> ev_event_type e = et) \<and> from_time \<le> ev_timestamp e \<and> ev_timestamp e \<le> to_time"
  define es where "es = query_events event_type from_time to_time ?st"
  have "sorted_wrt (\<lambda>a b. ev_timestamp b \<le> ev_timestamp a) es"
    using sorted_sort_key [of "\<lambda>e. - ev_timestamp e" "filter ?P (map snd (st_events ?st))"]
    by (simp add: es_def query_events_def sorted_map)
  moreover have "distinct (map ev_id es)"
  proof -
    have "distinct (map ev_id (filter ?P (map snd (st_events ?st))))"
      by (rule distinct_map_filter) (simp only: keys d)
    then show ?thesis unfolding es_def query_events_def distinct_map distinct_sort set_sort .
  qed
  moreover have "set es = {x. ?f (ev_id x) = Some x \<and> from_time \<le> ev_timestamp x \<and> ev_timestamp x \<le> to_time
                  \<and> event_type \<in> {None, Some (ev_event_type x)}}"
    by (cases event_type) (auto simp: es_def query_events_def vals)
  ultimately show ?thesis by (simp add: es_def Let_def)
qed

definition demo_env :: "unit EventEnv" where
  "demo_env = \<lparr>en_regex = (\<lambda>_ _. False), en_to_json = (\<lambda>_. Ok [])\<rparr>"

text \<open>Subscribing one plugin three times where two are allowed.\<close>

theorem subscribers_bounded_witness:
  "length (subs_of (sy_subscribers (foldl (system_step demo_env (\<lambda>_ _. Ok ()))
     (EventSystem_new (EventSystemConfig_default\<lparr>ec_max_subscribers_per_event := 2\<rparr>))
     (let s = SubscribeOp (EventSubscriber_new ''s'' ''p'' [''a''] ()) in [s, s, s]))) ''a'') = 2
   \<and> 2 \<le> ec_max_subscribers_per_event (EventSystemConfig_default\<lparr>ec_max_subscribers_per_event := 2\<rparr>)"
proof -
  let ?c = "EventSystemConfig_default\<lparr>ec_max_subscribers_per_event := 2\<rparr>"
  let ?s = "SubscribeOp (EventSubscriber_new ''s'' ''p'' [''a''] ()) :: (unit, unit) system_op"
  let ?ops = "[?s, ?s, ?s]"
  have len: "length (subs_of (sy_subscribers (foldl (system_step demo_env (\<lambda>_ _. Ok ())) (EventSystem_new ?c) ?ops)) ''a'') = 2"
    by (simp add: EventSystem_new_def EventSystemConfig_default_def EventSubscriber_new_def subscribe_def subs_of_def Let_def)
  have "list_all types_distinct ?ops" by (simp add: EventSubscriber_new_def list_all_iff)
  from subscribers_bounded [OF this, where c = ?c and t = "''a''" and E = demo_env and on_event = "\<lambda>_ _. Ok ()"] len
  show ?thesis by (simp add: Let_def)
qed

end
