(* ===== verification/Config_Schema.thy ===== *)
theory Config_Schema
  imports Rust_Str
begin

text \<open>
  The schemas of plugin configurations, \<open>abi/src/config/schema.rs\<close>, with the JSON values of
  \<open>serde_json\<close> they speak about: types of fields, validation rules, references to secrets, sections and the
  look-up of fields.

  A JSON object is the list of its members in the order of its map. The type of \<open>f64\<close> is a parameter
  with its operations (record \<open>F64\<close>); an \<open>i64\<close> is an integer. Reading and
  writing schemas as TOML or JSON is left out.
\<close>

section \<open>JSON values\<close>

record 'f F64 =
  f_of_int :: "int \<Rightarrow> 'f"
  f_less :: "'f \<Rightarrow> 'f \<Rightarrow> bool"
  f_eq :: "'f \<Rightarrow> 'f \<Rightarrow> bool"
  f_to_i64 :: "'f \<Rightarrow> int"
  f_is_finite :: "'f \<Rightarrow> bool"
  f_parse :: "string \<Rightarrow> 'f option"
  f_show :: "'f \<Rightarrow> string"

text \<open>\<open>serde_json::Number\<close>: non-negative integers, negative integers, and finite floating-point numbers.\<close>

datatype 'f Number = PosInt u64 | NegInt int | Float 'f

datatype 'f Value = JNull | JBool bool | JNumber "'f Number" | JString string | JArray "'f Value list"
  | JObject "(string \<times> 'f Value) list"

definition is_string :: "'f Value \<Rightarrow> bool" where
  "is_string v = (case v of JString _ \<Rightarrow> True | _ \<Rightarrow> False)"

definition is_number :: "'f Value \<Rightarrow> bool" where
  "is_number v = (case v of JNumber _ \<Rightarrow> True | _ \<Rightarrow> False)"

definition is_boolean :: "'f Value \<Rightarrow> bool" where
  "is_boolean v = (case v of JBool _ \<Rightarrow> True | _ \<Rightarrow> False)"

definition is_object :: "'f Value \<Rightarrow> bool" where
  "is_object v = (case v of JObject _ \<Rightarrow> True | _ \<Rightarrow> False)"

definition as_str :: "'f Value \<Rightarrow> string option" where
  "as_str v = (case v of JString s \<Rightarrow> Some s | _ \<Rightarrow> None)"

definition as_array :: "'f Value \<Rightarrow> 'f Value list option" where
  "as_array v = (case v of JArray xs \<Rightarrow> Some xs | _ \<Rightarrow> None)"

definition as_bool :: "'f Value \<Rightarrow> bool option" where
  "as_bool v = (case v of JBool b \<Rightarrow> Some b | _ \<Rightarrow> None)"

definition as_u64 :: "'f Value \<Rightarrow> u64 option" where
  "as_u64 v = (case v of JNumber (PosInt n) \<Rightarrow> Some n | _ \<Rightarrow> None)"

definition as_i64 :: "'f Value \<Rightarrow> int option" where
  "as_i64 v =
     (case v of
        JNumber (PosInt n) \<Rightarrow> if uint n < 2 ^ 63 then Some (uint n) else None
      | JNumber (NegInt i) \<Rightarrow> Some i
      | _ \<Rightarrow> None)"

definition as_f64 :: "'f F64 \<Rightarrow> 'f Value \<Rightarrow> 'f option" where
  "as_f64 F v =
     (case v of
        JNumber (PosInt n) \<Rightarrow> Some (f_of_int F (uint n))
      | JNumber (NegInt i) \<Rightarrow> Some (f_of_int F i)
      | JNumber (Float x) \<Rightarrow> Some x
      | _ \<Rightarrow> None)"

text \<open>\<open>Value::get\<close> with a string: the member of an object.\<close>

definition json_get :: "string \<Rightarrow> 'f Value \<Rightarrow> 'f Value option" where
  "json_get k v = (case v of JObject m \<Rightarrow> map_of m k | _ \<Rightarrow> None)"

text \<open>\<open>PartialEq\<close>: numbers of different kinds differ, floating-point numbers compare as such.\<close>

fun number_eq :: "'f F64 \<Rightarrow> 'f Number \<Rightarrow> 'f Number \<Rightarrow> bool" where
  "number_eq F (Float x) (Float y) = f_eq F x y"
| "number_eq F a b = (a = b)"

fun json_eq :: "'f F64 \<Rightarrow> 'f Value \<Rightarrow> 'f Value \<Rightarrow> bool"
  and json_eqs :: "'f F64 \<Rightarrow> 'f Value list \<Rightarrow> 'f Value list \<Rightarrow> bool"
  and json_eq_members :: "'f F64 \<Rightarrow> (string \<times> 'f Value) list \<Rightarrow> (string \<times> 'f Value) list \<Rightarrow> bool" where
  "json_eq F (JNumber a) (JNumber b) = number_eq F a b"
| "json_eq F (JArray xs) (JArray ys) = json_eqs F xs ys"
| "json_eq F (JObject xs) (JObject ys) = json_eq_members F xs ys"
| "json_eq F (JNull) JNull = True"
| "json_eq F (JBool a) (JBool b) = (a = b)"
| "json_eq F (JString a) (JString b) = (a = b)"
| "json_eq F _ _ = False"
| "json_eqs F [] [] = True"
| "json_eqs F (x # xs) (y # ys) = (json_eq F x y \<and> json_eqs F xs ys)"
| "json_eqs F _ _ = False"
| "json_eq_members F [] [] = True"
| "json_eq_members F ((k, x) # xs) ((l, y) # ys) = (k = l \<and> json_eq F x y \<and> json_eq_members F xs ys)"
| "json_eq_members F _ _ = False"

text \<open>\<open>[Value]::contains\<close>\<close>

definition json_contains :: "'f F64 \<Rightarrow> 'f Value list \<Rightarrow> 'f Value \<Rightarrow> bool" where
  "json_contains F vs v = list_ex (\<lambda>w. json_eq F w v) vs"

section \<open>Fields and rules\<close>

datatype ConfigFieldType =
    FString | FInteger | FFloat | FBoolean | FArray ConfigFieldType | FObject | FSecret
  | FEnum "string list"
  | FPath bool bool \<comment> \<open>\<open>must_exist\<close>, \<open>is_dir\<close>\<close>
  | FUrl "string list"
  | FDuration | FPort | FEmail | FHost

datatype 'f ValidationRule =
    RMin 'f | RMax 'f | RMinLength usize | RMaxLength usize | RPattern string
  | ROneOf "'f Value list" | RNotOneOf "'f Value list" | RCustom string "(string, 'f Value) hashmap"

datatype 'f WidgetType =
    TextInput | TextArea | Password | NumberInput | Slider string string string | Checkbox | Toggle | Select
  | RadioGroup | MultiSelect | ColorPicker | DatePicker | TimePicker | FilePicker "string list" | DirectoryPicker
  | CodeEditor string | MarkedSlider "('f \<times> string) list"

record 'f UIHints =
  uh_widget :: "'f WidgetType option"
  uh_placeholder :: "string option"
  uh_help_text :: "string option"
  uh_group :: "string option"
  uh_order :: "int option"
  uh_advanced :: bool
  uh_css_class :: "string option"
  uh_autofocus :: bool

record SecretReference =
  sr_uri :: string
  sr_key :: "string option"
  sr_version :: "string option"
  sr_cache :: bool
  sr_cache_ttl_seconds :: "u64 option"

record 'f ConfigField =
  cf_name :: string
  cf_label :: "string option"
  cf_description :: "string option"
  cf_field_type :: ConfigFieldType
  cf_default :: "'f Value option"
  cf_required :: bool
  cf_sensitive :: bool
  cf_validation :: "'f ValidationRule list"
  cf_ui_hints :: "'f UIHints option"
  cf_secret_ref :: "SecretReference option"
  cf_deprecated :: "string option"
  cf_env_var :: "string option"
  cf_reload_on_change :: bool

section \<open>References to secrets\<close>

datatype SecretBackend = Vault | Environment | File | Unknown

definition SecretReference_new :: "string \<Rightarrow> SecretReference" where
  "SecretReference_new uri =
     \<lparr>sr_uri = uri, sr_key = None, sr_version = None, sr_cache = True, sr_cache_ttl_seconds = Some 300\<rparr>"

definition is_secret_uri :: "string \<Rightarrow> bool" where
  "is_secret_uri uri \<longleftrightarrow> starts_with uri ''vault://'' \<or> starts_with uri ''env://'' \<or> starts_with uri ''file://''"

definition reference_parse :: "string \<Rightarrow> SecretReference option" where
  "reference_parse uri = (if is_secret_uri uri then Some (SecretReference_new uri) else None)"

definition backend_of :: "SecretReference \<Rightarrow> SecretBackend" where
  "backend_of r =
     (if starts_with (sr_uri r) ''vault://'' then Vault
      else if starts_with (sr_uri r) ''env://'' then Environment
      else if starts_with (sr_uri r) ''file://'' then File
      else Unknown)"

text \<open>\<open>find\<close> of a substring, with the text behind it.\<close>

fun after_sub :: "string \<Rightarrow> string \<Rightarrow> string option" where
  "after_sub p [] = (if p = [] then Some [] else None)"
| "after_sub p (c # s) = (case strip_prefix p (c # s) of Some r \<Rightarrow> Some r | None \<Rightarrow> after_sub p s)"

definition reference_path :: "SecretReference \<Rightarrow> string" where
  "reference_path r = (case after_sub ''://'' (sr_uri r) of Some p \<Rightarrow> p | None \<Rightarrow> sr_uri r)"

section \<open>Schemas\<close>

record 'f ConfigSection =
  cs_name :: string
  cs_title :: "string option"
  cs_description :: "string option"
  cs_fields :: "'f ConfigField list"
  cs_order :: "int option"
  cs_collapsed :: bool
  cs_icon :: "string option"

datatype ConfigFormat = Toml | Json | Yaml

datatype 'f GlobalValidationRule =
    FieldsEqual string string
  | AtLeastOneRequired "string list"
  | ExactlyOneRequired "string list"
  | ConditionalRequired string "'f Value" "string list"
  | GCustom string "string list" "(string, 'f Value) hashmap"

record 'f ConfigSchema =
  sc_version :: string
  sc_plugin_name :: string
  sc_description :: "string option"
  sc_sections :: "'f ConfigSection list"
  sc_global_validation :: "'f GlobalValidationRule list"
  sc_format :: ConfigFormat

definition ConfigSchema_new :: "string \<Rightarrow> 'f ConfigSchema" where
  "ConfigSchema_new plugin_name =
     \<lparr>sc_version = ''1.0.0'', sc_plugin_name = plugin_name, sc_description = None, sc_sections = [],
      sc_global_validation = [], sc_format = Toml\<rparr>"

definition add_section :: "'f ConfigSection \<Rightarrow> 'f ConfigSchema \<Rightarrow> 'f ConfigSchema" where
  "add_section s sc = sc\<lparr>sc_sections := sc_sections sc @ [s]\<rparr>"

text \<open>The first field of a name, section by section.\<close>

fun get_field_in :: "string \<Rightarrow> 'f ConfigSection list \<Rightarrow> 'f ConfigField option" where
  "get_field_in name [] = None"
| "get_field_in name (s # ss) =
     (case find (\<lambda>f. cf_name f = name) (cs_fields s) of Some f \<Rightarrow> Some f | None \<Rightarrow> get_field_in name ss)"

definition get_field :: "'f ConfigSchema \<Rightarrow> string \<Rightarrow> 'f ConfigField option" where
  "get_field sc name = get_field_in name (sc_sections sc)"

text \<open>A change \<open>g\<close> through \<open>get_field_mut\<close> affects the field that \<open>get_field\<close> finds.\<close>

fun change_first :: "string \<Rightarrow> ('f ConfigField \<Rightarrow> 'f ConfigField) \<Rightarrow> 'f ConfigField list \<Rightarrow> 'f ConfigField list option" where
  "change_first name g [] = None"
| "change_first name g (f # fs) =
     (if cf_name f = name then Some (g f # fs) else map_option ((#) f) (change_first name g fs))"

fun get_field_mut_in :: "string \<Rightarrow> ('f ConfigField \<Rightarrow> 'f ConfigField) \<Rightarrow> 'f ConfigSection list \<Rightarrow> 'f ConfigSection list option" where
  "get_field_mut_in name g [] = None"
| "get_field_mut_in name g (s # ss) =
     (case change_first name g (cs_fields s) of
        Some fs \<Rightarrow> Some (s\<lparr>cs_fields := fs\<rparr> # ss)
      | None \<Rightarrow> map_option ((#) s) (get_field_mut_in name g ss))"

definition get_field_mut :: "string \<Rightarrow> ('f ConfigField \<Rightarrow> 'f ConfigField) \<Rightarrow> 'f ConfigSchema \<Rightarrow> 'f ConfigSchema option" where
  "get_field_mut name g sc = map_option (\<lambda>ss. sc\<lparr>sc_sections := ss\<rparr>) (get_field_mut_in name g (sc_sections sc))"

definition all_fields :: "'f ConfigSchema \<Rightarrow> 'f ConfigField list" where
  "all_fields sc = concat (map cs_fields (sc_sections sc))"

definition required_fields :: "'f ConfigSchema \<Rightarrow> 'f ConfigField list" where
  "required_fields sc = filter cf_required (all_fields sc)"

definition secret_fields :: "'f ConfigSchema \<Rightarrow> 'f ConfigField list" where
  "secret_fields sc = filter (\<lambda>f. cf_secret_ref f \<noteq> None) (all_fields sc)"

datatype SchemaError =
    SParseError string | SSerializeError string | InvalidFieldReference string | DuplicateField string | InvalidValidation string

fun SchemaError_display :: "SchemaError \<Rightarrow> string" where
  "SchemaError_display (SParseError m) = ''Schema parse error: '' @ m"
| "SchemaError_display (SSerializeError m) = ''Schema serialize error: '' @ m"
| "SchemaError_display (InvalidFieldReference f) = ''Invalid field reference: '' @ f"
| "SchemaError_display (DuplicateField f) = ''Duplicate field: '' @ f"
| "SchemaError_display (InvalidValidation m) = ''Invalid validation: '' @ m"

section \<open>Look-up of fields\<close>

lemma find_append: "find P (xs @ ys) = (case find P xs of Some x \<Rightarrow> Some x | None \<Rightarrow> find P ys)"
  by (induction xs) auto

lemma get_field_find: "get_field sc name = find (\<lambda>f. cf_name f = name) (all_fields sc)"
proof -
  have "get_field_in name ss = find (\<lambda>f. cf_name f = name) (concat (map cs_fields ss))" for ss
    by (induction ss) (auto simp: find_append split: option.split)
  then show ?thesis by (simp add: get_field_def all_fields_def)
qed

lemma get_field_SomeD: "get_field sc name = Some f \<Longrightarrow> f \<in> set (all_fields sc) \<and> cf_name f = name"
  unfolding get_field_find by (auto simp: find_Some_iff)

lemma reference_parse_backend:
  "reference_parse uri = Some r \<Longrightarrow> sr_uri r = uri \<and> sr_key r = None \<and> backend_of r \<noteq> Unknown"
  by (auto simp: reference_parse_def is_secret_uri_def backend_of_def SecretReference_new_def split: if_splits)

end
