(* ===== verification/Config_Validator.thy ===== *)
theory Config_Validator
  imports Config_Schema
begin

text \<open>
  Validation of configurations, \<open>abi/src/config/validator.rs\<close>: types and rules of single fields, required and
  deprecated fields, rules over several fields, defaults, coercion, and durations such as \<open>1h30m\<close>.

  The file system, the parser of URLs, regular expressions, floating-point numbers and the printers derived by
  the compiler are arguments (record \<open>Cfg_Env\<close>); a custom validator is a function.
\<close>

section \<open>Errors\<close>

datatype ValidationError =
    RequiredFieldMissing string
  | TypeMismatch string string string \<comment> \<open>field, expected, actual\<close>
  | ConstraintViolation string string
  | InvalidPattern string string string
  | UnknownValidator string

fun ValidationError_display :: "ValidationError \<Rightarrow> string" where
  "ValidationError_display (RequiredFieldMissing field) = ''Required field '' @ quoted field @ '' is missing''"
| "ValidationError_display (TypeMismatch field expected actual) =
     ''Type mismatch for field '' @ quoted field @ '': expected '' @ expected @ '', got '' @ actual"
| "ValidationError_display (ConstraintViolation field message) =
     ''Validation failed for field '' @ quoted field @ '': '' @ message"
| "ValidationError_display (InvalidPattern field pattern error) =
     ''Invalid regex pattern '' @ quoted pattern @ '' for field '' @ quoted field @ '': '' @ error"
| "ValidationError_display (UnknownValidator name) = ''Unknown validator: '' @ name"

datatype ValidationWarning = DeprecatedField string string | UsingDefault string | UnusualValue string string

fun ValidationWarning_display :: "ValidationWarning \<Rightarrow> string" where
  "ValidationWarning_display (DeprecatedField field message) = ''Field '' @ quoted field @ '' is deprecated: '' @ message"
| "ValidationWarning_display (UsingDefault field) = ''Using default value for field '' @ quoted field"
| "ValidationWarning_display (UnusualValue field v) = ''Unusual value for field '' @ quoted field @ '': '' @ v"

record 'f Cfg_Env =
  e_f64 :: "'f F64"
  e_is_dir :: "string \<Rightarrow> bool"
  e_is_file :: "string \<Rightarrow> bool"
  e_url_scheme :: "string \<Rightarrow> string option"
  e_regex :: "string \<Rightarrow> string + (string \<Rightarrow> bool)"
  e_debug_type :: "ConfigFieldType \<Rightarrow> string"
  e_debug_value :: "'f Value \<Rightarrow> string"
  e_debug_values :: "'f Value list \<Rightarrow> string"
  e_to_string :: "'f Value \<Rightarrow> string"

type_synonym 'f custom_validators = "(string, 'f Value \<Rightarrow> ValidationError + unit) hashmap"

section \<open>Helpers\<close>

definition is_null_or_empty :: "'f Value \<Rightarrow> bool" where
  "is_null_or_empty v =
     (case v of JNull \<Rightarrow> True | JString s \<Rightarrow> s = [] | JArray xs \<Rightarrow> xs = [] | JObject m \<Rightarrow> m = [] | _ \<Rightarrow> False)"

fun value_type_name :: "'f Value \<Rightarrow> string" where
  "value_type_name JNull = ''null''"
| "value_type_name (JBool _) = ''boolean''"
| "value_type_name (JNumber _) = ''number''"
| "value_type_name (JString _) = ''string''"
| "value_type_name (JArray _) = ''array''"
| "value_type_name (JObject _) = ''object''"

text \<open>The character at the front of a UTF-8 text: a byte and the continuation bytes behind it.\<close>

definition utf8_char :: "char \<Rightarrow> string \<Rightarrow> string" where
  "utf8_char c s = c # takeWhile (\<lambda>d. of_char d \<in> {128..<192::nat}) s"

definition duration_unit :: "char \<Rightarrow> u64 \<Rightarrow> u64 option" where
  "duration_unit c num =
     (if c = CHR ''s'' then Some num
      else if c = CHR ''m'' then Some (num * 60)
      else if c = CHR ''h'' then Some (num * 3600)
      else if c = CHR ''d'' then Some (num * 86400)
      else if c = CHR ''w'' then Some (num * 604800)
      else None)"

fun duration_loop :: "string \<Rightarrow> string \<Rightarrow> u64 \<Rightarrow> string + u64" where
  "duration_loop [] current_num total_secs =
     (if current_num \<noteq> [] then Err ''Trailing number without unit'' else Ok total_secs)"
| "duration_loop (c # s) current_num total_secs =
     (if is_ascii_digit c then duration_loop s (current_num @ [c]) total_secs
      else (case parse_u64 current_num of
              None \<Rightarrow> Err ''Invalid number''
            | Some num \<Rightarrow>
                (case duration_unit c num of
                   None \<Rightarrow> Err (''Unknown duration unit: '' @ utf8_char c s)
                 | Some secs \<Rightarrow> duration_loop s [] (total_secs + secs))))"

definition parse_duration :: "string \<Rightarrow> string + u64" where
  "parse_duration s = duration_loop s [] 0"

definition is_ok :: "'e + 'a \<Rightarrow> bool" where
  "is_ok r = (case r of Ok _ \<Rightarrow> True | Err _ \<Rightarrow> False)"

section \<open>Types\<close>

fun validate_type :: "'f Cfg_Env \<Rightarrow> ConfigFieldType \<Rightarrow> 'f Value \<Rightarrow> string \<Rightarrow> ValidationError + unit" where
  "validate_type E field_type v field_name =
     (let valid = (case field_type of
          FString \<Rightarrow> is_string v
        | FInteger \<Rightarrow> as_i64 v \<noteq> None \<or> as_u64 v \<noteq> None \<or> is_number v
        | FFloat \<Rightarrow> (case v of JNumber (Float _) \<Rightarrow> True | _ \<Rightarrow> False) \<or> is_number v
        | FBoolean \<Rightarrow> is_boolean v
        | FArray inner_type \<Rightarrow>
            (case as_array v of Some arr \<Rightarrow> list_all (\<lambda>x. is_ok (validate_type E inner_type x field_name)) arr
             | None \<Rightarrow> False)
        | FObject \<Rightarrow> is_object v
        | FSecret \<Rightarrow> is_string v \<or> is_object v
        | FEnum variants \<Rightarrow> (case as_str v of Some s \<Rightarrow> s \<in> set variants | None \<Rightarrow> False)
        | FPath must_exist is_dir \<Rightarrow>
            (case as_str v of
               Some s \<Rightarrow> if must_exist then (if is_dir then e_is_dir E s else e_is_file E s) else True
             | None \<Rightarrow> False)
        | FUrl schemes \<Rightarrow>
            (case as_str v of
               Some s \<Rightarrow> (case e_url_scheme E s of
                            Some scheme \<Rightarrow> if schemes = [] then True else scheme \<in> set schemes
                          | None \<Rightarrow> False)
             | None \<Rightarrow> False)
        | FDuration \<Rightarrow> (case as_str v of Some s \<Rightarrow> is_ok (parse_duration s) | None \<Rightarrow> False)
        | FPort \<Rightarrow> (case as_u64 v of Some n \<Rightarrow> 1 \<le> n \<and> n \<le> 65535 | None \<Rightarrow> False)
        | FEmail \<Rightarrow> (case as_str v of Some s \<Rightarrow> CHR ''@'' \<in> set s \<and> CHR ''.'' \<in> set s | None \<Rightarrow> False)
        | FHost \<Rightarrow> (case as_str v of Some s \<Rightarrow> s \<noteq> [] \<and> CHR '' '' \<notin> set s | None \<Rightarrow> False))
      in if \<not> valid then Err (TypeMismatch field_name (e_debug_type E field_type) (value_type_name v)) else Ok ())"

declare validate_type.simps [simp del]

section \<open>Rules of a field\<close>

definition validate_rule :: "'f Cfg_Env \<Rightarrow> 'f custom_validators \<Rightarrow> 'f ValidationRule \<Rightarrow> 'f Value \<Rightarrow> string \<Rightarrow> ValidationError + unit" where
  "validate_rule E validators rule v field_name =
     (case rule of
        RMin m \<Rightarrow>
          (case as_f64 (e_f64 E) v of
             Some n \<Rightarrow>
               if f_less (e_f64 E) n m
               then Err (ConstraintViolation field_name
                      (''Value '' @ f_show (e_f64 E) n @ '' is less than minimum '' @ f_show (e_f64 E) m))
               else Ok ()
           | None \<Rightarrow> Ok ())
      | RMax m \<Rightarrow>
          (case as_f64 (e_f64 E) v of
             Some n \<Rightarrow>
               if f_less (e_f64 E) m n
               then Err (ConstraintViolation field_name
                      (''Value '' @ f_show (e_f64 E) n @ '' is greater than maximum '' @ f_show (e_f64 E) m))
               else Ok ()
           | None \<Rightarrow> Ok ())
      | RMinLength min_len \<Rightarrow>
          (case as_str v of
             Some s \<Rightarrow>
               if length s < unat min_len
               then Err (ConstraintViolation field_name
                      (''String length '' @ show_nat (length s) @ '' is less than minimum '' @ show_u64 min_len))
               else Ok ()
           | None \<Rightarrow> Ok ())
      | RMaxLength max_len \<Rightarrow>
          (case as_str v of
             Some s \<Rightarrow>
               if unat max_len < length s
               then Err (ConstraintViolation field_name
                      (''String length '' @ show_nat (length s) @ '' is greater than maximum '' @ show_u64 max_len))
               else Ok ()
           | None \<Rightarrow> Ok ())
      | RPattern regex \<Rightarrow>
          (case as_str v of
             Some s \<Rightarrow>
               (case e_regex E regex of
                  Err e \<Rightarrow> Err (InvalidPattern field_name regex e)
                | Ok re \<Rightarrow>
                    if \<not> re s
                    then Err (ConstraintViolation field_name
                           (''Value '' @ quoted s @ '' does not match pattern '' @ regex))
                    else Ok ())
           | None \<Rightarrow> Ok ())
      | ROneOf vs \<Rightarrow>
          if \<not> json_contains (e_f64 E) vs v
          then Err (ConstraintViolation field_name
                 (''Value '' @ e_debug_value E v @ '' is not one of '' @ e_debug_values E vs))
          else Ok ()
      | RNotOneOf vs \<Rightarrow>
          if json_contains (e_f64 E) vs v
          then Err (ConstraintViolation field_name (''Value '' @ e_debug_value E v @ '' is not allowed''))
          else Ok ()
      | RCustom name _ \<Rightarrow>
          (case hm_get validators name of Some validator \<Rightarrow> validator v | None \<Rightarrow> Err (UnknownValidator name)))"

text \<open>The loop over the rules with \<open>?\<close>: the first failure is returned.\<close>

fun try_all :: "('r \<Rightarrow> 'e + unit) \<Rightarrow> 'r list \<Rightarrow> 'e + unit" where
  "try_all f [] = Ok ()"
| "try_all f (r # rs) = (case f r of Err e \<Rightarrow> Err e | Ok _ \<Rightarrow> try_all f rs)"

definition validate_field :: "'f Cfg_Env \<Rightarrow> 'f custom_validators \<Rightarrow> 'f ConfigField \<Rightarrow> 'f Value \<Rightarrow> ValidationError + unit" where
  "validate_field E validators field v =
     (case validate_type E (cf_field_type field) v (cf_name field) of
        Err e \<Rightarrow> Err e
      | Ok _ \<Rightarrow> try_all (\<lambda>rule. validate_rule E validators rule v (cf_name field)) (cf_validation field))"

section \<open>Rules over several fields\<close>

type_synonym 'f config_values = "(string, 'f Value) hashmap"

definition value_set :: "'f config_values \<Rightarrow> string \<Rightarrow> bool" where
  "value_set values f = (case hm_get values f of Some v \<Rightarrow> \<not> is_null_or_empty v | None \<Rightarrow> False)"

definition option_eq :: "'f F64 \<Rightarrow> 'f Value option \<Rightarrow> 'f Value option \<Rightarrow> bool" where
  "option_eq F a b = (case (a, b) of (None, None) \<Rightarrow> True | (Some x, Some y) \<Rightarrow> json_eq F x y | _ \<Rightarrow> False)"

definition validate_global_rule :: "'f Cfg_Env \<Rightarrow> 'f GlobalValidationRule \<Rightarrow> 'f config_values \<Rightarrow> ValidationError + unit" where
  "validate_global_rule E rule values =
     (case rule of
        FieldsEqual field1 field2 \<Rightarrow>
          if \<not> option_eq (e_f64 E) (hm_get values field1) (hm_get values field2)
          then Err (ConstraintViolation (field1 @ '' / '' @ field2) ''Fields must have the same value'')
          else Ok ()
      | AtLeastOneRequired names \<Rightarrow>
          if \<not> list_ex (value_set values) names
          then Err (ConstraintViolation (join '', '' names) ''At least one of these fields is required'')
          else Ok ()
      | ExactlyOneRequired names \<Rightarrow>
          (let count = length (filter (value_set values) names)
           in if count \<noteq> 1
              then Err (ConstraintViolation (join '', '' names)
                     (''Exactly one of these fields is required, but '' @ show_nat count @ '' are set''))
              else Ok ())
      | ConditionalRequired when_field when_value then_required \<Rightarrow>
          if option_eq (e_f64 E) (hm_get values when_field) (Some when_value)
          then try_all (\<lambda>field.
                 if \<not> value_set values field
                 then Err (ConstraintViolation field
                        (''Field is required when '' @ when_field @ '' is '' @ e_debug_value E when_value))
                 else Ok ()) then_required
          else Ok ()
      | GCustom name _ _ \<Rightarrow> Err (UnknownValidator (''global:'' @ name)))"

section \<open>Whole configurations\<close>

definition check_field :: "'f Cfg_Env \<Rightarrow> 'f custom_validators \<Rightarrow> 'f config_values \<Rightarrow> 'f ConfigField \<Rightarrow> ValidationError + unit" where
  "check_field E validators values field =
     (let v = hm_get values (cf_name field)
      in if cf_required field \<and> (v = None \<or> (case v of Some x \<Rightarrow> is_null_or_empty x | None \<Rightarrow> False)) \<and> cf_default field = None
         then Err (RequiredFieldMissing (cf_name field))
         else (case v of
                 Some x \<Rightarrow> if \<not> is_null_or_empty x then validate_field E validators field x else Ok ()
               | None \<Rightarrow> Ok ()))"

definition deprecation :: "'f config_values \<Rightarrow> 'f ConfigField \<Rightarrow> ValidationWarning list" where
  "deprecation values field =
     (case (hm_get values (cf_name field), cf_deprecated field) of
        (Some _, Some message) \<Rightarrow> [DeprecatedField (cf_name field) message]
      | _ \<Rightarrow> [])"

fun validate_fields :: "'f Cfg_Env \<Rightarrow> 'f custom_validators \<Rightarrow> 'f config_values \<Rightarrow> 'f ConfigField list
    \<Rightarrow> ValidationWarning list \<Rightarrow> ValidationError + ValidationWarning list" where
  "validate_fields E validators values [] warnings = Ok warnings"
| "validate_fields E validators values (field # rest) warnings =
     (case check_field E validators values field of
        Err e \<Rightarrow> Err e
      | Ok _ \<Rightarrow> validate_fields E validators values rest (warnings @ deprecation values field))"

definition validate :: "'f Cfg_Env \<Rightarrow> 'f custom_validators \<Rightarrow> 'f ConfigSchema \<Rightarrow> 'f config_values
    \<Rightarrow> ValidationError + ValidationWarning list" where
  "validate E validators schema values =
     (case validate_fields E validators values (all_fields schema) [] of
        Err e \<Rightarrow> Err e
      | Ok warnings \<Rightarrow>
          (case try_all (\<lambda>rule. validate_global_rule E rule values) (sc_global_validation schema) of
             Err e \<Rightarrow> Err e
           | Ok _ \<Rightarrow> Ok warnings))"

definition register_custom_validator :: "string \<Rightarrow> ('f Value \<Rightarrow> ValidationError + unit) \<Rightarrow> 'f custom_validators \<Rightarrow> 'f custom_validators" where
  "register_custom_validator name validator validators = hm_insert name validator validators"

section \<open>Defaults and coercion\<close>

definition apply_default :: "'f config_values \<Rightarrow> 'f ConfigField \<Rightarrow> 'f config_values" where
  "apply_default values field =
     (if (case hm_get values (cf_name field) of None \<Rightarrow> True | Some v \<Rightarrow> is_null_or_empty v)
      then (case cf_default field of Some dflt \<Rightarrow> hm_insert (cf_name field) dflt values | None \<Rightarrow> values)
      else values)"

definition apply_defaults :: "'f ConfigSchema \<Rightarrow> 'f config_values \<Rightarrow> 'f config_values" where
  "apply_defaults schema values = foldl apply_default values (all_fields schema)"

text \<open>\<open>json!(n)\<close> of an \<open>i64\<close> and of an \<open>f64\<close>\<close>

definition json_i64 :: "int \<Rightarrow> 'f Value" where
  "json_i64 n = JNumber (if n < 0 then NegInt n else PosInt (word_of_int n))"

definition json_f64 :: "'f F64 \<Rightarrow> 'f \<Rightarrow> 'f Value" where
  "json_f64 F x = (if f_is_finite F x then JNumber (Float x) else JNull)"

definition coerce_value :: "'f Cfg_Env \<Rightarrow> ConfigFieldType \<Rightarrow> 'f Value \<Rightarrow> ValidationError + 'f Value" where
  "coerce_value E field_type v =
     (case field_type of
        FString \<Rightarrow> Ok (if is_string v then v else JString (e_to_string E v))
      | FInteger \<Rightarrow>
          (case as_i64 v of
             Some n \<Rightarrow> Ok (json_i64 n)
           | None \<Rightarrow>
               (case as_f64 (e_f64 E) v of
                  Some x \<Rightarrow> Ok (json_i64 (f_to_i64 (e_f64 E) x))
                | None \<Rightarrow>
                    (case Option.bind (as_str v) parse_i64 of
                       Some n \<Rightarrow> Ok (json_i64 n)
                     | None \<Rightarrow> Err (TypeMismatch ''value'' ''integer'' (value_type_name v)))))
      | FFloat \<Rightarrow>
          (case as_f64 (e_f64 E) v of
             Some x \<Rightarrow> Ok (json_f64 (e_f64 E) x)
           | None \<Rightarrow>
               (case Option.bind (as_str v) (f_parse (e_f64 E)) of
                  Some x \<Rightarrow> Ok (json_f64 (e_f64 E) x)
                | None \<Rightarrow> Err (TypeMismatch ''value'' ''float'' (value_type_name v))))
      | FBoolean \<Rightarrow>
          (case as_bool v of
             Some b \<Rightarrow> Ok (JBool b)
           | None \<Rightarrow>
               (case as_str v of
                  Some s \<Rightarrow>
                    if to_lowercase s \<in> {''true'', ''yes'', ''1'', ''on''} then Ok (JBool True)
                    else if to_lowercase s \<in> {''false'', ''no'', ''0'', ''off''} then Ok (JBool False)
                    else Err (TypeMismatch ''value'' ''boolean'' (value_type_name v))
                | None \<Rightarrow> Err (TypeMismatch ''value'' ''boolean'' (value_type_name v))))
      | _ \<Rightarrow> Ok v)"

section \<open>Durations\<close>

definition unit_secs :: "char \<Rightarrow> nat option" where
  "unit_secs = map_of [(CHR ''s'', 1), (CHR ''m'', 60), (CHR ''h'', 3600), (CHR ''d'', 86400), (CHR ''w'', 604800)]"

text \<open>A part of a duration: digits and a unit.\<close>

definition duration_part :: "string \<times> char \<Rightarrow> bool" where
  "duration_part = (\<lambda>(ds, u). ds \<noteq> [] \<and> list_all is_ascii_digit ds \<and> digits_nat ds < 2 ^ 64 \<and> unit_secs u \<noteq> None)"

definition part_text :: "string \<times> char \<Rightarrow> string" where
  "part_text = (\<lambda>(ds, u). ds @ [u])"

definition part_secs :: "string \<times> char \<Rightarrow> nat" where
  "part_secs = (\<lambda>(ds, u). digits_nat ds * the (unit_secs u))"

lemma duration_unit_secs: "duration_unit u n = map_option (\<lambda>k. n * of_nat k) (unit_secs u)"
  by (simp add: duration_unit_def unit_secs_def)

lemma unit_no_digit: "unit_secs u \<noteq> None \<Longrightarrow> \<not> is_ascii_digit u"
  by (auto simp: unit_secs_def is_ascii_digit_def split: if_splits)

lemma parse_u64_digits:
  assumes "list_all is_ascii_digit ds"
  shows "parse_u64 ds = (if ds \<noteq> [] \<and> digits_nat ds < 2 ^ 64 then Some (of_nat (digits_nat ds)) else None)"
proof (cases "ds = []")
  case True
  then show ?thesis by (simp add: parse_u64_def parse_nat_def)
next
  case False
  then have "parse_nat ds = Some (digits_nat ds)" using assms by (rule parse_nat_digits)
  then show ?thesis using False by (simp add: parse_u64_def)
qed

lemma duration_loop_digits:
  "list_all is_ascii_digit ds \<Longrightarrow> duration_loop (ds @ s) cur t = duration_loop s (cur @ ds) t"
  by (induction ds arbitrary: cur) auto

lemma duration_loop_parts:
  "\<forall>p\<in>set ps. duration_part p \<Longrightarrow>
   duration_loop (concat (map part_text ps)) [] t = Ok (t + of_nat (sum_list (map part_secs ps)))"
proof (induction ps arbitrary: t)
  case (Cons p ps)
  obtain ds u where p: "p = (ds, u)" by (cases p)
  from Cons.prems p have ds: "ds \<noteq> []" "list_all is_ascii_digit ds" "digits_nat ds < 2 ^ 64" and u: "unit_secs u \<noteq> None"
    by (auto simp: duration_part_def)
  then obtain k where k: "unit_secs u = Some k" by blast
  have "duration_loop (concat (map part_text (p # ps))) [] t
      = duration_loop (u # concat (map part_text ps)) ds t"
    using duration_loop_digits [OF ds(2), of "u # concat (map part_text ps)" "[]" t] by (simp add: p part_text_def)
  also have "\<dots> = duration_loop (concat (map part_text ps)) [] (t + of_nat (digits_nat ds * k))"
    using ds unit_no_digit [OF u] k by (simp add: parse_u64_digits duration_unit_secs)
  finally show ?case using Cons k by (simp add: p part_secs_def ac_simps)
qed simp

lemma duration_loop_OkD:
  "duration_loop s cur t = Ok d \<Longrightarrow> list_all is_ascii_digit cur \<Longrightarrow>
   \<exists>ps. cur @ s = concat (map part_text ps) \<and> (\<forall>p\<in>set ps. duration_part p)"
proof (induction s cur t rule: duration_loop.induct)
  case (1 cur t)
  then have "cur = []" by (simp split: if_splits)
  then show ?case by (intro exI [of _ "[]"]) simp
next
  case (2 c s cur t)
  show ?case
  proof (cases "is_ascii_digit c")
    case True
    then show ?thesis using "2.IH"(1) "2.prems" by simp
  next
    case False
    then obtain n secs where n: "parse_u64 cur = Some n" and secs: "duration_unit c n = Some secs"
      and rest: "duration_loop s [] (t + secs) = Ok d"
      using "2.prems"(1) by (auto split: option.splits)
    from "2.IH"(2) [OF False n secs rest] obtain ps where ps: "s = concat (map part_text ps)" "\<forall>p\<in>set ps. duration_part p"
      by auto
    have "duration_part (cur, c)"
      using n secs "2.prems"(2) by (auto simp: duration_part_def parse_u64_digits duration_unit_secs split: if_splits)
    then show ?thesis using ps by (intro exI [of _ "(cur, c) # ps"]) (simp add: part_text_def)
  qed
qed

theorem parse_duration_correct:
  "parse_duration s = Ok d \<longleftrightarrow>
   (\<exists>ps. s = concat (map part_text ps) \<and> (\<forall>p\<in>set ps. duration_part p) \<and> d = of_nat (sum_list (map part_secs ps)))"
proof
  assume d: "parse_duration s = Ok d"
  then obtain ps where ps: "s = concat (map part_text ps)" "\<forall>p\<in>set ps. duration_part p"
    using duration_loop_OkD [of s "[]" 0 d] by (auto simp: parse_duration_def)
  then have "d = of_nat (sum_list (map part_secs ps))"
    using d duration_loop_parts [of ps 0] by (simp add: parse_duration_def)
  then show "\<exists>ps. s = concat (map part_text ps) \<and> (\<forall>p\<in>set ps. duration_part p) \<and> d = of_nat (sum_list (map part_secs ps))"
    using ps by blast
qed (use duration_loop_parts [where t = 0] in \<open>auto simp: parse_duration_def\<close>)

text \<open>The total wraps around: these durations are far from zero.\<close>

lemma duration_wraps: "parse_duration ''18446744073709551615s1s'' = Ok 0"
proof -
  have "parse_u64 ''18446744073709551615'' = Some (- 1)"
    by (subst parse_u64_digits) (simp_all add: is_ascii_digit_def digits_nat_def)
  moreover have "parse_u64 ''1'' = Some 1"
    by (subst parse_u64_digits) (simp_all add: is_ascii_digit_def digits_nat_def)
  ultimately show ?thesis
    by (simp add: parse_duration_def is_ascii_digit_def duration_unit_def)
qed

section \<open>What validation means\<close>

text \<open>The values of a type.\<close>

primrec has_type :: "'f Cfg_Env \<Rightarrow> ConfigFieldType \<Rightarrow> 'f Value \<Rightarrow> bool" where
  "has_type E FString v \<longleftrightarrow> (\<exists>s. v = JString s)"
| "has_type E FInteger v \<longleftrightarrow> (\<exists>n. v = JNumber n)"
| "has_type E FFloat v \<longleftrightarrow> (\<exists>n. v = JNumber n)"
| "has_type E FBoolean v \<longleftrightarrow> (\<exists>b. v = JBool b)"
| "has_type E (FArray t) v \<longleftrightarrow> (\<exists>xs. v = JArray xs \<and> (\<forall>x\<in>set xs. has_type E t x))"
| "has_type E FObject v \<longleftrightarrow> (\<exists>m. v = JObject m)"
| "has_type E FSecret v \<longleftrightarrow> (\<exists>s. v = JString s) \<or> (\<exists>m. v = JObject m)"
| "has_type E (FEnum variants) v \<longleftrightarrow> (\<exists>s\<in>set variants. v = JString s)"
| "has_type E (FPath must_exist is_dir) v \<longleftrightarrow>
     (\<exists>s. v = JString s \<and> (must_exist \<longrightarrow> (if is_dir then e_is_dir E s else e_is_file E s)))"
| "has_type E (FUrl schemes) v \<longleftrightarrow> (\<exists>s c. v = JString s \<and> e_url_scheme E s = Some c \<and> (schemes = [] \<or> c \<in> set schemes))"
| "has_type E FDuration v \<longleftrightarrow> (\<exists>ps. v = JString (concat (map part_text ps)) \<and> (\<forall>p\<in>set ps. duration_part p))"
| "has_type E FPort v \<longleftrightarrow> (\<exists>n. v = JNumber (PosInt n) \<and> 1 \<le> n \<and> n \<le> 65535)"
| "has_type E FEmail v \<longleftrightarrow> (\<exists>s. v = JString s \<and> CHR ''@'' \<in> set s \<and> CHR ''.'' \<in> set s)"
| "has_type E FHost v \<longleftrightarrow> (\<exists>s. v = JString s \<and> s \<noteq> [] \<and> CHR '' '' \<notin> set s)"

fun rule_met :: "'f Cfg_Env \<Rightarrow> 'f custom_validators \<Rightarrow> 'f Value \<Rightarrow> 'f ValidationRule \<Rightarrow> bool" where
  "rule_met E C v (RMin m) = (\<forall>n. as_f64 (e_f64 E) v = Some n \<longrightarrow> \<not> f_less (e_f64 E) n m)"
| "rule_met E C v (RMax m) = (\<forall>n. as_f64 (e_f64 E) v = Some n \<longrightarrow> \<not> f_less (e_f64 E) m n)"
| "rule_met E C v (RMinLength n) = (\<forall>s. v = JString s \<longrightarrow> unat n \<le> length s)"
| "rule_met E C v (RMaxLength n) = (\<forall>s. v = JString s \<longrightarrow> length s \<le> unat n)"
| "rule_met E C v (RPattern p) = (\<forall>s. v = JString s \<longrightarrow> (\<exists>re. e_regex E p = Ok re \<and> re s))"
| "rule_met E C v (ROneOf vs) = (\<exists>w\<in>set vs. json_eq (e_f64 E) w v)"
| "rule_met E C v (RNotOneOf vs) = (\<forall>w\<in>set vs. \<not> json_eq (e_f64 E) w v)"
| "rule_met E C v (RCustom name _) = (\<exists>f. map_of C name = Some f \<and> f v = Ok ())"

definition field_met :: "'f Cfg_Env \<Rightarrow> 'f custom_validators \<Rightarrow> 'f config_values \<Rightarrow> 'f ConfigField \<Rightarrow> bool" where
  "field_met E C values f \<longleftrightarrow>
     (cf_required f \<longrightarrow> value_set values (cf_name f) \<or> cf_default f \<noteq> None) \<and>
     (\<forall>v. map_of values (cf_name f) = Some v \<longrightarrow> \<not> is_null_or_empty v \<longrightarrow>
        has_type E (cf_field_type f) v \<and> (\<forall>r\<in>set (cf_validation f). rule_met E C v r))"

fun global_met :: "'f Cfg_Env \<Rightarrow> 'f config_values \<Rightarrow> 'f GlobalValidationRule \<Rightarrow> bool" where
  "global_met E values (FieldsEqual a b) = option_eq (e_f64 E) (map_of values a) (map_of values b)"
| "global_met E values (AtLeastOneRequired fs) = (\<exists>f\<in>set fs. value_set values f)"
| "global_met E values (ExactlyOneRequired fs) = (\<exists>as f bs. fs = as @ f # bs \<and> value_set values f \<and> (\<forall>g\<in>set (as @ bs). \<not> value_set values g))"
| "global_met E values (ConditionalRequired w v fs) =
     (\<forall>x. map_of values w = Some x \<longrightarrow> json_eq (e_f64 E) x v \<longrightarrow> (\<forall>f\<in>set fs. value_set values f))"
| "global_met E values (GCustom _ _ _) = False"

lemma is_ok_simps [simp]: "is_ok (Ok x)" "\<not> is_ok (Err e)"
  by (simp_all add: is_ok_def)

lemma is_ok_iff: "is_ok (r :: 'e + unit) \<longleftrightarrow> r = Ok ()"
  by (cases r) simp_all

lemma validate_type_Ok: "validate_type E t v n = Ok () \<longleftrightarrow> has_type E t v"
proof (induction t arbitrary: v)
  case FString then show ?case by (cases v) (simp_all add: validate_type.simps is_string_def)
next
  case FInteger then show ?case
    by (cases v) (simp_all add: validate_type.simps is_number_def as_i64_def as_u64_def)
next
  case FFloat then show ?case by (cases v) (simp_all add: validate_type.simps is_number_def)
next
  case FBoolean then show ?case by (cases v) (simp_all add: validate_type.simps is_boolean_def)
next
  case (FArray t) then show ?case
    by (cases v) (simp_all add: validate_type.simps [of _ "FArray t"] as_array_def list_all_iff is_ok_iff)
next
  case FObject then show ?case by (cases v) (simp_all add: validate_type.simps is_object_def)
next
  case FSecret then show ?case by (cases v) (simp_all add: validate_type.simps is_object_def is_string_def)
next
  case (FEnum x) then show ?case by (cases v) (simp_all add: validate_type.simps as_str_def)
next
  case (FPath x1 x2) then show ?case by (cases v) (simp_all add: validate_type.simps as_str_def)
next
  case (FUrl x) then show ?case
    by (cases v) (auto simp add: validate_type.simps as_str_def split: option.split)
next
  case FDuration then show ?case
  proof (cases v)
    case (JString s)
    have "is_ok (parse_duration s) \<longleftrightarrow> (\<exists>d. parse_duration s = Ok d)" by (cases "parse_duration s") simp_all
    then show ?thesis by (simp add: JString validate_type.simps as_str_def parse_duration_correct)
  qed (simp_all add: validate_type.simps as_str_def)
next
  case FPort then show ?case
  proof (cases v)
    case (JNumber n)
    then show ?thesis by (cases n) (simp_all add: validate_type.simps as_u64_def)
  qed (simp_all add: validate_type.simps as_u64_def)
next
  case FEmail then show ?case by (cases v) (simp_all add: validate_type.simps as_str_def)
next
  case FHost then show ?case by (cases v) (simp_all add: validate_type.simps as_str_def)
qed

lemma validate_type_Err:
  "validate_type E t v n = Err e \<Longrightarrow> e = TypeMismatch n (e_debug_type E t) (value_type_name v)"
  by (subst (asm) validate_type.simps) (simp add: Let_def split: if_splits)

lemma validate_rule_Ok: "validate_rule E C r v n = Ok () \<longleftrightarrow> rule_met E C v r"
  by (cases r) (auto simp: validate_rule_def as_str_def json_contains_def list_ex_iff not_le
      split: option.splits Value.splits sum.splits if_splits)

lemma try_all_Ok: "try_all f rs = Ok () \<longleftrightarrow> (\<forall>r\<in>set rs. f r = Ok ())"
  by (induction rs) (auto split: sum.splits)

lemma try_all_ErrD: "try_all f rs = Err e \<Longrightarrow> \<exists>as r bs. rs = as @ r # bs \<and> (\<forall>a\<in>set as. f a = Ok ()) \<and> f r = Err e"
proof (induction rs)
  case (Cons q rs)
  show ?case
  proof (cases "f q")
    case (Inl e')
    then show ?thesis using Cons.prems by (intro exI [of _ "[]"] exI [of _ q] exI [of _ rs]) simp
  next
    case (Inr u)
    then obtain as r bs where "rs = as @ r # bs" "\<forall>a\<in>set as. f a = Ok ()" "f r = Err e" using Cons by auto
    then show ?thesis using Inr by (intro exI [of _ "q # as"] exI [of _ r] exI [of _ bs]) simp
  qed
qed simp

lemma validate_field_Ok:
  "validate_field E C f v = Ok () \<longleftrightarrow> has_type E (cf_field_type f) v \<and> (\<forall>r\<in>set (cf_validation f). rule_met E C v r)"
  using validate_type_Ok [of E "cf_field_type f" v "cf_name f"]
  by (auto simp: validate_field_def try_all_Ok validate_rule_Ok split: sum.splits)

lemma check_field_Ok: "check_field E C values f = Ok () \<longleftrightarrow> field_met E C values f"
  by (auto simp: check_field_def field_met_def value_set_def Let_def validate_field_Ok split: option.splits)

lemma one_set_iff: "length (filter P fs) = 1 \<longleftrightarrow> (\<exists>as f bs. fs = as @ f # bs \<and> P f \<and> (\<forall>g\<in>set (as @ bs). \<not> P g))"
proof
  assume "length (filter P fs) = 1"
  then obtain f where "filter P fs = [f]" by (auto simp: length_Suc_conv)
  then show "\<exists>as f bs. fs = as @ f # bs \<and> P f \<and> (\<forall>g\<in>set (as @ bs). \<not> P g)"
    unfolding filter_eq_Cons_iff by (metis Un_iff filter_empty_conv set_append)
next
  assume "\<exists>as f bs. fs = as @ f # bs \<and> P f \<and> (\<forall>g\<in>set (as @ bs). \<not> P g)"
  then show "length (filter P fs) = 1" by (auto simp: filter_empty_conv filter_False)
qed

lemma validate_global_rule_Ok: "validate_global_rule E r values = Ok () \<longleftrightarrow> global_met E values r"
proof (cases r)
  case (ExactlyOneRequired names)
  show ?thesis
    unfolding ExactlyOneRequired global_met.simps one_set_iff [symmetric] by (simp add: validate_global_rule_def Let_def)
qed (auto simp: validate_global_rule_def list_ex_iff try_all_Ok option_eq_def split: option.splits if_splits)

lemma validate_fields_eq:
  "validate_fields E C values fs ws
     = (case try_all (check_field E C values) fs of Err e \<Rightarrow> Err e | Ok _ \<Rightarrow> Ok (ws @ concat (map (deprecation values) fs)))"
  by (induction fs arbitrary: ws) (auto split: sum.split)

lemma validate_eq:
  "validate E C schema values
     = (case try_all (check_field E C values) (all_fields schema) of
          Err e \<Rightarrow> Err e
        | Ok _ \<Rightarrow> (case try_all (\<lambda>r. validate_global_rule E r values) (sc_global_validation schema) of
                     Err e \<Rightarrow> Err e | Ok _ \<Rightarrow> Ok (concat (map (deprecation values) (all_fields schema)))))"
  by (simp add: validate_def validate_fields_eq split: sum.split)

text \<open>(C22)
  Validation accepts a configuration exactly if every field is met - it is set or has a default if it is required, and
  its value has the type and satisfies the rules - and every rule over several fields holds; it then warns of
  exactly the deprecated fields that are given. Otherwise the error is that of the first field, or else of the first
  such rule, that fails.\<close>

theorem validate_correct:
  "case validate E C schema values of
     Ok ws \<Rightarrow> (\<forall>f\<in>set (all_fields schema). field_met E C values f) \<and>
       (\<forall>r\<in>set (sc_global_validation schema). global_met E values r) \<and>
       ws = concat (map (deprecation values) (all_fields schema))
   | Err e \<Rightarrow>
       (\<exists>fs f gs. all_fields schema = fs @ f # gs \<and> (\<forall>g\<in>set fs. field_met E C values g) \<and> \<not> field_met E C values f \<and>
          check_field E C values f = Err e) \<or>
       (\<forall>f\<in>set (all_fields schema). field_met E C values f) \<and>
       (\<exists>rs r qs. sc_global_validation schema = rs @ r # qs \<and> (\<forall>q\<in>set rs. global_met E values q) \<and> \<not> global_met E values r \<and>
          validate_global_rule E r values = Err e)"
proof (cases "try_all (check_field E C values) (all_fields schema)")
  case (Inl e)
  then obtain fs f gs where s: "all_fields schema = fs @ f # gs" "\<forall>g\<in>set fs. check_field E C values g = Ok ()"
    "check_field E C values f = Err e"
    using try_all_ErrD [of _ _ e] by blast
  have "\<not> field_met E C values f" using s(3) check_field_Ok [of E C "values" f] by simp
  then have "\<exists>fs f gs. all_fields schema = fs @ f # gs \<and> (\<forall>g\<in>set fs. field_met E C values g) \<and> \<not> field_met E C values f \<and>
      check_field E C values f = Err e"
    by (intro exI [of _ fs] exI [of _ f] exI [of _ gs]) (simp add: s check_field_Ok [symmetric])
  then show ?thesis using Inl by (simp add: validate_eq)
next
  case fine: (Inr u)
  then have fields: "\<forall>f\<in>set (all_fields schema). field_met E C values f" by (simp add: try_all_Ok check_field_Ok)
  show ?thesis
  proof (cases "try_all (\<lambda>r. validate_global_rule E r values) (sc_global_validation schema)")
    case (Inl e)
    then obtain rs r qs where s: "sc_global_validation schema = rs @ r # qs" "\<forall>q\<in>set rs. validate_global_rule E q values = Ok ()"
      "validate_global_rule E r values = Err e"
      using try_all_ErrD [of _ _ e] by blast
    have "\<not> global_met E values r" using s(3) validate_global_rule_Ok [of E r "values"] by simp
    then have "\<exists>rs r qs. sc_global_validation schema = rs @ r # qs \<and> (\<forall>q\<in>set rs. global_met E values q) \<and> \<not> global_met E values r \<and>
        validate_global_rule E r values = Err e"
      by (intro exI [of _ rs] exI [of _ r] exI [of _ qs]) (simp add: s validate_global_rule_Ok [symmetric])
    then show ?thesis using Inl fine fields by (simp add: validate_eq)
  next
    case (Inr u')
    then have "\<forall>r\<in>set (sc_global_validation schema). global_met E values r" by (simp add: try_all_Ok validate_global_rule_Ok)
    moreover have "validate E C schema values = Ok (concat (map (deprecation values) (all_fields schema)))"
      using fine Inr by (simp add: validate_eq)
    ultimately show ?thesis using fields by simp
  qed
qed

text \<open>A schema with two required text fields, the second with a least length, and an environment to check it in.\<close>

definition demo_field :: "'f ConfigField" where
  "demo_field = \<lparr>cf_name = ''k'', cf_label = None, cf_description = None, cf_field_type = FString, cf_default = None,
     cf_required = True, cf_sensitive = False, cf_validation = [RMinLength 1], cf_ui_hints = None, cf_secret_ref = None,
     cf_deprecated = None, cf_env_var = None, cf_reload_on_change = False\<rparr>"

definition demo_schema :: "'f ConfigSchema" where
  "demo_schema = add_section \<lparr>cs_name = ''s'', cs_title = None, cs_description = None,
     cs_fields = [demo_field\<lparr>cf_validation := []\<rparr>, demo_field\<lparr>cf_name := ''l''\<rparr>],
     cs_order = None, cs_collapsed = False, cs_icon = None\<rparr> (ConfigSchema_new ''p'')"

lemma demo_fields:
  "all_fields demo_schema = [demo_field\<lparr>cf_validation := []\<rparr>, demo_field\<lparr>cf_name := ''l''\<rparr>]"
  "sc_global_validation demo_schema = []"
  by (simp_all add: demo_schema_def all_fields_def add_section_def ConfigSchema_new_def)

definition demo_env :: "unit Cfg_Env" where
  "demo_env = \<lparr>e_f64 = \<lparr>f_of_int = \<lambda>_. (), f_less = \<lambda>_ _. False, f_eq = \<lambda>_ _. True, f_to_i64 = \<lambda>_. 0, f_is_finite = \<lambda>_. True,
       f_parse = \<lambda>_. None, f_show = \<lambda>_. []\<rparr>,
     e_is_dir = \<lambda>_. False, e_is_file = \<lambda>_. False, e_url_scheme = \<lambda>_. None, e_regex = \<lambda>_. Err [], e_debug_type = \<lambda>_. [],
     e_debug_value = \<lambda>_. [], e_debug_values = \<lambda>_. [], e_to_string = \<lambda>_. []\<rparr>"

theorem validate_correct_witness:
  "validate demo_env [] demo_schema [(''k'', JString ''x''), (''l'', JString ''y'')] = Ok [] \<and>
   field_met demo_env [] [(''k'', JString ''x''), (''l'', JString ''y'')] (demo_field\<lparr>cf_name := ''l''\<rparr>)"
proof -
  let ?vs = "[(''k'', JString ''x''), (''l'', JString ''y'')] :: unit config_values"
  have "try_all (check_field demo_env [] ?vs) (all_fields demo_schema) = Ok ()"
    unfolding try_all_Ok check_field_Ok by (simp add: demo_fields field_met_def value_set_def demo_field_def is_null_or_empty_def)
  then have "validate demo_env [] demo_schema ?vs = Ok []"
    by (simp add: validate_eq demo_fields deprecation_def) (simp add: demo_field_def)
  then show ?thesis
    using validate_correct [of demo_schema demo_env "[]" "[(''k'', JString ''x''), (''l'', JString ''y'')]"] by (simp add: demo_fields)
qed

section \<open>What defaults do\<close>

lemma apply_default_get:
  "map_of (apply_default values f) k
     = (if k = cf_name f \<and> \<not> value_set values k \<and> cf_default f \<noteq> None then cf_default f else map_of values k)"
  by (auto simp: apply_default_def value_set_def update_conv' split: option.splits)

lemma apply_defaults_other:
  "k \<notin> cf_name ` set fs \<Longrightarrow> map_of (foldl apply_default values fs) k = map_of values k"
  by (induction fs arbitrary: "values") (auto simp: apply_default_get)

lemma apply_defaults_get:
  assumes "distinct (map cf_name fs)" "f \<in> set fs"
  shows "map_of (foldl apply_default values fs) (cf_name f)
     = (if \<not> value_set values (cf_name f) \<and> cf_default f \<noteq> None then cf_default f else map_of values (cf_name f))"
  using assms
proof (induction fs arbitrary: "values")
  case (Cons g fs)
  show ?case
  proof (cases "f = g")
    case True
    then have "cf_name f \<notin> cf_name ` set fs" using Cons.prems(1) by simp
    then show ?thesis by (simp add: True apply_defaults_other apply_default_get)
  next
    case False
    then have f: "f \<in> set fs" using Cons.prems by simp
    then have "cf_name f \<in> cf_name ` set fs" by (rule imageI)
    then have other: "cf_name f \<noteq> cf_name g" using Cons.prems(1) by auto
    have "map_of (apply_default values g) (cf_name f) = map_of values (cf_name f)"
      using other by (simp add: apply_default_get)
    then show ?thesis using Cons.IH [of "apply_default values g"] Cons.prems(1) f by (simp add: value_set_def)
  qed
qed simp

text \<open>
  After the defaults are applied a field is met exactly if its default, where that is used, has the type and meets the
  rules or is empty, and the value, where there is one, does. A missing value with a default is no longer missing, yet
  loading never applies the defaults.
\<close>

theorem defaults_then_fields:
  "distinct (map cf_name (all_fields schema)) \<Longrightarrow> f \<in> set (all_fields schema) \<Longrightarrow>
   field_met E C (apply_defaults schema values) f \<longleftrightarrow>
     (if value_set values (cf_name f) \<or> cf_default f = None then field_met E C values f
      else \<forall>v. cf_default f = Some v \<longrightarrow> \<not> is_null_or_empty v \<longrightarrow>
             has_type E (cf_field_type f) v \<and> (\<forall>r\<in>set (cf_validation f). rule_met E C v r))"
  using apply_defaults_get [of "all_fields schema" f "values"]
  by (auto simp: field_met_def apply_defaults_def value_set_def)

lemma default_missing_accepted:
  "cf_required f \<Longrightarrow> cf_default f \<noteq> None \<Longrightarrow> map_of values (cf_name f) = None \<Longrightarrow> check_field E C values f = Ok ()"
  by (simp add: check_field_def)

text \<open>Any number is an integer, also one with a fraction.\<close>

lemma fraction_is_integer: "validate_type E FInteger (JNumber (Float x)) n = Ok ()"
  by (simp add: validate_type_Ok)

text \<open>A coerced value has its type: coercion to integers, floats and booleans yields integers, numbers or null, booleans.\<close>

lemma coerce_value_typed:
  "coerce_value E t v = Ok w \<Longrightarrow>
     (t = FString \<longrightarrow> (\<exists>s. w = JString s)) \<and> (t = FInteger \<longrightarrow> (\<exists>n. w = json_i64 n)) \<and>
     (t = FFloat \<longrightarrow> (\<exists>x. w = json_f64 (e_f64 E) x)) \<and> (t = FBoolean \<longrightarrow> (\<exists>b. w = JBool b))"
  by (cases t; cases v) (auto simp: coerce_value_def is_string_def split: option.splits if_splits)

end
