(* ===== verification/Config_Ui.thy ===== *)
theory Config_Ui
  imports Config_Validator
begin

text \<open>
  The generator of user-interface components and of a JSON Schema from the schema of a configuration,
  \<open>abi/src/config/ui_generator.rs\<close>.
\<close>

section \<open>Objects of \<open>serde_json\<close>\<close>

text \<open>The map of \<open>serde_json\<close> is ordered by its keys.\<close>

fun jmap_insert :: "string \<Rightarrow> 'v \<Rightarrow> (string \<times> 'v) list \<Rightarrow> (string \<times> 'v) list" where
  "jmap_insert k v [] = [(k, v)]"
| "jmap_insert k v ((l, w) # m) =
     (if k = l then (k, v) # m else if k < l then (k, v) # (l, w) # m else (l, w) # jmap_insert k v m)"

definition json_object :: "(string \<times> 'f Value) list \<Rightarrow> 'f Value" where
  "json_object kvs = JObject (foldl (\<lambda>m (k, v). jmap_insert k v m) [] kvs)"

lemma jmap_insert_get: "map_of (jmap_insert k v m) l = (if l = k then Some v else map_of m l)"
  by (induction k v m rule: jmap_insert.induct) auto

lemma jmap_insert_keys: "set (map fst (jmap_insert k v m)) = insert k (set (map fst m))"
  by (induction k v m rule: jmap_insert.induct) auto

text \<open>\<open>json!\<close> of a \<open>usize\<close> and of an \<open>f64\<close>\<close>

definition json_usize :: "usize \<Rightarrow> 'f Value" where
  "json_usize n = JNumber (PosInt n)"

section \<open>Components\<close>

datatype UIComponentType =
    CSection | CTextInput | CTextArea | CPasswordInput | CNumberInput | CCheckbox | CToggle | CSelect | CMultiSelect
  | CRadioGroup | CSlider | CColorPicker | CDatePicker | CTimePicker | CFilePicker | CDirectoryPicker | CCodeEditor
  | CSecretReference | CCustom

record 'f UIConstraints =
  uc_min :: "'f option"
  uc_max :: "'f option"
  uc_min_length :: "usize option"
  uc_max_length :: "usize option"
  uc_pattern :: "string option"
  uc_allowed_values :: "'f Value list option"
  uc_step :: "'f option"
  uc_placeholder :: "string option"
  uc_extensions :: "string list option"
  uc_slider_marks :: "('f \<times> string) list option"

datatype 'f UIComponent = UIComponent
  (ui_component_type: UIComponentType) (ui_name: string) (ui_label: string) (ui_description: "string option")
  (ui_required: bool) (ui_sensitive: bool) (ui_default: "'f Value option") (ui_constraints: "'f UIConstraints option")
  (ui_children: "'f UIComponent list option") (ui_options: "(string, 'f Value) hashmap option")
  (ui_order: int) (ui_advanced: bool) (ui_icon: "string option")

record UIGenerator =
  ug_include_advanced :: bool
  ug_default_placeholder :: string
  ug_custom_mappings :: "(string, UIComponentType) hashmap"

definition UIGenerator_new :: UIGenerator where
  "UIGenerator_new = \<lparr>ug_include_advanced = True, ug_default_placeholder = ''Enter value...'', ug_custom_mappings = []\<rparr>"

definition is_advanced :: "'f ConfigField \<Rightarrow> bool" where
  "is_advanced field = (case cf_ui_hints field of Some h \<Rightarrow> uh_advanced h | None \<Rightarrow> False)"

fun widget_component :: "'f WidgetType \<Rightarrow> UIComponentType" where
  "widget_component TextInput = CTextInput"
| "widget_component TextArea = CTextArea"
| "widget_component Password = CPasswordInput"
| "widget_component NumberInput = CNumberInput"
| "widget_component (Slider _ _ _) = CSlider"
| "widget_component Checkbox = CCheckbox"
| "widget_component Toggle = CToggle"
| "widget_component Select = CSelect"
| "widget_component RadioGroup = CRadioGroup"
| "widget_component MultiSelect = CMultiSelect"
| "widget_component ColorPicker = CColorPicker"
| "widget_component DatePicker = CDatePicker"
| "widget_component TimePicker = CTimePicker"
| "widget_component (FilePicker _) = CFilePicker"
| "widget_component DirectoryPicker = CDirectoryPicker"
| "widget_component (CodeEditor _) = CCodeEditor"
| "widget_component (MarkedSlider _) = CSlider"

definition determine_component_type :: "'f ConfigField \<Rightarrow> UIComponentType" where
  "determine_component_type field =
     (case Option.bind (cf_ui_hints field) uh_widget of
        Some widget \<Rightarrow> widget_component widget
      | None \<Rightarrow>
          (case cf_field_type field of
             FString \<Rightarrow>
               if cf_sensitive field then CPasswordInput
               else if cf_secret_ref field \<noteq> None then CSecretReference
               else CTextInput
           | FInteger \<Rightarrow> CNumberInput | FFloat \<Rightarrow> CNumberInput | FPort \<Rightarrow> CNumberInput
           | FBoolean \<Rightarrow> CToggle
           | FArray _ \<Rightarrow> CMultiSelect
           | FObject \<Rightarrow> CSection
           | FSecret \<Rightarrow> CSecretReference
           | FEnum _ \<Rightarrow> CSelect
           | FPath _ is_dir \<Rightarrow> if is_dir then CDirectoryPicker else CFilePicker
           | FUrl _ \<Rightarrow> CTextInput | FEmail \<Rightarrow> CTextInput | FHost \<Rightarrow> CTextInput
           | FDuration \<Rightarrow> CTextInput))"

section \<open>Constraints and options\<close>

definition add_rule :: "'f UIConstraints \<Rightarrow> 'f ValidationRule \<Rightarrow> 'f UIConstraints" where
  "add_rule c rule =
     (case rule of
        RMin x \<Rightarrow> c\<lparr>uc_min := Some x\<rparr>
      | RMax x \<Rightarrow> c\<lparr>uc_max := Some x\<rparr>
      | RMinLength n \<Rightarrow> c\<lparr>uc_min_length := Some n\<rparr>
      | RMaxLength n \<Rightarrow> c\<lparr>uc_max_length := Some n\<rparr>
      | RPattern regex \<Rightarrow> c\<lparr>uc_pattern := Some regex\<rparr>
      | ROneOf vs \<Rightarrow> c\<lparr>uc_allowed_values := Some vs\<rparr>
      | _ \<Rightarrow> c)"

definition no_constraints :: "'f UIConstraints" where
  "no_constraints = \<lparr>uc_min = None, uc_max = None, uc_min_length = None, uc_max_length = None, uc_pattern = None,
     uc_allowed_values = None, uc_step = None, uc_placeholder = None, uc_extensions = None, uc_slider_marks = None\<rparr>"

definition type_constraints :: "'f F64 \<Rightarrow> ConfigFieldType \<Rightarrow> 'f UIConstraints \<Rightarrow> 'f UIConstraints" where
  "type_constraints F t c =
     (case t of
        FInteger \<Rightarrow> c\<lparr>uc_step := Some (f_of_int F 1)\<rparr>
      | FPort \<Rightarrow> c\<lparr>uc_step := Some (f_of_int F 1)\<rparr>
      | FEnum variants \<Rightarrow> c\<lparr>uc_allowed_values := Some (map JString variants)\<rparr>
      | _ \<Rightarrow> c)"

definition generate_constraints :: "'f F64 \<Rightarrow> 'f ConfigField \<Rightarrow> 'f UIConstraints option" where
  "generate_constraints F field =
     (let c1 = foldl add_rule no_constraints (cf_validation field);
          c2 = type_constraints F (cf_field_type field) c1;
          c = (case cf_ui_hints field of Some h \<Rightarrow> c2\<lparr>uc_placeholder := uh_placeholder h\<rparr> | None \<Rightarrow> c2)
      in if uc_min c \<noteq> None \<or> uc_max c \<noteq> None \<or> uc_min_length c \<noteq> None \<or> uc_max_length c \<noteq> None \<or>
            uc_pattern c \<noteq> None \<or> uc_allowed_values c \<noteq> None \<or> uc_placeholder c \<noteq> None
         then Some c else None)"

definition insert_some :: "string \<Rightarrow> string option \<Rightarrow> (string, 'f Value) hashmap \<Rightarrow> (string, 'f Value) hashmap" where
  "insert_some k x m = (case x of Some s \<Rightarrow> hm_insert k (JString s) m | None \<Rightarrow> m)"

definition widget_options :: "'f F64 \<Rightarrow> 'f WidgetType \<Rightarrow> (string, 'f Value) hashmap \<Rightarrow> (string, 'f Value) hashmap" where
  "widget_options F widget m =
     (case widget of
        Slider lo hi step \<Rightarrow>
          hm_insert ''slider_step'' (JString step)
            (hm_insert ''slider_max'' (JString hi) (hm_insert ''slider_min'' (JString lo) m))
      | MarkedSlider marks \<Rightarrow>
          hm_insert ''slider_marks'' (JArray (map (\<lambda>(v, l). JArray [json_f64 F v, JString l]) marks)) m
      | FilePicker extensions \<Rightarrow> hm_insert ''extensions'' (JArray (map JString extensions)) m
      | CodeEditor language \<Rightarrow> hm_insert ''language'' (JString language) m
      | _ \<Rightarrow> m)"

definition hint_options :: "'f F64 \<Rightarrow> 'f UIHints \<Rightarrow> (string, 'f Value) hashmap \<Rightarrow> (string, 'f Value) hashmap" where
  "hint_options F h m =
     (let m1 = insert_some ''help_text'' (uh_help_text h) m;
          m2 = insert_some ''group'' (uh_group h) m1;
          m3 = insert_some ''css_class'' (uh_css_class h) m2;
          m4 = (if uh_autofocus h then hm_insert ''autofocus'' (JBool True) m3 else m3)
      in case uh_widget h of Some widget \<Rightarrow> widget_options F widget m4 | None \<Rightarrow> m4)"

definition generate_options :: "'f F64 \<Rightarrow> 'f ConfigField \<Rightarrow> (string, 'f Value) hashmap option" where
  "generate_options F field =
     (let o1 = insert_some ''env_var'' (cf_env_var field) [];
          o2 = (if cf_reload_on_change field then hm_insert ''reload_on_change'' (JBool True) o1 else o1);
          o3 = insert_some ''deprecated'' (cf_deprecated field) o2;
          o4 = (case cf_ui_hints field of Some h \<Rightarrow> hint_options F h o3 | None \<Rightarrow> o3);
          o5 = (case cf_secret_ref field of
                  Some r \<Rightarrow> insert_some ''secret_key'' (sr_key r) (hm_insert ''secret_uri'' (JString (sr_uri r)) o4)
                | None \<Rightarrow> o4)
      in if o5 = [] then None else Some o5)"

section \<open>Generation\<close>

definition generate_field :: "'f F64 \<Rightarrow> 'f ConfigField \<Rightarrow> 'f UIComponent" where
  "generate_field F field =
     UIComponent (determine_component_type field) (cf_name field)
       (case cf_label field of Some l \<Rightarrow> l | None \<Rightarrow> cf_name field)
       (cf_description field) (cf_required field) (cf_sensitive field) (cf_default field)
       (generate_constraints F field) None (generate_options F field)
       (case Option.bind (cf_ui_hints field) uh_order of Some n \<Rightarrow> n | None \<Rightarrow> 0) (is_advanced field) None"

definition generate_section :: "'f F64 \<Rightarrow> UIGenerator \<Rightarrow> 'f ConfigSection \<Rightarrow> 'f UIComponent" where
  "generate_section F G sct =
     (let children = sort_key ui_order (map (generate_field F)
            (filter (\<lambda>f. ug_include_advanced G \<or> \<not> is_advanced f) (cs_fields sct)))
      in UIComponent CSection (cs_name sct) (case cs_title sct of Some t \<Rightarrow> t | None \<Rightarrow> cs_name sct) (cs_description sct)
           False False None None (Some children) (Some [(''collapsed'', JBool (cs_collapsed sct))])
           (case cs_order sct of Some n \<Rightarrow> n | None \<Rightarrow> 0) False (cs_icon sct))"

definition generate :: "'f F64 \<Rightarrow> UIGenerator \<Rightarrow> 'f ConfigSchema \<Rightarrow> 'f UIComponent list" where
  "generate F G schema = sort_key ui_order (map (generate_section F G) (sc_sections schema))"

section \<open>JSON Schema\<close>

fun json_schema_type :: "ConfigFieldType \<Rightarrow> string" where
  "json_schema_type FString = ''string''"
| "json_schema_type FSecret = ''string''"
| "json_schema_type (FPath _ _) = ''string''"
| "json_schema_type (FUrl _) = ''string''"
| "json_schema_type FDuration = ''string''"
| "json_schema_type FEmail = ''string''"
| "json_schema_type FHost = ''string''"
| "json_schema_type FInteger = ''integer''"
| "json_schema_type FPort = ''integer''"
| "json_schema_type FFloat = ''number''"
| "json_schema_type FBoolean = ''boolean''"
| "json_schema_type (FArray _) = ''array''"
| "json_schema_type FObject = ''object''"
| "json_schema_type (FEnum _) = ''string''"

definition add_keyword :: "'f F64 \<Rightarrow> (string \<times> 'f Value) list \<Rightarrow> 'f ValidationRule \<Rightarrow> (string \<times> 'f Value) list" where
  "add_keyword F prop rule =
     (case rule of
        RMin x \<Rightarrow> jmap_insert ''minimum'' (json_f64 F x) prop
      | RMax x \<Rightarrow> jmap_insert ''maximum'' (json_f64 F x) prop
      | RMinLength n \<Rightarrow> jmap_insert ''minLength'' (json_usize n) prop
      | RMaxLength n \<Rightarrow> jmap_insert ''maxLength'' (json_usize n) prop
      | RPattern regex \<Rightarrow> jmap_insert ''pattern'' (JString regex) prop
      | ROneOf vs \<Rightarrow> jmap_insert ''enum'' (JArray vs) prop
      | _ \<Rightarrow> prop)"

definition json_property :: "'f F64 \<Rightarrow> 'f ConfigField \<Rightarrow> (string \<times> 'f Value) list" where
  "json_property F field =
     (let p1 = jmap_insert ''type'' (JString (json_schema_type (cf_field_type field))) [];
          p2 = (case cf_description field of Some d \<Rightarrow> jmap_insert ''description'' (JString d) p1 | None \<Rightarrow> p1);
          p3 = (case cf_default field of Some d \<Rightarrow> jmap_insert ''default'' d p2 | None \<Rightarrow> p2)
      in foldl (add_keyword F) p3 (cf_validation field))"

definition generate_json_schema :: "'f F64 \<Rightarrow> 'f ConfigSchema \<Rightarrow> 'f Value" where
  "generate_json_schema F schema =
     (let properties = foldl (\<lambda>m f. jmap_insert (cf_name f) (JObject (json_property F f)) m) [] (all_fields schema);
          required = map cf_name (filter cf_required (all_fields schema))
      in json_object
           [(''$schema'', JString ''http://json-schema.org/draft-07/schema#''),
            (''title'', JString (sc_plugin_name schema @ '' Configuration'')),
            (''type'', JString ''object''),
            (''properties'', JObject properties),
            (''required'', JArray (map JString required))])"

section \<open>What is generated\<close>

lemma insort_key_map: "insort_key k (g x) (map g xs) = map g (insort_key (k \<circ> g) x xs)"
  by (induction xs) auto

lemma sort_key_map: "sort_key k (map g xs) = map g (sort_key (k \<circ> g) xs)"
  by (induction xs) (simp_all add: insort_key_map comp_def)

definition section_order :: "'f ConfigSection \<Rightarrow> int" where
  "section_order s = (case cs_order s of Some n \<Rightarrow> n | None \<Rightarrow> 0)"

definition field_order :: "'f ConfigField \<Rightarrow> int" where
  "field_order f = (case Option.bind (cf_ui_hints f) uh_order of Some n \<Rightarrow> n | None \<Rightarrow> 0)"

text \<open>
  Every section is shown once, by its order, and in it every field that is not left out, by its order; equal orders keep
  the order of the schema.
\<close>

theorem generate_complete:
  "generate F G schema = map (generate_section F G) (sort_key section_order (sc_sections schema)) \<and>
   ui_name (generate_section F G s) = cs_name s \<and>
   ui_children (generate_section F G s) = Some (map (generate_field F) (sort_key field_order
     (filter (\<lambda>f. ug_include_advanced G \<or> \<not> is_advanced f) (cs_fields s))))"
proof -
  have "ui_order \<circ> generate_section F G = section_order"
    by (simp add: fun_eq_iff generate_section_def section_order_def Let_def)
  moreover have "ui_order \<circ> generate_field F = field_order"
    by (simp add: fun_eq_iff generate_field_def field_order_def)
  ultimately show ?thesis by (simp add: generate_def generate_section_def Let_def sort_key_map)
qed

text \<open>The default of a sensitive field is shown.\<close>

lemma sensitive_default_shown: "cf_default f = Some d \<Longrightarrow> ui_default (generate_field F f) = Some d"
  by (simp add: generate_field_def)

text \<open>The step of an integer field without any other constraint is lost.\<close>

lemma step_alone_lost:
  "cf_field_type f = FInteger \<Longrightarrow> cf_validation f = [] \<Longrightarrow> cf_ui_hints f = None \<Longrightarrow> generate_constraints F f = None"
  by (simp add: generate_constraints_def type_constraints_def no_constraints_def Let_def)

text \<open>The values that a type of JSON Schema (draft 7) admits; a number without a fraction is an integer.\<close>

definition is_integral :: "'f F64 \<Rightarrow> 'f Number \<Rightarrow> bool" where
  "is_integral F n = (case n of Float x \<Rightarrow> f_eq F (f_of_int F (f_to_i64 F x)) x | _ \<Rightarrow> True)"

definition type_admits :: "'f F64 \<Rightarrow> string \<Rightarrow> 'f Value \<Rightarrow> bool" where
  "type_admits F t v =
     (case v of
        JNull \<Rightarrow> t = ''null''
      | JBool _ \<Rightarrow> t = ''boolean''
      | JNumber n \<Rightarrow> t = ''number'' \<or> t = ''integer'' \<and> is_integral F n
      | JString _ \<Rightarrow> t = ''string''
      | JArray _ \<Rightarrow> t = ''array''
      | JObject _ \<Rightarrow> t = ''object'')"

lemma keywords_keep: "k \<notin> {''minimum'', ''maximum'', ''minLength'', ''maxLength'', ''pattern'', ''enum''} \<Longrightarrow>
   map_of (foldl (add_keyword F) p rs) k = map_of p k"
proof (induction rs arbitrary: p)
  case (Cons r rs)
  have "map_of (add_keyword F p r) k = map_of p k"
    using Cons.prems by (auto simp: add_keyword_def jmap_insert_get split: ValidationRule.split)
  then show ?case using Cons by simp
qed simp

lemma json_property_type: "map_of (json_property F f) ''type'' = Some (JString (json_schema_type (cf_field_type f)))"
  by (simp add: json_property_def Let_def keywords_keep jmap_insert_get split: option.split)

lemma properties_get:
  "map_of (foldl (\<lambda>m f. jmap_insert (cf_name f) (JObject (json_property F f)) m) p fs) name
     = (case find (\<lambda>f. cf_name f = name) (rev fs) of Some f \<Rightarrow> Some (JObject (json_property F f)) | None \<Rightarrow> map_of p name)"
  by (induction fs arbitrary: p) (auto simp: find_append jmap_insert_get split: option.split)

lemma find_rev_distinct:
  "distinct (map cf_name fs) \<Longrightarrow> f \<in> set fs \<Longrightarrow> find (\<lambda>g. cf_name g = cf_name f) (rev fs) = Some f"
proof (induction fs)
  case (Cons g fs)
  show ?case
  proof (cases "f = g")
    case True
    then have "find (\<lambda>g. cf_name g = cf_name f) (rev fs) = None" unfolding find_None_iff using Cons.prems(1) by (auto simp: rev_image_eqI)
    then show ?thesis using True by (simp add: find_append)
  next
    case False
    then show ?thesis using Cons by (simp add: find_append)
  qed
qed simp

text \<open>
  The JSON Schema has a property for every field. What validation accepts for a field, the type in the JSON Schema
  admits as well, except an object for a secret and a number with a fraction for an integer.
\<close>

theorem json_schema_agrees:
  "distinct (map cf_name (all_fields schema)) \<Longrightarrow> f \<in> set (all_fields schema) \<Longrightarrow>
   (\<exists>t. Option.bind (Option.bind (json_get ''properties'' (generate_json_schema F schema)) (json_get (cf_name f))) (json_get ''type'')
          = Some (JString t) \<and>
        (\<forall>v. validate_type E (cf_field_type f) v (cf_name f) = Ok () \<longrightarrow>
           (type_admits F t v \<longleftrightarrow>
              \<not> (cf_field_type f = FSecret \<and> is_object v) \<and>
              \<not> (cf_field_type f = FInteger \<and> (\<exists>x. v = JNumber (Float x) \<and> \<not> is_integral F (Float x))))))"
proof -
  assume d: "distinct (map cf_name (all_fields schema))" and f: "f \<in> set (all_fields schema)"
  have props: "json_get ''properties'' (generate_json_schema F schema)
      = Some (JObject (foldl (\<lambda>m f. jmap_insert (cf_name f) (JObject (json_property F f)) m) [] (all_fields schema)))"
    by (simp add: generate_json_schema_def json_object_def json_get_def jmap_insert_get Let_def)
  have type: "Option.bind (Option.bind (json_get ''properties'' (generate_json_schema F schema)) (json_get (cf_name f))) (json_get ''type'')
          = Some (JString (json_schema_type (cf_field_type f)))"
    unfolding props by (simp add: json_get_def properties_get find_rev_distinct [OF d f] json_property_type)
  have "type_admits F (json_schema_type t) v \<longleftrightarrow>
      \<not> (t = FSecret \<and> is_object v) \<and> \<not> (t = FInteger \<and> (\<exists>x. v = JNumber (Float x) \<and> \<not> is_integral F (Float x)))"
    if "has_type E t v" for t v
    using that by (cases t) (auto simp: type_admits_def is_object_def is_integral_def split: Number.split)
  then show ?thesis using type by (auto simp: validate_type_Ok)
qed

end
