(* ===== verification/Config_Secrets.thy ===== *)
theory Config_Secrets
  imports Config_Schema
begin

text \<open>
  The resolver of secret references in configurations, \<open>abi/src/config/secret_resolver.rs\<close>: the backends for the
  environment, files and Vault, the cache with its time to live, and the replacement of references in JSON values.

  What the backends read from outside at the moment of a call is an argument (record \<open>Outside\<close>), as is each reading of the
  clock, in nanoseconds. A backend that the program registers itself is a function. The messages of
  \<open>SecretError\<close> name backends by \<open>Debug\<close>, which prints their constructor.
\<close>

section \<open>Errors and backends\<close>

datatype SecretError =
    InvalidReference string
  | SecretNotFound string
  | KeyNotFound string string
  | BackendUnavailable string
  | ReadError string string
  | PermissionDenied string

fun SecretError_display :: "SecretError \<Rightarrow> string" where
  "SecretError_display (InvalidReference uri) = ''Invalid secret reference: '' @ uri"
| "SecretError_display (SecretNotFound path) = ''Secret not found: '' @ path"
| "SecretError_display (KeyNotFound path key) = ''Key '' @ quoted key @ '' not found in secret: '' @ path"
| "SecretError_display (BackendUnavailable backend) = ''Secret backend unavailable: '' @ backend"
| "SecretError_display (ReadError path error) = ''Failed to read secret '' @ quoted path @ '': '' @ error"
| "SecretError_display (PermissionDenied path) = ''Permission denied for secret: '' @ path"

text \<open>Environment variables, files with their text, the JSON parser, the answers of Vault (status and body) and
  the backends of the program.\<close>

record ('f, 'c) Outside =
  o_env :: "string \<Rightarrow> string option"
  o_exists :: "string \<Rightarrow> bool"
  o_read :: "string \<Rightarrow> string + string"
  o_json :: "string \<Rightarrow> 'f Value option"
  o_http :: "string \<Rightarrow> string \<Rightarrow> string + nat \<times> (string + 'f Value)"
  o_custom :: "'c \<Rightarrow> string \<Rightarrow> string option \<Rightarrow> SecretError + string"
  o_custom_available :: "'c \<Rightarrow> bool"

datatype 'c Backend = EnvSecretBackend | FileSecretBackend string | VaultSecretBackend "string option" "string option" | CustomBackend 'c

definition FileSecretBackend_new :: "'c Backend" where
  "FileSecretBackend_new = FileSecretBackend ''./secrets''"

definition VaultSecretBackend_new :: "('f, 'c) Outside \<Rightarrow> 'c Backend" where
  "VaultSecretBackend_new W = VaultSecretBackend (o_env W ''VAULT_ADDR'') (o_env W ''VAULT_TOKEN'')"

definition env_resolve :: "('f, 'c) Outside \<Rightarrow> string \<Rightarrow> SecretError + string" where
  "env_resolve W path = ok_or (SecretNotFound (''env://'' @ path)) (o_env W path)"

text \<open>\<open>str::lines\<close>\<close>

definition str_lines :: "string \<Rightarrow> string list" where
  "str_lines s =
     (let ps = split_on CHR 0x0A s
      in map (\<lambda>l. case strip_suffix [CHR 0x0D] l of Some r \<Rightarrow> r | None \<Rightarrow> l)
           (if last ps = [] then butlast ps else ps))"

fun key_value_line :: "string \<Rightarrow> string list \<Rightarrow> string option" where
  "key_value_line k [] = None"
| "key_value_line k (line # ls) =
     (case split_once CHR ''='' line of
        Some (key, v) \<Rightarrow> if trim key = k then Some (trim v) else key_value_line k ls
      | None \<Rightarrow> key_value_line k ls)"

definition file_resolve :: "('f, 'c) Outside \<Rightarrow> string \<Rightarrow> string \<Rightarrow> string option \<Rightarrow> SecretError + string" where
  "file_resolve W base path key =
     (let file_path = path_join base path
      in if \<not> o_exists W file_path then Err (SecretNotFound (''file://'' @ path))
         else (case o_read W file_path of
                 Err e \<Rightarrow> Err (ReadError file_path e)
               | Ok content \<Rightarrow>
                   (case key of
                      None \<Rightarrow> Ok (trim content)
                    | Some k \<Rightarrow>
                        (case Option.bind (o_json W content) (json_get k) of
                           Some v \<Rightarrow> ok_or (KeyNotFound (''file://'' @ path) k) (as_str v)
                         | None \<Rightarrow> ok_or (KeyNotFound (''file://'' @ path) k) (key_value_line k (str_lines content))))))"

definition trim_end_slashes :: "string \<Rightarrow> string" where
  "trim_end_slashes s = rev (dropWhile (\<lambda>c. c = CHR ''/'') (rev s))"

definition vault_resolve :: "('f, 'c) Outside \<Rightarrow> string option \<Rightarrow> string option \<Rightarrow> string \<Rightarrow> string option \<Rightarrow> SecretError + string" where
  "vault_resolve W address token path key =
     (case (address, token) of
        (Some a, Some tk) \<Rightarrow>
          (let url = trim_end_slashes a @ ''/v1/'' @ path
           in case o_http W url tk of
                Err e \<Rightarrow> Err (ReadError url e)
              | Ok (status, body) \<Rightarrow>
                  if \<not> (200 \<le> status \<and> status < 300) then Err (SecretNotFound url)
                  else (case body of
                          Err e \<Rightarrow> Err (ReadError url e)
                        | Ok json \<Rightarrow>
                            (case Option.bind (json_get ''data'' json) (json_get ''data'') of
                               None \<Rightarrow> Err (ReadError url ''No data field in response'')
                             | Some data \<Rightarrow>
                                 (case key of
                                    Some k \<Rightarrow> ok_or (KeyNotFound url k) (Option.bind (json_get k data) as_str)
                                  | None \<Rightarrow> ok_or (ReadError url ''Secret value is not a string'') (as_str data)))))
      | _ \<Rightarrow> Err (BackendUnavailable ''vault''))"

fun backend_resolve :: "('f, 'c) Outside \<Rightarrow> 'c Backend \<Rightarrow> string \<Rightarrow> string option \<Rightarrow> SecretError + string" where
  "backend_resolve W EnvSecretBackend path key = env_resolve W path"
| "backend_resolve W (FileSecretBackend base) path key = file_resolve W base path key"
| "backend_resolve W (VaultSecretBackend a tk) path key = vault_resolve W a tk path key"
| "backend_resolve W (CustomBackend c) path key = o_custom W c path key"

fun backend_available :: "('f, 'c) Outside \<Rightarrow> 'c Backend \<Rightarrow> bool" where
  "backend_available W EnvSecretBackend = True"
| "backend_available W (FileSecretBackend base) = o_exists W base"
| "backend_available W (VaultSecretBackend a tk) = (a \<noteq> None \<and> tk \<noteq> None)"
| "backend_available W (CustomBackend c) = o_custom_available W c"

section \<open>The resolver\<close>

record CachedSecret =
  ch_value :: string
  ch_resolved_at :: nat
  ch_ttl :: nat

definition cached_is_expired :: "nat \<Rightarrow> CachedSecret \<Rightarrow> bool" where
  "cached_is_expired now c \<longleftrightarrow> ch_ttl c < now - ch_resolved_at c"

definition from_secs :: "u64 \<Rightarrow> nat" where
  "from_secs n = 1000000000 * unat n"

record 'c SecretResolver =
  rs_backends :: "(SecretBackend, 'c Backend) hashmap"
  rs_cache :: "(string, CachedSecret) hashmap"
  rs_default_ttl :: nat
  rs_caching_enabled :: bool

definition default_backends :: "(SecretBackend, 'c Backend) hashmap" where
  "default_backends = [(Environment, EnvSecretBackend), (File, FileSecretBackend_new)]"

definition with_backends :: "(SecretBackend, 'c Backend) hashmap \<Rightarrow> 'c SecretResolver" where
  "with_backends bs = \<lparr>rs_backends = bs, rs_cache = [], rs_default_ttl = from_secs 300, rs_caching_enabled = True\<rparr>"

definition SecretResolver_new :: "'c SecretResolver" where
  "SecretResolver_new = with_backends default_backends"

definition register_backend :: "SecretBackend \<Rightarrow> 'c Backend \<Rightarrow> 'c SecretResolver \<Rightarrow> 'c SecretResolver" where
  "register_backend kind b R = R\<lparr>rs_backends := hm_insert kind b (rs_backends R)\<rparr>"

definition set_caching :: "bool \<Rightarrow> 'c SecretResolver \<Rightarrow> 'c SecretResolver" where
  "set_caching enabled R = R\<lparr>rs_caching_enabled := enabled\<rparr>"

definition set_default_ttl :: "nat \<Rightarrow> 'c SecretResolver \<Rightarrow> 'c SecretResolver" where
  "set_default_ttl ttl R = R\<lparr>rs_default_ttl := ttl\<rparr>"

fun debug_backend :: "SecretBackend \<Rightarrow> string" where
  "debug_backend Vault = ''Vault''"
| "debug_backend Environment = ''Environment''"
| "debug_backend File = ''File''"
| "debug_backend Unknown = ''Unknown''"

text \<open>The part of \<open>resolve\<close> that asks the backend.\<close>

definition ask_backend :: "('f, 'c) Outside \<Rightarrow> (SecretBackend, 'c Backend) hashmap \<Rightarrow> SecretReference \<Rightarrow> SecretError + string" where
  "ask_backend W backends r =
     (case hm_get backends (backend_of r) of
        None \<Rightarrow> Err (BackendUnavailable (debug_backend (backend_of r)))
      | Some b \<Rightarrow>
          if \<not> backend_available W b then Err (BackendUnavailable (debug_backend (backend_of r)))
          else backend_resolve W b (reference_path r) (sr_key r))"

definition cached_answer :: "nat \<Rightarrow> SecretReference \<Rightarrow> 'c SecretResolver \<Rightarrow> string option" where
  "cached_answer now r R =
     (if sr_cache r \<and> rs_caching_enabled R
      then (case hm_get (rs_cache R) (sr_uri r) of
              Some c \<Rightarrow> if \<not> cached_is_expired now c then Some (ch_value c) else None
            | None \<Rightarrow> None)
      else None)"

definition reference_ttl :: "SecretReference \<Rightarrow> 'c SecretResolver \<Rightarrow> nat" where
  "reference_ttl r R = (case sr_cache_ttl_seconds r of Some n \<Rightarrow> from_secs n | None \<Rightarrow> rs_default_ttl R)"

definition resolve :: "('f, 'c) Outside \<Rightarrow> nat \<Rightarrow> nat \<Rightarrow> SecretReference \<Rightarrow> 'c SecretResolver
    \<Rightarrow> (SecretError + string) \<times> 'c SecretResolver" where
  "resolve W now later r R =
     (case cached_answer now r R of
        Some v \<Rightarrow> (Ok v, R)
      | None \<Rightarrow>
          (case ask_backend W (rs_backends R) r of
             Err e \<Rightarrow> (Err e, R)
           | Ok v \<Rightarrow>
               (Ok v,
                if sr_cache r \<and> rs_caching_enabled R
                then R\<lparr>rs_cache := hm_insert (sr_uri r)
                         \<lparr>ch_value = v, ch_resolved_at = later, ch_ttl = reference_ttl r R\<rparr> (rs_cache R)\<rparr>
                else R)))"

definition resolve_uri :: "('f, 'c) Outside \<Rightarrow> nat \<Rightarrow> nat \<Rightarrow> string \<Rightarrow> 'c SecretResolver
    \<Rightarrow> (SecretError + string) \<times> 'c SecretResolver" where
  "resolve_uri W now later uri R =
     (case reference_parse uri of
        None \<Rightarrow> (Err (InvalidReference uri), R)
      | Some r \<Rightarrow> resolve W now later r R)"

definition clear_cache :: "'c SecretResolver \<Rightarrow> 'c SecretResolver" where
  "clear_cache R = R\<lparr>rs_cache := []\<rparr>"

definition cleanup_cache :: "nat \<Rightarrow> 'c SecretResolver \<Rightarrow> 'c SecretResolver" where
  "cleanup_cache now R = R\<lparr>rs_cache := filter (\<lambda>(_, c). \<not> cached_is_expired now c) (rs_cache R)\<rparr>"

section \<open>Replacing references in values\<close>

text \<open>The reference in an object with the member \<open>$secret\<close>.\<close>

definition object_reference :: "string \<Rightarrow> (string \<times> 'f Value) list \<Rightarrow> SecretError + SecretReference" where
  "object_reference uri m =
     (case reference_parse uri of
        None \<Rightarrow> Err (InvalidReference uri)
      | Some r \<Rightarrow>
          Ok (case Option.bind (map_of m ''key'') as_str of Some k \<Rightarrow> r\<lparr>sr_key := Some k\<rparr> | None \<Rightarrow> r))"

text \<open>
  \<open>clock n\<close> is the \<open>n\<close>-th reading of the clock; the counter is threaded through with the resolver. The value is
  changed in place, so that an error leaves the parts before it replaced.
\<close>

fun resolve_in_value :: "('f, 'c) Outside \<Rightarrow> (nat \<Rightarrow> nat) \<Rightarrow> 'f Value \<Rightarrow> nat \<Rightarrow> 'c SecretResolver
      \<Rightarrow> (SecretError + unit) \<times> 'f Value \<times> nat \<times> 'c SecretResolver"
  and resolve_in_values :: "('f, 'c) Outside \<Rightarrow> (nat \<Rightarrow> nat) \<Rightarrow> 'f Value list \<Rightarrow> nat \<Rightarrow> 'c SecretResolver
      \<Rightarrow> (SecretError + unit) \<times> 'f Value list \<times> nat \<times> 'c SecretResolver"
  and resolve_in_members :: "('f, 'c) Outside \<Rightarrow> (nat \<Rightarrow> nat) \<Rightarrow> (string \<times> 'f Value) list \<Rightarrow> nat \<Rightarrow> 'c SecretResolver
      \<Rightarrow> (SecretError + unit) \<times> (string \<times> 'f Value) list \<times> nat \<times> 'c SecretResolver" where
  "resolve_in_value W clock (JString s) n R =
     (if is_secret_uri s
      then (case resolve_uri W (clock n) (clock (Suc n)) s R of
              (Ok v, R') \<Rightarrow> (Ok (), JString v, n + 2, R')
            | (Err e, R') \<Rightarrow> (Err e, JString s, n + 2, R'))
      else (Ok (), JString s, n, R))"
| "resolve_in_value W clock (JObject m) n R =
     (case map_of m ''$secret'' of
        Some uri \<Rightarrow>
          (case as_str uri of
             None \<Rightarrow> (Ok (), JObject m, n, R)
           | Some u \<Rightarrow>
               (case object_reference u m of
                  Err e \<Rightarrow> (Err e, JObject m, n, R)
                | Ok r \<Rightarrow>
                    (case resolve W (clock n) (clock (Suc n)) r R of
                       (Ok v, R') \<Rightarrow> (Ok (), JString v, n + 2, R')
                     | (Err e, R') \<Rightarrow> (Err e, JObject m, n + 2, R'))))
      | None \<Rightarrow> (case resolve_in_members W clock m n R of (res, m', n', R') \<Rightarrow> (res, JObject m', n', R')))"
| "resolve_in_value W clock (JArray vs) n R =
     (case resolve_in_values W clock vs n R of (res, vs', n', R') \<Rightarrow> (res, JArray vs', n', R'))"
| "resolve_in_value W clock JNull n R = (Ok (), JNull, n, R)"
| "resolve_in_value W clock (JBool b) n R = (Ok (), JBool b, n, R)"
| "resolve_in_value W clock (JNumber k) n R = (Ok (), JNumber k, n, R)"
| "resolve_in_values W clock [] n R = (Ok (), [], n, R)"
| "resolve_in_values W clock (v # vs) n R =
     (case resolve_in_value W clock v n R of
        (Err e, v', n', R') \<Rightarrow> (Err e, v' # vs, n', R')
      | (Ok _, v', n', R') \<Rightarrow>
          (case resolve_in_values W clock vs n' R' of (res, vs', n'', R'') \<Rightarrow> (res, v' # vs', n'', R'')))"
| "resolve_in_members W clock [] n R = (Ok (), [], n, R)"
| "resolve_in_members W clock ((k, v) # m) n R =
     (case resolve_in_value W clock v n R of
        (Err e, v', n', R') \<Rightarrow> (Err e, (k, v') # m, n', R')
      | (Ok _, v', n', R') \<Rightarrow>
          (case resolve_in_members W clock m n' R' of (res, m', n'', R'') \<Rightarrow> (res, (k, v') # m', n'', R'')))"

text \<open>The values of a configuration are visited in the order of its map.\<close>

definition resolve_in_config :: "('f, 'c) Outside \<Rightarrow> (nat \<Rightarrow> nat) \<Rightarrow> (string, 'f Value) hashmap \<Rightarrow> nat \<Rightarrow> 'c SecretResolver
    \<Rightarrow> (SecretError + unit) \<times> (string, 'f Value) hashmap \<times> nat \<times> 'c SecretResolver" where
  "resolve_in_config W clock config n R = resolve_in_members W clock config n R"

section \<open>Where an answer comes from\<close>

datatype ('f, 'c) resolver_op =
    Resolve "('f, 'c) Outside" nat nat SecretReference
  | Register SecretBackend "'c Backend"
  | Caching bool
  | DefaultTtl nat
  | ClearCache
  | CleanupCache nat

fun resolver_step :: "'c SecretResolver \<Rightarrow> ('f, 'c) resolver_op \<Rightarrow> 'c SecretResolver" where
  "resolver_step R (Resolve W now later r) = snd (resolve W now later r R)"
| "resolver_step R (Register kind b) = register_backend kind b R"
| "resolver_step R (Caching enabled) = set_caching enabled R"
| "resolver_step R (DefaultTtl ttl) = set_default_ttl ttl R"
| "resolver_step R ClearCache = clear_cache R"
| "resolver_step R (CleanupCache now) = cleanup_cache now R"

definition resolver_run :: "('f, 'c) resolver_op list \<Rightarrow> 'c SecretResolver" where
  "resolver_run ops = foldl resolver_step SecretResolver_new ops"

text \<open>An operation before answered \<open>v\<close> for the URI, at \<open>at\<close>, and the answer may be kept for \<open>ttl\<close>.\<close>

definition answered_before :: "('f, 'c) resolver_op list \<Rightarrow> string \<Rightarrow> string \<Rightarrow> nat \<Rightarrow> nat \<Rightarrow> bool" where
  "answered_before ops uri v at ttl \<longleftrightarrow>
     (\<exists>as W now r bs. ops = as @ Resolve W now at r # bs \<and> sr_uri r = uri \<and>
        ask_backend W (rs_backends (resolver_run as)) r = Ok v \<and> ttl = reference_ttl r (resolver_run as))"

lemma answered_before_snoc: "answered_before ops uri v at ttl \<Longrightarrow> answered_before (ops @ [op]) uri v at ttl"
  unfolding answered_before_def by fastforce

lemma cleanup_subset:
  "map_of (filter (\<lambda>(_, c). P c) m) k = Some c \<Longrightarrow> (k, c) \<in> set m"
  by (auto dest: map_of_SomeD)

definition cache_answered :: "('f, 'c) resolver_op list \<Rightarrow> (string, CachedSecret) hashmap \<Rightarrow> bool" where
  "cache_answered ops cache \<longleftrightarrow> (\<forall>(uri, c)\<in>set cache. answered_before ops uri (ch_value c) (ch_resolved_at c) (ch_ttl c))"

lemma resolver_run_snoc: "resolver_run (ops @ [op]) = resolver_step (resolver_run ops) op"
  by (simp add: resolver_run_def)

lemma cache_answered_step:
  assumes inv: "cache_answered ops (rs_cache (resolver_run ops))"
  shows "cache_answered (ops @ [op]) (rs_cache (resolver_run (ops @ [op])))"
proof -
  let ?R = "resolver_run ops"
  have old: "cache_answered (ops @ [op]) (rs_cache ?R)"
    using inv answered_before_snoc unfolding cache_answered_def by fast
  show ?thesis
  proof (cases op)
    case (Resolve W now later r)
    then have step: "resolver_run (ops @ [op]) = snd (resolve W now later r ?R)" by (simp add: resolver_run_snoc)
    show ?thesis
    proof (cases "rs_cache (resolver_run (ops @ [op])) = rs_cache ?R")
      case True
      then show ?thesis using old by simp
    next
      case False
      then obtain v where v: "ask_backend W (rs_backends ?R) r = Ok v"
        and c: "rs_cache (resolver_run (ops @ [op])) = hm_insert (sr_uri r)
           \<lparr>ch_value = v, ch_resolved_at = later, ch_ttl = reference_ttl r ?R\<rparr> (rs_cache ?R)"
        unfolding step by (auto simp: resolve_def split: option.splits sum.splits if_splits)
      have new: "answered_before (ops @ [op]) (sr_uri r) v later (reference_ttl r ?R)"
        unfolding answered_before_def Resolve using v by blast
      have "set (rs_cache (resolver_run (ops @ [op])))
          \<subseteq> insert (sr_uri r, \<lparr>ch_value = v, ch_resolved_at = later, ch_ttl = reference_ttl r ?R\<rparr>) (set (rs_cache ?R))"
        unfolding c by (rule set_update_subset)
      then show ?thesis using old new unfolding cache_answered_def by fastforce
    qed
  next
    case (CleanupCache now)
    then have "set (rs_cache (resolver_run (ops @ [op]))) \<subseteq> set (rs_cache ?R)"
      by (simp add: resolver_run_snoc cleanup_cache_def)
    then show ?thesis using old unfolding cache_answered_def by blast
  qed (use old in \<open>simp_all add: resolver_run_snoc register_backend_def set_caching_def set_default_ttl_def clear_cache_def cache_answered_def\<close>)
qed

lemma cache_answered_run: "cache_answered ops (rs_cache (resolver_run ops))"
proof (induction ops rule: rev_induct)
  case Nil
  then show ?case by (simp add: resolver_run_def SecretResolver_new_def with_backends_def cache_answered_def)
next
  case (snoc op ops)
  then show ?case by (rule cache_answered_step)
qed

text \<open>(C23)
  After any operations on a resolver, a resolved secret is what the backend says now, or what a backend answered to an
  earlier reference with the same URI no longer ago than its time to live, and then caching is on. An error is always
  that of the backend.\<close>

theorem resolved_secret_origin:
  "let R = resolver_run ops in
   case fst (resolve W now later r R) of
     Ok v \<Rightarrow> ask_backend W (rs_backends R) r = Ok v \<or>
       (sr_cache r \<and> rs_caching_enabled R \<and> (\<exists>at ttl. answered_before ops (sr_uri r) v at ttl \<and> now \<le> at + ttl))
   | Err e \<Rightarrow> ask_backend W (rs_backends R) r = Err e"
proof -
  let ?R = "resolver_run ops"
  show ?thesis
  proof (cases "cached_answer now r ?R")
    case None
    then show ?thesis by (auto simp: Let_def resolve_def split: sum.split)
  next
    case (Some v)
    then obtain c where "map_of (rs_cache ?R) (sr_uri r) = Some c" and c: "\<not> cached_is_expired now c" "v = ch_value c"
      and enabled: "sr_cache r" "rs_caching_enabled ?R"
      by (auto simp: cached_answer_def split: if_splits option.splits)
    then have "answered_before ops (sr_uri r) v (ch_resolved_at c) (ch_ttl c)"
      using cache_answered_run [of ops] by (auto simp: cache_answered_def dest: map_of_SomeD)
    moreover have "now \<le> ch_resolved_at c + ch_ttl c" using c(1) by (simp add: cached_is_expired_def)
    ultimately show ?thesis using Some enabled by (auto simp: Let_def resolve_def)
  qed
qed

text \<open>The cache forgets the key: a second key of the same secret gets the value of the first.\<close>

lemma cache_ignores_key:
  "sr_cache r \<Longrightarrow> rs_caching_enabled R \<Longrightarrow> cached_answer now r R = None \<Longrightarrow> ask_backend W (rs_backends R) r = Ok v \<Longrightarrow>
   fst (resolve W' later later' (r\<lparr>sr_key := k\<rparr>) (snd (resolve W now later r R))) = Ok v"
  by (simp add: resolve_def cached_answer_def cached_is_expired_def update_conv')

text \<open>A registered backend does not replace what the cache holds.\<close>

lemma cache_survives_backend:
  "cached_answer now r (register_backend kind b R) = cached_answer now r R"
  by (simp add: cached_answer_def register_backend_def)

text \<open>File secrets are not confined to the base directory.\<close>

lemma file_secret_escapes:
  "o_exists W ''/etc/passwd'' \<Longrightarrow> o_read W ''/etc/passwd'' = Ok content \<Longrightarrow>
   file_resolve W base ''/etc/passwd'' None = Ok (trim content)"
  by (simp add: file_resolve_def path_join_def starts_with_def)

section \<open>Replacement in whole configurations\<close>

text \<open>The references in a value, and the value with their secrets.\<close>

fun value_references :: "'f Value \<Rightarrow> SecretReference list"
  and member_references :: "(string \<times> 'f Value) list \<Rightarrow> SecretReference list"
  and values_references :: "'f Value list \<Rightarrow> SecretReference list" where
  "value_references (JString s) = (if is_secret_uri s then [SecretReference_new s] else [])"
| "value_references (JObject m) =
     (case map_of m ''$secret'' of
        Some (JString u) \<Rightarrow> (case object_reference u m of Ok r \<Rightarrow> [r] | Err _ \<Rightarrow> [])
      | Some _ \<Rightarrow> []
      | None \<Rightarrow> member_references m)"
| "value_references (JArray vs) = values_references vs"
| "value_references _ = []"
| "member_references [] = []"
| "member_references ((k, v) # m) = value_references v @ member_references m"
| "values_references [] = []"
| "values_references (v # vs) = value_references v @ values_references vs"

fun substitute :: "(SecretReference \<Rightarrow> SecretError + string) \<Rightarrow> 'f Value \<Rightarrow> SecretError + 'f Value"
  and substitute_members :: "(SecretReference \<Rightarrow> SecretError + string) \<Rightarrow> (string \<times> 'f Value) list \<Rightarrow> SecretError + (string \<times> 'f Value) list"
  and substitute_all :: "(SecretReference \<Rightarrow> SecretError + string) \<Rightarrow> 'f Value list \<Rightarrow> SecretError + 'f Value list" where
  "substitute ask (JString s) =
     (if is_secret_uri s then result_bind (ask (SecretReference_new s)) (\<lambda>x. Ok (JString x)) else Ok (JString s))"
| "substitute ask (JObject m) =
     (case map_of m ''$secret'' of
        Some (JString u) \<Rightarrow> result_bind (object_reference u m) (\<lambda>r. result_bind (ask r) (\<lambda>x. Ok (JString x)))
      | Some _ \<Rightarrow> Ok (JObject m)
      | None \<Rightarrow> result_bind (substitute_members ask m) (\<lambda>m'. Ok (JObject m')))"
| "substitute ask (JArray vs) = result_bind (substitute_all ask vs) (\<lambda>vs'. Ok (JArray vs'))"
| "substitute ask v = Ok v"
| "substitute_members ask [] = Ok []"
| "substitute_members ask ((k, v) # m) =
     result_bind (substitute ask v) (\<lambda>v'. result_bind (substitute_members ask m) (\<lambda>m'. Ok ((k, v') # m')))"
| "substitute_all ask [] = Ok []"
| "substitute_all ask (v # vs) =
     result_bind (substitute ask v) (\<lambda>v'. result_bind (substitute_all ask vs) (\<lambda>vs'. Ok (v' # vs')))"

text \<open>What the cache holds are answers to references of \<open>S\<close>.\<close>

definition cache_from :: "(SecretReference \<Rightarrow> SecretError + string) \<Rightarrow> SecretReference set \<Rightarrow> 'c SecretResolver \<Rightarrow> bool" where
  "cache_from ask S R \<longleftrightarrow> (\<forall>uri c. map_of (rs_cache R) uri = Some c \<longrightarrow> (\<exists>r\<in>S. sr_uri r = uri \<and> ask r = Ok (ch_value c)))"

definition runs_as :: "('f, 'c) Outside \<Rightarrow> (SecretBackend, 'c Backend) hashmap \<Rightarrow> SecretReference set \<Rightarrow> 'x
    \<Rightarrow> (SecretError + 'x) \<Rightarrow> (SecretError + unit) \<times> 'x \<times> nat \<times> 'c SecretResolver \<Rightarrow> bool" where
  "runs_as W bs S x wanted = (\<lambda>(res, x', n, R).
     rs_backends R = bs \<and> cache_from (ask_backend W bs) S R \<and>
     (case wanted of Ok y \<Rightarrow> res = Ok () \<and> x' = y | Err e \<Rightarrow> res = Err e))"

lemma resolve_cached:
  assumes S: "inj_on sr_uri S" "r \<in> S" and R: "rs_backends R = bs" "cache_from (ask_backend W bs) S R"
  shows "fst (resolve W now later r R) = ask_backend W bs r \<and>
    rs_backends (snd (resolve W now later r R)) = bs \<and> cache_from (ask_backend W bs) S (snd (resolve W now later r R))"
proof (cases "cached_answer now r R")
  case None
  then show ?thesis using S(2) R by (auto simp: resolve_def cache_from_def update_conv' split: sum.splits)
next
  case (Some v)
  then obtain c where c: "map_of (rs_cache R) (sr_uri r) = Some c" "v = ch_value c"
    by (auto simp: cached_answer_def split: if_splits option.splits)
  then obtain r' where "r' \<in> S" "sr_uri r' = sr_uri r" "ask_backend W bs r' = Ok v"
    using R(2) by (auto simp: cache_from_def)
  then have "ask_backend W bs r = Ok v" using S by (metis inj_onD)
  then show ?thesis using Some R by (simp add: resolve_def)
qed

lemma resolve_reference_cases:
  assumes "inj_on sr_uri S" "r \<in> S" "rs_backends R = bs" "cache_from (ask_backend W bs) S R"
  obtains v R' where "resolve W now later r R = (Ok v, R')" "ask_backend W bs r = Ok v"
      "rs_backends R' = bs" "cache_from (ask_backend W bs) S R'"
    | e R' where "resolve W now later r R = (Err e, R')" "ask_backend W bs r = Err e"
      "rs_backends R' = bs" "cache_from (ask_backend W bs) S R'"
  using resolve_cached [OF assms, of now later]
  by (cases "resolve W now later r R"; cases "ask_backend W bs r") auto

lemma resolve_in_substitutes:
  fixes v :: "'f Value" and vs :: "'f Value list" and m :: "(string \<times> 'f Value) list"
  assumes S: "inj_on sr_uri S"
  shows "set (value_references v) \<subseteq> S \<Longrightarrow> rs_backends R = bs \<Longrightarrow> cache_from (ask_backend W bs) S R \<Longrightarrow>
           runs_as W bs S v (substitute (ask_backend W bs) v) (resolve_in_value W clock v n R)"
    and "set (values_references vs) \<subseteq> S \<Longrightarrow> rs_backends R = bs \<Longrightarrow> cache_from (ask_backend W bs) S R \<Longrightarrow>
           runs_as W bs S vs (substitute_all (ask_backend W bs) vs) (resolve_in_values W clock vs n R)"
    and "set (member_references m) \<subseteq> S \<Longrightarrow> rs_backends R = bs \<Longrightarrow> cache_from (ask_backend W bs) S R \<Longrightarrow>
           runs_as W bs S m (substitute_members (ask_backend W bs) m) (resolve_in_members W clock m n R)"
proof (induction W clock v n R and W clock vs n R and W clock m n R
    rule: resolve_in_value_resolve_in_values_resolve_in_members.induct)
  case (1 W clock s n R)
  show ?case
  proof (cases "is_secret_uri s")
    case True
    then have "SecretReference_new s \<in> S" using "1.prems"(1) by simp
    from S this "1.prems"(2,3) show ?thesis
      by (rule resolve_reference_cases [where now = "clock n" and later = "clock (Suc n)"])
        (simp_all add: True runs_as_def resolve_uri_def reference_parse_def)
  qed (use "1.prems" in \<open>simp add: runs_as_def\<close>)
next
  case (2 W clock m n R)
  show ?case
  proof (cases "map_of m ''$secret''")
    case None
    then have "runs_as W bs S m (substitute_members (ask_backend W bs) m) (resolve_in_members W clock m n R)"
      using 2 by simp
    then show ?thesis using None
      by (cases "resolve_in_members W clock m n R"; cases "substitute_members (ask_backend W bs) m") (simp_all add: runs_as_def)
  next
    case (Some uri)
    show ?thesis
    proof (cases uri)
      case (JString u)
      show ?thesis
      proof (cases "object_reference u m")
        case (Inl e)
        then show ?thesis using Some JString "2.prems" by (simp add: runs_as_def as_str_def)
      next
        case (Inr r)
        then have "r \<in> S" using "2.prems"(1) Some JString by simp
        from S this "2.prems"(2,3) show ?thesis
          by (rule resolve_reference_cases [where now = "clock n" and later = "clock (Suc n)"])
            (simp_all add: Some JString Inr runs_as_def as_str_def)
      qed
    qed (use Some "2.prems" in \<open>simp_all add: runs_as_def as_str_def\<close>)
  qed
next
  case (3 W clock vs n R)
  then have "runs_as W bs S vs (substitute_all (ask_backend W bs) vs) (resolve_in_values W clock vs n R)" by simp
  then show ?case
    by (cases "resolve_in_values W clock vs n R"; cases "substitute_all (ask_backend W bs) vs") (simp_all add: runs_as_def)
next
  case (8 W clock v vs n R)
  have v: "runs_as W bs S v (substitute (ask_backend W bs) v) (resolve_in_value W clock v n R)" using 8 by simp
  obtain res v' n' R' where eq: "resolve_in_value W clock v n R = (res, v', n', R')" by (cases "resolve_in_value W clock v n R")
  show ?case
  proof (cases "substitute (ask_backend W bs) v")
    case (Inl e)
    then show ?thesis using v by (simp add: runs_as_def eq)
  next
    case (Inr y)
    then have ok: "res = Ok ()" "v' = y" "rs_backends R' = bs" "cache_from (ask_backend W bs) S R'"
      using v by (simp_all add: runs_as_def eq)
    then have "runs_as W bs S vs (substitute_all (ask_backend W bs) vs) (resolve_in_values W clock vs n' R')"
      using 8 by (simp add: eq)
    then show ?thesis using ok Inr
      by (cases "resolve_in_values W clock vs n' R'"; cases "substitute_all (ask_backend W bs) vs") (simp_all add: runs_as_def eq)
  qed
next
  case (10 W clock k v m n R)
  have v: "runs_as W bs S v (substitute (ask_backend W bs) v) (resolve_in_value W clock v n R)" using 10 by simp
  obtain res v' n' R' where eq: "resolve_in_value W clock v n R = (res, v', n', R')" by (cases "resolve_in_value W clock v n R")
  show ?case
  proof (cases "substitute (ask_backend W bs) v")
    case (Inl e)
    then show ?thesis using v by (simp add: runs_as_def eq)
  next
    case (Inr y)
    then have ok: "res = Ok ()" "v' = y" "rs_backends R' = bs" "cache_from (ask_backend W bs) S R'"
      using v by (simp_all add: runs_as_def eq)
    then have "runs_as W bs S m (substitute_members (ask_backend W bs) m) (resolve_in_members W clock m n' R')"
      using 10 by (simp add: eq)
    then show ?thesis using ok Inr
      by (cases "resolve_in_members W clock m n' R'"; cases "substitute_members (ask_backend W bs) m") (simp_all add: runs_as_def eq)
  qed
qed (simp_all add: runs_as_def)


definition demo_outside :: "(unit, unit) Outside" where
  "demo_outside = \<lparr>o_env = (\<lambda>x. if x = ''X'' then Some ''1'' else None), o_exists = \<lambda>_. False, o_read = \<lambda>_. Err [],
     o_json = \<lambda>_. None, o_http = \<lambda>_ _. Err [], o_custom = \<lambda>_ _ _. Err (SecretNotFound []), o_custom_available = \<lambda>_. False\<rparr>"

definition demo_config :: "(string, unit Value) hashmap" where
  "demo_config = [(''a'', JString ''env://X''), (''b'', JArray [JString ''env://X'', JString ''y''])]"


end
