(* ===== verification/Config_Manager.thy ===== *)
theory Config_Manager
  imports Config_Ui Config_Secrets
begin

text \<open>
  The manager of plugin configurations, \<open>abi/src/config/mod.rs\<close>, over the schemas, the validator, the generator and the
  resolver of secrets. Reading files, the TOML parsers and the clock are arguments. The manager
  creates its validator itself and never registers a custom one.
\<close>

datatype ConfigError =
    FileReadError string string
  | ParseError string string
  | ConfigInvalid string string \<comment> \<open>\<open>ValidationError\<close> with plugin and error\<close>
  | ConfigSecretError string
  | SchemaNotFound string
  | InvalidValue string string

fun ConfigError_display :: "ConfigError \<Rightarrow> string" where
  "ConfigError_display (FileReadError path error) = ''Failed to read file '' @ quoted path @ '': '' @ error"
| "ConfigError_display (ParseError path error) = ''Failed to parse file '' @ quoted path @ '': '' @ error"
| "ConfigError_display (ConfigInvalid plugin error) = ''Validation error for plugin '' @ quoted plugin @ '': '' @ error"
| "ConfigError_display (ConfigSecretError error) = ''Secret resolution error: '' @ error"
| "ConfigError_display (SchemaNotFound plugin) = ''Schema not found for plugin: '' @ plugin"
| "ConfigError_display (InvalidValue key reason) = ''Invalid value for '' @ quoted key @ '': '' @ reason"

definition from_schema_error :: "SchemaError \<Rightarrow> ConfigError" where
  "from_schema_error e = ParseError ''schema'' (SchemaError_display e)"

record ('f, 'c) ConfigManager =
  cm_schemas :: "(string, 'f ConfigSchema) hashmap"
  cm_values :: "(string, 'f config_values) hashmap"
  cm_file_timestamps :: "(string, nat) hashmap"
  cm_validator :: "'f custom_validators"
  cm_ui_generator :: UIGenerator
  cm_secret_resolver :: "'c SecretResolver"

definition ConfigManager_new :: "('f, 'c) ConfigManager" where
  "ConfigManager_new =
     \<lparr>cm_schemas = [], cm_values = [], cm_file_timestamps = [], cm_validator = [], cm_ui_generator = UIGenerator_new,
      cm_secret_resolver = SecretResolver_new\<rparr>"

definition register_schema :: "string \<Rightarrow> 'f ConfigSchema \<Rightarrow> ('f, 'c) ConfigManager \<Rightarrow> ('f, 'c) ConfigManager" where
  "register_schema plugin_name schema M = M\<lparr>cm_schemas := hm_insert plugin_name schema (cm_schemas M)\<rparr>"

definition from_toml :: "(string \<Rightarrow> string + 'f ConfigSchema) \<Rightarrow> string \<Rightarrow> SchemaError + 'f ConfigSchema" where
  "from_toml toml content = map_err SParseError (toml content)"

definition load_schema :: "(string \<Rightarrow> string + string) \<Rightarrow> (string \<Rightarrow> string + 'f ConfigSchema) \<Rightarrow> nat \<Rightarrow> string \<Rightarrow> string
    \<Rightarrow> ('f, 'c) ConfigManager \<Rightarrow> (ConfigError + unit) \<times> ('f, 'c) ConfigManager" where
  "load_schema read toml now plugin_name path M =
     (case read path of
        Err e \<Rightarrow> (Err (FileReadError path e), M)
      | Ok content \<Rightarrow>
          (case from_toml toml content of
             Err e \<Rightarrow> (Err (from_schema_error e), M)
           | Ok schema \<Rightarrow>
               (let M1 = register_schema plugin_name schema M
                in (Ok (), M1\<lparr>cm_file_timestamps := hm_insert path now (cm_file_timestamps M1)\<rparr>))))"

definition load_config :: "'f Cfg_Env \<Rightarrow> (string \<Rightarrow> string + string) \<Rightarrow> (string \<Rightarrow> string + 'f config_values) \<Rightarrow> nat \<Rightarrow> string \<Rightarrow> string
    \<Rightarrow> ('f, 'c) ConfigManager \<Rightarrow> (ConfigError + unit) \<times> ('f, 'c) ConfigManager" where
  "load_config E read toml now plugin_name path M =
     (case read path of
        Err e \<Rightarrow> (Err (FileReadError path e), M)
      | Ok content \<Rightarrow>
          (case toml content of
             Err e \<Rightarrow> (Err (ParseError path e), M)
           | Ok vs \<Rightarrow>
               (case (case hm_get (cm_schemas M) plugin_name of
                        Some schema \<Rightarrow>
                          map_err (\<lambda>e. ConfigInvalid plugin_name (ValidationError_display e)) (validate E (cm_validator M) schema vs)
                      | None \<Rightarrow> Ok []) of
                  Err e \<Rightarrow> (Err e, M)
                | Ok _ \<Rightarrow>
                    (Ok (), M\<lparr>cm_values := hm_insert plugin_name vs (cm_values M),
                              cm_file_timestamps := hm_insert path now (cm_file_timestamps M)\<rparr>))))"

definition get_config :: "string \<Rightarrow> ('f, 'c) ConfigManager \<Rightarrow> 'f config_values option" where
  "get_config plugin_name M = hm_get (cm_values M) plugin_name"

definition get_value :: "string \<Rightarrow> string \<Rightarrow> ('f, 'c) ConfigManager \<Rightarrow> 'f Value option" where
  "get_value plugin_name key M = Option.bind (hm_get (cm_values M) plugin_name) (\<lambda>vs. hm_get vs key)"

definition set_value :: "'f Cfg_Env \<Rightarrow> string \<Rightarrow> string \<Rightarrow> 'f Value \<Rightarrow> ('f, 'c) ConfigManager
    \<Rightarrow> (ConfigError + unit) \<times> ('f, 'c) ConfigManager" where
  "set_value E plugin_name key v M =
     (case (case Option.bind (hm_get (cm_schemas M) plugin_name) (\<lambda>schema. get_field schema key) of
              Some field \<Rightarrow>
                map_err (\<lambda>e. ConfigInvalid plugin_name (ValidationError_display e)) (validate_field E (cm_validator M) field v)
            | None \<Rightarrow> Ok ()) of
        Err e \<Rightarrow> (Err e, M)
      | Ok _ \<Rightarrow>
          (let old = (case hm_get (cm_values M) plugin_name of Some vs \<Rightarrow> vs | None \<Rightarrow> [])
           in (Ok (), M\<lparr>cm_values := hm_insert plugin_name (hm_insert key v old) (cm_values M)\<rparr>)))"

fun validate_all_loop :: "'f Cfg_Env \<Rightarrow> ('f, 'c) ConfigManager \<Rightarrow> (string \<times> 'f ConfigSchema) list
    \<Rightarrow> (string, ValidationWarning list) hashmap \<Rightarrow> ConfigError + (string, ValidationWarning list) hashmap" where
  "validate_all_loop E M [] warnings = Ok warnings"
| "validate_all_loop E M ((plugin_name, schema) # schemas) warnings =
     (case hm_get (cm_values M) plugin_name of
        None \<Rightarrow> validate_all_loop E M schemas warnings
      | Some vs \<Rightarrow>
          (case map_err (\<lambda>e. ConfigInvalid plugin_name (ValidationError_display e)) (validate E (cm_validator M) schema vs) of
             Err e \<Rightarrow> Err e
           | Ok ws \<Rightarrow> validate_all_loop E M schemas (hm_insert plugin_name ws warnings)))"

definition validate_all :: "'f Cfg_Env \<Rightarrow> ('f, 'c) ConfigManager \<Rightarrow> ConfigError + (string, ValidationWarning list) hashmap" where
  "validate_all E M = validate_all_loop E M (cm_schemas M) []"

text \<open>The configurations are changed one after the other; the first error ends the loop.\<close>

fun resolve_loop :: "('f, 'c) Outside \<Rightarrow> (nat \<Rightarrow> nat) \<Rightarrow> (string \<times> 'f config_values) list \<Rightarrow> nat \<Rightarrow> 'c SecretResolver
    \<Rightarrow> (SecretError + unit) \<times> (string \<times> 'f config_values) list \<times> 'c SecretResolver" where
  "resolve_loop W clock [] n R = (Ok (), [], R)"
| "resolve_loop W clock ((p, vs) # rest) n R =
     (case resolve_in_config W clock vs n R of
        (Err e, vs', n', R') \<Rightarrow> (Err e, (p, vs') # rest, R')
      | (Ok _, vs', n', R') \<Rightarrow>
          (case resolve_loop W clock rest n' R' of (res, rest', R'') \<Rightarrow> (res, (p, vs') # rest', R'')))"

definition resolve_secrets :: "('f, 'c) Outside \<Rightarrow> (nat \<Rightarrow> nat) \<Rightarrow> ('f, 'c) ConfigManager
    \<Rightarrow> (ConfigError + unit) \<times> ('f, 'c) ConfigManager" where
  "resolve_secrets W clock M =
     (case resolve_loop W clock (cm_values M) 0 (cm_secret_resolver M) of
        (res, vs, R) \<Rightarrow>
          (map_err (\<lambda>e. ConfigSecretError (SecretError_display e)) res, M\<lparr>cm_values := vs, cm_secret_resolver := R\<rparr>))"

definition generate_ui :: "'f F64 \<Rightarrow> string \<Rightarrow> ('f, 'c) ConfigManager \<Rightarrow> 'f UIComponent list option" where
  "generate_ui F plugin_name M = map_option (generate F (cm_ui_generator M)) (hm_get (cm_schemas M) plugin_name)"

definition manager_json_schema :: "'f F64 \<Rightarrow> string \<Rightarrow> ('f, 'c) ConfigManager \<Rightarrow> 'f Value option" where
  "manager_json_schema F plugin_name M = map_option (generate_json_schema F) (hm_get (cm_schemas M) plugin_name)"

text \<open>The argument \<open>metadata\<close> tells whether the file can be looked at; its time is not used.\<close>

definition check_modified :: "(string \<Rightarrow> string + unit) \<Rightarrow> string \<Rightarrow> ('f, 'c) ConfigManager \<Rightarrow> ConfigError + bool" where
  "check_modified metadata path M =
     (case metadata path of
        Err e \<Rightarrow> Err (FileReadError path e)
      | Ok _ \<Rightarrow> Ok (hm_get (cm_file_timestamps M) path = None))"

section \<open>Runs of the manager\<close>

datatype 'f manager_op =
    RegisterSchema string "'f ConfigSchema"
  | LoadConfig "string \<Rightarrow> string + string" "string \<Rightarrow> string + 'f config_values" nat string string
  | SetValue string string "'f Value"

fun manager_step :: "'f Cfg_Env \<Rightarrow> ('f, 'c) ConfigManager \<Rightarrow> 'f manager_op \<Rightarrow> ('f, 'c) ConfigManager" where
  "manager_step E M (RegisterSchema p sc) = register_schema p sc M"
| "manager_step E M (LoadConfig read toml now p path) = snd (load_config E read toml now p path M)"
| "manager_step E M (SetValue p k v) = snd (set_value E p k v M)"

definition manager_run :: "'f Cfg_Env \<Rightarrow> 'f manager_op list \<Rightarrow> ('f, 'c) ConfigManager" where
  "manager_run E ops = foldl (manager_step E) ConfigManager_new ops"

text \<open>A schema is registered before there are values of its plugin.\<close>

fun schemas_first :: "'f Cfg_Env \<Rightarrow> ('f, 'c) ConfigManager \<Rightarrow> 'f manager_op list \<Rightarrow> bool" where
  "schemas_first E M [] = True"
| "schemas_first E M (op # ops) =
     ((case op of RegisterSchema p sc \<Rightarrow> get_config p M = None | _ \<Rightarrow> True) \<and> schemas_first E (manager_step E M op) ops)"

definition config_checked :: "'f Cfg_Env \<Rightarrow> ('f, 'c) ConfigManager \<Rightarrow> bool" where
  "config_checked E M \<longleftrightarrow> cm_validator M = [] \<and>
     (\<forall>p sc name f v. map_of (cm_schemas M) p = Some sc \<longrightarrow> get_field sc name = Some f \<longrightarrow>
        get_value p name M = Some v \<longrightarrow> \<not> is_null_or_empty v \<longrightarrow>
        has_type E (cf_field_type f) v \<and> (\<forall>r\<in>set (cf_validation f). rule_met E [] v r))"

lemma config_checkedI:
  assumes "cm_validator M = []"
    "\<And>p sc name f v. map_of (cm_schemas M) p = Some sc \<Longrightarrow> get_field sc name = Some f \<Longrightarrow> get_value p name M = Some v \<Longrightarrow>
       \<not> is_null_or_empty v \<Longrightarrow> has_type E (cf_field_type f) v \<and> (\<forall>r\<in>set (cf_validation f). rule_met E [] v r)"
  shows "config_checked E M"
  using assms unfolding config_checked_def by blast

lemma config_checkedD:
  "config_checked E M \<Longrightarrow> map_of (cm_schemas M) p = Some sc \<Longrightarrow> get_field sc name = Some f \<Longrightarrow> get_value p name M = Some v \<Longrightarrow>
   \<not> is_null_or_empty v \<Longrightarrow> has_type E (cf_field_type f) v \<and> (\<forall>r\<in>set (cf_validation f). rule_met E [] v r)"
  unfolding config_checked_def by blast

lemma validate_Ok_fields: "validate E C schema vs = Ok ws \<Longrightarrow> f \<in> set (all_fields schema) \<Longrightarrow> field_met E C vs f"
  by (auto simp: validate_eq try_all_Ok check_field_Ok split: sum.splits)

lemma load_config_checked:
  assumes inv: "config_checked E M"
  shows "config_checked E (snd (load_config E read toml now p path M))"
proof (cases "fst (load_config E read toml now p path M)")
  case (Inl e)
  then have "snd (load_config E read toml now p path M) = M"
    by (auto simp: load_config_def split: sum.splits option.splits)
  then show ?thesis using inv by simp
next
  case (Inr u)
  then obtain vs where
    st: "snd (load_config E read toml now p path M) = M\<lparr>cm_values := hm_insert p vs (cm_values M),
           cm_file_timestamps := hm_insert path now (cm_file_timestamps M)\<rparr>"
    and valid: "\<And>sc. map_of (cm_schemas M) p = Some sc \<Longrightarrow> \<exists>ws. validate E (cm_validator M) sc vs = Ok ws"
    by (auto simp: load_config_def split: sum.splits option.splits)
  show ?thesis
  proof (rule config_checkedI)
    fix q sc name f v
    assume q: "map_of (cm_schemas (snd (load_config E read toml now p path M))) q = Some sc"
      "get_field sc name = Some f" "get_value q name (snd (load_config E read toml now p path M)) = Some v"
      "\<not> is_null_or_empty v"
    show "has_type E (cf_field_type f) v \<and> (\<forall>r\<in>set (cf_validation f). rule_met E [] v r)"
    proof (cases "q = p")
      case True
      then obtain ws where "validate E (cm_validator M) sc vs = Ok ws" using valid [of sc] q(1) by (auto simp: st)
      then have "field_met E (cm_validator M) vs f"
        by (rule validate_Ok_fields) (use get_field_SomeD [OF q(2)] in simp)
      moreover have "map_of vs (cf_name f) = Some v"
        using q(3) True get_field_SomeD [OF q(2)] by (simp add: st get_value_def update_conv')
      ultimately show ?thesis using q(4) inv by (simp add: field_met_def config_checked_def)
    next
      case False
      then show ?thesis using q by (intro config_checkedD [OF inv, of q sc name]) (simp_all add: st get_value_def update_conv')
    qed
  qed (use inv in \<open>simp add: st config_checked_def\<close>)
qed

lemma set_value_checked:
  assumes inv: "config_checked E M"
  shows "config_checked E (snd (set_value E p k w M))"
proof (cases "fst (set_value E p k w M)")
  case (Inl e)
  then have "snd (set_value E p k w M) = M"
    by (auto simp: set_value_def Let_def split: sum.splits option.splits)
  then show ?thesis using inv by simp
next
  case (Inr u)
  then have st: "snd (set_value E p k w M) = M\<lparr>cm_values := hm_insert p
        (hm_insert k w (case map_of (cm_values M) p of Some vs \<Rightarrow> vs | None \<Rightarrow> [])) (cm_values M)\<rparr>"
    and valid: "\<And>sc f. map_of (cm_schemas M) p = Some sc \<Longrightarrow> get_field sc k = Some f \<Longrightarrow> validate_field E (cm_validator M) f w = Ok ()"
    by (auto simp: set_value_def Let_def split: sum.splits option.splits)
  show ?thesis
  proof (rule config_checkedI)
    fix q sc name f v
    assume q: "map_of (cm_schemas (snd (set_value E p k w M))) q = Some sc" "get_field sc name = Some f"
      "get_value q name (snd (set_value E p k w M)) = Some v" "\<not> is_null_or_empty v"
    show "has_type E (cf_field_type f) v \<and> (\<forall>r\<in>set (cf_validation f). rule_met E [] v r)"
    proof (cases "q = p \<and> name = k")
      case True
      then show ?thesis using valid [of sc f] q inv by (auto simp: st get_value_def update_conv' validate_field_Ok config_checked_def)
    next
      case False
      then have "get_value q name M = Some v"
        using q(3) by (auto simp: st get_value_def update_conv' split: option.splits if_splits)
      then show ?thesis using q by (intro config_checkedD [OF inv, of q sc name]) (simp_all add: st)
    qed
  qed (use inv in \<open>simp add: st config_checked_def\<close>)
qed

lemma manager_step_checked:
  assumes inv: "config_checked E M" and "schemas_first E M [op]"
  shows "config_checked E (manager_step E M op)"
proof (cases op)
  case (RegisterSchema p sc)
  then have "get_config p M = None" using assms(2) by simp
  then show ?thesis using inv
    by (auto simp: RegisterSchema register_schema_def config_checked_def update_conv' get_value_def get_config_def)
next
  case (LoadConfig read toml now p path)
  then show ?thesis using load_config_checked [OF inv] by simp
next
  case (SetValue p k v)
  then show ?thesis using set_value_checked [OF inv] by simp
qed


section \<open>Limits of the checks\<close>

text \<open>A file that was loaded is never reported as modified.\<close>

lemma loaded_never_modified:
  "fst (load_config E read toml now p path M) = Ok () \<Longrightarrow> metadata path = Ok () \<Longrightarrow>
   check_modified metadata path (snd (load_config E read toml now p path M)) = Ok False"
  by (auto simp: load_config_def check_modified_def update_conv' split: sum.splits option.splits)

text \<open>As the manager has no custom validators, a rule that names one rejects every value, and one over several fields every configuration.\<close>

lemma custom_rules_reject:
  "validate E [] schema vs = Ok ws \<Longrightarrow> f \<in> set (all_fields schema) \<Longrightarrow> RCustom name ps \<in> set (cf_validation f) \<Longrightarrow>
   \<not> value_set vs (cf_name f)"
  using validate_Ok_fields [of E "[]" schema vs ws f] by (fastforce simp: field_met_def value_set_def split: option.splits)

text \<open>Setting single values checks only their type and rules, so that a required field can be emptied.\<close>

lemma required_field_emptied:
  fixes E :: "'f Cfg_Env"
  defines "M \<equiv> (manager_run E [RegisterSchema ''p'' demo_schema, SetValue ''p'' ''k'' (JString ''x''), SetValue ''p'' ''l'' (JString ''y''),
      SetValue ''p'' ''k'' (JString [])] :: ('f, 'c) ConfigManager)"
  shows "get_value ''p'' ''k'' M = Some (JString []) \<and> validate_all E M = Err (ConfigInvalid ''p'' (ValidationError_display (RequiredFieldMissing ''k'')))"
proof -
  have "validate_field E C f v = Ok ()" if "cf_field_type f = FString" "v = JString s" "cf_validation f = [] \<or> cf_validation f = [RMinLength 1] \<and> s \<noteq> []"
    for C :: "'f custom_validators" and f v s
    using that by (auto simp: validate_field_Ok Suc_le_eq)
  then show ?thesis
    by (simp add: M_def manager_run_def register_schema_def ConfigManager_new_def set_value_def get_field_find demo_fields demo_field_def
        get_value_def validate_all_def validate_def check_field_def is_null_or_empty_def)
qed

definition demo_ops :: "unit manager_op list" where
  "demo_ops = [RegisterSchema ''p'' demo_schema, SetValue ''p'' ''l'' (JString ''x''), SetValue ''p'' ''l'' (JString [])]"

lemma config_demo_run:
  "schemas_first demo_env (ConfigManager_new :: (unit, unit) ConfigManager) demo_ops"
  "get_value ''p'' ''l'' (manager_run demo_env demo_ops :: (unit, unit) ConfigManager) = Some (JString ''x'')"
proof -
  have "validate_field demo_env [] (demo_field\<lparr>cf_name := ''l''\<rparr>) (JString ''x'') = Ok ()"
    by (simp add: validate_field_Ok demo_field_def)
  moreover have "\<exists>e. validate_field demo_env [] (demo_field\<lparr>cf_name := ''l''\<rparr>) (JString []) = Err e"
    by (simp add: validate_field_def validate_type.simps demo_field_def is_string_def validate_rule_def as_str_def)
  ultimately show "schemas_first demo_env (ConfigManager_new :: (unit, unit) ConfigManager) demo_ops"
    "get_value ''p'' ''l'' (manager_run demo_env demo_ops :: (unit, unit) ConfigManager) = Some (JString ''x'')"
    by (auto simp: manager_run_def demo_ops_def register_schema_def ConfigManager_new_def set_value_def get_field_find demo_fields
        get_value_def get_config_def demo_field_def)
qed


end
