(* ===== verification/Log_Schema.thy ===== *)
theory Log_Schema
  imports Config_Schema
begin

text \<open>
  The events of structured logging, \<open>abi/src/logging/schema.rs\<close>: levels, builders and the timestamps, whose calendar the
  code computes itself. The clock is an argument, as seconds and nanoseconds since 1970. The text of events as JSON
  and the constant JSON Schema are left out.
\<close>

section \<open>Events\<close>

datatype LogLevel = Trace | Debug | Info | Warn | Error

datatype PluginLogLevel = PluginError | PluginWarn | PluginInfo | PluginDebug | PluginTrace

fun LogLevel_display :: "LogLevel \<Rightarrow> string" where
  "LogLevel_display Trace = ''TRACE''"
| "LogLevel_display Debug = ''DEBUG''"
| "LogLevel_display Info = ''INFO''"
| "LogLevel_display Warn = ''WARN''"
| "LogLevel_display Error = ''ERROR''"

definition LogLevel_from_str :: "string \<Rightarrow> string + LogLevel" where
  "LogLevel_from_str s =
     (let u = to_uppercase s
      in if u = ''TRACE'' then Ok Trace
         else if u = ''DEBUG'' then Ok Debug
         else if u = ''INFO'' then Ok Info
         else if u = ''WARN'' \<or> u = ''WARNING'' then Ok Warn
         else if u = ''ERROR'' \<or> u = ''ERR'' then Ok Error
         else Err (''Invalid log level: '' @ s))"

fun level_from_plugin :: "PluginLogLevel \<Rightarrow> LogLevel" where
  "level_from_plugin PluginTrace = Trace"
| "level_from_plugin PluginDebug = Debug"
| "level_from_plugin PluginInfo = Info"
| "level_from_plugin PluginWarn = Warn"
| "level_from_plugin PluginError = Error"

fun level_to_plugin :: "LogLevel \<Rightarrow> PluginLogLevel" where
  "level_to_plugin Trace = PluginTrace"
| "level_to_plugin Debug = PluginDebug"
| "level_to_plugin Info = PluginInfo"
| "level_to_plugin Warn = PluginWarn"
| "level_to_plugin Error = PluginError"

datatype ErrorInfo = ErrorInfo
  (ei_error_type: string) (ei_message: string) (ei_stack_trace: "string option") (ei_code: "string option")
  (ei_cause: "ErrorInfo option")

record SourceLocation =
  sl_file :: string
  sl_line :: u32
  sl_function :: "string option"
  sl_module :: "string option"

record RequestContext =
  rq_method :: string
  rq_path :: string
  rq_request_id :: "string option"
  rq_user_id :: "string option"
  rq_client_ip :: "string option"
  rq_user_agent :: "string option"

record 'f LogEvent =
  le_timestamp :: string
  le_level :: LogLevel
  le_message :: string
  le_plugin_id :: "string option"
  le_trace_id :: "string option"
  le_span_id :: "string option"
  le_correlation_id :: "string option"
  le_parent_span_id :: "string option"
  le_metadata :: "(string, 'f Value) hashmap option"
  le_error :: "ErrorInfo option"
  le_source :: "SourceLocation option"
  le_request :: "RequestContext option"

section \<open>Timestamps\<close>

text \<open>\<open>{:0wd}\<close>\<close>

definition pad_nat :: "nat \<Rightarrow> nat \<Rightarrow> string" where
  "pad_nat w n = replicate (w - length (show_nat n)) CHR ''0'' @ show_nat n"

definition pad_year :: "int \<Rightarrow> string" where
  "pad_year y = (if y < 0 then CHR ''-'' # pad_nat 3 (nat (- y)) else pad_nat 4 (nat y))"

text \<open>\<open>i32\<close> addition, which wraps around.\<close>

definition wrap_i32 :: "int \<Rightarrow> int" where
  "wrap_i32 x = (x + 2 ^ 31) mod 2 ^ 32 - 2 ^ 31"

definition is_leap_year :: "int \<Rightarrow> bool" where
  "is_leap_year year \<longleftrightarrow> (year mod 4 = 0 \<and> year mod 100 \<noteq> 0) \<or> year mod 400 = 0"

definition days_in_year :: "int \<Rightarrow> nat" where
  "days_in_year year = (if is_leap_year year then 366 else 365)"

definition days_in_months :: "int \<Rightarrow> nat list" where
  "days_in_months year =
     (if is_leap_year year then [31, 29, 31, 30, 31, 30, 31, 31, 30, 31, 30, 31]
      else [31, 28, 31, 30, 31, 30, 31, 31, 30, 31, 30, 31])"

function year_loop :: "int \<Rightarrow> nat \<Rightarrow> int \<times> nat" where
  "year_loop year remaining =
     (if remaining < days_in_year year then (year, remaining)
      else year_loop (wrap_i32 (year + 1)) (remaining - days_in_year year))"
  by auto
termination
  by (relation "measure snd") (auto simp: days_in_year_def)

declare year_loop.simps [simp del]

fun month_loop :: "nat list \<Rightarrow> nat \<Rightarrow> nat \<Rightarrow> nat \<times> nat" where
  "month_loop [] month remaining = (month, remaining)"
| "month_loop (d # ds) month remaining =
     (if remaining < d then (month, remaining) else month_loop ds (month + 1) (remaining - d))"

definition days_to_ymd :: "nat \<Rightarrow> int \<times> nat \<times> nat" where
  "days_to_ymd days =
     (case year_loop 1970 days of (year, rest) \<Rightarrow>
        (case month_loop (days_in_months year) 1 rest of (month, r) \<Rightarrow> (year, month, r + 1)))"

definition timestamp_of :: "u64 \<Rightarrow> nat \<Rightarrow> string" where
  "timestamp_of secs nanos =
     (let n = unat secs;
          (year, month, day) = days_to_ymd (n div 86400);
          s = n mod 86400
      in pad_year year @ ''-'' @ pad_nat 2 month @ ''-'' @ pad_nat 2 day @ ''T'' @
         pad_nat 2 (s div 3600) @ '':'' @ pad_nat 2 (s mod 3600 div 60) @ '':'' @ pad_nat 2 (s mod 60) @ ''.'' @
         pad_nat 6 (nanos div 1000) @ ''Z'')"

section \<open>Builders\<close>

definition event_with_timestamp :: "LogLevel \<Rightarrow> string \<Rightarrow> string \<Rightarrow> 'f LogEvent" where
  "event_with_timestamp level message timestamp =
     \<lparr>le_timestamp = timestamp, le_level = level, le_message = message, le_plugin_id = None, le_trace_id = None,
      le_span_id = None, le_correlation_id = None, le_parent_span_id = None, le_metadata = None, le_error = None,
      le_source = None, le_request = None\<rparr>"

definition LogEvent_new :: "u64 \<Rightarrow> nat \<Rightarrow> LogLevel \<Rightarrow> string \<Rightarrow> 'f LogEvent" where
  "LogEvent_new secs nanos level message = event_with_timestamp level message (timestamp_of secs nanos)"

definition log_with_plugin_id :: "string \<Rightarrow> 'f LogEvent \<Rightarrow> 'f LogEvent" where
  "log_with_plugin_id x e = e\<lparr>le_plugin_id := Some x\<rparr>"

definition log_with_trace_id :: "string \<Rightarrow> 'f LogEvent \<Rightarrow> 'f LogEvent" where
  "log_with_trace_id x e = e\<lparr>le_trace_id := Some x\<rparr>"

definition log_with_span_id :: "string \<Rightarrow> 'f LogEvent \<Rightarrow> 'f LogEvent" where
  "log_with_span_id x e = e\<lparr>le_span_id := Some x\<rparr>"

definition log_with_correlation_id :: "string \<Rightarrow> 'f LogEvent \<Rightarrow> 'f LogEvent" where
  "log_with_correlation_id x e = e\<lparr>le_correlation_id := Some x\<rparr>"

definition log_with_parent_span_id :: "string \<Rightarrow> 'f LogEvent \<Rightarrow> 'f LogEvent" where
  "log_with_parent_span_id x e = e\<lparr>le_parent_span_id := Some x\<rparr>"

definition log_with_metadata :: "string \<Rightarrow> 'f Value \<Rightarrow> 'f LogEvent \<Rightarrow> 'f LogEvent" where
  "log_with_metadata k v e = e\<lparr>le_metadata := Some (hm_insert k v (case le_metadata e of Some m \<Rightarrow> m | None \<Rightarrow> []))\<rparr>"

definition log_with_error :: "ErrorInfo \<Rightarrow> 'f LogEvent \<Rightarrow> 'f LogEvent" where
  "log_with_error x e = e\<lparr>le_error := Some x\<rparr>"

definition log_with_source :: "SourceLocation \<Rightarrow> 'f LogEvent \<Rightarrow> 'f LogEvent" where
  "log_with_source x e = e\<lparr>le_source := Some x\<rparr>"

definition log_with_request :: "RequestContext \<Rightarrow> 'f LogEvent \<Rightarrow> 'f LogEvent" where
  "log_with_request x e = e\<lparr>le_request := Some x\<rparr>"

section \<open>The calendar\<close>

lemma LogLevel_roundtrip: "LogLevel_from_str (LogLevel_display l) = Ok l \<and> level_from_plugin (level_to_plugin l) = l"
proof -
  have "LogLevel_from_str (LogLevel_display l) = Ok l" by (cases l; simp only:; code_simp)
  then show ?thesis by (cases l) simp_all
qed

text \<open>The days before the year \<open>1970 + k\<close>, and the days of a date.\<close>

fun days_before :: "nat \<Rightarrow> nat" where
  "days_before 0 = 0"
| "days_before (Suc k) = days_before k + days_in_year (1970 + int k)"

definition month_days :: "int \<Rightarrow> nat \<Rightarrow> nat" where
  "month_days year month = days_in_months year ! (month - 1)"

definition valid_date :: "nat \<Rightarrow> nat \<Rightarrow> nat \<Rightarrow> bool" where
  "valid_date k month day \<longleftrightarrow> 1 \<le> month \<and> month \<le> 12 \<and> 1 \<le> day \<and> day \<le> month_days (1970 + int k) month"

definition date_days :: "nat \<Rightarrow> nat \<Rightarrow> nat \<Rightarrow> nat" where
  "date_days k month day = days_before k + sum_list (take (month - 1) (days_in_months (1970 + int k))) + (day - 1)"

lemma days_before_mono: "j \<le> k \<Longrightarrow> days_before j \<le> days_before k"
  by (induction k) (auto simp: le_Suc_eq)

lemma length_months [simp]: "length (days_in_months y) = 12"
  by (simp add: days_in_months_def)

lemma sum_months: "sum_list (days_in_months y) = days_in_year y"
  by (simp add: days_in_months_def days_in_year_def)

lemma wrap_i32_id: "- (2 ^ 31) \<le> x \<Longrightarrow> x < 2 ^ 31 \<Longrightarrow> wrap_i32 x = x"
  by (simp add: wrap_i32_def)

lemma year_loop_eq:
  "days_before k \<le> d \<Longrightarrow> d < days_before (Suc k) \<Longrightarrow> 1970 + int k < 2 ^ 31 \<Longrightarrow> j \<le> k \<Longrightarrow>
   year_loop (1970 + int j) (d - days_before j) = (1970 + int k, d - days_before k)"
proof (induction "k - j" arbitrary: j)
  case 0
  then have j: "j = k" by simp
  have "d - days_before k < days_in_year (1970 + int k)" using 0 by simp
  then show ?case by (subst year_loop.simps) (simp add: j)
next
  case (Suc n)
  then have j: "j < k" by simp
  have "days_before (Suc j) \<le> d" using days_before_mono [of "Suc j" k] j Suc.prems(1) by simp
  then have "\<not> d - days_before j < days_in_year (1970 + int j)"
    "d - days_before j - days_in_year (1970 + int j) = d - days_before (Suc j)" by simp_all
  moreover have "wrap_i32 (1970 + int j + 1) = 1970 + int (Suc j)" using j Suc.prems(3) by (simp add: wrap_i32_id)
  ultimately show ?case using Suc.hyps(1) [of "Suc j"] Suc j by (subst year_loop.simps) simp
qed

lemma month_loop_eq:
  "i < length ds \<Longrightarrow> q < ds ! i \<Longrightarrow> month_loop ds m (sum_list (take i ds) + q) = (m + i, q)"
proof (induction ds arbitrary: i m)
  case (Cons d ds)
  then show ?case by (cases i) (auto simp: add.assoc)
qed simp

lemma split_sum: "r < sum_list ds \<Longrightarrow> \<exists>i q. i < length ds \<and> q < ds ! i \<and> r = sum_list (take i ds) + q" for ds :: "nat list"
proof (induction ds arbitrary: r)
  case (Cons d ds)
  show ?case
  proof (cases "r < d")
    case True
    then show ?thesis by (intro exI [of _ 0] exI [of _ r]) simp
  next
    case False
    then have "r - d < sum_list ds" using Cons.prems by simp
    then obtain i q where "i < length ds" "q < ds ! i" "r - d = sum_list (take i ds) + q"
      using Cons.IH by blast
    then show ?thesis using False by (intro exI [of _ "Suc i"] exI [of _ q]) simp
  qed
qed simp

lemma days_before_unbounded: "\<exists>k. days_before k \<le> d \<and> d < days_before (Suc k)"
proof (induction d)
  case 0
  show ?case by (intro exI [of _ 0]) (simp add: days_in_year_def)
next
  case (Suc d)
  then obtain k where k: "days_before k \<le> d" "d < days_before (Suc k)" by blast
  show ?case
  proof (cases "Suc d < days_before (Suc k)")
    case True
    then show ?thesis using k by (intro exI [of _ k]) simp
  next
    case False
    then show ?thesis using k by (intro exI [of _ "Suc k"]) (simp add: days_in_year_def split: if_splits)
  qed
qed

lemma days_to_ymd_date:
  assumes "valid_date k month day" "1970 + int k < 2 ^ 31"
  shows "days_to_ymd (date_days k month day) = (1970 + int k, month, day)"
proof -
  let ?ms = "days_in_months (1970 + int k)" and ?i = "month - 1" and ?q = "day - 1"
  have i: "?i < length ?ms" "?q < ?ms ! ?i" using assms(1) by (auto simp: valid_date_def month_days_def)
  have "sum_list (take ?i ?ms) + ?ms ! ?i \<le> sum_list ?ms"
  proof -
    have "sum_list ?ms = sum_list (take ?i ?ms) + sum_list (drop ?i ?ms)" by (metis append_take_drop_id sum_list_append)
    then show ?thesis using i by (simp add: Cons_nth_drop_Suc [symmetric])
  qed
  then have "sum_list (take ?i ?ms) + ?q < days_in_year (1970 + int k)" using i(2) sum_months [of "1970 + int k"] by simp
  then have "year_loop 1970 (date_days k month day) = (1970 + int k, sum_list (take ?i ?ms) + ?q)"
    using year_loop_eq [of k "date_days k month day" 0] assms(2) by (simp add: date_days_def)
  then show ?thesis using month_loop_eq [OF i, of 1] assms(1) by (simp add: days_to_ymd_def valid_date_def)
qed

lemma date_exists: "\<exists>k month day. valid_date k month day \<and> date_days k month day = d"
proof -
  obtain k where k: "days_before k \<le> d" "d < days_before (Suc k)" using days_before_unbounded by blast
  let ?ms = "days_in_months (1970 + int k)"
  have "d - days_before k < sum_list ?ms" using k by (simp add: sum_months)
  then obtain i q where "i < length ?ms" "q < ?ms ! i" "d - days_before k = sum_list (take i ?ms) + q"
    using split_sum by blast
  then show ?thesis using k
    by (intro exI [of _ k] exI [of _ "Suc i"] exI [of _ "Suc q"]) (simp add: valid_date_def date_days_def month_days_def)
qed

theorem days_to_ymd_correct:
  "d < days_before (2 ^ 31 - 1970) \<Longrightarrow>
   (case days_to_ymd d of (year, month, day) \<Rightarrow>
      \<exists>k. year = 1970 + int k \<and> valid_date k month day \<and> date_days k month day = d)"
proof -
  assume d: "d < days_before (2 ^ 31 - 1970)"
  obtain k month day where date: "valid_date k month day" "date_days k month day = d" using date_exists by blast
  have "days_before k \<le> d" using date(2) by (auto simp: date_days_def)
  then have "\<not> 2 ^ 31 - 1970 \<le> k" using d days_before_mono [of "2 ^ 31 - 1970" k] by linarith
  then have "1970 + int k < 2 ^ 31" by simp
  then show ?thesis using days_to_ymd_date [OF date(1)] date by auto
qed

section \<open>The order of timestamps\<close>

fun fixed_digits :: "nat \<Rightarrow> nat \<Rightarrow> string" where
  "fixed_digits 0 n = []"
| "fixed_digits (Suc w) n = fixed_digits w (n div 10) @ [digit_char (n mod 10)]"

lemma length_fixed_digits [simp]: "length (fixed_digits w n) = w"
  by (induction w arbitrary: n) simp_all

lemma digit_char_0: "digit_char 0 = CHR ''0''"
  by code_simp

lemma fixed_digits_0: "fixed_digits w 0 = replicate w CHR ''0''"
  by (induction w) (simp_all add: digit_char_0 replicate_append_same)

lemma pad_nat_digits: "n < 10 ^ Suc w \<Longrightarrow> pad_nat (Suc w) n = fixed_digits (Suc w) n"
proof (induction w arbitrary: n)
  case 0
  then show ?case by (simp add: pad_nat_def show_nat.simps [of n])
next
  case (Suc w)
  show ?case
  proof (cases "n < 10")
    case True
    then show ?thesis
      by (simp add: pad_nat_def show_nat.simps [of n] fixed_digits_0 digit_char_0 replicate_append_same)
  next
    case False
    then have "show_nat n = show_nat (n div 10) @ [digit_char (n mod 10)]" by (subst show_nat.simps) simp
    then have "pad_nat (Suc (Suc w)) n = pad_nat (Suc w) (n div 10) @ [digit_char (n mod 10)]"
      by (simp add: pad_nat_def)
    then show ?thesis using Suc by simp
  qed
qed

lemma append_less:
  fixes xs :: "('a::linorder) list"
  shows "length xs = length ys \<Longrightarrow> xs @ us < ys @ vs \<longleftrightarrow> xs < ys \<or> xs = ys \<and> us < vs"
  by (induction xs ys rule: list_induct2) auto

lemma same_prefix_less: "xs @ us < xs @ vs \<longleftrightarrow> us < vs" for xs :: "('a::linorder) list"
  by (simp add: append_less)

lemma digit_char_less: "a < b \<Longrightarrow> b < 10 \<Longrightarrow> digit_char a < digit_char b"
  by (simp add: less_char_def)

lemma div_mod_less: "a < b \<Longrightarrow> a div k < b div k \<or> a div k = b div k \<and> a mod k < b mod k" for a b k :: nat
  by (metis div_le_mono div_mult_mod_eq le_neq_implies_less less_imp_le nat_add_left_cancel_less)

lemma fixed_digits_less: "m < n \<Longrightarrow> n < 10 ^ w \<Longrightarrow> fixed_digits w m < fixed_digits w n"
proof (induction w arbitrary: m n)
  case (Suc w)
  have "n div 10 < 10 ^ w" using Suc.prems(2) by (simp add: less_mult_imp_div_less mult.commute)
  then show ?case using div_mod_less [OF Suc.prems(1), of 10] Suc.IH [of "m div 10" "n div 10"]
    by (auto simp: append_less digit_char_less)
qed simp

lemma pad_nat_less: "m < n \<Longrightarrow> n < 10 ^ Suc w \<Longrightarrow> pad_nat (Suc w) m @ us < pad_nat (Suc w) n @ vs"
  using fixed_digits_less [of m n "Suc w"] pad_nat_digits [of m w] pad_nat_digits [of n w]
  by (simp add: append_less del: fixed_digits.simps)

text \<open>The instances for the fields of a timestamp.\<close>

lemma pad_less_2: "m < n \<Longrightarrow> n < 100 \<Longrightarrow> pad_nat 2 m @ us < pad_nat 2 n @ vs"
  using pad_nat_less [of m n 1] by (simp add: numeral_2_eq_2)

lemma pad_less_4: "m < n \<Longrightarrow> n < 10000 \<Longrightarrow> pad_nat 4 m @ us < pad_nat 4 n @ vs"
  using pad_nat_less [of m n 3] by simp

lemma pad_less_6: "m < n \<Longrightarrow> n < 1000000 \<Longrightarrow> pad_nat 6 m @ us < pad_nat 6 n @ vs"
  using pad_nat_less [of m n 5] by simp

lemma sum_take_step: "i < j \<Longrightarrow> j \<le> length ds \<Longrightarrow> sum_list (take i ds) + ds ! i \<le> sum_list (take j ds)" for ds :: "nat list"
proof (induction j)
  case (Suc j)
  then show ?case by (cases "i = j") (simp_all add: take_Suc_conv_app_nth)
qed simp

lemma date_below_next: "valid_date k month day \<Longrightarrow> date_days k month day < days_before (Suc k)"
proof -
  assume v: "valid_date k month day"
  then have "month - 1 < 12" by (auto simp: valid_date_def)
  then have "sum_list (take (month - 1) (days_in_months (1970 + int k))) + month_days (1970 + int k) month
      \<le> sum_list (take 12 (days_in_months (1970 + int k)))"
    using sum_take_step [of "month - 1" 12 "days_in_months (1970 + int k)"] by (simp add: month_days_def)
  moreover have "day - 1 < month_days (1970 + int k) month" using v by (auto simp: valid_date_def)
  ultimately show ?thesis using sum_months [of "1970 + int k"] by (simp add: date_days_def)
qed

lemma date_order:
  assumes v: "valid_date k m d" "valid_date k' m' d'" and less: "date_days k m d < date_days k' m' d'"
  shows "k < k' \<or> k = k' \<and> (m < m' \<or> m = m' \<and> d < d')"
proof (rule ccontr)
  assume n: "\<not> ?thesis"
  have "\<not> k' < k"
    using date_below_next [OF v(2)] days_before_mono [of "Suc k'" k] less by (auto simp: date_days_def)
  then have k: "k' = k" using n by simp
  have "\<not> m' < m"
  proof
    assume "m' < m"
    then have "sum_list (take (m' - 1) (days_in_months (1970 + int k))) + month_days (1970 + int k) m'
        \<le> sum_list (take (m - 1) (days_in_months (1970 + int k)))"
      using v sum_take_step [of "m' - 1" "m - 1" "days_in_months (1970 + int k)"] by (auto simp: valid_date_def month_days_def k)
    then show False using less v by (auto simp: date_days_def valid_date_def k)
  qed
  then show False using n k less by (auto simp: date_days_def)
qed

lemma timestamp_mono:
  assumes late: "unat s2 div 86400 < days_before 8030" and n2: "n2 < 10 ^ 9"
    and before: "unat s1 < unat s2 \<or> s1 = s2 \<and> n1 div 1000 < n2 div 1000"
  shows "timestamp_of s1 n1 < timestamp_of s2 n2"
proof -
  obtain k1 m1 d1 where v1: "valid_date k1 m1 d1" "date_days k1 m1 d1 = unat s1 div 86400" using date_exists by blast
  obtain k2 m2 d2 where v2: "valid_date k2 m2 d2" "date_days k2 m2 d2 = unat s2 div 86400" using date_exists by blast
  have le: "unat s1 div 86400 \<le> unat s2 div 86400" using before by (auto intro: div_le_mono)
  have bound: "k < 8030" if "days_before k \<le> unat s2 div 86400" for k
    using that late days_before_mono [of 8030 k] by (cases "8030 \<le> k") auto
  have k: "k1 < 8030" "k2 < 8030"
    using bound [of k1] bound [of k2] v1(2) v2(2) le by (auto simp: date_days_def)
  have days: "days_to_ymd (unat s1 div 86400) = (1970 + int k1, m1, d1)" "days_to_ymd (unat s2 div 86400) = (1970 + int k2, m2, d2)"
    using days_to_ymd_date [OF v1(1)] days_to_ymd_date [OF v2(1)] k v1(2) v2(2) by auto
  have small: "month \<le> 12" "day \<le> 31" if "valid_date k month day" for k month day
  proof -
    show "month \<le> 12" using that by (simp add: valid_date_def)
    have "month_days (1970 + int k) month \<in> set (days_in_months (1970 + int k))"
      using that by (auto simp: month_days_def valid_date_def intro: nth_mem)
    then show "day \<le> 31" using that by (auto simp: valid_date_def days_in_months_def split: if_splits)
  qed
  let ?r1 = "unat s1 mod 86400" and ?r2 = "unat s2 mod 86400"
  have year: "pad_year (1970 + int k) = pad_nat 4 (1970 + k)" for k by (simp add: pad_year_def nat_add_distrib)
  consider "k1 < k2" | "k1 = k2" "m1 < m2" | "k1 = k2" "m1 = m2" "d1 < d2"
    | "k1 = k2" "m1 = m2" "d1 = d2" "?r1 div 3600 < ?r2 div 3600"
    | "k1 = k2" "m1 = m2" "d1 = d2" "?r1 div 3600 = ?r2 div 3600" "?r1 mod 3600 div 60 < ?r2 mod 3600 div 60"
    | "k1 = k2" "m1 = m2" "d1 = d2" "?r1 div 3600 = ?r2 div 3600" "?r1 mod 3600 div 60 = ?r2 mod 3600 div 60" "?r1 mod 60 < ?r2 mod 60"
    | "s1 = s2" "k1 = k2" "m1 = m2" "d1 = d2" "n1 div 1000 < n2 div 1000"
  proof -
    have same: "k1 = k2 \<and> m1 = m2 \<and> d1 = d2" if "unat s1 div 86400 = unat s2 div 86400" using days that by simp
    have minute: "?r1 mod 3600 mod 60 = ?r1 mod 60" "?r2 mod 3600 mod 60 = ?r2 mod 60" by (simp_all add: mod_mod_cancel)
    show ?thesis
    proof (cases "unat s1 < unat s2")
      case True
      from div_mod_less [OF this, of 86400] show ?thesis
      proof
        assume "unat s1 div 86400 < unat s2 div 86400"
        then show ?thesis using date_order [OF v1(1) v2(1)] v1(2) v2(2) that(1,2,3) by auto
      next
        assume *: "unat s1 div 86400 = unat s2 div 86400 \<and> ?r1 < ?r2"
        from div_mod_less [OF conjunct2 [OF *], of 3600] show ?thesis
        proof
          assume "?r1 div 3600 < ?r2 div 3600"
          then show ?thesis using same * that(4) by blast
        next
          assume h: "?r1 div 3600 = ?r2 div 3600 \<and> ?r1 mod 3600 < ?r2 mod 3600"
          from div_mod_less [OF conjunct2 [OF h], of 60] show ?thesis
            using same * h that(5,6) unfolding minute by blast
        qed
      qed
    next
      case False
      then show ?thesis using before days that(7) by auto
    qed
  qed
  then have "pad_nat 4 (1970 + k1) @ ''-'' @ pad_nat 2 m1 @ ''-'' @ pad_nat 2 d1 @ ''T'' @
         pad_nat 2 (?r1 div 3600) @ '':'' @ pad_nat 2 (?r1 mod 3600 div 60) @ '':'' @ pad_nat 2 (?r1 mod 60) @ ''.'' @
         pad_nat 6 (n1 div 1000) @ ''Z''
       < pad_nat 4 (1970 + k2) @ ''-'' @ pad_nat 2 m2 @ ''-'' @ pad_nat 2 d2 @ ''T'' @
         pad_nat 2 (?r2 div 3600) @ '':'' @ pad_nat 2 (?r2 mod 3600 div 60) @ '':'' @ pad_nat 2 (?r2 mod 60) @ ''.'' @
         pad_nat 6 (n2 div 1000) @ ''Z''"
  proof cases
    case 1
    then show ?thesis using k by (intro pad_less_4) auto
  next
    case 2
    then show ?thesis using small(1) [OF v2(1)] by (simp only: same_prefix_less) (intro pad_less_2, auto)
  next
    case 3
    then show ?thesis using small(2) [OF v2(1)] by (simp only: same_prefix_less) (intro pad_less_2, auto)
  next
    case 4
    moreover have "?r2 div 3600 < 100" by (simp add: less_mult_imp_div_less)
    ultimately show ?thesis by (simp only: same_prefix_less) (intro pad_less_2, auto)
  next
    case 5
    moreover have "?r2 mod 3600 div 60 < 100" by (simp add: less_mult_imp_div_less)
    ultimately show ?thesis by (simp only: same_prefix_less) (intro pad_less_2, auto)
  next
    case 6
    moreover have "?r2 mod 60 < 100" by (rule less_trans [of _ 60]) simp_all
    ultimately show ?thesis by (simp only: same_prefix_less) (intro pad_less_2, auto)
  next
    case 7
    moreover have "n2 div 1000 < 1000000" using n2 by (simp add: less_mult_imp_div_less)
    ultimately show ?thesis by (simp only: same_prefix_less) (intro pad_less_6, auto)
  qed
  then show ?thesis unfolding timestamp_of_def Let_def days prod.case year .
qed

text \<open>(C26)
  Up to the year 9999 the timestamps of log events compare as strings exactly as the times do in microseconds.\<close>

theorem timestamps_sort:
  "unat s1 div 86400 < days_before 8030 \<Longrightarrow> unat s2 div 86400 < days_before 8030 \<Longrightarrow> n1 < 10 ^ 9 \<Longrightarrow> n2 < 10 ^ 9 \<Longrightarrow>
   timestamp_of s1 n1 < timestamp_of s2 n2 \<longleftrightarrow> unat s1 < unat s2 \<or> s1 = s2 \<and> n1 div 1000 < n2 div 1000"
proof -
  assume a: "unat s1 div 86400 < days_before 8030" "unat s2 div 86400 < days_before 8030" "n1 < 10 ^ 9" "n2 < 10 ^ 9"
  consider "unat s1 < unat s2 \<or> s1 = s2 \<and> n1 div 1000 < n2 div 1000" | "unat s2 < unat s1 \<or> s2 = s1 \<and> n2 div 1000 < n1 div 1000"
    | "s1 = s2" "n1 div 1000 = n2 div 1000"
    by (metis linorder_less_linear unsigned_word_eqI)
  then show ?thesis
  proof cases
    case 1
    then show ?thesis using timestamp_mono [OF a(2,4)] by blast
  next
    case 2
    then have "timestamp_of s2 n2 < timestamp_of s1 n1" by (rule timestamp_mono [OF a(1,3)])
    then show ?thesis using 2 by auto
  next
    case 3
    then show ?thesis by (simp add: timestamp_of_def Let_def)
  qed
qed

theorem timestamps_sort_witness:
  "timestamp_of 1 1000 < timestamp_of 1 2000 \<and> \<not> timestamp_of 1 1500 < timestamp_of 1 1000"
proof -
  have "days_before 1 \<le> days_before 8030" by (rule days_before_mono) simp
  then have "unat (1 :: u64) div 86400 < days_before 8030" by (simp add: days_in_year_def split: if_splits)
  then show ?thesis
    using timestamps_sort [of 1 1 1000 2000] timestamps_sort [of 1 1 1500 1000] by simp
qed

end
