(* ===== verification/Trace_Context.thy ===== *)
theory Trace_Context
  imports Log_Schema
begin

text \<open>
  Tracing: identifiers and contexts of spans with the manager of active spans (\<open>abi/src/tracing_mod/span.rs\<close>), the headers
  of W3C trace contexts (\<open>context.rs\<close>), sampling and exporters (\<open>opentelemetry.rs\<close>, \<open>exporter.rs\<close>), and the tracing context of
  a thread with its scopes (\<open>abi/src/logging/correlation.rs\<close>).

  Random numbers and clock readings are arguments. A span is a handle to a cell of a store, as its copies share their
  state. The type of \<open>f64\<close> and the rounding of a sampling ratio to a percentage are parameters. The JSON transport of
  contexts is left out.
\<close>

section \<open>Identifiers\<close>

datatype TracingError =
    InitializationFailed string | SpanNotFound string | InvalidContext string | ExporterError string | MetricError string

definition is_ascii_hexdigit :: "char \<Rightarrow> bool" where
  "is_ascii_hexdigit c \<longleftrightarrow> is_ascii_digit c \<or> of_char c \<in> {65..70::nat} \<or> of_char c \<in> {97..102::nat}"

type_synonym TraceId = string
type_synonym SpanId = string

definition TraceId_new :: "u64 \<Rightarrow> u64 \<Rightarrow> TraceId" where
  "TraceId_new part1 part2 = pad_hex 16 (unat part1) @ pad_hex 16 (unat part2)"

definition TraceId_from_string :: "string \<Rightarrow> TracingError + TraceId" where
  "TraceId_from_string s =
     (if length s \<noteq> 32 \<or> \<not> list_all is_ascii_hexdigit s then Err (InvalidContext ''Trace ID must be 32 hex characters'')
      else Ok s)"

definition SpanId_new :: "u64 \<Rightarrow> SpanId" where
  "SpanId_new v = pad_hex 16 (unat v)"

definition SpanId_from_string :: "string \<Rightarrow> TracingError + SpanId" where
  "SpanId_from_string s =
     (if length s \<noteq> 16 \<or> \<not> list_all is_ascii_hexdigit s then Err (InvalidContext ''Span ID must be 16 hex characters'')
      else Ok s)"

record SpanContext =
  sx_trace_id :: TraceId
  sx_span_id :: SpanId
  sx_parent_span_id :: "SpanId option"
  sx_sampled :: bool

definition span_root :: "u64 \<Rightarrow> u64 \<Rightarrow> u64 \<Rightarrow> SpanContext" where
  "span_root r1 r2 r3 =
     \<lparr>sx_trace_id = TraceId_new r1 r2, sx_span_id = SpanId_new r3, sx_parent_span_id = None, sx_sampled = True\<rparr>"

definition span_child :: "u64 \<Rightarrow> SpanContext \<Rightarrow> SpanContext" where
  "span_child r parent =
     \<lparr>sx_trace_id = sx_trace_id parent, sx_span_id = SpanId_new r, sx_parent_span_id = Some (sx_span_id parent),
      sx_sampled = sx_sampled parent\<rparr>"

definition span_to_traceparent :: "SpanContext \<Rightarrow> string" where
  "span_to_traceparent c =
     ''00-'' @ sx_trace_id c @ ''-'' @ sx_span_id c @ ''-'' @ (if sx_sampled c then ''01'' else ''00'')"

definition span_from_traceparent :: "string \<Rightarrow> TracingError + SpanContext" where
  "span_from_traceparent traceparent =
     (case split_on CHR ''-'' traceparent of
        [p0, p1, p2, p3] \<Rightarrow>
          result_bind (TraceId_from_string p1) (\<lambda>trace_id.
            result_bind (SpanId_from_string p2) (\<lambda>span_id.
              Ok \<lparr>sx_trace_id = trace_id, sx_span_id = span_id, sx_parent_span_id = None, sx_sampled = (p3 = ''01'')\<rparr>))
      | _ \<Rightarrow> Err (InvalidContext ''Invalid traceparent format''))"

section \<open>W3C trace contexts\<close>

record W3CTraceContext =
  w_version :: nat
  w_trace_id :: string
  w_parent_id :: string
  w_flags :: string
  w_trace_state :: "(string, string) hashmap"

definition hex_digit_value :: "char \<Rightarrow> nat" where
  "hex_digit_value c =
     (if is_ascii_digit c then of_char c - 48 else if of_char c < (97::nat) then of_char c - 55 else of_char c - 87)"

text \<open>\<open>u8::from_str_radix(s, 16)\<close>: an optional plus sign and digits, within a byte.\<close>

definition parse_u8_hex :: "string \<Rightarrow> nat option" where
  "parse_u8_hex s =
     (let ds = (if s \<noteq> [] \<and> hd s = CHR ''+'' then tl s else s);
          n = foldl (\<lambda>a c. 16 * a + hex_digit_value c) 0 ds
      in if ds \<noteq> [] \<and> list_all is_ascii_hexdigit ds \<and> n < 256 then Some n else None)"

definition from_traceparent :: "string \<Rightarrow> TracingError + W3CTraceContext" where
  "from_traceparent header =
     (case split_on CHR ''-'' header of
        [p0, trace_id, parent_id, flags] \<Rightarrow>
          (case parse_u8_hex p0 of
             None \<Rightarrow> Err (InvalidContext ''Invalid version'')
           | Some version \<Rightarrow>
               if version \<noteq> 0 then Err (InvalidContext (''Unsupported version: '' @ show_nat version))
               else if length trace_id \<noteq> 32 \<or> \<not> list_all is_ascii_hexdigit trace_id
               then Err (InvalidContext ''Invalid trace ID: must be 32 hex characters'')
               else if length parent_id \<noteq> 16 \<or> \<not> list_all is_ascii_hexdigit parent_id
               then Err (InvalidContext ''Invalid parent ID: must be 16 hex characters'')
               else if length flags \<noteq> 2 \<or> \<not> list_all is_ascii_hexdigit flags
               then Err (InvalidContext ''Invalid flags: must be 2 hex characters'')
               else Ok \<lparr>w_version = version, w_trace_id = trace_id, w_parent_id = parent_id, w_flags = flags, w_trace_state = []\<rparr>)
      | _ \<Rightarrow> Err (InvalidContext ''Invalid traceparent format: expected 4 parts''))"

definition to_traceparent :: "W3CTraceContext \<Rightarrow> string" where
  "to_traceparent w = pad_hex 2 (w_version w) @ ''-'' @ w_trace_id w @ ''-'' @ w_parent_id w @ ''-'' @ w_flags w"

fun tracestate_loop :: "string list \<Rightarrow> W3CTraceContext \<Rightarrow> TracingError + W3CTraceContext" where
  "tracestate_loop [] w = Ok w"
| "tracestate_loop (e # es) w =
     (let entry = trim e
      in if entry = [] then tracestate_loop es w
         else (case split_once CHR ''='' entry of
                 None \<Rightarrow> Err (InvalidContext (''Invalid tracestate entry: '' @ entry))
               | Some (k, v) \<Rightarrow> tracestate_loop es (w\<lparr>w_trace_state := hm_insert k v (w_trace_state w)\<rparr>)))"

definition with_tracestate :: "string \<Rightarrow> W3CTraceContext \<Rightarrow> TracingError + W3CTraceContext" where
  "with_tracestate header w = (if header = [] then Ok w else tracestate_loop (split_on CHR '','' header) w)"

definition to_tracestate :: "W3CTraceContext \<Rightarrow> string" where
  "to_tracestate w = join '','' (map (\<lambda>(k, v). k @ ''='' @ v) (w_trace_state w))"

definition is_sampled :: "W3CTraceContext \<Rightarrow> bool" where
  "is_sampled w \<longleftrightarrow> w_flags w = ''01''"

definition set_sampled :: "bool \<Rightarrow> W3CTraceContext \<Rightarrow> W3CTraceContext" where
  "set_sampled sampled w = w\<lparr>w_flags := (if sampled then ''01'' else ''00'')\<rparr>"

definition w3c_from_span :: "SpanContext \<Rightarrow> W3CTraceContext" where
  "w3c_from_span c =
     \<lparr>w_version = 0, w_trace_id = sx_trace_id c, w_parent_id = sx_span_id c,
      w_flags = (if sx_sampled c then ''01'' else ''00''), w_trace_state = []\<rparr>"

definition span_try_from :: "W3CTraceContext \<Rightarrow> TracingError + SpanContext" where
  "span_try_from w =
     result_bind (TraceId_from_string (w_trace_id w)) (\<lambda>trace_id.
       result_bind (SpanId_from_string (w_parent_id w)) (\<lambda>span_id.
         Ok \<lparr>sx_trace_id = trace_id, sx_span_id = span_id, sx_parent_span_id = None, sx_sampled = is_sampled w\<rparr>))"

section \<open>The tracing context of a thread\<close>

record TracingContext =
  tx_trace_id :: string
  tx_span_id :: string
  tx_parent_span_id :: "string option"
  tx_correlation_id :: "string option"
  tx_source_plugin :: "string option"

text \<open>The context of the thread and the two counters of the program.\<close>

record Tls =
  current :: "TracingContext option"
  span_counter :: u64
  trace_counter :: u64

definition generate_trace_id :: "u64 \<Rightarrow> u64 \<Rightarrow> Tls \<Rightarrow> string \<times> Tls" where
  "generate_trace_id random_part timestamp st =
     (let part1 = trace_counter st + random_part;
          part2 = timestamp + random_part * 3
      in (pad_hex 16 (unat part1) @ pad_hex 16 (unat part2), st\<lparr>trace_counter := trace_counter st + 1\<rparr>))"

definition generate_span_id :: "u64 \<Rightarrow> Tls \<Rightarrow> string \<times> Tls" where
  "generate_span_id timestamp st =
     (pad_hex 16 (unat ((span_counter st + timestamp) * 0x5851F42D4C957F2D)), st\<lparr>span_counter := span_counter st + 1\<rparr>)"

text \<open>What a new context takes from outside: a random number and two clock readings.\<close>

definition TracingContext_new :: "u64 \<Rightarrow> u64 \<Rightarrow> u64 \<Rightarrow> Tls \<Rightarrow> TracingContext \<times> Tls" where
  "TracingContext_new random t1 t2 st =
     (case generate_trace_id random t1 st of (trace_id, st1) \<Rightarrow>
        (case generate_span_id t2 st1 of (span_id, st2) \<Rightarrow>
           (\<lparr>tx_trace_id = trace_id, tx_span_id = span_id, tx_parent_span_id = None, tx_correlation_id = None,
             tx_source_plugin = None\<rparr>, st2)))"

definition context_child :: "u64 \<Rightarrow> TracingContext \<Rightarrow> Tls \<Rightarrow> TracingContext \<times> Tls" where
  "context_child t c st =
     (case generate_span_id t st of (span_id, st1) \<Rightarrow>
        (c\<lparr>tx_span_id := span_id, tx_parent_span_id := Some (tx_span_id c)\<rparr>, st1))"

definition tx_with_correlation_id :: "string \<Rightarrow> TracingContext \<Rightarrow> TracingContext" where
  "tx_with_correlation_id i c = c\<lparr>tx_correlation_id := Some i\<rparr>"

definition tx_with_source_plugin :: "string \<Rightarrow> TracingContext \<Rightarrow> TracingContext" where
  "tx_with_source_plugin p c = c\<lparr>tx_source_plugin := Some p\<rparr>"

definition set_current :: "TracingContext \<Rightarrow> Tls \<Rightarrow> Tls" where
  "set_current c st = st\<lparr>current := Some c\<rparr>"

definition clear_current :: "Tls \<Rightarrow> Tls" where
  "clear_current st = st\<lparr>current := None\<rparr>"

definition apply_to_event :: "TracingContext \<Rightarrow> 'f LogEvent \<Rightarrow> 'f LogEvent" where
  "apply_to_event c e =
     (let e1 = e\<lparr>le_trace_id := Some (tx_trace_id c), le_span_id := Some (tx_span_id c),
                 le_parent_span_id := tx_parent_span_id c, le_correlation_id := tx_correlation_id c\<rparr>
      in case tx_source_plugin c of Some p \<Rightarrow> e1\<lparr>le_plugin_id := Some p\<rparr> | None \<Rightarrow> e1)"

text \<open>A scope keeps the context that was current before it; dropping it puts that back.\<close>

type_synonym TracingScope = "TracingContext option"

definition scope_new :: "TracingContext \<Rightarrow> Tls \<Rightarrow> TracingScope \<times> Tls" where
  "scope_new c st = (current st, set_current c st)"

definition scope_drop :: "TracingScope \<Rightarrow> Tls \<Rightarrow> Tls" where
  "scope_drop previous st = (case previous of Some c \<Rightarrow> set_current c st | None \<Rightarrow> clear_current st)"

definition current_or_default :: "u64 \<Rightarrow> u64 \<Rightarrow> u64 \<Rightarrow> Tls \<Rightarrow> TracingContext \<times> Tls" where
  "current_or_default random t1 t2 st =
     (case current st of Some c \<Rightarrow> (c, st) | None \<Rightarrow> TracingContext_new random t1 t2 st)"

definition span_guard :: "u64 \<Rightarrow> u64 \<Rightarrow> u64 \<Rightarrow> u64 \<Rightarrow> string \<Rightarrow> Tls \<Rightarrow> TracingScope \<times> Tls" where
  "span_guard random t1 t2 t3 name st =
     (case current_or_default random t1 t2 st of (parent, st1) \<Rightarrow>
        (case context_child t3 parent st1 of (child, st2) \<Rightarrow> scope_new (tx_with_source_plugin name child) st2))"

definition span_guard_with_correlation :: "u64 \<Rightarrow> u64 \<Rightarrow> u64 \<Rightarrow> u64 \<Rightarrow> string \<Rightarrow> string \<Rightarrow> Tls \<Rightarrow> TracingScope \<times> Tls" where
  "span_guard_with_correlation random t1 t2 t3 name correlation_id st =
     (case current_or_default random t1 t2 st of (parent, st1) \<Rightarrow>
        (case context_child t3 parent st1 of (child, st2) \<Rightarrow>
           scope_new (tx_with_correlation_id correlation_id (tx_with_source_plugin name child)) st2))"

definition with_context :: "TracingContext \<Rightarrow> (Tls \<Rightarrow> 'r \<times> Tls) \<Rightarrow> Tls \<Rightarrow> 'r \<times> Tls" where
  "with_context c f st =
     (case scope_new c st of (scope, st1) \<Rightarrow> (case f st1 of (r, st2) \<Rightarrow> (r, scope_drop scope st2)))"

definition with_child_context :: "u64 \<Rightarrow> u64 \<Rightarrow> u64 \<Rightarrow> u64 \<Rightarrow> (TracingContext \<Rightarrow> Tls \<Rightarrow> 'r \<times> Tls) \<Rightarrow> Tls \<Rightarrow> 'r \<times> Tls" where
  "with_child_context random t1 t2 t3 f st =
     (case current_or_default random t1 t2 st of (parent, st1) \<Rightarrow>
        (case context_child t3 parent st1 of (child, st2) \<Rightarrow> with_context child (f child) st2))"

text \<open>The shared context is a cell that its copies have in common.\<close>

type_synonym SharedTracingContext = "TracingContext option"

definition shared_with_current :: "(Tls \<Rightarrow> 'r \<times> Tls) \<Rightarrow> SharedTracingContext \<Rightarrow> Tls \<Rightarrow> 'r \<times> Tls" where
  "shared_with_current f inner st = (case inner of Some c \<Rightarrow> with_context c f st | None \<Rightarrow> f st)"

section \<open>Propagation in headers\<close>

definition to_w3c :: "TracingContext \<Rightarrow> W3CTraceContext" where
  "to_w3c c = \<lparr>w_version = 0, w_trace_id = tx_trace_id c, w_parent_id = tx_span_id c, w_flags = ''01'', w_trace_state = []\<rparr>"

definition from_w3c :: "W3CTraceContext \<Rightarrow> TracingContext" where
  "from_w3c w =
     \<lparr>tx_trace_id = w_trace_id w, tx_span_id = w_parent_id w, tx_parent_span_id = None, tx_correlation_id = None,
      tx_source_plugin = None\<rparr>"

definition from_headers :: "(string, string) hashmap \<Rightarrow> TracingContext option" where
  "from_headers headers =
     (case hm_get headers ''traceparent'' of
        None \<Rightarrow> None
      | Some traceparent \<Rightarrow>
          (case from_traceparent traceparent of
             Err _ \<Rightarrow> None
           | Ok w \<Rightarrow>
               (let c = from_w3c w
                in case hm_get headers ''tracestate'' of
                     None \<Rightarrow> Some c
                   | Some tracestate \<Rightarrow>
                       (case with_tracestate tracestate w of
                          Err _ \<Rightarrow> Some c
                        | Ok w' \<Rightarrow>
                            (case hm_get (w_trace_state w') ''skylet.correlation_id'' of
                               Some i \<Rightarrow> Some (c\<lparr>tx_correlation_id := Some i\<rparr>)
                             | None \<Rightarrow> Some c)))))"

definition inject_headers :: "TracingContext \<Rightarrow> (string, string) hashmap \<Rightarrow> (string, string) hashmap" where
  "inject_headers c headers =
     (let w = to_w3c c;
          h1 = hm_insert ''traceparent'' (to_traceparent w) headers;
          w' = (case tx_correlation_id c of
                  Some i \<Rightarrow> w\<lparr>w_trace_state := hm_insert ''skylet.correlation_id'' i (w_trace_state w)\<rparr>
                | None \<Rightarrow> w);
          tracestate = to_tracestate w'
      in if tracestate \<noteq> [] then hm_insert ''tracestate'' tracestate h1 else h1)"

section \<open>Spans\<close>

datatype SpanStatus = StatusUnset | StatusOk | StatusError

record SpanEvent =
  se_name :: string
  se_timestamp :: u64
  se_attributes :: "(string, string) hashmap"

record SpanCell =
  sp_context :: SpanContext
  sp_name :: string
  sp_start_time :: nat
  sp_attributes :: "(string, string) hashmap"
  sp_events :: "SpanEvent list"
  sp_status :: SpanStatus
  sp_ended :: bool

text \<open>All spans ever made, and those that the manager tracks; a handle is a position in the store.\<close>

record SpanManager =
  sm_cells :: "SpanCell list"
  sm_spans :: "(SpanId, nat) hashmap"

definition SpanManager_new :: SpanManager where
  "SpanManager_new = \<lparr>sm_cells = [], sm_spans = []\<rparr>"

definition Span_new :: "nat \<Rightarrow> string \<Rightarrow> SpanContext \<Rightarrow> SpanManager \<Rightarrow> nat \<times> SpanManager" where
  "Span_new now name c m =
     (length (sm_cells m),
      m\<lparr>sm_cells := sm_cells m @ [\<lparr>sp_context = c, sp_name = name, sp_start_time = now, sp_attributes = [], sp_events = [],
         sp_status = StatusUnset, sp_ended = False\<rparr>]\<rparr>)"

definition update_span :: "nat \<Rightarrow> (SpanCell \<Rightarrow> SpanCell) \<Rightarrow> SpanManager \<Rightarrow> SpanManager" where
  "update_span h f m = m\<lparr>sm_cells := (sm_cells m)[h := f (sm_cells m ! h)]\<rparr>"

definition set_attribute :: "nat \<Rightarrow> string \<Rightarrow> string \<Rightarrow> SpanManager \<Rightarrow> SpanManager" where
  "set_attribute h k v m = update_span h (\<lambda>c. c\<lparr>sp_attributes := hm_insert k v (sp_attributes c)\<rparr>) m"

definition add_event_with_attributes :: "u64 \<Rightarrow> nat \<Rightarrow> string \<Rightarrow> (string, string) hashmap \<Rightarrow> SpanManager \<Rightarrow> SpanManager" where
  "add_event_with_attributes timestamp h name attributes m =
     update_span h (\<lambda>c. c\<lparr>sp_events := sp_events c @ [\<lparr>se_name = name, se_timestamp = timestamp, se_attributes = attributes\<rparr>]\<rparr>) m"

definition add_event :: "u64 \<Rightarrow> nat \<Rightarrow> string \<Rightarrow> SpanManager \<Rightarrow> SpanManager" where
  "add_event timestamp h name m = add_event_with_attributes timestamp h name [] m"

definition set_status :: "nat \<Rightarrow> SpanStatus \<Rightarrow> SpanManager \<Rightarrow> SpanManager" where
  "set_status h s m = update_span h (\<lambda>c. c\<lparr>sp_status := s\<rparr>) m"

definition end_span :: "nat \<Rightarrow> SpanManager \<Rightarrow> SpanManager" where
  "end_span h m = update_span h (\<lambda>c. c\<lparr>sp_ended := True\<rparr>) m"

definition is_ended :: "nat \<Rightarrow> SpanManager \<Rightarrow> bool" where
  "is_ended h m = sp_ended (sm_cells m ! h)"

definition register_span :: "nat \<Rightarrow> SpanManager \<Rightarrow> SpanManager" where
  "register_span h m = m\<lparr>sm_spans := hm_insert (sx_span_id (sp_context (sm_cells m ! h))) h (sm_spans m)\<rparr>"

definition get_span :: "SpanId \<Rightarrow> SpanManager \<Rightarrow> nat option" where
  "get_span i m = hm_get (sm_spans m) i"

definition remove_span :: "SpanId \<Rightarrow> SpanManager \<Rightarrow> nat option \<times> SpanManager" where
  "remove_span i m = (hm_get (sm_spans m) i, m\<lparr>sm_spans := AList.delete i (sm_spans m)\<rparr>)"

definition active_spans :: "SpanManager \<Rightarrow> nat list" where
  "active_spans m = filter (\<lambda>h. \<not> is_ended h m) (map snd (sm_spans m))"

definition span_count :: "SpanManager \<Rightarrow> nat" where
  "span_count m = length (sm_spans m)"

record SpanBuilder =
  sb_name :: string
  sb_parent_context :: "SpanContext option"
  sb_attributes :: "(string, string) hashmap"

definition SpanBuilder_new :: "string \<Rightarrow> SpanBuilder" where
  "SpanBuilder_new name = \<lparr>sb_name = name, sb_parent_context = None, sb_attributes = []\<rparr>"

definition with_parent :: "SpanContext \<Rightarrow> SpanBuilder \<Rightarrow> SpanBuilder" where
  "with_parent c b = b\<lparr>sb_parent_context := Some c\<rparr>"

definition with_attribute :: "string \<Rightarrow> string \<Rightarrow> SpanBuilder \<Rightarrow> SpanBuilder" where
  "with_attribute k v b = b\<lparr>sb_attributes := hm_insert k v (sb_attributes b)\<rparr>"

definition start_span :: "u64 \<Rightarrow> u64 \<Rightarrow> u64 \<Rightarrow> nat \<Rightarrow> SpanBuilder \<Rightarrow> SpanManager \<Rightarrow> nat \<times> SpanManager" where
  "start_span r1 r2 r3 now b m =
     (let c = (case sb_parent_context b of Some parent \<Rightarrow> span_child r3 parent | None \<Rightarrow> span_root r1 r2 r3)
      in case Span_new now (sb_name b) c m of (h, m1) \<Rightarrow>
           (h, register_span h (foldl (\<lambda>m (k, v). set_attribute h k v m) m1 (sb_attributes b))))"

section \<open>Sampling and exporting\<close>

datatype ExporterType = NoExporter | Otlp | Jaeger | CustomExporter string

record 'f ExporterConfig =
  ec_exporter_type :: ExporterType
  ec_endpoint :: "string option"
  ec_service_name :: string
  ec_sample_rate :: 'f
  ec_export_timeout_ms :: u64
  ec_batch_size :: usize
  ec_headers :: "(string, string) hashmap"

definition ExporterConfig_default :: "'f F64 \<Rightarrow> 'f ExporterConfig" where
  "ExporterConfig_default F =
     \<lparr>ec_exporter_type = NoExporter, ec_endpoint = None, ec_service_name = ''skylet'', ec_sample_rate = f_of_int F 1,
      ec_export_timeout_ms = 30000, ec_batch_size = 512, ec_headers = []\<rparr>"

definition exporter_otlp :: "'f F64 \<Rightarrow> string \<Rightarrow> 'f ExporterConfig" where
  "exporter_otlp F endpoint = (ExporterConfig_default F)\<lparr>ec_exporter_type := Otlp, ec_endpoint := Some endpoint\<rparr>"

definition exporter_jaeger :: "'f F64 \<Rightarrow> string \<Rightarrow> 'f ExporterConfig" where
  "exporter_jaeger F endpoint = (ExporterConfig_default F)\<lparr>ec_exporter_type := Jaeger, ec_endpoint := Some endpoint\<rparr>"

definition exporter_disabled :: "'f F64 \<Rightarrow> 'f ExporterConfig" where
  "exporter_disabled F = ExporterConfig_default F"

text \<open>\<open>clamp(0.0, 1.0)\<close>\<close>

definition with_sample_rate :: "'f F64 \<Rightarrow> 'f \<Rightarrow> 'f ExporterConfig \<Rightarrow> 'f ExporterConfig" where
  "with_sample_rate F rate c =
     c\<lparr>ec_sample_rate := (if f_less F rate (f_of_int F 0) then f_of_int F 0
                         else if f_less F (f_of_int F 1) rate then f_of_int F 1 else rate)\<rparr>"

datatype ExportStatus = ExportOk | ExportError

record ExportEvent =
  xe_name :: string
  xe_timestamp :: u64
  xe_attributes :: "(string, string) hashmap"

record ExportSpan =
  xs_trace_id :: string
  xs_span_id :: string
  xs_parent_span_id :: "string option"
  xs_name :: string
  xs_start_time :: u64
  xs_end_time :: u64
  xs_attributes :: "(string, string) hashmap"
  xs_events :: "ExportEvent list"
  xs_status :: ExportStatus
  xs_service_name :: string

datatype Exporter = NoOpExporter | InMemoryExporter "ExportSpan list"

fun export :: "ExportSpan list \<Rightarrow> Exporter \<Rightarrow> (TracingError + unit) \<times> Exporter" where
  "export batch NoOpExporter = (Ok (), NoOpExporter)"
| "export batch (InMemoryExporter spans) = (Ok (), InMemoryExporter (spans @ batch))"

definition create_exporter :: "'f ExporterConfig \<Rightarrow> TracingError + Exporter" where
  "create_exporter c =
     (case ec_exporter_type c of
        NoExporter \<Rightarrow> Ok NoOpExporter
      | Otlp \<Rightarrow> Ok (InMemoryExporter [])
      | Jaeger \<Rightarrow> Ok (InMemoryExporter [])
      | CustomExporter name \<Rightarrow>
          Err (ExporterError (''Custom exporter '' @ quoted name @ '' not supported in this implementation'')))"

datatype 'f SamplerConfig = AlwaysOn | AlwaysOff | TraceIdRatioBased 'f | ParentBased "'f SamplerConfig"

definition trace_hash :: "TraceId \<Rightarrow> u64" where
  "trace_hash i = foldl (\<lambda>acc c. acc * 31 + of_nat (of_char c)) 0 i"

text \<open>\<open>percent ratio\<close> is \<open>(ratio * 100.0) as u64\<close>.\<close>

fun should_sample :: "('f \<Rightarrow> u64) \<Rightarrow> 'f SamplerConfig \<Rightarrow> SpanContext \<Rightarrow> bool" where
  "should_sample percent AlwaysOn c = True"
| "should_sample percent AlwaysOff c = False"
| "should_sample percent (TraceIdRatioBased ratio) c = (trace_hash (sx_trace_id c) mod 100 < percent ratio)"
| "should_sample percent (ParentBased inner) c =
     (case inner of
        AlwaysOn \<Rightarrow> True
      | AlwaysOff \<Rightarrow> False
      | TraceIdRatioBased ratio \<Rightarrow> trace_hash (sx_trace_id c) mod 100 < percent ratio
      | ParentBased _ \<Rightarrow> True)"

section \<open>What is propagated\<close>

lemma hexdigit_no: "is_ascii_hexdigit c \<Longrightarrow> c \<noteq> CHR ''-''"
  by (auto simp: is_ascii_hexdigit_def is_ascii_digit_def)

lemma hexdigits_no: "list_all is_ascii_hexdigit s \<Longrightarrow> CHR ''-'' \<notin> set s"
  using hexdigit_no by (auto simp: list_all_iff)

lemma hex_char_hexdigit: "d < 16 \<Longrightarrow> is_ascii_hexdigit (hex_char d)"
  by (auto simp: hex_char_def is_ascii_hexdigit_def is_ascii_digit_def)

lemma pad_hex_hexdigits: "list_all is_ascii_hexdigit (pad_hex k n)"
  by (induction k arbitrary: n) (simp_all add: hex_char_hexdigit)

definition valid_ids :: "string \<Rightarrow> string \<Rightarrow> bool" where
  "valid_ids trace_id span_id \<longleftrightarrow> length trace_id = 32 \<and> list_all is_ascii_hexdigit trace_id \<and>
     length span_id = 16 \<and> list_all is_ascii_hexdigit span_id"

lemma generated_ids_valid:
  "valid_ids (tx_trace_id (fst (TracingContext_new r t1 t2 st))) (tx_span_id (fst (TracingContext_new r t1 t2 st)))"
  "valid_ids (sx_trace_id (span_root r1 r2 r3)) (sx_span_id (span_root r1 r2 r3))"
  by (simp_all add: valid_ids_def TracingContext_new_def generate_trace_id_def generate_span_id_def Let_def pad_hex_hexdigits
      span_root_def TraceId_new_def SpanId_new_def)

lemma split_four:
  "CHR ''-'' \<notin> set a \<Longrightarrow> CHR ''-'' \<notin> set b \<Longrightarrow> CHR ''-'' \<notin> set c \<Longrightarrow> CHR ''-'' \<notin> set d \<Longrightarrow>
   split_on CHR ''-'' (a @ ''-'' @ b @ ''-'' @ c @ ''-'' @ d) = [a, b, c, d]"
  by (simp add: split_on_append split_on_no_sep)

text \<open>Version 00 and flags.\<close>

lemma version_00: "pad_hex 2 0 = ''00''" "parse_u8_hex ''00'' = Some 0"
  by code_simp+

lemma traceparent_parts:
  assumes "valid_ids tid sid" "length f = 2" "list_all is_ascii_hexdigit f"
  shows "from_traceparent (''00-'' @ tid @ ''-'' @ sid @ ''-'' @ f)
      = Ok \<lparr>w_version = 0, w_trace_id = tid, w_parent_id = sid, w_flags = f, w_trace_state = []\<rparr>"
    and "span_from_traceparent (''00-'' @ tid @ ''-'' @ sid @ ''-'' @ f)
      = Ok \<lparr>sx_trace_id = tid, sx_span_id = sid, sx_parent_span_id = None, sx_sampled = (f = ''01'')\<rparr>"
proof -
  have "split_on CHR ''-'' (''00'' @ ''-'' @ tid @ ''-'' @ sid @ ''-'' @ f) = [''00'', tid, sid, f]"
    using assms by (intro split_four) (auto simp: valid_ids_def hexdigits_no)
  then have "split_on CHR ''-'' (''00-'' @ tid @ ''-'' @ sid @ ''-'' @ f) = [''00'', tid, sid, f]" by simp
  then show "from_traceparent (''00-'' @ tid @ ''-'' @ sid @ ''-'' @ f)
      = Ok \<lparr>w_version = 0, w_trace_id = tid, w_parent_id = sid, w_flags = f, w_trace_state = []\<rparr>"
    and "span_from_traceparent (''00-'' @ tid @ ''-'' @ sid @ ''-'' @ f)
      = Ok \<lparr>sx_trace_id = tid, sx_span_id = sid, sx_parent_span_id = None, sx_sampled = (f = ''01'')\<rparr>"
    using assms unfolding from_traceparent_def span_from_traceparent_def
    by (simp_all add: version_00 valid_ids_def TraceId_from_string_def SpanId_from_string_def)
qed

lemma flag_digits: "is_ascii_hexdigit CHR ''0''" "is_ascii_hexdigit CHR ''1''"
  by code_simp+

theorem span_traceparent_roundtrip:
  "valid_ids (sx_trace_id c) (sx_span_id c) \<Longrightarrow>
   span_from_traceparent (span_to_traceparent c) = Ok (c\<lparr>sx_parent_span_id := None\<rparr>) \<and>
   from_traceparent (span_to_traceparent c) = Ok (w3c_from_span c) \<and>
   span_try_from (w3c_from_span c) = Ok (c\<lparr>sx_parent_span_id := None\<rparr>)"
  using traceparent_parts [of "sx_trace_id c" "sx_span_id c" "''01''"] traceparent_parts [of "sx_trace_id c" "sx_span_id c" "''00''"]
  by (cases c) (auto simp: span_to_traceparent_def w3c_from_span_def span_try_from_def flag_digits is_sampled_def
      valid_ids_def TraceId_from_string_def SpanId_from_string_def)

text \<open>The entry with the correlation identifier.\<close>

lemma correlation_entry:
  assumes "CHR '','' \<notin> set i" "trim_end i = i"
  shows "with_tracestate (''skylet.correlation_id='' @ i) w
       = Ok (w\<lparr>w_trace_state := hm_insert ''skylet.correlation_id'' i (w_trace_state w)\<rparr>)"
proof -
  let ?e = "''skylet.correlation_id'' @ CHR ''='' # i"
  have "trim_end ?e = ?e" using assms(2) by (subst trim_end_append_solid) (simp_all add: solid_def)
  moreover have "trim_start ?e = ?e" by (rule trim_start_solid) (simp_all add: solid_def)
  ultimately have t: "trim ?e = ?e" by (simp add: trim_def)
  have o: "split_once CHR ''='' ?e = Some (''skylet.correlation_id'', i)" by (rule split_once_append) simp
  have "split_on CHR '','' ?e = [?e]" using assms(1) by (intro split_on_no_sep) simp
  then have "with_tracestate ?e w = Ok (w\<lparr>w_trace_state := hm_insert ''skylet.correlation_id'' i (w_trace_state w)\<rparr>)"
    unfolding with_tracestate_def by (simp only: tracestate_loop.simps t o Let_def) simp
  then show ?thesis by simp
qed


text \<open>
  Without a correlation identifier an old \<open>tracestate\<close> header stays, and with it the identifier of another request; one
  that contains a comma is lost.
\<close>

lemma stale_correlation:
  assumes "valid_ids (tx_trace_id c) (tx_span_id c)" "tx_correlation_id c = None"
    and "map_of headers ''tracestate'' = Some ''skylet.correlation_id=old''"
  shows "map_option tx_correlation_id (from_headers (inject_headers c headers)) = Some (Some ''old'')"
proof -
  have "from_traceparent (to_traceparent (to_w3c c)) = Ok (to_w3c c)"
    using traceparent_parts(1) [OF assms(1), of "''01''"] by (simp add: to_traceparent_def to_w3c_def version_00 flag_digits)
  moreover have "trim_end ''old'' = ''old''" by (rule trim_end_solid) (simp_all add: solid_def)
  then have "with_tracestate ''skylet.correlation_id=old'' (to_w3c c)
      = Ok (to_w3c c\<lparr>w_trace_state := hm_insert ''skylet.correlation_id'' ''old'' (w_trace_state (to_w3c c))\<rparr>)"
    using correlation_entry [of "''old''" "to_w3c c"] by simp
  ultimately show ?thesis using assms(2,3)
    by (simp add: from_headers_def inject_headers_def update_conv' Let_def to_tracestate_def to_w3c_def)
qed

lemma comma_correlation_lost: "\<exists>e. with_tracestate ''skylet.correlation_id=a,b'' w = Err e"
proof -
  have "trim ''skylet.correlation_id=a'' = ''skylet.correlation_id=a''" by (rule trim_solid) (simp_all add: solid_def)
  moreover have "trim ''b'' = ''b''" by (rule trim_solid) (simp_all add: solid_def)
  ultimately show ?thesis by (simp add: with_tracestate_def)
qed

text \<open>The version of the header is only checked by one of the two parsers.\<close>

lemma span_version_unchecked:
  "valid_ids tid sid \<Longrightarrow> span_from_traceparent (''ff-'' @ tid @ ''-'' @ sid @ ''-01'')
     = Ok \<lparr>sx_trace_id = tid, sx_span_id = sid, sx_parent_span_id = None, sx_sampled = True\<rparr> \<and>
   (\<exists>e. from_traceparent (''ff-'' @ tid @ ''-'' @ sid @ ''-01'') = Err e)"
proof -
  assume v: "valid_ids tid sid"
  have "split_on CHR ''-'' (''ff'' @ ''-'' @ tid @ ''-'' @ sid @ ''-'' @ ''01'') = [''ff'', tid, sid, ''01'']"
    using v by (intro split_four) (auto simp: valid_ids_def hexdigits_no)
  then have "split_on CHR ''-'' (''ff-'' @ tid @ ''-'' @ sid @ ''-01'') = [''ff'', tid, sid, ''01'']" by simp
  moreover have "parse_u8_hex ''ff'' = Some 255" by code_simp
  ultimately show ?thesis using v unfolding from_traceparent_def span_from_traceparent_def
    by (simp add: valid_ids_def TraceId_from_string_def SpanId_from_string_def)
qed

text \<open>A scope restores the context before it, whatever runs in it; guards that are dropped in another order do not.\<close>

lemma with_context_restores: "current (snd (with_context c f st)) = current st"
  by (simp add: with_context_def scope_new_def scope_drop_def set_current_def clear_current_def split: prod.split option.split)

lemma with_child_context_restores:
  "current (snd (with_child_context r t1 t2 t3 f st)) = current (snd (current_or_default r t1 t2 st))"
proof -
  have "current (snd (context_child t3 p s)) = current s" for p s
    by (simp add: context_child_def generate_span_id_def)
  then show ?thesis
    by (simp add: with_child_context_def with_context_restores split: prod.split) (metis snd_conv)
qed

lemma guards_out_of_order:
  "current st = None \<Longrightarrow>
   (case scope_new a st of (g1, st1) \<Rightarrow> (case scope_new b st1 of (g2, st2) \<Rightarrow> current (scope_drop g2 (scope_drop g1 st2)))) = Some a"
  by (simp add: scope_new_def scope_drop_def set_current_def clear_current_def)

text \<open>A parent-based sampler samples always when its inner sampler is parent-based, and never asks the parent.\<close>

lemma nested_parent_always_samples: "should_sample percent (ParentBased (ParentBased AlwaysOff)) c"
  by simp

lemma parent_decision_ignored: "should_sample percent (ParentBased s) (c\<lparr>sx_sampled := b\<rparr>) = should_sample percent (ParentBased s) c"
  by (cases s) simp_all

text \<open>The exporters for OTLP and Jaeger keep every span in memory.\<close>

lemma exporters_only_collect:
  "ec_exporter_type c = Otlp \<Longrightarrow>
   (case create_exporter c of Ok e \<Rightarrow> foldl (\<lambda>e b. snd (export b e)) e batches = InMemoryExporter (concat batches) | Err _ \<Rightarrow> False)"
proof -
  have "foldl (\<lambda>e b. snd (export b e)) (InMemoryExporter xs) batches = InMemoryExporter (xs @ concat batches)" for xs
    by (induction batches arbitrary: xs) simp_all
  from this [of "[]"] show "ec_exporter_type c = Otlp \<Longrightarrow> ?thesis" by (simp add: create_exporter_def)
qed

text \<open>Ending a span through any of its copies takes it out of the active ones, but not out of the manager.\<close>

lemma end_span_inactive:
  "set (map snd (sm_spans m)) \<subseteq> {..<length (sm_cells m)} \<Longrightarrow>
   set (active_spans (end_span h m)) = set (active_spans m) - {h} \<and> span_count (end_span h m) = span_count m"
proof -
  assume h: "set (map snd (sm_spans m)) \<subseteq> {..<length (sm_cells m)}"
  have "is_ended b (end_span h m) \<longleftrightarrow> b = h \<or> is_ended b m" if "b \<in> set (map snd (sm_spans m))" for b
  proof -
    have "b < length (sm_cells m)" using that h by (meson lessThan_iff subsetD)
    then show ?thesis by (cases "b = h") (simp_all add: end_span_def update_span_def is_ended_def)
  qed
  moreover have "sm_spans (end_span h m) = sm_spans m" by (simp add: end_span_def update_span_def)
  ultimately show ?thesis by (auto simp: active_spans_def span_count_def)
qed


end
