(* ===== verification/File_Tree.thy ===== *)
theory File_Tree
  imports Rust_Str
begin

text \<open>
  The part of \<open>std::fs\<close> that the packager calls, on a tree of directories: looking up a path, creating directories with
  their parents, removing a directory with what it holds, and \<open>copy_dir_recursive\<close> of
  \<open>plugin-packager/src/upgrade.rs\<close>. A path is the list of its components, counted from the root; links and \<open>..\<close> are not modelled.
  The entries of a directory are listed in the order in which \<open>read_dir\<close> yields them. An operation fails where the
  tree makes it fail, for instance if a file is where a directory is needed; that a disk is full is not modelled.
\<close>

section \<open>Trees and paths\<close>

datatype fnode = FFile "8 word list" | FDir "(string \<times> fnode) list"

definition components :: "string \<Rightarrow> string list" where
  "components p = filter (\<lambda>c. c \<noteq> [] \<and> c \<noteq> ''.'') (split_on CHR ''/'' p)"

primrec lookup_path :: "string list \<Rightarrow> fnode \<Rightarrow> fnode option" where
  "lookup_path [] t = Some t"
| "lookup_path (n # ns) t = (case t of FFile _ \<Rightarrow> None | FDir es \<Rightarrow> Option.bind (map_of es n) (lookup_path ns))"

text \<open>Replacing what is at a path that exists.\<close>

primrec put_path :: "string list \<Rightarrow> fnode \<Rightarrow> fnode \<Rightarrow> fnode" where
  "put_path [] u t = u"
| "put_path (n # ns) u t =
     (case t of
        FFile _ \<Rightarrow> t
      | FDir es \<Rightarrow> (case map_of es n of None \<Rightarrow> t | Some s \<Rightarrow> FDir (AList.update n (put_path ns u s) es)))"

text \<open>\<open>create_dir_all\<close>; \<open>None\<close> if a file is in the way, and then nothing is created.\<close>

primrec create_dirs :: "string list \<Rightarrow> fnode \<Rightarrow> fnode option" where
  "create_dirs [] t = (case t of FFile _ \<Rightarrow> None | FDir _ \<Rightarrow> Some t)"
| "create_dirs (n # ns) t =
     (case t of
        FFile _ \<Rightarrow> None
      | FDir es \<Rightarrow> map_option (\<lambda>s. FDir (AList.update n s es))
          (create_dirs ns (case map_of es n of None \<Rightarrow> FDir [] | Some s \<Rightarrow> s)))"

primrec remove_path :: "string list \<Rightarrow> fnode \<Rightarrow> fnode" where
  "remove_path [] t = FDir []"
| "remove_path (n # ns) t =
     (case t of
        FFile _ \<Rightarrow> t
      | FDir es \<Rightarrow> (case map_of es n of
            None \<Rightarrow> t
          | Some s \<Rightarrow> if ns = [] then FDir (AList.delete n es) else FDir (AList.update n (remove_path ns s) es)))"

definition path_exists :: "string list \<Rightarrow> fnode \<Rightarrow> bool" where
  "path_exists p t \<longleftrightarrow> lookup_path p t \<noteq> None"

text \<open>\<open>remove_dir_all\<close> fails on a file and on a missing path; the root is emptied but stays.\<close>

definition remove_dir_all :: "string list \<Rightarrow> fnode \<Rightarrow> bool \<times> fnode" where
  "remove_dir_all p t =
     (case lookup_path p t of Some (FDir _) \<Rightarrow> (p \<noteq> [], remove_path p t) | _ \<Rightarrow> (False, t))"

section \<open>Copying\<close>

text \<open>
  The entries of a directory are copied into a directory, whose own entries stay: directories are merged and files
  overwritten. The copy stops at the first failure, with what has been copied so far.
\<close>

fun copy_entries :: "(string \<times> fnode) list \<Rightarrow> fnode \<Rightarrow> bool \<times> fnode" where
  "copy_entries es (FFile b) = (False, FFile b)"
| "copy_entries [] (FDir ds) = (True, FDir ds)"
| "copy_entries ((n, FFile b) # es) (FDir ds) =
     (case map_of ds n of
        Some (FDir _) \<Rightarrow> (False, FDir ds)
      | _ \<Rightarrow> copy_entries es (FDir (AList.update n (FFile b) ds)))"
| "copy_entries ((n, FDir cs) # es) (FDir ds) =
     (let (ok, t) = copy_entries cs (case map_of ds n of None \<Rightarrow> FDir [] | Some s \<Rightarrow> s) in
      if ok then copy_entries es (FDir (AList.update n t ds)) else (False, FDir (AList.update n t ds)))"

text \<open>Source and destination do not lie within each other: the source is read before the first entry is written.\<close>

definition copy_dir_recursive :: "string list \<Rightarrow> string list \<Rightarrow> fnode \<Rightarrow> bool \<times> fnode" where
  "copy_dir_recursive src dst t =
     (case create_dirs dst t of
        None \<Rightarrow> (False, t)
      | Some t' \<Rightarrow>
          (case (lookup_path src t', lookup_path dst t') of
             (Some (FDir es), Some d) \<Rightarrow> (let (ok, d') = copy_entries es d in (ok, put_path dst d' t'))
           | _ \<Rightarrow> (False, t')))"

section \<open>Looking up after an operation\<close>

lemma lookup_put_same: "lookup_path p t \<noteq> None \<Longrightarrow> lookup_path p (put_path p u t) = Some u"
proof (induction p arbitrary: t)
  case (Cons n p)
  then obtain es s where "t = FDir es" "map_of es n = Some s" "lookup_path p s \<noteq> None"
    by (cases t) (auto simp: bind_eq_Some_conv)
  then show ?case using Cons.IH by (simp add: update_conv')
qed simp

lemma parallel_Cons: "(n # p) \<parallel> (m # q) \<longleftrightarrow> n \<noteq> m \<or> p \<parallel> q"
  by (auto simp: parallel_def)

lemma lookup_put_parallel: "p \<parallel> q \<Longrightarrow> lookup_path q (put_path p u t) = lookup_path q t"
proof (induction p arbitrary: q t)
  case (Cons n p)
  then obtain m q' where q: "q = m # q'" by (cases q) auto
  show ?case using Cons q by (cases t) (auto simp: parallel_Cons update_conv' split: option.splits)
qed simp

lemma create_dirs_self:
  "create_dirs p t = Some t' \<Longrightarrow>
   lookup_path p t' = Some (case lookup_path p t of None \<Rightarrow> FDir [] | Some d \<Rightarrow> d) \<and> (\<exists>es. lookup_path p t' = Some (FDir es))"
proof (induction p arbitrary: t t')
  case (Cons n p)
  then obtain es s where "t = FDir es" "t' = FDir (AList.update n s es)"
    "create_dirs p (case map_of es n of None \<Rightarrow> FDir [] | Some s \<Rightarrow> s) = Some s"
    by (auto split: fnode.splits)
  moreover have "lookup_path p (FDir []) = (if p = [] then Some (FDir []) else None)" by (cases p) simp_all
  ultimately show ?case using Cons.IH [of "case map_of es n of None \<Rightarrow> FDir [] | Some s \<Rightarrow> s" s]
    by (auto simp: update_conv' split: option.splits if_splits)
qed (auto split: fnode.splits)

lemma create_dirs_parallel: "create_dirs p t = Some t' \<Longrightarrow> p \<parallel> q \<Longrightarrow> lookup_path q t' = lookup_path q t"
proof (induction p arbitrary: q t t')
  case (Cons n p)
  then obtain es s where t: "t = FDir es" "t' = FDir (AList.update n s es)"
    "create_dirs p (case map_of es n of None \<Rightarrow> FDir [] | Some s \<Rightarrow> s) = Some s"
    by (auto split: fnode.splits)
  obtain m q' where q: "q = m # q'" using Cons.prems(2) by (cases q) auto
  show ?case
  proof (cases "n = m")
    case True
    then have par: "p \<parallel> q'" using Cons.prems(2) q by (simp add: parallel_Cons)
    then have "q' \<noteq> []" by auto
    then have "lookup_path q' (FDir []) = None" by (cases q') simp_all
    then show ?thesis using Cons.IH [OF t(3) par] True q t by (auto simp: update_conv' split: option.splits)
  qed (use q t in \<open>simp add: update_conv'\<close>)
qed (auto split: fnode.splits)

lemma remove_parallel: "p \<parallel> q \<Longrightarrow> lookup_path q (remove_path p t) = lookup_path q t"
proof (induction p arbitrary: q t)
  case (Cons n p)
  then obtain m q' where q: "q = m # q'" by (cases q) auto
  show ?case using Cons q
    by (cases t) (auto simp: parallel_Cons update_conv' delete_conv' split: option.splits)
qed simp

lemma remove_self: "p \<noteq> [] \<Longrightarrow> lookup_path p (remove_path p t) = None"
proof (induction p arbitrary: t)
  case (Cons n p)
  show ?case
  proof (cases t)
    case (FDir es)
    show ?thesis
    proof (cases "map_of es n")
      case (Some s)
      then show ?thesis using Cons.IH FDir by (simp add: update_conv' delete_conv')
    qed (simp add: FDir)
  qed simp
qed simp

lemma remove_missing: "lookup_path p t = None \<Longrightarrow> remove_path p t = t"
proof (induction p arbitrary: t)
  case (Cons n p)
  show ?case
  proof (cases t)
    case (FDir es)
    show ?thesis
    proof (cases "map_of es n")
      case (Some s)
      then have "p \<noteq> []" "remove_path p s = s" using Cons FDir by auto
      moreover have "AList.update n s es = es" using Some by (induction es) (auto split: if_splits)
      ultimately show ?thesis using FDir Some by simp
    qed (simp add: FDir)
  qed simp
qed simp

lemma create_dirs_existing: "lookup_path p t = Some (FDir es) \<Longrightarrow> create_dirs p t \<noteq> None"
proof (induction p arbitrary: t)
  case (Cons n p)
  then show ?case by (cases t) (auto simp: bind_eq_Some_conv split: option.splits)
qed simp

text \<open>What a directory can be created for, it can be created for after it was removed.\<close>

lemma create_dirs_removed: "create_dirs p t \<noteq> None \<Longrightarrow> create_dirs p (remove_path p t) \<noteq> None"
proof (induction p arbitrary: t)
  case (Cons n p)
  then show ?case by (cases t) (auto simp: update_conv' delete_conv' split: option.splits)
qed simp

section \<open>What is copied\<close>

fun wf_tree :: "fnode \<Rightarrow> bool" where
  "wf_tree (FFile b) \<longleftrightarrow> True"
| "wf_tree (FDir es) \<longleftrightarrow> distinct (map fst es) \<and> (\<forall>e\<in>set es. wf_tree (snd e))"

text \<open>Into directories that hold none of the names, everything is copied as it is.\<close>

lemma copy_entries_fresh:
  "wf_tree (FDir es) \<Longrightarrow> fst ` set es \<inter> fst ` set ds = {} \<Longrightarrow> copy_entries es (FDir ds) = (True, FDir (ds @ es))"
proof (induction es "FDir ds" arbitrary: ds rule: copy_entries.induct)
  case (3 n b es ds)
  then have "map_of ds n = None" "AList.update n (FFile b) ds = ds @ [(n, FFile b)]"
    by (auto simp: map_of_eq_None_iff hm_insert_fresh)
  with 3 show ?case by auto
next
  case (4 n cs es ds)
  then have new: "map_of ds n = None" "AList.update n (FDir cs) ds = ds @ [(n, FDir cs)]"
    by (auto simp: map_of_eq_None_iff hm_insert_fresh)
  moreover have "copy_entries cs (FDir []) = (True, FDir cs)" using 4(1) [of "[]"] 4(3) new(1) by simp
  ultimately show ?case using 4(2-4) by auto
qed simp

lemma copy_dir_fresh:
  assumes "lookup_path src t = Some (FDir es)" and "wf_tree (FDir es)"
    and "lookup_path dst t = None \<or> lookup_path dst t = Some (FDir [])" and "src \<parallel> dst" and "create_dirs dst t \<noteq> None"
  obtains t' where "copy_dir_recursive src dst t = (True, t')" "lookup_path dst t' = Some (FDir es)"
    "\<And>q. dst \<parallel> q \<Longrightarrow> lookup_path q t' = lookup_path q t"
proof -
  obtain t1 where t1: "create_dirs dst t = Some t1" using assms(5) by blast
  have dst: "lookup_path dst t1 = Some (FDir [])" using create_dirs_self [OF t1] assms(3) by auto
  have src: "lookup_path src t1 = Some (FDir es)"
    using create_dirs_parallel [OF t1] assms(1,4) by (simp add: parallel_commute)
  have "copy_dir_recursive src dst t = (True, put_path dst (FDir es) t1)"
    using copy_entries_fresh [OF assms(2), of "[]"] by (simp add: copy_dir_recursive_def t1 src dst)
  then show ?thesis
    using that lookup_put_same [of dst t1] lookup_put_parallel [of dst _ _ t1] create_dirs_parallel [OF t1] dst by simp
qed

end
