(* ===== verification/Package_Upgrade.thy ===== *)
theory Package_Upgrade
  imports File_Tree
begin

text \<open>
  Upgrades of installed plugins, \<open>plugin-packager/src/upgrade.rs\<close>: versions and which is newer, and the manager of the
  backups that a plugin is restored from. The file system is the tree of \<open>File_Tree\<close>; the clock is an
  argument, once in seconds and once as the local time that is printed into the record.
\<close>

section \<open>Versions\<close>

datatype upgrade_error =
    Bail string
  | NotANumber string
  | IoFailed
  | ClockBeforeEpoch

record SemanticVersion =
  uv_major :: u32
  uv_minor :: u32
  uv_patch :: u32
  uv_prerelease :: "string option"

definition parse_part :: "string \<Rightarrow> upgrade_error + u32" where
  "parse_part s = ok_or (NotANumber s) (parse_u32 s)"

definition SemanticVersion_parse :: "string \<Rightarrow> upgrade_error + SemanticVersion" where
  "SemanticVersion_parse s =
     (let (base, pre) = (case split_once CHR ''-'' s of Some (b, p) \<Rightarrow> (b, Some p) | None \<Rightarrow> (s, None));
          parts = split_on CHR ''.'' base
      in if length parts < 3 then Err (Bail (''Invalid version format: '' @ s))
         else result_bind (parse_part (parts ! 0)) (\<lambda>major.
              result_bind (parse_part (parts ! 1)) (\<lambda>minor.
              result_bind (parse_part (parts ! 2)) (\<lambda>patch.
                Ok \<lparr>uv_major = major, uv_minor = minor, uv_patch = patch, uv_prerelease = pre\<rparr>))))"

definition is_newer_than :: "SemanticVersion \<Rightarrow> SemanticVersion \<Rightarrow> bool" where
  "is_newer_than v w =
     (if uv_major v \<noteq> uv_major w then uv_major v > uv_major w
      else if uv_minor v \<noteq> uv_minor w then uv_minor v > uv_minor w
      else if uv_patch v \<noteq> uv_patch w then uv_patch v > uv_patch w
      else (case (uv_prerelease v, uv_prerelease w) of (None, Some _) \<Rightarrow> True | _ \<Rightarrow> False))"

definition is_breaking_change :: "SemanticVersion \<Rightarrow> SemanticVersion \<Rightarrow> bool" where
  "is_breaking_change v previous \<longleftrightarrow> uv_major v \<noteq> uv_major previous"

text \<open>The derived \<open>Ord\<close>, which compares the fields in order and has \<open>None\<close> before \<open>Some\<close>.\<close>

fun option_cmp :: "('a \<Rightarrow> 'a \<Rightarrow> ordering) \<Rightarrow> 'a option \<Rightarrow> 'a option \<Rightarrow> ordering" where
  "option_cmp c None None = OEqual"
| "option_cmp c None (Some y) = OLess"
| "option_cmp c (Some x) None = OGreater"
| "option_cmp c (Some x) (Some y) = c x y"

definition numbers_cmp :: "SemanticVersion \<Rightarrow> SemanticVersion \<Rightarrow> ordering" where
  "numbers_cmp v w = ord_then (cmp_of (uv_major v) (uv_major w))
     (ord_then (cmp_of (uv_minor v) (uv_minor w)) (cmp_of (uv_patch v) (uv_patch w)))"

definition SemanticVersion_cmp :: "SemanticVersion \<Rightarrow> SemanticVersion \<Rightarrow> ordering" where
  "SemanticVersion_cmp v w = ord_then (numbers_cmp v w) (option_cmp cmp_of (uv_prerelease v) (uv_prerelease w))"

record UpgradeInfo =
  ui_plugin :: string
  ui_current_version :: string
  ui_new_version :: string
  ui_is_breaking :: bool
  ui_available_since :: string

definition is_available :: "string \<Rightarrow> string \<Rightarrow> upgrade_error + bool" where
  "is_available current new =
     result_bind (SemanticVersion_parse current) (\<lambda>current_ver.
     result_bind (SemanticVersion_parse new) (\<lambda>new_ver. Ok (is_newer_than new_ver current_ver)))"

definition UpgradeInfo_new :: "string \<Rightarrow> string \<Rightarrow> string \<Rightarrow> string \<Rightarrow> upgrade_error + UpgradeInfo" where
  "UpgradeInfo_new local_time name current new =
     result_bind (SemanticVersion_parse current) (\<lambda>current_ver.
     result_bind (SemanticVersion_parse new) (\<lambda>new_ver.
       Ok \<lparr>ui_plugin = name, ui_current_version = current, ui_new_version = new,
           ui_is_breaking = is_breaking_change new_ver current_ver, ui_available_since = local_time\<rparr>))"

section \<open>Backups\<close>

record BackupRecord =
  br_plugin_name :: string
  br_version :: string
  br_backup_path :: string
  br_created_at :: string
  br_valid :: bool

definition BackupRecord_new :: "string \<Rightarrow> string \<Rightarrow> string \<Rightarrow> string \<Rightarrow> BackupRecord" where
  "BackupRecord_new local_time plugin_name version path =
     \<lparr>br_plugin_name = plugin_name, br_version = version, br_backup_path = path, br_created_at = local_time, br_valid = True\<rparr>"

definition invalidate :: "BackupRecord \<Rightarrow> BackupRecord" where
  "invalidate r = r\<lparr>br_valid := False\<rparr>"

record BackupManager =
  bm_backup_dir :: string
  bm_records :: "BackupRecord list"

definition BackupManager_new :: "string \<Rightarrow> fnode \<Rightarrow> (upgrade_error + BackupManager) \<times> fnode" where
  "BackupManager_new dir t =
     (case create_dirs (components dir) t of
        None \<Rightarrow> (Err IoFailed, t)
      | Some t' \<Rightarrow> (Ok \<lparr>bm_backup_dir = dir, bm_records = []\<rparr>, t'))"

definition backup_path_of :: "BackupManager \<Rightarrow> string \<Rightarrow> string \<Rightarrow> u64 \<Rightarrow> string" where
  "backup_path_of M plugin_name version timestamp =
     path_join (bm_backup_dir M) (plugin_name @ ''-'' @ version @ ''-'' @ show_u64 timestamp)"

text \<open>The clock \<open>now\<close> is \<open>None\<close> if it is before 1970.\<close>

definition backup_plugin :: "u64 option \<Rightarrow> string \<Rightarrow> string \<Rightarrow> string \<Rightarrow> string \<Rightarrow> BackupManager \<Rightarrow> fnode
    \<Rightarrow> (upgrade_error + string) \<times> BackupManager \<times> fnode" where
  "backup_plugin now local_time plugin_name version plugin_path M t =
     (if \<not> path_exists (components plugin_path) t
      then (Err (Bail (''Plugin directory does not exist: '' @ plugin_path)), M, t)
      else case now of
        None \<Rightarrow> (Err ClockBeforeEpoch, M, t)
      | Some timestamp \<Rightarrow>
          (let p = backup_path_of M plugin_name version timestamp in
           case create_dirs (components p) t of
             None \<Rightarrow> (Err IoFailed, M, t)
           | Some t1 \<Rightarrow>
               (let (ok, t2) = copy_dir_recursive (components plugin_path) (components p) t1 in
                if ok then (Ok p, M\<lparr>bm_records := bm_records M @ [BackupRecord_new local_time plugin_name version p]\<rparr>, t2)
                else (Err IoFailed, M, t2))))"

definition restore_plugin :: "string \<Rightarrow> string \<Rightarrow> BackupManager \<Rightarrow> fnode \<Rightarrow> (upgrade_error + unit) \<times> BackupManager \<times> fnode" where
  "restore_plugin backup_path restore_to M t =
     (if \<not> path_exists (components backup_path) t
      then (Err (Bail (''Backup directory does not exist: '' @ backup_path)), M, t)
      else let (ok, t1) = (if path_exists (components restore_to) t then remove_dir_all (components restore_to) t else (True, t)) in
        if \<not> ok then (Err IoFailed, M, t1)
        else let (ok, t2) = copy_dir_recursive (components backup_path) (components restore_to) t1 in
          (if ok then Ok () else Err IoFailed, M, t2))"

definition of_plugin :: "string \<Rightarrow> BackupRecord \<Rightarrow> bool" where
  "of_plugin plugin_name r \<longleftrightarrow> br_plugin_name r = plugin_name \<and> br_valid r"

definition list_backups :: "string \<Rightarrow> BackupManager \<Rightarrow> BackupRecord list" where
  "list_backups plugin_name M = filter (of_plugin plugin_name) (bm_records M)"

definition count_backups :: "BackupManager \<Rightarrow> nat" where
  "count_backups M = length (filter br_valid (bm_records M))"

text \<open>The loop over the indices of the backups to remove; an error ends it and keeps what was done.\<close>

fun prune_loop :: "nat list \<Rightarrow> nat \<Rightarrow> BackupManager \<Rightarrow> fnode \<Rightarrow> (upgrade_error + nat) \<times> BackupManager \<times> fnode" where
  "prune_loop [] removed M t = (Ok removed, M, t)"
| "prune_loop (i # is) removed M t =
     (let p = components (br_backup_path (bm_records M ! i));
          (ok, t1) = (if path_exists p t then remove_dir_all p t else (True, t))
      in if ok then prune_loop is (removed + 1) (M\<lparr>bm_records := (bm_records M)[i := invalidate (bm_records M ! i)]\<rparr>) t1
         else (Err IoFailed, M, t1))"

definition backup_indices :: "string \<Rightarrow> BackupRecord list \<Rightarrow> nat list" where
  "backup_indices plugin_name rs = filter (\<lambda>i. of_plugin plugin_name (rs ! i)) [0..<length rs]"

text \<open>The newest backup first; backups of the same second keep their order.\<close>

definition newest_first :: "BackupRecord list \<Rightarrow> nat \<Rightarrow> nat \<Rightarrow> ordering" where
  "newest_first rs a b = cmp_of (br_created_at (rs ! b)) (br_created_at (rs ! a))"

definition prune_backups :: "string \<Rightarrow> nat \<Rightarrow> BackupManager \<Rightarrow> fnode \<Rightarrow> (upgrade_error + nat) \<times> BackupManager \<times> fnode" where
  "prune_backups plugin_name keep_count M t =
     prune_loop (drop keep_count (sort_by (newest_first (bm_records M)) (backup_indices plugin_name (bm_records M)))) 0 M t"

section \<open>Results of upgrades\<close>

record UpgradeResult =
  ur_plugin_name :: string
  ur_from_version :: string
  ur_to_version :: string
  ur_success :: bool
  ur_backup_path :: "string option"
  ur_error :: "string option"

definition UpgradeResult_success :: "string \<Rightarrow> string \<Rightarrow> string \<Rightarrow> string option \<Rightarrow> UpgradeResult" where
  "UpgradeResult_success plugin_name from_version to_version backup_path =
     \<lparr>ur_plugin_name = plugin_name, ur_from_version = from_version, ur_to_version = to_version, ur_success = True,
      ur_backup_path = backup_path, ur_error = None\<rparr>"

definition UpgradeResult_failure :: "string \<Rightarrow> string \<Rightarrow> string \<Rightarrow> string \<Rightarrow> UpgradeResult" where
  "UpgradeResult_failure plugin_name from_version to_version error =
     \<lparr>ur_plugin_name = plugin_name, ur_from_version = from_version, ur_to_version = to_version, ur_success = False,
      ur_backup_path = None, ur_error = Some error\<rparr>"

section \<open>Which version is newer\<close>

text \<open>The order behind \<open>is_newer_than\<close>: the numbers, and then a release after its pre-releases.\<close>

definition upgrade_cmp :: "SemanticVersion \<Rightarrow> SemanticVersion \<Rightarrow> ordering" where
  "upgrade_cmp v w = ord_then (numbers_cmp v w) (cmp_of (uv_prerelease v = None) (uv_prerelease w = None))"

lemma numbers_ord: "rust_ord numbers_cmp"
  unfolding numbers_cmp_def
  by (rule rust_ord_then [OF rust_ord_inv_image [OF linorder_ord.rust_ord_axioms, of uv_major]
        rust_ord_then [OF rust_ord_inv_image [OF linorder_ord.rust_ord_axioms, of uv_minor]
          rust_ord_inv_image [OF linorder_ord.rust_ord_axioms, of uv_patch]]])

interpretation upgrade_ord: rust_ord upgrade_cmp
  unfolding upgrade_cmp_def
  by (rule rust_ord_then [OF numbers_ord rust_ord_inv_image [OF linorder_ord.rust_ord_axioms, of "\<lambda>v. uv_prerelease v = None"]])

lemma is_newer_iff: "is_newer_than v w \<longleftrightarrow> upgrade_cmp w v = OLess"
  by (auto simp: is_newer_than_def upgrade_cmp_def numbers_cmp_def split: option.splits)

text \<open>Upgrades can be chained and never lead back.\<close>

theorem upgrades_chain:
  "is_available a b = Ok True \<Longrightarrow> is_available b c = Ok True \<Longrightarrow> is_available a c = Ok True \<and> is_available c a = Ok False"
  using upgrade_ord.cmp_less_trans upgrade_ord.cmp_greater_iff
  by (auto simp: is_available_def is_newer_iff) (metis ordering.distinct(3))+

text \<open>
  The derived order disagrees with \<open>is_newer_than\<close> on every release and its pre-releases; of two pre-releases with the
  same numbers neither is newer; further parts of a version are ignored.
\<close>

lemma derived_order_disagrees:
  "numbers_cmp v w = OEqual \<Longrightarrow> uv_prerelease v = None \<Longrightarrow> uv_prerelease w = Some p \<Longrightarrow>
   is_newer_than v w \<and> SemanticVersion_cmp v w = OLess"
  using rust_ord.cmp_equal_sym [OF numbers_ord, of v w]
  by (simp add: is_newer_iff upgrade_cmp_def SemanticVersion_cmp_def)

lemma prereleases_never_newer:
  "numbers_cmp v w = OEqual \<Longrightarrow> uv_prerelease v \<noteq> None \<Longrightarrow> uv_prerelease w \<noteq> None \<Longrightarrow> \<not> is_newer_than v w"
  by (auto simp: is_newer_than_def numbers_cmp_def)

lemma fourth_part_ignored: "SemanticVersion_parse ''1.2.3.4'' = SemanticVersion_parse ''1.2.3''"
  by (simp add: SemanticVersion_parse_def)

lemma SemanticVersion_parse_numbers:
  "SemanticVersion_parse (show_nat (unat a) @ ''.'' @ show_nat (unat b) @ ''.'' @ show_nat (unat c)) =
     Ok \<lparr>uv_major = a, uv_minor = b, uv_patch = c, uv_prerelease = None\<rparr>"
proof -
  let ?ps = "[show_nat (unat a), show_nat (unat b), show_nat (unat c)]"
  have plain: "CHR ''-'' \<notin> set (show_nat n)" "CHR ''.'' \<notin> set (show_nat n)" for n
    by (simp_all add: show_nat_no_char is_ascii_digit_def)
  have "split_on CHR ''.'' (join [CHR ''.''] ?ps) = ?ps" by (rule split_on_join) (auto simp: plain)
  then show ?thesis by (simp add: SemanticVersion_parse_def plain parse_part_def)
qed

section \<open>Backup and restore\<close>

lemma backup_copies:
  assumes backup: "backup_plugin now local_time plugin_name version path M t = (Ok p, M', t1)"
    and dir: "lookup_path (components path) t = Some (FDir es)" "wf_tree (FDir es)"
    and new: "lookup_path (components p) t = None" and apart: "components path \<parallel> components p"
  shows "lookup_path (components p) t1 = Some (FDir es)" and "\<And>q. components p \<parallel> q \<Longrightarrow> lookup_path q t1 = lookup_path q t"
proof -
  obtain ta where ta: "create_dirs (components p) t = Some ta" "copy_dir_recursive (components path) (components p) ta = (True, t1)"
    using backup by (auto simp: backup_plugin_def Let_def split: if_splits option.splits prod.splits)
  have "lookup_path (components p) ta = Some (FDir [])" using create_dirs_self [OF ta(1)] new by simp
  moreover have "lookup_path (components path) ta = Some (FDir es)"
    using create_dirs_parallel [OF ta(1)] apart dir(1) by (simp add: parallel_commute)
  ultimately obtain tb where "copy_dir_recursive (components path) (components p) ta = (True, tb)"
    "lookup_path (components p) tb = Some (FDir es)" "\<And>q. components p \<parallel> q \<Longrightarrow> lookup_path q tb = lookup_path q ta"
    using copy_dir_fresh [of "components path" ta es "components p"] dir(2) apart create_dirs_existing by (metis (no_types))
  then show "lookup_path (components p) t1 = Some (FDir es)" "\<And>q. components p \<parallel> q \<Longrightarrow> lookup_path q t1 = lookup_path q t"
    using ta create_dirs_parallel [OF ta(1)] by auto
qed


text \<open>
  The name of a backup holds the second only: of two backups of a version in the same second the later one is
  written over the earlier one, and there are two records of one directory.
\<close>

lemma same_second_same_path:
  assumes "backup_plugin (Some s) l1 name version path1 M t = (Ok p, M1, t1)"
    and "backup_plugin (Some s) l2 name version path2 M1 t2 = (Ok q, M2, t3)"
  shows "q = p"
proof -
  have "p = backup_path_of M name version s" "bm_backup_dir M1 = bm_backup_dir M"
    using assms(1) by (auto simp: backup_plugin_def Let_def split: if_splits option.splits prod.splits)
  moreover have "q = backup_path_of M1 name version s"
    using assms(2) by (auto simp: backup_plugin_def Let_def split: if_splits option.splits prod.splits)
  ultimately show ?thesis by (simp add: backup_path_of_def)
qed

section \<open>Removing old backups\<close>

abbreviation place_of :: "BackupRecord \<Rightarrow> string list" where
  "place_of r \<equiv> components (br_backup_path r)"

text \<open>A backup whose directory can be removed: nothing, or a directory other than the root.\<close>

definition removable :: "fnode \<Rightarrow> string list \<Rightarrow> bool" where
  "removable t p \<longleftrightarrow> p \<noteq> [] \<and> (case lookup_path p t of Some (FFile _) \<Rightarrow> False | _ \<Rightarrow> True)"

lemma invalidate_place [simp]: "br_backup_path (invalidate r) = br_backup_path r"
  by (simp add: invalidate_def)

lemma list_update_place [simp]: "br_backup_path (rs[i := invalidate (rs ! i)] ! j) = br_backup_path (rs ! j)"
  by (cases "i < length rs"; cases "i = j") (auto simp: list_update_beyond)

lemma prune_loop_removes:
  "distinct is \<Longrightarrow> \<forall>i\<in>set is. i < length (bm_records M) \<and> removable t (place_of (bm_records M ! i)) \<Longrightarrow>
   \<forall>i\<in>set is. \<forall>j\<in>set is. place_of (bm_records M ! i) = place_of (bm_records M ! j) \<or> place_of (bm_records M ! i) \<parallel> place_of (bm_records M ! j) \<Longrightarrow>
   \<exists>t'. prune_loop is k M t = (Ok (k + length is),
       M\<lparr>bm_records := map (\<lambda>i. if i \<in> set is then invalidate (bm_records M ! i) else bm_records M ! i) [0..<length (bm_records M)]\<rparr>, t') \<and>
     (\<forall>i\<in>set is. lookup_path (place_of (bm_records M ! i)) t' = None) \<and>
     (\<forall>q. (\<forall>i\<in>set is. place_of (bm_records M ! i) \<parallel> q) \<longrightarrow> lookup_path q t' = lookup_path q t)"
proof (induction "is" arbitrary: k M t)
  case Nil
  show ?case by (simp add: map_nth)
next
  case (Cons i js)
  let ?rs = "bm_records M" and ?p = "place_of (bm_records M ! i)"
  let ?t = "remove_path ?p t" and ?M = "M\<lparr>bm_records := ?rs[i := invalidate (?rs ! i)]\<rparr>"
  have i: "i < length ?rs" "?p \<noteq> []" "i \<notin> set js" using Cons.prems by (auto simp: removable_def)
  have ok: "prune_loop (i # js) k M t = prune_loop js (k + 1) ?M ?t"
    using Cons.prems(2) remove_missing [of ?p t]
    by (auto simp: path_exists_def remove_dir_all_def removable_def split: option.splits fnode.splits)
  have gone: "lookup_path ?p ?t = None" using i(2) by (rule remove_self)
  have other: "place_of (?rs ! j) = ?p \<or> lookup_path (place_of (?rs ! j)) ?t = lookup_path (place_of (?rs ! j)) t" if "j \<in> set js" for j
    using that Cons.prems(3) remove_parallel [of ?p "place_of (?rs ! j)"] by force
  have "\<forall>j\<in>set js. j < length (bm_records ?M) \<and> removable ?t (place_of (bm_records ?M ! j))"
  proof
    fix j assume j: "j \<in> set js"
    then have "j < length ?rs" "removable t (place_of (?rs ! j))" using Cons.prems(2) by auto
    then show "j < length (bm_records ?M) \<and> removable ?t (place_of (bm_records ?M ! j))"
      using other [OF j] gone by (auto simp: removable_def)
  qed
  moreover have "\<forall>a\<in>set js. \<forall>b\<in>set js. place_of (bm_records ?M ! a) = place_of (bm_records ?M ! b) \<or>
      place_of (bm_records ?M ! a) \<parallel> place_of (bm_records ?M ! b)"
    using Cons.prems(3) by auto
  ultimately obtain t' where t': "prune_loop js (k + 1) ?M ?t = (Ok (k + 1 + length js),
       ?M\<lparr>bm_records := map (\<lambda>j. if j \<in> set js then invalidate (bm_records ?M ! j) else bm_records ?M ! j) [0..<length (bm_records ?M)]\<rparr>, t')"
    "\<forall>j\<in>set js. lookup_path (place_of (bm_records ?M ! j)) t' = None"
    "\<And>q. \<forall>j\<in>set js. place_of (bm_records ?M ! j) \<parallel> q \<Longrightarrow> lookup_path q t' = lookup_path q ?t"
    using Cons.IH [of ?M ?t "k + 1"] Cons.prems(1) by auto
  have "lookup_path ?p t' = None"
  proof (cases "\<exists>j\<in>set js. place_of (?rs ! j) = ?p")
    case True
    then show ?thesis using t'(2) by force
  next
    case False
    then have "\<forall>j\<in>set js. place_of (bm_records ?M ! j) \<parallel> ?p" using Cons.prems(3) by auto
    then show ?thesis using t'(3) gone by simp
  qed
  moreover have "map (\<lambda>j. if j \<in> set js then invalidate (bm_records ?M ! j) else bm_records ?M ! j) [0..<length (bm_records ?M)] =
      map (\<lambda>j. if j \<in> set (i # js) then invalidate (?rs ! j) else ?rs ! j) [0..<length ?rs]"
    using i by (auto simp: nth_list_update)
  ultimately show ?case
    using t' remove_parallel [of ?p] unfolding ok by (intro exI [of _ t']) auto
qed

definition backups_of :: "string \<Rightarrow> BackupManager \<Rightarrow> nat set" where
  "backups_of name M = {i. i < length (bm_records M) \<and> of_plugin name (bm_records M ! i)}"

lemma set_backup_indices: "set (backup_indices name (bm_records M)) = backups_of name M"
  by (auto simp: backup_indices_def backups_of_def)

theorem prune_keeps_newest:
  assumes "\<forall>i\<in>backups_of name M. removable t (place_of (bm_records M ! i))"
    and "\<forall>i\<in>backups_of name M. \<forall>j\<in>backups_of name M.
      place_of (bm_records M ! i) = place_of (bm_records M ! j) \<or> place_of (bm_records M ! i) \<parallel> place_of (bm_records M ! j)"
  shows "\<exists>K t'. prune_backups name keep M t = (Ok (card (backups_of name M) - keep),
      M\<lparr>bm_records := map (\<lambda>i. if i \<in> backups_of name M - K then invalidate (bm_records M ! i) else bm_records M ! i)
        [0..<length (bm_records M)]\<rparr>, t') \<and>
    K \<subseteq> backups_of name M \<and> card K = min keep (card (backups_of name M)) \<and>
    (\<forall>i\<in>K. \<forall>j\<in>backups_of name M - K. br_created_at (bm_records M ! j) \<le> br_created_at (bm_records M ! i)) \<and>
    (\<forall>j\<in>backups_of name M - K. lookup_path (place_of (bm_records M ! j)) t' = None) \<and>
    (\<forall>q. (\<forall>j\<in>backups_of name M - K. place_of (bm_records M ! j) \<parallel> q) \<longrightarrow> lookup_path q t' = lookup_path q t)"
proof -
  let ?rs = "bm_records M" and ?I = "backups_of name M"
  let ?is = "sort_by (newest_first (bm_records M)) (backup_indices name (bm_records M))"
  let ?K = "set (take keep ?is)"
  have ord: "rust_ord (newest_first ?rs)"
    unfolding newest_first_def by unfold_locales (auto simp: cmp_of_def split: if_splits)
  have set: "set ?is = ?I" by (simp add: set_backup_indices)
  have dist: "distinct ?is" by (intro distinct_sort_by) (simp add: backup_indices_def)
  then have card: "card ?I = length ?is" using set distinct_card by metis
  have "set ?is = ?K \<union> set (drop keep ?is)" by (metis append_take_drop_id set_append)
  moreover have "?K \<inter> set (drop keep ?is) = {}" using dist by (metis append_take_drop_id distinct_append)
  ultimately have rest: "set (drop keep ?is) = ?I - ?K" "?K \<subseteq> ?I" using set by auto
  obtain t' where "prune_loop (drop keep ?is) 0 M t = (Ok (length (drop keep ?is)),
       M\<lparr>bm_records := map (\<lambda>i. if i \<in> ?I - ?K then invalidate (?rs ! i) else ?rs ! i) [0..<length ?rs]\<rparr>, t')"
    "\<forall>j\<in>?I - ?K. lookup_path (place_of (?rs ! j)) t' = None"
    "\<forall>q. (\<forall>j\<in>?I - ?K. place_of (?rs ! j) \<parallel> q) \<longrightarrow> lookup_path q t' = lookup_path q t"
    using prune_loop_removes [of "drop keep ?is" M t 0] dist assms rest by (auto simp: backups_of_def)
  moreover have "card ?K = min keep (card ?I)" using dist card by (simp add: distinct_card)
  moreover have "br_created_at (?rs ! j) \<le> br_created_at (?rs ! i)" if "i \<in> ?K" "j \<in> ?I - ?K" for i j
  proof -
    have "sorted_wrt (\<lambda>a b. newest_first ?rs a b \<noteq> OGreater) (take keep ?is @ drop keep ?is)"
      using rust_ord.sorted_sort_by [OF ord] by simp
    then have "newest_first ?rs i j \<noteq> OGreater" using that rest by (simp only: sorted_wrt_append) blast
    then show ?thesis by (auto simp: newest_first_def)
  qed
  ultimately show ?thesis using rest card by (intro exI [of _ ?K] exI [of _ t']) (simp add: prune_backups_def)
qed

section \<open>An upgrade that is taken back\<close>

definition demo_tree :: fnode where
  "demo_tree = FDir [(''p'', FDir [(''a'', FFile [1]), (''lib'', FDir [(''b'', FFile [2, 3])])]), (''b'', FDir [])]"

definition demo_manager :: BackupManager where
  "demo_manager = \<lparr>bm_backup_dir = ''/b'', bm_records = []\<rparr>"

definition demo_backup :: "BackupManager \<times> fnode" where
  "demo_backup = snd (backup_plugin (Some 5) ''12:00'' ''p'' ''1.0.0'' ''/p'' demo_manager demo_tree)"

lemma demo_backup_run:
  "backup_plugin (Some 5) ''12:00'' ''p'' ''1.0.0'' ''/p'' demo_manager demo_tree = (Ok ''/b/p-1.0.0-5'', fst demo_backup, snd demo_backup)"
  by code_simp


definition demo_records :: BackupManager where
  "demo_records = \<lparr>bm_backup_dir = ''/b'', bm_records =
     [BackupRecord_new ''2024-01-01'' ''p'' ''1.0.0'' ''/b/x'', BackupRecord_new ''2024-01-03'' ''p'' ''1.1.0'' ''/b/y'',
      BackupRecord_new ''2024-01-02'' ''q'' ''1.0.0'' ''/b/z'']\<rparr>"

lemma demo_backups_of: "backups_of ''p'' demo_records = {0, 1}"
  by (auto simp: backups_of_def demo_records_def BackupRecord_new_def of_plugin_def less_Suc_eq nth_Cons')

theorem prune_keeps_newest_witness:
  "\<exists>K M' t'. prune_backups ''p'' 1 demo_records (FDir [(''b'', FDir [(''x'', FDir []), (''y'', FDir []), (''z'', FDir [])])]) = (Ok 1, M', t') \<and>
     card K = 1 \<and> K \<subseteq> {0, 1 :: nat}"
proof -
  let ?t = "FDir [(''b'', FDir [(''x'', FDir []), (''y'', FDir []), (''z'', FDir [])])]"
  have paths: "place_of (bm_records demo_records ! 0) = [''b'', ''x'']" "place_of (bm_records demo_records ! 1) = [''b'', ''y'']"
    by code_simp+
  have r: "\<forall>i\<in>backups_of ''p'' demo_records. removable ?t (place_of (bm_records demo_records ! i))"
    unfolding demo_backups_of ball_simps paths by (simp add: removable_def)
  have a: "\<forall>i\<in>backups_of ''p'' demo_records. \<forall>j\<in>backups_of ''p'' demo_records.
      place_of (bm_records demo_records ! i) = place_of (bm_records demo_records ! j) \<or>
      place_of (bm_records demo_records ! i) \<parallel> place_of (bm_records demo_records ! j)"
    unfolding demo_backups_of ball_simps paths by (simp add: parallel_Cons)
  from prune_keeps_newest [OF r a, of 1] obtain K M' t'
    where run: "prune_backups ''p'' 1 demo_records ?t = (Ok (card (backups_of ''p'' demo_records) - 1), M', t')"
      and K: "K \<subseteq> backups_of ''p'' demo_records" "card K = min 1 (card (backups_of ''p'' demo_records))"
    by (elim exE conjE) (rule that)
  have "card (backups_of ''p'' demo_records) = 2" unfolding demo_backups_of by simp
  then show ?thesis using run K unfolding demo_backups_of by (intro exI [of _ K] exI [of _ M'] exI [of _ t']) simp
qed

end
