(* ===== verification/Package_Composition.thy ===== *)
theory Package_Composition
  imports Rust_Str
begin

text \<open>
  Composite plugins, \<open>plugin-packager/src/composition.rs\<close>: components, the search for the components that a composite needs,
  version conflicts, validation, merging and bundles. The clock is an argument, as text or as milliseconds.
\<close>

section \<open>Components and composites\<close>

record PluginComponent =
  pc_name :: string
  pc_version :: string
  pc_required :: bool
  pc_description :: "string option"

definition PluginComponent_new :: "string \<Rightarrow> string \<Rightarrow> PluginComponent" where
  "PluginComponent_new name version = \<lparr>pc_name = name, pc_version = version, pc_required = True, pc_description = None\<rparr>"

definition component_optional :: "PluginComponent \<Rightarrow> PluginComponent" where
  "component_optional c = c\<lparr>pc_required := False\<rparr>"

definition component_with_description :: "string \<Rightarrow> PluginComponent \<Rightarrow> PluginComponent" where
  "component_with_description description c = c\<lparr>pc_description := Some description\<rparr>"

datatype ConflictResolution = Newest | Oldest | Exact | Compatible

fun ConflictResolution_as_str :: "ConflictResolution \<Rightarrow> string" where
  "ConflictResolution_as_str Newest = ''newest''"
| "ConflictResolution_as_str Oldest = ''oldest''"
| "ConflictResolution_as_str Exact = ''exact''"
| "ConflictResolution_as_str Compatible = ''compatible''"

record VersionConflict =
  vc_plugin_name :: string
  vc_versions :: "string list"
  vc_requested_by :: "string list"
  vc_resolved_version :: string
  vc_resolution_strategy :: ConflictResolution

definition VersionConflict_new :: "string \<Rightarrow> string list \<Rightarrow> string \<Rightarrow> ConflictResolution \<Rightarrow> VersionConflict" where
  "VersionConflict_new plugin_name versions resolved_version strategy =
     \<lparr>vc_plugin_name = plugin_name, vc_versions = versions, vc_requested_by = [], vc_resolved_version = resolved_version,
      vc_resolution_strategy = strategy\<rparr>"

record CompositePlugin =
  cp_name :: string
  cp_version :: string
  cp_description :: string
  cp_components :: "PluginComponent list"
  cp_transitive_dependencies :: "(string, string) hashmap"
  cp_conflict_resolution :: ConflictResolution

definition CompositePlugin_new :: "string \<Rightarrow> string \<Rightarrow> string \<Rightarrow> CompositePlugin" where
  "CompositePlugin_new name version description =
     \<lparr>cp_name = name, cp_version = version, cp_description = description, cp_components = [],
      cp_transitive_dependencies = [], cp_conflict_resolution = Newest\<rparr>"

definition add_component :: "PluginComponent \<Rightarrow> CompositePlugin \<Rightarrow> CompositePlugin" where
  "add_component c p = p\<lparr>cp_components := cp_components p @ [c]\<rparr>"

definition add_transitive_dependency :: "string \<Rightarrow> string \<Rightarrow> CompositePlugin \<Rightarrow> CompositePlugin" where
  "add_transitive_dependency name version p =
     p\<lparr>cp_transitive_dependencies := hm_insert name version (cp_transitive_dependencies p)\<rparr>"

definition required_components :: "CompositePlugin \<Rightarrow> PluginComponent list" where
  "required_components p = filter pc_required (cp_components p)"

definition optional_components :: "CompositePlugin \<Rightarrow> PluginComponent list" where
  "optional_components p = filter (\<lambda>c. \<not> pc_required c) (cp_components p)"

definition component_count :: "CompositePlugin \<Rightarrow> nat" where
  "component_count p = length (cp_components p)"

definition total_dependencies :: "CompositePlugin \<Rightarrow> nat" where
  "total_dependencies p = component_count p + length (cp_transitive_dependencies p)"

section \<open>Bundles\<close>

datatype BundleType = Standalone | Composite | Collection

fun BundleType_as_str :: "BundleType \<Rightarrow> string" where
  "BundleType_as_str Standalone = ''standalone''"
| "BundleType_as_str Composite = ''composite''"
| "BundleType_as_str Collection = ''collection''"

record BundleMetadata =
  bd_author :: string
  bd_license :: string
  bd_created_at :: string
  bd_compatible_versions :: "string list"

record PluginBundle =
  bu_name :: string
  bu_version :: string
  bu_bundle_type :: BundleType
  bu_plugins :: "string list"
  bu_metadata :: BundleMetadata

definition PluginBundle_new :: "string \<Rightarrow> string \<Rightarrow> string \<Rightarrow> BundleType \<Rightarrow> PluginBundle" where
  "PluginBundle_new local_time name version bundle_type =
     \<lparr>bu_name = name, bu_version = version, bu_bundle_type = bundle_type, bu_plugins = [],
      bu_metadata = \<lparr>bd_author = ''unknown'', bd_license = ''unknown'', bd_created_at = local_time, bd_compatible_versions = []\<rparr>\<rparr>"

definition bundle_add_plugin :: "string \<Rightarrow> PluginBundle \<Rightarrow> PluginBundle" where
  "bundle_add_plugin name b = b\<lparr>bu_plugins := bu_plugins b @ [name]\<rparr>"

definition plugin_count :: "PluginBundle \<Rightarrow> nat" where
  "plugin_count b = length (bu_plugins b)"

section \<open>The components a composite needs\<close>

record DependencyResolutionResult =
  dr_requested :: "string list"
  dr_resolved :: "(string, string) hashmap"
  dr_conflicts :: "VersionConflict list"
  dr_unresolvable :: "string list"
  dr_success :: bool

definition DependencyResolutionResult_new :: DependencyResolutionResult where
  "DependencyResolutionResult_new =
     \<lparr>dr_requested = [], dr_resolved = [], dr_conflicts = [], dr_unresolvable = [], dr_success = True\<rparr>"

definition add_conflict :: "VersionConflict \<Rightarrow> DependencyResolutionResult \<Rightarrow> DependencyResolutionResult" where
  "add_conflict c r = r\<lparr>dr_conflicts := dr_conflicts r @ [c], dr_success := False\<rparr>"

definition add_unresolvable :: "string \<Rightarrow> DependencyResolutionResult \<Rightarrow> DependencyResolutionResult" where
  "add_unresolvable name r = r\<lparr>dr_unresolvable := dr_unresolvable r @ [name], dr_success := False\<rparr>"

definition resolved_count :: "DependencyResolutionResult \<Rightarrow> nat" where
  "resolved_count r = length (dr_resolved r)"

definition graph_deps :: "(string, string list) hashmap \<Rightarrow> string \<Rightarrow> string list" where
  "graph_deps graph name = (case hm_get graph name of None \<Rightarrow> [] | Some deps \<Rightarrow> deps)"

text \<open>One component of the plugin \<open>current\<close>; the vector \<open>to_process\<close> is written from its end.\<close>

definition visit_component :: "(string, string list) hashmap \<Rightarrow> string list \<Rightarrow> PluginComponent
    \<Rightarrow> DependencyResolutionResult \<times> string list \<Rightarrow> DependencyResolutionResult \<times> string list" where
  "visit_component graph visited c =
     (\<lambda>(r, to_process).
       (r\<lparr>dr_resolved := hm_insert (pc_name c) (pc_version c) (dr_resolved r), dr_requested := dr_requested r @ [pc_name c]\<rparr>,
        rev (filter (\<lambda>d. d \<notin> set visited) (graph_deps graph (pc_name c))) @ to_process))"

definition matching_components :: "CompositePlugin \<Rightarrow> string \<Rightarrow> PluginComponent list" where
  "matching_components p current = filter (\<lambda>c. pc_name c = current) (cp_components p)"

lemma visit_component_app [simp]:
  "visit_component graph visited c (r, st) =
     (r\<lparr>dr_resolved := hm_insert (pc_name c) (pc_version c) (dr_resolved r), dr_requested := dr_requested r @ [pc_name c]\<rparr>,
      rev (filter (\<lambda>d. d \<notin> set visited) (graph_deps graph (pc_name c))) @ st)"
  by (simp add: visit_component_def)

lemma visit_all_stack:
  "set (snd (fold (visit_component graph visited) cs (r, to_process))) \<subseteq>
     set to_process \<union> \<Union> (set ` set (map snd graph))"
proof (induction cs arbitrary: r to_process)
  case (Cons c cs)
  have "set (graph_deps graph (pc_name c)) \<subseteq> \<Union> (set ` set (map snd graph))"
  proof (cases "hm_get graph (pc_name c)")
    case (Some deps)
    then have "deps \<in> set (map snd graph)" by (force dest: map_of_SomeD)
    then show ?thesis using Some by (auto simp: graph_deps_def)
  qed (simp add: graph_deps_def)
  moreover have "set (snd (fold (visit_component graph visited) (c # cs) (r, to_process))) \<subseteq>
      set (rev (filter (\<lambda>d. d \<notin> set visited) (graph_deps graph (pc_name c))) @ to_process) \<union> \<Union> (set ` set (map snd graph))"
    unfolding fold_Cons comp_def visit_component_app by (rule Cons.IH)
  ultimately show ?case by auto
qed simp

function resolve_loop :: "CompositePlugin \<Rightarrow> (string, string list) hashmap \<Rightarrow> string list \<Rightarrow> DependencyResolutionResult \<Rightarrow> string list
    \<Rightarrow> DependencyResolutionResult" where
  "resolve_loop p graph visited r [] = r"
| "resolve_loop p graph visited r (current # to_process) =
     (if current \<in> set visited then resolve_loop p graph visited r to_process
      else let (r', to_process') = fold (visit_component graph (current # visited)) (matching_components p current) (r, to_process)
        in resolve_loop p graph (current # visited) r' to_process')"
  by pat_completeness auto

termination
proof (relation "measures [\<lambda>(p, graph, visited, r, st). card ((set st \<union> \<Union> (set ` set (map snd graph))) - set visited),
    \<lambda>(p, graph, visited, r, st). length st]", goal_cases)
  case 1
  show ?case by simp
next
  case (2 p graph visited r current st)
  then have "set st \<union> \<Union> (set ` set (map snd graph)) - set visited
      = set (current # st) \<union> \<Union> (set ` set (map snd graph)) - set visited" by auto
  then show ?case by simp
next
  case (3 p graph visited r current st res r' st')
  let ?D = "\<Union> (set ` set (map snd graph))"
  have "set st' \<subseteq> set st \<union> ?D" using visit_all_stack [of graph "current # visited" "matching_components p current" r st] 3(2,3)
    by (metis snd_conv)
  then have "set st' \<union> ?D - set (current # visited) \<subset> set (current # st) \<union> ?D - set visited" using 3(1) by auto
  then have "card (set st' \<union> ?D - set (current # visited)) < card (set (current # st) \<union> ?D - set visited)"
    by (intro psubset_card_mono) auto
  then show ?case by simp
qed

definition resolve_transitive_dependencies :: "CompositePlugin \<Rightarrow> (string, string list) hashmap \<Rightarrow> DependencyResolutionResult" where
  "resolve_transitive_dependencies p graph = resolve_loop p graph [] DependencyResolutionResult_new [cp_name p]"

section \<open>Conflicts, validation, merging\<close>

definition collect_version :: "PluginComponent \<Rightarrow> (string, string list) hashmap \<Rightarrow> (string, string list) hashmap" where
  "collect_version c m =
     hm_insert (pc_name c) ((case hm_get m (pc_name c) of None \<Rightarrow> [] | Some vs \<Rightarrow> vs) @ [pc_version c]) m"

definition version_map :: "CompositePlugin \<Rightarrow> (string, string list) hashmap" where
  "version_map p = fold collect_version (cp_components p) []"

definition detect_version_conflicts :: "CompositePlugin \<Rightarrow> VersionConflict list" where
  "detect_version_conflicts p =
     map (\<lambda>(name, versions). VersionConflict_new name versions (versions ! 0) (cp_conflict_resolution p))
       (filter (\<lambda>(name, versions). length versions > 1) (version_map p))"

record ValidationResult =
  vr_valid :: bool
  vr_errors :: "string list"
  vr_warnings :: "string list"

definition ValidationResult_new :: ValidationResult where
  "ValidationResult_new = \<lparr>vr_valid = True, vr_errors = [], vr_warnings = []\<rparr>"

definition add_error :: "string \<Rightarrow> ValidationResult \<Rightarrow> ValidationResult" where
  "add_error e r = r\<lparr>vr_errors := vr_errors r @ [e], vr_valid := False\<rparr>"

definition add_warning :: "string \<Rightarrow> ValidationResult \<Rightarrow> ValidationResult" where
  "add_warning w r = r\<lparr>vr_warnings := vr_warnings r @ [w]\<rparr>"

definition is_valid :: "ValidationResult \<Rightarrow> bool" where
  "is_valid r \<longleftrightarrow> vr_valid r \<and> vr_errors r = []"

definition validate_composite :: "CompositePlugin \<Rightarrow> ValidationResult" where
  "validate_composite p =
     (let r0 = ValidationResult_new;
          r1 = (if cp_components p = [] then add_error ''Composite plugin has no components'' r0 else r0);
          conflicts = detect_version_conflicts p;
          r2 = (if conflicts \<noteq> [] then add_warning (''Found '' @ show_nat (length conflicts) @ '' version conflicts'') r1 else r1)
      in if length (required_components p) = 0 then add_warning ''No required components in composite plugin'' r2 else r2)"

definition merge_one :: "CompositePlugin \<Rightarrow> CompositePlugin \<Rightarrow> CompositePlugin" where
  "merge_one p merged =
     fold (\<lambda>(name, version). add_transitive_dependency name version) (cp_transitive_dependencies p)
       (fold add_component (cp_components p) merged)"

definition merge_composites :: "string \<Rightarrow> CompositePlugin list \<Rightarrow> string + CompositePlugin" where
  "merge_composites millis ps =
     (if ps = [] then Err ''No plugins to merge''
      else Ok (fold merge_one ps (CompositePlugin_new (''merged-'' @ millis) ''1.0.0'' ''Merged composite plugin'')))"

definition extract_components :: "CompositePlugin \<Rightarrow> PluginComponent list" where
  "extract_components p = cp_components p"

record CompositeSize =
  cz_components :: nat
  cz_required :: nat
  cz_optional :: nat
  cz_transitive_deps :: nat
  cz_total :: nat

definition calculate_size :: "CompositePlugin \<Rightarrow> CompositeSize" where
  "calculate_size p =
     \<lparr>cz_components = length (cp_components p), cz_required = length (required_components p),
      cz_optional = length (optional_components p), cz_transitive_deps = length (cp_transitive_dependencies p),
      cz_total = total_dependencies p\<rparr>"

section \<open>What is resolved\<close>

inductive needed :: "CompositePlugin \<Rightarrow> (string, string list) hashmap \<Rightarrow> string \<Rightarrow> bool" for p graph where
  itself: "needed p graph (cp_name p)"
| dependency: "needed p graph n \<Longrightarrow> matching_components p n \<noteq> [] \<Longrightarrow> d \<in> set (graph_deps graph n) \<Longrightarrow> needed p graph d"

definition last_version :: "CompositePlugin \<Rightarrow> string \<Rightarrow> string option" where
  "last_version p n = (if matching_components p n = [] then None else Some (pc_version (last (matching_components p n))))"

lemma visit_all:
  assumes "\<And>c. c \<in> set cs \<Longrightarrow> pc_name c = n"
  shows "fold (visit_component graph visited) cs (r, st) = (r', st') \<Longrightarrow>
    hm_get (dr_resolved r') = (if cs = [] then hm_get (dr_resolved r) else (hm_get (dr_resolved r))(n \<mapsto> pc_version (last cs))) \<and>
    dr_requested r' = dr_requested r @ map pc_name cs \<and> dr_conflicts r' = dr_conflicts r \<and>
    dr_unresolvable r' = dr_unresolvable r \<and> dr_success r' = dr_success r \<and>
    set st' = set st \<union> (if cs = [] then {} else set (graph_deps graph n) - set visited)"
  using assms
proof (induction cs arbitrary: r st)
  case (Cons c cs)
  have n: "pc_name c = n" "\<And>c. c \<in> set cs \<Longrightarrow> pc_name c = n" using Cons.prems(2) by auto
  have "fold (visit_component graph visited) cs
      (r\<lparr>dr_resolved := hm_insert n (pc_version c) (dr_resolved r), dr_requested := dr_requested r @ [n]\<rparr>,
       rev (filter (\<lambda>d. d \<notin> set visited) (graph_deps graph n)) @ st) = (r', st')"
    using Cons.prems(1) n(1) by simp
  from Cons.IH [OF this n(2)] show ?case using n(1) by (cases "cs = []") (auto simp: update_conv)
qed simp

lemma matching_name: "c \<in> set (matching_components p n) \<Longrightarrow> pc_name c = n"
  by (simp add: matching_components_def)

lemma resolve_loop_correct:
  "(\<forall>n\<in>set visited \<union> set st. needed p graph n) \<Longrightarrow> cp_name p \<in> set visited \<union> set st \<Longrightarrow>
   (\<forall>v\<in>set visited. matching_components p v \<noteq> [] \<longrightarrow> set (graph_deps graph v) \<subseteq> set visited \<union> set st) \<Longrightarrow>
   hm_get (dr_resolved r) = (\<lambda>n. if n \<in> set visited then last_version p n else None) \<Longrightarrow>
   hm_get (dr_resolved (resolve_loop p graph visited r st)) = (\<lambda>n. if needed p graph n then last_version p n else None) \<and>
   dr_conflicts (resolve_loop p graph visited r st) = dr_conflicts r \<and>
   dr_unresolvable (resolve_loop p graph visited r st) = dr_unresolvable r \<and>
   dr_success (resolve_loop p graph visited r st) = dr_success r"
proof (induction p graph visited r st rule: resolve_loop.induct)
  case (1 p graph visited r)
  have "n \<in> set visited" if "needed p graph n" for n
    using that 1 by (induction rule: needed.induct) auto
  then have "needed p graph n \<longleftrightarrow> n \<in> set visited" for n using 1(1) by auto
  then show ?case using 1(4) by (simp add: fun_eq_iff)
next
  case (2 p graph visited r current st)
  show ?case
  proof (cases "current \<in> set visited")
    case True
    then show ?thesis using 2(1) 2(3-6) by (auto simp: insert_absorb)
  next
    case False
    obtain r' st' where f: "fold (visit_component graph (current # visited)) (matching_components p current) (r, st) = (r', st')" by fastforce
    note v = visit_all [OF matching_name f]
    have need: "needed p graph current" using 2(3) by simp
    have "\<forall>n\<in>set (current # visited) \<union> set st'. needed p graph n"
      using v 2(3) needed.dependency [OF need] by (auto split: if_splits)
    moreover have "cp_name p \<in> set (current # visited) \<union> set st'" using v 2(4) by auto
    moreover have "\<forall>w\<in>set (current # visited). matching_components p w \<noteq> [] \<longrightarrow>
        set (graph_deps graph w) \<subseteq> set (current # visited) \<union> set st'" using v 2(5) by auto
    moreover have "hm_get (dr_resolved r') = (\<lambda>n. if n \<in> set (current # visited) then last_version p n else None)"
      using v 2(6) False by (auto simp: fun_eq_iff last_version_def)
    ultimately show ?thesis using 2(2) [OF False f [symmetric] refl] v False f by simp
  qed
qed

theorem resolve_transitive_correct:
  "let r = resolve_transitive_dependencies p graph in
   hm_get (dr_resolved r) = (\<lambda>n. if needed p graph n then last_version p n else None) \<and>
   dr_success r \<and> dr_conflicts r = [] \<and> dr_unresolvable r = []"
  using resolve_loop_correct [of "[]" "[cp_name p]" p graph DependencyResolutionResult_new]
  by (simp add: resolve_transitive_dependencies_def DependencyResolutionResult_new_def needed.itself Let_def)

text \<open>
  The search starts at the name of the composite itself and follows components only: if no component is named like the
  composite, which is the normal case, nothing is resolved, and the result says success.
\<close>

lemma nothing_resolved:
  assumes "cp_name p \<notin> pc_name ` set (cp_components p)"
  shows "dr_resolved (resolve_transitive_dependencies p graph) = [] \<and> dr_success (resolve_transitive_dependencies p graph)"
proof -
  have none: "matching_components p (cp_name p) = []" using assms by (force simp: matching_components_def filter_empty_conv)
  have "needed p graph n \<Longrightarrow> n = cp_name p" for n
    by (induction rule: needed.induct) (use none in auto)
  then have "hm_get (dr_resolved (resolve_transitive_dependencies p graph)) = (\<lambda>_. None)"
    using resolve_transitive_correct [of p graph] none by (auto simp: Let_def fun_eq_iff last_version_def)
  then show ?thesis using resolve_transitive_correct [of p graph] by (simp add: Let_def)
qed

section \<open>Which conflicts are found\<close>

definition versions_of :: "PluginComponent list \<Rightarrow> string \<Rightarrow> string list" where
  "versions_of cs n = map pc_version (filter (\<lambda>c. pc_name c = n) cs)"

lemma collect_versions:
  "distinct (hm_keys m) \<Longrightarrow> distinct (hm_keys (fold collect_version cs m)) \<and>
   hm_get (fold collect_version cs m) n =
     (if versions_of cs n = [] then hm_get m n else Some ((case hm_get m n of None \<Rightarrow> [] | Some vs \<Rightarrow> vs) @ versions_of cs n))"
proof (induction cs arbitrary: m)
  case (Cons c cs)
  have "distinct (hm_keys (collect_version c m))" using Cons.prems by (simp add: collect_version_def distinct_update)
  then show ?case using Cons.IH [of "collect_version c m"] by (auto simp: collect_version_def versions_of_def update_conv')
qed (simp add: versions_of_def)

text \<open>
  A plugin conflicts if it has more than one component, also if their versions are equal; the version that is chosen is the
  first, whatever the strategy.
\<close>

theorem conflicts_correct:
  "distinct (map vc_plugin_name (detect_version_conflicts p)) \<and>
   set (detect_version_conflicts p) =
     {VersionConflict_new n (versions_of (cp_components p) n) (versions_of (cp_components p) n ! 0) (cp_conflict_resolution p) |
        n. length (matching_components p n) > 1}"
proof -
  have d: "distinct (hm_keys (version_map p))" using collect_versions [of "[]" "cp_components p"] by (simp add: version_map_def)
  have g: "hm_get (version_map p) n = (if versions_of (cp_components p) n = [] then None else Some (versions_of (cp_components p) n))" for n
    using collect_versions [of "[]" "cp_components p" n] by (simp add: version_map_def)
  have l: "length (versions_of (cp_components p) n) = length (matching_components p n)" for n
    by (simp add: versions_of_def matching_components_def)
  have mem: "(n, vs) \<in> set (version_map p) \<and> length vs > 1 \<longleftrightarrow> vs = versions_of (cp_components p) n \<and> length (matching_components p n) > 1" for n vs
    using map_of_eq_Some_iff [OF d, of n vs] g [of n] l [of n] by (auto split: if_splits)
  have "set (detect_version_conflicts p) = (\<lambda>(n, vs). VersionConflict_new n vs (vs ! 0) (cp_conflict_resolution p)) `
      {(n, vs). vs = versions_of (cp_components p) n \<and> length (matching_components p n) > 1}"
    using mem unfolding detect_version_conflicts_def set_map set_filter by (intro arg_cong [where f = "image _"]) auto
  moreover have "map vc_plugin_name (detect_version_conflicts p) = map fst (filter (\<lambda>(n, vs). length vs > 1) (version_map p))"
    by (simp add: detect_version_conflicts_def VersionConflict_new_def comp_def case_prod_beta)
  ultimately show ?thesis using d distinct_map_filter by auto
qed

lemma validate_composite_valid: "is_valid (validate_composite p) \<longleftrightarrow> cp_components p \<noteq> []"
  by (simp add: validate_composite_def Let_def is_valid_def ValidationResult_new_def add_error_def add_warning_def)

lemma conflict_never_invalidates:
  "cp_components p \<noteq> [] \<Longrightarrow> detect_version_conflicts p \<noteq> [] \<Longrightarrow> is_valid (validate_composite p)"
  by (simp add: validate_composite_valid)

text \<open>Merging keeps every component in order, and of a dependency given more than once the version of the last composite.\<close>

lemma merge_one_components:
  "cp_components (merge_one p m) = cp_components m @ cp_components p \<and>
   hm_get (cp_transitive_dependencies (merge_one p m)) = hm_get (cp_transitive_dependencies m) ++ hm_get (rev (cp_transitive_dependencies p))"
proof -
  have comps: "cp_components (fold add_component cs q) = cp_components q @ cs \<and>
      cp_transitive_dependencies (fold add_component cs q) = cp_transitive_dependencies q" for cs q
    by (induction cs arbitrary: q) (simp_all add: add_component_def)
  have deps: "cp_components (fold (\<lambda>(n, v). add_transitive_dependency n v) ds q) = cp_components q \<and>
      hm_get (cp_transitive_dependencies (fold (\<lambda>(n, v). add_transitive_dependency n v) ds q)) =
        hm_get (cp_transitive_dependencies q) ++ hm_get (rev ds)" for ds q
  proof (induction ds arbitrary: q)
    case (Cons d ds)
    then show ?case
      by (cases d) (simp add: add_transitive_dependency_def update_conv map_add_upd_left flip: fun_upd_def)
  qed simp
  show ?thesis using comps deps by (simp add: merge_one_def)
qed

theorem merge_keeps_all:
  "ps \<noteq> [] \<Longrightarrow> \<exists>m. merge_composites millis ps = Ok m \<and> cp_components m = concat (map cp_components ps) \<and>
     hm_get (cp_transitive_dependencies m) = foldl (\<lambda>f p. f ++ hm_get (rev (cp_transitive_dependencies p))) (\<lambda>_. None) ps"
proof -
  have "cp_components (fold merge_one ps q) = cp_components q @ concat (map cp_components ps) \<and>
      hm_get (cp_transitive_dependencies (fold merge_one ps q)) =
        foldl (\<lambda>f p. f ++ hm_get (rev (cp_transitive_dependencies p))) (hm_get (cp_transitive_dependencies q)) ps" for q
    by (induction ps arbitrary: q) (simp_all add: merge_one_components)
  then show "ps \<noteq> [] \<Longrightarrow> ?thesis" by (simp add: merge_composites_def CompositePlugin_new_def)
qed

lemma merge_no_plugins: "merge_composites millis [] = Err ''No plugins to merge''"
  by (simp add: merge_composites_def)

lemma size_adds_up: "cz_required (calculate_size p) + cz_optional (calculate_size p) = cz_components (calculate_size p)"
  by (simp add: calculate_size_def required_components_def optional_components_def sum_length_filter_compl)

end
