(* ===== verification/Package_Metadata.thy ===== *)
theory Package_Metadata
  imports Rust_Str
begin

text \<open>
  What the packager knows and checks about a plugin before it is packed: ABI versions, maturity and categories with their
  validator (\<open>plugin-packager/src/abi_compat.rs\<close>), the metadata of a manifest (\<open>metadata.rs\<close>) and the validator of manifests
  (\<open>validation.rs\<close>). The parser of TOML is an argument; an error of \<open>anyhow\<close> is its message.
\<close>

section \<open>Versions, maturity, categories\<close>

datatype ABIVersion = V1 | V2 | V3

definition ABIVersion_parse :: "string \<Rightarrow> string + ABIVersion" where
  "ABIVersion_parse s =
     (if s = ''1.0'' \<or> s = ''1'' then Ok V1
      else if s = ''2.0'' \<or> s = ''2'' then Ok V2
      else if s = ''3.0'' \<or> s = ''3'' then Ok V3
      else Err (''Unknown ABI version: '' @ s))"

fun ABIVersion_as_str :: "ABIVersion \<Rightarrow> string" where
  "ABIVersion_as_str V1 = ''1.0''"
| "ABIVersion_as_str V2 = ''2.0''"
| "ABIVersion_as_str V3 = ''3.0''"

definition abi_is_compatible_with :: "ABIVersion \<Rightarrow> ABIVersion \<Rightarrow> bool" where
  "abi_is_compatible_with v w \<longleftrightarrow> v = w"

datatype MaturityLevel = Alpha | Beta | ReleaseCandidate | Stable | Deprecated

definition MaturityLevel_parse :: "string \<Rightarrow> string + MaturityLevel" where
  "MaturityLevel_parse s =
     (let l = to_lowercase s in
      if l = ''alpha'' then Ok Alpha
      else if l = ''beta'' then Ok Beta
      else if l = ''rc'' \<or> l = ''releasecandidate'' then Ok ReleaseCandidate
      else if l = ''stable'' \<or> l = ''production'' then Ok Stable
      else if l = ''deprecated'' then Ok Deprecated
      else Err (''Unknown maturity level: '' @ s))"

fun MaturityLevel_as_str :: "MaturityLevel \<Rightarrow> string" where
  "MaturityLevel_as_str Alpha = ''alpha''"
| "MaturityLevel_as_str Beta = ''beta''"
| "MaturityLevel_as_str ReleaseCandidate = ''rc''"
| "MaturityLevel_as_str Stable = ''stable''"
| "MaturityLevel_as_str Deprecated = ''deprecated''"

datatype PluginCategory =
    Utility | Database | Network | Storage | Security | Monitoring | Payment | Integration | Development | Other

fun PluginCategory_as_str :: "PluginCategory \<Rightarrow> string" where
  "PluginCategory_as_str Utility = ''utility''"
| "PluginCategory_as_str Database = ''database''"
| "PluginCategory_as_str Network = ''network''"
| "PluginCategory_as_str Storage = ''storage''"
| "PluginCategory_as_str Security = ''security''"
| "PluginCategory_as_str Monitoring = ''monitoring''"
| "PluginCategory_as_str Payment = ''payment''"
| "PluginCategory_as_str Integration = ''integration''"
| "PluginCategory_as_str Development = ''development''"
| "PluginCategory_as_str Other = ''other''"

definition PluginCategory_parse :: "string \<Rightarrow> string + PluginCategory" where
  "PluginCategory_parse s =
     (case find (\<lambda>c. PluginCategory_as_str c = to_lowercase s)
         [Utility, Database, Network, Storage, Security, Monitoring, Payment, Integration, Development, Other] of
        Some c \<Rightarrow> Ok c
      | None \<Rightarrow> Err (''Unknown plugin category: '' @ s))"

section \<open>The ABI validator\<close>

record CapabilityInfo =
  ci_name :: string
  ci_description :: "string option"
  ci_required_permission :: "string option"

record DependencyInfo =
  di_name :: string
  di_version_range :: string
  di_required :: bool
  di_service_type :: "string option"

record ResourceRequirements =
  rr_min_cpu_cores :: u32
  rr_max_cpu_cores :: u32
  rr_min_memory_mb :: u32
  rr_max_memory_mb :: u32
  rr_min_disk_mb :: u32
  rr_max_disk_mb :: u32
  rr_requires_gpu :: bool

definition ResourceRequirements_default :: ResourceRequirements where
  "ResourceRequirements_default =
     \<lparr>rr_min_cpu_cores = 1, rr_max_cpu_cores = 4, rr_min_memory_mb = 256, rr_max_memory_mb = 1024,
      rr_min_disk_mb = 100, rr_max_disk_mb = 1024, rr_requires_gpu = False\<rparr>"

record ABICompatibleInfo =
  ai_name :: string
  ai_version :: string
  ai_abi_version :: ABIVersion
  ai_skylet_version_min :: "string option"
  ai_skylet_version_max :: "string option"
  ai_maturity_level :: MaturityLevel
  ai_category :: PluginCategory
  ai_author :: "string option"
  ai_license :: "string option"
  ai_description :: "string option"
  ai_capabilities :: "CapabilityInfo list"
  ai_dependencies :: "DependencyInfo list"
  ai_resources :: ResourceRequirements

record ABIValidationResult =
  av_is_compatible :: bool
  av_warnings :: "string list"
  av_errors :: "string list"
  av_recommendations :: "string list"

definition ABIValidationResult_new :: "bool \<Rightarrow> ABIValidationResult" where
  "ABIValidationResult_new b = \<lparr>av_is_compatible = b, av_warnings = [], av_errors = [], av_recommendations = []\<rparr>"

definition av_add_warning :: "string \<Rightarrow> ABIValidationResult \<Rightarrow> ABIValidationResult" where
  "av_add_warning m r = r\<lparr>av_warnings := av_warnings r @ [m]\<rparr>"

definition av_add_error :: "string \<Rightarrow> ABIValidationResult \<Rightarrow> ABIValidationResult" where
  "av_add_error m r = r\<lparr>av_errors := av_errors r @ [m], av_is_compatible := False\<rparr>"

definition av_add_recommendation :: "string \<Rightarrow> ABIValidationResult \<Rightarrow> ABIValidationResult" where
  "av_add_recommendation m r = r\<lparr>av_recommendations := av_recommendations r @ [m]\<rparr>"

definition av_passed :: "ABIValidationResult \<Rightarrow> bool" where
  "av_passed r \<longleftrightarrow> av_is_compatible r \<and> av_errors r = []"

definition check_dependency :: "DependencyInfo \<Rightarrow> ABIValidationResult \<Rightarrow> ABIValidationResult" where
  "check_dependency d r =
     (let r1 = (if di_name d = [] then av_add_error ''Dependency with empty name found.'' r else r)
      in if di_version_range d = [] then av_add_error (''Dependency '' @ quoted (di_name d) @ '' has empty version range.'') r1 else r1)"

definition ABIValidator_validate :: "ABICompatibleInfo \<Rightarrow> ABIValidationResult" where
  "ABIValidator_validate info =
     (let r0 = ABIValidationResult_new True;
          r1 = (case ai_abi_version info of
                  V1 \<Rightarrow> av_add_warning ''ABI v1.0 is deprecated. Consider upgrading to v2.0 for new features.'' r0
                | V3 \<Rightarrow> av_add_warning ''ABI v3.0 is experimental. Some compatibility issues may occur.'' r0
                | V2 \<Rightarrow> r0);
          r2 = (case ai_maturity_level info of
                  Alpha \<Rightarrow> av_add_warning ''Plugin is marked as alpha. It may not be stable.'' r1
                | Deprecated \<Rightarrow> av_add_error ''Plugin is marked as deprecated.'' r1
                | _ \<Rightarrow> r1);
          r3 = (if ai_capabilities info = []
                then av_add_recommendation ''Plugin declares no capabilities. Add at least one capability for discoverability.'' r2 else r2);
          res = ai_resources info;
          r4 = (if rr_min_cpu_cores res > rr_max_cpu_cores res
                then av_add_error ''Resource requirement error: min_cpu_cores > max_cpu_cores'' r3 else r3);
          r5 = (if rr_min_memory_mb res > rr_max_memory_mb res
                then av_add_error ''Resource requirement error: min_memory_mb > max_memory_mb'' r4 else r4);
          r6 = (if rr_min_disk_mb res > rr_max_disk_mb res
                then av_add_error ''Resource requirement error: min_disk_mb > max_disk_mb'' r5 else r5);
          r7 = fold check_dependency (ai_dependencies info) r6;
          r8 = (if ai_license info = None
                then av_add_recommendation ''No license specified. Add a license for registry publishing.'' r7 else r7)
      in if ai_author info = None then av_add_warning ''No author specified.'' r8 else r8)"

section \<open>Metadata of manifests\<close>

record PluginRequirements =
  pr_max_concurrency :: "usize option"
  pr_min_memory_mb :: "usize option"
  pr_timeout_secs :: "u64 option"
  pr_supports_streaming :: "bool option"

record DependencyMetadata =
  dm_name :: string
  dm_version :: string
  dm_optional :: "bool option"
  dm_features :: "string list option"

record PluginMetadata =
  pm_name :: string
  pm_version :: string
  pm_abi_version :: string
  pm_description :: "string option"
  pm_authors :: "string list option"
  pm_license :: "string option"
  pm_keywords :: "string list option"
  pm_categories :: "string list option"
  pm_repository :: "string option"
  pm_homepage :: "string option"
  pm_documentation :: "string option"
  pm_capabilities :: "string list option"
  pm_requirements :: "PluginRequirements option"
  pm_dependencies :: "DependencyMetadata list option"

text \<open>The sections of a manifest as the TOML parser returns them.\<close>

record ManifestPackage =
  mp_name :: string
  mp_version :: string
  mp_abi_version :: string
  mp_description :: "string option"
  mp_authors :: "string list option"
  mp_author :: "string option"
  mp_license :: "string option"
  mp_keywords :: "string list option"
  mp_categories :: "string list option"
  mp_repository :: "string option"
  mp_homepage :: "string option"
  mp_documentation :: "string option"

record ManifestCapabilities =
  mc_handles_requests :: "bool option"
  mc_provides_health_checks :: "bool option"
  mc_supports_streaming :: "bool option"
  mc_custom :: "string list option"

record FullManifest =
  fm_package :: "ManifestPackage option"
  fm_capabilities :: "ManifestCapabilities option"
  fm_requirements :: "PluginRequirements option"
  fm_dependencies :: "DependencyMetadata list option"

definition capability_names :: "ManifestCapabilities \<Rightarrow> string list option" where
  "capability_names c =
     (let caps = (if mc_handles_requests c = Some True then [''handles_requests''] else []) @
          (if mc_provides_health_checks c = Some True then [''provides_health_checks''] else []) @
          (if mc_supports_streaming c = Some True then [''supports_streaming''] else []) @
          (case mc_custom c of Some custom \<Rightarrow> custom | None \<Rightarrow> [])
      in if caps \<noteq> [] then Some caps else None)"

definition from_manifest :: "(string \<Rightarrow> string + FullManifest) \<Rightarrow> string \<Rightarrow> string + PluginMetadata" where
  "from_manifest toml content =
     result_bind (map_err (\<lambda>_. ''parsing plugin manifest'') (toml content)) (\<lambda>m.
     result_bind (ok_or ''manifest must have [package] section'' (fm_package m)) (\<lambda>pkg.
       Ok \<lparr>pm_name = mp_name pkg, pm_version = mp_version pkg, pm_abi_version = mp_abi_version pkg,
           pm_description = mp_description pkg,
           pm_authors = (case mp_authors pkg of Some as \<Rightarrow> Some as | None \<Rightarrow> map_option (\<lambda>a. [a]) (mp_author pkg)),
           pm_license = mp_license pkg, pm_keywords = mp_keywords pkg, pm_categories = mp_categories pkg,
           pm_repository = mp_repository pkg, pm_homepage = mp_homepage pkg, pm_documentation = mp_documentation pkg,
           pm_capabilities = Option.bind (fm_capabilities m) capability_names,
           pm_requirements = fm_requirements m, pm_dependencies = fm_dependencies m\<rparr>))"

definition is_optional :: "DependencyMetadata \<Rightarrow> bool" where
  "is_optional d \<longleftrightarrow> dm_optional d = Some True"

definition metadata_deps :: "PluginMetadata \<Rightarrow> DependencyMetadata list" where
  "metadata_deps m = (case pm_dependencies m of None \<Rightarrow> [] | Some ds \<Rightarrow> ds)"

definition dependency_count :: "PluginMetadata \<Rightarrow> nat" where
  "dependency_count m = length (metadata_deps m)"

definition required_dependency_count :: "PluginMetadata \<Rightarrow> nat" where
  "required_dependency_count m = length (filter (\<lambda>d. \<not> is_optional d) (metadata_deps m))"

definition optional_dependency_count :: "PluginMetadata \<Rightarrow> nat" where
  "optional_dependency_count m = length (filter is_optional (metadata_deps m))"

definition metadata_is_valid :: "PluginMetadata \<Rightarrow> bool" where
  "metadata_is_valid m \<longleftrightarrow> trim (pm_name m) \<noteq> [] \<and> trim (pm_version m) \<noteq> [] \<and> trim (pm_abi_version m) \<noteq> []"

definition metadata_summary :: "PluginMetadata \<Rightarrow> string" where
  "metadata_summary m =
     pm_name m @ '' v'' @ pm_version m @ '' (ABI: '' @ pm_abi_version m @ '')'' @ [CHR 0x0A] @ ''  '' @
     (case pm_description m of Some d \<Rightarrow> d | None \<Rightarrow> ''No description'') @ [CHR 0x0A] @ ''  Dependencies: '' @
     show_nat (dependency_count m) @ '' (required: '' @ show_nat (required_dependency_count m) @ '', optional: '' @
     show_nat (optional_dependency_count m) @ '')''"

text \<open>The casts \<open>as u32\<close> drop the upper half, and the product wraps.\<close>

definition resources_of :: "PluginRequirements option \<Rightarrow> ResourceRequirements" where
  "resources_of reqs =
     (case reqs of
        None \<Rightarrow> ResourceRequirements_default
      | Some r \<Rightarrow>
          (let cpu = (case pr_max_concurrency r of Some n \<Rightarrow> n | None \<Rightarrow> 4);
               mem = (case pr_min_memory_mb r of Some n \<Rightarrow> n | None \<Rightarrow> 256)
           in \<lparr>rr_min_cpu_cores = 1, rr_max_cpu_cores = ucast cpu, rr_min_memory_mb = ucast mem, rr_max_memory_mb = ucast (mem * 2),
               rr_min_disk_mb = 100, rr_max_disk_mb = 1024, rr_requires_gpu = False\<rparr>))"

definition to_abi_compatible :: "PluginMetadata \<Rightarrow> string + ABICompatibleInfo" where
  "to_abi_compatible m =
     result_bind (ABIVersion_parse (pm_abi_version m)) (\<lambda>abi_version.
       Ok \<lparr>ai_name = pm_name m, ai_version = pm_version m, ai_abi_version = abi_version,
           ai_skylet_version_min = None, ai_skylet_version_max = None,
           ai_maturity_level = Alpha, ai_category = Utility,
           ai_author = (case pm_authors m of Some (a # _) \<Rightarrow> Some a | _ \<Rightarrow> None),
           ai_license = pm_license m, ai_description = pm_description m,
           ai_capabilities = map (\<lambda>c. \<lparr>ci_name = c, ci_description = None, ci_required_permission = None\<rparr>)
             (case pm_capabilities m of Some cs \<Rightarrow> cs | None \<Rightarrow> []),
           ai_dependencies = map (\<lambda>d. \<lparr>di_name = dm_name d, di_version_range = dm_version d, di_required = \<not> is_optional d,
             di_service_type = None\<rparr>) (metadata_deps m),
           ai_resources = resources_of (pm_requirements m)\<rparr>)"

definition validate_abi_compatibility :: "PluginMetadata \<Rightarrow> string + ABIValidationResult" where
  "validate_abi_compatibility m = result_bind (to_abi_compatible m) (\<lambda>info. Ok (ABIValidator_validate info))"

definition is_abi_v2_compatible :: "PluginMetadata \<Rightarrow> string + bool" where
  "is_abi_v2_compatible m = result_bind (ABIVersion_parse (pm_abi_version m)) (\<lambda>v. Ok (v = V2 \<or> v = V3))"

section \<open>The validator of manifests\<close>

datatype ValidationSeverity = VInfo | VWarning | VError | VCritical

fun ValidationSeverity_as_str :: "ValidationSeverity \<Rightarrow> string" where
  "ValidationSeverity_as_str VInfo = ''info''"
| "ValidationSeverity_as_str VWarning = ''warning''"
| "ValidationSeverity_as_str VError = ''error''"
| "ValidationSeverity_as_str VCritical = ''critical''"

definition ValidationSeverity_try_parse :: "string \<Rightarrow> ValidationSeverity option" where
  "ValidationSeverity_try_parse s = find (\<lambda>v. ValidationSeverity_as_str v = to_lowercase s) [VInfo, VWarning, VError, VCritical]"

record ValidationIssue =
  vi_field :: string
  vi_severity :: ValidationSeverity
  vi_message :: string
  vi_suggestion :: "string option"

record ValidationReport =
  vr_plugin_id :: string
  vr_plugin_version :: string
  vr_timestamp :: string
  vr_is_valid :: bool
  vr_issues :: "ValidationIssue list"
  vr_info_count :: nat
  vr_warning_count :: nat
  vr_error_count :: nat
  vr_critical_count :: nat

definition report_passed :: "ValidationReport \<Rightarrow> bool" where
  "report_passed r \<longleftrightarrow> vr_critical_count r = 0 \<and> vr_error_count r = 0"

definition passed_with_warnings :: "ValidationReport \<Rightarrow> bool" where
  "passed_with_warnings r \<longleftrightarrow> vr_critical_count r = 0 \<and> vr_error_count r = 0 \<and> vr_warning_count r > 0"

definition report_summary :: "ValidationReport \<Rightarrow> string" where
  "report_summary r =
     (if vr_critical_count r > 0 then
        ''Validation failed: '' @ show_nat (vr_critical_count r) @ '' critical, '' @ show_nat (vr_error_count r) @ '' errors''
      else if vr_error_count r > 0 then ''Validation failed: '' @ show_nat (vr_error_count r) @ '' errors''
      else if vr_warning_count r > 0 then
        ''Validation passed with warnings: '' @ show_nat (vr_warning_count r) @ '' warnings, '' @ show_nat (vr_info_count r) @ '' info''
      else ''Validation passed'')"

record ManifestRule =
  ru_field_name :: string
  ru_required :: bool
  ru_min_length :: "nat option"
  ru_max_length :: "nat option"
  ru_pattern :: "string option"
  ru_allowed_values :: "string list"
  ru_description :: string

definition rule_of :: "string \<Rightarrow> bool \<Rightarrow> nat option \<Rightarrow> nat option \<Rightarrow> string option \<Rightarrow> string list \<Rightarrow> string \<Rightarrow> ManifestRule" where
  "rule_of n req lo hi pat allowed d =
     \<lparr>ru_field_name = n, ru_required = req, ru_min_length = lo, ru_max_length = hi, ru_pattern = pat,
      ru_allowed_values = allowed, ru_description = d\<rparr>"

definition backslash :: char where
  "backslash = CHR 0x5C"

record ManifestValidator =
  mv_rules :: "(string, ManifestRule) hashmap"
  mv_max_name_length :: nat
  mv_max_description_length :: nat

definition add_default_rules :: "(string, ManifestRule) hashmap" where
  "add_default_rules =
     [(''name'', rule_of ''name'' True (Some 3) (Some 100) (Some ''^[a-z0-9_-]+$'') []
         ''Plugin name in lowercase with hyphens/underscores''),
      (''version'', rule_of ''version'' True (Some 5) (Some 20)
         (Some (''^'' @ [backslash] @ ''d+'' @ [backslash] @ ''.'' @ [backslash] @ ''d+'' @ [backslash] @ ''.'' @ [backslash] @ ''d+'')) []
         ''Semantic version (major.minor.patch)''),
      (''abi_version'', rule_of ''abi_version'' True (Some 1) (Some 10)
         (Some (''^'' @ [backslash] @ ''d+('' @ [backslash] @ ''.'' @ [backslash] @ ''d+)?$'')) [''1'', ''1.0'', ''2'', ''2.0'']
         ''ABI version (1, 1.0, 2, or 2.0)''),
      (''description'', rule_of ''description'' True (Some 10) (Some 500) None [] ''Plugin description (10-500 chars)''),
      (''author'', rule_of ''author'' False (Some 3) (Some 100) None [] ''Plugin author name''),
      (''license'', rule_of ''license'' False None (Some 50) None [''MIT'', ''Apache-2.0'', ''GPL-3.0'', ''BSD-3-Clause'']
         ''SPDX license identifier'')]"

definition ManifestValidator_new :: ManifestValidator where
  "ManifestValidator_new = \<lparr>mv_rules = add_default_rules, mv_max_name_length = 100, mv_max_description_length = 500\<rparr>"

definition issue :: "string \<Rightarrow> ValidationSeverity \<Rightarrow> string \<Rightarrow> string option \<Rightarrow> ValidationIssue" where
  "issue f sev m s = \<lparr>vi_field = f, vi_severity = sev, vi_message = m, vi_suggestion = s\<rparr>"

definition is_ascii_lowercase :: "char \<Rightarrow> bool" where
  "is_ascii_lowercase c \<longleftrightarrow> (97::nat) \<le> of_char c \<and> of_char c < (123::nat)"

definition name_char :: "char \<Rightarrow> bool" where
  "name_char c \<longleftrightarrow> is_ascii_lowercase c \<or> is_ascii_digit c \<or> c = CHR ''-'' \<or> c = CHR ''_''"

text \<open>\<open>None\<close> is the panic of a missing rule.\<close>

definition validate_name :: "ManifestValidator \<Rightarrow> string \<Rightarrow> ValidationIssue list option" where
  "validate_name V name =
     (case hm_get (mv_rules V) ''name'' of
        None \<Rightarrow> None
      | Some rule \<Rightarrow> Some
          (if name = [] then [issue ''name'' VCritical ''Plugin name is required'' (Some ''Provide a valid plugin name'')]
           else
             (case ru_min_length rule of
                Some lo \<Rightarrow> if length name < lo
                  then [issue ''name'' VError (''Name too short (minimum '' @ show_nat lo @ '' characters)'')
                    (Some ''Use a longer, more descriptive name'')] else []
              | None \<Rightarrow> []) @
             (case ru_max_length rule of
                Some hi \<Rightarrow> if length name > hi
                  then [issue ''name'' VError (''Name too long (maximum '' @ show_nat hi @ '' characters)'')
                    (Some ''Shorten the plugin name'')] else []
              | None \<Rightarrow> []) @
             (if \<not> list_all name_char name
              then [issue ''name'' VError ''Name must contain only lowercase letters, numbers, hyphens, or underscores''
                (Some ''Use only: a-z, 0-9, -, _'')] else [])))"

definition validate_version :: "string \<Rightarrow> ValidationIssue list" where
  "validate_version version =
     (if version = [] then [issue ''version'' VCritical ''Version is required'' (Some ''Provide a semantic version (e.g., 1.0.0)'')]
      else let parts = split_on CHR ''.'' version in
        (if length parts < 3
         then [issue ''version'' VError ''Version must follow semantic versioning (major.minor.patch)''
           (Some ''Use format: 1.0.0 or 1.0.0-rc1'')] else []) @
        map (\<lambda>part. issue ''version'' VError (''Version part '' @ quoted part @ '' is not numeric'') None)
          (filter (\<lambda>part. parse_u32 part = None) (take 3 parts)))"

definition validate_abi_version :: "ManifestValidator \<Rightarrow> string \<Rightarrow> ValidationIssue list option" where
  "validate_abi_version V abi_version =
     (if abi_version = [] then Some [issue ''abi_version'' VCritical ''ABI version is required'' (Some ''Specify ABI version: 1, 1.0, 2, or 2.0'')]
      else case hm_get (mv_rules V) ''abi_version'' of
        None \<Rightarrow> None
      | Some rule \<Rightarrow> Some
          (if abi_version \<notin> set (ru_allowed_values rule)
           then [issue ''abi_version'' VError (''Invalid ABI version: '' @ abi_version) (Some ''Use one of: 1, 1.0, 2, 2.0'')] else []))"

definition validate_description :: "string option \<Rightarrow> ValidationIssue list" where
  "validate_description description =
     (case description of
        None \<Rightarrow> [issue ''description'' VWarning ''Description is recommended'' (Some ''Add a description of what your plugin does'')]
      | Some desc \<Rightarrow>
          (if length desc < 10 then [issue ''description'' VWarning ''Description should be at least 10 characters''
             (Some ''Provide a more detailed description'')] else []) @
          (if length desc > 500 then [issue ''description'' VWarning ''Description is very long (>500 chars)''
             (Some ''Consider shortening the description'')] else []))"

definition severity_count :: "ValidationSeverity \<Rightarrow> ValidationIssue list \<Rightarrow> nat" where
  "severity_count s issues = length (filter (\<lambda>i. vi_severity i = s) issues)"

definition validate_manifest :: "string \<Rightarrow> ManifestValidator \<Rightarrow> string \<Rightarrow> string \<Rightarrow> string \<Rightarrow> string option \<Rightarrow> ValidationReport option" where
  "validate_manifest timestamp V name version abi_version description =
     (case (validate_name V name, validate_abi_version V abi_version) of
        (Some name_issues, Some abi_issues) \<Rightarrow>
          (let issues = name_issues @ validate_version version @ abi_issues @ validate_description description
           in Some \<lparr>vr_plugin_id = name, vr_plugin_version = version, vr_timestamp = timestamp,
               vr_is_valid = (severity_count VCritical issues = 0 \<and> severity_count VError issues = 0), vr_issues = issues,
               vr_info_count = severity_count VInfo issues, vr_warning_count = severity_count VWarning issues,
               vr_error_count = severity_count VError issues, vr_critical_count = severity_count VCritical issues\<rparr>)
      | _ \<Rightarrow> None)"

section \<open>Round trips\<close>

lemma ABIVersion_roundtrip: "ABIVersion_parse (ABIVersion_as_str v) = Ok v"
  by (cases v) (simp_all add: ABIVersion_parse_def)

lemma MaturityLevel_roundtrip: "MaturityLevel_parse (MaturityLevel_as_str l) = Ok l"
  by (cases l) (simp_all add: MaturityLevel_parse_def to_lowercase_def to_ascii_lower_def)

lemma PluginCategory_roundtrip: "PluginCategory_parse (PluginCategory_as_str c) = Ok c"
  by (cases c) (simp_all add: PluginCategory_parse_def to_lowercase_def to_ascii_lower_def)

section \<open>What the ABI validator accepts\<close>

definition complete_dependency :: "DependencyInfo \<Rightarrow> bool" where
  "complete_dependency d \<longleftrightarrow> di_name d \<noteq> [] \<and> di_version_range d \<noteq> []"

definition consistent_resources :: "ResourceRequirements \<Rightarrow> bool" where
  "consistent_resources r \<longleftrightarrow> rr_min_cpu_cores r \<le> rr_max_cpu_cores r \<and> rr_min_memory_mb r \<le> rr_max_memory_mb r \<and>
     rr_min_disk_mb r \<le> rr_max_disk_mb r"

lemma av_passed_add [simp]:
  "av_passed (av_add_warning m r) \<longleftrightarrow> av_passed r"
  "av_passed (av_add_recommendation m r) \<longleftrightarrow> av_passed r"
  "\<not> av_passed (av_add_error m r)"
  by (simp_all add: av_passed_def av_add_warning_def av_add_recommendation_def av_add_error_def)

lemma check_dependencies_passed:
  "av_passed (fold check_dependency ds r) \<longleftrightarrow> av_passed r \<and> (\<forall>d\<in>set ds. complete_dependency d)"
proof (induction ds arbitrary: r)
  case (Cons d ds)
  have "av_passed (check_dependency d r) \<longleftrightarrow> av_passed r \<and> complete_dependency d"
    by (simp add: check_dependency_def Let_def complete_dependency_def)
  then show ?case using Cons by auto
qed simp

theorem abi_validator_correct:
  "av_passed (ABIValidator_validate info) \<longleftrightarrow>
     ai_maturity_level info \<noteq> Deprecated \<and> consistent_resources (ai_resources info) \<and>
     (\<forall>d\<in>set (ai_dependencies info). complete_dependency d)"
proof -
  have new: "av_passed (ABIValidationResult_new True)" by (simp add: av_passed_def ABIValidationResult_new_def)
  show ?thesis
    by (cases "ai_maturity_level info"; cases "ai_abi_version info")
      (auto simp: ABIValidator_validate_def Let_def check_dependencies_passed consistent_resources_def new not_less)
qed

text \<open>
  Of a manifest, the validator sees a fixed maturity: only an unknown ABI version, zero concurrency or memory that does not
  survive the casts, and empty dependencies make it fail.
\<close>

theorem metadata_validation_correct:
  "(\<exists>r. validate_abi_compatibility m = Ok r \<and> av_passed r) \<longleftrightarrow>
     (\<exists>v. ABIVersion_parse (pm_abi_version m) = Ok v) \<and> consistent_resources (resources_of (pm_requirements m)) \<and>
     (\<forall>d\<in>set (metadata_deps m). dm_name d \<noteq> [] \<and> dm_version d \<noteq> [])"
  by (auto simp: validate_abi_compatibility_def to_abi_compatible_def abi_validator_correct complete_dependency_def)

lemma memory_doubling_wraps:
  "\<not> consistent_resources (resources_of (Some \<lparr>pr_max_concurrency = None, pr_min_memory_mb = Some 2147483648, pr_timeout_secs = t,
      pr_supports_streaming = s\<rparr>))"
  by (simp add: consistent_resources_def resources_of_def)

lemma zero_concurrency_rejected:
  "pr_max_concurrency r = Some 0 \<Longrightarrow> \<not> consistent_resources (resources_of (Some r))"
  by (simp add: consistent_resources_def resources_of_def Let_def)

lemma always_alpha: "to_abi_compatible m = Ok info \<Longrightarrow> ai_maturity_level info = Alpha \<and> ai_category info = Utility"
  by (auto simp: to_abi_compatible_def)

lemma dependency_counts: "required_dependency_count m + optional_dependency_count m = dependency_count m"
  using sum_length_filter_compl [of is_optional "metadata_deps m"]
  by (simp add: required_dependency_count_def optional_dependency_count_def dependency_count_def)

section \<open>What the validator of manifests accepts\<close>

lemma severity_count_append [simp]: "severity_count s (xs @ ys) = severity_count s xs + severity_count s ys"
  by (simp add: severity_count_def)

lemma severity_count_simps [simp]:
  "severity_count s [] = 0"
  "severity_count s (i # is) = (if vi_severity i = s then 1 else 0) + severity_count s is"
  by (simp_all add: severity_count_def)

lemma issue_severity [simp]: "vi_severity (issue f sev m s) = sev"
  by (simp add: issue_def)

lemma severity_count_sum:
  "severity_count VInfo is + severity_count VWarning is + severity_count VError is + severity_count VCritical is = length is"
proof (induction "is")
  case (Cons i "is")
  then show ?case by (cases "vi_severity i") simp_all
qed simp

lemma severity_count_map_issue: "severity_count s (map (\<lambda>x. issue f t (m x) u) xs) = (if s = t then length xs else 0)"
  by (induction xs) auto

lemma new_rules:
  "\<exists>r. hm_get (mv_rules ManifestValidator_new) ''name'' = Some r \<and> ru_min_length r = Some 3 \<and> ru_max_length r = Some 100"
  "\<exists>r. hm_get (mv_rules ManifestValidator_new) ''abi_version'' = Some r \<and> ru_allowed_values r = [''1'', ''1.0'', ''2'', ''2.0'']"
  by (simp_all add: ManifestValidator_new_def add_default_rules_def rule_of_def)

theorem validate_manifest_correct:
  "\<exists>r. validate_manifest timestamp ManifestValidator_new name version abi_version description = Some r \<and>
     (vr_is_valid r \<longleftrightarrow>
        3 \<le> length name \<and> length name \<le> 100 \<and> list_all name_char name \<and>
        (\<exists>a b c rest. split_on CHR ''.'' version = a # b # c # rest \<and> parse_u32 a \<noteq> None \<and> parse_u32 b \<noteq> None \<and> parse_u32 c \<noteq> None) \<and>
        abi_version \<in> {''1'', ''1.0'', ''2'', ''2.0''}) \<and>
     vr_info_count r + vr_warning_count r + vr_error_count r + vr_critical_count r = length (vr_issues r)"
proof -
  define bad where "bad = (\<lambda>is. severity_count VCritical is = 0 \<and> severity_count VError is = 0)"
  obtain ns where ns: "validate_name ManifestValidator_new name = Some ns"
    and n: "bad ns \<longleftrightarrow> 3 \<le> length name \<and> length name \<le> 100 \<and> list_all name_char name"
  proof -
    obtain r where "hm_get (mv_rules ManifestValidator_new) ''name'' = Some r" "ru_min_length r = Some 3" "ru_max_length r = Some 100"
      using new_rules(1) by blast
    then show ?thesis using that by (auto simp: validate_name_def bad_def not_less)
  qed
  obtain as where as: "validate_abi_version ManifestValidator_new abi_version = Some as"
    and a: "bad as \<longleftrightarrow> abi_version \<in> {''1'', ''1.0'', ''2'', ''2.0''}"
  proof -
    obtain r where "hm_get (mv_rules ManifestValidator_new) ''abi_version'' = Some r" "ru_allowed_values r = [''1'', ''1.0'', ''2'', ''2.0'']"
      using new_rules(2) by blast
    then have "\<exists>as. validate_abi_version ManifestValidator_new abi_version = Some as \<and>
        (bad as \<longleftrightarrow> abi_version \<in> {''1'', ''1.0'', ''2'', ''2.0''})"
      by (cases "abi_version = []") (simp_all add: validate_abi_version_def bad_def)
    then show ?thesis using that by blast
  qed
  have parts: "length ps \<ge> 3 \<and> filter (\<lambda>p. parse_u32 p = None) (take 3 ps) = [] \<longleftrightarrow>
      (\<exists>a b c rest. ps = a # b # c # rest \<and> parse_u32 a \<noteq> None \<and> parse_u32 b \<noteq> None \<and> parse_u32 c \<noteq> None)" for ps :: "string list"
    by (cases ps; cases "tl ps"; cases "tl (tl ps)") (auto simp: numeral_3_eq_3)
  have empty: "split_on CHR ''.'' [] = [[]]" by simp
  have v: "bad (validate_version version) \<longleftrightarrow>
      (\<exists>a b c rest. split_on CHR ''.'' version = a # b # c # rest \<and> parse_u32 a \<noteq> None \<and> parse_u32 b \<noteq> None \<and> parse_u32 c \<noteq> None)"
    unfolding parts [symmetric]
    by (auto simp: validate_version_def bad_def Let_def severity_count_map_issue not_less)
  have d: "bad (validate_description description)"
    by (simp add: bad_def validate_description_def split: option.split)
  let ?all = "ns @ validate_version version @ as @ validate_description description"
  have "bad ?all \<longleftrightarrow> bad ns \<and> bad (validate_version version) \<and> bad as" using d by (auto simp: bad_def)
  then have all: "severity_count VCritical ?all = 0 \<and> severity_count VError ?all = 0 \<longleftrightarrow>
      bad ns \<and> bad (validate_version version) \<and> bad as" by (simp only: bad_def)
  show ?thesis
    using n a v unfolding validate_manifest_def ns as
    by (simp del: severity_count_append add: Let_def severity_count_sum all)
qed

text \<open>The format that the validator suggests, with a pre-release, is rejected by it; a version with more parts is not.\<close>

lemma suggested_version_rejected: "validate_version ''1.0.0-rc1'' \<noteq> [] \<and> validate_version ''1.0.0.x'' = []"
  by code_simp

text \<open>The rule for versions has lengths and a pattern that no check looks at, and no check issues a mere information.\<close>

lemma never_info:
  assumes "validate_manifest timestamp V name version abi_version description = Some r"
  shows "vr_info_count r = 0"
proof -
  have "severity_count VInfo is = 0" if "validate_name V name = Some is" for "is"
    using that by (auto simp: validate_name_def split: option.splits if_splits)
  moreover have "severity_count VInfo is = 0" if "validate_abi_version V abi_version = Some is" for "is"
    using that by (auto simp: validate_abi_version_def split: option.splits if_splits)
  moreover have "severity_count VInfo (validate_version version) = 0"
    by (simp add: validate_version_def Let_def severity_count_map_issue)
  moreover have "severity_count VInfo (validate_description description) = 0"
    by (simp add: validate_description_def split: option.split)
  ultimately show ?thesis using assms by (auto simp: validate_manifest_def Let_def split: option.splits)
qed

end
