(* ===== verification/Package_Matrix.thy ===== *)
theory Package_Matrix
  imports Rust_Str
begin

text \<open>
  Which versions, platforms and dependencies go together: the compatibility matrix of a plugin
  (\<open>plugin-packager/src/compat_matrix.rs\<close>) and optional dependencies with their conditions (\<open>optional_deps.rs\<close>). The operating
  system that the packager is built for is an argument.
\<close>

section \<open>Versions and platforms\<close>

record AbiVersion =
  abv_major :: u32
  abv_minor :: u32

definition AbiVersion_new :: "u32 \<Rightarrow> u32 \<Rightarrow> AbiVersion" where
  "AbiVersion_new major minor = \<lparr>abv_major = major, abv_minor = minor\<rparr>"

definition AbiVersion_try_parse :: "string \<Rightarrow> AbiVersion option" where
  "AbiVersion_try_parse s =
     (case split_on CHR ''.'' s of
        [a, b] \<Rightarrow> (case (parse_u32 a, parse_u32 b) of
            (Some major, Some minor) \<Rightarrow> Some (AbiVersion_new major minor)
          | _ \<Rightarrow> None)
      | _ \<Rightarrow> None)"

definition to_string_val :: "AbiVersion \<Rightarrow> string" where
  "to_string_val v = show_nat (unat (abv_major v)) @ ''.'' @ show_nat (unat (abv_minor v))"

definition version_is_compatible_with :: "AbiVersion \<Rightarrow> AbiVersion \<Rightarrow> bool" where
  "version_is_compatible_with v w \<longleftrightarrow> abv_major v = abv_major w"

definition is_backward_compatible :: "AbiVersion \<Rightarrow> AbiVersion \<Rightarrow> bool" where
  "is_backward_compatible v older \<longleftrightarrow> abv_major v = abv_major older \<and> abv_minor v \<ge> abv_minor older"

record PlatformArch =
  pa_platform :: string
  pa_architecture :: string

definition PlatformArch_new :: "string \<Rightarrow> string \<Rightarrow> PlatformArch" where
  "PlatformArch_new platform architecture = \<lparr>pa_platform = platform, pa_architecture = architecture\<rparr>"

definition as_string :: "PlatformArch \<Rightarrow> string" where
  "as_string p = pa_platform p @ ''-'' @ pa_architecture p"

definition PlatformArch_from_string :: "string \<Rightarrow> PlatformArch option" where
  "PlatformArch_from_string s = (case split_on CHR ''-'' s of [a, b] \<Rightarrow> Some (PlatformArch_new a b) | _ \<Rightarrow> None)"

datatype CompatibilityLevel = Incompatible | Deprecated | Compatible | Recommended

fun CompatibilityLevel_as_str :: "CompatibilityLevel \<Rightarrow> string" where
  "CompatibilityLevel_as_str Incompatible = ''Incompatible''"
| "CompatibilityLevel_as_str Deprecated = ''Deprecated''"
| "CompatibilityLevel_as_str Compatible = ''Compatible''"
| "CompatibilityLevel_as_str Recommended = ''Recommended''"

definition CompatibilityLevel_try_parse :: "string \<Rightarrow> CompatibilityLevel option" where
  "CompatibilityLevel_try_parse s =
     find (\<lambda>l. CompatibilityLevel_as_str l = s) [Incompatible, Deprecated, Compatible, Recommended]"

section \<open>The matrix\<close>

record BreakingChange =
  bc_from_version :: string
  bc_to_version :: string
  bc_description :: string
  bc_migration_guide :: "string option"
  bc_affected_apis :: "string list"

record AbiCompatibilityEntry =
  ce_version :: AbiVersion
  ce_compatibility_with :: "(string, CompatibilityLevel) hashmap"
  ce_breaking_changes :: "BreakingChange list"
  ce_deprecation_notices :: "string list"

definition AbiCompatibilityEntry_new :: "AbiVersion \<Rightarrow> AbiCompatibilityEntry" where
  "AbiCompatibilityEntry_new v = \<lparr>ce_version = v, ce_compatibility_with = [], ce_breaking_changes = [], ce_deprecation_notices = []\<rparr>"

definition entry_is_compatible_with :: "AbiCompatibilityEntry \<Rightarrow> string \<Rightarrow> bool" where
  "entry_is_compatible_with e other \<longleftrightarrow>
     hm_get (ce_compatibility_with e) other = Some Compatible \<or> hm_get (ce_compatibility_with e) other = Some Recommended"

record PlatformSupportEntry =
  ps_platform_arch :: PlatformArch
  ps_support_level :: CompatibilityLevel
  ps_min_version :: "string option"
  ps_max_version :: "string option"
  ps_notes :: "string option"

record DependencyCompatibility =
  dc_dependency_name :: string
  dc_required_version :: string
  dc_compatible_versions :: "string list"
  dc_incompatible_versions :: "string list"
  dc_notes :: "string option"

record PluginCompatibilityMatrix =
  cm_plugin_id :: string
  cm_current_version :: string
  cm_abi_compatibility :: "(AbiVersion, AbiCompatibilityEntry) hashmap"
  cm_platform_support :: "(PlatformArch, PlatformSupportEntry) hashmap"
  cm_dependency_compatibility :: "(string, DependencyCompatibility) hashmap"

definition PluginCompatibilityMatrix_new :: "string \<Rightarrow> string \<Rightarrow> PluginCompatibilityMatrix" where
  "PluginCompatibilityMatrix_new plugin_id current_version =
     \<lparr>cm_plugin_id = plugin_id, cm_current_version = current_version, cm_abi_compatibility = [], cm_platform_support = [],
      cm_dependency_compatibility = []\<rparr>"

definition add_abi_compatibility :: "AbiCompatibilityEntry \<Rightarrow> PluginCompatibilityMatrix \<Rightarrow> PluginCompatibilityMatrix" where
  "add_abi_compatibility e m = m\<lparr>cm_abi_compatibility := hm_insert (ce_version e) e (cm_abi_compatibility m)\<rparr>"

definition add_platform_support :: "PlatformSupportEntry \<Rightarrow> PluginCompatibilityMatrix \<Rightarrow> PluginCompatibilityMatrix" where
  "add_platform_support e m = m\<lparr>cm_platform_support := hm_insert (ps_platform_arch e) e (cm_platform_support m)\<rparr>"

definition add_dependency_compatibility :: "DependencyCompatibility \<Rightarrow> PluginCompatibilityMatrix \<Rightarrow> PluginCompatibilityMatrix" where
  "add_dependency_compatibility c m =
     m\<lparr>cm_dependency_compatibility := hm_insert (dc_dependency_name c) c (cm_dependency_compatibility m)\<rparr>"

definition check_abi_compatibility :: "AbiVersion \<Rightarrow> AbiVersion \<Rightarrow> PluginCompatibilityMatrix \<Rightarrow> CompatibilityLevel" where
  "check_abi_compatibility v w m =
     (case hm_get (cm_abi_compatibility m) v of
        Some e \<Rightarrow> (case hm_get (ce_compatibility_with e) (to_string_val w) of Some l \<Rightarrow> l | None \<Rightarrow> Incompatible)
      | None \<Rightarrow> if version_is_compatible_with v w then Compatible else Incompatible)"

definition check_platform_support :: "PlatformArch \<Rightarrow> PluginCompatibilityMatrix \<Rightarrow> CompatibilityLevel" where
  "check_platform_support p m = (case hm_get (cm_platform_support m) p of Some e \<Rightarrow> ps_support_level e | None \<Rightarrow> Compatible)"

definition supported_platforms :: "PluginCompatibilityMatrix \<Rightarrow> PlatformArch list" where
  "supported_platforms m =
     map ps_platform_arch (filter (\<lambda>e. ps_support_level e \<noteq> Incompatible) (map snd (cm_platform_support m)))"

definition check_dependency_version :: "string \<Rightarrow> string \<Rightarrow> PluginCompatibilityMatrix \<Rightarrow> CompatibilityLevel" where
  "check_dependency_version dep_name version m =
     (case hm_get (cm_dependency_compatibility m) dep_name of
        Some c \<Rightarrow>
          if version \<in> set (dc_compatible_versions c) then Compatible
          else if version \<in> set (dc_incompatible_versions c) then Incompatible
          else Compatible
      | None \<Rightarrow> Compatible)"

definition find_breaking_changes :: "string \<Rightarrow> string \<Rightarrow> PluginCompatibilityMatrix \<Rightarrow> BreakingChange list" where
  "find_breaking_changes from to m =
     concat (map (\<lambda>e. filter (\<lambda>c. bc_from_version c = from \<and> bc_to_version c = to) (ce_breaking_changes e))
       (map snd (cm_abi_compatibility m)))"

record CompatibilityAnalysis =
  ca_version :: string
  ca_compatible_versions :: "string list"
  ca_incompatible_versions :: "string list"
  ca_breaking_changes :: "string list"
  ca_supported_platforms :: "string list"
  ca_deprecation_status :: "string list option"

definition analyze_abi_version :: "AbiVersion \<Rightarrow> PluginCompatibilityMatrix \<Rightarrow> CompatibilityAnalysis" where
  "analyze_abi_version version m =
     (let entry = hm_get (cm_abi_compatibility m) version;
          levels = (case entry of Some e \<Rightarrow> ce_compatibility_with e | None \<Rightarrow> [])
      in \<lparr>ca_version = to_string_val version,
          ca_compatible_versions = map fst (filter (\<lambda>(_, l). l = Compatible \<or> l = Recommended) levels),
          ca_incompatible_versions = map fst (filter (\<lambda>(_, l). l = Incompatible) levels),
          ca_breaking_changes = (case entry of Some e \<Rightarrow> map bc_description (ce_breaking_changes e) | None \<Rightarrow> []),
          ca_supported_platforms = map as_string (supported_platforms m),
          ca_deprecation_status =
            Option.bind entry (\<lambda>e. if ce_deprecation_notices e = [] then None else Some (ce_deprecation_notices e))\<rparr>)"

definition all_abi_versions :: "PluginCompatibilityMatrix \<Rightarrow> AbiVersion list" where
  "all_abi_versions m = hm_keys (cm_abi_compatibility m)"

record CompatibilityReport =
  crp_plugin_id :: string
  crp_current_version :: string
  crp_total_abi_versions :: nat
  crp_supported_platform_count :: nat
  crp_tracked_dependencies :: nat

definition generate_report :: "PluginCompatibilityMatrix \<Rightarrow> CompatibilityReport" where
  "generate_report m =
     \<lparr>crp_plugin_id = cm_plugin_id m, crp_current_version = cm_current_version m,
      crp_total_abi_versions = length (cm_abi_compatibility m),
      crp_supported_platform_count = length (filter (\<lambda>e. ps_support_level e \<noteq> Incompatible) (map snd (cm_platform_support m))),
      crp_tracked_dependencies = length (cm_dependency_compatibility m)\<rparr>"

section \<open>Optional dependencies\<close>

text \<open>The target that the packager is built for: the name of its system, and whether it is a Unix.\<close>

record build_target =
  bt_os :: string
  bt_unix :: bool

record OptionalDependency =
  od_name :: string
  od_version :: string
  od_optional :: bool
  od_description :: "string option"
  od_default_enabled :: bool
  od_platforms :: "string list"
  od_features :: "string list"

definition OptionalDependency_new :: "string \<Rightarrow> string \<Rightarrow> OptionalDependency" where
  "OptionalDependency_new name version =
     \<lparr>od_name = name, od_version = version, od_optional = True, od_description = None, od_default_enabled = False,
      od_platforms = [''all''], od_features = []\<rparr>"

definition od_required :: "OptionalDependency \<Rightarrow> OptionalDependency" where
  "od_required d = d\<lparr>od_optional := False\<rparr>"

definition od_with_description :: "string \<Rightarrow> OptionalDependency \<Rightarrow> OptionalDependency" where
  "od_with_description desc d = d\<lparr>od_description := Some desc\<rparr>"

definition od_with_default_enabled :: "OptionalDependency \<Rightarrow> OptionalDependency" where
  "od_with_default_enabled d = d\<lparr>od_default_enabled := True\<rparr>"

definition od_with_platforms :: "string list \<Rightarrow> OptionalDependency \<Rightarrow> OptionalDependency" where
  "od_with_platforms ps d = d\<lparr>od_platforms := ps\<rparr>"

definition od_with_features :: "string list \<Rightarrow> OptionalDependency \<Rightarrow> OptionalDependency" where
  "od_with_features fs d = d\<lparr>od_features := fs\<rparr>"

definition is_platform_applicable :: "build_target \<Rightarrow> string \<Rightarrow> OptionalDependency \<Rightarrow> bool" where
  "is_platform_applicable T current d \<longleftrightarrow>
     (if ''all'' \<in> set (od_platforms d) then True
      else if current = ''unix'' \<and> bt_unix T then True
      else current \<in> set (od_platforms d))"

definition dependency_is_enabled :: "string list \<Rightarrow> OptionalDependency \<Rightarrow> bool" where
  "dependency_is_enabled enabled_features d \<longleftrightarrow>
     (if od_optional d \<and> od_default_enabled d then True
      else list_ex (\<lambda>f. f \<in> set enabled_features) (od_features d))"

record FeatureGate =
  fg_name :: string
  fg_description :: "string option"
  fg_enabled :: bool
  fg_dependencies :: "string list"

definition FeatureGate_new :: "string \<Rightarrow> FeatureGate" where
  "FeatureGate_new name = \<lparr>fg_name = name, fg_description = None, fg_enabled = False, fg_dependencies = []\<rparr>"

definition fg_with_description :: "string \<Rightarrow> FeatureGate \<Rightarrow> FeatureGate" where
  "fg_with_description desc g = g\<lparr>fg_description := Some desc\<rparr>"

definition fg_with_dependencies :: "string list \<Rightarrow> FeatureGate \<Rightarrow> FeatureGate" where
  "fg_with_dependencies deps g = g\<lparr>fg_dependencies := deps\<rparr>"

definition fg_enable :: "FeatureGate \<Rightarrow> FeatureGate" where
  "fg_enable g = g\<lparr>fg_enabled := True\<rparr>"

record PlatformSpecific =
  psp_dependency :: string
  psp_version :: string
  psp_platforms :: "string list"
  psp_required :: bool

definition PlatformSpecific_new :: "string \<Rightarrow> string \<Rightarrow> string list \<Rightarrow> PlatformSpecific" where
  "PlatformSpecific_new dependency version platforms =
     \<lparr>psp_dependency = dependency, psp_version = version, psp_platforms = platforms, psp_required = False\<rparr>"

definition psp_make_required :: "PlatformSpecific \<Rightarrow> PlatformSpecific" where
  "psp_make_required p = p\<lparr>psp_required := True\<rparr>"

definition matches_current_platform :: "build_target \<Rightarrow> PlatformSpecific \<Rightarrow> bool" where
  "matches_current_platform T p \<longleftrightarrow>
     list_ex (\<lambda>n. (n = ''linux'' \<and> bt_os T = ''linux'') \<or> (n = ''macos'' \<and> bt_os T = ''macos'') \<or>
       (n = ''windows'' \<and> bt_os T = ''windows'') \<or> (n = ''unix'' \<and> bt_unix T) \<or> n = ''all'') (psp_platforms p)"

datatype ConditionType = CFeature | CPlatform | CAnd | COr | CNot

fun ConditionType_as_str :: "ConditionType \<Rightarrow> string" where
  "ConditionType_as_str CFeature = ''feature''"
| "ConditionType_as_str CPlatform = ''platform''"
| "ConditionType_as_str CAnd = ''and''"
| "ConditionType_as_str COr = ''or''"
| "ConditionType_as_str CNot = ''not''"

record DependencyCondition =
  dcd_condition_type :: ConditionType
  dcd_expression :: string

definition DependencyCondition_new :: "ConditionType \<Rightarrow> string \<Rightarrow> DependencyCondition" where
  "DependencyCondition_new cond_type expression = \<lparr>dcd_condition_type = cond_type, dcd_expression = expression\<rparr>"

definition is_valid_syntax :: "DependencyCondition \<Rightarrow> bool" where
  "is_valid_syntax c \<longleftrightarrow> dcd_expression c \<noteq> [] \<and> length (dcd_expression c) < 256"

definition condition_evaluate :: "string list \<Rightarrow> string \<Rightarrow> DependencyCondition \<Rightarrow> string + bool" where
  "condition_evaluate enabled_features current_platform c =
     (if \<not> is_valid_syntax c then Err ''Invalid condition syntax''
      else Ok (case dcd_condition_type c of
          CFeature \<Rightarrow> trim (dcd_expression c) \<in> set enabled_features
        | CPlatform \<Rightarrow> dcd_expression c = current_platform \<or> dcd_expression c = ''all''
        | CAnd \<Rightarrow> str_contains (dcd_expression c) current_platform
        | COr \<Rightarrow> True
        | CNot \<Rightarrow> dcd_expression c \<notin> set enabled_features))"

definition evaluate_conditions :: "build_target \<Rightarrow> OptionalDependency list \<Rightarrow> string list \<Rightarrow> string \<Rightarrow> OptionalDependency list" where
  "evaluate_conditions T deps enabled_features current =
     filter (\<lambda>d. is_platform_applicable T current d \<and> dependency_is_enabled enabled_features d) deps"

definition filter_by_platform :: "build_target \<Rightarrow> OptionalDependency list \<Rightarrow> string \<Rightarrow> OptionalDependency list" where
  "filter_by_platform T deps platform = filter (is_platform_applicable T platform) deps"

definition resolve_features :: "FeatureGate list \<Rightarrow> (string, string list) hashmap" where
  "resolve_features gates = fold (\<lambda>g m. if fg_enabled g then hm_insert (fg_name g) (fg_dependencies g) m else m) gates []"

definition validate_conditions :: "DependencyCondition list \<Rightarrow> string list + unit" where
  "validate_conditions conditions =
     (let errors = map (\<lambda>(i, c). ''Invalid condition at index '' @ show_nat i @ '': '' @ dcd_expression c)
        (filter (\<lambda>(i, c). \<not> is_valid_syntax c) (enumerate 0 conditions))
      in if errors = [] then Ok () else Err errors)"

definition calculate_optional_count :: "build_target \<Rightarrow> OptionalDependency list \<Rightarrow> string list \<Rightarrow> nat \<times> nat" where
  "calculate_optional_count T deps enabled_features =
     (length (filter od_optional (evaluate_conditions T deps enabled_features ''all'')), length (filter od_optional deps))"

definition get_for_feature :: "OptionalDependency list \<Rightarrow> string \<Rightarrow> OptionalDependency list" where
  "get_for_feature deps feature = filter (\<lambda>d. feature \<in> set (od_features d)) deps"

section \<open>Round trips\<close>

lemma AbiVersion_roundtrip: "AbiVersion_try_parse (to_string_val v) = Some v"
proof -
  have "split_on CHR ''.'' (join [CHR ''.''] [show_nat (unat (abv_major v)), show_nat (unat (abv_minor v))])
      = [show_nat (unat (abv_major v)), show_nat (unat (abv_minor v))]"
    by (rule split_on_join) (auto simp: show_nat_no_char is_ascii_digit_def)
  then show ?thesis by (simp add: AbiVersion_try_parse_def to_string_val_def AbiVersion_new_def)
qed

lemma to_string_val_inj: "to_string_val v = to_string_val w \<longleftrightarrow> v = w"
  using AbiVersion_roundtrip [of v] AbiVersion_roundtrip [of w] by (metis option.inject)

lemma PlatformArch_roundtrip:
  "CHR ''-'' \<notin> set (pa_platform p) \<Longrightarrow> CHR ''-'' \<notin> set (pa_architecture p) \<Longrightarrow> PlatformArch_from_string (as_string p) = Some p"
  by (simp add: PlatformArch_from_string_def as_string_def PlatformArch_new_def split_on_append split_on_no_sep)

lemma CompatibilityLevel_roundtrip: "CompatibilityLevel_try_parse (CompatibilityLevel_as_str l) = Some l"
  by (cases l) (simp_all add: CompatibilityLevel_try_parse_def)

text \<open>Only one parser of platforms knows the hyphen in an architecture such as \<open>x86-64\<close>: this one refuses it.\<close>

lemma hyphenated_architecture_refused: "PlatformArch_from_string (as_string (PlatformArch_new ''linux'' ''x86-64'')) = None"
  by code_simp

section \<open>What the matrix answers\<close>

text \<open>An entry decides for its version alone, by exact versions; without one the major versions decide.\<close>

lemma abi_compatibility_after_add:
  "check_abi_compatibility v w (add_abi_compatibility e m) =
     (if v = ce_version e
      then (case hm_get (ce_compatibility_with e) (to_string_val w) of Some l \<Rightarrow> l | None \<Rightarrow> Incompatible)
      else check_abi_compatibility v w m)"
  by (simp add: check_abi_compatibility_def add_abi_compatibility_def update_conv')

text \<open>A first entry for a version makes it incompatible with itself, unless the entry names it.\<close>

lemma entry_forgets_itself:
  "check_abi_compatibility v v (PluginCompatibilityMatrix_new i c) = Compatible \<and>
   check_abi_compatibility v v (add_abi_compatibility (AbiCompatibilityEntry_new v) m) = Incompatible"
proof -
  have "ce_version (AbiCompatibilityEntry_new v) = v" "ce_compatibility_with (AbiCompatibilityEntry_new v) = []"
    by (simp_all add: AbiCompatibilityEntry_new_def)
  moreover have "check_abi_compatibility v v (PluginCompatibilityMatrix_new i c) = Compatible"
    by (simp add: check_abi_compatibility_def version_is_compatible_with_def PluginCompatibilityMatrix_new_def)
  ultimately show ?thesis by (simp add: abi_compatibility_after_add)
qed

text \<open>A map that holds every value at its own key.\<close>

definition keyed :: "('v \<Rightarrow> 'k) \<Rightarrow> ('k, 'v) hashmap \<Rightarrow> bool" where
  "keyed f m \<longleftrightarrow> distinct (hm_keys m) \<and> (\<forall>(k, v)\<in>set m. f v = k)"

lemma keyed_insert: "keyed f m \<Longrightarrow> keyed f (hm_insert (f v) v m)"
  using set_update_subset [of "f v" v m] by (auto simp: keyed_def distinct_update)

definition matrix_inv :: "PluginCompatibilityMatrix \<Rightarrow> bool" where
  "matrix_inv m \<longleftrightarrow> keyed ce_version (cm_abi_compatibility m) \<and> keyed ps_platform_arch (cm_platform_support m) \<and>
     keyed dc_dependency_name (cm_dependency_compatibility m)"

datatype matrix_op =
    AddAbi AbiCompatibilityEntry
  | AddPlatform PlatformSupportEntry
  | AddDependency DependencyCompatibility

fun matrix_step :: "matrix_op \<Rightarrow> PluginCompatibilityMatrix \<Rightarrow> PluginCompatibilityMatrix" where
  "matrix_step (AddAbi e) m = add_abi_compatibility e m"
| "matrix_step (AddPlatform e) m = add_platform_support e m"
| "matrix_step (AddDependency c) m = add_dependency_compatibility c m"

lemma matrix_inv_step: "matrix_inv m \<Longrightarrow> matrix_inv (matrix_step op m)"
proof (cases op)
  case (AddAbi e)
  then show "matrix_inv m \<Longrightarrow> ?thesis" using keyed_insert [of ce_version _ e] by (simp add: matrix_inv_def add_abi_compatibility_def)
next
  case (AddPlatform e)
  then show "matrix_inv m \<Longrightarrow> ?thesis"
    using keyed_insert [of ps_platform_arch _ e] by (simp add: matrix_inv_def add_platform_support_def)
next
  case (AddDependency c)
  then show "matrix_inv m \<Longrightarrow> ?thesis"
    using keyed_insert [of dc_dependency_name _ c] by (simp add: matrix_inv_def add_dependency_compatibility_def)
qed

lemma matrix_inv_run: "matrix_inv (fold matrix_step ops (PluginCompatibilityMatrix_new i v))"
proof -
  have run: "matrix_inv m \<Longrightarrow> matrix_inv (fold matrix_step ops m)" for m
    by (induction ops arbitrary: m) (simp_all add: matrix_inv_step)
  show ?thesis by (rule run) (simp add: PluginCompatibilityMatrix_new_def matrix_inv_def keyed_def)
qed

text \<open>
  In every matrix that is built by its operations the platforms that are listed are those with an entry that is not
  incompatible, each once and as many as the report counts. A platform without an entry is reported as compatible and
  yet not listed.
\<close>

theorem supported_platforms_correct:
  "let m = fold matrix_step ops (PluginCompatibilityMatrix_new i v) in
   distinct (supported_platforms m) \<and> length (supported_platforms m) = crp_supported_platform_count (generate_report m) \<and>
   set (supported_platforms m) =
     {p. hm_get (cm_platform_support m) p \<noteq> None \<and> check_platform_support p m \<noteq> Incompatible}"
proof -
  let ?m = "fold matrix_step ops (PluginCompatibilityMatrix_new i v)"
  let ?ps = "cm_platform_support ?m"
  have inv: "matrix_inv ?m" by (rule matrix_inv_run)
  have eq: "supported_platforms ?m = map fst (filter (\<lambda>(p, e). ps_support_level e \<noteq> Incompatible) ?ps)"
  proof -
    have names: "\<forall>(p, e)\<in>set xs. ps_platform_arch e = p \<Longrightarrow>
        map ps_platform_arch (filter (\<lambda>e. ps_support_level e \<noteq> Incompatible) (map snd xs)) =
        map fst (filter (\<lambda>(p, e). ps_support_level e \<noteq> Incompatible) xs)" for xs
      by (induction xs) auto
    have "\<forall>(p, e)\<in>set ?ps. ps_platform_arch e = p" using inv unfolding matrix_inv_def keyed_def by blast
    from names [OF this] show ?thesis unfolding supported_platforms_def .
  qed
  have dist: "distinct (hm_keys ?ps)" using inv by (simp add: matrix_inv_def keyed_def)
  have mem: "p \<in> set (supported_platforms ?m) \<longleftrightarrow> (\<exists>e. hm_get ?ps p = Some e \<and> ps_support_level e \<noteq> Incompatible)" for p
  proof -
    have "p \<in> set (supported_platforms ?m) \<longleftrightarrow> (\<exists>e. (p, e) \<in> set ?ps \<and> ps_support_level e \<noteq> Incompatible)"
      unfolding eq by force
    then show ?thesis using dist by simp
  qed
  have "distinct (supported_platforms ?m)"
    unfolding eq using dist by (rule distinct_map_filter)
  moreover have "set (supported_platforms ?m) = {p. hm_get ?ps p \<noteq> None \<and> check_platform_support p ?m \<noteq> Incompatible}"
    using mem by (auto simp: check_platform_support_def split: option.splits)
  ultimately show ?thesis by (simp add: Let_def supported_platforms_def generate_report_def)
qed

lemma unlisted_platform_compatible:
  "check_platform_support p (PluginCompatibilityMatrix_new i v) = Compatible \<and> supported_platforms (PluginCompatibilityMatrix_new i v) = []"
  by (simp add: check_platform_support_def PluginCompatibilityMatrix_new_def supported_platforms_def)

lemma find_breaking_changes_iff:
  "c \<in> set (find_breaking_changes from to m) \<longleftrightarrow>
     (\<exists>(v, e)\<in>set (cm_abi_compatibility m). c \<in> set (ce_breaking_changes e)) \<and> bc_from_version c = from \<and> bc_to_version c = to"
  by (force simp: find_breaking_changes_def)

text \<open>A deprecated version is neither compatible nor incompatible for the analysis.\<close>

lemma analysis_partition:
  assumes "hm_get (cm_abi_compatibility m) v = Some e" and "distinct (hm_keys (ce_compatibility_with e))"
  shows "s \<in> set (ca_compatible_versions (analyze_abi_version v m)) \<longleftrightarrow> entry_is_compatible_with e s"
    and "s \<in> set (ca_incompatible_versions (analyze_abi_version v m)) \<longleftrightarrow> hm_get (ce_compatibility_with e) s = Some Incompatible"
  using assms map_of_eq_Some_iff [OF assms(2)]
  by (force simp: analyze_abi_version_def entry_is_compatible_with_def Let_def)+

section \<open>Which optional dependencies are taken\<close>

text \<open>
  A dependency that is not optional is taken only with one of its features: being enabled by default counts for
  optional ones only, and without features a required dependency is never taken.
\<close>

theorem evaluate_conditions_correct:
  "set (evaluate_conditions T deps fs current) =
     {d \<in> set deps. (''all'' \<in> set (od_platforms d) \<or> (current = ''unix'' \<and> bt_unix T) \<or> current \<in> set (od_platforms d)) \<and>
        ((od_optional d \<and> od_default_enabled d) \<or> set (od_features d) \<inter> set fs \<noteq> {})}"
  by (auto simp: evaluate_conditions_def is_platform_applicable_def dependency_is_enabled_def list_ex_iff)

lemma required_never_taken:
  "\<not> od_optional d \<Longrightarrow> od_features d = [] \<Longrightarrow> d \<notin> set (evaluate_conditions T deps fs current)"
  by (simp add: evaluate_conditions_correct)

lemma disjunction_always_true: "is_valid_syntax c \<Longrightarrow> dcd_condition_type c = COr \<Longrightarrow> condition_evaluate fs p c = Ok True"
  by (simp add: condition_evaluate_def)

text \<open>A conjunction looks for the name of the platform anywhere in its text, and never at the features.\<close>

lemma conjunction_ignores_features:
  "dcd_condition_type c = CAnd \<Longrightarrow> condition_evaluate fs p c = condition_evaluate gs p c"
  by (simp add: condition_evaluate_def)

lemma conjunction_matches_substring:
  "condition_evaluate [] ''linux'' (DependencyCondition_new CAnd ''feature(logging) && platform(notlinux)'') = Ok True"
  by code_simp

lemma negation_not_trimmed:
  "condition_evaluate [''x''] p (DependencyCondition_new CNot '' x'') = Ok True \<and>
   condition_evaluate [''x''] p (DependencyCondition_new CFeature '' x'') = Ok True"
  by (simp add: condition_evaluate_def DependencyCondition_new_def is_valid_syntax_def trim_space str_simps solid_def)

lemma validate_conditions_Ok: "validate_conditions cs = Ok () \<longleftrightarrow> (\<forall>c\<in>set cs. is_valid_syntax c)"
proof -
  have "filter (\<lambda>(i, c). \<not> is_valid_syntax c) (enumerate n cs) = [] \<longleftrightarrow> (\<forall>c\<in>set cs. is_valid_syntax c)" for n
    by (induction cs arbitrary: n) auto
  then show ?thesis by (simp add: validate_conditions_def Let_def)
qed

lemma evaluate_total: "validate_conditions cs = Ok () \<Longrightarrow> c \<in> set cs \<Longrightarrow> \<exists>b. condition_evaluate fs p c = Ok b"
  by (simp add: validate_conditions_Ok condition_evaluate_def)

lemma optional_count_bounded: "fst (calculate_optional_count T deps fs) \<le> snd (calculate_optional_count T deps fs)"
proof -
  have "filter od_optional (filter P deps) = filter P (filter od_optional deps)" for P by (simp add: conj_commute)
  then show ?thesis
    unfolding calculate_optional_count_def evaluate_conditions_def by (simp only: fst_conv snd_conv length_filter_le)
qed

text \<open>Of two enabled gates of a name the later one counts.\<close>

lemma resolve_features_get:
  "hm_get (resolve_features (gates @ [g])) n =
     (if fg_enabled g \<and> fg_name g = n then Some (fg_dependencies g) else hm_get (resolve_features gates) n)"
  by (simp add: resolve_features_def update_conv')

end
