(* ===== verification/Package_Sandbox.thy ===== *)
theory Package_Sandbox
  imports Rust_Str
begin

text \<open>
  The checks of a plugin before it is published: what it may do in a sandbox (\<open>plugin-packager/src/sandbox.rs\<close>) and how healthy it
  is (\<open>health_check.rs\<close>). The file system answers by arguments. Floating-point numbers are of an arbitrary type with their
  comparison and printer.
\<close>

section \<open>Permissions\<close>

datatype Permission =
    FileSystem | Network | ProcessCreation | SystemCall | EnvironmentAccess | ThreadCreation | MemoryAllocation | TimerAccess
  | SignalHandling

fun Permission_as_str :: "Permission \<Rightarrow> string" where
  "Permission_as_str FileSystem = ''filesystem''"
| "Permission_as_str Network = ''network''"
| "Permission_as_str ProcessCreation = ''process_creation''"
| "Permission_as_str SystemCall = ''system_call''"
| "Permission_as_str EnvironmentAccess = ''environment_access''"
| "Permission_as_str ThreadCreation = ''thread_creation''"
| "Permission_as_str MemoryAllocation = ''memory_allocation''"
| "Permission_as_str TimerAccess = ''timer_access''"
| "Permission_as_str SignalHandling = ''signal_handling''"

definition Permission_try_parse :: "string \<Rightarrow> Permission option" where
  "Permission_try_parse s = find (\<lambda>p. Permission_as_str p = s)
     [FileSystem, Network, ProcessCreation, SystemCall, EnvironmentAccess, ThreadCreation, MemoryAllocation, TimerAccess, SignalHandling]"

fun permission_description :: "Permission \<Rightarrow> string" where
  "permission_description FileSystem = ''Access to filesystem operations''"
| "permission_description Network = ''Network I/O and socket operations''"
| "permission_description ProcessCreation = ''Ability to spawn child processes''"
| "permission_description SystemCall = ''Low-level system call access''"
| "permission_description EnvironmentAccess = ''Access to environment variables''"
| "permission_description ThreadCreation = ''Ability to create threads''"
| "permission_description MemoryAllocation = ''Dynamic memory allocation''"
| "permission_description TimerAccess = ''Timer and clock access''"
| "permission_description SignalHandling = ''Signal handler registration''"

fun permission_severity :: "Permission \<Rightarrow> u32" where
  "permission_severity FileSystem = 7"
| "permission_severity Network = 7"
| "permission_severity ProcessCreation = 9"
| "permission_severity SystemCall = 10"
| "permission_severity EnvironmentAccess = 3"
| "permission_severity ThreadCreation = 5"
| "permission_severity MemoryAllocation = 4"
| "permission_severity TimerAccess = 2"
| "permission_severity SignalHandling = 8"

definition show_u32 :: "u32 \<Rightarrow> string" where
  "show_u32 w = show_nat (unat w)"

record ResourceLimits =
  rl_max_memory_mb :: u32
  rl_max_cpu_time_ms :: u32
  rl_max_file_descriptors :: u32
  rl_max_threads :: u32
  rl_max_processes :: u32

definition ResourceLimits_default :: ResourceLimits where
  "ResourceLimits_default =
     \<lparr>rl_max_memory_mb = 256, rl_max_cpu_time_ms = 30000, rl_max_file_descriptors = 1024, rl_max_threads = 16, rl_max_processes = 1\<rparr>"

record PluginCapability =
  pcb_name :: string
  pcb_required_permissions :: "Permission list"
  pcb_resource_requirement :: "string option"
  pcb_description :: string

section \<open>Checks and reports\<close>

text \<open>Both modules have the same severities, with the same names, and results with the same fields.\<close>

datatype severity = Info | Warning | Error | Critical

fun severity_as_str :: "severity \<Rightarrow> string" where
  "severity_as_str Info = ''info''"
| "severity_as_str Warning = ''warning''"
| "severity_as_str Error = ''error''"
| "severity_as_str Critical = ''critical''"

definition severity_try_parse :: "string \<Rightarrow> severity option" where
  "severity_try_parse s = find (\<lambda>v. severity_as_str v = to_lowercase s) [Info, Warning, Error, Critical]"

record check_result =
  ck_check_name :: string
  ck_passed :: bool
  ck_severity :: severity
  ck_message :: string
  ck_details :: "string option"
  ck_suggestion :: "string option"

record SandboxVerificationReport =
  sv_plugin_id :: string
  sv_plugin_version :: string
  sv_verification_timestamp :: string
  sv_is_sandboxed :: bool
  sv_checks :: "check_result list"
  sv_requested_permissions :: "Permission list"
  sv_resource_limits :: ResourceLimits
  sv_capabilities :: "PluginCapability list"
  sv_high_risk_count :: nat
  sv_total_risk_score :: u32

datatype SandboxRiskLevel = RLow | RMedium | RHigh | RCritical

fun SandboxRiskLevel_as_str :: "SandboxRiskLevel \<Rightarrow> string" where
  "SandboxRiskLevel_as_str RLow = ''Low''"
| "SandboxRiskLevel_as_str RMedium = ''Medium''"
| "SandboxRiskLevel_as_str RHigh = ''High''"
| "SandboxRiskLevel_as_str RCritical = ''Critical''"

definition risk_level :: "u32 \<Rightarrow> SandboxRiskLevel" where
  "risk_level score = (if score \<le> 10 then RLow else if score \<le> 30 then RMedium else if score \<le> 60 then RHigh else RCritical)"

definition is_compliant :: "SandboxVerificationReport \<Rightarrow> bool" where
  "is_compliant r \<longleftrightarrow> \<not> list_ex (\<lambda>c. \<not> ck_passed c \<and> ck_severity c = Critical) (sv_checks r)"

definition risk_assessment :: "SandboxVerificationReport \<Rightarrow> SandboxRiskLevel" where
  "risk_assessment r = risk_level (sv_total_risk_score r)"

definition sandbox_summary :: "SandboxVerificationReport \<Rightarrow> string" where
  "sandbox_summary r =
     (if is_compliant r then ''Compliant'' else ''Non-compliant'') @ '': Risk='' @ SandboxRiskLevel_as_str (risk_assessment r) @
     '', Permissions='' @ show_nat (length (sv_requested_permissions r)) @ '', Score='' @ show_u32 (sv_total_risk_score r)"

section \<open>The verifier of sandboxes\<close>

record SystemCallInfo =
  sc_call_name :: string
  sc_category :: string
  sc_whitelisted :: bool
  sc_risk_level :: u32

definition syscall :: "string \<Rightarrow> string \<Rightarrow> bool \<Rightarrow> u32 \<Rightarrow> string \<times> SystemCallInfo" where
  "syscall n cat ok risk = (n, \<lparr>sc_call_name = n, sc_category = cat, sc_whitelisted = ok, sc_risk_level = risk\<rparr>)"

record PluginSandboxVerifier =
  sb_whitelisted_syscalls :: "(string, SystemCallInfo) hashmap"
  sb_required_permissions :: "(Permission, bool) hashmap"
  sb_resource_limits :: ResourceLimits

definition default_syscall_whitelist :: "(string, SystemCallInfo) hashmap" where
  "default_syscall_whitelist =
     [syscall ''read'' ''io'' True 1, syscall ''write'' ''io'' True 1, syscall ''mmap'' ''memory'' True 3,
      syscall ''brk'' ''memory'' True 2, syscall ''clone'' ''process'' False 9, syscall ''execve'' ''process'' False 10,
      syscall ''ptrace'' ''debug'' False 10]"

definition PluginSandboxVerifier_new :: PluginSandboxVerifier where
  "PluginSandboxVerifier_new =
     \<lparr>sb_whitelisted_syscalls = default_syscall_whitelist, sb_required_permissions = [], sb_resource_limits = ResourceLimits_default\<rparr>"

definition check_syscall_whitelist :: "string \<Rightarrow> PluginSandboxVerifier \<Rightarrow> check_result" where
  "check_syscall_whitelist name V =
     (let found = hm_get (sb_whitelisted_syscalls V) name;
          ok = (case found of Some s \<Rightarrow> sc_whitelisted s | None \<Rightarrow> False)
      in \<lparr>ck_check_name = ''Syscall: '' @ name, ck_passed = ok, ck_severity = (if ok then Info else Error),
          ck_message = (if ok then ''Syscall '' @ quoted name @ '' is whitelisted'' else ''Syscall '' @ quoted name @ '' is not allowed in sandbox''),
          ck_details = map_option (\<lambda>s. ''Category: '' @ sc_category s @ '', Risk: '' @ show_u32 (sc_risk_level s)) found,
          ck_suggestion = (if \<not> ok then Some ''Remove use of this syscall or use sandboxed alternative'' else None)\<rparr>)"

definition check_permission_request :: "Permission \<Rightarrow> check_result" where
  "check_permission_request p =
     \<lparr>ck_check_name = ''Permission: '' @ Permission_as_str p, ck_passed = True, ck_severity = Info,
      ck_message = ''Permission '' @ quoted (Permission_as_str p) @ '' requested: '' @ permission_description p,
      ck_details = Some (''Risk severity: '' @ show_u32 (permission_severity p) @ ''/10''), ck_suggestion = None\<rparr>"

definition limit_issues :: "ResourceLimits \<Rightarrow> ResourceLimits \<Rightarrow> string list" where
  "limit_issues requested limits =
     (if rl_max_memory_mb requested \<le> rl_max_memory_mb limits then [] else
       [''Memory: '' @ show_u32 (rl_max_memory_mb requested) @ '' MB > '' @ show_u32 (rl_max_memory_mb limits) @ '' MB limit'']) @
     (if rl_max_cpu_time_ms requested \<le> rl_max_cpu_time_ms limits then [] else
       [''CPU: '' @ show_u32 (rl_max_cpu_time_ms requested) @ '' ms > '' @ show_u32 (rl_max_cpu_time_ms limits) @ '' ms limit'']) @
     (if rl_max_file_descriptors requested \<le> rl_max_file_descriptors limits then [] else
       [''FDs: '' @ show_u32 (rl_max_file_descriptors requested) @ '' > '' @ show_u32 (rl_max_file_descriptors limits) @ '' limit'']) @
     (if rl_max_threads requested \<le> rl_max_threads limits then [] else
       [''Threads: '' @ show_u32 (rl_max_threads requested) @ '' > '' @ show_u32 (rl_max_threads limits) @ '' limit'']) @
     (if rl_max_processes requested \<le> rl_max_processes limits then [] else
       [''Processes: '' @ show_u32 (rl_max_processes requested) @ '' > '' @ show_u32 (rl_max_processes limits) @ '' limit''])"

definition check_resource_limits :: "ResourceLimits \<Rightarrow> PluginSandboxVerifier \<Rightarrow> check_result" where
  "check_resource_limits requested V =
     (let issues = limit_issues requested (sb_resource_limits V); ok = (issues = [])
      in \<lparr>ck_check_name = ''Resource Limits'', ck_passed = ok, ck_severity = (if ok then Info else Warning),
          ck_message = (if ok then ''Resource limits within acceptable bounds''
            else ''Resource limit violations: '' @ show_nat (length issues)),
          ck_details = (if ok then None else Some (join ''; '' issues)),
          ck_suggestion = (if \<not> ok then Some ''Reduce requested resource limits to comply with sandbox constraints'' else None)\<rparr>)"

definition high_risk :: "Permission list \<Rightarrow> nat" where
  "high_risk ps = length (filter (\<lambda>p. permission_severity p \<ge> 8) ps)"

definition check_capability_model :: "PluginCapability \<Rightarrow> check_result" where
  "check_capability_model c =
     (let dangerous = high_risk (pcb_required_permissions c)
      in \<lparr>ck_check_name = ''Capability: '' @ pcb_name c, ck_passed = (dangerous = 0),
          ck_severity = (if dangerous = 0 then Info else Warning),
          ck_message = ''Capability '' @ quoted (pcb_name c) @ '': '' @ show_nat (length (pcb_required_permissions c)) @
            '' permissions, '' @ show_nat dangerous @ '' high-risk'',
          ck_details = Some (''Description: '' @ pcb_description c),
          ck_suggestion = (if dangerous > 0 then Some ''Reduce high-risk permissions for this capability'' else None)\<rparr>)"

text \<open>The sum wraps, as in a release build.\<close>

definition calculate_risk_score :: "Permission list \<Rightarrow> u32" where
  "calculate_risk_score ps = sum_list (map permission_severity ps)"

definition analyze_risk :: "Permission list \<Rightarrow> u32 \<times> nat \<times> SandboxRiskLevel" where
  "analyze_risk ps = (calculate_risk_score ps, high_risk ps, risk_level (calculate_risk_score ps))"

section \<open>Health\<close>

datatype Platform = Linux | MacOS | Windows | UnknownPlatform string

fun Platform_as_str :: "Platform \<Rightarrow> string" where
  "Platform_as_str Linux = ''linux''"
| "Platform_as_str MacOS = ''macos''"
| "Platform_as_str Windows = ''windows''"
| "Platform_as_str (UnknownPlatform s) = s"

definition Platform_current :: "string \<Rightarrow> Platform" where
  "Platform_current os =
     (if os = ''linux'' then Linux else if os = ''macos'' then MacOS else if os = ''windows'' then Windows else UnknownPlatform os)"

datatype Architecture = X86_64 | Arm64 | X86 | Arm | UnknownArchitecture string

fun Architecture_as_str :: "Architecture \<Rightarrow> string" where
  "Architecture_as_str X86_64 = ''x86_64''"
| "Architecture_as_str Arm64 = ''arm64''"
| "Architecture_as_str X86 = ''x86''"
| "Architecture_as_str Arm = ''arm''"
| "Architecture_as_str (UnknownArchitecture s) = s"

definition Architecture_current :: "string \<Rightarrow> Architecture" where
  "Architecture_current arch =
     (if arch = ''x86_64'' then X86_64 else if arch = ''aarch64'' then Arm64 else if arch = ''x86'' then X86
      else if arch = ''arm'' then Arm else UnknownArchitecture arch)"

datatype HealthStatus = Excellent | Good | Fair | Poor | CriticalHealth

definition HealthStatus_from_score :: "u32 \<Rightarrow> HealthStatus" where
  "HealthStatus_from_score score =
     (if 90 \<le> score \<and> score \<le> 100 then Excellent
      else if 75 \<le> score \<and> score \<le> 89 then Good
      else if 60 \<le> score \<and> score \<le> 74 then Fair
      else if 40 \<le> score \<and> score \<le> 59 then Poor
      else CriticalHealth)"

fun HealthStatus_as_str :: "HealthStatus \<Rightarrow> string" where
  "HealthStatus_as_str Excellent = ''Excellent''"
| "HealthStatus_as_str Good = ''Good''"
| "HealthStatus_as_str Fair = ''Fair''"
| "HealthStatus_as_str Poor = ''Poor''"
| "HealthStatus_as_str CriticalHealth = ''Critical''"

record HealthScore =
  hs_score :: u32
  hs_status :: HealthStatus

record SymbolRequirement =
  sr_symbol :: string
  sr_required :: bool
  sr_description :: string

record 'f PerformanceBaseline =
  pb_init_time_ms :: 'f
  pb_shutdown_time_ms :: 'f
  pb_memory_usage_mb :: 'f
  pb_max_concurrent_calls :: u32

record 'f PerformanceThresholds =
  pt_max_init_time_ms :: 'f
  pt_max_shutdown_time_ms :: 'f
  pt_max_memory_usage_mb :: 'f
  pt_min_concurrent_calls :: u32

record 'f PluginHealthChecker =
  hc_required_symbols :: "(string, SymbolRequirement) hashmap"
  hc_performance_thresholds :: "'f PerformanceThresholds"

definition default_required_symbols :: "(string, SymbolRequirement) hashmap" where
  "default_required_symbols =
     [(''plugin_init'', \<lparr>sr_symbol = ''plugin_init'', sr_required = True, sr_description = ''Plugin initialization entry point''\<rparr>),
      (''plugin_get_info'', \<lparr>sr_symbol = ''plugin_get_info'', sr_required = True, sr_description = ''Plugin metadata provider''\<rparr>),
      (''plugin_shutdown'', \<lparr>sr_symbol = ''plugin_shutdown'', sr_required = False, sr_description = ''Plugin cleanup on shutdown''\<rparr>)]"

text \<open>\<open>num\<close> is the number of type \<open>f64\<close> of an integer.\<close>

definition PluginHealthChecker_new :: "(int \<Rightarrow> 'f) \<Rightarrow> 'f PluginHealthChecker" where
  "PluginHealthChecker_new num =
     \<lparr>hc_required_symbols = default_required_symbols,
      hc_performance_thresholds = \<lparr>pt_max_init_time_ms = num 5000, pt_max_shutdown_time_ms = num 1000,
        pt_max_memory_usage_mb = num 500, pt_min_concurrent_calls = 10\<rparr>\<rparr>"

definition check_binary_exists :: "(string \<Rightarrow> bool) \<Rightarrow> string \<Rightarrow> check_result" where
  "check_binary_exists exists path =
     (let e = exists path
      in \<lparr>ck_check_name = ''Binary Existence'', ck_passed = e, ck_severity = (if e then Info else Critical),
          ck_message = (if e then ''Plugin binary found at '' @ path else ''Plugin binary not found at '' @ path), ck_details = None,
          ck_suggestion = (if \<not> e then Some ''Ensure plugin.so/.dll/.dylib is built and included in package'' else None)\<rparr>)"

text \<open>\<open>metadata\<close> yields the size of a file and whether it is read-only, or the text of an error.\<close>

definition check_binary_validity :: "(string \<Rightarrow> string + u64 \<times> bool) \<Rightarrow> string \<Rightarrow> check_result" where
  "check_binary_validity metadata path =
     (case metadata path of
        Ok (sz, readonly) \<Rightarrow>
          \<lparr>ck_check_name = ''Binary Validity'', ck_passed = (sz > 0), ck_severity = (if sz > 0 then Info else Error),
           ck_message = ''Binary size: '' @ show_u64 sz @ '' bytes'',
           ck_details = Some (''Readable: '' @ (if readonly then ''No'' else ''Yes'') @ '', Size check: '' @ (if sz > 0 then ''Pass'' else ''Fail'')),
           ck_suggestion = (if sz = 0 then Some ''Binary file is empty. Rebuild the plugin.'' else None)\<rparr>
      | Err e \<Rightarrow>
          \<lparr>ck_check_name = ''Binary Validity'', ck_passed = False, ck_severity = Critical,
           ck_message = ''Cannot read binary metadata: '' @ e, ck_details = Some e,
           ck_suggestion = Some ''Check file permissions and ensure binary exists''\<rparr>)"

fun platform_extension :: "Platform \<Rightarrow> string option" where
  "platform_extension Linux = Some ''.so''"
| "platform_extension MacOS = Some ''.dylib''"
| "platform_extension Windows = Some ''.dll''"
| "platform_extension (UnknownPlatform s) = None"

definition check_platform_compatibility :: "(string \<Rightarrow> bool) \<Rightarrow> string \<Rightarrow> Platform \<Rightarrow> check_result" where
  "check_platform_compatibility exists path expected =
     (if \<not> exists path then
        \<lparr>ck_check_name = ''Platform Compatibility'', ck_passed = False, ck_severity = Critical, ck_message = ''Binary file not found'',
         ck_details = None, ck_suggestion = Some ''Build and package the plugin correctly''\<rparr>
      else let ok = (case platform_extension expected of Some ext \<Rightarrow> str_contains path ext | None \<Rightarrow> False); p = Platform_as_str expected in
        \<lparr>ck_check_name = ''Platform Compatibility'', ck_passed = ok, ck_severity = (if ok then Info else Warning),
         ck_message = (if ok then ''Binary appears to be for '' @ p else ''Binary may not be for '' @ p @ '' platform''),
         ck_details = Some (''Expected platform: '' @ p),
         ck_suggestion = (if \<not> ok then Some (''Rebuild plugin for '' @ p @ '' platform'') else None)\<rparr>)"

definition check_required_symbols :: "'f PluginHealthChecker \<Rightarrow> check_result" where
  "check_required_symbols H =
     (let required = length (filter (\<lambda>(_, s). sr_required s) (hc_required_symbols H));
          optional = length (hc_required_symbols H) - required
      in \<lparr>ck_check_name = ''Required Symbols'', ck_passed = (required > 0), ck_severity = (if required > 0 then Info else Warning),
          ck_message = ''Required symbols check: '' @ show_nat (length (hc_required_symbols H)) @ '' symbols required'',
          ck_details = Some (''Total required: '' @ show_nat required @ '', Optional: '' @ show_nat optional), ck_suggestion = None\<rparr>)"

definition performance_issues :: "('f \<Rightarrow> 'f \<Rightarrow> bool) \<Rightarrow> ('f \<Rightarrow> string) \<Rightarrow> 'f PerformanceThresholds \<Rightarrow> 'f PerformanceBaseline \<Rightarrow> string list" where
  "performance_issues le show_f t b =
     (if le (pb_init_time_ms b) (pt_max_init_time_ms t) then [] else
       [''Init time: '' @ show_f (pb_init_time_ms b) @ '' ms (threshold: '' @ show_f (pt_max_init_time_ms t) @ '' ms)'']) @
     (if le (pb_shutdown_time_ms b) (pt_max_shutdown_time_ms t) then [] else
       [''Shutdown time: '' @ show_f (pb_shutdown_time_ms b) @ '' ms (threshold: '' @ show_f (pt_max_shutdown_time_ms t) @ '' ms)'']) @
     (if le (pb_memory_usage_mb b) (pt_max_memory_usage_mb t) then [] else
       [''Memory usage: '' @ show_f (pb_memory_usage_mb b) @ '' MB (threshold: '' @ show_f (pt_max_memory_usage_mb t) @ '' MB)'']) @
     (if pb_max_concurrent_calls b \<ge> pt_min_concurrent_calls t then [] else
       [''Concurrency: '' @ show_u32 (pb_max_concurrent_calls b) @ '' calls (threshold: '' @ show_u32 (pt_min_concurrent_calls t) @ '')''])"

definition check_performance_baseline :: "('f \<Rightarrow> 'f \<Rightarrow> bool) \<Rightarrow> ('f \<Rightarrow> string) \<Rightarrow> 'f PerformanceBaseline \<Rightarrow> 'f PluginHealthChecker \<Rightarrow> check_result" where
  "check_performance_baseline le show_f b H =
     (let issues = performance_issues le show_f (hc_performance_thresholds H) b; ok = (issues = [])
      in \<lparr>ck_check_name = ''Performance Baseline'', ck_passed = ok, ck_severity = (if ok then Info else Warning),
          ck_message = (if ok then ''Performance baseline within acceptable thresholds''
            else ''Performance issues detected: '' @ show_nat (length issues) @ '' found''),
          ck_details = (if ok then None else Some (join '', '' issues)),
          ck_suggestion = (if \<not> ok then Some ''Review performance metrics and optimize hot paths'' else None)\<rparr>)"

fun severity_penalty :: "severity \<Rightarrow> u32" where
  "severity_penalty Critical = 20"
| "severity_penalty Error = 10"
| "severity_penalty Warning = 5"
| "severity_penalty Info = 0"

definition score_check :: "check_result \<Rightarrow> u32 \<times> bool \<Rightarrow> u32 \<times> bool" where
  "score_check c = (\<lambda>(score, critical_found).
     let s = saturating_sub score (severity_penalty (ck_severity c))
     in (if \<not> ck_passed c then saturating_sub s 5 else s, critical_found \<or> ck_severity c = Critical))"

definition calculate_health_score :: "check_result list \<Rightarrow> HealthScore" where
  "calculate_health_score checks =
     (if checks = [] then \<lparr>hs_score = 50, hs_status = Poor\<rparr>
      else let (score, critical_found) = fold score_check checks (100, False);
               s = min (if critical_found then min score 30 else score) 100
           in \<lparr>hs_score = s, hs_status = HealthStatus_from_score s\<rparr>)"

definition status_recommendation :: "HealthStatus \<Rightarrow> string" where
  "status_recommendation st =
     (case st of
        CriticalHealth \<Rightarrow> ''URGENT: Plugin has critical health issues that must be addressed before deployment''
      | Poor \<Rightarrow> ''Plugin has multiple issues. Review all failed checks and fix high-priority items.''
      | Fair \<Rightarrow> ''Plugin has some issues. Address warnings and errors to improve health score.''
      | Good \<Rightarrow> ''Plugin is healthy. Continue monitoring for regressions.''
      | Excellent \<Rightarrow> ''Excellent plugin health. Maintain current quality standards.'')"

definition generate_recommendations :: "check_result list \<Rightarrow> HealthScore \<Rightarrow> string list" where
  "generate_recommendations checks score =
     List.map_filter (\<lambda>c. if \<not> ck_passed c then ck_suggestion c else None) checks @ [status_recommendation (hs_status score)]"

section \<open>What the checks find\<close>

lemma Permission_roundtrip: "Permission_try_parse (Permission_as_str p) = Some p"
  by (cases p) (simp_all add: Permission_try_parse_def)

lemma severity_roundtrip: "severity_try_parse (severity_as_str s) = Some s"
  by (cases s) (simp_all add: severity_try_parse_def to_lowercase_def to_ascii_lower_def)

definition limits_within :: "ResourceLimits \<Rightarrow> ResourceLimits \<Rightarrow> bool" where
  "limits_within r l \<longleftrightarrow> rl_max_memory_mb r \<le> rl_max_memory_mb l \<and> rl_max_cpu_time_ms r \<le> rl_max_cpu_time_ms l \<and>
     rl_max_file_descriptors r \<le> rl_max_file_descriptors l \<and> rl_max_threads r \<le> rl_max_threads l \<and> rl_max_processes r \<le> rl_max_processes l"

lemma resource_limits_checked: "ck_passed (check_resource_limits r V) \<longleftrightarrow> limits_within r (sb_resource_limits V)"
  by (auto simp: check_resource_limits_def Let_def limit_issues_def limits_within_def)

lemma default_whitelist: "ck_passed (check_syscall_whitelist n PluginSandboxVerifier_new) \<longleftrightarrow> n \<in> {''read'', ''write'', ''mmap'', ''brk''}"
  by (auto simp: check_syscall_whitelist_def PluginSandboxVerifier_new_def default_syscall_whitelist_def syscall_def Let_def)

text \<open>The checks of a verifier, in any combination.\<close>

inductive verifier_check :: "PluginSandboxVerifier \<Rightarrow> check_result \<Rightarrow> bool" for V where
  "verifier_check V (check_syscall_whitelist n V)"
| "verifier_check V (check_permission_request p)"
| "verifier_check V (check_resource_limits r V)"
| "verifier_check V (check_capability_model c)"

lemma never_critical: "verifier_check V c \<Longrightarrow> ck_severity c \<noteq> Critical"
  by (induction rule: verifier_check.induct)
    (simp_all add: check_syscall_whitelist_def check_permission_request_def check_resource_limits_def check_capability_model_def Let_def)

text \<open>
  No check of the verifier is critical, and a report is compliant without failed critical checks: whatever a plugin asks for,
  \<open>execve\<close> and \<open>ptrace\<close> included, its report is compliant.
\<close>

theorem always_compliant: "(\<And>c. c \<in> set (sv_checks r) \<Longrightarrow> verifier_check V c) \<Longrightarrow> is_compliant r"
  using never_critical by (fastforce simp: is_compliant_def list_ex_iff)

theorem always_compliant_witness:
  "is_compliant \<lparr>sv_plugin_id = ''p'', sv_plugin_version = ''1'', sv_verification_timestamp = [], sv_is_sandboxed = False,
     sv_checks = [check_syscall_whitelist ''execve'' PluginSandboxVerifier_new], sv_requested_permissions = [SystemCall],
     sv_resource_limits = ResourceLimits_default, sv_capabilities = [], sv_high_risk_count = 1, sv_total_risk_score = 10\<rparr> \<and>
   \<not> ck_passed (check_syscall_whitelist ''execve'' PluginSandboxVerifier_new)"
  using default_whitelist [of "''execve''"] by (auto intro!: always_compliant [where V = PluginSandboxVerifier_new] verifier_check.intros)

lemma permissions_always_granted: "ck_passed (check_permission_request p)"
  by (simp add: check_permission_request_def)

text \<open>The risk of a list of permissions is the sum of theirs; a single call on the system is of low risk.\<close>

lemma severity_bounds: "2 \<le> permission_severity p \<and> permission_severity p \<le> 10"
  by (cases p) simp_all

lemma risk_score_sum: "length ps \<le> 1000 \<Longrightarrow> unat (calculate_risk_score ps) = sum_list (map (\<lambda>p. unat (permission_severity p)) ps)"
proof -
  have small: "unat (permission_severity p) \<le> 10" for p by (cases p) simp_all
  have "sum_list (map (\<lambda>p. unat (permission_severity p)) ps) \<le> 10 * length ps \<and>
      (length ps \<le> 1000 \<longrightarrow> unat (calculate_risk_score ps) = sum_list (map (\<lambda>p. unat (permission_severity p)) ps))"
  proof (induction ps)
    case (Cons p ps)
    then have le: "sum_list (map (\<lambda>p. unat (permission_severity p)) ps) \<le> 10 * length ps" by simp
    moreover have "unat (calculate_risk_score (p # ps)) = unat (permission_severity p) + sum_list (map (\<lambda>p. unat (permission_severity p)) ps)"
      if "length (p # ps) \<le> 1000"
    proof -
      have "unat (calculate_risk_score ps) = sum_list (map (\<lambda>p. unat (permission_severity p)) ps)" using Cons that by simp
      moreover have "unat (permission_severity p) + unat (calculate_risk_score ps) < 2 ^ 32"
        using small [of p] le that calculation by simp
      ultimately show ?thesis by (simp add: calculate_risk_score_def unat_word_ariths)
    qed
    ultimately show ?case using small [of p] by simp
  qed (simp add: calculate_risk_score_def)
  then show "length ps \<le> 1000 \<Longrightarrow> ?thesis" by simp
qed

lemma system_calls_low_risk: "analyze_risk [SystemCall] = (10, 1, RLow)"
  by (simp add: analyze_risk_def calculate_risk_score_def high_risk_def risk_level_def)

section \<open>The health score\<close>

definition penalty :: "check_result \<Rightarrow> nat" where
  "penalty c = unat (severity_penalty (ck_severity c)) + (if ck_passed c then 0 else 5)"

lemma score_checks:
  "unat (fst (fold score_check cs (s, k))) = unat s - sum_list (map penalty cs) \<and>
   snd (fold score_check cs (s, k)) = (k \<or> (\<exists>c\<in>set cs. ck_severity c = Critical))"
proof (induction cs arbitrary: s k)
  case (Cons c cs)
  obtain s' k' where step: "score_check c (s, k) = (s', k')" by fastforce
  then have "unat s' = unat s - penalty c" "k' = (k \<or> ck_severity c = Critical)"
    by (auto simp: score_check_def Let_def saturating_sub_unat penalty_def split: if_splits)
  then show ?case using Cons.IH [of s' k'] by (auto simp: step)
qed simp

theorem health_score_correct:
  "checks \<noteq> [] \<Longrightarrow>
   unat (hs_score (calculate_health_score checks)) =
     (let s = 100 - sum_list (map penalty checks) in if \<exists>c\<in>set checks. ck_severity c = Critical then min s 30 else s) \<and>
   hs_status (calculate_health_score checks) = HealthStatus_from_score (hs_score (calculate_health_score checks))"
proof -
  assume ne: "checks \<noteq> []"
  obtain s k where f: "fold score_check checks (100, False) = (s, k)" by fastforce
  have s: "unat s = 100 - sum_list (map penalty checks)" "k = (\<exists>c\<in>set checks. ck_severity c = Critical)"
    using score_checks [of checks 100 False] f by simp_all
  have m: "unat (min a b) = min (unat a) (unat b)" for a b :: u32 by (simp add: min_def word_le_nat_alt)
  show ?thesis using ne s by (auto simp: calculate_health_score_def f Let_def m)
qed

text \<open>No score leaves the scale; a critical finding, or no check at all, keeps a plugin from being good.\<close>

corollary health_score_bounded:
  "hs_score (calculate_health_score checks) \<le> 100"
proof (cases "checks = []")
  case False
  then have "unat (hs_score (calculate_health_score checks)) \<le> 100" using health_score_correct [OF False] by (simp add: Let_def min_def)
  then show ?thesis by (simp add: word_le_nat_alt)
qed (simp add: calculate_health_score_def)

corollary critical_means_critical:
  "c \<in> set checks \<Longrightarrow> ck_severity c = Critical \<Longrightarrow> hs_status (calculate_health_score checks) = CriticalHealth"
proof -
  assume c: "c \<in> set checks" "ck_severity c = Critical"
  then have ne: "checks \<noteq> []" by auto
  have "unat (hs_score (calculate_health_score checks)) \<le> 30" using health_score_correct [OF ne] c by (auto simp: Let_def)
  then have "hs_score (calculate_health_score checks) \<le> 30" by (simp add: word_le_nat_alt)
  then show ?thesis using health_score_correct [OF ne] by (auto simp: HealthStatus_from_score_def word_le_nat_alt)
qed

text \<open>The platform is read from the name anywhere in the path: a directory \<open>x.so\<close> makes a library for Windows one for Linux.\<close>

lemma platform_by_substring:
  "exists ''/opt/x.so/plugin.dll'' \<Longrightarrow> ck_passed (check_platform_compatibility exists ''/opt/x.so/plugin.dll'' Linux)"
  by (simp add: check_platform_compatibility_def Let_def starts_with_def)

text \<open>The check of symbols counts the checker's own table and looks at no library.\<close>

lemma symbols_always_pass: "ck_passed (check_required_symbols (PluginHealthChecker_new num))"
  by (simp add: check_required_symbols_def PluginHealthChecker_new_def default_required_symbols_def)

end
