(* ===== verification/Spec2Isabelle.thy ===== *)
theory Spec2Isabelle
  imports Load_Order Dep_Tree Version_Reload Circuit_Breaker Epoch_Guard Authz Auth_Http Policy_Engine Hot_Reload Job_Queue
    Plugin_Memory Plugin_Auth Abi_Sandbox Audit_File Cluster Service_Discovery Plugin_Services Secrets Security_Events Event_System Config_Manager Trace_Context
    Package_Upgrade Package_Composition Package_Metadata Package_Matrix Package_Sandbox
begin

text \<open>
  A verification library for Skylet, a runtime that loads plugins as shared libraries, orders them
  by their dependencies, replaces them while they run, and decides what they may do.

  \<^bold>\<open>The program's parts and the theories that model them\<close>

  \<^item> \<^emph>\<open>Dependencies\<close> (\<open>src/abi/src/dependencies\<close>). \<open>Dep_Version\<close> models \<open>version.rs\<close>: the types
    \<open>Version\<close> and \<open>Prerelease\<close>, the parser, the printer, the \<open>Ord\<close> implementations and the bumps.
    \<open>Dep_Constraints\<close> models \<open>constraints.rs\<close>: constraints and requirements with parser, printer and
    matcher. \<open>Dep_Graph\<close> models \<open>graph.rs\<close> (\<open>add_plugin\<close> with its reverse index, \<open>detect_cycles\<close>,
    \<open>topological_sort\<close>, the transitive closures, the activation orders) and \<open>Dep_Graph_Props\<close> proves
    it correct. \<open>Dep_Resolver\<close> models \<open>resolver.rs\<close>: candidates, \<open>select_version\<close>, \<open>resolve\<close>,
    \<open>can_resolve\<close>.
  \<^item> \<^emph>\<open>Plugin manager\<close> (\<open>src/src/plugin_manager\<close>). \<open>Load_Order\<close> models \<open>dependency_resolver.rs\<close>, which
    parses the dependency strings of the manifests and sorts the graph of \<open>Dep_Graph\<close>.
    \<open>Version_Reload\<close> models \<open>version_reload.rs\<close>, the decision to reload a plugin whose file changed.
    \<open>Circuit_Breaker\<close> models \<open>failover.rs\<close>: breakers, failover strategies and the queue of requests.
    \<open>Epoch_Guard\<close> models \<open>epoch_guard.rs\<close>: readers that hold a plugin while writers replace it.
    \<open>Plugin_Manager\<close> models the table of plugins of \<open>manager.rs\<close> and the registries of remote calls
    (\<open>rpc_global.rs\<close>, \<open>src/abi/src/rpc.rs\<close>). \<open>Plugin_Lifecycle\<close> models \<open>lifecycle.rs\<close>: installation,
    activation, deactivation and removal, over that manager and the packages of \<open>Local_Registry\<close>.
    \<open>Hot_Reload\<close> models \<open>hot_reload.rs\<close> and \<open>dynamic_reload.rs\<close>: watching, debouncing, reloading with a
    snapshot of the plugin's state and a rollback.
    \<open>Plugin_Services\<close> and \<open>Event_Bus\<close> model the backends of \<open>manager.rs\<close> that plugins call: configuration, services,
    routes, remote calls, and the event bus of \<open>src/abi/src/lib.rs\<close>. \<open>Event_System\<close> models the directory
    \<open>events\<close>: filters, the storage of events with dead letters, the router.
  \<^item> \<^emph>\<open>Packages\<close> (\<open>src/plugin-packager/src\<close>). \<open>Local_Registry\<close> models \<open>registry.rs\<close>: the registered
    versions, requirement strings, and the search for what has to be installed and in which order. \<open>Dep_Tree\<close>
    models \<open>dep_tree.rs\<close>: graphs of plugins with cycle detection, the tree shown to the user, shortest paths.
    \<open>Package_Upgrade\<close> models \<open>upgrade.rs\<close>, versions and the backups that a plugin is restored from, over the file system of
    \<open>File_Tree\<close>; \<open>Package_Composition\<close> \<open>composition.rs\<close>; \<open>Package_Metadata\<close> \<open>abi_compat.rs\<close>, \<open>metadata.rs\<close> and
    \<open>validation.rs\<close>; \<open>Package_Matrix\<close> \<open>compat_matrix.rs\<close> and \<open>optional_deps.rs\<close>; \<open>Package_Sandbox\<close> \<open>sandbox.rs\<close> and
    \<open>health_check.rs\<close>.
  \<^item> \<^emph>\<open>Memory\<close> (\<open>src/src/memory\<close>). \<open>Plugin_Memory\<close> models the tracker, the bounded arena, the tracking
    allocator and the object pool.
  \<^item> \<^emph>\<open>Jobs\<close> (\<open>src/job-queue/src/job_queue.rs\<close>). \<open>Job_Queue\<close> models the queue in a database table, the
    retries and the rounds of the dispatch loop.
  \<^item> \<^emph>\<open>ABI security\<close> (\<open>src/abi/src/security.rs\<close>). \<open>Plugin_Mfa\<close> models one-time passwords, backup codes and
    challenges; \<open>Plugin_Auth\<close> the authenticator with credentials, their rotation and roles, over
    \<open>Plugin_Mfa\<close>; \<open>Abi_Sandbox\<close> the input validators, the capacity limit and the sandbox policies; \<open>Secrets\<close> the
    encrypted store of secrets with its provider, and the backend of \<open>manager.rs\<close> over it; \<open>Security_Events\<close> key types, the
    events of a rotation and the log of security events.
  \<^item> \<^emph>\<open>Audit log\<close> (\<open>src/abi/src/audit.rs\<close>). \<open>Audit_Log\<close> models events, signatures, filters, search, statistics and the
    log in memory, \<open>Audit_File\<close> the log in a file with encryption, key rotation and replication.
  \<^item> \<^emph>\<open>Services\<close> (\<open>src/abi/src\<close>). \<open>Cluster\<close> models \<open>clustering.rs\<close>, the exchange of services between nodes with version
    vectors; \<open>Service_Discovery\<close> models \<open>service_discovery.rs\<close>.
  \<^item> \<^emph>\<open>Plugin configuration\<close> (\<open>src/abi/src/config\<close>). \<open>Config_Schema\<close> models JSON values and \<open>schema.rs\<close>, \<open>Config_Validator\<close>
    \<open>validator.rs\<close>, \<open>Config_Ui\<close> \<open>ui_generator.rs\<close>, \<open>Config_Secrets\<close> \<open>secret_resolver.rs\<close>, \<open>Config_Manager\<close> \<open>mod.rs\<close>, which
    composes them.
  \<^item> \<^emph>\<open>Logging and tracing\<close> (\<open>src/abi/src/logging\<close>, \<open>src/abi/src/tracing_mod\<close>). \<open>Log_Schema\<close> models the log events and their
    timestamps, \<open>Trace_Context\<close> identifiers, spans, the W3C headers, sampling, and the scopes of a thread.
  \<^item> \<^emph>\<open>ABI loading\<close> (\<open>src/abi/src\<close>). \<open>Abi_Symbols\<close> models \<open>symbols.rs\<close> (signatures and the registry of
    symbols) and \<open>abi_compat.rs\<close> (versions of the interface); \<open>Load_Pipeline\<close> models \<open>lifecycle.rs\<close>:
    the stages of loading a plugin, their errors, the recovery strategy and the metrics.
  \<^item> \<^emph>\<open>User permissions\<close> (\<open>src/permissions/src\<close>). \<open>Permissions\<close> models \<open>types.rs\<close>, \<open>Authz\<close> models
    \<open>authz.rs\<close>: the role checker and its cache, the middleware, resource grants, the audit log. \<open>User_Auth\<close> models
    \<open>auth.rs\<close>: rate limiter, users, passwords, sessions, the kinds of credentials. \<open>Auth_Http\<close> models the handlers
    of \<open>http.rs\<close> over it.
  \<^item> \<^emph>\<open>Plugin capabilities\<close> (\<open>src/abi/src/security_rfc\<close>). \<open>Security_Caps\<close> models
    \<open>capabilities.rs\<close>, \<open>Net_Enforcer\<close> \<open>network.rs\<close>, \<open>Fs_Enforcer\<close> \<open>filesystem.rs\<close>, \<open>Policy_Engine\<close>
    \<open>policy.rs\<close>.
  \<^item> \<open>Skylet_Prelude\<close> and \<open>Rust_Str\<close> hold what all of them share: words, results, \<open>Ordering\<close>, and the
    functions on strings of Rust's standard library that the sources call.

  \<^bold>\<open>Conventions\<close>

  A struct is a record and an enum a datatype with the constructors of the source. A method with
  \<open>&mut self\<close>, or with interior mutability, takes the state last and returns it updated. \<open>Result\<close> is a
  sum with \<open>Ok\<close> and \<open>Err\<close>; an operation that may panic returns an option, and \<open>None\<close> is the panic.
  \<open>u64\<close>, \<open>u32\<close> and \<open>usize\<close> are words of their width (\<open>usize\<close> has 64 bits), with the wrap-around of the release
  build. A hash map is an association list with distinct keys whose order stands for
  the unspecified order of iteration, or a partial map where it is never iterated. Locks are not
  modelled: an operation that holds one is one step, and \<open>Epoch_Guard\<close>, where the code is
  lock-free, has one step for each atomic action. Log output is left out.

  The clock, random numbers, the file system and archives, the loader of shared libraries, memory
  behind raw pointers, the database, HMAC and MD5, and the memory reclamation of \<open>crossbeam_epoch\<close> are
  arguments of the definitions, and so are JSON and TOML text, AES, Argon2, Ed25519, age, base64 and hexadecimal text, regular expressions, the
  parser of URLs, and Vault. Floating-point numbers are a type parameter with the record \<open>F64\<close> of operations. The laws of the database table, of
  dates and of base64 are
  \<open>store_laws\<close>, a hypothesis of the properties of the queue, and hold for a concrete table (\<open>table_env\<close>). In the same
  way \<open>file_laws\<close> states that JSON lines, encryption and hexadecimal text of the audit log are read back as they were written,
  \<open>argon2_law\<close> that a password matches its own hash only, \<open>aead_law\<close> that decryption inverts encryption with the same
  key and context; each has a concrete instance in a witness. What the
  code relies on of the collector is the law of the locale \<open>epoch_collector\<close>, and the property that
  rests on it has the law as a hypothesis.

  Every loop of the modelled code is a total function: structural recursion, or a termination
  proof by a measure (the nodes not visited in depth-first search, the degrees that remain in Kahn's
  algorithm). No definition has fuel.

  \<^bold>\<open>Interfaces\<close>

  \<open>rust_ord\<close> is the contract of \<open>Ord\<close>, interpreted for identifiers, pre-releases, versions and the
  reload versions; selection of the best candidate (\<open>max_by\<close>) is proved once inside it.
  \<open>window_limiter\<close> bounds the attempts in any window and is interpreted for the limiter of logins and for the one of
  client addresses. The version vectors of the cluster interpret the library's \<open>preordering\<close>.
  \<open>decision_cache\<close> is what the role checker needs of its cache, \<open>access_enforcer\<close> what the network and the
  filesystem enforcer promise, \<open>epoch_collector\<close> what readers need of the collector, \<open>plugin_host\<close> what
  the lifecycle manager and the hot reload service need of the manager they load plugins into.

  \<^bold>\<open>What is shown\<close>

  Versions: parsing and printing are inverse, the parser yields well-formed versions only, precedence
  is a lawful total order, constraints are the documented ranges. Graph: cycle detection is sound
  and complete, the sort returns every plugin after its dependencies and finds an order exactly when
  there is one and the input is complete, the closures are reachability. Resolver: resolution
  succeeds exactly when the graph can be ordered and every plugin has a satisfying candidate, and it
  selects the best. Loading order: sound and complete over dependency strings. Reload: a plugin is
  reported only for a newer file with another version. Breakers: the transitions (theorem \<open>breaker_transitions\<close>), the
  threshold, recovery. Epoch guards: no plugin is destroyed while it is held, under every
  interleaving. Roles: the cache refines the decision of the roles under a stated discipline.
  Enforcers: isolation between plugins, default denial, metadata endpoints blocked. Policy engine:
  an invariant of all runs, no approval without \<open>approve\<close>, the effect of each operation. Manager and
  lifecycle: active plugins are the loaded ones in every disciplined run, no loader is lost or
  retired twice, the outcome of each operation and of a reload with its rollback. Packages:
  resolving an installation ends, and its result is closed under dependencies and ordered; a plugin restored from its backup
  is what was backed up, pruning keeps the newest backups; the validators of manifests, compositions, conditions and the
  health score are characterised exactly. Memory: the
  counters agree with the live blocks and objects, the limits hold. Jobs: the queue refines a map of
  jobs, a round of the loop loses no job unless storing fails, the schedule of attempts.
  Authentication: who is accepted, when, and after which operations; versions and history of
  credentials; bounds on attempts, single use of backup codes, the window of one-time passwords.
  Validators: what they let through is harmless. Loading: when it succeeds, what errors mean,
  the bounds of the back-off. Users: who logs in with a password, how often a password can be guessed, and what sessions live
  for. Audit log: the log in a file answers queries as the log in memory does, encrypted lines are read back after any
  rotations, replication delivers every event at least once. Cluster: two nodes that exchange their services agree.
  Events: who receives a published event, what the storage returns for a query. Secrets, routes, services:
  the backends refine maps that are separate for each plugin. Configuration: validation accepts exactly what
  meets the schema, stored values keep their types, secrets come from the backend or from an answer that is
  young enough, resolution replaces the references only. Logging: timestamps are ordered as the times are. Tracing: contexts survive the
  passage through headers.

  Some theorems state where the code differs from its documentation: duplicate or unregistered
  dependencies are reported as cycles, rejected calls keep a circuit open, cached decisions survive
  \<open>register_role\<close>, paths are compared without normalisation, approvals count until the clean-up, a job
  can be delivered twice, a challenge of another plugin authenticates.

  \<^bold>\<open>What is not modelled\<close>

  Foreign-function declarations and the loading of shared libraries, archive and network input and
  output, cryptography, start-up glue, tests; floating-point ratios and the printers that use the
  derived \<open>Debug\<close>. The router \<open>src/http-router\<close>, which wraps a library of regular expressions. Metrics and
  configuration of the plugin manager (\<open>src/src/plugin_manager/metrics\<close>, \<open>config\<close>), which the runtime only fills. The cache
  (\<open>src/src/cache\<close>) and \<open>enhanced_hot_reload\<close>, which are not part of the build. Of the packager: archives,
  signatures, publishing and the remote registry. Key
  management, instances and network transport (\<open>src/abi/src\<close>).
\<close>

end
